(* ===== verification/Prelude.thy ===== *)
theory Prelude
  imports Main "HOL-Library.Word"
begin

text \<open>
  Shared vocabulary of the development: the integer widths of C, the ways a C function
  can go wrong, the allocator, byte copies, and the list lemmas the components share.
  Unsigned C values are \<open>nat\<close> (or non-negative \<open>int\<close>) reduced modulo their
  width at every place the source computes or stores them; signed values are \<open>int\<close>
  passed through \<open>s32\<close> and its kin.  Bit-level code uses \<open>'n word\<close>.
\<close>

named_theorems c_simps \<open>evaluation of the C integer conversions\<close>

section \<open>Integer widths\<close>

abbreviation u8 :: "'a::linordered_euclidean_semiring \<Rightarrow> 'a" where "u8 x \<equiv> x mod 256"
abbreviation u16 :: "'a::linordered_euclidean_semiring \<Rightarrow> 'a" where "u16 x \<equiv> x mod 65536"
abbreviation u32 :: "'a::linordered_euclidean_semiring \<Rightarrow> 'a" where "u32 x \<equiv> x mod 4294967296"
abbreviation u64 :: "'a::linordered_euclidean_semiring \<Rightarrow> 'a" where
  "u64 x \<equiv> x mod 18446744073709551616"

definition s32 :: "int \<Rightarrow> int" where
  "s32 x = (x + 2147483648) mod 4294967296 - 2147483648"

definition s8 :: "int \<Rightarrow> int" where
  "s8 x = (x + 128) mod 256 - 128"

lemma s32_id [c_simps]: "- 2147483648 \<le> x \<Longrightarrow> x < 2147483648 \<Longrightarrow> s32 x = x"
  by (simp add: s32_def)

lemma s32_range: "- 2147483648 \<le> s32 x \<and> s32 x < 2147483648"
  by (simp add: s32_def)

lemma s8_id [c_simps]: "- 128 \<le> x \<Longrightarrow> x < 128 \<Longrightarrow> s8 x = x"
  by (simp add: s8_def)

section \<open>How a C function can go wrong\<close>

text \<open>
  \<open>Null_Deref\<close>: a member of a NULL pointer is read or written; \<open>Out_Of_Bounds\<close>: memory
  outside an object is accessed; \<open>Out_Of_Fuel\<close>: the bound given to a recursion was too
  small to tell; \<open>Exit\<close>: the process calls \<open>exit()\<close>; \<open>Div_By_Zero\<close>: the C
  operators \<open>/\<close> and \<open>%\<close> with a zero divisor; \<open>Uninitialised\<close>: memory that was never written
  is used; \<open>Undefined_Shift\<close>: a shift by a negative amount or by the width of the type or more.
\<close>

datatype fault =
    Null_Deref | Out_Of_Bounds | Out_Of_Fuel | Exit nat | Div_By_Zero | Uninitialised | Undefined_Shift

abbreviation (input) bindE :: "('e + 'a) \<Rightarrow> ('a \<Rightarrow> 'e + 'b) \<Rightarrow> 'e + 'b" where
  "bindE m f \<equiv> (case m of Inl e \<Rightarrow> Inl e | Inr x \<Rightarrow> f x)"

text \<open>A loop over a list that threads a state and may fail.\<close>

fun fold_e :: "('a \<Rightarrow> 's \<Rightarrow> 'e + 's) \<Rightarrow> 'a list \<Rightarrow> 's \<Rightarrow> 'e + 's" where
  "fold_e f [] s = Inr s"
| "fold_e f (x # xs) s = (case f x s of Inl e \<Rightarrow> Inl e | Inr s' \<Rightarrow> fold_e f xs s')"

lemma fold_e_invariant:
  assumes "\<And>x s. x \<in> set xs \<Longrightarrow> I s \<Longrightarrow> \<exists>s'. f x s = Inr s' \<and> I s'" "I s"
  shows "\<exists>s'. fold_e f xs s = Inr s' \<and> I s'"
  using assms
proof (induction xs arbitrary: s)
  case (Cons x xs)
  obtain s1 where s1: "f x s = Inr s1" "I s1" using Cons.prems(1) [of x s] Cons.prems(2) by auto
  then show ?case using Cons.IH [OF _ s1(2)] Cons.prems(1) by auto
qed simp

section \<open>The allocator and byte copies\<close>

type_synonym byte = "8 word"

text \<open>
  \<open>avail n\<close>: a request for \<open>n\<close> bytes succeeds; \<open>fresh i\<close>: the (indeterminate) content
  of the \<open>i\<close>-th byte of memory that was never written.
\<close>

record heap_env =
  avail :: "nat \<Rightarrow> bool"
  fresh :: "nat \<Rightarrow> byte"

definition c_realloc :: "heap_env \<Rightarrow> byte list \<Rightarrow> nat \<Rightarrow> byte list option" where
  "c_realloc h old n =
     (if avail h n then Some (take n old @ map (fresh h) [length old..<n]) else None)"

definition blit :: "nat \<Rightarrow> 'a list \<Rightarrow> 'a list \<Rightarrow> 'a list" where
  "blit off src dst = take off dst @ src @ drop (off + length src) dst"

lemma length_blit [simp]: "off + length src \<le> length dst \<Longrightarrow> length (blit off src dst) = length dst"
  by (simp add: blit_def)

lemma take_blit_before: "n \<le> off \<Longrightarrow> off \<le> length dst \<Longrightarrow> take n (blit off src dst) = take n dst"
  by (simp add: blit_def min_def)

lemma take_blit_end:
  "off \<le> length dst \<Longrightarrow> take (off + length src) (blit off src dst) = take off dst @ src"
  by (simp add: blit_def)

lemma drop_blit_after:
  "off + length src \<le> n \<Longrightarrow> off + length src \<le> length dst \<Longrightarrow> drop n (blit off src dst) = drop n dst"
  by (simp add: blit_def)

lemma take_blit_within:
  assumes "off + length src \<le> n" and "n \<le> length dst"
  shows "take n (blit off src dst) = blit off src (take n dst)"
  using assms by (simp add: blit_def take_drop min_absorb1 min_absorb2)

lemma take_drop_blit:
  "off + length src \<le> length dst \<Longrightarrow> take (length src) (drop off (blit off src dst)) = src"
  by (simp add: blit_def)

lemma c_realloc_Some:
  "c_realloc h old n = Some new \<Longrightarrow> length new = n \<and> (\<forall>m. m \<le> n \<longrightarrow> m \<le> length old \<longrightarrow> take m new = take m old)"
  by (auto simp: c_realloc_def min_def split: if_splits)

lemma c_realloc_fails: "c_realloc h old n = None \<longleftrightarrow> \<not> avail h n"
  by (simp add: c_realloc_def)

end
