(* ===== verification/Gobuffer.thy ===== *)
theory Gobuffer
  imports Prelude
begin

text \<open>
  The grow-only buffer of \<open>gobuffer.c\<close>: bytes are appended, never removed.  \<open>entries\<close> is
  the allocated block (the empty list stands for NULL), so \<open>length (gb_entries g)\<close> is what
  \<open>realloc\<close> last returned; \<open>gb_index\<close> is the number of bytes in use.  Indices are C
  \<open>unsigned int\<close> and wrap.
\<close>

record gobuffer =
  gb_entries :: "byte list"
  gb_nr_entries :: nat
  gb_index :: nat
  gb_allocated_size :: nat

definition gobuffer_zero :: gobuffer where
  "gobuffer_zero = \<lparr>gb_entries = [], gb_nr_entries = 0, gb_index = 0, gb_allocated_size = 0\<rparr>"

definition GOBUFFER__BCHUNK :: nat where
  "GOBUFFER__BCHUNK = 8 * 1024"

definition gobuffer__delete :: "gobuffer option \<Rightarrow> gobuffer option" where
  "gobuffer__delete gb = map_option (\<lambda>g. g\<lparr>gb_entries := []\<rparr>) gb"

definition gobuffer__ptr :: "gobuffer \<Rightarrow> nat \<Rightarrow> nat option" where
  "gobuffer__ptr gb s = (if s \<noteq> 0 then Some s else None)"

definition gobuffer__allocate :: "heap_env \<Rightarrow> gobuffer \<Rightarrow> nat \<Rightarrow> int \<times> gobuffer" where
  "gobuffer__allocate h gb len =
     (let rc = gb_index gb;
          index = u32 (gb_index gb + len)
      in if index \<ge> gb_allocated_size gb then
           (let a0 = u32 (gb_allocated_size gb + GOBUFFER__BCHUNK);
                allocated_size = (if a0 < index then u32 (index + GOBUFFER__BCHUNK) else a0)
            in case c_realloc h (gb_entries gb) allocated_size of
                 None \<Rightarrow> (-12, gb)
               | Some entries \<Rightarrow>
                   (s32 (int rc),
                    gb\<lparr>gb_allocated_size := allocated_size, gb_entries := entries, gb_index := index\<rparr>))
         else (s32 (int rc), gb\<lparr>gb_index := index\<rparr>))"

definition gobuffer__add :: "heap_env \<Rightarrow> gobuffer \<Rightarrow> byte list \<Rightarrow> fault + int \<times> gobuffer" where
  "gobuffer__add h gb s =
     (case gobuffer__allocate h gb (length s) of
        (rc, gb') \<Rightarrow>
          if rc \<ge> 0 then
            if nat rc + length s \<le> length (gb_entries gb') then
              Inr (rc, gb'\<lparr>gb_nr_entries := u32 (gb_nr_entries gb' + 1),
                           gb_entries := blit (nat rc) s (gb_entries gb')\<rparr>)
            else Inl Out_Of_Bounds
          else Inr (rc, gb'))"

definition gobuffer__size :: "gobuffer \<Rightarrow> nat" where
  "gobuffer__size gb = gb_index gb"

definition gobuffer__nr_entries :: "gobuffer \<Rightarrow> nat" where
  "gobuffer__nr_entries gb = gb_nr_entries gb"

definition gobuffer__entries :: "gobuffer \<Rightarrow> byte list" where
  "gobuffer__entries gb = gb_entries gb"

text \<open>What \<open>memcpy\<close> writes to the destination; a NULL block copies at most the byte of \<open>""\<close>.\<close>

definition gobuffer__copy :: "gobuffer \<Rightarrow> fault + byte list" where
  "gobuffer__copy gb =
     (if gb_entries gb \<noteq> [] then
        if gobuffer__size gb \<le> length (gb_entries gb)
        then Inr (take (gobuffer__size gb) (gb_entries gb)) else Inl Out_Of_Bounds
      else if gobuffer__size gb \<le> 1 then Inr (take (gobuffer__size gb) [0]) else Inl Out_Of_Bounds)"

text \<open>
  The clients fill an allocated range with \<open>memcpy(gobuffer__ptr(gb, pos), &m, sizeof(m))\<close>.
\<close>

definition gobuffer_poke :: "gobuffer \<Rightarrow> nat \<Rightarrow> byte list \<Rightarrow> fault + gobuffer" where
  "gobuffer_poke gb pos bs =
     (case gobuffer__ptr gb pos of
        None \<Rightarrow> Inl Null_Deref
      | Some s \<Rightarrow>
          if s + length bs \<le> length (gb_entries gb)
          then Inr (gb\<lparr>gb_entries := blit s bs (gb_entries gb)\<rparr>)
          else Inl Out_Of_Bounds)"

section \<open>Invariant and contents\<close>

definition gobuffer_inv :: "gobuffer \<Rightarrow> bool" where
  "gobuffer_inv g \<longleftrightarrow>
     gb_index g \<le> gb_allocated_size g \<and> length (gb_entries g) = gb_allocated_size g \<and>
     gb_allocated_size g \<le> gb_index g + GOBUFFER__BCHUNK \<and>
     gb_index g + GOBUFFER__BCHUNK < 2147483648"

text \<open>
  The bytes in use, and the condition under which \<open>n\<close> more can be added: memory is
  available and the positions stay in the 31 bits that the \<open>int\<close> results can carry.
\<close>

definition gobuffer_contents :: "gobuffer \<Rightarrow> byte list" where
  "gobuffer_contents g = take (gb_index g) (gb_entries g)"

definition gobuffer_room :: "heap_env \<Rightarrow> gobuffer \<Rightarrow> nat \<Rightarrow> bool" where
  "gobuffer_room h g n \<longleftrightarrow>
     (\<forall>m < 2147483648. avail h m) \<and> gb_index g + n + GOBUFFER__BCHUNK < 2147483648"

lemma gobuffer_inv_zero [simp]: "gobuffer_inv gobuffer_zero"
  by (simp add: gobuffer_inv_def gobuffer_zero_def GOBUFFER__BCHUNK_def)

lemma gobuffer_contents_zero [simp]: "gobuffer_contents gobuffer_zero = []"
  by (simp add: gobuffer_contents_def gobuffer_zero_def)

lemma length_gobuffer_contents:
  "gobuffer_inv g \<Longrightarrow> length (gobuffer_contents g) = gb_index g"
  by (simp add: gobuffer_inv_def gobuffer_contents_def)

section \<open>What allocation and addition do\<close>

lemma gobuffer__allocate_ok:
  assumes "gobuffer_inv g" and "gobuffer_room h g n"
  shows "\<exists>g' junk. gobuffer__allocate h g n = (int (gb_index g), g') \<and> gobuffer_inv g' \<and>
           gb_index g' = gb_index g + n \<and> gb_nr_entries g' = gb_nr_entries g \<and>
           length junk = n \<and> gobuffer_contents g' = gobuffer_contents g @ junk"
proof -
  let ?i = "gb_index g" and ?a = "gb_allocated_size g"
  have idx: "u32 (?i + n) = ?i + n" and rc: "s32 (int ?i) = int ?i"
    using assms(2) by (auto simp: gobuffer_room_def GOBUFFER__BCHUNK_def c_simps)
  show ?thesis
  proof (cases "?i + n \<ge> ?a")
    case False
    then show ?thesis
      using assms idx rc
      by (auto simp: gobuffer__allocate_def gobuffer_inv_def gobuffer_room_def
            gobuffer_contents_def take_add Let_def intro: exI [of _ "take n (drop ?i (gb_entries g))"])
  next
    case True
    define a where "a = (if u32 (?a + GOBUFFER__BCHUNK) < ?i + n then u32 (?i + n + GOBUFFER__BCHUNK)
                         else u32 (?a + GOBUFFER__BCHUNK))"
    have a: "?i + n \<le> a" "a \<le> ?i + n + GOBUFFER__BCHUNK" "a < 2147483648" "?a \<le> a"
      using assms True by (auto simp: a_def gobuffer_inv_def gobuffer_room_def GOBUFFER__BCHUNK_def)
    then obtain new where new: "c_realloc h (gb_entries g) a = Some new"
      using assms(2) by (auto simp: c_realloc_def gobuffer_room_def)
    have len: "length new = a" and pre: "take ?i new = take ?i (gb_entries g)"
      using c_realloc_Some [OF new] a assms(1) by (auto simp: gobuffer_inv_def)
    have "gobuffer__allocate h g n =
            (int ?i, g\<lparr>gb_allocated_size := a, gb_entries := new, gb_index := ?i + n\<rparr>)"
      using True idx rc new by (simp add: gobuffer__allocate_def Let_def a_def [symmetric])
    then show ?thesis
      using a len pre assms
      by (auto simp: gobuffer_inv_def gobuffer_room_def gobuffer_contents_def take_add
            intro: exI [of _ "take n (drop ?i new)"])
  qed
qed

lemma gobuffer__allocate_fails:
  "gobuffer__allocate h g n = (rc, g') \<Longrightarrow> rc = -12 \<Longrightarrow> gb_index g < 2147483648 \<Longrightarrow> g' = g"
  by (auto simp: gobuffer__allocate_def Let_def s32_id split: if_splits option.splits)

lemma gobuffer__add_ok:
  assumes "gobuffer_inv g" and "gobuffer_room h g (length s)"
  shows "\<exists>g'. gobuffer__add h g s = Inr (int (length (gobuffer_contents g)), g') \<and>
           gobuffer_inv g' \<and> gobuffer_contents g' = gobuffer_contents g @ s \<and>
           gb_nr_entries g' = u32 (gb_nr_entries g + 1)"
proof -
  obtain g1 junk where g1: "gobuffer__allocate h g (length s) = (int (gb_index g), g1)"
      "gobuffer_inv g1" "gb_index g1 = gb_index g + length s" "gb_nr_entries g1 = gb_nr_entries g"
      "length junk = length s" "gobuffer_contents g1 = gobuffer_contents g @ junk"
    using gobuffer__allocate_ok [OF assms] by blast
  let ?e = "blit (gb_index g) s (gb_entries g1)"
  have fit: "gb_index g + length s \<le> length (gb_entries g1)"
    using g1 by (simp add: gobuffer_inv_def)
  have "take (gb_index g) (gb_entries g1) = take (gb_index g) (gobuffer_contents g1)"
    using g1(3) by (simp add: gobuffer_contents_def min_def)
  also have "\<dots> = gobuffer_contents g"
    using g1(6) length_gobuffer_contents [OF assms(1)] by simp
  finally have "take (gb_index g + length s) ?e = gobuffer_contents g @ s"
    using fit by (simp add: take_blit_end)
  then show ?thesis
    using g1 fit length_gobuffer_contents [OF assms(1)]
    by (auto simp: gobuffer__add_def gobuffer_inv_def gobuffer_contents_def)
qed

lemma gobuffer_poke_ok:
  assumes "gobuffer_inv g" and "0 < pos" and "pos + length bs \<le> gb_index g"
  shows "\<exists>g'. gobuffer_poke g pos bs = Inr g' \<and> gobuffer_inv g' \<and>
           gobuffer_contents g' = blit pos bs (gobuffer_contents g)"
  using assms
  by (auto simp: gobuffer_poke_def gobuffer__ptr_def gobuffer_inv_def gobuffer_contents_def
        take_blit_within)

section \<open>The interface the encoders use\<close>

text \<open>
  What a client of an append buffer relies on: adding bytes extends the contents and
  returns the old length as the position; allocating extends it with bytes to be filled
  in; filling writes a range that was allocated before.
\<close>

locale append_buffer =
  fixes contents :: "'g \<Rightarrow> byte list"
    and inv :: "'g \<Rightarrow> bool"
    and room :: "'g \<Rightarrow> nat \<Rightarrow> bool"
    and add :: "'g \<Rightarrow> byte list \<Rightarrow> fault + int \<times> 'g"
    and alloc :: "'g \<Rightarrow> nat \<Rightarrow> int \<times> 'g"
    and poke :: "'g \<Rightarrow> nat \<Rightarrow> byte list \<Rightarrow> fault + 'g"
  assumes add_ok: "inv g \<Longrightarrow> room g (length bs) \<Longrightarrow>
      \<exists>g'. add g bs = Inr (int (length (contents g)), g') \<and> inv g' \<and> contents g' = contents g @ bs"
    and add_room: "inv g \<Longrightarrow> room g (length bs + n) \<Longrightarrow> add g bs = Inr (rc, g') \<Longrightarrow> room g' n"
    and alloc_ok: "inv g \<Longrightarrow> room g n \<Longrightarrow>
      \<exists>g' junk. alloc g n = (int (length (contents g)), g') \<and> inv g' \<and> length junk = n \<and>
         contents g' = contents g @ junk"
    and poke_ok: "inv g \<Longrightarrow> 0 < pos \<Longrightarrow> pos + length bs \<le> length (contents g) \<Longrightarrow>
      \<exists>g'. poke g pos bs = Inr g' \<and> inv g' \<and> contents g' = blit pos bs (contents g)"
    and room_mono: "room g n \<Longrightarrow> m \<le> n \<Longrightarrow> room g m"

text \<open>Adding a sequence of entries, and filling a range entry by entry.\<close>

fun add_all :: "('g \<Rightarrow> byte list \<Rightarrow> fault + int \<times> 'g) \<Rightarrow> 'g \<Rightarrow> byte list list \<Rightarrow> fault + 'g" where
  "add_all add g [] = Inr g"
| "add_all add g (bs # bss) =
     (case add g bs of Inl e \<Rightarrow> Inl e | Inr (rc, g') \<Rightarrow> add_all add g' bss)"

fun poke_all :: "('g \<Rightarrow> nat \<Rightarrow> byte list \<Rightarrow> fault + 'g) \<Rightarrow> 'g \<Rightarrow> nat \<Rightarrow> byte list list \<Rightarrow> fault + 'g \<times> nat" where
  "poke_all poke g pos [] = Inr (g, pos)"
| "poke_all poke g pos (bs # bss) =
     (case poke g pos bs of Inl e \<Rightarrow> Inl e | Inr g' \<Rightarrow> poke_all poke g' (pos + length bs) bss)"

lemma blit_concat:
  assumes "off + length x + length y \<le> length dst"
  shows "blit (off + length x) y (blit off x dst) = blit off (x @ y) dst"
  using assms by (cases x) (auto simp: blit_def min_def ac_simps)

context append_buffer
begin

lemma add_all_ok:
  "inv g \<Longrightarrow> room g (length (concat bss)) \<Longrightarrow>
     \<exists>g'. add_all add g bss = Inr g' \<and> inv g' \<and> contents g' = contents g @ concat bss"
proof (induction bss arbitrary: g)
  case Nil
  then show ?case by simp
next
  case (Cons bs bss)
  obtain g1 where g1: "add g bs = Inr (int (length (contents g)), g1)" "inv g1"
      "contents g1 = contents g @ bs"
    using add_ok [of g bs] room_mono [OF Cons.prems(2)] Cons.prems(1) by fastforce
  have "room g1 (length (concat bss))"
    using add_room [OF Cons.prems(1) _ g1(1)] Cons.prems(2) by simp
  from Cons.IH [OF g1(2) this] g1 show ?case by auto
qed

lemma poke_all_ok:
  "inv g \<Longrightarrow> 0 < pos \<Longrightarrow> pos + length (concat bss) \<le> length (contents g) \<Longrightarrow>
     \<exists>g'. poke_all poke g pos bss = Inr (g', pos + length (concat bss)) \<and> inv g' \<and>
        contents g' = blit pos (concat bss) (contents g)"
proof (induction bss arbitrary: g pos)
  case Nil
  then show ?case by (simp add: blit_def)
next
  case (Cons bs bss)
  then obtain g1 where g1: "poke g pos bs = Inr g1" "inv g1"
      "contents g1 = blit pos bs (contents g)"
    using poke_ok [of g pos bs] by auto
  have "pos + length bs + length (concat bss) \<le> length (contents g1)"
    using Cons.prems(3) g1(3) by simp
  with Cons.IH [OF g1(2), of "pos + length bs"] Cons.prems(2)
  obtain g2 where "poke_all poke g1 (pos + length bs) bss = Inr (g2, pos + length bs + length (concat bss))"
      "inv g2" "contents g2 = blit (pos + length bs) (concat bss) (contents g1)"
    by auto
  with g1 Cons.prems(3) show ?case by (simp add: blit_concat add.assoc)
qed

text \<open>An entry allocated with its header and then filled in: the pattern of every aggregate.\<close>

lemma alloc_fill_ok:
  assumes "inv g" and "room g (length hdr + length (concat bss))" and "hdr \<noteq> []"
  shows "\<exists>g1 g2 g3. add g hdr = Inr (int (length (contents g)), g1) \<and>
           alloc g1 (length (concat bss)) = (int (length (contents g) + length hdr), g2) \<and>
           poke_all poke g2 (length (contents g) + length hdr) bss =
             Inr (g3, length (contents g) + length hdr + length (concat bss)) \<and>
           inv g3 \<and> contents g3 = contents g @ hdr @ concat bss"
proof -
  obtain g1 where g1: "add g hdr = Inr (int (length (contents g)), g1)" "inv g1"
      "contents g1 = contents g @ hdr"
    using add_ok [of g hdr] room_mono [OF assms(2)] assms(1) by fastforce
  have "room g1 (length (concat bss))" by (rule add_room [OF assms(1,2) g1(1)])
  from alloc_ok [OF g1(2) this] obtain g2 junk
    where g2: "alloc g1 (length (concat bss)) = (int (length (contents g) + length hdr), g2)"
      "inv g2" "length junk = length (concat bss)" "contents g2 = contents g @ hdr @ junk"
    using g1(3) by auto
  have "blit (length (contents g) + length hdr) (concat bss) (contents g2) =
          contents g @ hdr @ concat bss"
    using g2(3,4) by (simp add: blit_def)
  with poke_all_ok [OF g2(2), of "length (contents g) + length hdr" bss] g2 assms(3) g1
  show ?thesis by auto
qed

end

lemma gobuffer_add_room:
  assumes "gobuffer_inv g" and "gobuffer_room h g (length bs + n)"
    and "gobuffer__add h g bs = Inr (rc, g')"
  shows "gobuffer_room h g' n"
proof -
  have r: "gobuffer_room h g (length bs)" using assms(2) by (simp add: gobuffer_room_def)
  from gobuffer__add_ok [OF assms(1) r] assms(3)
  have "gobuffer_inv g'" "gobuffer_contents g' = gobuffer_contents g @ bs" by auto
  then have "gb_index g' = gb_index g + length bs"
    using length_gobuffer_contents assms(1) by (metis length_append)
  with assms(2) show ?thesis by (simp add: gobuffer_room_def)
qed

interpretation gob: append_buffer gobuffer_contents gobuffer_inv "gobuffer_room h"
  "gobuffer__add h" "gobuffer__allocate h" gobuffer_poke for h
proof unfold_locales
  fix h and g :: gobuffer and bs :: "byte list"
  assume "gobuffer_inv g" "gobuffer_room h g (length bs)"
  then show "\<exists>g'. gobuffer__add h g bs = Inr (int (length (gobuffer_contents g)), g') \<and>
      gobuffer_inv g' \<and> gobuffer_contents g' = gobuffer_contents g @ bs"
    using gobuffer__add_ok by blast
next
  fix h and g :: gobuffer and n
  assume "gobuffer_inv g" "gobuffer_room h g n"
  then show "\<exists>g' junk. gobuffer__allocate h g n = (int (length (gobuffer_contents g)), g') \<and>
      gobuffer_inv g' \<and> length junk = n \<and> gobuffer_contents g' = gobuffer_contents g @ junk"
    using gobuffer__allocate_ok [of g h n] length_gobuffer_contents [of g] by auto
qed (auto intro: gobuffer_add_room simp: gobuffer_poke_ok length_gobuffer_contents,
     auto simp: gobuffer_room_def)

section \<open>Properties\<close>

text \<open>adding bytes to a well-formed buffer that has room returns the old size as the position,
  extends the contents by exactly those bytes whether or not the block is moved, counts the entry and
  never writes outside the block.\<close>

theorem gobuffer_add_appends:
  assumes "gobuffer_inv g" and "gobuffer_room h g (length s)"
  shows "\<exists>g'. gobuffer__add h g s = Inr (int (length (gobuffer_contents g)), g') \<and>
           gobuffer_inv g' \<and> gobuffer_contents g' = gobuffer_contents g @ s \<and>
           gb_nr_entries g' = u32 (gb_nr_entries g + 1)"
  by (rule gobuffer__add_ok [OF assms])

theorem gobuffer_add_appends_witness:
  "\<exists>g'. gobuffer__add \<lparr>avail = \<lambda>n. True, fresh = \<lambda>i. 0\<rparr> gobuffer_zero [1, 2] = Inr (0, g') \<and>
     gobuffer_contents g' = [1, 2] \<and> gb_nr_entries g' = 1"
  using gobuffer_add_appends [OF gobuffer_inv_zero, of "\<lparr>avail = \<lambda>n. True, fresh = \<lambda>i. 0\<rparr>" "[1, 2]"]
  by (auto simp: gobuffer_room_def gobuffer_zero_def GOBUFFER__BCHUNK_def gobuffer_contents_def)

end
