(* ===== verification/Rbtree.thy ===== *)
theory Rbtree
  imports Prelude "HOL-Library.Monad_Syntax"
begin

text \<open>
  The red-black trees of \<open>rbtree.c\<close>.  A node of the C tree is reached through child and
  parent pointers, so a pointer to a node is modelled as a zipper: the subtree at the
  node and the path of its ancestors, innermost first.  \<open>rb_parent(node)\<close> is the head of
  the path; \<open>parent->rb_left == node\<close> says that the head is an \<open>FL\<close> frame; storing to
  the parent's child pointer (or to \<open>root->rb_node\<close>) replaces the subtree at the focus.
  \<open>None\<close> is a NULL dereference.
\<close>

datatype color = RB_RED | RB_BLACK

datatype 'a rbt = NIL | RB color "'a rbt" 'a "'a rbt"

datatype 'a frame =
    FL color 'a "'a rbt"  \<comment> \<open>the focus is the left child; colour, key, right child of the parent\<close>
  | FR color "'a rbt" 'a  \<comment> \<open>the focus is the right child; colour, left child, key of the parent\<close>

type_synonym 'a path = "'a frame list"

fun rb_up :: "'a frame \<Rightarrow> 'a rbt \<Rightarrow> 'a rbt" where
  "rb_up (FL c k r) t = RB c t k r"
| "rb_up (FR c l k) t = RB c l k t"

fun rb_plug :: "'a path \<Rightarrow> 'a rbt \<Rightarrow> 'a rbt" where
  "rb_plug [] t = t"
| "rb_plug (f # fs) t = rb_plug fs (rb_up f t)"

fun frame_color :: "'a frame \<Rightarrow> color" where
  "frame_color (FL c k r) = c"
| "frame_color (FR c l k) = c"

text \<open>\<open>ptr && rb_is_red(ptr)\<close>; its negation is \<open>!ptr || rb_is_black(ptr)\<close>.\<close>

fun is_red :: "'a rbt \<Rightarrow> bool" where
  "is_red NIL = False"
| "is_red (RB c l k r) = (c = RB_RED)"

fun rb_set_color :: "color \<Rightarrow> 'a rbt \<Rightarrow> 'a rbt option" where
  "rb_set_color c NIL = None"
| "rb_set_color c (RB c' l k r) = Some (RB c l k r)"

abbreviation rb_set_black :: "'a rbt \<Rightarrow> 'a rbt option" where "rb_set_black \<equiv> rb_set_color RB_BLACK"
abbreviation rb_set_red :: "'a rbt \<Rightarrow> 'a rbt option" where "rb_set_red \<equiv> rb_set_color RB_RED"

fun rb_rotate_left :: "'a rbt \<Rightarrow> 'a rbt option" where
  "rb_rotate_left (RB c a x (RB c' b y d)) = Some (RB c' (RB c a x b) y d)"
| "rb_rotate_left _ = None"

fun rb_rotate_right :: "'a rbt \<Rightarrow> 'a rbt option" where
  "rb_rotate_right (RB c (RB c' a x b) y d) = Some (RB c' a x (RB c b y d))"
| "rb_rotate_right _ = None"

definition rb_link_node :: "'a \<Rightarrow> 'a rbt" where
  "rb_link_node k = RB RB_RED NIL k NIL"

section \<open>Insertion\<close>

text \<open>
  In the last two branches of the loop body the node's parent has just been painted
  black, so the loop condition fails on the next test and only the root is painted.
\<close>

fun rb_insert_color :: "'a rbt \<Rightarrow> 'a path \<Rightarrow> 'a rbt option" where
  "rb_insert_color node [] = rb_set_black node"
| "rb_insert_color node (p # ps) =
     (if frame_color p = RB_BLACK then rb_set_black (rb_plug (p # ps) node)
      else case ps of
        [] \<Rightarrow> None
      | FL gc gk uncle # gs \<Rightarrow>
          if is_red uncle then
            do {
              u \<leftarrow> rb_set_black uncle;
              parent \<leftarrow> rb_set_black (rb_up p node);
              rb_insert_color (RB RB_RED parent gk u) gs
            }
          else
            do {
              parent \<leftarrow> (case p of FR c l k \<Rightarrow> rb_rotate_left (rb_up p node)
                                 | FL c k r \<Rightarrow> Some (rb_up p node));
              parent \<leftarrow> rb_set_black parent;
              t \<leftarrow> rb_rotate_right (RB RB_RED parent gk uncle);
              rb_set_black (rb_plug gs t)
            }
      | FR gc uncle gk # gs \<Rightarrow>
          if is_red uncle then
            do {
              u \<leftarrow> rb_set_black uncle;
              parent \<leftarrow> rb_set_black (rb_up p node);
              rb_insert_color (RB RB_RED u gk parent) gs
            }
          else
            do {
              parent \<leftarrow> (case p of FL c k r \<Rightarrow> rb_rotate_right (rb_up p node)
                                 | FR c l k \<Rightarrow> Some (rb_up p node));
              parent \<leftarrow> rb_set_black parent;
              t \<leftarrow> rb_rotate_left (RB RB_RED uncle gk parent);
              rb_set_black (rb_plug gs t)
            })"

section \<open>Deletion\<close>

text \<open>
  One pass of the loop of \<open>__rb_erase_color\<close> once the sibling \<open>other\<close> is black: either
  the loop climbs with the subtree now at the parent, or it rotates and leaves.
\<close>

datatype 'a erase_step = Climb "'a rbt" | Leave "'a rbt"

definition erase_fix_left :: "'a rbt \<Rightarrow> color \<Rightarrow> 'a \<Rightarrow> 'a rbt \<Rightarrow> 'a erase_step option" where
  "erase_fix_left node pc pk sib =
     (case sib of
        NIL \<Rightarrow> None
      | RB oc ol ok orr \<Rightarrow>
          if \<not> is_red ol \<and> \<not> is_red orr then Some (Climb (RB pc node pk (RB RB_RED ol ok orr)))
          else
            do {
              sib \<leftarrow> (if \<not> is_red orr then
                          do { l \<leftarrow> rb_set_black ol; rb_rotate_right (RB RB_RED l ok orr) }
                        else Some sib);
              (case sib of
                 NIL \<Rightarrow> None
               | RB _ l k r \<Rightarrow>
                   do {
                     r \<leftarrow> rb_set_black r;
                     t \<leftarrow> rb_rotate_left (RB RB_BLACK node pk (RB pc l k r));
                     Some (Leave t)
                   })
            })"

definition erase_fix_right :: "'a rbt \<Rightarrow> color \<Rightarrow> 'a \<Rightarrow> 'a rbt \<Rightarrow> 'a erase_step option" where
  "erase_fix_right sib pc pk node =
     (case sib of
        NIL \<Rightarrow> None
      | RB oc ol ok orr \<Rightarrow>
          if \<not> is_red ol \<and> \<not> is_red orr then Some (Climb (RB pc (RB RB_RED ol ok orr) pk node))
          else
            do {
              sib \<leftarrow> (if \<not> is_red ol then
                          do { r \<leftarrow> rb_set_black orr; rb_rotate_left (RB RB_RED ol ok r) }
                        else Some sib);
              (case sib of
                 NIL \<Rightarrow> None
               | RB _ l k r \<Rightarrow>
                   do {
                     l \<leftarrow> rb_set_black l;
                     t \<leftarrow> rb_rotate_right (RB RB_BLACK (RB pc l k r) pk node);
                     Some (Leave t)
                   })
            })"

text \<open>\<open>if (node) rb_set_black(node)\<close>\<close>

fun set_black_if :: "'a rbt \<Rightarrow> 'a rbt" where
  "set_black_if NIL = NIL"
| "set_black_if (RB c l k r) = RB RB_BLACK l k r"

lemma erase_fix_left_Climb:
  "erase_fix_left node pc pk sib = Some (Climb t) \<Longrightarrow> \<exists>l k r. t = RB pc l k r"
  by (auto simp: erase_fix_left_def bind_eq_Some_conv split: rbt.splits if_splits)
    (metis rbt.exhaust)+

lemma erase_fix_right_Climb:
  "erase_fix_right sib pc pk node = Some (Climb t) \<Longrightarrow> \<exists>l k r. t = RB pc l k r"
  by (auto simp: erase_fix_right_def bind_eq_Some_conv split: rbt.splits if_splits)
    (metis rbt.exhaust)+

text \<open>
  A red sibling is first rotated above the parent, which then is red and has one ancestor
  more; the recursion still ends, since climbing from there meets a red node.
\<close>

function rb_erase_color :: "'a rbt \<Rightarrow> 'a path \<Rightarrow> 'a rbt option" where
  "rb_erase_color node path =
     (if is_red node \<or> path = [] then Some (rb_plug path (set_black_if node))
      else case path of
        FL pc pk sib # ps \<Rightarrow>
          (case sib of
             NIL \<Rightarrow> None
           | RB oc ol ok orr \<Rightarrow>
               if oc = RB_RED then
                 (case erase_fix_left node RB_RED pk ol of
                    None \<Rightarrow> None
                  | Some (Climb t) \<Rightarrow> rb_erase_color t (FL RB_BLACK ok orr # ps)
                  | Some (Leave t) \<Rightarrow> Some (set_black_if (rb_plug (FL RB_BLACK ok orr # ps) t)))
               else
                 (case erase_fix_left node pc pk sib of
                    None \<Rightarrow> None
                  | Some (Climb t) \<Rightarrow> rb_erase_color t ps
                  | Some (Leave t) \<Rightarrow> Some (set_black_if (rb_plug ps t))))
      | FR pc sib pk # ps \<Rightarrow>
          (case sib of
             NIL \<Rightarrow> None
           | RB oc ol ok orr \<Rightarrow>
               if oc = RB_RED then
                 (case erase_fix_right orr RB_RED pk node of
                    None \<Rightarrow> None
                  | Some (Climb t) \<Rightarrow> rb_erase_color t (FR RB_BLACK ol ok # ps)
                  | Some (Leave t) \<Rightarrow> Some (set_black_if (rb_plug (FR RB_BLACK ol ok # ps) t)))
               else
                 (case erase_fix_right sib pc pk node of
                    None \<Rightarrow> None
                  | Some (Climb t) \<Rightarrow> rb_erase_color t ps
                  | Some (Leave t) \<Rightarrow> Some (set_black_if (rb_plug ps t)))))"
  by pat_completeness auto
termination
  by (relation "measure (\<lambda>(node, path). 2 * length path + (if is_red node then 0 else 1))")
    (auto dest!: erase_fix_left_Climb erase_fix_right_Climb)

declare rb_erase_color.simps [simp del]

section \<open>Traversal\<close>

fun rb_go_left :: "'a rbt \<Rightarrow> 'a path \<Rightarrow> 'a rbt \<times> 'a path" where
  "rb_go_left (RB c l k r) ps = (if l = NIL then (RB c l k r, ps) else rb_go_left l (FL c k r # ps))"
| "rb_go_left NIL ps = (NIL, ps)"

fun rb_go_right :: "'a rbt \<Rightarrow> 'a path \<Rightarrow> 'a rbt \<times> 'a path" where
  "rb_go_right (RB c l k r) ps = (if r = NIL then (RB c l k r, ps) else rb_go_right r (FR c l k # ps))"
| "rb_go_right NIL ps = (NIL, ps)"

definition rb_first :: "'a rbt \<Rightarrow> ('a rbt \<times> 'a path) option" where
  "rb_first root = (if root = NIL then None else Some (rb_go_left root []))"

definition rb_last :: "'a rbt \<Rightarrow> ('a rbt \<times> 'a path) option" where
  "rb_last root = (if root = NIL then None else Some (rb_go_right root []))"

fun rb_climb_next :: "'a rbt \<Rightarrow> 'a path \<Rightarrow> ('a rbt \<times> 'a path) option" where
  "rb_climb_next t [] = None"
| "rb_climb_next t (FR c l k # ps) = rb_climb_next (RB c l k t) ps"
| "rb_climb_next t (FL c k r # ps) = Some (RB c t k r, ps)"

fun rb_climb_prev :: "'a rbt \<Rightarrow> 'a path \<Rightarrow> ('a rbt \<times> 'a path) option" where
  "rb_climb_prev t [] = None"
| "rb_climb_prev t (FL c k r # ps) = rb_climb_prev (RB c t k r) ps"
| "rb_climb_prev t (FR c l k # ps) = Some (RB c l k t, ps)"

text \<open>The first test of the C code is for a node that is in no tree, which a zipper is not.\<close>

fun rb_next :: "'a rbt \<times> 'a path \<Rightarrow> ('a rbt \<times> 'a path) option" where
  "rb_next (NIL, ps) = None"
| "rb_next (RB c l k r, ps) =
     (if r \<noteq> NIL then Some (rb_go_left r (FR c l k # ps)) else rb_climb_next (RB c l k r) ps)"

fun rb_prev :: "'a rbt \<times> 'a path \<Rightarrow> ('a rbt \<times> 'a path) option" where
  "rb_prev (NIL, ps) = None"
| "rb_prev (RB c l k r, ps) =
     (if l \<noteq> NIL then Some (rb_go_right l (FL c k r # ps)) else rb_climb_prev (RB c l k r) ps)"

fun rb_replace_node :: "'a rbt \<times> 'a path \<Rightarrow> 'a \<Rightarrow> 'a rbt option" where
  "rb_replace_node (NIL, ps) new = None"
| "rb_replace_node (RB c l k r, ps) new = Some (rb_plug ps (RB c l new r))"

text \<open>
  \<open>rb_erase\<close>: a node with two children is replaced by its successor, which takes over the
  node's colour; the colour that leaves the tree decides whether to rebalance, at the
  place where the successor was.
\<close>

fun rb_erase :: "'a rbt \<times> 'a path \<Rightarrow> 'a rbt option" where
  "rb_erase (NIL, ps) = None"
| "rb_erase (RB c l k r, ps) =
     (if l = NIL then
        (if c = RB_BLACK then rb_erase_color r ps else Some (rb_plug ps r))
      else if r = NIL then
        (if c = RB_BLACK then rb_erase_color l ps else Some (rb_plug ps l))
      else
        (case rb_go_left r [] of
           (NIL, fs) \<Rightarrow> None
         | (RB sc sl sk child, fs) \<Rightarrow>
             let path = fs @ FR c l sk # ps
             in if sc = RB_BLACK then rb_erase_color child path else Some (rb_plug path child)))"

section \<open>Order and balance\<close>

fun inorder :: "'a rbt \<Rightarrow> 'a list" where
  "inorder NIL = []"
| "inorder (RB c l k r) = inorder l @ k # inorder r"

text \<open>The keys before and after the focus of a path.\<close>

fun ctx_before :: "'a path \<Rightarrow> 'a list" where
  "ctx_before [] = []"
| "ctx_before (FL c k r # ps) = ctx_before ps"
| "ctx_before (FR c l k # ps) = ctx_before ps @ inorder l @ [k]"

fun ctx_after :: "'a path \<Rightarrow> 'a list" where
  "ctx_after [] = []"
| "ctx_after (FL c k r # ps) = k # inorder r @ ctx_after ps"
| "ctx_after (FR c l k # ps) = ctx_after ps"

fun root_color :: "'a rbt \<Rightarrow> color" where
  "root_color NIL = RB_BLACK"
| "root_color (RB c l k r) = c"

text \<open>
  \<open>black_height t n\<close>: every path of \<open>t\<close> down to a NULL holds \<open>n\<close> black nodes;
  \<open>red_ok t\<close>: no red node has a red child.
\<close>

fun black_height :: "'a rbt \<Rightarrow> nat \<Rightarrow> bool" where
  "black_height NIL n \<longleftrightarrow> n = 0"
| "black_height (RB RB_RED l k r) n \<longleftrightarrow> black_height l n \<and> black_height r n"
| "black_height (RB RB_BLACK l k r) 0 \<longleftrightarrow> False"
| "black_height (RB RB_BLACK l k r) (Suc n) \<longleftrightarrow> black_height l n \<and> black_height r n"

fun red_ok :: "'a rbt \<Rightarrow> bool" where
  "red_ok NIL \<longleftrightarrow> True"
| "red_ok (RB c l k r) \<longleftrightarrow>
     (c = RB_RED \<longrightarrow> root_color l = RB_BLACK \<and> root_color r = RB_BLACK) \<and> red_ok l \<and> red_ok r"

definition rb_inv :: "'a rbt \<Rightarrow> bool" where
  "rb_inv t \<longleftrightarrow> (\<exists>n. black_height t n) \<and> red_ok t \<and> root_color t = RB_BLACK"

text \<open>What a path asks of the subtree at its focus: a black height and a colour.\<close>

fun ctx_height :: "'a path \<Rightarrow> nat \<Rightarrow> bool" where
  "ctx_height [] n \<longleftrightarrow> True"
| "ctx_height (FL c k r # ps) n \<longleftrightarrow>
     black_height r n \<and> ctx_height ps (if c = RB_RED then n else Suc n)"
| "ctx_height (FR c l k # ps) n \<longleftrightarrow>
     black_height l n \<and> ctx_height ps (if c = RB_RED then n else Suc n)"

fun ctx_red_ok :: "'a path \<Rightarrow> color \<Rightarrow> bool" where
  "ctx_red_ok [] fc \<longleftrightarrow> fc = RB_BLACK"
| "ctx_red_ok (FL c k r # ps) fc \<longleftrightarrow>
     red_ok r \<and> (c = RB_RED \<longrightarrow> fc = RB_BLACK \<and> root_color r = RB_BLACK) \<and> ctx_red_ok ps c"
| "ctx_red_ok (FR c l k # ps) fc \<longleftrightarrow>
     red_ok l \<and> (c = RB_RED \<longrightarrow> fc = RB_BLACK \<and> root_color l = RB_BLACK) \<and> ctx_red_ok ps c"

lemma color_cases [simp]: "c \<noteq> RB_RED \<longleftrightarrow> c = RB_BLACK" "c \<noteq> RB_BLACK \<longleftrightarrow> c = RB_RED"
  by (cases c; simp)+

lemma is_red_root_color: "is_red t \<longleftrightarrow> root_color t = RB_RED"
  by (cases t) auto

lemma black_height_black:
  "black_height (RB RB_BLACK l k r) n \<longleftrightarrow> (\<exists>m. n = Suc m \<and> black_height l m \<and> black_height r m)"
  by (cases n) auto

lemma black_height_0 [simp]:
  "black_height (RB c l k r) 0 \<longleftrightarrow> c = RB_RED \<and> black_height l 0 \<and> black_height r 0"
  by (cases c) auto

lemma ex_black_height_black:
  "Ex (black_height (RB RB_BLACK l k r)) \<longleftrightarrow> (\<exists>m. black_height l m \<and> black_height r m)"
  by (metis black_height.simps(4) black_height_black)

lemma inorder_plug: "inorder (rb_plug ps t) = ctx_before ps @ inorder t @ ctx_after ps"
  by (induction ps arbitrary: t rule: ctx_before.induct) auto

lemma ex_height_up:
  "(\<exists>n. black_height (RB c l k r) n \<and> P n) \<longleftrightarrow>
     (\<exists>n. black_height l n \<and> black_height r n \<and> P (if c = RB_RED then n else Suc n))"
  by (cases c) (auto simp: black_height_black)

lemma height_plug:
  "(\<exists>n. black_height (rb_plug ps t) n) \<longleftrightarrow> (\<exists>n. black_height t n \<and> ctx_height ps n)"
  by (induction ps arbitrary: t rule: ctx_before.induct) (simp_all add: ex_height_up, blast+)

lemma red_ok_plug:
  "red_ok (rb_plug ps t) \<and> root_color (rb_plug ps t) = RB_BLACK \<longleftrightarrow>
     red_ok t \<and> ctx_red_ok ps (root_color t)"
  by (induction ps arbitrary: t rule: ctx_before.induct) (simp_all, blast+)

lemma rb_inv_plug:
  "rb_inv (rb_plug ps t) \<longleftrightarrow>
     (\<exists>n. black_height t n \<and> ctx_height ps n) \<and> red_ok t \<and> ctx_red_ok ps (root_color t)"
  using height_plug [of ps t] red_ok_plug [of ps t] unfolding rb_inv_def by blast

lemma ctx_red_ok_black: "ctx_red_ok ps c \<Longrightarrow> ctx_red_ok ps RB_BLACK"
  by (cases ps rule: ctx_before.cases) auto

lemma set_black_inv:
  "black_height t n \<Longrightarrow> red_ok t \<Longrightarrow> t \<noteq> NIL \<Longrightarrow>
     \<exists>u. rb_set_black t = Some u \<and> rb_inv u \<and> inorder u = inorder t"
  by (cases t; cases "root_color t") (auto simp: rb_inv_def black_height_black ex_black_height_black)

lemma plug_not_NIL: "t \<noteq> NIL \<Longrightarrow> rb_plug ps t \<noteq> NIL"
  by (induction ps arbitrary: t rule: ctx_before.induct) auto

lemma set_black_plug:
  assumes "black_height t n" "red_ok t" "ctx_height ps n" "ctx_red_ok ps (root_color t)" "t \<noteq> NIL"
  shows "\<exists>u. rb_set_black (rb_plug ps t) = Some u \<and> rb_inv u \<and>
           inorder u = ctx_before ps @ inorder t @ ctx_after ps"
proof -
  have "rb_inv (rb_plug ps t)" using assms rb_inv_plug by blast
  then show ?thesis
    using set_black_inv [OF _ _ plug_not_NIL [OF assms(5)]]
    unfolding rb_inv_def inorder_plug [symmetric] by blast
qed

lemma set_black_if_plug:
  assumes "black_height t n" "red_ok t" "ctx_height ps n" "ctx_red_ok ps (root_color t)"
  shows "rb_inv (set_black_if (rb_plug ps t)) \<and>
         inorder (set_black_if (rb_plug ps t)) = ctx_before ps @ inorder t @ ctx_after ps"
proof -
  have "rb_inv (rb_plug ps t)" using assms rb_inv_plug by blast
  then have "set_black_if (rb_plug ps t) = rb_plug ps t"
    by (cases "rb_plug ps t") (auto simp: rb_inv_def)
  with \<open>rb_inv (rb_plug ps t)\<close> show ?thesis by (simp add: inorder_plug)
qed

lemma rb_insert_color_ok:
  assumes "black_height t n" "red_ok t" "root_color t = RB_RED" "ctx_height ps n"
    "ctx_red_ok ps RB_BLACK"
  shows "\<exists>u. rb_insert_color t ps = Some u \<and> rb_inv u \<and>
           inorder u = ctx_before ps @ inorder t @ ctx_after ps"
  using assms
proof (induction t ps arbitrary: n rule: rb_insert_color.induct)
  case (1 node)
  then have "node \<noteq> NIL" by auto
  with 1 show ?case using set_black_inv [of node n] by simp
next
  case (2 node p ps)
  show ?case
  proof (cases "frame_color p = RB_BLACK")
    case True
    then have "ctx_red_ok (p # ps) (root_color node)"
      using 2(7) by (cases p) auto
    moreover have "node \<noteq> NIL" using 2(5) by auto
    ultimately show ?thesis
      using True 2(3-) set_black_plug [of node n "p # ps"] by simp
  next
    case False
    then have red: "frame_color p = RB_RED" using color_cases by blast
    then obtain g gs where ps: "ps = g # gs"
      using 2(7) by (cases p; cases ps) auto
    obtain nl nk nr where node: "node = RB RB_RED nl nk nr"
      using 2(5) by (cases node) auto
    show ?thesis
    proof (cases g)
      case (FL gc gk u)
      have gc: "gc = RB_BLACK" using 2(7) red ps FL by (cases p; cases gc) auto
      show ?thesis
      proof (cases "is_red u")
        case True
        then obtain ul uk ur where u: "u = RB RB_RED ul uk ur" by (cases u) auto
        obtain par where par: "rb_set_black (rb_up p node) = Some par" by (cases p) auto
        have "\<exists>v. rb_insert_color (RB RB_RED par gk (RB RB_BLACK ul uk ur)) gs = Some v \<and> rb_inv v \<and>
               inorder v = ctx_before gs @ inorder (RB RB_RED par gk (RB RB_BLACK ul uk ur)) @ ctx_after gs"
          by (rule "2.IH"(1) [OF False, where n = "Suc n"])
            (use 2(3-) ps FL u par gc node red in \<open>cases p; auto\<close>)+
        then show ?thesis
          using ps FL u par red by (cases p) (auto simp: ps)
      next
        case False
        show ?thesis
        proof (cases p)
          case pL: (FL pc pk pr)
          show ?thesis
            using 2(3-) red ps FL gc node pL False
              set_black_plug [of "RB RB_BLACK node pk (RB RB_RED pr gk u)" "Suc n" gs]
            by (cases u) (auto simp: is_red_root_color)
        next
          case pR: (FR pc pl pk)
          show ?thesis
            using 2(3-) red ps FL gc node pR False
              set_black_plug [of "RB RB_BLACK (RB RB_RED pl pk nl) nk (RB RB_RED nr gk u)" "Suc n" gs]
            by (cases u) (auto simp: is_red_root_color)
        qed
      qed
    next
      case (FR gc u gk)
      have gc: "gc = RB_BLACK" using 2(7) red ps FR by (cases p; cases gc) auto
      show ?thesis
      proof (cases "is_red u")
        case True
        then obtain ul uk ur where u: "u = RB RB_RED ul uk ur" by (cases u) auto
        obtain par where par: "rb_set_black (rb_up p node) = Some par" by (cases p) auto
        have "\<exists>v. rb_insert_color (RB RB_RED (RB RB_BLACK ul uk ur) gk par) gs = Some v \<and> rb_inv v \<and>
               inorder v = ctx_before gs @ inorder (RB RB_RED (RB RB_BLACK ul uk ur) gk par) @ ctx_after gs"
          by (rule "2.IH"(2) [OF False, where n = "Suc n"])
            (use 2(3-) ps FR u par gc node red in \<open>cases p; auto\<close>)+
        then show ?thesis
          using ps FR u par red by (cases p) (auto simp: ps)
      next
        case False
        show ?thesis
        proof (cases p)
          case pL: (FL pc pk pr)
          show ?thesis
            using 2(3-) red ps FR gc node pL False
              set_black_plug [of "RB RB_BLACK (RB RB_RED u gk nl) nk (RB RB_RED nr pk pr)" "Suc n" gs]
            by (cases u) (auto simp: is_red_root_color)
        next
          case pR: (FR pc pl pk)
          show ?thesis
            using 2(3-) red ps FR gc node pR False
              set_black_plug [of "RB RB_BLACK (RB RB_RED u gk pl) pk node" "Suc n" gs]
            by (cases u) (auto simp: is_red_root_color)
        qed
      qed
    qed
  qed
qed

lemma red_ok_set_black_if: "red_ok t \<Longrightarrow> red_ok (set_black_if t)"
  by (cases t) auto

lemma set_black_if_black: "\<not> is_red t \<Longrightarrow> set_black_if t = t"
  by (cases t) auto

lemma inorder_set_black_if [simp]: "inorder (set_black_if t) = inorder t"
  by (cases t) auto

lemma root_color_set_black_if [simp]: "root_color (set_black_if t) = RB_BLACK"
  by (cases t) auto

lemma height_set_black_if: "is_red t \<Longrightarrow> black_height t n \<Longrightarrow> black_height (set_black_if t) (Suc n)"
  by (cases t) auto

text \<open>What one pass over a black sibling achieves, climbing or leaving.\<close>

definition erase_step_ok :: "'a list \<Rightarrow> color \<Rightarrow> nat \<Rightarrow> 'a erase_step option \<Rightarrow> bool" where
  "erase_step_ok ks pc n s \<longleftrightarrow>
     (case s of
        None \<Rightarrow> False
      | Some (Climb t) \<Rightarrow> root_color t = pc \<and> t \<noteq> NIL \<and> red_ok (set_black_if t) \<and> inorder t = ks \<and>
          black_height t (if pc = RB_RED then n else Suc n)
      | Some (Leave t) \<Rightarrow> root_color t = pc \<and> t \<noteq> NIL \<and> red_ok t \<and> inorder t = ks \<and>
          black_height t (if pc = RB_RED then Suc n else Suc (Suc n)))"

lemma is_red_cases: "(is_red t \<Longrightarrow> \<exists>l k r. t = RB RB_RED l k r)"
  by (cases t) auto

lemma erase_fix_left_ok:
  assumes "black_height node n" "red_ok node" "root_color node = RB_BLACK"
    "black_height sib (Suc n)" "red_ok sib" "root_color sib = RB_BLACK"
  shows "erase_step_ok (inorder node @ pk # inorder sib) pc n (erase_fix_left node pc pk sib)"
proof -
  obtain ol ok orr where sib: "sib = RB RB_BLACK ol ok orr"
    using assms(4,6) by (cases sib) auto
  show ?thesis
    using assms sib
    by (cases ol; cases orr; cases pc)
      (auto simp: erase_fix_left_def erase_step_ok_def)
qed

lemma erase_fix_right_ok:
  assumes "black_height node n" "red_ok node" "root_color node = RB_BLACK"
    "black_height sib (Suc n)" "red_ok sib" "root_color sib = RB_BLACK"
  shows "erase_step_ok (inorder sib @ pk # inorder node) pc n (erase_fix_right sib pc pk node)"
proof -
  obtain ol ok orr where sib: "sib = RB RB_BLACK ol ok orr"
    using assms(4,6) by (cases sib) auto
  show ?thesis
    using assms sib
    by (cases ol; cases orr; cases pc)
      (auto simp: erase_fix_right_def erase_step_ok_def)
qed

text \<open>How the loop goes on after a step: \<open>qs\<close> is the path above the parent.\<close>

lemma erase_continue:
  assumes "erase_step_ok ks pc n s" "ctx_height qs (if pc = RB_RED then Suc n else Suc (Suc n))"
    "ctx_red_ok qs pc"
    and IH: "\<And>t m. s = Some (Climb t) \<Longrightarrow> black_height t m \<Longrightarrow> red_ok (set_black_if t) \<Longrightarrow>
      ctx_height qs (Suc m) \<Longrightarrow> ctx_red_ok qs RB_BLACK \<Longrightarrow>
      \<exists>u. rb_erase_color t qs = Some u \<and> rb_inv u \<and> inorder u = ctx_before qs @ inorder t @ ctx_after qs"
  shows "\<exists>u. (case s of None \<Rightarrow> None | Some (Climb t) \<Rightarrow> rb_erase_color t qs
                | Some (Leave t) \<Rightarrow> Some (set_black_if (rb_plug qs t))) = Some u \<and>
           rb_inv u \<and> inorder u = ctx_before qs @ ks @ ctx_after qs"
proof -
  obtain st where s: "s = Some st" using assms(1) by (cases s) (auto simp: erase_step_ok_def)
  show ?thesis
  proof (cases st)
    case (Climb t)
    with s assms(1) have t: "red_ok (set_black_if t)" "inorder t = ks"
        "black_height t (if pc = RB_RED then n else Suc n)"
      by (auto simp: erase_step_ok_def)
    have "ctx_height qs (Suc (if pc = RB_RED then n else Suc n))" using assms(2) by (cases pc) auto
    from IH [OF _ t(3,1) this ctx_red_ok_black [OF assms(3)]] show ?thesis
      using s Climb t(2) by auto
  next
    case (Leave t)
    with s assms(1) have t: "root_color t = pc" "red_ok t" "inorder t = ks"
        "black_height t (if pc = RB_RED then Suc n else Suc (Suc n))"
      by (auto simp: erase_step_ok_def)
    from set_black_if_plug [OF t(4,2) assms(2)] t(1,3) assms(3) show ?thesis
      using s Leave by auto
  qed
qed

lemma rb_erase_color_stop:
  assumes "black_height t n" "red_ok (set_black_if t)" "ctx_height ps (Suc n)" "ctx_red_ok ps RB_BLACK"
    and stop: "is_red t \<or> ps = []"
  shows "\<exists>u. rb_erase_color t ps = Some u \<and> rb_inv u \<and>
           inorder u = ctx_before ps @ inorder t @ ctx_after ps"
proof -
  have "rb_inv (rb_plug ps (set_black_if t))"
  proof (cases "is_red t")
    case True
    then show ?thesis
      using assms height_set_black_if [OF True assms(1)] unfolding rb_inv_plug by auto
  next
    case False
    then show ?thesis
      using assms set_black_if_black [OF False] unfolding rb_inv_plug
      by (metis ctx_height.simps(1) root_color_set_black_if)
  qed
  then show ?thesis using stop by (simp add: rb_erase_color.simps [of t ps] inorder_plug)
qed

lemma rb_erase_color_ok:
  assumes "black_height t n" "red_ok (set_black_if t)" "ctx_height ps (Suc n)" "ctx_red_ok ps RB_BLACK"
  shows "\<exists>u. rb_erase_color t ps = Some u \<and> rb_inv u \<and>
           inorder u = ctx_before ps @ inorder t @ ctx_after ps"
  using assms
proof (induction t ps arbitrary: n rule: rb_erase_color.induct)
  case (1 t ps)
  show ?case
  proof (cases "is_red t \<or> ps = []")
    case True
    with "1.prems" show ?thesis by (rule rb_erase_color_stop)
  next
    case False
    then obtain p qs where ps: "ps = p # qs" and black: "\<not> is_red t" by (cases ps) auto
    have t: "red_ok t" "root_color t = RB_BLACK"
      using "1.prems"(2) set_black_if_black [OF black] black by (auto simp: is_red_root_color)
    show ?thesis
    proof (cases p)
      case (FL pc pk sib)
      have h: "black_height sib (Suc n)" "red_ok sib" "ctx_red_ok qs pc"
          "ctx_height qs (if pc = RB_RED then Suc n else Suc (Suc n))"
          "pc = RB_RED \<Longrightarrow> root_color sib = RB_BLACK"
        using "1.prems"(3,4) ps FL by auto
      then obtain oc ol ok orr where sib: "sib = RB oc ol ok orr" by (cases sib) auto
      show ?thesis
      proof (cases "oc = RB_RED")
        case True
        then have "erase_step_ok (inorder t @ pk # inorder ol) RB_RED n (erase_fix_left t RB_RED pk ol)"
          using erase_fix_left_ok [OF "1.prems"(1) t, of ol pk RB_RED] h sib by auto
        from erase_continue [OF this, of "FL RB_BLACK ok orr # qs"]
          "1.IH"(1) [OF False ps FL sib True] show ?thesis
          using rb_erase_color.simps [of t ps] False ps FL sib True h by (cases pc) auto
      next
        case oc: False
        then have "erase_step_ok (inorder t @ pk # inorder sib) pc n (erase_fix_left t pc pk sib)"
          using erase_fix_left_ok [OF "1.prems"(1) t, of sib pk pc] h sib by auto
        from erase_continue [OF this h(4,3)] "1.IH"(2) [OF False ps FL sib oc] show ?thesis
          using rb_erase_color.simps [of t ps] False ps FL sib oc by auto
      qed
    next
      case (FR pc sib pk)
      have h: "black_height sib (Suc n)" "red_ok sib" "ctx_red_ok qs pc"
          "ctx_height qs (if pc = RB_RED then Suc n else Suc (Suc n))"
          "pc = RB_RED \<Longrightarrow> root_color sib = RB_BLACK"
        using "1.prems"(3,4) ps FR by auto
      then obtain oc ol ok orr where sib: "sib = RB oc ol ok orr" by (cases sib) auto
      show ?thesis
      proof (cases "oc = RB_RED")
        case True
        then have "erase_step_ok (inorder orr @ pk # inorder t) RB_RED n (erase_fix_right orr RB_RED pk t)"
          using erase_fix_right_ok [OF "1.prems"(1) t, of orr pk RB_RED] h sib by auto
        from erase_continue [OF this, of "FR RB_BLACK ol ok # qs"]
          "1.IH"(3) [OF False ps FR sib True] show ?thesis
          using rb_erase_color.simps [of t ps] False ps FR sib True h by (cases pc) auto
      next
        case oc: False
        then have "erase_step_ok (inorder sib @ pk # inorder t) pc n (erase_fix_right sib pc pk t)"
          using erase_fix_right_ok [OF "1.prems"(1) t, of sib pk pc] h sib by auto
        from erase_continue [OF this h(4,3)] "1.IH"(4) [OF False ps FR sib oc] show ?thesis
          using rb_erase_color.simps [of t ps] False ps FR sib oc by auto
      qed
    qed
  qed
qed

section \<open>Walking the tree\<close>

lemma rb_go_left_append:
  "rb_go_left t (qs @ ps) = (fst (rb_go_left t qs), snd (rb_go_left t qs) @ ps)"
proof (induction t arbitrary: qs)
  case NIL
  then show ?case by simp
next
  case (RB c l k r)
  show ?case using RB(1) [of "FL c k r # qs"] by simp
qed

lemma rb_go_left_ok:
  "rb_go_left t ps = (z, qs) \<Longrightarrow> t \<noteq> NIL \<Longrightarrow>
     \<exists>c k r. z = RB c NIL k r \<and> rb_plug qs z = rb_plug ps t \<and> ctx_before qs = ctx_before ps \<and>
       inorder t @ ctx_after ps = k # inorder r @ ctx_after qs"
proof (induction t ps rule: rb_go_left.induct)
  case (1 c l k r ps)
  then show ?case by (cases "l = NIL") auto
qed simp

lemma rb_go_left_climb_prev:
  "rb_go_left t ps = (z, qs) \<Longrightarrow> rb_climb_prev z qs = rb_climb_prev t ps"
  by (induction t ps rule: rb_go_left.induct) (auto split: if_splits)

lemma rb_climb_next_ok:
  "rb_climb_next t ps = Some (u, qs) \<Longrightarrow> t \<noteq> NIL \<Longrightarrow>
     \<exists>c l k r. u = RB c l k r \<and> l \<noteq> NIL \<and> rb_plug qs u = rb_plug ps t \<and>
       ctx_before qs @ inorder l = ctx_before ps @ inorder t \<and>
       ctx_after ps = k # inorder r @ ctx_after qs \<and>
       rb_go_right l (FL c k r # qs) = rb_go_right t ps"
  by (induction t ps rule: rb_climb_next.induct) auto

lemma rb_climb_next_None: "rb_climb_next t ps = None \<longleftrightarrow> ctx_after ps = []"
  by (induction t ps rule: rb_climb_next.induct) auto

text \<open>The keys before, at and after a position.\<close>

fun z_before :: "'a rbt \<times> 'a path \<Rightarrow> 'a list" where
  "z_before (NIL, ps) = ctx_before ps"
| "z_before (RB c l k r, ps) = ctx_before ps @ inorder l"

fun z_after :: "'a rbt \<times> 'a path \<Rightarrow> 'a list" where
  "z_after (NIL, ps) = ctx_after ps"
| "z_after (RB c l k r, ps) = inorder r @ ctx_after ps"

fun z_key :: "'a rbt \<times> 'a path \<Rightarrow> 'a option" where
  "z_key (NIL, ps) = None"
| "z_key (RB c l k r, ps) = Some k"

definition z_tree :: "'a rbt \<times> 'a path \<Rightarrow> 'a rbt" where
  "z_tree z = rb_plug (snd z) (fst z)"

lemma z_split: "z_key z = Some k \<Longrightarrow> inorder (z_tree z) = z_before z @ k # z_after z"
  by (cases z rule: z_key.cases) (auto simp: z_tree_def inorder_plug)

lemma rb_next_ok:
  assumes "z_key z = Some k" and "rb_next z = Some z'"
  shows "\<exists>k'. z_key z' = Some k' \<and> z_tree z' = z_tree z \<and> z_before z' = z_before z @ [k] \<and>
           z_after z = k' # z_after z'"
proof -
  obtain c l r ps where z: "z = (RB c l k r, ps)" using assms(1) by (cases z rule: z_key.cases) auto
  show ?thesis
  proof (cases "r = NIL")
    case True
    obtain u qs where z': "z' = (u, qs)" by (cases z')
    with assms(2) True z rb_climb_next_ok [of "RB c l k r" ps u qs] show ?thesis
      by (auto simp: z_tree_def)
  next
    case False
    obtain u qs where z': "rb_go_left r (FR c l k # ps) = (u, qs)" by fastforce
    with assms(2) False z rb_go_left_ok [OF z' False] show ?thesis
      by (auto simp: z_tree_def)
  qed
qed

lemma rb_next_None: "z_key z = Some k \<Longrightarrow> rb_next z = None \<longleftrightarrow> z_after z = []"
  by (cases z rule: z_key.cases) (auto simp: rb_climb_next_None elim: inorder.elims)

lemma rb_prev_next:
  assumes "z_key z = Some k" and "rb_next z = Some z'"
  shows "rb_prev z' = Some z"
proof -
  obtain c l r ps where z: "z = (RB c l k r, ps)" using assms(1) by (cases z rule: z_key.cases) auto
  show ?thesis
  proof (cases "r = NIL")
    case True
    obtain u qs where z': "z' = (u, qs)" by (cases z')
    with assms(2) True z rb_climb_next_ok [of "RB c l k r" ps u qs] show ?thesis by auto
  next
    case False
    obtain u qs where z': "rb_go_left r (FR c l k # ps) = (u, qs)" by fastforce
    from rb_go_left_ok [OF z' False] rb_go_left_climb_prev [OF z'] assms(2) False z z'
    show ?thesis by auto
  qed
qed

text \<open>The loop \<open>for (n = rb_first(root); n; n = rb_next(n))\<close>.\<close>

function rb_keys_from :: "'a rbt \<times> 'a path \<Rightarrow> 'a list" where
  "rb_keys_from z =
     (case z_key z of
        None \<Rightarrow> []
      | Some k \<Rightarrow> k # (case rb_next z of None \<Rightarrow> [] | Some z' \<Rightarrow> rb_keys_from z'))"
  by pat_completeness auto
termination
  by (relation "measure (\<lambda>z. length (z_after z))") (auto dest: rb_next_ok)

declare rb_keys_from.simps [simp del]

lemma rb_keys_from_eq: "z_key z = Some k \<Longrightarrow> rb_keys_from z = k # z_after z"
proof (induction z arbitrary: k rule: rb_keys_from.induct)
  case (1 z)
  then show ?case
    using rb_next_None [OF "1.prems"] rb_next_ok [OF "1.prems"]
    by (cases "rb_next z") (auto simp: rb_keys_from.simps [of z])
qed

section \<open>Deletion of a node\<close>

lemma erase_child:
  assumes inv: "rb_inv (rb_plug ps (RB c l k r))" and child: "l = NIL \<and> child = r \<or> r = NIL \<and> child = l"
  shows "\<exists>u. (if c = RB_BLACK then rb_erase_color child ps else Some (rb_plug ps child)) = Some u \<and>
           rb_inv u \<and> inorder u = ctx_before ps @ inorder child @ ctx_after ps"
proof -
  obtain n where n: "black_height (RB c l k r) n" "ctx_height ps n" "red_ok (RB c l k r)" "ctx_red_ok ps c"
    using inv unfolding rb_inv_plug by auto
  show ?thesis
  proof (cases c)
    case RB_BLACK
    with n obtain m where "n = Suc m" "black_height child m" using child by (auto simp: black_height_black)
    moreover have "red_ok (set_black_if child)" using n(3) child by (auto intro: red_ok_set_black_if)
    ultimately show ?thesis using rb_erase_color_ok [of child m ps] n RB_BLACK by auto
  next
    case RB_RED
    then have "rb_inv (rb_plug ps child)"
      using n child ctx_red_ok_black [OF n(4)] unfolding rb_inv_plug by auto
    with RB_RED show ?thesis by (simp add: inorder_plug)
  qed
qed

lemma rb_inv_replace: "rb_inv (rb_plug ps (RB c l k r)) \<longleftrightarrow> rb_inv (rb_plug ps (RB c l k' r))"
proof -
  have "black_height (RB c l k r) n \<longleftrightarrow> black_height (RB c l k' r) n" for n
    by (cases c; cases n) auto
  then show ?thesis unfolding rb_inv_plug by auto
qed

lemma rb_erase_ok:
  assumes "rb_inv (z_tree z)" and "z_key z = Some k"
  shows "\<exists>u. rb_erase z = Some u \<and> rb_inv u \<and> inorder u = z_before z @ z_after z"
proof -
  obtain c l r ps where z: "z = (RB c l k r, ps)" using assms(2) by (cases z rule: z_key.cases) auto
  with assms(1) have inv: "rb_inv (rb_plug ps (RB c l k r))" by (simp add: z_tree_def)
  show ?thesis
  proof (cases "l = NIL \<or> r = NIL")
    case True
    then show ?thesis
      using erase_child [OF inv, of "if l = NIL then r else l"] z by (auto split: if_splits)
  next
    case False
    obtain y fs where y: "rb_go_left r [] = (y, fs)" by (cases "rb_go_left r []")
    have "rb_go_left r (FR c l sk # ps) = (y, fs @ FR c l sk # ps)" for sk
      using rb_go_left_append [of r "[]" "FR c l sk # ps"] y by simp
    note go = this
    from rb_go_left_ok [OF go] False obtain sc sk child where
      yy: "y = RB sc NIL sk child" by blast
    from rb_go_left_ok [OF go [of sk]] False yy have
      plug: "rb_plug (fs @ FR c l sk # ps) y = rb_plug ps (RB c l sk r)" and
      ctx: "ctx_before (fs @ FR c l sk # ps) = ctx_before ps @ inorder l @ [sk]"
        "inorder r @ ctx_after ps = sk # inorder child @ ctx_after (fs @ FR c l sk # ps)"
      by auto
    have "rb_inv (rb_plug (fs @ FR c l sk # ps) (RB sc NIL sk child))"
      using plug yy rb_inv_replace inv by metis
    from erase_child [OF this, of child] show ?thesis
      using z False y yy ctx by (auto simp: Let_def)
  qed
qed

text \<open>Deleting while walking forward, as \<open>strlist__delete\<close> does, empties the tree.\<close>

lemma rb_first_ok:
  assumes "rb_first t = Some z"
  shows "\<exists>k. z_key z = Some k \<and> z_tree z = t \<and> z_before z = []"
proof -
  obtain y ps where y: "rb_go_left t [] = (y, ps)" by (cases "rb_go_left t []")
  from assms have "t \<noteq> NIL" "z = (y, ps)" by (auto simp: rb_first_def y split: if_splits)
  with rb_go_left_ok [OF y] show ?thesis by (auto simp: z_tree_def)
qed

lemma rb_keys_first: "rb_first t = Some z \<Longrightarrow> rb_keys_from z = inorder t"
  using rb_first_ok [of t z] rb_keys_from_eq [of z] z_split [of z] by auto

lemma rb_link_ok:
  assumes "rb_inv (rb_plug ps NIL)"
  shows "\<exists>u. rb_insert_color (rb_link_node k) ps = Some u \<and> rb_inv u \<and>
           inorder u = ctx_before ps @ k # ctx_after ps"
  using rb_insert_color_ok [of "rb_link_node k" 0 ps] assms unfolding rb_inv_plug
  by (auto simp: rb_link_node_def)

section \<open>The interface of the tree's clients\<close>

text \<open>
  The clients (\<open>strlist\<close>, the functions of a CU) walk down to a place with their own
  comparison, link a node there or erase the one they found, and read the keys in order.
  What they rely on is stated over an abstract position \<open>p\<close>; what follows for any order
  \<open>R\<close> that the client's walk respects is proved here once.
\<close>

locale rb_index =
  fixes inv :: "'t \<Rightarrow> bool"
    and keys :: "'t \<Rightarrow> 'a list"
    and slot :: "'t \<Rightarrow> 'p \<Rightarrow> bool"
    and node :: "'t \<Rightarrow> 'p \<Rightarrow> 'a \<Rightarrow> bool"
    and before :: "'p \<Rightarrow> 'a list"
    and after :: "'p \<Rightarrow> 'a list"
    and link :: "'a \<Rightarrow> 'p \<Rightarrow> 't option"
    and erase :: "'p \<Rightarrow> 't option"
  assumes slot_keys: "slot t p \<Longrightarrow> keys t = before p @ after p"
    and node_keys: "node t p k \<Longrightarrow> keys t = before p @ k # after p"
    and link_ok: "inv t \<Longrightarrow> slot t p \<Longrightarrow>
      \<exists>u. link k p = Some u \<and> inv u \<and> keys u = before p @ k # after p"
    and erase_ok: "inv t \<Longrightarrow> node t p k \<Longrightarrow>
      \<exists>u. erase p = Some u \<and> inv u \<and> keys u = before p @ after p"
begin

lemma link_sorted:
  assumes "inv t" "slot t p" "sorted_wrt R (keys t)"
    "\<forall>x \<in> set (before p). R x k" "\<forall>x \<in> set (after p). R k x"
  shows "\<exists>u. link k p = Some u \<and> inv u \<and> sorted_wrt R (keys u) \<and> set (keys u) = insert k (set (keys t))"
  using link_ok [OF assms(1,2), of k] slot_keys [OF assms(2)] assms(3-)
  by (auto simp: sorted_wrt_append)

lemma erase_sorted:
  assumes "inv t" "node t p k" "sorted_wrt R (keys t)"
  shows "\<exists>u. erase p = Some u \<and> inv u \<and> sorted_wrt R (keys u) \<and> keys u = before p @ after p"
  using erase_ok [OF assms(1,2)] node_keys [OF assms(2)] assms(3)
  by (auto simp: sorted_wrt_append)

end

definition rb_slot :: "'a rbt \<Rightarrow> 'a rbt \<times> 'a path \<Rightarrow> bool" where
  "rb_slot t z \<longleftrightarrow> fst z = NIL \<and> z_tree z = t"

definition rb_node_at :: "'a rbt \<Rightarrow> 'a rbt \<times> 'a path \<Rightarrow> 'a \<Rightarrow> bool" where
  "rb_node_at t z k \<longleftrightarrow> z_key z = Some k \<and> z_tree z = t"

text \<open>\<open>rb_link_node\<close> followed by \<open>rb_insert_color\<close>, as every client calls them.\<close>

definition rb_link_insert :: "'a \<Rightarrow> 'a rbt \<times> 'a path \<Rightarrow> 'a rbt option" where
  "rb_link_insert k z = rb_insert_color (rb_link_node k) (snd z)"

interpretation rb: rb_index rb_inv inorder rb_slot rb_node_at z_before z_after rb_link_insert rb_erase
proof unfold_locales
  fix t :: "'a rbt" and z k
  assume "rb_inv t" "rb_slot t z"
  then show "\<exists>u. rb_link_insert k z = Some u \<and> rb_inv u \<and> inorder u = z_before z @ k # z_after z"
    using rb_link_ok [of "snd z" k]
    by (cases z) (auto simp: rb_slot_def z_tree_def rb_link_insert_def)
qed (auto simp: rb_slot_def rb_node_at_def z_tree_def inorder_plug z_split rb_erase_ok
       dest: z_split [unfolded z_tree_def])

section \<open>Properties\<close>

text \<open>C1: linking a node at any free place of a balanced tree and rebalancing gives, without a NULL
  dereference, a balanced tree (black root, no red child of a red node, one black height) whose keys
  in order are the old ones with the new key at that place.\<close>

theorem rb_insert_keeps_tree:
  assumes "rb_inv t" and "rb_slot t z"
  shows "\<exists>u. rb_link_insert k z = Some u \<and> rb_inv u \<and> inorder u = z_before z @ k # z_after z"
  by (rule rb.link_ok [OF assms])

theorem rb_insert_keeps_tree_witness:
  "\<exists>u. rb_link_insert (1::nat) (NIL, [FL RB_RED 2 NIL, FL RB_BLACK 3 NIL]) = Some u \<and> rb_inv u \<and>
     inorder u = [1, 2, 3]"
proof -
  let ?t = "RB RB_BLACK (RB RB_RED NIL 2 NIL) (3::nat) NIL"
  have "rb_inv ?t" by (auto simp: rb_inv_def intro!: exI [of _ "Suc 0"])
  moreover have "rb_slot ?t (NIL, [FL RB_RED 2 NIL, FL RB_BLACK 3 NIL])"
    by (simp add: rb_slot_def z_tree_def)
  ultimately show ?thesis by (rule rb_insert_keeps_tree [THEN exE]) auto
qed

text \<open>C2: erasing any node of a balanced tree, with no, one or two children, gives, without a NULL
  dereference, a balanced tree with the other keys in the same order.\<close>

theorem rb_erase_keeps_tree:
  assumes "rb_inv (z_tree z)" and "z_key z = Some k"
  shows "\<exists>u. rb_erase z = Some u \<and> rb_inv u \<and> inorder u = z_before z @ z_after z"
  by (rule rb_erase_ok [OF assms])

theorem rb_erase_keeps_tree_witness:
  "\<exists>u. rb_erase (RB RB_BLACK (RB RB_RED NIL 2 NIL) (3::nat) (RB RB_RED NIL 4 NIL), []) = Some u \<and>
     rb_inv u \<and> inorder u = [2, 4]"
proof -
  let ?z = "(RB RB_BLACK (RB RB_RED NIL 2 NIL) (3::nat) (RB RB_RED NIL 4 NIL), [])"
  have "rb_inv (z_tree ?z)" by (auto simp: z_tree_def rb_inv_def intro!: exI [of _ "Suc 0"])
  moreover have "z_key ?z = Some 3" by simp
  ultimately show ?thesis by (rule rb_erase_keeps_tree [THEN exE]) auto
qed

text \<open>C3: starting from \<open>rb_first\<close> and following \<open>rb_next\<close> visits the keys of the tree in order, each
  once, and \<open>rb_prev\<close> undoes every such step.\<close>

theorem rb_walk_in_order:
  assumes "rb_first t = Some z"
  shows "rb_keys_from z = inorder t \<and>
         (\<forall>y y' k. z_tree y = t \<longrightarrow> z_key y = Some k \<longrightarrow> rb_next y = Some y' \<longrightarrow> rb_prev y' = Some y)"
  using rb_keys_first [OF assms] by (simp only: rb_prev_next simp_thms) (auto intro: rb_prev_next)

theorem rb_walk_in_order_witness:
  "rb_keys_from (RB RB_RED NIL (2::nat) NIL, [FL RB_BLACK 3 NIL]) = [2, 3]"
  by (rule rb_walk_in_order [of "RB RB_BLACK (RB RB_RED NIL (2::nat) NIL) 3 NIL", THEN conjunct1, simplified])
    (simp add: rb_first_def)

end
