(* ===== verification/Cstring.thy ===== *)
theory Cstring
  imports Prelude "HOL-Library.Char_ord" "HOL-Library.List_Lexorder"
begin

text \<open>
  C strings as lists of characters without the terminating NUL, and the string routines
  of the C library and of \<open>dutil\<close> that the components call.  The order of \<open>strcmp\<close> is the
  lexicographic order of unsigned characters, which is the \<open><\<close> of the library's instances
  for characters and lists.
\<close>

fun c_strcmp :: "string \<Rightarrow> string \<Rightarrow> int" where
  "c_strcmp [] [] = 0"
| "c_strcmp [] (y # ys) = -1"
| "c_strcmp (x # xs) [] = 1"
| "c_strcmp (x # xs) (y # ys) = (if x = y then c_strcmp xs ys else if x < y then -1 else 1)"

fun c_strncmp :: "string \<Rightarrow> string \<Rightarrow> nat \<Rightarrow> int" where
  "c_strncmp xs ys 0 = 0"
| "c_strncmp [] [] (Suc n) = 0"
| "c_strncmp [] (y # ys) (Suc n) = -1"
| "c_strncmp (x # xs) [] (Suc n) = 1"
| "c_strncmp (x # xs) (y # ys) (Suc n) =
     (if x = y then c_strncmp xs ys n else if x < y then -1 else 1)"

lemma c_strcmp_eq [simp]: "c_strcmp xs ys = 0 \<longleftrightarrow> xs = ys"
  by (induction xs ys rule: c_strcmp.induct) auto

lemma c_strcmp_refl [simp]: "c_strcmp xs xs = 0"
  by simp

lemma c_strcmp_less: "c_strcmp xs ys < 0 \<longleftrightarrow> xs < ys"
  by (induction xs ys rule: c_strcmp.induct) auto

lemma c_strcmp_greater: "c_strcmp xs ys > 0 \<longleftrightarrow> ys < xs"
  by (induction xs ys rule: c_strcmp.induct) auto

lemma c_strncmp_eq: "c_strncmp xs ys n = 0 \<longleftrightarrow> take n xs = take n ys"
  by (induction xs ys n rule: c_strncmp.induct) auto

definition strstarts :: "string \<Rightarrow> string \<Rightarrow> bool" where
  "strstarts str prefix = (c_strncmp str prefix (length prefix) = 0)"

lemma strstarts_iff: "strstarts str prefix \<longleftrightarrow> (\<exists>rest. str = prefix @ rest)"
  by (auto simp: strstarts_def c_strncmp_eq) (metis append_take_drop_id)

text \<open>\<open>tolower\<close> of the C locale, and \<open>strlwr\<close>.\<close>

definition c_tolower :: "char \<Rightarrow> char" where
  "c_tolower c = (if CHR ''A'' \<le> c \<and> c \<le> CHR ''Z'' then char_of (of_char c + (32::nat)) else c)"

fun strlwr :: "string \<Rightarrow> string" where
  "strlwr [] = []"
| "strlwr (c # cs) = c_tolower c # strlwr cs"

definition c_strcaseeq :: "string \<Rightarrow> string \<Rightarrow> bool" where
  "c_strcaseeq a b \<longleftrightarrow> map c_tolower a = map c_tolower b"

lemma strlwr_map: "strlwr s = map c_tolower s"
  by (induction s) auto

text \<open>The length of the common prefix of two strings (\<open>dwarves.c\<close>).\<close>

fun strcommon :: "string \<Rightarrow> string \<Rightarrow> nat" where
  "strcommon (a # as) (b # bs) = (if a = b then Suc (strcommon as bs) else 0)"
| "strcommon _ _ = 0"

lemma strcommon_le: "strcommon a b \<le> length a \<and> strcommon a b \<le> length b"
  by (induction a b rule: strcommon.induct) auto

lemma strcommon_take: "n \<le> strcommon a b \<longleftrightarrow> n \<le> length a \<and> n \<le> length b \<and> take n a = take n b"
proof (induction a b arbitrary: n rule: strcommon.induct)
  case (1 a as b bs)
  then show ?case by (cases n) auto
qed auto

text \<open>\<open>strchr(s, c)\<close> followed by a cut: the part before the separator and, if found, the rest.\<close>

fun cut_at :: "char \<Rightarrow> string \<Rightarrow> string \<times> string option" where
  "cut_at c [] = ([], None)"
| "cut_at c (x # xs) =
     (if x = c then ([], Some xs) else (case cut_at c xs of (a, r) \<Rightarrow> (x # a, r)))"

lemma cut_at_length: "cut_at c xs = (a, Some r) \<Longrightarrow> length r < length xs"
  by (induction c xs arbitrary: a r rule: cut_at.induct) (auto split: prod.splits if_splits)

lemma cut_at_parts:
  "cut_at c xs = (a, r) \<Longrightarrow> c \<notin> set a \<and> (case r of None \<Rightarrow> xs = a | Some b \<Rightarrow> xs = a @ c # b)"
  by (induction c xs arbitrary: a r rule: cut_at.induct) (auto split: prod.splits if_splits option.splits)

end
