(* ===== verification/Strlist.thy ===== *)
theory Strlist
  imports Rbtree Cstring
begin

text \<open>
  The string list of \<open>dutil.c\<close>: every string is in a red-black tree ordered by \<open>strcmp\<close>
  and in a list that keeps the order of insertion.  A string is in it at most once, so a
  node is identified by its string.  \<open>priv\<close> is the client's opaque pointer.
\<close>

record str_node =
  sn_s :: string
  sn_priv :: nat

record strlist =
  sl_entries :: "str_node rbt"
  sl_list :: "str_node list"
  sl_dupstr :: bool

definition EEXIST :: int where "EEXIST = 17"
definition ENOMEM :: int where "ENOMEM = 12"

text \<open>\<open>sizeof(struct str_node)\<close> and \<open>sizeof(struct strlist)\<close> on a 64-bit target.\<close>

definition sizeof_str_node :: nat where "sizeof_str_node = 56"
definition sizeof_strlist :: nat where "sizeof_strlist = 32"

definition str_node__new :: "heap_env \<Rightarrow> string \<Rightarrow> bool \<Rightarrow> str_node option" where
  "str_node__new h s dupstr =
     (if avail h sizeof_str_node then
        (if dupstr \<and> \<not> avail h (length s + 1) then None else Some \<lparr>sn_s = s, sn_priv = 0\<rparr>)
      else None)"

definition strlist__new :: "heap_env \<Rightarrow> bool \<Rightarrow> strlist option" where
  "strlist__new h dupstr =
     (if avail h sizeof_strlist then Some \<lparr>sl_entries = NIL, sl_list = [], sl_dupstr = dupstr\<rparr>
      else None)"

text \<open>The walk from the root that both \<open>__strlist__add\<close> and \<open>strlist__has_entry\<close> do.\<close>

fun strlist_walk :: "string \<Rightarrow> str_node rbt \<Rightarrow> str_node path \<Rightarrow> str_node rbt \<times> str_node path" where
  "strlist_walk entry NIL ps = (NIL, ps)"
| "strlist_walk entry (RB c l sn r) ps =
     (let rc = c_strcmp (sn_s sn) entry
      in if rc > 0 then strlist_walk entry l (FL c sn r # ps)
         else if rc < 0 then strlist_walk entry r (FR c l sn # ps)
         else (RB c l sn r, ps))"

definition strlist__add_priv :: "heap_env \<Rightarrow> strlist \<Rightarrow> string \<Rightarrow> nat \<Rightarrow> fault + int \<times> strlist" where
  "strlist__add_priv h slist new_entry priv =
     (let z = strlist_walk new_entry (sl_entries slist) []
      in if fst z \<noteq> NIL then Inr (- EEXIST, slist)
         else case str_node__new h new_entry (sl_dupstr slist) of
                None \<Rightarrow> Inr (- ENOMEM, slist)
              | Some sn \<Rightarrow>
                  let sn' = sn\<lparr>sn_priv := priv\<rparr>
                  in (case rb_link_insert sn' z of
                        None \<Rightarrow> Inl Null_Deref
                      | Some t \<Rightarrow> Inr (0, slist\<lparr>sl_entries := t, sl_list := sl_list slist @ [sn']\<rparr>)))"

definition strlist__add :: "heap_env \<Rightarrow> strlist \<Rightarrow> string \<Rightarrow> fault + int \<times> strlist" where
  "strlist__add h slist new_entry = strlist__add_priv h slist new_entry 0"

definition strlist__has_entry :: "strlist \<Rightarrow> string \<Rightarrow> bool" where
  "strlist__has_entry slist entry \<longleftrightarrow> fst (strlist_walk entry (sl_entries slist) []) \<noteq> NIL"

definition strlist__empty :: "strlist \<Rightarrow> bool" where
  "strlist__empty slist \<longleftrightarrow> rb_first (sl_entries slist) = None"

text \<open>The node pointer handed to \<open>strlist__remove\<close> is the place the walk finds for its string.\<close>

definition strlist__remove :: "strlist \<Rightarrow> str_node \<Rightarrow> fault + strlist" where
  "strlist__remove slist sn =
     (case rb_erase (strlist_walk (sn_s sn) (sl_entries slist) []) of
        None \<Rightarrow> Inl Null_Deref
      | Some t \<Rightarrow> Inr (slist\<lparr>sl_entries := t, sl_list := remove1 sn (sl_list slist)\<rparr>))"

text \<open>The loop of \<open>strlist__delete\<close>: \<open>next\<close> is computed before the node is removed.\<close>

fun strlist_delete_loop :: "nat \<Rightarrow> strlist \<Rightarrow> str_node option \<Rightarrow> fault + strlist" where
  "strlist_delete_loop fuel slist None = Inr (slist\<lparr>sl_entries := NIL\<rparr>)"
| "strlist_delete_loop 0 slist (Some pos) = Inl Out_Of_Fuel"
| "strlist_delete_loop (Suc fuel) slist (Some pos) =
     (let next_node = (case rb_next (strlist_walk (sn_s pos) (sl_entries slist) []) of
                         None \<Rightarrow> None | Some z \<Rightarrow> z_key z)
      in case strlist__remove slist pos of
           Inl e \<Rightarrow> Inl e
         | Inr slist' \<Rightarrow> strlist_delete_loop fuel slist' next_node)"

definition strlist__delete :: "nat \<Rightarrow> strlist option \<Rightarrow> fault + strlist option" where
  "strlist__delete fuel slist =
     (case slist of
        None \<Rightarrow> Inr None
      | Some sl \<Rightarrow>
          map_sum id Some (strlist_delete_loop fuel sl
             (case rb_first (sl_entries sl) of None \<Rightarrow> None | Some z \<Rightarrow> z_key z)))"

text \<open>
  \<open>fgets\<close> with a buffer of \<open>Suc n\<close> bytes reads at most \<open>n\<close> characters and stops after a
  newline; \<open>None\<close> is the end of the file.  \<open>strlist__load\<close> cuts the last character of
  what it read, newline or not.
\<close>

fun fgets_aux :: "nat \<Rightarrow> string \<Rightarrow> string \<times> string" where
  "fgets_aux 0 inp = ([], inp)"
| "fgets_aux (Suc n) [] = ([], [])"
| "fgets_aux (Suc n) (c # cs) =
     (if c = CHR 0x0A then ([c], cs) else (case fgets_aux n cs of (a, r) \<Rightarrow> (c # a, r)))"

definition c_fgets :: "nat \<Rightarrow> string \<Rightarrow> (string \<times> string) option" where
  "c_fgets sz inp = (if inp = [] then None else Some (fgets_aux (sz - 1) inp))"

definition c_strlen :: "string \<Rightarrow> nat" where
  "c_strlen buf = length (takeWhile (\<lambda>c. c \<noteq> CHR 0x00) buf)"

lemma fgets_aux_shorter: "0 < n \<Longrightarrow> inp \<noteq> [] \<Longrightarrow> length (snd (fgets_aux n inp)) < length inp"
proof (induction n inp rule: fgets_aux.induct)
  case (3 n c cs)
  then show ?case
    by (cases n; cases cs) (auto split: prod.splits)
qed auto

function strlist_load_loop :: "heap_env \<Rightarrow> strlist \<Rightarrow> string \<Rightarrow> fault + int \<times> strlist" where
  "strlist_load_loop h slist inp =
     (case c_fgets 1024 inp of
        None \<Rightarrow> Inr (0, slist)
      | Some (entry, rest) \<Rightarrow>
          let len = c_strlen entry
          in if len = 0 then strlist_load_loop h slist rest
             else case strlist__add h slist (take (len - 1) entry) of
                    Inl e \<Rightarrow> Inl e
                  | Inr (err, slist') \<Rightarrow>
                      if err \<noteq> 0 then Inr (-1, slist') else strlist_load_loop h slist' rest)"
  by pat_completeness auto
termination
  by (relation "measure (\<lambda>(h, slist, inp). length inp)")
    (use fgets_aux_shorter [of 1023] in \<open>auto simp: c_fgets_def split: if_splits dest: sym\<close>, metis snd_conv)+

declare strlist_load_loop.simps [simp del]

definition strlist__load :: "heap_env \<Rightarrow> strlist \<Rightarrow> string option \<Rightarrow> fault + int \<times> strlist" where
  "strlist__load h slist file =
     (case file of None \<Rightarrow> Inr (-1, slist) | Some content \<Rightarrow> strlist_load_loop h slist content)"

section \<open>Invariant\<close>

definition strlist_inv :: "strlist \<Rightarrow> bool" where
  "strlist_inv sl \<longleftrightarrow>
     rb_inv (sl_entries sl) \<and>
     sorted_wrt (\<lambda>a b. sn_s a < sn_s b) (inorder (sl_entries sl)) \<and>
     set (sl_list sl) = set (inorder (sl_entries sl)) \<and>
     distinct (map sn_s (sl_list sl))"

text \<open>The strings, in the order in which they were added.\<close>

definition strlist_strings :: "strlist \<Rightarrow> string list" where
  "strlist_strings sl = map sn_s (sl_list sl)"

definition found_at :: "string \<Rightarrow> str_node rbt \<Rightarrow> str_node rbt \<times> str_node path \<Rightarrow> bool" where
  "found_at entry t z \<longleftrightarrow> z_tree z = t \<and>
    (case z_key z of
       None \<Rightarrow> fst z = NIL \<and> (\<forall>x \<in> set (z_before z). sn_s x < entry) \<and> (\<forall>x \<in> set (z_after z). entry < sn_s x)
     | Some sn \<Rightarrow> fst z \<noteq> NIL \<and> sn_s sn = entry)"

lemma walk_ok:
  assumes "sorted_wrt (\<lambda>a b. sn_s a < sn_s b) (inorder t)"
    "\<forall>x \<in> set (ctx_before ps). sn_s x < entry" "\<forall>x \<in> set (ctx_after ps). entry < sn_s x"
  shows "found_at entry (rb_plug ps t) (strlist_walk entry t ps)"
  using assms
proof (induction entry t ps rule: strlist_walk.induct)
  case (1 entry ps)
  then show ?case by (auto simp: found_at_def z_tree_def)
next
  case (2 entry c l sn r ps)
  have sl: "sorted_wrt (\<lambda>a b. sn_s a < sn_s b) (inorder l)" "sorted_wrt (\<lambda>a b. sn_s a < sn_s b) (inorder r)"
    and lt: "\<forall>x \<in> set (inorder l). sn_s x < sn_s sn" "\<forall>x \<in> set (inorder r). sn_s sn < sn_s x"
    using "2.prems"(1) by (auto simp: sorted_wrt_append)
  consider "c_strcmp (sn_s sn) entry > 0" | "c_strcmp (sn_s sn) entry < 0" | "sn_s sn = entry"
    using c_strcmp_eq by fastforce
  then show ?case
  proof cases
    case 1
    then have "entry < sn_s sn" by (simp add: c_strcmp_greater)
    then have "found_at entry (rb_plug (FL c sn r # ps) l) (strlist_walk entry l (FL c sn r # ps))"
      using "2.IH"(1) [OF refl 1 sl(1)] "2.prems"(2,3) lt by (fastforce dest: order.strict_trans)
    with 1 show ?thesis by simp
  next
    case less: 2
    then have "sn_s sn < entry" by (simp add: c_strcmp_less)
    then have "found_at entry (rb_plug (FR c l sn # ps) r) (strlist_walk entry r (FR c l sn # ps))"
      using "2.IH"(2) [OF refl _ less sl(2)] less "2.prems"(2,3) lt by (fastforce dest: order.strict_trans)
    with less show ?thesis by simp
  next
    case 3
    then show ?thesis by (simp add: found_at_def z_tree_def Let_def)
  qed
qed

lemma walk_root:
  "strlist_inv sl \<Longrightarrow> found_at entry (sl_entries sl) (strlist_walk entry (sl_entries sl) [])"
  using walk_ok [of "sl_entries sl" "[]" entry] by (simp add: strlist_inv_def)

lemma walk_hit:
  assumes "strlist_inv sl"
  shows "fst (strlist_walk entry (sl_entries sl) []) \<noteq> NIL \<longleftrightarrow> entry \<in> set (strlist_strings sl)"
proof -
  let ?z = "strlist_walk entry (sl_entries sl) []"
  have w: "found_at entry (sl_entries sl) ?z" by (rule walk_root [OF assms])
  show ?thesis
  proof (cases "z_key ?z")
    case None
    with w have "rb_slot (sl_entries sl) ?z" by (simp add: found_at_def rb_slot_def)
    from rb.slot_keys [OF this] None w have "\<forall>x \<in> set (inorder (sl_entries sl)). sn_s x \<noteq> entry"
      by (auto simp: found_at_def)
    with None w assms show ?thesis
      by (auto simp: found_at_def strlist_strings_def strlist_inv_def)
  next
    case (Some sn)
    with w have "sn \<in> set (inorder (sl_entries sl))" "sn_s sn = entry" "fst ?z \<noteq> NIL"
      using z_split [OF Some] by (auto simp: found_at_def)
    with assms show ?thesis by (auto simp: strlist_strings_def strlist_inv_def)
  qed
qed

lemma strlist_add_new:
  assumes "strlist_inv sl" "entry \<notin> set (strlist_strings sl)"
    "str_node__new h entry (sl_dupstr sl) = Some sn"
  shows "\<exists>sl'. strlist__add_priv h sl entry priv = Inr (0, sl') \<and> strlist_inv sl' \<and>
           sl_list sl' = sl_list sl @ [\<lparr>sn_s = entry, sn_priv = priv\<rparr>] \<and> sl_dupstr sl' = sl_dupstr sl"
proof -
  let ?z = "strlist_walk entry (sl_entries sl) []" and ?n = "\<lparr>sn_s = entry, sn_priv = priv\<rparr>"
  have w: "found_at entry (sl_entries sl) ?z" by (rule walk_root [OF assms(1)])
  have nil: "fst ?z = NIL" using walk_hit [OF assms(1)] assms(2) by blast
  then have key: "z_key ?z = None" by (cases ?z) auto
  have slot: "rb_slot (sl_entries sl) ?z" using w nil by (simp add: rb_slot_def found_at_def)
  have sn: "sn\<lparr>sn_priv := priv\<rparr> = ?n"
    using assms(3) by (auto simp: str_node__new_def split: if_splits)
  from w key have "\<forall>x \<in> set (z_before ?z). sn_s x < sn_s ?n" "\<forall>x \<in> set (z_after ?z). sn_s ?n < sn_s x"
    by (auto simp: found_at_def)
  from rb.link_sorted [OF _ slot _ this] assms(1) obtain u where
    u: "rb_link_insert ?n ?z = Some u" "rb_inv u" "sorted_wrt (\<lambda>a b. sn_s a < sn_s b) (inorder u)"
      "set (inorder u) = insert ?n (set (inorder (sl_entries sl)))"
    by (auto simp: strlist_inv_def)
  with nil assms sn show ?thesis
    by (auto simp: strlist__add_priv_def Let_def strlist_inv_def strlist_strings_def)
qed

lemma strlist_add_present:
  assumes "strlist_inv sl" "entry \<in> set (strlist_strings sl)"
  shows "strlist__add_priv h sl entry priv = Inr (- EEXIST, sl)"
  using walk_hit [OF assms(1), of entry] assms(2) by (simp add: strlist__add_priv_def Let_def)

lemma strlist_add_nomem:
  assumes "strlist_inv sl" "entry \<notin> set (strlist_strings sl)" "str_node__new h entry (sl_dupstr sl) = None"
  shows "strlist__add_priv h sl entry priv = Inr (- ENOMEM, sl)"
  using walk_hit [OF assms(1), of entry] assms(2,3) by (simp add: strlist__add_priv_def Let_def)

lemma strlist_remove_ok:
  assumes "strlist_inv sl" "sn \<in> set (sl_list sl)"
  shows "\<exists>sl' ps qs. strlist__remove sl sn = Inr sl' \<and> strlist_inv sl' \<and> sl_list sl' = remove1 sn (sl_list sl) \<and>
           inorder (sl_entries sl) = ps @ sn # qs \<and> inorder (sl_entries sl') = ps @ qs \<and>
           rb_node_at (sl_entries sl) (strlist_walk (sn_s sn) (sl_entries sl) []) sn \<and>
           z_after (strlist_walk (sn_s sn) (sl_entries sl) []) = qs"
proof -
  let ?z = "strlist_walk (sn_s sn) (sl_entries sl) []"
  have w: "found_at (sn_s sn) (sl_entries sl) ?z" by (rule walk_root [OF assms(1)])
  have "fst ?z \<noteq> NIL"
    using walk_hit [OF assms(1), of "sn_s sn"] assms(2) by (auto simp: strlist_strings_def)
  then obtain sn' where key: "z_key ?z = Some sn'" by (cases ?z rule: z_key.cases) auto
  with w have "sn' \<in> set (inorder (sl_entries sl))" "sn_s sn' = sn_s sn"
    using z_split [OF key] by (auto simp: found_at_def)
  with assms have "sn' = sn" by (auto simp: strlist_inv_def distinct_map inj_on_def)
  with key w have node: "rb_node_at (sl_entries sl) ?z sn" by (simp add: rb_node_at_def found_at_def)
  from rb.erase_sorted [OF _ node] assms(1) obtain u where
    u: "rb_erase ?z = Some u" "rb_inv u" "sorted_wrt (\<lambda>a b. sn_s a < sn_s b) (inorder u)"
      "inorder u = z_before ?z @ z_after ?z"
    unfolding strlist_inv_def by blast
  have split: "inorder (sl_entries sl) = z_before ?z @ sn # z_after ?z" by (rule rb.node_keys [OF node])
  have dist: "distinct (sl_list sl)" using assms(1) by (simp add: strlist_inv_def distinct_map)
  have "sn \<notin> set (z_before ?z @ z_after ?z)"
    using assms(1) split by (auto simp: strlist_inv_def sorted_wrt_append)
  then have "set (remove1 sn (sl_list sl)) = set (inorder u)"
    using assms(1) split u(4) dist by (auto simp: strlist_inv_def)
  with u split node assms(1) show ?thesis
    by (auto simp: strlist__remove_def strlist_inv_def distinct_map intro: distinct_remove1
        dest: inj_on_subset [OF _ set_remove1_subset])
qed

section \<open>Deleting the list\<close>

lemma delete_loop_ok:
  assumes "strlist_inv sl" "inorder (sl_entries sl) = ks" "length ks \<le> fuel"
  shows "\<exists>sl'. strlist_delete_loop fuel sl (case ks of [] \<Rightarrow> None | k # _ \<Rightarrow> Some k) = Inr sl' \<and>
           sl_entries sl' = NIL \<and> sl_list sl' = []"
  using assms
proof (induction ks arbitrary: fuel sl)
  case Nil
  then show ?case by (cases fuel) (auto simp: strlist_inv_def)
next
  case (Cons k ks)
  then obtain f where f: "fuel = Suc f" by (cases fuel) auto
  let ?z = "strlist_walk (sn_s k) (sl_entries sl) []"
  have "k \<in> set (sl_list sl)" using Cons.prems by (auto simp: strlist_inv_def)
  from strlist_remove_ok [OF Cons.prems(1) this] obtain sl1 ps qs where
    r: "strlist__remove sl k = Inr sl1" "strlist_inv sl1" "inorder (sl_entries sl) = ps @ k # qs"
      "inorder (sl_entries sl1) = ps @ qs" "rb_node_at (sl_entries sl) ?z k" "z_after ?z = qs"
    by blast
  have "ps = []"
  proof (rule ccontr)
    assume "ps \<noteq> []"
    with r(3) Cons.prems(2) obtain ps' where "ps = k # ps'" by (cases ps) auto
    with r(3) Cons.prems(1) show False by (auto simp: strlist_inv_def)
  qed
  with r Cons.prems(2) have ks: "qs = ks" "inorder (sl_entries sl1) = ks" by auto
  have "(case rb_next ?z of None \<Rightarrow> None | Some z \<Rightarrow> z_key z) = (case ks of [] \<Rightarrow> None | k # _ \<Rightarrow> Some k)"
    using r(5,6) ks rb_next_None [of ?z k] rb_next_ok [of ?z k]
    by (cases "rb_next ?z") (auto simp: rb_node_at_def)
  with Cons.IH [OF r(2) ks(2)] Cons.prems(3) f r(1) show ?case by simp
qed

lemma rb_first_head:
  "(case rb_first t of None \<Rightarrow> None | Some z \<Rightarrow> z_key z) = (case inorder t of [] \<Rightarrow> None | k # _ \<Rightarrow> Some k)"
proof (cases "rb_first t")
  case None
  then show ?thesis by (auto simp: rb_first_def split: if_splits)
next
  case (Some z)
  with rb_first_ok [OF Some] show ?thesis using z_split [of z] by auto
qed

section \<open>Loading a file\<close>

lemma fgets_line:
  "CHR 0x0A \<notin> set l \<Longrightarrow> length l < n \<Longrightarrow> fgets_aux n (l @ CHR 0x0A # rest) = (l @ [CHR 0x0A], rest)"
proof (induction l arbitrary: n)
  case Nil
  then show ?case by (cases n) auto
next
  case (Cons c l)
  then show ?case by (cases n) auto
qed

lemma fgets_tail:
  "CHR 0x0A \<notin> set l \<Longrightarrow> length l < n \<Longrightarrow> fgets_aux n l = (l, [])"
proof (induction l arbitrary: n)
  case Nil
  then show ?case by (cases n) auto
next
  case (Cons c l)
  then show ?case by (cases n) auto
qed

definition c_line :: "string \<Rightarrow> bool" where
  "c_line l \<longleftrightarrow> CHR 0x0A \<notin> set l \<and> CHR 0x00 \<notin> set l \<and> length l < 1023"

lemma c_strlen_id: "CHR 0x00 \<notin> set l \<Longrightarrow> c_strlen l = length l"
proof -
  assume "CHR 0x00 \<notin> set l"
  then have "takeWhile (\<lambda>c. c \<noteq> CHR 0x00) l = l" unfolding takeWhile_eq_all_conv by blast
  then show ?thesis by (simp only: c_strlen_def)
qed

lemma load_line:
  assumes "c_line l"
  shows "strlist_load_loop h sl (l @ CHR 0x0A # rest) =
           (case strlist__add h sl l of
              Inl e \<Rightarrow> Inl e
            | Inr (err, sl') \<Rightarrow> if err \<noteq> 0 then Inr (-1, sl') else strlist_load_loop h sl' rest)"
proof -
  have "c_strlen (l @ [CHR 0x0A]) = Suc (length l)"
    using assms c_strlen_id [of "l @ [CHR 0x0A]"] by (simp add: c_line_def)
  with assms show ?thesis
    by (simp add: strlist_load_loop.simps [of h sl "l @ CHR 0x0A # rest"] c_fgets_def fgets_line c_line_def
        del: strlist_load_loop.simps)
qed

lemma load_end: "strlist_load_loop h sl [] = Inr (0, sl)"
  by (simp add: strlist_load_loop.simps [of h sl "[]"] c_fgets_def)

lemma load_unterminated:
  assumes "c_line l" "l \<noteq> []"
  shows "strlist_load_loop h sl l =
           (case strlist__add h sl (butlast l) of
              Inl e \<Rightarrow> Inl e | Inr (err, sl') \<Rightarrow> if err \<noteq> 0 then Inr (-1, sl') else Inr (0, sl'))"
proof -
  have "c_strlen l = length l" using assms c_strlen_id [of l] by (simp add: c_line_def)
  with assms show ?thesis
    by (simp add: strlist_load_loop.simps [of h sl l] c_fgets_def fgets_tail c_line_def
        butlast_conv_take load_end split: sum.split)
qed

definition mem_ok :: "heap_env \<Rightarrow> bool" where
  "mem_ok h \<longleftrightarrow> (\<forall>n < 2147483648. avail h n)"

lemma load_lines:
  assumes "mem_ok h" "strlist_inv sl" "\<forall>l \<in> set ls. c_line l" "distinct ls"
    "set ls \<inter> set (strlist_strings sl) = {}"
  shows "\<exists>sl'. strlist_load_loop h sl (concat (map (\<lambda>l. l @ [CHR 0x0A]) ls)) = Inr (0, sl') \<and>
           strlist_inv sl' \<and> strlist_strings sl' = strlist_strings sl @ ls"
  using assms(2-)
proof (induction ls arbitrary: sl)
  case Nil
  then show ?case by (simp add: load_end)
next
  case (Cons l ls)
  have new: "str_node__new h l (sl_dupstr sl) \<noteq> None"
    using assms(1) Cons.prems(2) by (simp add: str_node__new_def mem_ok_def sizeof_str_node_def c_line_def)
  then obtain sn where "str_node__new h l (sl_dupstr sl) = Some sn" by auto
  from strlist_add_new [OF Cons.prems(1) _ this, of 0] Cons.prems(4) obtain sl1 where
    sl1: "strlist__add h sl l = Inr (0, sl1)" "strlist_inv sl1" "strlist_strings sl1 = strlist_strings sl @ [l]"
    by (auto simp: strlist__add_def strlist_strings_def)
  have "set ls \<inter> set (strlist_strings sl1) = {}" using sl1(3) Cons.prems(3,4) by auto
  from Cons.IH [OF sl1(2) _ _ this] Cons.prems(2,3) obtain sl2 where
    "strlist_load_loop h sl1 (concat (map (\<lambda>l. l @ [CHR 0x0A]) ls)) = Inr (0, sl2)"
    "strlist_inv sl2" "strlist_strings sl2 = strlist_strings sl1 @ ls"
    by auto
  with sl1 load_line [of l h sl] Cons.prems(2) show ?case by simp
qed

section \<open>Properties\<close>

text \<open>C4: the three outcomes of \<open>__strlist__add\<close> on a well-formed list: a string that is there is
  refused with \<open>-EEXIST\<close> and nothing changes, a failed allocation gives \<open>-ENOMEM\<close> and nothing
  changes, and otherwise the string is appended to the insertion order and the list stays well formed
  (balanced tree sorted by \<open>strcmp\<close>, the same nodes in tree and list, no duplicate).\<close>

theorem strlist_add_outcomes:
  assumes "strlist_inv sl"
  shows "if entry \<in> set (strlist_strings sl) then strlist__add_priv h sl entry priv = Inr (- EEXIST, sl)
         else if str_node__new h entry (sl_dupstr sl) = None
         then strlist__add_priv h sl entry priv = Inr (- ENOMEM, sl)
         else \<exists>sl'. strlist__add_priv h sl entry priv = Inr (0, sl') \<and> strlist_inv sl' \<and>
                sl_list sl' = sl_list sl @ [\<lparr>sn_s = entry, sn_priv = priv\<rparr>]"
  using strlist_add_present [OF assms] strlist_add_nomem [OF assms] strlist_add_new [OF assms, of entry h]
  by (auto split: option.split) (metis not_None_eq)

theorem strlist_add_outcomes_witness:
  "\<exists>sl'. strlist__add_priv \<lparr>avail = \<lambda>n. True, fresh = \<lambda>i. 0\<rparr>
           \<lparr>sl_entries = RB RB_BLACK NIL \<lparr>sn_s = ''b'', sn_priv = 0\<rparr> NIL,
            sl_list = [\<lparr>sn_s = ''b'', sn_priv = 0\<rparr>], sl_dupstr = True\<rparr> ''a'' 7 = Inr (0, sl') \<and> strlist_inv sl' \<and>
     sl_list sl' = [\<lparr>sn_s = ''b'', sn_priv = 0\<rparr>, \<lparr>sn_s = ''a'', sn_priv = 7\<rparr>]"
proof -
  let ?sl = "\<lparr>sl_entries = RB RB_BLACK NIL \<lparr>sn_s = ''b'', sn_priv = 0\<rparr> NIL,
            sl_list = [\<lparr>sn_s = ''b'', sn_priv = 0\<rparr>], sl_dupstr = True\<rparr>"
  have "strlist_inv ?sl" by (auto simp: strlist_inv_def rb_inv_def intro!: exI [of _ "Suc 0"])
  from strlist_add_outcomes [OF this, of "''a''" "\<lparr>avail = \<lambda>n. True, fresh = \<lambda>i. 0\<rparr>" 7]
  show ?thesis by (simp add: strlist_strings_def str_node__new_def)
qed

text \<open>C5: removing a node that is in the list unlinks it from both the tree and the list, and the rest
  stays well formed, so that \<open>strlist__has_entry\<close> answers exactly by membership afterwards.\<close>

theorem strlist_remove_membership:
  assumes "strlist_inv sl" and "sn \<in> set (sl_list sl)"
  shows "\<exists>sl'. strlist__remove sl sn = Inr sl' \<and> strlist_inv sl' \<and> sl_list sl' = remove1 sn (sl_list sl) \<and>
           (\<forall>s. strlist__has_entry sl' s \<longleftrightarrow> s \<noteq> sn_s sn \<and> strlist__has_entry sl s)"
proof -
  obtain sl' where r: "strlist__remove sl sn = Inr sl'" "strlist_inv sl'" "sl_list sl' = remove1 sn (sl_list sl)"
    using strlist_remove_ok [OF assms] by blast
  have d: "distinct (map sn_s (sl_list sl))" using assms(1) by (simp add: strlist_inv_def)
  then have "set (remove1 sn (sl_list sl)) = set (sl_list sl) - {sn}"
    by (simp add: distinct_map set_remove1_eq)
  then have "set (strlist_strings sl') = set (strlist_strings sl) - {sn_s sn}"
    using d assms(2) r(3) by (auto simp: strlist_strings_def distinct_map inj_on_def)
  then show ?thesis
    using r walk_hit [OF assms(1)] walk_hit [OF r(2)] by (auto simp: strlist__has_entry_def)
qed

theorem strlist_remove_membership_witness:
  "\<exists>sl'. strlist__remove \<lparr>sl_entries = RB RB_BLACK NIL \<lparr>sn_s = ''b'', sn_priv = 0\<rparr> NIL,
            sl_list = [\<lparr>sn_s = ''b'', sn_priv = 0\<rparr>], sl_dupstr = True\<rparr> \<lparr>sn_s = ''b'', sn_priv = 0\<rparr> = Inr sl' \<and>
     strlist_inv sl' \<and> sl_list sl' = []"
proof -
  let ?n = "\<lparr>sn_s = ''b'', sn_priv = 0\<rparr>"
  let ?sl = "\<lparr>sl_entries = RB RB_BLACK NIL ?n NIL, sl_list = [?n], sl_dupstr = True\<rparr>"
  have i: "strlist_inv ?sl" by (auto simp: strlist_inv_def rb_inv_def intro!: exI [of _ "Suc 0"])
  have m: "?n \<in> set (sl_list ?sl)" by simp
  show ?thesis using strlist_remove_membership [OF i m] by simp blast
qed

text \<open>\<open>strlist__delete\<close> ends after as many passes as there are strings and leaves nothing behind.\<close>

theorem strlist_delete_terminates:
  assumes "strlist_inv sl" and "length (sl_list sl) \<le> fuel"
  shows "\<exists>sl'. strlist__delete fuel (Some sl) = Inr (Some sl') \<and> sl_entries sl' = NIL \<and> sl_list sl' = []"
proof -
  have "distinct (inorder (sl_entries sl))"
    using assms(1) by (auto simp: strlist_inv_def sorted_wrt_iff_nth_less distinct_conv_nth nat_neq_iff)
      (metis less_irrefl)+
  then have "length (inorder (sl_entries sl)) = length (sl_list sl)"
    using assms(1) by (metis distinct_card distinct_map strlist_inv_def)
  then show ?thesis
    using delete_loop_ok [OF assms(1) refl, of fuel] assms(2)
    by (auto simp: strlist__delete_def rb_first_head)
qed

theorem strlist_delete_terminates_witness:
  "\<exists>sl'. strlist__delete 1 (Some \<lparr>sl_entries = RB RB_BLACK NIL \<lparr>sn_s = ''b'', sn_priv = 0\<rparr> NIL,
            sl_list = [\<lparr>sn_s = ''b'', sn_priv = 0\<rparr>], sl_dupstr = True\<rparr>) = Inr (Some sl') \<and> sl_list sl' = []"
proof -
  let ?sl = "\<lparr>sl_entries = RB RB_BLACK NIL \<lparr>sn_s = ''b'', sn_priv = 0\<rparr> NIL,
            sl_list = [\<lparr>sn_s = ''b'', sn_priv = 0\<rparr>], sl_dupstr = True\<rparr>"
  have i: "strlist_inv ?sl" by (auto simp: strlist_inv_def rb_inv_def intro!: exI [of _ "Suc 0"])
  have l: "length (sl_list ?sl) \<le> 1" by simp
  show ?thesis using strlist_delete_terminates [OF i l] by blast
qed

text \<open>loading a file of distinct newline-terminated lines, none already in the list, adds exactly
  its lines in order and returns 0.\<close>

theorem strlist_load_lines:
  assumes "mem_ok h" "strlist_inv sl" "\<forall>l \<in> set ls. c_line l" "distinct ls"
    "set ls \<inter> set (strlist_strings sl) = {}"
  shows "\<exists>sl'. strlist__load h sl (Some (concat (map (\<lambda>l. l @ [CHR 0x0A]) ls))) = Inr (0, sl') \<and>
           strlist_inv sl' \<and> strlist_strings sl' = strlist_strings sl @ ls"
  using load_lines [OF assms] by (simp add: strlist__load_def)

theorem strlist_load_lines_witness:
  "\<exists>sl'. strlist__load \<lparr>avail = \<lambda>n. True, fresh = \<lambda>i. 0\<rparr> \<lparr>sl_entries = NIL, sl_list = [], sl_dupstr = True\<rparr>
           (Some [CHR ''a'', CHR 0x0A, CHR ''b'', CHR 0x0A]) = Inr (0, sl') \<and>
     strlist_strings sl' = [''a'', ''b'']"
proof -
  let ?sl = "\<lparr>sl_entries = NIL, sl_list = [], sl_dupstr = True\<rparr>"
  have "strlist_inv ?sl" by (auto simp: strlist_inv_def rb_inv_def)
  from strlist_load_lines [OF _ this, of "\<lparr>avail = \<lambda>n. True, fresh = \<lambda>i. 0\<rparr>" "[''a'', ''b'']"]
  show ?thesis by (auto simp: mem_ok_def c_line_def strlist_strings_def)
qed

end
