(* ===== verification/Bits.thy ===== *)
theory Bits
  imports Prelude
begin

unbundle bit_operations_syntax

text \<open>
  The bit helpers of \<open>dutil.h\<close> (64-bit \<open>unsigned long\<close>) and the multiplicative hash of
  \<open>hash.h\<close>.  Shifts by the word size or more are undefined in C; where a caller can
  reach one the definition returns \<open>None\<close>.
\<close>

text \<open>\<open>~0ul << n\<close>\<close>

definition ones_from :: "nat \<Rightarrow> 64 word" where
  "ones_from n = push_bit n (NOT 0)"

definition is_power_of_2 :: "64 word \<Rightarrow> bool" where
  "is_power_of_2 n \<longleftrightarrow> n \<noteq> 0 \<and> (n AND (n - 1)) = 0"

text \<open>The body of \<open>__fls\<close>: each test halves the range in which the top bit can be.\<close>

definition fls_step :: "nat \<Rightarrow> int \<times> 64 word \<Rightarrow> int \<times> 64 word" where
  "fls_step s p =
     (case p of (num, w) \<Rightarrow>
        if (w AND ones_from (64 - s)) = 0 then (num - int s, push_bit s w) else (num, w))"

definition fls_long_word :: "64 word \<Rightarrow> int" where
  "fls_long_word w =
     (let p = fls_step 2 (fls_step 4 (fls_step 8 (fls_step 16 (fls_step 32 (63, w)))))
      in if (snd p AND ones_from 63) = 0 then fst p - 1 else fst p)"

definition fls64 :: "64 word \<Rightarrow> int" where
  "fls64 x = (if x = 0 then 0 else fls_long_word x + 1)"

definition ilog2_u64 :: "64 word \<Rightarrow> int" where
  "ilog2_u64 n = fls64 n - 1"

definition roundup_pow_of_two :: "64 word \<Rightarrow> 64 word option" where
  "roundup_pow_of_two n =
     (let s = fls64 (n - 1) in if s < 64 then Some (push_bit (nat s) 1) else None)"

definition roundup :: "nat \<Rightarrow> nat \<Rightarrow> nat" where
  "roundup x y = ((x + (y - 1)) div y) * y"

definition hash_64 :: "64 word \<Rightarrow> nat \<Rightarrow> 64 word option" where
  "hash_64 val bits =
     (if 0 < bits \<and> bits \<le> 64 then Some (drop_bit (64 - bits) (val * 11400714819323198485)) else None)"

section \<open>What they compute\<close>

lemma ones_from_zero_iff:
  assumes "n \<le> 64"
  shows "(w AND ones_from n) = 0 \<longleftrightarrow> unat w < 2 ^ n"
proof -
  have "(w AND ones_from n) = 0 \<longleftrightarrow> take_bit n w = w"
    unfolding ones_from_def
    by (auto simp: bit_eq_iff bit_simps)
  also have "\<dots> \<longleftrightarrow> unat w < 2 ^ n"
    by (metis take_bit_nat_eq_self_iff unsigned_take_bit_eq word_unat_eq_iff)
  finally show ?thesis .
qed

lemma unat_less_64: "unat (w :: 64 word) < 2 ^ 64"
  using unsigned_less [where ?'a = nat, of w] by simp

lemma unat_push_bit_64:
  assumes "unat (w :: 64 word) < 2 ^ (64 - s)" "s \<le> 64"
  shows "unat (push_bit s w) = unat w * 2 ^ s"
proof -
  have "unat w * 2 ^ s < 2 ^ (64 - s) * 2 ^ s" using assms(1) by simp
  also have "\<dots> = 2 ^ 64" using assms(2) by (simp flip: power_add)
  finally show ?thesis
    by (subst unsigned_push_bit_eq) (simp add: take_bit_nat_eq_self push_bit_eq_mult)
qed

text \<open>
  The loop invariant: the word is the argument shifted up by \<open>63 - num\<close> without loss, and
  its top bit is among the \<open>s\<close> highest positions.
\<close>

definition fls_inv :: "nat \<Rightarrow> nat \<Rightarrow> int \<times> 64 word \<Rightarrow> bool" where
  "fls_inv x s p \<longleftrightarrow>
     (\<exists>k. fst p = 63 - int k \<and> k < 64 \<and> unat (snd p) = x * 2 ^ k \<and> 2 ^ (64 - s) \<le> unat (snd p))"

lemma fls_step_inv:
  assumes "fls_inv x (2 * s) p" "0 < s" "2 * s \<le> 64"
  shows "fls_inv x s (fls_step s p)"
proof -
  obtain num w where p: "p = (num, w)" by (cases p)
  with assms obtain k where k: "num = 63 - int k" "k < 64" "unat w = x * 2 ^ k" "2 ^ (64 - 2 * s) \<le> unat w"
    by (auto simp: fls_inv_def)
  show ?thesis
  proof (cases "unat w < 2 ^ (64 - s)")
    case True
    then have u: "unat (push_bit s w) = unat w * 2 ^ s" using assms(3) by (simp add: unat_push_bit_64)
    have "(2::nat) ^ (64 - s) = 2 ^ (64 - 2 * s) * 2 ^ s" using assms(3) by (simp flip: power_add)
    then have lo: "2 ^ (64 - s) \<le> unat w * 2 ^ s" using k(4) by simp
    have "k + s < 64"
    proof (rule ccontr)
      assume "\<not> k + s < 64"
      moreover have "0 < x" using k(3,4) by (cases x) auto
      ultimately have "2 ^ (64 - s) * 1 \<le> (2::nat) ^ k * x"
        by (intro mult_le_mono power_increasing) auto
      with True k(3) show False by (simp add: mult.commute)
    qed
    with True k u lo p assms(3) show ?thesis
      by (auto simp: fls_step_def fls_inv_def ones_from_zero_iff power_add mult.assoc
          intro!: exI [of _ "k + s"])
  next
    case False
    with k p assms(3) show ?thesis
      by (auto simp: fls_step_def fls_inv_def ones_from_zero_iff not_less intro!: exI [of _ k])
  qed
qed

lemma fls_long_word_ok:
  assumes "x \<noteq> 0"
  shows "\<exists>m. fls_long_word x = int m \<and> m < 64 \<and> 2 ^ m \<le> unat x \<and> unat x < 2 * 2 ^ m"
proof -
  define p where "p = fls_step 2 (fls_step 4 (fls_step 8 (fls_step 16 (fls_step 32 (63, x)))))"
  have "fls_inv (unat x) 64 (63, x)"
    using assms by (auto simp: fls_inv_def unat_gt_0 Suc_le_eq intro!: exI [of _ 0])
  then have "fls_inv (unat x) 32 (fls_step 32 (63, x))"
    using fls_step_inv [of "unat x" 32] by simp
  then have "fls_inv (unat x) 16 (fls_step 16 (fls_step 32 (63, x)))"
    using fls_step_inv [of "unat x" 16] by simp
  then have "fls_inv (unat x) 8 (fls_step 8 (fls_step 16 (fls_step 32 (63, x))))"
    using fls_step_inv [of "unat x" 8] by simp
  then have "fls_inv (unat x) 4 (fls_step 4 (fls_step 8 (fls_step 16 (fls_step 32 (63, x)))))"
    using fls_step_inv [of "unat x" 4] by simp
  then have "fls_inv (unat x) 2 p"
    unfolding p_def using fls_step_inv [of "unat x" 2] by simp
  then obtain k where k: "fst p = 63 - int k" "k < 64" "unat (snd p) = unat x * 2 ^ k" "2 ^ 62 \<le> unat (snd p)"
    by (auto simp: fls_inv_def)
  define j where "j = (if unat (snd p) < 2 ^ 63 then Suc k else k)"
  have eq: "fls_long_word x = 63 - int j"
    using k(1) by (simp add: fls_long_word_def Let_def p_def [symmetric] j_def ones_from_zero_iff)
  have bounds: "2 ^ 63 \<le> unat x * 2 ^ j" "unat x * 2 ^ j < 2 * 2 ^ 63"
    using k(3,4) unat_less_64 [of "snd p"] by (auto simp: j_def)
  have "j < 64"
  proof (rule ccontr)
    assume "\<not> j < 64"
    then have "(2::nat) ^ 64 \<le> 2 ^ j" by (intro power_increasing) auto
    moreover have "1 \<le> unat x" using assms by (simp add: unat_gt_0 Suc_le_eq)
    ultimately have "1 * 2 ^ 64 \<le> unat x * 2 ^ j" by (rule mult_le_mono [rotated])
    with bounds(2) show False by simp
  qed
  then have split: "(2::nat) ^ 63 = 2 ^ (63 - j) * 2 ^ j" by (simp flip: power_add)
  from bounds have "2 ^ (63 - j) \<le> unat x" "unat x < 2 * 2 ^ (63 - j)"
    unfolding split by (simp_all flip: mult.assoc)
  with eq \<open>j < 64\<close> show ?thesis by (intro exI [of _ "63 - j"]) (simp add: of_nat_diff)
qed

text \<open>\<open>fls64\<close> is the number of binary digits, so \<open>roundup_pow_of_two\<close> is the least power above.\<close>

lemma fls64_ok: "x \<noteq> 0 \<Longrightarrow> \<exists>m. fls64 x = int m + 1 \<and> m < 64 \<and> 2 ^ m \<le> unat x \<and> unat x < 2 * 2 ^ m"
  using fls_long_word_ok [of x] by (auto simp: fls64_def)

lemma roundup_pow_of_two_ok:
  assumes "0 < unat n" "unat n \<le> 2 ^ 63"
  shows "\<exists>r k. roundup_pow_of_two n = Some r \<and> unat r = 2 ^ k \<and> unat n \<le> 2 ^ k \<and>
           (\<forall>j. unat n \<le> 2 ^ j \<longrightarrow> k \<le> j)"
proof (cases "n = 1")
  case True
  then show ?thesis
    by (intro exI [of _ 1] exI [of _ 0]) (simp add: roundup_pow_of_two_def fls64_def)
next
  case False
  have n1: "unat (n - 1) = unat n - 1" using assms(1) by (simp add: unat_minus_one unat_gt_0)
  have "2 \<le> unat n"
    using False assms(1) word_unat_eq_iff [of n 1] by simp
  then have "n - 1 \<noteq> 0" using n1 by auto
  from fls64_ok [OF this] obtain m where m: "fls64 (n - 1) = int m + 1" "m < 64"
      "2 ^ m \<le> unat n - 1" "unat n - 1 < 2 * 2 ^ m"
    using n1 by auto
  have "(2::nat) ^ m < 2 ^ 63" using m(3) assms by linarith
  then have "m < 63" by (rule power_less_imp_less_exp [rotated]) simp
  then have "(1::nat) < 2 ^ (63 - m)" by (intro one_less_power) auto
  with \<open>m < 63\<close> have "unat (push_bit (Suc m) (1 :: 64 word)) = 2 ^ Suc m"
    by (subst unat_push_bit_64) (auto simp del: power_Suc)
  moreover have "Suc m \<le> j" if "unat n \<le> 2 ^ j" for j
  proof (rule ccontr)
    assume "\<not> Suc m \<le> j"
    then have "(2::nat) ^ j \<le> 2 ^ m" by (intro power_increasing) auto
    with that m(3) \<open>2 \<le> unat n\<close> show False by linarith
  qed
  moreover have "nat (int m + 1) = Suc m" by simp
  ultimately show ?thesis
    using m \<open>m < 63\<close> assms
    by (intro exI [of _ "push_bit (Suc m) 1"] exI [of _ "Suc m"]) (auto simp: roundup_pow_of_two_def)
qed

lemma roundup_ok:
  assumes "0 < y"
  shows "y dvd roundup x y \<and> x \<le> roundup x y \<and> roundup x y < x + y"
proof -
  have "x + (y - 1) = (x + (y - 1)) div y * y + (x + (y - 1)) mod y" by simp
  moreover have "(x + (y - 1)) mod y < y" using assms by simp
  ultimately have "x \<le> (x + (y - 1)) div y * y" "(x + (y - 1)) div y * y < x + y"
    using assms by linarith+
  then show ?thesis by (simp only: roundup_def dvd_triv_right)
qed

lemma hash_64_ok:
  "0 < bits \<Longrightarrow> bits \<le> 64 \<Longrightarrow> \<exists>r. hash_64 val bits = Some r \<and> unat r < 2 ^ bits"
proof -
  assume b: "0 < bits" "bits \<le> 64"
  have "unat (drop_bit (64 - bits) w) < 2 ^ bits" for w :: "64 word"
  proof -
    have "unat w < 2 ^ bits * 2 ^ (64 - bits)"
      using unat_less_64 [of w] b by (simp flip: power_add)
    then show ?thesis
      by (subst unsigned_drop_bit_eq)
        (simp add: drop_bit_eq_div less_mult_imp_div_less take_bit_nat_eq_self [OF unat_less_64])
  qed
  with b show ?thesis by (simp add: hash_64_def)
qed

section \<open>The constant forms\<close>

text \<open>
  For a compile-time constant \<open>ilog2\<close> is a chain of 64 tests from bit 63 down to bit 0, and
  \<open>roundup_pow_of_two\<close> shifts by it.  \<open>____ilog2_NaN\<close> is a link error: \<open>None\<close>.
\<close>

fun ilog2_chain :: "nat \<Rightarrow> 64 word \<Rightarrow> nat option" where
  "ilog2_chain 0 n = (if (n AND push_bit 0 1) \<noteq> 0 then Some 0 else None)"
| "ilog2_chain (Suc k) n = (if (n AND push_bit (Suc k) 1) \<noteq> 0 then Some (Suc k) else ilog2_chain k n)"

definition ilog2_const :: "64 word \<Rightarrow> nat option" where
  "ilog2_const n = (if n < 1 then None else ilog2_chain 63 n)"

definition roundup_pow_of_two_const :: "64 word \<Rightarrow> 64 word option" where
  "roundup_pow_of_two_const n =
     (if n = 1 then Some 1
      else case ilog2_const (n - 1) of
             None \<Rightarrow> None
           | Some k \<Rightarrow> if k + 1 < 64 then Some (push_bit (k + 1) 1) else None)"

lemma and_one_bit: "(n AND push_bit k 1) \<noteq> 0 \<longleftrightarrow> bit n k" for n :: "64 word"
  by (simp add: bit_iff_and_push_bit_not_eq_0)

lemma ilog2_chain_top:
  "\<forall>j. k < j \<longrightarrow> \<not> bit n j \<Longrightarrow> n \<noteq> 0 \<Longrightarrow>
     \<exists>m. ilog2_chain k n = Some m \<and> bit n m \<and> (\<forall>j. m < j \<longrightarrow> \<not> bit n j)"
proof (induction k n rule: ilog2_chain.induct)
  case (1 n)
  then obtain j where "bit n j" by (auto simp: bit_eq_iff)
  with 1(1) have "bit n 0" by (cases j) blast+
  with 1 show ?case by (simp only: ilog2_chain.simps and_one_bit) auto
next
  case (2 k n)
  show ?case
  proof (cases "bit n (Suc k)")
    case True
    with 2 show ?thesis by (simp only: ilog2_chain.simps and_one_bit) auto
  next
    case False
    with 2(2) have "\<forall>j. k < j \<longrightarrow> \<not> bit n j" by (metis Suc_lessI)
    with 2 False show ?thesis by (simp only: ilog2_chain.simps and_one_bit) auto
  qed
qed

lemma top_bit_bounds:
  fixes n :: "64 word"
  assumes "bit n m" "\<forall>j. m < j \<longrightarrow> \<not> bit n j"
  shows "2 ^ m \<le> unat n \<and> unat n < 2 * 2 ^ m"
proof
  have "take_bit (Suc m) n = n"
    using assms(2) by (auto simp: bit_eq_iff bit_simps less_Suc_eq_le not_less)
  then have "take_bit (Suc m) (unat n) = unat n" by (metis unsigned_take_bit_eq)
  then show "unat n < 2 * 2 ^ m" by (simp add: take_bit_nat_eq_self_iff)
  show "2 ^ m \<le> unat n"
  proof (rule ccontr)
    assume "\<not> ?thesis"
    then have "take_bit m (unat n) = unat n" by (simp add: take_bit_nat_eq_self)
    then have "take_bit m n = n" by (metis unsigned_take_bit_eq word_unat_eq_iff)
    with assms(1) have "bit (take_bit m n) m" by simp
    then show False by (simp add: bit_simps)
  qed
qed

lemma ilog2_const_eq:
  assumes "n \<noteq> 0"
  shows "\<exists>m. ilog2_const n = Some m \<and> m < 64 \<and> ilog2_u64 n = int m"
proof -
  have "\<forall>j. 63 < j \<longrightarrow> \<not> bit n j" using bit_imp_le_length [of n] by fastforce
  from ilog2_chain_top [OF this assms] obtain m where
    m: "ilog2_chain 63 n = Some m" "bit n m" "\<forall>j. m < j \<longrightarrow> \<not> bit n j" by blast
  from fls64_ok [OF assms] obtain k where
    k: "fls64 n = int k + 1" "k < 64" "2 ^ k \<le> unat n" "unat n < 2 * 2 ^ k" by blast
  from top_bit_bounds [OF m(2,3)] k(3,4) have "(2::nat) ^ m < 2 ^ Suc k" "(2::nat) ^ k < 2 ^ Suc m" by auto
  then have "m < Suc k" "k < Suc m" by (simp_all only: power_strict_increasing_iff [of "2::nat"] one_less_numeral_iff semiring_norm)
  then have "k = m" by simp
  with m k assms show ?thesis by (simp add: ilog2_const_def ilog2_u64_def word_less_1)
qed

section \<open>Properties\<close>


text \<open>for every argument from 1 to \<open>2^63\<close>, \<open>__roundup_pow_of_two\<close>, through the binary search of
  \<open>__fls\<close>, gives the least power of two that is not below it, with no undefined shift.\<close>

theorem roundup_pow_of_two_least:
  assumes "0 < unat n" "unat n \<le> 2 ^ 63"
  shows "\<exists>r k. roundup_pow_of_two n = Some r \<and> unat r = 2 ^ k \<and> unat n \<le> 2 ^ k \<and>
           (\<forall>j. unat n \<le> 2 ^ j \<longrightarrow> k \<le> j)"
  by (rule roundup_pow_of_two_ok [OF assms])

theorem roundup_pow_of_two_least_witness:
  "\<exists>r k. roundup_pow_of_two 5 = Some r \<and> unat r = 2 ^ k \<and> 5 \<le> (2::nat) ^ k \<and>
     (\<forall>j. 5 \<le> (2::nat) ^ j \<longrightarrow> k \<le> j)"
  using roundup_pow_of_two_least [of 5] by simp

text \<open>the constant and the runtime form of \<open>roundup_pow_of_two\<close> agree on every argument, 0
  included, where both would shift by 64 or more and are undefined.\<close>

theorem roundup_pow_of_two_forms_agree: "roundup_pow_of_two_const n = roundup_pow_of_two n"
proof (cases "n = 1")
  case True
  then show ?thesis by (simp add: roundup_pow_of_two_const_def roundup_pow_of_two_def fls64_def)
next
  case False
  then have "n - 1 \<noteq> 0" by simp
  from ilog2_const_eq [OF this] obtain m where "ilog2_const (n - 1) = Some m" "fls64 (n - 1) - 1 = int m"
    unfolding ilog2_u64_def by blast
  then have "ilog2_const (n - 1) = Some m" "fls64 (n - 1) = int m + 1" by linarith+
  moreover have "nat (int m + 1) = Suc m" by simp
  ultimately show ?thesis
    using False by (simp add: roundup_pow_of_two_const_def roundup_pow_of_two_def)
qed

end
