(* ===== verification/Objcopy.thy ===== *)
theory Objcopy
  imports Cstring
begin

text \<open>
  \<open>exec_objcopy\<close> of \<open>dutil.c\<close>: the objcopy command line is split into words, the words and
  five fixed arguments are stored in an array sized from the length of the string, and the
  program is run.  The system calls are parameters: \<open>spawn\<close> gives the error number of
  \<open>posix_spawnp\<close> (0 for success), \<open>waits\<close> the results of the successive \<open>waitpid\<close> calls.
\<close>

datatype wait_status = Wait_Failed | Exited nat | Signaled

datatype waitpid_result = Wait_Error int | Wait_Status wait_status

definition EINTR :: int where "EINTR = 4"

text \<open>An interrupted \<open>waitpid\<close> is repeated; running out of results is waiting forever.\<close>

fun wait_child :: "waitpid_result list \<Rightarrow> fault + wait_status" where
  "wait_child [] = Inl Out_Of_Fuel"
| "wait_child (Wait_Status st # rs) = Inr st"
| "wait_child (Wait_Error errno # rs) = (if errno \<noteq> EINTR then Inr Wait_Failed else wait_child rs)"

definition ENOENT :: int where "ENOENT = 2"

text \<open>\<open>strtok_r(s, " \<backslash>t\<backslash>n", &saveptr)\<close>: skip delimiters, take the word, resume after its delimiter.\<close>

definition blank :: "char \<Rightarrow> bool" where
  "blank c \<longleftrightarrow> c = CHR '' '' \<or> c = CHR 0x09 \<or> c = CHR 0x0A"

definition c_strtok :: "string \<Rightarrow> (string \<times> string) option" where
  "c_strtok s =
     (let s' = dropWhile blank s
      in if s' = [] then None
         else Some (takeWhile (\<lambda>c. \<not> blank c) s', tl (dropWhile (\<lambda>c. \<not> blank c) s')))"

lemma c_strtok_shorter:
  assumes "c_strtok s = Some (w, rest)"
  shows "w \<noteq> [] \<and> length rest + length w \<le> length s \<and> (rest \<noteq> [] \<longrightarrow> length rest + length w < length s)"
proof -
  let ?s = "dropWhile blank s"
  have s: "?s \<noteq> []" "w = takeWhile (\<lambda>c. \<not> blank c) ?s" "rest = tl (dropWhile (\<lambda>c. \<not> blank c) ?s)"
    using assms by (auto simp: c_strtok_def Let_def split: if_splits)
  have "w \<noteq> []" using s(1,2) hd_dropWhile [OF s(1)] by (cases ?s) auto
  moreover have "length w + length (dropWhile (\<lambda>c. \<not> blank c) ?s) = length ?s"
    unfolding s(2) by (metis length_append takeWhile_dropWhile_id)
  moreover have "length ?s \<le> length s" by (rule length_dropWhile_le)
  ultimately show ?thesis
    using s(3) by (cases "dropWhile (\<lambda>c. \<not> blank c) ?s") auto
qed

text \<open>An array of pointers: a store outside it is a fault; unset elements are NULL.\<close>

definition argv_set :: "nat \<Rightarrow> string option list \<Rightarrow> nat \<Rightarrow> string \<Rightarrow> fault + string option list" where
  "argv_set n argv i w = (if i < n then Inr (argv[i := Some w]) else Inl Out_Of_Bounds)"

function split_words :: "nat \<Rightarrow> string option list \<Rightarrow> nat \<Rightarrow> string \<Rightarrow> fault + string option list \<times> nat" where
  "split_words n argv argc s =
     (case c_strtok s of
        None \<Rightarrow> Inr (argv, argc)
      | Some (w, rest) \<Rightarrow>
          (case argv_set n argv argc w of
             Inl e \<Rightarrow> Inl e
           | Inr argv' \<Rightarrow> split_words n argv' (argc + 1) rest))"
  by pat_completeness auto
termination
  by (relation "measure (\<lambda>(n, argv, argc, s). length s)") (auto dest: c_strtok_shorter)

declare split_words.simps [simp del]

fun argv_append :: "nat \<Rightarrow> string option list \<Rightarrow> nat \<Rightarrow> string list \<Rightarrow> fault + string option list \<times> nat" where
  "argv_append n argv argc [] = Inr (argv, argc)"
| "argv_append n argv argc (w # ws) =
     (case argv_set n argv argc w of Inl e \<Rightarrow> Inl e | Inr argv' \<Rightarrow> argv_append n argv' (argc + 1) ws)"

definition argv_size :: "string \<Rightarrow> nat" where
  "argv_size objcopy = (length objcopy + 1) div 2 + 6"

text \<open>The vector handed to \<open>posix_spawnp\<close> ends at its first NULL, which must be inside the array.\<close>

definition argv_read :: "string option list \<Rightarrow> fault + string list" where
  "argv_read argv = (if None \<in> set argv then Inr (map the (takeWhile (\<lambda>a. a \<noteq> None) argv)) else Inl Out_Of_Bounds)"

definition exec_objcopy ::
  "heap_env \<Rightarrow> (string list \<Rightarrow> int) \<Rightarrow> waitpid_result list \<Rightarrow> string \<Rightarrow> string \<Rightarrow> string \<Rightarrow> fault + int" where
  "exec_objcopy h spawn waits objcopy add_section filename =
     (if \<not> avail h (length objcopy + 1) \<or> \<not> avail h (8 * argv_size objcopy) then Inr (-1)
      else
        let n = argv_size objcopy in
        bindE (split_words n (replicate n None) 0 objcopy) (\<lambda>(argv, argc).
          if argc = 0 then Inr (- ENOENT)
          else bindE (argv_append n argv argc [''--add-section'', add_section, ''--'', filename, filename]) (\<lambda>(argv, argc).
            bindE (argv_read argv) (\<lambda>args.
              let rc = spawn args in
              if rc \<noteq> 0 then Inr (if rc = ENOENT then - ENOENT else -1)
              else bindE (wait_child waits) (\<lambda>status.
                Inr (case status of Exited code \<Rightarrow> if code = 0 then 0 else -1 | _ \<Rightarrow> -1))))))"

section \<open>The array is large enough\<close>

function words :: "string \<Rightarrow> string list" where
  "words s = (case c_strtok s of None \<Rightarrow> [] | Some (w, rest) \<Rightarrow> w # words rest)"
  by pat_completeness auto
termination
  by (relation "measure length") (auto dest: c_strtok_shorter)

declare words.simps [simp del]

text \<open>A string of \<open>n\<close> characters has at most \<open>(n + 1) / 2\<close> words.\<close>

lemma words_bound: "length (words s) \<le> (length s + 1) div 2"
proof (induction s rule: words.induct)
  case (1 s)
  show ?case
  proof (cases "c_strtok s")
    case None
    then show ?thesis by (simp add: words.simps [of s])
  next
    case (Some p)
    obtain w rest where p: "p = (w, rest)" by (cases p)
    with Some c_strtok_shorter [of s w rest] have sh: "w \<noteq> []" "length rest + length w \<le> length s"
      "rest \<noteq> [] \<longrightarrow> length rest + length w < length s" by auto
    have ih: "length (words rest) \<le> (length rest + 1) div 2" using 1 [OF Some p [symmetric]] .
    have "length w \<ge> 1" using sh(1) by (cases w) auto
    then have "(length rest + 1) div 2 + 1 \<le> (length s + 1) div 2"
      using sh by (cases "rest = []") auto
    with ih Some p show ?thesis by (simp add: words.simps [of s])
  qed
qed

definition argv_holds :: "nat \<Rightarrow> string option list \<Rightarrow> string list \<Rightarrow> bool" where
  "argv_holds n argv ws \<longleftrightarrow> argv = map Some ws @ replicate (n - length ws) None \<and> length ws \<le> n"

lemma argv_set_next:
  assumes "argv_holds n argv ws" "length ws < n"
  shows "\<exists>argv'. argv_set n argv (length ws) w = Inr argv' \<and> argv_holds n argv' (ws @ [w])"
proof -
  have "replicate (n - length ws) None = None # replicate (n - Suc (length ws)) (None :: string option)"
    using assms(2) by (simp flip: replicate_Suc add: Suc_diff_Suc)
  then show ?thesis
    using assms by (auto simp: argv_holds_def argv_set_def list_update_append)
qed

lemma split_words_ok:
  assumes "argv_holds n argv ws" "length ws + length (words s) \<le> n"
  shows "\<exists>argv'. split_words n argv (length ws) s = Inr (argv', length ws + length (words s)) \<and>
           argv_holds n argv' (ws @ words s)"
  using assms
proof (induction s arbitrary: argv ws rule: words.induct)
  case (1 s)
  show ?case
  proof (cases "c_strtok s")
    case None
    with 1(2) show ?thesis by (simp add: words.simps [of s] split_words.simps [of n argv "length ws" s])
  next
    case (Some p)
    obtain w rest where p: "p = (w, rest)" by (cases p)
    have ws: "words s = w # words rest" using Some p by (simp add: words.simps [of s])
    with 1(3) argv_set_next [OF 1(2), of w] obtain argv' where
      a: "argv_set n argv (length ws) w = Inr argv'" "argv_holds n argv' (ws @ [w])" by auto
    from 1(1) [OF Some p [symmetric] a(2)] 1(3) ws Some p a show ?thesis
      by (auto simp: split_words.simps [of n argv "length ws" s])
  qed
qed

lemma argv_append_ok:
  assumes "argv_holds n argv ws" "length ws + length vs \<le> n"
  shows "\<exists>argv'. argv_append n argv (length ws) vs = Inr (argv', length ws + length vs) \<and>
           argv_holds n argv' (ws @ vs)"
  using assms
proof (induction vs arbitrary: argv ws)
  case (Cons v vs)
  then obtain argv' where a: "argv_set n argv (length ws) v = Inr argv'" "argv_holds n argv' (ws @ [v])"
    using argv_set_next [of n argv ws v] by auto
  from Cons.IH [OF a(2)] Cons.prems(2) a show ?case by auto
qed auto

lemma argv_read_ok: "argv_holds n argv ws \<Longrightarrow> length ws < n \<Longrightarrow> argv_read argv = Inr ws"
  by (auto simp: argv_holds_def argv_read_def takeWhile_append comp_def)

section \<open>Properties\<close>

text \<open>C6: whatever the command string, the argument vector of \<open>exec_objcopy\<close> fits the array sized
  \<open>(n + 1) / 2 + 6\<close> with room for the final NULL; the program run is the words of the string
  followed by the five fixed arguments, and an empty command is \<open>-ENOENT\<close> without running anything.\<close>

theorem exec_objcopy_in_bounds:
  "exec_objcopy h spawn waits objcopy add_section filename =
     (if avail h (length objcopy + 1) \<and> avail h (8 * argv_size objcopy) then
        if words objcopy = [] then Inr (- ENOENT)
        else
          let rc = spawn (words objcopy @ [''--add-section'', add_section, ''--'', filename, filename])
          in if rc = ENOENT then Inr (- ENOENT)
             else if rc = 0 then map_sum id (\<lambda>st. if st = Exited 0 then 0 else -1) (wait_child waits)
             else Inr (-1)
      else Inr (-1))"
proof -
  let ?n = "argv_size objcopy" and ?ws = "words objcopy"
  let ?vs = "[''--add-section'', add_section, ''--'', filename, filename]"
  have b: "length ?ws + 6 \<le> ?n" using words_bound [of objcopy] by (simp add: argv_size_def)
  have "argv_holds ?n (replicate ?n None) []" by (simp add: argv_holds_def)
  from split_words_ok [OF this, of objcopy] b obtain argv where
    a: "split_words ?n (replicate ?n None) 0 objcopy = Inr (argv, length ?ws)" "argv_holds ?n argv ?ws"
    by auto
  from argv_append_ok [OF a(2), of ?vs] b obtain argv' where
    c: "argv_append ?n argv (length ?ws) ?vs = Inr (argv', length ?ws + 5)" "argv_holds ?n argv' (?ws @ ?vs)"
    by auto
  have "argv_read argv' = Inr (?ws @ ?vs)" using argv_read_ok [OF c(2)] b by simp
  with a(1) c(1) show ?thesis
    by (auto simp: exec_objcopy_def Let_def ENOENT_def split: sum.split wait_status.split)
qed

end
