(* ===== verification/Ptrtable.thy ===== *)
theory Ptrtable
  imports Prelude
begin

text \<open>
  The growing tables of pointers of \<open>dwarves.c\<close> (\<open>struct ptr_table\<close>): the types, functions
  and other tags of a compilation unit are reached through their index in one of them.
  \<open>pt_entries\<close> is the allocated block, so its length is what \<open>realloc\<close> last returned;
  \<open>None\<close> is a NULL entry.  All counters are \<open>uint32_t\<close> and wrap.
\<close>

record 'a ptr_table =
  pt_entries :: "'a option list"
  pt_nr_entries :: nat
  pt_allocated_entries :: nat

definition ptr_table__init :: "'a ptr_table" where
  "ptr_table__init = \<lparr>pt_entries = [], pt_nr_entries = 0, pt_allocated_entries = 0\<rparr>"

definition ptr_table__exit :: "'a ptr_table \<Rightarrow> 'a ptr_table" where
  "ptr_table__exit pt = pt\<lparr>pt_entries := []\<rparr>"

text \<open>
  \<open>realloc\<close> to \<open>n\<close> pointers and the \<open>memset\<close> of the new range: with fewer pointers than
  before the length of the \<open>memset\<close> wraps and it runs off the block.
\<close>

definition ptr_table_grow :: "heap_env \<Rightarrow> 'a ptr_table \<Rightarrow> nat \<Rightarrow> fault + 'a ptr_table option" where
  "ptr_table_grow h pt n =
     (if avail h (8 * n) then
        if pt_allocated_entries pt \<le> n then
          Inr (Some (pt\<lparr>pt_allocated_entries := n,
                       pt_entries := pt_entries pt @ replicate (n - pt_allocated_entries pt) None\<rparr>))
        else Inl Out_Of_Bounds
      else Inr None)"

definition ptr_table_store :: "'a ptr_table \<Rightarrow> nat \<Rightarrow> 'a option \<Rightarrow> fault + 'a ptr_table" where
  "ptr_table_store pt i p =
     (if i < length (pt_entries pt) then Inr (pt\<lparr>pt_entries := (pt_entries pt)[i := p]\<rparr>)
      else Inl Out_Of_Bounds)"

text \<open>The results: the error code, the index written through \<open>idxp\<close>, the table.\<close>

definition ptr_table__add ::
  "heap_env \<Rightarrow> 'a ptr_table \<Rightarrow> 'a option \<Rightarrow> nat \<Rightarrow> fault + int \<times> nat \<times> 'a ptr_table" where
  "ptr_table__add h pt p idx =
     (let nr_entries = u32 (pt_nr_entries pt + 1); rc = pt_nr_entries pt in
      bindE (if nr_entries > pt_allocated_entries pt
             then ptr_table_grow h pt (u32 (pt_allocated_entries pt + 2048)) else Inr (Some pt))
        (\<lambda>g. case g of
               None \<Rightarrow> Inr (-12, idx, pt)
             | Some pt1 \<Rightarrow>
                 bindE (ptr_table_store pt1 rc p) (\<lambda>pt2. Inr (0, rc, pt2\<lparr>pt_nr_entries := nr_entries\<rparr>))))"

text \<open>\<open>roundup(id + 1, 2048)\<close> in 32 bits\<close>

definition roundup_2048 :: "nat \<Rightarrow> nat" where
  "roundup_2048 x = (u32 (x + 2047) div 2048) * 2048"

definition ptr_table__add_with_id ::
  "heap_env \<Rightarrow> 'a ptr_table \<Rightarrow> 'a option \<Rightarrow> nat \<Rightarrow> fault + int \<times> 'a ptr_table" where
  "ptr_table__add_with_id h pt p ix =
     bindE (if ix \<ge> pt_allocated_entries pt
            then ptr_table_grow h pt (roundup_2048 (u32 (ix + 1))) else Inr (Some pt))
       (\<lambda>g. case g of
              None \<Rightarrow> Inr (-12, pt)
            | Some pt1 \<Rightarrow>
                bindE (ptr_table_store pt1 ix p) (\<lambda>pt2.
                  Inr (0, if ix \<ge> pt_nr_entries pt2 then pt2\<lparr>pt_nr_entries := u32 (ix + 1)\<rparr> else pt2)))"

definition ptr_table__entry :: "'a ptr_table \<Rightarrow> nat \<Rightarrow> fault + 'a option" where
  "ptr_table__entry pt ix =
     (if ix \<ge> pt_nr_entries pt then Inr None
      else if ix < length (pt_entries pt) then Inr (pt_entries pt ! ix) else Inl Out_Of_Bounds)"

section \<open>Invariant and the table as a map\<close>

definition pt_inv :: "'a ptr_table \<Rightarrow> bool" where
  "pt_inv pt \<longleftrightarrow>
     length (pt_entries pt) = pt_allocated_entries pt \<and> pt_nr_entries pt \<le> pt_allocated_entries pt \<and>
     pt_allocated_entries pt mod 2048 = 0 \<and> pt_allocated_entries pt < 4294967296 \<and>
     (\<forall>i < pt_allocated_entries pt. pt_nr_entries pt \<le> i \<longrightarrow> pt_entries pt ! i = None)"

definition pt_lookup :: "'a ptr_table \<Rightarrow> nat \<Rightarrow> 'a option" where
  "pt_lookup pt i = (if i < pt_nr_entries pt then pt_entries pt ! i else None)"

text \<open>Indices below this bound can be used without the 32-bit size of the table wrapping.\<close>

definition pt_limit :: nat where "pt_limit = 4294967296 - 2048"

lemma ptr_table__entry_ok: "pt_inv pt \<Longrightarrow> ptr_table__entry pt i = Inr (pt_lookup pt i)"
  by (simp add: ptr_table__entry_def pt_inv_def pt_lookup_def)

lemma pt_inv_init [simp]: "pt_inv ptr_table__init"
  by (simp add: pt_inv_def ptr_table__init_def)

lemma pt_lookup_init [simp]: "pt_lookup ptr_table__init = Map.empty"
  by (simp add: pt_lookup_def ptr_table__init_def fun_eq_iff)

lemma pt_lookup_beyond: "pt_nr_entries pt \<le> i \<Longrightarrow> pt_lookup pt i = None"
  by (simp add: pt_lookup_def)

lemma pt_lookup_entries: "pt_inv pt \<Longrightarrow> i < pt_allocated_entries pt \<Longrightarrow> pt_entries pt ! i = pt_lookup pt i"
  by (simp add: pt_lookup_def pt_inv_def)

text \<open>A table of one block that holds a given list.\<close>

definition pt_of :: "'a option list \<Rightarrow> 'a ptr_table" where
  "pt_of xs = \<lparr>pt_entries = xs @ replicate (2048 - length xs) None, pt_nr_entries = length xs,
               pt_allocated_entries = 2048\<rparr>"

lemma pt_inv_of: "length xs \<le> 2048 \<Longrightarrow> pt_inv (pt_of xs)"
  by (auto simp: pt_inv_def pt_of_def nth_append)

lemma pt_lookup_of: "pt_lookup (pt_of xs) i = (if i < length xs then xs ! i else None)"
  by (simp add: pt_lookup_def pt_of_def nth_append)

lemma pt_nr_entries_of [simp]: "pt_nr_entries (pt_of xs) = length xs"
  by (simp add: pt_of_def)

text \<open>Growing keeps the contents; storing changes one entry.\<close>

lemma grow_ok:
  assumes "pt_inv pt" "pt_allocated_entries pt \<le> n" "n mod 2048 = 0" "n < 4294967296" "avail h (8 * n)"
  shows "\<exists>pt'. ptr_table_grow h pt n = Inr (Some pt') \<and> pt_inv pt' \<and> pt_allocated_entries pt' = n \<and>
           pt_nr_entries pt' = pt_nr_entries pt \<and> pt_lookup pt' = pt_lookup pt"
  using assms by (auto simp: ptr_table_grow_def pt_inv_def pt_lookup_def nth_append fun_eq_iff)

lemma store_ok:
  assumes "pt_inv pt" "i < pt_allocated_entries pt" "nr = (if i < pt_nr_entries pt then pt_nr_entries pt else Suc i)"
  shows "\<exists>pt'. ptr_table_store pt i p = Inr pt' \<and> pt_nr_entries pt' = pt_nr_entries pt \<and>
           pt_inv (pt'\<lparr>pt_nr_entries := nr\<rparr>) \<and> pt_lookup (pt'\<lparr>pt_nr_entries := nr\<rparr>) = (pt_lookup pt)(i := p)"
proof -
  let ?pt = "pt\<lparr>pt_entries := (pt_entries pt)[i := p], pt_nr_entries := nr\<rparr>"
  have i: "i < length (pt_entries pt)" using assms(1,2) by (simp add: pt_inv_def)
  have "pt_inv ?pt"
    using assms i by (auto simp: pt_inv_def nth_list_update)
  moreover have "pt_lookup ?pt = (pt_lookup pt)(i := p)"
    using assms i by (auto simp: pt_lookup_def fun_eq_iff nth_list_update pt_inv_def)
  ultimately show ?thesis
    using i by (auto simp: ptr_table_store_def)
qed

definition pt_mem :: "heap_env \<Rightarrow> bool" where
  "pt_mem h \<longleftrightarrow> (\<forall>n \<le> 34359738368. avail h n)"

lemma ptr_table__add_ok:
  assumes "pt_inv pt" "pt_nr_entries pt < pt_limit" "pt_mem h"
  shows "\<exists>pt'. ptr_table__add h pt p idx = Inr (0, pt_nr_entries pt, pt') \<and> pt_inv pt' \<and>
           pt_nr_entries pt' = Suc (pt_nr_entries pt) \<and> pt_lookup pt' = (pt_lookup pt)(pt_nr_entries pt := p)"
proof -
  let ?n = "pt_nr_entries pt" and ?a = "pt_allocated_entries pt"
  have nr: "u32 (?n + 1) = Suc ?n" using assms(2) by (simp add: pt_limit_def)
  obtain pt1 where g: "(if u32 (?n + 1) > ?a then ptr_table_grow h pt (u32 (?a + 2048)) else Inr (Some pt)) = Inr (Some pt1)"
      "pt_inv pt1" "?n < pt_allocated_entries pt1" "pt_nr_entries pt1 = ?n" "pt_lookup pt1 = pt_lookup pt"
  proof (cases "u32 (?n + 1) > ?a")
    case True
    then have a: "?a = ?n" using assms(1) nr by (simp add: pt_inv_def)
    then have "u32 (?a + 2048) = ?a + 2048" using assms(2) by (simp add: pt_limit_def)
    with grow_ok [OF assms(1), of "?a + 2048" h] assms a True that show ?thesis
      by (auto simp: pt_inv_def pt_limit_def pt_mem_def)
  next
    case False
    with assms(1) nr that [of pt] show ?thesis by auto
  qed
  from store_ok [OF g(2,3), of "Suc ?n" p] g(4,5) obtain pt2 where
    s: "ptr_table_store pt1 ?n p = Inr pt2" "pt_inv (pt2\<lparr>pt_nr_entries := Suc ?n\<rparr>)"
      "pt_lookup (pt2\<lparr>pt_nr_entries := Suc ?n\<rparr>) = (pt_lookup pt)(?n := p)" by auto
  show ?thesis
    unfolding ptr_table__add_def Let_def g(1) using s nr by auto
qed

lemma ptr_table__add_with_id_ok:
  assumes "pt_inv pt" "ix < pt_limit" "pt_mem h"
  shows "\<exists>pt'. ptr_table__add_with_id h pt p ix = Inr (0, pt') \<and> pt_inv pt' \<and>
           pt_nr_entries pt' = max (pt_nr_entries pt) (Suc ix) \<and> pt_lookup pt' = (pt_lookup pt)(ix := p)"
proof -
  let ?n = "pt_nr_entries pt" and ?a = "pt_allocated_entries pt" and ?r = "roundup_2048 (Suc ix)"
  have nr: "u32 (ix + 1) = Suc ix" using assms(2) by (simp add: pt_limit_def)
  have r: "ix < ?r" "?r mod 2048 = 0" "?r < 4294967296"
    using assms(2) by (auto simp: roundup_2048_def pt_limit_def)
  obtain pt1 where g: "(if ix \<ge> ?a then ptr_table_grow h pt ?r else Inr (Some pt)) = Inr (Some pt1)"
      "pt_inv pt1" "ix < pt_allocated_entries pt1" "pt_nr_entries pt1 = ?n" "pt_lookup pt1 = pt_lookup pt"
  proof (cases "ix \<ge> ?a")
    case True
    with grow_ok [OF assms(1), of ?r h] assms r that show ?thesis
      by (auto simp: pt_mem_def)
  next
    case False
    with assms(1) that [of pt] show ?thesis by auto
  qed
  from store_ok [OF g(2,3) refl, of p] obtain pt2 where
    s: "ptr_table_store pt1 ix p = Inr pt2" "pt_nr_entries pt2 = ?n"
      "pt_inv (pt2\<lparr>pt_nr_entries := if ix < ?n then ?n else Suc ix\<rparr>)"
      "pt_lookup (pt2\<lparr>pt_nr_entries := if ix < ?n then ?n else Suc ix\<rparr>) = (pt_lookup pt)(ix := p)"
    unfolding g(4,5) by blast
  have e: "pt2\<lparr>pt_nr_entries := ?n\<rparr> = pt2" using s(2) by (cases pt2) auto
  show ?thesis
  proof (cases "ix < ?n")
    case True
    with s e have "pt_inv pt2" "pt_lookup pt2 = (pt_lookup pt)(ix := p)" by simp_all
    with True s show ?thesis unfolding ptr_table__add_with_id_def nr g(1) by (simp add: max_def)
  next
    case False
    with s show ?thesis unfolding ptr_table__add_with_id_def nr g(1) by (simp add: max_def)
  qed
qed

section \<open>The interface of the tables\<close>

text \<open>
  What the loaders rely on: an index once given keeps its entry, and indices are given in
  order.  A loader that adds one entry after another obtains the map from indices to
  entries; one that brings its own indices may do so in any order.
\<close>

fun add_list :: "('t \<Rightarrow> 'a option \<Rightarrow> fault + int \<times> nat \<times> 't) \<Rightarrow> 't \<Rightarrow> 'a option list \<Rightarrow> fault + nat list \<times> 't" where
  "add_list add t [] = Inr ([], t)"
| "add_list add t (p # ps) =
     (case add t p of
        Inl e \<Rightarrow> Inl e
      | Inr (rc, i, t') \<Rightarrow>
          if rc = 0 then map_sum id (\<lambda>(is, t2). (i # is, t2)) (add_list add t' ps) else Inr ([], t'))"

locale id_table =
  fixes inv :: "'t \<Rightarrow> bool"
    and sz :: "'t \<Rightarrow> nat"
    and limit :: nat
    and look :: "'t \<Rightarrow> nat \<Rightarrow> 'a option"
    and add :: "'t \<Rightarrow> 'a option \<Rightarrow> fault + int \<times> nat \<times> 't"
    and put :: "'t \<Rightarrow> 'a option \<Rightarrow> nat \<Rightarrow> fault + int \<times> 't"
  assumes add_ok: "inv t \<Longrightarrow> sz t < limit \<Longrightarrow>
      \<exists>t'. add t p = Inr (0, sz t, t') \<and> inv t' \<and> sz t' = Suc (sz t) \<and> look t' = (look t)(sz t := p)"
    and put_ok: "inv t \<Longrightarrow> i < limit \<Longrightarrow>
      \<exists>t'. put t p i = Inr (0, t') \<and> inv t' \<and> sz t' = max (sz t) (Suc i) \<and> look t' = (look t)(i := p)"
    and beyond: "inv t \<Longrightarrow> sz t \<le> i \<Longrightarrow> look t i = None"
begin

lemma add_list_ok:
  "inv t \<Longrightarrow> sz t + length ps \<le> limit \<Longrightarrow>
     \<exists>t'. add_list add t ps = Inr ([sz t..<sz t + length ps], t') \<and> inv t' \<and>
        sz t' = sz t + length ps \<and>
        (\<forall>i. look t' i = (if sz t \<le> i \<and> i < sz t + length ps then ps ! (i - sz t) else look t i))"
proof (induction ps arbitrary: t)
  case Nil
  then show ?case by auto
next
  case (Cons p ps)
  then have "sz t < limit" by simp
  from add_ok [OF Cons.prems(1) this, of p] obtain t1 where
    t1: "add t p = Inr (0, sz t, t1)" "inv t1" "sz t1 = Suc (sz t)" "look t1 = (look t)(sz t := p)"
    by blast
  have "Suc (sz t) + length ps \<le> limit" using Cons.prems(2) by simp
  from Cons.IH [OF t1(2), unfolded t1(3), OF this] obtain t2 where
    t2: "add_list add t1 ps = Inr ([Suc (sz t)..<Suc (sz t) + length ps], t2)" "inv t2"
      "sz t2 = Suc (sz t) + length ps"
      "\<forall>i. look t2 i = (if Suc (sz t) \<le> i \<and> i < Suc (sz t) + length ps then ps ! (i - Suc (sz t)) else look t1 i)"
    by blast
  have "[sz t..<sz t + length (p # ps)] = sz t # [Suc (sz t)..<Suc (sz t) + length ps]"
    by (simp add: upt_rec)
  moreover have "look t2 i = (if sz t \<le> i \<and> i < sz t + length (p # ps) then (p # ps) ! (i - sz t) else look t i)" for i
    using t2(4) [THEN spec, of i] t1(4) by (auto simp: nth_Cons' Suc_le_eq)
  ultimately show ?case using t1(1) t2(1,2,3) by (simp del: upt_Suc)
qed

end

interpretation pt: id_table "\<lambda>t. pt_inv t \<and> pt_mem h" pt_nr_entries pt_limit pt_lookup
  "\<lambda>t p. ptr_table__add h t p idx" "ptr_table__add_with_id h" for h idx
  by unfold_locales
    (use ptr_table__add_ok ptr_table__add_with_id_ok in \<open>blast\<close>,
     use ptr_table__add_with_id_ok in \<open>blast\<close>, simp add: pt_lookup_beyond)

section \<open>Properties\<close>

text \<open>adding a sequence of entries to a table, whatever its allocated size, gives them consecutive
  indices from the current size on; afterwards every index, old or new, leads to its entry.\<close>

theorem ptr_table_add_sequence:
  assumes "pt_inv pt" "pt_mem h" "pt_nr_entries pt + length ps \<le> pt_limit"
  shows "\<exists>pt'. add_list (\<lambda>t p. ptr_table__add h t p idx) pt ps =
             Inr ([pt_nr_entries pt..<pt_nr_entries pt + length ps], pt') \<and> pt_inv pt' \<and>
           (\<forall>i. ptr_table__entry pt' i =
              Inr (if pt_nr_entries pt \<le> i \<and> i < pt_nr_entries pt + length ps
                   then ps ! (i - pt_nr_entries pt) else pt_lookup pt i))"
  using pt.add_list_ok [of pt h ps idx] assms by (auto simp: ptr_table__entry_ok)

theorem ptr_table_add_sequence_witness:
  "\<exists>pt'. add_list (\<lambda>t p. ptr_table__add \<lparr>avail = \<lambda>n. True, fresh = \<lambda>i. 0\<rparr> t p 0) ptr_table__init
        [Some (10::nat), None, Some 30] = Inr ([0, 1, 2], pt') \<and> ptr_table__entry pt' 2 = Inr (Some 30)"
  using ptr_table_add_sequence [of "ptr_table__init :: nat ptr_table"
      "\<lparr>avail = \<lambda>n. True, fresh = \<lambda>i. 0\<rparr>" "[Some 10, None, Some 30]" 0]
  by (force simp: pt_mem_def pt_limit_def ptr_table__init_def upt_rec numeral_3_eq_3 pt_inv_def)

text \<open>storing an entry at a chosen index below the limit, inside or beyond the allocated range, makes
  that index lead to the entry, leaves every other index as it was (an index skipped over is NULL),
  and never touches memory outside the block.\<close>

theorem ptr_table_add_with_id_lookup:
  assumes "pt_inv pt" "pt_mem h" "i < pt_limit"
  shows "\<exists>pt'. ptr_table__add_with_id h pt p i = Inr (0, pt') \<and> pt_inv pt' \<and>
           (\<forall>j. ptr_table__entry pt' j = (if j = i then Inr p else ptr_table__entry pt j))"
  using pt.put_ok [of pt h i p] assms by (auto simp: ptr_table__entry_ok)

theorem ptr_table_add_with_id_lookup_witness:
  "\<exists>pt'. ptr_table__add_with_id \<lparr>avail = \<lambda>n. True, fresh = \<lambda>i. 0\<rparr> ptr_table__init (Some (7::nat)) 5000 = Inr (0, pt') \<and>
     ptr_table__entry pt' 5000 = Inr (Some 7) \<and> ptr_table__entry pt' 4999 = Inr None"
  using ptr_table_add_with_id_lookup [of "ptr_table__init :: nat ptr_table"
      "\<lparr>avail = \<lambda>n. True, fresh = \<lambda>i. 0\<rparr>" 5000 "Some 7"]
  by (auto simp: pt_mem_def pt_limit_def) (simp add: ptr_table__init_def ptr_table__entry_def)

end
