(* ===== verification/Tags.thy ===== *)
theory Tags
  imports Ptrtable Cstring Rbtree
begin

text \<open>
  The data model of \<open>dwarves.h\<close>: debugging-information entries (tags) and the compilation
  unit that owns them.  In C every tag starts with \<open>struct tag\<close> and is cast to the
  structure its \<open>tag\<close> field announces; here \<open>tg_body\<close> holds what follows the common header,
  and a cast to a structure that is not there is an access outside the object.

  A type, function or variable is reached through its index in one of the tables of the
  unit, so an index stands for the pointer wherever the code compares or stores one.
\<close>

datatype dw_tag =
    DW_TAG_array_type | DW_TAG_class_type | DW_TAG_enumeration_type | DW_TAG_formal_parameter
  | DW_TAG_imported_declaration | DW_TAG_label | DW_TAG_lexical_block | DW_TAG_member
  | DW_TAG_pointer_type | DW_TAG_reference_type | DW_TAG_compile_unit | DW_TAG_string_type
  | DW_TAG_structure_type | DW_TAG_subroutine_type | DW_TAG_typedef | DW_TAG_union_type
  | DW_TAG_unspecified_parameters | DW_TAG_variant | DW_TAG_inheritance | DW_TAG_inlined_subroutine
  | DW_TAG_ptr_to_member_type | DW_TAG_set_type | DW_TAG_subrange_type | DW_TAG_base_type
  | DW_TAG_const_type | DW_TAG_constant | DW_TAG_enumerator | DW_TAG_subprogram
  | DW_TAG_template_type_parameter | DW_TAG_template_value_parameter | DW_TAG_variant_part
  | DW_TAG_variable | DW_TAG_volatile_type | DW_TAG_restrict_type | DW_TAG_interface_type
  | DW_TAG_namespace | DW_TAG_imported_module | DW_TAG_unspecified_type
  | DW_TAG_rvalue_reference_type | DW_TAG_atomic_type | DW_TAG_GNU_template_parameter_pack
  | DW_TAG_GNU_formal_parameter_pack | DW_TAG_LLVM_annotation | DW_TAG_GNU_annotation

section \<open>Members and what a tag can be\<close>

datatype virtuality = DW_VIRTUALITY_none | DW_VIRTUALITY_virtual | DW_VIRTUALITY_pure_virtual

text \<open>\<open>cm_tag\<close> and \<open>cm_type\<close> are the fields of the member's own \<open>struct tag\<close>.\<close>

record class_member =
  cm_tag :: dw_tag
  cm_type :: nat
  cm_name :: "string option"
  cm_bit_offset :: nat
  cm_bit_size :: nat
  cm_byte_offset :: nat
  cm_hole :: int
  cm_byte_size :: nat
  cm_bitfield_offset :: int
  cm_bitfield_size :: nat
  cm_bit_hole :: nat
  cm_bitfield_end :: bool
  cm_visited :: bool
  cm_is_static :: bool
  cm_has_bit_offset :: bool
  cm_accessibility :: nat
  cm_virtuality :: virtuality
  cm_alignment :: nat
  cm_const_value :: nat

record enumerator =
  en_name :: string
  en_value :: nat

text \<open>
  The entries of a namespace; a nested type or a member function by its kind and its index in the
  table that holds tags of that kind.
\<close>

datatype ns_entry = Member class_member | Enumerator enumerator | Nested dw_tag nat

record type_t =
  ty_name :: "string option"
  ty_tags :: "ns_entry list"
  ty_size :: nat
  ty_nr_static_members :: nat
  ty_nr_members :: nat
  ty_alignment :: nat
  ty_natural_alignment :: nat
  ty_packed_attributes_inferred :: bool
  ty_declaration :: bool
  ty_is_signed_enum :: bool
  ty_member_prefix :: "string option"
  ty_member_prefix_len :: nat

record class_t = type_t +
  cl_nr_vtable_entries :: nat
  cl_vtable :: "nat list"
  cl_nr_holes :: nat
  cl_nr_bit_holes :: nat
  cl_pre_hole :: nat
  cl_padding :: nat
  cl_pre_bit_hole :: nat
  cl_bit_padding :: nat
  cl_holes_searched :: bool
  cl_flexible_array_verified :: bool
  cl_embedded_flexible_array_searched :: bool
  cl_has_flexible_array :: bool
  cl_has_embedded_flexible_array :: bool
  cl_is_packed :: bool

record base_type =
  bt_name :: string
  bt_bit_size :: nat
  bt_name_has_encoding :: bool
  bt_is_signed :: bool
  bt_is_bool :: bool
  bt_is_varargs :: bool
  bt_float_type :: nat

text \<open>\<open>at_nr_entries = None\<close> is the NULL pointer.\<close>

record array_type =
  at_nr_entries :: "nat list option"
  at_dimensions :: nat
  at_is_vector :: bool

record parameter =
  pa_type :: nat
  pa_name :: "string option"
  pa_attributes :: "string list"

record ftype =
  ft_parms :: "parameter list"
  ft_byte_size :: nat
  ft_nr_parms :: nat
  ft_unspec_parms :: bool

record lexblock_hdr =
  lb_addr :: nat
  lb_size :: nat
  lb_nr_inline_expansions :: nat
  lb_nr_labels :: nat
  lb_nr_variables :: nat
  lb_nr_lexblocks :: nat
  lb_size_inline_expansions :: nat

record function_t =
  fn_proto :: ftype
  fn_lexblock :: lexblock_hdr
  fn_name :: "string option"
  fn_linkage_name :: "string option"
  fn_cu_total_size_inline_expansions :: nat
  fn_cu_total_nr_inline_expansions :: nat
  fn_inlined :: nat
  fn_external :: bool
  fn_declaration :: bool
  fn_btf :: bool
  fn_virtuality :: virtuality
  fn_accessibility :: nat
  fn_vtable_entry :: int
  fn_attributes :: "string list"
  fn_abstract_origin :: bool

datatype vscope = VSCOPE_UNKNOWN | VSCOPE_LOCAL | VSCOPE_GLOBAL | VSCOPE_REGISTER | VSCOPE_OPTIMIZED

record variable_t =
  va_name :: "string option"
  va_external :: bool
  va_declaration :: bool
  va_scope :: vscope
  va_addr :: nat

datatype tag_body =
    Plain
  | Type_body type_t
  | Class_body class_t
  | Base_body base_type
  | Array_body array_type
  | String_body nat
  | Ftype_body ftype
  | Function_body function_t
  | Variable_body variable_t
  | Ptr_to_member_body nat
  | Constant_body "string option" nat
  | Namespace_body "string option" "(dw_tag \<times> nat) list"

record tag =
  tg_tag :: dw_tag
  tg_type :: nat
  tg_body :: tag_body

section \<open>The predicates of dwarves.h\<close>

definition tag__is_enumeration :: "dw_tag \<Rightarrow> bool" where
  "tag__is_enumeration t \<longleftrightarrow> t = DW_TAG_enumeration_type"
definition tag__is_namespace :: "dw_tag \<Rightarrow> bool" where
  "tag__is_namespace t \<longleftrightarrow> t = DW_TAG_namespace"
definition tag__is_struct :: "dw_tag \<Rightarrow> bool" where
  "tag__is_struct t \<longleftrightarrow> t = DW_TAG_structure_type \<or> t = DW_TAG_interface_type \<or> t = DW_TAG_class_type"
definition tag__is_typedef :: "dw_tag \<Rightarrow> bool" where
  "tag__is_typedef t \<longleftrightarrow> t = DW_TAG_typedef"
definition tag__is_rvalue_reference_type :: "dw_tag \<Rightarrow> bool" where
  "tag__is_rvalue_reference_type t \<longleftrightarrow> t = DW_TAG_rvalue_reference_type"
definition tag__is_union :: "dw_tag \<Rightarrow> bool" where
  "tag__is_union t \<longleftrightarrow> t = DW_TAG_union_type"
definition tag__is_const :: "dw_tag \<Rightarrow> bool" where
  "tag__is_const t \<longleftrightarrow> t = DW_TAG_const_type"
definition tag__is_pointer :: "dw_tag \<Rightarrow> bool" where
  "tag__is_pointer t \<longleftrightarrow> t = DW_TAG_pointer_type"
definition tag__is_variable :: "dw_tag \<Rightarrow> bool" where
  "tag__is_variable t \<longleftrightarrow> t = DW_TAG_variable"
definition tag__is_constant :: "dw_tag \<Rightarrow> bool" where
  "tag__is_constant t \<longleftrightarrow> t = DW_TAG_constant"
definition tag__is_volatile :: "dw_tag \<Rightarrow> bool" where
  "tag__is_volatile t \<longleftrightarrow> t = DW_TAG_volatile_type"
definition tag__is_atomic :: "dw_tag \<Rightarrow> bool" where
  "tag__is_atomic t \<longleftrightarrow> t = DW_TAG_atomic_type"
definition tag__is_restrict :: "dw_tag \<Rightarrow> bool" where
  "tag__is_restrict t \<longleftrightarrow> t = DW_TAG_restrict_type"
definition tag__is_function :: "dw_tag \<Rightarrow> bool" where
  "tag__is_function t \<longleftrightarrow> t = DW_TAG_subprogram"
definition tag__is_class_member :: "dw_tag \<Rightarrow> bool" where
  "tag__is_class_member t \<longleftrightarrow> t = DW_TAG_member"
definition tag__is_annotation :: "dw_tag \<Rightarrow> bool" where
  "tag__is_annotation t \<longleftrightarrow> t = DW_TAG_LLVM_annotation \<or> t = DW_TAG_GNU_annotation"

definition tag__is_modifier :: "dw_tag \<Rightarrow> bool" where
  "tag__is_modifier t \<longleftrightarrow>
     tag__is_const t \<or> tag__is_volatile t \<or> tag__is_restrict t \<or> tag__is_atomic t"

definition tag__has_namespace :: "dw_tag \<Rightarrow> bool" where
  "tag__has_namespace t \<longleftrightarrow>
     tag__is_struct t \<or> tag__is_union t \<or> tag__is_namespace t \<or> tag__is_enumeration t"

definition tag__is_type :: "dw_tag \<Rightarrow> bool" where
  "tag__is_type t \<longleftrightarrow>
     tag__is_union t \<or> tag__is_struct t \<or> tag__is_typedef t \<or>
     tag__is_rvalue_reference_type t \<or> tag__is_enumeration t"

definition tag__is_tag_type :: "dw_tag \<Rightarrow> bool" where
  "tag__is_tag_type t \<longleftrightarrow>
     tag__is_type t \<or>
     t = DW_TAG_array_type \<or> t = DW_TAG_string_type \<or> t = DW_TAG_base_type \<or>
     t = DW_TAG_const_type \<or> t = DW_TAG_pointer_type \<or> t = DW_TAG_rvalue_reference_type \<or>
     t = DW_TAG_ptr_to_member_type \<or> t = DW_TAG_reference_type \<or> t = DW_TAG_restrict_type \<or>
     t = DW_TAG_subroutine_type \<or> t = DW_TAG_unspecified_type \<or> t = DW_TAG_volatile_type \<or>
     t = DW_TAG_atomic_type \<or> t = DW_TAG_unspecified_type \<or> tag__is_annotation t"

lemmas tag_defs =
  tag__is_enumeration_def tag__is_namespace_def tag__is_struct_def tag__is_typedef_def
  tag__is_rvalue_reference_type_def tag__is_union_def tag__is_const_def tag__is_pointer_def
  tag__is_variable_def tag__is_constant_def tag__is_volatile_def tag__is_atomic_def
  tag__is_restrict_def tag__is_function_def tag__is_class_member_def tag__is_annotation_def
  tag__is_modifier_def tag__has_namespace_def tag__is_type_def tag__is_tag_type_def

section \<open>Casts\<close>

text \<open>A class is a type with more fields, so both can be read as a type.\<close>

definition tag__type :: "tag \<Rightarrow> fault + type_t" where
  "tag__type t = (case tg_body t of
      Type_body ty \<Rightarrow> Inr ty
    | Class_body cl \<Rightarrow> Inr (type_t.truncate cl)
    | _ \<Rightarrow> Inl Out_Of_Bounds)"

definition tag__class :: "tag \<Rightarrow> fault + class_t" where
  "tag__class t = (case tg_body t of Class_body cl \<Rightarrow> Inr cl | _ \<Rightarrow> Inl Out_Of_Bounds)"

definition tag__base_type :: "tag \<Rightarrow> fault + base_type" where
  "tag__base_type t = (case tg_body t of Base_body bt \<Rightarrow> Inr bt | _ \<Rightarrow> Inl Out_Of_Bounds)"

definition tag__array_type :: "tag \<Rightarrow> fault + array_type" where
  "tag__array_type t = (case tg_body t of Array_body a \<Rightarrow> Inr a | _ \<Rightarrow> Inl Out_Of_Bounds)"

definition tag__string_type :: "tag \<Rightarrow> fault + nat" where
  "tag__string_type t = (case tg_body t of String_body n \<Rightarrow> Inr n | _ \<Rightarrow> Inl Out_Of_Bounds)"

text \<open>A function starts with its prototype.\<close>

definition tag__ftype :: "tag \<Rightarrow> fault + ftype" where
  "tag__ftype t = (case tg_body t of
      Ftype_body ft \<Rightarrow> Inr ft | Function_body f \<Rightarrow> Inr (fn_proto f) | _ \<Rightarrow> Inl Out_Of_Bounds)"

definition tag__function :: "tag \<Rightarrow> fault + function_t" where
  "tag__function t = (case tg_body t of Function_body f \<Rightarrow> Inr f | _ \<Rightarrow> Inl Out_Of_Bounds)"

definition base_type__size :: "tag \<Rightarrow> fault + nat" where
  "base_type__size t = map_sum id (\<lambda>bt. bt_bit_size bt div 8) (tag__base_type t)"

lemmas cast_defs =
  tag__type_def tag__class_def tag__base_type_def tag__array_type_def tag__string_type_def
  tag__ftype_def tag__function_def base_type__size_def type_t.truncate_def

text \<open>The bodies the constructors of the loaders allocate for each kind of tag.\<close>

definition tag_wf :: "tag \<Rightarrow> bool" where
  "tag_wf t \<longleftrightarrow>
     (tag__is_struct (tg_tag t) \<longrightarrow> (\<exists>c. tg_body t = Class_body c)) \<and>
     (tag__is_union (tg_tag t) \<or> tag__is_enumeration (tg_tag t) \<or> tag__is_typedef (tg_tag t) \<or>
        tag__is_rvalue_reference_type (tg_tag t) \<longrightarrow>
        (\<exists>ty. tg_body t = Type_body ty)) \<and>
     (tg_tag t = DW_TAG_base_type \<longrightarrow> (\<exists>b. tg_body t = Base_body b)) \<and>
     (tg_tag t = DW_TAG_array_type \<longrightarrow> (\<exists>a. tg_body t = Array_body a)) \<and>
     (tg_tag t = DW_TAG_string_type \<longrightarrow> (\<exists>n. tg_body t = String_body n)) \<and>
     (tg_tag t = DW_TAG_subroutine_type \<longrightarrow> (\<exists>f. tg_body t = Ftype_body f)) \<and>
     (tg_tag t = DW_TAG_subprogram \<longrightarrow> (\<exists>f. tg_body t = Function_body f))"

lemma tag_wf_struct: "tag_wf t \<Longrightarrow> tag__is_struct (tg_tag t) \<Longrightarrow> \<exists>c. tg_body t = Class_body c"
  and tag_wf_type: "tag_wf t \<Longrightarrow> tag__is_union (tg_tag t) \<or> tag__is_enumeration (tg_tag t) \<or>
      tag__is_typedef (tg_tag t) \<or> tag__is_rvalue_reference_type (tg_tag t) \<Longrightarrow> \<exists>ty. tg_body t = Type_body ty"
  and tag_wf_base: "tag_wf t \<Longrightarrow> tg_tag t = DW_TAG_base_type \<Longrightarrow> \<exists>b. tg_body t = Base_body b"
  and tag_wf_array: "tag_wf t \<Longrightarrow> tg_tag t = DW_TAG_array_type \<Longrightarrow> \<exists>a. tg_body t = Array_body a"
  and tag_wf_string: "tag_wf t \<Longrightarrow> tg_tag t = DW_TAG_string_type \<Longrightarrow> \<exists>n. tg_body t = String_body n"
  and tag_wf_ftype: "tag_wf t \<Longrightarrow> tg_tag t = DW_TAG_subroutine_type \<Longrightarrow> \<exists>f. tg_body t = Ftype_body f"
  and tag_wf_function: "tag_wf t \<Longrightarrow> tg_tag t = DW_TAG_subprogram \<Longrightarrow> \<exists>f. tg_body t = Function_body f"
  by (simp_all add: tag_wf_def)

lemma tag__type_wf:
  assumes "tag_wf t" "tag__is_type (tg_tag t)"
  shows "\<exists>ty. tag__type t = Inr ty"
proof -
  have "(\<exists>c. tg_body t = Class_body c) \<or> (\<exists>ty. tg_body t = Type_body ty)"
    using assms tag_wf_struct tag_wf_type unfolding tag__is_type_def by blast
  then show ?thesis by (auto simp: tag__type_def)
qed

section \<open>Compilation units\<close>

text \<open>The tags of a unit in the order they were added, by the table that holds them.\<close>

datatype tag_ref = Type_ref nat | Function_ref nat | Tag_ref nat

text \<open>A node of the tree of functions: address, size and index of the function.\<close>

record fn_node =
  fk_addr :: nat
  fk_size :: nat
  fk_id :: nat

record cu =
  cu_name :: "string option"
  cu_types_table :: "tag ptr_table"
  cu_functions_table :: "tag ptr_table"
  cu_tags_table :: "tag ptr_table"
  cu_functions :: "fn_node rbt"
  cu_tags :: "tag_ref list"
  cu_addr_size :: nat
  cu_language :: nat
  cu_build_id :: "nat list"
  cu_nr_inline_expansions :: nat
  cu_size_inline_expansions :: nat

definition cu__function :: "cu option \<Rightarrow> nat \<Rightarrow> fault + tag option" where
  "cu__function c i = (case c of None \<Rightarrow> Inr None | Some cu \<Rightarrow> ptr_table__entry (cu_functions_table cu) i)"

definition cu__tag :: "cu option \<Rightarrow> nat \<Rightarrow> fault + tag option" where
  "cu__tag c i = (case c of None \<Rightarrow> Inr None | Some cu \<Rightarrow> ptr_table__entry (cu_tags_table cu) i)"

definition cu__type :: "cu option \<Rightarrow> nat \<Rightarrow> fault + tag option" where
  "cu__type c i = (case c of None \<Rightarrow> Inr None | Some cu \<Rightarrow> ptr_table__entry (cu_types_table cu) i)"

definition cu_inv :: "cu \<Rightarrow> bool" where
  "cu_inv cu \<longleftrightarrow> pt_inv (cu_types_table cu) \<and> pt_inv (cu_functions_table cu) \<and> pt_inv (cu_tags_table cu)"

definition cu_types :: "cu \<Rightarrow> nat \<Rightarrow> tag option" where
  "cu_types cu = pt_lookup (cu_types_table cu)"

lemma cu__type_ok [simp]: "cu_inv cu \<Longrightarrow> cu__type (Some cu) i = Inr (cu_types cu i)"
  by (simp add: cu__type_def cu_inv_def cu_types_def ptr_table__entry_ok)

lemma cu_types_bound: "cu_types cu i = Some t \<Longrightarrow> i < pt_nr_entries (cu_types_table cu)"
  by (simp add: cu_types_def pt_lookup_def split: if_splits)

end
