(* ===== verification/Cu.thy ===== *)
theory Cu
  imports Tags
begin

text \<open>
  Compilation units of \<open>dwarves.c\<close>: creation, the three tables and the address tree of
  functions, the lookups by name and address, and the list of units (\<open>struct cus\<close>).
\<close>

section \<open>Adding tags\<close>

fun cu_walk_addr :: "nat \<Rightarrow> fn_node rbt \<Rightarrow> fn_node path \<Rightarrow> fn_node rbt \<times> fn_node path" where
  "cu_walk_addr addr NIL ps = (NIL, ps)"
| "cu_walk_addr addr (RB c l f r) ps =
     (if addr < fk_addr f then cu_walk_addr addr l (FL c f r # ps)
      else cu_walk_addr addr r (FR c l f # ps))"

definition cu__insert_function :: "cu \<Rightarrow> fn_node \<Rightarrow> fault + cu" where
  "cu__insert_function cu f =
     (case rb_link_insert f (cu_walk_addr (fk_addr f) (cu_functions cu) []) of
        None \<Rightarrow> Inl Null_Deref
      | Some t \<Rightarrow> Inr (cu\<lparr>cu_functions := t\<rparr>))"

text \<open>
  The table of a tag.  The function is put into the tree before its table entry exists; its
  index is the one it is about to get.
\<close>

datatype cu_table = Types | Functions | Tags

definition cu_table_of :: "tag \<Rightarrow> cu_table" where
  "cu_table_of t =
     (if tag__is_tag_type (tg_tag t) then Types
      else if tag__is_function (tg_tag t) then Functions else Tags)"

fun cu_get_table :: "cu \<Rightarrow> cu_table \<Rightarrow> tag ptr_table" where
  "cu_get_table cu Types = cu_types_table cu"
| "cu_get_table cu Functions = cu_functions_table cu"
| "cu_get_table cu Tags = cu_tags_table cu"

fun cu_set_table :: "cu \<Rightarrow> cu_table \<Rightarrow> tag ptr_table \<Rightarrow> cu" where
  "cu_set_table cu Types pt = cu\<lparr>cu_types_table := pt\<rparr>"
| "cu_set_table cu Functions pt = cu\<lparr>cu_functions_table := pt\<rparr>"
| "cu_set_table cu Tags pt = cu\<lparr>cu_tags_table := pt\<rparr>"

fun cu_ref :: "cu_table \<Rightarrow> nat \<Rightarrow> tag_ref" where
  "cu_ref Types i = Type_ref i"
| "cu_ref Functions i = Function_ref i"
| "cu_ref Tags i = Tag_ref i"

definition cu_enter_function :: "cu \<Rightarrow> tag \<Rightarrow> nat \<Rightarrow> fault + cu" where
  "cu_enter_function cu t i =
     (if cu_table_of t = Functions then
        bindE (tag__function t) (\<lambda>f.
          cu__insert_function cu
            \<lparr>fk_addr = lb_addr (fn_lexblock f), fk_size = lb_size (fn_lexblock f), fk_id = i\<rparr>)
      else Inr cu)"

definition cu__table_add_tag :: "heap_env \<Rightarrow> cu \<Rightarrow> tag \<Rightarrow> nat \<Rightarrow> fault + int \<times> nat \<times> cu" where
  "cu__table_add_tag h cu t idx =
     (let tb = cu_table_of t in
      bindE (cu_enter_function cu t (pt_nr_entries (cu_get_table cu tb))) (\<lambda>cu1.
      bindE (ptr_table__add h (cu_get_table cu1 tb) (Some t) idx) (\<lambda>(rc, i, pt).
        Inr (if rc \<noteq> 0 then (-12, i, cu1) else (0, i, cu_set_table cu1 tb pt)))))"

definition cu__table_add_tag_with_id :: "heap_env \<Rightarrow> cu \<Rightarrow> tag \<Rightarrow> nat \<Rightarrow> fault + int \<times> cu" where
  "cu__table_add_tag_with_id h cu t i =
     (let tb = cu_table_of t in
      bindE (cu_enter_function cu t i) (\<lambda>cu1.
      bindE (ptr_table__add_with_id h (cu_get_table cu1 tb) (Some t) i) (\<lambda>(rc, pt).
        Inr (rc, cu_set_table cu1 tb pt))))"

definition cu__table_nullify_type_entry :: "heap_env \<Rightarrow> cu \<Rightarrow> nat \<Rightarrow> fault + int \<times> cu" where
  "cu__table_nullify_type_entry h cu i =
     bindE (ptr_table__add_with_id h (cu_types_table cu) None i) (\<lambda>(rc, pt).
       Inr (rc, cu\<lparr>cu_types_table := pt\<rparr>))"

definition cu__add_tag :: "heap_env \<Rightarrow> cu \<Rightarrow> tag \<Rightarrow> nat \<Rightarrow> fault + int \<times> nat \<times> cu" where
  "cu__add_tag h cu t idx =
     bindE (cu__table_add_tag h cu t idx) (\<lambda>(err, i, cu1).
       Inr (err, i, if err = 0 then cu1\<lparr>cu_tags := cu_tags cu1 @ [cu_ref (cu_table_of t) i]\<rparr> else cu1))"

definition cu__add_tag_with_id :: "heap_env \<Rightarrow> cu \<Rightarrow> tag \<Rightarrow> nat \<Rightarrow> fault + int \<times> cu" where
  "cu__add_tag_with_id h cu t i =
     bindE (cu__table_add_tag_with_id h cu t i) (\<lambda>(err, cu1).
       Inr (err, if err = 0 then cu1\<lparr>cu_tags := cu_tags cu1 @ [cu_ref (cu_table_of t) i]\<rparr> else cu1))"

section \<open>Creating a unit\<close>

text \<open>
  \<open>NULL\<close> results are \<open>None\<close>; \<open>sz\<close> is \<open>sizeof(struct cu)\<close>.  The first type index is taken by
  void.
\<close>

definition cu_zero :: cu where
  "cu_zero =
     \<lparr>cu_name = None, cu_types_table = ptr_table__init, cu_functions_table = ptr_table__init,
      cu_tags_table = ptr_table__init, cu_functions = NIL, cu_tags = [], cu_addr_size = 0,
      cu_language = 0, cu_build_id = [], cu_nr_inline_expansions = 0, cu_size_inline_expansions = 0\<rparr>"

definition cu__new ::
  "heap_env \<Rightarrow> nat \<Rightarrow> string option \<Rightarrow> nat \<Rightarrow> nat list \<Rightarrow> string option \<Rightarrow> fault + cu option" where
  "cu__new h sz name addr_size build_id filename =
     (if avail h (sz + length build_id) then
        (case (name, filename) of
           (Some n, Some fnm) \<Rightarrow>
             if avail h (length n + 1) \<and> avail h (length fnm + 1) then
               bindE (ptr_table__add h (ptr_table__init :: tag ptr_table) None 0) (\<lambda>(rc, void_id, pt).
                 Inr (if rc < 0 then None
                      else Some (cu_zero\<lparr>cu_name := Some n, cu_types_table := pt, cu_addr_size := addr_size,
                                        cu_build_id := build_id\<rparr>)))
             else Inr None
         | _ \<Rightarrow> Inr None)
      else Inr None)"

definition cu__same_build_id :: "cu \<Rightarrow> cu \<Rightarrow> bool" where
  "cu__same_build_id cu other \<longleftrightarrow>
     length (cu_build_id cu) \<noteq> 0 \<and> length (cu_build_id cu) = length (cu_build_id other) \<and>
     cu_build_id cu = cu_build_id other"

section \<open>Lookups by name\<close>

text \<open>The loops \<open>cu__for_each_type\<close> (index 0 is void) and \<open>cu__for_each_function\<close>.\<close>

definition pt_each :: "nat \<Rightarrow> 'a ptr_table \<Rightarrow> (nat \<times> 'a) list" where
  "pt_each lo pt = List.map_filter (\<lambda>i. map_option (Pair i) (pt_entries pt ! i)) [lo..<pt_nr_entries pt]"

definition cu__for_each_type :: "cu \<Rightarrow> (nat \<times> tag) list" where
  "cu__for_each_type cu = pt_each 1 (cu_types_table cu)"

definition cu__for_each_function :: "cu \<Rightarrow> (nat \<times> tag) list" where
  "cu__for_each_function cu = pt_each 0 (cu_functions_table cu)"

fun first_e :: "('a \<Rightarrow> fault + bool) \<Rightarrow> 'a list \<Rightarrow> fault + 'a option" where
  "first_e P [] = Inr None"
| "first_e P (x # xs) =
     (case P x of Inl e \<Rightarrow> Inl e | Inr b \<Rightarrow> if b then Inr (Some x) else first_e P xs)"

definition cu__find_first_typedef_of_type :: "cu option \<Rightarrow> nat \<Rightarrow> (nat \<times> tag) option" where
  "cu__find_first_typedef_of_type c type =
     (case c of
        None \<Rightarrow> None
      | Some cu \<Rightarrow>
          if type = 0 then None
          else find (\<lambda>(i, pos). tag__is_typedef (tg_tag pos) \<and> tg_type pos = type) (cu__for_each_type cu))"

text \<open>The names of base types: \<open>snprintf\<close> into \<open>len\<close> bytes keeps \<open>len - 1\<close> characters.\<close>

definition base_type_fp_type_str :: "nat \<Rightarrow> string" where
  "base_type_fp_type_str n =
     [''(null)'', ''single'', ''double'', ''complex'', ''complex double'', ''complex long double'',
      ''long double'', ''interval'', ''interval double'', ''interval long double'',
      ''imaginary'', ''imaginary double'', ''imaginary long double''] ! n"

definition base_type__name :: "base_type \<Rightarrow> nat \<Rightarrow> fault + string" where
  "base_type__name bt len =
     (if bt_name_has_encoding bt then Inr (bt_name bt)
      else if bt_float_type bt \<noteq> 0 then
        if bt_float_type bt \<le> 12
        then Inr (take (len - 1) (base_type_fp_type_str (bt_float_type bt) @ '' '' @ bt_name bt))
        else Inl Out_Of_Bounds
      else Inr (take (len - 1) ((if bt_is_bool bt then ''bool '' else []) @
                                (if bt_is_varargs bt then ''... '' else []) @ bt_name bt)))"

definition cu__find_base_type_by_name :: "cu option \<Rightarrow> string option \<Rightarrow> fault + (nat \<times> tag) option" where
  "cu__find_base_type_by_name c name =
     (case (c, name) of
        (Some cu, Some nm) \<Rightarrow>
          first_e (\<lambda>(i, pos).
            if tg_tag pos \<noteq> DW_TAG_base_type then Inr False
            else bindE (tag__base_type pos) (\<lambda>bt. bindE (base_type__name bt 64) (\<lambda>bname.
                   Inr (c_strcmp bname nm = 0)))) (cu__for_each_type cu)
      | _ \<Rightarrow> Inr None)"

definition cu__find_base_type_by_name_and_size ::
  "cu \<Rightarrow> string option \<Rightarrow> nat \<Rightarrow> fault + (nat \<times> tag) option" where
  "cu__find_base_type_by_name_and_size cu name bit_size =
     (case name of
        None \<Rightarrow> Inr None
      | Some nm \<Rightarrow>
          first_e (\<lambda>(i, pos).
            if tg_tag pos = DW_TAG_base_type then
              bindE (tag__base_type pos) (\<lambda>bt.
                if bt_bit_size bt = bit_size
                then bindE (base_type__name bt 64) (\<lambda>bname. Inr (c_strcmp bname nm = 0))
                else Inr False)
            else Inr False) (cu__for_each_type cu))"

text \<open>Here the name of the enumeration is compared without a NULL test.\<close>

definition cu__find_enumeration_by_name_and_size ::
  "cu \<Rightarrow> string option \<Rightarrow> nat \<Rightarrow> fault + (nat \<times> tag) option" where
  "cu__find_enumeration_by_name_and_size cu name bit_size =
     (case name of
        None \<Rightarrow> Inr None
      | Some nm \<Rightarrow>
          first_e (\<lambda>(i, pos).
            if tg_tag pos = DW_TAG_enumeration_type then
              bindE (tag__type pos) (\<lambda>t.
                if ty_size t = bit_size
                then (case ty_name t of None \<Rightarrow> Inl Null_Deref | Some tn \<Rightarrow> Inr (c_strcmp tn nm = 0))
                else Inr False)
            else Inr False) (cu__for_each_type cu))"

definition name_is :: "string option \<Rightarrow> string \<Rightarrow> bool" where
  "name_is tname nm \<longleftrightarrow> (case tname of None \<Rightarrow> False | Some tn \<Rightarrow> c_strcmp tn nm = 0)"

definition cu__find_enumeration_by_name :: "cu \<Rightarrow> string option \<Rightarrow> fault + (nat \<times> tag) option" where
  "cu__find_enumeration_by_name cu name =
     (case name of
        None \<Rightarrow> Inr None
      | Some nm \<Rightarrow>
          first_e (\<lambda>(i, pos).
            if tg_tag pos = DW_TAG_enumeration_type
            then bindE (tag__type pos) (\<lambda>t. Inr (name_is (ty_name t) nm))
            else Inr False) (cu__for_each_type cu))"

definition cu__find_type_by_name :: "cu option \<Rightarrow> string option \<Rightarrow> bool \<Rightarrow> fault + (nat \<times> tag) option" where
  "cu__find_type_by_name c name include_decls =
     (case (c, name) of
        (Some cu, Some nm) \<Rightarrow>
          first_e (\<lambda>(i, pos).
            if \<not> tag__is_type (tg_tag pos) then Inr False
            else bindE (tag__type pos) (\<lambda>t.
              Inr (name_is (ty_name t) nm \<and> (\<not> ty_declaration t \<or> include_decls)))) (cu__for_each_type cu)
      | _ \<Rightarrow> Inr None)"

definition cu__find_struct_by_name_priv ::
  "cu option \<Rightarrow> string option \<Rightarrow> bool \<Rightarrow> bool \<Rightarrow> fault + (nat \<times> tag) option" where
  "cu__find_struct_by_name_priv c name include_decls unions =
     (case (c, name) of
        (Some cu, Some nm) \<Rightarrow>
          first_e (\<lambda>(i, pos).
            if \<not> (tag__is_struct (tg_tag pos) \<or> (unions \<and> tag__is_union (tg_tag pos))) then Inr False
            else bindE (tag__type pos) (\<lambda>t.
              Inr (name_is (ty_name t) nm \<and> (\<not> ty_declaration t \<or> include_decls)))) (cu__for_each_type cu)
      | _ \<Rightarrow> Inr None)"

definition cu__find_struct_by_name :: "cu option \<Rightarrow> string option \<Rightarrow> bool \<Rightarrow> fault + (nat \<times> tag) option" where
  "cu__find_struct_by_name c name include_decls = cu__find_struct_by_name_priv c name include_decls False"

definition cu__find_function_by_name :: "cu option \<Rightarrow> string option \<Rightarrow> fault + (nat \<times> tag) option" where
  "cu__find_function_by_name c name =
     (case (c, name) of
        (Some cu, Some nm) \<Rightarrow>
          first_e (\<lambda>(i, pos). bindE (tag__function pos) (\<lambda>f. Inr (name_is (fn_name f) nm)))
            (cu__for_each_function cu)
      | _ \<Rightarrow> Inr None)"

section \<open>Lookup by address\<close>

fun find_function_addr :: "nat \<Rightarrow> fn_node rbt \<Rightarrow> fn_node option" where
  "find_function_addr addr NIL = None"
| "find_function_addr addr (RB c l f r) =
     (if addr < fk_addr f then find_function_addr addr l
      else if addr \<ge> u64 (fk_addr f + fk_size f) then find_function_addr addr r
      else Some f)"

definition cu__find_function_at_addr :: "cu option \<Rightarrow> nat \<Rightarrow> fn_node option" where
  "cu__find_function_at_addr c addr =
     (case c of None \<Rightarrow> None | Some cu \<Rightarrow> find_function_addr addr (cu_functions cu))"

section \<open>The list of units\<close>

record cus =
  cus_nr_entries :: nat
  cus_cus :: "cu list"

definition cus__new :: cus where
  "cus__new = \<lparr>cus_nr_entries = 0, cus_cus = []\<rparr>"

definition cus__empty :: "cus \<Rightarrow> bool" where
  "cus__empty cs \<longleftrightarrow> cus_cus cs = []"

definition cus__nr_entries :: "cus \<Rightarrow> nat" where
  "cus__nr_entries cs = cus_nr_entries cs"

definition cus__add :: "cus \<Rightarrow> cu \<Rightarrow> cus" where
  "cus__add cs c = cs\<lparr>cus_nr_entries := u32 (cus_nr_entries cs + 1), cus_cus := cus_cus cs @ [c]\<rparr>"

text \<open>The unit to remove is the one at position \<open>i\<close> of the list.\<close>

definition cus__remove :: "cus \<Rightarrow> nat \<Rightarrow> cus" where
  "cus__remove cs i =
     cs\<lparr>cus_nr_entries := u32 (cus_nr_entries cs + 4294967295),
        cus_cus := take i (cus_cus cs) @ drop (Suc i) (cus_cus cs)\<rparr>"

fun first_cu :: "(cu \<Rightarrow> fault + 'a option) \<Rightarrow> cu list \<Rightarrow> fault + (cu \<times> 'a) option" where
  "first_cu f [] = Inr None"
| "first_cu f (c # cs) =
     (case f c of Inl e \<Rightarrow> Inl e | Inr None \<Rightarrow> first_cu f cs | Inr (Some x) \<Rightarrow> Inr (Some (c, x)))"

definition cus__find_struct_by_name :: "cus \<Rightarrow> string option \<Rightarrow> bool \<Rightarrow> fault + (cu \<times> nat \<times> tag) option" where
  "cus__find_struct_by_name cs name include_decls =
     first_cu (\<lambda>c. cu__find_struct_by_name_priv (Some c) name include_decls False) (cus_cus cs)"

definition cus__find_function_at_addr :: "cus \<Rightarrow> nat \<Rightarrow> fault + (cu \<times> fn_node) option" where
  "cus__find_function_at_addr cs addr =
     first_cu (\<lambda>c. Inr (cu__find_function_at_addr (Some c) addr)) (cus_cus cs)"

definition cus__find_cu_by_name :: "cus \<Rightarrow> string \<Rightarrow> cu option" where
  "cus__find_cu_by_name cs name = find (\<lambda>c. name_is (cu_name c) name) (cus_cus cs)"

definition cus__find_pair :: "cus \<Rightarrow> string \<Rightarrow> cu option" where
  "cus__find_pair cs name =
     (if cus_nr_entries cs = 1 then (case cus_cus cs of [] \<Rightarrow> None | c # _ \<Rightarrow> Some c)
      else cus__find_cu_by_name cs name)"

text \<open>\<open>cus__for_each_cu\<close> with a stateful iterator; it stops when the iterator says so.\<close>

fun cus_iterate :: "(cu \<Rightarrow> 's \<Rightarrow> int \<times> 's) \<Rightarrow> (cu \<Rightarrow> cu option) option \<Rightarrow> cu list \<Rightarrow> 's \<Rightarrow> 's" where
  "cus_iterate iterator filt [] s = s"
| "cus_iterate iterator filt (pos # cs) s =
     (case (case filt of None \<Rightarrow> Some pos | Some f \<Rightarrow> f pos) of
        None \<Rightarrow> cus_iterate iterator filt cs s
      | Some c \<Rightarrow>
          (case iterator c s of (rc, s') \<Rightarrow> if rc \<noteq> 0 then s' else cus_iterate iterator filt cs s'))"

definition cus__for_each_cu :: "cus \<Rightarrow> (cu \<Rightarrow> 's \<Rightarrow> int \<times> 's) \<Rightarrow> (cu \<Rightarrow> cu option) option \<Rightarrow> 's \<Rightarrow> 's" where
  "cus__for_each_cu cs iterator filt s = cus_iterate iterator filt (cus_cus cs) s"

section \<open>Invariant of a unit\<close>

definition cu_ok :: "cu \<Rightarrow> bool" where
  "cu_ok cu \<longleftrightarrow> cu_inv cu \<and> rb_inv (cu_functions cu) \<and>
     sorted_wrt (\<lambda>a b. fk_addr a \<le> fk_addr b) (inorder (cu_functions cu))"

lemma cu_walk_addr_ok:
  assumes "sorted_wrt (\<lambda>a b. fk_addr a \<le> fk_addr b) (inorder t)"
    "\<forall>x \<in> set (ctx_before ps). fk_addr x \<le> a" "\<forall>x \<in> set (ctx_after ps). a \<le> fk_addr x"
    "cu_walk_addr a t ps = z"
  shows "rb_slot (rb_plug ps t) z \<and> (\<forall>x \<in> set (z_before z). fk_addr x \<le> a) \<and>
           (\<forall>x \<in> set (z_after z). a \<le> fk_addr x)"
  using assms
proof (induction a t ps rule: cu_walk_addr.induct)
  case (1 a ps)
  then show ?case by (auto simp: rb_slot_def z_tree_def)
next
  case (2 a c l f r ps)
  show ?case
  proof (cases "a < fk_addr f")
    case True
    have "\<forall>x \<in> set (ctx_after (FL c f r # ps)). a \<le> fk_addr x"
      using True "2.prems"(1,3) by (fastforce simp: sorted_wrt_append)
    with 2 True show ?thesis by (simp add: sorted_wrt_append)
  next
    case False
    have "\<forall>x \<in> set (ctx_before (FR c l f # ps)). fk_addr x \<le> a"
      using False "2.prems"(1,2) by (fastforce simp: sorted_wrt_append)
    with 2 False show ?thesis by (simp add: sorted_wrt_append)
  qed
qed

lemma cu__insert_function_ok:
  assumes "cu_ok cu"
  shows "\<exists>cu'. cu__insert_function cu f = Inr cu' \<and> cu_ok cu' \<and>
           set (inorder (cu_functions cu')) = insert f (set (inorder (cu_functions cu))) \<and>
           (\<exists>t. cu' = cu\<lparr>cu_functions := t\<rparr>)"
proof -
  let ?z = "cu_walk_addr (fk_addr f) (cu_functions cu) []"
  have w: "rb_slot (cu_functions cu) ?z" "\<forall>x \<in> set (z_before ?z). fk_addr x \<le> fk_addr f"
      "\<forall>x \<in> set (z_after ?z). fk_addr f \<le> fk_addr x"
    using cu_walk_addr_ok [of "cu_functions cu" "[]" "fk_addr f", OF _ _ _ refl] assms
    by (auto simp: cu_ok_def)
  from rb.link_sorted [OF _ w(1), of "\<lambda>a b. fk_addr a \<le> fk_addr b" f] w(2,3) assms obtain t where
    "rb_link_insert f ?z = Some t" "rb_inv t" "sorted_wrt (\<lambda>a b. fk_addr a \<le> fk_addr b) (inorder t)"
    "set (inorder t) = insert f (set (inorder (cu_functions cu)))"
    by (auto simp: cu_ok_def)
  with assms show ?thesis by (auto simp: cu__insert_function_def cu_ok_def cu_inv_def)
qed

lemma cu_tables [simp]:
  "cu_get_table (cu\<lparr>cu_functions := t\<rparr>) tb = cu_get_table cu tb"
  "cu_get_table (cu_set_table cu tb pt) tb' = (if tb = tb' then pt else cu_get_table cu tb')"
  "cu_functions (cu_set_table cu tb pt) = cu_functions cu"
  "cu_tags (cu_set_table cu tb pt) = cu_tags cu"
  by (cases tb; cases tb'; simp)+

lemma cu_inv_tables: "cu_inv cu \<longleftrightarrow> (\<forall>tb. pt_inv (cu_get_table cu tb))"
  by (metis cu_get_table.simps cu_inv_def cu_table.exhaust)

lemma cu_ok_set_table: "cu_ok cu \<Longrightarrow> pt_inv pt \<Longrightarrow> cu_ok (cu_set_table cu tb pt)"
  by (simp add: cu_ok_def cu_inv_tables)

text \<open>A tag of a kind that announces a function is one.\<close>

lemma cu_enter_function_ok:
  assumes "cu_ok cu" "tag_wf t"
  shows "\<exists>cu'. cu_enter_function cu t i = Inr cu' \<and> cu_ok cu' \<and> (\<exists>u. cu' = cu\<lparr>cu_functions := u\<rparr>) \<and>
     (if cu_table_of t = Functions
      then \<exists>n. fk_id n = i \<and> set (inorder (cu_functions cu')) = insert n (set (inorder (cu_functions cu)))
      else cu_functions cu' = cu_functions cu)"
proof (cases "cu_table_of t = Functions")
  case True
  then have "tg_tag t = DW_TAG_subprogram"
    by (simp add: cu_table_of_def tag__is_function_def split: if_splits)
  with assms(2) obtain f where f: "tg_body t = Function_body f" using tag_wf_function by blast
  let ?n = "\<lparr>fk_addr = lb_addr (fn_lexblock f), fk_size = lb_size (fn_lexblock f), fk_id = i\<rparr>"
  have e: "cu_enter_function cu t i = cu__insert_function cu ?n"
    using True f by (simp add: cu_enter_function_def tag__function_def)
  from cu__insert_function_ok [OF assms(1), of ?n] True show ?thesis
    unfolding e by (metis fn_node.select_convs(3))
next
  case False
  with assms(1) show ?thesis
    by (auto simp: cu_enter_function_def intro: exI [of _ "cu_functions cu"])
qed

lemma cu__table_add_tag_ok:
  assumes "cu_ok cu" "tag_wf t" "pt_mem h" "pt_nr_entries (cu_get_table cu (cu_table_of t)) < pt_limit"
  shows "\<exists>cu'. cu__table_add_tag h cu t idx = Inr (0, pt_nr_entries (cu_get_table cu (cu_table_of t)), cu') \<and>
           cu_ok cu' \<and> cu_tags cu' = cu_tags cu \<and>
           (\<forall>tb. pt_lookup (cu_get_table cu' tb) =
              (if tb = cu_table_of t
               then (pt_lookup (cu_get_table cu tb))(pt_nr_entries (cu_get_table cu tb) := Some t)
               else pt_lookup (cu_get_table cu tb)))"
proof -
  let ?tb = "cu_table_of t"
  let ?i = "pt_nr_entries (cu_get_table cu ?tb)"
  from cu_enter_function_ok [OF assms(1,2), of ?i] obtain cu1 u where
    c1: "cu_enter_function cu t ?i = Inr cu1" "cu_ok cu1" "cu1 = cu\<lparr>cu_functions := u\<rparr>" by blast
  have inv: "pt_inv (cu_get_table cu1 ?tb)" using c1(2) by (simp add: cu_ok_def cu_inv_tables)
  from ptr_table__add_ok [OF inv _ assms(3), of "Some t" idx] assms(4) c1(3) obtain pt where
    p: "ptr_table__add h (cu_get_table cu1 ?tb) (Some t) idx = Inr (0, ?i, pt)" "pt_inv pt"
      "pt_lookup pt = (pt_lookup (cu_get_table cu ?tb))(?i := Some t)" by auto
  have "cu__table_add_tag h cu t idx = Inr (0, ?i, cu_set_table cu1 ?tb pt)"
    unfolding cu__table_add_tag_def Let_def c1(1) using p(1) by simp
  with p c1 cu_ok_set_table [OF c1(2) p(2), of ?tb] show ?thesis by simp
qed

section \<open>Searching\<close>

lemma first_e_ok:
  assumes "\<forall>x \<in> set xs. P x = Inr (Q x)"
  shows "first_e P xs = Inr (find Q xs)"
  using assms by (induction xs) auto

lemma set_pt_each: "(i, x) \<in> set (pt_each lo pt) \<longleftrightarrow> lo \<le> i \<and> pt_lookup pt i = Some x"
  by (auto simp: pt_each_def List.map_filter_def pt_lookup_def image_iff)

lemma sorted_pt_each: "sorted_wrt (<) (map fst (pt_each lo pt))"
proof -
  have "map fst (pt_each lo pt) = filter (\<lambda>i. pt_entries pt ! i \<noteq> None) [lo..<pt_nr_entries pt]"
    by (simp add: pt_each_def List.map_filter_def comp_def) (auto intro!: map_idI)
  then show ?thesis by (simp add: sorted_wrt_filter)
qed

lemma find_sorted_pairs:
  fixes i :: nat
  assumes "sorted_wrt (<) (map fst xs)"
  shows "find Q xs = Some (i, x) \<longleftrightarrow>
     (i, x) \<in> set xs \<and> Q (i, x) \<and> (\<forall>j y. (j, y) \<in> set xs \<longrightarrow> Q (j, y) \<longrightarrow> i \<le> j)"
  using assms
proof (induction xs)
  case (Cons a xs)
  obtain j y where a: "a = (j, y)" by (cases a)
  have lt: "\<forall>(k, z) \<in> set xs. j < k" using Cons.prems a by auto
  show ?case
  proof (cases "Q a")
    case True
    with a lt show ?thesis by fastforce
  next
    case False
    with Cons a show ?thesis by auto
  qed
qed simp

lemma find_pt_each:
  "find Q (pt_each lo pt) = Some (i, x) \<longleftrightarrow>
     lo \<le> i \<and> pt_lookup pt i = Some x \<and> Q (i, x) \<and>
     (\<forall>j y. lo \<le> j \<longrightarrow> pt_lookup pt j = Some y \<longrightarrow> Q (j, y) \<longrightarrow> i \<le> j)"
  by (auto simp: find_sorted_pairs [OF sorted_pt_each] set_pt_each)

lemma find_pt_each_None:
  "find Q (pt_each lo pt) = None \<longleftrightarrow> (\<forall>j y. lo \<le> j \<longrightarrow> pt_lookup pt j = Some y \<longrightarrow> \<not> Q (j, y))"
  by (auto simp: find_None_iff set_pt_each)

definition cu_wf :: "cu \<Rightarrow> bool" where
  "cu_wf cu \<longleftrightarrow> cu_ok cu \<and> (\<forall>i t. cu_types cu i = Some t \<longrightarrow> tag_wf t)"

definition struct_named :: "string \<Rightarrow> bool \<Rightarrow> bool \<Rightarrow> tag \<Rightarrow> bool" where
  "struct_named nm include_decls unions t \<longleftrightarrow>
     (tag__is_struct (tg_tag t) \<or> unions \<and> tag__is_union (tg_tag t)) \<and>
     (case tag__type t of Inl e \<Rightarrow> False
      | Inr ty \<Rightarrow> ty_name ty = Some nm \<and> (ty_declaration ty \<longrightarrow> include_decls))"

lemma name_is_eq: "name_is tname nm \<longleftrightarrow> tname = Some nm"
  by (simp add: name_is_def split: option.split)

lemma find_struct_eq:
  assumes "cu_wf cu"
  shows "cu__find_struct_by_name_priv (Some cu) (Some nm) include_decls unions =
     Inr (find (\<lambda>(i, t). struct_named nm include_decls unions t) (cu__for_each_type cu))"
proof -
  let ?P = "\<lambda>t. if \<not> (tag__is_struct (tg_tag t) \<or> unions \<and> tag__is_union (tg_tag t)) then Inr False
       else bindE (tag__type t) (\<lambda>ty. Inr (name_is (ty_name ty) nm \<and> (\<not> ty_declaration ty \<or> include_decls)))"
  have "?P t = Inr (struct_named nm include_decls unions t)" if "tag_wf t" for t
  proof (cases "tag__is_struct (tg_tag t) \<or> unions \<and> tag__is_union (tg_tag t)")
    case True
    then obtain ty where "tag__type t = Inr ty"
      using tag__type_wf [of t] \<open>tag_wf t\<close> unfolding tag__is_type_def by blast
    with True show ?thesis unfolding struct_named_def name_is_eq by (simp only: sum.case simp_thms if_False) blast
  next
    case False
    then show ?thesis by (auto simp: struct_named_def)
  qed
  moreover have "tag_wf t" if "(i, t) \<in> set (cu__for_each_type cu)" for i t
    using that assms unfolding cu__for_each_type_def set_pt_each cu_wf_def cu_types_def by blast
  ultimately have "\<forall>x \<in> set (cu__for_each_type cu).
      (\<lambda>(i, t). ?P t) x = Inr ((\<lambda>(i, t). struct_named nm include_decls unions t) x)"
    by (simp only: prod.case split_paired_Ball_Sigma Ball_def split_paired_All) blast
  from first_e_ok [OF this] show ?thesis
    unfolding cu__find_struct_by_name_priv_def option.case prod.case .
qed

section \<open>The address tree\<close>

definition fn_covers :: "nat \<Rightarrow> fn_node \<Rightarrow> bool" where
  "fn_covers addr f \<longleftrightarrow> fk_addr f \<le> addr \<and> addr < fk_addr f + fk_size f"

text \<open>No function contains another: in address order their ends do not decrease.\<close>

definition fn_ordered :: "fn_node list \<Rightarrow> bool" where
  "fn_ordered fs \<longleftrightarrow>
     sorted_wrt (\<lambda>a b. fk_addr a \<le> fk_addr b \<and> fk_addr a + fk_size a \<le> fk_addr b + fk_size b) fs \<and>
     (\<forall>f \<in> set fs. fk_addr f + fk_size f < 18446744073709551616)"

lemma find_function_addr_covers:
  assumes "fn_ordered (inorder t)"
  shows "(case find_function_addr addr t of
            None \<Rightarrow> \<forall>f \<in> set (inorder t). \<not> fn_covers addr f
          | Some f \<Rightarrow> f \<in> set (inorder t) \<and> fn_covers addr f)"
  using assms
proof (induction t)
  case NIL
  then show ?case by simp
next
  case (RB c l f r)
  have f: "u64 (fk_addr f + fk_size f) = fk_addr f + fk_size f"
    and l: "fn_ordered (inorder l)" "\<forall>g \<in> set (inorder l). fk_addr g + fk_size g \<le> fk_addr f + fk_size f"
    and r: "fn_ordered (inorder r)" "\<forall>g \<in> set (inorder r). fk_addr f \<le> fk_addr g"
    using RB.prems by (auto simp: fn_ordered_def sorted_wrt_append)
  consider "addr < fk_addr f" | "fk_addr f \<le> addr" "fk_addr f + fk_size f \<le> addr" | "fn_covers addr f"
    by (fastforce simp: fn_covers_def)
  then show ?case
  proof cases
    case 1
    then have "\<forall>g \<in> set (inorder r). \<not> fn_covers addr g" "\<not> fn_covers addr f"
      using r(2) by (auto simp: fn_covers_def)
    with RB.IH(1) [OF l(1)] 1 show ?thesis by (auto split: option.split)
  next
    case 2
    then have "\<forall>g \<in> set (inorder l). \<not> fn_covers addr g" "\<not> fn_covers addr f"
      using l(2) by (auto simp: fn_covers_def)
    with RB.IH(2) [OF r(1)] 2 f show ?thesis by (auto split: option.split)
  next
    case 3
    with f show ?thesis by (auto simp: fn_covers_def)
  qed
qed

section \<open>Properties\<close>

text \<open>C7: \<open>cu__add_tag\<close> puts a tag into the table of its kind (types, functions or the rest), gives it
  the next index of that table, which leads to the tag from then on, leaves every other index of
  every table as it was, appends it to the tags of the unit, and keeps the unit well formed, the
  address tree of functions included.\<close>

theorem cu_add_tag_lookup:
  assumes "cu_ok cu" "tag_wf t" "pt_mem h" "pt_nr_entries (cu_get_table cu (cu_table_of t)) < pt_limit"
  shows "\<exists>cu'. let i = pt_nr_entries (cu_get_table cu (cu_table_of t)) in
           cu__add_tag h cu t idx = Inr (0, i, cu') \<and> cu_ok cu' \<and>
           cu_tags cu' = cu_tags cu @ [cu_ref (cu_table_of t) i] \<and>
           (\<forall>tb j. ptr_table__entry (cu_get_table cu' tb) j =
              (if tb = cu_table_of t \<and> j = i then Inr (Some t) else ptr_table__entry (cu_get_table cu tb) j))"
proof -
  let ?i = "pt_nr_entries (cu_get_table cu (cu_table_of t))"
  from cu__table_add_tag_ok [OF assms, of idx] obtain cu1 where
    c1: "cu__table_add_tag h cu t idx = Inr (0, ?i, cu1)" "cu_ok cu1" "cu_tags cu1 = cu_tags cu"
      "\<forall>tb. pt_lookup (cu_get_table cu1 tb) =
         (if tb = cu_table_of t then (pt_lookup (cu_get_table cu tb))(?i := Some t)
          else pt_lookup (cu_get_table cu tb))" by auto
  let ?cu = "cu1\<lparr>cu_tags := cu_tags cu1 @ [cu_ref (cu_table_of t) ?i]\<rparr>"
  have tb: "cu_get_table ?cu tb = cu_get_table cu1 tb" for tb by (cases tb) auto
  have "cu_ok ?cu" using c1(2) by (simp add: cu_ok_def cu_inv_def)
  moreover have "ptr_table__entry (cu_get_table cu' tb) j = Inr (pt_lookup (cu_get_table cu' tb) j)"
    if "cu_ok cu'" for cu' tb j
    using that by (simp add: cu_ok_def cu_inv_tables ptr_table__entry_ok)
  ultimately show ?thesis
    using c1 assms(1) tb by (intro exI [of _ ?cu]) (auto simp: cu__add_tag_def Let_def)
qed

definition sample_fn :: tag where
  "sample_fn = \<lparr>tg_tag = DW_TAG_subprogram, tg_type = 0, tg_body = Function_body
     \<lparr>fn_proto = \<lparr>ft_parms = [], ft_byte_size = 0, ft_nr_parms = 0, ft_unspec_parms = False\<rparr>,
      fn_lexblock = \<lparr>lb_addr = 4096, lb_size = 16, lb_nr_inline_expansions = 0, lb_nr_labels = 0,
        lb_nr_variables = 0, lb_nr_lexblocks = 0, lb_size_inline_expansions = 0\<rparr>,
      fn_name = Some ''main'', fn_linkage_name = None, fn_cu_total_size_inline_expansions = 0,
      fn_cu_total_nr_inline_expansions = 0, fn_inlined = 0, fn_external = True, fn_declaration = False,
      fn_btf = False,
      fn_virtuality = DW_VIRTUALITY_none, fn_accessibility = 0, fn_vtable_entry = -1, fn_attributes = [], fn_abstract_origin = False\<rparr>\<rparr>"

lemma cu_ok_zero [simp]: "cu_ok cu_zero"
  by (auto simp: cu_ok_def cu_inv_def cu_zero_def rb_inv_def)

theorem cu_add_tag_lookup_witness:
  "\<exists>cu'. cu__add_tag \<lparr>avail = \<lambda>n. True, fresh = \<lambda>i. 0\<rparr> cu_zero sample_fn 0 = Inr (0, 0, cu') \<and>
     cu_tags cu' = [Function_ref 0] \<and> ptr_table__entry (cu_functions_table cu') 0 = Inr (Some sample_fn)"
proof -
  have t: "cu_table_of sample_fn = Functions" "tag_wf sample_fn"
    by (simp_all add: cu_table_of_def sample_fn_def tag_wf_def tag_defs)
  have n: "pt_nr_entries (cu_get_table cu_zero Functions) = 0"
    by (simp add: cu_zero_def ptr_table__init_def)
  obtain cu' where c: "cu__add_tag \<lparr>avail = \<lambda>n. True, fresh = \<lambda>i. 0\<rparr> cu_zero sample_fn 0 = Inr (0, 0, cu')"
      "cu_tags cu' = cu_tags cu_zero @ [cu_ref Functions 0]"
      "\<forall>tb j. ptr_table__entry (cu_get_table cu' tb) j =
         (if tb = Functions \<and> j = 0 then Inr (Some sample_fn) else ptr_table__entry (cu_get_table cu_zero tb) j)"
    using cu_add_tag_lookup [OF cu_ok_zero t(2), of "\<lparr>avail = \<lambda>n. True, fresh = \<lambda>i. 0\<rparr>" 0]
    unfolding t(1) n Let_def pt_mem_def pt_limit_def by (simp del: cu_get_table.simps cu_ref.simps) blast
  from c(3) [THEN spec, THEN spec, of Functions 0]
  have "ptr_table__entry (cu_functions_table cu') 0 = Inr (Some sample_fn)" by simp
  with c(1,2) show ?thesis by (auto simp: cu_zero_def)
qed

text \<open>\<open>cu__find_struct_by_name\<close> returns the structure of lowest index that has the name and, unless
  declarations are asked for, is a definition; it returns NULL exactly if there is none.\<close>

theorem cu_find_struct_first:
  assumes "cu_wf cu"
  shows "case cu__find_struct_by_name (Some cu) (Some nm) include_decls of
           Inl e \<Rightarrow> False
         | Inr None \<Rightarrow> \<not> (\<exists>i t. 0 < i \<and> cu_types cu i = Some t \<and> struct_named nm include_decls False t)
         | Inr (Some (i, t)) \<Rightarrow>
             0 < i \<and> cu_types cu i = Some t \<and> struct_named nm include_decls False t \<and>
             (\<forall>j u. 0 < j \<longrightarrow> cu_types cu j = Some u \<longrightarrow> struct_named nm include_decls False u \<longrightarrow> i \<le> j)"
proof -
  let ?Q = "\<lambda>(i :: nat, t). struct_named nm include_decls False t"
  have "cu__find_struct_by_name (Some cu) (Some nm) include_decls =
          Inr (find ?Q (pt_each 1 (cu_types_table cu)))"
    using find_struct_eq [OF assms] by (simp add: cu__find_struct_by_name_def cu__for_each_type_def)
  then show ?thesis
    using find_pt_each [of ?Q 1 "cu_types_table cu"] find_pt_each_None [of ?Q 1 "cu_types_table cu"]
    by (auto simp: cu_types_def Suc_le_eq split: option.split)
qed

definition sample_struct :: tag where
  "sample_struct = \<lparr>tg_tag = DW_TAG_structure_type, tg_type = 0, tg_body = Class_body
     \<lparr>ty_name = Some ''task'', ty_tags = [], ty_size = 8, ty_nr_static_members = 0, ty_nr_members = 0,
      ty_alignment = 0, ty_natural_alignment = 0, ty_packed_attributes_inferred = False,
      ty_declaration = False, ty_is_signed_enum = False, ty_member_prefix = None,
      ty_member_prefix_len = 0, cl_nr_vtable_entries = 0, cl_vtable = [], cl_nr_holes = 0, cl_nr_bit_holes = 0,
      cl_pre_hole = 0, cl_padding = 0, cl_pre_bit_hole = 0, cl_bit_padding = 0,
      cl_holes_searched = False, cl_flexible_array_verified = False,
      cl_embedded_flexible_array_searched = False, cl_has_flexible_array = False,
      cl_has_embedded_flexible_array = False, cl_is_packed = False\<rparr>\<rparr>"

lemma cu_wf_with_types:
  assumes "length ts \<le> 2048" "\<forall>t. Some t \<in> set ts \<longrightarrow> tag_wf t"
  shows "cu_wf (cu_zero\<lparr>cu_types_table := pt_of ts, cu_addr_size := n\<rparr>)"
  using assms
  by (auto simp: cu_wf_def cu_ok_def cu_inv_def cu_types_def pt_inv_of pt_lookup_of cu_zero_def rb_inv_def
      split: if_splits) (metis nth_mem)

lemma cu_types_with_types [simp]:
  "cu_types (cu_zero\<lparr>cu_types_table := pt_of ts, cu_addr_size := n\<rparr>) i = (if i < length ts then ts ! i else None)"
  by (simp add: cu_types_def pt_lookup_of)

theorem cu_find_struct_first_witness:
  "\<exists>t. cu__find_struct_by_name (Some (cu_zero\<lparr>cu_types_table := pt_of [None, Some sample_struct, Some sample_struct],
        cu_addr_size := 8\<rparr>)) (Some ''task'') False = Inr (Some (1, t))"
proof -
  let ?cu = "cu_zero\<lparr>cu_types_table := pt_of [None, Some sample_struct, Some sample_struct], cu_addr_size := 8\<rparr>"
  have wf: "cu_wf ?cu" by (rule cu_wf_with_types) (auto simp: sample_struct_def tag_wf_def tag_defs)
  have s: "cu_types ?cu 1 = Some sample_struct" "struct_named ''task'' False False sample_struct"
    by (simp_all add: struct_named_def sample_struct_def tag_defs cast_defs)
  note found = cu_find_struct_first [OF wf, of "''task''" False]
  show ?thesis
  proof (cases "cu__find_struct_by_name (Some ?cu) (Some ''task'') False")
    case (Inl e)
    with found show ?thesis by simp
  next
    case (Inr r)
    have "r \<noteq> None"
    proof
      assume "r = None"
      from found [unfolded Inr this sum.case option.case] s show False
        using less_numeral_extra(1) by blast
    qed
    then obtain i t where r: "r = Some (i, t)" by auto
    from found [unfolded Inr r sum.case option.case prod.case] s have "0 < i" "i \<le> 1"
      using less_numeral_extra(1) by blast+
    then have "i = 1" by simp
    with Inr r show ?thesis by simp
  qed
qed

text \<open>if no function of the unit contains another (their ends follow the order of their starts),
  \<open>cu__find_function_at_addr\<close> returns a function that covers the address, and NULL exactly if none
  does.\<close>

theorem cu_find_function_at_addr_covers:
  assumes "fn_ordered (inorder (cu_functions cu))"
  shows "case cu__find_function_at_addr (Some cu) addr of
           None \<Rightarrow> \<not> (\<exists>f \<in> set (inorder (cu_functions cu)). fn_covers addr f)
         | Some f \<Rightarrow> f \<in> set (inorder (cu_functions cu)) \<and> fn_covers addr f"
  using find_function_addr_covers [OF assms, of addr]
  by (auto simp: cu__find_function_at_addr_def split: option.splits)

theorem cu_find_function_at_addr_covers_witness:
  "cu__find_function_at_addr (Some (cu_zero\<lparr>cu_functions :=
      RB RB_BLACK NIL \<lparr>fk_addr = 16, fk_size = 8, fk_id = 0\<rparr> NIL\<rparr>)) 20
    \<noteq> None"
proof -
  let ?cu = "cu_zero\<lparr>cu_functions := RB RB_BLACK NIL \<lparr>fk_addr = 16, fk_size = 8, fk_id = 0\<rparr> NIL\<rparr>"
  have "fn_ordered (inorder (cu_functions ?cu))" by (simp add: fn_ordered_def)
  from cu_find_function_at_addr_covers [OF this, of 20] show ?thesis
    by (cases "cu__find_function_at_addr (Some ?cu) 20") (simp_all add: fn_covers_def)
qed

end
