(* ===== verification/Typesize.thy ===== *)
theory Typesize
  imports Cu
begin

text \<open>
  Following types (\<open>dwarves.c\<close>): through typedefs and modifiers, to the size of a type, to its
  natural alignment and to the member that decides how a structure can be passed.  A type
  is its index in the types table.  The C functions recurse without a bound, so the model
  carries fuel; on tables without a by-value cycle (\<open>types_ranked\<close>) the rank of a type is
  fuel enough, and a cycle is what the C code overflows its stack on.
\<close>

section \<open>Typedefs and modifiers\<close>

text \<open>\<open>cu__type\<close> of a unit that is not NULL.\<close>

abbreviation cu_type :: "cu \<Rightarrow> nat \<Rightarrow> fault + tag option" where
  "cu_type cu i \<equiv> cu__type (Some cu) i"

fun tag__is_base_type :: "nat \<Rightarrow> cu \<Rightarrow> tag \<Rightarrow> fault + bool" where
  "tag__is_base_type 0 cu t = Inl Out_Of_Fuel"
| "tag__is_base_type (Suc n) cu t =
     (if tg_tag t = DW_TAG_base_type then Inr True
      else if tg_tag t = DW_TAG_typedef then
        bindE (cu_type cu (tg_type t)) (\<lambda>type.
          case type of None \<Rightarrow> Inr False | Some t' \<Rightarrow> tag__is_base_type n cu t')
      else Inr False)"

fun tag__is_array :: "nat \<Rightarrow> cu \<Rightarrow> tag \<Rightarrow> fault + bool" where
  "tag__is_array 0 cu t = Inl Out_Of_Fuel"
| "tag__is_array (Suc n) cu t =
     (if tg_tag t = DW_TAG_array_type then Inr True
      else if tg_tag t = DW_TAG_const_type \<or> tg_tag t = DW_TAG_typedef then
        bindE (cu_type cu (tg_type t)) (\<lambda>type.
          case type of None \<Rightarrow> Inr False | Some t' \<Rightarrow> tag__is_array n cu t')
      else Inr False)"

fun tag__follow_typedef :: "nat \<Rightarrow> cu \<Rightarrow> nat \<Rightarrow> fault + (nat \<times> tag) option" where
  "tag__follow_typedef 0 cu i = Inl Out_Of_Fuel"
| "tag__follow_typedef (Suc n) cu i =
     bindE (cu_type cu i) (\<lambda>type.
       case type of
         None \<Rightarrow> Inr None
       | Some t \<Rightarrow> if tag__is_typedef (tg_tag t) then tag__follow_typedef n cu (tg_type t) else Inr (Some (i, t)))"

text \<open>The argument is the \<open>type\<close> field of the tag the C function is given.\<close>

fun tag__strip_typedefs_and_modifiers :: "nat \<Rightarrow> cu \<Rightarrow> nat \<Rightarrow> fault + (nat \<times> tag) option" where
  "tag__strip_typedefs_and_modifiers 0 cu i = Inl Out_Of_Fuel"
| "tag__strip_typedefs_and_modifiers (Suc n) cu i =
     bindE (cu_type cu i) (\<lambda>type.
       case type of
         None \<Rightarrow> Inr None
       | Some t \<Rightarrow>
           if tag__is_typedef (tg_tag t) \<or> tag__is_modifier (tg_tag t)
           then tag__strip_typedefs_and_modifiers n cu (tg_type t) else Inr (Some (i, t)))"

text \<open>The loop check: whether an error was printed.\<close>

definition tag_has_type_loop :: "tag \<Rightarrow> tag option \<Rightarrow> bool" where
  "tag_has_type_loop t type =
     (case type of None \<Rightarrow> False | Some t' \<Rightarrow> tg_type t = tg_type t')"

section \<open>Sizes\<close>

definition base_type_name_to_size_table :: "(string \<times> nat) list" where
  "base_type_name_to_size_table =
    [(''unsigned'', 32), (''signed int'', 32), (''unsigned int'', 32), (''int'', 32),
     (''short unsigned int'', 16), (''signed short'', 16), (''unsigned short'', 16),
     (''short int'', 16), (''short'', 16), (''char'', 8), (''signed char'', 8),
     (''unsigned char'', 8), (''signed long'', 0), (''long int'', 0), (''long'', 0),
     (''signed long'', 0), (''unsigned long'', 0), (''long unsigned int'', 0), (''bool'', 8),
     (''_Bool'', 8), (''long long unsigned int'', 64), (''long long int'', 64),
     (''long long'', 64), (''signed long long'', 64), (''unsigned long long'', 64),
     (''double'', 64), (''double double'', 64), (''single float'', 32), (''float'', 32),
     (''long double'', 128), (''long double long double'', 128), (''__int128'', 128),
     (''unsigned __int128'', 128), (''__int128 unsigned'', 128), (''_Float128'', 128)]"

text \<open>
  \<open>try_again\<close>: when the table has no entry, a leading "signed " is cut off and the table
  scanned again.  With \<open>name_has_encoding\<close> the name compared stays that of the base type.
\<close>

function name_to_size_loop :: "base_type \<Rightarrow> string \<Rightarrow> nat option" where
  "name_to_size_loop bt name =
     (case find (\<lambda>e. if bt_name_has_encoding bt then c_strcmp (fst e) (bt_name bt) = 0
                      else c_strcmp (fst e) name = 0) base_type_name_to_size_table of
        Some e \<Rightarrow> Some (snd e)
      | None \<Rightarrow> if strstarts name ''signed '' then name_to_size_loop bt (drop 7 name) else None)"
  by pat_completeness auto
termination
  by (relation "measure (\<lambda>(bt, name). length name)") (auto simp: strstarts_iff)

declare name_to_size_loop.simps [simp del]

definition base_type__name_to_size :: "base_type \<Rightarrow> nat \<Rightarrow> fault + nat" where
  "base_type__name_to_size bt addr_size =
     bindE (if bt_name_has_encoding bt then Inr (bt_name bt) else base_type__name bt 64) (\<lambda>name.
       Inr (case name_to_size_loop bt name of
              None \<Rightarrow> 0
            | Some sz \<Rightarrow> if sz \<noteq> 0 then sz else addr_size * 8))"

fun nr_entries_loop :: "nat list \<Rightarrow> nat \<Rightarrow> nat \<Rightarrow> fault + nat" where
  "nr_entries_loop es 0 acc = Inr acc"
| "nr_entries_loop [] (Suc d) acc = Inl Out_Of_Bounds"
| "nr_entries_loop (e # es) (Suc d) acc = nr_entries_loop es d (u64 (acc * e))"

definition array_type__nr_entries :: "array_type \<Rightarrow> fault + nat" where
  "array_type__nr_entries a =
     (case at_nr_entries a of
        None \<Rightarrow> if at_dimensions a = 0 then Inr 1 else Inl Null_Deref
      | Some es \<Rightarrow> nr_entries_loop es (at_dimensions a) 1)"

text \<open>\<open>(size_t)-1\<close>\<close>

definition SIZE_ERR :: nat where "SIZE_ERR = 18446744073709551615"

text \<open>
  \<open>tag__size\<close> of a type.  Tags whose \<open>type\<close> is 0 and that are none of the kinds of the
  switch are read as structures.
\<close>

fun tag__size :: "nat \<Rightarrow> cu \<Rightarrow> tag \<Rightarrow> fault + nat" where
  "tag__size 0 cu t = Inl Out_Of_Fuel"
| "tag__size (Suc n) cu t =
     (if tg_tag t = DW_TAG_string_type then tag__string_type t
      else if tg_tag t = DW_TAG_pointer_type \<or> tg_tag t = DW_TAG_reference_type then Inr (cu_addr_size cu)
      else if tg_tag t = DW_TAG_base_type then base_type__size t
      else if tg_tag t = DW_TAG_enumeration_type then map_sum id (\<lambda>ty. ty_size ty div 8) (tag__type t)
      else if tg_tag t = DW_TAG_subroutine_type then
        map_sum id (\<lambda>ft. if ft_byte_size ft \<noteq> 0 then ft_byte_size ft else cu_addr_size cu) (tag__ftype t)
      else
        let arr = (\<lambda>sz.
              if tg_tag t = DW_TAG_array_type
              then bindE (tag__array_type t) (\<lambda>a. bindE (array_type__nr_entries a) (\<lambda>nr. Inr (u64 (sz * nr))))
              else Inr sz)
        in if tg_type t = 0 then
             bindE (tag__type t) (\<lambda>ty.
               arr (if ty_size ty = 1 \<and> ty_nr_members ty = 0 then 0 else ty_size ty))
           else
             bindE (cu_type cu (tg_type t)) (\<lambda>type.
               case type of
                 None \<Rightarrow> Inr SIZE_ERR
               | Some t' \<Rightarrow>
                   if tag_has_type_loop t (Some t') then Inr SIZE_ERR
                   else bindE (tag__size n cu t') arr))"

text \<open>\<open>tag__size\<close> of a member: static members take no space, and the size is cached.\<close>

definition class_member__size :: "nat \<Rightarrow> cu \<Rightarrow> class_member \<Rightarrow> fault + nat" where
  "class_member__size n cu m =
     (if cm_is_static m then Inr 0
      else if cm_byte_size m \<noteq> 0 then Inr (cm_byte_size m)
      else if cm_type m = 0 then Inl Out_Of_Bounds
      else bindE (cu_type cu (cm_type m)) (\<lambda>type.
             case type of
               None \<Rightarrow> Inr SIZE_ERR
             | Some t' \<Rightarrow> if cm_type m = tg_type t' then Inr SIZE_ERR else tag__size n cu t'))"

section \<open>Natural alignment\<close>

text \<open>
  The members that use space (\<open>type__for_each_member\<close>) and the data members
  (\<open>type__for_each_data_member\<close>).
\<close>

fun ns_member :: "ns_entry \<Rightarrow> class_member list" where
  "ns_member (Member m) = (if cm_tag m = DW_TAG_member \<or> cm_tag m = DW_TAG_inheritance then [m] else [])"
| "ns_member _ = []"

definition type__members :: "ns_entry list \<Rightarrow> class_member list" where
  "type__members es = concat (map ns_member es)"

definition type__data_members :: "ns_entry list \<Rightarrow> class_member list" where
  "type__data_members es = filter (\<lambda>m. cm_tag m = DW_TAG_member) (type__members es)"

text \<open>Writing to a type through its pointer changes its entry in the table.\<close>

definition cu_set_type :: "cu \<Rightarrow> nat \<Rightarrow> tag \<Rightarrow> cu" where
  "cu_set_type cu i t =
     cu\<lparr>cu_types_table := (cu_types_table cu)\<lparr>pt_entries := (pt_entries (cu_types_table cu))[i := Some t]\<rparr>\<rparr>"

definition set_natural_alignment :: "tag \<Rightarrow> nat \<Rightarrow> tag" where
  "set_natural_alignment t n =
     (case tg_body t of
        Type_body ty \<Rightarrow> t\<lparr>tg_body := Type_body (ty\<lparr>ty_natural_alignment := n\<rparr>)\<rparr>
      | Class_body cl \<Rightarrow> t\<lparr>tg_body := Class_body (cl\<lparr>ty_natural_alignment := n\<rparr>)\<rparr>
      | _ \<Rightarrow> t)"

definition skip_member :: "class_member \<Rightarrow> bool" where
  "skip_member m \<longleftrightarrow>
     (cm_tag m = DW_TAG_inheritance \<and> cm_virtuality m = DW_VIRTUALITY_virtual) \<or> cm_is_static m"

text \<open>
  \<open>type__natural_alignment\<close> keeps its result in the type: the loop writes the maximum so far
  after each member, as a \<open>uint16_t\<close>, and rereads it at the end.  The two C functions call
  each other; \<open>rec\<close> is the call of \<open>tag__natural_alignment\<close> for the type of a member.
\<close>

definition get_type :: "cu \<Rightarrow> nat \<Rightarrow> fault + tag \<times> type_t" where
  "get_type cu i =
     bindE (cu_type cu i) (\<lambda>t.
       case t of None \<Rightarrow> Inl Null_Deref | Some t \<Rightarrow> bindE (tag__type t) (\<lambda>ty. Inr (t, ty)))"

definition align_member ::
  "(cu \<Rightarrow> (nat \<times> tag) option \<Rightarrow> fault + nat \<times> cu) \<Rightarrow> nat \<Rightarrow> nat \<Rightarrow> class_member \<Rightarrow> cu \<Rightarrow> fault + cu" where
  "align_member rec n i m cu =
     (if skip_member m then Inr cu
      else
        bindE (tag__strip_typedefs_and_modifiers n cu (cm_type m)) (\<lambda>member_type.
          case member_type of
            None \<Rightarrow> Inr cu
          | Some q \<Rightarrow>
              bindE (rec cu (Some q)) (\<lambda>(a, cu1).
              bindE (get_type cu1 i) (\<lambda>(t, ty).
                Inr (if ty_natural_alignment ty < a
                     then cu_set_type cu1 i (set_natural_alignment t (u16 a)) else cu1)))))"

definition type__natural_alignment ::
  "(cu \<Rightarrow> (nat \<times> tag) option \<Rightarrow> fault + nat \<times> cu) \<Rightarrow> nat \<Rightarrow> cu \<Rightarrow> nat \<Rightarrow> fault + nat \<times> cu" where
  "type__natural_alignment rec n cu i =
     bindE (get_type cu i) (\<lambda>(t, ty).
       if ty_natural_alignment ty \<noteq> 0 then Inr (ty_natural_alignment ty, cu)
       else
         bindE (fold_e (align_member rec n i) (type__members (ty_tags ty)) cu) (\<lambda>cu1.
         bindE (get_type cu1 i) (\<lambda>(t1, ty1). Inr (ty_natural_alignment ty1, cu1))))"

fun tag__natural_alignment :: "nat \<Rightarrow> cu \<Rightarrow> (nat \<times> tag) option \<Rightarrow> fault + nat \<times> cu" where
  "tag__natural_alignment 0 cu q = Inl Out_Of_Fuel"
| "tag__natural_alignment (Suc n) cu None = Inr (1, cu)"
| "tag__natural_alignment (Suc n) cu (Some (i, t)) =
     map_sum id (\<lambda>(a, cu'). (if a = 0 then 1 else a, cu'))
       (if tag__is_pointer (tg_tag t) then Inr (cu_addr_size cu, cu)
        else if tg_tag t = DW_TAG_base_type then bindE (base_type__size t) (\<lambda>s. Inr (s, cu))
        else if tag__is_enumeration (tg_tag t) then bindE (tag__type t) (\<lambda>ty. Inr (ty_size ty div 8, cu))
        else if tag__is_struct (tg_tag t) \<or> tag__is_union (tg_tag t) then
          type__natural_alignment (tag__natural_alignment n) n cu i
        else if tg_tag t = DW_TAG_array_type then
          bindE (tag__strip_typedefs_and_modifiers n cu (tg_type t)) (\<lambda>q.
            case q of None \<Rightarrow> Inr (1, cu) | Some _ \<Rightarrow> tag__natural_alignment n cu q)
        else Inr (1, cu))"

section \<open>The first member of the biggest base type\<close>

text \<open>
  \<open>reevaluate\<close>: the type of a member is followed to one that has a size.  \<open>Skip\<close> is
  the \<open>continue\<close> of the C loop, \<open>Inner\<close> a structure to look into.
\<close>

datatype biggest_eval = Skip_member | Sized nat | Inner_type nat

fun biggest_reevaluate :: "nat \<Rightarrow> cu \<Rightarrow> nat \<times> tag \<Rightarrow> fault + biggest_eval" where
  "biggest_reevaluate 0 cu p = Inl Out_Of_Fuel"
| "biggest_reevaluate (Suc n) cu (i, t) =
     (if tg_tag t = DW_TAG_base_type then map_sum id Sized (base_type__size t)
      else if tg_tag t = DW_TAG_pointer_type \<or> tg_tag t = DW_TAG_reference_type then Inr (Sized (cu_addr_size cu))
      else if tg_tag t \<in> {DW_TAG_class_type, DW_TAG_union_type, DW_TAG_structure_type} then
        map_sum id (\<lambda>ty. if ty_nr_members ty = 0 then Skip_member else Inner_type i) (tag__type t)
      else if tg_tag t \<in> {DW_TAG_array_type, DW_TAG_const_type, DW_TAG_typedef,
                           DW_TAG_rvalue_reference_type, DW_TAG_volatile_type, DW_TAG_atomic_type} then
        bindE (cu_type cu (tg_type t)) (\<lambda>type.
          case type of None \<Rightarrow> Inr Skip_member | Some t' \<Rightarrow> biggest_reevaluate n cu (tg_type t, t'))
      else if tg_tag t = DW_TAG_enumeration_type then map_sum id (\<lambda>ty. Sized (ty_size ty div 8)) (tag__type t)
      else Inr (Sized 0))"

text \<open>
  \<open>for (pw2 = addr_size; pw2 > result_size; pw2 /= 2)\<close>: \<open>Inl\<close> is the return from
  inside the loop, \<open>Inr\<close> the new result size and result.
\<close>

function power2_loop :: "nat \<Rightarrow> nat \<Rightarrow> nat \<Rightarrow> class_member \<Rightarrow> nat \<times> class_member option \<Rightarrow>
    class_member + nat \<times> class_member option" where
  "power2_loop addr_size pw2 member_size who (result_size, result) =
     (if pw2 > result_size then
        if member_size \<ge> pw2 then
          if pw2 = addr_size then Inl who
          else power2_loop addr_size (pw2 div 2) member_size who (pw2, Some who)
        else power2_loop addr_size (pw2 div 2) member_size who (result_size, result)
      else Inr (result_size, result))"
  by pat_completeness auto
termination
  by (relation "measure (\<lambda>(a, pw2, m, w, r). pw2)") auto

declare power2_loop.simps [simp del]

text \<open>The loop over the members; \<open>rec\<close> is the recursive call for a structure inside.\<close>

fun biggest_loop :: "(nat \<Rightarrow> fault + class_member option) \<Rightarrow> nat \<Rightarrow> cu \<Rightarrow> class_member list \<Rightarrow>
    nat \<times> class_member option \<Rightarrow> fault + class_member option" where
  "biggest_loop rec n cu [] res = Inr (snd res)"
| "biggest_loop rec n cu (pos # ms) res =
     (let sized = (\<lambda>who member_size.
            if member_size > cu_addr_size cu then Inr (Some pos)
            else case power2_loop (cu_addr_size cu) (cu_addr_size cu) member_size who res of
                   Inl r \<Rightarrow> Inr (Some r)
                 | Inr res' \<Rightarrow> biggest_loop rec n cu ms res')
      in if cm_is_static pos then biggest_loop rec n cu ms res
         else bindE (cu_type cu (cm_type pos)) (\<lambda>type.
           case type of
             None \<Rightarrow> biggest_loop rec n cu ms res
           | Some t \<Rightarrow>
               bindE (biggest_reevaluate n cu (cm_type pos, t)) (\<lambda>ev.
                 case ev of
                   Skip_member \<Rightarrow> biggest_loop rec n cu ms res
                 | Sized s \<Rightarrow> sized pos s
                 | Inner_type j \<Rightarrow>
                     bindE (rec j) (\<lambda>inner.
                       case inner of None \<Rightarrow> Inl Null_Deref | Some m \<Rightarrow> sized m (cm_byte_size m)))))"

fun type__find_first_biggest_size_base_type_member :: "nat \<Rightarrow> cu \<Rightarrow> nat \<Rightarrow> fault + class_member option" where
  "type__find_first_biggest_size_base_type_member 0 cu i = Inl Out_Of_Fuel"
| "type__find_first_biggest_size_base_type_member (Suc n) cu i =
     bindE (get_type cu i) (\<lambda>(t, ty).
       biggest_loop (type__find_first_biggest_size_base_type_member n cu) n cu
         (type__data_members (ty_tags ty)) (0, None))"

section \<open>Types without a by-value cycle\<close>

text \<open>The types a type is made of by value: what it qualifies or names, or its members' types.\<close>

definition follows :: "tag \<Rightarrow> nat \<Rightarrow> bool" where
  "follows t j \<longleftrightarrow>
     (tg_type t = j \<and>
        tg_tag t \<notin> {DW_TAG_pointer_type, DW_TAG_reference_type, DW_TAG_base_type,
                     DW_TAG_enumeration_type, DW_TAG_subroutine_type, DW_TAG_string_type}) \<or>
     (\<exists>ty m. tag__type t = Inr ty \<and> m \<in> set (type__members (ty_tags ty)) \<and> cm_type m = j)"

definition types_ranked :: "cu \<Rightarrow> (nat \<Rightarrow> nat) \<Rightarrow> bool" where
  "types_ranked cu r \<longleftrightarrow>
     (\<forall>i t j. cu_types cu i = Some t \<longrightarrow> follows t j \<longrightarrow> cu_types cu j \<noteq> None \<longrightarrow> r j < r i)"

lemma types_rankedD:
  "types_ranked cu r \<Longrightarrow> cu_types cu i = Some t \<Longrightarrow> follows t j \<Longrightarrow> cu_types cu j = Some u \<Longrightarrow> r j < r i"
  by (auto simp: types_ranked_def)

lemma follows_typedef: "tag__is_typedef (tg_tag t) \<or> tag__is_modifier (tg_tag t) \<Longrightarrow> follows t (tg_type t)"
  by (auto simp: follows_def tag_defs)

text \<open>The rank of a type is fuel enough; one more step finds that there is no type.\<close>

definition enough :: "cu \<Rightarrow> (nat \<Rightarrow> nat) \<Rightarrow> nat \<Rightarrow> nat \<Rightarrow> bool" where
  "enough cu r i n \<longleftrightarrow> 0 < n \<and> (cu_types cu i \<noteq> None \<longrightarrow> Suc (r i) < n)"

lemma enough_follows:
  assumes "types_ranked cu r" "cu_types cu i = Some t" "follows t j" "enough cu r i (Suc n)"
  shows "enough cu r j n"
  using types_rankedD [OF assms(1-3)] assms(2,4) by (cases "cu_types cu j") (auto simp: enough_def)

lemma strip_ok:
  assumes "cu_inv cu" "types_ranked cu r" "enough cu r i n"
  shows "\<exists>res. tag__strip_typedefs_and_modifiers n cu i = Inr res \<and>
     (case res of None \<Rightarrow> True
      | Some (j, t) \<Rightarrow> cu_types cu j = Some t \<and> r j \<le> r i \<and>
          \<not> tag__is_typedef (tg_tag t) \<and> \<not> tag__is_modifier (tg_tag t))"
  using assms(3)
proof (induction n arbitrary: i)
  case 0
  then show ?case by (simp add: enough_def)
next
  case (Suc n)
  show ?case
  proof (cases "cu_types cu i")
    case None
    with assms(1) show ?thesis by simp
  next
    case (Some t)
    show ?thesis
    proof (cases "tag__is_typedef (tg_tag t) \<or> tag__is_modifier (tg_tag t)")
      case False
      with Some assms(1) show ?thesis by simp
    next
      case True
      obtain res where res: "tag__strip_typedefs_and_modifiers n cu (tg_type t) = Inr res"
          "case res of None \<Rightarrow> True
           | Some (j, u) \<Rightarrow> cu_types cu j = Some u \<and> r j \<le> r (tg_type t) \<and>
               \<not> tag__is_typedef (tg_tag u) \<and> \<not> tag__is_modifier (tg_tag u)"
        using Suc.IH [OF enough_follows [OF assms(2) Some follows_typedef [OF True] Suc.prems]] by blast
      have "r (tg_type t) < r i" if "cu_types cu (tg_type t) = Some u" for u
        using types_rankedD [OF assms(2) Some follows_typedef [OF True] that] .
      moreover have "\<exists>u. cu_types cu (tg_type t) = Some u" if "res \<noteq> None"
        using res(1) that assms(1) by (cases n; cases "cu_types cu (tg_type t)") auto
      ultimately show ?thesis
        using res True Some assms(1) by (auto split: option.splits)
    qed
  qed
qed

section \<open>Sizes are defined\<close>

text \<open>
  What \<open>tag__size\<close> needs of the types: a tag without a type is a structure, union or one of
  the kinds with a size of their own (in particular nothing qualifies void), an array has
  the entries of its dimensions, and no tag is its own type.
\<close>

definition sized_kind :: "dw_tag \<Rightarrow> bool" where
  "sized_kind k \<longleftrightarrow>
     k \<in> {DW_TAG_string_type, DW_TAG_pointer_type, DW_TAG_reference_type, DW_TAG_base_type,
          DW_TAG_enumeration_type, DW_TAG_subroutine_type}"

definition array_ok :: "array_type \<Rightarrow> bool" where
  "array_ok a \<longleftrightarrow> at_dimensions a = 0 \<or> (\<exists>es. at_nr_entries a = Some es \<and> at_dimensions a \<le> length es)"

definition types_sized :: "cu \<Rightarrow> bool" where
  "types_sized cu \<longleftrightarrow>
     (\<forall>i t. cu_types cu i = Some t \<longrightarrow>
        tag_wf t \<and> tg_type t \<noteq> i \<and>
        (\<not> sized_kind (tg_tag t) \<longrightarrow> tg_type t = 0 \<longrightarrow> tag__is_struct (tg_tag t) \<or> tag__is_union (tg_tag t)) \<and>
        (\<forall>a. tag__array_type t = Inr a \<longrightarrow> array_ok a))"

lemma nr_entries_loop_ok: "d \<le> length es \<Longrightarrow> \<exists>v. nr_entries_loop es d acc = Inr v"
  by (induction es d acc rule: nr_entries_loop.induct) auto

lemma array_nr_entries_ok: "array_ok a \<Longrightarrow> \<exists>v. array_type__nr_entries a = Inr v"
  by (auto simp: array_ok_def array_type__nr_entries_def nr_entries_loop_ok split: option.split)

lemma tag_size_sized:
  assumes "tag_wf t" "sized_kind (tg_tag t)"
  shows "\<exists>s. tag__size (Suc n) cu t = Inr s"
  using assms tag_wf_string [OF assms(1)] tag_wf_base [OF assms(1)] tag_wf_ftype [OF assms(1)]
    tag_wf_type [OF assms(1)]
  by (auto simp: sized_kind_def tag__string_type_def base_type__size_def tag__base_type_def
      tag__ftype_def tag__type_def tag__is_enumeration_def)

lemma follows_unsized: "\<not> sized_kind (tg_tag t) \<Longrightarrow> follows t (tg_type t)"
  by (auto simp: sized_kind_def follows_def)

lemma tag_size_ok:
  assumes "cu_inv cu" "types_sized cu" "types_ranked cu r"
  shows "cu_types cu i = Some t \<Longrightarrow> enough cu r i n \<Longrightarrow> \<exists>s. tag__size n cu t = Inr s"
proof (induction n arbitrary: i t)
  case 0
  then show ?case by (simp add: enough_def)
next
  case (Suc n)
  have t: "tag_wf t" "tg_type t \<noteq> i"
      "\<not> sized_kind (tg_tag t) \<Longrightarrow> tg_type t = 0 \<Longrightarrow> tag__is_struct (tg_tag t) \<or> tag__is_union (tg_tag t)"
      "\<And>a. tag__array_type t = Inr a \<Longrightarrow> array_ok a"
    using assms(2) Suc.prems(1) unfolding types_sized_def by blast+
  show ?case
  proof (cases "sized_kind (tg_tag t)")
    case True
    then show ?thesis by (rule tag_size_sized [OF t(1)])
  next
    case False
    have arr: "\<exists>v. (if tg_tag t = DW_TAG_array_type
         then bindE (tag__array_type t) (\<lambda>a. bindE (array_type__nr_entries a) (\<lambda>nr. Inr (u64 (s * nr))))
         else Inr s) = Inr v" for s
      using tag_wf_array [OF t(1)] t(4) array_nr_entries_ok by (fastforce simp: tag__array_type_def)
    show ?thesis
    proof (cases "tg_type t = 0")
      case True
      with t(3) False obtain ty where "tag__type t = Inr ty"
        using tag__type_wf [OF t(1)] unfolding tag__is_type_def by blast
      with True False arr show ?thesis by (simp add: sized_kind_def Let_def)
    next
      case ty: False
      show ?thesis
      proof (cases "cu_types cu (tg_type t)")
        case None
        with ty False assms(1) show ?thesis by (simp add: sized_kind_def Let_def)
      next
        case (Some u)
        have "\<exists>s. tag__size n cu u = Inr s"
          using Suc.IH [OF Some enough_follows [OF assms(3) Suc.prems(1) follows_unsized [OF False] Suc.prems(2)]] .
        with ty False assms(1) Some arr show ?thesis
          by (auto simp: sized_kind_def Let_def simp del: tag__size.simps(1))
      qed
    qed
  qed
qed

text \<open>The size of a typedef or qualified type is that of what stripping finds.\<close>

lemma tag_size_step:
  assumes "cu_inv cu" "types_sized cu" "cu_types cu i = Some t" "tag__is_typedef (tg_tag t) \<or> tag__is_modifier (tg_tag t)"
    "cu_types cu (tg_type t) = Some u"
  shows "tag__size (Suc n) cu t = tag__size n cu u"
proof -
  have k: "\<not> sized_kind (tg_tag t)" "tg_tag t \<noteq> DW_TAG_array_type"
      "\<not> (tag__is_struct (tg_tag t) \<or> tag__is_union (tg_tag t))"
    using assms(4) by (auto simp: sized_kind_def tag_defs)
  then have "tg_type t \<noteq> 0" "tg_type u \<noteq> tg_type t"
    using assms(2,3,5) unfolding types_sized_def by metis+
  with k assms(1,5) show ?thesis
    by (auto simp: sized_kind_def Let_def tag_has_type_loop_def split: sum.split)
qed

lemma tag_size_strip:
  assumes "cu_inv cu" "types_sized cu" "cu_types cu i = Some t"
    "tag__strip_typedefs_and_modifiers n cu i = Inr (Some (j, u))"
  shows "\<exists>d < n. \<forall>f. tag__size (f + d) cu t = tag__size f cu u"
  using assms(3,4)
proof (induction n arbitrary: i t)
  case (Suc n)
  show ?case
  proof (cases "tag__is_typedef (tg_tag t) \<or> tag__is_modifier (tg_tag t)")
    case False
    with Suc.prems assms(1) show ?thesis by (intro exI [of _ 0]) auto
  next
    case True
    with Suc.prems assms(1) have s: "tag__strip_typedefs_and_modifiers n cu (tg_type t) = Inr (Some (j, u))" by simp
    then obtain v where v: "cu_types cu (tg_type t) = Some v"
      using assms(1) by (cases n; cases "cu_types cu (tg_type t)") auto
    from Suc.IH [OF v s] obtain d where "d < n" "\<forall>f. tag__size (f + d) cu v = tag__size f cu u" by blast
    then show ?thesis
      using tag_size_step [OF assms(1,2) Suc.prems(1) True v] by (intro exI [of _ "Suc d"]) auto
  qed
qed simp

section \<open>Properties\<close>

text \<open>C8: on a table whose types have no by-value cycle and nothing qualifies void, \<open>tag__size\<close> ends
  without a fault for every type, and a typedef or qualified type has the size of the type found by
  stripping typedefs and modifiers; the loop check never cuts such a chain short.\<close>

theorem tag_size_total_and_stripped:
  assumes "cu_inv cu" "types_sized cu" "types_ranked cu r" "cu_types cu i = Some t" "enough cu r i n"
  shows "(\<exists>s. tag__size n cu t = Inr s) \<and>
         (\<forall>j u. tag__strip_typedefs_and_modifiers n cu i = Inr (Some (j, u)) \<longrightarrow>
            (\<exists>d < n. \<forall>f. tag__size (f + d) cu t = tag__size f cu u))"
  using tag_size_ok [OF assms] tag_size_strip [OF assms(1,2,4)] by blast

definition sample_base :: "string \<Rightarrow> nat \<Rightarrow> tag" where
  "sample_base nm bits = \<lparr>tg_tag = DW_TAG_base_type, tg_type = 0, tg_body = Base_body
     \<lparr>bt_name = nm, bt_bit_size = bits, bt_name_has_encoding = True, bt_is_signed = False, bt_is_bool = False,
      bt_is_varargs = False, bt_float_type = 0\<rparr>\<rparr>"

definition sample_typedef :: "nat \<Rightarrow> tag" where
  "sample_typedef ty = \<lparr>tg_tag = DW_TAG_typedef, tg_type = ty, tg_body = Type_body
     \<lparr>ty_name = Some ''u32'', ty_tags = [], ty_size = 0, ty_nr_static_members = 0, ty_nr_members = 0,
      ty_alignment = 0, ty_natural_alignment = 0, ty_packed_attributes_inferred = False,
      ty_declaration = False, ty_is_signed_enum = False, ty_member_prefix = None, ty_member_prefix_len = 0\<rparr>\<rparr>"

definition sample_cu :: "tag option list \<Rightarrow> cu" where
  "sample_cu ts = cu_zero\<lparr>cu_types_table := pt_of ts, cu_addr_size := 8\<rparr>"

lemma sample_cu_types [simp]: "cu_types (sample_cu ts) i = (if i < length ts then ts ! i else None)"
  by (simp add: sample_cu_def)

lemma sample_cu_inv: "length ts \<le> 2048 \<Longrightarrow> cu_inv (sample_cu ts)"
  by (simp add: sample_cu_def cu_inv_def cu_zero_def pt_inv_of)

theorem tag_size_total_and_stripped_witness:
  "let cu = sample_cu [None, Some (sample_base ''unsigned int'' 32), Some (sample_typedef 1)] in
     \<exists>s. tag__size 5 cu (sample_typedef 1) = Inr s"
proof -
  let ?cu = "sample_cu [None, Some (sample_base ''unsigned int'' 32), Some (sample_typedef 1)]"
  have two: "(i :: nat) < 3 \<longleftrightarrow> i = 0 \<or> i = 1 \<or> i = 2" for i by auto
  have ts: "cu_types ?cu i = Some t \<longleftrightarrow>
      i = 1 \<and> t = sample_base ''unsigned int'' 32 \<or> i = 2 \<and> t = sample_typedef 1" for i t
    by (auto simp: two nth_Cons' split: if_splits)
  have "types_sized ?cu"
    unfolding types_sized_def ts
    by (auto simp: sample_base_def sample_typedef_def tag_wf_def sized_kind_def tag_defs cast_defs)
  moreover have "types_ranked ?cu id"
    unfolding types_ranked_def ts
    by (auto simp: follows_def sample_base_def sample_typedef_def type__members_def cast_defs)
  moreover have "enough ?cu id 2 5" by (simp add: enough_def)
  moreover have "cu_types ?cu 2 = Some (sample_typedef 1)" by simp
  moreover have "cu_inv ?cu" by (rule sample_cu_inv) simp
  ultimately show ?thesis
    unfolding Let_def using tag_size_total_and_stripped [of ?cu id 2 "sample_typedef 1" 5] by blast
qed

end
