(* ===== verification/Holes.thy ===== *)
theory Holes
  imports Typesize
begin

text \<open>
  The layout of a structure (\<open>dwarves.c\<close>): adding members, the holes between them, and the
  searches that read the result.  A member is the entry of the class at an index of its
  list of tags, which stands for the pointer \<open>last\<close> of the C loop.
\<close>

section \<open>Members\<close>

definition type__add_member :: "'a type_t_scheme \<Rightarrow> class_member \<Rightarrow> 'a type_t_scheme" where
  "type__add_member t m =
     (let t1 = (if cm_is_static m then t\<lparr>ty_nr_static_members := u16 (ty_nr_static_members t + 1)\<rparr>
                else t\<lparr>ty_nr_members := u16 (ty_nr_members t + 1)\<rparr>)
      in t1\<lparr>ty_tags := ty_tags t1 @ [Member m]\<rparr>)"

definition enumeration__add :: "'a type_t_scheme \<Rightarrow> enumerator \<Rightarrow> 'a type_t_scheme" where
  "enumeration__add t e =
     t\<lparr>ty_nr_members := u16 (ty_nr_members t + 1), ty_tags := ty_tags t @ [Enumerator e]\<rparr>"

fun ns_data_member :: "ns_entry \<Rightarrow> bool" where
  "ns_data_member (Member m) = (cm_tag m = DW_TAG_member)"
| "ns_data_member _ = False"

text \<open>The index of the last data member.\<close>

definition type__last_member :: "'a type_t_scheme \<Rightarrow> nat option" where
  "type__last_member t =
     (case filter (\<lambda>i. ns_data_member (ty_tags t ! i)) (rev [0..<length (ty_tags t)]) of
        [] \<Rightarrow> None | i # _ \<Rightarrow> Some i)"

definition type__find_member_by_name :: "'a type_t_scheme \<Rightarrow> string option \<Rightarrow> class_member option" where
  "type__find_member_by_name t name =
     (case name of
        None \<Rightarrow> None
      | Some nm \<Rightarrow> find (\<lambda>m. name_is (cm_name m) nm) (type__data_members (ty_tags t)))"

definition type__nr_members_of_type :: "'a type_t_scheme \<Rightarrow> nat \<Rightarrow> nat" where
  "type__nr_members_of_type t type_id = u32 (length (filter (\<lambda>m. cm_type m = type_id) (type__members (ty_tags t))))"

text \<open>
  Cloning: each member is allocated (\<open>sz\<close> bytes) and added to the copy; a failed allocation
  abandons the copy.
\<close>

fun clone_members :: "heap_env \<Rightarrow> nat \<Rightarrow> 'a type_t_scheme \<Rightarrow> class_member list \<Rightarrow> 'a type_t_scheme option" where
  "clone_members h sz t [] = Some t"
| "clone_members h sz t (m # ms) =
     (if avail h sz then clone_members h sz (type__add_member t m) ms else None)"

definition type__clone_members :: "heap_env \<Rightarrow> nat \<Rightarrow> 'a type_t_scheme \<Rightarrow> 'b type_t_scheme \<Rightarrow> 'a type_t_scheme option" where
  "type__clone_members h sz t from_t =
     clone_members h sz (t\<lparr>ty_nr_members := 0, ty_nr_static_members := 0, ty_tags := []\<rparr>)
       (type__members (ty_tags from_t))"

definition class__clone :: "heap_env \<Rightarrow> nat \<Rightarrow> nat \<Rightarrow> class_t \<Rightarrow> string option \<Rightarrow> class_t option" where
  "class__clone h sz_class sz_member from_c new_class_name =
     (if avail h sz_class then
        let c = from_c\<lparr>cl_nr_vtable_entries := 0\<rparr>
        in case new_class_name of
             None \<Rightarrow> type__clone_members h sz_member c from_c
           | Some nm \<Rightarrow>
               if avail h (length nm + 1)
               then type__clone_members h sz_member (c\<lparr>ty_name := Some nm\<rparr>) from_c else None
      else None)"

section \<open>Holes\<close>

text \<open>
  The variables of the loop of \<open>class__find_holes\<close>: bit positions are \<open>uint32_t\<close>.
\<close>

record hole_vars =
  hv_last_seen :: nat
  hv_cur_end :: nat
  hv_cur_size :: nat
  hv_in_bitfield :: bool

text \<open>The difference of two \<open>uint32_t\<close> stored in an \<open>int\<close>.\<close>

definition diff32 :: "nat \<Rightarrow> nat \<Rightarrow> int" where
  "diff32 a b = s32 (int a - int b)"

definition member_bit_end :: "class_member \<Rightarrow> nat" where
  "member_bit_end m =
     (if cm_bitfield_size m \<noteq> 0 then u32 (cm_bit_offset m + cm_bitfield_size m)
      else u32 (cm_bit_offset m + cm_byte_size m * 8))"

text \<open>The byte and bit holes before a member, and the variables after it.\<close>

definition holes_gap :: "hole_vars \<Rightarrow> class_member \<Rightarrow> int \<times> int \<times> hole_vars" where
  "holes_gap v m =
     (let bit_start = cm_bit_offset m; bit_end = member_bit_end m;
          (bit_holes, last_seen) =
            (if hv_in_bitfield v then
               let bitfield_end = min bit_start (hv_cur_end v)
               in (diff32 bitfield_end (hv_last_seen v), bitfield_end)
             else (0, hv_last_seen v));
          (byte_holes, bit_holes) =
            (if cm_bitfield_size m \<noteq> 0 then
               let aligned_start = u32 (cm_byte_offset m * 8);
                   (byte_holes, last_seen) =
                     (if last_seen < aligned_start \<and> aligned_start \<le> bit_start
                      then (diff32 (cm_byte_offset m) (last_seen div 8), aligned_start)
                      else (0, last_seen))
               in (byte_holes, s32 (bit_holes + (int bit_start - int last_seen)))
             else (diff32 (bit_start div 8) (last_seen div 8), bit_holes));
          v' =
            (if cm_bitfield_size m \<noteq> 0 then
               if bit_end > hv_cur_end v \<or> cm_bit_size m > hv_cur_size v then
                 let cur_size = cm_bit_size m;
                     cur_end = u32 (u32 (cm_byte_offset m * 8) + cur_size);
                     cur_end = (if bit_end > cur_end then u32 (cur_end + cur_size) else cur_end)
                 in \<lparr>hv_last_seen = bit_end, hv_cur_end = cur_end, hv_cur_size = cur_size, hv_in_bitfield = True\<rparr>
               else v\<lparr>hv_last_seen := bit_end, hv_in_bitfield := True\<rparr>
             else \<lparr>hv_last_seen = bit_end, hv_cur_end = bit_end, hv_cur_size = 0, hv_in_bitfield = False\<rparr>)
      in (byte_holes, bit_holes, v'))"

text \<open>The members the loop looks at.\<close>

fun holes_counted :: "ns_entry \<Rightarrow> class_member option" where
  "holes_counted (Member m) =
     (if cm_tag m = DW_TAG_member \<and> \<not> cm_is_static m then Some m
      else if cm_tag m = DW_TAG_inheritance \<and> \<not> (cm_virtuality m = DW_VIRTUALITY_virtual \<or> cm_byte_size m = 0) \<and>
              \<not> cm_is_static m then Some m
      else None)"
| "holes_counted _ = None"

definition set_hole :: "int \<Rightarrow> int \<Rightarrow> ns_entry \<Rightarrow> ns_entry" where
  "set_hole byte_holes bit_holes e =
     (case e of Member m \<Rightarrow> Member (m\<lparr>cm_hole := byte_holes, cm_bit_hole := nat (u8 bit_holes)\<rparr>) | _ \<Rightarrow> e)"

fun find_holes_loop :: "nat list \<Rightarrow> nat option \<Rightarrow> hole_vars \<Rightarrow> class_t \<Rightarrow> hole_vars \<times> class_t" where
  "find_holes_loop [] lst v c = (v, c)"
| "find_holes_loop (i # is) lst v c =
     (case holes_counted (ty_tags c ! i) of
        None \<Rightarrow> find_holes_loop is lst v c
      | Some m \<Rightarrow>
          let c1 = c\<lparr>ty_tags := (ty_tags c)[i := set_hole 0 0 (ty_tags c ! i)]\<rparr>;
              (byte_holes, bit_holes, v') = holes_gap v m;
              c2 = (case lst of
                      Some j \<Rightarrow> c1\<lparr>ty_tags := (ty_tags c1)[j := set_hole byte_holes bit_holes (ty_tags c1 ! j)]\<rparr>
                    | None \<Rightarrow> c1\<lparr>cl_pre_hole := nat (u16 byte_holes), cl_pre_bit_hole := nat (u8 bit_holes)\<rparr>);
              c3 = (if bit_holes \<noteq> 0 then c2\<lparr>cl_nr_bit_holes := u8 (cl_nr_bit_holes c2 + 1)\<rparr> else c2);
              c4 = (if byte_holes > 0 then c3\<lparr>cl_nr_holes := u8 (cl_nr_holes c3 + 1)\<rparr> else c3)
          in find_holes_loop is (Some i) v' c4)"

text \<open>\<open>tg\<close> is the tag of the class itself.\<close>

definition class__find_holes :: "dw_tag \<Rightarrow> class_t \<Rightarrow> class_t" where
  "class__find_holes tg c =
     (if \<not> tag__is_struct tg \<or> cl_holes_searched c then c
      else
        let v0 = \<lparr>hv_last_seen = 0, hv_cur_end = u32 (ty_size c * 8), hv_cur_size = 0, hv_in_bitfield = False\<rparr>;
            (v, c1) = find_holes_loop [0..<length (ty_tags c)] None v0
                        (c\<lparr>cl_nr_holes := 0, cl_nr_bit_holes := 0\<rparr>);
            (bit_padding, last_seen) =
              (if hv_in_bitfield v then
                 let bitfield_end = min (u32 (ty_size c * 8)) (hv_cur_end v)
                 in (diff32 bitfield_end (hv_last_seen v), bitfield_end)
               else (0, hv_last_seen v))
        in c1\<lparr>cl_bit_padding := nat (u8 bit_padding),
             cl_padding := nat (u16 (int (ty_size c) - int (last_seen div 8))),
             cl_holes_searched := True\<rparr>)"

definition class__has_hole_ge :: "class_t \<Rightarrow> nat \<Rightarrow> bool" where
  "class__has_hole_ge c sz \<longleftrightarrow>
     cl_nr_holes c \<noteq> 0 \<and> (\<exists>m \<in> set (type__data_members (ty_tags c)). cm_hole m \<ge> int sz)"

section \<open>Holes account for every bit\<close>

definition member_bits :: "class_member \<Rightarrow> nat" where
  "member_bits m = (if cm_bitfield_size m \<noteq> 0 then cm_bitfield_size m else cm_byte_size m * 8)"

text \<open>
  What the loaders guarantee of a member: a bitfield starts in the first of at most two
  adjacent units of its integral type and ends in them, anything else starts at a byte.
\<close>

definition member_placed :: "class_member \<Rightarrow> bool" where
  "member_placed m \<longleftrightarrow>
     (if cm_bitfield_size m \<noteq> 0 then
        cm_bit_size m \<le> 64 \<and> 8 dvd cm_bit_size m \<and>
        cm_byte_offset m * 8 \<le> cm_bit_offset m \<and> cm_bit_offset m < cm_byte_offset m * 8 + cm_bit_size m \<and>
        cm_bit_offset m + cm_bitfield_size m \<le> cm_byte_offset m * 8 + 2 * cm_bit_size m
      else 8 dvd cm_bit_offset m)"

text \<open>From bit \<open>p\<close> on the members follow one another and end by bit \<open>lim\<close>.\<close>

fun laid_out :: "nat \<Rightarrow> nat \<Rightarrow> class_member list \<Rightarrow> bool" where
  "laid_out lim p [] \<longleftrightarrow> p \<le> lim"
| "laid_out lim p (m # ms) \<longleftrightarrow>
     p \<le> cm_bit_offset m \<and> member_placed m \<and> laid_out lim (cm_bit_offset m + member_bits m) ms"

lemma laid_out_le: "laid_out lim p ms \<Longrightarrow> p \<le> lim"
proof (induction ms arbitrary: p)
  case (Cons m ms)
  from Cons.IH [of "cm_bit_offset m + member_bits m"] Cons.prems show ?case by simp
qed simp

text \<open>The loop invariant: where the last member ended, and the bitfield unit that is open.\<close>

definition vars_ok :: "nat \<Rightarrow> hole_vars \<Rightarrow> bool" where
  "vars_ok p v \<longleftrightarrow> hv_last_seen v = p \<and>
     (if hv_in_bitfield v then p \<le> hv_cur_end v \<and> hv_cur_end v \<le> p + 128 \<and> 8 dvd hv_cur_end v
      else 8 dvd p \<and> hv_cur_size v = 0)"

lemma diff32_le: "a \<le> b \<Longrightarrow> b < 2147483648 \<Longrightarrow> diff32 b a = int (b - a)"
  by (simp add: diff32_def s32_id of_nat_diff)

lemma holes_gap_plain:
  assumes v: "vars_ok p v" and m: "p \<le> cm_bit_offset m" "member_placed m" "cm_bitfield_size m = 0"
    and lim: "cm_bit_offset m + member_bits m \<le> lim" "lim < 524288"
  shows "\<exists>bh bi v'. holes_gap v m = (bh, bi, v') \<and> 0 \<le> bh \<and> bh < 65536 \<and> 0 \<le> bi \<and> bi < 256 \<and>
           8 * bh + bi = int (cm_bit_offset m) - int p \<and> vars_ok (cm_bit_offset m + member_bits m) v'"
proof -
  let ?s = "cm_bit_offset m"
  define e where "e = (if hv_in_bitfield v then min ?s (hv_cur_end v) else p)"
  define bi where "bi = (if hv_in_bitfield v then diff32 e p else 0)"
  have s: "8 dvd ?s" "?s < 524288" using m lim by (auto simp: member_placed_def)
  have e: "p \<le> e" "e \<le> ?s" "8 dvd e" "e \<le> p + 128"
    using v m(1) s(1) by (auto simp: e_def vars_ok_def min_def split: if_splits)
  have bi: "bi = int (e - p)"
    using e s(2) by (auto simp: bi_def diff32_le e_def)
  have bh: "diff32 (?s div 8) (e div 8) = int (?s div 8 - e div 8)"
    using e(2) s(2) by (intro diff32_le) (auto intro: div_le_mono)
  have "8 * (?s div 8) = ?s" "8 * (e div 8) = e" using s(1) e(3) by auto
  then have "8 * int (?s div 8 - e div 8) + bi = int ?s - int p"
    using bi e(1,2) by (simp add: of_nat_diff div_le_mono)
  moreover have "vars_ok (?s + member_bits m)
      \<lparr>hv_last_seen = ?s + member_bits m, hv_cur_end = ?s + member_bits m, hv_cur_size = 0, hv_in_bitfield = False\<rparr>"
    using m(3) s(1) by (simp add: vars_ok_def member_bits_def)
  moreover have "holes_gap v m = (int (?s div 8 - e div 8), bi,
      \<lparr>hv_last_seen = ?s + member_bits m, hv_cur_end = ?s + member_bits m, hv_cur_size = 0, hv_in_bitfield = False\<rparr>)"
    using m(3) lim v bh by (auto simp: holes_gap_def Let_def member_bit_end_def member_bits_def bi_def e_def vars_ok_def)
  moreover have "bi < 256" "0 \<le> bi" using bi e(4) by auto
  moreover have "?s div 8 - e div 8 < 65536" using s(2) by linarith
  ultimately show ?thesis by (intro exI conjI) auto
qed

lemma holes_gap_bitfield:
  assumes v: "vars_ok p v" and m: "p \<le> cm_bit_offset m" "member_placed m" "cm_bitfield_size m \<noteq> 0"
    and lim: "cm_bit_offset m + member_bits m \<le> lim" "lim < 524288"
  shows "\<exists>bh bi v'. holes_gap v m = (bh, bi, v') \<and> 0 \<le> bh \<and> bh < 65536 \<and> 0 \<le> bi \<and> bi < 256 \<and>
           8 * bh + bi = int (cm_bit_offset m) - int p \<and> vars_ok (cm_bit_offset m + member_bits m) v'"
proof -
  let ?s = "cm_bit_offset m" and ?b = "cm_byte_offset m" and ?n = "cm_bit_size m"
  let ?l = "?s + cm_bitfield_size m"
  have pl: "?n \<le> 64" "8 dvd ?n" "?b * 8 \<le> ?s" "?s < ?b * 8 + ?n" "?l \<le> ?b * 8 + 2 * ?n" and l: "?l < 524288"
    using m(2,3) lim by (auto simp: member_placed_def member_bits_def)
  define e where "e = (if hv_in_bitfield v then min ?s (hv_cur_end v) else p)"
  define bi0 where "bi0 = (if hv_in_bitfield v then diff32 e p else 0)"
  define al where "al \<longleftrightarrow> e < ?b * 8"
  define bh where "bh = (if al then diff32 ?b (e div 8) else 0)"
  define ls where "ls = (if al then ?b * 8 else e)"
  define v' where "v' =
    (if ?l > hv_cur_end v \<or> ?n > hv_cur_size v then
       \<lparr>hv_last_seen = ?l, hv_cur_end = (if ?l > ?b * 8 + ?n then ?b * 8 + ?n + ?n else ?b * 8 + ?n),
        hv_cur_size = ?n, hv_in_bitfield = True\<rparr>
     else v\<lparr>hv_last_seen := ?l, hv_in_bitfield := True\<rparr>)"
  have e: "p \<le> e" "e \<le> ?s" "e \<le> p + 128" "al \<Longrightarrow> 8 dvd e"
    using v m(1) pl by (auto simp: e_def al_def vars_ok_def min_def split: if_splits)
  have bi0: "bi0 = int (e - p)"
    using e l by (auto simp: bi0_def diff32_le e_def)
  have bh: "8 * bh = (if al then int (?b * 8) - int e else 0)" "0 \<le> bh" "bh < 65536"
  proof -
    have "e div 8 \<le> ?b" if al using that by (auto simp: al_def)
    moreover have "8 * (e div 8) = e" if al using e(4) [OF that] by simp
    ultimately show "8 * bh = (if al then int (?b * 8) - int e else 0)" "0 \<le> bh" "bh < 65536"
      using l pl(3) by (auto simp: bh_def diff32_le of_nat_diff)
  qed
  have ls: "ls \<le> ?s" "?s - ls < 64" "e \<le> ls"
    using pl e by (auto simp: ls_def al_def)
  have bi: "s32 (bi0 + (int ?s - int ls)) = bi0 + (int ?s - int ls)"
    using bi0 e(3) ls l by (intro s32_id) auto
  have gap: "holes_gap v m = (bh, bi0 + (int ?s - int ls), v')"
  proof -
    have "u32 (?b * 8) = ?b * 8" "member_bit_end m = ?l" "hv_last_seen v = p"
      "u32 (?b * 8 + ?n) = ?b * 8 + ?n" "u32 (?b * 8 + ?n + ?n) = ?b * 8 + ?n + ?n"
      using l pl m(3) v by (auto simp: member_bit_end_def vars_ok_def)
    then show ?thesis
      using m(3) pl(3) bi unfolding holes_gap_def v'_def
      by (cases "hv_in_bitfield v")
        (auto simp: Let_def e_def bi0_def bh_def ls_def al_def)
  qed
  have "vars_ok ?l v'"
    using v pl e(1,2) m(1) by (auto simp: v'_def vars_ok_def split: if_splits)
  moreover have "8 * bh + (bi0 + (int ?s - int ls)) = int ?s - int p"
    using bh(1) bi0 e(1) by (auto simp: ls_def)
  moreover have "bi0 + (int ?s - int ls) < 256" "0 \<le> bi0 + (int ?s - int ls)"
    using bi0 e(1,3) ls by auto
  ultimately show ?thesis
    using gap bh(2,3) m(3) by (auto simp: member_bits_def)
qed

lemma holes_gap_ok:
  assumes "vars_ok p v" "p \<le> cm_bit_offset m" "member_placed m"
    "cm_bit_offset m + member_bits m \<le> lim" "lim < 524288"
  shows "\<exists>bh bi v'. holes_gap v m = (bh, bi, v') \<and> 0 \<le> bh \<and> bh < 65536 \<and> 0 \<le> bi \<and> bi < 256 \<and>
           8 * bh + bi = int (cm_bit_offset m) - int p \<and> vars_ok (cm_bit_offset m + member_bits m) v'"
  using holes_gap_plain [OF assms(1-3) _ assms(4,5)] holes_gap_bitfield [OF assms(1-3) _ assms(4,5)]
  by (cases "cm_bitfield_size m = 0") auto

text \<open>The bits an entry stands for after the loop: its own and the hole that follows it.\<close>

definition entry_bits :: "ns_entry \<Rightarrow> int" where
  "entry_bits e =
     (case holes_counted e of None \<Rightarrow> 0 | Some m \<Rightarrow> 8 * cm_hole m + int (cm_bit_hole m) + int (member_bits m))"

definition bits_upto :: "ns_entry list \<Rightarrow> nat \<Rightarrow> int" where
  "bits_upto es k = (\<Sum>i<k. entry_bits (es ! i))"

definition pre_bits :: "class_t \<Rightarrow> int" where
  "pre_bits c = 8 * int (cl_pre_hole c) + int (cl_pre_bit_hole c)"

lemma bits_upto_Suc: "bits_upto es (Suc k) = bits_upto es k + entry_bits (es ! k)"
  by (simp add: bits_upto_def)

lemma bits_upto_update:
  assumes "j < k" "k \<le> length es"
  shows "bits_upto (es[j := e]) k = bits_upto es k + entry_bits e - entry_bits (es ! j)"
proof -
  have j: "j \<in> {..<k}" "finite {..<k}" using assms(1) by auto
  have "(\<Sum>i \<in> {..<k} - {j}. entry_bits (es[j := e] ! i)) = (\<Sum>i \<in> {..<k} - {j}. entry_bits (es ! i))"
    by (rule sum.cong) auto
  then show ?thesis
    using assms sum.remove [OF j(2,1), of "\<lambda>i. entry_bits (es[j := e] ! i)"]
      sum.remove [OF j(2,1), of "\<lambda>i. entry_bits (es ! i)"]
    by (simp add: bits_upto_def)
qed

lemma bits_upto_beyond: "k \<le> j \<Longrightarrow> bits_upto (es[j := e]) k = bits_upto es k"
  by (simp add: bits_upto_def)

lemma counted_set_hole:
  "holes_counted e = Some m \<Longrightarrow>
     holes_counted (set_hole bh bi e) = Some (m\<lparr>cm_hole := bh, cm_bit_hole := nat (u8 bi)\<rparr>)"
  by (cases e) (auto simp: set_hole_def split: if_splits)

lemma entry_bits_set_hole:
  "holes_counted e = Some m \<Longrightarrow> entry_bits (set_hole bh bi e) = 8 * bh + u8 bi + int (member_bits m)"
  by (simp add: entry_bits_def counted_set_hole member_bits_def)

definition counted_from :: "ns_entry list \<Rightarrow> nat \<Rightarrow> class_member list" where
  "counted_from es k = List.map_filter holes_counted (drop k es)"

lemma counted_from_step:
  assumes "k < length es"
  shows "counted_from es k = (case holes_counted (es ! k) of None \<Rightarrow> [] | Some m \<Rightarrow> [m]) @ counted_from es (Suc k)"
  using assms by (simp add: counted_from_def List.map_filter_def Cons_nth_drop_Suc [symmetric] split: option.split)

lemma counted_from_update: "j < k \<Longrightarrow> counted_from (es[j := e]) k = counted_from es k"
  by (simp add: counted_from_def)

text \<open>
  What the loop keeps when it is about to look at index \<open>k\<close>: no stale hole before the first
  member, none yet after the last one seen, and the rest laid out from bit \<open>p\<close> on.
\<close>

definition loop_ok :: "nat \<Rightarrow> nat \<Rightarrow> nat option \<Rightarrow> nat \<Rightarrow> class_t \<Rightarrow> bool" where
  "loop_ok lim k lst p c \<longleftrightarrow>
     laid_out lim p (counted_from (ty_tags c) k) \<and>
     (case lst of
        None \<Rightarrow> pre_bits c = 0
      | Some j \<Rightarrow> j < k \<and> (\<exists>m. holes_counted (ty_tags c ! j) = Some m \<and> cm_hole m = 0 \<and> cm_bit_hole m = 0))"

text \<open>A plain data member, with no hole of negative size after it.\<close>

definition plain_entry :: "ns_entry \<Rightarrow> bool" where
  "plain_entry e \<longleftrightarrow> (case e of Member m \<Rightarrow> cm_tag m = DW_TAG_member \<and> \<not> cm_is_static m \<and> 0 \<le> cm_hole m | _ \<Rightarrow> False)"

lemma plain_set_hole: "plain_entry e \<Longrightarrow> 0 \<le> bh \<Longrightarrow> plain_entry (set_hole bh bi e)"
  by (auto simp: plain_entry_def set_hole_def split: ns_entry.splits)

lemma plain_update: "list_all plain_entry es \<Longrightarrow> plain_entry e \<Longrightarrow> list_all plain_entry (es[i := e])"
  by (auto simp: list_all_iff dest: set_update_subset_insert [THEN subsetD])

lemma find_holes_loop_ok:
  assumes "k \<le> length (ty_tags c)" "lim < 524288" "vars_ok p v" "loop_ok lim k lst p c"
  shows "\<exists>v' c' p'. find_holes_loop [k..<length (ty_tags c)] lst v c = (v', c') \<and> vars_ok p' v' \<and> p' \<le> lim \<and>
           length (ty_tags c') = length (ty_tags c) \<and> ty_size c' = ty_size c \<and>
           bits_upto (ty_tags c') (length (ty_tags c)) + pre_bits c' =
             bits_upto (ty_tags c) k + pre_bits c + (int p' - int p) \<and>
           ty_nr_members c' = ty_nr_members c \<and>
           (list_all plain_entry (ty_tags c) \<longrightarrow> list_all plain_entry (ty_tags c'))"
  using assms
proof (induction "length (ty_tags c) - k" arbitrary: k lst p v c)
  case 0
  then have "k = length (ty_tags c)" by simp
  with 0 show ?case
    using laid_out_le by (auto simp: loop_ok_def)
next
  case (Suc d)
  let ?es = "ty_tags c"
  have k: "k < length ?es" using Suc.hyps(2) by simp
  then have upt: "[k..<length ?es] = k # [Suc k..<length ?es]" by (simp add: upt_rec)
  show ?case
  proof (cases "holes_counted (?es ! k)")
    case None
    have "loop_ok lim (Suc k) lst p c"
      using Suc.prems(4) k None by (auto simp: loop_ok_def counted_from_step split: option.splits)
    with Suc.hyps(1) [of c "Suc k" p v lst] Suc.hyps(2) Suc.prems k None show ?thesis
      by (auto simp: upt bits_upto_Suc entry_bits_def)
  next
    case (Some m)
    have lo: "p \<le> cm_bit_offset m" "member_placed m"
        "laid_out lim (cm_bit_offset m + member_bits m) (counted_from ?es (Suc k))"
      using Suc.prems(4) k Some by (auto simp: loop_ok_def counted_from_step)
    from holes_gap_ok [OF Suc.prems(3) lo(1,2) laid_out_le [OF lo(3)] Suc.prems(2)] obtain bh bi v1 where
      g: "holes_gap v m = (bh, bi, v1)" "0 \<le> bh" "bh < 65536" "0 \<le> bi" "bi < 256"
        "8 * bh + bi = int (cm_bit_offset m) - int p" "vars_ok (cm_bit_offset m + member_bits m) v1" by blast
    let ?es1 = "?es[k := set_hole 0 0 (?es ! k)]"
    define c2 where "c2 = (case lst of
        Some j \<Rightarrow> c\<lparr>ty_tags := ?es1[j := set_hole bh bi (?es1 ! j)]\<rparr>
      | None \<Rightarrow> c\<lparr>ty_tags := ?es1, cl_pre_hole := nat (u16 bh), cl_pre_bit_hole := nat (u8 bi)\<rparr>)"
    obtain a b where ab: "find_holes_loop [k..<length ?es] lst v c =
        find_holes_loop [Suc k..<length ?es] (Some k) v1 (c2\<lparr>cl_nr_bit_holes := a, cl_nr_holes := b\<rparr>)"
    proof (rule that)
      show "find_holes_loop [k..<length ?es] lst v c =
        find_holes_loop [Suc k..<length ?es] (Some k) v1
          (c2\<lparr>cl_nr_bit_holes := if bi \<noteq> 0 then u8 (cl_nr_bit_holes c2 + 1) else cl_nr_bit_holes c2,
             cl_nr_holes := if bh > 0 then u8 (cl_nr_holes c2 + 1) else cl_nr_holes c2\<rparr>)"
        by (simp add: upt Some g(1) Let_def c2_def split: option.split)
    qed
    let ?c = "c2\<lparr>cl_nr_bit_holes := a, cl_nr_holes := b\<rparr>"
    have es2: "length (ty_tags c2) = length ?es" "ty_size c2 = ty_size c"
      "ty_tags c2 ! k = set_hole 0 0 (?es ! k)" "counted_from (ty_tags c2) (Suc k) = counted_from ?es (Suc k)"
      using k Suc.prems(4) by (auto simp: c2_def counted_from_update loop_ok_def split: option.split)
    have pl: "list_all plain_entry ?es \<longrightarrow> list_all plain_entry (ty_tags c2)" "ty_nr_members c2 = ty_nr_members c"
    proof -
      show "list_all plain_entry ?es \<longrightarrow> list_all plain_entry (ty_tags c2)"
      proof
        assume a: "list_all plain_entry ?es"
        have 1: "list_all plain_entry ?es1"
          using a k by (intro plain_update plain_set_hole) (auto simp: list_all_length)
        show "list_all plain_entry (ty_tags c2)"
        proof (cases lst)
          case (Some j)
          then have "j < length ?es1" using Suc.prems(4) k by (auto simp: loop_ok_def)
          then have "plain_entry (?es1 ! j)" using 1 by (simp add: list_all_length)
          from plain_update [OF 1 plain_set_hole [OF this g(2)]] show ?thesis by (simp add: c2_def Some)
        qed (simp add: c2_def 1)
      qed
    qed (simp add: c2_def split: option.split)
    have lk: "loop_ok lim (Suc k) (Some k) (cm_bit_offset m + member_bits m) ?c"
      using es2(3,4) lo(3) counted_set_hole [OF Some, of 0 0] by (simp add: loop_ok_def)
    have total: "bits_upto (ty_tags c2) (Suc k) + pre_bits c2 =
        bits_upto ?es k + pre_bits c + 8 * bh + bi + int (member_bits m)"
    proof (cases lst)
      case None
      then show ?thesis
        using Suc.prems(4) k g Some
        by (simp add: c2_def bits_upto_Suc bits_upto_beyond entry_bits_set_hole loop_ok_def pre_bits_def)
    next
      case (Some j)
      then obtain mj where j: "j < k" "holes_counted (?es ! j) = Some mj" "cm_hole mj = 0" "cm_bit_hole mj = 0"
        using Suc.prems(4) by (auto simp: loop_ok_def)
      then have "entry_bits (?es ! j) = int (member_bits mj)" by (simp add: entry_bits_def)
      then show ?thesis
        using Some k g j \<open>holes_counted (?es ! k) = Some m\<close>
        by (simp add: c2_def bits_upto_Suc bits_upto_beyond bits_upto_update entry_bits_set_hole pre_bits_def)
    qed
    have "d = length (ty_tags ?c) - Suc k" using Suc.hyps(2) es2(1) by simp
    from Suc.hyps(1) [OF this _ Suc.prems(2) g(7) lk] k es2 obtain v' c' p' where
      r: "find_holes_loop [Suc k..<length ?es] (Some k) v1 ?c = (v', c')" "vars_ok p' v'" "p' \<le> lim"
        "length (ty_tags c') = length ?es" "ty_size c' = ty_size c"
        "bits_upto (ty_tags c') (length ?es) + pre_bits c' =
           bits_upto (ty_tags c2) (Suc k) + pre_bits c2 + (int p' - int (cm_bit_offset m + member_bits m))"
        "ty_nr_members c' = ty_nr_members c2" "list_all plain_entry (ty_tags c2) \<longrightarrow> list_all plain_entry (ty_tags c')"
      by (auto simp: pre_bits_def)
    from r(6) total g(6) have
      "bits_upto (ty_tags c') (length ?es) + pre_bits c' = bits_upto ?es k + pre_bits c + (int p' - int p)" by simp
    with ab r(1-5,7,8) pl show ?thesis by auto
  qed
qed

lemma find_holes_sums:
  assumes "tag__is_struct tg" "\<not> cl_holes_searched c" "ty_size c < 65536"
    "laid_out (ty_size c * 8) 0 (counted_from (ty_tags c) 0)" "cl_pre_hole c = 0" "cl_pre_bit_hole c = 0"
  shows "let c' = class__find_holes tg c in
           bits_upto (ty_tags c') (length (ty_tags c)) + 8 * int (cl_pre_hole c') + int (cl_pre_bit_hole c') +
           8 * int (cl_padding c') + int (cl_bit_padding c') = 8 * int (ty_size c) \<and>
           cl_holes_searched c' \<and> class__find_holes tg c' = c' \<and>
           length (ty_tags c') = length (ty_tags c) \<and> ty_size c' = ty_size c \<and> ty_nr_members c' = ty_nr_members c \<and>
           (list_all plain_entry (ty_tags c) \<longrightarrow> list_all plain_entry (ty_tags c'))"
proof -
  let ?v = "\<lparr>hv_last_seen = 0, hv_cur_end = u32 (ty_size c * 8), hv_cur_size = 0, hv_in_bitfield = False\<rparr>"
  let ?c = "c\<lparr>cl_nr_holes := 0, cl_nr_bit_holes := 0\<rparr>"
  have lim: "ty_size c * 8 < 524288" using assms(3) by simp
  have "loop_ok (ty_size c * 8) 0 None 0 ?c" "vars_ok 0 ?v"
    using assms(4-) by (auto simp: loop_ok_def pre_bits_def vars_ok_def)
  from find_holes_loop_ok [OF _ lim this(2,1)] obtain v' c' p' where
    r: "find_holes_loop [0..<length (ty_tags c)] None ?v ?c = (v', c')" "vars_ok p' v'" "p' \<le> ty_size c * 8"
      "bits_upto (ty_tags c') (length (ty_tags c)) + pre_bits c' = int p'"
      "length (ty_tags c') = length (ty_tags c)" "ty_size c' = ty_size c" "ty_nr_members c' = ty_nr_members c"
      "list_all plain_entry (ty_tags c) \<longrightarrow> list_all plain_entry (ty_tags c')"
    using assms(5,6) by (auto simp: bits_upto_def pre_bits_def)
  define e where "e = (if hv_in_bitfield v' then min (ty_size c * 8) (hv_cur_end v') else p')"
  define bp where "bp = (if hv_in_bitfield v' then diff32 e p' else 0)"
  have e: "p' \<le> e" "e \<le> ty_size c * 8" "e \<le> p' + 128" "8 dvd e"
    using r(2,3) by (auto simp: e_def vars_ok_def min_def)
  have bp: "bp = int (e - p')" using e lim by (auto simp: bp_def diff32_le e_def)
  define q where "q = nat (u16 (int (ty_size c) - int (e div 8)))"
  have pad: "8 * int q = 8 * int (ty_size c) - int e"
    using e(2,4) assms(3) by (auto simp: q_def algebra_simps)
  have f: "class__find_holes tg c = c'\<lparr>cl_bit_padding := nat (u8 bp),
       cl_padding := q, cl_holes_searched := True\<rparr>"
    using assms(1,2) r(1,2) lim by (auto simp: class__find_holes_def Let_def bp_def e_def q_def vars_ok_def)
  have "nat (u8 bp) = e - p'" using bp e(1,3) by simp
  then show ?thesis
    using r(4-8) pad e(1) unfolding f Let_def by (simp add: pre_bits_def class__find_holes_def)
qed

section \<open>Properties\<close>

text \<open>C9: \<open>class__find_holes\<close> accounts for every bit of a structure: when its members, bitfields that
  straddle their units included, are laid out one after the other within its size, the bits of the
  members, the byte and bit holes after them and before the first, and the final padding in bytes
  and bits add up to exactly the size.\<close>

theorem find_holes_accounts_for_every_bit:
  assumes "tag__is_struct tg" "\<not> cl_holes_searched c" "ty_size c < 65536"
    "laid_out (ty_size c * 8) 0 (counted_from (ty_tags c) 0)" "cl_pre_hole c = 0" "cl_pre_bit_hole c = 0"
  shows "let c' = class__find_holes tg c in
           bits_upto (ty_tags c') (length (ty_tags c)) + 8 * int (cl_pre_hole c') + int (cl_pre_bit_hole c') +
           8 * int (cl_padding c') + int (cl_bit_padding c') = 8 * int (ty_size c) \<and>
           cl_holes_searched c' \<and> class__find_holes tg c' = c'"
  using find_holes_sums [OF assms] by (simp add: Let_def)

text \<open>\<open>struct { char a; int x:3; int y:7; long b; }\<close>: a hole of 1 byte after \<open>a\<close> would be 8 bits of it.\<close>

definition sample_member :: "string \<Rightarrow> nat \<Rightarrow> nat \<Rightarrow> nat \<Rightarrow> class_member" where
  "sample_member nm ofs sz ty =
     \<lparr>cm_tag = DW_TAG_member, cm_type = ty, cm_name = Some nm, cm_bit_offset = 8 * ofs, cm_bit_size = 8 * sz,
      cm_byte_offset = ofs, cm_hole = 0, cm_byte_size = sz, cm_bitfield_offset = 0, cm_bitfield_size = 0,
      cm_bit_hole = 0, cm_bitfield_end = False, cm_visited = False, cm_is_static = False,
      cm_has_bit_offset = False, cm_accessibility = 0, cm_virtuality = DW_VIRTUALITY_none,
      cm_alignment = 0, cm_const_value = 0\<rparr>"

definition class_zero :: class_t where
  "class_zero =
     \<lparr>ty_name = None, ty_tags = [], ty_size = 0, ty_nr_static_members = 0, ty_nr_members = 0,
      ty_alignment = 0, ty_natural_alignment = 0, ty_packed_attributes_inferred = False,
      ty_declaration = False, ty_is_signed_enum = False, ty_member_prefix = None,
      ty_member_prefix_len = 0, cl_nr_vtable_entries = 0, cl_vtable = [], cl_nr_holes = 0, cl_nr_bit_holes = 0,
      cl_pre_hole = 0, cl_padding = 0, cl_pre_bit_hole = 0, cl_bit_padding = 0,
      cl_holes_searched = False, cl_flexible_array_verified = False,
      cl_embedded_flexible_array_searched = False, cl_has_flexible_array = False,
      cl_has_embedded_flexible_array = False, cl_is_packed = False\<rparr>"

definition sample_class :: class_t where
  "sample_class = class_zero\<lparr>ty_size := 16, ty_nr_members := 4, ty_tags :=
     [Member (sample_member ''a'' 0 1 1),
      Member (sample_member ''x'' 0 4 2\<lparr>cm_bit_offset := 11, cm_bitfield_size := 3\<rparr>),
      Member (sample_member ''y'' 0 4 2\<lparr>cm_bit_offset := 14, cm_bitfield_size := 7\<rparr>),
      Member (sample_member ''b'' 8 8 3)]\<rparr>"

theorem find_holes_accounts_for_every_bit_witness:
  "let c' = class__find_holes DW_TAG_structure_type sample_class in
     bits_upto (ty_tags c') 4 + 8 * int (cl_pre_hole c') + int (cl_pre_bit_hole c') +
     8 * int (cl_padding c') + int (cl_bit_padding c') = 128"
proof -
  have c: "counted_from (ty_tags sample_class) 0 =
      [sample_member ''a'' 0 1 1, sample_member ''x'' 0 4 2\<lparr>cm_bit_offset := 11, cm_bitfield_size := 3\<rparr>,
       sample_member ''y'' 0 4 2\<lparr>cm_bit_offset := 14, cm_bitfield_size := 7\<rparr>, sample_member ''b'' 8 8 3]"
    by (simp add: counted_from_def List.map_filter_def sample_class_def sample_member_def)
  have l: "laid_out (ty_size sample_class * 8) 0 (counted_from (ty_tags sample_class) 0)"
    unfolding c by (simp add: sample_class_def sample_member_def member_placed_def member_bits_def)
  have s: "tag__is_struct DW_TAG_structure_type" "\<not> cl_holes_searched sample_class" "ty_size sample_class < 65536"
      "cl_pre_hole sample_class = 0" "cl_pre_bit_hole sample_class = 0" "length (ty_tags sample_class) = 4"
      "ty_size sample_class = 16"
    by (simp_all add: tag_defs sample_class_def class_zero_def)
  from find_holes_accounts_for_every_bit [OF s(1-3) l s(4,5)] show ?thesis
    by (simp add: s(6,7) Let_def)
qed

end
