(* ===== verification/Alignment.thy ===== *)
theory Alignment
  imports Typesize
begin

text \<open>
  What \<open>tag__natural_alignment\<close> computes, stated without fuel and without the cache kept in
  the types: the alignment of a scalar is its size, that of an array its element's, that of
  a structure or union the greatest of its members'.  The function, which caches the
  alignment of every structure it meets, is proved to return it and to change nothing else.
\<close>

section \<open>Stripping as a relation\<close>

inductive strips_to :: "cu \<Rightarrow> nat \<Rightarrow> nat option \<Rightarrow> bool" where
  strips_void: "cu_types cu i = None \<Longrightarrow> strips_to cu i None"
| strips_here: "cu_types cu i = Some t \<Longrightarrow> \<not> tag__is_typedef (tg_tag t) \<Longrightarrow> \<not> tag__is_modifier (tg_tag t) \<Longrightarrow>
    strips_to cu i (Some i)"
| strips_through: "cu_types cu i = Some t \<Longrightarrow> tag__is_typedef (tg_tag t) \<or> tag__is_modifier (tg_tag t) \<Longrightarrow>
    strips_to cu (tg_type t) q \<Longrightarrow> strips_to cu i q"

inductive_cases strips_toE: "strips_to cu i q"

lemma strip_strips_to:
  assumes "cu_inv cu"
  shows "tag__strip_typedefs_and_modifiers n cu i = Inr q \<Longrightarrow> strips_to cu i (map_option fst q)"
proof (induction n arbitrary: i)
  case (Suc n)
  then show ?case
    using assms
    by (auto intro: strips_to.intros split: option.splits if_splits)
qed simp

section \<open>Natural alignment as a relation\<close>

definition nz :: "nat \<Rightarrow> nat" where
  "nz a = (if a = 0 then 1 else a)"

inductive aligned :: "cu \<Rightarrow> nat \<Rightarrow> nat \<Rightarrow> bool" where
  aligned_pointer: "cu_types cu i = Some t \<Longrightarrow> tag__is_pointer (tg_tag t) \<Longrightarrow> aligned cu i (nz (cu_addr_size cu))"
| aligned_base: "cu_types cu i = Some t \<Longrightarrow> tg_tag t = DW_TAG_base_type \<Longrightarrow> base_type__size t = Inr s \<Longrightarrow>
    aligned cu i (nz s)"
| aligned_enum: "cu_types cu i = Some t \<Longrightarrow> tag__is_enumeration (tg_tag t) \<Longrightarrow> tag__type t = Inr ty \<Longrightarrow>
    aligned cu i (nz (ty_size ty div 8))"
| aligned_array: "cu_types cu i = Some t \<Longrightarrow> tg_tag t = DW_TAG_array_type \<Longrightarrow>
    strips_to cu (tg_type t) (Some j) \<Longrightarrow> aligned cu j a \<Longrightarrow> aligned cu i a"
| aligned_array_void: "cu_types cu i = Some t \<Longrightarrow> tg_tag t = DW_TAG_array_type \<Longrightarrow>
    strips_to cu (tg_type t) None \<Longrightarrow> aligned cu i 1"
| aligned_struct: "cu_types cu i = Some t \<Longrightarrow> tag__is_struct (tg_tag t) \<or> tag__is_union (tg_tag t) \<Longrightarrow>
    tag__type t = Inr ty \<Longrightarrow>
    ms = type__members (ty_tags ty) \<Longrightarrow> length bs = length ms \<Longrightarrow>
    (\<forall>k < length ms.
       skip_member (ms ! k) \<and> bs ! k = 0 \<or>
       \<not> skip_member (ms ! k) \<and> strips_to cu (cm_type (ms ! k)) None \<and> bs ! k = 0 \<or>
       \<not> skip_member (ms ! k) \<and> (\<exists>j. strips_to cu (cm_type (ms ! k)) (Some j) \<and> aligned cu j (bs ! k))) \<Longrightarrow>
    aligned cu i (nz (fold max bs 0))"
| aligned_other: "cu_types cu i = Some t \<Longrightarrow> \<not> tag__is_pointer (tg_tag t) \<Longrightarrow> tg_tag t \<noteq> DW_TAG_base_type \<Longrightarrow>
    \<not> tag__is_enumeration (tg_tag t) \<Longrightarrow> \<not> tag__is_struct (tg_tag t) \<Longrightarrow> \<not> tag__is_union (tg_tag t) \<Longrightarrow>
    tg_tag t \<noteq> DW_TAG_array_type \<Longrightarrow> aligned cu i 1"

section \<open>The cache does not matter to them\<close>

text \<open>Two units with the same types but for the cached alignments.\<close>

definition forget :: "tag \<Rightarrow> tag" where
  "forget t = set_natural_alignment t 0"

definition same_types :: "cu \<Rightarrow> cu \<Rightarrow> bool" where
  "same_types cu cu' \<longleftrightarrow> cu_addr_size cu' = cu_addr_size cu \<and>
     (\<forall>i. map_option forget (cu_types cu' i) = map_option forget (cu_types cu i))"

lemma same_types_refl [simp]: "same_types cu cu"
  by (simp add: same_types_def)

lemma same_types_sym: "same_types cu cu' \<Longrightarrow> same_types cu' cu"
  by (simp add: same_types_def)

lemma same_types_trans: "same_types cu cu1 \<Longrightarrow> same_types cu1 cu2 \<Longrightarrow> same_types cu cu2"
  by (simp add: same_types_def)

lemma forget_simps [simp]:
  "tg_tag (forget t) = tg_tag t" "tg_type (forget t) = tg_type t"
  by (simp_all add: forget_def set_natural_alignment_def split: tag_body.split)

lemma forget_type:
  "tag__type (forget t) = map_sum id (\<lambda>ty. ty\<lparr>ty_natural_alignment := 0\<rparr>) (tag__type t)"
  by (auto simp: forget_def set_natural_alignment_def tag__type_def type_t.truncate_def split: tag_body.split)

lemma forget_base: "base_type__size (forget t) = base_type__size t"
  by (simp add: forget_def set_natural_alignment_def base_type__size_def tag__base_type_def split: tag_body.split)

lemma same_types_Some:
  assumes "same_types cu cu'" "cu_types cu i = Some t"
  shows "\<exists>t'. cu_types cu' i = Some t' \<and> tg_tag t' = tg_tag t \<and> tg_type t' = tg_type t \<and> forget t' = forget t"
proof -
  have "map_option forget (cu_types cu' i) = Some (forget t)"
    using assms by (simp add: same_types_def)
  then obtain t' where t': "cu_types cu' i = Some t'" "forget t' = forget t" by auto
  then show ?thesis by (metis forget_simps)
qed

lemma same_types_None: "same_types cu cu' \<Longrightarrow> cu_types cu i = None \<Longrightarrow> cu_types cu' i = None"
  by (auto simp: same_types_def dest: spec [of _ i])

lemma same_type_members:
  assumes "forget t' = forget t" "tag__type t = Inr ty"
  shows "\<exists>ty'. tag__type t' = Inr ty' \<and> ty_tags ty' = ty_tags ty \<and> ty_size ty' = ty_size ty"
proof -
  have "tag__type (forget t') = tag__type (forget t)" using assms(1) by simp
  then show ?thesis
    using assms(2) unfolding forget_type
    by (cases "tag__type t'") (auto dest: arg_cong [of _ _ ty_tags] arg_cong [of _ _ ty_size])
qed

lemma strips_to_same: "strips_to cu i q \<Longrightarrow> same_types cu cu' \<Longrightarrow> strips_to cu' i q"
proof (induction rule: strips_to.induct)
  case (strips_void cu i)
  then show ?case by (auto intro: strips_to.intros dest: same_types_None)
next
  case (strips_here cu i t)
  then show ?case using same_types_Some [of cu cu' i t] by (auto intro: strips_to.strips_here)
next
  case (strips_through cu i t q)
  then show ?case using same_types_Some [of cu cu' i t] by (metis strips_to.strips_through)
qed

lemma aligned_same: "aligned cu i a \<Longrightarrow> same_types cu cu' \<Longrightarrow> aligned cu' i a"
proof (induction rule: aligned.induct)
  case (aligned_pointer cu i t)
  then show ?case
    using same_types_Some [of cu cu' i t] aligned.aligned_pointer [of cu' i]
    by (auto simp: same_types_def)
next
  case (aligned_base cu i t s)
  then obtain t' where "cu_types cu' i = Some t'" "tg_tag t' = tg_tag t" "forget t' = forget t"
    using same_types_Some [of cu cu' i t] by blast
  with aligned_base show ?case by (metis aligned.aligned_base forget_base)
next
  case (aligned_enum cu i t ty)
  then obtain t' where t': "cu_types cu' i = Some t'" "tg_tag t' = tg_tag t" "forget t' = forget t"
    using same_types_Some [of cu cu' i t] by blast
  from same_type_members [OF t'(3) aligned_enum(3)] t' aligned_enum show ?case
    by (metis aligned.aligned_enum)
next
  case (aligned_array cu i t j a)
  then show ?case using same_types_Some [of cu cu' i t] strips_to_same by (metis aligned.aligned_array)
next
  case (aligned_array_void cu i t)
  then show ?case using same_types_Some [of cu cu' i t] strips_to_same by (metis aligned.aligned_array_void)
next
  case (aligned_struct cu i t ty ms bs)
  then obtain t' where t': "cu_types cu' i = Some t'" "tg_tag t' = tg_tag t" "forget t' = forget t"
    using same_types_Some [of cu cu' i t] by blast
  from same_type_members [OF t'(3) aligned_struct.hyps(3)] obtain ty' where
    ty': "tag__type t' = Inr ty'" "ty_tags ty' = ty_tags ty" by blast
  have "\<forall>k < length ms.
       skip_member (ms ! k) \<and> bs ! k = 0 \<or>
       \<not> skip_member (ms ! k) \<and> strips_to cu' (cm_type (ms ! k)) None \<and> bs ! k = 0 \<or>
       \<not> skip_member (ms ! k) \<and> (\<exists>j. strips_to cu' (cm_type (ms ! k)) (Some j) \<and> aligned cu' j (bs ! k))"
    using aligned_struct.IH strips_to_same [OF _ aligned_struct.prems] aligned_struct.prems by blast
  from aligned.aligned_struct [OF t'(1) _ ty'(1) _ aligned_struct.hyps(5) this] aligned_struct.hyps t'(2) ty'(2)
  show ?case by simp
next
  case (aligned_other cu i t)
  then show ?case using same_types_Some [of cu cu' i t] by (metis aligned.aligned_other)
qed

section \<open>What the function needs of the types\<close>

definition align_env :: "cu \<Rightarrow> (nat \<Rightarrow> nat) \<Rightarrow> bool" where
  "align_env cu r \<longleftrightarrow>
     cu_inv cu \<and> types_ranked cu r \<and> cu_addr_size cu < 65536 \<and>
     (\<forall>i t. cu_types cu i = Some t \<longrightarrow> tag_wf t \<and>
        (\<forall>s. base_type__size t = Inr s \<longrightarrow> s < 65536) \<and>
        (\<forall>ty. tag__type t = Inr ty \<longrightarrow> ty_size ty div 8 < 65536 \<or> \<not> tag__is_enumeration (tg_tag t)))"

lemma aligned_pos: "aligned cu i a \<Longrightarrow> a \<noteq> 0"
  by (induction rule: aligned.induct) (auto simp: nz_def)

lemma fold_max_less: "fold max bs b < N \<longleftrightarrow> b < (N :: nat) \<and> (\<forall>x \<in> set bs. x < N)"
  by (induction bs arbitrary: b) auto

lemma aligned_small: "aligned cu i a \<Longrightarrow> align_env cu r \<Longrightarrow> a < 65536"
proof (induction rule: aligned.induct)
  case (aligned_struct cu i t ty ms bs)
  then have "bs ! k < 65536" if "k < length ms" for k using that by fastforce
  then show ?case using aligned_struct.hyps(5) by (auto simp: nz_def fold_max_less in_set_conv_nth)
qed (auto simp: align_env_def nz_def)

lemma tag_wf_forget: "tag_wf (forget t) \<longleftrightarrow> tag_wf t"
  unfolding tag_wf_def by (cases "tg_body t") (auto simp: forget_def set_natural_alignment_def)

lemma follows_same:
  assumes "forget t' = forget t" "follows t' j"
  shows "follows t j"
proof -
  have k: "tg_tag t' = tg_tag t" "tg_type t' = tg_type t" using assms(1) by (metis forget_simps)+
  have "\<exists>ty m. tag__type t = Inr ty \<and> m \<in> set (type__members (ty_tags ty)) \<and> cm_type m = j"
    if "tag__type t' = Inr ty'" "m \<in> set (type__members (ty_tags ty'))" "cm_type m = j" for ty' m
    using same_type_members [OF assms(1) [symmetric] that(1)] that(2,3) by metis
  with assms(2) k show ?thesis unfolding follows_def by metis
qed

lemma align_env_same:
  assumes "align_env cu r" "same_types cu cu'" "cu_inv cu'"
  shows "align_env cu' r"
proof -
  have orig: "\<exists>t. cu_types cu i = Some t \<and> forget t = forget t'" if "cu_types cu' i = Some t'" for i t'
    using same_types_Some [OF same_types_sym [OF assms(2)] that] by blast
  have none: "cu_types cu j \<noteq> None" if "cu_types cu' j \<noteq> None" for j
    using orig that by (cases "cu_types cu' j") auto
  have "types_ranked cu' r"
    unfolding types_ranked_def
  proof (intro allI impI)
    fix i t' j
    assume a: "cu_types cu' i = Some t'" "follows t' j" "cu_types cu' j \<noteq> None"
    then obtain t where t: "cu_types cu i = Some t" "forget t = forget t'" using orig by blast
    from follows_same [OF t(2) [symmetric] a(2)] t(1) none [OF a(3)] assms(1) show "r j < r i"
      unfolding align_env_def types_ranked_def by blast
  qed
  moreover have "tag_wf t' \<and> (\<forall>s. base_type__size t' = Inr s \<longrightarrow> s < 65536) \<and>
      (\<forall>ty. tag__type t' = Inr ty \<longrightarrow> ty_size ty div 8 < 65536 \<or> \<not> tag__is_enumeration (tg_tag t'))"
    if t': "cu_types cu' i = Some t'" for i t'
  proof -
    obtain t where t: "cu_types cu i = Some t" "forget t = forget t'" using orig [OF t'] by blast
    have env: "tag_wf t" "\<And>s. base_type__size t = Inr s \<Longrightarrow> s < 65536"
      "\<And>ty. tag__type t = Inr ty \<Longrightarrow> ty_size ty div 8 < 65536 \<or> \<not> tag__is_enumeration (tg_tag t)"
      using assms(1) t(1) unfolding align_env_def by blast+
    have "tag_wf t'" using env(1) t(2) tag_wf_forget by metis
    moreover have "base_type__size t' = base_type__size t" using t(2) forget_base by metis
    moreover have "ty_size ty div 8 < 65536 \<or> \<not> tag__is_enumeration (tg_tag t')" if "tag__type t' = Inr ty" for ty
      using same_type_members [OF t(2) that] env(3) t(2) by (metis forget_simps(1))
    ultimately show ?thesis using env(2) by simp
  qed
  ultimately show ?thesis
    using assms unfolding align_env_def same_types_def by auto
qed

section \<open>Writing the cache\<close>

lemma forget_set: "forget (set_natural_alignment t a) = forget t"
  by (simp add: forget_def set_natural_alignment_def split: tag_body.split)

lemma tag__type_set:
  "tag__type t = Inr ty \<Longrightarrow> tag__type (set_natural_alignment t a) = Inr (ty\<lparr>ty_natural_alignment := a\<rparr>)"
  by (auto simp: set_natural_alignment_def tag__type_def type_t.truncate_def split: tag_body.splits)

lemma cu_set_type_ok:
  assumes "cu_inv cu" "cu_types cu i = Some t"
  shows "cu_inv (cu_set_type cu i u) \<and> cu_types (cu_set_type cu i u) = (cu_types cu)(i := Some u)"
proof -
  have "i < pt_nr_entries (cu_types_table cu)" using cu_types_bound [OF assms(2)] .
  then show ?thesis
    using assms(1) by (auto simp: cu_inv_def cu_set_type_def cu_types_def pt_inv_def pt_lookup_def fun_eq_iff nth_list_update)
qed

lemma set_alignment_ok:
  assumes "cu_inv cu" "cu_types cu i = Some t"
  shows "cu_inv (cu_set_type cu i (set_natural_alignment t a)) \<and>
         cu_types (cu_set_type cu i (set_natural_alignment t a)) = (cu_types cu)(i := Some (set_natural_alignment t a)) \<and>
         same_types cu (cu_set_type cu i (set_natural_alignment t a))"
  using cu_set_type_ok [OF assms] assms(2) forget_set
  by (auto simp: same_types_def) (simp add: cu_set_type_def)

section \<open>The function computes the relation\<close>

text \<open>A type whose cache, if filled, holds its alignment.\<close>

definition cached :: "cu \<Rightarrow> nat \<Rightarrow> bool" where
  "cached cu x \<longleftrightarrow>
     (\<forall>t ty. cu_types cu x = Some t \<longrightarrow> tag__is_struct (tg_tag t) \<or> tag__is_union (tg_tag t) \<longrightarrow>
        tag__type t = Inr ty \<longrightarrow> ty_natural_alignment ty \<noteq> 0 \<longrightarrow> aligned cu x (ty_natural_alignment ty))"

lemma cached_same:
  "cached cu x \<Longrightarrow> same_types cu cu' \<Longrightarrow> cu_types cu' x = cu_types cu x \<Longrightarrow> cached cu' x"
  unfolding cached_def using aligned_same by metis

text \<open>What a call for type \<open>i\<close> leaves behind: it fills caches of ranks up to that of \<open>i\<close> only.\<close>

definition call_ok :: "(nat \<Rightarrow> nat) \<Rightarrow> cu \<Rightarrow> nat \<Rightarrow> nat \<Rightarrow> cu \<Rightarrow> bool" where
  "call_ok r cu i a cu' \<longleftrightarrow>
     aligned cu i a \<and> align_env cu' r \<and> same_types cu cu' \<and>
     (\<forall>x. r x \<le> r i \<longrightarrow> cached cu' x) \<and> (\<forall>x. r i < r x \<longrightarrow> cu_types cu' x = cu_types cu x)"

lemma call_ok_id:
  "aligned cu i a \<Longrightarrow> align_env cu r \<Longrightarrow> \<forall>x. r x \<le> r i \<longrightarrow> cached cu x \<Longrightarrow> call_ok r cu i a cu"
  by (simp add: call_ok_def)

text \<open>The state inside the loop over the members of structure \<open>i\<close>, whose maximum so far is \<open>b\<close>.\<close>

definition loop_state :: "(nat \<Rightarrow> nat) \<Rightarrow> cu \<Rightarrow> nat \<Rightarrow> cu \<Rightarrow> nat \<Rightarrow> bool" where
  "loop_state r cu i cu1 b \<longleftrightarrow>
     align_env cu1 r \<and> same_types cu cu1 \<and> (\<forall>x. r x < r i \<longrightarrow> cached cu1 x) \<and>
     (\<forall>x. r i \<le> r x \<longrightarrow> x \<noteq> i \<longrightarrow> cu_types cu1 x = cu_types cu x) \<and>
     (\<exists>t ty. cu_types cu1 i = Some t \<and> tag__type t = Inr ty \<and> ty_natural_alignment ty = b)"

definition member_aligned :: "cu \<Rightarrow> class_member \<Rightarrow> nat \<Rightarrow> bool" where
  "member_aligned cu m b \<longleftrightarrow>
     skip_member m \<and> b = 0 \<or>
     \<not> skip_member m \<and> strips_to cu (cm_type m) None \<and> b = 0 \<or>
     \<not> skip_member m \<and> (\<exists>j. strips_to cu (cm_type m) (Some j) \<and> aligned cu j b)"

lemma follows_member:
  "tag__type t = Inr ty \<Longrightarrow> m \<in> set (type__members (ty_tags ty)) \<Longrightarrow> follows t (cm_type m)"
  by (auto simp: follows_def)

lemma align_member_ok:
  assumes rec: "\<And>cu1 j u. cu_types cu1 j = Some u \<Longrightarrow> enough cu1 r j n \<Longrightarrow> align_env cu1 r \<Longrightarrow>
      \<forall>x. r x \<le> r j \<longrightarrow> cached cu1 x \<Longrightarrow>
      \<exists>a cu'. rec cu1 (Some (j, u)) = Inr (a, cu') \<and> call_ok r cu1 j a cu'"
    and st: "loop_state r cu i cu1 b"
    and m: "cu_types cu i = Some t" "tag__type t = Inr ty" "m \<in> set (type__members (ty_tags ty))"
    and fuel: "enough cu r i (Suc n)"
  shows "\<exists>cu2 a. align_member rec n i m cu1 = Inr cu2 \<and> member_aligned cu m a \<and> loop_state r cu i cu2 (max b a)"
proof (cases "skip_member m")
  case True
  with st show ?thesis by (auto simp: align_member_def member_aligned_def)
next
  case False
  have same: "same_types cu1 cu" "align_env cu1 r" "cu_inv cu1"
    using st by (auto simp: loop_state_def align_env_def intro: same_types_sym)
  obtain t1 where t1: "cu_types cu1 i = Some t1" "forget t1 = forget t"
    using same_types_Some [OF _ m(1), of cu1] st by (auto simp: loop_state_def)
  obtain ty1 where ty1: "tag__type t1 = Inr ty1" "ty_tags ty1 = ty_tags ty"
    using same_type_members [OF t1(2) m(2)] by blast
  have fol: "follows t1 (cm_type m)" using follows_member [OF ty1(1)] m(3) ty1(2) by simp
  have rk: "types_ranked cu1 r" using same(2) by (simp add: align_env_def)
  have "enough cu1 r i (Suc n)" using fuel m(1) t1(1) by (simp add: enough_def)
  note en = enough_follows [OF rk t1(1) fol this]
  from strip_ok [OF same(3) rk en] obtain q where
    q: "tag__strip_typedefs_and_modifiers n cu1 (cm_type m) = Inr q"
      "case q of None \<Rightarrow> True | Some (j, u) \<Rightarrow> cu_types cu1 j = Some u \<and> r j \<le> r (cm_type m) \<and>
          \<not> tag__is_typedef (tg_tag u) \<and> \<not> tag__is_modifier (tg_tag u)" by blast
  have s: "strips_to cu (cm_type m) (map_option fst q)"
    using strips_to_same [OF strip_strips_to [OF same(3) q(1)] same(1)] .
  show ?thesis
  proof (cases q)
    case None
    with False q(1) s st show ?thesis by (auto simp: align_member_def member_aligned_def)
  next
    case (Some p)
    obtain j u where p: "p = (j, u)" by (cases p)
    have ju: "cu_types cu1 j = Some u" "r j \<le> r (cm_type m)" using q(2) Some p by auto
    have cm: "cu_types cu1 (cm_type m) \<noteq> None"
      using q(1) Some same(3) by (cases n; cases "cu_types cu1 (cm_type m)") auto
    then have rlt: "r (cm_type m) < r i" using types_rankedD [OF rk t1(1) fol] by blast
    have "enough cu1 r j n" using en ju cm by (auto simp: enough_def)
    moreover have "\<forall>x. r x \<le> r j \<longrightarrow> cached cu1 x" using st ju(2) rlt by (auto simp: loop_state_def)
    ultimately obtain a cu' where
      a: "rec cu1 (Some (j, u)) = Inr (a, cu')" "call_ok r cu1 j a cu'"
      using rec [OF ju(1) _ same(2)] by blast
    have un: "cu_types cu' x = cu_types cu1 x" if "r j < r x" for x using a(2) that by (simp add: call_ok_def)
    have ri: "r j < r i" using ju(2) rlt by simp
    have env': "align_env cu' r" "same_types cu1 cu'" "cu_inv cu'" using a(2) by (auto simp: call_ok_def align_env_def)
    have "cached cu' x" if "r x < r i" for x
    proof (cases "r x \<le> r j")
      case True
      with a(2) show ?thesis by (simp add: call_ok_def)
    next
      case False
      with st that un env'(2) show ?thesis by (auto simp: loop_state_def intro: cached_same)
    qed
    moreover obtain t2 ty2 where t2: "cu_types cu' i = Some t2" "tag__type t2 = Inr ty2" "ty_natural_alignment ty2 = b"
      using st un [OF ri] by (auto simp: loop_state_def)
    moreover have "cu_types cu' x = cu_types cu x" if "r i \<le> r x" "x \<noteq> i" for x
      using st un [of x] that ri by (simp add: loop_state_def)
    ultimately have st': "loop_state r cu i cu' b"
      using env'(1,2) st by (auto simp: loop_state_def intro: same_types_trans)
    have al: "aligned cu j a" using a(2) aligned_same [OF _ same(1)] by (simp add: call_ok_def)
    have "a < 65536" using a(2) aligned_small [OF _ same(2)] by (auto simp: call_ok_def)
    then have u16: "u16 a = a" by simp
    let ?cu2 = "cu_set_type cu' i (set_natural_alignment t2 a)"
    note w = set_alignment_ok [OF env'(3) t2(1), of a]
    have env2: "align_env ?cu2 r" using align_env_same [OF env'(1)] w by blast
    have "loop_state r cu i ?cu2 a" if "b < a"
      unfolding loop_state_def
    proof (intro conjI allI impI)
      show "align_env ?cu2 r" by (rule env2)
      show "same_types cu ?cu2" using st' w by (auto simp: loop_state_def intro: same_types_trans)
      show "cached ?cu2 x" if "r x < r i" for x
        using st' w that by (auto simp: loop_state_def intro: cached_same)
      show "cu_types ?cu2 x = cu_types cu x" if "r i \<le> r x" "x \<noteq> i" for x
        using st' w that by (auto simp: loop_state_def)
      show "\<exists>t ty. cu_types ?cu2 i = Some t \<and> tag__type t = Inr ty \<and> ty_natural_alignment ty = a"
        using w tag__type_set [OF t2(2), of a] by simp
    qed
    moreover have "align_member rec n i m cu1 = Inr (if b < a then ?cu2 else cu')"
      using False q(1) Some p a(1) t2 env'(3) u16 by (simp add: align_member_def get_type_def)
    moreover have "member_aligned cu m a"
      using False s Some p al by (auto simp: member_aligned_def)
    ultimately show ?thesis
      using st' by (cases "b < a") (auto simp: max_def)
  qed
qed

lemma align_loop_ok:
  assumes rec: "\<And>cu1 j u. cu_types cu1 j = Some u \<Longrightarrow> enough cu1 r j n \<Longrightarrow> align_env cu1 r \<Longrightarrow>
      \<forall>x. r x \<le> r j \<longrightarrow> cached cu1 x \<Longrightarrow>
      \<exists>a cu'. rec cu1 (Some (j, u)) = Inr (a, cu') \<and> call_ok r cu1 j a cu'"
    and t: "cu_types cu i = Some t" "tag__type t = Inr ty" "enough cu r i (Suc n)"
  shows "set ms \<subseteq> set (type__members (ty_tags ty)) \<Longrightarrow> loop_state r cu i cu1 b \<Longrightarrow>
    \<exists>cu2 bs. fold_e (align_member rec n i) ms cu1 = Inr cu2 \<and> length bs = length ms \<and>
       (\<forall>k < length ms. member_aligned cu (ms ! k) (bs ! k)) \<and> loop_state r cu i cu2 (fold max bs b)"
proof (induction ms arbitrary: cu1 b)
  case Nil
  then show ?case by auto
next
  case (Cons m ms)
  have m: "m \<in> set (type__members (ty_tags ty))" using Cons.prems(1) by simp
  from align_member_ok [OF rec Cons.prems(2) t(1,2) m t(3)] obtain cu2 a where
    s: "align_member rec n i m cu1 = Inr cu2" "member_aligned cu m a" "loop_state r cu i cu2 (max b a)"
    by blast
  from Cons.IH [OF _ s(3)] Cons.prems(1) obtain cu3 bs where
    "fold_e (align_member rec n i) ms cu2 = Inr cu3" "length bs = length ms"
    "\<forall>k < length ms. member_aligned cu (ms ! k) (bs ! k)" "loop_state r cu i cu3 (fold max bs (max b a))"
    by auto
  with s show ?case
    by (intro exI [of _ cu3] exI [of _ "a # bs"]) (auto simp: nth_Cons' max.commute)
qed

lemma type_alignment_ok:
  assumes rec: "\<And>cu1 j u. cu_types cu1 j = Some u \<Longrightarrow> enough cu1 r j n \<Longrightarrow> align_env cu1 r \<Longrightarrow>
      \<forall>x. r x \<le> r j \<longrightarrow> cached cu1 x \<Longrightarrow>
      \<exists>a cu'. rec cu1 (Some (j, u)) = Inr (a, cu') \<and> call_ok r cu1 j a cu'"
    and t: "cu_types cu i = Some t" "tag__is_struct (tg_tag t) \<or> tag__is_union (tg_tag t)" "enough cu r i (Suc n)"
    and env: "align_env cu r" "\<forall>x. r x \<le> r i \<longrightarrow> cached cu x"
    and inj: "\<forall>x. r x = r i \<longrightarrow> x = i"
  shows "\<exists>a cu'. type__natural_alignment rec n cu i = Inr (a, cu') \<and> call_ok r cu i (nz a) cu'"
proof -
  have wf: "tag_wf t" "cu_inv cu" using env(1) t(1) by (auto simp: align_env_def)
  then obtain ty where ty: "tag__type t = Inr ty"
    using tag__type_wf [of t] t(2) unfolding tag__is_type_def by blast
  have get: "get_type cu i = Inr (t, ty)" using t(1) ty wf(2) by (simp add: get_type_def)
  show ?thesis
  proof (cases "ty_natural_alignment ty = 0")
    case False
    then have "aligned cu i (ty_natural_alignment ty)" using env(2) t ty by (auto simp: cached_def)
    with call_ok_id [OF _ env] get False show ?thesis
      by (auto simp: type__natural_alignment_def nz_def)
  next
    case True
    have "loop_state r cu i cu 0"
      using env t(1) ty True by (auto simp: loop_state_def)
    from align_loop_ok [OF rec t(1) ty t(3) subset_refl this] obtain cu2 bs where
      f: "fold_e (align_member rec n i) (type__members (ty_tags ty)) cu = Inr cu2"
        "length bs = length (type__members (ty_tags ty))"
        "\<forall>k < length (type__members (ty_tags ty)). member_aligned cu (type__members (ty_tags ty) ! k) (bs ! k)"
        "loop_state r cu i cu2 (fold max bs 0)" by blast
    let ?b = "fold max bs 0"
    have al: "aligned cu i (nz ?b)"
      by (rule aligned_struct [OF t(1,2) ty refl f(2)])
        (use f(3) in \<open>simp add: member_aligned_def\<close>)
    obtain t2 ty2 where t2: "cu_types cu2 i = Some t2" "tag__type t2 = Inr ty2" "ty_natural_alignment ty2 = ?b"
      using f(4) by (auto simp: loop_state_def)
    have inv2: "cu_inv cu2" "same_types cu cu2" using f(4) by (auto simp: loop_state_def align_env_def)
    have "type__natural_alignment rec n cu i = Inr (?b, cu2)"
      using get True f(1) t2 inv2(1) by (simp add: type__natural_alignment_def get_type_def)
    moreover have "cached cu2 x" if "r x \<le> r i" for x
    proof (cases "x = i")
      case True
      with t2 aligned_same [OF al inv2(2)] show ?thesis by (auto simp: cached_def nz_def split: if_splits)
    next
      case False
      with that inj have "r x < r i" using le_neq_implies_less by blast
      with f(4) show ?thesis by (simp add: loop_state_def)
    qed
    moreover have "cu_types cu2 x = cu_types cu x" if "r i < r x" for x
      using f(4) that unfolding loop_state_def by (metis less_imp_le less_irrefl)
    ultimately show ?thesis
      using al f(4) inv2(2) by (auto simp: call_ok_def loop_state_def)
  qed
qed

lemma natural_alignment_ok:
  assumes inj: "inj r"
  shows "cu_types cu i = Some t \<Longrightarrow> enough cu r i n \<Longrightarrow> align_env cu r \<Longrightarrow>
    \<forall>x. r x \<le> r i \<longrightarrow> cached cu x \<Longrightarrow>
    \<exists>a cu'. tag__natural_alignment n cu (Some (i, t)) = Inr (a, cu') \<and> call_ok r cu i a cu'"
proof (induction n arbitrary: cu i t)
  case 0
  then show ?case by (simp add: enough_def)
next
  case (Suc n)
  have wf: "tag_wf t" "cu_inv cu" "types_ranked cu r" using Suc.prems(1,3) by (auto simp: align_env_def)
  consider (ptr) "tag__is_pointer (tg_tag t)" | (base) "tg_tag t = DW_TAG_base_type"
    | (enum) "tag__is_enumeration (tg_tag t)" | (struct) "tag__is_struct (tg_tag t) \<or> tag__is_union (tg_tag t)"
    | (arr) "tg_tag t = DW_TAG_array_type"
    | (other) "\<not> tag__is_pointer (tg_tag t)" "tg_tag t \<noteq> DW_TAG_base_type" "\<not> tag__is_enumeration (tg_tag t)"
        "\<not> tag__is_struct (tg_tag t)" "\<not> tag__is_union (tg_tag t)" "tg_tag t \<noteq> DW_TAG_array_type" by blast
  then show ?case
  proof cases
    case ptr
    with call_ok_id [OF aligned_pointer [OF Suc.prems(1) ptr] Suc.prems(3,4)] show ?thesis by (simp add: nz_def)
  next
    case base
    with tag_wf_base [OF wf(1)] obtain s where s: "base_type__size t = Inr s"
      by (auto simp: base_type__size_def tag__base_type_def)
    with base call_ok_id [OF aligned_base [OF Suc.prems(1) base s] Suc.prems(3,4)] show ?thesis
      by (simp add: nz_def tag_defs)
  next
    case enum
    then obtain ty where ty: "tag__type t = Inr ty"
      using tag__type_wf [OF wf(1)] unfolding tag__is_type_def by blast
    with enum call_ok_id [OF aligned_enum [OF Suc.prems(1) enum ty] Suc.prems(3,4)] show ?thesis
      by (auto simp add: nz_def tag_defs)
  next
    case struct
    have "\<forall>x. r x = r i \<longrightarrow> x = i" using inj by (auto simp: inj_def)
    from type_alignment_ok [OF Suc.IH Suc.prems(1) struct Suc.prems(2-4) this] obtain a cu' where
      "type__natural_alignment (tag__natural_alignment n) n cu i = Inr (a, cu')" "call_ok r cu i (nz a) cu'"
      by blast
    with struct show ?thesis by (auto simp: nz_def tag_defs)
  next
    case arr
    have fol: "follows t (tg_type t)" using arr by (simp add: follows_def)
    note en = enough_follows [OF wf(3) Suc.prems(1) fol Suc.prems(2)]
    from strip_ok [OF wf(2,3) en] obtain q where
      q: "tag__strip_typedefs_and_modifiers n cu (tg_type t) = Inr q"
        "case q of None \<Rightarrow> True | Some (j, u) \<Rightarrow> cu_types cu j = Some u \<and> r j \<le> r (tg_type t) \<and>
          \<not> tag__is_typedef (tg_tag u) \<and> \<not> tag__is_modifier (tg_tag u)" by blast
    note s = strip_strips_to [OF wf(2) q(1)]
    show ?thesis
    proof (cases q)
      case None
      with s have "strips_to cu (tg_type t) None" by simp
      from call_ok_id [OF aligned_array_void [OF Suc.prems(1) arr this] Suc.prems(3,4)] arr q(1) None show ?thesis
        by (simp add: tag_defs)
    next
      case (Some p)
      obtain j u where p: "p = (j, u)" by (cases p)
      have ju: "cu_types cu j = Some u" "r j \<le> r (tg_type t)" using q(2) Some p by auto
      have tt: "cu_types cu (tg_type t) \<noteq> None"
        using q(1) Some wf(2) by (cases n; cases "cu_types cu (tg_type t)") auto
      then have lt: "r j < r i" using types_rankedD [OF wf(3) Suc.prems(1) fol] ju(2) le_less_trans by blast
      have "enough cu r j n" using en ju tt by (auto simp: enough_def)
      moreover have "\<forall>x. r x \<le> r j \<longrightarrow> cached cu x" using Suc.prems(4) lt by auto
      ultimately obtain a cu' where
        a: "tag__natural_alignment n cu (Some (j, u)) = Inr (a, cu')" "call_ok r cu j a cu'"
        using Suc.IH [OF ju(1) _ Suc.prems(3)] by blast
      have "aligned cu i a"
        using aligned_array [OF Suc.prems(1) arr] s Some p a(2) by (simp add: call_ok_def)
      moreover have "cached cu' x" if "r x \<le> r i" for x
        using a(2) that Suc.prems(4) by (cases "r x \<le> r j") (auto simp: call_ok_def intro: cached_same)
      ultimately have c: "call_ok r cu i a cu'" using a(2) lt by (auto simp: call_ok_def)
      have "a \<noteq> 0" using a(2) aligned_pos unfolding call_ok_def by blast
      with arr q(1) Some p a(1) c show ?thesis by (simp add: tag_defs)
    qed
  next
    case other
    with call_ok_id [OF aligned_other [OF Suc.prems(1) other] Suc.prems(3,4)] show ?thesis by simp
  qed
qed

section \<open>Properties\<close>

text \<open>on types without a by-value cycle (ranked by \<open>r\<close>), with caches that hold right values or
  nothing, \<open>tag__natural_alignment\<close> ends and returns the natural alignment of the type: its size
  for a scalar, the element's for an array, the greatest of the members' for a structure or union.
  It changes nothing but caches, and what it leaves in them is right.\<close>

theorem tag_natural_alignment_spec:
  assumes "align_env cu r" "inj r" "cu_types cu i = Some t" "enough cu r i n" "\<forall>x. cached cu x"
  shows "\<exists>a cu'. tag__natural_alignment n cu (Some (i, t)) = Inr (a, cu') \<and> aligned cu i a \<and>
           same_types cu cu' \<and> (\<forall>x. cached cu' x)"
proof -
  from natural_alignment_ok [OF assms(2,3,4,1)] assms(5) obtain a cu' where
    c: "tag__natural_alignment n cu (Some (i, t)) = Inr (a, cu')" "call_ok r cu i a cu'" by blast
  have "cached cu' x" for x
    using c(2) assms(5) by (cases "r x \<le> r i") (auto simp: call_ok_def intro: cached_same)
  with c show ?thesis by (auto simp: call_ok_def)
qed

lemma sample_cu_env:
  assumes "length ts \<le> 2048" "types_ranked (sample_cu ts) r"
    "\<forall>t. Some t \<in> set ts \<longrightarrow> tag_wf t \<and> (\<forall>s. base_type__size t = Inr s \<longrightarrow> s < 65536) \<and>
       (\<forall>ty. tag__type t = Inr ty \<longrightarrow> ty_size ty div 8 < 65536)"
  shows "align_env (sample_cu ts) r"
proof -
  have a: "cu_addr_size (sample_cu ts) < 65536" by (simp add: sample_cu_def)
  have "Some t \<in> set ts" if "cu_types (sample_cu ts) i = Some t" for i t
    using that unfolding sample_cu_types by (metis nth_mem option.distinct(1))
  then have "\<forall>i t. cu_types (sample_cu ts) i = Some t \<longrightarrow> tag_wf t \<and>
      (\<forall>s. base_type__size t = Inr s \<longrightarrow> s < 65536) \<and>
      (\<forall>ty. tag__type t = Inr ty \<longrightarrow> ty_size ty div 8 < 65536 \<or> \<not> tag__is_enumeration (tg_tag t))"
    using assms(3) by blast
  with a sample_cu_inv [OF assms(1)] assms(2) show ?thesis unfolding align_env_def by blast
qed

theorem tag_natural_alignment_spec_witness:
  "let ts = [None, Some (sample_base ''unsigned int'' 32), Some (sample_typedef 1),
         Some \<lparr>tg_tag = DW_TAG_array_type, tg_type = 2, tg_body = Array_body
           \<lparr>at_nr_entries = Some [3], at_dimensions = 1, at_is_vector = False\<rparr>\<rparr>]
   in \<exists>a cu'. tag__natural_alignment 9 (sample_cu ts) (Some (3, the (ts ! 3))) = Inr (a, cu') \<and>
        aligned (sample_cu ts) 3 a \<and> same_types (sample_cu ts) cu'"
proof -
  let ?a = "\<lparr>tg_tag = DW_TAG_array_type, tg_type = 2, tg_body = Array_body
           \<lparr>at_nr_entries = Some [3], at_dimensions = 1, at_is_vector = False\<rparr>\<rparr>"
  let ?ts = "[None, Some (sample_base ''unsigned int'' 32), Some (sample_typedef 1), Some ?a]"
  have four: "(i :: nat) < 4 \<longleftrightarrow> i = 0 \<or> i = 1 \<or> i = 2 \<or> i = 3" for i by auto
  have ts: "cu_types (sample_cu ?ts) i = Some t \<longleftrightarrow>
      i = 1 \<and> t = sample_base ''unsigned int'' 32 \<or> i = 2 \<and> t = sample_typedef 1 \<or> i = 3 \<and> t = ?a" for i t
    by (auto simp: four nth_Cons' split: if_splits)
  have "types_ranked (sample_cu ?ts) id"
    unfolding types_ranked_def ts
    by (auto simp: follows_def sample_base_def sample_typedef_def type__members_def cast_defs)
  then have env: "align_env (sample_cu ?ts) id"
    by (rule sample_cu_env [rotated])
      (auto simp: sample_base_def sample_typedef_def tag_wf_def tag_defs cast_defs)
  have c: "\<forall>x. cached (sample_cu ?ts) x"
    unfolding cached_def ts by (auto simp: sample_base_def sample_typedef_def tag_defs)
  have "cu_types (sample_cu ?ts) 3 = Some ?a" "enough (sample_cu ?ts) id 3 9" "inj (id :: nat \<Rightarrow> nat)"
    by (simp_all add: enough_def)
  note spec = tag_natural_alignment_spec [OF env this(3,1,2) c]
  have "the (?ts ! 3) = ?a" by simp
  then show ?thesis unfolding Let_def using spec by metis
qed

end
