(* ===== verification/Packed.thy ===== *)
theory Packed
  imports Holes Alignment
begin

text \<open>
  Flexible arrays and \<open>__packed__\<close> inference (\<open>dwarves.c\<close>).  These functions read and mark
  other structures of the unit, so a class is its index in the types table and every
  function returns the unit it leaves.
\<close>

definition get_class :: "cu \<Rightarrow> nat \<Rightarrow> fault + tag \<times> class_t" where
  "get_class cu i =
     bindE (cu_type cu i) (\<lambda>t.
       case t of None \<Rightarrow> Inl Null_Deref | Some t \<Rightarrow> bindE (tag__class t) (\<lambda>c. Inr (t, c)))"

definition put_class :: "cu \<Rightarrow> nat \<Rightarrow> tag \<Rightarrow> class_t \<Rightarrow> cu" where
  "put_class cu i t c = cu_set_type cu i (t\<lparr>tg_body := Class_body c\<rparr>)"

definition upd_class :: "cu \<Rightarrow> nat \<Rightarrow> (class_t \<Rightarrow> class_t) \<Rightarrow> fault + cu" where
  "upd_class cu i f = bindE (get_class cu i) (\<lambda>(t, c). Inr (put_class cu i t (f c)))"

section \<open>Flexible arrays\<close>

text \<open>\<open>__class__has_flexible_array\<close>; a member without a type is a NULL dereference.\<close>

definition class__has_flexible_array_priv :: "class_t \<Rightarrow> cu \<Rightarrow> fault + bool" where
  "class__has_flexible_array_priv c cu =
     (case type__last_member c of
        None \<Rightarrow> Inr False
      | Some i \<Rightarrow>
          (case ty_tags c ! i of
             Member m \<Rightarrow>
               bindE (cu_type cu (cm_type m)) (\<lambda>type.
                 case type of
                   None \<Rightarrow> Inl Null_Deref
                 | Some t \<Rightarrow>
                     if tg_tag t \<noteq> DW_TAG_array_type then Inr False
                     else bindE (tag__array_type t) (\<lambda>a.
                       if at_dimensions a > 1 then Inr False
                       else case at_nr_entries a of
                              None \<Rightarrow> Inr True
                            | Some [] \<Rightarrow> Inl Out_Of_Bounds
                            | Some (e # es) \<Rightarrow> Inr (e = 0)))
           | _ \<Rightarrow> Inr False))"

definition class__has_flexible_array :: "cu \<Rightarrow> nat \<Rightarrow> fault + bool \<times> cu" where
  "class__has_flexible_array cu i =
     bindE (get_class cu i) (\<lambda>(t, c).
       if cl_flexible_array_verified c then Inr (cl_has_flexible_array c, cu)
       else bindE (class__has_flexible_array_priv c cu) (\<lambda>b.
         Inr (b, put_class cu i t (c\<lparr>cl_has_flexible_array := b, cl_flexible_array_verified := True\<rparr>))))"

text \<open>
  The loop of \<open>class__has_embedded_flexible_array\<close>; \<open>rec\<close> is its recursive call.  The first
  member found with a flexible array ends it.
\<close>

fun embedded_loop :: "(cu \<Rightarrow> nat \<Rightarrow> fault + bool \<times> cu) \<Rightarrow> nat \<Rightarrow> nat \<Rightarrow> class_member list \<Rightarrow> cu \<Rightarrow> fault + cu" where
  "embedded_loop rec n i [] cu = Inr cu"
| "embedded_loop rec n i (pos # ms) cu =
     (if skip_member pos then embedded_loop rec n i ms cu
      else
        bindE (tag__strip_typedefs_and_modifiers n cu (cm_type pos)) (\<lambda>member_type.
          case member_type of
            None \<Rightarrow> embedded_loop rec n i ms cu
          | Some (j, u) \<Rightarrow>
              if \<not> tag__is_struct (tg_tag u) then embedded_loop rec n i ms cu
              else
                bindE (class__has_flexible_array cu j) (\<lambda>(b, cu1).
                bindE (upd_class cu1 i (\<lambda>c. c\<lparr>cl_has_embedded_flexible_array := b\<rparr>)) (\<lambda>cu2.
                  if b then Inr cu2
                  else if j = i then embedded_loop rec n i ms cu2
                  else
                    bindE (rec cu2 j) (\<lambda>(b, cu3).
                    bindE (upd_class cu3 i (\<lambda>c. c\<lparr>cl_has_embedded_flexible_array := b\<rparr>)) (\<lambda>cu4.
                      if b then Inr cu4 else embedded_loop rec n i ms cu4))))))"

fun class__has_embedded_flexible_array :: "nat \<Rightarrow> cu \<Rightarrow> nat \<Rightarrow> fault + bool \<times> cu" where
  "class__has_embedded_flexible_array 0 cu i = Inl Out_Of_Fuel"
| "class__has_embedded_flexible_array (Suc n) cu i =
     bindE (get_class cu i) (\<lambda>(t, c).
       if \<not> tag__is_struct (tg_tag t) then Inr (False, cu)
       else if cl_embedded_flexible_array_searched c then Inr (cl_has_embedded_flexible_array c, cu)
       else
         bindE (embedded_loop (class__has_embedded_flexible_array n) n i (type__members (ty_tags c)) cu) (\<lambda>cu1.
         bindE (get_class cu1 i) (\<lambda>(t1, c1).
           let c2 = c1\<lparr>cl_embedded_flexible_array_searched := True\<rparr>
           in Inr (cl_has_embedded_flexible_array c2, put_class cu1 i t1 c2))))"

section \<open>Packed structures\<close>

text \<open>\<open>cls->is_packed = true; cls->type.packed_attributes_inferred = 1\<close>\<close>

definition mark_packed :: "class_t \<Rightarrow> class_t" where
  "mark_packed c = c\<lparr>cl_is_packed := True, ty_packed_attributes_inferred := True\<rparr>"

text \<open>\<open>x % natural_alignment\<close>; the alignment is never 0 (\<open>?: 1\<close>).\<close>

definition check_member_alignment :: "nat \<Rightarrow> class_member \<Rightarrow> cu \<Rightarrow> fault + cu" where
  "check_member_alignment n m cu =
     bindE (tag__strip_typedefs_and_modifiers n cu (cm_type m)) (\<lambda>member_type.
       case member_type of
         None \<Rightarrow> Inr cu
       | Some (j, u) \<Rightarrow>
           if \<not> tag__is_struct (tg_tag u) then Inr cu
           else bindE (tag__natural_alignment n cu (Some (j, u))) (\<lambda>(a, cu1).
                  if cm_byte_offset m mod a \<noteq> 0 then upd_class cu1 j mark_packed else Inr cu1))"

definition type__check_structs_at_unnatural_alignments :: "nat \<Rightarrow> ns_entry list \<Rightarrow> cu \<Rightarrow> fault + cu" where
  "type__check_structs_at_unnatural_alignments n es cu = fold_e (check_member_alignment n) (type__members es) cu"

text \<open>
  The member loop of \<open>class__infer_packed_attributes\<close>: \<open>None\<close> is the \<open>goto out\<close> after a member
  at an unnatural offset, \<open>Some m\<close> the greatest alignment met (a \<open>uint16_t\<close>).
\<close>

fun packed_loop :: "nat \<Rightarrow> class_member list \<Rightarrow> nat \<Rightarrow> cu \<Rightarrow> fault + nat option \<times> cu" where
  "packed_loop n [] mx cu = Inr (Some mx, cu)"
| "packed_loop n (pos # ms) mx cu =
     (if skip_member pos then packed_loop n ms mx cu
      else
        bindE (tag__strip_typedefs_and_modifiers n cu (cm_type pos)) (\<lambda>member_type.
        bindE (tag__natural_alignment n cu member_type) (\<lambda>(a, cu1).
          if a = 1 then packed_loop n ms mx cu1
          else
            let mx' = (if mx < a then u16 a else mx)
            in if cm_byte_offset pos mod a = 0 then packed_loop n ms mx' cu1
               else Inr (None, cu1))))"

text \<open>The last assignment to \<open>is_packed\<close>, then the label \<open>out\<close>.\<close>

definition packed_out :: "nat \<Rightarrow> (class_t \<Rightarrow> class_t) \<Rightarrow> cu \<Rightarrow> fault + bool \<times> cu" where
  "packed_out i f cu =
     bindE (upd_class cu i (\<lambda>c. (f c)\<lparr>ty_packed_attributes_inferred := True\<rparr>)) (\<lambda>cu'.
     bindE (get_class cu' i) (\<lambda>(t, c). Inr (cl_is_packed c, cu')))"

definition class__infer_packed_attributes :: "nat \<Rightarrow> cu \<Rightarrow> nat \<Rightarrow> fault + bool \<times> cu" where
  "class__infer_packed_attributes n cu i =
     bindE (get_class cu i) (\<lambda>(t, c).
       if \<not> tag__is_struct (tg_tag t) then Inr (False, cu)
       else if ty_packed_attributes_inferred c then Inr (cl_is_packed c, cu)
       else
         let c1 = class__find_holes (tg_tag t) c; cu1 = put_class cu i t c1;
             packed = (\<lambda>c. c\<lparr>cl_is_packed := True\<rparr>)
         in if cl_padding c1 \<noteq> 0 \<or> cl_nr_holes c1 \<noteq> 0 then
              bindE (type__check_structs_at_unnatural_alignments n (ty_tags c1) cu1)
                (packed_out i (\<lambda>c. c\<lparr>cl_is_packed := False\<rparr>))
            else
              bindE (packed_loop n (type__members (ty_tags c1)) 1 cu1) (\<lambda>(res, cu2).
                case res of
                  None \<Rightarrow> packed_out i packed cu2
                | Some mx \<Rightarrow>
                    if mx \<noteq> 1 \<and> ty_alignment c1 = 1 then packed_out i packed cu2
                    else if mx = 0 then Inl Div_By_Zero
                    else if ty_size c1 mod mx \<noteq> 0 then packed_out i packed cu2
                    else packed_out i (\<lambda>c. c) cu2))"

text \<open>In a union a member without a known type is a NULL dereference.\<close>

definition union_member_alignment :: "nat \<Rightarrow> nat \<Rightarrow> class_member \<Rightarrow> cu \<Rightarrow> fault + cu" where
  "union_member_alignment n union_size m cu =
     bindE (tag__strip_typedefs_and_modifiers n cu (cm_type m)) (\<lambda>member_type.
       case member_type of
         None \<Rightarrow> Inl Null_Deref
       | Some (j, u) \<Rightarrow>
           if \<not> tag__is_struct (tg_tag u) then Inr cu
           else bindE (tag__natural_alignment n cu (Some (j, u))) (\<lambda>(a, cu1).
                  if union_size mod a \<noteq> 0 then upd_class cu1 j mark_packed else Inr cu1))"

definition set_inferred :: "tag \<Rightarrow> tag" where
  "set_inferred t =
     (case tg_body t of
        Type_body ty \<Rightarrow> t\<lparr>tg_body := Type_body (ty\<lparr>ty_packed_attributes_inferred := True\<rparr>)\<rparr>
      | Class_body c \<Rightarrow> t\<lparr>tg_body := Class_body (c\<lparr>ty_packed_attributes_inferred := True\<rparr>)\<rparr>
      | _ \<Rightarrow> t)"

definition union__infer_packed_attributes :: "nat \<Rightarrow> cu \<Rightarrow> nat \<Rightarrow> fault + cu" where
  "union__infer_packed_attributes n cu i =
     bindE (get_type cu i) (\<lambda>(t, ty).
       if ty_packed_attributes_inferred ty then Inr cu
       else bindE (fold_e (union_member_alignment n (ty_size ty)) (type__members (ty_tags ty)) cu) (\<lambda>cu1.
            bindE (get_type cu1 i) (\<lambda>(t1, ty1). Inr (cu_set_type cu1 i (set_inferred t1)))))"

section \<open>When a structure is packed\<close>

text \<open>The natural alignment of a member as the loop sees it: 1 if it is skipped or of no known type.\<close>

definition member_natural :: "cu \<Rightarrow> class_member \<Rightarrow> nat \<Rightarrow> bool" where
  "member_natural cu m a \<longleftrightarrow>
     (if skip_member m then a = 1
      else strips_to cu (cm_type m) None \<and> a = 1 \<or> (\<exists>j. strips_to cu (cm_type m) (Some j) \<and> aligned cu j a))"

definition align_state :: "(nat \<Rightarrow> nat) \<Rightarrow> cu \<Rightarrow> cu \<Rightarrow> bool" where
  "align_state r cu cu1 \<longleftrightarrow> align_env cu1 r \<and> same_types cu cu1 \<and> (\<forall>x. cached cu1 x)"

definition member_fuel :: "cu \<Rightarrow> (nat \<Rightarrow> nat) \<Rightarrow> nat \<Rightarrow> class_member \<Rightarrow> bool" where
  "member_fuel cu r n m \<longleftrightarrow> enough cu r (cm_type m) n"

lemma enough_same: "same_types cu cu1 \<Longrightarrow> enough cu r i n \<Longrightarrow> enough cu1 r i n"
  using same_types_None [of cu cu1 i] by (auto simp: enough_def)

lemma member_alignment_ok:
  assumes st: "align_state r cu cu1" and inj: "inj r" and fuel: "member_fuel cu r n m" and ns: "\<not> skip_member m"
  shows "\<exists>q a cu2. tag__strip_typedefs_and_modifiers n cu1 (cm_type m) = Inr q \<and>
           tag__natural_alignment n cu1 q = Inr (a, cu2) \<and> member_natural cu m a \<and> align_state r cu cu2 \<and>
           a \<noteq> 0 \<and> a < 65536"
proof -
  have env: "align_env cu1 r" "cu_inv cu1" "types_ranked cu1 r" "same_types cu cu1"
    using st by (auto simp: align_state_def align_env_def)
  note env = this same_types_sym [OF this(4)]
  have en: "enough cu1 r (cm_type m) n" using enough_same [OF env(4)] fuel by (simp add: member_fuel_def)
  from strip_ok [OF env(2,3) this] obtain q where
    q: "tag__strip_typedefs_and_modifiers n cu1 (cm_type m) = Inr q"
      "case q of None \<Rightarrow> True | Some (j, u) \<Rightarrow> cu_types cu1 j = Some u \<and> r j \<le> r (cm_type m) \<and>
          \<not> tag__is_typedef (tg_tag u) \<and> \<not> tag__is_modifier (tg_tag u)" by blast
  note s = strips_to_same [OF strip_strips_to [OF env(2) q(1)] env(5)]
  show ?thesis
  proof (cases q)
    case None
    with en have "tag__natural_alignment n cu1 q = Inr (1, cu1)" by (cases n) (auto simp: enough_def)
    with None q(1) s st ns show ?thesis by (auto simp: member_natural_def)
  next
    case (Some p)
    obtain j u where p: "p = (j, u)" by (cases p)
    have ju: "cu_types cu1 j = Some u" "r j \<le> r (cm_type m)" using q(2) Some p by auto
    have "cu_types cu1 (cm_type m) \<noteq> None"
      using q(1) Some env(2) by (cases n; cases "cu_types cu1 (cm_type m)") auto
    with en ju have "enough cu1 r j n" by (auto simp: enough_def)
    from natural_alignment_ok [OF inj ju(1) this env(1)] st obtain a cu2 where
      a: "tag__natural_alignment n cu1 (Some (j, u)) = Inr (a, cu2)" "call_ok r cu1 j a cu2"
      by (auto simp: align_state_def)
    have al: "aligned cu j a" "a \<noteq> 0" "a < 65536"
      using a(2) aligned_same [OF _ env(5)] aligned_pos aligned_small [OF _ env(1)] by (auto simp: call_ok_def)
    have "cached cu2 x" for x
      using a(2) st by (cases "r x \<le> r j") (auto simp: call_ok_def align_state_def intro: cached_same)
    then have "align_state r cu cu2"
      using a(2) env(4) by (auto simp: align_state_def call_ok_def intro: same_types_trans)
    with al q(1) Some p a(1) s ns show ?thesis by (auto simp: member_natural_def)
  qed
qed

lemma member_natural_exists:
  assumes "align_state r cu cu1" "inj r" "\<forall>m \<in> set ms. member_fuel cu r n m"
  shows "\<exists>bs. length bs = length ms \<and> (\<forall>k < length ms. member_natural cu (ms ! k) (bs ! k))"
proof -
  have "\<exists>b. member_natural cu (ms ! k) b" if "k < length ms" for k
  proof (cases "skip_member (ms ! k)")
    case True
    then show ?thesis by (simp add: member_natural_def)
  next
    case False
    with member_alignment_ok [OF assms(1,2) _ False] assms(3) that show ?thesis by (meson nth_mem)
  qed
  then obtain f where "\<forall>k < length ms. member_natural cu (ms ! k) (f k)" by metis
  then show ?thesis by (intro exI [of _ "map f [0..<length ms]"]) simp
qed

lemma packed_loop_ok:
  assumes inj: "inj r"
  shows "align_state r cu cu1 \<Longrightarrow> \<forall>m \<in> set ms. member_fuel cu r n m \<Longrightarrow> 0 < mx \<Longrightarrow>
    \<exists>bs cu2. length bs = length ms \<and> (\<forall>k < length ms. member_natural cu (ms ! k) (bs ! k)) \<and>
      packed_loop n ms mx cu1 =
        Inr (if \<exists>k < length ms. cm_byte_offset (ms ! k) mod (bs ! k) \<noteq> 0 \<and> \<not> skip_member (ms ! k)
             then None else Some (fold max bs mx), cu2) \<and> align_state r cu cu2"
proof (induction ms arbitrary: cu1 mx)
  case Nil
  then show ?case by auto
next
  case (Cons m ms)
  have fuel: "\<forall>m \<in> set ms. member_fuel cu r n m" using Cons.prems(2) by simp
  have ex: "(\<exists>k < length (m # ms). cm_byte_offset ((m # ms) ! k) mod ((b # bs) ! k) \<noteq> 0 \<and> \<not> skip_member ((m # ms) ! k)) \<longleftrightarrow>
      cm_byte_offset m mod b \<noteq> 0 \<and> \<not> skip_member m \<or>
      (\<exists>k < length ms. cm_byte_offset (ms ! k) mod (bs ! k) \<noteq> 0 \<and> \<not> skip_member (ms ! k))" for b bs
    by (simp only: list.size(4) add_Suc_right add_0_right Ex_less_Suc2 nth_Cons_0 nth_Cons_Suc)
  have al: "\<forall>k < length (m # ms). member_natural cu ((m # ms) ! k) ((b # bs) ! k)"
    if "member_natural cu m b" "\<forall>k < length ms. member_natural cu (ms ! k) (bs ! k)" for b bs
    using that by (auto simp: nth_Cons')
  show ?case
  proof (cases "skip_member m")
    case True
    from Cons.IH [OF Cons.prems(1) fuel Cons.prems(3)] obtain bs cu2 where
      i: "length bs = length ms" "\<forall>k < length ms. member_natural cu (ms ! k) (bs ! k)"
        "packed_loop n ms mx cu1 =
        Inr (if \<exists>k < length ms. cm_byte_offset (ms ! k) mod (bs ! k) \<noteq> 0 \<and> \<not> skip_member (ms ! k)
             then None else Some (fold max bs mx), cu2)" "align_state r cu cu2" by blast
    have "member_natural cu m 1" using True by (simp add: member_natural_def)
    note al [OF this i(2)]
    moreover have "max 1 mx = mx" using Cons.prems(3) by simp
    ultimately show ?thesis
      using i True by (intro exI [of _ "1 # bs"] exI [of _ cu2]) (simp only: ex, simp)
  next
    case False
    from member_alignment_ok [OF Cons.prems(1) inj _ False] Cons.prems(2) obtain q a cu2 where
      a: "tag__strip_typedefs_and_modifiers n cu1 (cm_type m) = Inr q"
        "tag__natural_alignment n cu1 q = Inr (a, cu2)" "member_natural cu m a" "align_state r cu cu2"
        "a \<noteq> 0" "a < 65536" by (metis list.set_intros(1))
    have step: "packed_loop n (m # ms) mx cu1 =
        (if cm_byte_offset m mod a = 0 then packed_loop n ms (max a mx) cu2 else Inr (None, cu2))"
      using a False Cons.prems(3) by (auto simp: Let_def max_def)
    show ?thesis
    proof (cases "cm_byte_offset m mod a = 0")
      case True
      have "0 < max a mx" using Cons.prems(3) by simp
      from Cons.IH [OF a(4) fuel this] obtain bs cu3 where
        i: "length bs = length ms" "\<forall>k < length ms. member_natural cu (ms ! k) (bs ! k)"
          "packed_loop n ms (max a mx) cu2 =
          Inr (if \<exists>k < length ms. cm_byte_offset (ms ! k) mod (bs ! k) \<noteq> 0 \<and> \<not> skip_member (ms ! k)
               then None else Some (fold max bs (max a mx)), cu3)" "align_state r cu cu3" by blast
      from al [OF a(3) i(2)] i True show ?thesis
        by (intro exI [of _ "a # bs"] exI [of _ cu3]) (simp only: ex step, simp)
    next
      case no: False
      from member_natural_exists [OF a(4) inj fuel] obtain bs where
        bs: "length bs = length ms" "\<forall>k < length ms. member_natural cu (ms ! k) (bs ! k)" by blast
      from al [OF a(3) bs(2)] bs(1) a(4) no False show ?thesis
        by (intro exI [of _ "a # bs"] exI [of _ cu2]) (simp only: ex step, simp)
    qed
  qed
qed

text \<open>Marking a class changes nothing else of it.\<close>

lemma get_class_same:
  assumes "same_types cu cu2" "cu_inv cu2" "cu_types cu i = Some t" "tg_body t = Class_body c"
  shows "\<exists>t2 c2. cu_types cu2 i = Some t2 \<and> get_class cu2 i = Inr (t2, c2) \<and>
           cl_is_packed c2 = cl_is_packed c \<and> ty_size c2 = ty_size c \<and> ty_alignment c2 = ty_alignment c"
proof -
  from same_types_Some [OF assms(1,3)] obtain t2 where
    t2: "cu_types cu2 i = Some t2" "forget t2 = forget t" by blast
  from t2(2) assms(4) obtain c2 where
    c2: "tg_body t2 = Class_body c2" "c2\<lparr>ty_natural_alignment := 0\<rparr> = c\<lparr>ty_natural_alignment := 0\<rparr>"
    by (cases "tg_body t2")
      (auto simp: forget_def set_natural_alignment_def dest: arg_cong [of _ _ tg_body])
  have "cl_is_packed c2 = cl_is_packed c" "ty_size c2 = ty_size c" "ty_alignment c2 = ty_alignment c"
    using arg_cong [OF c2(2), of cl_is_packed] arg_cong [OF c2(2), of ty_size]
      arg_cong [OF c2(2), of ty_alignment] by simp_all
  with t2(1) c2(1) assms(2) show ?thesis by (simp add: get_class_def tag__class_def)
qed

lemma packed_out_ok:
  assumes "same_types cu cu2" "cu_inv cu2" "cu_types cu i = Some t" "tg_body t = Class_body c"
  shows "packed_out i (\<lambda>c. c) cu2 = Inr (cl_is_packed c, snd (projr (packed_out i (\<lambda>c. c) cu2)))"
    "packed_out i (\<lambda>c. c\<lparr>cl_is_packed := True\<rparr>) cu2 =
       Inr (True, snd (projr (packed_out i (\<lambda>c. c\<lparr>cl_is_packed := True\<rparr>) cu2)))"
proof -
  from get_class_same [OF assms] obtain t2 c2 where
    g: "cu_types cu2 i = Some t2" "get_class cu2 i = Inr (t2, c2)" "cl_is_packed c2 = cl_is_packed c" by blast
  have "get_class (put_class cu2 i t2 d) i = Inr (t2\<lparr>tg_body := Class_body d\<rparr>, d)" for d
    using cu_set_type_ok [OF assms(2) g(1)] by (simp add: get_class_def put_class_def tag__class_def)
  with g(2,3) show "packed_out i (\<lambda>c. c) cu2 = Inr (cl_is_packed c, snd (projr (packed_out i (\<lambda>c. c) cu2)))"
    "packed_out i (\<lambda>c. c\<lparr>cl_is_packed := True\<rparr>) cu2 =
       Inr (True, snd (projr (packed_out i (\<lambda>c. c\<lparr>cl_is_packed := True\<rparr>) cu2)))"
    by (simp_all add: packed_out_def upd_class_def)
qed

lemma put_class_id:
  assumes "cu_types cu i = Some t" "tg_body t = Class_body c" "cu_inv cu"
  shows "put_class cu i t c = cu"
proof -
  have "t\<lparr>tg_body := Class_body c\<rparr> = t" using assms(2) by (metis tag.surjective tag.update_convs(3))
  moreover have "(pt_entries (cu_types_table cu))[i := Some t] = pt_entries (cu_types_table cu)"
    using assms(1) by (metis cu_types_def pt_lookup_def list_update_id option.distinct(1))
  ultimately show ?thesis by (simp add: put_class_def cu_set_type_def)
qed

section \<open>Properties\<close>

text \<open>C10: a structure whose holes are known to be none is inferred to be packed exactly when it was
  marked so, or a member lies at an offset that is no multiple of its natural alignment, or the
  structure is declared with alignment 1 while a member asks for more, or its size is no multiple
  of the greatest natural alignment; the call ends without a fault for every tree of types.\<close>

theorem infer_packed_spec:
  assumes env: "align_env cu r" "inj r" "\<forall>x. cached cu x"
    and t: "cu_types cu i = Some t" "tg_body t = Class_body c" "tag__is_struct (tg_tag t)"
    and c: "cl_holes_searched c" "\<not> ty_packed_attributes_inferred c" "cl_padding c = 0" "cl_nr_holes c = 0"
    and fuel: "\<forall>m \<in> set (type__members (ty_tags c)). enough cu r (cm_type m) n"
  shows "\<exists>bs b cu'. class__infer_packed_attributes n cu i = Inr (b, cu') \<and>
    length bs = length (type__members (ty_tags c)) \<and>
    (\<forall>k < length bs. member_natural cu (type__members (ty_tags c) ! k) (bs ! k)) \<and>
    b = (cl_is_packed c \<or>
         (\<exists>k < length bs. cm_byte_offset (type__members (ty_tags c) ! k) mod bs ! k \<noteq> 0) \<or>
         (fold max bs 1 \<noteq> 1 \<and> ty_alignment c = 1) \<or> ty_size c mod fold max bs 1 \<noteq> 0)"
proof -
  let ?ms = "type__members (ty_tags c)"
  have inv: "cu_inv cu" and st: "align_state r cu cu"
    using env by (auto simp: align_state_def align_env_def)
  have "\<forall>m \<in> set ?ms. member_fuel cu r n m" using fuel by (simp add: member_fuel_def)
  from packed_loop_ok [OF env(2) st this, of 1] obtain bs cu2 where
    bs: "length bs = length ?ms" "\<forall>k < length ?ms. member_natural cu (?ms ! k) (bs ! k)"
    and loop: "packed_loop n ?ms 1 cu =
        Inr (if \<exists>k < length ?ms. cm_byte_offset (?ms ! k) mod (bs ! k) \<noteq> 0 \<and> \<not> skip_member (?ms ! k)
             then None else Some (fold max bs 1), cu2)" and cu2: "align_state r cu cu2" by auto
  have skip: "(\<exists>k < length ?ms. cm_byte_offset (?ms ! k) mod (bs ! k) \<noteq> 0 \<and> \<not> skip_member (?ms ! k)) \<longleftrightarrow>
      (\<exists>k < length ?ms. cm_byte_offset (?ms ! k) mod (bs ! k) \<noteq> 0)" (is "?bad1 \<longleftrightarrow> ?bad")
    using bs(2) unfolding member_natural_def by (metis mod_by_1)
  have cu2': "same_types cu cu2" "cu_inv cu2" using cu2 by (auto simp: align_state_def align_env_def)
  from get_class_same [OF this t(1,2)] obtain t2 c2 where
    c2: "get_class cu2 i = Inr (t2, c2)" "ty_size c2 = ty_size c" "ty_alignment c2 = ty_alignment c" by blast
  have start: "get_class cu i = Inr (t, c)" using inv t(1,2) by (simp add: get_class_def tag__class_def)
  have pos: "0 < fold max bs (1 :: nat)" using fold_max_less [of bs 1 1] by auto
  obtain x y where out: "packed_out i (\<lambda>c. c) cu2 = Inr (cl_is_packed c, x)"
      "packed_out i (\<lambda>c. c\<lparr>cl_is_packed := True\<rparr>) cu2 = Inr (True, y)"
    using packed_out_ok [OF cu2' t(1,2)] by blast
  have "class__infer_packed_attributes n cu i =
      bindE (packed_loop n ?ms 1 cu) (\<lambda>(res, cu2).
        case res of None \<Rightarrow> packed_out i (\<lambda>c. c\<lparr>cl_is_packed := True\<rparr>) cu2
        | Some mx \<Rightarrow> if mx \<noteq> 1 \<and> ty_alignment c = 1 then packed_out i (\<lambda>c. c\<lparr>cl_is_packed := True\<rparr>) cu2
            else if mx = 0 then Inl Div_By_Zero
            else if ty_size c mod mx \<noteq> 0 then packed_out i (\<lambda>c. c\<lparr>cl_is_packed := True\<rparr>) cu2
            else packed_out i (\<lambda>c. c) cu2)"
    using c t(3) put_class_id [OF t(1,2) inv]
    by (simp add: class__infer_packed_attributes_def start class__find_holes_def Let_def)
  moreover define B where "B \<longleftrightarrow> ?bad"
  ultimately obtain b cu' where res: "class__infer_packed_attributes n cu i = Inr (b, cu')"
    "b = (cl_is_packed c \<or> B \<or> (fold max bs 1 \<noteq> 1 \<and> ty_alignment c = 1) \<or> ty_size c mod fold max bs 1 \<noteq> 0)"
    unfolding loop skip B_def [symmetric] using out pos by (cases B) (simp_all split: if_splits)
  show ?thesis
    by (rule exI [of _ bs], rule exI [of _ b], rule exI [of _ cu'])
      (use bs res in \<open>simp only: B_def simp_thms\<close>)
qed

lemma strips_to_base:
  "strips_to cu i q \<Longrightarrow> cu_types cu i = Some t \<Longrightarrow> tg_tag t = DW_TAG_base_type \<Longrightarrow> q = Some i"
  by (erule strips_to.cases) (auto simp: tag_defs)

lemma aligned_base_size:
  "aligned cu i a \<Longrightarrow> cu_types cu i = Some t \<Longrightarrow> tg_tag t = DW_TAG_base_type \<Longrightarrow>
    \<exists>s. base_type__size t = Inr s \<and> a = nz s"
  by (erule aligned.cases) (auto simp: tag_defs)

theorem infer_packed_spec_witness:
  "let c = class_zero\<lparr>ty_size := 5, ty_nr_members := 2, cl_holes_searched := True, ty_tags :=
         [Member (sample_member ''a'' 0 1 1), Member (sample_member ''x'' 1 4 2)]\<rparr>;
       cu = sample_cu [None, Some (sample_base ''char'' 8), Some (sample_base ''int'' 32),
         Some \<lparr>tg_tag = DW_TAG_structure_type, tg_type = 0, tg_body = Class_body c\<rparr>]
   in \<exists>cu'. class__infer_packed_attributes 9 cu 3 = Inr (True, cu')"
proof -
  let ?c = "class_zero\<lparr>ty_size := 5, ty_nr_members := 2, cl_holes_searched := True, ty_tags :=
         [Member (sample_member ''a'' 0 1 1), Member (sample_member ''x'' 1 4 2)]\<rparr>"
  let ?t = "\<lparr>tg_tag = DW_TAG_structure_type, tg_type = 0, tg_body = Class_body ?c\<rparr>"
  let ?ts = "[None, Some (sample_base ''char'' 8), Some (sample_base ''int'' 32), Some ?t]"
  let ?cu = "sample_cu ?ts"
  have four: "(i :: nat) < 4 \<longleftrightarrow> i = 0 \<or> i = 1 \<or> i = 2 \<or> i = 3" for i by auto
  have ts: "cu_types ?cu i = Some t \<longleftrightarrow>
      i = 1 \<and> t = sample_base ''char'' 8 \<or> i = 2 \<and> t = sample_base ''int'' 32 \<or> i = 3 \<and> t = ?t" for i t
    by (auto simp: four nth_Cons' split: if_splits)
  have ms: "type__members (ty_tags ?c) = [sample_member ''a'' 0 1 1, sample_member ''x'' 1 4 2]"
    by (simp add: type__members_def sample_member_def)
  have "types_ranked ?cu id"
    unfolding types_ranked_def ts
    by (auto simp: follows_def sample_base_def sample_member_def class_zero_def type__members_def cast_defs)
  then have env: "align_env ?cu id"
    by (rule sample_cu_env [rotated])
      (auto simp: sample_base_def class_zero_def tag_wf_def tag_defs cast_defs)
  have c: "\<forall>x. cached ?cu x"
    unfolding cached_def ts
    by (auto simp: sample_base_def class_zero_def tag__type_def type_t.truncate_def tag_defs)
  have "\<forall>m \<in> set (type__members (ty_tags ?c)). enough ?cu id (cm_type m) 9"
    unfolding ms by (auto simp: enough_def sample_member_def)
  moreover have "cu_types ?cu 3 = Some ?t" unfolding ts by simp
  moreover have "tag__is_struct (tg_tag ?t)" "tg_body ?t = Class_body ?c" "inj (id :: nat \<Rightarrow> nat)"
    "cl_holes_searched ?c" "\<not> ty_packed_attributes_inferred ?c" "cl_padding ?c = 0" "cl_nr_holes ?c = 0"
    by (simp_all add: tag_defs class_zero_def)
  ultimately obtain bs b cu' where
    r: "class__infer_packed_attributes 9 ?cu 3 = Inr (b, cu')" "length bs = length (type__members (ty_tags ?c))"
      "\<forall>k < length bs. member_natural ?cu (type__members (ty_tags ?c) ! k) (bs ! k)"
      "b = (cl_is_packed ?c \<or>
         (\<exists>k < length bs. cm_byte_offset (type__members (ty_tags ?c) ! k) mod bs ! k \<noteq> 0) \<or>
         (fold max bs 1 \<noteq> 1 \<and> ty_alignment ?c = 1) \<or> ty_size ?c mod fold max bs 1 \<noteq> 0)"
    using infer_packed_spec [OF env _ c, of 3 ?t ?c 9] by blast
  have l: "length bs = 2" using r(2) by (simp only: ms) simp
  have m: "member_natural ?cu (sample_member ''x'' 1 4 2) (bs ! 1)" using spec [OF r(3), of 1] l unfolding ms by simp
  have "bs ! 1 \<noteq> 1"
  proof
    assume "bs ! 1 = 1"
    have int: "cu_types ?cu 2 = Some (sample_base ''int'' 32)" "tg_tag (sample_base ''int'' 32) = DW_TAG_base_type"
      unfolding ts by (simp_all add: sample_base_def)
    note s = strips_to_base [OF _ this] aligned_base_size [OF _ this]
    have "cm_type (sample_member ''x'' 1 4 2) = 2" "\<not> skip_member (sample_member ''x'' 1 4 2)"
      by (simp_all add: sample_member_def skip_member_def)
    with m \<open>bs ! 1 = 1\<close> have "aligned ?cu 2 1"
      unfolding member_natural_def using s(1) by (metis option.discI option.inject)
    from s(2) [OF this] show False
      by (simp add: base_type__size_def sample_base_def nz_def tag__base_type_def)
  qed
  then have "cm_byte_offset (type__members (ty_tags ?c) ! 1) mod bs ! 1 \<noteq> 0"
    unfolding ms by (simp add: sample_member_def)
  then have "b" using l by (subst r(4)) (metis one_less_numeral_iff semiring_norm(76))
  with r(1) show ?thesis unfolding Let_def by simp
qed

end
