(* ===== verification/Reorganize.thy ===== *)
theory Reorganize
  imports Holes "HOL-Library.Multiset"
begin

text \<open>
  Reorganizing a structure to remove its holes (\<open>dwarves_reorganize.c\<close>).  A member is its
  index in the class's list of tags.  The code between
  \<open>#ifdef BITFIELD_REORG_ALGORITHMS_ENABLED\<close> is never compiled: no build file defines the
  name, so a bitfield is never moved and the branches for one are left out.
\<close>

section \<open>Reading and writing members\<close>

definition cls_member :: "class_t \<Rightarrow> nat \<Rightarrow> fault + class_member" where
  "cls_member c i =
     (if i < length (ty_tags c) then (case ty_tags c ! i of Member m \<Rightarrow> Inr m | _ \<Rightarrow> Inl Out_Of_Bounds)
      else Inl Out_Of_Bounds)"

definition upd_member :: "class_t \<Rightarrow> nat \<Rightarrow> (class_member \<Rightarrow> class_member) \<Rightarrow> class_t" where
  "upd_member c i f =
     c\<lparr>ty_tags := (ty_tags c)[i := (case ty_tags c ! i of Member m \<Rightarrow> Member (f m) | e \<Rightarrow> e)]\<rparr>"

text \<open>\<open>class__for_each_member_continue\<close>: the members after \<open>from\<close>, all of them for \<open>None\<close>.\<close>

definition members_after :: "class_t \<Rightarrow> nat option \<Rightarrow> nat list" where
  "members_after c from =
     filter (\<lambda>i. ns_data_member (ty_tags c ! i))
       [(case from of None \<Rightarrow> 0 | Some i \<Rightarrow> Suc i)..<length (ty_tags c)]"

definition data_indices :: "class_t \<Rightarrow> nat list" where
  "data_indices c = filter (\<lambda>i. ns_data_member (ty_tags c ! i)) [0..<length (ty_tags c)]"

definition shift_member :: "int \<Rightarrow> class_member \<Rightarrow> class_member" where
  "shift_member d m =
     m\<lparr>cm_byte_offset := nat (u32 (int (cm_byte_offset m) + d)),
       cm_bit_offset := nat (u32 (int (cm_bit_offset m) + d * 8))\<rparr>"

definition class__recalc_holes :: "dw_tag \<Rightarrow> class_t \<Rightarrow> class_t" where
  "class__recalc_holes tg c = class__find_holes tg (c\<lparr>cl_holes_searched := False\<rparr>)"

definition class__add_offsets_from :: "class_t \<Rightarrow> nat option \<Rightarrow> nat \<Rightarrow> class_t" where
  "class__add_offsets_from c from sz =
     fold (\<lambda>i c. upd_member c i (shift_member (int sz))) (members_after c from) c"

text \<open>The new padding is computed in 64 bits and read as a \<open>ssize_t\<close>.\<close>

definition s64 :: "int \<Rightarrow> int" where
  "s64 x = (x + 9223372036854775808) mod 18446744073709551616 - 9223372036854775808"

definition class__subtract_offsets_from :: "class_t \<Rightarrow> nat option \<Rightarrow> nat \<Rightarrow> fault + class_t" where
  "class__subtract_offsets_from c from sz =
     (let c1 = fold (\<lambda>i c. upd_member c i (shift_member (- int sz))) (members_after c from) c
      in if cl_padding c1 \<noteq> 0 then
           (case type__last_member c1 of
              None \<Rightarrow> Inl Null_Deref
            | Some l \<Rightarrow>
                bindE (cls_member c1 l) (\<lambda>m.
                  let new_padding = s64 (int (ty_size c1) - int (cm_byte_offset m + cm_byte_size m))
                  in Inr (c1\<lparr>cl_padding := (if new_padding > 0 then nat (u16 new_padding) else 0)\<rparr>)))
         else Inr c1)"

definition add_size :: "class_t \<Rightarrow> int \<Rightarrow> class_t" where
  "add_size c d = c\<lparr>ty_size := nat (u32 (int (ty_size c) + d))\<rparr>"

definition count_hole :: "class_t \<Rightarrow> int \<Rightarrow> class_t" where
  "count_hole c d = c\<lparr>cl_nr_holes := nat (u8 (int (cl_nr_holes c) + d))\<rparr>"

section \<open>Fixing up the alignment after removals\<close>

text \<open>
  The loop over the powers of two from the size of an address down to 2 for the member at
  \<open>i\<close>; \<open>lst\<close> is the data member before it, \<open>None\<close> for NULL.
\<close>

function power2_fixup :: "nat \<Rightarrow> nat option \<Rightarrow> nat \<Rightarrow> class_t \<Rightarrow> fault + class_t" where
  "power2_fixup pw2 lst i c =
     (if pw2 < 2 then Inr c
      else
        bindE (cls_member c i) (\<lambda>pos.
          let remainder = cm_byte_offset pos mod pw2
          in if cm_byte_size pos = pw2 then
               if remainder = 0 then Inr c
               else
                 (case lst of
                    None \<Rightarrow> Inl Null_Deref
                  | Some l \<Rightarrow>
                      bindE (cls_member c l) (\<lambda>last_member.
                        if cm_hole last_member \<ge> int remainder then
                          let hole = cm_hole last_member - int remainder;
                              c1 = upd_member c l (\<lambda>m. m\<lparr>cm_hole := hole\<rparr>);
                              c2 = (if hole = 0 then count_hole c1 (- 1) else c1);
                              c3 = upd_member c2 i (shift_member (- int remainder))
                          in bindE (class__subtract_offsets_from c3 (Some i) (u16 remainder))
                               (power2_fixup (pw2 div 2) lst i)
                        else
                          let inc = pw2 - remainder;
                              c1 = (if cm_hole last_member = 0 then count_hole c 1 else c);
                              c2 = upd_member c1 l (\<lambda>m. m\<lparr>cm_hole := s32 (cm_hole last_member + int inc)\<rparr>);
                              c3 = add_size (upd_member c2 i (shift_member (int inc))) (int inc)
                          in power2_fixup (pw2 div 2) lst i (class__add_offsets_from c3 (Some i) (u16 inc))))
             else power2_fixup (pw2 div 2) lst i c))"
  by pat_completeness auto
termination by (relation "measure (\<lambda>(pw2, _). pw2)") auto

declare power2_fixup.simps [simp del]

definition fixup_member :: "nat \<Rightarrow> nat option \<Rightarrow> nat \<Rightarrow> class_t \<Rightarrow> fault + class_t" where
  "fixup_member addr_size lst i c =
     bindE (cls_member c i) (\<lambda>pos.
       case lst of
         None \<Rightarrow>
           if cm_byte_offset pos \<noteq> 0 then
             bindE (class__subtract_offsets_from c (Some i)
                     (nat (u16 (int (cm_byte_offset pos) - int (cm_byte_size pos))))) (\<lambda>c1.
               Inr (upd_member c1 i (\<lambda>m. m\<lparr>cm_byte_offset := 0, cm_bit_offset := 0\<rparr>)))
           else power2_fixup addr_size None i c
       | Some l \<Rightarrow>
           bindE (cls_member c l) (\<lambda>last_member.
             if cm_hole last_member \<ge> int addr_size then
               if addr_size = 0 then Inl Div_By_Zero
               else
                 let dec = nat (cm_hole last_member) div addr_size * addr_size;
                     hole = cm_hole last_member - int dec;
                     c1 = upd_member c l (\<lambda>m. m\<lparr>cm_hole := hole\<rparr>);
                     c2 = (if hole = 0 then count_hole c1 (- 1) else c1);
                     c3 = add_size (upd_member c2 i (shift_member (- int dec))) (- int dec)
                 in class__subtract_offsets_from c3 (Some i) (u16 dec)
             else power2_fixup addr_size (Some l) i c))"

fun fixup_loop :: "nat \<Rightarrow> nat list \<Rightarrow> nat option \<Rightarrow> class_t \<Rightarrow> fault + nat option \<times> class_t" where
  "fixup_loop addr_size [] lst c = Inr (lst, c)"
| "fixup_loop addr_size (i # is) lst c =
     bindE (fixup_member addr_size lst i c) (fixup_loop addr_size is (Some i))"

text \<open>\<open>n\<close> is the fuel of \<open>type__find_first_biggest_size_base_type_member\<close>.\<close>

definition class__fixup_alignment :: "nat \<Rightarrow> cu \<Rightarrow> class_t \<Rightarrow> fault + class_t" where
  "class__fixup_alignment n cu c =
     bindE (fixup_loop (cu_addr_size cu) (data_indices c) None c) (\<lambda>(lst, c1).
       case lst of
         None \<Rightarrow> Inr c1
       | Some l \<Rightarrow>
           bindE (cls_member c1 l) (\<lambda>last_member.
           bindE (biggest_loop (type__find_first_biggest_size_base_type_member n cu) n cu
                    (type__data_members (ty_tags c1)) (0, None)) (\<lambda>m.
             case m of
               None \<Rightarrow> Inl Null_Deref
             | Some m \<Rightarrow>
                 let unpadded_size = cm_byte_offset last_member + cm_byte_size last_member;
                     m_size = cm_byte_size m; remainder = unpadded_size mod m_size
                 in if m_size = 0 then Inr c1
                    else if remainder \<noteq> 0 then
                      let padding = u16 (m_size - remainder)
                      in Inr (c1\<lparr>cl_padding := padding, ty_size := u32 (unpadded_size + padding)\<rparr>)
                    else Inr c1)))"

section \<open>Finding a member that fits a hole\<close>

fun next_hole_loop :: "class_t \<Rightarrow> nat list \<Rightarrow> nat option \<Rightarrow> nat \<Rightarrow> fault + nat option" where
  "next_hole_loop c [] bitfield_head sz = Inr None"
| "next_hole_loop c (i # is) bitfield_head sz =
     bindE (cls_member c i) (\<lambda>member.
       let head = (if cm_bitfield_size member \<noteq> 0 then
                     (case bitfield_head of None \<Rightarrow> Some i | Some h \<Rightarrow> Some h)
                   else None)
       in if cm_hole member \<noteq> 0 \<and> cm_byte_size member \<noteq> 0 \<and> cm_byte_size member \<le> sz
          then Inr (Some (case head of Some h \<Rightarrow> h | None \<Rightarrow> i))
          else next_hole_loop c is head sz)"

definition class__find_next_hole_of_size :: "class_t \<Rightarrow> nat \<Rightarrow> nat \<Rightarrow> fault + nat option" where
  "class__find_next_hole_of_size c from sz = next_hole_loop c (members_after c (Some from)) None sz"

text \<open>Backwards from the last member to \<open>dest\<close>; the entry before a bitfield is read as a member.\<close>

fun last_of_size_loop :: "class_t \<Rightarrow> nat list \<Rightarrow> nat \<Rightarrow> nat \<Rightarrow> fault + nat option" where
  "last_of_size_loop c [] dest sz = Inr None"
| "last_of_size_loop c (i # is) dest sz =
     (if i = dest then Inr None
      else
        bindE (cls_member c i) (\<lambda>member.
        bindE (if cm_bitfield_size member \<noteq> 0 \<and> cm_byte_offset member \<noteq> 0 then
                 if i = 0 then Inl Out_Of_Bounds
                 else bindE (cls_member c (i - 1)) (\<lambda>prev. Inr (cm_bitfield_size prev \<noteq> 0))
               else Inr False) (\<lambda>inside.
          if \<not> inside \<and> cm_byte_size member \<noteq> 0 \<and> cm_byte_size member \<le> sz then Inr (Some i)
          else last_of_size_loop c is dest sz)))"

definition class__find_last_member_of_size :: "class_t \<Rightarrow> nat \<Rightarrow> nat \<Rightarrow> fault + nat option" where
  "class__find_last_member_of_size c dest sz = last_of_size_loop c (rev (data_indices c)) dest sz"

section \<open>Moving a member\<close>

text \<open>\<open>list_del\<close> and \<open>__list_add\<close>: the entry at \<open>from\<close> goes after the one at \<open>dest\<close>.\<close>

definition move_after :: "nat \<Rightarrow> nat \<Rightarrow> 'a list \<Rightarrow> 'a list" where
  "move_after from dest xs =
     (let rest = take from xs @ drop (Suc from) xs;
          d = (if dest < from then dest else dest - 1)
      in take (Suc d) rest @ [xs ! from] @ drop (Suc d) rest)"

definition place_member :: "nat \<Rightarrow> class_member \<Rightarrow> class_member" where
  "place_member ofs m =
     m\<lparr>cm_byte_offset := ofs, cm_bit_offset := nat (u32 (int ofs * 8 + cm_bitfield_offset m))\<rparr>"

text \<open>\<open>dest->hole % (from_size > cu->addr_size ? cu->addr_size : from_size)\<close>\<close>

definition hole_slack :: "nat \<Rightarrow> class_member \<Rightarrow> class_member \<Rightarrow> nat" where
  "hole_slack addr_size dest from =
     nat (u64 (cm_hole dest)) mod (if cm_byte_size from > addr_size then addr_size else cm_byte_size from)"

text \<open>
  \<open>None\<close> is the return value false: nothing was moved.  The entry before \<open>from\<close> stays the
  entry before it only if it is not \<open>dest\<close>; the list head stands before the first entry.
\<close>

definition class__move_member ::
  "dw_tag \<Rightarrow> cu \<Rightarrow> class_t \<Rightarrow> nat \<Rightarrow> nat \<Rightarrow> bool \<Rightarrow> fault + class_t option" where
  "class__move_member tg cu c dest from from_padding =
     bindE (cls_member c from) (\<lambda>fm.
     bindE (cls_member c dest) (\<lambda>dm.
       if cm_bitfield_size fm \<noteq> 0 then Inr None
       else if cm_byte_size fm = 0 \<or> cu_addr_size cu = 0 then Inl Div_By_Zero
       else
         let from_size = cm_byte_size fm; addr_size = cu_addr_size cu;
             from_was_last = (Suc from = length (ty_tags c));
             from_prev = (if from = 0 then None
                          else Some (if dest < from - 1 then from else from - 1));
             orig_hole = nat (u16 (cm_hole fm));
             orig_from_offset = u16 (cm_byte_offset fm);
             new_from_offset = u16 (cm_byte_offset dm + cm_byte_size dm + u16 (hole_slack addr_size dm fm));
             c1 = upd_member c from (place_member new_from_offset);
             c2 = c1\<lparr>ty_tags := move_after from dest (ty_tags c1)\<rparr>;
             shrunk = add_size c2 (- int (from_size + cl_padding c2))
         in bindE
              (if from_padding then Inr (if orig_from_offset mod addr_size = 0 then shrunk else c2)
               else if from_was_last then Inr shrunk
               else if orig_hole + from_size \<ge> addr_size then
                 class__subtract_offsets_from (add_size c2 (- int addr_size)) from_prev addr_size
               else Inr c2)
              (\<lambda>c3. Inr (Some (class__recalc_holes tg c3)))))"

section \<open>The reorganization\<close>

text \<open>The size the members and their holes align to, at most that of an address.\<close>

fun alignment_size_loop :: "nat \<Rightarrow> class_member list \<Rightarrow> nat \<Rightarrow> nat" where
  "alignment_size_loop addr_size [] acc = acc"
| "alignment_size_loop addr_size (m # ms) acc =
     (let aligned_size = nat (u64 (int (cm_byte_size m) + cm_hole m))
      in alignment_size_loop addr_size ms
           (if aligned_size \<le> addr_size \<and> aligned_size > acc then aligned_size else acc))"

definition fix_padding :: "nat \<Rightarrow> class_member \<Rightarrow> class_t \<Rightarrow> class_t" where
  "fix_padding addr_size last_member c =
     (let al = alignment_size_loop addr_size (type__data_members (ty_tags c)) 0
      in if al = 0 then c
         else
           let al = (if al > 1 then (al + 1) div 2 * 2 else al);
               last_end = cm_byte_offset last_member + cm_byte_size last_member;
               modulo = last_end mod al;
               new_padding = (if modulo \<noteq> 0 then nat (u16 (int addr_size - int modulo)) else 0)
           in if new_padding \<noteq> cl_padding c
              then c\<lparr>cl_padding := new_padding, ty_size := u32 (last_end + new_padding)\<rparr> else c)"

text \<open>
  The second loop for one member with a hole: first a member with a hole of its own, then
  the last member of a structure with padding.  \<open>Some\<close> is the \<open>goto restart\<close>.
\<close>

definition combine_holes :: "dw_tag \<Rightarrow> cu \<Rightarrow> nat \<Rightarrow> class_t \<Rightarrow> nat \<Rightarrow> fault + class_t option" where
  "combine_holes tg cu lst c i =
     bindE (cls_member c i) (\<lambda>member.
       if cm_hole member = 0 then Inr None
       else
         bindE (class__find_next_hole_of_size c i (nat (u64 (cm_hole member)))) (\<lambda>brother.
         bindE (case brother of
                  None \<Rightarrow> Inr None
                | Some b \<Rightarrow> if b = Suc i then Inr None else class__move_member tg cu c i b False) (\<lambda>moved.
           case moved of
             Some c' \<Rightarrow> Inr (Some c')
           | None \<Rightarrow>
               bindE (cls_member c lst) (\<lambda>last_member.
                 if cl_padding c > 0 \<and> i \<noteq> lst \<and> cm_byte_size last_member \<noteq> 0 \<and>
                    cm_byte_size last_member \<le> nat (u64 (cm_hole member))
                 then class__move_member tg cu c i lst True
                 else Inr None))))"

definition fill_from_tail :: "dw_tag \<Rightarrow> cu \<Rightarrow> class_t \<Rightarrow> nat \<Rightarrow> fault + class_t option" where
  "fill_from_tail tg cu c i =
     bindE (cls_member c i) (\<lambda>member.
       if cm_hole member = 0 then Inr None
       else
         bindE (class__find_last_member_of_size c i (nat (u64 (cm_hole member)))) (\<lambda>brother.
           case brother of
             None \<Rightarrow> Inr None
           | Some b \<Rightarrow> if b = Suc i then Inr None else class__move_member tg cu c i b False))"

fun first_move :: "(nat \<Rightarrow> fault + class_t option) \<Rightarrow> nat list \<Rightarrow> fault + class_t option" where
  "first_move f [] = Inr None"
| "first_move f (i # is) =
     bindE (f i) (\<lambda>r. case r of Some c \<Rightarrow> Inr (Some c) | None \<Rightarrow> first_move f is)"

text \<open>One pass from \<open>restart\<close>: the class it leaves, and whether it jumps back.\<close>

definition reorganize_pass :: "dw_tag \<Rightarrow> cu \<Rightarrow> class_t \<Rightarrow> fault + bool \<times> class_t" where
  "reorganize_pass tg cu c =
     (case type__last_member c of
        None \<Rightarrow> Inr (False, c)
      | Some l \<Rightarrow>
          bindE (cls_member c l) (\<lambda>last_member.
            let c1 = fix_padding (cu_addr_size cu) last_member c
            in bindE (first_move (combine_holes tg cu l c1) (data_indices c1)) (\<lambda>r.
                 case r of
                   Some c2 \<Rightarrow> Inr (True, c2)
                 | None \<Rightarrow>
                     if cl_nr_holes c1 = 0 then Inr (False, c1)
                     else bindE (first_move (fill_from_tail tg cu c1) (data_indices c1)) (\<lambda>r.
                            case r of Some c2 \<Rightarrow> Inr (True, c2) | None \<Rightarrow> Inr (False, c1)))))"

fun reorganize_restart :: "nat \<Rightarrow> dw_tag \<Rightarrow> cu \<Rightarrow> class_t \<Rightarrow> fault + class_t" where
  "reorganize_restart 0 tg cu c = Inl Out_Of_Fuel"
| "reorganize_restart (Suc n) tg cu c =
     bindE (reorganize_pass tg cu c) (\<lambda>(again, c1).
       if again then reorganize_restart n tg cu c1 else Inr c1)"

text \<open>\<open>n\<close> bounds the number of passes.\<close>

definition class__reorganize :: "nat \<Rightarrow> dw_tag \<Rightarrow> cu \<Rightarrow> class_t \<Rightarrow> fault + class_t" where
  "class__reorganize n tg cu c = reorganize_restart n tg cu (class__find_holes tg c)"

section \<open>Layouts without bitfields\<close>

definition m_end :: "class_member \<Rightarrow> nat" where
  "m_end m = cm_byte_offset m + cm_byte_size m"

definition plain :: "class_member \<Rightarrow> bool" where
  "plain m \<longleftrightarrow> cm_tag m = DW_TAG_member \<and> \<not> cm_is_static m \<and> cm_bitfield_size m = 0 \<and>
     cm_bitfield_offset m = 0 \<and> cm_bit_offset m = 8 * cm_byte_offset m"

text \<open>A member that fits every hole of its size wherever the code aligns it.\<close>

definition movable :: "nat \<Rightarrow> class_member \<Rightarrow> bool" where
  "movable addr_size m \<longleftrightarrow> plain m \<and> (cm_byte_size m \<le> addr_size \<or> addr_size dvd cm_byte_size m)"

text \<open>From byte \<open>p\<close> on the members follow one another without overlap and end by byte \<open>lim\<close>.\<close>

fun spaced :: "nat \<Rightarrow> nat \<Rightarrow> class_member list \<Rightarrow> bool" where
  "spaced lim p [] \<longleftrightarrow> p \<le> lim"
| "spaced lim p (m # ms) \<longleftrightarrow> p \<le> cm_byte_offset m \<and> spaced lim (m_end m) ms"

text \<open>Every recorded hole is the distance to the next member.\<close>

fun holed :: "class_member list \<Rightarrow> bool" where
  "holed [] \<longleftrightarrow> True"
| "holed [m] \<longleftrightarrow> cm_hole m = 0"
| "holed (m # m' # ms) \<longleftrightarrow> cm_hole m = int (cm_byte_offset m') - int (m_end m) \<and> holed (m' # ms)"

fun with_holes :: "class_member list \<Rightarrow> class_member list" where
  "with_holes [] = []"
| "with_holes [m] = [m\<lparr>cm_hole := 0, cm_bit_hole := 0\<rparr>]"
| "with_holes (m # m' # ms) =
     m\<lparr>cm_hole := int (cm_byte_offset m') - int (m_end m), cm_bit_hole := 0\<rparr> # with_holes (m' # ms)"

text \<open>What a reorganization must keep of a member: all but where it is.\<close>

definition skeleton :: "class_member \<Rightarrow> class_member" where
  "skeleton m = m\<lparr>cm_byte_offset := 0, cm_bit_offset := 0, cm_hole := 0, cm_bit_hole := 0\<rparr>"

lemma spaced_append:
  "spaced lim p (xs @ m # ys) \<longleftrightarrow> spaced (cm_byte_offset m) p xs \<and> spaced lim (m_end m) ys"
  by (induction xs arbitrary: p) auto

lemma spaced_glue: "spaced a p xs \<Longrightarrow> a \<le> b \<Longrightarrow> spaced lim b ys \<Longrightarrow> spaced lim p (xs @ ys)"
proof (induction xs arbitrary: p)
  case Nil
  then show ?case by (cases ys) auto
qed auto

lemma spaced_from: "spaced lim p ms \<Longrightarrow> q \<le> p \<Longrightarrow> spaced lim q ms"
  by (cases ms) auto

lemma spaced_le: "spaced lim p ms \<Longrightarrow> p \<le> lim"
  by (induction ms arbitrary: p) (force simp: m_end_def)+

lemma spaced_bound: "spaced lim p ms \<Longrightarrow> m \<in> set ms \<Longrightarrow> p \<le> cm_byte_offset m \<and> m_end m \<le> lim"
proof (induction ms arbitrary: p)
  case (Cons x ms)
  then show ?case using spaced_le [of lim "m_end x" ms] by (auto simp: m_end_def intro: le_trans) (meson le_add1 le_trans)
qed simp

lemma holed_middle: "holed (xs @ d # y # ys) \<Longrightarrow> cm_hole d = int (cm_byte_offset y) - int (m_end d)"
proof (induction xs)
  case (Cons x xs)
  then show ?case by (cases xs) auto
qed simp

lemma holed_with_holes: "holed (with_holes ms)"
proof (induction ms rule: with_holes.induct)
  case (3 m m' ms)
  then show ?case by (cases ms) (simp_all add: m_end_def)
qed simp_all

lemma with_holes_head: "with_holes (m\<lparr>cm_hole := a, cm_bit_hole := b\<rparr> # ms) = with_holes (m # ms)"
  by (cases ms) (simp_all add: m_end_def)

lemma map_with_holes:
  assumes "\<And>m a b. f (m\<lparr>cm_hole := a, cm_bit_hole := b\<rparr>) = f m"
  shows "map f (with_holes ms) = map f ms"
  by (induction ms rule: with_holes.induct) (simp_all add: assms)

lemma with_holes_keeps:
  "map cm_byte_offset (with_holes ms) = map cm_byte_offset ms" "map m_end (with_holes ms) = map m_end ms"
  "map skeleton (with_holes ms) = map skeleton ms" "map (movable a) (with_holes ms) = map (movable a) ms"
  "length (with_holes ms) = length ms"
  by (simp_all add: map_with_holes m_end_def skeleton_def movable_def plain_def)
    (induction ms rule: with_holes.induct, simp_all)

lemma spaced_cong: "map cm_byte_offset ms = map cm_byte_offset ms' \<Longrightarrow> map m_end ms = map m_end ms' \<Longrightarrow>
    spaced lim p ms = spaced lim p ms'"
proof (induction ms arbitrary: p ms')
  case (Cons m ms)
  from Cons.prems obtain m' ms2 where m': "ms' = m' # ms2" by (cases ms') auto
  from Cons.IH [of ms2 "m_end m'"] Cons.prems(1,2) show ?case unfolding m' by simp
qed simp

lemma ball_map: "map f xs = map f ys \<Longrightarrow> (\<forall>x \<in> set xs. f x) = (\<forall>y \<in> set ys. f y)"
  by (metis (no_types, opaque_lifting) image_iff list.set_map)

section \<open>The search for holes on such layouts\<close>

lemma holes_gap_at_bytes:
  assumes "plain m" "p \<le> cm_byte_offset m" "m_end m < 65536"
  shows "holes_gap \<lparr>hv_last_seen = 8 * p, hv_cur_end = e, hv_cur_size = s, hv_in_bitfield = False\<rparr> m =
    (int (cm_byte_offset m) - int p, 0,
     \<lparr>hv_last_seen = 8 * m_end m, hv_cur_end = 8 * m_end m, hv_cur_size = 0, hv_in_bitfield = False\<rparr>)"
proof -
  have "diff32 (cm_byte_offset m) p = int (cm_byte_offset m) - int p"
    using assms(2,3) by (simp add: diff32_le m_end_def of_nat_diff)
  moreover have "u32 (8 * cm_byte_offset m + cm_byte_size m * 8) = 8 * m_end m"
    using assms(3) by (simp add: m_end_def)
  ultimately show ?thesis
    using assms(1) by (simp add: holes_gap_def plain_def member_bit_end_def Let_def)
qed

lemma find_holes_loop_plain:
  "ty_tags c = map Member (done @ l # ms) \<Longrightarrow> \<forall>m \<in> set ms. plain m \<Longrightarrow> spaced lim (m_end l) ms \<Longrightarrow> lim < 65536 \<Longrightarrow>
   cm_hole l = 0 \<Longrightarrow> cm_bit_hole l = 0 \<Longrightarrow> hv_in_bitfield v = False \<Longrightarrow> hv_last_seen v = 8 * m_end l \<Longrightarrow>
   ty_tags (snd (find_holes_loop [Suc (length done)..<Suc (length done + length ms)] (Some (length done)) v c)) =
     map Member (done @ with_holes (l # ms))"
proof (induction ms arbitrary: c "done" l v)
  case (Cons m ms)
  let ?m0 = "m\<lparr>cm_hole := 0, cm_bit_hole := 0\<rparr>" and ?h = "int (cm_byte_offset m) - int (m_end l)"
  let ?l1 = "l\<lparr>cm_hole := ?h, cm_bit_hole := 0\<rparr>"
  let ?v1 = "\<lparr>hv_last_seen = 8 * m_end m, hv_cur_end = 8 * m_end m, hv_cur_size = 0, hv_in_bitfield = False\<rparr>"
  have m: "plain m" "m_end l \<le> cm_byte_offset m" "m_end m < 65536"
    using Cons.prems(2-4) spaced_le [of lim "m_end m" ms] by auto
  have v: "v = \<lparr>hv_last_seen = 8 * m_end l, hv_cur_end = hv_cur_end v, hv_cur_size = hv_cur_size v, hv_in_bitfield = False\<rparr>"
    using Cons.prems(7,8) by simp
  have gap: "holes_gap v m = (?h, 0, ?v1)"
    by (subst v) (rule holes_gap_at_bytes [OF m])
  have at: "ty_tags c ! Suc (length done) = Member m" "ty_tags c ! length done = Member l"
    using Cons.prems(1) by (simp_all add: nth_append)
  have cnt: "holes_counted (Member m) = Some m"
    using m(1) by (simp add: plain_def)
  define c4 where "c4 =
     (let c1 = c\<lparr>ty_tags := (ty_tags c)[Suc (length done) := set_hole 0 0 (Member m)]\<rparr>;
          c2 = c1\<lparr>ty_tags := (ty_tags c1)[length done := set_hole ?h 0 (ty_tags c1 ! length done)]\<rparr>
      in if ?h > 0 then c2\<lparr>cl_nr_holes := u8 (cl_nr_holes c2 + 1)\<rparr> else c2)"
  have tags: "ty_tags c4 = map Member ((done @ [?l1]) @ ?m0 # ms)"
    using Cons.prems(1) at(2) by (simp add: c4_def Let_def set_hole_def list_update_append nth_append)
  have step: "find_holes_loop [Suc (length done)..<Suc (length done + length (m # ms))] (Some (length done)) v c =
      find_holes_loop [Suc (length (done @ [?l1]))..<Suc (length (done @ [?l1]) + length ms)]
        (Some (length (done @ [?l1]))) ?v1 c4"
    by (simp add: upt_conv_Cons at(1) cnt gap c4_def Let_def del: upt_Suc holes_counted.simps)
  have "ty_tags (snd (find_holes_loop [Suc (length done)..<Suc (length done + length (m # ms))] (Some (length done)) v c)) =
      map Member ((done @ [?l1]) @ with_holes (?m0 # ms))"
    unfolding step using Cons.prems(2-4)
    by (intro Cons.IH [OF tags]) (auto simp: m_end_def)
  then show ?case by (simp add: with_holes_head)
qed simp

lemma find_holes_plain:
  assumes "tag__is_struct tg" "ty_tags c = map Member ms" "\<forall>m \<in> set ms. plain m" "spaced lim 0 ms" "lim < 65536"
    "\<not> cl_holes_searched c"
  shows "ty_tags (class__find_holes tg c) = map Member (with_holes ms)"
proof (cases ms)
  case Nil
  with assms(1,2,6) show ?thesis by (simp add: class__find_holes_def Let_def)
next
  case (Cons m rest)
  let ?m0 = "m\<lparr>cm_hole := 0, cm_bit_hole := 0\<rparr>"
  let ?v0 = "\<lparr>hv_last_seen = 8 * 0, hv_cur_end = u32 (ty_size c * 8), hv_cur_size = 0, hv_in_bitfield = False\<rparr>"
  let ?v1 = "\<lparr>hv_last_seen = 8 * m_end m, hv_cur_end = 8 * m_end m, hv_cur_size = 0, hv_in_bitfield = False\<rparr>"
  define c0 where "c0 = c\<lparr>cl_nr_holes := 0, cl_nr_bit_holes := 0\<rparr>"
  have m: "plain m" "0 \<le> cm_byte_offset m" "m_end m < 65536" "m_end m \<le> lim"
    using assms(3-5) spaced_le [of lim "m_end m" rest] Cons by auto
  have tags0: "ty_tags c0 = Member m # map Member rest" using assms(2) Cons by (simp add: c0_def)
  have cnt: "holes_counted (Member m) = Some m" using m(1) by (simp add: plain_def)
  define c4 where "c4 =
     (let c2 = c0\<lparr>ty_tags := Member ?m0 # map Member rest, cl_pre_hole := nat (u16 (int (cm_byte_offset m) - int 0)),
                 cl_pre_bit_hole := 0\<rparr>
      in if int (cm_byte_offset m) - int 0 > 0 then c2\<lparr>cl_nr_holes := u8 (cl_nr_holes c2 + 1)\<rparr> else c2)"
  have tags: "ty_tags c4 = map Member ([] @ ?m0 # rest)" by (simp add: c4_def Let_def)
  have "find_holes_loop [0..<length (ty_tags c)] None ?v0 c0 =
      find_holes_loop [Suc (length ([] :: class_member list))..<Suc (length ([] :: class_member list) + length rest)]
        (Some (length ([] :: class_member list))) ?v1 c4"
    using holes_gap_at_bytes [OF m(1-3), of "u32 (ty_size c * 8)" 0]
    by (simp add: assms(2) Cons upt_conv_Cons tags0 cnt c4_def Let_def set_hole_def del: upt_Suc holes_counted.simps)
  moreover have "ty_tags (snd \<dots>) = map Member ([] @ with_holes (?m0 # rest))"
    using assms(3-5) Cons by (intro find_holes_loop_plain [OF tags]) (auto simp: m_end_def)
  ultimately have "ty_tags (snd (find_holes_loop [0..<length (ty_tags c)] None ?v0 c0)) = map Member (with_holes ms)"
    by (simp add: with_holes_head Cons)
  then show ?thesis
    using assms(1,6) by (simp add: class__find_holes_def Let_def c0_def split: prod.split) (metis snd_conv)
qed

lemma find_holes_searched: "tag__is_struct tg \<Longrightarrow> cl_holes_searched (class__find_holes tg c)"
  by (simp add: class__find_holes_def Let_def split: prod.split)

section \<open>A move keeps the layout\<close>

lemma slack_fits:
  assumes "0 < fs" "fs \<le> h" "fs \<le> a \<or> a dvd fs" "0 < (a :: nat)"
  shows "h mod (if a < fs then a else fs) + fs \<le> h"
proof -
  define q where "q = (if a < fs then a else fs)"
  have q: "0 < q" "q dvd fs" using assms by (auto simp: q_def)
  then obtain k where k: "fs = q * k" by blast
  have "k \<le> h div q" using assms(2) q(1) unfolding k by (simp add: less_eq_div_iff_mult_less_eq mult.commute)
  then have "q * k \<le> q * (h div q)" by simp
  moreover have "h = q * (h div q) + h mod q" by simp
  ultimately have "h mod q + q * k \<le> h" by linarith
  then show ?thesis unfolding q_def [symmetric] k [symmetric] .
qed

text \<open>\<open>f\<close> goes from behind \<open>ys\<close> into the hole after \<open>d\<close>, at \<open>o'\<close>.\<close>

lemma spaced_move:
  assumes "spaced N p (xs @ d # ys @ f # zs)" "holed (xs @ d # ys @ f # zs)"
    "m_end d \<le> ofs" "int (ofs + cm_byte_size f) \<le> int (m_end d) + cm_hole d"
  shows "spaced N p (xs @ d # place_member ofs f # ys @ zs)" "ofs + cm_byte_size f \<le> cm_byte_offset f"
    "spaced N (cm_byte_offset f) zs' \<Longrightarrow>
      spaced N p (xs @ d # place_member ofs f # ys @ zs')"
proof -
  have s: "spaced (cm_byte_offset d) p xs" "spaced (cm_byte_offset f) (m_end d) ys" "spaced N (m_end f) zs"
    using assms(1) by (simp_all add: spaced_append del: append_Cons)
  have f': "m_end (place_member ofs f) = ofs + cm_byte_size f" by (simp add: place_member_def m_end_def)
  show le: "ofs + cm_byte_size f \<le> cm_byte_offset f"
  proof (cases ys)
    case Nil
    have "cm_hole d = int (cm_byte_offset f) - int (m_end d)"
      using holed_middle [of xs d f zs] assms(2) Nil by simp
    with assms(4) show ?thesis by simp
  next
    case (Cons y ys')
    have "cm_hole d = int (cm_byte_offset y) - int (m_end d)"
      using holed_middle [of xs d y "ys' @ f # zs"] assms(2) Cons by simp
    moreover have "cm_byte_offset y \<le> cm_byte_offset f"
      using spaced_le [of "cm_byte_offset f" "m_end y" ys'] s(2) Cons by (simp add: m_end_def)
    ultimately show ?thesis using assms(4) by simp
  qed
  have mid: "spaced (cm_byte_offset f) (ofs + cm_byte_size f) ys"
  proof (cases ys)
    case Nil
    with le show ?thesis by simp
  next
    case (Cons y ys')
    have "cm_hole d = int (cm_byte_offset y) - int (m_end d)"
      using holed_middle [of xs d y "ys' @ f # zs"] assms(2) Cons by simp
    with s(2) Cons assms(4) show ?thesis by simp
  qed
  have ends: "spaced N p (xs @ d # place_member ofs f # rest)" if "spaced N (ofs + cm_byte_size f) rest" for rest
    using s(1) that assms(3) f' by (simp add: spaced_append) (simp add: place_member_def)
  show "spaced N p (xs @ d # place_member ofs f # ys @ zs)"
    using spaced_glue [OF mid _ s(3)] by (intro ends) (simp add: m_end_def)
  show "spaced N p (xs @ d # place_member ofs f # ys @ zs')" if "spaced N (cm_byte_offset f) zs'"
    using spaced_glue [OF mid _ that] by (intro ends) simp
qed

section \<open>The operations on such layouts\<close>

definition layout_ok :: "nat \<Rightarrow> nat \<Rightarrow> class_t \<Rightarrow> class_member list \<Rightarrow> bool" where
  "layout_ok N a c ms \<longleftrightarrow> ty_tags c = map Member ms \<and> (\<forall>m \<in> set ms. movable a m) \<and> spaced N 0 ms \<and> holed ms"

definition total :: "class_member list \<Rightarrow> nat" where
  "total ms = sum_list (map cm_byte_offset ms)"

definition moved :: "nat \<Rightarrow> nat \<Rightarrow> class_member list \<Rightarrow> class_t \<Rightarrow> bool" where
  "moved N a ms c' \<longleftrightarrow> (\<exists>ms'. layout_ok N a c' ms' \<and> mset (map skeleton ms') = mset (map skeleton ms) \<and> total ms' < total ms)"

lemma layout_reads:
  assumes "ty_tags c = map Member ms"
  shows "i < length ms \<Longrightarrow> cls_member c i = Inr (ms ! i)" "type__members (ty_tags c) = concat (map (ns_member \<circ> Member) ms)"
  using assms by (simp_all add: cls_member_def type__members_def)

lemma layout_scans:
  assumes "layout_ok N a c ms"
  shows "members_after c (Some i) = [Suc i..<length ms]" "data_indices c = [0..<length ms]"
    "type__data_members (ty_tags c) = ms" "type__last_member c = (if ms = [] then None else Some (length ms - 1))"
    "i < length ms \<Longrightarrow> cls_member c i = Inr (ms ! i)"
proof -
  have t: "ty_tags c = map Member ms" and p: "\<forall>m \<in> set ms. plain m"
    using assms by (auto simp: layout_ok_def movable_def)
  have d: "ns_data_member (ty_tags c ! i)" if "i < length ms" for i
    using t p that by (simp add: plain_def)
  show "members_after c (Some i) = [Suc i..<length ms]" "data_indices c = [0..<length ms]"
    using d t by (auto simp: members_after_def data_indices_def intro: filter_True)
  have "type__members (map Member ms) = ms"
    using p by (induction ms) (auto simp: type__members_def plain_def)
  then show "type__data_members (ty_tags c) = ms"
    using p t by (simp add: type__data_members_def plain_def)
  have "filter (\<lambda>i. ns_data_member (ty_tags c ! i)) (rev [0..<length ms]) = rev [0..<length ms]"
    using d by (simp add: filter_id_conv)
  then show "type__last_member c = (if ms = [] then None else Some (length ms - 1))"
    using t by (cases "length ms") (auto simp: type__last_member_def)
  show "i < length ms \<Longrightarrow> cls_member c i = Inr (ms ! i)" using t by (simp add: cls_member_def)
qed

lemma recalc_layout:
  assumes "tag__is_struct tg" "ty_tags c = map Member ms" "\<forall>m \<in> set ms. movable a m" "spaced N 0 ms" "N < 65536"
  shows "layout_ok N a (class__recalc_holes tg c) (with_holes ms)" "total (with_holes ms) = total ms"
    "mset (map skeleton (with_holes ms)) = mset (map skeleton ms)"
proof -
  have "ty_tags (class__recalc_holes tg c) = map Member (with_holes ms)"
    using assms unfolding class__recalc_holes_def by (intro find_holes_plain) (auto simp: movable_def)
  moreover have "\<forall>m \<in> set (with_holes ms). movable a m"
    using assms(3) ball_map [OF with_holes_keeps(4)] by metis
  moreover have "spaced N 0 (with_holes ms)"
    using spaced_cong [OF with_holes_keeps(1,2)] assms(4) by metis
  ultimately show "layout_ok N a (class__recalc_holes tg c) (with_holes ms)"
    by (simp add: layout_ok_def holed_with_holes)
  show "total (with_holes ms) = total ms" "mset (map skeleton (with_holes ms)) = mset (map skeleton ms)"
    by (simp_all only: total_def with_holes_keeps)
qed

lemma fold_upd_member:
  "ty_tags c = map Member (xs @ ys) \<Longrightarrow>
   ty_tags (fold (\<lambda>i c. upd_member c i f) [length xs..<length xs + length ys] c) = map Member (xs @ map f ys)"
proof (induction ys arbitrary: xs c)
  case (Cons y ys)
  let ?c1 = "upd_member c (length xs) f"
  have "ty_tags ?c1 = map Member ((xs @ [f y]) @ ys)"
    using Cons.prems by (simp add: upd_member_def nth_append list_update_append)
  from Cons.IH [OF this] show ?case by (simp add: upt_conv_Cons del: upt_Suc)
qed simp

lemma data_entries:
  assumes "ty_tags c = map Member ms" "\<forall>m \<in> set ms. cm_tag m = DW_TAG_member"
  shows "filter (\<lambda>i. ns_data_member (ty_tags c ! i)) (rev [0..<length (ty_tags c)]) = rev [0..<length (ty_tags c)]"
    "members_after c (Some k) = [Suc k..<length (ty_tags c)]"
  using assms by (simp_all add: members_after_def filter_id_conv)

lemma subtract_offsets_tags:
  assumes "ty_tags c = map Member (xs @ m # ys)" "\<forall>x \<in> set (xs @ m # ys). plain x"
  shows "\<exists>c'. class__subtract_offsets_from c (Some (length xs)) a = Inr c' \<and>
    ty_tags c' = map Member (xs @ m # map (shift_member (- int a)) ys)"
proof -
  have "members_after c (Some (length xs)) = [Suc (length xs)..<length (ty_tags c)]"
    using assms(2) by (intro data_entries(2) [OF assms(1)]) (simp add: plain_def)
  then have after: "members_after c (Some (length xs)) = [length (xs @ [m])..<length (xs @ [m]) + length ys]"
    by (simp add: assms(1))
  have tags: "ty_tags c = map Member ((xs @ [m]) @ ys)" using assms(1) by simp
  define c1 where "c1 = fold (\<lambda>i c. upd_member c i (shift_member (- int a))) (members_after c (Some (length xs))) c"
  have c1: "ty_tags c1 = map Member (xs @ m # map (shift_member (- int a)) ys)"
    using fold_upd_member [OF tags] by (simp add: c1_def after)
  have "\<forall>x \<in> set (xs @ m # map (shift_member (- int a)) ys). cm_tag x = DW_TAG_member"
    using assms(2) by (auto simp: plain_def shift_member_def)
  note data_entries(1) [OF c1 this]
  moreover have "ty_tags c1 \<noteq> []" using c1 by simp
  ultimately obtain l where "type__last_member c1 = Some l" "l < length (ty_tags c1)"
    using c1 by (cases "length (ty_tags c1)") (auto simp: type__last_member_def)
  moreover from this have "\<exists>x. cls_member c1 l = Inr x"
    using layout_reads(1) [OF c1, of l] c1 by auto
  ultimately show ?thesis
    using c1 unfolding class__subtract_offsets_from_def c1_def [symmetric] by (auto simp: Let_def)
qed

lemma place_member_simps [simp]:
  "cm_byte_offset (place_member ofs m) = ofs" "cm_byte_size (place_member ofs m) = cm_byte_size m"
  "skeleton (place_member ofs m) = skeleton m" "skeleton (shift_member d m) = skeleton m"
  by (simp_all add: place_member_def shift_member_def skeleton_def)

lemma movable_place: "movable a m \<Longrightarrow> ofs < 65536 \<Longrightarrow> movable a (place_member ofs m)"
  by (simp add: movable_def plain_def place_member_def)

lemma shift_back:
  assumes "plain m" "b \<le> cm_byte_offset m" "cm_byte_offset m < 65536"
  shows "cm_byte_offset (shift_member (- int b) m) = cm_byte_offset m - b" "plain (shift_member (- int b) m)"
    "cm_byte_size (shift_member (- int b) m) = cm_byte_size m"
proof -
  have "u32 (int (cm_byte_offset m) + - int b) = int (cm_byte_offset m - b)"
    "u32 (int (cm_bit_offset m) + - int b * 8) = int (8 * (cm_byte_offset m - b))"
    using assms by (simp_all add: plain_def of_nat_diff)
  then show "cm_byte_offset (shift_member (- int b) m) = cm_byte_offset m - b" "plain (shift_member (- int b) m)"
    "cm_byte_size (shift_member (- int b) m) = cm_byte_size m"
    using assms(1) by (simp_all add: shift_member_def plain_def)
qed

lemma spaced_shift_back:
  "spaced N (q + b) ms \<Longrightarrow> \<forall>m \<in> set ms. plain m \<Longrightarrow> N < 65536 \<Longrightarrow>
    spaced N q (map (shift_member (- int b)) ms) \<and> total (map (shift_member (- int b)) ms) \<le> total ms \<and>
    (\<forall>m \<in> set ms. b \<le> cm_byte_offset m \<and> cm_byte_offset m < 65536)"
proof (induction ms arbitrary: q)
  case Nil
  then show ?case by (simp add: total_def)
next
  case (Cons m ms)
  have m: "plain m" "b \<le> cm_byte_offset m" "cm_byte_offset m < 65536"
    using Cons.prems spaced_bound [of N "q + b" "m # ms" m] by (auto simp: m_end_def)
  note s = shift_back [OF m]
  have "m_end m = m_end (shift_member (- int b) m) + b" using s m(2) by (simp add: m_end_def)
  with Cons.prems(1) have "spaced N (m_end (shift_member (- int b) m) + b) ms" by simp
  from Cons.IH [OF this] Cons.prems s m show ?case by (auto simp: total_def)
qed

lemma move_done:
  assumes ok: "layout_ok N a c (xs @ d # ys @ f # zs)" and N: "N < 65536" and tg: "tag__is_struct tg"
    and t: "ty_tags c' = map Member (xs @ d # place_member ofs f # ys @ zs')"
    and s: "spaced N 0 (xs @ d # place_member ofs f # ys @ zs')" "ofs < cm_byte_offset f"
    and z: "\<forall>m \<in> set zs'. movable a m" "map skeleton zs' = map skeleton zs" "total zs' \<le> total zs"
  shows "moved N a (xs @ d # ys @ f # zs) (class__recalc_holes tg c')"
proof -
  let ?ms' = "xs @ d # place_member ofs f # ys @ zs'"
  have "cm_byte_offset f < 65536"
    using ok N spaced_bound [of N 0 "xs @ d # ys @ f # zs" f] by (simp add: layout_ok_def m_end_def)
  then have "\<forall>m \<in> set ?ms'. movable a m"
    using ok z(1) s(2) by (auto simp: layout_ok_def intro: movable_place)
  from recalc_layout [OF tg t this s(1) N]
  have r: "layout_ok N a (class__recalc_holes tg c') (with_holes ?ms')" "total (with_holes ?ms') = total ?ms'"
    "mset (map skeleton (with_holes ?ms')) = mset (map skeleton ?ms')" .
  have "total ?ms' < total (xs @ d # ys @ f # zs)" using s(2) z(3) by (simp add: total_def)
  moreover have "mset (map skeleton ?ms') = mset (map skeleton (xs @ d # ys @ f # zs))"
    using arg_cong [OF z(2), of mset] by simp
  ultimately show ?thesis unfolding moved_def using r by (intro exI [of _ "with_holes ?ms'"]) simp
qed

lemma move_after_simp:
  "move_after (Suc (length xs + length ys)) (length xs) (xs @ d # ys @ f # zs) = xs @ d # f # ys @ zs"
  by (simp add: move_after_def Let_def nth_append)

lemma move_ok:
  assumes ok: "layout_ok N (cu_addr_size cu) c (xs @ d # ys @ f # zs)" and N: "N < 65536"
    and tg: "tag__is_struct tg" and a: "0 < cu_addr_size cu"
    and fits: "0 < cm_byte_size f" "int (cm_byte_size f) \<le> cm_hole d" and way: "if pad then zs = [] else ys \<noteq> []"
  shows "\<exists>c'. class__move_member tg cu c (length xs) (Suc (length xs + length ys)) pad = Inr (Some c') \<and>
           moved N (cu_addr_size cu) (xs @ d # ys @ f # zs) c'"
proof -
  let ?ms = "xs @ d # ys @ f # zs" and ?a = "cu_addr_size cu" and ?from = "Suc (length xs + length ys)"
  have sp: "spaced N 0 ?ms" and ho: "holed ?ms" and mv: "\<forall>m \<in> set ?ms. movable ?a m" and t: "ty_tags c = map Member ?ms"
    using ok by (auto simp: layout_ok_def)
  note bd = spaced_bound [OF sp]
  obtain y rest where "ys @ f # zs = y # rest" by (cases "ys @ f # zs") auto
  with ho sp have hd: "cm_hole d < 65536"
    using holed_middle [of xs d y rest] bd [of y] N by (auto simp: m_end_def)
  define sl where "sl = hole_slack ?a d f"
  define ofs where "ofs = m_end d + sl"
  have "sl + cm_byte_size f \<le> nat (cm_hole d)"
    using slack_fits [OF fits(1) _ _ a, of "nat (cm_hole d)"] fits(2) mv hd
    by (auto simp: sl_def hole_slack_def movable_def)
  then have sl: "int (ofs + cm_byte_size f) \<le> int (m_end d) + cm_hole d" using fits(2) by (simp add: ofs_def)
  note sm = spaced_move [OF sp ho _ sl]
  have "ofs < cm_byte_offset f" "cm_byte_offset f + cm_byte_size f < 65536"
    using sm(2) fits(1) bd [of f] N by (auto simp: ofs_def m_end_def)
  note o = this
  then have o16: "u16 (cm_byte_offset d + cm_byte_size d + u16 sl) = ofs" by (simp add: ofs_def m_end_def)
  have cm: "cls_member c ?from = Inr f" "cls_member c (length xs) = Inr d"
    using layout_reads(1) [OF t, of ?from] layout_reads(1) [OF t, of "length xs"] by (simp_all add: nth_append)
  have pf: "cm_bitfield_size f = 0" using mv by (simp add: movable_def plain_def)
  let ?f' = "place_member ofs f"
  define c2 where "c2 = (let c1 = upd_member c ?from (place_member ofs) in c1\<lparr>ty_tags := move_after ?from (length xs) (ty_tags c1)\<rparr>)"
  have "ty_tags (upd_member c ?from (place_member ofs)) = map Member xs @ Member d # map Member ys @ Member ?f' # map Member zs"
    by (simp add: upd_member_def t nth_append list_update_append)
  then have t2: "ty_tags c2 = map Member (xs @ d # ?f' # ys @ zs)"
    using move_after_simp [of "map Member xs" "map Member ys" "Member d" "Member ?f'" "map Member zs"]
    by (simp add: c2_def Let_def)
  have keep: "moved N ?a ?ms (class__recalc_holes tg c3)" if "ty_tags c3 = ty_tags c2" for c3
    using mv sm(1) that t2 o by (intro move_done [OF ok N tg]) (auto simp: ofs_def)
  have shift: "\<exists>c3. class__subtract_offsets_from (add_size c2 (- int ?a)) (Some ?from) ?a = Inr c3 \<and>
      moved N ?a ?ms (class__recalc_holes tg c3)"
    if ne: "ys \<noteq> []" "zs \<noteq> []" "nat (u16 (cm_hole f)) + cm_byte_size f \<ge> ?a"
  proof -
    let ?zs' = "map (shift_member (- int ?a)) zs"
    have glue: "(xs @ d # ?f' # butlast ys) @ last ys # r = xs @ d # ?f' # ys @ r" for r
      using append_butlast_last_id [OF ne(1)] by (metis append_Cons append_Nil append_assoc)
    have tt: "ty_tags (add_size c2 (- int ?a)) = map Member ((xs @ d # ?f' # butlast ys) @ last ys # zs)"
      unfolding glue using t2 by (simp add: add_size_def)
    have pl: "\<forall>x \<in> set ((xs @ d # ?f' # butlast ys) @ last ys # zs). plain x"
      using mv o movable_place [of ?a f ofs] ne(1) by (auto simp: movable_def dest: in_set_butlastD)
    have li: "length (xs @ d # ?f' # butlast ys) = ?from" using ne(1) by simp
    from subtract_offsets_tags [OF tt pl, of ?a] obtain c3 where
      c3: "class__subtract_offsets_from (add_size c2 (- int ?a)) (Some ?from) ?a = Inr c3"
        "ty_tags c3 = map Member (xs @ d # ?f' # ys @ ?zs')" unfolding li glue by blast
    obtain z zs1 where z: "zs = z # zs1" using ne(2) by (cases zs) auto
    have "cm_hole f = int (cm_byte_offset z) - int (m_end f)"
      using holed_middle [of "xs @ d # ys" f z zs1] ho z by simp
    moreover have "m_end f \<le> cm_byte_offset z" "spaced N (m_end z) zs1" "m_end z < 65536"
      using sp z N bd [of z] by (simp_all add: spaced_append del: append_Cons)
    ultimately have sz: "spaced N (cm_byte_offset f + ?a) zs"
      using ne(3) z by (auto simp: m_end_def)
    have "\<forall>m \<in> set zs. plain m" using mv by (auto simp: movable_def)
    note sb = spaced_shift_back [OF sz this N]
    have "moved N ?a ?ms (class__recalc_holes tg c3)"
    proof (rule move_done [OF ok N tg c3(2)])
      show "spaced N 0 (xs @ d # ?f' # ys @ ?zs')" using sb by (intro sm(3)) (auto simp: ofs_def)
      show "ofs < cm_byte_offset f" by (rule o)
      show "\<forall>m \<in> set ?zs'. movable ?a m"
        using mv sb shift_back by (auto simp: movable_def)
      show "map skeleton ?zs' = map skeleton zs" by simp
      show "total ?zs' \<le> total zs" using sb by simp
    qed
    with c3(1) show ?thesis by blast
  qed
  have lst: "(Suc ?from = length (ty_tags c)) = (zs = [])" by (simp add: t)
  show ?thesis
    using way cm pf fits(1) a shift keep lst
    unfolding class__move_member_def
    by (auto simp: Let_def o16 sl_def [symmetric] c2_def add_size_def)
qed

section \<open>The searches and a pass\<close>

lemma holed_last: "holed (xs @ [m]) \<Longrightarrow> cm_hole m = 0"
proof (induction xs)
  case (Cons x xs)
  then show ?case by (cases xs) auto
qed simp

lemma hole_range:
  assumes "layout_ok N a c ms" "N < 65536" "i < length ms"
  shows "0 \<le> cm_hole (ms ! i)" "cm_hole (ms ! i) < 65536"
proof -
  have sp: "spaced N 0 ms" and ho: "holed ms" using assms(1) by (auto simp: layout_ok_def)
  have "0 \<le> cm_hole (ms ! i) \<and> cm_hole (ms ! i) < 65536"
  proof (cases "drop (Suc i) ms")
    case Nil
    then have ms: "take i ms @ [ms ! i] = ms" using assms(3) by (metis id_take_nth_drop)
    have "holed (take i ms @ [ms ! i])" by (subst ms) (rule ho)
    from holed_last [OF this] show ?thesis by simp
  next
    case (Cons y ys)
    then have ms: "ms = take i ms @ ms ! i # y # ys" using assms(3) by (metis id_take_nth_drop)
    with ho have "cm_hole (ms ! i) = int (cm_byte_offset y) - int (m_end (ms ! i))" by (metis holed_middle)
    moreover have "m_end (ms ! i) \<le> cm_byte_offset y" using sp ms by (metis spaced.simps(2) spaced_append)
    moreover have "y \<in> set (drop (Suc i) ms)" using Cons by simp
    then have "y \<in> set ms" by (rule in_set_dropD)
    then have "cm_byte_offset y < 65536" using spaced_bound [OF sp] assms(2) by (fastforce simp: m_end_def)
    ultimately show ?thesis by linarith
  qed
  then show "0 \<le> cm_hole (ms ! i)" "cm_hole (ms ! i) < 65536" by auto
qed

lemma move_at:
  assumes ok: "layout_ok N (cu_addr_size cu) c ms" and N: "N < 65536" "tag__is_struct tg" "0 < cu_addr_size cu"
    and ij: "i < j" "j < length ms" and fits: "0 < cm_byte_size (ms ! j)" "cm_byte_size (ms ! j) \<le> nat (u64 (cm_hole (ms ! i)))"
    and way: "if pad then Suc j = length ms else Suc i < j"
  shows "\<exists>c'. class__move_member tg cu c i j pad = Inr (Some c') \<and> moved N (cu_addr_size cu) ms c'"
proof -
  let ?ys = "take (j - Suc i) (drop (Suc i) ms)"
  have "drop (Suc i) ms = ?ys @ drop (j - Suc i) (drop (Suc i) ms)" by (rule append_take_drop_id [symmetric])
  also have "drop (j - Suc i) (drop (Suc i) ms) = ms ! j # drop (Suc j) ms"
    using ij by (simp add: Cons_nth_drop_Suc)
  finally have "drop (Suc i) ms = ?ys @ ms ! j # drop (Suc j) ms" .
  moreover have "ms = take i ms @ ms ! i # drop (Suc i) ms" using ij by (simp add: id_take_nth_drop)
  ultimately have ms: "ms = take i ms @ ms ! i # ?ys @ ms ! j # drop (Suc j) ms" by metis
  have l: "length (take i ms) = i" "Suc (i + length ?ys) = j" using ij by auto
  have way': "if pad then drop (Suc j) ms = [] else ?ys \<noteq> []" using way ij by auto
  have fits': "int (cm_byte_size (ms ! j)) \<le> cm_hole (ms ! i)"
    using hole_range [OF ok N(1), of i] ij fits by simp
  show ?thesis
    using move_ok [of N cu c "take i ms" "ms ! i" ?ys "ms ! j" "drop (Suc j) ms" tg pad,
        folded ms, unfolded l, OF ok N fits(1) fits' way'] .
qed

lemma next_hole_ok:
  assumes "layout_ok N a c ms"
  shows "\<forall>i \<in> set is. i < length ms \<Longrightarrow> \<exists>r. next_hole_loop c is None sz = Inr r \<and>
    (\<forall>j. r = Some j \<longrightarrow> j \<in> set is \<and> 0 < cm_byte_size (ms ! j) \<and> cm_byte_size (ms ! j) \<le> sz)"
proof (induction "is")
  case (Cons i "is")
  have "cm_bitfield_size (ms ! i) = 0"
    using assms Cons.prems by (auto simp: layout_ok_def movable_def plain_def)
  with Cons layout_scans(5) [OF assms, of i] show ?case by auto
qed simp

lemma last_of_size_ok:
  assumes "layout_ok N a c ms"
  shows "dest < k \<Longrightarrow> k \<le> length ms \<Longrightarrow> \<exists>r. last_of_size_loop c (rev [0..<k]) dest sz = Inr r \<and>
    (\<forall>j. r = Some j \<longrightarrow> dest < j \<and> j < k \<and> 0 < cm_byte_size (ms ! j) \<and> cm_byte_size (ms ! j) \<le> sz)"
proof (induction k)
  case (Suc k)
  have "cm_bitfield_size (ms ! k) = 0"
    using assms Suc.prems by (auto simp: layout_ok_def movable_def plain_def)
  with Suc layout_scans(5) [OF assms, of k] show ?case
    by (cases "k = dest") (auto simp: less_Suc_eq)
qed simp

lemma first_move_ok:
  assumes "\<forall>i \<in> set is. \<exists>r. f i = Inr r \<and> (\<forall>c'. r = Some c' \<longrightarrow> P c')"
  shows "\<exists>r. first_move f is = Inr r \<and> (\<forall>c'. r = Some c' \<longrightarrow> P c')"
  using assms
proof (induction "is")
  case (Cons i "is")
  then obtain r where "f i = Inr r" "\<forall>c'. r = Some c' \<longrightarrow> P c'" by auto
  with Cons show ?case by (cases r) auto
qed simp

lemma fill_from_tail_ok:
  assumes ok: "layout_ok N (cu_addr_size cu) c ms" and env: "N < 65536" "tag__is_struct tg" "0 < cu_addr_size cu"
    and i: "i < length ms"
  shows "\<exists>r. fill_from_tail tg cu c i = Inr r \<and> (\<forall>c'. r = Some c' \<longrightarrow> moved N (cu_addr_size cu) ms c')"
proof -
  from last_of_size_ok [OF ok i order_refl] obtain r where
    r: "class__find_last_member_of_size c i (nat (u64 (cm_hole (ms ! i)))) = Inr r"
      "\<forall>j. r = Some j \<longrightarrow> i < j \<and> j < length ms \<and> 0 < cm_byte_size (ms ! j) \<and>
         cm_byte_size (ms ! j) \<le> nat (u64 (cm_hole (ms ! i)))"
    unfolding class__find_last_member_of_size_def layout_scans(2) [OF ok] by blast
  show ?thesis
  proof (cases r)
    case (Some j)
    with r(2) have j: "i < j" "j < length ms" "0 < cm_byte_size (ms ! j)"
      "cm_byte_size (ms ! j) \<le> nat (u64 (cm_hole (ms ! i)))" by auto
    show ?thesis
      using move_at [OF ok env j, of False] j(1) Some
      by (cases "j = Suc i") (auto simp: fill_from_tail_def layout_scans(5) [OF ok i] r(1))
  qed (simp add: fill_from_tail_def layout_scans(5) [OF ok i] r(1))
qed

lemma combine_holes_ok:
  assumes ok: "layout_ok N (cu_addr_size cu) c ms" and env: "N < 65536" "tag__is_struct tg" "0 < cu_addr_size cu"
    and i: "i < length ms"
    and l: "l = length ms - 1"
  shows "\<exists>r. combine_holes tg cu l c i = Inr r \<and> (\<forall>c'. r = Some c' \<longrightarrow> moved N (cu_addr_size cu) ms c')"
proof -
  have "\<forall>j \<in> set [Suc i..<length ms]. j < length ms" by simp
  from next_hole_ok [OF ok this] obtain r where
    r: "class__find_next_hole_of_size c i (nat (u64 (cm_hole (ms ! i)))) = Inr r"
      "\<forall>j. r = Some j \<longrightarrow> i < j \<and> j < length ms \<and> 0 < cm_byte_size (ms ! j) \<and>
         cm_byte_size (ms ! j) \<le> nat (u64 (cm_hole (ms ! i)))"
    unfolding class__find_next_hole_of_size_def layout_scans(1) [OF ok] by (metis Suc_le_eq atLeastLessThan_iff set_upt)
  have "\<exists>m. (case r of None \<Rightarrow> Inr None | Some b \<Rightarrow> if b = Suc i then Inr None else class__move_member tg cu c i b False) = Inr m \<and>
      (\<forall>c'. m = Some c' \<longrightarrow> moved N (cu_addr_size cu) ms c')"
  proof (cases r)
    case (Some j)
    with r(2) have j: "i < j" "j < length ms" "0 < cm_byte_size (ms ! j)"
      "cm_byte_size (ms ! j) \<le> nat (u64 (cm_hole (ms ! i)))" by auto
    show ?thesis using move_at [OF ok env j, of False] j(1) Some by (cases "j = Suc i") auto
  qed simp
  then obtain m where m: "(case r of None \<Rightarrow> Inr None | Some b \<Rightarrow> if b = Suc i then Inr None else class__move_member tg cu c i b False) = Inr m"
    "\<forall>c'. m = Some c' \<longrightarrow> moved N (cu_addr_size cu) ms c'" by blast
  have lm: "cls_member c l = Inr (ms ! l)" using i by (simp add: layout_scans(5) [OF ok] l)
  have pad: "\<exists>c'. class__move_member tg cu c i l True = Inr (Some c') \<and> moved N (cu_addr_size cu) ms c'"
    if "i \<noteq> l" "cm_byte_size (ms ! l) \<noteq> 0" "cm_byte_size (ms ! l) \<le> nat (u64 (cm_hole (ms ! i)))"
    using that i l by (intro move_at [OF ok env]) auto
  show ?thesis
  proof (cases m)
    case None
    with m(1) pad show ?thesis by (auto simp: combine_holes_def layout_scans(5) [OF ok i] r(1) lm)
  next
    case (Some c')
    with m show ?thesis by (simp add: combine_holes_def layout_scans(5) [OF ok i] r(1))
  qed
qed

lemma fix_padding_ok: "layout_ok N a (fix_padding b l c) ms \<longleftrightarrow> layout_ok N a c ms"
  by (simp add: fix_padding_def Let_def layout_ok_def)

lemma reorganize_pass_ok:
  assumes ok: "layout_ok N (cu_addr_size cu) c ms" and env: "N < 65536" "tag__is_struct tg" "0 < cu_addr_size cu"
  shows "\<exists>again c'. reorganize_pass tg cu c = Inr (again, c') \<and>
    (if again then moved N (cu_addr_size cu) ms c' else layout_ok N (cu_addr_size cu) c' ms)"
proof (cases "ms = []")
  case True
  with ok layout_scans(4) [OF ok] show ?thesis by (intro exI [of _ False] exI [of _ c]) (simp add: reorganize_pass_def)
next
  case False
  obtain l where l: "l = length ms - 1" by blast
  with False have last: "type__last_member c = Some l" "l < length ms"
    using layout_scans(4) [OF ok] by auto
  define c1 where "c1 = fix_padding (cu_addr_size cu) (ms ! l) c"
  have ok1: "layout_ok N (cu_addr_size cu) c1 ms" using ok by (simp add: c1_def fix_padding_ok)
  note d = layout_scans(2) [OF ok1]
  obtain r1 where r1: "first_move (combine_holes tg cu l c1) (data_indices c1) = Inr r1"
    "\<forall>c'. r1 = Some c' \<longrightarrow> moved N (cu_addr_size cu) ms c'"
    using first_move_ok [of "data_indices c1" "combine_holes tg cu l c1" "moved N (cu_addr_size cu) ms"]
      combine_holes_ok [OF ok1 env _ l] d by auto
  obtain r2 where r2: "first_move (fill_from_tail tg cu c1) (data_indices c1) = Inr r2"
    "\<forall>c'. r2 = Some c' \<longrightarrow> moved N (cu_addr_size cu) ms c'"
    using first_move_ok [of "data_indices c1" "fill_from_tail tg cu c1" "moved N (cu_addr_size cu) ms"]
      fill_from_tail_ok [OF ok1 env] d by auto
  have pass: "reorganize_pass tg cu c =
      (case r1 of Some c2 \<Rightarrow> Inr (True, c2)
       | None \<Rightarrow> if cl_nr_holes c1 = 0 then Inr (False, c1)
                else (case r2 of Some c2 \<Rightarrow> Inr (True, c2) | None \<Rightarrow> Inr (False, c1)))"
    using last(1) layout_scans(5) [OF ok last(2)] r1(1) r2(1)
    by (simp add: reorganize_pass_def Let_def c1_def [symmetric] split: option.split)
  show ?thesis
  proof (cases r1)
    case None
    with r2(2) ok1 show ?thesis unfolding pass by (cases r2) auto
  next
    case (Some c2)
    with r1(2) show ?thesis unfolding pass by auto
  qed
qed

lemma reorganize_restart_ok:
  assumes env: "N < 65536" "tag__is_struct tg" "0 < cu_addr_size cu"
  shows "layout_ok N (cu_addr_size cu) c ms \<Longrightarrow> total ms < n \<Longrightarrow>
    \<exists>c' ms'. reorganize_restart n tg cu c = Inr c' \<and> layout_ok N (cu_addr_size cu) c' ms' \<and>
      mset (map skeleton ms') = mset (map skeleton ms) \<and> total ms' \<le> total ms"
proof (induction n arbitrary: c ms)
  case (Suc n)
  from reorganize_pass_ok [OF Suc.prems(1) env] obtain again c1 where
    c1: "reorganize_pass tg cu c = Inr (again, c1)"
      "if again then moved N (cu_addr_size cu) ms c1 else layout_ok N (cu_addr_size cu) c1 ms" by blast
  show ?case
  proof (cases again)
    case True
    with c1(2) obtain ms1 where
      m: "layout_ok N (cu_addr_size cu) c1 ms1" "mset (map skeleton ms1) = mset (map skeleton ms)" "total ms1 < total ms"
      by (auto simp: moved_def)
    have "total ms1 < n" using m(3) Suc.prems(2) by simp
    from Suc.IH [OF m(1) this] m(2,3) True c1(1) show ?thesis by fastforce
  next
    case False
    with c1 show ?thesis by auto
  qed
qed simp

section \<open>Properties\<close>

text \<open>C11: on a structure without bitfields whose members do not overlap and each fit a hole of their
  size (they are at most an address or a multiple of one), \<open>class__reorganize\<close> ends, after at most
  as many restarts as the member offsets sum to.  It only permutes and moves the members: they
  are the same members, still without overlap and within the same bytes, none of the holes it
  records is wrong, and the offsets have not grown.\<close>

theorem class_reorganize_spec:
  assumes "tag__is_struct tg" "0 < cu_addr_size cu" "N < 65536"
    and c: "ty_tags c = map Member ms" "\<forall>m \<in> set ms. movable (cu_addr_size cu) m" "spaced N 0 ms"
      "cl_holes_searched c \<longrightarrow> holed ms"
    and n: "sum_list (map cm_byte_offset ms) < n"
  shows "\<exists>c' ms'. class__reorganize n tg cu c = Inr c' \<and> ty_tags c' = map Member ms' \<and>
    mset (map skeleton ms') = mset (map skeleton ms) \<and> spaced N 0 ms' \<and> holed ms' \<and>
    sum_list (map cm_byte_offset ms') \<le> sum_list (map cm_byte_offset ms)"
proof -
  let ?a = "cu_addr_size cu"
  obtain ms1 where ms1: "layout_ok N ?a (class__find_holes tg c) ms1" "total ms1 = total ms"
    "mset (map skeleton ms1) = mset (map skeleton ms)"
  proof (cases "cl_holes_searched c")
    case True
    then have "layout_ok N ?a (class__find_holes tg c) ms"
      using c by (simp add: class__find_holes_def layout_ok_def)
    then show ?thesis using that by blast
  next
    case False
    then have "c\<lparr>cl_holes_searched := False\<rparr> = c" by (cases c) simp
    then have "class__find_holes tg c = class__recalc_holes tg c" by (simp add: class__recalc_holes_def)
    with recalc_layout [OF assms(1) c(1-3) assms(3)] that show ?thesis by metis
  qed
  from ms1(2) n have "total ms1 < n" by (simp add: total_def)
  from reorganize_restart_ok [OF assms(3,1,2) ms1(1) this] obtain c' ms' where
    "reorganize_restart n tg cu (class__find_holes tg c) = Inr c'" "layout_ok N ?a c' ms'"
    "mset (map skeleton ms') = mset (map skeleton ms1)" "total ms' \<le> total ms1" by blast
  with ms1(2,3) show ?thesis by (auto simp: class__reorganize_def layout_ok_def total_def)
qed

text \<open>\<open>struct { char a; long b; char c; int d; short e; }\<close>\<close>

definition sample_members :: "class_member list" where
  "sample_members =
     [sample_member ''a'' 0 1 1, sample_member ''b'' 8 8 2, sample_member ''c'' 16 1 1,
      sample_member ''d'' 20 4 3, sample_member ''e'' 24 2 4]"

theorem class_reorganize_spec_witness:
  "\<exists>c' ms'. class__reorganize 69 DW_TAG_structure_type (cu_zero\<lparr>cu_addr_size := 8\<rparr>)
       (class_zero\<lparr>ty_size := 32, ty_tags := map Member sample_members\<rparr>) = Inr c' \<and>
     ty_tags c' = map Member ms' \<and> mset (map skeleton ms') = mset (map skeleton sample_members)"
proof -
  let ?cu = "cu_zero\<lparr>cu_addr_size := 8\<rparr>"
    and ?c = "class_zero\<lparr>ty_size := 32, ty_tags := map Member sample_members\<rparr>"
  have "tag__is_struct DW_TAG_structure_type" "0 < cu_addr_size ?cu" "(32 :: nat) < 65536"
    "ty_tags ?c = map Member sample_members" by (simp_all add: tag_defs)
  moreover have "\<forall>m \<in> set sample_members. movable (cu_addr_size ?cu) m" "spaced 32 0 sample_members"
    "cl_holes_searched ?c \<longrightarrow> holed sample_members" "sum_list (map cm_byte_offset sample_members) < 69"
    by (simp_all add: sample_members_def sample_member_def movable_def plain_def m_end_def class_zero_def)
  ultimately show ?thesis using class_reorganize_spec [of DW_TAG_structure_type ?cu 32 ?c sample_members 69] by blast
qed

section \<open>Where the code falls short\<close>

definition two_members :: "class_member list" where
  "two_members = [sample_member ''a'' 0 4 1, sample_member ''b'' 4 1 2]"

lemma upt_small: "[0..<2] = [0, Suc 0]" "[0..<3] = [0, Suc 0, 2]"
  by (simp_all add: numeral_2_eq_2 numeral_3_eq_3)

lemma two_members_holes:
  "class__find_holes DW_TAG_structure_type (class_zero\<lparr>ty_size := 8, ty_tags := map Member two_members\<rparr>) =
   class_zero\<lparr>ty_size := 8, ty_tags := map Member two_members, cl_padding := 3, cl_holes_searched := True\<rparr>"
  unfolding class__find_holes_def two_members_def
  by (simp add: tag_defs set_hole_def holes_gap_def member_bit_end_def diff32_def s32_def
     sample_member_def class_zero_def upt_small)

text \<open>\<open>struct { int a; char b; }\<close> has size 8, its reorganization 12.\<close>

lemma reorganize_grows:
  "map_sum id ty_size (class__reorganize (Suc 0) DW_TAG_structure_type (cu_zero\<lparr>cu_addr_size := 8\<rparr>)
     (class_zero\<lparr>ty_size := 8, ty_tags := map Member two_members\<rparr>)) = Inr 12"
  unfolding class__reorganize_def two_members_holes
  by (simp add: two_members_def sample_member_def class_zero_def reorganize_pass_def Let_def
    type__last_member_def cls_member_def fix_padding_def type__data_members_def type__members_def
    data_indices_def combine_holes_def upt_small)

text \<open>
  The 10 bytes of a member put into a hole of 12 bytes after \<open>a\<close> would start 4 bytes into it and
  end 2 bytes beyond it: the premise on the sizes in the property above is needed.
\<close>

lemma move_overlaps:
  "hole_slack 8 (sample_member ''a'' 0 4 1\<lparr>cm_hole := 12\<rparr>) (sample_member ''c'' 32 10 3) + 10 > 12"
  by (simp add: hole_slack_def sample_member_def)

end
