(* ===== verification/Languages.thy ===== *)
theory Languages
  imports Cu
begin

text \<open>
  Source languages (\<open>dwarves.c\<close>): their names and numbers, parsing the list given to
  \<open>--lang\<close> and \<open>--lang_exclude\<close>, and the filter it makes of compilation units.
\<close>

definition DW_LANG_Mips_Assembler :: int where
  "DW_LANG_Mips_Assembler = 32769"

text \<open>The designated initializers of the array \<open>languages\<close>; other elements are NULL.\<close>

definition languages_table :: "(nat \<times> string) list" where
  "languages_table =
     [(3, ''ada83''), (13, ''ada95''), (37, ''bliss''), (29, ''c11''), (1, ''c89''), (12, ''c99''), (2, ''c''),
      (5, ''cobol74''), (6, ''cobol85''), (25, ''c++03''), (26, ''c++11''), (33, ''c++14''), (4, ''c++''),
      (19, ''d''), (32, ''dylan''), (34, ''fortran03''), (35, ''fortran08''), (7, ''fortran77''),
      (8, ''fortran90''), (14, ''fortran95''), (22, ''go''), (24, ''haskell''), (11, ''java''), (31, ''julia''),
      (10, ''modula2''), (23, ''modula3''), (16, ''objc''), (17, ''objc++''), (27, ''ocaml''), (21, ''opencl''),
      (9, ''pascal83''), (15, ''pli''), (20, ''python''), (36, ''renderscript''), (28, ''rust''), (30, ''swift''),
      (18, ''upc'')]"

definition lang__int2str :: "int \<Rightarrow> string" where
  "lang__int2str i =
     (let lang = (if 0 \<le> i \<and> i < 38 then map_of languages_table (nat i) else None)
      in if \<not> (0 \<le> i \<and> i < 38) \<and> i = DW_LANG_Mips_Assembler then ''asm''
         else case lang of None \<Rightarrow> ''UNKNOWN'' | Some l \<Rightarrow> l)"

definition lang__str2int :: "string \<Rightarrow> int" where
  "lang__str2int lang =
     (if c_strcaseeq lang ''asm'' then DW_LANG_Mips_Assembler
      else
        case find (\<lambda>i. case map_of languages_table i of None \<Rightarrow> False | Some l \<Rightarrow> c_strcaseeq lang l) [1..<38] of
          None \<Rightarrow> -1
        | Some i \<Rightarrow> int i)"

definition lang_id_cmp :: "int \<Rightarrow> int \<Rightarrow> int" where
  "lang_id_cmp a b = s32 (a - b)"

record languages =
  lg_str :: "string option"
  lg_entries :: "int list option"
  lg_nr_entries :: nat
  lg_exclude :: bool

text \<open>
  The loop of \<open>languages__parse\<close>: \<open>arr\<close> is the array of \<open>nr_allocated\<close> ints, \<open>nr\<close> the number in
  use, \<open>junk\<close> what grown memory holds.  The result \<open>None\<close> is either error exit.
\<close>

definition put_entry :: "heap_env \<Rightarrow> (nat \<Rightarrow> int) \<Rightarrow> int list \<Rightarrow> nat \<Rightarrow> int \<Rightarrow> fault + int list option" where
  "put_entry h junk arr nr i =
     (if nr \<ge> length arr \<and> \<not> avail h (length arr * 2 * 4) then Inr None
      else
        let arr' = (if nr \<ge> length arr then arr @ map junk [length arr..<length arr * 2] else arr)
        in if nr < length arr' then Inr (Some (arr'[nr := i])) else Inl Out_Of_Bounds)"

function parse_loop ::
  "heap_env \<Rightarrow> (nat \<Rightarrow> int) \<Rightarrow> string \<Rightarrow> int list \<Rightarrow> nat \<Rightarrow> fault + (int list \<times> nat) option" where
  "parse_loop h junk lang arr nr =
     (case cut_at (CHR '','') lang of (word, rest) \<Rightarrow>
        let i = lang__str2int word
        in if i < 0 then Inr None
           else
             bindE (put_entry h junk arr nr i) (\<lambda>r.
               case r of
                 None \<Rightarrow> Inr None
               | Some arr' \<Rightarrow>
                   (case rest of
                      None \<Rightarrow> Inr (Some (arr', nr + 1))
                    | Some lang' \<Rightarrow> parse_loop h junk lang' arr' (nr + 1))))"
  by pat_completeness auto
termination
  by (relation "measure (\<lambda>(h, junk, lang, arr, nr). length lang)") (auto dest: cut_at_length [OF sym])

declare parse_loop.simps [simp del]

text \<open>\<open>qsort\<close> with \<open>lang_id_cmp\<close>: equal elements are equal ints, so the result is the sorted list.\<close>

definition languages__parse :: "heap_env \<Rightarrow> (nat \<Rightarrow> int) \<Rightarrow> languages \<Rightarrow> fault + int \<times> languages" where
  "languages__parse h junk l =
     (let failed = (-1, l\<lparr>lg_entries := None, lg_nr_entries := 0\<rparr>)
      in case lg_str l of
           None \<Rightarrow> if avail h 16 then Inl Null_Deref else Inr failed
         | Some s \<Rightarrow>
             if \<not> avail h 16 then Inr failed
             else
               bindE (parse_loop h junk s (replicate 4 0) (lg_nr_entries l)) (\<lambda>r.
                 case r of
                   None \<Rightarrow> Inr failed
                 | Some (arr, nr) \<Rightarrow>
                     Inr (0, l\<lparr>lg_entries := Some (sort (take nr arr) @ drop nr arr), lg_nr_entries := nr\<rparr>)))"

text \<open>\<open>bsearch\<close> between the indices \<open>lo\<close> and \<open>hi\<close>.\<close>

function c_bsearch :: "int \<Rightarrow> int list \<Rightarrow> nat \<Rightarrow> nat \<Rightarrow> bool" where
  "c_bsearch key xs lo hi =
     (if lo < hi then
        let i = (lo + hi) div 2; c = lang_id_cmp key (xs ! i)
        in if c < 0 then c_bsearch key xs lo i
           else if c > 0 then c_bsearch key xs (i + 1) hi
           else True
      else False)"
  by pat_completeness auto
termination by (relation "measure (\<lambda>(key, xs, lo, hi). hi - lo)") auto

declare c_bsearch.simps [simp del]

definition languages__in :: "languages \<Rightarrow> int \<Rightarrow> bool" where
  "languages__in l lang =
     (case lg_entries l of None \<Rightarrow> False | Some xs \<Rightarrow> c_bsearch lang xs 0 (lg_nr_entries l))"

definition languages__init ::
  "heap_env \<Rightarrow> (nat \<Rightarrow> int) \<Rightarrow> (string \<Rightarrow> string option) \<Rightarrow> languages \<Rightarrow> fault + int \<times> languages" where
  "languages__init h junk getenv l =
     (case lg_str l of
        Some s \<Rightarrow> languages__parse h junk l
      | None \<Rightarrow>
          (case getenv ''PAHOLE_LANG_EXCLUDE'' of
             None \<Rightarrow> Inr (0, l)
           | Some s \<Rightarrow> languages__parse h junk (l\<lparr>lg_str := Some s, lg_exclude := True\<rparr>)))"

definition languages__cu_filtered :: "languages \<Rightarrow> cu \<Rightarrow> bool" where
  "languages__cu_filtered l cu =
     (if lg_nr_entries l = 0 then False
      else let here = languages__in l (int (cu_language cu))
           in (\<not> here \<and> \<not> lg_exclude l) \<or> (here \<and> lg_exclude l))"

section \<open>Binary search\<close>

lemma bsearch_iff:
  "sorted (take hi xs) \<Longrightarrow> hi \<le> length xs \<Longrightarrow> \<forall>x \<in> set (take hi xs). \<bar>x\<bar> < 1073741824 \<Longrightarrow> \<bar>key\<bar> < 1073741824 \<Longrightarrow>
   c_bsearch key xs lo hi \<longleftrightarrow> (\<exists>i. lo \<le> i \<and> i < hi \<and> xs ! i = key)"
proof (induction key xs lo hi rule: c_bsearch.induct)
  case (1 key xs lo hi)
  show ?case
  proof (cases "lo < hi")
    case False
    then show ?thesis by (simp add: c_bsearch.simps)
  next
    case True
    define i where "i = (lo + hi) div 2"
    have i: "lo \<le> i" "i < hi" using True by (auto simp: i_def)
    then have m: "xs ! i \<in> set (take hi xs)" using "1.prems"(2) by (auto simp: in_set_conv_nth)
    then have c: "lang_id_cmp key (xs ! i) = key - xs ! i"
      using "1.prems"(3,4) by (fastforce simp: lang_id_cmp_def intro!: s32_id)
    have le: "xs ! a \<le> xs ! b" if "a \<le> b" "b < hi" for a b
      using sorted_nth_mono [OF "1.prems"(1) that(1)] that "1.prems"(2) by simp
    have sub: "sorted (take i xs)" "set (take i xs) \<subseteq> set (take hi xs)"
      using "1.prems"(1) i sorted_wrt_take [of "(\<le>)" "take hi xs" i] by (auto simp: min_def set_take_subset_set_take)
    consider "key < xs ! i" | "key > xs ! i" | "key = xs ! i" by linarith
    then show ?thesis
    proof cases
      case 1
      then have "c_bsearch key xs lo hi = c_bsearch key xs lo i"
        using True c by (subst c_bsearch.simps) (simp add: Let_def i_def)
      also have "\<dots> \<longleftrightarrow> (\<exists>j. lo \<le> j \<and> j < i \<and> xs ! j = key)"
        using "1.IH"(1) [OF True i_def] 1 c sub "1.prems" i by auto
      also have "\<dots> \<longleftrightarrow> (\<exists>j. lo \<le> j \<and> j < hi \<and> xs ! j = key)"
        using le 1 i by (metis leD linorder_le_less_linear order.strict_trans)
      finally show ?thesis .
    next
      case 2
      then have "c_bsearch key xs lo hi = c_bsearch key xs (i + 1) hi"
        using True c by (subst c_bsearch.simps) (simp add: Let_def i_def)
      also have "\<dots> \<longleftrightarrow> (\<exists>j. i + 1 \<le> j \<and> j < hi \<and> xs ! j = key)"
        using "1.IH"(2) [OF True i_def] 2 c "1.prems" by auto
      also have "\<dots> \<longleftrightarrow> (\<exists>j. lo \<le> j \<and> j < hi \<and> xs ! j = key)"
        using le 2 i by (metis Suc_eq_plus1 Suc_leI leD le_SucI linorder_le_less_linear order.trans)
      finally show ?thesis .
    next
      case 3
      then have "c_bsearch key xs lo hi"
        using True c by (subst c_bsearch.simps) (simp add: Let_def i_def)
      with 3 i show ?thesis by auto
    qed
  qed
qed

section \<open>Parsing a list of names\<close>

fun commas :: "string list \<Rightarrow> string" where
  "commas [] = []"
| "commas [n] = n"
| "commas (n # m # ns) = n @ CHR '','' # commas (m # ns)"

lemma cut_at_none: "c \<notin> set n \<Longrightarrow> cut_at c n = (n, None)"
  by (induction n) auto

lemma cut_at_some: "c \<notin> set n \<Longrightarrow> cut_at c (n @ c # r) = (n, Some r)"
  by (induction n) auto

lemma put_entry_ok:
  assumes "\<forall>n. avail h n" "nr \<le> length arr" "0 < length arr"
  shows "\<exists>arr'. put_entry h junk arr nr i = Inr (Some arr') \<and> nr < length arr' \<and>
    take (Suc nr) arr' = take nr arr @ [i]"
  using assms
  by (cases "nr < length arr") (auto simp: put_entry_def Let_def take_Suc_conv_app_nth list_update_append)

lemma lang_str2int_range: "lang__str2int n < 65536" "- 1 \<le> lang__str2int n"
proof -
  have "i < 38" if "find P [1..<38] = Some i" for P and i :: nat
    using that by (auto simp: find_Some_iff)
  then show "lang__str2int n < 65536" "- 1 \<le> lang__str2int n"
    by (fastforce simp: lang__str2int_def DW_LANG_Mips_Assembler_def split: option.split)+
qed

lemma parse_loop_ok:
  assumes "\<forall>n. avail h n"
  shows "ns \<noteq> [] \<Longrightarrow> \<forall>n \<in> set ns. CHR '','' \<notin> set n \<Longrightarrow> nr \<le> length arr \<Longrightarrow> 0 < length arr \<Longrightarrow>
    (if \<forall>n \<in> set ns. 0 \<le> lang__str2int n
     then \<exists>arr'. parse_loop h junk (commas ns) arr nr = Inr (Some (arr', nr + length ns)) \<and>
            nr + length ns \<le> length arr' \<and>
            take (nr + length ns) arr' = take nr arr @ map lang__str2int ns
     else parse_loop h junk (commas ns) arr nr = Inr None)"
proof (induction ns arbitrary: nr arr rule: commas.induct)
  case (2 n)
  from put_entry_ok [OF assms "2.prems"(3,4), of junk "lang__str2int n"] "2.prems"(2) show ?case
    by (subst (1 2) parse_loop.simps) (auto simp: cut_at_none)
next
  case (3 n m ns)
  have cut: "cut_at CHR '','' (commas (n # m # ns)) = (n, Some (commas (m # ns)))"
    using "3.prems"(2) by (simp add: cut_at_some)
  show ?case
  proof (cases "lang__str2int n < 0")
    case True
    then have "parse_loop h junk (commas (n # m # ns)) arr nr = Inr None"
      by (subst parse_loop.simps) (simp add: cut del: commas.simps)
    with True show ?thesis by (auto simp: not_le)
  next
    case False
    from put_entry_ok [OF assms "3.prems"(3,4), of junk "lang__str2int n"] obtain arr1 where
      a: "put_entry h junk arr nr (lang__str2int n) = Inr (Some arr1)" "nr < length arr1"
        "take (Suc nr) arr1 = take nr arr @ [lang__str2int n]" by blast
    have step: "parse_loop h junk (commas (n # m # ns)) arr nr = parse_loop h junk (commas (m # ns)) arr1 (Suc nr)"
      using False a(1) by (subst parse_loop.simps) (simp add: cut del: commas.simps)
    have "\<forall>x \<in> set (m # ns). CHR '','' \<notin> set x" "Suc nr \<le> length arr1" "0 < length arr1"
      using "3.prems"(2) a(2) by auto
    from "3.IH" [OF _ this] a(3) False show ?thesis unfolding step by auto
  qed
qed simp

section \<open>Properties\<close>

lemma languages_table_distinct:
  "distinct (map fst languages_table)" "distinct (map snd languages_table)"
  unfolding languages_table_def by code_simp+

lemma languages_table_lower:
  "list_all (\<lambda>(i, s). 0 < i \<and> i < 38 \<and> map c_tolower s = s \<and> s \<noteq> ''asm'') languages_table"
  unfolding languages_table_def by code_simp

lemma find_eq: "i \<in> set xs \<Longrightarrow> find (\<lambda>j. j = i) xs = Some i"
  by (induction xs) auto

lemma languages_table_find:
  assumes "(i, s) \<in> set languages_table"
  shows "lang__str2int s = int i" "lang__int2str (int i) = s"
proof -
  have low: "0 < j \<and> j < 38 \<and> map c_tolower l = l \<and> l \<noteq> ''asm''" if "(j, l) \<in> set languages_table" for j l
    using languages_table_lower that by (auto simp: list_all_iff)
  have mo: "map_of languages_table j = Some l \<longleftrightarrow> (j, l) \<in> set languages_table" for j l
    using languages_table_distinct(1) by (metis map_of_SomeD map_of_is_SomeI)
  have "(case map_of languages_table j of None \<Rightarrow> False | Some l \<Rightarrow> c_strcaseeq s l) \<longleftrightarrow> j = i" for j
  proof (cases "map_of languages_table j")
    case None
    then show ?thesis using mo [of i s] assms by auto
  next
    case (Some l)
    then have l: "(j, l) \<in> set languages_table" using mo by simp
    then have "c_strcaseeq s l \<longleftrightarrow> s = l" using low [OF assms] low [OF l] by (simp add: c_strcaseeq_def)
    also have "\<dots> \<longleftrightarrow> j = i"
      using languages_table_distinct assms l by (metis (no_types) eq_key_imp_eq_value mo option.inject
        distinct_map inj_onD prod.inject snd_conv)
    finally show ?thesis using Some by simp
  qed
  moreover have "find (\<lambda>j. j = i) [1..<38] = Some i"
    using low [OF assms] by (intro find_eq) auto
  moreover have "\<not> c_strcaseeq s ''asm''"
  proof -
    have "map c_tolower ''asm'' = ''asm''" by (simp add: c_tolower_def)
    then show ?thesis using low [OF assms] by (simp add: c_strcaseeq_def)
  qed
  ultimately show "lang__str2int s = int i" by (simp add: lang__str2int_def)
  show "lang__int2str (int i) = s"
    using low [OF assms] mo [of i s] assms by (simp add: lang__int2str_def)
qed

text \<open>the names and numbers of the known languages are inverse to each other.\<close>

theorem lang_names_roundtrip:
  "list_all (\<lambda>(i, s). lang__str2int s = int i \<and> lang__int2str (int i) = s) languages_table \<and>
   lang__str2int (lang__int2str DW_LANG_Mips_Assembler) = DW_LANG_Mips_Assembler"
proof
  show "list_all (\<lambda>(i, s). lang__str2int s = int i \<and> lang__int2str (int i) = s) languages_table"
    using languages_table_find by (fastforce simp only: list_all_iff case_prod_beta prod.collapse)
  show "lang__str2int (lang__int2str DW_LANG_Mips_Assembler) = DW_LANG_Mips_Assembler"
    by (simp add: lang__int2str_def lang__str2int_def DW_LANG_Mips_Assembler_def c_strcaseeq_def)
qed

text \<open>with memory available, parsing a comma-separated list of names succeeds exactly when every
  name is known; then a unit is filtered out if its language is in the list and the list excludes,
  or is not in it and the list selects.  After a failure nothing is filtered.\<close>

theorem languages_parse_filter:
  assumes "\<forall>n. avail h n" "lg_str l = Some (commas ns)" "ns \<noteq> []" "\<forall>n \<in> set ns. CHR '','' \<notin> set n"
    "lg_nr_entries l = 0" "\<forall>cu \<in> set cus. cu_language cu < 65536"
  shows "\<exists>rc l'. languages__parse h junk l = Inr (rc, l') \<and>
    (if \<forall>n \<in> set ns. 0 \<le> lang__str2int n
     then rc = 0 \<and> map (languages__cu_filtered l') cus =
            map (\<lambda>cu. (int (cu_language cu) \<in> lang__str2int ` set ns) = lg_exclude l) cus
     else rc = -1 \<and> map (languages__cu_filtered l') cus = map (\<lambda>cu. False) cus)"
proof -
  note pl = parse_loop_ok [OF assms(1,3,4), of 0 "replicate 4 0" junk]
  show ?thesis
  proof (cases "\<forall>n \<in> set ns. 0 \<le> lang__str2int n")
    case False
    with pl assms show ?thesis
      by (auto simp: languages__parse_def languages__cu_filtered_def Let_def split: if_splits)
  next
    case True
    with pl obtain arr where arr: "parse_loop h junk (commas ns) (replicate 4 0) 0 = Inr (Some (arr, length ns))"
      "length ns \<le> length arr" "take (length ns) arr = map lang__str2int ns" by auto
    define l' where "l' = l\<lparr>lg_entries := Some (sort (take (length ns) arr) @ drop (length ns) arr),
      lg_nr_entries := length ns\<rparr>"
    have parse: "languages__parse h junk l = Inr (0, l')"
      using arr(1) assms by (simp add: languages__parse_def l'_def)
    have "languages__in l' x \<longleftrightarrow> x \<in> lang__str2int ` set ns" if "0 \<le> x" "x < 65536" for x
    proof -
      let ?s = "sort (map lang__str2int ns)"
      define xs where "xs = sort (take (length ns) arr) @ drop (length ns) arr"
      have t: "take (length ns) xs = ?s" "length ns \<le> length xs" using arr(2,3) by (auto simp: xs_def)
      have "\<bar>lang__str2int n\<bar> < 1073741824" for n using lang_str2int_range [of n] by auto
      then have "c_bsearch x xs 0 (length ns) \<longleftrightarrow> (\<exists>i. 0 \<le> i \<and> i < length ns \<and> xs ! i = x)"
        using that t(2) by (intro bsearch_iff) (simp_all only: t sorted_sort set_sort, auto)
      also have "\<dots> \<longleftrightarrow> x \<in> set (take (length ns) xs)" using nth_image [OF t(2)] by force
      finally show ?thesis by (simp add: t(1) languages__in_def l'_def xs_def [symmetric])
    qed
    then have "map (languages__cu_filtered l') cus =
        map (\<lambda>cu. (int (cu_language cu) \<in> lang__str2int ` set ns) = lg_exclude l) cus"
      using assms(3,6) by (auto simp: languages__cu_filtered_def l'_def Let_def)
    with True parse show ?thesis by auto
  qed
qed

theorem languages_parse_filter_witness:
  "let h = \<lparr>avail = \<lambda>_. True, fresh = \<lambda>_. 0\<rparr>;
       l = \<lparr>lg_str = Some ''rust,go'', lg_entries = None, lg_nr_entries = 0, lg_exclude = True\<rparr>
   in \<exists>l'. languages__parse h (\<lambda>_. 0) l = Inr (0, l') \<and>
        languages__cu_filtered l' (cu_zero\<lparr>cu_language := 28\<rparr>) \<and> \<not> languages__cu_filtered l' (cu_zero\<lparr>cu_language := 12\<rparr>)"
proof -
  have "lang__str2int ''rust'' = 28" "lang__str2int ''go'' = 22"
    using languages_table_find(1) [of 28 "''rust''"] languages_table_find(1) [of 22 "''go''"]
    by (simp_all add: languages_table_def)
  then show ?thesis
    using languages_parse_filter [of "\<lparr>avail = \<lambda>_. True, fresh = \<lambda>_. 0\<rparr>"
      "\<lparr>lg_str = Some ''rust,go'', lg_entries = None, lg_nr_entries = 0, lg_exclude = True\<rparr>"
      "[''rust'', ''go'']" "[cu_zero\<lparr>cu_language := 28\<rparr>, cu_zero\<lparr>cu_language := 12\<rparr>]" "\<lambda>_. 0"]
    by (auto simp: Let_def)
qed

end
