(* ===== verification/Bytes.thy ===== *)
theory Bytes
  imports Prelude
begin

text \<open>
  Integers in memory.  The host is little-endian: the first byte of a \<open>uint16_t\<close> or \<open>uint32_t\<close>
  is its least significant one.  Reading past the end of an object is a fault.
\<close>

unbundle bit_operations_syntax

definition le16 :: "16 word \<Rightarrow> byte list" where
  "le16 w = [ucast w, ucast (drop_bit 8 w)]"

definition le32 :: "32 word \<Rightarrow> byte list" where
  "le32 w = [ucast w, ucast (drop_bit 8 w), ucast (drop_bit 16 w), ucast (drop_bit 24 w)]"

definition of_le16 :: "byte \<Rightarrow> byte \<Rightarrow> 16 word" where
  "of_le16 a b = ucast a OR push_bit 8 (ucast b)"

definition of_le32 :: "byte \<Rightarrow> byte \<Rightarrow> byte \<Rightarrow> byte \<Rightarrow> 32 word" where
  "of_le32 a b c d = ucast a OR push_bit 8 (ucast b) OR push_bit 16 (ucast c) OR push_bit 24 (ucast d)"

definition load16 :: "byte list \<Rightarrow> nat \<Rightarrow> fault + 16 word" where
  "load16 bs p = (if p + 2 \<le> length bs then Inr (of_le16 (bs ! p) (bs ! (p + 1))) else Inl Out_Of_Bounds)"

definition load32 :: "byte list \<Rightarrow> nat \<Rightarrow> fault + 32 word" where
  "load32 bs p =
     (if p + 4 \<le> length bs then Inr (of_le32 (bs ! p) (bs ! (p + 1)) (bs ! (p + 2)) (bs ! (p + 3)))
      else Inl Out_Of_Bounds)"

lemma length_le [simp]: "length (le16 v) = 2" "length (le32 w) = 4"
  by (simp_all add: le16_def le32_def)

lemma of_le16_le: "of_le16 (ucast w) (ucast (drop_bit 8 w)) = (w :: 16 word)"
  unfolding of_le16_def by (rule bit_word_eqI) (auto simp: bit_simps less_diff_conv2)

lemma of_le32_le:
  "of_le32 (ucast w) (ucast (drop_bit 8 w)) (ucast (drop_bit 16 w)) (ucast (drop_bit 24 w)) = (w :: 32 word)"
  unfolding of_le32_def
  by (rule bit_word_eqI) (auto simp: bit_simps less_diff_conv2, metis le_add_diff_inverse not_less)

lemma load16_le [simp]: "load16 (pre @ le16 w @ post) (length pre) = Inr w"
  by (simp add: load16_def le16_def nth_append of_le16_le)

lemma load32_le [simp]: "load32 (pre @ le32 w @ post) (length pre) = Inr w"
  by (simp add: load32_def le32_def nth_append of_le32_le)

lemma load16_at: "bs = pre @ le16 w @ post \<Longrightarrow> p = length pre \<Longrightarrow> load16 bs p = Inr w"
  and load32_at: "bs = pre @ le32 v @ post \<Longrightarrow> p = length pre \<Longrightarrow> load32 bs p = Inr v"
  by simp_all

text \<open>Reading at an offset of a chunk that lies inside a larger buffer.\<close>

lemma load16_append: "p + 2 \<le> length mid \<Longrightarrow> load16 (pre @ mid @ post) (length pre + p) = load16 mid p"
  by (simp add: load16_def nth_append add.assoc)

lemma load32_append: "p + 4 \<le> length mid \<Longrightarrow> load32 (pre @ mid @ post) (length pre + p) = load32 mid p"
  by (simp add: load32_def nth_append add.assoc)

text \<open>The values as little-endian numbers.\<close>

lemma le32_inj: "le32 v = le32 w \<Longrightarrow> v = w"
  using load32_le [of "[]" v "[]"] load32_le [of "[]" w "[]"] by simp

end
