(* ===== verification/Buildid.thy ===== *)
theory Buildid
  imports Bytes Cstring
begin

text \<open>
  Build ids (\<open>dwarves.c\<close>): the notes of an ELF section or of \<open>/sys/kernel/notes\<close>, their
  printing, and the search for the \<open>vmlinux\<close> of the running kernel.  libelf and the files are
  parameters: an ELF object is the list of its sections, a file the bytes \<open>read\<close> returns.
\<close>

section \<open>Sections by name\<close>

text \<open>
  What libelf tells of an object: \<open>el_sections\<close> is \<open>None\<close> if there is no section name table, a
  section is its name (\<open>None\<close> if \<open>elf_strptr\<close> fails) and its data (\<open>None\<close> if \<open>elf_getdata\<close> fails).
\<close>

record elf =
  el_is_elf :: bool
  el_has_ehdr :: bool
  el_sections :: "(string option \<times> byte list option) list option"

fun section_loop :: "(string option \<times> byte list option) list \<Rightarrow> string \<Rightarrow> nat \<Rightarrow> (nat \<times> byte list option) option" where
  "section_loop [] name cnt = None"
| "section_loop ((str, d) # secs) name cnt =
     (case str of
        None \<Rightarrow> None
      | Some s \<Rightarrow> if c_strcmp name s = 0 then Some (cnt, d) else section_loop secs name (cnt + 1))"

text \<open>The index of the section and its data.\<close>

definition elf_section_by_name :: "elf \<Rightarrow> string \<Rightarrow> (nat \<times> byte list option) option" where
  "elf_section_by_name elf name =
     (case el_sections elf of None \<Rightarrow> None | Some secs \<Rightarrow> section_loop secs name 1)"

section \<open>Notes\<close>

definition BUILD_ID_SIZE :: nat where
  "BUILD_ID_SIZE = 20"

text \<open>\<open>(((sz) + 3) & ~3)\<close> on an \<open>Elf_Word\<close>.\<close>

definition NOTE_ALIGN :: "32 word \<Rightarrow> 32 word" where
  "NOTE_ALIGN sz = (sz + 3) AND NOT 3"

definition NT_GNU_BUILD_ID :: "32 word" where
  "NT_GNU_BUILD_ID = 3"

definition gnu_name :: "byte list" where
  "gnu_name = [71, 78, 85, 0]"

text \<open>\<open>memcpy(bf, ptr, sz); memset(bf + sz, 0, size - sz)\<close>\<close>

definition copy_id :: "nat \<Rightarrow> byte list \<Rightarrow> nat \<Rightarrow> nat \<Rightarrow> fault + byte list" where
  "copy_id sz d p sz0 =
     (if p + sz \<le> length d then Inr (take sz (drop p d) @ replicate (sz0 - sz) 0) else Inl Out_Of_Bounds)"

function note_loop :: "byte list \<Rightarrow> nat \<Rightarrow> nat \<Rightarrow> fault + (nat \<times> byte list) option" where
  "note_loop d sz0 ptr =
     (if ptr < length d then
        bindE (load32 d ptr) (\<lambda>n_namesz.
        bindE (load32 d (ptr + 4)) (\<lambda>n_descsz.
        bindE (load32 d (ptr + 8)) (\<lambda>n_type.
          let namesz = unat (NOTE_ALIGN n_namesz); descsz = unat (NOTE_ALIGN n_descsz);
              name = ptr + 12; ptr' = name + namesz
          in if n_type = NT_GNU_BUILD_ID \<and> n_namesz = 4 then
               if name + 4 \<le> length d then
                 if take 4 (drop name d) = gnu_name then
                   map_sum id (\<lambda>bf. Some (descsz, bf)) (copy_id (min sz0 descsz) d ptr' sz0)
                 else note_loop d sz0 (ptr' + descsz)
               else Inl Out_Of_Bounds
             else note_loop d sz0 (ptr' + descsz))))
      else Inr None)"
  by pat_completeness auto
termination by (relation "measure (\<lambda>(d, sz0, ptr). length d - ptr)") (auto split: if_splits)

declare note_loop.simps [simp del]

text \<open>The result is \<open>err\<close> and what was written to \<open>bf\<close>.\<close>

definition elf_read_build_id :: "elf \<Rightarrow> nat \<Rightarrow> fault + int \<times> byte list option" where
  "elf_read_build_id elf sz0 =
     (let sec = (case elf_section_by_name elf ''.note.gnu.build-id'' of
                   Some s \<Rightarrow> Some s
                 | None \<Rightarrow>
                     (case elf_section_by_name elf ''.notes'' of
                        Some s \<Rightarrow> Some s | None \<Rightarrow> elf_section_by_name elf ''.note''))
      in if sz0 < BUILD_ID_SIZE \<or> \<not> el_is_elf elf \<or> \<not> el_has_ehdr elf then Inr (-1, None)
         else case sec of
                Some (_, Some d) \<Rightarrow>
                  map_sum id (\<lambda>r. case r of None \<Rightarrow> (-1, None) | Some (n, bf) \<Rightarrow> (s32 (int n), Some bf))
                    (note_loop d sz0 0)
              | _ \<Rightarrow> Inr (-1, None))"

text \<open>\<open>fd\<close>: \<open>None\<close> if \<open>open\<close> or \<open>elf_begin\<close> fails.\<close>

definition filename__read_build_id :: "(string \<Rightarrow> elf option) \<Rightarrow> string \<Rightarrow> nat \<Rightarrow> fault + int \<times> byte list option" where
  "filename__read_build_id elf_of filename sz0 =
     (if sz0 < BUILD_ID_SIZE then Inr (-1, None)
      else case elf_of filename of None \<Rightarrow> Inr (-1, None) | Some e \<Rightarrow> elf_read_build_id e sz0)"

section \<open>The notes of the running kernel\<close>

text \<open>
  \<open>read\<close> takes what is left of the file up to the count; the buffer holds \<open>BUFSIZ\<close> bytes.  A
  negative count, converted to \<open>sz0t\<close>, exceeds every file and buffer.
\<close>

definition BUFSIZ :: nat where
  "BUFSIZ = 8192"

definition read_into :: "nat \<Rightarrow> byte list \<Rightarrow> int \<Rightarrow> fault + byte list \<times> byte list" where
  "read_into room file n =
     (if n < 0 \<or> room < min (nat n) (length file) then Inl Out_Of_Bounds
      else Inr (take (nat n) file, drop (nat n) file))"

function sysfs_loop :: "byte list \<Rightarrow> nat \<Rightarrow> fault + byte list option" where
  "sysfs_loop file sz0 =
     (if length file < 12 then Inr None
      else
        let hdr = take 12 file; file1 = drop 12 file;
            n_namesz = of_le32 (hdr ! 0) (hdr ! 1) (hdr ! 2) (hdr ! 3);
            n_descsz = of_le32 (hdr ! 4) (hdr ! 5) (hdr ! 6) (hdr ! 7);
            n_type = of_le32 (hdr ! 8) (hdr ! 9) (hdr ! 10) (hdr ! 11);
            namesz = unat (NOTE_ALIGN n_namesz); descsz = unat (NOTE_ALIGN n_descsz)
        in if n_type = NT_GNU_BUILD_ID \<and> n_namesz = 4 then
             (case read_into BUFSIZ file1 (int namesz) of
                Inl e \<Rightarrow> Inl e
              | Inr (bf, file2) \<Rightarrow>
                  if length bf \<noteq> namesz then Inr None
                  else if take 4 bf = gnu_name then
                    let sz = min descsz sz0
                    in if length file2 < sz then sysfs_loop (drop sz file2) sz0
                       else Inr (Some (take sz file2 @ replicate (sz0 - sz) 0))
                  else
                    (case read_into BUFSIZ file2 (int descsz) of
                       Inl e \<Rightarrow> Inl e
                     | Inr (bf', file3) \<Rightarrow> if length bf' \<noteq> descsz then Inr None else sysfs_loop file3 sz0))
           else
             let n0 = s32 (int (namesz + descsz)); n = (if n0 > int BUFSIZ then int BUFSIZ else n0)
             in (case read_into BUFSIZ file1 n of
                   Inl e \<Rightarrow> Inl e
                 | Inr (bf, file2) \<Rightarrow> if int (length bf) \<noteq> n then Inr None else sysfs_loop file2 sz0))"
  by pat_completeness auto
termination
  by (relation "measure (\<lambda>(file, sz0). length file)")
    (auto simp: read_into_def gnu_name_def split: if_splits)

declare sysfs_loop.simps [simp del]

text \<open>\<open>None\<close> for a file that cannot be opened; the second component is what \<open>build_id\<close> holds.\<close>

definition sysfs__read_build_id :: "(string \<Rightarrow> byte list option) \<Rightarrow> string \<Rightarrow> nat \<Rightarrow> fault + int \<times> byte list option" where
  "sysfs__read_build_id file_of filename sz0 =
     (if sz0 < BUILD_ID_SIZE then Inr (-1, None)
      else case file_of filename of
             None \<Rightarrow> Inr (-1, None)
           | Some file \<Rightarrow>
               map_sum id (\<lambda>r. case r of None \<Rightarrow> (-1, None) | Some bf \<Rightarrow> (0, Some bf)) (sysfs_loop file sz0))"

section \<open>Printing a build id\<close>

definition hex_digit :: "nat \<Rightarrow> char" where
  "hex_digit n = (if n < 10 then char_of (48 + n) else char_of (87 + n))"

text \<open>\<open>sprintf(bid, "%02x", *raw)\<close> for each byte; the result counts the NUL.\<close>

definition build_id__sprintf :: "byte list \<Rightarrow> int \<times> string" where
  "build_id__sprintf bs =
     (let s = concat (map (\<lambda>b. [hex_digit (unat b div 16), hex_digit (unat b mod 16)]) bs)
      in (int (length s) + 1, s))"

definition sysfs__sprintf_build_id :: "(string \<Rightarrow> byte list option) \<Rightarrow> string option \<Rightarrow> fault + int \<times> string option" where
  "sysfs__sprintf_build_id file_of root_dir =
     (let root_dir = (case root_dir of None \<Rightarrow> [] | Some r \<Rightarrow> r)
      in bindE (sysfs__read_build_id file_of (root_dir @ ''/sys/kernel/notes'') BUILD_ID_SIZE) (\<lambda>(ret, bid).
           case bid of
             Some b \<Rightarrow> if ret < 0 then Inr (ret, None) else Inr (map_prod id Some (build_id__sprintf b))
           | None \<Rightarrow> Inr (ret, None)))"

definition filename__sprintf_build_id :: "(string \<Rightarrow> elf option) \<Rightarrow> string \<Rightarrow> fault + int \<times> string option" where
  "filename__sprintf_build_id elf_of pathname =
     bindE (filename__read_build_id elf_of pathname BUILD_ID_SIZE) (\<lambda>(ret, bid).
       if ret < 0 then Inr (ret, None)
       else if ret \<noteq> int BUILD_ID_SIZE then Inr (-22, None)
       else case bid of None \<Rightarrow> Inr (ret, None) | Some b \<Rightarrow> Inr (map_prod id Some (build_id__sprintf b)))"

section \<open>The vmlinux of the running kernel\<close>

text \<open>The cached name is the value of the static variable; the result is its new value.\<close>

definition vmlinux_path__btf_filename :: "(string \<Rightarrow> string option) \<Rightarrow> string option \<Rightarrow> string" where
  "vmlinux_path__btf_filename getenv vmlinux_btf =
     (case vmlinux_btf of
        Some f \<Rightarrow> f
      | None \<Rightarrow> (case getenv ''PAHOLE_VMLINUX_BTF_FILENAME'' of Some f \<Rightarrow> f | None \<Rightarrow> ''/sys/kernel/btf/vmlinux''))"

definition vmlinux_paths :: "string list" where
  "vmlinux_paths = [''vmlinux'', ''/boot/vmlinux'']"

text \<open>The formats have one \<open>%s\<close>, between the two parts.\<close>

definition vmlinux_paths_upd :: "(string \<times> string) list" where
  "vmlinux_paths_upd =
     [(''/boot/vmlinux-'', []), (''/usr/lib/debug/boot/vmlinux-'', []), (''/lib/modules/'', ''/build/vmlinux''),
      (''/usr/lib/debug/lib/modules/'', ''/vmlinux''), (''/usr/lib/debug/boot/vmlinux-'', ''.debug'')]"

definition PATH_MAX :: nat where
  "PATH_MAX = 4096"

definition vmlinux_path__add :: "heap_env \<Rightarrow> string list \<Rightarrow> string \<Rightarrow> string list option" where
  "vmlinux_path__add h paths p = (if avail h (length p + 1) then Some (paths @ [p]) else None)"

fun vmlinux_path_add_all :: "heap_env \<Rightarrow> string list \<Rightarrow> string list \<Rightarrow> string list option" where
  "vmlinux_path_add_all h paths [] = Some paths"
| "vmlinux_path_add_all h paths (p # ps) =
     (case vmlinux_path__add h paths p of None \<Rightarrow> None | Some paths' \<Rightarrow> vmlinux_path_add_all h paths' ps)"

definition vmlinux_path__add_debuginfod_client ::
  "heap_env \<Rightarrow> (string \<Rightarrow> string option) \<Rightarrow> (string \<Rightarrow> byte list option) \<Rightarrow> string list \<Rightarrow> fault + string list" where
  "vmlinux_path__add_debuginfod_client h getenv file_of paths =
     (case getenv ''HOME'' of
        None \<Rightarrow> Inr paths
      | Some home_dir \<Rightarrow>
          bindE (sysfs__sprintf_build_id file_of None) (\<lambda>(ret, bid).
            case bid of
              None \<Rightarrow> Inr paths
            | Some b \<Rightarrow>
                (case vmlinux_path__add h paths
                   (take (PATH_MAX - 1) (home_dir @ ''/.cache/debuginfod_client/'' @ b @ ''/debuginfo'')) of
                   None \<Rightarrow> Inr paths | Some paths' \<Rightarrow> Inr paths')))"

text \<open>
  \<open>uname\<close> is the kernel release, \<open>None\<close> if it fails.  The table is empty after a failure, its
  result is not looked at by the callers.
\<close>

definition vmlinux_path__init ::
  "heap_env \<Rightarrow> (string \<Rightarrow> string option) \<Rightarrow> (string \<Rightarrow> byte list option) \<Rightarrow> string option \<Rightarrow> fault + string list" where
  "vmlinux_path__init h getenv file_of uname =
     (if \<not> avail h (8 * 8) then Inr []
      else
        case vmlinux_path_add_all h [] vmlinux_paths of
          None \<Rightarrow> Inr []
        | Some paths \<Rightarrow>
            (case uname of
               None \<Rightarrow> Inr []
             | Some kernel_version \<Rightarrow>
                 (case vmlinux_path_add_all h paths
                    (map (\<lambda>(a, b). take (PATH_MAX - 1) (a @ kernel_version @ b)) vmlinux_paths_upd) of
                    None \<Rightarrow> Inr []
                  | Some paths' \<Rightarrow> vmlinux_path__add_debuginfod_client h getenv file_of paths')))"

fun find_running_loop :: "(string \<Rightarrow> elf option) \<Rightarrow> string \<Rightarrow> string list \<Rightarrow> fault + string option" where
  "find_running_loop elf_of running [] = Inr None"
| "find_running_loop elf_of running (p # ps) =
     bindE (filename__sprintf_build_id elf_of p) (\<lambda>(ret, bid).
       case bid of
         Some b \<Rightarrow> if ret > 0 \<and> c_strcmp b running = 0 then Inr (Some p) else find_running_loop elf_of running ps
       | None \<Rightarrow> find_running_loop elf_of running ps)"

text \<open>\<open>junk\<close>: what the buffer for the running build id holds if the notes cannot be read.\<close>

definition vmlinux_path__find_running_kernel_priv ::
  "(string \<Rightarrow> byte list option) \<Rightarrow> (string \<Rightarrow> elf option) \<Rightarrow> string \<Rightarrow> string list \<Rightarrow> fault + string option" where
  "vmlinux_path__find_running_kernel_priv file_of elf_of junk paths =
     bindE (sysfs__sprintf_build_id file_of None) (\<lambda>(ret, bid).
       find_running_loop elf_of (case bid of None \<Rightarrow> junk | Some b \<Rightarrow> b) paths)"

definition vmlinux_path__find_running_kernel ::
  "heap_env \<Rightarrow> (string \<Rightarrow> string option) \<Rightarrow> (string \<Rightarrow> byte list option) \<Rightarrow> string option \<Rightarrow> (string \<Rightarrow> elf option) \<Rightarrow>
    string \<Rightarrow> fault + string option" where
  "vmlinux_path__find_running_kernel h getenv file_of uname elf_of junk =
     bindE (vmlinux_path__init h getenv file_of uname) (\<lambda>paths.
     bindE (vmlinux_path__find_running_kernel_priv file_of elf_of junk paths) (\<lambda>r.
       Inr (case r of None \<Rightarrow> None | Some p \<Rightarrow> if avail h (length p + 1) then Some p else None)))"

section \<open>Well-formed notes\<close>

record elf_note =
  nt_type :: "32 word"
  nt_name :: "byte list"
  nt_desc :: "byte list"

definition pad4 :: "byte list \<Rightarrow> byte list" where
  "pad4 bs = bs @ replicate ((4 - length bs mod 4) mod 4) 0"

definition enc_note :: "elf_note \<Rightarrow> byte list" where
  "enc_note n = le32 (of_nat (length (nt_name n))) @ le32 (of_nat (length (nt_desc n))) @ le32 (nt_type n) @
     pad4 (nt_name n) @ pad4 (nt_desc n)"

definition note_fits :: "elf_note \<Rightarrow> bool" where
  "note_fits n \<longleftrightarrow> length (nt_name n) < 2147483648 \<and> length (nt_desc n) < 2147483640"

definition is_gnu_id :: "elf_note \<Rightarrow> bool" where
  "is_gnu_id n \<longleftrightarrow> nt_type n = NT_GNU_BUILD_ID \<and> nt_name n = gnu_name"

lemma NOTE_ALIGN_mod: "NOTE_ALIGN w = (w + 3) - (w + 3) mod 4"
proof -
  have three: "(3 :: 32 word) = mask 2" by (simp add: mask_eq_exp_minus_1)
  have "v AND NOT (mask 2) = push_bit 2 (drop_bit 2 v)" for v :: "32 word"
    by (rule bit_word_eqI) (auto simp: bit_simps not_less dest: le_Suc_ex)
  then have "(w + 3) AND NOT 3 = push_bit 2 (drop_bit 2 (w + 3))" unfolding three by simp
  then show ?thesis
    by (simp add: NOTE_ALIGN_def push_bit_eq_mult drop_bit_eq_div minus_mod_eq_div_mult)
qed

lemma unat_minus_mod4: "unat (w - w mod 4) = unat w - unat w mod 4" for w :: "32 word"
proof -
  have m: "unat (w mod 4) = unat w mod 4" by (simp add: unat_mod)
  have "w mod 4 \<le> w" by (simp add: word_le_nat_alt m)
  then show ?thesis by (simp only: unat_sub m)
qed

lemma round_up4: "n + 3 - (n + 3) mod 4 = n + (4 - n mod 4) mod 4" for n :: nat
proof -
  have n: "n = 4 * (n div 4) + n mod 4" by simp
  have "n mod 4 = 0 \<or> n mod 4 = 1 \<or> n mod 4 = 2 \<or> n mod 4 = 3" by auto
  then show ?thesis by (subst (1 2 3) n, elim disjE) (simp_all add: mod_add_eq)
qed

lemma NOTE_ALIGN_pad:
  assumes "length bs < 4294967290"
  shows "unat (NOTE_ALIGN (of_nat (length bs))) = length (pad4 bs)"
proof -
  define w where "w = (of_nat (length bs) :: 32 word) + 3"
  have "w = of_nat (length bs + 3)" by (simp add: w_def)
  then have w: "unat w = length bs + 3" using assms by (simp only: unat_of_nat) simp
  show ?thesis by (simp only: NOTE_ALIGN_mod w_def [symmetric] unat_minus_mod4 w round_up4) (simp add: pad4_def)
qed

text \<open>The value of the first GNU build id among notes.\<close>

fun first_id :: "elf_note list \<Rightarrow> byte list option" where
  "first_id [] = None"
| "first_id (n # ns) = (if is_gnu_id n then Some (pad4 (nt_desc n)) else first_id ns)"

lemma enc_note_length:
  "length (enc_note n) = 12 + length (pad4 (nt_name n)) + length (pad4 (nt_desc n))"
  by (simp add: enc_note_def)

lemma note_loop_end: "length d \<le> p \<Longrightarrow> note_loop d sz p = Inr None"
  by (simp add: note_loop.simps)

text \<open>One note of a well-formed section.\<close>

lemma note_loop_step:
  assumes "note_fits n"
  shows "note_loop (pre @ enc_note n @ post) sz (length pre) =
    (if is_gnu_id n then
       let desc = pad4 (nt_desc n)
       in Inr (Some (length desc, take sz desc @ replicate (sz - length desc) 0))
     else note_loop (pre @ enc_note n @ post) sz (length (pre @ enc_note n)))"
proof -
  define d where "d = pre @ enc_note n @ post"
  define nz where "nz = (of_nat (length (nt_name n)) :: 32 word)"
  define dz where "dz = (of_nat (length (nt_desc n)) :: 32 word)"
  have l0: "load32 d (length pre) = Inr nz"
    unfolding d_def enc_note_def nz_def append.assoc by (rule load32_at [OF refl refl])
  have l1: "load32 d (length pre + 4) = Inr dz"
    by (rule load32_at [where pre = "pre @ le32 nz"]) (simp_all add: d_def enc_note_def nz_def dz_def)
  have l2: "load32 d (length pre + 8) = Inr (nt_type n)"
    by (rule load32_at [where pre = "pre @ le32 nz @ le32 dz"]) (simp_all add: d_def enc_note_def nz_def dz_def)
  have an: "unat (NOTE_ALIGN nz) = length (pad4 (nt_name n))"
    and ad: "unat (NOTE_ALIGN dz) = length (pad4 (nt_desc n))"
    using assms by (auto simp: nz_def dz_def note_fits_def intro!: NOTE_ALIGN_pad)
  have nz4: "nz = 4 \<longleftrightarrow> length (nt_name n) = 4"
  proof -
    have "unat nz = length (nt_name n)" using assms by (simp add: nz_def note_fits_def unat_of_nat)
    then show ?thesis by (simp add: word_unat_eq_iff)
  qed
  have tail: "drop (length pre + 12) d = pad4 (nt_name n) @ pad4 (nt_desc n) @ post"
    by (simp add: d_def enc_note_def)
  have ld: "length d = length pre + 12 + length (pad4 (nt_name n)) + length (pad4 (nt_desc n)) + length post"
    by (simp add: d_def enc_note_length)
  have nm: "take 4 (drop (length pre + 12) d) = nt_name n" "length (pad4 (nt_name n)) = 4"
    if "length (nt_name n) = 4" using that by (simp_all add: tail pad4_def)
  have copy: "copy_id (min sz (length (pad4 (nt_desc n)))) d (length pre + 12 + length (pad4 (nt_name n))) sz =
    Inr (take sz (pad4 (nt_desc n)) @ replicate (sz - length (pad4 (nt_desc n))) 0)"
  proof -
    have "drop (length pre + 12 + length (pad4 (nt_name n))) d = pad4 (nt_desc n) @ post"
      using arg_cong [OF tail, of "drop (length (pad4 (nt_name n)))"] by (simp add: add.commute)
    then show ?thesis by (auto simp: copy_id_def ld min_def)
  qed
  have g4: "length gnu_name = 4" "length (pad4 gnu_name) = 4" by (simp_all add: gnu_name_def pad4_def)
  have gnu: "is_gnu_id n \<longleftrightarrow> nt_type n = NT_GNU_BUILD_ID \<and> length (nt_name n) = 4 \<and> nt_name n = gnu_name"
    by (auto simp: is_gnu_id_def gnu_name_def)
  have nxt: "length (pre @ enc_note n) =
      length pre + 12 + length (pad4 (nt_name n)) + length (pad4 (nt_desc n))"
    by (simp add: enc_note_length)
  have "note_loop d sz (length pre) =
    (if is_gnu_id n then
       let desc = pad4 (nt_desc n)
       in Inr (Some (length desc, take sz desc @ replicate (sz - length desc) 0))
     else note_loop d sz (length (pre @ enc_note n)))"
    unfolding nxt gnu
    by (subst note_loop.simps) (use copy in \<open>auto simp: l0 l1 l2 an ad nz4 nm ld Let_def g4\<close>)
  then show ?thesis by (simp only: d_def)
qed

lemma note_loop_notes:
  assumes "list_all note_fits ns"
  shows "note_loop (pre @ concat (map enc_note ns)) sz (length pre) =
    Inr (map_option (\<lambda>desc. (length desc, take sz desc @ replicate (sz - length desc) 0)) (first_id ns))"
  using assms
proof (induction ns arbitrary: pre)
  case Nil
  then show ?case by (simp add: note_loop_end)
next
  case (Cons n ns)
  then show ?case
    using note_loop_step [of n pre "concat (map enc_note ns)" sz] Cons.IH [of "pre @ enc_note n"]
    by (simp add: Let_def)
qed

lemma first_id_length: "list_all note_fits ns \<Longrightarrow> first_id ns = Some desc \<Longrightarrow> length desc < 2147483648"
  by (induction ns) (auto simp: note_fits_def pad4_def split: if_splits)

text \<open>The reader of \<open>/sys/kernel/notes\<close> sees the same notes, as long as each fits its buffer.\<close>

definition note_small :: "elf_note \<Rightarrow> bool" where
  "note_small n \<longleftrightarrow> length (nt_name n) + length (nt_desc n) < BUFSIZ - 8"

lemma take_le32: "take 4 (le32 w @ r) = le32 w" "drop 4 (le32 w @ r) = r"
  by (simp_all add: le32_def)

lemma le32_nth: "of_le32 (le32 w ! 0) (le32 w ! 1) (le32 w ! 2) (le32 w ! 3) = w"
  by (simp add: le32_def of_le32_le)

lemma hdr_words:
  assumes "hdr = le32 a @ le32 b @ le32 c"
  shows "of_le32 (hdr ! 0) (hdr ! 1) (hdr ! 2) (hdr ! 3) = a"
    and "of_le32 (hdr ! 4) (hdr ! 5) (hdr ! 6) (hdr ! 7) = b"
    and "of_le32 (hdr ! 8) (hdr ! 9) (hdr ! 10) (hdr ! 11) = c"
  using assms by (simp_all add: le32_def of_le32_le)

lemma sysfs_loop_step:
  assumes "note_small n"
  shows "sysfs_loop (enc_note n @ post) sz =
    (if is_gnu_id n then
       let desc = pad4 (nt_desc n) in Inr (Some (take sz desc @ replicate (sz - length desc) 0))
     else sysfs_loop post sz)"
proof -
  define nz where "nz = (of_nat (length (nt_name n)) :: 32 word)"
  define dz where "dz = (of_nat (length (nt_desc n)) :: 32 word)"
  define hdr where "hdr = le32 nz @ le32 dz @ le32 (nt_type n)"
  define f where "f = enc_note n @ post"
  define nm where "nm = pad4 (nt_name n)"
  define ds where "ds = pad4 (nt_desc n)"
  note w = hdr_words [OF hdr_def]
  have f: "take 12 f = hdr" "drop 12 f = nm @ ds @ post" "\<not> length f < 12"
    by (simp_all add: f_def enc_note_def hdr_def nz_def dz_def nm_def ds_def)
  have fits: "note_fits n" using assms by (simp add: note_small_def note_fits_def BUFSIZ_def)
  have an: "unat (NOTE_ALIGN nz) = length nm" and ad: "unat (NOTE_ALIGN dz) = length ds"
    using fits by (auto simp: nz_def dz_def note_fits_def nm_def ds_def intro!: NOTE_ALIGN_pad)
  have nz4: "nz = 4 \<longleftrightarrow> length (nt_name n) = 4"
  proof -
    have "unat nz = length (nt_name n)" using fits by (simp add: nz_def note_fits_def unat_of_nat)
    then show ?thesis by (simp add: word_unat_eq_iff)
  qed
  have room: "length nm + length ds < BUFSIZ"
    using assms by (auto simp: note_small_def nm_def ds_def pad4_def BUFSIZ_def)
  have n0: "s32 (int (length nm) + int (length ds)) = int (length nm) + int (length ds)"
    using room by (simp add: s32_id BUFSIZ_def)
  have n1: "nat (int (length nm) + int (length ds)) = length nm + length ds" by linarith
  have rd: "read_into BUFSIZ (xs @ ys) (int (length xs)) = Inr (xs, ys)" if "length xs < BUFSIZ"
    for xs ys using that by (simp add: read_into_def)
  have rd2: "read_into BUFSIZ (nm @ ds @ post) (int (length nm) + int (length ds)) = Inr (nm @ ds, post)"
    using room by (simp add: read_into_def n1)
  have nb: "(if int BUFSIZ < int (length nm) + int (length ds) then int BUFSIZ
      else int (length nm) + int (length ds)) = int (length nm) + int (length ds)" using room by simp
  have rd1: "read_into BUFSIZ (nm @ ds @ post) (int (length nm)) = Inr (nm, ds @ post)"
    and rd3: "read_into BUFSIZ (ds @ post) (int (length ds)) = Inr (ds, post)"
    using room by (simp_all add: rd)
  have g: "length (nt_name n) = 4 \<Longrightarrow> nm = nt_name n" by (simp add: nm_def pad4_def)
  have g4: "length gnu_name = 4" by (simp add: gnu_name_def)
  have "sysfs_loop f sz = (if is_gnu_id n then Inr (Some (take sz ds @ replicate (sz - length ds) 0))
      else sysfs_loop post sz)"
    using room
    by (subst sysfs_loop.simps, simp only: Let_def f w an ad nz4 of_nat_add n0 rd1 rd3 nb rd2 if_False)
      (auto simp: is_gnu_id_def g g4 min_def n1 rd3)
  then show ?thesis by (simp add: f_def ds_def Let_def)
qed

lemma sysfs_loop_notes:
  "list_all note_small ns \<Longrightarrow> sysfs_loop (concat (map enc_note ns)) sz =
    Inr (map_option (\<lambda>desc. take sz desc @ replicate (sz - length desc) 0) (first_id ns))"
proof (induction ns)
  case Nil
  then show ?case by (simp add: sysfs_loop.simps)
next
  case (Cons n ns)
  then show ?case using sysfs_loop_step [of n "concat (map enc_note ns)" sz] by (simp add: Let_def)
qed

section \<open>Printing is injective\<close>

lemma unat_bounded: "unat (v :: byte) < 256"
  using unsigned_less [of v] by simp

lemma hex_digit_inj: "a < 16 \<Longrightarrow> b < 16 \<Longrightarrow> hex_digit a = hex_digit b \<Longrightarrow> a = b"
proof -
  assume a: "a < 16" "b < 16" and eq: "hex_digit a = hex_digit b"
  have h: "of_char (hex_digit n) = (if n < 10 then 48 + n else 87 + n)" if "n < 16" for n
  proof -
    have "48 + n < 256" "87 + n < 256" using that by simp_all
    then show ?thesis by (simp only: hex_digit_def of_char_of split: if_split) simp
  qed
  have "(if a < 10 then 48 + a else 87 + a) = (if b < 10 then 48 + b else 87 + b)"
    using h [OF a(1)] h [OF a(2)] eq by metis
  then show "a = b" by (auto split: if_splits)
qed

lemma hex_byte_inj:
  fixes v w :: byte
  assumes "hex_digit (unat v div 16) = hex_digit (unat w div 16)"
    and "hex_digit (unat v mod 16) = hex_digit (unat w mod 16)"
  shows "v = w"
proof -
  have r: "unat x div 16 < 16" "unat x mod 16 < 16" for x :: byte
    using unat_bounded [of x] by (simp_all add: less_mult_imp_div_less)
  have "unat v div 16 = unat w div 16" "unat v mod 16 = unat w mod 16"
    using assms by (blast intro: hex_digit_inj r)+
  then have "unat v = unat w" by (metis div_mult_mod_eq)
  then show ?thesis by (simp only: word_unat_eq_iff)
qed

lemma build_id_sprintf_inj: "snd (build_id__sprintf a) = snd (build_id__sprintf b) \<longleftrightarrow> a = b"
proof (induction a arbitrary: b)
  case Nil
  then show ?case by (cases b) (auto simp: build_id__sprintf_def)
next
  case (Cons x a)
  show ?case
  proof (cases b)
    case (Cons y b')
    then show ?thesis
      using Cons.IH [of b'] hex_byte_inj [of x y] by (auto simp: build_id__sprintf_def Let_def simp del: o_apply)
  qed (simp add: build_id__sprintf_def)
qed

lemma build_id_sprintf_length: "build_id__sprintf bs = (r, s) \<Longrightarrow> r = 2 * int (length bs) + 1"
  by (induction bs arbitrary: r s) (auto simp: build_id__sprintf_def Let_def)

section \<open>Properties\<close>

text \<open>A file that can be read without leaving its notes section.\<close>

definition readable :: "(string \<Rightarrow> elf option) \<Rightarrow> string \<Rightarrow> bool" where
  "readable elf_of p \<longleftrightarrow> \<not> isl (filename__read_build_id elf_of p BUILD_ID_SIZE)"

lemma find_running_loop_find:
  assumes "list_all (readable elf_of) ps"
  shows "find_running_loop elf_of (snd (build_id__sprintf kid)) ps =
    Inr (find (\<lambda>p. filename__read_build_id elf_of p BUILD_ID_SIZE = Inr (int BUILD_ID_SIZE, Some kid)) ps)"
  using assms
proof (induction ps)
  case (Cons p ps)
  obtain ret bid where r: "filename__read_build_id elf_of p BUILD_ID_SIZE = Inr (ret, bid)"
    using Cons.prems by (auto simp: readable_def isl_def) (metis Inr_Inl_False sum.exhaust surj_pair)
  have pos: "fst (build_id__sprintf b) > 0" for b by (simp add: build_id__sprintf_def Let_def)
  have mp: "map_prod id Some x = (fst x, Some (snd x))" for x :: "int \<times> string" by (cases x) simp
  show ?case
    using Cons r pos
    by (cases bid) (auto simp: mp filename__sprintf_build_id_def BUILD_ID_SIZE_def build_id_sprintf_inj
      split: if_splits)
qed simp

text \<open>\<open>elf_read_build_id\<close> applied to a section made of well-formed notes returns the value of
  the first note named GNU of type \<open>NT_GNU_BUILD_ID\<close>, with its padded length, cut or filled with
  zeros to the size of the buffer, and fails if there is none.\<close>

lemma elf_read_build_id_first:
  assumes "el_is_elf e" and "el_has_ehdr e" and "BUILD_ID_SIZE \<le> sz"
    and "elf_section_by_name e ''.note.gnu.build-id'' = Some (i, Some (concat (map enc_note ns)))"
    and "list_all note_fits ns"
  shows "elf_read_build_id e sz =
    Inr (case first_id ns of
           None \<Rightarrow> (-1, None)
         | Some desc \<Rightarrow> (int (length desc), Some (take sz desc @ replicate (sz - length desc) 0)))"
proof -
  have "s32 (int (length desc)) = int (length desc)" if "first_id ns = Some desc" for desc
    using first_id_length [OF assms(5) that] by (simp add: s32_id)
  then show ?thesis
    using assms note_loop_notes [OF assms(5), of "[]" sz]
    by (auto simp: elf_read_build_id_def split: option.splits)
qed

lemma elf_read_build_id_first_witness:
  "elf_read_build_id
     \<lparr>el_is_elf = True, el_has_ehdr = True, el_sections =
       Some [(Some ''.text'', None), (Some ''.note.gnu.build-id'',
         Some (concat (map enc_note [\<lparr>nt_type = 1, nt_name = gnu_name, nt_desc = [7]\<rparr>,
           \<lparr>nt_type = 3, nt_name = gnu_name, nt_desc = [1, 2]\<rparr>])))]\<rparr> 20 =
   Inr (4, Some ([1, 2, 0, 0] @ replicate 16 0))"
  by (subst elf_read_build_id_first [where i = 2 and ns = "[\<lparr>nt_type = 1, nt_name = gnu_name, nt_desc = [7]\<rparr>,
           \<lparr>nt_type = 3, nt_name = gnu_name, nt_desc = [1, 2]\<rparr>]"])
    (simp_all add: BUILD_ID_SIZE_def elf_section_by_name_def note_fits_def is_gnu_id_def gnu_name_def
      NT_GNU_BUILD_ID_def pad4_def replicate_append_same [symmetric] numeral_2_eq_2)

text \<open>C12: \<open>sysfs__read_build_id\<close> finds in a file of notes the build id that \<open>elf_read_build_id\<close> finds in a
  section with the same notes, when every note fits the buffer the former reads notes into.\<close>

lemma sysfs_elf_read_same_build_id:
  assumes "el_is_elf e" and "el_has_ehdr e" and "list_all note_small ns"
    and "elf_section_by_name e ''.note.gnu.build-id'' = Some (i, Some (concat (map enc_note ns)))"
    and "file_of f = Some (concat (map enc_note ns))"
  shows "map_sum id snd (sysfs__read_build_id file_of f sz) = map_sum id snd (elf_read_build_id e sz)"
proof -
  have "list_all note_fits ns"
    using assms(3) by (auto simp: list_all_iff note_small_def note_fits_def BUFSIZ_def)
  then show ?thesis
    using assms note_loop_notes [of ns "[]" sz] sysfs_loop_notes [of ns sz]
    by (auto simp: elf_read_build_id_def sysfs__read_build_id_def split: option.splits)
qed

lemma sysfs_elf_read_same_build_id_witness:
  "let d = concat (map enc_note [\<lparr>nt_type = 3, nt_name = gnu_name, nt_desc = [1, 2]\<rparr>])
   in map_sum id snd (sysfs__read_build_id (\<lambda>f. Some d) ''n'' 20) =
      map_sum id snd (elf_read_build_id
        \<lparr>el_is_elf = True, el_has_ehdr = True, el_sections = Some [(Some ''.note.gnu.build-id'', Some d)]\<rparr> 20)"
  unfolding Let_def
  by (rule sysfs_elf_read_same_build_id [where i = 1 and ns = "[\<lparr>nt_type = 3, nt_name = gnu_name, nt_desc = [1, 2]\<rparr>]"])
    (simp_all add: elf_section_by_name_def note_small_def BUFSIZ_def gnu_name_def)

text \<open>When the kernel's notes can be read, the search for the running kernel takes the first
  of the candidate paths whose file has the 20-byte build id of the kernel, and none if no file has.\<close>

lemma find_running_kernel_first:
  assumes "sysfs__read_build_id file_of ''/sys/kernel/notes'' BUILD_ID_SIZE = Inr (0, Some kid)"
    and "list_all (readable elf_of) paths"
  shows "vmlinux_path__find_running_kernel_priv file_of elf_of junk paths =
    Inr (find (\<lambda>p. filename__read_build_id elf_of p BUILD_ID_SIZE = Inr (int BUILD_ID_SIZE, Some kid)) paths)"
proof -
  have mp: "map_prod id Some x = (fst x, Some (snd x))" for x :: "int \<times> string" by (cases x) simp
  show ?thesis
    using assms find_running_loop_find [OF assms(2), of kid]
    by (simp add: vmlinux_path__find_running_kernel_priv_def sysfs__sprintf_build_id_def mp)
qed

definition wit_kernel :: "string \<Rightarrow> elf option" where
  "wit_kernel p =
     (if p = ''vmlinux'' then None
      else Some \<lparr>el_is_elf = True, el_has_ehdr = True, el_sections =
        Some [(Some ''.notes'', Some (enc_note \<lparr>nt_type = 3, nt_name = gnu_name, nt_desc = replicate 20 5\<rparr>))]\<rparr>)"

lemma find_running_kernel_first_witness:
  "vmlinux_path__find_running_kernel_priv
     (\<lambda>f. Some (enc_note \<lparr>nt_type = 3, nt_name = gnu_name, nt_desc = replicate 20 5\<rparr>)) wit_kernel [] vmlinux_paths =
   Inr (Some ''/boot/vmlinux'')"
proof -
  let ?n = "\<lparr>nt_type = 3, nt_name = gnu_name, nt_desc = replicate 20 5\<rparr>"
  have ids: "first_id [?n] = Some (replicate 20 5)"
    by (simp add: is_gnu_id_def NT_GNU_BUILD_ID_def pad4_def replicate_append_same [symmetric] numeral_2_eq_2)
  have small: "list_all note_small [?n]" "list_all note_fits [?n]"
    by (simp_all add: note_small_def note_fits_def gnu_name_def BUFSIZ_def)
  have k: "sysfs__read_build_id (\<lambda>f. Some (enc_note ?n)) ''/sys/kernel/notes'' BUILD_ID_SIZE = Inr (0, Some (replicate 20 5))"
    using sysfs_loop_notes [OF small(1), of 20] ids by (simp add: sysfs__read_build_id_def BUILD_ID_SIZE_def)
  have e: "filename__read_build_id wit_kernel p BUILD_ID_SIZE =
      Inr (if p = ''vmlinux'' then (-1, None) else (20, Some (replicate 20 5)))" for p
    using note_loop_notes [OF small(2), of "[]" 20] ids
    by (simp add: filename__read_build_id_def wit_kernel_def elf_read_build_id_def elf_section_by_name_def
      BUILD_ID_SIZE_def s32_def)
  show ?thesis
    by (subst find_running_kernel_first [OF k]) (simp_all add: readable_def vmlinux_paths_def e [unfolded BUILD_ID_SIZE_def] BUILD_ID_SIZE_def)
qed

end
