(* ===== verification/Loader.thy ===== *)
theory Loader
  imports Buildid
begin

text \<open>
  Loading (\<open>dwarves.c\<close>): the table of debugging formats, the choice of a format for a file, a
  list of files, the running kernel or a directory, and the initialisation of the formats.  What a
  format does is a parameter: functions on a state \<open>'s\<close> that stands for the set of compilation
  units and whatever else they change.
\<close>

text \<open>What the loaders read of \<open>struct conf_load\<close>; \<open>cl_fprintf\<close> is \<open>conf_fprintf->has_alignment_info\<close>.\<close>

record conf_load =
  cl_format_path :: "string option"
  cl_fprintf :: "bool option"

record 's load_state =
  ls_cus :: 's
  ls_conf :: "conf_load option"

record 's debug_fmt_ops =
  op_name :: string
  op_init :: "('s \<Rightarrow> int \<times> 's) option"
  op_exit :: "('s \<Rightarrow> 's) option"
  op_load_file :: "'s load_state \<Rightarrow> string option \<Rightarrow> int \<times> 's load_state"
  op_has_alignment_info :: bool

definition ENOMEM :: int where "ENOMEM = 12"
definition EINVAL :: int where "EINVAL = 22"
definition ENOTSUP :: int where "ENOTSUP = 95"

text \<open>\<open>debug_fmt_table\<close>\<close>

definition debug_fmt_table ::
  "'s debug_fmt_ops \<Rightarrow> 's debug_fmt_ops \<Rightarrow> 's debug_fmt_ops \<Rightarrow> 's debug_fmt_ops list" where
  "debug_fmt_table dwarf btf ctf =
     [dwarf\<lparr>op_name := ''dwarf''\<rparr>, btf\<lparr>op_name := ''btf''\<rparr>, ctf\<lparr>op_name := ''ctf''\<rparr>]"

fun loader_loop :: "'s debug_fmt_ops list \<Rightarrow> string \<Rightarrow> nat \<Rightarrow> int" where
  "loader_loop [] name i = -1"
| "loader_loop (f # fs) name i = (if c_strcmp (op_name f) name = 0 then int i else loader_loop fs name (i + 1))"

definition debugging_formats__loader :: "'s debug_fmt_ops list \<Rightarrow> string \<Rightarrow> int" where
  "debugging_formats__loader tbl name = loader_loop tbl name 0"

text \<open>\<open>if (conf && conf->conf_fprintf) conf->conf_fprintf->has_alignment_info = ...\<close>\<close>

definition set_alignment_info :: "'s debug_fmt_ops \<Rightarrow> 's load_state \<Rightarrow> 's load_state" where
  "set_alignment_info f st =
     (case ls_conf st of
        None \<Rightarrow> st
      | Some conf \<Rightarrow>
          (case cl_fprintf conf of
             None \<Rightarrow> st
           | Some _ \<Rightarrow> st\<lparr>ls_conf := Some (conf\<lparr>cl_fprintf := Some (op_has_alignment_info f)\<rparr>)\<rparr>))"

text \<open>The two loops of \<open>cus__load_file\<close>.\<close>

function format_path_loop ::
  "'s debug_fmt_ops list \<Rightarrow> string option \<Rightarrow> string \<Rightarrow> 's load_state \<Rightarrow> int \<times> 's load_state" where
  "format_path_loop tbl filename fp st =
     (case cut_at (CHR '','') fp of (word, sep) \<Rightarrow>
        let loader = debugging_formats__loader tbl word
        in if loader = -1 then (- ENOTSUP, st)
           else
             case op_load_file (tbl ! nat loader) (set_alignment_info (tbl ! nat loader) st) filename of
               (r, st') \<Rightarrow>
                 if r = 0 then (0, st')
                 else (case sep of None \<Rightarrow> (- EINVAL, st') | Some fp' \<Rightarrow> format_path_loop tbl filename fp' st'))"
  by pat_completeness auto
termination
  by (relation "measure (\<lambda>(tbl, filename, fp, st). length fp)") (auto dest: cut_at_length [OF sym])

declare format_path_loop.simps [simp del]

fun table_loop :: "'s debug_fmt_ops list \<Rightarrow> string option \<Rightarrow> 's load_state \<Rightarrow> int \<times> 's load_state" where
  "table_loop [] filename st = (- EINVAL, st)"
| "table_loop (f # fs) filename st =
     (case op_load_file f (set_alignment_info f st) filename of
        (r, st') \<Rightarrow> if r = 0 then (0, st') else table_loop fs filename st')"

definition cus__load_file ::
  "heap_env \<Rightarrow> 's debug_fmt_ops list \<Rightarrow> 's load_state \<Rightarrow> string option \<Rightarrow> int \<times> 's load_state" where
  "cus__load_file h tbl st filename =
     (case (case ls_conf st of None \<Rightarrow> None | Some conf \<Rightarrow> cl_format_path conf) of
        Some path \<Rightarrow>
          if avail h (length path + 1) then format_path_loop tbl filename path st else (- ENOMEM, st)
      | None \<Rightarrow> table_loop tbl filename st)"

section \<open>The running kernel and lists of files\<close>

fun c_strstr :: "string \<Rightarrow> string \<Rightarrow> bool" where
  "c_strstr [] needle = (needle = [])"
| "c_strstr (c # cs) needle = (strstarts (c # cs) needle \<or> c_strstr cs needle)"

text \<open>
  What the search for the running kernel asks of its surroundings: the environment, readable
  files, the release of the kernel, ELF objects, and the content of uninitialised memory.
\<close>

record host =
  ho_getenv :: "string \<Rightarrow> string option"
  ho_file :: "string \<Rightarrow> byte list option"
  ho_uname :: "string option"
  ho_elf :: "string \<Rightarrow> elf option"
  ho_access :: "string \<Rightarrow> bool"
  ho_junk :: string

definition cus__load_running_kernel ::
  "heap_env \<Rightarrow> host \<Rightarrow> 's debug_fmt_ops list \<Rightarrow> 's load_state \<Rightarrow> fault + int \<times> 's load_state" where
  "cus__load_running_kernel h ho tbl st =
     (let path = (case ls_conf st of None \<Rightarrow> None | Some conf \<Rightarrow> cl_format_path conf);
          skip_btf = (case path of None \<Rightarrow> False | Some p \<Rightarrow> \<not> c_strstr p ''btf'');
          btf_only = (case path of None \<Rightarrow> False | Some p \<Rightarrow> \<not> skip_btf \<and> c_strcmp p ''btf'' = 0);
          btf_file = vmlinux_path__btf_filename (ho_getenv ho) None;
          loader = debugging_formats__loader tbl ''btf'';
          (err, st1) =
            (if \<not> skip_btf \<and> ho_access ho btf_file \<and> loader \<noteq> -1 then
               op_load_file (tbl ! nat loader) (set_alignment_info (tbl ! nat loader) st) (Some btf_file)
             else (-1, st))
      in if err = 0 then Inr (0, st1)
         else if btf_only then Inr (-1, st1)
         else
           bindE (vmlinux_path__init h (ho_getenv ho) (ho_file ho) (ho_uname ho)) (\<lambda>paths.
           bindE (vmlinux_path__find_running_kernel_priv (ho_file ho) (ho_elf ho) (ho_junk ho) paths) (\<lambda>vmlinux.
             Inr (cus__load_file h tbl st1 vmlinux))))"

text \<open>The result is the value returned, the new value of \<open>errno\<close> if it is set, and the state.\<close>

fun load_files_loop ::
  "heap_env \<Rightarrow> 's debug_fmt_ops list \<Rightarrow> 's load_state \<Rightarrow> nat \<Rightarrow> string list \<Rightarrow> int \<times> int option \<times> 's load_state" where
  "load_files_loop h tbl st i [] = (0, None, st)"
| "load_files_loop h tbl st i (f # fs) =
     (case cus__load_file h tbl st (Some f) of
        (err, st') \<Rightarrow> if err \<noteq> 0 then (- (int i + 1), Some (- err), st') else load_files_loop h tbl st' (i + 1) fs)"

definition cus__load_files ::
  "heap_env \<Rightarrow> host \<Rightarrow> 's debug_fmt_ops list \<Rightarrow> 's load_state \<Rightarrow> string list \<Rightarrow>
    fault + int \<times> int option \<times> 's load_state" where
  "cus__load_files h ho tbl st filenames =
     (if filenames = [] then
        map_sum id (\<lambda>(r, st'). (r, None, st')) (cus__load_running_kernel h ho tbl st)
      else Inr (load_files_loop h tbl st 0 filenames))"

section \<open>Directories\<close>

text \<open>
  \<open>fs_dir\<close>: the names \<open>readdir\<close> gives for a directory that opens; \<open>fs_lstat\<close>: whether a path is a
  directory, \<open>None\<close> if \<open>lstat\<close> fails; \<open>fs_match\<close> is \<open>fnmatch\<close>.
\<close>

record fsview =
  fs_dir :: "string \<Rightarrow> string list option"
  fs_lstat :: "string \<Rightarrow> bool option"
  fs_match :: "string \<Rightarrow> string \<Rightarrow> bool"

text \<open>\<open>snprintf(pathname, sizeof(pathname), "%.*s/%s", ...)\<close>, \<open>d_name\<close> having 256 bytes.\<close>

definition dir_path :: "string \<Rightarrow> string \<Rightarrow> string" where
  "dir_path dirname d_name = take (PATH_MAX - 1) (take (PATH_MAX - 256 - 1) dirname @ ''/'' @ d_name)"

fun load_entries ::
  "heap_env \<Rightarrow> 's debug_fmt_ops list \<Rightarrow> fsview \<Rightarrow> string \<Rightarrow> bool \<Rightarrow>
    ('s load_state \<Rightarrow> string \<Rightarrow> fault + int \<times> 's load_state) \<Rightarrow>
    's load_state \<Rightarrow> string \<Rightarrow> string list \<Rightarrow> fault + int \<times> 's load_state" where
  "load_entries h tbl fs fmask recursive load_dir st dirname [] = Inr (0, st)"
| "load_entries h tbl fs fmask recursive load_dir st dirname (d_name # es) =
     (if c_strcmp d_name ''.'' = 0 \<or> c_strcmp d_name ''..'' = 0 then
        load_entries h tbl fs fmask recursive load_dir st dirname es
      else
        case fs_lstat fs (dir_path dirname d_name) of
          None \<Rightarrow> Inr (-1, st)
        | Some is_dir \<Rightarrow>
            bindE (if is_dir then (if recursive then load_dir st (dir_path dirname d_name) else Inr (0, st))
                   else if fs_match fs fmask d_name then Inr (cus__load_file h tbl st (Some (dir_path dirname d_name)))
                   else Inr (0, st))
              (\<lambda>(err, st').
                 if err \<noteq> 0 then Inr (err, st')
                 else load_entries h tbl fs fmask recursive load_dir st' dirname es))"

primrec cus__load_dir ::
  "nat \<Rightarrow> heap_env \<Rightarrow> 's debug_fmt_ops list \<Rightarrow> fsview \<Rightarrow> string \<Rightarrow> bool \<Rightarrow>
    's load_state \<Rightarrow> string \<Rightarrow> fault + int \<times> 's load_state" where
  "cus__load_dir 0 h tbl fs fmask recursive st dirname = Inl Out_Of_Fuel"
| "cus__load_dir (Suc n) h tbl fs fmask recursive st dirname =
     (case fs_dir fs dirname of
        None \<Rightarrow> Inr (-1, st)
      | Some es \<Rightarrow>
          load_entries h tbl fs fmask recursive (\<lambda>st. cus__load_dir n h tbl fs fmask recursive st) st dirname es)"

section \<open>Initialisation\<close>

text \<open>\<open>while (i-- != 0) if (exit) exit()\<close> over the formats already initialised, the last one first.\<close>

fun exit_back :: "'s debug_fmt_ops list \<Rightarrow> 's \<Rightarrow> 's" where
  "exit_back [] s = s"
| "exit_back (f # fs) s = exit_back fs (case op_exit f of None \<Rightarrow> s | Some ex \<Rightarrow> ex s)"

fun init_loop :: "'s debug_fmt_ops list \<Rightarrow> 's debug_fmt_ops list \<Rightarrow> 's \<Rightarrow> int \<times> 's" where
  "init_loop before [] s = (0, s)"
| "init_loop before (f # fs) s =
     (case op_init f of
        None \<Rightarrow> init_loop (f # before) fs s
      | Some init \<Rightarrow>
          (case init s of (err, s') \<Rightarrow> if err \<noteq> 0 then (err, exit_back before s') else init_loop (f # before) fs s'))"

definition dwarves__init :: "'s debug_fmt_ops list \<Rightarrow> 's \<Rightarrow> int \<times> 's" where
  "dwarves__init tbl s = init_loop [] tbl s"

fun dwarves__exit :: "'s debug_fmt_ops list \<Rightarrow> 's \<Rightarrow> 's" where
  "dwarves__exit [] s = s"
| "dwarves__exit (f # fs) s = dwarves__exit fs (case op_exit f of None \<Rightarrow> s | Some ex \<Rightarrow> ex s)"

section \<open>Choosing a format\<close>

lemma loader_loop_spec:
  "loader_loop tbl name i = (case find (\<lambda>j. op_name (tbl ! j) = name) [0..<length tbl] of
     None \<Rightarrow> -1 | Some j \<Rightarrow> int (i + j))"
proof (induction tbl arbitrary: i)
  case (Cons f fs)
  have shift: "[0..<length (f # fs)] = 0 # map Suc [0..<length fs]"
    by (simp add: map_Suc_upt upt_conv_Cons del: upt_Suc)
  have fm: "find P (map Suc xs) = map_option Suc (find (P \<circ> Suc) xs)" for P and xs :: "nat list"
    by (induction xs) auto
  show ?case
    unfolding shift by (auto simp: Cons.IH fm o_def split: option.splits)
qed simp

text \<open>The words between the separators.\<close>

function words :: "char \<Rightarrow> string \<Rightarrow> string list" where
  "words c xs = (case cut_at c xs of (a, None) \<Rightarrow> [a] | (a, Some r) \<Rightarrow> a # words c r)"
  by pat_completeness auto
termination by (relation "measure (\<lambda>(c, xs). length xs)") (auto dest: cut_at_length [OF sym])

declare words.simps [simp del]

text \<open>The formats with the given names up to the first unknown name, and whether one was unknown.\<close>

fun known :: "'s debug_fmt_ops list \<Rightarrow> string list \<Rightarrow> 's debug_fmt_ops list \<times> bool" where
  "known tbl [] = ([], False)"
| "known tbl (w # ws) =
     (case find (\<lambda>f. op_name f = w) tbl of
        None \<Rightarrow> ([], True) | Some f \<Rightarrow> map_prod (\<lambda>fs. f # fs) id (known tbl ws))"

text \<open>Trying formats until one loads the file.\<close>

fun try_formats :: "'s debug_fmt_ops list \<Rightarrow> string option \<Rightarrow> 's load_state \<Rightarrow> bool \<times> 's load_state" where
  "try_formats [] filename st = (False, st)"
| "try_formats (f # fs) filename st =
     (case op_load_file f (set_alignment_info f st) filename of
        (r, st') \<Rightarrow> if r = 0 then (True, st') else try_formats fs filename st')"

lemma loader_find:
  "(case find (\<lambda>f. op_name f = w) tbl of
      None \<Rightarrow> debugging_formats__loader tbl w = -1
    | Some f \<Rightarrow> debugging_formats__loader tbl w \<noteq> -1 \<and> tbl ! nat (debugging_formats__loader tbl w) = f)"
proof -
  have "case find (\<lambda>f. op_name f = w) tbl of
      None \<Rightarrow> loader_loop tbl w i = -1
    | Some f \<Rightarrow> loader_loop tbl w i \<ge> int i \<and> tbl ! (nat (loader_loop tbl w i) - i) = f" for i
  proof (induction tbl arbitrary: i)
    case (Cons g fs)
    show ?case using Cons [of "i + 1"]
      by (auto simp: nth_Cons' split: option.splits)
  qed simp
  from this [of 0] show ?thesis by (auto simp: debugging_formats__loader_def split: option.splits)
qed

lemma format_path_loop_words:
  "format_path_loop tbl filename fp st =
    (case known tbl (words (CHR '','') fp) of
       (fs, unknown) \<Rightarrow>
         (case try_formats fs filename st of
            (ok, st') \<Rightarrow> (if ok then 0 else if unknown then - ENOTSUP else - EINVAL, st')))"
proof (induction tbl filename fp st rule: format_path_loop.induct)
  case (1 tbl filename fp st)
  obtain word sep where c: "cut_at (CHR '','') fp = (word, sep)" by force
  show ?case
  proof (cases "find (\<lambda>f. op_name f = word) tbl")
    case None
    then have "debugging_formats__loader tbl word = -1" using loader_find [of tbl word] by simp
    then show ?thesis
      using None by (subst format_path_loop.simps, subst words.simps) (simp add: c split: option.split)
  next
    case (Some f)
    then have l: "debugging_formats__loader tbl word \<noteq> -1" "tbl ! nat (debugging_formats__loader tbl word) = f"
      using loader_find [of tbl word] by simp_all
    obtain r st' where o: "op_load_file f (set_alignment_info f st) filename = (r, st')" by force
    show ?thesis
    proof (cases sep)
      case None
      then show ?thesis
        using Some l o by (subst format_path_loop.simps, subst words.simps) (simp add: c)
    next
      case (Some fp')
      have ih: "r \<noteq> 0 \<Longrightarrow> format_path_loop tbl filename fp' st' =
        (case known tbl (words (CHR '','') fp') of (fs, unknown) \<Rightarrow>
          (case try_formats fs filename st' of
            (ok, st') \<Rightarrow> (if ok then 0 else if unknown then - ENOTSUP else - EINVAL, st')))"
        by (rule "1" [OF c [symmetric] refl l(1) _ _ Some]) (simp_all add: o l(2))
      then show ?thesis
        using \<open>find _ _ = Some f\<close> Some l o
        by (subst format_path_loop.simps, subst words.simps) (auto simp: c Let_def split: prod.splits)
    qed
  qed
qed

lemma words_join: "words c xs = ws \<Longrightarrow> list_all (\<lambda>w. c \<notin> set w) ws \<and> xs = concat (map (\<lambda>w. w @ [c]) (butlast ws)) @ last ws"
proof (induction c xs arbitrary: ws rule: words.induct)
  case (1 c xs)
  obtain a r where c: "cut_at c xs = (a, r)" by force
  note p = cut_at_parts [OF c]
  show ?case
  proof (cases r)
    case None
    then show ?thesis using 1 p by (subst (asm) (2) words.simps) (auto simp: c)
  next
    case (Some r')
    obtain w' ws' where w: "words c r' = w' # ws'" by (cases "words c r'", subst (asm) words.simps) (auto split: prod.splits option.splits)
    have "words c xs = a # words c r'" by (subst words.simps) (simp add: c Some)
    then show ?thesis
      using "1.IH" [of a r r' "w' # ws'"] "1.prems" p w Some by (auto simp: c)
  qed
qed

section \<open>Walking a directory\<close>

text \<open>The files a walk meets, and that everything on the way can be opened and looked at.\<close>

definition entries :: "fsview \<Rightarrow> string \<Rightarrow> string list" where
  "entries fs dirname =
     (case fs_dir fs dirname of None \<Rightarrow> [] | Some es \<Rightarrow> filter (\<lambda>e. e \<noteq> ''.'' \<and> e \<noteq> ''..'') es)"

primrec dir_files :: "nat \<Rightarrow> fsview \<Rightarrow> string \<Rightarrow> bool \<Rightarrow> string \<Rightarrow> string list" where
  "dir_files 0 fs fmask recursive dirname = []"
| "dir_files (Suc n) fs fmask recursive dirname =
     concat (map (\<lambda>e.
       if fs_lstat fs (dir_path dirname e) = Some True
       then (if recursive then dir_files n fs fmask recursive (dir_path dirname e) else [])
       else if fs_match fs fmask e then [dir_path dirname e] else []) (entries fs dirname))"

primrec dir_ok :: "nat \<Rightarrow> fsview \<Rightarrow> bool \<Rightarrow> string \<Rightarrow> bool" where
  "dir_ok 0 fs recursive dirname = False"
| "dir_ok (Suc n) fs recursive dirname =
     (fs_dir fs dirname \<noteq> None \<and>
      list_all (\<lambda>e. fs_lstat fs (dir_path dirname e) \<noteq> None \<and>
        (fs_lstat fs (dir_path dirname e) = Some True \<and> recursive \<longrightarrow> dir_ok n fs recursive (dir_path dirname e)))
        (entries fs dirname))"

fun load_seq :: "heap_env \<Rightarrow> 's debug_fmt_ops list \<Rightarrow> 's load_state \<Rightarrow> string list \<Rightarrow> int \<times> 's load_state" where
  "load_seq h tbl st [] = (0, st)"
| "load_seq h tbl st (f # fs) =
     (case cus__load_file h tbl st (Some f) of (err, st') \<Rightarrow> if err \<noteq> 0 then (err, st') else load_seq h tbl st' fs)"

lemma load_seq_append:
  "load_seq h tbl st (fs @ gs) =
    (case load_seq h tbl st fs of (err, st') \<Rightarrow> if err \<noteq> 0 then (err, st') else load_seq h tbl st' gs)"
  by (induction fs arbitrary: st) (auto split: prod.splits)

text \<open>\<open>cus__load_dir\<close> on a tree of directories that can be opened and whose entries can be looked at
  ends, and loads exactly the files whose names match, in the order of the walk, going down
  only if asked to, until one fails to load.\<close>

lemma load_dir_walks:
  "dir_ok n fs recursive dirname \<Longrightarrow>
    cus__load_dir n h tbl fs fmask recursive st dirname = Inr (load_seq h tbl st (dir_files n fs fmask recursive dirname))"
proof (induction n arbitrary: st dirname)
  case (Suc n)
  obtain es where es: "fs_dir fs dirname = Some es" using Suc.prems by auto
  define fl where "fl e = (if fs_lstat fs (dir_path dirname e) = Some True
       then (if recursive then dir_files n fs fmask recursive (dir_path dirname e) else [])
       else if fs_match fs fmask e then [dir_path dirname e] else [])" for e
  define ok where "ok e \<longleftrightarrow> fs_lstat fs (dir_path dirname e) \<noteq> None \<and>
      (fs_lstat fs (dir_path dirname e) = Some True \<and> recursive \<longrightarrow> dir_ok n fs recursive (dir_path dirname e))" for e
  have "list_all ok (filter (\<lambda>e. e \<noteq> ''.'' \<and> e \<noteq> ''..'') es)"
    using Suc.prems by (simp only: dir_ok.simps entries_def es option.case ok_def [abs_def])
  then have "load_entries h tbl fs fmask recursive (\<lambda>st. cus__load_dir n h tbl fs fmask recursive st) st dirname es =
      Inr (load_seq h tbl st (concat (map fl (filter (\<lambda>e. e \<noteq> ''.'' \<and> e \<noteq> ''..'') es))))"
  proof (induction es arbitrary: st)
    case (Cons e es)
    show ?case
    proof (cases "e = ''.'' \<or> e = ''..''")
      case False
      then have e: "ok e" "list_all ok (filter (\<lambda>e. e \<noteq> ''.'' \<and> e \<noteq> ''..'') es)" using Cons.prems by auto
      obtain d where d: "fs_lstat fs (dir_path dirname e) = Some d" using e(1) by (auto simp: ok_def)
      show ?thesis
        using False Cons.IH [OF e(2)] Suc.IH [of "dir_path dirname e"] e(1) d
        by (cases d; cases recursive) (auto simp: fl_def load_seq_append ok_def split: prod.splits)
    qed (use Cons in auto)
  qed simp
  then show ?case by (simp add: es entries_def fl_def [abs_def])
qed simp

section \<open>Initialising the formats\<close>

text \<open>The state after all formats are initialised, \<open>None\<close> if one fails.\<close>

fun init_all :: "'s debug_fmt_ops list \<Rightarrow> 's \<Rightarrow> 's option" where
  "init_all [] s = Some s"
| "init_all (f # fs) s =
     (case op_init f of
        None \<Rightarrow> init_all fs s
      | Some init \<Rightarrow> (case init s of (err, s') \<Rightarrow> if err = 0 then init_all fs s' else None))"

lemma exit_back_exit: "exit_back fs s = dwarves__exit fs s"
  by (induction fs arbitrary: s) auto

lemma init_loop_outcome:
  "case init_all fs s of
     Some s' \<Rightarrow> init_loop before fs s = (0, s')
   | None \<Rightarrow> \<exists>ok f rest s1 init err s2. fs = ok @ f # rest \<and> init_all ok s = Some s1 \<and> op_init f = Some init \<and>
       init s1 = (err, s2) \<and> err \<noteq> 0 \<and> init_loop before fs s = (err, dwarves__exit (rev ok @ before) s2)"
proof (induction fs arbitrary: before s)
  case (Cons f fs)
  have cons: "\<exists>ok' f' rest s1 init err s2. f # fs = ok' @ f' # rest \<and> init_all ok' s = Some s1 \<and>
      op_init f' = Some init \<and> init s1 = (err, s2) \<and> err \<noteq> 0 \<and>
      init_loop (f # before) fs s0 = (err, dwarves__exit (rev ok' @ before) s2)"
    if "init_all fs s0 = None" and st: "\<And>ok. init_all (f # ok) s = init_all ok s0" for s0
  proof -
    obtain ok f' rest s1 init err s2 where
      "fs = ok @ f' # rest" "init_all ok s0 = Some s1" "op_init f' = Some init" "init s1 = (err, s2)" "err \<noteq> 0"
      "init_loop (f # before) fs s0 = (err, dwarves__exit (rev ok @ f # before) s2)"
      using Cons.IH [of s0 "f # before"] \<open>init_all fs s0 = None\<close> by auto
    then show ?thesis
      by (intro exI [of _ "f # ok"] exI [of _ f'] exI [of _ rest] exI [of _ s1] exI [of _ init] exI [of _ err]
        exI [of _ s2]) (simp add: st del: init_all.simps)
  qed
  show ?case
  proof (cases "op_init f")
    case None
    then show ?thesis using Cons.IH [of s "f # before"] cons [of s] by (auto split: option.splits)
  next
    case (Some init)
    obtain err s0 where r: "init s = (err, s0)" by force
    show ?thesis
    proof (cases "err = 0")
      case True
      then show ?thesis using Some r Cons.IH [of s0 "f # before"] cons [of s0] by (auto split: option.splits)
    next
      case False
      have "f # fs = [] @ f # fs \<and> init_all [] s = Some s \<and> op_init f = Some init \<and> init s = (err, s0) \<and>
          err \<noteq> 0 \<and> init_loop before (f # fs) s = (err, dwarves__exit (rev [] @ before) s0)"
        using False Some r by (simp add: exit_back_exit)
      moreover have "init_all (f # fs) s = None" using False Some r by simp
      ultimately show ?thesis by (simp only: option.case) blast
    qed
  qed
qed simp

section \<open>Properties\<close>

text \<open>C13: \<open>cus__load_file\<close> with a format path tries the named formats from left to right, up to the
  first unknown name, and stops at the first that loads the file; it returns \<open>-ENOTSUP\<close> when it
  meets an unknown name and \<open>-EINVAL\<close> when no format loads the file.\<close>

lemma load_file_first_format:
  assumes "ls_conf st = Some conf" and "cl_format_path conf = Some path" and "avail h (length path + 1)"
    and "known tbl (words (CHR '','') path) = (fs, unknown)" and "try_formats fs filename st = (ok, st')"
  shows "cus__load_file h tbl st filename = (if ok then 0 else if unknown then - ENOTSUP else - EINVAL, st')"
  using assms by (simp add: cus__load_file_def format_path_loop_words)

definition wit_ops :: "string \<Rightarrow> int \<Rightarrow> string list debug_fmt_ops" where
  "wit_ops n r = \<lparr>op_name = n, op_init = Some (\<lambda>l. (r, l @ [n])), op_exit = Some (\<lambda>l. l @ [n]),
     op_load_file = (\<lambda>st f. (r, st\<lparr>ls_cus := ls_cus st @ [n]\<rparr>)), op_has_alignment_info = False\<rparr>"

lemma load_file_first_format_witness:
  "cus__load_file \<lparr>avail = (\<lambda>_. True), fresh = (\<lambda>_. 0)\<rparr>
     (debug_fmt_table (wit_ops ''a'' 0) (wit_ops ''b'' (-1)) (wit_ops ''c'' 0))
     \<lparr>ls_cus = [], ls_conf = Some \<lparr>cl_format_path = Some ''btf,ctf,x'', cl_fprintf = None\<rparr>\<rparr> (Some ''f'') =
   (0, \<lparr>ls_cus = [''b'', ''c''], ls_conf = Some \<lparr>cl_format_path = Some ''btf,ctf,x'', cl_fprintf = None\<rparr>\<rparr>)"
proof -
  have w: "words (CHR '','') ''btf,ctf,x'' = [''btf'', ''ctf'', ''x'']"
    by (subst words.simps, simp, subst words.simps, simp, subst words.simps, simp)
  show ?thesis
    by (subst load_file_first_format [where fs = "[(wit_ops ''b'' (-1))\<lparr>op_name := ''btf''\<rparr>, (wit_ops ''c'' 0)\<lparr>op_name := ''ctf''\<rparr>]"
        and unknown = True and ok = True and path = "''btf,ctf,x''"
        and conf = "\<lparr>cl_format_path = Some ''btf,ctf,x'', cl_fprintf = None\<rparr>"])
    (simp_all add: w debug_fmt_table_def wit_ops_def set_alignment_info_def)
qed

definition wit_fs :: fsview where
  "wit_fs = \<lparr>fs_dir = (\<lambda>d. if d = ''/r'' then Some [''.'', ''..'', ''a'', ''d'', ''b''] else Some [''a'']),
     fs_lstat = (\<lambda>p. Some (p = ''/r/d'')), fs_match = (\<lambda>m e. e = ''a'')\<rparr>"

lemma load_dir_walks_witness:
  "map_sum id (\<lambda>(r, st). (r, ls_cus st)) (cus__load_dir 2 \<lparr>avail = (\<lambda>_. True), fresh = (\<lambda>_. 0)\<rparr> [wit_ops ''x'' 0] wit_fs ''a*'' True
     \<lparr>ls_cus = [], ls_conf = None\<rparr> ''/r'') = Inr (0, [''x'', ''x'']) \<and>
   dir_files 2 wit_fs ''a*'' True ''/r'' = [''/r/a'', ''/r/d/a'']"
proof -
  have ok: "dir_ok 2 wit_fs True ''/r''" by (simp add: numeral_2_eq_2 wit_fs_def entries_def dir_path_def PATH_MAX_def)
  have files: "dir_files 2 wit_fs ''a*'' True ''/r'' = [''/r/a'', ''/r/d/a'']"
    by (simp add: numeral_2_eq_2 wit_fs_def entries_def dir_path_def PATH_MAX_def)
  show ?thesis
    unfolding load_dir_walks [OF ok] files by (simp add: cus__load_file_def wit_ops_def set_alignment_info_def)
qed

text \<open>\<open>dwarves__init\<close> initialises the formats in order; if one fails, the formats before it are
  exited, the last one first, neither the failing one nor any after it, and its error is returned.\<close>

lemma dwarves_init_undoes:
  "case init_all tbl s of
     Some s' \<Rightarrow> dwarves__init tbl s = (0, s')
   | None \<Rightarrow> \<exists>ok f rest s1 init err s2. tbl = ok @ f # rest \<and> init_all ok s = Some s1 \<and> op_init f = Some init \<and>
       init s1 = (err, s2) \<and> err \<noteq> 0 \<and> dwarves__init tbl s = (err, dwarves__exit (rev ok) s2)"
  unfolding dwarves__init_def using init_loop_outcome [of tbl s "[]"] by (simp only: append_Nil2)

end
