(* ===== verification/Tagtree.thy ===== *)
theory Tagtree
  imports Cu "HOL-Library.Multiset"
begin

text \<open>
  Tags as they hang in each other's lists (\<open>dwarves.c\<close>): walking them with an iterator, deleting
  them, and accounting for inline expansions.  \<open>tt_id\<close> stands for the address of the object;
  the lists are those of the structure the \<open>tag\<close> field announces: the entries and variant parts of
  a namespace, the parameters (of a function, an expansion or a pack), the template parameter
  pack, the tags of a lexical block.
\<close>

record tag_info =
  ti_shared_tags :: bool
  ti_suffix_disambiguation :: bool
  ti_attributes :: bool
  ti_lexblock :: lexblock_hdr
  ti_size :: nat

datatype ttree =
  TT (tt_id: nat) (tt_tag: dw_tag) (tt_type: nat) (tt_info: tag_info) (tt_space: "ttree list")
    (tt_variants: "ttree list") (tt_parms: "ttree list") (tt_pack: "ttree option") (tt_block: "ttree list")

section \<open>Adding to lists\<close>

definition lexblock__add_tag :: "ttree list \<Rightarrow> ttree \<Rightarrow> ttree list" where
  "lexblock__add_tag tags t = tags @ [t]"

definition lexblock__add_lexblock :: "lexblock_hdr \<times> ttree list \<Rightarrow> ttree \<Rightarrow> lexblock_hdr \<times> ttree list" where
  "lexblock__add_lexblock b child =
     (case b of (hdr, tags) \<Rightarrow> (hdr\<lparr>lb_nr_lexblocks := u16 (lb_nr_lexblocks hdr + 1)\<rparr>, tags @ [child]))"

definition lexblock__add_inline_expansion :: "lexblock_hdr \<times> ttree list \<Rightarrow> ttree \<Rightarrow> lexblock_hdr \<times> ttree list" where
  "lexblock__add_inline_expansion b exp =
     (case b of (hdr, tags) \<Rightarrow>
        (hdr\<lparr>lb_nr_inline_expansions := u16 (lb_nr_inline_expansions hdr + 1),
            lb_size_inline_expansions := u32 (lb_size_inline_expansions hdr + ti_size (tt_info exp))\<rparr>,
         lexblock__add_tag tags exp))"

definition lexblock__add_variable :: "lexblock_hdr \<times> ttree list \<Rightarrow> ttree \<Rightarrow> lexblock_hdr \<times> ttree list" where
  "lexblock__add_variable b var =
     (case b of (hdr, tags) \<Rightarrow> (hdr\<lparr>lb_nr_variables := u16 (lb_nr_variables hdr + 1)\<rparr>, lexblock__add_tag tags var))"

definition lexblock__add_label :: "lexblock_hdr \<times> ttree list \<Rightarrow> ttree \<Rightarrow> lexblock_hdr \<times> ttree list" where
  "lexblock__add_label b label =
     (case b of (hdr, tags) \<Rightarrow> (hdr\<lparr>lb_nr_labels := u16 (lb_nr_labels hdr + 1)\<rparr>, lexblock__add_tag tags label))"

section \<open>Walking\<close>

text \<open>The lists are walked backwards; the result of the iterator and its state are threaded.\<close>

fun list__for_all_tags :: "(ttree \<Rightarrow> 's \<Rightarrow> int \<times> 's) \<Rightarrow> ttree list \<Rightarrow> 's \<Rightarrow> int \<times> 's"
  and for_all_tag :: "(ttree \<Rightarrow> 's \<Rightarrow> int \<times> 's) \<Rightarrow> ttree \<Rightarrow> 's \<Rightarrow> int \<times> 's" where
  "list__for_all_tags it [] s = (0, s)"
| "list__for_all_tags it (t # ts) s =
     (case list__for_all_tags it ts s of (r, s1) \<Rightarrow> if r \<noteq> 0 then (1, s1) else for_all_tag it t s1)"
| "for_all_tag it (TT i tg ty info sp va pa pk bl) s =
     (case (if tag__has_namespace tg then
              (if ti_shared_tags info then (0, s) else list__for_all_tags it sp s)
            else if tag__is_function tg then
              (case list__for_all_tags it pa s of
                 (r, s1) \<Rightarrow> if r \<noteq> 0 then (1, s1) else list__for_all_tags it bl s1)
            else if tg = DW_TAG_subroutine_type then list__for_all_tags it pa s
            else if tg = DW_TAG_lexical_block then list__for_all_tags it bl s
            else if tg = DW_TAG_inlined_subroutine then list__for_all_tags it pa s
            else (0, s)) of
        (r, s1) \<Rightarrow>
          if r \<noteq> 0 then (1, s1)
          else case it (TT i tg ty info sp va pa pk bl) s1 of (r', s2) \<Rightarrow> (if r' \<noteq> 0 then 1 else 0, s2))"

definition cu__for_all_tags :: "(ttree \<Rightarrow> 's \<Rightarrow> int \<times> 's) \<Rightarrow> ttree list \<Rightarrow> 's \<Rightarrow> int \<times> 's" where
  "cu__for_all_tags it tags s = list__for_all_tags it tags s"

section \<open>Deleting\<close>

text \<open>What is freed, in order: a tag through \<open>cu__tag_free\<close>, its attributes, or its name.\<close>

datatype free_event = Free_tag nat | Free_attributes nat | Free_name nat

text \<open>Entries of a type go through \<open>class_member__delete\<close>, variant parts through
  \<open>variant_part__delete\<close>, parameters of a function through \<open>parameter__delete\<close>: each frees the tag only.\<close>

definition class_member__delete :: "ttree \<Rightarrow> free_event list" where
  "class_member__delete t = [Free_tag (tt_id t)]"

definition variant_part__delete :: "ttree \<Rightarrow> free_event list" where
  "variant_part__delete t = [Free_tag (tt_id t)]"

definition parameter__delete :: "ttree \<Rightarrow> free_event list" where
  "parameter__delete t = [Free_tag (tt_id t)]"

definition type__delete_class_members :: "ttree list \<Rightarrow> free_event list" where
  "type__delete_class_members sp = concat (map class_member__delete (rev sp))"

definition type__delete_variant_parts :: "ttree list \<Rightarrow> free_event list" where
  "type__delete_variant_parts va = concat (map variant_part__delete (rev va))"

definition class__delete :: "nat \<Rightarrow> ttree list \<Rightarrow> ttree list \<Rightarrow> free_event list" where
  "class__delete i sp va = type__delete_class_members sp @ type__delete_variant_parts va @ [Free_tag i]"

text \<open>\<open>delete_tags\<close> is the loop of \<open>lexblock__delete_tags\<close>, the two packs' and the expansion's
  \<open>delete_tags\<close>, and of \<open>enumeration__delete\<close>.\<close>

fun delete_tags :: "ttree list \<Rightarrow> free_event list"
  and tag__delete :: "ttree \<Rightarrow> free_event list"
  and template_parameter_pack__delete :: "ttree option \<Rightarrow> free_event list" where
  "delete_tags [] = []"
| "delete_tags (t # ts) = delete_tags ts @ tag__delete t"
| "template_parameter_pack__delete None = []"
| "template_parameter_pack__delete (Some (TT i tg ty info sp va pa pk bl)) = delete_tags pa @ [Free_tag i]"
| "tag__delete (TT i tg ty info sp va pa pk bl) =
     (if ti_attributes info then [Free_attributes i] else []) @
     (if tg = DW_TAG_union_type then
        type__delete_class_members sp @ type__delete_variant_parts va @
        (if ti_suffix_disambiguation info then [Free_name i] else []) @ template_parameter_pack__delete pk @ [Free_tag i]
      else if tg = DW_TAG_class_type \<or> tg = DW_TAG_structure_type then class__delete i sp va
      else if tg = DW_TAG_enumeration_type then
        (if ti_shared_tags info then [] else delete_tags sp) @
        (if ti_suffix_disambiguation info then [Free_name i] else []) @ [Free_tag i]
      else if tg = DW_TAG_subroutine_type then
        concat (map parameter__delete (rev pa)) @ template_parameter_pack__delete pk @ [Free_tag i]
      else if tg = DW_TAG_subprogram then
        delete_tags bl @ concat (map parameter__delete (rev pa)) @ template_parameter_pack__delete pk @ [Free_tag i]
      else if tg = DW_TAG_inlined_subroutine then delete_tags pa @ [Free_tag i]
      else if tg = DW_TAG_lexical_block then delete_tags bl @ [Free_tag i]
      else if tg = DW_TAG_GNU_template_parameter_pack then delete_tags pa @ [Free_tag i]
      else if tg = DW_TAG_GNU_formal_parameter_pack then delete_tags pa @ [Free_tag i]
      else [Free_tag i])"

section \<open>Inline expansions\<close>

text \<open>The counters of the function an expansion refers to (16 and 32 bits wide).\<close>

definition count_expansion :: "cu \<Rightarrow> nat \<Rightarrow> nat \<Rightarrow> fault + cu" where
  "count_expansion cu ty sz =
     bindE (cu__function (Some cu) ty) (\<lambda>t.
       case t of
         None \<Rightarrow> Inr cu
       | Some t' \<Rightarrow>
           bindE (tag__function t') (\<lambda>f.
             let f' = f\<lparr>fn_cu_total_nr_inline_expansions := u16 (fn_cu_total_nr_inline_expansions f + 1),
                        fn_cu_total_size_inline_expansions := u32 (fn_cu_total_size_inline_expansions f + sz)\<rparr>;
                 pt = cu_functions_table cu
             in Inr (cu\<lparr>cu_functions_table := pt\<lparr>pt_entries := (pt_entries pt)[ty := Some (t'\<lparr>tg_body := Function_body f'\<rparr>)]\<rparr>\<rparr>)))"

fun account_tags :: "ttree list \<Rightarrow> cu \<Rightarrow> fault + cu"
  and lexblock__account_inline_expansions :: "ttree \<Rightarrow> cu \<Rightarrow> fault + cu" where
  "account_tags [] cu = Inr cu"
| "account_tags (t # ts) cu =
     (case (if tt_tag t = DW_TAG_lexical_block then lexblock__account_inline_expansions t cu
            else if tt_tag t \<noteq> DW_TAG_inlined_subroutine then Inr cu
            else count_expansion cu (tt_type t) (ti_size (tt_info t))) of
        Inl e \<Rightarrow> Inl e | Inr cu1 \<Rightarrow> account_tags ts cu1)"
| "lexblock__account_inline_expansions (TT i tg ty info sp va pa pk bl) cu =
     (if lb_nr_inline_expansions (ti_lexblock info) = 0 then Inr cu else account_tags bl cu)"

text \<open>The loop over the tags of the unit, given as trees.\<close>

fun cu__account_inline_expansions :: "ttree list \<Rightarrow> cu \<Rightarrow> fault + cu" where
  "cu__account_inline_expansions [] cu = Inr cu"
| "cu__account_inline_expansions (t # ts) cu =
     (if \<not> tag__is_function (tt_tag t) then cu__account_inline_expansions ts cu
      else
        case lexblock__account_inline_expansions t cu of
          Inl e \<Rightarrow> Inl e
        | Inr cu1 \<Rightarrow>
            cu__account_inline_expansions ts
              (cu1\<lparr>cu_nr_inline_expansions := u64 (cu_nr_inline_expansions cu1 + lb_nr_inline_expansions (ti_lexblock (tt_info t))),
                   cu_size_inline_expansions := u64 (cu_size_inline_expansions cu1 + lb_size_inline_expansions (ti_lexblock (tt_info t)))\<rparr>))"

section \<open>The order of a walk\<close>

fun post_list :: "ttree list \<Rightarrow> ttree list" and post_tag :: "ttree \<Rightarrow> ttree list" where
  "post_list [] = []"
| "post_list (t # ts) = post_list ts @ post_tag t"
| "post_tag (TT i tg ty info sp va pa pk bl) =
     (if tag__has_namespace tg then (if ti_shared_tags info then [] else post_list sp)
      else if tag__is_function tg then post_list pa @ post_list bl
      else if tg = DW_TAG_subroutine_type \<or> tg = DW_TAG_inlined_subroutine then post_list pa
      else if tg = DW_TAG_lexical_block then post_list bl
      else []) @ [TT i tg ty info sp va pa pk bl]"

text \<open>Calling an iterator on a list until it returns something else than 0.\<close>

fun call_until :: "(ttree \<Rightarrow> 's \<Rightarrow> int \<times> 's) \<Rightarrow> ttree list \<Rightarrow> 's \<Rightarrow> int \<times> 's" where
  "call_until it [] s = (0, s)"
| "call_until it (t # ts) s = (case it t s of (r, s') \<Rightarrow> if r \<noteq> 0 then (1, s') else call_until it ts s')"

lemma call_until_append:
  "call_until it (ts @ us) s =
    (case call_until it ts s of (r, s') \<Rightarrow> if r \<noteq> 0 then (1, s') else call_until it us s')"
  by (induction it ts s rule: call_until.induct) (auto split: prod.splits)

lemma for_all_call_until:
  "list__for_all_tags it ts s = call_until it (post_list ts) s"
  "for_all_tag it t s = call_until it (post_tag t) s"
proof (induction it ts s and it t s rule: list__for_all_tags_for_all_tag.induct)
  case (2 it t ts s)
  then show ?case by (auto simp: call_until_append split: prod.splits)
next
  case (3 it i tg ty info sp va pa pk bl s)
  let ?t = "TT i tg ty info sp va pa pk bl"
  define body where "body = (if tag__has_namespace tg then (if ti_shared_tags info then [] else post_list sp)
      else if tag__is_function tg then post_list pa @ post_list bl
      else if tg = DW_TAG_subroutine_type \<or> tg = DW_TAG_inlined_subroutine then post_list pa
      else if tg = DW_TAG_lexical_block then post_list bl else [])"
  have last: "call_until it [?t] s1 = (case it ?t s1 of (r', s2) \<Rightarrow> (if r' \<noteq> 0 then 1 else 0, s2))" for s1
    by (simp split: prod.splits)
  have "(if tag__has_namespace tg then
              (if ti_shared_tags info then (0, s) else list__for_all_tags it sp s)
            else if tag__is_function tg then
              (case list__for_all_tags it pa s of
                 (r, s1) \<Rightarrow> if r \<noteq> 0 then (1, s1) else list__for_all_tags it bl s1)
            else if tg = DW_TAG_subroutine_type then list__for_all_tags it pa s
            else if tg = DW_TAG_lexical_block then list__for_all_tags it bl s
            else if tg = DW_TAG_inlined_subroutine then list__for_all_tags it pa s
            else (0, s)) = call_until it body s"
    unfolding body_def
  proof (cases "tag__has_namespace tg", goal_cases)
    case 1
    then show ?case using "3"(1) by simp
  next
    case 2
    show ?case
    proof (cases "tag__is_function tg")
      case True
      then show ?thesis using 2 "3"(2,3) by (simp add: call_until_append split: prod.splits)
    next
      case False
      then show ?thesis using 2 "3"(4) [OF 2 False] "3"(5) [OF 2 False] "3"(6) [OF 2 False] by auto
    qed
  qed
  then show ?case
    unfolding for_all_tag.simps post_tag.simps body_def [symmetric] call_until_append last
    by (simp only:)
qed simp

section \<open>Deletion frees nothing twice\<close>

fun ids_list :: "ttree list \<Rightarrow> nat list" and ids_tag :: "ttree \<Rightarrow> nat list" and ids_pack :: "ttree option \<Rightarrow> nat list" where
  "ids_list [] = []"
| "ids_list (t # ts) = ids_list ts @ ids_tag t"
| "ids_pack None = []"
| "ids_pack (Some (TT i tg ty info sp va pa pk bl)) =
     ids_list sp @ ids_list va @ ids_list pa @ ids_pack pk @ ids_list bl @ [i]"
| "ids_tag (TT i tg ty info sp va pa pk bl) =
     ids_list sp @ ids_list va @ ids_list pa @ ids_pack pk @ ids_list bl @ [i]"

definition events :: "nat list \<Rightarrow> free_event multiset" where
  "events is = (\<Sum>i\<in>#mset is. {#Free_attributes i, Free_name i, Free_tag i#})"

lemma events_simps [simp]:
  "events [] = {#}" "events (i # is) = {#Free_attributes i, Free_name i, Free_tag i#} + events is"
  "events (is @ js) = events is + events js"
  by (simp_all add: events_def)

lemma tt_id_events: "{#Free_tag (tt_id t)#} \<subseteq># events (ids_tag t)"
  by (cases t) simp

definition tally :: "free_event \<Rightarrow> free_event list \<Rightarrow> nat" where
  "tally x es = count (mset es) x"

definition allowed :: "free_event \<Rightarrow> nat list \<Rightarrow> nat" where
  "allowed x is = count (events is) x"

definition hit :: "free_event \<Rightarrow> free_event \<Rightarrow> nat" where
  "hit x e = (if x = e then 1 else 0)"

lemma tally_simps [simp]:
  "tally x [] = 0" "tally x (e # es) = hit x e + tally x es"
  "tally x (es @ fs) = tally x es + tally x fs"
  by (auto simp: tally_def hit_def)

lemma allowed_simps [simp]:
  "allowed x [] = 0"
  "allowed x (i # is) = hit x (Free_attributes i) + hit x (Free_name i) + hit x (Free_tag i) + allowed x is"
  "allowed x (is @ js) = allowed x is + allowed x js"
  by (auto simp: allowed_def hit_def)

lemma members_tally:
  "tally x (concat (map (\<lambda>t. [Free_tag (tt_id t)]) (rev ts))) \<le> allowed x (ids_list ts)"
proof (induction ts)
  case (Cons t ts)
  have "tally x [Free_tag (tt_id t)] \<le> allowed x (ids_tag t)" by (cases t) simp
  then show ?case using Cons by simp
qed simp

lemmas members_tally' = members_tally [folded class_member__delete_def]
  members_tally [folded variant_part__delete_def] members_tally [folded parameter__delete_def]

lemma delete_tally:
  "tally x (delete_tags ts) \<le> allowed x (ids_list ts)"
  "tally x (tag__delete t) \<le> allowed x (ids_tag t)"
  "tally x (template_parameter_pack__delete p) \<le> allowed x (ids_pack p)"
proof (induction ts and t and p rule: ids_list_ids_tag_ids_pack.induct)
  case (5 i tg ty info sp va pa pk bl)
  note b = members_tally' [of x sp] members_tally' [of x va] members_tally' [of x pa]
  show ?case
    using 5 b
    by (cases tg) (simp_all add: type__delete_class_members_def type__delete_variant_parts_def class__delete_def)
qed (auto intro: add_mono)

lemma allowed_distinct: "distinct is \<Longrightarrow> allowed x is \<le> 1"
proof (induction "is")
  case (Cons i js)
  have "allowed x js = 0" if "x = Free_attributes i \<or> x = Free_name i \<or> x = Free_tag i" "i \<notin> set js"
    using that(2) by (induction js) (use that(1) in \<open>auto simp: hit_def\<close>)
  then show ?case using Cons by (auto simp: hit_def)
qed simp

lemma tally_distinct: "(\<And>x. tally x es \<le> 1) \<Longrightarrow> distinct es"
  by (simp add: tally_def distinct_count_atmost_1 le_Suc_eq count_eq_zero_iff)

lemma tag_delete_last: "last (tag__delete t) = Free_tag (tt_id t)"
  by (cases t) (auto simp: class__delete_def)

text \<open>What is reachable is freed, where nothing hangs in a list that the deletion does not look at.\<close>

fun leaf :: "ttree \<Rightarrow> bool" where
  "leaf (TT i tg ty info sp va pa pk bl) \<longleftrightarrow> sp = [] \<and> va = [] \<and> pa = [] \<and> pk = None \<and> bl = []"

fun kept_list :: "ttree list \<Rightarrow> bool" and kept :: "ttree \<Rightarrow> bool" and kept_pack :: "ttree option \<Rightarrow> bool" where
  "kept_list [] = True"
| "kept_list (t # ts) = (kept t \<and> kept_list ts)"
| "kept_pack None = True"
| "kept_pack (Some (TT i tg ty info sp va pa pk bl)) = (sp = [] \<and> va = [] \<and> pk = None \<and> bl = [] \<and> kept_list pa)"
| "kept (TT i tg ty info sp va pa pk bl) =
     (if tg = DW_TAG_union_type then list_all leaf sp \<and> list_all leaf va \<and> pa = [] \<and> bl = [] \<and> kept_pack pk
      else if tg = DW_TAG_class_type \<or> tg = DW_TAG_structure_type then
        list_all leaf sp \<and> list_all leaf va \<and> pa = [] \<and> bl = [] \<and> pk = None
      else if tg = DW_TAG_enumeration_type then
        (if ti_shared_tags info then sp = [] else kept_list sp) \<and> va = [] \<and> pa = [] \<and> bl = [] \<and> pk = None
      else if tg = DW_TAG_subroutine_type then list_all leaf pa \<and> sp = [] \<and> va = [] \<and> bl = [] \<and> kept_pack pk
      else if tg = DW_TAG_subprogram then list_all leaf pa \<and> sp = [] \<and> va = [] \<and> kept_list bl \<and> kept_pack pk
      else if tg = DW_TAG_lexical_block then kept_list bl \<and> sp = [] \<and> va = [] \<and> pa = [] \<and> pk = None
      else if tg = DW_TAG_inlined_subroutine \<or> tg = DW_TAG_GNU_template_parameter_pack \<or>
        tg = DW_TAG_GNU_formal_parameter_pack then kept_list pa \<and> sp = [] \<and> va = [] \<and> bl = [] \<and> pk = None
      else sp = [] \<and> va = [] \<and> pa = [] \<and> pk = None \<and> bl = [])"

lemma leaf_frees:
  "list_all leaf ts \<Longrightarrow> j \<in> set (ids_list ts) \<Longrightarrow>
    Free_tag j \<in> set (concat (map (\<lambda>t. [Free_tag (tt_id t)]) (rev ts)))"
proof (induction ts)
  case (Cons t ts)
  then show ?case by (cases t) auto
qed simp

lemmas leaf_frees' = leaf_frees [folded class_member__delete_def]
  leaf_frees [folded variant_part__delete_def] leaf_frees [folded parameter__delete_def]

definition frees :: "nat \<Rightarrow> free_event list \<Rightarrow> bool" where
  "frees j es \<longleftrightarrow> Free_tag j \<in> set es"

lemma frees_simps [simp]:
  "\<not> frees j []" "frees j (e # es) \<longleftrightarrow> e = Free_tag j \<or> frees j es" "frees j (es @ fs) \<longleftrightarrow> frees j es \<or> frees j fs"
  by (auto simp: frees_def)

lemma kept_frees:
  "kept_list ts \<Longrightarrow> j \<in> set (ids_list ts) \<Longrightarrow> frees j (delete_tags ts)"
  "kept t \<Longrightarrow> j \<in> set (ids_tag t) \<Longrightarrow> frees j (tag__delete t)"
  "kept_pack p \<Longrightarrow> j \<in> set (ids_pack p) \<Longrightarrow> frees j (template_parameter_pack__delete p)"
proof (induction ts and t and p rule: ids_list_ids_tag_ids_pack.induct)
  case (5 i tg ty info sp va pa pk bl)
  note b = leaf_frees' [of sp j, folded frees_def] leaf_frees' [of va j, folded frees_def]
    leaf_frees' [of pa j, folded frees_def]
  show ?case
    using 5 b
    by (cases tg) (simp_all add: type__delete_class_members_def type__delete_variant_parts_def class__delete_def
      split: if_splits; blast)+
qed auto

section \<open>What the accounting adds up\<close>

text \<open>The expansions it reaches, in order, with their sizes.\<close>

fun block_expansions :: "ttree list \<Rightarrow> (nat \<times> nat) list" and expansions :: "ttree \<Rightarrow> (nat \<times> nat) list" where
  "block_expansions [] = []"
| "block_expansions (t # ts) =
     (if tt_tag t = DW_TAG_lexical_block then expansions t
      else if tt_tag t = DW_TAG_inlined_subroutine then [(tt_type t, ti_size (tt_info t))] else []) @ block_expansions ts"
| "expansions (TT i tg ty info sp va pa pk bl) =
     (if lb_nr_inline_expansions (ti_lexblock info) = 0 then [] else block_expansions bl)"

lemma fold_e_append: "fold_e f (xs @ ys) s = (case fold_e f xs s of Inl e \<Rightarrow> Inl e | Inr s' \<Rightarrow> fold_e f ys s')"
  by (induction xs arbitrary: s) (auto split: sum.splits)

lemma account_fold:
  "account_tags ts cu = fold_e (\<lambda>(ty, sz) cu. count_expansion cu ty sz) (block_expansions ts) cu"
  "lexblock__account_inline_expansions t cu = fold_e (\<lambda>(ty, sz) cu. count_expansion cu ty sz) (expansions t) cu"
  by (induction ts cu and t cu rule: account_tags_lexblock__account_inline_expansions.induct)
    (auto simp: fold_e_append split: sum.splits)

definition cu_fn :: "cu \<Rightarrow> nat \<Rightarrow> function_t option" where
  "cu_fn cu i =
     (let pt = cu_functions_table cu
      in if i < pt_nr_entries pt \<and> i < length (pt_entries pt) then
           (case pt_entries pt ! i of
              None \<Rightarrow> None | Some t \<Rightarrow> (case tg_body t of Function_body f \<Rightarrow> Some f | _ \<Rightarrow> None))
         else None)"

definition counted :: "function_t \<Rightarrow> nat \<Rightarrow> function_t" where
  "counted f sz =
     f\<lparr>fn_cu_total_nr_inline_expansions := u16 (fn_cu_total_nr_inline_expansions f + 1),
       fn_cu_total_size_inline_expansions := u32 (fn_cu_total_size_inline_expansions f + sz)\<rparr>"

lemma count_expansion_ok:
  assumes "cu_fn cu ty = Some f"
  shows "\<exists>cu'. count_expansion cu ty sz = Inr cu' \<and> cu_fn cu' = (cu_fn cu)(ty := Some (counted f sz))"
proof -
  obtain t where t: "ty < pt_nr_entries (cu_functions_table cu)" "ty < length (pt_entries (cu_functions_table cu))"
    "pt_entries (cu_functions_table cu) ! ty = Some t" "tg_body t = Function_body f"
    using assms by (auto simp: cu_fn_def Let_def split: if_splits option.splits tag_body.splits)
  show ?thesis
    using t by (auto simp: count_expansion_def cu__function_def ptr_table__entry_def tag__function_def counted_def
      cu_fn_def Let_def fun_eq_iff nth_list_update)
qed

lemma fold_count:
  assumes "list_all (\<lambda>(ty, sz). cu_fn cu ty \<noteq> None) es"
  shows "\<exists>cu'. fold_e (\<lambda>(ty, sz) cu. count_expansion cu ty sz) es cu = Inr cu' \<and>
    (\<forall>i. cu_fn cu' i =
      fold (\<lambda>(ty, sz) r. if ty = i then map_option (\<lambda>f. counted f sz) r else r) es (cu_fn cu i))"
  using assms
proof (induction es arbitrary: cu)
  case (Cons e es)
  obtain ty sz where e: "e = (ty, sz)" by force
  obtain f where f: "cu_fn cu ty = Some f" using Cons.prems e by auto
  obtain cu1 where cu1: "count_expansion cu ty sz = Inr cu1" "cu_fn cu1 = (cu_fn cu)(ty := Some (counted f sz))"
    using count_expansion_ok [OF f] by blast
  have "list_all (\<lambda>(ty, sz). cu_fn cu1 ty \<noteq> None) es"
    using Cons.prems cu1(2) by (auto simp: list_all_iff split: if_splits)
  from Cons.IH [OF this] show ?case using f by (auto simp: e cu1 split: if_splits)
qed simp

lemma fold_counted:
  "\<exists>f'. fold (\<lambda>(ty, sz) r. if ty = i then map_option (\<lambda>f. counted f sz) r else r) es (Some f) = Some f' \<and>
    u16 (fn_cu_total_nr_inline_expansions f') =
      u16 (fn_cu_total_nr_inline_expansions f + length (filter (\<lambda>e. fst e = i) es)) \<and>
    u32 (fn_cu_total_size_inline_expansions f') =
      u32 (fn_cu_total_size_inline_expansions f + sum_list (map snd (filter (\<lambda>e. fst e = i) es)))"
proof (induction es arbitrary: f)
  case (Cons e es)
  obtain ty sz where e: "e = (ty, sz)" by force
  show ?case
  proof (cases "ty = i")
    case True
    from Cons [of "counted f sz"] obtain f' where
      "fold (\<lambda>(ty, sz) r. if ty = i then map_option (\<lambda>f. counted f sz) r else r) es (Some (counted f sz)) = Some f'"
      "u16 (fn_cu_total_nr_inline_expansions f') =
        u16 (u16 (fn_cu_total_nr_inline_expansions f + 1) + length (filter (\<lambda>e. fst e = i) es))"
      "u32 (fn_cu_total_size_inline_expansions f') =
        u32 (u32 (fn_cu_total_size_inline_expansions f + sz) + sum_list (map snd (filter (\<lambda>e. fst e = i) es)))"
      by (auto simp: counted_def)
    then show ?thesis using True by (simp add: e mod_add_left_eq add.assoc mod_simps)
  qed (use Cons e in auto)
qed simp

section \<open>Properties\<close>

text \<open>C14: \<open>cu__for_all_tags\<close> calls the iterator on the tags it reaches, the last sibling first and every tag
  after those below it, until the iterator returns something else than 0, and then returns 1.\<close>

lemma for_all_tags_post_order: "cu__for_all_tags it tags s = call_until it (post_list tags) s"
  unfolding cu__for_all_tags_def by (rule for_all_call_until)

text \<open>C15: Deleting a tag frees no object twice, neither tags nor names nor attributes, frees the tag
  itself last, and leaves nothing behind when only tags without children hang in the lists
  whose elements are freed without looking below them.\<close>

lemma tag_delete_frees_once:
  assumes "distinct (ids_tag t)"
  shows "distinct (tag__delete t) \<and> last (tag__delete t) = Free_tag (tt_id t) \<and>
    (if kept t then list_all (\<lambda>j. Free_tag j \<in> set (tag__delete t)) (ids_tag t) else True)"
proof (intro conjI)
  show "distinct (tag__delete t)"
    by (rule tally_distinct) (rule order_trans [OF delete_tally(2) allowed_distinct [OF assms]])
  show "last (tag__delete t) = Free_tag (tt_id t)" by (rule tag_delete_last)
  show "if kept t then list_all (\<lambda>j. Free_tag j \<in> set (tag__delete t)) (ids_tag t) else True"
    using kept_frees(2) [of t] by (auto simp: list_all_iff frees_def)
qed

definition wit_hdr :: "nat \<Rightarrow> lexblock_hdr" where
  "wit_hdr n = \<lparr>lb_addr = 0, lb_size = 0, lb_nr_inline_expansions = n, lb_nr_labels = 0, lb_nr_variables = 0,
     lb_nr_lexblocks = 0, lb_size_inline_expansions = 0\<rparr>"

definition wit_info :: "nat \<Rightarrow> nat \<Rightarrow> tag_info" where
  "wit_info n sz = \<lparr>ti_shared_tags = False, ti_suffix_disambiguation = False, ti_attributes = True,
     ti_lexblock = wit_hdr n, ti_size = sz\<rparr>"

definition wit_inl :: ttree where
  "wit_inl = TT 3 DW_TAG_inlined_subroutine 0 (wit_info 0 8) [] [] [] None []"

definition wit_fn :: "nat \<Rightarrow> nat \<Rightarrow> ttree" where
  "wit_fn n m = TT 1 DW_TAG_subprogram 0 (wit_info n 0) [] [] [] None
     [TT 2 DW_TAG_lexical_block 0 (wit_info m 0) [] [] [] None [wit_inl]]"

lemma tag_delete_frees_once_witness:
  "tag__delete (wit_fn 1 1) = [Free_attributes 1, Free_attributes 2, Free_attributes 3, Free_tag 3, Free_tag 2, Free_tag 1] \<and>
   distinct (tag__delete (wit_fn 1 1))"
  using tag_delete_frees_once [of "wit_fn 1 1"] by (simp add: wit_fn_def wit_inl_def wit_info_def)

text \<open>When the expansions it reaches refer to functions of the unit, the accounting of a function's
  block ends and adds to each function the number and the sizes of its expansions, modulo the
  widths of the counters.\<close>

lemma account_adds_expansions:
  assumes "list_all (\<lambda>(ty, sz). cu_fn cu ty \<noteq> None) (expansions t)" and "cu_fn cu i = Some f"
  shows "\<exists>cu' f'. lexblock__account_inline_expansions t cu = Inr cu' \<and> cu_fn cu' i = Some f' \<and>
    u16 (fn_cu_total_nr_inline_expansions f') =
      u16 (fn_cu_total_nr_inline_expansions f + length (filter (\<lambda>e. fst e = i) (expansions t))) \<and>
    u32 (fn_cu_total_size_inline_expansions f') =
      u32 (fn_cu_total_size_inline_expansions f + sum_list (map snd (filter (\<lambda>e. fst e = i) (expansions t))))"
  using fold_count [OF assms(1)] fold_counted [of i "expansions t" f] assms(2)
  by (auto simp: account_fold)

definition wit_fn_tag :: tag where
  "wit_fn_tag = \<lparr>tg_tag = DW_TAG_subprogram, tg_type = 0, tg_body = Function_body
     \<lparr>fn_proto = \<lparr>ft_parms = [], ft_byte_size = 0, ft_nr_parms = 0, ft_unspec_parms = False\<rparr>, fn_lexblock = wit_hdr 0,
       fn_name = None, fn_linkage_name = None, fn_cu_total_size_inline_expansions = 4,
       fn_cu_total_nr_inline_expansions = 65535, fn_inlined = 0, fn_external = False, fn_declaration = False,
       fn_btf = False,
      fn_virtuality = DW_VIRTUALITY_none, fn_accessibility = 0, fn_vtable_entry = -1, fn_attributes = [], fn_abstract_origin = False\<rparr>\<rparr>"

definition wit_fn_cu :: cu where
  "wit_fn_cu = cu_zero\<lparr>cu_functions_table := \<lparr>pt_entries = [Some wit_fn_tag], pt_nr_entries = 1, pt_allocated_entries = 1\<rparr>\<rparr>"

lemma account_adds_expansions_witness:
  "\<exists>cu' f'. lexblock__account_inline_expansions (wit_fn 1 1) wit_fn_cu = Inr cu' \<and> cu_fn cu' 0 = Some f' \<and>
     u16 (fn_cu_total_nr_inline_expansions f') = 0 \<and> u32 (fn_cu_total_size_inline_expansions f') = 12"
proof -
  obtain f where f: "cu_fn wit_fn_cu 0 = Some f" "fn_cu_total_nr_inline_expansions f = 65535"
    "fn_cu_total_size_inline_expansions f = 4"
    by (simp add: cu_fn_def wit_fn_cu_def wit_fn_tag_def)
  have e: "expansions (wit_fn 1 1) = [(0, 8)]" by (simp add: wit_fn_def wit_inl_def wit_info_def wit_hdr_def)
  show ?thesis
    using account_adds_expansions [of wit_fn_cu "wit_fn 1 1" 0 f, unfolded e] by (simp add: f)
qed

text \<open>A block without expansions of its own hides those of the blocks inside it.\<close>

lemma account_misses_nested: "expansions (wit_fn 0 1) = [] \<and> expansions (wit_fn 1 1) = [(0, 8)]"
  by (simp add: wit_fn_def wit_inl_def wit_info_def wit_hdr_def)

end
