(* ===== verification/Ctf.thy ===== *)
theory Ctf
  imports Bytes Gobuffer Buildid
begin

text \<open>
  The compact type format (\<open>ctf.h\<close>, \<open>libctf.c\<close>): the encodings, reading integers of either byte
  order, loading the section, and the routines that append types, members, parameters and
  enumerators to the buffers of a \<open>struct ctf\<close>.
\<close>

section \<open>Encodings\<close>

definition CTF_REF_OFFSET :: "32 word \<Rightarrow> 32 word" where
  "CTF_REF_OFFSET r = r AND 0x7fffffff"

definition CTF_REF_TBL_ID :: "32 word \<Rightarrow> 32 word" where
  "CTF_REF_TBL_ID r = drop_bit 31 r AND 1"

definition CTF_GET_KIND :: "16 word \<Rightarrow> 16 word" where
  "CTF_GET_KIND v = drop_bit 11 v AND 0x1f"

definition CTF_GET_VLEN :: "16 word \<Rightarrow> 16 word" where
  "CTF_GET_VLEN v = v AND 0x3ff"

definition CTF_INFO_ENCODE :: "16 word \<Rightarrow> 16 word \<Rightarrow> bool \<Rightarrow> 16 word" where
  "CTF_INFO_ENCODE kind vlen isroot = (if isroot then 0x400 else 0) OR push_bit 11 kind OR vlen"

definition CTF_TYPE_INT_ATTRS :: "32 word \<Rightarrow> 32 word" where
  "CTF_TYPE_INT_ATTRS v = drop_bit 24 v"

definition CTF_TYPE_INT_BITS :: "32 word \<Rightarrow> 32 word" where
  "CTF_TYPE_INT_BITS v = v AND 0xffff"

definition CTF_TYPE_INT_ENCODE :: "32 word \<Rightarrow> 32 word \<Rightarrow> 32 word \<Rightarrow> 32 word" where
  "CTF_TYPE_INT_ENCODE attrs off bits = push_bit 24 attrs OR push_bit 16 off OR bits"

definition CTF_SHORT_MEMBER_LIMIT :: nat where
  "CTF_SHORT_MEMBER_LIMIT = 8192"

text \<open>The kinds.\<close>

definition CTF_TYPE_KIND_UNKN :: nat where "CTF_TYPE_KIND_UNKN = 0"
definition CTF_TYPE_KIND_INT :: nat where "CTF_TYPE_KIND_INT = 1"
definition CTF_TYPE_KIND_FLT :: nat where "CTF_TYPE_KIND_FLT = 2"
definition CTF_TYPE_KIND_PTR :: nat where "CTF_TYPE_KIND_PTR = 3"
definition CTF_TYPE_KIND_ARR :: nat where "CTF_TYPE_KIND_ARR = 4"
definition CTF_TYPE_KIND_FUNC :: nat where "CTF_TYPE_KIND_FUNC = 5"
definition CTF_TYPE_KIND_STR :: nat where "CTF_TYPE_KIND_STR = 6"
definition CTF_TYPE_KIND_UNION :: nat where "CTF_TYPE_KIND_UNION = 7"
definition CTF_TYPE_KIND_ENUM :: nat where "CTF_TYPE_KIND_ENUM = 8"
definition CTF_TYPE_KIND_FWD :: nat where "CTF_TYPE_KIND_FWD = 9"
definition CTF_TYPE_KIND_TYPDEF :: nat where "CTF_TYPE_KIND_TYPDEF = 10"
definition CTF_TYPE_KIND_VOLATILE :: nat where "CTF_TYPE_KIND_VOLATILE = 11"
definition CTF_TYPE_KIND_CONST :: nat where "CTF_TYPE_KIND_CONST = 12"
definition CTF_TYPE_KIND_RESTRICT :: nat where "CTF_TYPE_KIND_RESTRICT = 13"

lemmas ctf_kind_defs =
  CTF_TYPE_KIND_UNKN_def CTF_TYPE_KIND_INT_def CTF_TYPE_KIND_FLT_def CTF_TYPE_KIND_PTR_def
  CTF_TYPE_KIND_ARR_def CTF_TYPE_KIND_FUNC_def CTF_TYPE_KIND_STR_def CTF_TYPE_KIND_UNION_def
  CTF_TYPE_KIND_ENUM_def CTF_TYPE_KIND_FWD_def CTF_TYPE_KIND_TYPDEF_def CTF_TYPE_KIND_VOLATILE_def
  CTF_TYPE_KIND_CONST_def CTF_TYPE_KIND_RESTRICT_def

section \<open>Byte order\<close>

definition swap16 :: "16 word \<Rightarrow> 16 word" where
  "swap16 v = drop_bit 8 v OR push_bit 8 v"

definition swap32 :: "32 word \<Rightarrow> 32 word" where
  "swap32 v = drop_bit 24 v OR (drop_bit 8 v AND 0x0000ff00) OR (push_bit 8 v AND 0x00ff0000) OR push_bit 24 v"

text \<open>\<open>cf_buf\<close> is the header of 36 bytes followed by the contents; the buffers are being built.\<close>

record ctf =
  cf_buf :: "byte list"
  cf_size :: nat
  cf_swapped :: bool
  cf_types :: gobuffer
  cf_funcs :: gobuffer
  cf_objects :: gobuffer
  cf_type_index :: nat

definition ctf__get16 :: "ctf \<Rightarrow> nat \<Rightarrow> fault + 16 word" where
  "ctf__get16 ctf p = map_sum id (\<lambda>v. if cf_swapped ctf then swap16 v else v) (load16 (cf_buf ctf) p)"

definition ctf__get32 :: "ctf \<Rightarrow> nat \<Rightarrow> fault + 32 word" where
  "ctf__get32 ctf p = map_sum id (\<lambda>v. if cf_swapped ctf then swap32 v else v) (load32 (cf_buf ctf) p)"

text \<open>What \<open>ctf__put16\<close> and \<open>ctf__put32\<close> store.\<close>

definition ctf__put16 :: "ctf \<Rightarrow> 16 word \<Rightarrow> byte list" where
  "ctf__put16 ctf v = le16 (if cf_swapped ctf then swap16 v else v)"

definition ctf__put32 :: "ctf \<Rightarrow> 32 word \<Rightarrow> byte list" where
  "ctf__put32 ctf v = le32 (if cf_swapped ctf then swap32 v else v)"

text \<open>The fields of the header, by their offsets.\<close>

definition ctf_header_size :: nat where "ctf_header_size = 36"
definition hp_label :: nat where "hp_label = 4"
definition hp_name :: nat where "hp_name = 8"
definition hp_object_off :: nat where "hp_object_off = 16"
definition hp_func_off :: nat where "hp_func_off = 20"
definition hp_type_off :: nat where "hp_type_off = 24"
definition hp_str_off :: nat where "hp_str_off = 28"
definition hp_str_len :: nat where "hp_str_len = 32"

lemmas hp_defs = ctf_header_size_def hp_label_def hp_name_def hp_object_off_def hp_func_off_def hp_type_off_def
  hp_str_off_def hp_str_len_def

section \<open>Loading the section\<close>

text \<open>\<open>inflate\<close> is zlib's: the decompressed bytes if they are exactly as many as asked for.\<close>

definition ctf__decompress ::
  "heap_env \<Rightarrow> (byte list \<Rightarrow> nat \<Rightarrow> byte list option) \<Rightarrow> ctf \<Rightarrow> byte list \<Rightarrow> fault + int \<times> ctf" where
  "ctf__decompress h inflate ctf orig =
     bindE (ctf__get32 (ctf\<lparr>cf_buf := orig\<rparr>) hp_str_off) (\<lambda>so.
     bindE (ctf__get32 (ctf\<lparr>cf_buf := orig\<rparr>) hp_str_len) (\<lambda>sl.
       let len = unat (so + sl)
       in if \<not> avail h (len + ctf_header_size) then Inr (-12, ctf)
          else case inflate (drop ctf_header_size orig) len of
                 None \<Rightarrow> Inr (-22, ctf)
               | Some new \<Rightarrow>
                   if length new \<noteq> len then Inr (-22, ctf)
                   else Inr (0, ctf\<lparr>cf_buf := take ctf_header_size orig @ new, cf_size := len + ctf_header_size\<rparr>)))"

definition ctf__load ::
  "heap_env \<Rightarrow> (byte list \<Rightarrow> nat \<Rightarrow> byte list option) \<Rightarrow> elf \<Rightarrow> ctf \<Rightarrow> fault + int \<times> ctf" where
  "ctf__load h inflate elf ctf =
     (case elf_section_by_name elf ''.SUNW_ctf'' of
        None \<Rightarrow> Inr (-3, ctf)
      | Some (_, None) \<Rightarrow> Inr (-1, ctf)
      | Some (_, Some d) \<Rightarrow>
          if length d < 4 then Inl Out_Of_Bounds
          else if d ! 2 \<noteq> 2 then Inr (-95, ctf)
          else
            let magic = of_le16 (d ! 0) (d ! 1)
            in if magic \<noteq> 0xcff1 \<and> magic \<noteq> 0xf1cf then Inr (-22, ctf)
               else
                 let ctf1 = ctf\<lparr>cf_swapped := (magic = 0xf1cf)\<rparr>
                 in if d ! 3 AND 1 = 0 then
                      (if avail h (length d) then Inr (0, ctf1\<lparr>cf_buf := d, cf_size := length d\<rparr>) else Inr (-12, ctf1))
                    else ctf__decompress h inflate ctf1 d)"

text \<open>The string that starts at a position; \<open>None\<close> is the NULL that \<open>ctf__string\<close> returns for the empty one.\<close>

fun c_string :: "byte list \<Rightarrow> fault + string" where
  "c_string [] = Inl Out_Of_Bounds"
| "c_string (b # bs) = (if b = 0 then Inr [] else map_sum id (\<lambda>s. char_of (unat b) # s) (c_string bs))"

definition ctf__string :: "ctf \<Rightarrow> 32 word \<Rightarrow> fault + string option" where
  "ctf__string ctf r =
     (let off = CTF_REF_OFFSET r
      in if CTF_REF_TBL_ID r \<noteq> 0 then Inr (Some ''(external ref)'')
         else
           bindE (ctf__get32 ctf hp_str_len) (\<lambda>len.
             if off \<ge> len then Inr (Some ''(ref out-of-bounds)'')
             else
               bindE (ctf__get32 ctf hp_str_off) (\<lambda>so.
                 if unat (off + so) \<ge> cf_size ctf then Inr (Some ''(string table truncated)'')
                 else
                   bindE (c_string (drop (ctf_header_size + unat so + unat off) (cf_buf ctf))) (\<lambda>name.
                     Inr (if name = [] then None else Some name)))))"

section \<open>Appending types\<close>

text \<open>\<open>struct ctf_short_type\<close> and \<open>struct ctf_full_type\<close> in memory.\<close>

definition ctf_short_type :: "32 word \<Rightarrow> 16 word \<Rightarrow> 16 word \<Rightarrow> byte list" where
  "ctf_short_type name info sz = le32 name @ le16 info @ le16 sz"

definition ctf_full_type :: "32 word \<Rightarrow> 16 word \<Rightarrow> 16 word \<Rightarrow> 32 word \<Rightarrow> 32 word \<Rightarrow> byte list" where
  "ctf_full_type name info sz high low = ctf_short_type name info sz @ le32 high @ le32 low"

text \<open>\<open>return ++ctf->type_index\<close> after adding \<open>t\<close> to the types; a failed addition goes unnoticed.\<close>

definition add_type :: "heap_env \<Rightarrow> ctf \<Rightarrow> byte list \<Rightarrow> fault + nat \<times> ctf" where
  "add_type h ctf t =
     bindE (gobuffer__add h (cf_types ctf) t) (\<lambda>(rc, g).
       let i = u32 (cf_type_index ctf + 1) in Inr (i, ctf\<lparr>cf_types := g, cf_type_index := i\<rparr>))"

definition ctf__add_base_type :: "heap_env \<Rightarrow> ctf \<Rightarrow> 32 word \<Rightarrow> 16 word \<Rightarrow> fault + nat \<times> ctf" where
  "ctf__add_base_type h ctf name sz =
     add_type h ctf (ctf_short_type name (CTF_INFO_ENCODE (of_nat CTF_TYPE_KIND_INT) 0 False) sz @
       le32 (CTF_TYPE_INT_ENCODE 0 0 (ucast sz)))"

definition ctf__add_short_type :: "heap_env \<Rightarrow> ctf \<Rightarrow> 16 word \<Rightarrow> 16 word \<Rightarrow> 32 word \<Rightarrow> fault + nat \<times> ctf" where
  "ctf__add_short_type h ctf kind ty name = add_type h ctf (ctf_short_type name (CTF_INFO_ENCODE kind 0 False) ty)"

definition ctf__add_fwd_decl :: "heap_env \<Rightarrow> ctf \<Rightarrow> 32 word \<Rightarrow> fault + nat \<times> ctf" where
  "ctf__add_fwd_decl h ctf name = ctf__add_short_type h ctf (of_nat CTF_TYPE_KIND_FWD) 0 name"

definition ctf__add_array :: "heap_env \<Rightarrow> ctf \<Rightarrow> 16 word \<Rightarrow> 16 word \<Rightarrow> 32 word \<Rightarrow> fault + nat \<times> ctf" where
  "ctf__add_array h ctf ty index_ty nelems =
     add_type h ctf (ctf_short_type 0 (CTF_INFO_ENCODE (of_nat CTF_TYPE_KIND_ARR) 0 False) 0 @
       le16 ty @ le16 index_ty @ le32 nelems)"

text \<open>Writing through \<open>gobuffer__ptr(buffer, *position)\<close>; \<open>*position\<close> becomes an \<open>unsigned int\<close>.\<close>

definition poke_types :: "ctf \<Rightarrow> int \<Rightarrow> byte list \<Rightarrow> fault + int \<times> ctf" where
  "poke_types ctf pos m =
     bindE (gobuffer_poke (cf_types ctf) (nat (u32 pos)) m) (\<lambda>g. Inr (pos + int (length m), ctf\<lparr>cf_types := g\<rparr>))"

definition ctf__add_short_member :: "ctf \<Rightarrow> 32 word \<Rightarrow> 16 word \<Rightarrow> 16 word \<Rightarrow> int \<Rightarrow> fault + int \<times> ctf" where
  "ctf__add_short_member ctf name ty off pos = poke_types ctf pos (le32 name @ le16 ty @ le16 off)"

definition ctf__add_full_member :: "ctf \<Rightarrow> 32 word \<Rightarrow> 16 word \<Rightarrow> 64 word \<Rightarrow> int \<Rightarrow> fault + int \<times> ctf" where
  "ctf__add_full_member ctf name ty off pos =
     poke_types ctf pos (le32 name @ le16 ty @ le16 0 @ le32 (ucast (drop_bit 32 off)) @ le32 (ucast (off AND 0xffffffff)))"

text \<open>The fields \<open>ctf_size_high\<close> and \<open>ctf_size_low\<close> are written for sizes from 0xffff on.\<close>

definition ctf__add_struct ::
  "heap_env \<Rightarrow> ctf \<Rightarrow> 16 word \<Rightarrow> 32 word \<Rightarrow> 64 word \<Rightarrow> 16 word \<Rightarrow> fault + nat \<times> int \<times> ctf" where
  "ctf__add_struct h ctf kind name sz nr_members =
     (let members_len = u32 ((if unat sz < CTF_SHORT_MEMBER_LIMIT then 8 else 16) * unat nr_members);
          info = CTF_INFO_ENCODE kind nr_members False
      in bindE (add_type h ctf
           (if unat sz < 65535 then ctf_short_type name info (ucast sz)
            else ctf_full_type name info 0xffff (ucast (drop_bit 32 sz)) (ucast (sz AND 0xffffffff)))) (\<lambda>(i, ctf1).
           case gobuffer__allocate h (cf_types ctf1) members_len of
             (pos, g) \<Rightarrow> Inr (i, pos, ctf1\<lparr>cf_types := g\<rparr>)))"

definition ctf__add_parameter :: "ctf \<Rightarrow> 16 word \<Rightarrow> int \<Rightarrow> fault + int \<times> ctf" where
  "ctf__add_parameter ctf ty pos = poke_types ctf pos (le16 ty)"

text \<open>The length of the list of parameters, rounded up to a multiple of 4.\<close>

definition parms_len :: "16 word \<Rightarrow> bool \<Rightarrow> nat" where
  "parms_len nr_parms varargs =
     (let len = 2 * (unat nr_parms + (if varargs then 1 else 0)) in if len mod 4 \<ge> 2 then len + 2 else len)"

definition ctf__add_function_type ::
  "heap_env \<Rightarrow> ctf \<Rightarrow> 16 word \<Rightarrow> 16 word \<Rightarrow> bool \<Rightarrow> fault + nat \<times> int \<times> ctf" where
  "ctf__add_function_type h ctf ty nr_parms varargs =
     bindE (add_type h ctf
       (ctf_short_type 0 (CTF_INFO_ENCODE (of_nat CTF_TYPE_KIND_FUNC) (nr_parms + (if varargs then 1 else 0)) False) ty))
       (\<lambda>(i, ctf1).
         case gobuffer__allocate h (cf_types ctf1) (parms_len nr_parms varargs) of
           (pos, g) \<Rightarrow>
             if varargs then
               bindE (gobuffer_poke g (nat (u32 (pos + 2 * int (unat nr_parms)))) (le16 0)) (\<lambda>g'.
                 Inr (i, pos, ctf1\<lparr>cf_types := g'\<rparr>))
             else Inr (i, pos, ctf1\<lparr>cf_types := g\<rparr>))"

definition ctf__add_enumeration_type ::
  "heap_env \<Rightarrow> ctf \<Rightarrow> 32 word \<Rightarrow> 16 word \<Rightarrow> 16 word \<Rightarrow> fault + nat \<times> int \<times> ctf" where
  "ctf__add_enumeration_type h ctf name sz nr_entries =
     bindE (add_type h ctf (ctf_short_type name (CTF_INFO_ENCODE (of_nat CTF_TYPE_KIND_ENUM) nr_entries False) sz))
       (\<lambda>(i, ctf1).
         case gobuffer__allocate h (cf_types ctf1) (unat nr_entries * 8) of
           (pos, g) \<Rightarrow> Inr (i, pos, ctf1\<lparr>cf_types := g\<rparr>))"

definition ctf__add_enumerator :: "ctf \<Rightarrow> 32 word \<Rightarrow> 32 word \<Rightarrow> int \<Rightarrow> fault + int \<times> ctf" where
  "ctf__add_enumerator ctf name val pos = poke_types ctf pos (le32 name @ le32 val)"

definition ctf__add_function_parameter :: "ctf \<Rightarrow> 16 word \<Rightarrow> int \<Rightarrow> fault + int \<times> ctf" where
  "ctf__add_function_parameter ctf ty pos =
     bindE (gobuffer_poke (cf_funcs ctf) (nat (u32 pos)) (le16 ty)) (\<lambda>g. Inr (pos + 2, ctf\<lparr>cf_funcs := g\<rparr>))"

definition ctf__add_function :: "heap_env \<Rightarrow> ctf \<Rightarrow> 16 word \<Rightarrow> 16 word \<Rightarrow> bool \<Rightarrow> fault + int \<times> int \<times> ctf" where
  "ctf__add_function h ctf ty nr_parms varargs =
     bindE (gobuffer__add h (cf_funcs ctf)
       (le16 (CTF_INFO_ENCODE (of_nat CTF_TYPE_KIND_FUNC) (nr_parms + (if varargs then 1 else 0)) False) @ le16 ty))
       (\<lambda>(rc, g0).
         case gobuffer__allocate h g0 (parms_len nr_parms varargs) of
           (pos, g) \<Rightarrow>
             if varargs then
               bindE (gobuffer_poke g (nat (u32 (pos + 2 * int (unat nr_parms)))) (le16 0)) (\<lambda>g'.
                 Inr (0, pos, ctf\<lparr>cf_funcs := g'\<rparr>))
             else Inr (0, pos, ctf\<lparr>cf_funcs := g\<rparr>))"

definition ctf__add_object :: "heap_env \<Rightarrow> ctf \<Rightarrow> 16 word \<Rightarrow> fault + int \<times> ctf" where
  "ctf__add_object h ctf ty =
     bindE (gobuffer__add h (cf_objects ctf) (le16 ty)) (\<lambda>(rc, g).
       Inr (if rc \<ge> 0 then 0 else -12, ctf\<lparr>cf_objects := g\<rparr>))"

section \<open>Decoding\<close>

lemma mask10: "(0x3ff :: 16 word) = mask 10" by (simp add: mask_eq_exp_minus_1)
lemma mask5: "(0x1f :: 16 word) = mask 5" by (simp add: mask_eq_exp_minus_1)

lemma word_below:
  fixes v :: "'a::len word"
  assumes "v < 2 ^ n" "n < LENGTH('a)"
  shows "take_bit n v = v"
  using assms by (simp add: less_mask_eq take_bit_eq_mask)

lemma bit_below:
  fixes v :: "'a::len word"
  assumes "v < 2 ^ n" "n < LENGTH('a)" "n \<le> j"
  shows "\<not> bit v j"
proof -
  have "take_bit n v = v" using assms(1,2) by (rule word_below)
  then have "bit v j = bit (take_bit n v) j" by simp
  then show ?thesis using assms(3) by (simp add: bit_take_bit_iff)
qed

lemma ctf_info_decode:
  assumes "k < 32" "v < 1024"
  shows "CTF_GET_KIND (CTF_INFO_ENCODE k v False) = k" "CTF_GET_VLEN (CTF_INFO_ENCODE k v False) = v"
proof -
  have k: "\<not> bit k j" if "5 \<le> j" for j using bit_below [of k 5 j] assms(1) that by simp
  have v: "\<not> bit v j" if "10 \<le> j" for j using bit_below [of v 10 j] assms(2) that by simp
  show "CTF_GET_KIND (CTF_INFO_ENCODE k v False) = k"
    unfolding CTF_GET_KIND_def CTF_INFO_ENCODE_def mask5
    by (rule bit_word_eqI) (auto simp: bit_simps k v not_less intro: ccontr)
  show "CTF_GET_VLEN (CTF_INFO_ENCODE k v False) = v"
    unfolding CTF_GET_VLEN_def CTF_INFO_ENCODE_def mask10
    by (rule bit_word_eqI) (auto simp: bit_simps k v not_less intro: ccontr)
qed

lemma div_lt64: "unat (w :: 64 word) div 4294967296 mod 4294967296 = unat w div 4294967296"
proof -
  have "unat w < 18446744073709551616" using unsigned_less [of w] by simp
  then show ?thesis by simp
qed

lemma low_high: "unat (ucast (drop_bit 32 w) :: 32 word) * 4294967296 + unat (ucast (w AND 0xffffffff) :: 32 word) = unat (w :: 64 word)"
proof -
  have m: "(0xffffffff :: 64 word) = mask 32" by (simp add: mask_eq_exp_minus_1)
  have "unat (ucast (drop_bit 32 w) :: 32 word) = unat w div 4294967296"
    by (simp add: unsigned_ucast_eq unsigned_drop_bit_eq drop_bit_eq_div take_bit_eq_mod unat_div_distrib div_lt64)
  moreover have "unat (ucast (w AND 0xffffffff) :: 32 word) = unat w mod 4294967296"
    unfolding m by (simp add: take_bit_eq_mask [symmetric] unsigned_ucast_eq unsigned_take_bit_eq take_bit_eq_mod unat_mod_distrib)
  ultimately show ?thesis by simp
qed

end
