(* ===== verification/CtfLoader.thy ===== *)
theory CtfLoader
  imports Ctf Holes Bits
begin

text \<open>
  The loader of the compact type format (\<open>ctf_loader.c\<close>): types, functions and objects become
  tags of a compilation unit, and the offsets of bitfields are worked out.  \<open>zs\<close> gives the size of
  the object allocated for a tag.
\<close>

section \<open>New objects\<close>

definition zero_member :: class_member where
  "zero_member =
     \<lparr>cm_tag = DW_TAG_member, cm_type = 0, cm_name = None, cm_bit_offset = 0, cm_bit_size = 0, cm_byte_offset = 0,
      cm_hole = 0, cm_byte_size = 0, cm_bitfield_offset = 0, cm_bitfield_size = 0, cm_bit_hole = 0,
      cm_bitfield_end = False, cm_visited = False, cm_is_static = False, cm_has_bit_offset = False,
      cm_accessibility = 0, cm_virtuality = DW_VIRTUALITY_none, cm_alignment = 0, cm_const_value = 0\<rparr>"

definition type__init :: "string option \<Rightarrow> nat \<Rightarrow> type_t" where
  "type__init name sz =
     \<lparr>ty_name = name, ty_tags = [], ty_size = u32 sz, ty_nr_static_members = 0, ty_nr_members = 0, ty_alignment = 0,
      ty_natural_alignment = 0, ty_packed_attributes_inferred = False, ty_declaration = False,
      ty_is_signed_enum = False, ty_member_prefix = None, ty_member_prefix_len = 0\<rparr>"

definition type__new :: "heap_env \<Rightarrow> nat \<Rightarrow> string option \<Rightarrow> nat \<Rightarrow> type_t option" where
  "type__new h z name sz = (if avail h z then Some (type__init name sz) else None)"

definition class_zero :: "type_t \<Rightarrow> class_t" where
  "class_zero t = type_t.extend t
     \<lparr>cl_nr_vtable_entries = 0, cl_vtable = [], cl_nr_holes = 0, cl_nr_bit_holes = 0, cl_pre_hole = 0, cl_padding = 0,
      cl_pre_bit_hole = 0, cl_bit_padding = 0, cl_holes_searched = False, cl_flexible_array_verified = False,
      cl_embedded_flexible_array_searched = False, cl_has_flexible_array = False,
      cl_has_embedded_flexible_array = False, cl_is_packed = False\<rparr>"

definition class__new :: "heap_env \<Rightarrow> nat \<Rightarrow> string option \<Rightarrow> nat \<Rightarrow> class_t option" where
  "class__new h z name sz = (if avail h z then Some (class_zero (type__init name sz)) else None)"

text \<open>
  \<open>is_bool\<close> and \<open>is_varargs\<close> are one bit wide and get \<open>attrs & 4\<close> and \<open>attrs & 8\<close>; \<open>float_type\<close> is
  four bits wide.
\<close>

definition base_type__new :: "heap_env \<Rightarrow> nat \<Rightarrow> string \<Rightarrow> 32 word \<Rightarrow> 32 word \<Rightarrow> 32 word \<Rightarrow> base_type option" where
  "base_type__new h z name attrs float_type sz =
     (if avail h z then
        Some \<lparr>bt_name = name, bt_bit_size = u16 (unat sz), bt_name_has_encoding = False,
          bt_is_signed = ((attrs AND 1) AND 1 \<noteq> 0), bt_is_bool = ((attrs AND 4) AND 1 \<noteq> 0),
          bt_is_varargs = ((attrs AND 8) AND 1 \<noteq> 0), bt_float_type = unat float_type mod 16\<rparr>
      else None)"

text \<open>The unit is given the tag; whether the table could grow is not looked at.\<close>

definition enter_tag :: "heap_env \<Rightarrow> cu \<Rightarrow> tag \<Rightarrow> nat \<Rightarrow> fault + cu" where
  "enter_tag h cu t i = map_sum id snd (cu__add_tag_with_id h cu t i)"

text \<open>
  A name that is the NULL pointer: base types and enumerators keep the pointer; the model stops
  where it would be followed first.
\<close>

definition some_name :: "string option \<Rightarrow> fault + string" where
  "some_name n = (case n of None \<Rightarrow> Inl Null_Deref | Some s \<Rightarrow> Inr s)"

section \<open>Types\<close>

text \<open>
  Each routine gets \<open>ptr\<close>, where the data after the type starts, and \<open>tp\<close>, where the type starts; its
  result is \<open>-ENOMEM\<close> or the number of bytes it used, and the unit.
\<close>

definition ctf_name :: "ctf \<Rightarrow> nat \<Rightarrow> fault + string option" where
  "ctf_name ctf tp = bindE (ctf__get32 ctf tp) (ctf__string ctf)"

definition create_new_base_type ::
  "heap_env \<Rightarrow> (dw_tag \<Rightarrow> nat) \<Rightarrow> ctf \<Rightarrow> nat \<Rightarrow> nat \<Rightarrow> nat \<Rightarrow> cu \<Rightarrow> fault + int \<times> cu" where
  "create_new_base_type h zs ctf ptr tp i cu =
     bindE (ctf__get32 ctf ptr) (\<lambda>eval.
     bindE (ctf_name ctf tp) (\<lambda>nm.
     bindE (some_name nm) (\<lambda>name.
       case base_type__new h (zs DW_TAG_base_type) name (CTF_TYPE_INT_ATTRS eval) 0 (CTF_TYPE_INT_BITS eval) of
         None \<Rightarrow> Inr (-12, cu)
       | Some bt \<Rightarrow>
           bindE (enter_tag h cu \<lparr>tg_tag = DW_TAG_base_type, tg_type = 0, tg_body = Base_body bt\<rparr> i) (\<lambda>cu'.
             Inr (4, cu')))))"

definition create_new_base_type_float ::
  "heap_env \<Rightarrow> (dw_tag \<Rightarrow> nat) \<Rightarrow> ctf \<Rightarrow> nat \<Rightarrow> nat \<Rightarrow> nat \<Rightarrow> cu \<Rightarrow> fault + int \<times> cu" where
  "create_new_base_type_float h zs ctf ptr tp i cu =
     bindE (ctf__get32 ctf ptr) (\<lambda>eval.
     bindE (ctf_name ctf tp) (\<lambda>nm.
     bindE (some_name nm) (\<lambda>name.
       case base_type__new h (zs DW_TAG_base_type) name 0 eval (CTF_TYPE_INT_BITS eval) of
         None \<Rightarrow> Inr (-12, cu)
       | Some bt \<Rightarrow>
           bindE (enter_tag h cu \<lparr>tg_tag = DW_TAG_base_type, tg_type = 0, tg_body = Base_body bt\<rparr> i) (\<lambda>cu'.
             Inr (4, cu')))))"

definition create_new_array ::
  "heap_env \<Rightarrow> (dw_tag \<Rightarrow> nat) \<Rightarrow> ctf \<Rightarrow> nat \<Rightarrow> nat \<Rightarrow> cu \<Rightarrow> fault + int \<times> cu" where
  "create_new_array h zs ctf ptr i cu =
     (if \<not> avail h (zs DW_TAG_array_type) \<or> \<not> avail h 4 then Inr (-12, cu)
      else
        bindE (ctf__get32 ctf (ptr + 4)) (\<lambda>nelems.
        bindE (ctf__get16 ctf ptr) (\<lambda>ty.
        bindE (enter_tag h cu \<lparr>tg_tag = DW_TAG_array_type, tg_type = unat ty,
            tg_body = Array_body \<lparr>at_nr_entries = Some [unat nelems], at_dimensions = 1, at_is_vector = False\<rparr>\<rparr> i) (\<lambda>cu'.
          Inr (8, cu')))))"

text \<open>The loop over the parameters and the rest of \<open>ctf__load_ftype\<close>; \<open>mk\<close> is the tag around the prototype.\<close>

fun load_parms :: "heap_env \<Rightarrow> nat \<Rightarrow> ctf \<Rightarrow> nat \<Rightarrow> nat \<Rightarrow> ftype \<Rightarrow> fault + ftype option" where
  "load_parms h z ctf p 0 proto = Inr (Some proto)"
| "load_parms h z ctf p (Suc n) proto =
     bindE (ctf__get16 ctf p) (\<lambda>ty.
       if ty = 0 then load_parms h z ctf (p + 2) n (proto\<lparr>ft_unspec_parms := True\<rparr>)
       else if avail h z then
         load_parms h z ctf (p + 2) n
           (proto\<lparr>ft_nr_parms := u16 (ft_nr_parms proto + 1), ft_parms := ft_parms proto @ [\<lparr>pa_type = unat ty, pa_name = None, pa_attributes = []\<rparr>]\<rparr>)
       else Inr None)"

definition ctf__load_ftype ::
  "heap_env \<Rightarrow> (dw_tag \<Rightarrow> nat) \<Rightarrow> ctf \<Rightarrow> (ftype \<Rightarrow> tag) \<Rightarrow> ftype \<Rightarrow> nat \<Rightarrow> nat \<Rightarrow> int \<Rightarrow> cu \<Rightarrow> fault + int \<times> cu" where
  "ctf__load_ftype h zs ctf mk proto vlen args i cu =
     bindE (load_parms h (zs DW_TAG_formal_parameter) ctf args vlen proto) (\<lambda>r.
       case r of
         None \<Rightarrow> Inr (-12, cu)
       | Some proto' \<Rightarrow>
           let len = u16 (vlen * 2); len' = (if len mod 4 \<ge> 2 then u16 (len + 2) else len)
           in bindE (if i < 0 then map_sum id (\<lambda>(rc, j, cu'). cu') (cu__add_tag h cu (mk proto') 0)
                     else enter_tag h cu (mk proto') (nat i)) (\<lambda>cu'. Inr (int len', cu')))"

definition ftype_zero :: ftype where
  "ftype_zero = \<lparr>ft_parms = [], ft_byte_size = 0, ft_nr_parms = 0, ft_unspec_parms = False\<rparr>"

definition create_new_subroutine_type ::
  "heap_env \<Rightarrow> (dw_tag \<Rightarrow> nat) \<Rightarrow> ctf \<Rightarrow> nat \<Rightarrow> nat \<Rightarrow> nat \<Rightarrow> nat \<Rightarrow> cu \<Rightarrow> fault + int \<times> cu" where
  "create_new_subroutine_type h zs ctf ptr vlen tp i cu =
     bindE (ctf__get16 ctf (tp + 6)) (\<lambda>ty.
       if avail h (zs DW_TAG_subroutine_type) then
         ctf__load_ftype h zs ctf
           (\<lambda>proto. \<lparr>tg_tag = DW_TAG_subroutine_type, tg_type = unat ty, tg_body = Ftype_body proto\<rparr>) ftype_zero vlen ptr (int i) cu
       else Inr (-12, cu))"

text \<open>The members of a structure or union; \<open>None\<close> if one cannot be allocated.\<close>

fun create_full_members :: "heap_env \<Rightarrow> nat \<Rightarrow> ctf \<Rightarrow> nat \<Rightarrow> nat \<Rightarrow> 'a type_t_scheme \<Rightarrow> fault + 'a type_t_scheme option" where
  "create_full_members h z ctf mp 0 cls = Inr (Some cls)"
| "create_full_members h z ctf mp (Suc n) cls =
     (if \<not> avail h z then Inr None
      else
        bindE (ctf__get16 ctf (mp + 4)) (\<lambda>ty.
        bindE (ctf__get32 ctf mp) (\<lambda>nr.
        bindE (ctf__string ctf nr) (\<lambda>name.
        bindE (ctf__get32 ctf (mp + 8)) (\<lambda>high.
        bindE (ctf__get32 ctf (mp + 12)) (\<lambda>low.
          create_full_members h z ctf (mp + 16) n
            (type__add_member cls (zero_member\<lparr>cm_type := unat ty, cm_name := name,
               cm_bit_offset := unat (push_bit 16 high OR low)\<rparr>))))))))"

fun create_short_members :: "heap_env \<Rightarrow> nat \<Rightarrow> ctf \<Rightarrow> nat \<Rightarrow> nat \<Rightarrow> 'a type_t_scheme \<Rightarrow> fault + 'a type_t_scheme option" where
  "create_short_members h z ctf mp 0 cls = Inr (Some cls)"
| "create_short_members h z ctf mp (Suc n) cls =
     (if \<not> avail h z then Inr None
      else
        bindE (ctf__get16 ctf (mp + 4)) (\<lambda>ty.
        bindE (ctf__get32 ctf mp) (\<lambda>nr.
        bindE (ctf__string ctf nr) (\<lambda>name.
        bindE (ctf__get16 ctf (mp + 6)) (\<lambda>off.
          create_short_members h z ctf (mp + 8) n
            (type__add_member cls (zero_member\<lparr>cm_type := unat ty, cm_name := name, cm_bit_offset := unat off\<rparr>)))))))"

text \<open>\<open>size\<close> is a \<open>uint64_t\<close>.\<close>

definition create_members :: "heap_env \<Rightarrow> nat \<Rightarrow> ctf \<Rightarrow> nat \<Rightarrow> nat \<Rightarrow> nat \<Rightarrow> 'a type_t_scheme \<Rightarrow> fault + 'a type_t_scheme option" where
  "create_members h z ctf ptr vlen sz cls =
     (if sz \<ge> CTF_SHORT_MEMBER_LIMIT then create_full_members h z ctf ptr vlen cls
      else create_short_members h z ctf ptr vlen cls)"

definition member_size :: "nat \<Rightarrow> nat" where
  "member_size sz = (if sz \<ge> CTF_SHORT_MEMBER_LIMIT then 16 else 8)"

definition create_new_class ::
  "heap_env \<Rightarrow> (dw_tag \<Rightarrow> nat) \<Rightarrow> ctf \<Rightarrow> nat \<Rightarrow> nat \<Rightarrow> nat \<Rightarrow> nat \<Rightarrow> nat \<Rightarrow> cu \<Rightarrow> fault + int \<times> cu" where
  "create_new_class h zs ctf ptr vlen tp sz i cu =
     bindE (ctf_name ctf tp) (\<lambda>name.
       case class__new h (zs DW_TAG_structure_type) name sz of
         None \<Rightarrow> Inl Null_Deref
       | Some cls \<Rightarrow>
           bindE (create_members h (zs DW_TAG_member) ctf ptr vlen sz cls) (\<lambda>r.
             case r of
               None \<Rightarrow> Inr (-12, cu)
             | Some cls' \<Rightarrow>
                 bindE (enter_tag h cu \<lparr>tg_tag = DW_TAG_structure_type, tg_type = 0, tg_body = Class_body cls'\<rparr> i) (\<lambda>cu'.
                   Inr (int (vlen * member_size sz), cu'))))"

definition create_new_union ::
  "heap_env \<Rightarrow> (dw_tag \<Rightarrow> nat) \<Rightarrow> ctf \<Rightarrow> nat \<Rightarrow> nat \<Rightarrow> nat \<Rightarrow> nat \<Rightarrow> nat \<Rightarrow> cu \<Rightarrow> fault + int \<times> cu" where
  "create_new_union h zs ctf ptr vlen tp sz i cu =
     bindE (ctf_name ctf tp) (\<lambda>name.
       case type__new h (zs DW_TAG_union_type) name sz of
         None \<Rightarrow> Inl Null_Deref
       | Some un \<Rightarrow>
           bindE (create_members h (zs DW_TAG_member) ctf ptr vlen sz un) (\<lambda>r.
             case r of
               None \<Rightarrow> Inr (-12, cu)
             | Some un' \<Rightarrow>
                 bindE (enter_tag h cu \<lparr>tg_tag = DW_TAG_union_type, tg_type = 0, tg_body = Type_body un'\<rparr> i) (\<lambda>cu'.
                   Inr (int (vlen * member_size sz), cu'))))"

fun create_enumerators :: "heap_env \<Rightarrow> nat \<Rightarrow> ctf \<Rightarrow> nat \<Rightarrow> nat \<Rightarrow> type_t \<Rightarrow> fault + type_t option" where
  "create_enumerators h z ctf ep 0 t = Inr (Some t)"
| "create_enumerators h z ctf ep (Suc n) t =
     bindE (ctf_name ctf ep) (\<lambda>nm.
     bindE (ctf__get32 ctf (ep + 4)) (\<lambda>val.
       if \<not> avail h z then Inr None
       else
         bindE (some_name nm) (\<lambda>name.
           create_enumerators h z ctf (ep + 8) n (enumeration__add t \<lparr>en_name = name, en_value = unat val\<rparr>))))"

text \<open>\<open>size\<close> has become a \<open>uint16_t\<close>; 0 means an \<open>int\<close>.\<close>

definition create_new_enumeration ::
  "heap_env \<Rightarrow> (dw_tag \<Rightarrow> nat) \<Rightarrow> ctf \<Rightarrow> nat \<Rightarrow> nat \<Rightarrow> nat \<Rightarrow> nat \<Rightarrow> nat \<Rightarrow> cu \<Rightarrow> fault + int \<times> cu" where
  "create_new_enumeration h zs ctf ptr vlen tp sz i cu =
     bindE (ctf_name ctf tp) (\<lambda>name.
       case type__new h (zs DW_TAG_enumeration_type) name (if u16 sz = 0 then 32 else u16 sz) of
         None \<Rightarrow> Inr (-12, cu)
       | Some t \<Rightarrow>
           bindE (create_enumerators h (zs DW_TAG_enumerator) ctf ptr vlen t) (\<lambda>r.
             case r of
               None \<Rightarrow> Inr (-12, cu)
             | Some t' \<Rightarrow>
                 bindE (enter_tag h cu \<lparr>tg_tag = DW_TAG_enumeration_type, tg_type = 0, tg_body = Type_body t'\<rparr> i) (\<lambda>cu'.
                   Inr (int (vlen * 8), cu'))))"

definition create_new_forward_decl ::
  "heap_env \<Rightarrow> (dw_tag \<Rightarrow> nat) \<Rightarrow> ctf \<Rightarrow> nat \<Rightarrow> nat \<Rightarrow> nat \<Rightarrow> cu \<Rightarrow> fault + int \<times> cu" where
  "create_new_forward_decl h zs ctf tp sz i cu =
     bindE (ctf_name ctf tp) (\<lambda>name.
       case class__new h (zs DW_TAG_structure_type) name sz of
         None \<Rightarrow> Inr (-12, cu)
       | Some fwd \<Rightarrow>
           bindE (enter_tag h cu \<lparr>tg_tag = DW_TAG_structure_type, tg_type = 0, tg_body = Class_body (fwd\<lparr>ty_declaration := True\<rparr>)\<rparr> i)
             (\<lambda>cu'. Inr (0, cu')))"

definition create_new_typedef ::
  "heap_env \<Rightarrow> (dw_tag \<Rightarrow> nat) \<Rightarrow> ctf \<Rightarrow> nat \<Rightarrow> nat \<Rightarrow> nat \<Rightarrow> cu \<Rightarrow> fault + int \<times> cu" where
  "create_new_typedef h zs ctf tp sz i cu =
     bindE (ctf_name ctf tp) (\<lambda>name.
     bindE (ctf__get16 ctf (tp + 6)) (\<lambda>ty.
       case type__new h (zs DW_TAG_typedef) name sz of
         None \<Rightarrow> Inr (-12, cu)
       | Some t \<Rightarrow>
           bindE (enter_tag h cu \<lparr>tg_tag = DW_TAG_typedef, tg_type = unat ty, tg_body = Type_body t\<rparr> i) (\<lambda>cu'. Inr (0, cu'))))"

definition create_new_tag ::
  "heap_env \<Rightarrow> (dw_tag \<Rightarrow> nat) \<Rightarrow> ctf \<Rightarrow> nat \<Rightarrow> nat \<Rightarrow> nat \<Rightarrow> cu \<Rightarrow> fault + int \<times> cu" where
  "create_new_tag h zs ctf type tp i cu =
     bindE (ctf__get16 ctf (tp + 6)) (\<lambda>ty.
       if \<not> avail h (zs DW_TAG_const_type) then Inr (-12, cu)
       else
         case (if type = CTF_TYPE_KIND_CONST then Some DW_TAG_const_type
               else if type = CTF_TYPE_KIND_PTR then Some DW_TAG_pointer_type
               else if type = CTF_TYPE_KIND_RESTRICT then Some DW_TAG_restrict_type
               else if type = CTF_TYPE_KIND_VOLATILE then Some DW_TAG_volatile_type else None) of
           None \<Rightarrow> Inr (0, cu)
         | Some tg \<Rightarrow>
             bindE (enter_tag h cu \<lparr>tg_tag = tg, tg_type = unat ty, tg_body = Plain\<rparr> i) (\<lambda>cu'. Inr (0, cu')))"

text \<open>
  One turn of the loop of \<open>ctf__load_types\<close> at the type at \<open>tp\<close>: the choice by kind.  An unknown
  kind is \<open>-EINVAL\<close>.
\<close>

definition create_type ::
  "heap_env \<Rightarrow> (dw_tag \<Rightarrow> nat) \<Rightarrow> ctf \<Rightarrow> nat \<Rightarrow> nat \<Rightarrow> 16 word \<Rightarrow> nat \<Rightarrow> nat \<Rightarrow> cu \<Rightarrow> fault + int \<times> cu" where
  "create_type h zs ctf tp ptr val sz i cu =
     (let type = unat (CTF_GET_KIND val); vlen = unat (CTF_GET_VLEN val)
      in if type = CTF_TYPE_KIND_INT then create_new_base_type h zs ctf ptr tp i cu
         else if type = CTF_TYPE_KIND_FLT then create_new_base_type_float h zs ctf ptr tp i cu
         else if type = CTF_TYPE_KIND_ARR then create_new_array h zs ctf ptr i cu
         else if type = CTF_TYPE_KIND_FUNC then create_new_subroutine_type h zs ctf ptr vlen tp i cu
         else if type = CTF_TYPE_KIND_STR then create_new_class h zs ctf ptr vlen tp sz i cu
         else if type = CTF_TYPE_KIND_UNION then create_new_union h zs ctf ptr vlen tp sz i cu
         else if type = CTF_TYPE_KIND_ENUM then create_new_enumeration h zs ctf ptr vlen tp sz i cu
         else if type = CTF_TYPE_KIND_FWD then create_new_forward_decl h zs ctf tp sz i cu
         else if type = CTF_TYPE_KIND_TYPDEF then create_new_typedef h zs ctf tp sz i cu
         else if type = CTF_TYPE_KIND_VOLATILE \<or> type = CTF_TYPE_KIND_PTR \<or> type = CTF_TYPE_KIND_CONST \<or>
           type = CTF_TYPE_KIND_RESTRICT then create_new_tag h zs ctf type tp i cu
         else if type = CTF_TYPE_KIND_UNKN then
           map_sum id (\<lambda>(rc, cu'). (0, cu')) (cu__table_nullify_type_entry h cu i)
         else Inr (-22, cu))"

text \<open>The size of a type, from the fields of \<open>struct ctf_full_type\<close> if it does not fit.\<close>

definition type_size :: "ctf \<Rightarrow> nat \<Rightarrow> 16 word \<Rightarrow> fault + nat" where
  "type_size ctf tp base_size =
     (if base_size = 0xffff then
        bindE (ctf__get32 ctf (tp + 8)) (\<lambda>high.
        bindE (ctf__get32 ctf (tp + 12)) (\<lambda>low. Inr (unat high * 4294967296 + unat low)))
      else Inr (unat base_size))"

function load_types_loop ::
  "heap_env \<Rightarrow> (dw_tag \<Rightarrow> nat) \<Rightarrow> ctf \<Rightarrow> nat \<Rightarrow> nat \<Rightarrow> nat \<Rightarrow> cu \<Rightarrow> fault + int \<times> cu" where
  "load_types_loop h zs ctf tp stop i cu =
     (if tp < stop then
        bindE (ctf__get16 ctf (tp + 4)) (\<lambda>val.
        bindE (ctf__get16 ctf (tp + 6)) (\<lambda>base_size.
        bindE (type_size ctf tp base_size) (\<lambda>sz.
          let ptr = tp + (if base_size = 0xffff then 16 else 8)
          in bindE (create_type h zs ctf tp ptr val sz i cu) (\<lambda>(vlen, cu').
               if vlen < 0 then Inr (vlen, cu')
               else load_types_loop h zs ctf (ptr + nat vlen) stop (u32 (i + 1)) cu'))))
      else Inr (0, cu))"
  by pat_completeness auto
termination
  by (relation "measure (\<lambda>(h, zs, ctf, tp, stop, i, cu). stop - tp)") (auto split: if_splits)

declare load_types_loop.simps [simp del]

definition ctf__load_types :: "heap_env \<Rightarrow> (dw_tag \<Rightarrow> nat) \<Rightarrow> ctf \<Rightarrow> cu \<Rightarrow> fault + int \<times> cu" where
  "ctf__load_types h zs ctf cu =
     bindE (ctf__get32 ctf hp_type_off) (\<lambda>type_off.
     bindE (ctf__get32 ctf hp_str_off) (\<lambda>str_off.
     bindE (load32 (cf_buf ctf) hp_name) (\<lambda>parent_name.
     bindE (load32 (cf_buf ctf) hp_label) (\<lambda>parent_label.
       load_types_loop h zs ctf (ctf_header_size + unat type_off) (ctf_header_size + unat str_off)
         (if parent_name \<noteq> 0 \<or> parent_label \<noteq> 0 then 32769 else 1) cu))))"

section \<open>Functions and objects\<close>

text \<open>A symbol of the ELF symbol table; \<open>sy_name\<close> is the string \<open>st_name\<close> refers to.\<close>

record elf_sym =
  sy_st_name :: nat
  sy_name :: string
  sy_info :: nat
  sy_other :: nat
  sy_shndx :: nat
  sy_value :: nat
  sy_size :: nat

definition elf_sym__type :: "elf_sym \<Rightarrow> nat" where "elf_sym__type sy = sy_info sy mod 16"
definition elf_sym__bind :: "elf_sym \<Rightarrow> nat" where "elf_sym__bind sy = sy_info sy div 16"
definition elf_sym__visibility :: "elf_sym \<Rightarrow> nat" where "elf_sym__visibility sy = sy_other sy mod 4"
definition elf_sym__section :: "elf_sym \<Rightarrow> nat" where "elf_sym__section sy = sy_shndx sy"
definition elf_sym__size :: "elf_sym \<Rightarrow> nat" where "elf_sym__size sy = u32 (sy_size sy)"
definition elf_sym__value :: "elf_sym \<Rightarrow> nat" where "elf_sym__value sy = sy_value sy"

text \<open>\<open>STT_FUNC\<close> is 2, \<open>STT_OBJECT\<close> 1, \<open>SHN_UNDEF\<close> and \<open>STV_DEFAULT\<close> 0, \<open>STB_GLOBAL\<close> 1.\<close>

definition elf_sym__is_local_function :: "elf_sym \<Rightarrow> bool" where
  "elf_sym__is_local_function sy \<longleftrightarrow> elf_sym__type sy = 2 \<and> sy_st_name sy \<noteq> 0 \<and> sy_shndx sy \<noteq> 0"

definition elf_sym__is_local_object :: "elf_sym \<Rightarrow> bool" where
  "elf_sym__is_local_object sy \<longleftrightarrow> elf_sym__type sy = 1 \<and> sy_st_name sy \<noteq> 0 \<and> sy_shndx sy \<noteq> 0"

definition ctf__ignore_symtab_function :: "elf_sym \<Rightarrow> bool" where
  "ctf__ignore_symtab_function sy \<longleftrightarrow>
     \<not> elf_sym__is_local_function sy \<or> elf_sym__visibility sy \<noteq> 0 \<or> sy_size sy = 0 \<or>
     strstarts (sy_name sy) ''__libc_csu_''"

definition ctf__ignore_symtab_object :: "elf_sym \<Rightarrow> bool" where
  "ctf__ignore_symtab_object sy \<longleftrightarrow>
     \<not> elf_sym__is_local_object sy \<or> sy_size sy = 0 \<or> elf_sym__visibility sy \<noteq> 0 \<or> CHR ''.'' \<in> set (sy_name sy)"

text \<open>The result is \<open>None\<close> for NULL, else the new value of \<open>*ptr\<close> and the unit.\<close>

definition function__new ::
  "heap_env \<Rightarrow> (dw_tag \<Rightarrow> nat) \<Rightarrow> ctf \<Rightarrow> nat \<Rightarrow> elf_sym \<Rightarrow> cu \<Rightarrow> fault + (nat \<times> cu) option" where
  "function__new h zs ctf ptr sy cu =
     (if \<not> avail h (zs DW_TAG_subprogram) then Inr None
      else
        bindE (ctf__get16 ctf ptr) (\<lambda>val.
          let tg = unat (CTF_GET_KIND val); vlen = unat (CTF_GET_VLEN val)
          in if tg \<noteq> CTF_TYPE_KIND_FUNC then Inr None
             else
               bindE (ctf__get16 ctf (ptr + 2)) (\<lambda>ty.
               bindE (ctf__load_ftype h zs ctf
                 (\<lambda>proto. \<lparr>tg_tag = DW_TAG_subprogram, tg_type = unat ty, tg_body = Function_body
                    \<lparr>fn_proto = proto,
                     fn_lexblock = \<lparr>lb_addr = elf_sym__value sy, lb_size = elf_sym__size sy, lb_nr_inline_expansions = 0,
                       lb_nr_labels = 0, lb_nr_variables = 0, lb_nr_lexblocks = 0, lb_size_inline_expansions = 0\<rparr>,
                     fn_name = Some (sy_name sy), fn_linkage_name = None, fn_cu_total_size_inline_expansions = 0,
                     fn_cu_total_nr_inline_expansions = 0, fn_inlined = 0, fn_external = (elf_sym__bind sy = 1),
                     fn_declaration = False, fn_btf = False,
      fn_virtuality = DW_VIRTUALITY_none, fn_accessibility = 0, fn_vtable_entry = -1, fn_attributes = [], fn_abstract_origin = False\<rparr>\<rparr>)
                 ftype_zero vlen (ptr + 4) (-1) cu) (\<lambda>(rc, cu').
                 if rc < 0 then Inr None
                 else Inr (Some (ptr + 4 + 2 * (if odd vlen then vlen + 1 else vlen), cu'))))))"

fun load_funcs_loop :: "heap_env \<Rightarrow> (dw_tag \<Rightarrow> nat) \<Rightarrow> ctf \<Rightarrow> nat \<Rightarrow> elf_sym list \<Rightarrow> cu \<Rightarrow> fault + int \<times> cu" where
  "load_funcs_loop h zs ctf ptr [] cu = Inr (0, cu)"
| "load_funcs_loop h zs ctf ptr (sy # syms) cu =
     (if ctf__ignore_symtab_function sy then load_funcs_loop h zs ctf ptr syms cu
      else
        bindE (function__new h zs ctf ptr sy cu) (\<lambda>r.
          case r of None \<Rightarrow> Inr (-12, cu) | Some (ptr', cu') \<Rightarrow> load_funcs_loop h zs ctf ptr' syms cu'))"

definition ctf__load_funcs :: "heap_env \<Rightarrow> (dw_tag \<Rightarrow> nat) \<Rightarrow> ctf \<Rightarrow> elf_sym list \<Rightarrow> cu \<Rightarrow> fault + int \<times> cu" where
  "ctf__load_funcs h zs ctf syms cu =
     bindE (ctf__get32 ctf hp_func_off) (\<lambda>off. load_funcs_loop h zs ctf (ctf_header_size + unat off) syms cu)"

definition variable__new :: "heap_env \<Rightarrow> (dw_tag \<Rightarrow> nat) \<Rightarrow> nat \<Rightarrow> elf_sym \<Rightarrow> cu \<Rightarrow> fault + cu option" where
  "variable__new h zs type sy cu =
     (if avail h (zs DW_TAG_variable) then
        map_sum id (\<lambda>(rc, j, cu'). Some cu')
          (cu__add_tag h cu \<lparr>tg_tag = DW_TAG_variable, tg_type = type, tg_body = Variable_body
             \<lparr>va_name = Some (sy_name sy), va_external = (elf_sym__bind sy = 1), va_declaration = False,
              va_scope = VSCOPE_GLOBAL, va_addr = elf_sym__value sy\<rparr>\<rparr> 0)
      else Inr None)"

text \<open>The types of objects are read as they are, whatever the byte order.\<close>

fun load_objects_loop :: "heap_env \<Rightarrow> (dw_tag \<Rightarrow> nat) \<Rightarrow> ctf \<Rightarrow> nat \<Rightarrow> elf_sym list \<Rightarrow> cu \<Rightarrow> fault + int \<times> cu" where
  "load_objects_loop h zs ctf objp [] cu = Inr (0, cu)"
| "load_objects_loop h zs ctf objp (sy # syms) cu =
     (if ctf__ignore_symtab_object sy then load_objects_loop h zs ctf objp syms cu
      else
        bindE (load16 (cf_buf ctf) objp) (\<lambda>type.
          if type = 0 then load_objects_loop h zs ctf (objp + 2) syms cu
          else
            bindE (variable__new h zs (unat type) sy cu) (\<lambda>r.
              case r of None \<Rightarrow> Inr (-12, cu) | Some cu' \<Rightarrow> load_objects_loop h zs ctf (objp + 2) syms cu')))"

definition ctf__load_objects :: "heap_env \<Rightarrow> (dw_tag \<Rightarrow> nat) \<Rightarrow> ctf \<Rightarrow> elf_sym list \<Rightarrow> cu \<Rightarrow> fault + int \<times> cu" where
  "ctf__load_objects h zs ctf syms cu =
     bindE (ctf__get32 ctf hp_object_off) (\<lambda>off. load_objects_loop h zs ctf (ctf_header_size + unat off) syms cu)"

text \<open>\<open>symtab\<close> is the symbol table, \<open>None\<close> if there is none.\<close>

definition ctf__load_sections ::
  "heap_env \<Rightarrow> (dw_tag \<Rightarrow> nat) \<Rightarrow> ctf \<Rightarrow> elf_sym list option \<Rightarrow> cu \<Rightarrow> fault + int \<times> cu" where
  "ctf__load_sections h zs ctf symtab cu =
     (case symtab of
        None \<Rightarrow> Inr (-1, cu)
      | Some syms \<Rightarrow>
          bindE (ctf__load_funcs h zs ctf syms cu) (\<lambda>(err, cu1).
            if err \<noteq> 0 then Inr (err, cu1)
            else bindE (ctf__load_types h zs ctf cu1) (\<lambda>(err, cu2).
                   if err \<noteq> 0 then Inr (err, cu2) else ctf__load_objects h zs ctf syms cu2)))"

section \<open>Bitfields\<close>

text \<open>The integral size in bits and the size in bits of a member's type, or the size in bytes of a type without.\<close>

definition ctf_bit_sizes :: "nat \<Rightarrow> cu \<Rightarrow> tag \<Rightarrow> fault + (nat \<times> nat, nat) sum" where
  "ctf_bit_sizes n cu type =
     (if tg_tag type = DW_TAG_enumeration_type then
        bindE (tag__type type) (\<lambda>ty.
          let type_bit_size = u16 (ty_size ty)
          in Inr (Inl (if is_power_of_2 (of_nat type_bit_size) then (type_bit_size + 7) div 8 * 8 else 32, type_bit_size)))
      else if tg_tag type = DW_TAG_base_type then
        bindE (tag__base_type type) (\<lambda>bt.
        bindE (base_type__name_to_size bt (cu_addr_size cu)) (\<lambda>integral. Inr (Inl (integral, bt_bit_size bt))))
      else map_sum id Inr (tag__size n cu type))"

text \<open>The member after the correction; \<open>bitfield_offset\<close> is an \<open>int8_t\<close>, \<open>bitfield_size\<close> a \<open>uint8_t\<close>.\<close>

definition fixup_ctf_member :: "nat \<Rightarrow> cu \<Rightarrow> class_member \<Rightarrow> fault + class_member" where
  "fixup_ctf_member n cu pos =
     bindE (tag__strip_typedefs_and_modifiers n cu (cm_type pos)) (\<lambda>r.
       case r of
         None \<Rightarrow> Inr pos
       | Some (_, type) \<Rightarrow>
           let pos0 = pos\<lparr>cm_bitfield_offset := 0, cm_bitfield_size := 0, cm_byte_offset := cm_bit_offset pos div 8\<rparr>
           in bindE (ctf_bit_sizes n cu type) (\<lambda>s.
                case s of
                  Inr byte_size \<Rightarrow> Inr (pos0\<lparr>cm_byte_size := byte_size, cm_bit_size := u32 (byte_size * 8)\<rparr>)
                | Inl (integral, type_bit_size) \<Rightarrow>
                    let pos1 = pos0\<lparr>cm_byte_size := integral div 8\<rparr>
                    in Inr (if integral = 0 \<or> type_bit_size = integral then pos1\<lparr>cm_bit_size := u32 integral\<rparr>
                            else pos1\<lparr>cm_bitfield_offset := s8 (int (cm_bit_offset pos mod integral)),
                                      cm_bitfield_size := u8 type_bit_size, cm_bit_size := type_bit_size,
                                      cm_byte_offset := u32 (cm_bit_offset pos div integral * integral div 8)\<rparr>)))"

fun fixup_ctf_entries :: "nat \<Rightarrow> cu \<Rightarrow> ns_entry list \<Rightarrow> fault + ns_entry list" where
  "fixup_ctf_entries n cu [] = Inr []"
| "fixup_ctf_entries n cu (e # es) =
     bindE (case e of
              Member m \<Rightarrow> if cm_tag m = DW_TAG_member then map_sum id Member (fixup_ctf_member n cu m) else Inr e
            | _ \<Rightarrow> Inr e)
       (\<lambda>e'. map_sum id (\<lambda>es'. e' # es') (fixup_ctf_entries n cu es))"

definition class__fixup_ctf_bitfields :: "nat \<Rightarrow> cu \<Rightarrow> tag \<Rightarrow> fault + tag" where
  "class__fixup_ctf_bitfields n cu t =
     (case tg_body t of
        Type_body ty \<Rightarrow>
          map_sum id (\<lambda>es. t\<lparr>tg_body := Type_body (ty\<lparr>ty_tags := es\<rparr>)\<rparr>) (fixup_ctf_entries n cu (ty_tags ty))
      | Class_body c \<Rightarrow>
          map_sum id (\<lambda>es. t\<lparr>tg_body := Class_body (c\<lparr>ty_tags := es\<rparr>)\<rparr>) (fixup_ctf_entries n cu (ty_tags c))
      | _ \<Rightarrow> Inl Out_Of_Bounds)"

text \<open>The tags of the unit are structures and unions by way of their entry in the table of types.\<close>

fun fixup_ctf_tags :: "nat \<Rightarrow> tag_ref list \<Rightarrow> cu \<Rightarrow> fault + cu" where
  "fixup_ctf_tags n [] cu = Inr cu"
| "fixup_ctf_tags n (r # rs) cu =
     (case r of
        Type_ref i \<Rightarrow>
          bindE (cu__type (Some cu) i) (\<lambda>t.
            case t of
              None \<Rightarrow> fixup_ctf_tags n rs cu
            | Some pos \<Rightarrow>
                if tag__is_struct (tg_tag pos) \<or> tag__is_union (tg_tag pos) then
                  bindE (class__fixup_ctf_bitfields n cu pos) (\<lambda>pos'.
                    let pt = cu_types_table cu
                    in fixup_ctf_tags n rs (cu\<lparr>cu_types_table := pt\<lparr>pt_entries := (pt_entries pt)[i := Some pos']\<rparr>\<rparr>))
                else fixup_ctf_tags n rs cu)
      | _ \<Rightarrow> fixup_ctf_tags n rs cu)"

definition cu__fixup_ctf_bitfields :: "nat \<Rightarrow> cu \<Rightarrow> fault + int \<times> cu" where
  "cu__fixup_ctf_bitfields n cu = map_sum id (Pair 0) (fixup_ctf_tags n (cu_tags cu) cu)"

section \<open>Loading a file\<close>

text \<open>
  \<open>elf\<close>: what \<open>open\<close> and \<open>elf_begin\<close> give for the file; \<open>class\<close>: \<open>e_ident[EI_CLASS]\<close>.
\<close>

definition ctf__new :: "heap_env \<Rightarrow> nat \<Rightarrow> string option \<Rightarrow> elf option \<Rightarrow> nat \<Rightarrow> (ctf \<times> elf \<times> nat) option" where
  "ctf__new h z filename elf class =
     (case (filename, elf) of
        (Some f, Some e) \<Rightarrow>
          if avail h z \<and> avail h (length f + 1) \<and> el_has_ehdr e then
            Some (\<lparr>cf_buf = [], cf_size = 0, cf_swapped = False, cf_types = gobuffer_zero, cf_funcs = gobuffer_zero,
                    cf_objects = gobuffer_zero, cf_type_index = 0\<rparr>, e,
                  if class = 1 then 4 else if class = 2 then 8 else 0)
          else None
      | _ \<Rightarrow> None)"

text \<open>\<open>steal\<close> is \<open>conf->steal\<close>, whether it takes the unit, or \<open>None\<close>; \<open>LANG_C\<close> is 2.\<close>

definition ctf__load_file ::
  "heap_env \<Rightarrow> (dw_tag \<Rightarrow> nat) \<Rightarrow> nat \<Rightarrow> nat \<Rightarrow> (byte list \<Rightarrow> nat \<Rightarrow> byte list option) \<Rightarrow> nat \<Rightarrow> elf option \<Rightarrow> nat \<Rightarrow>
    elf_sym list option \<Rightarrow> (cu \<Rightarrow> bool) option \<Rightarrow> cus \<Rightarrow> string \<Rightarrow> fault + int \<times> cus" where
  "ctf__load_file h zs z_ctf z_cu inflate n elf class symtab steal cus filename =
     (case ctf__new h z_ctf (Some filename) elf class of
        None \<Rightarrow> Inr (-1, cus)
      | Some (state, e, wordsize) \<Rightarrow>
          bindE (cu__new h z_cu (Some filename) wordsize [] (Some filename)) (\<lambda>c.
            case c of
              None \<Rightarrow> Inr (-1, cus)
            | Some cu0 \<Rightarrow>
                bindE (ctf__load h inflate e state) (\<lambda>(rc, ctf).
                  if rc \<noteq> 0 then Inr (-1, cus)
                  else
                    bindE (ctf__load_sections h zs ctf symtab (cu0\<lparr>cu_language := 2\<rparr>)) (\<lambda>(err, cu1).
                      if err \<noteq> 0 then Inr (err, cus)
                      else
                        bindE (cu__fixup_ctf_bitfields n cu1) (\<lambda>(err, cu2).
                          if (case steal of None \<Rightarrow> False | Some st \<Rightarrow> st cu2) then Inr (0, cus)
                          else Inr (err, cus__add cus cu2))))))"

end
