(* ===== verification/CtfRoundtrip.thy ===== *)
theory CtfRoundtrip
  imports CtfLoader
begin

text \<open>
  What is written with the routines of \<open>libctf.c\<close> is what \<open>ctf_loader.c\<close> reads.  A \<open>desc\<close> describes a
  type; \<open>write_desc\<close> calls the routines for it, in the order the positions they return ask for;
  \<open>tag_of\<close> is the tag that is expected.
\<close>

section \<open>Descriptions of types\<close>

datatype desc =
    D_int "32 word" "16 word"
  | D_ref nat "16 word" "32 word"
  | D_array "16 word" "16 word" "32 word"
  | D_struct bool "32 word" "64 word" "(32 word \<times> 16 word \<times> 64 word) list"
  | D_func "16 word" "16 word list" bool
  | D_enum "32 word" "16 word" "(32 word \<times> 32 word) list"

definition agg_kind :: "bool \<Rightarrow> nat" where
  "agg_kind un = (if un then CTF_TYPE_KIND_UNION else CTF_TYPE_KIND_STR)"

definition short_agg :: "64 word \<Rightarrow> bool" where
  "short_agg sz \<longleftrightarrow> unat sz < CTF_SHORT_MEMBER_LIMIT"

fun write_members :: "bool \<Rightarrow> (32 word \<times> 16 word \<times> 64 word) list \<Rightarrow> int \<Rightarrow> ctf \<Rightarrow> fault + ctf" where
  "write_members short [] pos ctf = Inr ctf"
| "write_members short ((name, ty, off) # ms) pos ctf =
     bindE (if short then ctf__add_short_member ctf name ty (ucast off) pos else ctf__add_full_member ctf name ty off pos)
       (\<lambda>(pos', ctf'). write_members short ms pos' ctf')"

fun write_parms :: "16 word list \<Rightarrow> int \<Rightarrow> ctf \<Rightarrow> fault + ctf" where
  "write_parms [] pos ctf = Inr ctf"
| "write_parms (ty # tys) pos ctf = bindE (ctf__add_parameter ctf ty pos) (\<lambda>(pos', ctf'). write_parms tys pos' ctf')"

fun write_enumerators :: "(32 word \<times> 32 word) list \<Rightarrow> int \<Rightarrow> ctf \<Rightarrow> fault + ctf" where
  "write_enumerators [] pos ctf = Inr ctf"
| "write_enumerators ((name, val) # es) pos ctf =
     bindE (ctf__add_enumerator ctf name val pos) (\<lambda>(pos', ctf'). write_enumerators es pos' ctf')"

fun write_desc :: "heap_env \<Rightarrow> desc \<Rightarrow> ctf \<Rightarrow> fault + ctf" where
  "write_desc h (D_int name sz) ctf = map_sum id snd (ctf__add_base_type h ctf name sz)"
| "write_desc h (D_ref kind ty name) ctf = map_sum id snd (ctf__add_short_type h ctf (of_nat kind) ty name)"
| "write_desc h (D_array ty ix n) ctf = map_sum id snd (ctf__add_array h ctf ty ix n)"
| "write_desc h (D_struct un name sz ms) ctf =
     bindE (ctf__add_struct h ctf (of_nat (agg_kind un)) name sz (of_nat (length ms))) (\<lambda>(i, pos, ctf').
       write_members (short_agg sz) ms pos ctf')"
| "write_desc h (D_func ty ps va) ctf =
     bindE (ctf__add_function_type h ctf ty (of_nat (length ps)) va) (\<lambda>(i, pos, ctf'). write_parms ps pos ctf')"
| "write_desc h (D_enum name sz es) ctf =
     bindE (ctf__add_enumeration_type h ctf name sz (of_nat (length es))) (\<lambda>(i, pos, ctf'). write_enumerators es pos ctf')"

fun write_descs :: "heap_env \<Rightarrow> desc list \<Rightarrow> ctf \<Rightarrow> fault + ctf" where
  "write_descs h [] ctf = Inr ctf"
| "write_descs h (d # ds) ctf = bindE (write_desc h d ctf) (write_descs h ds)"

section \<open>The bytes of a description\<close>

definition enc_member :: "bool \<Rightarrow> 32 word \<times> 16 word \<times> 64 word \<Rightarrow> byte list" where
  "enc_member short m =
     (case m of (name, ty, off) \<Rightarrow>
        if short then le32 name @ le16 ty @ le16 (ucast off)
        else le32 name @ le16 ty @ le16 0 @ le32 (ucast (drop_bit 32 off)) @ le32 (ucast (off AND 0xffffffff)))"

definition info :: "nat \<Rightarrow> nat \<Rightarrow> 16 word" where
  "info kind vlen = CTF_INFO_ENCODE (of_nat kind) (of_nat vlen) False"

fun hdr :: "desc \<Rightarrow> byte list" where
  "hdr (D_int name sz) = ctf_short_type name (info CTF_TYPE_KIND_INT 0) sz"
| "hdr (D_ref kind ty name) = ctf_short_type name (info kind 0) ty"
| "hdr (D_array ty ix n) = ctf_short_type 0 (info CTF_TYPE_KIND_ARR 0) 0"
| "hdr (D_struct un name sz ms) =
     (if unat sz < 65535 then ctf_short_type name (info (agg_kind un) (length ms)) (ucast sz)
      else ctf_full_type name (info (agg_kind un) (length ms)) 0xffff (ucast (drop_bit 32 sz)) (ucast (sz AND 0xffffffff)))"
| "hdr (D_func ty ps va) = ctf_short_type 0 (info CTF_TYPE_KIND_FUNC (length ps + (if va then 1 else 0))) ty"
| "hdr (D_enum name sz es) = ctf_short_type name (info CTF_TYPE_KIND_ENUM (length es)) sz"

fun parts :: "desc \<Rightarrow> byte list list" where
  "parts (D_int name sz) = [le32 (ucast sz)]"
| "parts (D_ref kind ty name) = []"
| "parts (D_array ty ix n) = [le16 ty @ le16 ix @ le32 n]"
| "parts (D_struct un name sz ms) = map (enc_member (short_agg sz)) ms"
| "parts (D_func ty ps va) = map le16 ps @ (if va then [le16 0] else [])"
| "parts (D_enum name sz es) = map (\<lambda>(name, val). le32 name @ le32 val) es"

text \<open>Lists of parameters are padded to a multiple of 4 bytes, with whatever the memory holds.\<close>

fun pad_len :: "desc \<Rightarrow> nat" where
  "pad_len (D_func ty ps va) = (if odd (length ps + (if va then 1 else 0)) then 2 else 0)"
| "pad_len _ = 0"

definition is_enc :: "desc \<Rightarrow> byte list \<Rightarrow> bool" where
  "is_enc d bs \<longleftrightarrow> (\<exists>pad. length pad = pad_len d \<and> bs = hdr d @ concat (parts d) @ pad)"

definition enc_len :: "desc \<Rightarrow> nat" where
  "enc_len d = length (hdr d) + length (concat (parts d)) + pad_len d"

section \<open>What can be described\<close>

definition ref_kinds :: "nat list" where
  "ref_kinds = [CTF_TYPE_KIND_PTR, CTF_TYPE_KIND_CONST, CTF_TYPE_KIND_VOLATILE, CTF_TYPE_KIND_RESTRICT,
     CTF_TYPE_KIND_TYPDEF, CTF_TYPE_KIND_FWD]"

text \<open>
  The number of parts fits 10 bits; a type or size of 0xffff would be taken for the mark of a large
  type; short members have 16-bit offsets, those of large types must fit 32 bits.
\<close>

fun desc_ok :: "desc \<Rightarrow> bool" where
  "desc_ok (D_int name sz) \<longleftrightarrow> sz \<noteq> 0xffff"
| "desc_ok (D_ref kind ty name) \<longleftrightarrow> kind \<in> set ref_kinds \<and> ty \<noteq> 0xffff"
| "desc_ok (D_array ty ix n) \<longleftrightarrow> True"
| "desc_ok (D_struct un name sz ms) \<longleftrightarrow>
     length ms < 1024 \<and> list_all (\<lambda>(name, ty, off). unat off < (if short_agg sz then 65536 else 4294967296)) ms"
| "desc_ok (D_func ty ps va) \<longleftrightarrow> length ps + (if va then 1 else 0) < 1024 \<and> ty \<noteq> 0xffff \<and> 0 \<notin> set ps"
| "desc_ok (D_enum name sz es) \<longleftrightarrow> length es < 1024 \<and> sz \<noteq> 0xffff"

text \<open>The names a description uses, and those of them that must not be empty.\<close>

fun desc_names :: "desc \<Rightarrow> 32 word list" where
  "desc_names (D_int name sz) = [name]"
| "desc_names (D_ref kind ty name) = [name]"
| "desc_names (D_array ty ix n) = []"
| "desc_names (D_struct un name sz ms) = name # map fst ms"
| "desc_names (D_func ty ps va) = []"
| "desc_names (D_enum name sz es) = name # map fst es"

fun full_names :: "desc \<Rightarrow> 32 word list" where
  "full_names (D_int name sz) = [name]"
| "full_names (D_enum name sz es) = map fst es"
| "full_names _ = []"

definition str_of :: "ctf \<Rightarrow> 32 word \<Rightarrow> string option" where
  "str_of ctf r = (case ctf__string ctf r of Inl _ \<Rightarrow> None | Inr s \<Rightarrow> s)"

definition names_ok :: "ctf \<Rightarrow> desc \<Rightarrow> bool" where
  "names_ok ctf d \<longleftrightarrow>
     list_all (\<lambda>r. \<not> isl (ctf__string ctf r)) (desc_names d) \<and> list_all (\<lambda>r. str_of ctf r \<noteq> None) (full_names d)"

section \<open>The tags expected\<close>

definition member_of :: "ctf \<Rightarrow> 32 word \<times> 16 word \<times> 64 word \<Rightarrow> class_member" where
  "member_of ctf m =
     (case m of (name, ty, off) \<Rightarrow>
        zero_member\<lparr>cm_type := unat ty, cm_name := str_of ctf name, cm_bit_offset := unat off\<rparr>)"

definition add_members :: "ctf \<Rightarrow> (32 word \<times> 16 word \<times> 64 word) list \<Rightarrow> 'a type_t_scheme \<Rightarrow> 'a type_t_scheme" where
  "add_members ctf ms t = fold (\<lambda>m t. type__add_member t (member_of ctf m)) ms t"

definition ref_tag :: "nat \<Rightarrow> dw_tag" where
  "ref_tag kind =
     (if kind = CTF_TYPE_KIND_CONST then DW_TAG_const_type else if kind = CTF_TYPE_KIND_PTR then DW_TAG_pointer_type
      else if kind = CTF_TYPE_KIND_RESTRICT then DW_TAG_restrict_type else DW_TAG_volatile_type)"

fun tag_of :: "ctf \<Rightarrow> desc \<Rightarrow> tag" where
  "tag_of ctf (D_int name sz) =
     \<lparr>tg_tag = DW_TAG_base_type, tg_type = 0, tg_body = Base_body
       \<lparr>bt_name = the (str_of ctf name), bt_bit_size = unat sz, bt_name_has_encoding = False, bt_is_signed = False,
        bt_is_bool = False, bt_is_varargs = False, bt_float_type = 0\<rparr>\<rparr>"
| "tag_of ctf (D_ref kind ty name) =
     (if kind = CTF_TYPE_KIND_TYPDEF then
        \<lparr>tg_tag = DW_TAG_typedef, tg_type = unat ty, tg_body = Type_body (type__init (str_of ctf name) (unat ty))\<rparr>
      else if kind = CTF_TYPE_KIND_FWD then
        \<lparr>tg_tag = DW_TAG_structure_type, tg_type = 0,
         tg_body = Class_body (class_zero (type__init (str_of ctf name) (unat ty))\<lparr>ty_declaration := True\<rparr>)\<rparr>
      else \<lparr>tg_tag = ref_tag kind, tg_type = unat ty, tg_body = Plain\<rparr>)"
| "tag_of ctf (D_array ty ix n) =
     \<lparr>tg_tag = DW_TAG_array_type, tg_type = unat ty,
      tg_body = Array_body \<lparr>at_nr_entries = Some [unat n], at_dimensions = 1, at_is_vector = False\<rparr>\<rparr>"
| "tag_of ctf (D_struct un name sz ms) =
     \<lparr>tg_tag = (if un then DW_TAG_union_type else DW_TAG_structure_type), tg_type = 0,
      tg_body = (if un then Type_body (add_members ctf ms (type__init (str_of ctf name) (unat sz)))
                 else Class_body (add_members ctf ms (class_zero (type__init (str_of ctf name) (unat sz)))))\<rparr>"
| "tag_of ctf (D_func ty ps va) =
     \<lparr>tg_tag = DW_TAG_subroutine_type, tg_type = unat ty, tg_body = Ftype_body
       \<lparr>ft_parms = map (\<lambda>p. \<lparr>pa_type = unat p, pa_name = None, pa_attributes = []\<rparr>) ps, ft_byte_size = 0, ft_nr_parms = length ps,
        ft_unspec_parms = va\<rparr>\<rparr>"
| "tag_of ctf (D_enum name sz es) =
     \<lparr>tg_tag = DW_TAG_enumeration_type, tg_type = 0, tg_body = Type_body
       (fold (\<lambda>(name, val) t. enumeration__add t \<lparr>en_name = the (str_of ctf name), en_value = unat val\<rparr>) es
          (type__init (str_of ctf name) (if sz = 0 then 32 else unat sz)))\<rparr>"

section \<open>Writing\<close>

text \<open>The contents of the buffer of types, with room for \<open>n\<close> more bytes.\<close>

definition types_are :: "heap_env \<Rightarrow> ctf \<Rightarrow> nat \<Rightarrow> byte list \<Rightarrow> bool" where
  "types_are h ctf n c \<longleftrightarrow>
     gobuffer_inv (cf_types ctf) \<and> gobuffer_room h (cf_types ctf) n \<and> gobuffer_contents (cf_types ctf) = c"

lemma types_are_short: "types_are h ctf n c \<Longrightarrow> length c < 2147483648"
  by (auto simp: types_are_def length_gobuffer_contents gobuffer_inv_def)

lemma room_same: "gobuffer_inv g \<Longrightarrow> gobuffer_inv g' \<Longrightarrow> length (gobuffer_contents g') = length (gobuffer_contents g) \<Longrightarrow>
    gobuffer_room h g n \<Longrightarrow> gobuffer_room h g' n"
  by (simp add: gobuffer_room_def length_gobuffer_contents)

lemma poke_types_ok:
  assumes "types_are h ctf n c" and "0 < pos" and "pos + length m \<le> length c"
  shows "\<exists>ctf'. poke_types ctf (int pos) m = Inr (int (pos + length m), ctf') \<and> types_are h ctf' n (blit pos m c) \<and>
    cf_type_index ctf' = cf_type_index ctf"
proof -
  have g: "gobuffer_inv (cf_types ctf)" "gobuffer_contents (cf_types ctf) = c" using assms(1) by (simp_all add: types_are_def)
  obtain g' where g': "gobuffer_poke (cf_types ctf) pos m = Inr g'" "gobuffer_inv g'" "gobuffer_contents g' = blit pos m c"
    using gob.poke_ok [OF g(1) assms(2)] assms(3) g(2) by metis
  have "nat (u32 (int pos)) = pos" using types_are_short [OF assms(1)] assms(3) by (simp add: nat_mod_as_int)
  moreover have "gobuffer_room h g' n"
    using room_same [OF g(1) g'(2)] g' g(2) assms by (simp add: types_are_def)
  ultimately show ?thesis using g' by (simp add: poke_types_def types_are_def)
qed

lemma add_type_ok:
  assumes "types_are h ctf (length t + n) c"
  shows "\<exists>ctf'. add_type h ctf t = Inr (u32 (cf_type_index ctf + 1), ctf') \<and> types_are h ctf' n (c @ t) \<and>
    cf_type_index ctf' = u32 (cf_type_index ctf + 1)"
proof -
  have g: "gobuffer_inv (cf_types ctf)" "gobuffer_room h (cf_types ctf) (length t + n)"
    "gobuffer_contents (cf_types ctf) = c" using assms by (simp_all add: types_are_def)
  obtain g' where g': "gobuffer__add h (cf_types ctf) t = Inr (int (length c), g')" "gobuffer_inv g'" "gobuffer_contents g' = c @ t"
    using gob.add_ok [OF g(1) gob.room_mono [OF g(2), of "length t"]] g(3) by auto
  have "gobuffer_room h g' n" by (rule gob.add_room [OF g(1,2) g'(1)])
  then show ?thesis using g' by (simp add: add_type_def types_are_def Let_def)
qed

lemma allocate_types_ok:
  assumes "types_are h ctf (m + n) c"
  shows "\<exists>g junk. gobuffer__allocate h (cf_types ctf) m = (int (length c), g) \<and> length junk = m \<and>
    types_are h (ctf\<lparr>cf_types := g\<rparr>) n (c @ junk)"
proof -
  have g: "gobuffer_inv (cf_types ctf)" "gobuffer_room h (cf_types ctf) (m + n)"
    "gobuffer_contents (cf_types ctf) = c" using assms by (simp_all add: types_are_def)
  obtain g' junk where g': "gobuffer__allocate h (cf_types ctf) m = (int (length c), g')" "gobuffer_inv g'"
      "length junk = m" "gobuffer_contents g' = c @ junk"
    using gob.alloc_ok [OF g(1) gob.room_mono [OF g(2), of m]] g(3) by auto
  have "gb_index g' = gb_index (cf_types ctf) + m"
    using g' g length_gobuffer_contents by (metis length_append)
  then have "gobuffer_room h g' n" using g(2) by (simp add: gobuffer_room_def)
  then show ?thesis using g' by (auto simp: types_are_def)
qed

fun poke_list :: "byte list list \<Rightarrow> int \<Rightarrow> ctf \<Rightarrow> fault + ctf" where
  "poke_list [] pos ctf = Inr ctf"
| "poke_list (m # ms) pos ctf = bindE (poke_types ctf pos m) (\<lambda>(pos', ctf'). poke_list ms pos' ctf')"

lemma poke_list_ok:
  "types_are h ctf n (pre @ junk) \<Longrightarrow> pre \<noteq> [] \<Longrightarrow> length (concat ms) \<le> length junk \<Longrightarrow>
    \<exists>ctf'. poke_list ms (int (length pre)) ctf = Inr ctf' \<and>
      types_are h ctf' n (pre @ concat ms @ drop (length (concat ms)) junk) \<and> cf_type_index ctf' = cf_type_index ctf"
proof (induction ms arbitrary: ctf pre junk)
  case (Cons m ms)
  have b: "blit (length pre) m (pre @ junk) = (pre @ m) @ drop (length m) junk" by (simp add: blit_def)
  obtain ctf1 where c1: "poke_types ctf (int (length pre)) m = Inr (int (length (pre @ m)), ctf1)"
    "types_are h ctf1 n ((pre @ m) @ drop (length m) junk)" "cf_type_index ctf1 = cf_type_index ctf"
    using poke_types_ok [OF Cons.prems(1), of "length pre" m] Cons.prems by (auto simp: b)
  have "length (concat ms) \<le> length (drop (length m) junk)" using Cons.prems(3) by simp
  from Cons.IH [OF c1(2) _ this] obtain ctf2 where
    "poke_list ms (int (length (pre @ m))) ctf1 = Inr ctf2"
    "types_are h ctf2 n ((pre @ m) @ concat ms @ drop (length (concat ms)) (drop (length m) junk))"
    "cf_type_index ctf2 = cf_type_index ctf1" using Cons.prems(2) by auto
  then show ?case using c1 by (simp add: add.commute)
qed simp

lemma write_poke:
  "write_members short ms pos ctf = poke_list (map (enc_member short) ms) pos ctf"
  "write_parms ps pos ctf = poke_list (map le16 ps) pos ctf"
  "write_enumerators es pos ctf = poke_list (map (\<lambda>(name, val). le32 name @ le32 val) es) pos ctf"
proof -
  show "write_members short ms pos ctf = poke_list (map (enc_member short) ms) pos ctf"
    by (induction short ms pos ctf rule: write_members.induct)
      (auto simp: enc_member_def ctf__add_short_member_def ctf__add_full_member_def split: sum.splits)
  show "write_parms ps pos ctf = poke_list (map le16 ps) pos ctf"
    by (induction ps pos ctf rule: write_parms.induct) (auto simp: ctf__add_parameter_def split: sum.splits)
  show "write_enumerators es pos ctf = poke_list (map (\<lambda>(name, val). le32 name @ le32 val) es) pos ctf"
    by (induction es pos ctf rule: write_enumerators.induct) (auto simp: ctf__add_enumerator_def split: sum.splits)
qed

lemma header_fill:
  assumes "types_are h ctf (length hb + (m + n)) c" and "hb \<noteq> []" and "length (concat ms) \<le> m"
  shows "\<exists>ctf1 g ctf2 junk. add_type h ctf hb = Inr (u32 (cf_type_index ctf + 1), ctf1) \<and>
    gobuffer__allocate h (cf_types ctf1) m = (int (length (c @ hb)), g) \<and>
    poke_list ms (int (length (c @ hb))) (ctf1\<lparr>cf_types := g\<rparr>) = Inr ctf2 \<and>
    length junk = m - length (concat ms) \<and> types_are h ctf2 n (c @ hb @ concat ms @ junk) \<and>
    cf_type_index ctf2 = u32 (cf_type_index ctf + 1)"
proof -
  obtain ctf1 where c1: "add_type h ctf hb = Inr (u32 (cf_type_index ctf + 1), ctf1)"
    "types_are h ctf1 (m + n) (c @ hb)" "cf_type_index ctf1 = u32 (cf_type_index ctf + 1)"
    using add_type_ok [OF assms(1)] by blast
  obtain g junk where g: "gobuffer__allocate h (cf_types ctf1) m = (int (length (c @ hb)), g)" "length junk = m"
    "types_are h (ctf1\<lparr>cf_types := g\<rparr>) n ((c @ hb) @ junk)" using allocate_types_ok [OF c1(2)] by auto
  obtain ctf2 where c2: "poke_list ms (int (length (c @ hb))) (ctf1\<lparr>cf_types := g\<rparr>) = Inr ctf2"
    "types_are h ctf2 n ((c @ hb) @ concat ms @ drop (length (concat ms)) junk)"
    "cf_type_index ctf2 = cf_type_index (ctf1\<lparr>cf_types := g\<rparr>)"
    using poke_list_ok [OF g(3), of ms] assms(2,3) g(2) by auto
  show ?thesis
    by (intro exI [of _ ctf1] exI [of _ g] exI [of _ ctf2] exI [of _ "drop (length (concat ms)) junk"])
      (use c1 g c2 in auto)
qed

lemma short_type_simps [simp]:
  "length (ctf_short_type a b c) = 8" "ctf_short_type a b c \<noteq> []"
  "length (ctf_full_type a b c d e) = 16" "ctf_full_type a b c d e \<noteq> []"
  by (simp_all add: ctf_short_type_def ctf_full_type_def le32_def)

lemma hdr_ne: "hdr d \<noteq> []"
  by (cases d) auto

lemma length_enc_members: "length (concat (map (enc_member short) ms)) = (if short then 8 else 16) * length ms"
  by (induction ms) (auto simp: enc_member_def split: prod.splits)

lemma length_enc_enums: "length (concat (map (\<lambda>(name, val). le32 name @ le32 val) es)) = 8 * length es"
  by (induction es) auto

lemma length_enc_parms: "length (concat (map le16 ps)) = 2 * length ps"
  by (induction ps) auto

lemma unat_of_small: "n < 1024 \<Longrightarrow> unat (of_nat n :: 16 word) = n"
  by (simp add: unat_of_nat)

lemma write_struct_ok:
  assumes "types_are h ctf (enc_len (D_struct un name sz ms) + n) c" and "length ms < 1024"
  shows "\<exists>ctf' bs. write_desc h (D_struct un name sz ms) ctf = Inr ctf' \<and> is_enc (D_struct un name sz ms) bs \<and>
    types_are h ctf' n (c @ bs) \<and> cf_type_index ctf' = u32 (cf_type_index ctf + 1)"
proof -
  let ?d = "D_struct un name sz ms"
  define hb where "hb = hdr ?d"
  define ps where "ps = map (enc_member (short_agg sz)) ms"
  have len: "u32 ((if unat sz < CTF_SHORT_MEMBER_LIMIT then 8 else 16) * unat (of_nat (length ms) :: 16 word)) = length (concat ps)"
    using assms(2) by (simp add: ps_def length_enc_members short_agg_def unat_of_small)
  have "types_are h ctf (length hb + (length (concat ps) + n)) c"
    using assms(1) by (simp add: enc_len_def hb_def ps_def add.assoc)
  from header_fill [OF this _ order_refl] hdr_ne [of ?d] obtain ctf1 g ctf2 where
    w: "add_type h ctf hb = Inr (u32 (cf_type_index ctf + 1), ctf1)"
      "gobuffer__allocate h (cf_types ctf1) (length (concat ps)) = (int (length (c @ hb)), g)"
      "poke_list ps (int (length (c @ hb))) (ctf1\<lparr>cf_types := g\<rparr>) = Inr ctf2"
      "types_are h ctf2 n (c @ hb @ concat ps)" "cf_type_index ctf2 = u32 (cf_type_index ctf + 1)"
    by (auto simp: hb_def)
  define pos where "pos = int (length (c @ hb))"
  note w' = w [folded pos_def]
  have "write_desc h ?d ctf = Inr ctf2"
    using w'(1) unfolding hb_def
    by (simp add: ctf__add_struct_def info_def Let_def len w'(2,3) write_poke(1) ps_def [symmetric]
      split: if_splits)
  moreover have "is_enc ?d (hb @ concat ps)" by (simp add: is_enc_def hb_def ps_def)
  ultimately show ?thesis using w(4,5) by auto
qed

lemma write_enum_ok:
  assumes "types_are h ctf (enc_len (D_enum name sz es) + n) c" and "length es < 1024"
  shows "\<exists>ctf' bs. write_desc h (D_enum name sz es) ctf = Inr ctf' \<and> is_enc (D_enum name sz es) bs \<and>
    types_are h ctf' n (c @ bs) \<and> cf_type_index ctf' = u32 (cf_type_index ctf + 1)"
proof -
  let ?d = "D_enum name sz es"
  define hb where "hb = hdr ?d"
  define ps where "ps = map (\<lambda>(name, val). le32 name @ le32 val) es"
  have len: "unat (of_nat (length es) :: 16 word) * 8 = length (concat ps)"
    using assms(2) by (simp add: ps_def length_enc_enums unat_of_small)
  have "types_are h ctf (length hb + (length (concat ps) + n)) c"
    using assms(1) by (simp add: enc_len_def hb_def ps_def add.assoc)
  from header_fill [OF this _ order_refl] hdr_ne [of ?d] obtain ctf1 g ctf2 where
    w: "add_type h ctf hb = Inr (u32 (cf_type_index ctf + 1), ctf1)"
      "gobuffer__allocate h (cf_types ctf1) (length (concat ps)) = (int (length (c @ hb)), g)"
      "poke_list ps (int (length (c @ hb))) (ctf1\<lparr>cf_types := g\<rparr>) = Inr ctf2"
      "types_are h ctf2 n (c @ hb @ concat ps)" "cf_type_index ctf2 = u32 (cf_type_index ctf + 1)"
    by (auto simp: hb_def)
  define pos where "pos = int (length (c @ hb))"
  note w' = w [folded pos_def]
  have "write_desc h ?d ctf = Inr ctf2"
    using w'(1) unfolding hb_def
    by (simp add: ctf__add_enumeration_type_def info_def len w'(2,3) write_poke(3) ps_def [symmetric])
  moreover have "is_enc ?d (hb @ concat ps)" by (simp add: is_enc_def hb_def ps_def)
  ultimately show ?thesis using w(4,5) by auto
qed

lemma drop_blit_mid: "k + length x \<le> length j \<Longrightarrow> drop k (blit k x j) = x @ drop (k + length x) j"
  by (simp add: blit_def)

lemma write_func_ok:
  assumes "types_are h ctf (enc_len (D_func ty ps va) + n) c" and "length ps + (if va then 1 else 0) < 1024"
  shows "\<exists>ctf' bs. write_desc h (D_func ty ps va) ctf = Inr ctf' \<and> is_enc (D_func ty ps va) bs \<and>
    types_are h ctf' n (c @ bs) \<and> cf_type_index ctf' = u32 (cf_type_index ctf + 1)"
proof -
  let ?d = "D_func ty ps va" and ?v = "if va then 1 else 0 :: nat"
  define hb where "hb = hdr ?d"
  define m where "m = parms_len (of_nat (length ps)) va"
  have up: "unat (of_nat (length ps) :: 16 word) = length ps" using assms(2) by (simp add: unat_of_small)
  have m: "m = 2 * (length ps + ?v) + pad_len ?d"
    using up by (auto simp: m_def parms_len_def Let_def) presburger+
  have nv: "of_nat (length ps) + (if va then 1 else 0) = (of_nat (length ps + ?v) :: 16 word)" by simp
  have "length hb + length (concat (parts ?d)) + pad_len ?d = length hb + m"
    by (simp add: m length_enc_parms)
  then have "types_are h ctf (length hb + (m + n)) c" using assms(1) by (simp add: enc_len_def hb_def add.assoc)
  from add_type_ok [OF this] obtain ctf1 where
    c1: "add_type h ctf hb = Inr (u32 (cf_type_index ctf + 1), ctf1)" "types_are h ctf1 (m + n) (c @ hb)"
      "cf_type_index ctf1 = u32 (cf_type_index ctf + 1)" by blast
  from allocate_types_ok [OF c1(2)] obtain g junk where
    g: "gobuffer__allocate h (cf_types ctf1) m = (int (length (c @ hb)), g)" "length junk = m"
      "types_are h (ctf1\<lparr>cf_types := g\<rparr>) n ((c @ hb) @ junk)" by blast
  obtain ctf2 junk2 where
    c2: "(if va then map_sum id (\<lambda>g'. ctf1\<lparr>cf_types := g'\<rparr>)
            (gobuffer_poke g (nat (u32 (int (length (c @ hb)) + 2 * int (length ps)))) (le16 0))
          else Inr (ctf1\<lparr>cf_types := g\<rparr>)) = Inr ctf2"
      "types_are h ctf2 n ((c @ hb) @ junk2)" "length junk2 = m" "cf_type_index ctf2 = cf_type_index ctf1"
      "\<exists>pad. length pad = pad_len ?d \<and> drop (2 * length ps) junk2 = (if va then le16 0 else []) @ pad"
  proof (cases va)
    case True
    define pos where "pos = length (c @ hb) + 2 * length ps"
    have p: "0 < pos" "pos + length (le16 0) \<le> length ((c @ hb) @ junk)"
      using hdr_ne [of ?d] m g(2) True by (auto simp: pos_def hb_def)
    have b: "blit pos (le16 0) ((c @ hb) @ junk) = (c @ hb) @ blit (2 * length ps) (le16 0) junk"
      by (simp add: blit_def pos_def)
    from poke_types_ok [OF g(3) p, unfolded b] obtain ctf2 where
      k: "poke_types (ctf1\<lparr>cf_types := g\<rparr>) (int pos) (le16 0) = Inr (int (pos + length (le16 0)), ctf2)"
        "types_are h ctf2 n ((c @ hb) @ blit (2 * length ps) (le16 0) junk)"
        "cf_type_index ctf2 = cf_type_index ctf1" by (auto simp del: length_le append_assoc)
    have j: "2 * length ps + length (le16 0) \<le> length junk" using m g(2) True by simp
    have "length (drop (2 * length ps + length (le16 0)) junk) = pad_len ?d" using m g(2) True by simp
    then have "\<exists>pad. length pad = pad_len ?d \<and> drop (2 * length ps) (blit (2 * length ps) (le16 0) junk) = le16 0 @ pad"
      using drop_blit_mid [OF j] by metis
    moreover have "int (length (c @ hb)) + 2 * int (length ps) = int pos" by (simp add: pos_def)
    ultimately show ?thesis
      using that [of ctf2 "blit (2 * length ps) (le16 0) junk"] k j g(2) True
      by (auto simp: poke_types_def split: sum.splits)
  next
    case False
    have "length (drop (2 * length ps) junk) = pad_len ?d" using m g(2) False by simp
    then show ?thesis using that [of "ctf1\<lparr>cf_types := g\<rparr>" junk] g False by auto
  qed
  have "length (concat (map le16 ps)) \<le> length junk2" using c2(3) m by (simp add: length_enc_parms)
  from poke_list_ok [OF c2(2) _ this] hdr_ne [of ?d] obtain ctf3 where
    c3: "poke_list (map le16 ps) (int (length (c @ hb))) ctf2 = Inr ctf3"
      "types_are h ctf3 n ((c @ hb) @ concat (map le16 ps) @ drop (2 * length ps) junk2)"
      "cf_type_index ctf3 = cf_type_index ctf2" by (auto simp: hb_def length_enc_parms)
  have "write_desc h ?d ctf = Inr ctf3"
    using c1(1) g(1) c2(1) c3(1) unfolding hb_def m_def
    by (auto simp: ctf__add_function_type_def info_def nv up write_poke(2) split: sum.splits if_splits)
  moreover have "is_enc ?d (hb @ concat (map le16 ps) @ drop (2 * length ps) junk2)"
    using c2(5) by (auto simp: is_enc_def hb_def)
  ultimately show ?thesis using c3 c2(4) c1(3) by (auto simp del: is_enc_def)
qed

lemma write_desc_ok:
  assumes "types_are h ctf (enc_len d + n) c" and "desc_ok d"
  shows "\<exists>ctf' bs. write_desc h d ctf = Inr ctf' \<and> is_enc d bs \<and> types_are h ctf' n (c @ bs) \<and>
    cf_type_index ctf' = u32 (cf_type_index ctf + 1)"
proof -
  have one: "\<exists>ctf' bs. map_sum id snd (add_type h ctf (hdr d @ concat (parts d))) = Inr ctf' \<and> is_enc d bs \<and>
      types_are h ctf' n (c @ bs) \<and> cf_type_index ctf' = u32 (cf_type_index ctf + 1)" if "pad_len d = 0"
  proof -
    have "types_are h ctf (length (hdr d @ concat (parts d)) + n) c" using assms(1) that by (simp add: enc_len_def)
    from add_type_ok [OF this] show ?thesis using that by (auto simp: is_enc_def)
  qed
  show ?thesis
  proof (cases d)
    case (D_int name sz)
    then show ?thesis using one by (simp add: ctf__add_base_type_def info_def CTF_TYPE_INT_ENCODE_def)
  next
    case (D_ref kind ty name)
    then show ?thesis using one by (simp add: ctf__add_short_type_def info_def)
  next
    case (D_array ty ix k)
    then show ?thesis using one by (simp add: ctf__add_array_def info_def)
  qed (use assms write_struct_ok write_func_ok write_enum_ok in auto)
qed

lemma write_descs_ok:
  "types_are h ctf (sum_list (map enc_len ds) + n) c \<Longrightarrow> list_all desc_ok ds \<Longrightarrow>
    \<exists>ctf' bss. write_descs h ds ctf = Inr ctf' \<and> list_all2 is_enc ds bss \<and> types_are h ctf' n (c @ concat bss)"
proof (induction ds arbitrary: ctf c)
  case (Cons d ds)
  have "types_are h ctf (enc_len d + (sum_list (map enc_len ds) + n)) c" using Cons.prems(1) by (simp add: add.assoc)
  from write_desc_ok [OF this] Cons.prems(2) obtain ctf1 bs where
    c1: "write_desc h d ctf = Inr ctf1" "is_enc d bs" "types_are h ctf1 (sum_list (map enc_len ds) + n) (c @ bs)" by auto
  from Cons.IH [OF c1(3)] Cons.prems(2) obtain ctf2 bss where
    "write_descs h ds ctf1 = Inr ctf2" "list_all2 is_enc ds bss" "types_are h ctf2 n ((c @ bs) @ concat bss)" by auto
  then show ?case using c1 by (intro exI [of _ ctf2] exI [of _ "bs # bss"]) simp
qed simp

section \<open>Reading\<close>

lemma get16_at:
  "\<not> cf_swapped ctf \<Longrightarrow> cf_buf ctf = pre @ le16 w @ post \<Longrightarrow> p = length pre \<Longrightarrow> ctf__get16 ctf p = Inr w"
  by (simp add: ctf__get16_def)

lemma get32_at:
  "\<not> cf_swapped ctf \<Longrightarrow> cf_buf ctf = pre @ le32 w @ post \<Longrightarrow> p = length pre \<Longrightarrow> ctf__get32 ctf p = Inr w"
  by (simp add: ctf__get32_def)

lemma str_of_ok: "\<not> isl (ctf__string ctf r) \<Longrightarrow> ctf__string ctf r = Inr (str_of ctf r)"
  by (cases "ctf__string ctf r") (simp_all add: str_of_def)

definition name_ok :: "ctf \<Rightarrow> 32 word \<Rightarrow> bool" where
  "name_ok ctf r \<longleftrightarrow> \<not> isl (ctf__string ctf r)"

lemma ctf_name_at:
  "\<not> cf_swapped ctf \<Longrightarrow> cf_buf ctf = pre @ le32 r @ post \<Longrightarrow> name_ok ctf r \<Longrightarrow> p = length pre \<Longrightarrow>
    ctf_name ctf p = Inr (str_of ctf r)"
  using get32_at [of ctf pre r post p] by (simp add: ctf_name_def str_of_ok name_ok_def)

lemma enc_member_parts:
  "enc_member True (name, ty, off) = le32 name @ le16 ty @ le16 (ucast off)"
  "enc_member False (name, ty, off) =
     le32 name @ le16 ty @ le16 0 @ le32 (ucast (drop_bit 32 off)) @ le32 (ucast (off AND 0xffffffff))"
  by (simp_all add: enc_member_def)

lemma create_short_ok:
  assumes "\<not> cf_swapped ctf" and "avail h z"
  shows "cf_buf ctf = pre @ concat (map (enc_member True) ms) @ post \<Longrightarrow>
    list_all (\<lambda>(name, ty, off). name_ok ctf name \<and> unat off < 65536) ms \<Longrightarrow>
    create_short_members h z ctf (length pre) (length ms) t = Inr (Some (add_members ctf ms t))"
proof (induction ms arbitrary: pre t)
  case Nil
  then show ?case by (simp add: add_members_def)
next
  case (Cons m ms)
  obtain name ty off where m: "m = (name, ty, off)" by (cases m) auto
  have b: "cf_buf ctf = pre @ le32 name @ le16 ty @ le16 (ucast off) @ concat (map (enc_member True) ms) @ post"
    using Cons.prems(1) by (simp add: m enc_member_parts)
  have r: "ctf__get32 ctf (length pre) = Inr name" "ctf__get16 ctf (length pre + 4) = Inr ty"
    "ctf__get16 ctf (length pre + 6) = Inr (ucast off)"
    using get32_at [OF assms(1) b refl] get16_at [OF assms(1), of "pre @ le32 name" ty]
      get16_at [OF assms(1), of "pre @ le32 name @ le16 ty" "ucast off"] b by simp_all
  have o: "unat (ucast off :: 16 word) = unat off"
    using Cons.prems(2) by (simp add: m unsigned_ucast_eq take_bit_nat_eq_self)
  have "cf_buf ctf = (pre @ enc_member True m) @ concat (map (enc_member True) ms) @ post"
    using Cons.prems(1) by simp
  from Cons.IH [OF this, of "type__add_member t (member_of ctf m)"] Cons.prems(2)
  show ?case using r o assms(2) Cons.prems(2)
    by (simp add: m member_of_def add_members_def enc_member_parts str_of_ok name_ok_def)
qed

lemma create_full_ok:
  assumes "\<not> cf_swapped ctf" and "avail h z"
  shows "cf_buf ctf = pre @ concat (map (enc_member False) ms) @ post \<Longrightarrow>
    list_all (\<lambda>(name, ty, off). name_ok ctf name \<and> unat off < 4294967296) ms \<Longrightarrow>
    create_full_members h z ctf (length pre) (length ms) t = Inr (Some (add_members ctf ms t))"
proof (induction ms arbitrary: pre t)
  case Nil
  then show ?case by (simp add: add_members_def)
next
  case (Cons m ms)
  obtain name ty off where m: "m = (name, ty, off)" by (cases m) auto
  define hi lo where "hi = (ucast (drop_bit 32 off) :: 32 word)" and "lo = (ucast (off AND 0xffffffff) :: 32 word)"
  have b: "cf_buf ctf = pre @ le32 name @ le16 ty @ le16 0 @ le32 hi @ le32 lo @ concat (map (enc_member False) ms) @ post"
    using Cons.prems(1) by (simp add: m enc_member_parts hi_def lo_def)
  have r: "ctf__get32 ctf (length pre) = Inr name" "ctf__get16 ctf (length pre + 4) = Inr ty"
    "ctf__get32 ctf (length pre + 8) = Inr hi" "ctf__get32 ctf (length pre + 12) = Inr lo"
    using get32_at [OF assms(1) b refl] get16_at [OF assms(1), of "pre @ le32 name" ty]
      get32_at [OF assms(1), of "pre @ le32 name @ le16 ty @ le16 0" hi]
      get32_at [OF assms(1), of "pre @ le32 name @ le16 ty @ le16 0 @ le32 hi" lo] b by simp_all
  have o: "unat off < 4294967296" using Cons.prems(2) by (simp add: m)
  have lh: "unat hi * 4294967296 + unat lo = unat off" using low_high [of off] by (simp add: hi_def lo_def)
  then have "unat hi = 0" using o by (cases "unat hi") auto
  then have h0: "hi = 0" "unat lo = unat off" using lh by (simp_all add: word_unat_eq_iff)
  have "cf_buf ctf = (pre @ enc_member False m) @ concat (map (enc_member False) ms) @ post"
    using Cons.prems(1) by simp
  from Cons.IH [OF this, of "type__add_member t (member_of ctf m)"] Cons.prems(2)
  show ?case using r h0 assms(2) Cons.prems(2)
    by (simp add: m member_of_def add_members_def enc_member_parts str_of_ok name_ok_def)
qed

lemma load_parms_ok:
  assumes "\<not> cf_swapped ctf" and "avail h z"
  shows "cf_buf ctf = pre @ concat (map le16 ps) @ (if va then le16 0 else []) @ post \<Longrightarrow> 0 \<notin> set ps \<Longrightarrow>
    ft_nr_parms proto + length ps < 65536 \<Longrightarrow>
    load_parms h z ctf (length pre) (length ps + (if va then 1 else 0)) proto =
      Inr (Some (proto\<lparr>ft_nr_parms := ft_nr_parms proto + length ps,
        ft_parms := ft_parms proto @ map (\<lambda>p. \<lparr>pa_type = unat p, pa_name = None, pa_attributes = []\<rparr>) ps,
        ft_unspec_parms := (va \<or> ft_unspec_parms proto)\<rparr>))"
proof (induction ps arbitrary: pre proto)
  case Nil
  show ?case
  proof (cases va)
    case True
    then have "ctf__get16 ctf (length pre) = Inr 0" using get16_at [OF assms(1), of pre 0 post] Nil.prems(1) by simp
    then show ?thesis using True by simp
  qed simp
next
  case (Cons p ps)
  have b: "cf_buf ctf = (pre @ le16 p) @ concat (map le16 ps) @ (if va then le16 0 else []) @ post"
    using Cons.prems(1) by simp
  have r: "ctf__get16 ctf (length pre) = Inr p" using get16_at [OF assms(1), of pre p] b by simp
  show ?case
    using Cons.IH [OF b, of "proto\<lparr>ft_nr_parms := u16 (ft_nr_parms proto + 1),
        ft_parms := ft_parms proto @ [\<lparr>pa_type = unat p, pa_name = None, pa_attributes = []\<rparr>]\<rparr>"] Cons.prems(2,3) r assms(2)
    by (simp add: ac_simps)
qed

lemma create_enumerators_ok:
  assumes "\<not> cf_swapped ctf" and "avail h z"
  shows "cf_buf ctf = pre @ concat (map (\<lambda>(name, val). le32 name @ le32 val) es) @ post \<Longrightarrow>
    list_all (\<lambda>(name, val). name_ok ctf name \<and> str_of ctf name \<noteq> None) es \<Longrightarrow>
    create_enumerators h z ctf (length pre) (length es) t =
      Inr (Some (fold (\<lambda>(name, val) t. enumeration__add t \<lparr>en_name = the (str_of ctf name), en_value = unat val\<rparr>) es t))"
proof (induction es arbitrary: pre t)
  case (Cons e es)
  obtain name val where e: "e = (name, val)" by force
  have b: "cf_buf ctf = pre @ le32 name @ le32 val @ concat (map (\<lambda>(name, val). le32 name @ le32 val) es) @ post"
    using Cons.prems(1) by (simp add: e)
  have r: "ctf_name ctf (length pre) = Inr (str_of ctf name)" "ctf__get32 ctf (length pre + 4) = Inr val"
    using ctf_name_at [OF assms(1) b] get32_at [OF assms(1), of "pre @ le32 name" val] b Cons.prems(2) by (simp_all add: e)
  have "cf_buf ctf = (pre @ le32 name @ le32 val) @ concat (map (\<lambda>(name, val). le32 name @ le32 val) es) @ post"
    using b by simp
  from Cons.IH [OF this, of "enumeration__add t \<lparr>en_name = the (str_of ctf name), en_value = unat val\<rparr>"]
  show ?case using Cons.prems(2) r assms(2) by (auto simp: e some_name_def split: option.splits)
qed simp

section \<open>Entering the tags\<close>

lemma tag_of_type: "desc_ok d \<Longrightarrow> cu_table_of (tag_of ctf d) = Types"
  by (cases d) (auto simp: cu_table_of_def tag_defs ref_tag_def)

lemma enter_tag_ok:
  assumes "cu_table_of t = Types" and "pt_inv (cu_types_table cu)" and "i < pt_limit" and "pt_mem h"
  shows "\<exists>cu'. enter_tag h cu t i = Inr cu' \<and> pt_inv (cu_types_table cu') \<and>
    pt_lookup (cu_types_table cu') = (pt_lookup (cu_types_table cu))(i := Some t)"
proof -
  obtain pt' where "ptr_table__add_with_id h (cu_types_table cu) (Some t) i = Inr (0, pt')" "pt_inv pt'"
    "pt_lookup pt' = (pt_lookup (cu_types_table cu))(i := Some t)"
    using ptr_table__add_with_id_ok [OF assms(2,3,4), of "Some t"] by auto
  then show ?thesis
    using assms(1) by (simp add: enter_tag_def cu__add_tag_with_id_def cu__table_add_tag_with_id_def cu_enter_function_def)
qed

section \<open>One type\<close>

lemma kind_decode: "kind < 32 \<Longrightarrow> n < 1024 \<Longrightarrow> unat (CTF_GET_KIND (info kind n)) = kind \<and> unat (CTF_GET_VLEN (info kind n)) = n"
proof -
  assume k: "kind < 32" "n < 1024"
  have "unat (of_nat kind :: 16 word) = kind" "unat (of_nat n :: 16 word) = n" using k by (simp_all add: unat_of_nat)
  moreover from this k have "(of_nat kind :: 16 word) < 32" "(of_nat n :: 16 word) < 1024"
    by (simp_all add: word_less_nat_alt)
  ultimately show ?thesis using ctf_info_decode [of "of_nat kind" "of_nat n"] by (simp add: info_def)
qed

text \<open>The fields every type starts with.\<close>

lemma short_type_at:
  assumes "\<not> cf_swapped ctf" and "cf_buf ctf = pre @ ctf_short_type name nfo sz @ post"
  shows "ctf__get32 ctf (length pre) = Inr name" "ctf__get16 ctf (length pre + 4) = Inr nfo"
    "ctf__get16 ctf (length pre + 6) = Inr sz" "name_ok ctf name \<Longrightarrow> ctf_name ctf (length pre) = Inr (str_of ctf name)"
  using assms get32_at [OF assms(1), of pre name] get16_at [OF assms(1), of "pre @ le32 name" nfo]
    get16_at [OF assms(1), of "pre @ le32 name @ le16 nfo" sz] ctf_name_at [OF assms(1), of pre name]
  by (simp_all add: ctf_short_type_def)

definition base_field :: "desc \<Rightarrow> 16 word" where
  "base_field d =
     (case d of
        D_int name sz \<Rightarrow> sz | D_ref kind ty name \<Rightarrow> ty | D_array ty ix n \<Rightarrow> 0
      | D_struct un name sz ms \<Rightarrow> if unat sz < 65535 then ucast sz else 0xffff
      | D_func ty ps va \<Rightarrow> ty | D_enum name sz es \<Rightarrow> sz)"

definition desc_info :: "desc \<Rightarrow> 16 word" where
  "desc_info d =
     (case d of
        D_int name sz \<Rightarrow> info CTF_TYPE_KIND_INT 0 | D_ref kind ty name \<Rightarrow> info kind 0
      | D_array ty ix n \<Rightarrow> info CTF_TYPE_KIND_ARR 0 | D_struct un name sz ms \<Rightarrow> info (agg_kind un) (length ms)
      | D_func ty ps va \<Rightarrow> info CTF_TYPE_KIND_FUNC (length ps + (if va then 1 else 0))
      | D_enum name sz es \<Rightarrow> info CTF_TYPE_KIND_ENUM (length es))"

definition desc_size :: "desc \<Rightarrow> nat" where
  "desc_size d = (case d of D_struct un name sz ms \<Rightarrow> unat sz | _ \<Rightarrow> unat (base_field d))"

lemma small_ucast:
  assumes "unat sz < 65535"
  shows "unat (ucast (sz :: 64 word) :: 16 word) = unat sz" "(ucast sz :: 16 word) \<noteq> 0xffff"
proof -
  show u: "unat (ucast sz :: 16 word) = unat sz"
    using assms by (simp add: unsigned_ucast_eq take_bit_nat_eq_self)
  show "(ucast sz :: 16 word) \<noteq> 0xffff"
  proof
    assume "(ucast sz :: 16 word) = 0xffff"
    then have "unat (ucast sz :: 16 word) = 65535" by simp
    then show False using u assms by simp
  qed
qed

lemma hdr_length: "length (hdr d) = (if base_field d = 0xffff \<and> (\<exists>un name sz ms. d = D_struct un name sz ms) then 16 else 8)"
  by (cases d) (auto simp: base_field_def small_ucast)

lemma hdr_length_ok: "desc_ok d \<Longrightarrow> length (hdr d) = (if base_field d = 0xffff then 16 else 8)"
proof (cases d)
  case (D_struct un name sz ms)
  then show ?thesis using hdr_length [of d] by auto
qed (auto simp: base_field_def)

definition desc_name :: "desc \<Rightarrow> 32 word" where
  "desc_name d =
     (case d of D_int n _ \<Rightarrow> n | D_ref _ _ n \<Rightarrow> n | D_struct _ n _ _ \<Rightarrow> n | D_enum n _ _ \<Rightarrow> n | _ \<Rightarrow> 0)"

definition size_words :: "desc \<Rightarrow> byte list" where
  "size_words d =
     (case d of
        D_struct un name sz ms \<Rightarrow>
          if unat sz < 65535 then [] else le32 (ucast (drop_bit 32 sz)) @ le32 (ucast (sz AND 0xffffffff))
      | _ \<Rightarrow> [])"

lemma hdr_split: "hdr d = ctf_short_type (desc_name d) (desc_info d) (base_field d) @ size_words d"
  by (cases d) (simp_all add: desc_name_def desc_info_def base_field_def size_words_def ctf_full_type_def)

lemma type_size_at:
  assumes "\<not> cf_swapped ctf" and "cf_buf ctf = pre @ hdr d @ post" and "desc_ok d"
  shows "type_size ctf (length pre) (base_field d) = Inr (desc_size d)"
proof (cases "base_field d = 0xffff")
  case False
  have "desc_size d = unat (base_field d)"
  proof (cases d)
    case (D_struct un name sz ms)
    then have "unat sz < 65535" using False by (auto simp: base_field_def split: if_splits)
    then show ?thesis using D_struct small_ucast(1) [of sz] by (simp add: desc_size_def base_field_def)
  qed (simp_all add: desc_size_def base_field_def)
  then show ?thesis using False by (simp add: type_size_def)
next
  case True
  then obtain un name sz ms where d: "d = D_struct un name sz ms" "\<not> unat sz < 65535"
    using hdr_length_ok [OF assms(3)] hdr_length [of d] by (auto simp: base_field_def split: if_splits)
  define hi lo where "hi = (ucast (drop_bit 32 sz) :: 32 word)" and "lo = (ucast (sz AND 0xffffffff) :: 32 word)"
  have "cf_buf ctf = (pre @ ctf_short_type (desc_name d) (desc_info d) (base_field d)) @ le32 hi @ le32 lo @ post"
    using assms(2) d by (simp add: hdr_split size_words_def hi_def lo_def)
  then have "ctf__get32 ctf (length pre + 8) = Inr hi" "ctf__get32 ctf (length pre + 12) = Inr lo"
    using get32_at [OF assms(1), of "pre @ ctf_short_type (desc_name d) (desc_info d) (base_field d)" hi]
      get32_at [OF assms(1), of "pre @ ctf_short_type (desc_name d) (desc_info d) (base_field d) @ le32 hi" lo]
    by simp_all
  then show ?thesis
    using True low_high [of sz] d by (simp add: type_size_def desc_size_def hi_def lo_def)
qed

section \<open>A list of types\<close>

lemma names_ok_name: "names_ok ctf d \<Longrightarrow> desc_names d \<noteq> [] \<Longrightarrow> name_ok ctf (desc_name d)"
  by (cases d) (auto simp: names_ok_def name_ok_def desc_name_def)

lemma int_enc_small: "CTF_TYPE_INT_ATTRS (ucast (sz :: 16 word)) = 0" "CTF_TYPE_INT_BITS (ucast (sz :: 16 word)) = ucast sz"
proof -
  show "CTF_TYPE_INT_ATTRS (ucast (sz :: 16 word)) = 0"
    unfolding CTF_TYPE_INT_ATTRS_def by (rule bit_word_eqI) (auto simp: bit_simps dest: bit_imp_le_length)
  have m: "(0xffff :: 32 word) = mask 16" by (simp add: mask_eq_exp_minus_1)
  show "CTF_TYPE_INT_BITS (ucast (sz :: 16 word)) = ucast sz"
    unfolding CTF_TYPE_INT_BITS_def m by (rule bit_word_eqI) (auto simp: bit_simps dest: bit_imp_le_length)
qed

lemma unat_lt16: "unat (sz :: 16 word) < 65536"
  using unsigned_less [of sz] by simp

lemma unat_ucast16: "u16 (unat (ucast (sz :: 16 word) :: 32 word)) = unat sz"
  using unat_lt16 [of sz] by (simp add: unsigned_ucast_eq take_bit_nat_eq_self)

text \<open>The data after the header, and what is made of it.\<close>

lemma create_type_ok:
  assumes sw: "\<not> cf_swapped ctf" and buf: "cf_buf ctf = pre @ hdr d @ concat (parts d) @ pad @ post"
    and ok: "desc_ok d" "names_ok ctf d" and pad: "length pad = pad_len d" and mem: "\<And>n. avail h n"
    and enter: "enter_tag h cu (tag_of ctf d) i = Inr cu'"
  shows "create_type h zs ctf (length pre) (length pre + length (hdr d)) (desc_info d) (desc_size d) i cu =
    Inr (int (length (concat (parts d)) + pad_len d), cu')"
proof -
  have buf': "cf_buf ctf = (pre @ hdr d) @ concat (parts d) @ pad @ post" using buf by simp
  have sh: "cf_buf ctf = pre @ ctf_short_type (desc_name d) (desc_info d) (base_field d) @ size_words d @ concat (parts d) @ pad @ post"
    using buf by (simp add: hdr_split)
  note at = short_type_at [OF sw sh]
  show ?thesis
  proof (cases d)
    case (D_int name sz)
    have k: "unat (CTF_GET_KIND (desc_info d)) = CTF_TYPE_KIND_INT"
      using kind_decode [of CTF_TYPE_KIND_INT 0] by (simp add: D_int desc_info_def ctf_kind_defs)
    have e: "ctf__get32 ctf (length pre + length (hdr d)) = Inr (ucast sz)"
      using get32_at [OF sw, of "pre @ hdr d" "ucast sz"] buf' by (simp add: D_int)
    have n: "ctf_name ctf (length pre) = Inr (str_of ctf name)" "str_of ctf name \<noteq> None"
      using at(4) names_ok_name [OF ok(2)] ok(2) by (simp_all add: D_int desc_name_def names_ok_def)
    have bt: "base_type__new h (zs DW_TAG_base_type) (the (str_of ctf name)) (CTF_TYPE_INT_ATTRS (ucast sz)) 0
        (CTF_TYPE_INT_BITS (ucast sz)) =
      Some \<lparr>bt_name = the (str_of ctf name), bt_bit_size = unat sz, bt_name_has_encoding = False,
        bt_is_signed = False, bt_is_bool = False, bt_is_varargs = False, bt_float_type = 0\<rparr>"
      by (simp add: base_type__new_def mem int_enc_small unat_ucast16)
    have "create_type h zs ctf (length pre) (length pre + length (hdr d)) (desc_info d) (desc_size d) i cu =
        create_new_base_type h zs ctf (length pre + length (hdr d)) (length pre) i cu"
      by (simp add: create_type_def k ctf_kind_defs)
    also have "\<dots> = Inr (4, cu')"
      unfolding create_new_base_type_def e using enter n bt by (auto simp: some_name_def D_int)
    finally show ?thesis by (simp add: D_int)
  next
    case (D_ref kind ty name)
    have kk: "kind \<in> set ref_kinds" using ok(1) by (simp add: D_ref)
    have k: "unat (CTF_GET_KIND (desc_info d)) = kind"
      using kind_decode [of kind 0] kk by (auto simp: D_ref desc_info_def ref_kinds_def ctf_kind_defs)
    have n: "ctf_name ctf (length pre) = Inr (str_of ctf name)"
      using at(4) names_ok_name [OF ok(2)] by (simp add: D_ref desc_name_def)
    have ty: "ctf__get16 ctf (length pre + 6) = Inr ty" using at(3) by (simp add: D_ref base_field_def)
    have c: "create_type h zs ctf (length pre) q (desc_info d) (desc_size d) i cu =
        (if kind = CTF_TYPE_KIND_FWD then create_new_forward_decl h zs ctf (length pre) (desc_size d) i cu
         else if kind = CTF_TYPE_KIND_TYPDEF then create_new_typedef h zs ctf (length pre) (desc_size d) i cu
         else create_new_tag h zs ctf kind (length pre) i cu)" for q
      using kk by (auto simp: create_type_def k Let_def ref_kinds_def ctf_kind_defs)
    have z: "desc_size d = unat ty" "length (concat (parts d)) + pad_len d = 0"
      by (simp_all add: D_ref desc_size_def base_field_def)
    show ?thesis
      unfolding c
      using enter kk z(1)
      by (auto simp: z(2) ref_kinds_def ctf_kind_defs create_new_tag_def create_new_typedef_def
        create_new_forward_decl_def n ty mem type__new_def class__new_def D_ref ref_tag_def)
  next
    case (D_array ty ix n)
    have k: "unat (CTF_GET_KIND (desc_info d)) = CTF_TYPE_KIND_ARR"
      using kind_decode [of CTF_TYPE_KIND_ARR 0] by (simp add: D_array desc_info_def ctf_kind_defs)
    have e: "ctf__get16 ctf (length pre + length (hdr d)) = Inr ty" "ctf__get32 ctf (length pre + length (hdr d) + 4) = Inr n"
      using get16_at [OF sw, of "pre @ hdr d" ty] get32_at [OF sw, of "pre @ hdr d @ le16 ty @ le16 ix" n] buf'
      by (simp_all add: D_array add.commute)
    have c: "create_type h zs ctf (length pre) q (desc_info d) (desc_size d) i cu = create_new_array h zs ctf q i cu" for q
      by (simp add: create_type_def k Let_def ctf_kind_defs)
    show ?thesis
      unfolding c create_new_array_def e using enter by (simp add: mem D_array)
  next
    case (D_struct un name sz ms)
    have k: "unat (CTF_GET_KIND (desc_info d)) = agg_kind un" "unat (CTF_GET_VLEN (desc_info d)) = length ms"
      using kind_decode [of "agg_kind un" "length ms"] ok(1) by (auto simp: D_struct desc_info_def ctf_kind_defs agg_kind_def)
    have n: "ctf_name ctf (length pre) = Inr (str_of ctf name)"
      using at(4) names_ok_name [OF ok(2)] by (simp add: D_struct desc_name_def)
    have z: "desc_size d = unat sz" by (simp add: D_struct desc_size_def)
    have ms: "list_all (\<lambda>(nm, ty, off). name_ok ctf nm \<and> unat off < (if short_agg sz then 65536 else 4294967296)) ms"
      using ok by (auto simp: D_struct names_ok_def name_ok_def list_all_iff)
    have mem_ok: "create_members h (zs DW_TAG_member) ctf (length pre + length (hdr d)) (length ms) (unat sz) t =
        Inr (Some (add_members ctf ms t))" for t :: "'a type_t_scheme"
      using create_short_ok [OF sw mem, of "pre @ hdr d" ms "pad @ post" "zs DW_TAG_member" t]
        create_full_ok [OF sw mem, of "pre @ hdr d" ms "pad @ post" "zs DW_TAG_member" t] buf' ms
      by (auto simp: create_members_def D_struct short_agg_def)
    have tg: "tag_of ctf d =
      \<lparr>tg_tag = (if un then DW_TAG_union_type else DW_TAG_structure_type), tg_type = 0,
       tg_body = (if un then Type_body (add_members ctf ms (type__init (str_of ctf name) (unat sz)))
                  else Class_body (add_members ctf ms (class_zero (type__init (str_of ctf name) (unat sz)))))\<rparr>"
      "pad_len d = 0" by (simp_all add: D_struct)
    have len: "length (concat (parts d)) = length ms * member_size (unat sz)"
      by (simp add: D_struct length_enc_members member_size_def short_agg_def)
    have c: "create_type h zs ctf (length pre) q (desc_info d) (desc_size d) i cu = 
        (if un then create_new_union h zs ctf q (length ms) (length pre) (unat sz) i cu
         else create_new_class h zs ctf q (length ms) (length pre) (unat sz) i cu)" for q
      by (simp add: create_type_def k Let_def ctf_kind_defs agg_kind_def z)
    show ?thesis
      unfolding c create_new_class_def create_new_union_def n
        mem_ok len
      using enter by (cases un) (simp_all add: mem type__new_def class__new_def tg z mem_ok)
  next
    case (D_func ty ps va)
    define m where "m = length ps + (if va then 1 else 0)"
    have m: "m < 1024" using ok(1) by (simp add: D_func m_def)
    have k: "unat (CTF_GET_KIND (desc_info d)) = CTF_TYPE_KIND_FUNC" "unat (CTF_GET_VLEN (desc_info d)) = m"
      using kind_decode [of CTF_TYPE_KIND_FUNC m] m by (simp_all add: D_func desc_info_def ctf_kind_defs m_def)
    have ty: "ctf__get16 ctf (length pre + 6) = Inr ty" using at(3) by (simp add: D_func base_field_def)
    have buf2: "cf_buf ctf = (pre @ hdr d) @ concat (map le16 ps) @ (if va then le16 0 else []) @ pad @ post"
      using buf' by (auto simp: D_func)
    have pl: "load_parms h z ctf (length pre + length (hdr d)) m ftype_zero =
        Inr (Some \<lparr>ft_parms = map (\<lambda>p. \<lparr>pa_type = unat p, pa_name = None, pa_attributes = []\<rparr>) ps, ft_byte_size = 0,
          ft_nr_parms = length ps, ft_unspec_parms = va\<rparr>)" for z
      using load_parms_ok [OF sw mem buf2, of ftype_zero z] ok(1) by (simp add: D_func ftype_zero_def m_def)
    have len: "length (concat (parts d)) + pad_len d = (if 2 * m mod 4 \<ge> 2 then 2 * m + 2 else 2 * m)"
    proof -
      have "(2 \<le> 2 * m mod 4) = odd m" by presburger
      then show ?thesis by (simp add: D_func m_def length_enc_parms)
    qed
    have c: "create_type h zs ctf (length pre) q (desc_info d) (desc_size d) i cu = create_new_subroutine_type h zs ctf q m (length pre) i cu" for q
      by (simp add: create_type_def k Let_def ctf_kind_defs)
    show ?thesis
      unfolding c create_new_subroutine_type_def ctf__load_ftype_def ty
      using enter pl len m by (simp add: mem D_func Let_def mult.commute [of m])
  next
    case (D_enum name sz es)
    have k: "unat (CTF_GET_KIND (desc_info d)) = CTF_TYPE_KIND_ENUM" "unat (CTF_GET_VLEN (desc_info d)) = length es"
      using kind_decode [of CTF_TYPE_KIND_ENUM "length es"] ok(1) by (simp_all add: D_enum desc_info_def ctf_kind_defs)
    have n: "ctf_name ctf (length pre) = Inr (str_of ctf name)"
      using at(4) names_ok_name [OF ok(2)] by (simp add: D_enum desc_name_def)
    have es: "list_all (\<lambda>(nm, val). name_ok ctf nm \<and> str_of ctf nm \<noteq> None) es"
      using ok(2) by (auto simp: D_enum names_ok_def name_ok_def list_all_iff)
    have e: "create_enumerators h (zs DW_TAG_enumerator) ctf (length pre + length (hdr d)) (length es) t =
        Inr (Some (fold (\<lambda>(name, val) t. enumeration__add t \<lparr>en_name = the (str_of ctf name), en_value = unat val\<rparr>) es t))" for t
      using create_enumerators_ok [OF sw mem, of "pre @ hdr d" es "pad @ post" "zs DW_TAG_enumerator" t] buf' es
      by (simp add: D_enum)
    have s: "u16 (unat sz) = unat sz" "unat sz = 0 \<longleftrightarrow> sz = 0"
      using unat_lt16 [of sz] by (simp_all add: unat_eq_0)
    have z: "desc_size d = unat sz" by (simp add: D_enum desc_size_def base_field_def)
    have c: "create_type h zs ctf (length pre) q (desc_info d) (desc_size d) i cu = create_new_enumeration h zs ctf q (length es) (length pre) (unat sz) i cu" for q
      by (simp add: create_type_def k Let_def ctf_kind_defs z)
    show ?thesis
      unfolding c create_new_enumeration_def n
      using enter e s by (simp add: mem type__new_def D_enum length_enc_enums split: if_splits)
  qed
qed

lemma load_one:
  assumes sw: "\<not> cf_swapped ctf" and buf: "cf_buf ctf = pre @ bs @ post" and enc: "is_enc d bs"
    and ok: "desc_ok d" "names_ok ctf d" and mem: "\<And>n. avail h n"
    and enter: "enter_tag h cu (tag_of ctf d) i = Inr cu'" and stop: "length pre < stop"
  shows "load_types_loop h zs ctf (length pre) stop i cu = load_types_loop h zs ctf (length (pre @ bs)) stop (u32 (i + 1)) cu'"
proof -
  obtain pad where pad: "length pad = pad_len d" "bs = hdr d @ concat (parts d) @ pad" using enc by (auto simp: is_enc_def)
  have b: "cf_buf ctf = pre @ hdr d @ concat (parts d) @ pad @ post" using buf pad by simp
  have b1: "cf_buf ctf = pre @ ctf_short_type (desc_name d) (desc_info d) (base_field d) @ size_words d @ concat (parts d) @ pad @ post"
    using b by (simp add: hdr_split)
  note at = short_type_at [OF sw b1]
  have sz: "type_size ctf (length pre) (base_field d) = Inr (desc_size d)"
    by (rule type_size_at [OF sw _ ok(1)]) (use b in simp)
  have hl: "(if base_field d = 0xffff then 16 else 8) = length (hdr d)" using hdr_length_ok [OF ok(1)] by simp
  have len: "length pre + length (hdr d) + nat (int (length (concat (parts d)) + pad_len d)) = length (pre @ bs)"
    using pad by simp
  show ?thesis
    by (subst load_types_loop.simps)
      (simp only: stop if_True at(2,3) sz sum.case Let_def hl create_type_ok [OF sw b ok pad(1) mem enter] prod.case len, simp)
qed

lemma load_all:
  assumes sw: "\<not> cf_swapped ctf" and mem: "\<And>n. avail h n"
  shows "cf_buf ctf = pre @ concat bss @ post \<Longrightarrow> list_all2 is_enc ds bss \<Longrightarrow> list_all desc_ok ds \<Longrightarrow>
    list_all (names_ok ctf) ds \<Longrightarrow> pt_inv (cu_types_table cu) \<Longrightarrow> i + length ds < pt_limit \<Longrightarrow>
    stop = length pre + length (concat bss) \<Longrightarrow>
    \<exists>cu'. load_types_loop h zs ctf (length pre) stop i cu = Inr (0, cu') \<and> pt_inv (cu_types_table cu') \<and>
      (\<forall>j. pt_lookup (cu_types_table cu') j =
        (if i \<le> j \<and> j < i + length ds then Some (tag_of ctf (ds ! (j - i))) else pt_lookup (cu_types_table cu) j))"
proof (induction ds arbitrary: pre bss cu i)
  case Nil
  then have "bss = []" by simp
  then show ?case using Nil.prems by (subst load_types_loop.simps) auto
next
  case (Cons d ds)
  obtain bs bss' where bss: "bss = bs # bss'" "is_enc d bs" "list_all2 is_enc ds bss'"
    using Cons.prems(2) by (auto simp: list_all2_Cons1)
  have m: "pt_mem h" using mem by (simp add: pt_mem_def)
  obtain cu1 where e: "enter_tag h cu (tag_of ctf d) i = Inr cu1" "pt_inv (cu_types_table cu1)"
    "pt_lookup (cu_types_table cu1) = (pt_lookup (cu_types_table cu))(i := Some (tag_of ctf d))"
    using enter_tag_ok [OF tag_of_type Cons.prems(5) _ m, of d i ctf] Cons.prems(3,6) by auto
  have "bs \<noteq> []" using bss(2) hdr_ne [of d] by (auto simp: is_enc_def)
  then have st: "length pre < stop" using Cons.prems(7) bss(1) by (cases bs) auto
  have b: "cf_buf ctf = pre @ bs @ concat bss' @ post" using Cons.prems(1) bss(1) by simp
  have one: "load_types_loop h zs ctf (length pre) stop i cu = load_types_loop h zs ctf (length (pre @ bs)) stop (u32 (i + 1)) cu1"
    using load_one [OF sw b bss(2) _ _ mem e(1) st] Cons.prems(3,4) by simp
  have i: "u32 (i + 1) = i + 1" using Cons.prems(6) by (simp add: pt_limit_def)
  have b': "cf_buf ctf = (pre @ bs) @ concat bss' @ post" using b by simp
  have "\<exists>cu'. load_types_loop h zs ctf (length (pre @ bs)) stop (i + 1) cu1 = Inr (0, cu') \<and> pt_inv (cu_types_table cu') \<and>
      (\<forall>j. pt_lookup (cu_types_table cu') j =
        (if i + 1 \<le> j \<and> j < i + 1 + length ds then Some (tag_of ctf (ds ! (j - (i + 1))))
         else pt_lookup (cu_types_table cu1) j))"
    by (rule Cons.IH [OF b' bss(3)]) (use Cons.prems e(2) bss(1) in simp_all)
  then obtain cu' where c: "load_types_loop h zs ctf (length (pre @ bs)) stop (i + 1) cu1 = Inr (0, cu')"
    "pt_inv (cu_types_table cu')"
    "\<And>j. pt_lookup (cu_types_table cu') j = (if i + 1 \<le> j \<and> j < i + 1 + length ds then Some (tag_of ctf (ds ! (j - (i + 1))))
      else pt_lookup (cu_types_table cu1) j)" by blast
  have "pt_lookup (cu_types_table cu') j =
      (if i \<le> j \<and> j < i + length (d # ds) then Some (tag_of ctf ((d # ds) ! (j - i))) else pt_lookup (cu_types_table cu) j)" for j
    by (cases "j = i") (auto simp: c(3) e(3) nth_Cons')
  then show ?case using c(1,2) by (simp only: one i) blast
qed

section \<open>A whole section\<close>

text \<open>
  The \<open>.SUNW_ctf\<close> section of a file with these types and strings and without functions and objects:
  the header, then the types, then the strings.
\<close>

definition ctf_header :: "nat \<Rightarrow> nat \<Rightarrow> byte list" where
  "ctf_header types strs =
     le16 0xcff1 @ [2, 0] @ le32 0 @ le32 0 @ le32 0 @ le32 0 @ le32 0 @ le32 0 @
     le32 (of_nat types) @ le32 (of_nat strs)"

definition ctf_reader :: "byte list \<Rightarrow> byte list \<Rightarrow> ctf" where
  "ctf_reader types strs =
     \<lparr>cf_buf = ctf_header (length types) (length strs) @ types @ strs,
      cf_size = ctf_header_size + length types + length strs, cf_swapped = False,
      cf_types = gobuffer_zero, cf_funcs = gobuffer_zero, cf_objects = gobuffer_zero, cf_type_index = 0\<rparr>"

definition ctf_writer :: ctf where
  "ctf_writer =
     \<lparr>cf_buf = [], cf_size = 0, cf_swapped = False, cf_types = gobuffer_zero, cf_funcs = gobuffer_zero,
      cf_objects = gobuffer_zero, cf_type_index = 0\<rparr>"

lemma length_ctf_header [simp]: "length (ctf_header a b) = 36"
  by (simp add: ctf_header_def)

lemma reader_fields [simp]:
  "cf_buf (ctf_reader c strs) = ctf_header (length c) (length strs) @ c @ strs"
  "cf_size (ctf_reader c strs) = ctf_header_size + length c + length strs"
  "\<not> cf_swapped (ctf_reader c strs)"
  by (simp_all add: ctf_reader_def)

lemma reader_header:
  "ctf__get32 (ctf_reader c strs) hp_type_off = Inr 0"
  "ctf__get32 (ctf_reader c strs) hp_str_off = Inr (of_nat (length c))"
  "ctf__get32 (ctf_reader c strs) hp_str_len = Inr (of_nat (length strs))"
  "load32 (cf_buf (ctf_reader c strs)) hp_name = Inr 0"
  "load32 (cf_buf (ctf_reader c strs)) hp_label = Inr 0"
proof -
  define r where "r = ctf_reader c strs"
  define m where "m = le16 0xcff1 @ [2, 0 :: byte]"
  define z where "z = le32 0"
  define a where "a = le32 (of_nat (length c))"
  define b where "b = le32 (of_nat (length strs))"
  have buf: "cf_buf r = m @ z @ z @ z @ z @ z @ z @ a @ b @ c @ strs"
    by (simp add: r_def ctf_header_def m_def z_def a_def b_def)
  have len: "length m = 4" "length z = 4" "length a = 4" by (simp_all add: m_def z_def a_def)
  have sw: "\<not> cf_swapped r" by (simp add: r_def)
  have "ctf__get32 r hp_type_off = Inr 0"
    by (rule get32_at [OF sw, of "m @ z @ z @ z @ z @ z" _ "a @ b @ c @ strs"]) (simp_all add: buf len hp_defs, simp add: z_def)
  moreover have "ctf__get32 r hp_str_off = Inr (of_nat (length c))"
    by (rule get32_at [OF sw, of "m @ z @ z @ z @ z @ z @ z" _ "b @ c @ strs"]) (simp_all add: buf len hp_defs, simp add: a_def)
  moreover have "ctf__get32 r hp_str_len = Inr (of_nat (length strs))"
    by (rule get32_at [OF sw, of "m @ z @ z @ z @ z @ z @ z @ a" _ "c @ strs"]) (simp_all add: buf len hp_defs, simp add: b_def)
  moreover have "load32 (cf_buf r) hp_name = Inr 0"
    by (rule load32_at [of _ "m @ z" _ "z @ z @ z @ z @ a @ b @ c @ strs"]) (simp_all add: buf len hp_defs, simp add: z_def)
  moreover have "load32 (cf_buf r) hp_label = Inr 0"
    by (rule load32_at [of _ "m" _ "z @ z @ z @ z @ z @ a @ b @ c @ strs"]) (simp_all add: buf len hp_defs, simp add: z_def)
  ultimately show "ctf__get32 (ctf_reader c strs) hp_type_off = Inr 0"
    "ctf__get32 (ctf_reader c strs) hp_str_off = Inr (of_nat (length c))"
    "ctf__get32 (ctf_reader c strs) hp_str_len = Inr (of_nat (length strs))"
    "load32 (cf_buf (ctf_reader c strs)) hp_name = Inr 0"
    "load32 (cf_buf (ctf_reader c strs)) hp_label = Inr 0"
    unfolding r_def by blast+
qed

text \<open>The string at an offset of the table, as bytes up to the first zero.\<close>

definition str_at :: "byte list \<Rightarrow> nat \<Rightarrow> string" where
  "str_at strs p = map (\<lambda>b. char_of (unat b)) (takeWhile (\<lambda>b. b \<noteq> 0) (drop p strs))"

lemma c_string_ok: "0 \<in> set bs \<Longrightarrow> c_string bs = Inr (map (\<lambda>b. char_of (unat b)) (takeWhile (\<lambda>b. b \<noteq> 0) bs))"
  by (induction bs) auto

lemma small_ref:
  assumes "unat r < 2147483648"
  shows "CTF_REF_OFFSET r = r" "CTF_REF_TBL_ID r = 0"
proof -
  have "unat (drop_bit 31 r) = unat r div 2147483648" unfolding unat_drop_bit_eq by (simp add: drop_bit_eq_div)
  then have z: "drop_bit 31 r = 0" using assms by (simp add: unat_eq_0 [symmetric])
  then have b: "\<not> bit r n" if "31 \<le> n" for n
  proof -
    have "bit (drop_bit 31 r) (n - 31) = bit r n" using that by (simp add: bit_drop_bit_eq)
    then show ?thesis using z by simp
  qed
  have m: "(0x7fffffff :: 32 word) = mask 31" by (simp add: mask_eq_exp_minus_1)
  show "CTF_REF_OFFSET r = r"
    unfolding CTF_REF_OFFSET_def m
  proof (rule bit_word_eqI)
    fix n
    show "bit (r AND mask 31) n = bit r n" using b [of n] by (cases "31 \<le> n") (auto simp: bit_simps)
  qed
  show "CTF_REF_TBL_ID r = 0" by (simp add: CTF_REF_TBL_ID_def z)
qed

lemma last_zero_drop: "strs \<noteq> [] \<Longrightarrow> last strs = 0 \<Longrightarrow> p < length strs \<Longrightarrow> 0 \<in> set (drop p strs)"
  by (metis last_drop last_in_set drop_eq_Nil not_less)

lemma string_of_reader:
  assumes "last strs = 0" and "unat r < length strs" and "length strs < 2147483648" and "length c < 2147483648"
  shows "ctf__string (ctf_reader c strs) r =
    Inr (if str_at strs (unat r) = [] then None else Some (str_at strs (unat r)))"
proof -
  have r: "CTF_REF_OFFSET r = r" "CTF_REF_TBL_ID r = 0" using small_ref assms(2,3) by simp_all
  have l: "unat (of_nat (length strs) :: 32 word) = length strs" "unat (of_nat (length c) :: 32 word) = length c"
    using assms(3,4) by (simp_all add: unat_of_nat)
  have n: "\<not> of_nat (length strs) \<le> r" using assms(2) l by (simp add: word_le_nat_alt)
  have "unat (r + of_nat (length c)) = unat r + length c"
    using assms l(2) by (simp add: unat_word_ariths)
  then have t: "\<not> cf_size (ctf_reader c strs) \<le> unat (r + of_nat (length c))" using assms(2) by simp
  have d: "drop (ctf_header_size + length c + unat r) (cf_buf (ctf_reader c strs)) = drop (unat r) strs"
    by (simp add: ctf_header_size_def)
  have "0 \<in> set (drop (unat r) strs)" by (rule last_zero_drop) (use assms in auto)
  then show ?thesis
    by (simp add: ctf__string_def Let_def r reader_header n t l(2) d c_string_ok str_at_def del: reader_fields)
qed

definition names_at :: "byte list \<Rightarrow> desc \<Rightarrow> bool" where
  "names_at strs d \<longleftrightarrow>
     list_all (\<lambda>r. unat r < length strs) (desc_names d) \<and>
     list_all (\<lambda>r. unat r < length strs \<and> str_at strs (unat r) \<noteq> []) (full_names d)"

lemma names_at_ok:
  assumes "last strs = 0" and "length strs < 2147483648" and "length c < 2147483648" and "names_at strs d"
  shows "names_ok (ctf_reader c strs) d"
  using assms(4) string_of_reader [OF assms(1) _ assms(2,3)]
  by (auto simp: names_ok_def names_at_def list_all_iff str_of_def)

lemma load_types_whole:
  assumes enc: "list_all2 is_enc ds bss" and c: "c = concat bss" "length c < 2147483648" and ok: "list_all desc_ok ds"
    and nm: "list_all (names_at strs) ds" "last strs = 0" "length strs < 2147483648"
    and mem: "\<And>n. avail h n" and pt: "pt_inv (cu_types_table cu)" "length ds + 1 < pt_limit"
  shows "\<exists>cu'. ctf__load_types h zs (ctf_reader c strs) cu = Inr (0, cu') \<and>
    (\<forall>j. pt_lookup (cu_types_table cu') j =
      (if 1 \<le> j \<and> j < 1 + length ds then Some (tag_of (ctf_reader c strs) (ds ! (j - 1)))
       else pt_lookup (cu_types_table cu) j))"
proof -
  define r where "r = ctf_reader c strs"
  have names: "list_all (names_ok r) ds"
    using nm(1) names_at_ok [OF nm(2,3) c(2)] by (simp add: list_all_iff r_def)
  have buf: "cf_buf r = ctf_header (length c) (length strs) @ concat bss @ strs" by (simp add: r_def c(1))
  have sw: "\<not> cf_swapped r" by (simp add: r_def)
  have so: "unat (of_nat (length c) :: 32 word) = length c" using c(2) by (simp add: unat_of_nat)
  have hd: "ctf__load_types h zs r cu =
      load_types_loop h zs r (length (ctf_header (length c) (length strs))) (36 + length c) 1 cu"
    by (simp add: ctf__load_types_def r_def reader_header so ctf_header_size_def del: reader_fields)
  have "\<exists>cu'. load_types_loop h zs r (length (ctf_header (length c) (length strs))) (36 + length c) 1 cu = Inr (0, cu') \<and>
      pt_inv (cu_types_table cu') \<and>
      (\<forall>j. pt_lookup (cu_types_table cu') j =
        (if 1 \<le> j \<and> j < 1 + length ds then Some (tag_of r (ds ! (j - 1))) else pt_lookup (cu_types_table cu) j))"
    by (rule load_all [OF sw mem buf enc ok names pt(1)]) (use pt(2) c(1) in simp_all)
  then show ?thesis unfolding r_def [symmetric] hd by blast
qed

lemma enc_len_pos: "8 \<le> enc_len d"
  by (cases d) (auto simp: enc_len_def ctf_full_type_def)

lemma length_le_enc: "8 * length ds \<le> sum_list (map enc_len ds)"
proof (induction ds)
  case (Cons d ds)
  then show ?case using enc_len_pos [of d] by simp
qed simp

text \<open>C16: Whatever descriptions of base types, pointers, qualifiers, typedefs, forward declarations, arrays,
  structures, unions, function types and enumerations are appended to an empty encoder, reading the section made
  of them succeeds and makes, under the ids 1, 2 and so on, the tags that were described.\<close>

theorem ctf_types_roundtrip:
  assumes ok: "list_all desc_ok ds" "list_all (names_at strs) ds" and strs: "last strs = 0" "length strs < 2147483648"
    and mem: "\<And>n. avail h n" and room: "sum_list (map enc_len ds) + GOBUFFER__BCHUNK < 2147483648"
    and pt: "pt_inv (cu_types_table cu)"
  shows "\<exists>w cu'. write_descs h ds ctf_writer = Inr w \<and>
    (let r = ctf_reader (gobuffer_contents (cf_types w)) strs
     in ctf__load_types h zs r cu = Inr (0, cu') \<and>
        (\<forall>j < length ds. pt_lookup (cu_types_table cu') (j + 1) = Some (tag_of r (ds ! j))))"
proof -
  have "types_are h ctf_writer (sum_list (map enc_len ds) + 0) []"
    using mem room gobuffer_inv_zero unfolding types_are_def ctf_writer_def
    by (auto simp: gobuffer_room_def gobuffer_contents_def) (simp_all add: gobuffer_zero_def)
  from write_descs_ok [OF this ok(1)] obtain w bss where
    w: "write_descs h ds ctf_writer = Inr w" "list_all2 is_enc ds bss" "types_are h w 0 (concat bss)" by auto
  have c: "gobuffer_contents (cf_types w) = concat bss" using w(3) by (simp add: types_are_def)
  have "length ds + 1 < pt_limit" using length_le_enc [of ds] room by (simp add: pt_limit_def)
  then obtain cu' where
    "ctf__load_types h zs (ctf_reader (gobuffer_contents (cf_types w)) strs) cu = Inr (0, cu')"
    "\<And>j. pt_lookup (cu_types_table cu') j =
      (if 1 \<le> j \<and> j < 1 + length ds then Some (tag_of (ctf_reader (gobuffer_contents (cf_types w)) strs) (ds ! (j - 1)))
       else pt_lookup (cu_types_table cu) j)"
    using load_types_whole [OF w(2) refl types_are_short [OF w(3)] ok(1) ok(2) strs mem pt] unfolding c by blast
  then show ?thesis using w(1) by (auto simp: Let_def)
qed

text \<open>\<open>int\<close>, a pointer to it and \<open>struct s { int a; int b; }\<close>.\<close>

definition all_mem :: heap_env where
  "all_mem = \<lparr>avail = \<lambda>_. True, fresh = \<lambda>_. 0\<rparr>"

definition sample_strs :: "byte list" where
  "sample_strs = [0, 0x69, 0x6e, 0x74, 0, 0x73, 0, 0x61, 0, 0x62, 0]"

definition sample_types :: "desc list" where
  "sample_types =
     [D_int 1 32, D_ref CTF_TYPE_KIND_PTR 1 0, D_struct False 5 8 [(7, 1, 0), (9, 1, 32)]]"

lemma sample_enc: "map enc_len sample_types = [12, 8, 24]"
  by (simp add: sample_types_def enc_len_def enc_member_def short_agg_def CTF_SHORT_MEMBER_LIMIT_def)

theorem ctf_types_roundtrip_witness:
  "\<exists>w cu'. write_descs all_mem sample_types ctf_writer = Inr w \<and>
    (let r = ctf_reader (gobuffer_contents (cf_types w)) sample_strs
     in ctf__load_types all_mem (\<lambda>_. 0) r cu_zero = Inr (0, cu') \<and>
        (\<forall>j < 3. pt_lookup (cu_types_table cu') (j + 1) = Some (tag_of r (sample_types ! j))))"
proof -
  have l: "length sample_types = 3" by (simp add: sample_types_def)
  have "list_all desc_ok sample_types" "list_all (names_at sample_strs) sample_types"
    by (simp_all add: sample_types_def sample_strs_def ref_kinds_def ctf_kind_defs names_at_def str_at_def short_agg_def
      CTF_SHORT_MEMBER_LIMIT_def)
  moreover have "last sample_strs = 0" "length sample_strs < 2147483648" by (simp_all add: sample_strs_def)
  moreover have "pt_inv (cu_types_table cu_zero)" by (simp add: cu_zero_def)
  ultimately show ?thesis
    using ctf_types_roundtrip [of sample_types sample_strs all_mem cu_zero "\<lambda>_. 0"]
    by (simp add: l sample_enc GOBUFFER__BCHUNK_def all_mem_def)
qed

section \<open>What does not survive\<close>

text \<open>The upper half of a member's 64-bit offset is read 16 bits too low: an offset of 2 to the 32 comes back as 65536.\<close>

lemma large_offset_misread:
  assumes "\<not> cf_swapped ctf" and "avail h z" and "name_ok ctf name"
    and "cf_buf ctf = pre @ enc_member False (name, ty, 4294967296) @ post"
  shows "create_full_members h z ctf (length pre) 1 t =
    Inr (Some (type__add_member t (member_of ctf (name, ty, 65536))))"
proof -
  have b: "cf_buf ctf = pre @ le32 name @ le16 ty @ le16 0 @ le32 1 @ le32 0 @ post"
    using assms(4) by (simp add: enc_member_parts)
  have "ctf__get32 ctf (length pre) = Inr name" "ctf__get16 ctf (length pre + 4) = Inr ty"
    "ctf__get32 ctf (length pre + 8) = Inr 1" "ctf__get32 ctf (length pre + 12) = Inr 0"
    using get32_at [OF assms(1) b] get16_at [OF assms(1), of "pre @ le32 name" ty]
      get32_at [OF assms(1), of "pre @ le32 name @ le16 ty @ le16 0" 1 "le32 0 @ post"]
      get32_at [OF assms(1), of "pre @ le32 name @ le16 ty @ le16 0 @ le32 1" 0 post] b by simp_all
  then show ?thesis using assms(2,3) by (simp add: str_of_ok name_ok_def member_of_def)
qed

text \<open>The flags 4 and 8 are stored into fields one bit wide: they are always lost.\<close>

lemma base_type_flags_lost:
  "base_type__new h z name attrs float_type sz = Some bt \<Longrightarrow> \<not> bt_is_bool bt \<and> \<not> bt_is_varargs bt"
proof -
  have "(attrs AND 4) AND 1 = 0" "(attrs AND 8) AND 1 = (0 :: 32 word)" by (simp_all add: and.assoc)
  then show "base_type__new h z name attrs float_type sz = Some bt \<Longrightarrow> \<not> bt_is_bool bt \<and> \<not> bt_is_varargs bt"
    by (auto simp: base_type__new_def split: if_splits)
qed

end
