(* ===== verification/Format.thy ===== *)
theory Format
  imports Cstring
begin

text \<open>
  The conversions of \<open>printf\<close> the printing code uses, as functions to strings: \<open>%u\<close>, \<open>%d\<close>,
  \<open>%x\<close> and \<open>%#x\<close>, fields of a given width and the string of tabulators that is cut to the
  indentation.  Functions that write into a buffer cut the result to its size less the final NUL.
\<close>

section \<open>Numbers\<close>

definition digit_char :: "nat \<Rightarrow> char" where
  "digit_char d = (if d < 10 then char_of (48 + d) else char_of (87 + d))"

fun digits :: "nat \<Rightarrow> nat \<Rightarrow> string" where
  "digits b n = (if n < b \<or> b < 2 then [digit_char n] else digits b (n div b) @ [digit_char (n mod b)])"

declare digits.simps [simp del]

definition dec :: "nat \<Rightarrow> string" where "dec = digits 10"

definition hexs :: "nat \<Rightarrow> string" where "hexs = digits 16"

text \<open>\<open>%d\<close> and \<open>%lld\<close>; \<open>%#x\<close> has no prefix for 0.\<close>

definition sdec :: "int \<Rightarrow> string" where
  "sdec i = (if i < 0 then CHR ''-'' # dec (nat (- i)) else dec (nat i))"

definition alt_hex :: "nat \<Rightarrow> string" where
  "alt_hex n = (if n = 0 then ''0'' else ''0x'' @ hexs n)"

section \<open>Fields\<close>

text \<open>\<open>%*s\<close> and \<open>%-*s\<close>: a negative width means a field that is filled on the right.\<close>

definition blanks :: "nat \<Rightarrow> string" where "blanks n = replicate n (CHR '' '')"

definition fmt_s :: "int \<Rightarrow> string \<Rightarrow> string" where
  "fmt_s w s =
     (if w < 0 then s @ blanks (nat (- w) - length s) else blanks (nat w - length s) @ s)"

definition fmt_ls :: "int \<Rightarrow> string \<Rightarrow> string" where
  "fmt_ls w s = s @ blanks (nat \<bar>w\<bar> - length s)"

text \<open>A NULL string prints as \<open>(null)\<close>.\<close>

definition str_or_null :: "string option \<Rightarrow> string" where
  "str_or_null s = (case s of None \<Rightarrow> ''(null)'' | Some t \<Rightarrow> t)"

definition str_or_empty :: "string option \<Rightarrow> string" where
  "str_or_empty s = (case s of None \<Rightarrow> '''' | Some t \<Rightarrow> t)"

text \<open>\<open>%.*s\<close> of \<open>tabs\<close>, 16 tabulators: a negative precision is as if there were none.\<close>

definition tabs :: string where "tabs = replicate 16 (char_of (9 :: nat))"

definition ind :: "int \<Rightarrow> string" where
  "ind i = (if i < 0 then tabs else take (nat i) tabs)"

text \<open>\<open>s\<close> for a count that is not 1.\<close>

definition plural :: "int \<Rightarrow> string" where
  "plural n = (if n \<noteq> 1 then ''s'' else '''')"

section \<open>Buffers\<close>

text \<open>\<open>snprintf\<close> into \<open>len\<close> bytes.\<close>

definition cut :: "nat \<Rightarrow> string \<Rightarrow> string" where
  "cut len s = take (len - 1) s"

text \<open>\<open>strncpy\<close> does not end a string that fills the buffer: reading it runs out of the buffer.\<close>

definition strncpy_bf :: "nat \<Rightarrow> string \<Rightarrow> fault + string" where
  "strncpy_bf len s = (if length s < len then Inr s else Inl Out_Of_Bounds)"

section \<open>Facts\<close>

lemma length_blanks [simp]: "length (blanks n) = n"
  by (simp add: blanks_def)

lemma length_fmt [simp]:
  "length (fmt_s w s) = max (nat \<bar>w\<bar>) (length s)" "length (fmt_ls w s) = max (nat \<bar>w\<bar>) (length s)"
  by (auto simp: fmt_s_def fmt_ls_def)

lemma length_ind: "length (ind i) = (if i < 0 then 16 else min (nat i) 16)"
  by (simp add: ind_def tabs_def)

lemma length_cut: "0 < len \<Longrightarrow> length (cut len s) < len"
  by (simp add: cut_def)

lemma cut_short: "length s < len \<Longrightarrow> cut len s = s"
  by (simp add: cut_def)

text \<open>Reading a number back.\<close>

definition digit_val :: "char \<Rightarrow> nat" where
  "digit_val c = (if of_char c < (58 :: nat) then of_char c - 48 else of_char c - 87)"

definition undigits :: "nat \<Rightarrow> string \<Rightarrow> nat" where
  "undigits b s = foldl (\<lambda>n c. b * n + digit_val c) 0 s"

lemma digit_val_char: "d < 36 \<Longrightarrow> digit_val (digit_char d) = d"
  by (simp add: digit_val_def digit_char_def of_char_of)

lemma digits_undigits:
  assumes "1 < b" and "b \<le> 36"
  shows "undigits b (digits b n) = n"
  using assms
proof (induction b n rule: digits.induct)
  case (1 b n)
  show ?case
  proof (cases "n < b")
    case True
    then show ?thesis using 1 by (simp add: digits.simps [of b n] undigits_def digit_val_char)
  next
    case False
    then have n: "digits b n = digits b (n div b) @ [digit_char (n mod b)]"
      using 1 by (subst digits.simps) simp
    have "n mod b < 36" using 1 by (meson mod_less_divisor less_trans zero_less_one less_le_trans)
    then show ?thesis
      using 1 False by (simp add: n undigits_def digit_val_char)
  qed
qed

lemma dec_inj: "dec m = dec n \<Longrightarrow> m = n"
proof -
  assume "dec m = dec n"
  then have "undigits 10 (digits 10 m) = undigits 10 (digits 10 n)" by (simp only: dec_def)
  then show "m = n" by (simp only: digits_undigits [of 10, simplified])
qed

lemma digits_ne [simp]: "digits b n \<noteq> []"
  by (subst digits.simps) simp

end
