(* ===== verification/Names.thy ===== *)
theory Names
  imports Format Cu Typesize
begin

text \<open>
  The names of types in C notation (\<open>tag__name\<close> and the printing of prototypes,
  \<open>dwarves_fprintf.c\<close>).  Names are built in buffers of a fixed size, each level of a pointer or
  qualifier through its own, so that long names are cut.  The recursion over types has a bound: a
  circle of types of length one is recognised by the code, longer ones are not and run out of stack.
\<close>

section \<open>The configuration\<close>

text \<open>
  \<open>struct conf_fprintf\<close>; \<open>cf_cachelinep\<close> says whether the pointer to the current cacheline is set.
\<close>

record conf_fprintf =
  cf_prefix :: "string option"
  cf_suffix :: "string option"
  cf_type_spacing :: int
  cf_name_spacing :: int
  cf_base_offset :: nat
  cf_cachelinep :: bool
  cf_cacheline_size :: nat
  cf_indent :: nat
  cf_expand_types :: bool
  cf_expand_pointers :: bool
  cf_rel_offset :: bool
  cf_emit_stats :: bool
  cf_suppress_comments :: bool
  cf_has_alignment_info :: bool
  cf_suppress_aligned_attribute :: bool
  cf_suppress_offset_comment :: bool
  cf_suppress_force_paddings :: bool
  cf_suppress_packed :: bool
  cf_show_decl_info :: bool
  cf_show_only_data_members :: bool
  cf_no_semicolon :: bool
  cf_show_first_biggest_size_base_type_member :: bool
  cf_flat_arrays :: bool
  cf_first_member :: bool
  cf_last_member :: bool
  cf_union_member :: bool
  cf_no_parm_names :: bool
  cf_classes_as_structs :: bool
  cf_hex_fmt :: bool
  cf_strip_inline :: bool
  cf_skip_emitting_modifier :: bool

text \<open>\<open>conf_fprintf__defaults\<close>; the size of a cacheline is set when a program starts.\<close>

definition conf_fprintf__defaults :: "nat \<Rightarrow> conf_fprintf" where
  "conf_fprintf__defaults cacheline =
     \<lparr>cf_prefix = None, cf_suffix = None, cf_type_spacing = 26, cf_name_spacing = 23, cf_base_offset = 0,
      cf_cachelinep = False, cf_cacheline_size = cacheline, cf_indent = 0, cf_expand_types = False,
      cf_expand_pointers = False, cf_rel_offset = False, cf_emit_stats = True, cf_suppress_comments = False,
      cf_has_alignment_info = False, cf_suppress_aligned_attribute = False, cf_suppress_offset_comment = False,
      cf_suppress_force_paddings = False, cf_suppress_packed = False, cf_show_decl_info = False,
      cf_show_only_data_members = False, cf_no_semicolon = False,
      cf_show_first_biggest_size_base_type_member = False, cf_flat_arrays = False, cf_first_member = False,
      cf_last_member = False, cf_union_member = False, cf_no_parm_names = False, cf_classes_as_structs = False,
      cf_hex_fmt = False, cf_strip_inline = False, cf_skip_emitting_modifier = False\<rparr>"

section \<open>Messages\<close>

fun dwarf_tag_name :: "dw_tag \<Rightarrow> string" where
  "dwarf_tag_name DW_TAG_array_type = ''array_type''"
| "dwarf_tag_name DW_TAG_class_type = ''class_type''"
| "dwarf_tag_name DW_TAG_enumeration_type = ''enumeration_type''"
| "dwarf_tag_name DW_TAG_formal_parameter = ''formal_parameter''"
| "dwarf_tag_name DW_TAG_imported_declaration = ''imported_declaration''"
| "dwarf_tag_name DW_TAG_label = ''label''"
| "dwarf_tag_name DW_TAG_lexical_block = ''lexical_block''"
| "dwarf_tag_name DW_TAG_member = ''member''"
| "dwarf_tag_name DW_TAG_pointer_type = ''pointer_type''"
| "dwarf_tag_name DW_TAG_reference_type = ''reference_type''"
| "dwarf_tag_name DW_TAG_compile_unit = ''compile_unit''"
| "dwarf_tag_name DW_TAG_string_type = ''string_type''"
| "dwarf_tag_name DW_TAG_structure_type = ''structure_type''"
| "dwarf_tag_name DW_TAG_subroutine_type = ''subroutine_type''"
| "dwarf_tag_name DW_TAG_typedef = ''typedef''"
| "dwarf_tag_name DW_TAG_union_type = ''union_type''"
| "dwarf_tag_name DW_TAG_unspecified_parameters = ''unspecified_parameters''"
| "dwarf_tag_name DW_TAG_variant = ''variant''"
| "dwarf_tag_name DW_TAG_inheritance = ''inheritance''"
| "dwarf_tag_name DW_TAG_inlined_subroutine = ''inlined_subroutine''"
| "dwarf_tag_name DW_TAG_ptr_to_member_type = ''ptr_to_member_type''"
| "dwarf_tag_name DW_TAG_set_type = ''set_type''"
| "dwarf_tag_name DW_TAG_subrange_type = ''subrange_type''"
| "dwarf_tag_name DW_TAG_base_type = ''base_type''"
| "dwarf_tag_name DW_TAG_const_type = ''const_type''"
| "dwarf_tag_name DW_TAG_constant = ''constant''"
| "dwarf_tag_name DW_TAG_enumerator = ''enumerator''"
| "dwarf_tag_name DW_TAG_subprogram = ''subprogram''"
| "dwarf_tag_name DW_TAG_template_type_parameter = ''template_type_parameter''"
| "dwarf_tag_name DW_TAG_template_value_parameter = ''template_value_parameter''"
| "dwarf_tag_name DW_TAG_variant_part = ''variant_part''"
| "dwarf_tag_name DW_TAG_variable = ''variable''"
| "dwarf_tag_name DW_TAG_volatile_type = ''volatile_type''"
| "dwarf_tag_name DW_TAG_restrict_type = ''restrict_type''"
| "dwarf_tag_name DW_TAG_interface_type = ''interface_type''"
| "dwarf_tag_name DW_TAG_namespace = ''namespace''"
| "dwarf_tag_name DW_TAG_imported_module = ''imported_module''"
| "dwarf_tag_name DW_TAG_unspecified_type = ''unspecified_type''"
| "dwarf_tag_name DW_TAG_rvalue_reference_type = ''rvalue_reference_type''"
| "dwarf_tag_name DW_TAG_atomic_type = ''atomic_type''"
| "dwarf_tag_name DW_TAG_GNU_template_parameter_pack = ''GNU_template_parameter_pack''"
| "dwarf_tag_name DW_TAG_GNU_formal_parameter_pack = ''GNU_formal_parameter_pack''"
| "dwarf_tag_name DW_TAG_LLVM_annotation = ''LLVM_annotation''"
| "dwarf_tag_name DW_TAG_GNU_annotation = ''GNU_annotation''"

text \<open>The messages name the C function and the line they come from, here as one string.\<close>

definition tag__id_not_found_snprintf :: "nat \<Rightarrow> nat \<Rightarrow> string \<Rightarrow> string" where
  "tag__id_not_found_snprintf len i at = cut len (''<ERROR('' @ at @ ''): '' @ alt_hex i @ '' not found!>'')"

definition tag__id_not_found_fprintf :: "nat \<Rightarrow> string \<Rightarrow> string" where
  "tag__id_not_found_fprintf i at =
     ''<ERROR('' @ at @ ''): '' @ sdec (s32 (int i)) @ '' not found!>'' @ [char_of (10 :: nat)]"

definition type_loop_msg :: "tag \<Rightarrow> string \<Rightarrow> string" where
  "type_loop_msg t at =
     ''<ERROR('' @ at @ ''): detected type loop: type='' @ sdec (s32 (int (tg_type t))) @ '', tag='' @
       dwarf_tag_name (tg_tag t) @ ''>''"

section \<open>Names of types\<close>

text \<open>\<open>DW_LANG_C_plus_plus\<close> is 4.\<close>

definition tag__prefix :: "cu \<Rightarrow> dw_tag \<Rightarrow> conf_fprintf \<Rightarrow> string" where
  "tag__prefix cu tg conf =
     (if tg = DW_TAG_enumeration_type then ''enum ''
      else if tg = DW_TAG_structure_type then
        if \<not> cf_classes_as_structs conf \<and> cu_language cu = 4 then ''class '' else ''struct ''
      else if tg = DW_TAG_class_type then if cf_classes_as_structs conf then ''struct '' else ''class ''
      else if tg = DW_TAG_union_type then ''union ''
      else if tg = DW_TAG_pointer_type then '' *''
      else if tg = DW_TAG_reference_type then '' &''
      else [])"

text \<open>\<open>name\<close> makes the name of a tag in a buffer of the size given.\<close>

definition tag__ptr_name ::
  "(tag option \<Rightarrow> nat \<Rightarrow> fault + string) \<Rightarrow> conf_fprintf \<Rightarrow> cu \<Rightarrow> tag \<Rightarrow> nat \<Rightarrow> string \<Rightarrow> fault + string" where
  "tag__ptr_name name conf cu t len ptr_suffix =
     (if tg_type t = 0 then Inr (cut len (''void '' @ ptr_suffix))
      else
        bindE (cu__type (Some cu) (tg_type t)) (\<lambda>type.
          case type of
            None \<Rightarrow> Inr (cut len (tag__id_not_found_snprintf len (tg_type t) ''tag__ptr_name:564'' @ '' '' @ ptr_suffix))
          | Some ty \<Rightarrow>
              if tag_has_type_loop t type then Inr (cut len (type_loop_msg t ''tag__ptr_name:566''))
              else
                bindE (if tag__is_const (tg_tag ty) then cu__type (Some cu) (tg_type ty) else Inr None) (\<lambda>next_type.
                  let const_ptr = (case next_type of None \<Rightarrow> False | Some nt \<Rightarrow> tag__is_pointer (tg_tag nt))
                  in bindE (name (if const_ptr then next_type else type) 1024) (\<lambda>s.
                       Inr (cut len (s @ '' '' @ (if const_ptr \<and> \<not> cf_skip_emitting_modifier conf then ''const '' else []) @
                         ptr_suffix))))))"

definition modifier_name ::
  "(tag option \<Rightarrow> nat \<Rightarrow> fault + string) \<Rightarrow> conf_fprintf \<Rightarrow> cu \<Rightarrow> tag \<Rightarrow> nat \<Rightarrow> fault + string" where
  "modifier_name name conf cu t len =
     bindE (cu__type (Some cu) (tg_type t)) (\<lambda>type.
       if type = None \<and> tg_type t \<noteq> 0 then Inr (tag__id_not_found_snprintf len (tg_type t) ''__tag__name:645'')
       else if tag_has_type_loop t type then Inr (cut len (type_loop_msg t ''__tag__name:646''))
       else
         bindE (name type 128) (\<lambda>type_str.
           let emit = \<not> cf_skip_emitting_modifier conf;
               prefix = (if \<not> emit then []
                         else if tg_tag t = DW_TAG_volatile_type then ''volatile ''
                         else if tg_tag t = DW_TAG_const_type then ''const ''
                         else if tg_tag t = DW_TAG_atomic_type then ''_Atomic '' else []);
               suffix = (if emit \<and> tg_tag t = DW_TAG_restrict_type then '' restrict'' else [])
           in Inr (cut len (prefix @ type_str @ suffix @ (if cf_no_parm_names conf then [] else '' '')))))"

text \<open>
  \<open>ft\<close> prints a prototype.  A subprogram without a name leaves the buffer as it was.
\<close>

definition tag_name_body ::
  "(tag option \<Rightarrow> nat \<Rightarrow> fault + string) \<Rightarrow> (tag \<Rightarrow> fault + string) \<Rightarrow> conf_fprintf \<Rightarrow> cu \<Rightarrow>
    tag option \<Rightarrow> nat \<Rightarrow> fault + string" where
  "tag_name_body name ft conf cu to len =
     (case to of
        None \<Rightarrow> strncpy_bf len ''void''
      | Some t \<Rightarrow>
          let tg = tg_tag t
          in if tg = DW_TAG_base_type then
               bindE (tag__base_type t) (\<lambda>bt. bindE (base_type__name bt 64) (strncpy_bf len))
             else if tg = DW_TAG_subprogram then
               bindE (tag__function t) (\<lambda>f.
                 case fn_name f of None \<Rightarrow> Inl Uninitialised | Some s \<Rightarrow> strncpy_bf len s)
             else if tg = DW_TAG_pointer_type then tag__ptr_name name conf cu t len ''*''
             else if tg = DW_TAG_reference_type then tag__ptr_name name conf cu t len ''&''
             else if tg = DW_TAG_ptr_to_member_type then
               (case tg_body t of
                  Ptr_to_member_body i \<Rightarrow>
                    bindE (cu__type (Some cu) i) (\<lambda>type.
                    bindE (case type of
                             Some ty \<Rightarrow> bindE (tag__class ty) (\<lambda>c. Inr (cut 512 (str_or_null (ty_name c) @ ''::*'')))
                           | None \<Rightarrow> Inr (cut 512 (tag__id_not_found_snprintf 512 i ''__tag__name:630'' @ ''::*'')))
                      (tag__ptr_name name conf cu t len))
                | _ \<Rightarrow> Inl Out_Of_Bounds)
             else if tg \<in> {DW_TAG_volatile_type, DW_TAG_const_type, DW_TAG_restrict_type, DW_TAG_atomic_type,
                 DW_TAG_unspecified_type} then modifier_name name conf cu t len
             else if tg = DW_TAG_array_type then
               bindE (cu__type (Some cu) (tg_type t)) (\<lambda>type.
                 if type = None then Inr (tag__id_not_found_snprintf len (tg_type t) ''__tag__name:667'')
                 else if tag_has_type_loop t type then Inr (cut len (type_loop_msg t ''__tag__name:668''))
                 else name type len)
             else if tg = DW_TAG_subroutine_type then map_sum id (cut len) (ft t)
             else if tg = DW_TAG_variable then
               (case tg_body t of Variable_body v \<Rightarrow> Inr (cut len (str_or_null (va_name v))) | _ \<Rightarrow> Inl Out_Of_Bounds)
             else if tag__is_annotation tg then
               bindE (cu__type (Some cu) (tg_type t)) (\<lambda>type.
                 if type = None \<and> tg_type t \<noteq> 0 then Inr (tag__id_not_found_snprintf len (tg_type t) ''__tag__name:692'')
                 else if tag_has_type_loop t type then Inr (cut len (type_loop_msg t ''__tag__name:693''))
                 else name type len)
             else
               bindE (tag__type t) (\<lambda>ty. Inr (cut len (tag__prefix cu tg conf @ str_or_empty (ty_name ty)))))"

text \<open>
  The parameters of a prototype.  \<open>pf\<close> prints a prototype with the name, and whether it is the one of
  a pointer; the loop is over the parameters with the flag that says it is the first.  A circle of
  types ends the list without the closing parenthesis.
\<close>

definition attributes_str :: "string list \<Rightarrow> string" where
  "attributes_str as = concat (map (\<lambda>a. a @ '' '') as)"

fun parms_loop ::
  "(tag option \<Rightarrow> nat \<Rightarrow> fault + string) \<Rightarrow> (tag \<Rightarrow> string option \<Rightarrow> bool \<Rightarrow> bool \<Rightarrow> bool \<Rightarrow> fault + string) \<Rightarrow> conf_fprintf \<Rightarrow>
    cu \<Rightarrow> nat \<Rightarrow> parameter list \<Rightarrow> bool \<Rightarrow> fault + (string \<times> bool)" where
  "parms_loop name pf conf cu indent [] first = Inr ([], True)"
| "parms_loop name pf conf cu indent (pos # ps) first =
     (let sep = (if first then [] else if indent = 0 then '', '' else CHR '','' # char_of (10 :: nat) # ind (int indent));
          nm = (if cf_no_parm_names conf then None else pa_name pos);
          rest = (\<lambda>s. bindE (parms_loop name pf conf cu indent ps False) (\<lambda>(s', ok). Inr (sep @ s @ s', ok)));
          print = (\<lambda>stype. rest (attributes_str (pa_attributes pos) @ stype @
            (case nm of None \<Rightarrow> [] | Some s \<Rightarrow> '' '' @ s)))
      in bindE (cu__type (Some cu) (pa_type pos)) (\<lambda>type.
           case type of
             None \<Rightarrow> print (cut 128 (''<ERROR: type '' @ sdec (s32 (int (pa_type pos))) @ '' not found>''))
           | Some ty \<Rightarrow>
               if tag__is_pointer (tg_tag ty) \<and> tg_type ty \<noteq> 0 then
                 bindE (cu__type (Some cu) (tg_type ty)) (\<lambda>ptype.
                   case ptype of
                     None \<Rightarrow> rest (tag__id_not_found_fprintf (tg_type ty) ''ftype__fprintf_parms:1277'')
                   | Some pt \<Rightarrow>
                       if tag_has_type_loop ty ptype then
                         Inr (sep @ type_loop_msg ty ''ftype__fprintf_parms:1280'' @ [char_of (10 :: nat)], False)
                       else if tg_tag pt = DW_TAG_subroutine_type then
                         bindE (pf pt nm False True True) (\<lambda>s. rest (attributes_str (pa_attributes pos) @ s))
                       else bindE (name type 128) print)
               else if tg_tag ty = DW_TAG_subroutine_type then
                 bindE (pf ty nm True False False) (\<lambda>s. rest (attributes_str (pa_attributes pos) @ s))
               else bindE (name type 128) print))"

definition ftype_parms_body ::
  "(tag option \<Rightarrow> nat \<Rightarrow> fault + string) \<Rightarrow> (tag \<Rightarrow> string option \<Rightarrow> bool \<Rightarrow> bool \<Rightarrow> bool \<Rightarrow> fault + string) \<Rightarrow> conf_fprintf \<Rightarrow>
    cu \<Rightarrow> ftype \<Rightarrow> nat \<Rightarrow> fault + string" where
  "ftype_parms_body name pf conf cu ftype indent =
     bindE (parms_loop name pf conf cu indent (ft_parms ftype) True) (\<lambda>(s, ok).
       Inr (''('' @ s @
         (if \<not> ok then []
          else if ft_parms ftype = [] then ''void)''
          else if ft_unspec_parms ftype then '', ...)'' else '')'')))"

definition ftype_body ::
  "(tag option \<Rightarrow> nat \<Rightarrow> fault + string) \<Rightarrow> (tag \<Rightarrow> string option \<Rightarrow> bool \<Rightarrow> bool \<Rightarrow> bool \<Rightarrow> fault + string) \<Rightarrow> conf_fprintf \<Rightarrow>
    cu \<Rightarrow> tag \<Rightarrow> string option \<Rightarrow> bool \<Rightarrow> bool \<Rightarrow> int \<Rightarrow> bool \<Rightarrow> fault + string" where
  "ftype_body name pf conf cu t nm inlined is_pointer type_spacing is_prototype =
     bindE (tag__ftype t) (\<lambda>ftype.
     bindE (cu__type (Some cu) (tg_type t)) (\<lambda>type.
     bindE (name type 128) (\<lambda>stype.
     bindE (ftype_parms_body name pf conf cu ftype 0) (\<lambda>parms.
       Inr ((if inlined then ''inline '' else []) @ fmt_ls type_spacing stype @ '' '' @
         (if is_prototype then ''('' else []) @ (if is_pointer then ''*'' else []) @ str_or_empty nm @
         (if is_prototype then '')'' else []) @ parms)))))"

text \<open>The names of types and the prototypes of function types that use each other.\<close>

fun tag_name_fuel :: "nat \<Rightarrow> conf_fprintf \<Rightarrow> cu \<Rightarrow> tag option \<Rightarrow> nat \<Rightarrow> fault + string"
  and ftype_fuel :: "nat \<Rightarrow> conf_fprintf \<Rightarrow> cu \<Rightarrow> tag \<Rightarrow> string option \<Rightarrow> bool \<Rightarrow> bool \<Rightarrow> bool \<Rightarrow> fault + string" where
  "tag_name_fuel 0 conf cu = (\<lambda>to len. Inl Out_Of_Fuel)"
| "tag_name_fuel (Suc n) conf cu =
     tag_name_body (tag_name_fuel n conf cu) (\<lambda>t. ftype_fuel n conf cu t None False False True) conf cu"
| "ftype_fuel 0 conf cu = (\<lambda>t nm inlined is_pointer is_prototype. Inl Out_Of_Fuel)"
| "ftype_fuel (Suc n) conf cu =
     (\<lambda>t nm inlined is_pointer is_prototype.
        ftype_body (tag_name_fuel n conf cu) (ftype_fuel n conf cu) conf cu t nm inlined is_pointer 0 is_prototype)"

section \<open>Names fit their buffers\<close>

lemma snprintf_fits: "0 < len \<Longrightarrow> length (tag__id_not_found_snprintf len i at) < len"
  by (simp add: tag__id_not_found_snprintf_def length_cut)

lemma ptr_name_fits: "tag__ptr_name name conf cu t len suffix = Inr s \<Longrightarrow> 0 < len \<Longrightarrow> length s < len"
  by (auto simp: tag__ptr_name_def Let_def length_cut split: if_splits sum.splits option.splits)

lemma modifier_fits: "modifier_name name conf cu t len = Inr s \<Longrightarrow> 0 < len \<Longrightarrow> length s < len"
  by (auto simp: modifier_name_def Let_def length_cut snprintf_fits split: if_splits sum.splits)

lemma strncpy_fits: "strncpy_bf len s = Inr s' \<Longrightarrow> s' = s \<and> length s < len"
  by (auto simp: strncpy_bf_def split: if_splits)

lemma map_sum_Inr: "map_sum id f m = Inr y \<longleftrightarrow> (\<exists>x. m = Inr x \<and> y = f x)"
  by (cases m) auto


definition sample_ptr :: tag where
  "sample_ptr = \<lparr>tg_tag = DW_TAG_pointer_type, tg_type = 1, tg_body = Plain\<rparr>"


text \<open>
  \<open>const\<close> is written before the pointer it qualifies: a constant pointer to \<open>char\<close> reads, but for the
  blanks, as a pointer to constant \<open>char\<close>.
\<close>

lemma const_pointer_name:
  defines "cu \<equiv> sample_cu [None, Some (sample_base ''char'' 8), Some sample_ptr,
      Some \<lparr>tg_tag = DW_TAG_const_type, tg_type = 1, tg_body = Plain\<rparr>]"
  shows "tag_name_fuel 4 (conf_fprintf__defaults 64) cu
      (Some \<lparr>tg_tag = DW_TAG_const_type, tg_type = 2, tg_body = Plain\<rparr>) 64 = Inr ''const char * ''"
    and "tag_name_fuel 4 (conf_fprintf__defaults 64) cu
      (Some \<lparr>tg_tag = DW_TAG_pointer_type, tg_type = 3, tg_body = Plain\<rparr>) 64 = Inr ''const char  *''"
proof -
  have "cu_inv cu" unfolding cu_def by (rule sample_cu_inv) simp
  then have t: "cu_type cu 1 = Inr (Some (sample_base ''char'' 8))" "cu_type cu 2 = Inr (Some sample_ptr)"
    "cu_type cu 3 = Inr (Some \<lparr>tg_tag = DW_TAG_const_type, tg_type = 1, tg_body = Plain\<rparr>)"
    by (simp_all add: cu_def)
  have f: "(4 :: nat) = Suc (Suc (Suc (Suc 0)))" by simp
  show "tag_name_fuel 4 (conf_fprintf__defaults 64) cu
      (Some \<lparr>tg_tag = DW_TAG_const_type, tg_type = 2, tg_body = Plain\<rparr>) 64 = Inr ''const char * ''"
    "tag_name_fuel 4 (conf_fprintf__defaults 64) cu
      (Some \<lparr>tg_tag = DW_TAG_pointer_type, tg_type = 3, tg_body = Plain\<rparr>) 64 = Inr ''const char  *''"
    unfolding f
    by (simp_all add: tag_name_body_def Let_def tag__ptr_name_def modifier_name_def t t [simplified] sample_ptr_def sample_base_def
      tag__base_type_def base_type__name_def tag_defs tag_has_type_loop_def strncpy_bf_def cut_def conf_fprintf__defaults_def)
qed

end
