(* ===== verification/Settled.thy ===== *)
theory Settled
  imports Packed
begin

text \<open>
  What the searches for holes, packing, alignments and flexible arrays leave alone: once a structure
  has been searched for holes, its members, its size and the space counted around them stay.
\<close>

definition layout_of :: "class_t \<Rightarrow> ns_entry list \<times> nat \<times> nat \<times> nat \<times> nat \<times> nat \<times> nat" where
  "layout_of c =
     (ty_tags c, ty_size c, ty_nr_members c, cl_padding c, cl_bit_padding c, cl_pre_hole c, cl_pre_bit_hole c)"

definition class_at :: "cu \<Rightarrow> nat \<Rightarrow> (tag \<times> class_t) option" where
  "class_at cu i =
     (case cu_type cu i of
        Inr (Some t) \<Rightarrow> (case tg_body t of Class_body c \<Rightarrow> Some (t, c) | _ \<Rightarrow> None)
      | _ \<Rightarrow> None)"

text \<open>The kind of a tag, the type it refers to and its name if it is a type.\<close>

definition face :: "tag \<Rightarrow> dw_tag \<times> nat \<times> string option option" where
  "face t = (tg_tag t, tg_type t, case tag__type t of Inr ty \<Rightarrow> Some (ty_name ty) | Inl e \<Rightarrow> None)"

definition settled :: "cu \<Rightarrow> cu \<Rightarrow> bool" where
  "settled cu cu' \<longleftrightarrow>
     (\<forall>i t c. class_at cu i = Some (t, c) \<longrightarrow> cl_holes_searched c \<longrightarrow>
        (\<exists>t' c'. class_at cu' i = Some (t', c') \<and> cl_holes_searched c' \<and> tg_tag t' = tg_tag t \<and>
           layout_of c' = layout_of c)) \<and>
     (\<forall>j. cu_type cu j \<noteq> Inr None \<longrightarrow> cu_type cu' j \<noteq> Inr None) \<and>
     (\<forall>j t. cu_type cu j = Inr (Some t) \<longrightarrow> (\<exists>t'. cu_type cu' j = Inr (Some t') \<and> face t' = face t))"

lemma settled_refl [simp]: "settled cu cu"
  by (auto simp: settled_def)

lemma settled_trans: "settled a b \<Longrightarrow> settled b c \<Longrightarrow> settled a c"
  unfolding settled_def by (intro conjI allI impI) metis+

lemma get_class_at: "get_class cu i = Inr (t, c) \<longleftrightarrow> class_at cu i = Some (t, c)"
  by (auto simp: get_class_def class_at_def tag__class_def split: sum.splits option.splits tag_body.splits)

lemma cu_type_set: "cu_type cu i = Inr (Some t) \<Longrightarrow> cu_type (cu_set_type cu i t') j = (if j = i then Inr (Some t') else cu_type cu j)"
  by (auto simp: cu__type_def ptr_table__entry_def cu_set_type_def split: if_splits)

text \<open>A change to one entry: harmless if it keeps a searched class searched and its layout.\<close>

lemma settled_set:
  assumes "cu_type cu i = Inr (Some t)" and "face t' = face t"
    and "\<And>c. tg_body t = Class_body c \<Longrightarrow> cl_holes_searched c \<Longrightarrow>
      \<exists>c'. tg_body t' = Class_body c' \<and> cl_holes_searched c' \<and> layout_of c' = layout_of c"
  shows "settled cu (cu_set_type cu i t')"
  unfolding settled_def
proof (intro conjI allI impI)
  fix j
  assume "cu_type cu j \<noteq> Inr None"
  then show "cu_type (cu_set_type cu i t') j \<noteq> Inr None" by (simp add: cu_type_set [OF assms(1)])
next
  fix j u
  assume "cu_type cu j = Inr (Some u)"
  then show "\<exists>t''. cu_type (cu_set_type cu i t') j = Inr (Some t'') \<and> face t'' = face u"
    using assms(1,2) by (auto simp: cu_type_set [OF assms(1)])
next
  fix j u c
  assume j: "class_at cu j = Some (u, c)" "cl_holes_searched c"
  show "\<exists>t'' c'. class_at (cu_set_type cu i t') j = Some (t'', c') \<and> cl_holes_searched c' \<and> tg_tag t'' = tg_tag u \<and>
      layout_of c' = layout_of c"
  proof (cases "j = i")
    case True
    then have "u = t" "tg_body t = Class_body c"
      using j(1) assms(1) by (auto simp: class_at_def split: tag_body.splits)
    then show ?thesis
      using assms(2) assms(3) [of c] j(2) True by (auto simp: class_at_def face_def cu_type_set [OF assms(1)])
  next
    case False
    then show ?thesis using j by (auto simp: class_at_def cu_type_set [OF assms(1)])
  qed
qed

lemma settled_put_class:
  assumes "get_class cu i = Inr (t, c)"
    and "cl_holes_searched c \<Longrightarrow> cl_holes_searched c' \<and> layout_of c' = layout_of c"
    and "ty_name c' = ty_name c"
  shows "settled cu (put_class cu i t c')"
proof -
  have t: "cu_type cu i = Inr (Some t)" "tg_body t = Class_body c"
    using assms(1) by (auto simp: get_class_at class_at_def split: sum.splits option.splits tag_body.splits)
  show ?thesis
    unfolding put_class_def
    by (rule settled_set [OF t(1)]) (use t(2) assms(2,3) in \<open>auto simp: face_def tag__type_def type_t.truncate_def\<close>)
qed

lemma settled_upd_class:
  assumes "upd_class cu i f = Inr cu'" and "\<And>c. cl_holes_searched c \<Longrightarrow> cl_holes_searched (f c) \<and> layout_of (f c) = layout_of c"
    and "\<And>c. ty_name (f c) = ty_name c"
  shows "settled cu cu'"
  using assms settled_put_class by (auto simp: upd_class_def split: sum.splits prod.splits)

lemma settled_fold:
  assumes "\<And>x s s'. f x s = Inr s' \<Longrightarrow> settled s s'" and "fold_e f xs s = Inr s'"
  shows "settled s s'"
  using assms(2)
proof (induction xs arbitrary: s)
  case (Cons x xs)
  then show ?case by (auto split: sum.splits intro: settled_trans [OF assms(1)])
qed simp

lemma settled_class:
  "settled cu cu' \<Longrightarrow> class_at cu i = Some (t, c) \<Longrightarrow> cl_holes_searched c \<Longrightarrow>
    \<exists>t' c'. class_at cu' i = Some (t', c') \<and> cl_holes_searched c' \<and> tg_tag t' = tg_tag t \<and> layout_of c' = layout_of c"
  and settled_type: "settled cu cu' \<Longrightarrow> cu_type cu j \<noteq> Inr None \<Longrightarrow> cu_type cu' j \<noteq> Inr None"
  unfolding settled_def by blast+

lemma settled_face: "settled cu cu' \<Longrightarrow> cu_type cu j = Inr (Some t) \<Longrightarrow> \<exists>t'. cu_type cu' j = Inr (Some t') \<and> face t' = face t"
  unfolding settled_def by blast

section \<open>Alignments\<close>

lemma settled_set_natural:
  assumes "get_type cu i = Inr (t, ty)"
  shows "settled cu (cu_set_type cu i (set_natural_alignment t a))"
proof -
  have t: "cu_type cu i = Inr (Some t)"
    using assms by (auto simp: get_type_def split: sum.splits option.splits)
  show ?thesis
    by (rule settled_set [OF t]) (auto simp: set_natural_alignment_def layout_of_def face_def tag__type_def type_t.truncate_def split: tag_body.splits)
qed

lemma settled_type__natural:
  assumes rec: "\<And>cu q a cu'. rec cu q = Inr (a, cu') \<Longrightarrow> settled cu cu'"
    and r: "type__natural_alignment rec n cu i = Inr (a, cu')"
  shows "settled cu cu'"
proof -
  have m: "settled s s'" if "align_member rec n i m s = Inr s'" for m s s'
    using that rec settled_set_natural settled_trans
    by (auto simp: align_member_def split: if_splits sum.splits option.splits prod.splits) blast+
  show ?thesis
    using r settled_fold [OF m]
    by (auto simp: type__natural_alignment_def split: if_splits sum.splits prod.splits)
qed

lemma map_sum_value: "map_sum id (\<lambda>(a, s). (g a, s)) m = Inr (b, s') \<Longrightarrow> \<exists>a. m = Inr (a, s')"
  by (cases m) auto

lemma settled_natural: "tag__natural_alignment n cu q = Inr (a, cu') \<Longrightarrow> settled cu cu'"
proof (induction n arbitrary: cu q a cu')
  case (Suc n)
  show ?case
  proof (cases q)
    case (Some p)
    obtain i t where p: "p = (i, t)" by (cases p)
    have rec: "tag__natural_alignment n cu q = Inr (a, cu') \<Longrightarrow> settled cu cu'" for cu q a cu'
      by (rule Suc.IH)
    show ?thesis
      using Suc.prems unfolding Some p tag__natural_alignment.simps
      by - (drule map_sum_value,
        auto intro: rec settled_type__natural [OF rec] split: if_splits sum.splits option.splits)
  qed (use Suc.prems in simp)
qed simp

section \<open>Packing and flexible arrays\<close>

lemma find_holes_loop_name: "ty_name (snd (find_holes_loop is lst v c)) = ty_name c"
  by (induction "is" lst v c rule: find_holes_loop.induct) (auto simp: Let_def split: option.split prod.split)

lemma find_holes_name [simp]: "ty_name (class__find_holes tg c) = ty_name c"
  using find_holes_loop_name [of "[0..<length (ty_tags c)]" None
      "\<lparr>hv_last_seen = 0, hv_cur_end = u32 (ty_size c * 8), hv_cur_size = 0, hv_in_bitfield = False\<rparr>"
      "c\<lparr>cl_nr_holes := 0, cl_nr_bit_holes := 0\<rparr>"]
  by (auto simp: class__find_holes_def Let_def split: prod.split)

lemma settled_find_holes:
  "get_class cu i = Inr (t, c) \<Longrightarrow> settled cu (put_class cu i t (class__find_holes (tg_tag t) c))"
  by (erule settled_put_class) (simp add: class__find_holes_def, simp)

lemma layout_flags [simp]:
  "layout_of (mark_packed c) = layout_of c" "layout_of (c\<lparr>cl_is_packed := b\<rparr>) = layout_of c"
  "layout_of (c\<lparr>ty_packed_attributes_inferred := b\<rparr>) = layout_of c"
  "layout_of (c\<lparr>cl_has_flexible_array := b\<rparr>) = layout_of c"
  "layout_of (c\<lparr>cl_flexible_array_verified := b\<rparr>) = layout_of c"
  "layout_of (c\<lparr>cl_has_embedded_flexible_array := b\<rparr>) = layout_of c"
  "layout_of (c\<lparr>cl_embedded_flexible_array_searched := b\<rparr>) = layout_of c"
  by (simp_all add: layout_of_def mark_packed_def)

lemma searched_flags [simp]:
  "cl_holes_searched (mark_packed c) = cl_holes_searched c" "ty_name (mark_packed c) = ty_name c"
  by (simp_all add: mark_packed_def)

lemma settled_check_member: "check_member_alignment n m s = Inr s' \<Longrightarrow> settled s s'"
  by (auto simp: check_member_alignment_def split: if_splits sum.splits option.splits prod.splits
      intro: settled_natural settled_trans [OF settled_natural settled_upd_class])

lemma settled_union_member: "union_member_alignment n z m s = Inr s' \<Longrightarrow> settled s s'"
  by (auto simp: union_member_alignment_def split: if_splits sum.splits option.splits prod.splits
      intro: settled_natural settled_trans [OF settled_natural settled_upd_class])

lemma settled_packed_loop: "packed_loop n ms mx s = Inr (r, s') \<Longrightarrow> settled s s'"
proof (induction ms arbitrary: mx s)
  case (Cons m ms)
  then show ?case
    by (auto simp: Let_def split: if_splits sum.splits prod.splits intro: settled_trans [OF settled_natural] settled_natural)
qed simp

lemma settled_packed_out:
  assumes "packed_out i f s = Inr (r, s')"
    and "\<And>c. cl_holes_searched c \<Longrightarrow> cl_holes_searched (f c) \<and> layout_of (f c) = layout_of c"
    and "\<And>c. ty_name (f c) = ty_name c"
  shows "settled s s'"
proof -
  obtain s1 where "upd_class s i (\<lambda>c. (f c)\<lparr>ty_packed_attributes_inferred := True\<rparr>) = Inr s1" "s' = s1"
    using assms(1) by (auto simp: packed_out_def split: sum.splits prod.splits)
  then show ?thesis using settled_upd_class assms(2,3) by fastforce
qed

lemma settled_infer: "class__infer_packed_attributes n cu i = Inr (r, cu') \<Longrightarrow> settled cu cu'"
proof -
  assume r: "class__infer_packed_attributes n cu i = Inr (r, cu')"
  obtain t c where tc: "get_class cu i = Inr (t, c)"
    using r by (auto simp: class__infer_packed_attributes_def split: sum.splits)
  define cu1 where "cu1 = put_class cu i t (class__find_holes (tg_tag t) c)"
  have 1: "settled cu cu1" using settled_find_holes [OF tc] by (simp add: cu1_def)
  have out: "packed_out i f s = Inr (r, cu') \<Longrightarrow> (\<And>c. cl_holes_searched c \<Longrightarrow> cl_holes_searched (f c) \<and> layout_of (f c) = layout_of c) \<Longrightarrow>
      (\<And>c. ty_name (f c) = ty_name c) \<Longrightarrow> settled s cu'" for f s by (rule settled_packed_out)
  have check: "settled s s'" if "type__check_structs_at_unnatural_alignments n es s = Inr s'" for es s s'
    using that settled_fold [OF settled_check_member] by (auto simp: type__check_structs_at_unnatural_alignments_def)
  have "cu' = cu \<or> settled cu1 cu'"
    using r unfolding class__infer_packed_attributes_def tc sum.case prod.case Let_def cu1_def [symmetric]
    by (auto split: if_splits sum.splits prod.splits option.splits
      intro: settled_trans [OF check out] settled_trans [OF settled_packed_loop out])
  then show ?thesis using 1 settled_trans by auto
qed

lemma settled_union_infer: "union__infer_packed_attributes n cu i = Inr cu' \<Longrightarrow> settled cu cu'"
proof -
  assume r: "union__infer_packed_attributes n cu i = Inr cu'"
  have set: "settled s (cu_set_type s i (set_inferred t))" if "get_type s i = Inr (t, ty)" for s t ty
  proof -
    have t: "cu_type s i = Inr (Some t)" using that by (auto simp: get_type_def split: sum.splits option.splits)
    show ?thesis by (rule settled_set [OF t]) (auto simp: set_inferred_def layout_of_def face_def tag__type_def type_t.truncate_def split: tag_body.splits)
  qed
  have fold: "settled s s'" if "fold_e (union_member_alignment n z) ms s = Inr s'" for z ms s s'
    by (rule settled_fold [OF _ that]) (rule settled_union_member)
  show ?thesis
    using r
    by (auto simp: union__infer_packed_attributes_def split: if_splits sum.splits prod.splits
      intro: settled_trans [OF fold set])
qed

lemma settled_flexible: "class__has_flexible_array cu i = Inr (b, cu') \<Longrightarrow> settled cu cu'"
  by (auto simp: class__has_flexible_array_def split: if_splits sum.splits prod.splits intro: settled_put_class)

lemma settled_embedded_loop:
  assumes "\<And>cu i b cu'. rec cu i = Inr (b, cu') \<Longrightarrow> settled cu cu'"
  shows "embedded_loop rec n i ms s = Inr s' \<Longrightarrow> settled s s'"
proof (induction ms arbitrary: s)
  case (Cons m ms)
  have u: "settled s s'" if "upd_class s i (\<lambda>c. c\<lparr>cl_has_embedded_flexible_array := b\<rparr>) = Inr s'" for s s' b
    using settled_upd_class [OF that] by simp
  show ?case
    using Cons.prems
    by (auto split: if_splits sum.splits prod.splits option.splits
      dest!: Cons.IH settled_flexible u assms intro: settled_trans) (meson settled_trans)+
qed simp

lemma settled_embedded: "class__has_embedded_flexible_array n cu i = Inr (b, cu') \<Longrightarrow> settled cu cu'"
proof (induction n arbitrary: cu i b cu')
  case (Suc n)
  have rec: "class__has_embedded_flexible_array n cu i = Inr (b, cu') \<Longrightarrow> settled cu cu'" for cu i b cu' by (rule Suc.IH)
  show ?case
    using Suc.prems
    by (auto simp: Let_def split: if_splits sum.splits prod.splits
      intro!: settled_trans [OF settled_embedded_loop [OF rec] settled_put_class])
qed simp

end
