(* ===== verification/Printer.thy ===== *)
theory Printer
  imports Names Settled
begin

text \<open>
  Printing as state passing.  The state is what was written to the stream, the unit (printing a
  structure looks for its holes and remembers them), the cacheline the outermost structure is in and
  the recursion counters of the types.  A printer returns what the C function returns, the number
  of characters it believes it wrote.
\<close>

record pst =
  ps_out :: string
  ps_cu :: cu
  ps_line :: nat
  ps_rec :: "nat \<Rightarrow> nat"

type_synonym printer = "pst \<Rightarrow> fault + nat \<times> pst"

text \<open>
  What printing depends on: the bound of the searches through types, the default size of a cacheline
  and the callbacks of the debugging format for the place of a declaration.
\<close>

record print_env =
  pe_fuel :: nat
  pe_cacheline :: nat
  pe_orig_id :: "dw_tag \<times> nat \<Rightarrow> nat"
  pe_decl_file :: "dw_tag \<times> nat \<Rightarrow> string"
  pe_decl_line :: "dw_tag \<times> nat \<Rightarrow> nat"

section \<open>Combining printers\<close>

definition put :: "string \<Rightarrow> printer" where
  "put s st = Inr (length s, st\<lparr>ps_out := ps_out st @ s\<rparr>)"

definition nop :: printer where "nop st = Inr (0, st)"

definition stop :: "fault \<Rightarrow> printer" where "stop e st = Inl e"

text \<open>\<open>printed += ...\<close> for each printer in turn.\<close>

primrec run_all :: "printer list \<Rightarrow> printer" where
  "run_all [] = nop"
| "run_all (p # ps) = (\<lambda>st.
     bindE (p st) (\<lambda>(n, st1). bindE (run_all ps st1) (\<lambda>(m, st2). Inr (n + m, st2))))"

text \<open>The second printer gets the count of the first, which is otherwise dropped.\<close>

definition bindP :: "printer \<Rightarrow> (nat \<Rightarrow> printer) \<Rightarrow> printer" where
  "bindP p k st = bindE (p st) (\<lambda>(n, st1). k n st1)"

definition uncounted :: "printer \<Rightarrow> printer" where
  "uncounted p = bindP p (\<lambda>n. nop)"

text \<open>A value computed from the unit; a change of the unit that computes a value.\<close>

definition ask :: "(cu \<Rightarrow> fault + 'a) \<Rightarrow> ('a \<Rightarrow> printer) \<Rightarrow> printer" where
  "ask f k st = bindE (f (ps_cu st)) (\<lambda>x. k x st)"

definition change :: "(cu \<Rightarrow> fault + 'a \<times> cu) \<Rightarrow> ('a \<Rightarrow> printer) \<Rightarrow> printer" where
  "change f k st = bindE (f (ps_cu st)) (\<lambda>(x, cu). k x (st\<lparr>ps_cu := cu\<rparr>))"

definition set_line :: "nat \<Rightarrow> printer" where
  "set_line l st = Inr (0, st\<lparr>ps_line := l\<rparr>)"

definition get_line :: "(nat \<Rightarrow> printer) \<Rightarrow> printer" where
  "get_line k st = k (ps_line st) st"

definition bump_rec :: "nat \<Rightarrow> int \<Rightarrow> printer" where
  "bump_rec i d st = Inr (0, st\<lparr>ps_rec := (ps_rec st)(i := nat (u8 (int (ps_rec st i) + d)))\<rparr>)"

definition get_rec :: "nat \<Rightarrow> (nat \<Rightarrow> printer) \<Rightarrow> printer" where
  "get_rec i k st = k (ps_rec st i) st"

section \<open>Counting\<close>

text \<open>
  \<open>good_from a p\<close>: text is only added, searched structures stay as they are, and the count is at most
  \<open>a\<close> more than the characters added.
\<close>

definition good_from :: "nat \<Rightarrow> printer \<Rightarrow> bool" where
  "good_from a p \<longleftrightarrow>
     (\<forall>st n st'. p st = Inr (n, st') \<longrightarrow>
        (\<exists>w. ps_out st' = ps_out st @ w \<and> n \<le> a + length w) \<and> settled (ps_cu st) (ps_cu st'))"

abbreviation good :: "printer \<Rightarrow> bool" where "good \<equiv> good_from 0"

definition settles :: "(cu \<Rightarrow> fault + 'a \<times> cu) \<Rightarrow> bool" where
  "settles f \<longleftrightarrow> (\<forall>cu x cu'. f cu = Inr (x, cu') \<longrightarrow> settled cu cu')"

named_theorems good_rules \<open>printers that count no more than they write\<close>

lemma good_from_mono: "good_from a p \<Longrightarrow> a \<le> b \<Longrightarrow> good_from b p"
  unfolding good_from_def by fastforce

lemma good_weaken: "good p \<Longrightarrow> good_from a p"
  by (erule good_from_mono) simp

lemma good_put [good_rules]: "good_from a (put s)" and good_nop [good_rules]: "good_from a nop"
  and good_stop [good_rules]: "good_from a (stop e)"
  and good_set_line [good_rules]: "good_from a (set_line l)" and good_bump [good_rules]: "good_from a (bump_rec i d)"
  by (simp_all add: good_from_def put_def nop_def stop_def set_line_def bump_rec_def)

lemma good_return [good_rules]: "b \<le> a \<Longrightarrow> good_from a (\<lambda>st. Inr (b, st))"
  by (simp add: good_from_def)

lemma good_ask [good_rules]: "(\<And>x. good_from a (k x)) \<Longrightarrow> good_from a (ask f k)"
  and good_get_line [good_rules]: "(\<And>l. good_from a (q l)) \<Longrightarrow> good_from a (get_line q)"
  and good_get_rec [good_rules]: "(\<And>l. good_from a (r l)) \<Longrightarrow> good_from a (get_rec i r)"
  by (auto simp: good_from_def ask_def get_line_def get_rec_def split: sum.splits)

lemma good_change [good_rules]:
  assumes "settles f" and "\<And>x. good_from a (k x)"
  shows "good_from a (change f k)"
  unfolding good_from_def
proof (intro allI impI)
  fix st n st'
  assume "change f k st = Inr (n, st')"
  then obtain x cu where 1: "f (ps_cu st) = Inr (x, cu)" "k x (st\<lparr>ps_cu := cu\<rparr>) = Inr (n, st')"
    by (auto simp: change_def split: sum.splits prod.splits)
  have "settled (ps_cu st) cu" using assms(1) 1(1) by (auto simp: settles_def)
  moreover have "(\<exists>w. ps_out st' = ps_out st @ w \<and> n \<le> a + length w) \<and> settled cu (ps_cu st')"
    using assms(2) 1(2) unfolding good_from_def by fastforce
  ultimately show "(\<exists>w. ps_out st' = ps_out st @ w \<and> n \<le> a + length w) \<and> settled (ps_cu st) (ps_cu st')"
    using settled_trans by blast
qed

text \<open>What the first printer counts is at hand for the second.\<close>

lemma good_bindP [good_rules]:
  assumes "good p" and "\<And>n. good_from (a + n) (k n)"
  shows "good_from a (bindP p k)"
  unfolding good_from_def
proof (intro allI impI)
  fix st m st'
  assume "bindP p k st = Inr (m, st')"
  then obtain n st1 where 1: "p st = Inr (n, st1)" "k n st1 = Inr (m, st')"
    by (auto simp: bindP_def split: sum.splits prod.splits)
  obtain w1 where w1: "ps_out st1 = ps_out st @ w1" "n \<le> length w1" "settled (ps_cu st) (ps_cu st1)"
    using assms(1) 1(1) unfolding good_from_def by fastforce
  obtain w2 where w2: "ps_out st' = ps_out st1 @ w2" "m \<le> a + n + length w2" "settled (ps_cu st1) (ps_cu st')"
    using assms(2) 1(2) unfolding good_from_def by blast
  show "(\<exists>w. ps_out st' = ps_out st @ w \<and> m \<le> a + length w) \<and> settled (ps_cu st) (ps_cu st')"
    using w1 w2 settled_trans by (intro conjI exI [of _ "w1 @ w2"]) auto
qed

lemma run_all_bindP: "run_all (p # ps) = bindP p (\<lambda>n. bindP (run_all ps) (\<lambda>m st. Inr (n + m, st)))"
  by (auto simp: bindP_def fun_eq_iff split: sum.splits)

lemma good_run_all_Cons [good_rules]: "good p \<Longrightarrow> good (run_all ps) \<Longrightarrow> good_from a (run_all (p # ps))"
  unfolding run_all_bindP
  by (intro good_bindP good_return) (auto intro: good_weaken)

lemma good_run_all: "list_all good ps \<Longrightarrow> good_from a (run_all ps)"
  by (induction ps arbitrary: a) (auto intro: good_run_all_Cons good_nop simp del: run_all.simps(2))

lemma good_run_all_Nil [good_rules]: "good_from a (run_all [])"
  by (simp add: good_nop)

lemma good_run_all_map [good_rules]: "(\<And>x. good (f x)) \<Longrightarrow> good_from a (run_all (map f xs))"
  by (rule good_run_all) (simp add: list_all_iff)

lemma good_run_all_replicate [good_rules]: "good p \<Longrightarrow> good_from a (run_all (replicate n p))"
  by (rule good_run_all) (simp add: list_all_iff)

lemma good_uncounted [good_rules]: "good p \<Longrightarrow> good_from a (uncounted p)"
  unfolding uncounted_def by (intro good_bindP good_nop)

lemma good_if [good_rules]: "(b \<Longrightarrow> good_from a p) \<Longrightarrow> (\<not> b \<Longrightarrow> good_from a q) \<Longrightarrow> good_from a (if b then p else q)"
  by simp

lemma good_option [good_rules]:
  "good_from a p \<Longrightarrow> (\<And>x. good_from a (q x)) \<Longrightarrow> good_from a (case opt of None \<Rightarrow> p | Some x \<Rightarrow> q x)"
  by (cases opt) simp_all

lemma good_prod [good_rules]: "(\<And>x y. good_from a (q x y)) \<Longrightarrow> good_from a (case p of (x, y) \<Rightarrow> q x y)"
  by (cases p) simp

lemma good_bool [good_rules]: "good_from a p \<Longrightarrow> good_from a q \<Longrightarrow> good_from a (case b of True \<Rightarrow> p | False \<Rightarrow> q)"
  by (cases b) simp_all

end
