(* ===== verification/Fprintf.thy ===== *)
theory Fprintf
  imports Printer Bits
begin

text \<open>
  Printing of types and structures in C notation with the layout as comments
  (\<open>dwarves_fprintf.c\<close>).  The routines call each other through \<open>tf\<close> (\<open>type__fprintf\<close>) and
  \<open>tgf\<close> (\<open>tag__fprintf\<close>); both are tied together with a bound on the depth at the end.  A
  type is given by its index, and an index without an entry is the NULL pointer.
\<close>

definition nl :: string where "nl = [char_of (10 :: nat)]"

text \<open>\<open>conf->cacheline_size ?: conf_fprintf__defaults.cacheline_size\<close>\<close>

definition conf_fprintf__cacheline_size :: "print_env \<Rightarrow> conf_fprintf \<Rightarrow> nat" where
  "conf_fprintf__cacheline_size env conf =
     (if cf_cacheline_size conf \<noteq> 0 then cf_cacheline_size conf else pe_cacheline env)"

definition tag__nr_cachelines :: "print_env \<Rightarrow> conf_fprintf \<Rightarrow> cu \<Rightarrow> tag \<Rightarrow> fault + nat" where
  "tag__nr_cachelines env conf cu t =
     bindE (tag__size (pe_fuel env) cu t) (\<lambda>sz.
       let cl = conf_fprintf__cacheline_size env conf
       in if cl = 0 then Inl Div_By_Zero else Inr (u64 (sz + cl - 1) div cl))"

definition print_name :: "print_env \<Rightarrow> conf_fprintf \<Rightarrow> nat \<Rightarrow> nat \<Rightarrow> cu \<Rightarrow> fault + string" where
  "print_name env conf i len cu =
     bindE (cu__type (Some cu) i) (\<lambda>t. tag_name_fuel (pe_fuel env) conf cu t len)"

text \<open>A prototype with a name, in a field for the type.\<close>

definition print_ftype ::
  "print_env \<Rightarrow> conf_fprintf \<Rightarrow> tag \<Rightarrow> string option \<Rightarrow> bool \<Rightarrow> bool \<Rightarrow> int \<Rightarrow> bool \<Rightarrow> printer" where
  "print_ftype env conf t nm inlined is_pointer type_spacing is_prototype =
     ask (\<lambda>cu. ftype_body (tag_name_fuel (pe_fuel env) conf cu) (ftype_fuel (pe_fuel env) conf cu) conf cu t nm
            inlined is_pointer type_spacing is_prototype) put"

type_synonym type_printer = "conf_fprintf \<Rightarrow> nat \<Rightarrow> string option \<Rightarrow> printer"
type_synonym ref_printer = "conf_fprintf \<Rightarrow> dw_tag \<times> nat \<Rightarrow> printer"

section \<open>Arrays and strings\<close>

definition open_dim :: "conf_fprintf \<Rightarrow> bool" where
  "open_dim conf \<longleftrightarrow>
     \<not> (\<not> cf_last_member conf \<or> (cf_last_member conf \<and> cf_first_member conf) \<or> cf_union_member conf)"

text \<open>The dimensions from the \<open>i\<close>-th on: what is printed and the product in \<open>flat_dimensions\<close>.\<close>

fun array_dims :: "conf_fprintf \<Rightarrow> bool \<Rightarrow> nat list \<Rightarrow> nat \<Rightarrow> nat \<Rightarrow> string \<times> nat" where
  "array_dims conf vec [] i flat = ([], flat)"
| "array_dims conf vec (n # ns) i flat =
     (if cf_flat_arrays conf \<or> vec then
        if n = 0 \<and> i = 0 then ([], flat)
        else array_dims conf vec ns (i + 1) (if flat = 0 then n else u64 (flat * n))
      else
        let (s, flat') = array_dims conf vec ns (i + 1) flat
        in ((if n \<noteq> 0 \<or> \<not> open_dim conf then ''['' @ dec n @ '']'' else ''[]'') @ s, flat'))"

definition array_type__fprintf :: "type_printer \<Rightarrow> print_env \<Rightarrow> conf_fprintf \<Rightarrow> tag \<Rightarrow> string option \<Rightarrow> printer" where
  "array_type__fprintf tf env conf t name =
     ask (\<lambda>cu. bindE (tag__array_type t) (\<lambda>at. bindE (cu__type (Some cu) (tg_type t)) (\<lambda>type. Inr (at, type)))) (\<lambda>(at, type).
       case type of
         None \<Rightarrow> put (tag__id_not_found_fprintf (tg_type t) ''array_type__fprintf:248'')
       | Some ty \<Rightarrow>
           ask (\<lambda>cu. if at_dimensions at = 0 then Inr []
                     else case at_nr_entries at of
                            None \<Rightarrow> Inl Null_Deref
                          | Some es \<Rightarrow> if at_dimensions at \<le> length es then Inr (take (at_dimensions at) es)
                                      else Inl Out_Of_Bounds) (\<lambda>dims.
             let elem = (if dims \<noteq> [] \<and> dims ! 0 = 0 \<and> tag__is_const (tg_tag ty) then tg_type ty else tg_type t);
                 (ds, flat) = array_dims conf (at_is_vector at) dims 0 0
             in run_all
               [tf conf elem name,
                put ds,
                if at_is_vector at then
                  ask (\<lambda>cu. bindE (tag__follow_typedef (pe_fuel env) cu (tg_type t)) (\<lambda>r.
                         case r of None \<Rightarrow> Inl Null_Deref | Some (_, e) \<Rightarrow> tag__size (pe_fuel env) cu e)) (\<lambda>sz.
                    put ('' __attribute__ ((__vector_size__ ('' @
                      dec (u64 ((if flat = 0 then 1 else flat) * sz)) @ '')))''))
                else if cf_flat_arrays conf then
                  put (if flat \<noteq> 0 \<or> \<not> open_dim conf then ''['' @ dec flat @ '']'' else ''[]'')
                else nop]))"

definition string_type__fprintf :: "conf_fprintf \<Rightarrow> tag \<Rightarrow> string option \<Rightarrow> printer" where
  "string_type__fprintf conf t name =
     ask (\<lambda>cu. tag__string_type t) (\<lambda>n.
       put (''string '' @ fmt_s (cf_type_spacing conf - 5) (str_or_null name) @ ''['' @ dec n @ '']''))"

section \<open>Functions and enumerations\<close>

definition attributes_fprintf :: "string list \<Rightarrow> printer" where
  "attributes_fprintf as = put (attributes_str as)"

text \<open>\<open>DW_INL_declared_not_inlined\<close> is 2, \<open>DW_INL_declared_inlined\<close> 3.\<close>

definition function__declared_inline :: "function_t \<Rightarrow> bool" where
  "function__declared_inline f \<longleftrightarrow> fn_inlined f = 3 \<or> fn_inlined f = 2"

definition function__fprintf :: "print_env \<Rightarrow> conf_fprintf \<Rightarrow> tag \<Rightarrow> printer" where
  "function__fprintf env conf t =
     ask (\<lambda>cu. bindE (tag__function t) (\<lambda>f.
            if fn_btf f then
              bindE (cu__type (Some cu) (tg_type t)) (\<lambda>p.
                case p of None \<Rightarrow> Inl Null_Deref | Some p \<Rightarrow> Inr (f, p))
            else Inr (f, t))) (\<lambda>(f, p).
       run_all
         [attributes_fprintf (fn_attributes f),
          if fn_virtuality f \<noteq> DW_VIRTUALITY_none then put ''virtual '' else nop,
          print_ftype env conf p (fn_name f) (\<not> cf_strip_inline conf \<and> function__declared_inline f) False 0 False,
          if fn_virtuality f = DW_VIRTUALITY_pure_virtual then put '' = 0'' else nop])"

text \<open>The length of the longest name, in 16 bits; the cached value is computed anew.\<close>

definition entry_name_len :: "cu \<Rightarrow> ns_entry \<Rightarrow> fault + nat" where
  "entry_name_len cu e =
     (case e of
        Enumerator en \<Rightarrow> Inr (length (en_name en))
      | Nested DW_TAG_subprogram i \<Rightarrow>
          bindE (cu__function (Some cu) i) (\<lambda>t.
            case t of
              None \<Rightarrow> Inl Null_Deref
            | Some t \<Rightarrow> bindE (tag__function t) (\<lambda>f. Inr (length (str_or_empty (fn_name f)))))
      | _ \<Rightarrow> Inr 0)"

definition enumeration__max_entry_name_len :: "cu \<Rightarrow> type_t \<Rightarrow> fault + nat" where
  "enumeration__max_entry_name_len cu ty =
     fold_e (\<lambda>e mx. bindE (entry_name_len cu e) (\<lambda>len. Inr (if mx < len then u16 len else mx))) (ty_tags ty) 0"

definition s64 :: "nat \<Rightarrow> int" where
  "s64 n = (int n + 9223372036854775808) mod 18446744073709551616 - 9223372036854775808"

definition enum_entry :: "print_env \<Rightarrow> conf_fprintf \<Rightarrow> type_t \<Rightarrow> nat \<Rightarrow> int \<Rightarrow> ns_entry \<Rightarrow> printer" where
  "enum_entry env conf ty mx indent e =
     (case e of
        Enumerator en \<Rightarrow>
          put (ind indent @ [char_of (9 :: nat)] @ fmt_ls (int mx) (en_name en) @ '' = '' @
            (if cf_hex_fmt conf then alt_hex (u64 (en_value en))
             else if ty_is_signed_enum ty then sdec (s64 (en_value en)) else dec (u64 (en_value en))) @ '','' @ nl)
      | Nested tg i \<Rightarrow>
          if tg = DW_TAG_subprogram then
            ask (\<lambda>cu. bindE (cu__function (Some cu) i) (\<lambda>t. case t of None \<Rightarrow> Inl Null_Deref | Some t \<Rightarrow> Inr t)) (\<lambda>t.
              run_all [put (ind indent @ [char_of (9 :: nat)]), function__fprintf env conf t, put ('','' @ nl)])
          else
            put (ind indent @ [char_of (9 :: nat)] @ ''/* Unexpected '' @ dwarf_tag_name tg @ '' <'' @
              hexs (pe_orig_id env (tg, i)) @ ''> */'' @ nl)
      | Member m \<Rightarrow>
          put (ind indent @ [char_of (9 :: nat)] @ ''/* Unexpected '' @ dwarf_tag_name (cm_tag m) @ '' <'' @
            hexs (pe_orig_id env (cm_tag m, 0)) @ ''> */'' @ nl))"

definition enumeration__fprintf :: "print_env \<Rightarrow> conf_fprintf \<Rightarrow> tag \<Rightarrow> printer" where
  "enumeration__fprintf env conf t =
     ask (\<lambda>cu. bindE (tag__type t) (\<lambda>ty. bindE (enumeration__max_entry_name_len cu ty) (\<lambda>mx. Inr (ty, mx)))) (\<lambda>(ty, mx).
       let indent = (if cf_indent conf \<ge> 17 then 16 else int (cf_indent conf));
           head = put (''enum'' @ (case ty_name ty of None \<Rightarrow> [] | Some s \<Rightarrow> '' '' @ s))
       in if ty_nr_members ty = 0 then head
          else run_all
            [head, put ('' {'' @ nl),
             run_all (map (enum_entry env conf ty mx indent) (ty_tags ty)),
             put (ind indent @ ''}''),
             if ty_size ty div 8 \<noteq> 4 then put '' __attribute__((__packed__))'' else nop,
             case cf_suffix conf of None \<Rightarrow> nop | Some s \<Rightarrow> put ('' '' @ s)])"

section \<open>Members\<close>

definition class__fprintf_cacheline_boundary :: "print_env \<Rightarrow> conf_fprintf \<Rightarrow> nat \<Rightarrow> printer" where
  "class__fprintf_cacheline_boundary env conf offset =
     (let cl = conf_fprintf__cacheline_size env conf
      in if cl = 0 then stop Div_By_Zero
         else if \<not> cf_cachelinep conf then stop Null_Deref
         else
           let cacheline = offset div cl; pos = offset mod cl
           in get_line (\<lambda>line.
                if line < cacheline then
                  run_all
                    [put (''/* --- cacheline '' @ dec cacheline @ '' boundary ('' @ dec (offset - pos) @ '' bytes)'' @
                       (if pos = 0 then []
                        else '' was '' @ dec pos @ '' byte'' @ (if pos > 1 then ''s'' else []) @ '' ago'') @
                       '' --- */'' @ nl @ ind (int (cf_indent conf))),
                     set_line cacheline]
                else nop))"

text \<open>The comment with offset and size; \<open>spacing\<close> is the field of the blank before it.\<close>

definition member_comment :: "conf_fprintf \<Rightarrow> int \<Rightarrow> nat \<Rightarrow> class_member \<Rightarrow> string" where
  "member_comment conf spacing offset m =
     (let num = (\<lambda>w n. fmt_s w (if cf_hex_fmt conf then alt_hex n else dec n));
          bit_offset = (if cm_bitfield_offset m < 0 then nat (u32 (int (cm_byte_size m * 8) + cm_bitfield_offset m))
                        else nat (cm_bitfield_offset m))
      in fmt_s spacing '' '' @ ''/* '' @ num 5 offset @
         (if cm_bitfield_size m \<noteq> 0 then '':'' @ num 2 bit_offset else []) @ '' '' @
         num (if cm_bitfield_size m \<noteq> 0 then 2 else 5) (u32 (cm_byte_size m)) @ '' */'')"

definition is_aggregate :: "dw_tag \<Rightarrow> bool" where
  "is_aggregate tg \<longleftrightarrow> tag__is_union tg \<or> tag__is_struct tg \<or> tag__is_enumeration tg"

definition class_member__fprintf ::
  "type_printer \<Rightarrow> print_env \<Rightarrow> conf_fprintf \<Rightarrow> bool \<Rightarrow> class_member \<Rightarrow> printer" where
  "class_member__fprintf tf env conf union_member m =
     ask (\<lambda>cu. bindE (cu__type (Some cu) (cm_type m)) (\<lambda>type.
            case type of
              None \<Rightarrow> Inl Null_Deref
            | Some ty \<Rightarrow>
                if is_aggregate (tg_tag ty) then bindE (tag__type ty) (\<lambda>t. Inr (tg_tag ty, ty_name t))
                else Inr (tg_tag ty, None))) (\<lambda>(tg, tyname).
       let offset0 = (if cf_rel_offset conf then cm_byte_offset m else u32 (cm_byte_offset m + cf_base_offset conf));
           sconf = (if \<not> cf_rel_offset conf \<and> \<not> union_member then conf\<lparr>cf_base_offset := offset0\<rparr> else conf);
           offset = (if cm_bitfield_offset m < 0 then u32 (offset0 + cm_byte_size m) else offset0);
           name = (if cm_tag m = DW_TAG_inheritance then Some ''<ancestor>'' else cm_name m);
           align = (if \<not> cf_suppress_aligned_attribute sconf \<and> cm_alignment m \<noteq> 0 then
                      '' __attribute__((__aligned__('' @ dec (cm_alignment m) @ '')))'' else []);
           decl = run_all
             [if cm_tag m = DW_TAG_inheritance then put ''/* '' else nop,
              if cm_is_static m then put ''static '' else nop,
              if is_aggregate tg then
                run_all
                  [tf sconf (cm_type m) None,
                   case name of
                     None \<Rightarrow> nop
                   | Some s \<Rightarrow> put ((if tyname = None \<or> cf_expand_types sconf then '' '' else []) @ s)]
              else tf sconf (cm_type m) name,
              put ((if cm_is_static m then if cm_const_value m \<noteq> 0 then '' = '' @ dec (u64 (cm_const_value m)) else []
                    else if cm_bitfield_size m \<noteq> 0 then '':'' @ dec (cm_bitfield_size m) else []) @ align @ '';'')];
           comment =
             (if is_aggregate tg \<and> tyname = None then
                if cf_suppress_offset_comment sconf then nop
                else
                  ask (\<lambda>cu. if tag__is_struct tg then bindE (get_class cu (cm_type m)) (\<lambda>(t, c). Inr (cl_is_packed c))
                            else Inr False) (\<lambda>packed.
                    let slen = int (length align) + (case cm_name m of None \<Rightarrow> -1 | Some s \<Rightarrow> int (length s)) +
                          (if packed \<and> \<not> cf_suppress_packed conf then 28 else 0)
                    in put (member_comment sconf (cf_type_spacing sconf + cf_name_spacing sconf - slen - 3) offset m))
              else nop)
       in bindP (if cf_suppress_comments conf then nop else class__fprintf_cacheline_boundary env conf offset) (\<lambda>printed_cacheline.
            bindP decl (\<lambda>printed.
              let spacing = cf_type_spacing sconf + cf_name_spacing sconf - int printed;
                  anc = (if cm_tag m = DW_TAG_inheritance then '' */'' else []);
                  spacing' = spacing - int (length anc)
              in bindP (if is_aggregate tg \<and> tyname = None then comment
                        else put (anc @ (if cf_suppress_offset_comment sconf then []
                               else member_comment sconf (if spacing' > 0 then spacing' else 0) offset m))) (\<lambda>rest st.
                   Inr (printed_cacheline + printed + rest, st)))))"

section \<open>Unions\<close>

definition union_members :: "type_printer \<Rightarrow> print_env \<Rightarrow> conf_fprintf \<Rightarrow> nat \<Rightarrow> class_member \<Rightarrow> printer" where
  "union_members tf env uconf initial m =
     ask (\<lambda>cu. cu__type (Some cu) (cm_type m)) (\<lambda>type.
       if type = None then
         put (ind (int (cf_indent uconf)) @ tag__id_not_found_fprintf (cm_type m) ''union__fprintf:1189'')
       else
         run_all
           [put (ind (int (cf_indent uconf))),
            class_member__fprintf tf env (uconf\<lparr>cf_union_member := True\<rparr>) True m,
            put nl, set_line initial])"

definition union__fprintf :: "type_printer \<Rightarrow> print_env \<Rightarrow> conf_fprintf \<Rightarrow> nat \<Rightarrow> printer" where
  "union__fprintf tf env conf i =
     ask (\<lambda>cu. get_type cu i) (\<lambda>(t, ty).
       let indent = (if cf_indent conf \<ge> 17 then 16 else cf_indent conf);
           uconf = conf\<lparr>cf_indent := indent + 1, cf_cachelinep := True\<rparr>
       in run_all
         [put ((case cf_prefix conf of None \<Rightarrow> [] | Some s \<Rightarrow> s @ '' '') @ ''union'' @
            (case ty_name ty of None \<Rightarrow> [] | Some s \<Rightarrow> '' '' @ s) @ '' {'' @ nl),
          change (\<lambda>cu. map_sum id (Pair ()) (union__infer_packed_attributes (pe_fuel env) cu i)) (\<lambda>_. nop),
          if cf_cachelinep conf then nop else set_line 0,
          ask (\<lambda>cu. get_type cu i) (\<lambda>(t, ty).
            get_line (\<lambda>initial.
              run_all (map (union_members tf env uconf initial) (type__members (ty_tags ty))))),
          put (ind (int indent) @ ''}'' @ (case cf_suffix conf of None \<Rightarrow> [] | Some s \<Rightarrow> '' '' @ s))])"

definition union_decl__fprintf :: "type_printer \<Rightarrow> print_env \<Rightarrow> conf_fprintf \<Rightarrow> nat \<Rightarrow> string option \<Rightarrow> printer" where
  "union_decl__fprintf tf env conf i name =
     ask (\<lambda>cu. get_type cu i) (\<lambda>(t, ty).
       case (ty_name ty, cf_expand_types conf) of
         (Some s, False) \<Rightarrow> put (''union '' @ fmt_ls (cf_type_spacing conf - 6) s @ '' '' @ str_or_empty name)
       | _ \<Rightarrow> union__fprintf tf env (conf\<lparr>cf_type_spacing := cf_type_spacing conf - 8, cf_suffix := name\<rparr>) i)"

section \<open>Structures\<close>

definition class__vtable_fprintf :: "conf_fprintf \<Rightarrow> class_t \<Rightarrow> printer" where
  "class__vtable_fprintf conf c =
     (let tb = ind (int (cf_indent conf))
      in if cl_nr_vtable_entries c = 0 then nop
         else run_all
           [put (tb @ ''/* vtable has '' @ dec (cl_nr_vtable_entries c) @ '' entries: {'' @ nl),
            run_all (map (\<lambda>i. ask (\<lambda>cu. bindE (cu__function (Some cu) i) (\<lambda>t.
                case t of None \<Rightarrow> Inl Null_Deref | Some t \<Rightarrow> tag__function t)) (\<lambda>f.
                  put (tb @ ''   ['' @ sdec (fn_vtable_entry f) @ ''] = '' @ str_or_null (fn_name f) @ ''('' @
                    str_or_null (fn_linkage_name f) @ ''), '' @ nl))) (cl_vtable c)),
            put (tb @ ''} */'')])"

record member_types_holes =
  mh_nr_paddings :: nat
  mh_nr_with_bit_paddings :: nat
  mh_nr_with_holes :: nat
  mh_nr_with_bit_holes :: nat
  mh_total_nr_holes :: nat
  mh_total_nr_bit_holes :: nat
  mh_nr_flexible_array_members :: nat
  mh_nr_embedded_flexible_array_members :: nat
  mh_sum_paddings :: nat
  mh_sum_bit_paddings :: nat

text \<open>The variables of the loop of \<open>__class__fprintf\<close>; \<open>cv_last\<close> is the place of the member \<open>last\<close>.\<close>

record class_vars =
  cv_last :: "nat option"
  cv_last_size :: nat
  cv_newline :: nat
  cv_nr_forced_alignments :: nat
  cv_nr_forced_alignment_holes :: nat
  cv_sum_forced_alignment_holes :: nat
  cv_sum_bytes :: nat
  cv_sum_bits :: nat
  cv_sum_holes :: nat
  cv_sum_bit_holes :: nat
  cv_holes :: member_types_holes
  cv_access :: "string option"
  cv_conf :: conf_fprintf

text \<open>\<open>if (!newline++)\<close> a newline is written.\<close>

definition first_newline :: "nat \<Rightarrow> string" where
  "first_newline newline = (if newline = 0 then nl else [])"

definition bump_newline :: "nat \<Rightarrow> nat" where "bump_newline newline = u8 (newline + 1)"

text \<open>
  What the structure a member has as its type adds to the comments; the parts of the comment are
  separated by commas.
\<close>

definition counted_str :: "int \<Rightarrow> string \<Rightarrow> string" where
  "counted_str n what = sdec n @ '' '' @ what @ plural n"

fun comma_list :: "string list \<Rightarrow> string" where
  "comma_list [] = []"
| "comma_list (s # ss) = '' '' @ s @ concat (map (\<lambda>t. '', '' @ t) ss)"

definition holes_parts :: "class_t \<Rightarrow> bool \<Rightarrow> bool \<Rightarrow> string list" where
  "holes_parts c flex embedded =
     (if flex then [''a flexible array''] else []) @
     (if embedded then [''embedded flexible array(s)''] else []) @
     (if cl_padding c \<noteq> 0 then [sdec (int (cl_padding c)) @ '' byte'' @ plural (int (cl_padding c)) @ '' of padding''] else []) @
     (if cl_bit_padding c \<noteq> 0 then
        [sdec (int (cl_bit_padding c)) @ '' bit'' @ plural (int (cl_bit_padding c)) @ '' of padding''] else []) @
     (if cl_nr_holes c \<noteq> 0 then [counted_str (int (cl_nr_holes c)) ''hole''] else []) @
     (if cl_nr_bit_holes c \<noteq> 0 then [counted_str (int (cl_nr_bit_holes c)) ''bit hole''] else [])"

definition holes_count :: "class_t \<Rightarrow> bool \<Rightarrow> bool \<Rightarrow> member_types_holes \<Rightarrow> member_types_holes" where
  "holes_count c flex embedded h =
     (let h1 = (if flex then h\<lparr>mh_nr_flexible_array_members := u16 (mh_nr_flexible_array_members h + 1)\<rparr> else h);
          h2 = (if embedded then
                  h1\<lparr>mh_nr_embedded_flexible_array_members := u16 (mh_nr_embedded_flexible_array_members h1 + 1)\<rparr> else h1);
          h3 = (if cl_padding c \<noteq> 0 then
                  h2\<lparr>mh_nr_paddings := u16 (mh_nr_paddings h2 + 1),
                     mh_sum_paddings := u32 (mh_sum_paddings h2 + cl_padding c)\<rparr> else h2);
          h4 = (if cl_bit_padding c \<noteq> 0 then
                  h3\<lparr>mh_nr_with_bit_paddings := u16 (mh_nr_with_bit_paddings h3 + 1),
                     mh_sum_bit_paddings := u32 (mh_sum_bit_paddings h3 + cl_bit_padding c)\<rparr> else h3);
          h5 = (if cl_nr_holes c \<noteq> 0 then
                  h4\<lparr>mh_nr_with_holes := u16 (mh_nr_with_holes h4 + 1),
                     mh_total_nr_holes := u16 (mh_total_nr_holes h4 + cl_nr_holes c)\<rparr> else h4)
      in if cl_nr_bit_holes c \<noteq> 0 then
           h5\<lparr>mh_nr_with_bit_holes := u16 (mh_nr_with_bit_holes h5 + 1),
              mh_total_nr_bit_holes := u16 (mh_total_nr_bit_holes h5 + cl_nr_bit_holes c)\<rparr>
         else h5)"

definition class__fprintf_member_type_holes ::
  "print_env \<Rightarrow> conf_fprintf \<Rightarrow> nat \<Rightarrow> class_vars \<Rightarrow> (class_vars \<Rightarrow> nat \<Rightarrow> printer) \<Rightarrow> printer" where
  "class__fprintf_member_type_holes env conf i v k =
     change (\<lambda>cu.
       bindE (get_class cu i) (\<lambda>(t, c).
       bindE (class__infer_packed_attributes (pe_fuel env) (put_class cu i t (class__find_holes (tg_tag t) c)) i) (\<lambda>(r, cu1).
       bindE (get_class cu1 i) (\<lambda>(t1, c1).
       bindE (class__has_flexible_array cu1 i) (\<lambda>(flex, cu2).
       bindE (class__has_embedded_flexible_array (pe_fuel env) cu2 i) (\<lambda>(embedded, cu3).
         Inr ((c1, flex, embedded), cu3))))))) (\<lambda>(c, flex, embedded).
       let parts = holes_parts c flex embedded
       in if parts = [] then k v 0
          else
            let s = first_newline (cv_newline v) @ nl @ ind (int (cf_indent conf)) @ ''/* XXX last struct has'' @
                  comma_list parts @ '' */''
            in bindP (put s) (k (v\<lparr>cv_newline := bump_newline (cv_newline v), cv_holes := holes_count c flex embedded (cv_holes v)\<rparr>)))"

text \<open>The members of a class, where they are now.\<close>

definition get_entry :: "cu \<Rightarrow> nat \<Rightarrow> nat \<Rightarrow> fault + ns_entry" where
  "get_entry cu i k =
     bindE (get_class cu i) (\<lambda>(t, c). if k < length (ty_tags c) then Inr (ty_tags c ! k) else Inl Out_Of_Bounds)"

definition get_member :: "cu \<Rightarrow> nat \<Rightarrow> nat \<Rightarrow> fault + class_member" where
  "get_member cu i k = bindE (get_entry cu i k) (\<lambda>e. case e of Member m \<Rightarrow> Inr m | _ \<Rightarrow> Inl Out_Of_Bounds)"

definition get_last :: "cu \<Rightarrow> nat \<Rightarrow> class_vars \<Rightarrow> fault + class_member option" where
  "get_last cu i v = (case cv_last v of None \<Rightarrow> Inr None | Some k \<Rightarrow> map_sum id Some (get_member cu i k))"

text \<open>\<open>DW_ACCESS_public\<close>, \<open>DW_ACCESS_protected\<close> and \<open>DW_ACCESS_private\<close> are 1, 2 and 3.\<close>

definition tag__accessibility :: "cu \<Rightarrow> ns_entry \<Rightarrow> fault + string option" where
  "tag__accessibility cu e =
     bindE (case e of
              Member m \<Rightarrow> Inr (if cm_tag m = DW_TAG_inheritance \<or> cm_tag m = DW_TAG_member then cm_accessibility m else 0)
            | Nested tg j \<Rightarrow>
                if tg = DW_TAG_subprogram then
                  bindE (cu__function (Some cu) j) (\<lambda>t. case t of
                    None \<Rightarrow> Inl Null_Deref | Some t \<Rightarrow> bindE (tag__function t) (\<lambda>f. Inr (fn_accessibility f)))
                else Inr 0
            | Enumerator en \<Rightarrow> Inr 0) (\<lambda>a.
       Inr (if a = 1 then Some ''public'' else if a = 3 then Some ''private''
            else if a = 2 then Some ''protected'' else None))"

text \<open>Alignments that are not natural, and the holes they make.\<close>

definition count_alignment :: "class_t \<Rightarrow> class_member option \<Rightarrow> class_member \<Rightarrow> class_vars \<Rightarrow> class_vars" where
  "count_alignment c lastm pos v =
     (if \<not> cf_suppress_aligned_attribute (cv_conf v) \<and> cm_alignment pos \<noteq> 0 then
        let hole = (case lastm of None \<Rightarrow> cl_pre_hole c | Some l \<Rightarrow> nat (u32 (cm_hole l)));
            v1 = (if hole \<noteq> 0 then
                    v\<lparr>cv_nr_forced_alignment_holes := u16 (cv_nr_forced_alignment_holes v + 1),
                      cv_sum_forced_alignment_holes := u32 (cv_sum_forced_alignment_holes v + hole)\<rparr> else v)
        in v1\<lparr>cv_nr_forced_alignments := u16 (cv_nr_forced_alignments v1 + 1)\<rparr>
      else v)"

text \<open>What is written before a member that shares storage with the one before it.\<close>

definition combined_comment :: "class_member \<Rightarrow> class_member \<Rightarrow> nat \<Rightarrow> string option" where
  "combined_comment l pos last_size =
     (if cm_byte_offset pos < cm_byte_offset l \<or>
         (cm_byte_offset pos = cm_byte_offset l \<and> cm_bitfield_size l = 0 \<and> cm_bitfield_size pos \<noteq> 0)
      then Some ''/* Bitfield combined with previous fields */''
      else if cm_byte_offset l < cm_byte_offset pos \<and> cm_byte_offset pos - cm_byte_offset l < last_size
      then Some ''/* Bitfield combined with next fields */''
      else None)"

definition unnamed_bitfield ::
  "type_printer \<Rightarrow> class_vars \<Rightarrow> class_member \<Rightarrow> class_member \<Rightarrow> printer" where
  "unnamed_bitfield tf v l pos =
     (let tb = ind (int (cf_indent (cv_conf v))); moved = cm_byte_offset l \<noteq> cm_byte_offset pos
      in run_all
        [if moved then put (nl @ tb @ ''/* Force alignment to the next boundary: */'' @ nl) else nop,
         put tb, tf (cv_conf v) (cm_type pos) (Some []),
         put ('':'' @ dec (if moved then 0 else u8 (cm_bit_hole l)) @ '';'' @ nl)])"

text \<open>\<open>k\<close> continues; its first argument says whether the member is skipped.\<close>

definition before_member ::
  "type_printer \<Rightarrow> class_member option \<Rightarrow> class_member \<Rightarrow> class_vars \<Rightarrow> (bool \<Rightarrow> class_vars \<Rightarrow> nat \<Rightarrow> printer) \<Rightarrow> printer" where
  "before_member tf lastm pos v k =
     (let tb = ind (int (cf_indent (cv_conf v)))
      in case lastm of
           None \<Rightarrow> k False v 0
         | Some l \<Rightarrow>
             if cm_tag pos = DW_TAG_member \<and> cv_last_size v \<noteq> 0 then
               ask (\<lambda>cu. cu__type (Some cu) (cm_type pos)) (\<lambda>pos_type.
                 if cm_bit_hole l \<noteq> 0 \<and> cm_bitfield_size pos \<noteq> 0 \<and> pos_type = None then
                   bindP (put (tb @ tag__id_not_found_fprintf (cm_type pos) ''__class__fprintf:1776'')) (k True v)
                 else
                   bindP (if cm_bit_hole l \<noteq> 0 \<and> cm_bitfield_size pos \<noteq> 0 then unnamed_bitfield tf v l pos else nop) (\<lambda>n1.
                     case (combined_comment l pos (cv_last_size v), cf_suppress_comments (cv_conf v)) of
                       (Some s, False) \<Rightarrow>
                         bindP (put (first_newline (cv_newline v) @ tb @ s @ nl)) (\<lambda>n2.
                           k False (v\<lparr>cv_newline := bump_newline (cv_newline v)\<rparr>) (n1 + n2))
                     | _ \<Rightarrow> k False v n1))
             else k False v 0)"

definition hole_comment :: "conf_fprintf \<Rightarrow> int \<Rightarrow> string \<Rightarrow> string" where
  "hole_comment conf n what =
     ind (int (cf_indent conf)) @ ''/* XXX '' @ sdec n @ '' '' @ what @ plural n @ '' hole, try to pack */''"

text \<open>The comments about the holes after a member, and the sums that are kept.\<close>

definition after_holes :: "class_member \<Rightarrow> class_vars \<Rightarrow> string \<times> class_vars" where
  "after_holes pos v =
     (let show = \<not> cf_suppress_comments (cv_conf v);
          (s1, v1) = (if cm_bit_hole pos \<noteq> 0 \<and> show then
              (first_newline (cv_newline v) @ nl @ hole_comment (cv_conf v) (int (cm_bit_hole pos)) ''bit'',
               v\<lparr>cv_newline := bump_newline (cv_newline v), cv_sum_bit_holes := u32 (cv_sum_bit_holes v + cm_bit_hole pos)\<rparr>)
            else ([], v));
          (s2, v2) = (if cm_hole pos > 0 \<and> show then
              (first_newline (cv_newline v1) @ nl @ hole_comment (cv_conf v1) (cm_hole pos) ''byte'',
               v1\<lparr>cv_newline := bump_newline (cv_newline v1), cv_sum_holes := u32 (cv_sum_holes v1 + nat (cm_hole pos))\<rparr>)
            else ([], v1))
      in (s1 @ s2 @ nl, v2))"

definition count_member :: "class_member option \<Rightarrow> class_member \<Rightarrow> nat \<Rightarrow> class_vars \<Rightarrow> class_vars" where
  "count_member lastm pos sz v =
     (let v1 = (if cm_bitfield_size pos \<noteq> 0 then v\<lparr>cv_sum_bits := u32 (cv_sum_bits v + cm_bitfield_size pos)\<rparr>
                else v\<lparr>cv_sum_bytes := u32 (cv_sum_bytes v + sz)\<rparr>)
      in case lastm of
           None \<Rightarrow> v1\<lparr>cv_last_size := sz\<rparr>
         | Some l \<Rightarrow>
             if cv_last_size v = 0 \<or> cm_byte_offset l \<noteq> cm_byte_offset pos \<or>
                (cm_bitfield_size l = 0 \<and> cm_bitfield_size pos \<noteq> 0)
             then v1\<lparr>cv_last_size := sz\<rparr> else v1)"

text \<open>One member: \<open>k\<close> continues with the variables and what was counted.\<close>

definition class_member_step ::
  "type_printer \<Rightarrow> print_env \<Rightarrow> nat \<Rightarrow> nat \<Rightarrow> class_vars \<Rightarrow> (class_vars \<Rightarrow> nat \<Rightarrow> printer) \<Rightarrow> printer" where
  "class_member_step tf env i ix v0 k =
     ask (\<lambda>cu. bindE (get_class cu i) (\<lambda>(t, c). bindE (get_member cu i ix) (\<lambda>pos. bindE (get_last cu i v0) (\<lambda>lastm.
           Inr (c, pos, lastm))))) (\<lambda>(c, pos, lastm).
       before_member tf lastm pos (count_alignment c lastm pos v0) (\<lambda>skip v n1.
         if skip then k (v\<lparr>cv_last := Some ix\<rparr>) n1
         else
           bindP (put (if cv_newline v \<noteq> 0 then nl else [])) (\<lambda>n2.
           ask (\<lambda>cu. cu__type (Some cu) (cm_type pos)) (\<lambda>pos_type.
             case pos_type of
               None \<Rightarrow>
                 bindP (put (ind (int (cf_indent (cv_conf v))) @ tag__id_not_found_fprintf (cm_type pos) ''__class__fprintf:1838'')) (\<lambda>n3.
                   k (v\<lparr>cv_newline := 0, cv_last := Some ix\<rparr>) (n1 + n2 + n3))
             | Some pt \<Rightarrow>
                 let conf = (cv_conf v)\<lparr>cf_last_member := (ix + 1 = length (ty_tags c)), cf_first_member := (cv_last v = None)\<rparr>;
                     sz = (if cm_tag pos = DW_TAG_inheritance \<and> cm_hole pos < 0
                           then nat (u64 (int (cm_byte_size pos) + cm_hole pos)) else cm_byte_size pos);
                     v1 = v\<lparr>cv_newline := 0, cv_conf := conf\<rparr>;
                     finish = (\<lambda>v2 n4.
                       ask (\<lambda>cu. bindE (get_member cu i ix) (\<lambda>pos. bindE (get_last cu i v0) (\<lambda>lastm. Inr (pos, lastm)))) (\<lambda>(pos, lastm).
                         let (s, v3) = after_holes pos v2
                         in bindP (put s) (\<lambda>n5. k ((count_member lastm pos sz v3)\<lparr>cv_last := Some ix\<rparr>) (n1 + n2 + n4 + n5))))
                 in bindP (run_all [put (ind (int (cf_indent conf))), class_member__fprintf tf env conf False pos]) (\<lambda>n3.
                      if tag__is_struct (tg_tag pt) \<and> \<not> cf_suppress_comments conf then
                        class__fprintf_member_type_holes env conf (cm_type pos) v1 (\<lambda>v2 n. finish v2 (n3 + n))
                      else finish v1 n3)))))"

definition class_entry_step ::
  "type_printer \<Rightarrow> ref_printer \<Rightarrow> print_env \<Rightarrow> nat \<Rightarrow> nat \<Rightarrow> class_vars \<Rightarrow> (class_vars \<Rightarrow> nat \<Rightarrow> printer) \<Rightarrow> printer" where
  "class_entry_step tf tgf env i ix v k =
     ask (\<lambda>cu. bindE (get_entry cu i ix) (\<lambda>e. bindE (tag__accessibility cu e) (\<lambda>a. Inr (e, a)))) (\<lambda>(e, a).
       let conf = cv_conf v;
           (s, v1) = (if a \<noteq> None \<and> a \<noteq> cv_access v then
               (ind (int (cf_indent conf) - 1) @ the a @ '':'' @ nl @ nl, v\<lparr>cv_access := a\<rparr>) else ([], v));
           other = (\<lambda>r. if cf_show_only_data_members conf then k v1
                        else (\<lambda>n. bindP (run_all [tgf conf r, put (nl @ nl)]) (\<lambda>n'. k v1 (n + n'))))
       in bindP (put s) (\<lambda>n.
            case e of
              Member m \<Rightarrow>
                if cm_tag m = DW_TAG_member \<or> cm_tag m = DW_TAG_inheritance
                then class_member_step tf env i ix v1 (\<lambda>v2 n'. k v2 (n + n'))
                else other (cm_tag m, 0) n
            | Nested tg j \<Rightarrow> other (tg, j) n
            | Enumerator en \<Rightarrow> other (DW_TAG_enumerator, 0) n))"

fun class_entries ::
  "(nat \<Rightarrow> class_vars \<Rightarrow> (class_vars \<Rightarrow> nat \<Rightarrow> printer) \<Rightarrow> printer) \<Rightarrow> nat list \<Rightarrow> class_vars \<Rightarrow> nat \<Rightarrow>
    (class_vars \<Rightarrow> nat \<Rightarrow> printer) \<Rightarrow> printer" where
  "class_entries step [] v n k = k v n"
| "class_entries step (ix # ixs) v n k = step ix v (\<lambda>v' n'. class_entries step ixs v' (n + n') k)"

text \<open>The ancestors after the name.\<close>

fun class_ancestors :: "class_member list \<Rightarrow> bool \<Rightarrow> printer" where
  "class_ancestors [] first = nop"
| "class_ancestors (m # ms) first =
     (if cm_tag m \<noteq> DW_TAG_inheritance then class_ancestors ms first
      else
        ask (\<lambda>cu. bindE (tag__accessibility cu (Member m)) (\<lambda>a. bindE (cu__type (Some cu) (cm_type m)) (\<lambda>pos_type.
              bindE (case pos_type of
                       None \<Rightarrow> Inr (tag__id_not_found_fprintf (cm_type m) ''__class__fprintf:1700'')
                     | Some ty \<Rightarrow> bindE (tag__type ty) (\<lambda>t. Inr ('' '' @ str_or_null (ty_name t)))) (\<lambda>s. Inr (a, s))))) (\<lambda>(a, s).
          run_all
            [put ((if first then '' :'' else '','') @
               (if cm_virtuality m = DW_VIRTUALITY_virtual then '' virtual'' else []) @
               (case a of None \<Rightarrow> [] | Some x \<Rightarrow> '' '' @ x) @ s),
             class_ancestors ms False]))"

text \<open>Padding written out for formats without alignment information.\<close>

definition force_padding ::
  "type_printer \<Rightarrow> print_env \<Rightarrow> nat \<Rightarrow> class_t \<Rightarrow> class_vars \<Rightarrow> printer" where
  "force_padding tf env i c v =
     (let conf = cv_conf v
      in if cl_padding c \<noteq> 0 \<and> ty_alignment c = 0 \<and> cf_has_alignment_info conf \<and> \<not> cf_suppress_force_paddings conf \<and>
            cv_last v \<noteq> None then
           ask (\<lambda>cu. bindE (get_last cu i v) (\<lambda>lastm.
                 bindE (cu__type (Some cu) (cm_type (the lastm))) (\<lambda>t.
                   case t of
                     None \<Rightarrow> Inl Null_Deref
                   | Some t \<Rightarrow> bindE (tag__size (pe_fuel env) cu t) (\<lambda>sz. Inr (cm_type (the lastm), sz, cu_addr_size cu))))) (\<lambda>(ty, sz, addr_size).
             if is_power_of_2 (of_nat sz) \<and> cl_padding c > addr_size then
               run_all
                 [put (nl @ ind (int (cf_indent conf)) @ ''/* Force padding: */'' @ nl),
                  run_all (replicate ((cl_padding c + sz - 1) div sz) (run_all
                    [put (ind (int (cf_indent conf))), tf conf ty (Some []), put ('':'' @ dec (u32 (sz * 8)) @ '';'' @ nl)]))]
             else nop)
         else nop)"

text \<open>The statistics at the end of a structure.\<close>

definition type__fprintf_stats :: "print_env \<Rightarrow> conf_fprintf \<Rightarrow> nat \<Rightarrow> printer" where
  "type__fprintf_stats env conf i =
     ask (\<lambda>cu. bindE (get_type cu i) (\<lambda>(t, ty). bindE (tag__nr_cachelines env conf cu t) (\<lambda>n. Inr (ty, n)))) (\<lambda>(ty, n).
       put (nl @ ind (int (cf_indent conf)) @ ''/* size: '' @ sdec (s32 (int (ty_size ty))) @ '', cachelines: '' @ dec n @
         '', members: '' @ dec (ty_nr_members ty) @
         (if ty_nr_static_members ty \<noteq> 0 then '', static members: '' @ dec (ty_nr_static_members ty) @ '' */'' @ nl
          else '' */'' @ nl)))"

definition sums_str :: "string \<Rightarrow> class_t \<Rightarrow> class_vars \<Rightarrow> string" where
  "sums_str tb c v =
     (if cv_sum_holes v > 0 \<or> cv_sum_bit_holes v > 0 then
        (if cv_sum_bytes v > 0 then
           tb @ ''/* sum members: '' @ dec (cv_sum_bytes v) @
           (if cv_sum_holes v > 0 then
              '', holes: '' @ dec (cl_nr_holes c) @ '', sum holes: '' @ dec (cv_sum_holes v) else []) @ '' */'' @ nl
         else []) @
        (if cv_sum_bits v > 0 then
           tb @ ''/* sum bitfield members: '' @ dec (cv_sum_bits v) @ '' bits'' @
           (if cv_sum_bit_holes v > 0 then
              '', bit holes: '' @ dec (cl_nr_bit_holes c) @ '', sum bit holes: '' @ dec (cv_sum_bit_holes v) @ '' bits''
            else '' ('' @ dec (cv_sum_bits v div 8) @ '' bytes)'') @ '' */'' @ nl
         else [])
      else [])"

definition member_types_str :: "string \<Rightarrow> member_types_holes \<Rightarrow> string" where
  "member_types_str tb h =
     (let sep = (if mh_nr_with_holes h > 0 then '', '' else []);
          sep' = (if mh_nr_with_holes h > 0 \<or> mh_nr_with_bit_holes h > 0 then '', '' else [])
      in if mh_nr_with_holes h > 0 \<or> mh_nr_with_bit_holes h > 0 \<or> mh_nr_with_bit_paddings h > 0 then
           tb @ ''/* member types with '' @
           (if mh_nr_with_holes h > 0 then
              ''holes: '' @ dec (mh_nr_with_holes h) @ '', total: '' @ dec (mh_total_nr_holes h) else []) @
           (if mh_nr_with_bit_holes h > 0 then
              sep @ ''bit holes: '' @ dec (mh_nr_with_bit_holes h) @ '', total: '' @ dec (mh_total_nr_bit_holes h) else []) @
           (if mh_nr_with_bit_paddings h > 0 then
              sep' @ ''bit paddings: '' @ dec (mh_nr_with_bit_paddings h) @ '', total: '' @ dec (mh_sum_bit_paddings h) @
              '' bit'' @ (if mh_sum_bit_paddings h > 1 then ''s'' else []) else []) @ '' */'' @ nl
         else [])"

definition arrays_str :: "string \<Rightarrow> member_types_holes \<Rightarrow> string" where
  "arrays_str tb h =
     (if mh_nr_flexible_array_members h > 0 \<or> mh_nr_embedded_flexible_array_members h > 0 then
        tb @ ''/* flexible array members: '' @
        (if mh_nr_flexible_array_members h > 0 then ''end: '' @ dec (mh_nr_flexible_array_members h) else []) @
        (if mh_nr_embedded_flexible_array_members h > 0 then
           (if mh_nr_flexible_array_members h \<noteq> 0 then '', '' else []) @
           ''middle: '' @ dec (mh_nr_embedded_flexible_array_members h) else []) @ '' */'' @ nl
      else [])"

definition alignments_str :: "string \<Rightarrow> class_vars \<Rightarrow> string" where
  "alignments_str tb v =
     (if \<not> cf_suppress_aligned_attribute (cv_conf v) \<and> cv_nr_forced_alignments v \<noteq> 0 then
        tb @ ''/* forced alignments: '' @ dec (cv_nr_forced_alignments v) @
        (if cv_nr_forced_alignment_holes v \<noteq> 0 then
           '', forced holes: '' @ dec (cv_nr_forced_alignment_holes v) @ '', sum forced holes: '' @
           dec (cv_sum_forced_alignment_holes v) else []) @ '' */'' @ nl
      else [])"

text \<open>The size of the structure against the bits of members, holes and padding, in 32 bits.\<close>

definition size_diff :: "class_t \<Rightarrow> class_vars \<Rightarrow> int" where
  "size_diff c v =
     s32 (int (ty_size c) * 8 -
       (int (cv_sum_bytes v) * 8 + int (cv_sum_bits v) + int (cv_sum_holes v) * 8 + int (cv_sum_bit_holes v) +
        int (cl_padding c) * 8 + int (cl_bit_padding c)))"

definition brain_fart_str :: "string \<Rightarrow> class_t \<Rightarrow> class_vars \<Rightarrow> string" where
  "brain_fart_str tb c v =
     (if size_diff c v \<noteq> 0 \<and> ty_nr_members c \<noteq> 0 then
        nl @ tb @ ''/* BRAIN FART ALERT! '' @ sdec (s32 (int (ty_size c))) @ '' bytes != '' @ dec (cv_sum_bytes v) @
        '' (member bytes) + '' @ dec (cv_sum_bits v) @ '' (member bits) + '' @ dec (cv_sum_holes v) @
        '' (byte holes) + '' @ dec (cv_sum_bit_holes v) @ '' (bit holes), diff = '' @ sdec (size_diff c v) @ '' bits */'' @ nl
      else [])"

definition class_stats :: "print_env \<Rightarrow> nat \<Rightarrow> class_vars \<Rightarrow> printer" where
  "class_stats env i v =
     (let conf = cv_conf v; tb = ind (int (cf_indent conf)); h = cv_holes v; cl = conf_fprintf__cacheline_size env conf
      in run_all
        [type__fprintf_stats env conf i,
         ask (\<lambda>cu. get_class cu i) (\<lambda>(t, c).
           if cl = 0 then stop Div_By_Zero
           else
             let lastcl = u32 (cf_base_offset conf + ty_size c) mod cl
             in run_all
               [put (sums_str tb c v @
                  (if cl_padding c > 0 then tb @ ''/* padding: '' @ dec (cl_padding c) @ '' */'' @ nl else []) @
                  member_types_str tb h @
                  (if mh_nr_paddings h > 0 then
                     tb @ ''/* paddings: '' @ dec (mh_nr_paddings h) @ '', sum paddings: '' @ dec (mh_sum_paddings h) @
                     '' */'' @ nl else []) @
                  (if cl_bit_padding c > 0 then tb @ ''/* bit_padding: '' @ dec (cl_bit_padding c) @ '' bits */'' @ nl else []) @
                  alignments_str tb v @ arrays_str tb h @
                  (if lastcl \<noteq> 0 then tb @ ''/* last cacheline: '' @ dec lastcl @ '' bytes */'' @ nl else [])),
                if cf_show_first_biggest_size_base_type_member conf \<and> ty_nr_members c \<noteq> 0 then
                  ask (\<lambda>cu. bindE (type__find_first_biggest_size_base_type_member (pe_fuel env) cu i) (\<lambda>m.
                         case m of None \<Rightarrow> Inl Null_Deref | Some m \<Rightarrow> Inr m)) (\<lambda>m.
                    put (tb @ ''/* first biggest size base type member: '' @ str_or_null (cm_name m) @ '' '' @
                      dec (cm_byte_offset m) @ '' '' @ dec (cm_byte_size m) @ '' */'' @ nl))
                else nop,
                put (brain_fart_str tb c v)])])"

section \<open>A structure\<close>

definition member_types_none :: member_types_holes where
  "member_types_none =
     \<lparr>mh_nr_paddings = 0, mh_nr_with_bit_paddings = 0, mh_nr_with_holes = 0, mh_nr_with_bit_holes = 0,
      mh_total_nr_holes = 0, mh_total_nr_bit_holes = 0, mh_nr_flexible_array_members = 0,
      mh_nr_embedded_flexible_array_members = 0, mh_sum_paddings = 0, mh_sum_bit_paddings = 0\<rparr>"

definition class_vars_init :: "conf_fprintf \<Rightarrow> class_t \<Rightarrow> string \<times> class_vars" where
  "class_vars_init conf c =
     (let bits = cl_pre_bit_hole c > 0 \<and> \<not> cf_suppress_comments conf;
          bytes = cl_pre_hole c > 0 \<and> \<not> cf_suppress_comments conf
      in ((if bits then nl @ hole_comment conf (int (cl_pre_bit_hole c)) ''bit'' @ nl else []) @
          (if bytes then (if bits then [] else nl) @ hole_comment conf (int (cl_pre_hole c)) ''byte'' @ nl else []),
          \<lparr>cv_last = None, cv_last_size = 0, cv_newline = (if bits then 1 else 0) + (if bytes then 1 else 0),
           cv_nr_forced_alignments = 0, cv_nr_forced_alignment_holes = 0, cv_sum_forced_alignment_holes = 0,
           cv_sum_bytes = 0, cv_sum_bits = 0, cv_sum_holes = (if bytes then cl_pre_hole c else 0),
           cv_sum_bit_holes = (if bits then cl_pre_bit_hole c else 0), cv_holes = member_types_none, cv_access = None,
           cv_conf = conf\<rparr>))"

definition class_keyword :: "conf_fprintf \<Rightarrow> dw_tag \<Rightarrow> string" where
  "class_keyword conf tg =
     (if cf_classes_as_structs conf \<or> tg = DW_TAG_structure_type then ''struct''
      else if tg = DW_TAG_class_type then ''class'' else ''interface'')"

text \<open>The closing brace and the attributes after it.\<close>

definition class_close :: "conf_fprintf \<Rightarrow> nat \<Rightarrow> class_t \<Rightarrow> string" where
  "class_close conf indent c =
     ind (int indent) @ ''}'' @
     (if cl_is_packed c \<and> \<not> cf_suppress_packed conf then '' __attribute__((__packed__))'' else []) @
     (case cf_suffix conf of None \<Rightarrow> [] | Some s \<Rightarrow> '' '' @ s) @
     (if \<not> cf_suppress_aligned_attribute conf \<and> ty_alignment c \<noteq> 0 \<and> \<not> cl_is_packed c then
        '' __attribute__((__aligned__('' @ dec (ty_alignment c) @ '')))'' else [])"

text \<open>The loop over the members and what follows it; what the table of functions writes is not counted.\<close>

definition class_after :: "type_printer \<Rightarrow> print_env \<Rightarrow> nat \<Rightarrow> nat \<Rightarrow> class_vars \<Rightarrow> printer" where
  "class_after tf env i indent v =
     run_all
       [ask (\<lambda>cu. get_class cu i) (\<lambda>(t, c). force_padding tf env i c v),
        if cf_show_only_data_members (cv_conf v) then nop
        else ask (\<lambda>cu. get_class cu i) (\<lambda>(t, c). uncounted (class__vtable_fprintf (cv_conf v) c)),
        if cf_emit_stats (cv_conf v) then class_stats env i v else nop,
        ask (\<lambda>cu. get_class cu i) (\<lambda>(t, c). put (class_close (cv_conf v) indent c))]"

definition class_body :: "type_printer \<Rightarrow> ref_printer \<Rightarrow> print_env \<Rightarrow> nat \<Rightarrow> nat \<Rightarrow> conf_fprintf \<Rightarrow> printer" where
  "class_body tf tgf env i indent conf =
     ask (\<lambda>cu. get_class cu i) (\<lambda>(t, c).
       let (s, v) = class_vars_init conf c
       in bindP (put s) (\<lambda>n.
            class_entries (class_entry_step tf tgf env i) [0..<length (ty_tags c)] v n (\<lambda>v' n'.
              bindP (class_after tf env i indent v') (\<lambda>m st. Inr (n' + m, st)))))"

definition class__fprintf :: "type_printer \<Rightarrow> ref_printer \<Rightarrow> print_env \<Rightarrow> conf_fprintf \<Rightarrow> nat \<Rightarrow> printer" where
  "class__fprintf tf tgf env conf i =
     ask (\<lambda>cu. get_class cu i) (\<lambda>(t, c).
       let indent = (if cf_indent conf \<ge> 17 then 16 else cf_indent conf);
           cconf = conf\<lparr>cf_indent := indent + 1, cf_no_semicolon := False, cf_cachelinep := True\<rparr>
       in run_all
         [put ((case cf_prefix conf of None \<Rightarrow> [] | Some s \<Rightarrow> s @ '' '') @ class_keyword conf (tg_tag t) @
            (case ty_name c of None \<Rightarrow> [] | Some s \<Rightarrow> '' '' @ s)),
          if cf_cachelinep conf then nop else set_line 0,
          change (\<lambda>cu. class__infer_packed_attributes (pe_fuel env) cu i) (\<lambda>_. nop),
          class_ancestors (type__members (ty_tags c)) True,
          put ('' {'' @ nl),
          class_body tf tgf env i indent cconf])"

section \<open>Types\<close>

text \<open>\<open>class__find_holes\<close> for the class at an index.\<close>

definition find_holes_at :: "nat \<Rightarrow> cu \<Rightarrow> fault + unit \<times> cu" where
  "find_holes_at i cu = bindE (get_class cu i) (\<lambda>(t, c). Inr ((), put_class cu i t (class__find_holes (tg_tag t) c)))"

definition class_inline ::
  "type_printer \<Rightarrow> ref_printer \<Rightarrow> print_env \<Rightarrow> conf_fprintf \<Rightarrow> nat \<Rightarrow> printer" where
  "class_inline tf tgf env conf i =
     run_all
       [if cf_suppress_comments conf then nop else change (find_holes_at i) (\<lambda>_. nop),
        class__fprintf tf tgf env (conf\<lparr>cf_type_spacing := cf_type_spacing conf - 8\<rparr>) i]"

fun skip_tag_annotations :: "nat \<Rightarrow> cu \<Rightarrow> nat \<Rightarrow> fault + nat" where
  "skip_tag_annotations 0 cu i = Inl Out_Of_Fuel"
| "skip_tag_annotations (Suc n) cu i =
     (if i = 0 then Inr 0
      else bindE (cu__type (Some cu) i) (\<lambda>type.
        case type of
          None \<Rightarrow> Inr i
        | Some t \<Rightarrow> if \<not> tag__is_annotation (tg_tag t) \<or> tg_type t = i then Inr i
                    else skip_tag_annotations n cu (tg_type t)))"

text \<open>Following pointers for \<open>expand_pointers\<close>: the type reached and the number of indirections.\<close>

datatype followed = Reached nat nat | Not_Found | Loop_At tag

fun follow_pointers :: "nat \<Rightarrow> cu \<Rightarrow> nat \<Rightarrow> nat \<Rightarrow> fault + followed" where
  "follow_pointers 0 cu i nr = Inl Out_Of_Fuel"
| "follow_pointers (Suc n) cu i nr =
     bindE (cu__type (Some cu) i) (\<lambda>type.
       case type of
         None \<Rightarrow> Inr Not_Found
       | Some t \<Rightarrow>
           if tag__is_pointer (tg_tag t) \<and> tg_type t \<noteq> 0 then
             bindE (cu__type (Some cu) (tg_type t)) (\<lambda>ttype.
               if ttype = None then Inr Not_Found
               else if tag_has_type_loop t ttype then Inr (Loop_At t)
               else follow_pointers n cu (tg_type t) (nr + 1))
           else Inr (Reached i nr))"

text \<open>
  The typedefs that are looked through for \<open>expand_types\<close>, and the comment that names them; the result
  is the type behind them.
\<close>

definition get_type_opt :: "cu \<Rightarrow> nat \<Rightarrow> fault + tag \<times> string option" where
  "get_type_opt cu i =
     bindE (cu__type (Some cu) i) (\<lambda>type.
       case type of
         None \<Rightarrow> Inl Null_Deref
       | Some t \<Rightarrow>
           if tag__is_typedef (tg_tag t) then bindE (tag__type t) (\<lambda>ty. Inr (t, ty_name ty)) else Inr (t, None))"

fun follow_typedefs :: "nat \<Rightarrow> cu \<Rightarrow> nat \<Rightarrow> bool \<Rightarrow> fault + string \<times> followed" where
  "follow_typedefs 0 cu i expanded = Inl Out_Of_Fuel"
| "follow_typedefs (Suc n) cu i expanded =
     bindE (get_type_opt cu i) (\<lambda>(t, name).
       if tag__is_typedef (tg_tag t) then
         let s = (if expanded then '' -> '' else ''/* typedef '') @ str_or_null name
         in bindE (cu__type (Some cu) (tg_type t)) (\<lambda>type_type.
              if type_type = None then Inr (s, Not_Found)
              else if tag_has_type_loop t type_type then Inr (s, Loop_At t)
              else bindE (follow_typedefs n cu (tg_type t) True) (\<lambda>(s', r). Inr (s @ s', r)))
       else Inr (if expanded then '' */ '' else [], Reached i 0))"

text \<open>
  The types from \<open>next_type\<close> on.  \<open>acc\<close> is what \<open>printed\<close> holds, \<open>out\<close> what is done before
  returning through the label \<open>out\<close>, \<open>ptr\<close> whether \<open>name\<close> is the local copy with a star.  A circle
  returns without passing \<open>out\<close>; when a type is not found the count starts again.
\<close>

definition add_count :: "nat \<Rightarrow> printer \<Rightarrow> printer" where
  "add_count acc p = bindP p (\<lambda>n st. Inr (acc + n, st))"

definition type_not_found :: "conf_fprintf \<Rightarrow> bool \<Rightarrow> string option \<Rightarrow> printer" where
  "type_not_found conf ptr name =
     put (fmt_ls (cf_type_spacing conf) ''<ERROR'' @
       (if ptr then '': pointer to pointer to inner struct/union/enum?'' else []) @ ''> '' @ str_or_null name)"

definition inner_struct_conf :: "bool \<Rightarrow> string option \<Rightarrow> conf_fprintf \<Rightarrow> conf_fprintf" where
  "inner_struct_conf suppress_offset name conf =
     conf\<lparr>cf_prefix := None, cf_suffix := name, cf_emit_stats := False, cf_suppress_offset_comment := suppress_offset\<rparr>"

definition print_default :: "print_env \<Rightarrow> conf_fprintf \<Rightarrow> nat \<Rightarrow> string option \<Rightarrow> printer" where
  "print_default env conf i name =
     ask (print_name env conf i 128) (\<lambda>s. put (fmt_ls (cf_type_spacing conf) s @ '' '' @ str_or_null name))"

fun type_next ::
  "type_printer \<Rightarrow> ref_printer \<Rightarrow> print_env \<Rightarrow> (printer \<Rightarrow> printer) \<Rightarrow> bool \<Rightarrow> bool \<Rightarrow> bool \<Rightarrow> nat \<Rightarrow>
    conf_fprintf \<Rightarrow> nat \<Rightarrow> string option \<Rightarrow> bool \<Rightarrow> nat \<Rightarrow> printer" where
  "type_next tf tgf env out skip_modifier expand_types suppress_offset 0 conf i name ptr acc = stop Out_Of_Fuel"
| "type_next tf tgf env out skip_modifier expand_types suppress_offset (Suc n) conf i name ptr acc =
     (let done = (\<lambda>p. out (add_count acc p)); not_found = out (type_not_found conf ptr name);
          next_type = type_next tf tgf env out skip_modifier expand_types suppress_offset n
      in ask (\<lambda>cu. bindE (cu__type (Some cu) i) (\<lambda>type. case type of None \<Rightarrow> Inl Null_Deref | Some t \<Rightarrow> Inr t)) (\<lambda>t.
           let tg = tg_tag t
           in if tg = DW_TAG_pointer_type then
                ask (\<lambda>cu. bindE (skip_tag_annotations (pe_fuel env) cu (tg_type t)) (\<lambda>j.
                       bindE (if j = 0 then Inr None else cu__type (Some cu) j) (\<lambda>pt.
                       bindE (case pt of
                                Some p \<Rightarrow> if is_aggregate (tg_tag p) then bindE (tag__type p) (\<lambda>ty. Inr (ty_name ty = None))
                                          else Inr False
                              | None \<Rightarrow> Inr False) (\<lambda>anonymous. Inr (j, pt, anonymous))))) (\<lambda>(j, ptype, anonymous).
                  if j = 0 then done (print_default env conf i name)
                  else case ptype of
                    None \<Rightarrow> not_found
                  | Some p \<Rightarrow>
                      if tag_has_type_loop t ptype then add_count acc (put (type_loop_msg t ''type__fprintf:877'' @ nl))
                      else if tg_tag p = DW_TAG_subroutine_type then
                        done (print_ftype env conf p name False True (cf_type_spacing conf) True)
                      else if anonymous then
                        if ptr then not_found
                        else
                          let name' = Some (cut 258 (''* '' @ take 255 (str_or_null name)))
                          in next_type (inner_struct_conf suppress_offset name'
                               (conf\<lparr>cf_rel_offset := True, cf_type_spacing := cf_type_spacing conf - 8\<rparr>)) j name' True acc
                      else done (print_default env conf i name))
              else if tg = DW_TAG_subroutine_type then
                done (print_ftype env conf t name False False (cf_type_spacing conf) True)
              else if tg = DW_TAG_atomic_type \<or> tg = DW_TAG_const_type then
                let m = (if skip_modifier then []
                         else if tg = DW_TAG_atomic_type then ''_Atomic '' else ''const '');
                    conf' = conf\<lparr>cf_type_spacing := cf_type_spacing conf - int (length m)\<rparr>
                in bindP (put m) (\<lambda>k.
                     ask (\<lambda>cu. cu__type (Some cu) (tg_type t)) (\<lambda>ttype.
                       if ttype = None then out (add_count (acc + k) (print_default env conf' i name))
                       else next_type conf' (tg_type t) name ptr (acc + k)))
              else if tg = DW_TAG_array_type then done (array_type__fprintf tf env conf t name)
              else if tg = DW_TAG_string_type then done (string_type__fprintf conf t name)
              else if tg = DW_TAG_class_type \<or> tg = DW_TAG_structure_type then
                ask (\<lambda>cu. tag__type t) (\<lambda>ctype.
                  case (ty_name ctype, expand_types) of
                    (Some s, False) \<Rightarrow>
                      done (put ((if tg = DW_TAG_class_type \<and> \<not> cf_classes_as_structs conf then ''class '' else ''struct '') @
                        fmt_ls (cf_type_spacing conf - 7) s @ '' '' @ str_or_empty name))
                  | _ \<Rightarrow> done (class_inline tf tgf env conf i))
              else if tg = DW_TAG_union_type then done (union_decl__fprintf tf env conf i name)
              else if tg = DW_TAG_enumeration_type then
                ask (\<lambda>cu. tag__type t) (\<lambda>ctype.
                  case (ty_name ctype, expand_types) of
                    (Some s, False) \<Rightarrow>
                      done (put (''enum '' @ fmt_ls (cf_type_spacing conf - 5) s @ '' '' @ str_or_empty name))
                  | _ \<Rightarrow> done (enumeration__fprintf env conf t))
              else if tag__is_annotation tg then
                ask (\<lambda>cu. cu__type (Some cu) (tg_type t)) (\<lambda>ttype.
                  if ttype = None then not_found else next_type conf (tg_type t) name ptr acc)
              else done (print_default env conf i name)))"

text \<open>\<open>expanded\<close>: the type whose recursion counter is lowered on the way out.\<close>

definition type_out :: "nat option \<Rightarrow> printer \<Rightarrow> printer" where
  "type_out expanded p = (case expanded of None \<Rightarrow> p | Some j \<Rightarrow> run_all [p, bump_rec j (-1)])"

definition type_expand ::
  "type_printer \<Rightarrow> ref_printer \<Rightarrow> print_env \<Rightarrow> conf_fprintf \<Rightarrow> nat option \<Rightarrow> bool \<Rightarrow> bool \<Rightarrow> nat \<Rightarrow> string option \<Rightarrow> printer" where
  "type_expand tf tgf env conf expanded expand_types suppress_offset i name =
     (let out = type_out expanded
      in ask (\<lambda>cu. if expand_types then follow_typedefs (pe_fuel env) cu i False else Inr ([], Reached i 0)) (\<lambda>(s, r).
           bindP (put s) (\<lambda>acc.
             case r of
               Not_Found \<Rightarrow> out (type_not_found conf False name)
             | Loop_At t \<Rightarrow> add_count acc (put (type_loop_msg t ''type__fprintf:845'' @ nl))
             | Reached j nr \<Rightarrow>
                 ask (\<lambda>cu. bindE (cu__type (Some cu) j) (\<lambda>type. case type of None \<Rightarrow> Inl Null_Deref | Some t \<Rightarrow> Inr t)) (\<lambda>t.
                   type_next tf tgf env out (cf_skip_emitting_modifier conf) expand_types suppress_offset (pe_fuel env)
                     (if is_aggregate (tg_tag t) then inner_struct_conf suppress_offset name conf else conf) j name False acc))))"

definition type_body ::
  "type_printer \<Rightarrow> ref_printer \<Rightarrow> print_env \<Rightarrow> conf_fprintf \<Rightarrow> nat \<Rightarrow> string option \<Rightarrow> printer" where
  "type_body tf tgf env conf i name =
     ask (\<lambda>cu. cu__type (Some cu) i) (\<lambda>type.
       if type = None then type_not_found conf False name
       else if cf_expand_pointers conf then
         ask (\<lambda>cu. follow_pointers (pe_fuel env) cu i 0) (\<lambda>r.
           case r of
             Not_Found \<Rightarrow> type_not_found conf False name
           | Loop_At t \<Rightarrow> put (type_loop_msg t ''type__fprintf:798'' @ nl)
           | Reached j nr \<Rightarrow>
               if nr > 0 \<and> name = None then stop Null_Deref
               else if nr > 0 \<and> length (the name) + nr \<ge> 256 then type_not_found conf False name
               else
                 get_rec j (\<lambda>level.
                   run_all
                     [bump_rec j 1,
                      type_expand tf tgf env conf (Some j) (nr \<noteq> 0 \<and> level = 0) (cf_suppress_offset_comment conf \<or> nr \<noteq> 0) j
                        (if nr > 0 then Some (replicate nr (CHR ''*'') @ the name) else name)]))
       else type_expand tf tgf env conf None (cf_expand_types conf) (cf_suppress_offset_comment conf) i name)"

section \<open>Typedefs and whole tags\<close>

text \<open>The loop over \<open>_Atomic\<close> in front of the type of a typedef; \<open>j\<close> is that type.\<close>

fun typedef_next ::
  "type_printer \<Rightarrow> ref_printer \<Rightarrow> print_env \<Rightarrow> nat \<Rightarrow> conf_fprintf \<Rightarrow> nat \<Rightarrow> string option \<Rightarrow> printer" where
  "typedef_next tf tgf env 0 conf j name = stop Out_Of_Fuel"
| "typedef_next tf tgf env (Suc n) conf j name =
     ask (\<lambda>cu. cu__type (Some cu) j) (\<lambda>type.
       case type of
         None \<Rightarrow> put (tag__id_not_found_fprintf j ''typedef__fprintf:356'' @ '' '' @ str_or_null name)
       | Some t \<Rightarrow>
           let tg = tg_tag t;
               plain = ask (\<lambda>cu. tag_name_fuel (pe_fuel env) conf cu type 512) (\<lambda>s. put (s @ '' '' @ str_or_null name))
           in if tg = DW_TAG_atomic_type then run_all [put ''_Atomic '', typedef_next tf tgf env n conf (tg_type t) name]
              else if tg = DW_TAG_array_type then array_type__fprintf tf env conf t name
              else if tg = DW_TAG_pointer_type then
                if tg_type t = 0 then plain
                else
                  ask (\<lambda>cu. cu__type (Some cu) (tg_type t)) (\<lambda>ptr_type.
                    case ptr_type of
                      None \<Rightarrow> put (tag__id_not_found_fprintf (tg_type t) ''typedef__fprintf:372'' @ '' *'' @ str_or_null name)
                    | Some p \<Rightarrow>
                        if tg_tag p = DW_TAG_subroutine_type then print_ftype env conf p name False True 0 True else plain)
              else if tg = DW_TAG_subroutine_type then print_ftype env conf t name False False 0 True
              else if tg = DW_TAG_class_type \<or> tg = DW_TAG_structure_type then
                ask (\<lambda>cu. tag__type t) (\<lambda>ctype.
                  case (ty_name ctype, cf_expand_types conf) of
                    (Some s, False) \<Rightarrow> put (''struct '' @ s @ '' '' @ str_or_null name)
                  | _ \<Rightarrow> class_inline tf tgf env (conf\<lparr>cf_suffix := name\<rparr>) j)
              else if tg = DW_TAG_union_type then union_decl__fprintf tf env conf j name
              else if tg = DW_TAG_enumeration_type then
                ask (\<lambda>cu. tag__type t) (\<lambda>ctype.
                  case ty_name ctype of
                    Some s \<Rightarrow> put (''enum '' @ s @ '' '' @ str_or_null name)
                  | None \<Rightarrow> enumeration__fprintf env (conf\<lparr>cf_suffix := name\<rparr>) t)
              else plain)"

definition typedef__fprintf :: "type_printer \<Rightarrow> ref_printer \<Rightarrow> print_env \<Rightarrow> conf_fprintf \<Rightarrow> tag \<Rightarrow> printer" where
  "typedef__fprintf tf tgf env conf t =
     ask (\<lambda>cu. tag__type t) (\<lambda>ty.
       run_all
         [put ''typedef '',
          if tg_type t = 0 then put (''void '' @ str_or_null (ty_name ty))
          else typedef_next tf tgf env (pe_fuel env) conf (tg_type t) (ty_name ty)])"

definition imported_declaration__fprintf :: "print_env \<Rightarrow> tag \<Rightarrow> printer" where
  "imported_declaration__fprintf env t =
     ask (\<lambda>cu. bindE (cu__function (Some cu) (tg_type t)) (\<lambda>f.
            case f of
              Some d \<Rightarrow> Inr (Some d)
            | None \<Rightarrow> cu__tag (Some cu) (tg_type t))) (\<lambda>decl.
       run_all
         [put ''using ::'',
          if decl = None then put (tag__id_not_found_fprintf (tg_type t) ''imported_declaration__fprintf:429'')
          else ask (\<lambda>cu. tag_name_fuel (pe_fuel env) (conf_fprintf__defaults (pe_cacheline env)) cu decl 8192) put])"

definition imported_module__fprintf :: "tag \<Rightarrow> printer" where
  "imported_module__fprintf t =
     ask (\<lambda>cu. bindE (cu__tag (Some cu) (tg_type t)) (\<lambda>m.
            case m of
              None \<Rightarrow> Inl Null_Deref
            | Some m \<Rightarrow> Inr (if tag__is_namespace (tg_tag m) then
                case tg_body m of Namespace_body nm _ \<Rightarrow> str_or_null nm | _ \<Rightarrow> [] else ''<IMPORTED MODULE ERROR!>''))) (\<lambda>name.
       put (''using namespace '' @ name))"

definition variable__prefix :: "variable_t \<Rightarrow> string option" where
  "variable__prefix v =
     (case va_scope v of
        VSCOPE_REGISTER \<Rightarrow> Some ''register ''
      | VSCOPE_UNKNOWN \<Rightarrow> if va_external v \<and> va_declaration v then Some ''extern '' else None
      | VSCOPE_GLOBAL \<Rightarrow> if \<not> va_external v then Some ''static '' else None
      | _ \<Rightarrow> None)"

definition variable__fprintf :: "type_printer \<Rightarrow> conf_fprintf \<Rightarrow> tag \<Rightarrow> printer" where
  "variable__fprintf tf conf t =
     (case tg_body t of
        Variable_body v \<Rightarrow>
          ask (\<lambda>cu. cu__type (Some cu) (tg_type t)) (\<lambda>type.
            if va_name v \<noteq> None \<and> type \<noteq> None then
              run_all [put (str_or_empty (variable__prefix v)), tf conf (tg_type t) (va_name v)]
            else nop)
      | _ \<Rightarrow> stop Out_Of_Bounds)"

definition constant__fprintf :: "type_printer \<Rightarrow> conf_fprintf \<Rightarrow> tag \<Rightarrow> printer" where
  "constant__fprintf tf conf t =
     (case tg_body t of
        Constant_body nm val \<Rightarrow>
          ask (\<lambda>cu. cu__type (Some cu) (tg_type t)) (\<lambda>type.
            if nm \<noteq> None \<and> type \<noteq> None then
              run_all [put ''const '', tf conf (tg_type t) nm, put ('' = '' @ dec val)]
            else nop)
      | _ \<Rightarrow> stop Out_Of_Bounds)"

definition namespace__fprintf :: "ref_printer \<Rightarrow> conf_fprintf \<Rightarrow> tag \<Rightarrow> printer" where
  "namespace__fprintf tgf conf t =
     (case tg_body t of
        Namespace_body nm tags \<Rightarrow>
          run_all
            [put (''namespace '' @ str_or_null nm @ '' {'' @ nl),
             run_all (map (\<lambda>r. run_all
               [tgf (conf\<lparr>cf_indent := u8 (cf_indent conf + 1), cf_no_semicolon := False\<rparr>) r, put (nl @ nl)]) tags),
             put (ind (int (cf_indent conf)) @ ''}'')]
      | _ \<Rightarrow> stop Out_Of_Bounds)"

text \<open>The tag a reference stands for, by the table its kind lives in.\<close>

definition ref_tag_of :: "cu \<Rightarrow> dw_tag \<times> nat \<Rightarrow> fault + tag" where
  "ref_tag_of cu r =
     bindE (if fst r = DW_TAG_subprogram then cu__function (Some cu) (snd r)
            else if tag__is_tag_type (fst r) then cu__type (Some cu) (snd r)
            else cu__tag (Some cu) (snd r)) (\<lambda>t. case t of None \<Rightarrow> Inl Null_Deref | Some t \<Rightarrow> Inr t)"

text \<open>The configuration \<open>tag__fprintf\<close> uses for the one it is given, NULL or with spacings of 0.\<close>

definition tag_conf :: "nat \<Rightarrow> conf_fprintf option \<Rightarrow> dw_tag \<Rightarrow> conf_fprintf" where
  "tag_conf cacheline conf tg =
     (case conf of
        None \<Rightarrow>
          (let c = conf_fprintf__defaults cacheline
           in if tag__is_union tg then c\<lparr>cf_name_spacing := 21\<rparr> else c)
      | Some c \<Rightarrow>
          (let c1 = (if cf_name_spacing c = 0 then
                       c\<lparr>cf_name_spacing := if cf_expand_types c then 55 else if tag__is_union tg then 21 else 23\<rparr> else c)
           in if cf_type_spacing c1 = 0 then c1\<lparr>cf_type_spacing := 26\<rparr> else c1))"

definition tag_body__fprintf ::
  "type_printer \<Rightarrow> ref_printer \<Rightarrow> print_env \<Rightarrow> conf_fprintf \<Rightarrow> tag \<Rightarrow> nat \<Rightarrow> printer" where
  "tag_body__fprintf tf tgf env conf t i =
     (let tg = tg_tag t
      in if tg = DW_TAG_array_type then array_type__fprintf tf env conf t (Some ''array'')
         else if tg = DW_TAG_enumeration_type then enumeration__fprintf env conf t
         else if tg = DW_TAG_typedef then typedef__fprintf tf tgf env conf t
         else if tag__is_struct tg then class__fprintf tf tgf env conf i
         else if tg = DW_TAG_subroutine_type then print_ftype env conf t None False False 0 True
         else if tg = DW_TAG_namespace then namespace__fprintf tgf conf t
         else if tg = DW_TAG_subprogram then function__fprintf env conf t
         else if tg = DW_TAG_union_type then union__fprintf tf env conf i
         else if tg = DW_TAG_variable then variable__fprintf tf conf t
         else if tg = DW_TAG_constant then constant__fprintf tf conf t
         else if tg = DW_TAG_imported_declaration then imported_declaration__fprintf env t
         else if tg = DW_TAG_imported_module then imported_module__fprintf t
         else put (''/* tag__fprintf: '' @ dwarf_tag_name tg @ '' tag not supported! */''))"

definition tag__fprintf_body ::
  "type_printer \<Rightarrow> ref_printer \<Rightarrow> print_env \<Rightarrow> conf_fprintf option \<Rightarrow> dw_tag \<times> nat \<Rightarrow> printer" where
  "tag__fprintf_body tf tgf env conf r =
     ask (\<lambda>cu. bindE (ref_tag_of cu r) (\<lambda>t.
            bindE (if tg_tag t = DW_TAG_subprogram then map_sum id Some (tag__function t) else Inr None) (\<lambda>f.
              Inr (t, f, str_or_null (cu_name cu))))) (\<lambda>(t, f, cu_nm).
       let pconf = tag_conf (pe_cacheline env) conf (tg_tag t); tb = ind (int (cf_indent pconf));
           rec = (\<lambda>d. if cf_expand_types pconf \<and> tag__is_tag_type (tg_tag t) then bump_rec (snd r) d else nop)
       in run_all
         [rec 1,
          if cf_show_decl_info pconf then
            put (tb @ ''/* Used at: '' @ cu_nm @ '' */'' @ nl @ tb @ ''/* <'' @ hexs (pe_orig_id env r) @ ''> '' @
              pe_decl_file env r @ '':'' @ dec (pe_decl_line env r) @ '' */'' @ nl)
          else nop,
          put tb,
          tag_body__fprintf tf tgf env pconf t (snd r),
          put (if cf_no_semicolon pconf then [] else '';''),
          case f of
            Some fn \<Rightarrow>
              if \<not> cf_suppress_comments pconf \<and> fn_linkage_name fn \<noteq> None
              then put ('' /* linkage='' @ str_or_empty (fn_linkage_name fn) @ '' */'') else nop
          | None \<Rightarrow> nop,
          rec (-1)])"

text \<open>The two routines with a bound on how deep they nest.\<close>

fun type__fprintf :: "nat \<Rightarrow> print_env \<Rightarrow> type_printer"
  and tag__fprintf_fuel :: "nat \<Rightarrow> print_env \<Rightarrow> conf_fprintf option \<Rightarrow> dw_tag \<times> nat \<Rightarrow> printer" where
  "type__fprintf 0 env = (\<lambda>conf i name. stop Out_Of_Fuel)"
| "type__fprintf (Suc n) env = type_body (type__fprintf n env) (\<lambda>conf. tag__fprintf_fuel n env (Some conf)) env"
| "tag__fprintf_fuel 0 env = (\<lambda>conf r. stop Out_Of_Fuel)"
| "tag__fprintf_fuel (Suc n) env = tag__fprintf_body (type__fprintf n env) (\<lambda>conf. tag__fprintf_fuel n env (Some conf)) env"

definition tag__fprintf :: "print_env \<Rightarrow> conf_fprintf option \<Rightarrow> dw_tag \<times> nat \<Rightarrow> printer" where
  "tag__fprintf env = tag__fprintf_fuel (pe_fuel env) env"

end
