(* ===== verification/FprintfCount.thy ===== *)
theory FprintfCount
  imports Fprintf
begin

text \<open>
  Whatever is printed, the count returned is at most the number of characters written, nothing that was
  written is taken back, and structures that were searched for holes keep their layout.
\<close>

definition good_tf :: "type_printer \<Rightarrow> bool" where
  "good_tf tf \<longleftrightarrow> (\<forall>conf i name. good (tf conf i name))"

definition good_tgf :: "ref_printer \<Rightarrow> bool" where
  "good_tgf tgf \<longleftrightarrow> (\<forall>conf r. good (tgf conf r))"

lemma good_tfD: "good_tf tf \<Longrightarrow> good_from a (tf conf i name)"
  unfolding good_tf_def Let_def by (blast intro: good_weaken)

lemma good_tgfD: "good_tgf tgf \<Longrightarrow> good_from a (tgf conf r)"
  unfolding good_tgf_def Let_def by (blast intro: good_weaken)

declare run_all.simps [simp del]

lemma good_print_ftype [good_rules]: "good_from a (print_ftype env conf t nm inlined is_pointer sp is_prototype)"
  unfolding print_ftype_def Let_def by (intro good_rules)

lemma good_array [good_rules]: "good_tf tf \<Longrightarrow> good_from a (array_type__fprintf tf env conf t name)"
  unfolding array_type__fprintf_def Let_def by (intro good_rules good_tfD [of tf])

lemma good_string [good_rules]: "good_from a (string_type__fprintf conf t name)"
  unfolding string_type__fprintf_def Let_def by (intro good_rules)

lemma good_function [good_rules]: "good_from a (function__fprintf env conf t)"
  unfolding function__fprintf_def attributes_fprintf_def Let_def by (intro good_rules)

lemma good_enum_entry [good_rules]: "good_from a (enum_entry env conf ty mx indent e)"
  by (cases e) (simp_all add: enum_entry_def good_rules)

lemma good_enumeration [good_rules]: "good_from a (enumeration__fprintf env conf t)"
  unfolding enumeration__fprintf_def Let_def by (intro good_rules)

lemma good_boundary [good_rules]: "good_from a (class__fprintf_cacheline_boundary env conf offset)"
  unfolding class__fprintf_cacheline_boundary_def Let_def by (intro good_rules)

lemma good_member [good_rules]: "good_tf tf \<Longrightarrow> good_from a (class_member__fprintf tf env conf un m)"
  unfolding class_member__fprintf_def Let_def by (intro good_rules good_tfD [of tf]) simp_all

lemma settles_union_infer: "settles (\<lambda>cu. map_sum id (Pair ()) (union__infer_packed_attributes n cu i))"
proof -
  have "map_sum id (Pair ()) m = Inr (x, cu') \<Longrightarrow> m = Inr cu'" for m :: "fault + cu" and x cu'
    by (cases m) auto
  then show ?thesis using settled_union_infer unfolding settles_def Let_def by blast
qed

lemma settles_infer: "settles (\<lambda>cu. class__infer_packed_attributes n cu i)"
  using settled_infer unfolding settles_def Let_def by blast

lemma settles_find_holes: "settles (find_holes_at i)"
  unfolding settles_def find_holes_at_def Let_def by (auto split: sum.splits prod.splits intro: settled_find_holes)

lemmas settles_rules [good_rules] = settles_union_infer settles_infer settles_find_holes

lemma good_union [good_rules]: "good_tf tf \<Longrightarrow> good_from a (union__fprintf tf env conf i)"
  unfolding union__fprintf_def union_members_def Let_def by (intro good_rules good_tfD [of tf])

lemma good_union_decl [good_rules]: "good_tf tf \<Longrightarrow> good_from a (union_decl__fprintf tf env conf i name)"
  unfolding union_decl__fprintf_def Let_def by (intro good_rules good_tfD [of tf])

lemma good_vtable [good_rules]: "good_from a (class__vtable_fprintf conf c)"
  unfolding class__vtable_fprintf_def Let_def by (intro good_rules)

lemma settles_member_holes:
  "settles (\<lambda>cu.
     bindE (get_class cu i) (\<lambda>(t, c).
     bindE (class__infer_packed_attributes n (put_class cu i t (class__find_holes (tg_tag t) c)) i) (\<lambda>(r, cu1).
     bindE (get_class cu1 i) (\<lambda>(t1, c1).
     bindE (class__has_flexible_array cu1 i) (\<lambda>(flex, cu2).
     bindE (class__has_embedded_flexible_array n cu2 i) (\<lambda>(embedded, cu3).
       Inr ((c1, flex, embedded), cu3)))))))"
  unfolding settles_def
  by (auto split: sum.splits prod.splits
    intro: settled_trans [OF settled_trans [OF settled_find_holes settled_infer] settled_trans [OF settled_flexible settled_embedded]])

text \<open>The loop over the members, in front of what continues.\<close>

definition good_cont :: "nat \<Rightarrow> (class_vars \<Rightarrow> nat \<Rightarrow> printer) \<Rightarrow> bool" where
  "good_cont a k \<longleftrightarrow> (\<forall>v n. good_from (a + n) (k v n))"

lemma good_contD: "good_cont a k \<Longrightarrow> n \<le> m \<Longrightarrow> good_from (a + m) (k v n)"
  unfolding good_cont_def by (meson good_from_mono add_le_mono le_refl)

lemma good_member_holes:
  assumes "good_cont a k"
  shows "good_from a (class__fprintf_member_type_holes env conf i v k)"
proof -
  have k: "good_from (a + n) (k v' n)" for v' n using assms by (simp add: good_cont_def)
  have k0: "good_from a (k v' 0)" for v' using k [of 0 v'] by simp
  show ?thesis
    unfolding class__fprintf_member_type_holes_def Let_def
    by (intro good_rules settles_member_holes k k0)
qed

lemma good_unnamed [good_rules]: "good_tf tf \<Longrightarrow> good_from a (unnamed_bitfield tf v l pos)"
  unfolding unnamed_bitfield_def Let_def by (intro good_rules good_tfD [of tf])

lemma good_before:
  assumes tf: "good_tf tf" and k: "\<And>s v n. good_from (a + n) (k s v n)"
  shows "good_from a (before_member tf lastm pos v k)"
proof -
  have k0: "good_from a (k s v 0)" for s v using k [of 0 s v] by simp
  have k2: "good_from (a + m + n) (k s v (m + n))" for s v m n using k [of "m + n" s v] by (simp add: add.assoc)
  show ?thesis
    unfolding before_member_def Let_def by (intro good_rules tf k k0 k2)
qed

lemma good_member_step:
  assumes tf: "good_tf tf" and k: "good_cont a k"
  shows "good_from a (class_member_step tf env i ix v0 k)"
proof -
  have g: "good_from m (k v n)" if "a + n \<le> m" for v n m
    using k good_from_mono [OF _ that] by (simp add: good_cont_def)
  have c: "good_cont m (\<lambda>v n. ask (q v) (\<lambda>(x, y). case r v x y of (s, v3) \<Rightarrow> bindP (put s) (\<lambda>n5. k (u v x y v3) (b + (c + n) + n5))))"
    if "a + b + c \<le> m" for q r u b c m
    unfolding good_cont_def by (intro allI good_rules g) (use that in simp)
  show ?thesis
    unfolding class_member_step_def Let_def
    by (intro good_rules good_before good_member_holes good_tfD [OF tf] g tf c) simp_all
qed

lemma good_entry_step:
  assumes tf: "good_tf tf" and tgf: "good_tgf tgf" and k: "good_cont a k"
  shows "good_from a (class_entry_step tf tgf env i ix v k)"
proof -
  have g: "good_from m (k v n)" if "a + n \<le> m" for v n m
    using k good_from_mono [OF _ that] by (simp add: good_cont_def)
  have c: "good_cont m (\<lambda>v n. k v (b + n))" if "a + b \<le> m" for b m
    unfolding good_cont_def by (intro allI g) (use that in simp)
  show ?thesis
    unfolding class_entry_step_def Let_def
    by (intro good_rules) (auto split: ns_entry.splits intro!: good_rules good_member_step good_tgfD [OF tgf] g tf c)
qed

lemma good_entries:
  assumes step: "\<And>a ix v k. good_cont a k \<Longrightarrow> good_from a (step ix v k)" and k: "good_cont a k"
  shows "good_from (a + n) (class_entries step ixs v n k)"
proof (induction ixs arbitrary: v n)
  case Nil
  then show ?case using k by (simp add: good_cont_def)
next
  case (Cons ix ixs)
  have "good_cont (a + n) (\<lambda>v' n'. class_entries step ixs v' (n + n') k)"
    using Cons.IH by (simp add: good_cont_def add.assoc)
  then show ?case using step by simp
qed

lemma good_ancestors [good_rules]: "good_from a (class_ancestors ms first)"
proof (induction ms arbitrary: first a)
  case (Cons m ms)
  show ?case by simp (intro conjI impI Cons.IH good_rules)
qed (simp add: good_rules)

lemma good_padding [good_rules]: "good_tf tf \<Longrightarrow> good_from a (force_padding tf env i c v)"
  unfolding force_padding_def Let_def by (intro good_rules good_tfD [of tf])

lemma good_stats [good_rules]: "good_from a (class_stats env i v)"
  unfolding class_stats_def type__fprintf_stats_def Let_def by (intro good_rules)

lemma good_after [good_rules]: "good_tf tf \<Longrightarrow> good_from a (class_after tf env i indent v)"
  unfolding class_after_def by (intro good_rules)

lemma good_class_body [good_rules]:
  assumes "good_tf tf" and "good_tgf tgf"
  shows "good_from a (class_body tf tgf env i indent conf)"
proof -
  have c: "good_cont b (\<lambda>v n. bindP (class_after tf env i indent v) (\<lambda>m st. Inr (n + m, st)))" for b
    unfolding good_cont_def by (intro allI good_rules assms) simp
  show ?thesis
    unfolding class_body_def Let_def
    by (intro good_rules good_entries good_entry_step assms c)
qed

lemma good_class [good_rules]:
  "good_tf tf \<Longrightarrow> good_tgf tgf \<Longrightarrow> good_from a (class__fprintf tf tgf env conf i)"
  unfolding class__fprintf_def Let_def by (intro good_rules)

lemma good_inline [good_rules]:
  "good_tf tf \<Longrightarrow> good_tgf tgf \<Longrightarrow> good_from a (class_inline tf tgf env conf i)"
  unfolding class_inline_def by (intro good_rules)

section \<open>Types and tags\<close>

lemma good_add_count [good_rules]: "good p \<Longrightarrow> b \<le> a \<Longrightarrow> good_from a (add_count b p)"
  unfolding add_count_def by (intro good_rules) simp_all

lemma good_not_found [good_rules]: "good_from a (type_not_found conf ptr name)"
  and good_default [good_rules]: "good_from a (print_default env conf i name)"
  unfolding type_not_found_def print_default_def by (intro good_rules)+

definition good_out :: "(printer \<Rightarrow> printer) \<Rightarrow> bool" where
  "good_out out \<longleftrightarrow> (\<forall>a p. good_from a p \<longrightarrow> good_from a (out p))"

lemma good_type_out: "good_out (type_out expanded)"
proof -
  have "run_all [p, bump_rec j (-1)] = bindP p (\<lambda>n. bindP (bump_rec j (-1)) (\<lambda>m st. Inr (n + m, st)))" for p j
    by (auto simp: run_all.simps bindP_def bump_rec_def nop_def fun_eq_iff split: sum.splits)
  moreover have "good_from a (bindP p (\<lambda>n. bindP (bump_rec j (-1)) (\<lambda>m st. Inr (n + m, st))))" if "good_from a p" for a p j
    using that by (fastforce simp: good_from_def bindP_def bump_rec_def split: sum.splits prod.splits)
  ultimately show ?thesis by (simp add: good_out_def type_out_def split: option.splits)
qed

lemma good_next:
  assumes tf: "good_tf tf" and tgf: "good_tgf tgf" and out: "good_out out"
  shows "acc \<le> a \<Longrightarrow> good_from a (type_next tf tgf env out skip ex so n conf i name ptr acc)"
proof (induction n arbitrary: conf i name ptr acc a)
  case (Suc n)
  have o: "good_from b p \<Longrightarrow> good_from b (out p)" for b p using out by (simp add: good_out_def)
  show ?case
    unfolding type_next.simps Let_def
    by (intro good_rules Suc.IH o tf tgf) (use Suc.prems in simp_all)
qed (simp add: good_rules)

lemma good_expand [good_rules]:
  assumes "good_tf tf" and "good_tgf tgf"
  shows "good_from a (type_expand tf tgf env conf expanded ex so i name)"
proof -
  have o: "good_from b p \<Longrightarrow> good_from b (type_out expanded p)" for b p using good_type_out by (simp add: good_out_def)
  show ?thesis
    unfolding type_expand_def Let_def
    by (intro good_rules) (auto split: followed.splits intro!: good_rules o good_next good_type_out assms)
qed

lemma good_type_body [good_rules]:
  "good_tf tf \<Longrightarrow> good_tgf tgf \<Longrightarrow> good_from a (type_body tf tgf env conf i name)"
  unfolding type_body_def
  by (intro good_rules) (auto split: followed.splits intro!: good_rules)

lemma good_typedef_next:
  "good_tf tf \<Longrightarrow> good_tgf tgf \<Longrightarrow> good_from a (typedef_next tf tgf env n conf j name)"
proof (induction n arbitrary: j a)
  case (Suc n)
  show ?case unfolding typedef_next.simps Let_def by (intro good_rules Suc)
qed (simp add: good_rules)

lemma good_typedef [good_rules]:
  "good_tf tf \<Longrightarrow> good_tgf tgf \<Longrightarrow> good_from a (typedef__fprintf tf tgf env conf t)"
  unfolding typedef__fprintf_def by (intro good_rules good_typedef_next)

lemma good_imported [good_rules]:
  "good_from a (imported_declaration__fprintf env t)" "good_from a (imported_module__fprintf t)"
  unfolding imported_declaration__fprintf_def imported_module__fprintf_def by (intro good_rules)+

lemma good_variable [good_rules]: "good_tf tf \<Longrightarrow> good_from a (variable__fprintf tf conf t)"
  and good_constant [good_rules]: "good_tf tf \<Longrightarrow> good_from a (constant__fprintf tf conf t)"
  by (auto simp: variable__fprintf_def constant__fprintf_def split: tag_body.splits intro!: good_rules good_tfD [of tf])

lemma good_namespace [good_rules]: "good_tgf tgf \<Longrightarrow> good_from a (namespace__fprintf tgf conf t)"
  by (auto simp: namespace__fprintf_def split: tag_body.splits intro!: good_rules good_tgfD [of tgf])

lemma good_tag_body [good_rules]:
  "good_tf tf \<Longrightarrow> good_tgf tgf \<Longrightarrow> good_from a (tag_body__fprintf tf tgf env conf t i)"
  unfolding tag_body__fprintf_def Let_def by (intro good_rules)

lemma good_tag_fprintf_body [good_rules]:
  "good_tf tf \<Longrightarrow> good_tgf tgf \<Longrightarrow> good_from a (tag__fprintf_body tf tgf env conf r)"
  unfolding tag__fprintf_body_def Let_def by (intro good_rules)

lemma good_all:
  "good_tf (type__fprintf n env)" "good_tgf (\<lambda>conf. tag__fprintf_fuel n env (Some conf))"
  "good (tag__fprintf_fuel n env conf r)"
proof -
  have "good_tf (type__fprintf n env) \<and> (\<forall>conf r. good (tag__fprintf_fuel n env conf r))"
  proof (induction n)
    case (Suc n)
    then have g: "good_tf (type__fprintf n env)" "good_tgf (\<lambda>conf. tag__fprintf_fuel n env (Some conf))"
      by (auto simp: good_tgf_def)
    show ?case unfolding type__fprintf.simps tag__fprintf_fuel.simps good_tf_def by (intro conjI allI good_rules g)
  qed (simp add: good_tf_def good_rules)
  then show "good_tf (type__fprintf n env)" "good_tgf (\<lambda>conf. tag__fprintf_fuel n env (Some conf))"
    "good (tag__fprintf_fuel n env conf r)" unfolding good_tgf_def by blast+
qed

section \<open>Properties\<close>


definition sample_env :: print_env where
  "sample_env = \<lparr>pe_fuel = Suc (Suc 0), pe_cacheline = 64, pe_orig_id = (\<lambda>_. 0), pe_decl_file = (\<lambda>_. []), pe_decl_line = (\<lambda>_. 0)\<rparr>"

definition sample_enum :: tag where
  "sample_enum = \<lparr>tg_tag = DW_TAG_enumeration_type, tg_type = 0, tg_body = Type_body
     ((type_t.truncate class_zero)\<lparr>ty_name := Some ''state'', ty_size := 8, ty_nr_members := 2,
        ty_tags := [Enumerator \<lparr>en_name = ''OFF'', en_value = 0\<rparr>, Enumerator \<lparr>en_name = ''ON'', en_value = 1\<rparr>]\<rparr>)\<rparr>"

definition sample_st :: pst where
  "sample_st = \<lparr>ps_out = [], ps_cu = sample_cu [None, Some sample_enum], ps_line = 0, ps_rec = (\<lambda>_. 0)\<rparr>"


end
