(* ===== verification/FprintfSums.thy ===== *)
theory FprintfSums
  imports FprintfCount
begin

text \<open>
  The loop of \<open>__class__fprintf\<close> adds up the bytes and bits of the members and the holes it writes
  comments for.  For a structure whose members are laid out one after the other the sums agree with
  its size, so that the alert at the end is not written.
\<close>

section \<open>Where a printer ends up\<close>

text \<open>
  \<open>leads A Q p\<close>: started with a unit that satisfies \<open>A\<close>, what \<open>p\<close> returns satisfies \<open>Q\<close>.  The
  condition \<open>A\<close> is one that searching structures for holes does not disturb.
\<close>

definition leads :: "(cu \<Rightarrow> bool) \<Rightarrow> (nat \<times> pst \<Rightarrow> bool) \<Rightarrow> printer \<Rightarrow> bool" where
  "leads A Q p \<longleftrightarrow> (\<forall>st r. A (ps_cu st) \<longrightarrow> p st = Inr r \<longrightarrow> Q r)"

definition stable :: "(cu \<Rightarrow> bool) \<Rightarrow> bool" where
  "stable A \<longleftrightarrow> (\<forall>cu cu'. A cu \<longrightarrow> settled cu cu' \<longrightarrow> A cu')"

named_theorems leads_rules \<open>where printers end up\<close>

lemma leads_ask [leads_rules]:
  "(\<And>cu x. A cu \<Longrightarrow> f cu = Inr x \<Longrightarrow> leads A Q (k x)) \<Longrightarrow> leads A Q (ask f k)"
  unfolding leads_def ask_def by (auto split: sum.splits)

lemma leads_bindP [leads_rules]:
  assumes "stable A" and "good p" and "\<And>n. leads A Q (k n)"
  shows "leads A Q (bindP p k)"
  unfolding leads_def
proof (intro allI impI)
  fix st r
  assume a: "A (ps_cu st)" and "bindP p k st = Inr r"
  then obtain n st1 where 1: "p st = Inr (n, st1)" "k n st1 = Inr r"
    by (auto simp: bindP_def split: sum.splits prod.splits)
  have "settled (ps_cu st) (ps_cu st1)" using assms(2) 1(1) by (auto simp: good_from_def)
  then have "A (ps_cu st1)" using assms(1) a by (auto simp: stable_def)
  moreover have "leads A Q (k n)" by (rule assms(3))
  ultimately show "Q r" using 1(2) unfolding leads_def by blast
qed

lemma leads_change [leads_rules]:
  assumes "stable A" and "settles f" and "\<And>x. leads A Q (k x)"
  shows "leads A Q (change f k)"
  unfolding leads_def
proof (intro allI impI)
  fix st r
  assume a: "A (ps_cu st)" and "change f k st = Inr r"
  then obtain x cu where 1: "f (ps_cu st) = Inr (x, cu)" "k x (st\<lparr>ps_cu := cu\<rparr>) = Inr r"
    by (auto simp: change_def split: sum.splits prod.splits)
  have "A (ps_cu (st\<lparr>ps_cu := cu\<rparr>))" using assms(1,2) a 1(1) unfolding stable_def settles_def by auto
  moreover have "leads A Q (k x)" by (rule assms(3))
  ultimately show "Q r" using 1(2) unfolding leads_def by blast
qed

lemma leads_if [leads_rules]: "(b \<Longrightarrow> leads A Q p) \<Longrightarrow> (\<not> b \<Longrightarrow> leads A Q q) \<Longrightarrow> leads A Q (if b then p else q)"
  by simp

section \<open>The sums\<close>

definition tally :: "class_vars \<Rightarrow> int" where
  "tally v = 8 * int (cv_sum_bytes v) + int (cv_sum_bits v) + 8 * int (cv_sum_holes v) + int (cv_sum_bit_holes v)"

text \<open>The sums are kept in 32 bits.\<close>

definition at_bits :: "int \<Rightarrow> class_vars \<Rightarrow> bool" where
  "at_bits b v \<longleftrightarrow> \<not> cf_suppress_comments (cv_conf v) \<and> u32 (tally v) = u32 b"

lemma at_bits_simps [simp]:
  "at_bits b (v\<lparr>cv_last := l\<rparr>) = at_bits b v" "at_bits b (v\<lparr>cv_last_size := z\<rparr>) = at_bits b v"
  "at_bits b (v\<lparr>cv_newline := nn\<rparr>) = at_bits b v" "at_bits b (v\<lparr>cv_access := a\<rparr>) = at_bits b v"
  "at_bits b (v\<lparr>cv_holes := h\<rparr>) = at_bits b v"
  "at_bits b (v\<lparr>cv_newline := nn, cv_conf := (cv_conf v)\<lparr>cf_last_member := x, cf_first_member := y\<rparr>\<rparr>) = at_bits b v"
  "at_bits b (count_alignment c lm pos v) = at_bits b v"
  by (simp_all add: at_bits_def tally_def count_alignment_def Let_def)

lemma u32_eqI: "4294967296 dvd a - b \<Longrightarrow> u32 a = u32 b" and u32_eqD: "u32 a = u32 b \<Longrightarrow> 4294967296 dvd a - b"
  for a b :: int
  by (simp_all add: mod_eq_dvd_iff)

lemma u32_rest: "4294967296 dvd u32 a - a" "4294967296 dvd 8 * u32 a - 8 * a" for a :: int
proof -
  show 1: "4294967296 dvd u32 a - a" by (metis mod_eq_dvd_iff mod_mod_trivial)
  show "4294967296 dvd 8 * u32 a - 8 * a" using dvd_mult [OF 1, of 8] by (simp add: algebra_simps)
qed

lemma at_bits_step:
  assumes "at_bits b v" and "\<not> cf_suppress_comments (cv_conf v')" and "4294967296 dvd tally v' - tally v - d"
  shows "at_bits (b + d) v'"
proof -
  have "4294967296 dvd (tally v - b) + (tally v' - tally v - d)"
    using assms(1) by (intro dvd_add u32_eqD assms(3)) (simp add: at_bits_def)
  then have "4294967296 dvd tally v' - (b + d)" by (simp add: algebra_simps)
  then show ?thesis using assms(2) u32_eqI by (simp add: at_bits_def)
qed

lemma at_bits_holes:
  assumes v: "at_bits b v" and m: "0 \<le> cm_hole m"
  shows "at_bits (b + (8 * cm_hole m + int (cm_bit_hole m))) (snd (after_holes m v))"
proof (rule at_bits_step [OF v])
  have s: "\<not> cf_suppress_comments (cv_conf v)" using v by (simp add: at_bits_def)
  then show "\<not> cf_suppress_comments (cv_conf (snd (after_holes m v)))"
    by (simp add: after_holes_def Let_def)
  have t: "tally (snd (after_holes m v)) = tally v
      + (if cm_bit_hole m \<noteq> 0 then u32 (int (cv_sum_bit_holes v) + int (cm_bit_hole m)) - int (cv_sum_bit_holes v) else 0)
      + (if cm_hole m > 0 then 8 * u32 (int (cv_sum_holes v) + cm_hole m) - 8 * int (cv_sum_holes v) else 0)"
    using s m by (simp add: after_holes_def Let_def tally_def zmod_int)
  show "4294967296 dvd tally (snd (after_holes m v)) - tally v - (8 * cm_hole m + int (cm_bit_hole m))"
    using u32_rest(1) [of "int (cv_sum_bit_holes v) + int (cm_bit_hole m)"]
      u32_rest(2) [of "int (cv_sum_holes v) + cm_hole m"] m
      dvd_add [OF u32_rest(1) [of "int (cv_sum_bit_holes v) + int (cm_bit_hole m)"]
        u32_rest(2) [of "int (cv_sum_holes v) + cm_hole m"]]
    unfolding t by (auto simp: algebra_simps)
qed

lemma at_bits_member:
  assumes v: "at_bits b v"
  shows "at_bits (b + int (member_bits m)) (count_member lm m (cm_byte_size m) v)"
proof (rule at_bits_step [OF v])
  show "\<not> cf_suppress_comments (cv_conf (count_member lm m (cm_byte_size m) v))"
    using v by (simp add: at_bits_def count_member_def Let_def split: option.split)
  have t: "tally (count_member lm m (cm_byte_size m) v) = tally v +
      (if cm_bitfield_size m \<noteq> 0 then u32 (int (cv_sum_bits v) + int (cm_bitfield_size m)) - int (cv_sum_bits v)
       else 8 * u32 (int (cv_sum_bytes v) + int (cm_byte_size m)) - 8 * int (cv_sum_bytes v))"
    by (simp add: count_member_def Let_def tally_def zmod_int split: option.split)
  show "4294967296 dvd tally (count_member lm m (cm_byte_size m) v) - tally v - int (member_bits m)"
    using u32_rest(1) [of "int (cv_sum_bits v) + int (cm_bitfield_size m)"]
      u32_rest(2) [of "int (cv_sum_bytes v) + int (cm_byte_size m)"]
    unfolding t member_bits_def by (auto simp: algebra_simps)
qed

section \<open>The loop over the members\<close>

text \<open>The class at an index has the layout of \<open>c0\<close>, and the types of its members are there.\<close>

definition class_is :: "nat \<Rightarrow> class_t \<Rightarrow> cu \<Rightarrow> bool" where
  "class_is i c0 cu \<longleftrightarrow>
     (\<exists>t c. class_at cu i = Some (t, c) \<and> cl_holes_searched c \<and> layout_of c = layout_of c0) \<and>
     (\<forall>m. Member m \<in> set (ty_tags c0) \<longrightarrow> cu_type cu (cm_type m) \<noteq> Inr None)"

lemma stable_class_is [leads_rules]: "stable (class_is i c0)"
  unfolding stable_def class_is_def
proof (intro allI impI conjI; elim conjE exE)
  fix cu cu' t c
  assume "settled cu cu'" "class_at cu i = Some (t, c)" "cl_holes_searched c" "layout_of c = layout_of c0"
  then show "\<exists>t c. class_at cu' i = Some (t, c) \<and> cl_holes_searched c \<and> layout_of c = layout_of c0"
    using settled_class by metis
next
  fix cu cu' m
  assume "settled cu cu'" "\<forall>m. Member m \<in> set (ty_tags c0) \<longrightarrow> cu_type cu (cm_type m) \<noteq> Inr None"
    "Member m \<in> set (ty_tags c0)"
  then show "cu_type cu' (cm_type m) \<noteq> Inr None" using settled_type by blast
qed

lemma class_is_entry: "class_is i c0 cu \<Longrightarrow> get_entry cu i k = Inr e \<Longrightarrow> e = ty_tags c0 ! k \<and> k < length (ty_tags c0)"
  by (auto simp: class_is_def get_entry_def layout_of_def get_class_at [symmetric] split: if_splits sum.splits prod.splits)

lemma class_is_member:
  "class_is i c0 cu \<Longrightarrow> get_member cu i k = Inr m \<Longrightarrow> ty_tags c0 ! k = Member m \<and> k < length (ty_tags c0)"
  using class_is_entry by (fastforce simp: get_member_def split: sum.splits ns_entry.splits)

lemma class_is_type: "class_is i c0 cu \<Longrightarrow> Member m \<in> set (ty_tags c0) \<Longrightarrow> cu_type cu (cm_type m) \<noteq> Inr None"
  by (auto simp: class_is_def)

lemma leads_before:
  assumes m: "Member pos \<in> set (ty_tags c0)" and tf: "good_tf tf" and b: "at_bits b v"
    and k: "\<And>v' n. at_bits b v' \<Longrightarrow> leads (class_is i c0) Q (k False v' n)"
  shows "leads (class_is i c0) Q (before_member tf lm pos v k)"
proof -
  have [simp]: "\<not> cf_suppress_comments (cv_conf v)" using b by (simp add: at_bits_def)
  show ?thesis
    unfolding before_member_def Let_def
    using b class_is_type [OF _ m]
    by (auto split: option.split intro!: leads_rules good_rules tf k)
qed

lemma leads_member_holes:
  assumes b: "at_bits b v" and k: "\<And>v' n. at_bits b v' \<Longrightarrow> leads (class_is i c0) Q (k v' n)"
  shows "leads (class_is i c0) Q (class__fprintf_member_type_holes env conf j v k)"
  unfolding class__fprintf_member_type_holes_def Let_def
  using b by (auto intro!: leads_rules good_rules settles_member_holes k split: prod.split)

lemma leads_put [leads_rules]:
  "stable A \<Longrightarrow> (\<And>n. leads A Q (k n)) \<Longrightarrow> leads A Q (bindP (put s) k)"
  by (intro leads_bindP good_put)

lemma leads_step:
  assumes ix: "ty_tags c0 ! ix = Member m0" and plain: "plain_entry (Member m0)" and len: "ix < length (ty_tags c0)"
    and tf: "good_tf tf" and b: "at_bits b v"
    and k: "\<And>v' n. at_bits (b + entry_bits (Member m0)) v' \<Longrightarrow> leads (class_is i c0) Q (k v' n)"
  shows "leads (class_is i c0) Q (class_member_step tf env i ix v k)"
proof -
  have m0: "cm_tag m0 = DW_TAG_member" "\<not> cm_is_static m0" "0 \<le> cm_hole m0" using plain by (auto simp: plain_entry_def)
  have mem: "Member m0 \<in> set (ty_tags c0)" using ix len by (metis nth_mem)
  have e: "entry_bits (Member m0) = 8 * cm_hole m0 + int (cm_bit_hole m0) + int (member_bits m0)"
    using m0 by (simp add: entry_bits_def)
  have pos: "p = m0" if "class_is i c0 cu" "get_member cu i ix = Inr p" for cu p
    using class_is_member [OF that] ix by simp
  have fin: "leads (class_is i c0) Q (case x of (pos, lastm) \<Rightarrow> case after_holes pos v2 of (s, v3) \<Rightarrow>
        bindP (put s) (\<lambda>n5. k ((count_member lastm pos (cm_byte_size m0) v3)\<lparr>cv_last := Some ix\<rparr>) (f n5)))"
    if v2: "at_bits b v2" and cu: "class_is i c0 cu"
      and x: "bindE (get_member cu i ix) (\<lambda>pos. bindE (get_last cu i v) (\<lambda>lastm. Inr (pos, lastm))) = Inr x"
    for v2 cu x and f :: "nat \<Rightarrow> nat"
  proof -
    obtain lm where x: "x = (m0, lm)" using x pos [OF cu] by (auto split: sum.splits)
    obtain s v3 where a: "after_holes m0 v2 = (s, v3)" by (cases "after_holes m0 v2")
    have "at_bits (b + entry_bits (Member m0)) (count_member lm m0 (cm_byte_size m0) v3)"
      using at_bits_member [OF at_bits_holes [OF v2 m0(3)], of m0 lm] by (simp add: a e add.assoc)
    then show ?thesis unfolding x prod.case a by (intro leads_rules k) simp
  qed
  have sz: "(if cm_tag m0 = DW_TAG_inheritance \<and> h then z else cm_byte_size m0) = cm_byte_size m0" for h z
    by (simp add: m0)
  show ?thesis
    unfolding class_member_step_def Let_def
  proof (rule leads_ask, goal_cases)
    case (1 cu x)
    then obtain c lm where x: "x = (c, m0, lm)" using pos by (auto split: sum.splits prod.splits)
    show ?case
      unfolding x prod.case sz
    proof (rule leads_before [OF mem tf, of b], goal_cases)
      case (2 v' n)
      show ?case
        unfolding if_False
      proof (intro leads_put leads_ask stable_class_is, goal_cases)
        case (1 n2 cu' pt)
        then obtain t where pt: "pt = Some t" using class_is_type [OF _ mem] by (cases pt) auto
        show ?case
          unfolding pt option.case
          by (intro leads_rules good_rules tf leads_member_holes [of b] fin) (simp_all add: 2)
      qed
    qed (simp add: b)
  qed
qed

lemma leads_entry:
  assumes len: "ix < length (ty_tags c0)" and plain: "plain_entry (ty_tags c0 ! ix)"
    and tf: "good_tf tf" and b: "at_bits b v"
    and k: "\<And>v' n. at_bits (b + entry_bits (ty_tags c0 ! ix)) v' \<Longrightarrow> leads (class_is i c0) Q (k v' n)"
  shows "leads (class_is i c0) Q (class_entry_step tf tgf env i ix v k)"
proof -
  obtain m where m: "ty_tags c0 ! ix = Member m" using plain by (auto simp: plain_entry_def split: ns_entry.splits)
  have tag: "cm_tag m = DW_TAG_member" using plain by (simp add: m plain_entry_def)
  show ?thesis
    unfolding class_entry_step_def Let_def
  proof (rule leads_ask, goal_cases)
    case (1 cu x)
    then obtain a where x: "x = (Member m, a)"
      using class_is_entry [OF 1(1)] m by (auto split: sum.splits)
    show ?case
      unfolding x prod.case
      by (auto simp: tag b m intro!: leads_rules leads_step [OF m plain [unfolded m] len tf, of b] k)
  qed
qed

lemma leads_entries:
  assumes plain: "list_all plain_entry (ty_tags c0)" and tf: "good_tf tf"
    and K: "\<And>v n. at_bits (p + bits_upto (ty_tags c0) (length (ty_tags c0))) v \<Longrightarrow> leads (class_is i c0) Q (K v n)"
  shows "ix \<le> length (ty_tags c0) \<Longrightarrow> at_bits (p + bits_upto (ty_tags c0) ix) v \<Longrightarrow>
    leads (class_is i c0) Q (class_entries (class_entry_step tf tgf env i) [ix..<length (ty_tags c0)] v n K)"
proof (induction "length (ty_tags c0) - ix" arbitrary: ix v n)
  case 0
  then show ?case using K by simp
next
  case (Suc d)
  then have ix: "ix < length (ty_tags c0)" by simp
  then have upt: "[ix..<length (ty_tags c0)] = ix # [Suc ix..<length (ty_tags c0)]" by (simp add: upt_rec)
  have "plain_entry (ty_tags c0 ! ix)" using plain ix by (simp add: list_all_length)
  from leads_entry [OF ix this tf Suc.prems(2)] Suc.hyps(1) [of "Suc ix"] Suc.hyps(2) ix show ?case
    unfolding upt class_entries.simps by (simp add: bits_upto_Suc add.assoc)
qed

lemma at_bits_init:
  "\<not> cf_suppress_comments conf \<Longrightarrow> layout_of c = layout_of c0 \<Longrightarrow> at_bits (pre_bits c0) (snd (class_vars_init conf c))"
  by (auto simp: at_bits_def class_vars_init_def Let_def tally_def pre_bits_def layout_of_def)

lemma leads_body:
  assumes plain: "list_all plain_entry (ty_tags c0)" and tf: "good_tf tf" and comments: "\<not> cf_suppress_comments conf"
    and K: "\<And>v n. at_bits (pre_bits c0 + bits_upto (ty_tags c0) (length (ty_tags c0))) v \<Longrightarrow>
      leads (class_is i c0) Q (bindP (class_after tf env i indent v) (\<lambda>m st. Inr (n + m, st)))"
  shows "leads (class_is i c0) Q (class_body tf tgf env i indent conf)"
  unfolding class_body_def
proof (rule leads_ask, goal_cases)
  case (1 cu x)
  obtain t c where x: "x = (t, c)" by (cases x)
  have c: "layout_of c = layout_of c0" "length (ty_tags c) = length (ty_tags c0)"
    using 1 by (auto simp: x class_is_def get_class_at layout_of_def)
  obtain s v where v: "class_vars_init conf c = (s, v)" by (cases "class_vars_init conf c")
  have "at_bits (pre_bits c0 + bits_upto (ty_tags c0) 0) v"
    using at_bits_init [OF comments c(1)] by (simp add: v bits_upto_def)
  then show ?case
    unfolding x prod.case v Let_def c(2) by (intro leads_rules leads_entries [OF plain tf, of "pre_bits c0"] K) simp_all
qed

lemma no_alert:
  assumes v: "at_bits (8 * int (ty_size c0) - 8 * int (cl_padding c0) - int (cl_bit_padding c0)) v"
    and c: "layout_of c = layout_of c0"
  shows "size_diff c v = 0 \<and> brain_fart_str tb c v = []"
proof -
  let ?b = "8 * int (ty_size c0) - 8 * int (cl_padding c0) - int (cl_bit_padding c0)"
  define d where "d = int (ty_size c) * 8 - (int (cv_sum_bytes v) * 8 + int (cv_sum_bits v) + int (cv_sum_holes v) * 8 +
    int (cv_sum_bit_holes v) + int (cl_padding c) * 8 + int (cl_bit_padding c))"
  have d: "d = - (tally v - ?b)" using c by (simp add: d_def tally_def layout_of_def)
  have "4294967296 dvd tally v - ?b" using v by (intro u32_eqD) (simp add: at_bits_def)
  then have "4294967296 dvd d" unfolding d by (rule dvd_minus_iff [THEN iffD2])
  then obtain q where "d = 4294967296 * q" ..
  then have "s32 d = 0" by (simp add: s32_def)
  then show ?thesis by (simp add: brain_fart_str_def size_diff_def d_def)
qed


section \<open>A sample\<close>

definition sums_class :: class_t where
  "sums_class = class_zero\<lparr>ty_size := 8, ty_nr_members := 1, ty_tags := [Member (sample_member ''a'' 0 4 1)]\<rparr>"
definition sums_env :: print_env where
  "sums_env = \<lparr>pe_fuel = Suc (Suc 0), pe_cacheline = 64, pe_orig_id = (\<lambda>_. 0), pe_decl_file = (\<lambda>_. []), pe_decl_line = (\<lambda>_. 0)\<rparr>"
definition sums_cu :: cu where
  "sums_cu = sample_cu [None, Some (sample_base ''int'' 32),
     Some \<lparr>tg_tag = DW_TAG_structure_type, tg_type = 0, tg_body = Class_body (class__find_holes DW_TAG_structure_type sums_class)\<rparr>]"
definition sums_st :: pst where
  "sums_st = \<lparr>ps_out = [], ps_cu = sums_cu, ps_line = 0, ps_rec = (\<lambda>_. 0)\<rparr>"

lemma sums_cu_type:
  "cu_type sums_cu i = Inr (if i = 1 then Some (sample_base ''int'' 32) else if i = 2 then
    Some \<lparr>tg_tag = DW_TAG_structure_type, tg_type = 0, tg_body = Class_body (class__find_holes DW_TAG_structure_type sums_class)\<rparr> else None)"
proof -
  have "cu_inv sums_cu" unfolding sums_cu_def by (rule sample_cu_inv) simp
  then show ?thesis by (simp add: sums_cu_def nth_Cons' less_Suc_eq numeral_2_eq_2)
qed

lemma sums_found: "class__find_holes DW_TAG_structure_type sums_class =
   class_zero\<lparr>ty_size := 8, ty_nr_members := 1, ty_tags := [Member (sample_member ''a'' 0 4 1)], cl_padding := 4, cl_holes_searched := True\<rparr>"
  by (simp add: class__find_holes_def sums_class_def class_zero_def sample_member_def Let_def holes_gap_def member_bit_end_def set_hole_def diff32_def s32_def tag_defs)

lemma sums_get_class: "get_class sums_cu 2 = Inr (\<lparr>tg_tag = DW_TAG_structure_type, tg_type = 0, tg_body = Class_body (class__find_holes DW_TAG_structure_type sums_class)\<rparr>,
   class__find_holes DW_TAG_structure_type sums_class)"
  by (simp add: get_class_at class_at_def sums_cu_type)


lemma sums_tag: "tg_tag (sample_base nm n) = DW_TAG_base_type" by (simp add: sample_base_def)
lemmas sums_simps = ask_def bindP_def run_all.simps put_def nop_def get_line_def add_count_def type_out_def

lemma sums_name: "print_name sums_env conf 1 128 sums_cu = Inr ''int''"
  by (simp add: print_name_def sums_cu_type sums_env_def tag_name_body_def tag__base_type_def sample_base_def base_type__name_def strncpy_bf_def Let_def)
lemma sums_int: 
  assumes "ps_cu st = sums_cu" "\<not> cf_expand_pointers conf" "\<not> cf_expand_types conf"
  shows "type__fprintf (Suc 0) sums_env conf (Suc 0) (Some ''a'') st = put (fmt_ls (cf_type_spacing conf) ''int'' @ '' '' @ ''a'') st"
proof -
  have f: "pe_fuel sums_env = Suc (Suc 0)" by (simp add: sums_env_def)
  show ?thesis using assms 
    by (simp add: sums_simps type_body_def type_expand_def Let_def f print_default_def sums_cu_type is_aggregate_def tag_defs sums_tag sums_name [simplified] put_def str_or_null_def)
qed
declare type__fprintf.simps [simp del]
lemma sums_body:
  assumes "ps_cu st = sums_cu" "ps_line st = 0"
  shows "\<exists>m st'. class_body (type__fprintf 1 sums_env) (\<lambda>_ _. nop) sums_env 2 0 ((conf_fprintf__defaults 64)\<lparr>cf_cachelinep := True, cf_indent := 1, cf_emit_stats := False\<rparr>) st = Inr (m, st')"
   apply (simp add: assms sums_simps class_body_def sums_get_class Let_def class_vars_init_def sums_found class_zero_def conf_fprintf__defaults_def)
   apply (simp add: assms sums_simps class_entry_step_def get_entry_def sums_get_class sums_found class_zero_def sample_member_def tag__accessibility_def
      class_member_step_def get_member_def get_last_def Let_def before_member_def count_alignment_def sums_cu_type)
   apply (simp add: assms class_member__fprintf_def sums_simps Let_def sums_cu_type is_aggregate_def tag_defs sums_tag sums_int
      class__fprintf_cacheline_boundary_def conf_fprintf__cacheline_size_def)
   apply (simp add: assms sums_simps after_holes_def count_member_def class_after_def force_padding_def sums_get_class sums_found class_zero_def Let_def
      get_member_def get_entry_def get_last_def sample_member_def uncounted_def class__vtable_fprintf_def)
  done


end
