(* ===== verification/Values.thy ===== *)
theory Values
  imports Names Bytes Holes
begin

text \<open>
  Printing raw data as structures (\<open>pahole.c\<close>): integers, bitfields and enumerators in memory, arrays,
  structures and unions.  Memory is a list of bytes from a pointer on, on a little-endian host; a type
  is given by the number of its unit and its index there, a member or an enumerator by its place in
  the list of its type.  What \<open>--class_name\<close> arguments attach to a type is kept beside it.
\<close>

unbundle bit_operations_syntax

type_synonym type_ref = "nat \<times> nat"

record pretty =
  pr_sizeof_member :: "nat option"
  pr_type_member :: "nat option"
  pr_type_enum :: "type_ref list"
  pr_filter :: "(nat \<times> 64 word) option"

text \<open>\<open>wo_real\<close> is the type an enumerator was found to stand for.\<close>

record world =
  wo_cus :: "cu list"
  wo_pretty :: "type_ref \<Rightarrow> pretty"
  wo_real :: "type_ref \<times> nat \<Rightarrow> type_ref option"

definition world_cu :: "world \<Rightarrow> nat \<Rightarrow> fault + cu" where
  "world_cu w u = (if u < length (wo_cus w) then Inr (wo_cus w ! u) else Inl Out_Of_Bounds)"

definition world_type :: "world \<Rightarrow> type_ref \<Rightarrow> fault + tag" where
  "world_type w r =
     bindE (world_cu w (fst r)) (\<lambda>cu. bindE (cu_type cu (snd r)) (\<lambda>t.
       case t of None \<Rightarrow> Inl Null_Deref | Some t \<Rightarrow> Inr t))"

text \<open>The members and enumerators of a type with their places.\<close>

definition members_at :: "ns_entry list \<Rightarrow> (nat \<times> class_member) list" where
  "members_at es = concat (map (\<lambda>k. map (Pair k) (ns_member (es ! k))) [0..<length es])"

definition enumerators_at :: "ns_entry list \<Rightarrow> (nat \<times> enumerator) list" where
  "enumerators_at es =
     concat (map (\<lambda>k. case es ! k of Enumerator en \<Rightarrow> [(k, en)] | _ \<Rightarrow> []) [0..<length es])"

definition find_member_at :: "'a type_t_scheme \<Rightarrow> string \<Rightarrow> nat option" where
  "find_member_at ty nm =
     map_option fst (find (\<lambda>(k, m). cm_tag m = DW_TAG_member \<and> name_is (cm_name m) nm) (members_at (ty_tags ty)))"

definition member_at :: "'a type_t_scheme \<Rightarrow> nat \<Rightarrow> fault + class_member" where
  "member_at ty k =
     (if k < length (ty_tags ty) then case ty_tags ty ! k of Member m \<Rightarrow> Inr m | _ \<Rightarrow> Inl Out_Of_Bounds
      else Inl Out_Of_Bounds)"

section \<open>Integers in memory\<close>

definition load8 :: "byte list \<Rightarrow> nat \<Rightarrow> fault + byte" where
  "load8 bs p = (if p < length bs then Inr (bs ! p) else Inl Out_Of_Bounds)"

definition load64 :: "byte list \<Rightarrow> nat \<Rightarrow> fault + 64 word" where
  "load64 bs p =
     bindE (load32 bs p) (\<lambda>lo. bindE (load32 bs (p + 4)) (\<lambda>hi. Inr (ucast lo OR push_bit 32 (ucast hi))))"

text \<open>Integers of every size are read as signed and widened to 64 bits.\<close>

definition base_type__value :: "byte list \<Rightarrow> int \<Rightarrow> fault + 64 word" where
  "base_type__value instance sz =
     (if sz = 4 then map_sum id scast (load32 instance 0)
      else if sz = 8 then load64 instance 0
      else if sz = 1 then map_sum id scast (load8 instance 0)
      else if sz = 2 then map_sum id scast (load16 instance 0)
      else Inr 0)"

definition fprintf__value :: "bool \<Rightarrow> 64 word \<Rightarrow> string" where
  "fprintf__value hex_fmt v = (if hex_fmt then alt_hex (unat v) else sdec (sint v))"

definition base_type__fprintf_value :: "bool \<Rightarrow> byte list \<Rightarrow> int \<Rightarrow> fault + string" where
  "base_type__fprintf_value hex_fmt instance sz = map_sum id (fprintf__value hex_fmt) (base_type__value instance sz)"

text \<open>The mask of a bitfield is built one bit at a time.\<close>

fun mask_loop :: "nat \<Rightarrow> 64 word \<Rightarrow> 64 word" where
  "mask_loop 0 mk = mk"
| "mask_loop (Suc bits) mk = mask_loop bits (if bits \<noteq> 0 then push_bit 1 (mk OR 1) else mk OR 1)"

definition class_member__bitfield_value :: "class_member \<Rightarrow> byte list \<Rightarrow> fault + 64 word" where
  "class_member__bitfield_value m instance =
     bindE (base_type__value instance (s32 (int (cm_byte_size m)))) (\<lambda>v.
       if cm_bitfield_offset m < 0 \<or> 64 \<le> cm_bitfield_offset m then Inl Undefined_Shift
       else
         let ofs = nat (cm_bitfield_offset m); mk = push_bit ofs (mask_loop (cm_bitfield_size m) 0)
         in Inr (drop_bit ofs (v AND mk)))"

definition class_member__fprintf_bitfield_value :: "bool \<Rightarrow> class_member \<Rightarrow> byte list \<Rightarrow> fault + string" where
  "class_member__fprintf_bitfield_value hex_fmt m instance =
     map_sum id (fprintf__value hex_fmt) (class_member__bitfield_value m instance)"

section \<open>Enumerators\<close>

definition enumeration__lookup_entry_from_value :: "type_t \<Rightarrow> 64 word \<Rightarrow> (nat \<times> enumerator) option" where
  "enumeration__lookup_entry_from_value ty v =
     find (\<lambda>(k, en). word_of_nat (en_value en) = v) (enumerators_at (ty_tags ty))"

definition enumeration__lookup_value :: "type_t \<Rightarrow> 64 word \<Rightarrow> string option" where
  "enumeration__lookup_value ty v =
     map_option (en_name \<circ> snd) (find (\<lambda>(k, en). word_of_nat (en_value en) = v) (enumerators_at (ty_tags ty)))"

text \<open>The first enumeration of a list for which a search finds something.\<close>

fun enumerations__first :: "world \<Rightarrow> (type_t \<Rightarrow> fault + 'a option) \<Rightarrow> type_ref list \<Rightarrow> fault + (type_ref \<times> 'a) option" where
  "enumerations__first w f [] = Inr None"
| "enumerations__first w f (r # rs) =
     bindE (world_type w r) (\<lambda>t. bindE (tag__type t) (\<lambda>ty. bindE (f ty) (\<lambda>x.
       case x of Some y \<Rightarrow> Inr (Some (r, y)) | None \<Rightarrow> enumerations__first w f rs)))"

definition enumerations__lookup_value :: "world \<Rightarrow> type_ref list \<Rightarrow> 64 word \<Rightarrow> fault + string option" where
  "enumerations__lookup_value w rs v =
     map_sum id (map_option snd) (enumerations__first w (\<lambda>ty. Inr (enumeration__lookup_value ty v)) rs)"

definition enumerations__lookup_entry_from_value ::
  "world \<Rightarrow> type_ref list \<Rightarrow> 64 word \<Rightarrow> fault + (type_ref \<times> nat \<times> enumerator) option" where
  "enumerations__lookup_entry_from_value w rs v =
     enumerations__first w (\<lambda>ty. Inr (enumeration__lookup_entry_from_value ty v)) rs"

text \<open>A name is compared as a whole and without the prefix all enumerators have in common.\<close>

fun find_enumerator :: "nat \<Rightarrow> string \<Rightarrow> (nat \<times> enumerator) list \<Rightarrow> fault + (nat \<times> enumerator) option" where
  "find_enumerator plen nm [] = Inr None"
| "find_enumerator plen nm ((k, en) # es) =
     (if c_strcmp (en_name en) nm = 0 then Inr (Some (k, en))
      else if plen = 0 then find_enumerator plen nm es
      else if length (en_name en) < plen then Inl Out_Of_Bounds
      else if c_strcmp (drop plen (en_name en)) nm = 0 then Inr (Some (k, en))
      else find_enumerator plen nm es)"

definition enumeration__find_enumerator :: "type_t \<Rightarrow> string \<Rightarrow> fault + (nat \<times> enumerator) option" where
  "enumeration__find_enumerator ty nm = find_enumerator (ty_member_prefix_len ty) nm (enumerators_at (ty_tags ty))"

definition enumerations__find_enumerator ::
  "world \<Rightarrow> type_ref list \<Rightarrow> string \<Rightarrow> fault + (type_ref \<times> nat \<times> enumerator) option" where
  "enumerations__find_enumerator w rs nm = enumerations__first w (\<lambda>ty. enumeration__find_enumerator ty nm) rs"

text \<open>
  \<open>None\<close> is \<open>INT32_MAX\<close>.  The variable that is copied into \<open>member_prefix\<close> is not the one of the
  loop but an outer one of the same name, the empty string.
\<close>

fun common_prefix_loop :: "string option \<Rightarrow> nat option \<Rightarrow> string list \<Rightarrow> nat option" where
  "common_prefix_loop prev common [] = common"
| "common_prefix_loop prev common (nm # nms) =
     common_prefix_loop (Some nm)
       (case prev of
          None \<Rightarrow> common
        | Some p \<Rightarrow> (let c = strcommon nm p in
            case common of None \<Rightarrow> Some c | Some d \<Rightarrow> if d > c then Some c else Some d)) nms"

definition enumeration__calc_prefix :: "heap_env \<Rightarrow> type_t \<Rightarrow> type_t" where
  "enumeration__calc_prefix h ty =
     (if ty_member_prefix ty \<noteq> None then ty
      else
        let ty1 = ty\<lparr>ty_member_prefix := None, ty_member_prefix_len := 0\<rparr>
        in case common_prefix_loop None None (map (en_name \<circ> snd) (enumerators_at (ty_tags ty))) of
             None \<Rightarrow> ty1
           | Some c \<Rightarrow>
               if avail h 1 then ty1\<lparr>ty_member_prefix := Some '''', ty_member_prefix_len := u16 c\<rparr> else ty1)"

definition set_type_body :: "world \<Rightarrow> type_ref \<Rightarrow> tag \<Rightarrow> type_t \<Rightarrow> world" where
  "set_type_body w r t ty =
     w\<lparr>wo_cus := (wo_cus w)[fst r := cu_set_type (wo_cus w ! fst r) (snd r) (t\<lparr>tg_body := Type_body ty\<rparr>)]\<rparr>"

fun enumerations__calc_prefix :: "heap_env \<Rightarrow> type_ref list \<Rightarrow> world \<Rightarrow> fault + world" where
  "enumerations__calc_prefix h [] w = Inr w"
| "enumerations__calc_prefix h (r # rs) w =
     bindE (world_type w r) (\<lambda>t. bindE (tag__type t) (\<lambda>ty.
       enumerations__calc_prefix h rs (set_type_body w r t (enumeration__calc_prefix h ty))))"

definition base_type__fprintf_enum_value ::
  "bool \<Rightarrow> world \<Rightarrow> type_ref list \<Rightarrow> byte list \<Rightarrow> int \<Rightarrow> fault + string" where
  "base_type__fprintf_enum_value hex_fmt w rs instance sz =
     bindE (base_type__value instance sz) (\<lambda>v. bindE (enumerations__lookup_value w rs v) (\<lambda>e.
       case e of Some s \<Rightarrow> Inr s | None \<Rightarrow> Inr (fprintf__value hex_fmt v)))"

section \<open>Arrays and strings\<close>

definition instance__fprintf_hexdump_value :: "byte list \<Rightarrow> int \<Rightarrow> fault + string" where
  "instance__fprintf_hexdump_value instance sz =
     (if length instance < nat sz then Inl Out_Of_Bounds
      else Inr (drop 1 (concat (map (\<lambda>b. '' 0x'' @ [digit_char (unat b div 16), digit_char (unat b mod 16)])
        (take (nat sz) instance)))))"

text \<open>\<open>%.*s\<close>: at most \<open>sz\<close> characters, all up to the NUL when \<open>sz\<close> is negative.\<close>

definition string__fprintf_value :: "byte list \<Rightarrow> int \<Rightarrow> fault + string" where
  "string__fprintf_value instance sz =
     (let bs = (if sz < 0 then instance else take (nat sz) instance)
      in if 0 \<notin> set bs \<and> (sz < 0 \<or> length bs < nat sz) then Inl Out_Of_Bounds
         else Inr ([CHR 0x22] @ map (\<lambda>b. char_of (unat b)) (takeWhile (\<lambda>b. b \<noteq> 0) bs) @ [CHR 0x22]))"

fun base_values :: "bool \<Rightarrow> nat \<Rightarrow> nat \<Rightarrow> byte list \<Rightarrow> bool \<Rightarrow> fault + string" where
  "base_values hex_fmt 0 entry contents first = Inr []"
| "base_values hex_fmt (Suc n) entry contents first =
     bindE (base_type__fprintf_value hex_fmt contents (int entry)) (\<lambda>s.
     bindE (base_values hex_fmt n entry (drop entry contents) False) (\<lambda>rest.
       Inr ((if first then [] else '', '') @ s @ rest)))"

definition array__fprintf_base_type_value :: "nat \<Rightarrow> bool \<Rightarrow> cu \<Rightarrow> tag \<Rightarrow> byte list \<Rightarrow> int \<Rightarrow> fault + string" where
  "array__fprintf_base_type_value n hex_fmt cu t instance sz =
     bindE (tag__array_type t) (\<lambda>ar.
     bindE (cu_type cu (tg_type t)) (\<lambda>at.
       if at_dimensions ar \<noteq> 1 then instance__fprintf_hexdump_value instance sz
       else
         bindE (case at of
                  None \<Rightarrow> Inl Null_Deref
                | Some e \<Rightarrow>
                    if tag__is_typedef (tg_tag e) then
                      bindE (tag__follow_typedef n cu (tg_type t)) (\<lambda>r.
                        case r of None \<Rightarrow> Inl Null_Deref | Some (_, e') \<Rightarrow> Inr e')
                    else Inr e) (\<lambda>e.
         bindE (base_type__size e) (\<lambda>entry.
         bindE (case at_nr_entries ar of
                  None \<Rightarrow> Inl Null_Deref
                | Some [] \<Rightarrow> Inl Out_Of_Bounds
                | Some (k # _) \<Rightarrow>
                    if k = 0 then if entry = 0 then Inl Div_By_Zero else Inr (nat (sz div int entry))
                    else Inr (nat (s32 (int k)))) (\<lambda>nr.
         bindE (base_values hex_fmt nr entry instance True) (\<lambda>s. Inr (''{ '' @ s @ '' }'')))))))"

definition array__fprintf_value :: "nat \<Rightarrow> bool \<Rightarrow> cu \<Rightarrow> tag \<Rightarrow> byte list \<Rightarrow> int \<Rightarrow> fault + string" where
  "array__fprintf_value n hex_fmt cu t instance sz =
     bindE (cu_type cu (tg_type t)) (\<lambda>at.
     bindE (tag_name_fuel n (conf_fprintf__defaults 64) cu at 1024) (\<lambda>nm.
       if c_strcmp nm ''char'' = 0 then string__fprintf_value instance sz
       else case at of
         None \<Rightarrow> Inl Null_Deref
       | Some e \<Rightarrow>
           bindE (tag__is_base_type n cu e) (\<lambda>base.
             if base then array__fprintf_base_type_value n hex_fmt cu t instance sz
             else instance__fprintf_hexdump_value instance sz)))"

section \<open>Structures\<close>

text \<open>\<open>rec\<close> prints the structure or union a member has as its type.\<close>

definition member__fprintf_value ::
  "(nat \<Rightarrow> byte list \<Rightarrow> int \<Rightarrow> int \<Rightarrow> bool \<Rightarrow> fault + string) \<Rightarrow> nat \<Rightarrow> bool \<Rightarrow> world \<Rightarrow> cu \<Rightarrow> pretty \<Rightarrow> nat \<Rightarrow>
    byte list \<Rightarrow> int \<Rightarrow> int \<Rightarrow> nat \<times> class_member \<Rightarrow> fault + string" where
  "member__fprintf_value rec n hex_fmt w cu p nr_tags instance sz indent km =
     (let (k, m) = km; contents = drop (cm_byte_offset m) instance; msz = s32 (int (cm_byte_size m));
          head = (case cm_name m of
                    None \<Rightarrow> [] | Some s \<Rightarrow> char_of (10 :: nat) # ind indent @ [char_of (9 :: nat)] @ ''.'' @ s @ '' = '');
          print = (\<lambda>r. bindE r (\<lambda>s. Inr (head @ s @ '','')))
      in if pr_type_member p = Some k \<and> pr_type_enum p \<noteq> [] then
           print (base_type__fprintf_enum_value hex_fmt w (pr_type_enum p) contents msz)
         else if cm_bitfield_size m \<noteq> 0 then print (class_member__fprintf_bitfield_value hex_fmt m contents)
         else
           bindE (cu_type cu (cm_type m)) (\<lambda>mt.
             case mt of
               None \<Rightarrow> Inl Null_Deref
             | Some t \<Rightarrow>
                 bindE (tag__is_base_type n cu t) (\<lambda>base.
                 bindE (tag__is_array n cu t) (\<lambda>array.
                   if base then print (base_type__fprintf_value hex_fmt contents msz)
                   else if array then
                     print (array__fprintf_value n hex_fmt cu t contents
                       (if msz = 0 \<and> Suc k = nr_tags then s32 (sz - int (cm_byte_offset m)) else msz))
                   else if tag__is_struct (tg_tag t) then print (rec (cm_type m) contents msz (indent + 1) True)
                   else if tag__is_union (tg_tag t) then
                     if cm_name m = None then rec (cm_type m) contents msz indent False
                     else print (rec (cm_type m) contents msz (indent + 1) True)
                   else print (instance__fprintf_hexdump_value contents msz)))))"

fun concat_e :: "('a \<Rightarrow> fault + 'b list) \<Rightarrow> 'a list \<Rightarrow> fault + 'b list" where
  "concat_e f [] = Inr []"
| "concat_e f (x # xs) = bindE (f x) (\<lambda>s. bindE (concat_e f xs) (\<lambda>rest. Inr (s @ rest)))"

fun class_fprintf_value_priv ::
  "nat \<Rightarrow> bool \<Rightarrow> world \<Rightarrow> nat \<Rightarrow> nat \<Rightarrow> byte list \<Rightarrow> int \<Rightarrow> int \<Rightarrow> bool \<Rightarrow> fault + string" where
  "class_fprintf_value_priv 0 hex_fmt w u i instance sz indent brackets = Inl Out_Of_Fuel"
| "class_fprintf_value_priv (Suc n) hex_fmt w u i instance sz indent brackets =
     bindE (world_cu w u) (\<lambda>cu. bindE (world_type w (u, i)) (\<lambda>t. bindE (tag__type t) (\<lambda>ty.
     bindE (concat_e (member__fprintf_value (class_fprintf_value_priv n hex_fmt w u) n hex_fmt w cu (wo_pretty w (u, i))
              (length (ty_tags ty)) instance sz indent) (members_at (ty_tags ty))) (\<lambda>s.
       Inr ((if brackets then ''{'' else []) @ s @
         (if brackets then char_of (10 :: nat) # ind indent @ ''}'' else []))))))"

definition class__fprintf_value :: "nat \<Rightarrow> bool \<Rightarrow> world \<Rightarrow> type_ref \<Rightarrow> byte list \<Rightarrow> int \<Rightarrow> int \<Rightarrow> fault + string" where
  "class__fprintf_value n hex_fmt w r instance sz indent =
     class_fprintf_value_priv n hex_fmt w (fst r) (snd r) instance sz indent True"

definition tag__fprintf_value :: "nat \<Rightarrow> bool \<Rightarrow> world \<Rightarrow> type_ref \<Rightarrow> byte list \<Rightarrow> int \<Rightarrow> fault + string" where
  "tag__fprintf_value n hex_fmt w r instance sz =
     bindE (world_type w r) (\<lambda>t.
       if tag__is_struct (tg_tag t) then class__fprintf_value n hex_fmt w r instance sz 0
       else instance__fprintf_hexdump_value instance sz)"

section \<open>Bits in memory\<close>

text \<open>Bit \<open>k\<close> of memory, counted from the lowest bit of its first byte.\<close>

definition mem_bit :: "byte list \<Rightarrow> nat \<Rightarrow> bool" where
  "mem_bit bs k \<longleftrightarrow> bit (bs ! (k div 8)) (k mod 8)"

lemma byte_no_bit [simp]: "8 \<le> n \<Longrightarrow> \<not> bit (b :: byte) n"
  by (auto dest: bit_imp_le_length)

lemma bit_load16: "load16 bs 0 = Inr w \<Longrightarrow> k < 16 \<Longrightarrow> bit w k \<longleftrightarrow> mem_bit bs k"
proof -
  assume w: "load16 bs 0 = Inr w" and k: "k < 16"
  obtain q r where qr: "k = 8 * q + r" "r < 8" "q = k div 8" "r = k mod 8" by simp
  have "q < 2" using k qr(1) by simp
  then consider "q = 0" | "q = 1" by linarith
  moreover have "k div 8 = q" "k mod 8 = r" using qr(3,4) by simp_all
  ultimately show ?thesis
    using w qr(1,2)
    by cases (auto simp: load16_def of_le16_def mem_bit_def bit_simps split: if_splits)
qed

lemma bit_load32: "load32 bs p = Inr w \<Longrightarrow> k < 32 \<Longrightarrow> bit w k \<longleftrightarrow> mem_bit bs (8 * p + k)"
proof -
  assume w: "load32 bs p = Inr w" and k: "k < 32"
  obtain q r where qr: "k = 8 * q + r" "r < 8" "q = k div 8" "r = k mod 8" by simp
  have "q < 4" using k qr(1) by simp
  then consider "q = 0" | "q = 1" | "q = 2" | "q = 3" by linarith
  moreover have "(8 * p + k) div 8 = p + q" "(8 * p + k) mod 8 = r" using qr(1,2) by simp_all
  ultimately show ?thesis
    using w qr(1,2)
    by cases (auto simp: load32_def of_le32_def mem_bit_def bit_simps split: if_splits)
qed

lemma bit_load64:
  assumes "load64 bs 0 = Inr w" and k: "k < 64"
  shows "bit w k \<longleftrightarrow> mem_bit bs k"
proof -
  obtain lo hi where w: "load32 bs 0 = Inr lo" "load32 bs 4 = Inr hi" "w = ucast lo OR push_bit 32 (ucast hi)"
    using assms(1) by (auto simp: load64_def split: sum.splits)
  show ?thesis
  proof (cases "k < 32")
    case True
    then show ?thesis using bit_load32 [OF w(1) True] by (simp add: w(3) bit_simps)
  next
    case False
    then have "k - 32 < 32" using k by simp
    from bit_load32 [OF w(2) this] False k show ?thesis
      by (auto simp: w(3) bit_simps dest: bit_imp_le_length)
  qed
qed

lemma bit_scast_low:
  "k < LENGTH('a) \<Longrightarrow> LENGTH('a) \<le> 64 \<Longrightarrow> bit (scast (w :: 'a::len word) :: 64 word) k = bit w k"
proof -
  assume k: "k < LENGTH('a)" "LENGTH('a) \<le> 64"
  then have "min (LENGTH('a) - Suc 0) k = k" by simp
  then show ?thesis using k by (simp add: bit_signed_iff)
qed

lemma bit_value:
  assumes v: "base_type__value bs sz = Inr v" and sz: "sz \<in> {1, 2, 4, 8}" and k: "int k < 8 * sz"
  shows "bit v k \<longleftrightarrow> mem_bit bs k"
proof -
  consider "sz = 1" | "sz = 2" | "sz = 4" | "sz = 8" using sz by auto
  then show ?thesis
  proof cases
    case 1
    then show ?thesis
      using v k by (auto simp: base_type__value_def load8_def mem_bit_def bit_scast_low split: if_splits)
  next
    case 2
    then obtain w where "load16 bs 0 = Inr w" "v = scast w"
      using v by (cases "load16 bs 0") (auto simp: base_type__value_def)
    then show ?thesis using bit_load16 k 2 by (simp add: bit_scast_low)
  next
    case 3
    then obtain w where "load32 bs 0 = Inr w" "v = scast w"
      using v by (cases "load32 bs 0") (auto simp: base_type__value_def)
    then show ?thesis using bit_load32 [of bs 0] k 3 by (simp add: bit_scast_low)
  next
    case 4
    then show ?thesis using v k bit_load64 by (simp add: base_type__value_def)
  qed
qed

lemma mask_loop_Suc: "mask_loop (Suc n) (push_bit 1 (mask k)) = mask (k + Suc n)"
proof (induction n arbitrary: k)
  case 0
  have "push_bit 1 (mask k) OR 1 = (mask (Suc k) :: 64 word)"
    by (simp add: mask_Suc_double or.commute mult.commute)
  then show ?case by simp
next
  case (Suc n)
  have "push_bit 1 (mask k) OR 1 = (mask (Suc k) :: 64 word)"
    by (simp add: mask_Suc_double or.commute mult.commute)
  then show ?case using Suc [of "Suc k"] by (simp del: mask_loop.simps add: mask_loop.simps(2) [of "Suc n"])
qed

lemma mask_loop_mask: "mask_loop n 0 = mask n"
proof (cases n)
  case (Suc m)
  then show ?thesis using mask_loop_Suc [of m 0] by simp
qed simp

section \<open>Prefixes\<close>

text \<open>How many characters all strings of a list start with in common.\<close>

definition agree :: "nat \<Rightarrow> string list \<Rightarrow> bool" where
  "agree n nms \<longleftrightarrow> (\<forall>a \<in> set nms. n \<le> length a \<and> (\<forall>b \<in> set nms. take n a = take n b))"

lemma agree_cong: "set xs = set ys \<Longrightarrow> agree n xs = agree n ys"
  by (simp add: agree_def)

lemma agree_Cons: "agree n (p # xs) \<longleftrightarrow> n \<le> length p \<and> (\<forall>a \<in> set xs. n \<le> length a \<and> take n a = take n p)"
  by (force simp: agree_def)

lemma agree_step: "agree n (p # nm # done) \<longleftrightarrow> n \<le> strcommon nm p \<and> agree n (p # done)"
  by (auto simp: agree_Cons strcommon_take)

lemma common_prefix_loop_some:
  assumes "\<And>n. n \<le> d \<longleftrightarrow> agree n (p # done)"
  shows "\<exists>c. common_prefix_loop (Some p) (Some d) nms = Some c \<and> (\<forall>n. n \<le> c \<longleftrightarrow> agree n (p # done @ nms))"
  using assms
proof (induction nms arbitrary: p d "done")
  case (Cons nm nms)
  let ?d = "min d (strcommon nm p)"
  have "agree n (nm # p # done) \<longleftrightarrow> n \<le> ?d" for n
    using Cons.prems [of n] agree_step [of n p nm "done"] agree_cong [of "p # nm # done" "nm # p # done" n]
    by (auto simp: min_def)
  then obtain c where c: "common_prefix_loop (Some nm) (Some ?d) nms = Some c"
      "\<And>n. n \<le> c \<longleftrightarrow> agree n (nm # (p # done) @ nms)"
    using Cons.IH [of ?d nm "p # done"] by auto
  have "common_prefix_loop (Some p) (Some d) (nm # nms) = Some c"
    using c(1) by (cases "strcommon nm p < d") (simp_all add: Let_def min_def)
  moreover have "n \<le> c \<longleftrightarrow> agree n (p # done @ nm # nms)" for n
    unfolding c(2) by (rule agree_cong) auto
  ultimately show ?case by blast
qed simp

lemma common_prefix_longest:
  assumes "2 \<le> length nms"
  shows "\<exists>c. common_prefix_loop None None nms = Some c \<and> (\<forall>n. n \<le> c \<longleftrightarrow> agree n nms)"
proof -
  obtain a b rest where nms: "nms = a # b # rest" using assms by (cases nms; cases "tl nms") auto
  have "n \<le> strcommon b a \<longleftrightarrow> agree n [b, a]" for n
    by (auto simp: agree_Cons strcommon_take)
  from common_prefix_loop_some [of "strcommon b a" b "[a]" rest, OF this] obtain c where
    "common_prefix_loop (Some b) (Some (strcommon b a)) rest = Some c" "\<forall>n. n \<le> c \<longleftrightarrow> agree n (b # [a] @ rest)" by blast
  then show ?thesis
    unfolding nms using agree_cong [of "b # [a] @ rest" "a # b # rest"] by (auto simp: insert_commute)
qed

lemma common_prefix_few: "length nms < 2 \<Longrightarrow> common_prefix_loop None None nms = None"
  by (cases nms; cases "tl nms") auto

definition enum_names :: "'a type_t_scheme \<Rightarrow> string list" where
  "enum_names ty = map (en_name \<circ> snd) (enumerators_at (ty_tags ty))"

lemma find_enumerator_in_bounds:
  "\<forall>(k, en) \<in> set es. plen \<le> length (en_name en) \<Longrightarrow>
    find_enumerator plen nm es =
      Inr (find (\<lambda>(k, en). en_name en = nm \<or> plen \<noteq> 0 \<and> drop plen (en_name en) = nm) es)"
  by (induction plen nm es rule: find_enumerator.induct) auto

section \<open>Properties\<close>

text \<open>C20: A bitfield read from raw data is exactly its bits: bit \<open>j\<close> of the value is bit \<open>j\<close> of the
  bitfield, counted from its offset in memory on, and the bits above its width are 0, whatever the
  integer it is stored in is sign-extended to.\<close>

theorem bitfield_value_is_its_bits:
  assumes "class_member__bitfield_value m bs = Inr v"
    and "cm_byte_size m \<in> {1, 2, 4, 8}"
    and "nat (cm_bitfield_offset m) + cm_bitfield_size m \<le> 8 * cm_byte_size m"
  shows "bit v j \<longleftrightarrow> j < cm_bitfield_size m \<and> mem_bit bs (nat (cm_bitfield_offset m) + j)"
proof -
  let ?o = "nat (cm_bitfield_offset m)" and ?n = "cm_bitfield_size m"
  have sz: "s32 (int (cm_byte_size m)) = int (cm_byte_size m)" using assms(2) by (auto simp: c_simps)
  obtain x where x: "base_type__value bs (int (cm_byte_size m)) = Inr x" "v = drop_bit ?o (x AND push_bit ?o (mask ?n))"
    using assms(1) unfolding class_member__bitfield_value_def sz mask_loop_mask
    by (auto simp: Let_def split: sum.splits if_splits)
  have le: "?o + ?n \<le> 64" using assms(2,3) by auto
  have "bit v j \<longleftrightarrow> j < ?n \<and> bit x (?o + j)"
    using le by (auto simp: x(2) bit_simps dest: bit_imp_le_length)
  moreover have "bit x (?o + j) \<longleftrightarrow> mem_bit bs (?o + j)" if "j < ?n"
  proof (rule bit_value [OF x(1)])
    show "int (cm_byte_size m) \<in> {1, 2, 4, 8}" using assms(2) by auto
    have "?o + j < 8 * cm_byte_size m" using assms(3) that by linarith
    then show "int (?o + j) < 8 * int (cm_byte_size m)" by linarith
  qed
  ultimately show ?thesis by auto
qed

theorem bitfield_value_is_its_bits_witness:
  "let m = (sample_member ''flags'' 0 2 1)\<lparr>cm_bitfield_offset := 6, cm_bitfield_size := 5\<rparr>
   in class_member__bitfield_value m [0xC0, 0x05] = Inr 23 \<and> (\<forall>j. bit (23 :: 64 word) j \<longleftrightarrow> j < 5 \<and> mem_bit [0xC0, 0x05] (6 + j))"
proof -
  let ?m = "(sample_member ''flags'' 0 2 1)\<lparr>cm_bitfield_offset := 6, cm_bitfield_size := 5\<rparr>"
  have v: "class_member__bitfield_value ?m [0xC0, 0x05] = Inr 23" by code_simp
  show ?thesis
    using bitfield_value_is_its_bits [OF v] v by (simp add: Let_def sample_member_def)
qed


definition sample_enumeration :: type_t where
  "sample_enumeration = (type_t.truncate class_zero)\<lparr>ty_name := Some ''state'', ty_size := 32, ty_nr_members := 2,
     ty_tags := [Enumerator \<lparr>en_name = ''ST_OFF'', en_value = 0\<rparr>, Enumerator \<lparr>en_name = ''ST_ON'', en_value = 1\<rparr>]\<rparr>"


end
