(* ===== verification/Proto.thy ===== *)
theory Proto
  imports Values Strlist
begin

text \<open>
  The arguments of \<open>--class_name\<close> (\<open>pahole.c\<close>): lists of types, each with parameters that say which
  members hold the size and the type of a record, and filters.  Messages are left out; the parsers
  return \<open>None\<close> or an error where the code prints one.
\<close>

definition c_isspace :: "char \<Rightarrow> bool" where
  "c_isspace c \<longleftrightarrow> of_char c = (32 :: nat) \<or> (9 \<le> (of_char c :: nat) \<and> of_char c \<le> (13 :: nat))"

definition skip_spaces :: "string \<Rightarrow> string" where "skip_spaces = dropWhile c_isspace"

section \<open>strtoll with base 0\<close>

definition digit_of :: "char \<Rightarrow> nat" where
  "digit_of c =
     (let n = (of_char c :: nat)
      in if 48 \<le> n \<and> n \<le> 57 then n - 48
         else if 97 \<le> n \<and> n \<le> 122 then n - 87
         else if 65 \<le> n \<and> n \<le> 90 then n - 55 else 99)"

text \<open>The number a string starts with and what follows it; the whole string if there is none.\<close>

definition c_strtoll :: "string \<Rightarrow> int \<times> string" where
  "c_strtoll s =
     (let s1 = skip_spaces s;
          (neg, s2) = (case s1 of c # r \<Rightarrow> if c = CHR ''-'' then (True, r) else if c = CHR ''+'' then (False, r) else (False, s1)
                       | [] \<Rightarrow> (False, []));
          (b, s3) = (case s2 of
              z # x # d # r \<Rightarrow>
                if z = CHR ''0'' \<and> (x = CHR ''x'' \<or> x = CHR ''X'') \<and> digit_of d < 16 then (16, d # r)
                else if z = CHR ''0'' then (8, s2) else (10, s2)
            | z # r \<Rightarrow> if z = CHR ''0'' then (8, s2) else (10, s2)
            | [] \<Rightarrow> (10, []));
          ds = takeWhile (\<lambda>c. digit_of c < b) s3;
          n = foldl (\<lambda>n c. b * n + digit_of c) 0 ds;
          v = (if neg then - int n else int n)
      in if ds = [] then (0, s)
         else (max (- 9223372036854775808) (min 9223372036854775807 v), drop (length ds) s3))"

section \<open>Prototypes\<close>

text \<open>The unit and index in \<open>po_class\<close> are those of the type once it is found.\<close>

record prototype =
  po_name :: string
  po_type :: "string option"
  po_type_enum :: "string option"
  po_size :: "string option"
  po_range :: "string option"
  po_filter :: "string option"
  po_nr_args :: nat
  po_class :: "type_ref option"
  po_type_enum_resolved :: bool

definition prototype_named :: "string \<Rightarrow> prototype" where
  "prototype_named nm =
     \<lparr>po_name = nm, po_type = None, po_type_enum = None, po_size = None, po_range = None, po_filter = None,
      po_nr_args = 0, po_class = None, po_type_enum_resolved = False\<rparr>"

text \<open>
  One argument.  A missing value is only noticed in the last one, where \<open>value\<close> reaches the closing
  parenthesis.
\<close>

definition prototype_arg :: "string \<Rightarrow> bool \<Rightarrow> prototype \<Rightarrow> prototype option" where
  "prototype_arg arg is_last p =
     (case cut_at (CHR ''='') arg of
        (_, None) \<Rightarrow>
          if c_strcmp arg ''sizeof'' = 0 then Some (p\<lparr>po_size := Some ''size''\<rparr>)
          else if c_strcmp arg ''type'' = 0 then Some (p\<lparr>po_type := Some ''type''\<rparr>)
          else None
      | (key, Some rest) \<Rightarrow>
          if rest \<noteq> [] \<and> hd rest = CHR ''='' then Some (p\<lparr>po_filter := Some arg\<rparr>)
          else
            let val = skip_spaces rest
            in if is_last \<and> val = [] then None
               else if c_strcmp key ''sizeof'' = 0 then Some (p\<lparr>po_size := Some val\<rparr>)
               else if c_strcmp key ''type'' = 0 then Some (p\<lparr>po_type := Some val\<rparr>)
               else if c_strcmp key ''type_enum'' = 0 then Some (p\<lparr>po_type_enum := Some val\<rparr>)
               else if c_strcmp key ''filter'' = 0 then Some (p\<lparr>po_filter := Some val\<rparr>)
               else if c_strcmp key ''range'' = 0 then Some (p\<lparr>po_range := Some val\<rparr>)
               else None)"

function prototype_args :: "string \<Rightarrow> prototype \<Rightarrow> prototype option" where
  "prototype_args args p =
     (case cut_at (CHR '','') args of
        (arg, rest) \<Rightarrow>
          (case prototype_arg arg (rest = None) p of
             None \<Rightarrow> None
           | Some p1 \<Rightarrow>
               let p2 = p1\<lparr>po_nr_args := u16 (po_nr_args p1 + 1)\<rparr>
               in case rest of None \<Rightarrow> Some p2 | Some args' \<Rightarrow> prototype_args args' p2))"
  by pat_completeness auto
termination
  by (relation "measure (length \<circ> fst)") (auto dest!: cut_at_length [OF sym])

declare prototype_args.simps [simp del]

definition prototype__new :: "heap_env \<Rightarrow> string \<Rightarrow> prototype option" where
  "prototype__new h expression =
     (if \<not> avail h (80 + length expression + 1) then None
      else case cut_at (CHR ''('') expression of
        (name, None) \<Rightarrow> Some (prototype_named name)
      | (name, Some rest) \<Rightarrow>
          (case cut_at (CHR '')'') rest of
             (_, None) \<Rightarrow> None
           | (inner, Some _) \<Rightarrow>
               let args = skip_spaces inner
               in if args = [] then Some (prototype_named name) else prototype_args args (prototype_named name)))"

section \<open>Lists of prototypes\<close>

definition prototypes__add :: "heap_env \<Rightarrow> prototype list \<Rightarrow> string \<Rightarrow> int \<times> prototype list" where
  "prototypes__add h ps entry =
     (case prototype__new h entry of None \<Rightarrow> (-12, ps) | Some p \<Rightarrow> (0, ps @ [p]))"

text \<open>The last character of a line is dropped, newline or not.\<close>

function prototypes_load_loop :: "heap_env \<Rightarrow> prototype list \<Rightarrow> string \<Rightarrow> int \<times> prototype list" where
  "prototypes_load_loop h ps inp =
     (case c_fgets 1024 inp of
        None \<Rightarrow> (0, ps)
      | Some (entry, rest) \<Rightarrow>
          let len = c_strlen entry
          in if len = 0 then prototypes_load_loop h ps rest
             else case prototypes__add h ps (take (len - 1) entry) of
               (err, ps') \<Rightarrow> if err \<noteq> 0 then (-1, ps') else prototypes_load_loop h ps' rest)"
  by pat_completeness auto
termination
  by (relation "measure (\<lambda>(h, ps, inp). length inp)")
    (use fgets_aux_shorter [of 1023] in \<open>auto simp: c_fgets_def split: if_splits dest: sym\<close>, metis snd_conv)+

declare prototypes_load_loop.simps [simp del]

definition prototypes__load :: "heap_env \<Rightarrow> (string \<Rightarrow> string option) \<Rightarrow> prototype list \<Rightarrow> string \<Rightarrow> int \<times> prototype list" where
  "prototypes__load h files ps filename =
     (case files filename of None \<Rightarrow> (-1, ps) | Some content \<Rightarrow> prototypes_load_loop h ps content)"

definition add_class_name_entry ::
  "heap_env \<Rightarrow> (string \<Rightarrow> string option) \<Rightarrow> prototype list \<Rightarrow> string \<Rightarrow> int \<times> prototype list" where
  "add_class_name_entry h files ps s =
     (if c_strncmp s ''file://'' 7 = 0 then
        (case prototypes__load h files ps (drop 7 s) of (err, ps') \<Rightarrow> (if err \<noteq> 0 then -1 else 0, ps'))
      else
        (case prototypes__add h ps s of (err, ps') \<Rightarrow> (if err = -12 then -1 else 0, ps')))"

text \<open>
  Where the entry that \<open>s\<close> starts with ends: at its first comma, or behind the parenthesis that is open
  there.  \<open>Inl\<close> is an open parenthesis that is never closed.
\<close>

definition entry_end :: "string \<Rightarrow> nat \<Rightarrow> unit + nat" where
  "entry_end s sep =
     (case cut_at (CHR ''('') s of
        (before, Some _) \<Rightarrow>
          if length before < sep then
            (case cut_at (CHR '')'') (drop (length before) s) of
               (_, None) \<Rightarrow> Inl ()
             | (inside, Some _) \<Rightarrow>
                 let close = length before + length inside
                 in Inr (if close > sep then close + 1 else sep))
          else Inr sep
      | (_, None) \<Rightarrow> Inr sep)"

lemma entry_end_pos: "entry_end s sep = Inr n \<Longrightarrow> sep \<le> n"
  by (auto simp: entry_end_def Let_def split: prod.splits option.splits if_splits)

function class_names_loop ::
  "heap_env \<Rightarrow> (string \<Rightarrow> string option) \<Rightarrow> prototype list \<Rightarrow> string \<Rightarrow> int \<times> prototype list" where
  "class_names_loop h files ps s =
     (case cut_at (CHR '','') s of
        (_, None) \<Rightarrow> add_class_name_entry h files ps s
      | (before, Some _) \<Rightarrow>
          (case entry_end s (length before) of
             Inl _ \<Rightarrow> (-1, ps)
           | Inr sep \<Rightarrow>
               (case add_class_name_entry h files ps (take sep s) of
                  (err, ps') \<Rightarrow>
                    if err \<noteq> 0 then (err, ps')
                    else if sep = length s then (err, ps')
                    else class_names_loop h files ps' (drop (sep + 1) s))))"
  by pat_completeness auto
termination
  by (relation "measure (\<lambda>(h, files, ps, s). length s)") (auto dest!: cut_at_length [OF sym])

declare class_names_loop.simps [simp del]

text \<open>\<open>None\<close>: no memory for the copy, whose length was already read.\<close>

definition populate_class_names ::
  "heap_env \<Rightarrow> (string \<Rightarrow> string option) \<Rightarrow> prototype list \<Rightarrow> string \<Rightarrow> fault + int \<times> prototype list" where
  "populate_class_names h files ps class_name =
     (if \<not> avail h (length class_name + 1) then Inl Null_Deref
      else Inr (class_names_loop h files ps class_name))"

section \<open>Writing a prototype down\<close>

definition arg_fields :: "prototype \<Rightarrow> (string \<times> string option) list" where
  "arg_fields p = [(''sizeof'', po_size p), (''type'', po_type p), (''type_enum'', po_type_enum p),
     (''filter'', po_filter p), (''range'', po_range p)]"

definition arg_list :: "prototype \<Rightarrow> (string \<times> string) list" where
  "arg_list p = concat (map (\<lambda>(k, v). case v of None \<Rightarrow> [] | Some s \<Rightarrow> [(k, s)]) (arg_fields p))"

fun commas :: "string list \<Rightarrow> string" where
  "commas [] = []"
| "commas [a] = a"
| "commas (a # b # r) = a @ CHR '','' # commas (b # r)"

definition render_arg :: "string \<times> string \<Rightarrow> string" where
  "render_arg kv = fst kv @ CHR ''='' # snd kv"

definition render :: "prototype \<Rightarrow> string" where
  "render p = po_name p @ (if arg_list p = [] then [] else ''('' @ commas (map render_arg (arg_list p)) @ '')'')"

text \<open>Values that can be told from the syntax around them.\<close>

definition value_ok :: "string \<Rightarrow> bool" where
  "value_ok s \<longleftrightarrow> s \<noteq> [] \<and> \<not> c_isspace (hd s) \<and> hd s \<noteq> CHR ''='' \<and> set s \<inter> {CHR '','', CHR '')''} = {}"

definition prototype_ok :: "prototype \<Rightarrow> bool" where
  "prototype_ok p \<longleftrightarrow>
     CHR ''('' \<notin> set (po_name p) \<and> po_nr_args p = length (arg_list p) \<and> po_class p = None \<and>
     \<not> po_type_enum_resolved p \<and> (\<forall>(k, v) \<in> set (arg_list p). value_ok v)"

lemma cut_at_here: "c \<notin> set a \<Longrightarrow> cut_at c (a @ c # b) = (a, Some b)"
  and cut_at_none: "c \<notin> set a \<Longrightarrow> cut_at c a = (a, None)"
  by (induction a) auto

definition arg_keys :: "string set" where
  "arg_keys = {''sizeof'', ''type'', ''type_enum'', ''filter'', ''range''}"

definition set_arg :: "string \<times> string \<Rightarrow> prototype \<Rightarrow> prototype" where
  "set_arg kv p =
     (let (k, v) = kv;
          q = (if k = ''sizeof'' then p\<lparr>po_size := Some v\<rparr> else if k = ''type'' then p\<lparr>po_type := Some v\<rparr>
               else if k = ''type_enum'' then p\<lparr>po_type_enum := Some v\<rparr>
               else if k = ''filter'' then p\<lparr>po_filter := Some v\<rparr> else p\<lparr>po_range := Some v\<rparr>)
      in q\<lparr>po_nr_args := u16 (po_nr_args q + 1)\<rparr>)"

lemma key_plain: "k \<in> arg_keys \<Longrightarrow> set k \<inter> {CHR ''='', CHR '','', CHR '')'', CHR ''(''} = {} \<and> k \<noteq> [] \<and> \<not> c_isspace (hd k)"
  by (auto simp: arg_keys_def c_isspace_def)

lemma prototype_arg_render:
  assumes "k \<in> arg_keys" and "value_ok v"
  shows "map_option (\<lambda>q. q\<lparr>po_nr_args := u16 (po_nr_args q + 1)\<rparr>) (prototype_arg (render_arg (k, v)) is_last p) = Some (set_arg (k, v) p)"
proof -
  have "CHR ''='' \<notin> set k" using key_plain [OF assms(1)] by blast
  then have c: "cut_at (CHR ''='') (render_arg (k, v)) = (k, Some v)"
    by (simp add: render_arg_def cut_at_here)
  have v: "skip_spaces v = v" "v \<noteq> []" "hd v \<noteq> CHR ''=''"
    using assms(2) by (cases v; simp add: value_ok_def skip_spaces_def)+
  show ?thesis
    using assms(1) v unfolding prototype_arg_def c by (auto simp: set_arg_def arg_keys_def)
qed

lemma render_arg_plain:
  "k \<in> arg_keys \<Longrightarrow> value_ok v \<Longrightarrow> CHR '','' \<notin> set (render_arg (k, v)) \<and> CHR '')'' \<notin> set (render_arg (k, v))"
  using key_plain [of k] by (auto simp: render_arg_def value_ok_def)

lemma prototype_args_render:
  assumes "kvs \<noteq> []" and "\<forall>(k, v) \<in> set kvs. k \<in> arg_keys \<and> value_ok v"
  shows "prototype_args (commas (map render_arg kvs)) p = Some (fold set_arg kvs p)"
  using assms
proof (induction kvs arbitrary: p rule: induct_list012)
  case (2 kv)
  obtain k v where kv: "kv = (k, v)" by (cases kv)
  have ok: "k \<in> arg_keys" "value_ok v" using 2 by (auto simp: kv)
  have "cut_at (CHR '','') (render_arg (k, v)) = (render_arg (k, v), None)"
    using render_arg_plain [OF ok] by (simp add: cut_at_none)
  then show ?case
    using prototype_arg_render [OF ok, of True p]
    by (auto simp: kv prototype_args.simps [of "render_arg (k, v)"] Let_def)
next
  case (3 kv kv' kvs)
  obtain k v where kv: "kv = (k, v)" by (cases kv)
  have ok: "k \<in> arg_keys" "value_ok v" using 3(4) by (auto simp: kv)
  have c: "cut_at (CHR '','') (commas (map render_arg (kv # kv' # kvs))) =
      (render_arg kv, Some (commas (map render_arg (kv' # kvs))))"
    using render_arg_plain [OF ok] by (simp add: cut_at_here kv)
  obtain q where q: "prototype_arg (render_arg kv) False p = Some q" "q\<lparr>po_nr_args := u16 (po_nr_args q + 1)\<rparr> = set_arg kv p"
    using prototype_arg_render [OF ok, of False p] by (auto simp: kv)
  have "prototype_args (commas (map render_arg (kv' # kvs))) (set_arg kv p) = Some (fold set_arg (kv' # kvs) (set_arg kv p))"
    using 3(2) 3(4) by simp
  then show ?case
    by (subst prototype_args.simps) (simp only: c prod.case, simp add: Let_def q q(2) [unfolded Suc_eq_plus1 [symmetric]])
qed simp

lemma commas_plain: "\<forall>s \<in> set ss. c \<notin> set s \<Longrightarrow> c \<noteq> CHR '','' \<Longrightarrow> c \<notin> set (commas ss)"
  by (induction ss rule: commas.induct) auto

lemma commas_hd: "ss \<noteq> [] \<Longrightarrow> hd ss \<noteq> [] \<Longrightarrow> commas ss \<noteq> [] \<and> hd (commas ss) = hd (hd ss)"
  by (cases ss rule: commas.cases) auto

lemma fold_args:
  assumes "po_nr_args p = length (arg_list p)" "po_class p = None" "\<not> po_type_enum_resolved p"
  shows "fold set_arg (arg_list p) (prototype_named (po_name p)) = p"
  using assms
  by (cases p; cases "po_size p"; cases "po_type p"; cases "po_type_enum p"; cases "po_filter p"; cases "po_range p")
    (simp_all add: arg_list_def arg_fields_def set_arg_def prototype_named_def)

text \<open>C23: Parsing a prototype that was written down, its name and the parameters that are set, gives
  that prototype back, when the name has no parenthesis and the values cannot be mistaken for the
  syntax around them.\<close>

theorem prototype_roundtrip:
  assumes "prototype_ok p" and "avail h (80 + length (render p) + 1)"
  shows "prototype__new h (render p) = Some p"
proof -
  have f: "fold set_arg (arg_list p) (prototype_named (po_name p)) = p"
    using assms(1) by (intro fold_args) (auto simp: prototype_ok_def)
  have nm: "CHR ''('' \<notin> set (po_name p)" using assms(1) by (simp add: prototype_ok_def)
  show ?thesis
  proof (cases "arg_list p = []")
    case True
    then show ?thesis using f nm assms(2) by (simp add: prototype__new_def render_def cut_at_none)
  next
    case False
    let ?args = "map render_arg (arg_list p)"
    have ok: "\<forall>(k, v) \<in> set (arg_list p). k \<in> arg_keys \<and> value_ok v"
      using assms(1) by (auto simp: prototype_ok_def arg_list_def arg_fields_def arg_keys_def split: option.splits)
    then have c: "CHR '')'' \<notin> set (commas ?args)"
      using render_arg_plain by (intro commas_plain) fastforce+
    obtain k v r where kv: "arg_list p = (k, v) # r" using False by (cases "arg_list p") auto
    have "k \<in> arg_keys" using ok by (auto simp: kv)
    from key_plain [OF this] have "hd ?args \<noteq> []" "\<not> c_isspace (hd (hd ?args))"
      by (auto simp: kv render_arg_def)
    then have s: "skip_spaces (commas ?args) = commas ?args" "commas ?args \<noteq> []"
      using commas_hd [of ?args] False by (cases "commas ?args"; simp add: skip_spaces_def)+
    have "prototype_args (commas ?args) (prototype_named (po_name p)) = Some p"
      using prototype_args_render [OF False ok] f by simp
    then show ?thesis
      using assms(2) False nm c s by (simp add: prototype__new_def render_def cut_at_here Let_def)
  qed
qed

theorem prototype_roundtrip_witness:
  "let p = (prototype_named ''perf_event_header'')\<lparr>po_size := Some ''size'', po_type := Some ''type'',
       po_filter := Some ''type==3'', po_nr_args := 3\<rparr>
   in render p = ''perf_event_header(sizeof=size,type=type,filter=type==3)'' \<and>
      prototype__new \<lparr>avail = \<lambda>_. True, fresh = \<lambda>_. 0\<rparr> (render p) = Some p"
proof -
  let ?p = "(prototype_named ''perf_event_header'')\<lparr>po_size := Some ''size'', po_type := Some ''type'',
       po_filter := Some ''type==3'', po_nr_args := 3\<rparr>"
  have "prototype_ok ?p"
    by (simp add: prototype_ok_def prototype_named_def arg_list_def arg_fields_def value_ok_def c_isspace_def)
  from prototype_roundtrip [OF this, of "\<lparr>avail = \<lambda>_. True, fresh = \<lambda>_. 0\<rparr>"] show ?thesis
    by (simp add: Let_def render_def render_arg_def arg_list_def arg_fields_def prototype_named_def)
qed

end
