(* ===== verification/Records.thy ===== *)
theory Records
  imports Proto
begin

text \<open>
  Reading records from a file or a pipe and printing them (\<open>pahole.c\<close>): where to start, how long a
  record really is, which ones to leave out and what type each one has.  The messages of the verbose
  mode are left out; reading never fails otherwise than at the end of the input.
\<close>

section \<open>The input\<close>

record input =
  in_data :: "byte list"
  in_pos :: nat
  in_seekable :: bool
  in_regular :: bool

text \<open>\<open>fread(bf, sz, 1, fp)\<close>: an item that is not complete uses up what is left.\<close>

definition c_fread :: "nat \<Rightarrow> input \<Rightarrow> byte list option \<times> input" where
  "c_fread sz inp =
     (if sz = 0 then (None, inp)
      else if in_pos inp + sz \<le> length (in_data inp) then
        (Some (take sz (drop (in_pos inp) (in_data inp))), inp\<lparr>in_pos := in_pos inp + sz\<rparr>)
      else (None, inp\<lparr>in_pos := max (in_pos inp) (length (in_data inp))\<rparr>))"

definition c_fseeko :: "int \<Rightarrow> input \<Rightarrow> int \<times> input" where
  "c_fseeko offset inp =
     (if in_seekable inp \<and> 0 \<le> offset then (0, inp\<lparr>in_pos := nat offset\<rparr>) else (-1, inp))"

lemma c_fread_moves:
  "(Some bs, inp') = c_fread sz inp \<Longrightarrow>
    length (in_data inp') - in_pos inp' < length (in_data inp) - in_pos inp"
  by (auto simp: c_fread_def split: if_splits)

lemma c_fread_Some: "c_fread sz inp = (Some bs, inp') \<Longrightarrow> 0 < sz \<and> length bs = sz \<and>
    inp' = inp\<lparr>in_pos := in_pos inp + sz\<rparr> \<and> in_pos inp + sz \<le> length (in_data inp) \<and> bs = take sz (drop (in_pos inp) (in_data inp))"
  by (auto simp: c_fread_def split: if_splits)

function pipe_seek_loop :: "int \<Rightarrow> nat \<Rightarrow> input \<Rightarrow> int \<times> input" where
  "pipe_seek_loop offset chunk inp =
     (case c_fread chunk inp of
        (None, inp') \<Rightarrow> (if offset = 0 then 0 else -1, inp')
      | (Some _, inp') \<Rightarrow>
          let offset' = offset - int chunk
          in if offset' = 0 then (0, inp')
             else pipe_seek_loop offset' (if int chunk > offset' then nat offset' else chunk) inp')"
  by pat_completeness auto
termination
  by (relation "measure (\<lambda>(offset, chunk, inp). length (in_data inp) - in_pos inp)")
    (auto dest: c_fread_moves)

declare pipe_seek_loop.simps [simp del]

definition pipe_seek :: "int \<Rightarrow> input \<Rightarrow> int \<times> input" where
  "pipe_seek offset inp =
     (if offset < 0 then (-1, inp)
      else if offset = 0 then (0, inp)
      else pipe_seek_loop offset (if 4096 > offset then nat offset else 4096) inp)"

section \<open>The header\<close>

text \<open>\<open>ti_type\<close> is the type and \<open>ti_instance\<close> the bytes behind it.\<close>

record type_instance =
  ti_type :: type_ref
  ti_read_already :: bool
  ti_instance :: "byte list"

definition type_instance__new :: "heap_env \<Rightarrow> world \<Rightarrow> type_ref option \<Rightarrow> fault + type_instance option" where
  "type_instance__new h w r =
     (case r of
        None \<Rightarrow> Inr None
      | Some i \<Rightarrow>
          bindE (world_type w i) (\<lambda>t. bindE (tag__type t) (\<lambda>ty.
            Inr (if avail h (24 + ty_size ty)
                 then Some \<lparr>ti_type = i, ti_read_already = False, ti_instance = replicate (ty_size ty) 0\<rparr> else None))))"

text \<open>
  The members of a path from \<open>ty\<close> on: the sum of their offsets and the last one.  Only the first dot of the
  path is overwritten, so that what is looked for in the second type is all the rest of the path.
\<close>

function member_path :: "cu \<Rightarrow> type_t \<Rightarrow> string \<Rightarrow> string \<Rightarrow> nat \<Rightarrow> fault + (nat \<times> class_member) option" where
  "member_path cu ty nm rest offset =
     (case type__find_member_by_name ty (Some nm) of
        None \<Rightarrow> Inr None
      | Some m \<Rightarrow>
          bindE (cu_type cu (cm_type m)) (\<lambda>t.
            case t of
              None \<Rightarrow> Inr None
            | Some t \<Rightarrow>
                bindE (tag__type t) (\<lambda>ty'.
                  let offset' = offset + cm_byte_offset m
                  in case cut_at (CHR ''.'') rest of
                       (_, None) \<Rightarrow> Inr (map_option (Pair offset') (type__find_member_by_name ty' (Some rest)))
                     | (_, Some rest') \<Rightarrow> member_path cu ty' rest rest' offset')))"
  by pat_completeness auto
termination
  by (relation "measure (\<lambda>(cu, ty, nm, rest, offset). length rest)") (auto dest!: cut_at_length [OF sym])

declare member_path.simps [simp del]

definition type_instance__int_value :: "heap_env \<Rightarrow> nat \<Rightarrow> world \<Rightarrow> type_instance \<Rightarrow> string \<Rightarrow> fault + int" where
  "type_instance__int_value h n w inst member_name =
     bindE (world_cu w (fst (ti_type inst))) (\<lambda>cu.
     bindE (world_type w (ti_type inst)) (\<lambda>t. bindE (tag__type t) (\<lambda>ty.
     bindE (case type__find_member_by_name ty (Some member_name) of
              Some m \<Rightarrow> Inr (Some (0, m))
            | None \<Rightarrow>
                (case cut_at (CHR ''.'') member_name of
                   (_, None) \<Rightarrow> Inr None
                 | (nm, Some rest) \<Rightarrow>
                     if avail h (length member_name + 1) then member_path cu ty nm rest 0 else Inr None)) (\<lambda>r.
       case r of
         None \<Rightarrow> Inr (-1)
       | Some (offset, m) \<Rightarrow>
           bindE (cu_type cu (cm_type m)) (\<lambda>mt.
             case mt of
               None \<Rightarrow> Inl Null_Deref
             | Some t \<Rightarrow>
                 bindE (tag__is_base_type n cu t) (\<lambda>b.
                   if \<not> b then Inr (-1)
                   else map_sum id sint
                     (base_type__value (drop (offset + cm_byte_offset m) (ti_instance inst)) (s32 (int (cm_byte_size m))))))))))"

text \<open>The number of bytes read, -1 if they are not there.\<close>

definition type__instance_read_once :: "type_instance option \<Rightarrow> input \<Rightarrow> int \<times> type_instance option \<times> input" where
  "type__instance_read_once inst inp =
     (case inst of
        None \<Rightarrow> (0, None, inp)
      | Some i \<Rightarrow>
          if ti_read_already i then (0, inst, inp)
          else
            let i' = i\<lparr>ti_read_already := True\<rparr>
            in case c_fread (length (ti_instance i)) inp of
                 (None, inp') \<Rightarrow> (-1, Some i', inp')
               | (Some bs, inp') \<Rightarrow> (int (length bs), Some (i'\<lparr>ti_instance := bs\<rparr>), inp'))"

section \<open>Sizes, filters and types of records\<close>

definition member_value :: "world \<Rightarrow> type_ref \<Rightarrow> nat \<Rightarrow> byte list \<Rightarrow> fault + 64 word" where
  "member_value w r k instance =
     bindE (world_type w r) (\<lambda>t. bindE (tag__type t) (\<lambda>ty. bindE (member_at ty k) (\<lambda>m.
       base_type__value (drop (cm_byte_offset m) instance) (s32 (int (cm_byte_size m))))))"

definition tag__real_sizeof :: "world \<Rightarrow> type_ref \<Rightarrow> int \<Rightarrow> byte list \<Rightarrow> fault + 64 word" where
  "tag__real_sizeof w r sz instance =
     bindE (world_type w r) (\<lambda>t.
       case (tag__is_struct (tg_tag t), pr_sizeof_member (wo_pretty w r)) of
         (True, Some k) \<Rightarrow> member_value w r k instance
       | _ \<Rightarrow> Inr (word_of_int sz))"

text \<open>Whether a record is left out.\<close>

definition type__filter_value :: "world \<Rightarrow> type_ref \<Rightarrow> nat \<times> 64 word \<Rightarrow> byte list \<Rightarrow> fault + bool" where
  "type__filter_value w r filt instance =
     bindE (member_value w r (fst filt) instance) (\<lambda>v. Inr (v \<noteq> snd filt))"

text \<open>\<open>None\<close> is NULL.  What is found for an enumerator is remembered.\<close>

definition tag__real_type :: "world \<Rightarrow> type_ref \<Rightarrow> byte list \<Rightarrow> fault + type_ref option \<times> world" where
  "tag__real_type w r instance =
     bindE (world_type w r) (\<lambda>t.
       case (tag__is_struct (tg_tag t) \<and> pr_type_enum (wo_pretty w r) \<noteq> [], pr_type_member (wo_pretty w r)) of
         (True, Some k) \<Rightarrow>
           bindE (member_value w r k instance) (\<lambda>v.
           bindE (enumerations__lookup_entry_from_value w (pr_type_enum (wo_pretty w r)) v) (\<lambda>e.
             case e of
               None \<Rightarrow> Inr (Some r, w)
             | Some (er, j, en) \<Rightarrow>
                 (case wo_real w (er, j) of
                    Some real \<Rightarrow> Inr (Some real, w)
                  | None \<Rightarrow>
                      bindE (world_cu w (fst r)) (\<lambda>cu.
                      bindE (cu__find_type_by_name (Some cu) (Some (strlwr (cut 1024 (en_name en)))) False) (\<lambda>q.
                        case q of
                          None \<Rightarrow> Inr (None, w)
                        | Some (i, real) \<Rightarrow>
                            if tag__is_struct (tg_tag real)
                            then Inr (Some (fst r, i), w\<lparr>wo_real := (wo_real w)((er, j) := Some (fst r, i))\<rparr>)
                            else Inr (Some r, w))))))
       | _ \<Rightarrow> Inr (Some r, w))"

text \<open>
  \<open>strstr(s, "==")\<close>.  Before the operator blanks are dropped; with nothing before it the code looks at
  the character in front of the filter, which the parser of the prototype has overwritten with NUL.
\<close>

fun cut_eq :: "string \<Rightarrow> (string \<times> string) option" where
  "cut_eq (a # b # s) =
     (if a = CHR ''='' \<and> b = CHR ''='' then Some ([], s)
      else map_option (\<lambda>(l, r). (a # l, r)) (cut_eq (b # s)))"
| "cut_eq _ = None"

definition skip_value_spaces :: "string \<Rightarrow> string option" where
  "skip_value_spaces s = (if s \<noteq> [] \<and> skip_spaces s = [] then None else Some (skip_spaces s))"

definition class_member_filter__parse ::
  "heap_env \<Rightarrow> world \<Rightarrow> type_ref \<Rightarrow> string \<Rightarrow> fault + (nat \<times> 64 word) option \<times> world" where
  "class_member_filter__parse h w r sfilter =
     bindE (world_type w r) (\<lambda>t. bindE (tag__type t) (\<lambda>ty.
       case cut_eq sfilter of
         None \<Rightarrow> Inr (None, w)
       | Some (left, right) \<Rightarrow>
           let name = rev (skip_spaces (rev left))
           in if left \<noteq> [] \<and> name = [] then Inr (None, w)
              else case find_member_at ty name of
                None \<Rightarrow> Inr (None, w)
              | Some k \<Rightarrow>
                  (case skip_value_spaces right of
                     None \<Rightarrow> Inr (None, w)
                   | Some val \<Rightarrow>
                       (case c_strtoll val of
                          (v, rest) \<Rightarrow>
                            if length rest < length val \<and> (rest = [] \<or> c_isspace (hd rest))
                            then Inr (Some (k, word_of_int v), w)
                            else if pr_type_enum (wo_pretty w r) = [] then Inr (None, w)
                            else if pr_type_member (wo_pretty w r) \<noteq> Some k then Inr (None, w)
                            else
                              bindE (enumerations__calc_prefix h (pr_type_enum (wo_pretty w r)) w) (\<lambda>w'.
                              bindE (enumerations__find_enumerator w' (pr_type_enum (wo_pretty w r)) val) (\<lambda>e.
                                case e of
                                  None \<Rightarrow> Inr (None, w')
                                | Some (er, j, en) \<Rightarrow> Inr (Some (k, word_of_nat (en_value en)), w')))))))"

definition class_member_filter__new ::
  "heap_env \<Rightarrow> world \<Rightarrow> type_ref \<Rightarrow> string \<Rightarrow> fault + (nat \<times> 64 word) option \<times> world" where
  "class_member_filter__new h w r sfilter =
     (if avail h 16 then class_member_filter__parse h w r sfilter else Inr (None, w))"

section \<open>Enumerations of the types of records\<close>

definition type__add_type_enum :: "heap_env \<Rightarrow> world \<Rightarrow> type_ref \<Rightarrow> type_ref \<Rightarrow> int \<times> world" where
  "type__add_type_enum h w r e =
     (if \<not> avail h 32 then (-1, w)
      else (0, w\<lparr>wo_pretty := (wo_pretty w)(r := (wo_pretty w r)\<lparr>pr_type_enum := pr_type_enum (wo_pretty w r) @ [e]\<rparr>)\<rparr>))"

text \<open>
  The enumerations of a list separated by \<open>+\<close>.  \<open>ret\<close> holds the result of the last one that was added: when
  a later name is not found the list counts as resolved.
\<close>

function find_enums_loop :: "heap_env \<Rightarrow> world \<Rightarrow> type_ref \<Rightarrow> nat \<Rightarrow> string \<Rightarrow> int \<Rightarrow> fault + int \<times> world" where
  "find_enums_loop h w r u names ret =
     (case cut_at (CHR ''+'') names of
        (cur, rest) \<Rightarrow>
          bindE (world_cu w u) (\<lambda>cu. bindE (cu__find_enumeration_by_name cu (Some cur)) (\<lambda>te.
            case te of
              None \<Rightarrow> Inr (ret, w)
            | Some (i, _) \<Rightarrow>
                (case type__add_type_enum h w r (u, i) of
                   (ret', w') \<Rightarrow>
                     if ret' \<noteq> 0 then Inr (ret', w')
                     else case rest of None \<Rightarrow> Inr (0, w') | Some names' \<Rightarrow> find_enums_loop h w' r u names' ret'))))"
  by pat_completeness auto
termination
  by (relation "measure (\<lambda>(h, w, r, u, names, ret). length names)") (auto dest!: cut_at_length [OF sym])

declare find_enums_loop.simps [simp del]

definition type__find_type_enum :: "heap_env \<Rightarrow> world \<Rightarrow> type_ref \<Rightarrow> nat \<Rightarrow> string \<Rightarrow> fault + int \<times> world" where
  "type__find_type_enum h w r u type_enum =
     bindE (world_cu w u) (\<lambda>cu. bindE (cu__find_enumeration_by_name cu (Some type_enum)) (\<lambda>te.
       case te of
         Some (i, _) \<Rightarrow> Inr (type__add_type_enum h w r (u, i))
       | None \<Rightarrow>
           if CHR ''+'' \<notin> set type_enum then Inr (-1, w)
           else if \<not> avail h (length type_enum + 1) then Inr (-1, w)
           else find_enums_loop h w r u type_enum (-1)))"

section \<open>Reading records\<close>

record pretty_conf =
  pc_hex_fmt :: bool
  pc_count :: nat
  pc_skip :: nat
  pc_seek_bytes :: "string option"
  pc_size_bytes :: "string option"
  pc_range :: "string option"

text \<open>
  The variables of the loop; the length of \<open>rv_mem\<close> is \<open>max_sizeof\<close>, so that what an earlier record
  left behind a shorter one is still there.
\<close>

record rec_vars =
  rv_in :: input
  rv_world :: world
  rv_mem :: "byte list"
  rv_read :: nat
  rv_skip :: nat
  rv_count :: nat
  rv_out :: string

datatype 'a outcome = Go 'a | Done 'a | Failed int 'a

text \<open>The rest of a record that is longer than its type.\<close>

definition read_rest :: "heap_env \<Rightarrow> nat \<Rightarrow> int \<Rightarrow> rec_vars \<Rightarrow> bool \<times> rec_vars" where
  "read_rest h sz real rv =
     (if real \<le> int sz then (True, rv)
      else if real > int (length (rv_mem rv)) \<and> \<not> avail h (nat real) then (False, rv)
      else
        let mem = (if real > int (length (rv_mem rv)) then rv_mem rv @ map (fresh h) [length (rv_mem rv)..<nat real]
                   else rv_mem rv)
        in case c_fread (nat real - sz) (rv_in rv) of
             (None, inp) \<Rightarrow> (False, rv\<lparr>rv_in := inp, rv_mem := mem\<rparr>)
           | (Some bs, inp) \<Rightarrow> (True, rv\<lparr>rv_in := inp, rv_mem := blit sz bs mem\<rparr>))"

definition show_record :: "pretty_conf \<Rightarrow> nat \<Rightarrow> type_ref \<Rightarrow> int \<Rightarrow> rec_vars \<Rightarrow> fault + rec_vars" where
  "show_record pc n r real rv =
     bindE (tag__real_type (rv_world rv) r (rv_mem rv)) (\<lambda>(q, w).
     bindE (tag__fprintf_value n (pc_hex_fmt pc) w (case q of None \<Rightarrow> r | Some i \<Rightarrow> i) (rv_mem rv) real) (\<lambda>s.
       Inr (rv\<lparr>rv_world := w, rv_out := rv_out rv @ s @ '','' @ [char_of (10 :: nat)]\<rparr>)))"

text \<open>One pass of the loop, after \<open>bs\<close> was read.\<close>

definition read_record ::
  "heap_env \<Rightarrow> pretty_conf \<Rightarrow> nat \<Rightarrow> type_ref \<Rightarrow> nat \<Rightarrow> nat \<Rightarrow> byte list \<Rightarrow> rec_vars \<Rightarrow> fault + rec_vars outcome" where
  "read_record h pc n r sz size_bytes bs rv0 =
     (let rv1 = rv0\<lparr>rv_mem := blit 0 bs (rv_mem rv0)\<rparr>
      in bindE (tag__real_sizeof (rv_world rv1) r (int sz) (rv_mem rv1)) (\<lambda>v.
         let real = s32 (uint v)
         in case read_rest h sz real rv1 of
              (False, rv2) \<Rightarrow> Inr (Failed (-1) rv2)
            | (True, rv2) \<Rightarrow>
                let rv = rv2\<lparr>rv_read := nat (u64 (int (rv_read rv2) + real))\<rparr>;
                    after = (\<lambda>rv. Inr (if rv_read rv \<ge> size_bytes then Done rv else Go rv))
                in bindE (world_type (rv_world rv) r) (\<lambda>t. bindE (tag__type t) (\<lambda>ty.
                   bindE (case pr_filter (wo_pretty (rv_world rv) r) of
                            None \<Rightarrow> Inr False
                          | Some f \<Rightarrow> type__filter_value (rv_world rv) r f (rv_mem rv)) (\<lambda>left_out.
                     if left_out then after rv
                     else if rv_skip rv \<noteq> 0 then after (rv\<lparr>rv_skip := rv_skip rv - 1\<rparr>)
                     else
                       bindE (show_record pc n r real rv) (\<lambda>rv3.
                         if pc_count pc = 0 then after rv3
                         else
                           let rv4 = rv3\<lparr>rv_count := u32 (rv_count rv3 + 1)\<rparr>
                           in if rv_count rv4 = pc_count pc then Inr (Done rv4) else after rv4))))))"

definition remaining :: "input \<Rightarrow> nat" where
  "remaining inp = length (in_data inp) - in_pos inp"

lemma c_fread_remaining: "c_fread sz inp = (r, inp') \<Longrightarrow> remaining inp' \<le> remaining inp"
  by (auto simp: c_fread_def remaining_def split: if_splits)

lemma read_rest_remaining: "read_rest h sz real rv = (ok, rv') \<Longrightarrow> remaining (rv_in rv') \<le> remaining (rv_in rv)"
  by (auto simp: read_rest_def Let_def split: if_splits prod.splits option.splits dest: c_fread_remaining)

lemma show_record_in: "show_record pc n r real rv = Inr rv' \<Longrightarrow> rv_in rv' = rv_in rv"
  by (auto simp: show_record_def split: sum.splits prod.splits)

lemma read_record_remaining:
  "read_record h pc n r sz size_bytes bs rv = Inr (Go rv') \<Longrightarrow> remaining (rv_in rv') \<le> remaining (rv_in rv)"
  by (auto simp: read_record_def Let_def split: if_splits sum.splits prod.splits option.splits bool.splits
      dest!: read_rest_remaining show_record_in)

function read_records ::
  "heap_env \<Rightarrow> pretty_conf \<Rightarrow> nat \<Rightarrow> type_ref \<Rightarrow> nat \<Rightarrow> nat \<Rightarrow> rec_vars \<Rightarrow> fault + int \<times> rec_vars" where
  "read_records h pc n r sz size_bytes rv =
     (case c_fread sz (rv_in rv) of
        (None, inp) \<Rightarrow> Inr (0, rv\<lparr>rv_in := inp\<rparr>)
      | (Some bs, inp) \<Rightarrow>
          (case read_record h pc n r sz size_bytes bs (rv\<lparr>rv_in := inp\<rparr>) of
             Inl e \<Rightarrow> Inl e
           | Inr (Go rv') \<Rightarrow> read_records h pc n r sz size_bytes rv'
           | Inr (Done rv') \<Rightarrow> Inr (0, rv')
           | Inr (Failed err rv') \<Rightarrow> Inr (err, rv')))"
  by pat_completeness auto
termination
  by (relation "measure (\<lambda>(h, pc, n, r, sz, size_bytes, rv). remaining (rv_in rv))")
    (auto dest!: c_fread_moves read_record_remaining simp: remaining_def)

declare read_records.simps [simp del]

section \<open>Where to start\<close>

text \<open>
  Seeking; what cannot be seeked is read up to the place.  The errors are -ESPIPE, -EIO and -EINVAL.
\<close>

definition seek_to :: "int \<Rightarrow> int \<Rightarrow> input \<Rightarrow> int \<times> input" where
  "seek_to seek_bytes consumed inp =
     (case c_fseeko seek_bytes inp of
        (r, inp1) \<Rightarrow>
          if r \<noteq> 0 then
            if seek_bytes < consumed then (-29, inp1)
            else (case pipe_seek (seek_bytes - consumed) inp1 of
                    (r2, inp2) \<Rightarrow> (if r2 < 0 then -5 else 0, inp2))
          else if in_regular inp1 \<and> seek_bytes \<ge> int (length (in_data inp1)) then (-22, inp1)
          else (0, inp1))"

text \<open>A member of the header, -ESRCH without a header or such a member.\<close>

definition header_value ::
  "heap_env \<Rightarrow> nat \<Rightarrow> world \<Rightarrow> type_instance option \<Rightarrow> string \<Rightarrow> fault + int + int" where
  "header_value h n w header member_name =
     (case header of
        None \<Rightarrow> Inr (Inl (-3))
      | Some i \<Rightarrow>
          bindE (type_instance__int_value h n w i member_name) (\<lambda>v. Inr (if v < 0 then Inl (-3) else Inr v)))"

text \<open>A number or \<open>$header.member\<close>.\<close>

definition bytes_arg :: "heap_env \<Rightarrow> nat \<Rightarrow> world \<Rightarrow> type_instance option \<Rightarrow> string \<Rightarrow> fault + int + int" where
  "bytes_arg h n w header s =
     (if strstarts s ''$header.'' then header_value h n w header (drop 8 s)
      else Inr (Inr (fst (c_strtoll s))))"

text \<open>The start and the number of bytes to read, or an error.\<close>

definition locate ::
  "heap_env \<Rightarrow> pretty_conf \<Rightarrow> nat \<Rightarrow> world \<Rightarrow> prototype \<Rightarrow> type_instance option \<Rightarrow> int \<Rightarrow> input \<Rightarrow> fault + int \<times> nat \<times> input" where
  "locate h pc n w p header consumed inp =
     (case (case pc_range pc of Some s \<Rightarrow> Some s | None \<Rightarrow> po_range p) of
        Some rng \<Rightarrow>
          let offset_member = rng @ ''.offset''; size_member = rng @ ''.size''
          in if header = None then Inr (-3, 0, inp)
             else if \<not> avail h (length offset_member + 1) then Inr (-12, 0, inp)
             else bindE (header_value h n w header offset_member) (\<lambda>v.
               case v of
                 Inl err \<Rightarrow> Inr (err, 0, inp)
               | Inr seek \<Rightarrow>
                   (case seek_to seek consumed inp of
                      (err, inp1) \<Rightarrow>
                        if err \<noteq> 0 then Inr (err, 0, inp1)
                        else if \<not> avail h (length size_member + 1) then Inr (-12, 0, inp1)
                        else bindE (header_value h n w header size_member) (\<lambda>v2.
                          case v2 of Inl err2 \<Rightarrow> Inr (err2, 0, inp1) | Inr z \<Rightarrow> Inr (0, nat z, inp1))))
      | None \<Rightarrow>
          bindE (case pc_seek_bytes pc of
                   None \<Rightarrow> Inr (0, inp)
                 | Some s \<Rightarrow>
                     bindE (bytes_arg h n w header s) (\<lambda>v.
                       case v of
                         Inl err \<Rightarrow> Inr (err, inp)
                       | Inr seek \<Rightarrow>
                           if strstarts s ''$header.'' \<and> seek < int (length (ti_instance (the header)))
                           then Inr (-22, inp) else Inr (seek_to seek consumed inp))) (\<lambda>(err, inp1).
            if err \<noteq> 0 then Inr (err, 0, inp1)
            else case pc_size_bytes pc of
              None \<Rightarrow> Inr (0, 18446744073709551615, inp1)
            | Some s \<Rightarrow>
                bindE (bytes_arg h n w header s) (\<lambda>v.
                  case v of Inl err2 \<Rightarrow> Inr (err2, 0, inp1) | Inr z \<Rightarrow> Inr (0, nat (u64 z), inp1))))"

record out_state =
  os_header :: "type_instance option"
  os_in :: input
  os_world :: world
  os_out :: string

text \<open>The result is negative for an error, the number of characters printed otherwise.\<close>

definition prototype__stdio_fprintf_value ::
  "heap_env \<Rightarrow> pretty_conf \<Rightarrow> nat \<Rightarrow> prototype \<Rightarrow> out_state \<Rightarrow> fault + int \<times> out_state" where
  "prototype__stdio_fprintf_value h pc n p st =
     (case po_class p of
        None \<Rightarrow> Inl Null_Deref
      | Some r \<Rightarrow>
          bindE (world_cu (os_world st) (fst r)) (\<lambda>cu. bindE (world_type (os_world st) r) (\<lambda>t.
          bindE (tag__size n cu t) (\<lambda>z.
            let sz = s32 (int z)
            in if sz < 0 \<or> \<not> avail h (nat sz) then Inr (-12, st)
               else
                 case type__instance_read_once (os_header st) (os_in st) of
                   (header_bytes, header, inp) \<Rightarrow>
                     let st1 = st\<lparr>os_header := header, os_in := inp\<rparr>
                     in if header_bytes < 0 then Inr (-5, st1)
                        else
                          bindE (locate h pc n (os_world st) p header header_bytes inp) (\<lambda>(err, size_bytes, inp2).
                            if err \<noteq> 0 then Inr (err, st1\<lparr>os_in := inp2\<rparr>)
                            else
                              bindE (read_records h pc n r (nat sz) size_bytes
                                \<lparr>rv_in = inp2, rv_world = os_world st, rv_mem = map (fresh h) [0..<nat sz], rv_read = 0,
                                 rv_skip = pc_skip pc, rv_count = 0, rv_out = []\<rparr>) (\<lambda>(err2, rv).
                                Inr (if err2 \<noteq> 0 then err2 else s32 (int (length (rv_out rv))),
                                  st1\<lparr>os_in := rv_in rv, os_world := rv_world rv, os_out := os_out st @ rv_out rv\<rparr>)))))))"

end
