(* ===== verification/RecordsRead.thy ===== *)
theory RecordsRead
  imports Records
begin

text \<open>
  What reading records does: a pipe is read up to the place asked for, records of a fixed size are
  printed one after the other, and what is wrong with longer paths, incomplete lists of enumerations
  and records that are shorter than their type.
\<close>

section \<open>Seeking in a pipe\<close>

lemma pipe_seek_loop_reads:
  assumes "0 < offset" and "chunk = min c (nat offset)" and "0 < c"
  shows "\<exists>inp'. pipe_seek_loop offset chunk inp = (if offset \<le> int (remaining inp) then 0 else -1, inp') \<and>
    (offset \<le> int (remaining inp) \<longrightarrow> inp' = inp\<lparr>in_pos := in_pos inp + nat offset\<rparr>)"
  using assms
proof (induction offset chunk inp rule: pipe_seek_loop.induct)
  case (1 offset chunk inp)
  show ?case
  proof (cases "in_pos inp + chunk \<le> length (in_data inp)")
    case False
    then show ?thesis
      using 1(2-4) by (auto simp: pipe_seek_loop.simps [of offset] c_fread_def remaining_def)
  next
    case True
    let ?inp = "inp\<lparr>in_pos := in_pos inp + chunk\<rparr>"
    have pos: "0 < chunk" using 1(2-4) by simp
    obtain bs where r: "c_fread chunk inp = (Some bs, ?inp)" using True pos by (simp add: c_fread_def)
    show ?thesis
    proof (cases "offset = int chunk")
      case True
      have "pipe_seek_loop offset chunk inp = (0, ?inp)"
        by (subst pipe_seek_loop.simps) (simp add: r True)
      then show ?thesis
        using True \<open>in_pos inp + chunk \<le> length (in_data inp)\<close> by (simp add: remaining_def)
    next
      case False
      have lt: "int chunk < offset" "chunk = c" using False 1(2,3) by auto
      have ch: "(if offset - int chunk < int chunk then nat (offset - int chunk) else chunk) = min c (nat (offset - int chunk))"
        using lt by auto
      obtain inp' where ih: "pipe_seek_loop (offset - int chunk) (min c (nat (offset - int chunk))) ?inp =
            (if offset - int chunk \<le> int (remaining ?inp) then 0 else -1, inp')"
          "offset - int chunk \<le> int (remaining ?inp) \<longrightarrow> inp' = ?inp\<lparr>in_pos := in_pos ?inp + nat (offset - int chunk)\<rparr>"
        using 1(1) [OF r [symmetric] refl refl] False lt 1(4) ch by auto
      have rem: "offset - int chunk \<le> int (remaining ?inp) \<longleftrightarrow> offset \<le> int (remaining inp)"
        using True by (auto simp: remaining_def)
      show ?thesis
        using ih False lt(1) ch rem by (auto simp: pipe_seek_loop.simps [of offset] r Let_def)
    qed
  qed
qed

text \<open>Seeking in an input that cannot be seeked reads exactly up to the place: it succeeds when
  that many bytes are left, however many pieces of 4096 they make, and then the input stands right
  there; a negative distance or one behind the end is an error.\<close>

theorem pipe_seek_exact:
  "\<exists>inp'. pipe_seek offset inp = (if 0 \<le> offset \<and> offset \<le> int (remaining inp) then 0 else -1, inp') \<and>
    (0 \<le> offset \<longrightarrow> offset \<le> int (remaining inp) \<longrightarrow> inp' = inp\<lparr>in_pos := in_pos inp + nat offset\<rparr>)"
proof -
  consider "offset < 0" | "offset = 0" | "0 < offset" by linarith
  then show ?thesis
  proof cases
    case 3
    have "(if 4096 > offset then nat offset else 4096) = min 4096 (nat offset)" using 3 by auto
    then show ?thesis
      using pipe_seek_loop_reads [OF 3 _, of "min 4096 (nat offset)" 4096 inp] 3 by (simp add: pipe_seek_def)
  qed (simp_all add: pipe_seek_def)
qed

theorem pipe_seek_exact_witness:
  "let inp = \<lparr>in_data = [1, 2, 3, 4, 5], in_pos = 1, in_seekable = False, in_regular = False\<rparr>
   in \<exists>inp'. pipe_seek 3 inp = (0, inp') \<and> in_pos inp' = 4"
proof -
  let ?inp = "\<lparr>in_data = [1, 2, 3, 4, 5], in_pos = 1, in_seekable = False, in_regular = False\<rparr>"
  have "int (remaining ?inp) = 4" by (simp add: remaining_def)
  then show ?thesis using pipe_seek_exact [of 3 ?inp] by (auto simp: Let_def)
qed

section \<open>Records of a fixed size\<close>

function records :: "nat \<Rightarrow> byte list \<Rightarrow> byte list list" where
  "records sz bs = (if sz = 0 \<or> length bs < sz then [] else take sz bs # records sz (drop sz bs))"
  by pat_completeness auto
termination
  by (relation "measure (\<lambda>(sz, bs). length bs)") auto

declare records.simps [simp del]

definition plain_pretty :: pretty where
  "plain_pretty = \<lparr>pr_sizeof_member = None, pr_type_member = None, pr_type_enum = [], pr_filter = None\<rparr>"

text \<open>What is printed of a list of records that come after \<open>count\<close> printed ones.\<close>

fun shown :: "nat \<Rightarrow> nat \<Rightarrow> nat \<Rightarrow> 'a list \<Rightarrow> 'a list" where
  "shown limit sk count [] = []"
| "shown limit sk count (x # xs) =
     (if sk \<noteq> 0 then shown limit (sk - 1) count xs
      else if limit \<noteq> 0 \<and> Suc count = limit then [x] else x # shown limit 0 (Suc count) xs)"

lemma shown_eq: "limit = 0 \<Longrightarrow> shown limit sk count xs = drop sk xs"
  "count < limit \<Longrightarrow> shown limit sk count xs = take (limit - count) (drop sk xs)"
proof (induction xs arbitrary: sk count)
  case (Cons x xs)
  {
    case 1
    then show ?case using Cons.IH(1) by (cases sk) auto
  next
    case 2
    have "limit - count = Suc (limit - Suc count)" using 2 by simp
    then show ?case
      using 2 Cons.IH(2) [of "Suc count" 0] Cons.IH(2) [of count "sk - 1"]
      by (cases "Suc count = limit") (cases sk; simp)+
  }
qed simp_all


lemma shown_take: "limit = 0 \<or> 0 < limit \<Longrightarrow>
    shown limit sk 0 xs = (if limit = 0 then drop sk xs else take limit (drop sk xs))"
  using shown_eq [of limit sk 0 xs] shown_eq(2) [of 0 limit sk xs] by auto

text \<open>The records that are read until \<open>size_bytes\<close> bytes have been.\<close>

fun up_to :: "nat \<Rightarrow> nat \<Rightarrow> nat \<Rightarrow> 'a list \<Rightarrow> 'a list" where
  "up_to sz size_bytes done_bytes [] = []"
| "up_to sz size_bytes done_bytes (x # xs) =
     x # (if size_bytes \<le> done_bytes + sz then [] else up_to sz size_bytes (done_bytes + sz) xs)"

lemma up_to_eq:
  assumes "0 < sz"
  shows "up_to sz m k xs = take (max 1 ((m - k + sz - 1) div sz)) xs"
proof (induction xs arbitrary: k)
  case (Cons x xs)
  show ?case
  proof (cases "m \<le> k + sz")
    case True
    then have "(m - k + sz - 1) div sz \<le> 1"
      using assms by (simp add: less_mult_imp_div_less [of _ 2, simplified less_2_cases_iff] div_le_mono less_Suc_eq_le [symmetric] div_less_iff_less_mult)
    then have "max 1 ((m - k + sz - 1) div sz) = 1" by simp
    then show ?thesis using True by simp
  next
    case False
    have "m - k + sz - 1 = (m - (k + sz) + sz - 1) + sz" using False assms by simp
    then have "(m - k + sz - 1) div sz = Suc ((m - (k + sz) + sz - 1) div sz)"
      using assms by (metis add.commute div_add_self1 not_gr_zero plus_1_eq_Suc)
    moreover have "1 \<le> (m - (k + sz) + sz - 1) div sz" using False assms by (simp add: Suc_leI div_greater_zero_iff)
    ultimately show ?thesis using False Cons.IH [of "k + sz"] by (simp add: max_def)
  qed
qed simp

definition record_line :: "string \<Rightarrow> string" where "record_line s = s @ '','' @ [char_of (10 :: nat)]"

text \<open>A type whose records all have its size, and how its records are printed.\<close>

definition fixed_size :: "world \<Rightarrow> type_ref \<Rightarrow> bool" where
  "fixed_size w r \<longleftrightarrow> wo_pretty w r = plain_pretty \<and> (\<exists>t ty. world_type w r = Inr t \<and> tag__type t = Inr ty)"

lemma read_record_fixed:
  assumes "fixed_size (rv_world rv) r" "length (rv_mem rv) = length bs" "length bs < 2147483648"
    "rv_read rv + length bs < 18446744073709551616"
    "tag__fprintf_value n (pc_hex_fmt pc) (rv_world rv) r bs (int (length bs)) = Inr s"
    "pc_count pc < 4294967296" "pc_count pc = 0 \<or> rv_count rv < pc_count pc"
  shows "read_record h pc n r (length bs) size_bytes bs rv = Inr (
     let rv1 = rv\<lparr>rv_mem := bs, rv_read := rv_read rv + length bs\<rparr>;
         after = (\<lambda>rv. if rv_read rv \<ge> size_bytes then Done rv else Go rv)
     in if rv_skip rv \<noteq> 0 then after (rv1\<lparr>rv_skip := rv_skip rv - 1\<rparr>)
        else let rv2 = rv1\<lparr>rv_out := rv_out rv @ record_line s\<rparr>
             in if pc_count pc = 0 then after rv2
                else let rv3 = rv2\<lparr>rv_count := Suc (rv_count rv)\<rparr>
                     in if Suc (rv_count rv) = pc_count pc then Done rv3 else after rv3)"
proof -
  obtain t ty where t: "world_type (rv_world rv) r = Inr t" "tag__type t = Inr ty" and
    p: "wo_pretty (rv_world rv) r = plain_pretty" using assms(1) by (auto simp: fixed_size_def)
  have b: "blit 0 bs (rv_mem rv) = bs" using assms(2) by (simp add: blit_def)
  have sz: "tag__real_sizeof (rv_world rv) r (int (length bs)) bs = Inr (word_of_nat (length bs))"
    using t p by (simp add: tag__real_sizeof_def plain_pretty_def split: bool.splits)
  have u: "uint (word_of_nat (length bs) :: 64 word) = int (length bs)"
    using assms(3) by (simp add: unsigned_of_nat take_bit_nat_eq_self)
  have s: "s32 (int (length bs)) = int (length bs)" using assms(3) by (simp add: c_simps)
  have ty: "tag__real_type (rv_world rv) r bs = Inr (Some r, rv_world rv)"
    using t p by (simp add: tag__real_type_def plain_pretty_def)
  have rd: "nat (u64 (int (rv_read rv) + int (length bs))) = rv_read rv + length bs" using assms(4) by simp
  have c: "u32 (Suc (rv_count rv)) = Suc (rv_count rv)" if "pc_count pc \<noteq> 0" using assms(6,7) that by auto
  show ?thesis
    using c t p assms(5)
    by (auto simp: read_record_def b sz u s read_rest_def show_record_def ty plain_pretty_def rd Let_def record_line_def)
qed

lemma read_records_fixed:
  assumes "fixed_size (rv_world rv) r" "length (rv_mem rv) = sz" "0 < sz" "sz < 2147483648"
    "rv_read rv + remaining (rv_in rv) < 18446744073709551616"
    "\<And>bs. length bs = sz \<Longrightarrow> tag__fprintf_value n (pc_hex_fmt pc) (rv_world rv) r bs (int sz) = Inr (f bs)"
    "pc_count pc < 4294967296" "pc_count pc = 0 \<or> rv_count rv < pc_count pc"
  shows "\<exists>rv'. read_records h pc n r sz m rv = Inr (0, rv') \<and>
    rv_out rv' = rv_out rv @ concat (map (record_line \<circ> f) (shown (pc_count pc) (rv_skip rv) (rv_count rv)
      (up_to sz m (rv_read rv) (records sz (drop (in_pos (rv_in rv)) (in_data (rv_in rv)))))))"
  using assms
proof (induction "remaining (rv_in rv)" arbitrary: rv rule: less_induct)
  case less
  let ?inp = "rv_in rv" let ?d = "drop (in_pos ?inp) (in_data ?inp)"
  show ?case
  proof (cases "in_pos ?inp + sz \<le> length (in_data ?inp)")
    case False
    then have "records sz ?d = []" using less.prems(3) by (subst records.simps) auto
    then show ?thesis
      using less.prems(3) False by (simp add: read_records.simps [of h pc n r sz m rv] c_fread_def)
  next
    case True
    define bs where "bs = take sz ?d"
    have l: "length bs = sz" using True by (simp add: bs_def)
    let ?inp' = "?inp\<lparr>in_pos := in_pos ?inp + sz\<rparr>"
    have fr: "c_fread sz ?inp = (Some bs, ?inp')" using True less.prems(3) by (simp add: c_fread_def bs_def)
    have recs: "records sz ?d = bs # records sz (drop (in_pos ?inp') (in_data ?inp'))"
      using True less.prems(3) by (simp add: records.simps [of sz ?d] bs_def add.commute)
    have rem: "remaining ?inp' + sz = remaining ?inp" using True by (simp add: remaining_def)
    note one = read_record_fixed [of "rv\<lparr>rv_in := ?inp'\<rparr>" r bs n pc "f bs" h m, unfolded l]
    have step: "read_record h pc n r sz m bs (rv\<lparr>rv_in := ?inp'\<rparr>) = Inr (
       let rv1 = rv\<lparr>rv_in := ?inp', rv_mem := bs, rv_read := rv_read rv + sz\<rparr>;
           after = (\<lambda>rv. if rv_read rv \<ge> m then Done rv else Go rv)
       in if rv_skip rv \<noteq> 0 then after (rv1\<lparr>rv_skip := rv_skip rv - 1\<rparr>)
          else let rv2 = rv1\<lparr>rv_out := rv_out rv @ record_line (f bs)\<rparr>
               in if pc_count pc = 0 then after rv2
                  else let rv3 = rv2\<lparr>rv_count := Suc (rv_count rv)\<rparr>
                       in if Suc (rv_count rv) = pc_count pc then Done rv3 else after rv3)"
      using one less.prems l rem by (simp add: Let_def)
    note ih = less.hyps [OF _ _ _ less.prems(3,4) _ _ less.prems(7)]
    let ?rv1 = "rv\<lparr>rv_in := ?inp', rv_mem := bs, rv_read := rv_read rv + sz\<rparr>"
    have go: "\<exists>rv'. read_records h pc n r sz m rv1 = Inr (0, rv') \<and>
        rv_out rv' = rv_out rv1 @ concat (map (record_line \<circ> f) (shown (pc_count pc) (rv_skip rv1) (rv_count rv1)
          (up_to sz m (rv_read rv + sz) (records sz (drop (in_pos ?inp') (in_data ?inp'))))))"
      if "rv_in rv1 = ?inp'" "rv_mem rv1 = bs" "rv_read rv1 = rv_read rv + sz" "rv_world rv1 = rv_world rv"
        "pc_count pc = 0 \<or> rv_count rv1 < pc_count pc" for rv1
      using ih [of rv1] that less.prems l rem by simp
    note simps = read_records.simps [of h pc n r sz m rv] fr step recs Let_def
    show ?thesis
    proof (cases "rv_skip rv = 0")
      case False
      then show ?thesis
        using less.prems(8) go [of "?rv1\<lparr>rv_skip := rv_skip rv - 1\<rparr>"] by (auto simp: simps)
    next
      case skip: True
      show ?thesis
      proof (cases "pc_count pc = 0")
        case True
        then show ?thesis
          using skip go [of "?rv1\<lparr>rv_out := rv_out rv @ record_line (f bs)\<rparr>"]
          by (auto simp: simps shown_eq(1) [OF refl])
      next
        case False
        then show ?thesis
          using skip less.prems(8)
            go [of "?rv1\<lparr>rv_out := rv_out rv @ record_line (f bs), rv_count := Suc (rv_count rv)\<rparr>"]
          by (cases "Suc (rv_count rv) = pc_count pc") (auto simp: simps)
      qed
    qed
  qed
qed


text \<open>C22: Records of a fixed size are printed one to a line in the order of the input: the first
  \<open>skip\<close> of those that \<open>size_bytes\<close> asks for (at least one) are passed over, the rest printed, at
  most \<open>count\<close> if that is given; an incomplete record at the end of the input is left out.\<close>

theorem records_printed_in_order:
  assumes "fixed_size w r" and "0 < sz" and "sz < 2147483648" and "length mem = sz"
    and "remaining inp < 18446744073709551616" and "pc_count pc < 4294967296"
    and "\<And>bs. length bs = sz \<Longrightarrow> tag__fprintf_value n (pc_hex_fmt pc) w r bs (int sz) = Inr (f bs)"
  shows "let recs = drop (pc_skip pc)
      (take (max 1 ((size_bytes + sz - 1) div sz)) (records sz (drop (in_pos inp) (in_data inp))))
    in \<exists>rv. read_records h pc n r sz size_bytes
      \<lparr>rv_in = inp, rv_world = w, rv_mem = mem, rv_read = 0, rv_skip = pc_skip pc, rv_count = 0, rv_out = []\<rparr> = Inr (0, rv) \<and>
    rv_out rv = concat (map (record_line \<circ> f) (if pc_count pc = 0 then recs else take (pc_count pc) recs))"
proof -
  have "pc_count pc = 0 \<or> 0 < pc_count pc" by linarith
  then show ?thesis
    using assms(1-6) read_records_fixed
      [of "\<lparr>rv_in = inp, rv_world = w, rv_mem = mem, rv_read = 0, rv_skip = pc_skip pc, rv_count = 0, rv_out = []\<rparr>"
        r sz n pc f h size_bytes] assms(7)
    by (auto simp: shown_take up_to_eq Let_def)
qed

definition sample_world :: world where
  "sample_world = \<lparr>wo_cus = [sample_cu [None, Some \<lparr>tg_tag = DW_TAG_union_type, tg_type = 0, tg_body = Class_body class_zero\<rparr>]],
     wo_pretty = (\<lambda>_. plain_pretty), wo_real = (\<lambda>_. None)\<rparr>"

lemma sample_world_type:
  "world_type sample_world (0, 1) = Inr \<lparr>tg_tag = DW_TAG_union_type, tg_type = 0, tg_body = Class_body class_zero\<rparr>"
  by (simp add: world_type_def world_cu_def sample_world_def sample_cu_inv)

theorem records_printed_in_order_witness:
  "let inp = \<lparr>in_data = [9, 1, 2, 3, 4, 5, 6, 7], in_pos = 1, in_seekable = True, in_regular = True\<rparr>;
       pc = \<lparr>pc_hex_fmt = False, pc_count = 1, pc_skip = 1, pc_seek_bytes = None, pc_size_bytes = None, pc_range = None\<rparr>
   in \<exists>rv. read_records \<lparr>avail = \<lambda>_. True, fresh = \<lambda>_. 0\<rparr> pc 3 (0, 1) 2 100
      \<lparr>rv_in = inp, rv_world = sample_world, rv_mem = [0, 0], rv_read = 0, rv_skip = 1, rv_count = 0, rv_out = []\<rparr> = Inr (0, rv) \<and>
    rv_out rv = ''0x03 0x04,'' @ [char_of (10 :: nat)]"
proof -
  let ?inp = "\<lparr>in_data = [9, 1, 2, 3, 4, 5, 6, 7], in_pos = 1, in_seekable = True, in_regular = True\<rparr>"
  let ?pc = "\<lparr>pc_hex_fmt = False, pc_count = 1, pc_skip = 1, pc_seek_bytes = None, pc_size_bytes = None, pc_range = None\<rparr>"
  let ?f = "\<lambda>bs :: byte list. drop 1 (concat (map (\<lambda>b. '' 0x'' @ [digit_char (unat b div 16), digit_char (unat b mod 16)]) bs))"
  have p: "tag__fprintf_value 3 (pc_hex_fmt ?pc) sample_world (0, 1) bs (int 2) = Inr (?f bs)" if "length bs = 2" for bs
    using that by (simp add: tag__fprintf_value_def sample_world_type [simplified] tag_defs instance__fprintf_hexdump_value_def)
  have fixed: "fixed_size sample_world (0, 1)"
    unfolding fixed_size_def sample_world_type by (simp add: sample_world_def tag__type_def)
  have d: "digit_char 0 = CHR ''0''" "digit_char 3 = CHR ''3''" "digit_char 4 = CHR ''4''" by code_simp+
  have recs: "records 2 [1, 2, 3, 4, 5, 6, 7] = [[1, 2], [3, 4], [5, 6]]"
    by (simp add: records.simps)
  show ?thesis
    using records_printed_in_order [OF fixed, of 2 "[0, 0]" ?inp ?pc 3 ?f 100 "\<lparr>avail = \<lambda>_. True, fresh = \<lambda>_. 0\<rparr>"] p
    by (simp add: Let_def remaining_def recs record_line_def d)
qed

section \<open>Paths and lists that are cut short\<close>

text \<open>
  Only the first dot of a path is overwritten: a third component is looked for together with the
  second one, so no path of three names is ever found.
\<close>

lemma path_of_three_not_found:
  assumes "\<And>ty :: type_t. type__find_member_by_name ty (Some (b @ CHR ''.'' # c)) = None"
    and "CHR ''.'' \<notin> set b"
  shows "\<exists>e. member_path cu ty a (b @ CHR ''.'' # c) k \<in> {Inl e, Inr None}"
proof -
  have cut: "cut_at (CHR ''.'') (b @ CHR ''.'' # c) = (b, Some c)" using assms(2) by (rule cut_at_here)
  have "member_path cu ty' (b @ CHR ''.'' # c) c k' = Inr None" for ty' k'
    by (subst member_path.simps) (simp add: assms(1))
  then show ?thesis
    by (subst member_path.simps) (auto simp: cut Let_def split: option.split sum.split)
qed

text \<open>A list of enumerations counts as resolved when only its first one is found.\<close>

lemma later_enumeration_missing:
  assumes "world_cu w u = Inr cu" and "cu__find_enumeration_by_name cu (Some a) = Inr (Some (i, t))"
    and "cu__find_enumeration_by_name cu (Some b) = Inr None" and "CHR ''+'' \<notin> set a" and "CHR ''+'' \<notin> set b"
    and "avail h 32"
  shows "\<exists>w'. find_enums_loop h w r u (a @ CHR ''+'' # b) (-1) = Inr (0, w')"
proof -
  have cut: "cut_at (CHR ''+'') (a @ CHR ''+'' # b) = (a, Some b)" "cut_at (CHR ''+'') b = (b, None)"
    using assms(4,5) by (simp add: cut_at_here) (use assms(5) in \<open>induction b\<close>, auto split: prod.split)
  have w: "wo_cus (snd (type__add_type_enum h w r e)) = wo_cus w" for e
    by (simp add: type__add_type_enum_def)
  show ?thesis
    using assms w
    by (subst find_enums_loop.simps, subst find_enums_loop.simps)
      (auto simp: cut type__add_type_enum_def world_cu_def split: prod.split if_splits)
qed

end
