(* ===== verification/Structures.thy ===== *)
theory Structures
  imports Values Packed Reorganize Languages
begin

text \<open>
  The structures pahole has seen (\<open>pahole.c\<close>): a tree ordered by name, size, number of members and
  members, and a list in the order they were added; which types are wanted; and what is printed about
  them.  A node is known by its place in the list; what is printed is the string it adds to the output.
\<close>

record structure_t =
  st_class :: type_ref
  st_id :: nat
  st_nr_files :: nat
  st_nr_methods :: nat

record structures =
  ss_list :: "structure_t list"
  ss_tree :: "nat rbt"
  ss_resort :: bool

definition structure__new :: "heap_env \<Rightarrow> type_ref \<Rightarrow> nat \<Rightarrow> structure_t option" where
  "structure__new h r i =
     (if avail h 72 then Some \<lparr>st_class = r, st_id = i, st_nr_files = 1, st_nr_methods = 0\<rparr> else None)"

section \<open>Comparing types\<close>

text \<open>
  The second member is whatever follows in the list of tags, data member or not; what is not a member
  is read beyond its end.
\<close>

definition compare_member :: "class_member \<Rightarrow> class_member \<Rightarrow> int" where
  "compare_member ma mb =
     (let ret = (case (cm_name ma, cm_name mb) of (Some a, Some b) \<Rightarrow> c_strcmp a b | _ \<Rightarrow> 0)
      in if ret \<noteq> 0 then ret
         else
           let ret2 = s32 (int (cm_bit_offset ma)) - s32 (int (cm_bit_offset mb))
           in if ret2 \<noteq> 0 then ret2 else int (cm_bitfield_size ma) - int (cm_bitfield_size mb))"

fun compare_members :: "class_member list \<Rightarrow> ns_entry list \<Rightarrow> fault + int" where
  "compare_members [] bs = Inr 0"
| "compare_members (ma # mas) bs =
     (case bs of
        Member mb # bs' \<Rightarrow>
          if compare_member ma mb \<noteq> 0 then Inr (compare_member ma mb) else compare_members mas bs'
      | _ \<Rightarrow> Inl Out_Of_Bounds)"

text \<open>The second component is the new value of \<open>need_resort\<close>.\<close>

definition type__compare_members :: "bool \<Rightarrow> type_t \<Rightarrow> type_t \<Rightarrow> bool \<Rightarrow> fault + int \<times> bool" where
  "type__compare_members sort_output a b need_resort =
     (if ty_nr_members a = 0 then Inr (0, need_resort)
      else
        bindE (compare_members (type__members (ty_tags a)) (ty_tags b)) (\<lambda>ret.
          if ret \<noteq> 0 then Inr (ret, need_resort)
          else if sort_output then Inr (1, True)
          else Inr (0, need_resort)))"

definition name_compare :: "string option \<Rightarrow> string option \<Rightarrow> fault + int" where
  "name_compare a b = (case (a, b) of (Some x, Some y) \<Rightarrow> Inr (c_strcmp x y) | _ \<Rightarrow> Inl Null_Deref)"

definition type__compare :: "bool \<Rightarrow> type_t \<Rightarrow> type_t \<Rightarrow> bool \<Rightarrow> fault + int \<times> bool" where
  "type__compare sort_output a b need_resort =
     bindE (name_compare (ty_name a) (ty_name b)) (\<lambda>ret.
       if ret \<noteq> 0 then Inr (ret, need_resort)
       else
         let size_ret = s32 (int (ty_size a)) - s32 (int (ty_size b));
             nr_ret = int (ty_nr_members a) - int (ty_nr_members b)
         in if size_ret \<noteq> 0 then Inr (size_ret, need_resort)
            else if nr_ret \<noteq> 0 then Inr (nr_ret, need_resort)
            else type__compare_members sort_output a b need_resort)"

text \<open>Here the types of the members count as well; a type that is not there makes the members differ.\<close>

fun compare_members_types :: "nat \<Rightarrow> cu \<Rightarrow> cu \<Rightarrow> class_member list \<Rightarrow> ns_entry list \<Rightarrow> fault + int" where
  "compare_members_types n cu_a cu_b [] bs = Inr 0"
| "compare_members_types n cu_a cu_b (ma # mas) bs =
     (case bs of
        Member mb # bs' \<Rightarrow>
          bindE (cu_type cu_a (cm_type ma)) (\<lambda>type_ma. bindE (cu_type cu_b (cm_type mb)) (\<lambda>type_mb.
            if type_ma \<noteq> None \<and> type_mb = None \<and> cm_name mb = None then Inr 0
            else if type_ma = None \<or> type_mb = None then Inr (if type_ma \<noteq> None then 1 else -1)
            else if compare_member ma mb \<noteq> 0 then Inr (compare_member ma mb)
            else
              bindE (tag_name_fuel n (conf_fprintf__defaults 64) cu_a type_ma 1024) (\<lambda>bf_a.
              bindE (tag_name_fuel n (conf_fprintf__defaults 64) cu_b type_mb 1024) (\<lambda>bf_b.
                if c_strcmp bf_a bf_b \<noteq> 0 then Inr (c_strcmp bf_a bf_b)
                else compare_members_types n cu_a cu_b mas bs'))))
      | _ \<Rightarrow> Inl Out_Of_Bounds)"

definition type__compare_members_types :: "nat \<Rightarrow> cu \<Rightarrow> type_t \<Rightarrow> cu \<Rightarrow> type_t \<Rightarrow> fault + int" where
  "type__compare_members_types n cu_a a cu_b b =
     bindE (name_compare (ty_name a) (ty_name b)) (\<lambda>ret.
       if ret \<noteq> 0 then Inr ret
       else if ty_nr_members a = 0 then Inr 0
       else compare_members_types n cu_a cu_b (type__members (ty_tags a)) (ty_tags b))"

section \<open>The tree\<close>

text \<open>The walk from the root; \<open>cmp\<close> compares a node with what is looked for.\<close>

fun structures_walk ::
  "('a \<Rightarrow> 's \<Rightarrow> fault + int \<times> 's) \<Rightarrow> 'a rbt \<Rightarrow> 'a path \<Rightarrow> 's \<Rightarrow> fault + ('a rbt \<times> 'a path) \<times> 's" where
  "structures_walk cmp NIL ps s = Inr ((NIL, ps), s)"
| "structures_walk cmp (RB c l k r) ps s =
     bindE (cmp k s) (\<lambda>(rc, s').
       if rc > 0 then structures_walk cmp l (FL c k r # ps) s'
       else if rc < 0 then structures_walk cmp r (FR c l k # ps) s'
       else Inr ((RB c l k r, ps), s'))"

definition world_ty :: "world \<Rightarrow> type_ref \<Rightarrow> fault + type_t" where
  "world_ty w r = bindE (world_type w r) tag__type"

definition node_class :: "structures \<Rightarrow> nat \<Rightarrow> type_ref" where
  "node_class ss k = st_class (ss_list ss ! k)"

text \<open>The place of the node (\<open>None\<close> is NULL) and whether it was there already.\<close>

definition structures__add ::
  "heap_env \<Rightarrow> bool \<Rightarrow> world \<Rightarrow> type_ref \<Rightarrow> nat \<Rightarrow> structures \<Rightarrow> fault + (nat option \<times> bool) \<times> structures" where
  "structures__add h sort_output w r i ss =
     bindE (world_ty w r) (\<lambda>ty.
     bindE (structures_walk (\<lambda>k rs. bindE (world_ty w (node_class ss k)) (\<lambda>tk. type__compare sort_output tk ty rs))
              (ss_tree ss) [] (ss_resort ss)) (\<lambda>(z, rs).
       let ss1 = ss\<lparr>ss_resort := rs\<rparr>
       in case z_key z of
            Some k \<Rightarrow> Inr ((Some k, True), ss1)
          | None \<Rightarrow>
              (case structure__new h r i of
                 None \<Rightarrow> Inr ((None, False), ss1)
               | Some str \<Rightarrow>
                   (case rb_link_insert (length (ss_list ss)) z of
                      None \<Rightarrow> Inl Null_Deref
                    | Some t \<Rightarrow> Inr ((Some (length (ss_list ss)), False), ss1\<lparr>ss_tree := t, ss_list := ss_list ss @ [str]\<rparr>)))))"

definition upd_structure :: "nat \<Rightarrow> (structure_t \<Rightarrow> structure_t) \<Rightarrow> structures \<Rightarrow> structures" where
  "upd_structure k f ss = ss\<lparr>ss_list := (ss_list ss)[k := f (ss_list ss ! k)]\<rparr>"

text \<open>The node a pointer stands for, found again by going through the tree.\<close>

fun node_place :: "nat \<Rightarrow> nat rbt \<Rightarrow> nat path \<Rightarrow> (nat rbt \<times> nat path) option" where
  "node_place k NIL ps = None"
| "node_place k (RB c l x r) ps =
     (if x = k then Some (RB c l x r, ps)
      else case node_place k l (FL c x r # ps) of
             Some z \<Rightarrow> Some z
           | None \<Rightarrow> node_place k r (FR c l x # ps))"

text \<open>\<open>next\<close> is computed before the node is taken out.\<close>

fun structures_delete_loop :: "nat \<Rightarrow> nat rbt \<Rightarrow> nat option \<Rightarrow> fault + nat rbt" where
  "structures_delete_loop fuel t None = Inr t"
| "structures_delete_loop 0 t (Some k) = Inl Out_Of_Fuel"
| "structures_delete_loop (Suc fuel) t (Some k) =
     (case node_place k t [] of
        None \<Rightarrow> Inl Null_Deref
      | Some z \<Rightarrow>
          (case rb_erase z of
             None \<Rightarrow> Inl Null_Deref
           | Some t' \<Rightarrow> structures_delete_loop fuel t' (case rb_next z of None \<Rightarrow> None | Some y \<Rightarrow> z_key y)))"

definition structures__delete :: "structures \<Rightarrow> fault + nat rbt" where
  "structures__delete ss =
     structures_delete_loop (length (ss_list ss)) (ss_tree ss)
       (case rb_first (ss_tree ss) of None \<Rightarrow> None | Some z \<Rightarrow> z_key z)"

section \<open>Sorting again\<close>

definition resort_add :: "nat \<Rightarrow> world \<Rightarrow> structures \<Rightarrow> nat \<Rightarrow> nat rbt \<Rightarrow> fault + nat rbt" where
  "resort_add n w ss k resorted =
     (let r = node_class ss k
      in bindE (world_cu w (fst r)) (\<lambda>cu. bindE (world_ty w r) (\<lambda>ty.
         bindE (structures_walk (\<lambda>j s.
                  bindE (world_cu w (fst (node_class ss j))) (\<lambda>cuj. bindE (world_ty w (node_class ss j)) (\<lambda>tj.
                  bindE (type__compare_members_types n cuj tj cu ty) (\<lambda>rc. Inr (rc, s))))) resorted [] ()) (\<lambda>(z, s).
           case z_key z of
             Some k' \<Rightarrow> Inr resorted
           | None \<Rightarrow> (case rb_link_insert k z of None \<Rightarrow> Inl Null_Deref | Some t \<Rightarrow> Inr t)))))"

definition resort_classes :: "nat \<Rightarrow> world \<Rightarrow> structures \<Rightarrow> fault + nat rbt" where
  "resort_classes n w ss = fold_e (resort_add n w ss) [0..<length (ss_list ss)] NIL"

text \<open>The order in which all types are printed at the end.\<close>

definition ordered_classes :: "nat \<Rightarrow> world \<Rightarrow> structures \<Rightarrow> fault + nat list" where
  "ordered_classes n w ss =
     bindE (if ss_resort ss then resort_classes n w ss else Inr (ss_tree ss)) (\<lambda>t.
       Inr (case rb_first t of None \<Rightarrow> [] | Some z \<Rightarrow> rb_keys_from z))"

end
