(* ===== verification/StructuresAdd.thy ===== *)
theory StructuresAdd
  imports Structures Strlist "HOL-Library.Product_Lexorder"
begin

text \<open>
  The tree of structures against its specification: types are compared by a key that is linearly ordered,
  adding a type changes the list of keys only when its key is new, and the tree gives the keys in order.
  What the comparison does when members have no names or their numbers differ is at the end.
\<close>

section \<open>Keys\<close>

datatype type_key = Type_Key string nat nat "(string \<times> nat \<times> nat) list"

fun key_tuple :: "type_key \<Rightarrow> string \<times> nat \<times> nat \<times> (string \<times> nat \<times> nat) list" where
  "key_tuple (Type_Key nm sz nr ms) = (nm, sz, nr, ms)"

lemma key_tuple_inj [simp]: "key_tuple a = key_tuple b \<longleftrightarrow> a = b"
  by (cases a; cases b) simp

instantiation type_key :: linorder
begin

definition less_eq_type_key :: "type_key \<Rightarrow> type_key \<Rightarrow> bool" where
  "less_eq_type_key a b \<longleftrightarrow> key_tuple a \<le> key_tuple b"

definition less_type_key :: "type_key \<Rightarrow> type_key \<Rightarrow> bool" where
  "less_type_key a b \<longleftrightarrow> key_tuple a < key_tuple b"

instance
  by standard (auto simp: less_eq_type_key_def less_type_key_def less_le)

end

definition member_key :: "class_member \<Rightarrow> string \<times> nat \<times> nat" where
  "member_key m = (str_or_empty (cm_name m), cm_bit_offset m, cm_bitfield_size m)"

definition type_key_of :: "type_t \<Rightarrow> type_key" where
  "type_key_of ty = Type_Key (str_or_empty (ty_name ty)) (ty_size ty) (ty_nr_members ty)
     (map member_key (type__members (ty_tags ty)))"

text \<open>A type with a name whose tags are all members with names, counted right.\<close>

fun named_member :: "ns_entry \<Rightarrow> bool" where
  "named_member (Member m) \<longleftrightarrow>
     cm_tag m \<in> {DW_TAG_member, DW_TAG_inheritance} \<and> cm_name m \<noteq> None \<and> cm_bit_offset m < 2147483648"
| "named_member _ \<longleftrightarrow> False"

definition comparable :: "type_t \<Rightarrow> bool" where
  "comparable ty \<longleftrightarrow>
     ty_name ty \<noteq> None \<and> ty_size ty < 2147483648 \<and> ty_nr_members ty = length (ty_tags ty) \<and>
     (\<forall>e \<in> set (ty_tags ty). named_member e)"

lemma members_named: "\<forall>e \<in> set es. named_member e \<Longrightarrow> es = map Member (type__members es)"
proof (induction es)
  case (Cons e es)
  then show ?case by (cases e) (auto simp: type__members_def)
qed (simp add: type__members_def)

text \<open>The sign of a comparison.\<close>

definition signs :: "int \<Rightarrow> 'a::linorder \<Rightarrow> 'a \<Rightarrow> bool" where
  "signs c a b \<longleftrightarrow> (c < 0 \<longleftrightarrow> a < b) \<and> (c = 0 \<longleftrightarrow> a = b)"

lemma signs_strcmp: "signs (c_strcmp a b) a b"
  by (simp add: signs_def c_strcmp_less)

lemma signs_diff: "signs (int a - int b) a b"
  by (simp add: signs_def)

lemma signs_pair: "signs c a b \<Longrightarrow> signs d x y \<Longrightarrow> signs (if c \<noteq> 0 then c else d) (a, x) (b, y)"
  by (auto simp: signs_def)

lemma signs_member:
  assumes "named_member (Member ma)" and "named_member (Member mb)"
  shows "signs (compare_member ma mb) (member_key ma) (member_key mb)"
proof -
  obtain a b where ab: "cm_name ma = Some a" "cm_name mb = Some b" using assms by auto
  have "s32 (int (cm_bit_offset ma)) - s32 (int (cm_bit_offset mb)) = int (cm_bit_offset ma) - int (cm_bit_offset mb)"
    using assms by (simp add: c_simps)
  then have "compare_member ma mb =
      (if c_strcmp a b \<noteq> 0 then c_strcmp a b
       else if int (cm_bit_offset ma) - int (cm_bit_offset mb) \<noteq> 0 then int (cm_bit_offset ma) - int (cm_bit_offset mb)
       else int (cm_bitfield_size ma) - int (cm_bitfield_size mb))"
    by (simp add: compare_member_def ab Let_def)
  then show ?thesis
    using signs_pair [OF signs_strcmp [of a b] signs_pair [OF signs_diff signs_diff]]
    by (simp add: member_key_def ab str_or_empty_def)
qed

lemma signs_members:
  assumes "length as = length bs" and "\<forall>m \<in> set as \<union> set bs. named_member (Member m)"
  shows "\<exists>c. compare_members as (map Member bs) = Inr c \<and> signs c (map member_key as) (map member_key bs)"
  using assms
proof (induction as bs rule: list_induct2)
  case (Cons a as b bs)
  have s: "signs (compare_member a b) (member_key a) (member_key b)" using Cons.prems by (intro signs_member) auto
  obtain c where c: "compare_members as (map Member bs) = Inr c" "signs c (map member_key as) (map member_key bs)"
    using Cons by auto
  show ?case
    using s c by (cases "compare_member a b = 0") (auto simp: signs_def)
qed (simp add: signs_def)

lemma signs_compare:
  assumes "comparable a" and "comparable b"
  shows "\<exists>c. type__compare False a b rs = Inr (c, rs) \<and> signs c (type_key_of a) (type_key_of b)"
proof -
  obtain x y where xy: "ty_name a = Some x" "ty_name b = Some y" using assms by (auto simp: comparable_def)
  let ?ms = "\<lambda>t. type__members (ty_tags t)"
  have tags: "ty_tags t = map Member (?ms t)" "length (ty_tags t) = length (?ms t)"
      "\<forall>m \<in> set (?ms t). named_member (Member m)" if "comparable t" for t :: type_t
  proof -
    show 1: "ty_tags t = map Member (?ms t)" using that members_named by (simp add: comparable_def)
    show "length (ty_tags t) = length (?ms t)" by (subst 1) simp
    show "\<forall>m \<in> set (?ms t). named_member (Member m)"
      using that unfolding comparable_def by (subst (asm) 1) auto
  qed
  have sz: "s32 (int (ty_size a)) - s32 (int (ty_size b)) = int (ty_size a) - int (ty_size b)"
    using assms by (simp add: comparable_def c_simps)
  have nr: "ty_nr_members a = length (?ms a)" "ty_nr_members b = length (?ms b)"
    using assms tags(2) by (simp_all add: comparable_def)
  show ?thesis
  proof (cases "ty_nr_members a = ty_nr_members b")
    case False
    then show ?thesis
      using signs_strcmp [of x y]
      by (auto simp: type__compare_def name_compare_def xy sz Let_def type_key_of_def str_or_empty_def signs_def
          less_type_key_def)
  next
    case True
    obtain c where c: "compare_members (?ms a) (map Member (?ms b)) = Inr c"
        "signs c (map member_key (?ms a)) (map member_key (?ms b))"
      using signs_members [of "?ms a" "?ms b"] True nr tags(3) assms by auto
    have "type__compare_members False a b rs = Inr (c, rs)"
      using c tags(1) [OF assms(2)] nr by (auto simp: type__compare_members_def signs_def)
    then show ?thesis
      using signs_strcmp [of x y] c(2) True
      by (auto simp: type__compare_def name_compare_def xy sz Let_def type_key_of_def str_or_empty_def signs_def
          less_type_key_def)
  qed
qed

section \<open>Adding a structure\<close>

text \<open>Where a walk ends: at the node with the key looked for, or at the free place for it.\<close>

definition ends_at :: "('a \<Rightarrow> 'b::linorder) \<Rightarrow> 'b \<Rightarrow> 'a rbt \<Rightarrow> 'a rbt \<times> 'a path \<Rightarrow> bool" where
  "ends_at K x t z \<longleftrightarrow> z_tree z = t \<and>
    (case z_key z of
       None \<Rightarrow> fst z = NIL \<and> (\<forall>k \<in> set (z_before z). K k < x) \<and> (\<forall>k \<in> set (z_after z). x < K k)
     | Some k \<Rightarrow> fst z \<noteq> NIL \<and> K k = x)"

lemma structures_walk_ok:
  assumes "\<And>k. k \<in> set (inorder t) \<Longrightarrow> \<exists>c. cmp k s = Inr (c, s) \<and> signs c (K k) x"
    and "sorted_wrt (\<lambda>a b. K a < K b) (inorder t)"
    and "\<forall>k \<in> set (ctx_before ps). K k < x" and "\<forall>k \<in> set (ctx_after ps). x < K k"
  shows "\<exists>z. structures_walk cmp t ps s = Inr (z, s) \<and> ends_at K x (rb_plug ps t) z"
  using assms
proof (induction t arbitrary: ps)
  case NIL
  then show ?case by (simp add: ends_at_def z_tree_def)
next
  case (RB c l k r)
  obtain rc where rc: "cmp k s = Inr (rc, s)" "signs rc (K k) x" using RB.prems(1) [of k] by auto
  have sl: "sorted_wrt (\<lambda>a b. K a < K b) (inorder l)" "sorted_wrt (\<lambda>a b. K a < K b) (inorder r)"
    "\<forall>y \<in> set (inorder l). K y < K k" "\<forall>y \<in> set (inorder r). K k < K y"
    using RB.prems(2) by (auto simp: sorted_wrt_append)
  consider "rc > 0" | "rc < 0" | "rc = 0" by linarith
  then show ?case
  proof cases
    case 1
    then have "x < K k" using rc(2) by (auto simp: signs_def)
    then have "\<exists>z. structures_walk cmp l (FL c k r # ps) s = Inr (z, s) \<and> ends_at K x (rb_plug (FL c k r # ps) l) z"
      using RB.prems sl by (intro RB.IH(1)) (auto dest: order.strict_trans)
    then show ?thesis using 1 rc(1) by simp
  next
    case 2
    then have "K k < x" using rc(2) by (auto simp: signs_def)
    then have "\<exists>z. structures_walk cmp r (FR c l k # ps) s = Inr (z, s) \<and> ends_at K x (rb_plug (FR c l k # ps) r) z"
      using RB.prems sl by (intro RB.IH(2)) (auto dest: order.strict_trans)
    then show ?thesis using 2 rc(1) by simp
  next
    case 3
    then show ?thesis using rc by (simp add: ends_at_def z_tree_def signs_def)
  qed
qed

definition key_at :: "world \<Rightarrow> type_ref \<Rightarrow> type_key" where
  "key_at w r = (case world_ty w r of Inr ty \<Rightarrow> type_key_of ty | Inl e \<Rightarrow> Type_Key [] 0 0 [])"

definition comparable_at :: "world \<Rightarrow> type_ref \<Rightarrow> bool" where
  "comparable_at w r \<longleftrightarrow> (case world_ty w r of Inr ty \<Rightarrow> comparable ty | Inl e \<Rightarrow> False)"

text \<open>The keys in the order in which they were added: what the structures stand for.\<close>

definition structures_keys :: "world \<Rightarrow> structures \<Rightarrow> type_key list" where
  "structures_keys w ss = map (key_at w \<circ> st_class) (ss_list ss)"

definition structures_inv :: "world \<Rightarrow> structures \<Rightarrow> bool" where
  "structures_inv w ss \<longleftrightarrow>
     rb_inv (ss_tree ss) \<and> set (inorder (ss_tree ss)) = {..<length (ss_list ss)} \<and>
     sorted_wrt (\<lambda>i j. structures_keys w ss ! i < structures_keys w ss ! j) (inorder (ss_tree ss)) \<and>
     (\<forall>st \<in> set (ss_list ss). comparable_at w (st_class st))"

definition structures_empty :: structures where
  "structures_empty = \<lparr>ss_list = [], ss_tree = NIL, ss_resort = False\<rparr>"

lemma structures_inv_empty: "structures_inv w structures_empty"
  by (auto simp: structures_inv_def structures_empty_def rb_inv_def)

lemma walk_structures:
  assumes "structures_inv w ss" and "world_ty w r = Inr ty" and "comparable ty"
  shows "\<exists>z. structures_walk (\<lambda>k rs. bindE (world_ty w (node_class ss k)) (\<lambda>tk. type__compare False tk ty rs))
      (ss_tree ss) [] (ss_resort ss) = Inr (z, ss_resort ss) \<and>
    ends_at (\<lambda>k. structures_keys w ss ! k) (type_key_of ty) (ss_tree ss) z"
proof -
  have "\<exists>c. (bindE (world_ty w (node_class ss k)) (\<lambda>tk. type__compare False tk ty (ss_resort ss))) = Inr (c, ss_resort ss) \<and>
      signs c (structures_keys w ss ! k) (type_key_of ty)" if "k \<in> set (inorder (ss_tree ss))" for k
  proof -
    have k: "k < length (ss_list ss)" using that assms(1) by (auto simp: structures_inv_def)
    then have "comparable_at w (node_class ss k)" using assms(1) by (auto simp: structures_inv_def node_class_def)
    then obtain tk where "world_ty w (node_class ss k) = Inr tk" "comparable tk"
      by (auto simp: comparable_at_def split: sum.splits)
    then show ?thesis
      using signs_compare [OF _ assms(3), of tk "ss_resort ss"] k
      by (auto simp: structures_keys_def key_at_def node_class_def)
  qed
  then show ?thesis
    using structures_walk_ok [of "ss_tree ss" _ "ss_resort ss" "\<lambda>k. structures_keys w ss ! k" "type_key_of ty" "[]"] assms(1)
    by (simp add: structures_inv_def)
qed

lemma keys_append: "structures_keys w (ss\<lparr>ss_tree := t, ss_list := ss_list ss @ [st]\<rparr>) = structures_keys w ss @ [key_at w (st_class st)]"
  by (simp add: structures_keys_def)

lemma structures_add_step:
  assumes "structures_inv w ss" and "comparable_at w r"
  shows "if key_at w r \<in> set (structures_keys w ss)
    then \<exists>k. structures__add h False w r i ss = Inr ((Some k, True), ss) \<and> k < length (structures_keys w ss) \<and>
           structures_keys w ss ! k = key_at w r
    else if \<not> avail h 72 then structures__add h False w r i ss = Inr ((None, False), ss)
    else \<exists>ss'. structures__add h False w r i ss = Inr ((Some (length (structures_keys w ss)), False), ss') \<and>
           structures_inv w ss' \<and> ss_resort ss' = ss_resort ss \<and> structures_keys w ss' = structures_keys w ss @ [key_at w r]"
proof -
  obtain ty where ty: "world_ty w r = Inr ty" "comparable ty"
    using assms(2) by (auto simp: comparable_at_def split: sum.splits)
  have key: "key_at w r = type_key_of ty" by (simp add: key_at_def ty)
  obtain z where z: "structures_walk (\<lambda>k rs. bindE (world_ty w (node_class ss k)) (\<lambda>tk. type__compare False tk ty rs))
      (ss_tree ss) [] (ss_resort ss) = Inr (z, ss_resort ss)"
    "ends_at (\<lambda>k. structures_keys w ss ! k) (type_key_of ty) (ss_tree ss) z"
    using walk_structures [OF assms(1) ty] by blast
  note inv = assms(1) [unfolded structures_inv_def]
  show ?thesis
  proof (cases "z_key z")
    case (Some k)
    then have "k \<in> set (inorder (ss_tree ss))" "structures_keys w ss ! k = type_key_of ty"
      using z(2) z_split [OF Some] by (auto simp: ends_at_def)
    moreover have "k < length (structures_keys w ss)"
      using calculation(1) inv by (simp add: structures_keys_def)
    moreover have "ss\<lparr>ss_resort := ss_resort ss\<rparr> = ss" by simp
    then have "structures__add h False w r i ss = Inr ((Some k, True), ss)"
      using Some z(1) ty by (simp add: structures__add_def Let_def)
    ultimately show ?thesis using assms(1) key nth_mem [of k "structures_keys w ss"] by (auto simp del: nth_mem)
  next
    case None
    let ?n = "length (ss_list ss)" and ?st = "\<lparr>st_class = r, st_id = i, st_nr_files = 1, st_nr_methods = 0\<rparr>"
    have slot: "rb_slot (ss_tree ss) z" using None z(2) by (simp add: ends_at_def rb_slot_def)
    then have keys: "inorder (ss_tree ss) = z_before z @ z_after z" by (rule rb.slot_keys)
    define K where "K = structures_keys w ss @ [type_key_of ty]"
    have old: "K ! j = structures_keys w ss ! j" if "j \<in> set (inorder (ss_tree ss))" for j
      using that inv by (auto simp: K_def nth_append structures_keys_def)
    have new: "K ! ?n = type_key_of ty" by (simp add: K_def nth_append structures_keys_def)
    have "sorted_wrt (\<lambda>i j. K ! i < K ! j) (inorder (ss_tree ss))"
      using inv old sorted_wrt_mono_rel [of "inorder (ss_tree ss)" "\<lambda>i j. structures_keys w ss ! i < structures_keys w ss ! j"]
      by simp
    then obtain t where t: "rb_link_insert ?n z = Some t" "rb_inv t" "sorted_wrt (\<lambda>i j. K ! i < K ! j) (inorder t)"
        "set (inorder t) = insert ?n (set (inorder (ss_tree ss)))"
      using rb.link_sorted [OF _ slot, of "\<lambda>i j. K ! i < K ! j" ?n] inv z(2) None old new keys
      by (auto simp: ends_at_def)
    have "type_key_of ty \<notin> set (structures_keys w ss)"
    proof
      assume "type_key_of ty \<in> set (structures_keys w ss)"
      then obtain j where "j \<in> set (inorder (ss_tree ss))" "structures_keys w ss ! j = type_key_of ty"
        using inv by (auto simp: in_set_conv_nth structures_keys_def)
      then show False using z(2) None keys by (auto simp: ends_at_def)
    qed
    moreover have add: "structures__add h False w r i ss =
        Inr (if avail h 72 then ((Some ?n, False), ss\<lparr>ss_tree := t, ss_list := ss_list ss @ [?st]\<rparr>) else ((None, False), ss))"
      using None z(1) ty t(1) by (simp add: structures__add_def structure__new_def Let_def)
    moreover have "structures_inv w (ss\<lparr>ss_tree := t, ss_list := ss_list ss @ [?st]\<rparr>)"
      using inv t assms(2) key unfolding structures_inv_def keys_append K_def by (auto simp: lessThan_Suc)
    ultimately show ?thesis by (auto simp: key keys_append) (simp add: structures_keys_def)
  qed
qed

text \<open>C24: Adding a structure implements adding its key to a list of keys: a key that is there already
  gives the node that holds it and changes nothing, a new one is appended, or nothing happens when
  there is no memory; the tree stays balanced and in order.\<close>

theorem structures_add_refines:
  assumes "structures_inv w ss" and "comparable_at w r"
  shows "let ks = structures_keys w ss; x = key_at w r
    in if x \<in> set ks then \<exists>k. structures__add h False w r i ss = Inr ((Some k, True), ss) \<and> k < length ks \<and> ks ! k = x
       else if \<not> avail h 72 then structures__add h False w r i ss = Inr ((None, False), ss)
       else \<exists>ss'. structures__add h False w r i ss = Inr ((Some (length ks), False), ss') \<and> structures_inv w ss' \<and>
              structures_keys w ss' = ks @ [x]"
  using structures_add_step [OF assms, of h i] by (auto simp: Let_def)


definition add_all :: "heap_env \<Rightarrow> world \<Rightarrow> type_ref list \<Rightarrow> structures \<Rightarrow> fault + structures" where
  "add_all h w rs ss = fold_e (\<lambda>r ss. map_sum id snd (structures__add h False w r (snd r) ss)) rs ss"

lemma structures_add_all_ok:
  assumes "structures_inv w ss" and "\<forall>r \<in> set rs. comparable_at w r" and "avail h 72"
  shows "\<exists>ss'. add_all h w rs ss = Inr ss' \<and> structures_inv w ss' \<and> ss_resort ss' = ss_resort ss \<and>
    set (structures_keys w ss') = set (structures_keys w ss) \<union> key_at w ` set rs"
  using assms(1,2)
proof (induction rs arbitrary: ss)
  case (Cons r rs)
  note step = structures_add_step [OF Cons.prems(1), of r h "snd r"]
  show ?case
  proof (cases "key_at w r \<in> set (structures_keys w ss)")
    case True
    then show ?thesis using step Cons.IH [OF Cons.prems(1)] Cons.prems(2) by (auto simp: add_all_def)
  next
    case False
    then obtain ss1 where "map_sum id snd (structures__add h False w r (snd r) ss) = Inr ss1" "structures_inv w ss1"
        "ss_resort ss1 = ss_resort ss" "structures_keys w ss1 = structures_keys w ss @ [key_at w r]"
      using step Cons.prems(2) assms(3) by auto
    then show ?thesis using Cons.IH [of ss1] Cons.prems(2) by (auto simp: add_all_def)
  qed
qed (simp add: add_all_def)

lemma first_keys: "(case rb_first t of None \<Rightarrow> [] | Some z \<Rightarrow> rb_keys_from z) = inorder t"
proof (cases "rb_first t")
  case None
  then show ?thesis by (simp add: rb_first_def split: if_splits)
next
  case (Some z)
  then show ?thesis using rb_keys_first [OF Some] by simp
qed

lemma ordered_inorder: "\<not> ss_resort ss \<Longrightarrow> ordered_classes n w ss = Inr (inorder (ss_tree ss))"
  by (simp add: ordered_classes_def first_keys)

text \<open>Whatever types of however many units are added in whatever order, the final list has each
  name, size and layout exactly once, in ascending order.\<close>

theorem structures_sorted_once:
  assumes "\<forall>r \<in> set rs. comparable_at w r" and "avail h 72"
  shows "\<exists>ss ks. add_all h w rs structures_empty = Inr ss \<and> ordered_classes n w ss = Inr ks \<and>
    map (\<lambda>k. key_at w (node_class ss k)) ks = sorted_list_of_set (key_at w ` set rs)"
proof -
  obtain ss where ss: "add_all h w rs structures_empty = Inr ss" "structures_inv w ss" "\<not> ss_resort ss"
      "set (structures_keys w ss) = key_at w ` set rs"
    using structures_add_all_ok [OF structures_inv_empty assms] by (auto simp: structures_empty_def structures_keys_def)
  let ?t = "inorder (ss_tree ss)" and ?k = "\<lambda>k. key_at w (node_class ss k)"
  have at: "structures_keys w ss ! k = ?k k" if "k \<in> set ?t" for k
    using that ss(2) by (auto simp: structures_inv_def structures_keys_def node_class_def)
  have "sorted_wrt (\<lambda>i j. ?k i < ?k j) ?t"
    using ss(2) at sorted_wrt_mono_rel [of ?t "\<lambda>i j. structures_keys w ss ! i < structures_keys w ss ! j"]
    by (simp add: structures_inv_def)
  then have "sorted_wrt (<) (map ?k ?t)" by (simp add: sorted_wrt_map)
  moreover have "set (map ?k ?t) = key_at w ` set rs"
  proof -
    have "?k ` set ?t = (!) (structures_keys w ss) ` {..<length (structures_keys w ss)}"
      using ss(2) at by (auto simp: structures_inv_def structures_keys_def)
    also have "\<dots> = set (structures_keys w ss)" by (auto simp: in_set_conv_nth)
    finally show ?thesis using ss(4) by simp
  qed
  ultimately have "map ?k ?t = sorted_list_of_set (key_at w ` set rs)"
    by (simp add: strict_sorted_equal)
  then show ?thesis using ss(1) ordered_inorder [OF ss(3)] by blast
qed

section \<open>A sample\<close>

definition named_struct :: "string \<Rightarrow> nat \<Rightarrow> class_member list \<Rightarrow> tag" where
  "named_struct nm sz ms = \<lparr>tg_tag = DW_TAG_structure_type, tg_type = 0, tg_body = Class_body
     (class_zero\<lparr>ty_name := Some nm, ty_size := sz, ty_nr_members := length ms, ty_tags := map Member ms\<rparr>)\<rparr>"

definition pair_world :: world where
  "pair_world = \<lparr>wo_cus = [sample_cu [None, Some (named_struct ''node'' 8 [sample_member ''next'' 0 8 8]),
       Some (named_struct ''list'' 4 [sample_member ''len'' 0 4 4])]],
     wo_pretty = (\<lambda>_. \<lparr>pr_sizeof_member = None, pr_type_member = None, pr_type_enum = [], pr_filter = None\<rparr>),
     wo_real = (\<lambda>_. None)\<rparr>"

lemma pair_world_ty:
  "world_ty pair_world (0, 1) = tag__type (named_struct ''node'' 8 [sample_member ''next'' 0 8 8])"
  "world_ty pair_world (0, 2) = tag__type (named_struct ''list'' 4 [sample_member ''len'' 0 4 4])"
  by (simp_all add: world_ty_def world_type_def world_cu_def pair_world_def sample_cu_inv)

lemma pair_world_keys:
  "key_at pair_world (0, 1) = Type_Key ''node'' 8 1 [(''next'', 0, 0)]"
  "key_at pair_world (0, 2) = Type_Key ''list'' 4 1 [(''len'', 0, 0)]"
  "comparable_at pair_world (0, 1)" "comparable_at pair_world (0, 2)"
  by (simp_all add: key_at_def comparable_at_def pair_world_ty [simplified] pair_world_ty named_struct_def tag__type_def type_key_of_def comparable_def
      class_zero_def sample_member_def type__members_def member_key_def str_or_empty_def type_t.truncate_def)

theorem structures_add_refines_witness:
  "\<exists>ss'. structures__add \<lparr>avail = \<lambda>_. True, fresh = \<lambda>_. 0\<rparr> False pair_world (0, 1) 1 structures_empty = Inr ((Some 0, False), ss') \<and>
     structures_inv pair_world ss' \<and> structures_keys pair_world ss' = [key_at pair_world (0, 1)]"
  using structures_add_refines [OF structures_inv_empty pair_world_keys(3), of "\<lparr>avail = \<lambda>_. True, fresh = \<lambda>_. 0\<rparr>" 1]
  by (simp add: structures_keys_def structures_empty_def)

theorem structures_sorted_once_witness:
  "\<exists>ss ks. add_all \<lparr>avail = \<lambda>_. True, fresh = \<lambda>_. 0\<rparr> pair_world [(0, 1), (0, 2), (0, 1)] structures_empty = Inr ss \<and>
     ordered_classes 3 pair_world ss = Inr ks \<and>
     map (\<lambda>k. key_at pair_world (node_class ss k)) ks = [Type_Key ''list'' 4 1 [(''len'', 0, 0)], Type_Key ''node'' 8 1 [(''next'', 0, 0)]]"
proof -
  let ?a = "Type_Key ''list'' 4 1 [(''len'', 0, 0)]" and ?b = "Type_Key ''node'' 8 1 [(''next'', 0, 0)]"
  have "sorted_wrt (<) [?a, ?b]" by (simp add: less_type_key_def)
  then have "sorted_list_of_set (set [?a, ?b]) = [?a, ?b]"
    by (simp add: strict_sorted_equal del: set_simps)
  moreover have "key_at pair_world ` set [(0, 1), (0, 2), (0, 1)] = set [?a, ?b]"
    by (auto simp: pair_world_keys [simplified])
  ultimately show ?thesis
    using structures_sorted_once [of "[(0, 1), (0, 2), (0, 1)]" pair_world "\<lparr>avail = \<lambda>_. True, fresh = \<lambda>_. 0\<rparr>" 3]
      pair_world_keys(3,4) by simp
qed

section \<open>Deleting the structures\<close>

lemma node_place_some:
  assumes "k \<in> set (inorder t)"
  shows "\<exists>z. node_place k t ps = Some z \<and> z_key z = Some k \<and> z_tree z = rb_plug ps t"
  using assms
proof (induction t arbitrary: ps)
  case (RB c l x r)
  have none: "node_place k u qs = None" if "k \<notin> set (inorder u)" for u qs
    using that by (induction u arbitrary: qs) auto
  show ?case
  proof (cases "x = k")
    case True
    then show ?thesis by (simp add: z_tree_def)
  next
    case False
    show ?thesis
    proof (cases "k \<in> set (inorder l)")
      case True
      then show ?thesis using False RB.IH(1) [OF True, of "FL c x r # ps"] by auto
    next
      case left: False
      then have "k \<in> set (inorder r)" using RB.prems False by simp
      then show ?thesis using False RB.IH(2) [of "FR c l x # ps"] none [OF left] by auto
    qed
  qed
qed simp

lemma structures_delete_loop_ok:
  assumes "rb_inv t" and "distinct (inorder t)" and "length (inorder t) \<le> fuel"
  shows "structures_delete_loop fuel t (case inorder t of [] \<Rightarrow> None | k # _ \<Rightarrow> Some k) = Inr NIL"
  using assms
proof (induction fuel arbitrary: t)
  case 0
  then show ?case by (cases t) auto
next
  case (Suc n)
  show ?case
  proof (cases "inorder t")
    case Nil
    then show ?thesis by (cases t) auto
  next
    case (Cons k ks)
    obtain z where z: "node_place k t [] = Some z" "z_key z = Some k" "z_tree z = t"
      using node_place_some [of k t "[]"] Cons by auto
    obtain u where u: "rb_erase z = Some u" "rb_inv u" "inorder u = z_before z @ z_after z"
      using rb_erase_ok [of z k] Suc.prems(1) z by auto
    have split: "k # ks = z_before z @ k # z_after z" using z_split [OF z(2)] z(3) Cons by simp
    then have "z_before z = []" using Suc.prems(2) Cons by (cases "z_before z") auto
    then have ks: "inorder u = ks" "z_after z = ks" using u(3) split by auto
    have "(case rb_next z of None \<Rightarrow> None | Some y \<Rightarrow> z_key y) = (case ks of [] \<Rightarrow> None | k # _ \<Rightarrow> Some k)"
      using rb_next_None [OF z(2)] rb_next_ok [OF z(2)] ks(2) by (cases "rb_next z") (auto split: list.splits)
    then show ?thesis
      using Suc.IH [OF u(2)] Suc.prems ks u(1) z(1) Cons by simp
  qed
qed

lemma structures_delete_ok: "structures_inv w ss \<Longrightarrow> structures__delete ss = Inr NIL"
proof -
  assume inv: "structures_inv w ss"
  then have d: "distinct (inorder (ss_tree ss))"
    using strict_sorted_iff [of "map ((!) (structures_keys w ss)) (inorder (ss_tree ss))"]
    by (simp add: structures_inv_def sorted_wrt_map distinct_map)
  show ?thesis
    using structures_delete_loop_ok [of "ss_tree ss" "length (ss_list ss)"] inv d distinct_card [OF d]
    by (simp add: structures__delete_def structures_inv_def rb_first_head)
qed

section \<open>Where the comparison is no order\<close>

text \<open>A member without a name is equal to any other at its offset, so that equality is not transitive.\<close>

lemma compare_not_transitive:
  "let a = sample_member ''a'' 0 4 4; b = (sample_member ''b'' 0 4 4)\<lparr>cm_name := None\<rparr>; c = sample_member ''c'' 0 4 4
   in compare_member a b = 0 \<and> compare_member b c = 0 \<and> compare_member a c \<noteq> 0"
  by (simp add: compare_member_def sample_member_def)

text \<open>When all types are to be printed in order, a type with members is never found again.\<close>

lemma sorted_output_adds_again:
  assumes "comparable a" and "ty_nr_members a \<noteq> 0"
  shows "type__compare True a a rs = Inr (1, True)"
proof -
  obtain c where c: "type__compare False a a rs = Inr (c, rs)" "signs c (type_key_of a) (type_key_of a)"
    using signs_compare [OF assms(1,1)] by blast
  then have "type__compare False a a rs = Inr (0, rs)" by (simp add: signs_def)
  then show ?thesis
    using assms by (auto simp: type__compare_def type__compare_members_def Let_def split: sum.splits if_splits)
qed

text \<open>
  Sorting again compares structures of one name whatever the number of their members: behind the last
  member of the second one the comparison reads on.
\<close>

lemma resort_reads_beyond:
  assumes "type__members (ty_tags a) = ms @ m # ms2" and "ty_tags b = map Member ms"
    and "ty_name a = Some nm" and "ty_name b = Some nm" and "ty_nr_members a \<noteq> 0"
    and "\<And>m. m \<in> set ms \<Longrightarrow> \<exists>t s. cu_type cu (cm_type m) = Inr (Some t) \<and>
      tag_name_fuel n (conf_fprintf__defaults 64) cu (Some t) 1024 = Inr s"
  shows "type__compare_members_types n cu a cu b = Inl Out_Of_Bounds"
proof -
  have "compare_members_types n cu cu (ms @ m # ms2) (map Member ms) = Inl Out_Of_Bounds"
    using assms(6)
  proof (induction ms)
    case (Cons m' ms)
    have "compare_member m' m' = 0" by (simp add: compare_member_def Let_def split: option.split)
    moreover obtain t s where "cu_type cu (cm_type m') = Inr (Some t)"
        "tag_name_fuel n (conf_fprintf__defaults 64) cu (Some t) 1024 = Inr s"
      using Cons.prems [of m'] by auto
    ultimately show ?case using Cons.IH Cons.prems by auto
  qed simp
  then show ?thesis using assms(1-5) by (simp add: type__compare_members_types_def name_compare_def)
qed

end
