(* ===== verification/Emit.thy ===== *)
theory Emit
  imports Fprintf Structures
begin

text \<open>
  Emitting the definitions a type needs, each once, in an order a compiler accepts (\<open>dwarves_emit.c\<close>).
  The three lists of \<open>struct type_emissions\<close> hold types of all units; a type is in at most one of them.
  The marks on the types are kept beside the units.
\<close>

definition eol :: string where "eol = [char_of (10 :: nat)]"

definition set_cu :: "nat \<Rightarrow> cu \<Rightarrow> world \<Rightarrow> world" where
  "set_cu u cu w = w\<lparr>wo_cus := (wo_cus w)[u := cu]\<rparr>"

record emissions =
  em_defs :: "type_ref list"
  em_base_defs :: "type_ref list"
  em_fwd_decls :: "type_ref list"
  em_skip_atomic :: bool

record emit_st =
  es_world :: world
  es_em :: emissions
  es_defined :: "type_ref \<Rightarrow> bool"
  es_declared :: "type_ref \<Rightarrow> bool"
  es_out :: string
  es_line :: nat
  es_rec :: "type_ref \<Rightarrow> nat"

definition type_emissions__init :: "bool \<Rightarrow> emissions" where
  "type_emissions__init skip_atomic =
     \<lparr>em_defs = [], em_base_defs = [], em_fwd_decls = [], em_skip_atomic = skip_atomic\<rparr>"

text \<open>A printer run on one unit.\<close>

definition run_printer :: "nat \<Rightarrow> printer \<Rightarrow> emit_st \<Rightarrow> fault + emit_st" where
  "run_printer u p st =
     bindE (world_cu (es_world st) u) (\<lambda>cu.
     bindE (p \<lparr>ps_out = es_out st, ps_cu = cu, ps_line = es_line st, ps_rec = (\<lambda>i. es_rec st (u, i))\<rparr>) (\<lambda>(k, ps).
       Inr (st\<lparr>es_world := set_cu u (ps_cu ps) (es_world st), es_out := ps_out ps, es_line := ps_line ps,
               es_rec := (\<lambda>r. if fst r = u then ps_rec ps (snd r) else es_rec st r)\<rparr>)))"

definition out :: "string \<Rightarrow> emit_st \<Rightarrow> emit_st" where
  "out s st = st\<lparr>es_out := es_out st @ s\<rparr>"

text \<open>A configuration of which only some fields are given.\<close>

definition conf_zero :: conf_fprintf where
  "conf_zero = (conf_fprintf__defaults 0)\<lparr>cf_type_spacing := 0, cf_name_spacing := 0, cf_emit_stats := False\<rparr>"

section \<open>The lists\<close>

definition type_emissions__add_definition :: "type_ref \<Rightarrow> emit_st \<Rightarrow> emit_st" where
  "type_emissions__add_definition r st =
     st\<lparr>es_defined := (es_defined st)(r := True),
        es_em := (es_em st)\<lparr>em_fwd_decls := remove1 r (em_fwd_decls (es_em st)),
                             em_defs := remove1 r (em_defs (es_em st)) @ [r]\<rparr>\<rparr>"

definition type_emissions__add_fwd_decl :: "type_ref \<Rightarrow> emit_st \<Rightarrow> emit_st" where
  "type_emissions__add_fwd_decl r st =
     (let em = es_em st
      in st\<lparr>es_declared := (es_declared st)(r := True),
            es_em := (if r \<in> set (em_defs em) \<union> set (em_fwd_decls em) then em
                      else em\<lparr>em_fwd_decls := em_fwd_decls em @ [r]\<rparr>)\<rparr>)"

text \<open>The first of a list whose tag and name pass a test.\<close>

definition find_emitted :: "world \<Rightarrow> (dw_tag \<Rightarrow> string \<Rightarrow> bool) \<Rightarrow> type_ref list \<Rightarrow> fault + type_ref option" where
  "find_emitted w P rs =
     first_e (\<lambda>r. bindE (world_type w r) (\<lambda>t. bindE (tag__type t) (\<lambda>ty.
       Inr (case ty_name ty of None \<Rightarrow> False | Some nm \<Rightarrow> P (tg_tag t) nm)))) rs"

definition type_emissions__find_definition :: "emit_st \<Rightarrow> dw_tag \<Rightarrow> string option \<Rightarrow> fault + type_ref option" where
  "type_emissions__find_definition st tg name =
     (case name of
        None \<Rightarrow> Inr None
      | Some nm \<Rightarrow> find_emitted (es_world st) (\<lambda>tg' nm'. tg' = tg \<and> c_strcmp nm' nm = 0) (em_defs (es_em st)))"

definition type__can_have_shadow_definition :: "dw_tag \<Rightarrow> bool" where
  "type__can_have_shadow_definition tg \<longleftrightarrow> tag__is_struct tg \<or> tag__is_union tg \<or> tag__is_enumeration tg"

definition type_emissions__find_shadow_definition :: "emit_st \<Rightarrow> dw_tag \<Rightarrow> string option \<Rightarrow> fault + type_ref option" where
  "type_emissions__find_shadow_definition st tg name =
     (case name of
        None \<Rightarrow> Inr None
      | Some nm \<Rightarrow>
          find_emitted (es_world st)
            (\<lambda>tg' nm'. tg' \<noteq> tg \<and> type__can_have_shadow_definition tg' \<and> c_strcmp nm' nm = 0) (em_defs (es_em st)))"

definition type_emissions__find_fwd_decl :: "emit_st \<Rightarrow> string option \<Rightarrow> fault + type_ref option" where
  "type_emissions__find_fwd_decl st name =
     (case name of
        None \<Rightarrow> Inr None
      | Some nm \<Rightarrow> find_emitted (es_world st) (\<lambda>tg' nm'. c_strcmp nm' nm = 0) (em_fwd_decls (es_em st)))"

section \<open>Enumerations, forward declarations and atomic base types\<close>

definition enumeration__emit_definitions ::
  "print_env \<Rightarrow> type_ref \<Rightarrow> conf_fprintf \<Rightarrow> emit_st \<Rightarrow> fault + bool \<times> emit_st" where
  "enumeration__emit_definitions env r conf st =
     bindE (world_type (es_world st) r) (\<lambda>t. bindE (tag__type t) (\<lambda>etype.
       if es_defined st r then Inr (False, st)
       else
         bindE (type_emissions__find_definition st DW_TAG_enumeration_type (ty_name etype)) (\<lambda>q.
           if q \<noteq> None then Inr (False, st\<lparr>es_defined := (es_defined st)(r := True)\<rparr>)
           else
             bindE (run_printer (fst r) (enumeration__fprintf env conf t) st) (\<lambda>st1.
               let st2 = out ('';'' @ eol) st1
               in Inr (True, if ty_nr_members etype \<noteq> 0 then type_emissions__add_definition r st2 else st2)))))"

definition type__emit_fwd_decl :: "type_ref \<Rightarrow> emit_st \<Rightarrow> fault + bool \<times> emit_st" where
  "type__emit_fwd_decl r st =
     bindE (world_type (es_world st) r) (\<lambda>t. bindE (tag__type t) (\<lambda>ctype.
       if es_declared st r then Inr (False, st)
       else case ty_name ctype of
              None \<Rightarrow> Inr (False, st)
            | Some nm \<Rightarrow>
                bindE (type_emissions__find_fwd_decl st (Some nm)) (\<lambda>q.
                  if q \<noteq> None then Inr (False, st\<lparr>es_declared := (es_declared st)(r := True)\<rparr>)
                  else
                    Inr (True, type_emissions__add_fwd_decl r
                      (out ((if tag__is_union (tg_tag t) then ''union'' else ''struct'') @ '' '' @ nm @ '';'' @ eol) st)))))"

definition base_type_emissions__find_definition :: "emit_st \<Rightarrow> string \<Rightarrow> fault + type_ref option" where
  "base_type_emissions__find_definition st nm =
     first_e (\<lambda>r. bindE (world_type (es_world st) r) (\<lambda>t. bindE (tag__base_type t) (\<lambda>bt.
       Inr (c_strcmp (bt_name bt) nm = 0)))) (em_base_defs (es_em st))"

definition base_type_emissions__add_definition :: "type_ref \<Rightarrow> emit_st \<Rightarrow> emit_st" where
  "base_type_emissions__add_definition r st =
     st\<lparr>es_defined := (es_defined st)(r := True),
        es_em := (es_em st)\<lparr>em_base_defs := remove1 r (em_base_defs (es_em st)) @ [r]\<rparr>\<rparr>"

definition base_type__stdint2simple :: "string \<Rightarrow> string" where
  "base_type__stdint2simple nm =
     (if c_strcmp nm ''int32_t'' = 0 then ''int''
      else if c_strcmp nm ''int16_t'' = 0 then ''short''
      else if c_strcmp nm ''int8_t'' = 0 then ''char''
      else if c_strcmp nm ''int64_t'' = 0 then ''long''
      else nm)"

text \<open>The character at a place of a string, NUL at its end.\<close>

definition chr_at :: "string \<Rightarrow> nat \<Rightarrow> char" where
  "chr_at s k = (if k < length s then s ! k else CHR 0x00)"

definition non_atomic :: "string \<Rightarrow> string" where
  "non_atomic nm =
     (if chr_at nm 0 = CHR ''s'' \<and> chr_at nm 1 \<noteq> CHR ''i'' \<and> chr_at nm 1 \<noteq> CHR ''h'' then '' signed '' @ drop 1 nm
      else if chr_at nm 0 = CHR ''l'' \<and> chr_at nm 1 = CHR ''l'' then '' long long''
      else if chr_at nm 0 = CHR ''u'' then
        '' unsigned'' @
        (if chr_at nm 1 = CHR ''l'' then '' long'' @ (if chr_at nm 2 = CHR ''l'' then '' long'' else [])
         else '' '' @ base_type__stdint2simple (drop 1 nm))
      else if chr_at nm 0 = CHR ''b'' then '' _Bool''
      else '' '' @ base_type__stdint2simple nm)"

definition base_type__emit_definitions :: "type_ref \<Rightarrow> emit_st \<Rightarrow> fault + bool \<times> emit_st" where
  "base_type__emit_definitions r st =
     bindE (world_type (es_world st) r) (\<lambda>t. bindE (tag__base_type t) (\<lambda>bt.
       if es_defined st r then Inr (False, st)
       else if c_strncmp (bt_name bt) ''atomic_'' 7 \<noteq> 0 then Inr (False, st)
       else
         bindE (base_type_emissions__find_definition st (bt_name bt)) (\<lambda>q.
           if q \<noteq> None then Inr (False, st\<lparr>es_defined := (es_defined st)(r := True)\<rparr>)
           else
             Inr (True, base_type_emissions__add_definition r
               (out (''typedef _Atomic'' @ non_atomic (drop 7 (bt_name bt)) @ '' '' @ bt_name bt @ '';'' @ eol) st)))))"

section \<open>Everything a type needs\<close>

text \<open>
  What is behind pointers, references, arrays and qualifiers, and whether there was a pointer; the
  argument is the \<open>type\<close> field of a tag.
\<close>

fun emit_target :: "nat \<Rightarrow> cu \<Rightarrow> nat \<Rightarrow> bool \<Rightarrow> fault + (bool \<times> nat \<times> tag) option" where
  "emit_target 0 cu i pointer = Inl Out_Of_Fuel"
| "emit_target (Suc n) cu i pointer =
     bindE (cu_type cu i) (\<lambda>type.
       case type of
         None \<Rightarrow> Inr None
       | Some t \<Rightarrow>
           let tg = tg_tag t
           in if tg = DW_TAG_pointer_type \<or> tg = DW_TAG_reference_type then emit_target n cu (tg_type t) True
              else if tg = DW_TAG_array_type \<or> tg = DW_TAG_const_type \<or> tg = DW_TAG_volatile_type \<or> tg = DW_TAG_atomic_type
              then emit_target n cu (tg_type t) pointer
              else Inr (Some (pointer, i, t)))"

definition type__emit :: "print_env \<Rightarrow> type_ref \<Rightarrow> string option \<Rightarrow> string option \<Rightarrow> emit_st \<Rightarrow> fault + emit_st" where
  "type__emit env r prefix suffix st =
     bindE (world_type (es_world st) r) (\<lambda>t. bindE (tag__type t) (\<lambda>ctype.
       if ty_name ctype \<noteq> None \<or> suffix \<noteq> None \<or> prefix \<noteq> None then
         bindE (run_printer (fst r)
                  (tag__fprintf env (Some (conf_zero\<lparr>cf_prefix := prefix, cf_suffix := suffix, cf_emit_stats := True\<rparr>))
                     (tg_tag t, snd r)) st) (\<lambda>st1. Inr (out eol st1))
       else Inr st))"

definition set_type_name :: "tag \<Rightarrow> string \<Rightarrow> tag" where
  "set_type_name t nm =
     (case tg_body t of
        Type_body ty \<Rightarrow> t\<lparr>tg_body := Type_body (ty\<lparr>ty_name := Some nm\<rparr>)\<rparr>
      | Class_body c \<Rightarrow> t\<lparr>tg_body := Class_body (c\<lparr>ty_name := Some nm\<rparr>)\<rparr>
      | _ \<Rightarrow> t)"

definition rename_type :: "type_ref \<Rightarrow> string \<Rightarrow> emit_st \<Rightarrow> fault + emit_st" where
  "rename_type r nm st =
     bindE (world_cu (es_world st) (fst r)) (\<lambda>cu. bindE (world_type (es_world st) r) (\<lambda>t.
       Inr (st\<lparr>es_world := set_cu (fst r) (cu_set_type cu (snd r) (set_type_name t nm)) (es_world st)\<rparr>)))"

text \<open>
  A structure, union or enumeration with the name of another kind gets a suffix; whether it turns out
  that it was defined under that name.
\<close>

definition disambiguate :: "heap_env \<Rightarrow> type_ref \<Rightarrow> emit_st \<Rightarrow> fault + bool \<times> emit_st" where
  "disambiguate h r st =
     bindE (world_type (es_world st) r) (\<lambda>t. bindE (tag__type t) (\<lambda>ctype.
       if \<not> type__can_have_shadow_definition (tg_tag t) then Inr (False, st)
       else
         bindE (type_emissions__find_shadow_definition st (tg_tag t) (ty_name ctype)) (\<lambda>q.
           case (q, ty_name ctype) of
             (Some _, Some nm) \<Rightarrow>
               if \<not> avail h (length nm + 4) then Inr (False, st)
               else
                 let nm' = nm @ ''__1''
                 in bindE (rename_type r nm' st) (\<lambda>st1.
                    bindE (type_emissions__find_definition st1 (tg_tag t) (Some nm')) (\<lambda>q2.
                      if q2 \<noteq> None then Inr (True, st1\<lparr>es_defined := (es_defined st1)(r := True)\<rparr>)
                      else Inr (False, st1)))
           | _ \<Rightarrow> Inr (False, st))))"

definition check_alignments :: "nat \<Rightarrow> type_ref \<Rightarrow> emit_st \<Rightarrow> fault + emit_st" where
  "check_alignments n r st =
     bindE (world_cu (es_world st) (fst r)) (\<lambda>cu. bindE (world_ty (es_world st) r) (\<lambda>ctype.
     bindE (type__check_structs_at_unnatural_alignments n (ty_tags ctype) cu) (\<lambda>cu1.
       Inr (st\<lparr>es_world := set_cu (fst r) cu1 (es_world st)\<rparr>))))"

text \<open>What the four functions do, given each other; \<open>type_id\<close> is the \<open>type\<close> field of a tag.\<close>

type_synonym emitter = "emit_st \<Rightarrow> fault + bool \<times> emit_st"

text \<open>An emitter whose result is not used; one whose positive result is followed by a line.\<close>

definition unit_of :: "emitter \<Rightarrow> emit_st \<Rightarrow> fault + emit_st" where
  "unit_of f st = map_sum id snd (f st)"

definition then_emit :: "emitter \<Rightarrow> (emit_st \<Rightarrow> fault + emit_st) \<Rightarrow> emit_st \<Rightarrow> fault + emit_st" where
  "then_emit f g st = bindE (f st) (\<lambda>(b, st1). if b then g st1 else Inr st1)"

text \<open>\<open>None\<close> is a \<open>goto out\<close>, \<open>Some\<close> goes on at \<open>emit\<close>.\<close>

definition typedef_target ::
  "(nat \<Rightarrow> emitter) \<Rightarrow> (nat \<Rightarrow> emitter) \<Rightarrow> (tag \<Rightarrow> emitter) \<Rightarrow> (nat \<Rightarrow> emitter) \<Rightarrow>
    print_env \<Rightarrow> nat \<Rightarrow> string option \<Rightarrow> nat \<Rightarrow> tag \<Rightarrow> emit_st \<Rightarrow> fault + bool \<times> emit_st" where
  "typedef_target tag_e typedef_e ftype_e type_e env u def_name i t st =
     (let emit = (\<lambda>x. bindE x (\<lambda>st. Inr (True, st))); out_of = (\<lambda>x. bindE x (\<lambda>st. Inr (False, st)));
          tg = tg_tag t
      in if tg = DW_TAG_atomic_type \<or> tg = DW_TAG_array_type then emit (unit_of (tag_e (tg_type t)) st)
         else if tg = DW_TAG_typedef then emit (unit_of (typedef_e i) st)
         else if tg = DW_TAG_pointer_type then
           bindE (world_cu (es_world st) u) (\<lambda>cu. bindE (cu_type cu (tg_type t)) (\<lambda>ptr_type.
             case ptr_type of
               None \<Rightarrow> Inr (True, st)
             | Some p \<Rightarrow>
                 if tg_tag p = DW_TAG_typedef then emit (unit_of (typedef_e (tg_type t)) st)
                 else if tg_tag p \<noteq> DW_TAG_subroutine_type then Inr (True, st)
                 else emit (unit_of (ftype_e p) st)))
         else if tg = DW_TAG_subroutine_type then emit (unit_of (ftype_e t) st)
         else if tg = DW_TAG_enumeration_type then
           bindE (tag__type t) (\<lambda>ctype.
             if ty_name ctype = None
             then out_of (unit_of (enumeration__emit_definitions env (u, i) (conf_zero\<lparr>cf_suffix := def_name\<rparr>)) (out ''typedef '' st))
             else emit (unit_of (enumeration__emit_definitions env (u, i) conf_zero) st))
         else if tg = DW_TAG_structure_type \<or> tg = DW_TAG_union_type then
           bindE (tag__type t) (\<lambda>ctype.
             if ty_name ctype = None
             then out_of (bindE (unit_of (type_e i) st) (type__emit env (u, i) (Some ''typedef'') def_name))
             else emit (then_emit (type_e i) (type__emit env (u, i) None None) st))
         else Inr (True, st))"

definition typedef_body ::
  "(nat \<Rightarrow> emitter) \<Rightarrow> (nat \<Rightarrow> emitter) \<Rightarrow> (tag \<Rightarrow> emitter) \<Rightarrow> (nat \<Rightarrow> emitter) \<Rightarrow> print_env \<Rightarrow> type_ref \<Rightarrow> emitter" where
  "typedef_body tag_e typedef_e ftype_e type_e env r st =
     bindE (world_type (es_world st) r) (\<lambda>t. bindE (tag__type t) (\<lambda>def.
       if es_defined st r then Inr (False, st)
       else
         bindE (type_emissions__find_definition st DW_TAG_typedef (ty_name def)) (\<lambda>q.
           if q \<noteq> None then Inr (False, st\<lparr>es_defined := (es_defined st)(r := True)\<rparr>)
           else
             bindE (world_cu (es_world st) (fst r)) (\<lambda>cu. bindE (cu_type cu (tg_type t)) (\<lambda>type.
             bindE (case type of
                      None \<Rightarrow> Inr (True, st)
                    | Some ty \<Rightarrow> typedef_target tag_e typedef_e ftype_e type_e env (fst r) (ty_name def) (tg_type t) ty st) (\<lambda>(emit, st1).
             bindE (if emit \<and> \<not> es_defined st1 r then
                      map_sum id (out ('';'' @ eol))
                        (run_printer (fst r)
                          (typedef__fprintf (type__fprintf (pe_fuel env) env) (\<lambda>conf. tag__fprintf env (Some conf)) env
                             (conf_fprintf__defaults (pe_cacheline env)) t) st1)
                    else Inr st1) (\<lambda>st2.
               Inr (True, type_emissions__add_definition r st2))))))))"

definition tag_body ::
  "(nat \<Rightarrow> emitter) \<Rightarrow> (tag \<Rightarrow> emitter) \<Rightarrow> (nat \<Rightarrow> emitter) \<Rightarrow> nat \<Rightarrow> print_env \<Rightarrow> nat \<Rightarrow> nat \<Rightarrow> emitter" where
  "tag_body typedef_e ftype_e type_e n env u type_id st =
     bindE (world_cu (es_world st) u) (\<lambda>cu. bindE (emit_target n cu type_id False) (\<lambda>q.
       case q of
         None \<Rightarrow> Inr (False, st)
       | Some (pointer, i, t) \<Rightarrow>
           let tg = tg_tag t
           in if tg = DW_TAG_base_type then
                if em_skip_atomic (es_em st) then Inr (False, st) else base_type__emit_definitions (u, i) st
              else if tg = DW_TAG_typedef then typedef_e i st
              else if tg = DW_TAG_enumeration_type then
                bindE (tag__type t) (\<lambda>ty.
                  if ty_name ty \<noteq> None then enumeration__emit_definitions env (u, i) conf_zero st else Inr (False, st))
              else if tg = DW_TAG_structure_type \<or> tg = DW_TAG_union_type then
                if pointer then
                  bindE (tag__type t) (\<lambda>ty.
                  bindE (if ty_name ty = None then unit_of (type_e i) st else Inr st) (type__emit_fwd_decl (u, i)))
                else bindE (then_emit (type_e i) (type__emit env (u, i) None None) st) (\<lambda>st1. Inr (True, st1))
              else if tg = DW_TAG_subroutine_type then ftype_e t st
              else Inr (False, st)))"

text \<open>Each of a list in turn; whether any of them printed.\<close>

fun any_emitted :: "('a \<Rightarrow> emitter) \<Rightarrow> 'a list \<Rightarrow> bool \<Rightarrow> emitter" where
  "any_emitted f [] printed st = Inr (printed, st)"
| "any_emitted f (x # xs) printed st = bindE (f x st) (\<lambda>(b, st1). any_emitted f xs (printed \<or> b) st1)"

definition ftype_emit_body :: "(nat \<Rightarrow> emitter) \<Rightarrow> tag \<Rightarrow> emitter" where
  "ftype_emit_body tag_e t st =
     bindE (tag__ftype t) (\<lambda>ft. bindE (tag_e (tg_type t) st) (\<lambda>(printed, st1).
     bindE (any_emitted (\<lambda>p. tag_e (pa_type p)) (ft_parms ft) printed st1) (\<lambda>(printed2, st2).
       Inr (printed2, if printed2 then out eol st2 else st2))))"

definition type_emit_body ::
  "(nat \<Rightarrow> emitter) \<Rightarrow> (nat \<Rightarrow> emitter) \<Rightarrow> heap_env \<Rightarrow> nat \<Rightarrow> type_ref \<Rightarrow> emitter" where
  "type_emit_body tag_e typedef_e h n r st =
     bindE (world_type (es_world st) r) (\<lambda>t. bindE (tag__type t) (\<lambda>ctype.
       if es_defined st r then Inr (False, st)
       else
         bindE (type_emissions__find_definition st (tg_tag t) (ty_name ctype)) (\<lambda>q.
           if q \<noteq> None then Inr (False, st\<lparr>es_defined := (es_defined st)(r := True)\<rparr>)
           else if tag__is_typedef (tg_tag t) then typedef_e (snd r) st
           else
             bindE (disambiguate h r st) (\<lambda>(known, st1).
               if known then Inr (False, st1)
               else
                 bindE (check_alignments n r (type_emissions__add_definition r st1)) (\<lambda>st2.
                 bindE (fold_e (\<lambda>m. then_emit (tag_e (cm_type m)) (\<lambda>st. Inr (out eol st))) (type__members (ty_tags ctype)) st2) (\<lambda>st3.
                   Inr (True, st3)))))))"

text \<open>
  The four functions call each other, so they are one recursion over what is asked for.  The fuel
  bounds the nesting of types; \<open>env\<close> has its own for printing.
\<close>

datatype emit_request = Emit_tag nat | Emit_typedef nat | Emit_ftype tag | Emit_type nat

primrec emit_any :: "nat \<Rightarrow> heap_env \<Rightarrow> print_env \<Rightarrow> nat \<Rightarrow> emit_request \<Rightarrow> emitter" where
  "emit_any 0 h env u req = (\<lambda>st. Inl Out_Of_Fuel)"
| "emit_any (Suc n) h env u req =
     (let e = emit_any n h env u; tag_e = (\<lambda>i. e (Emit_tag i)); typedef_e = (\<lambda>i. e (Emit_typedef i));
          ftype_e = (\<lambda>t. e (Emit_ftype t)); type_e = (\<lambda>i. e (Emit_type i))
      in case req of
           Emit_tag type_id \<Rightarrow> tag_body typedef_e ftype_e type_e n env u type_id
         | Emit_typedef i \<Rightarrow> typedef_body tag_e typedef_e ftype_e type_e env (u, i)
         | Emit_ftype t \<Rightarrow> ftype_emit_body tag_e t
         | Emit_type i \<Rightarrow> type_emit_body tag_e typedef_e h n (u, i))"

definition tag__emit_definitions :: "nat \<Rightarrow> heap_env \<Rightarrow> print_env \<Rightarrow> nat \<Rightarrow> nat \<Rightarrow> emitter" where
  "tag__emit_definitions n h env u type_id = emit_any n h env u (Emit_tag type_id)"

definition typedef__emit_definitions :: "nat \<Rightarrow> heap_env \<Rightarrow> print_env \<Rightarrow> nat \<Rightarrow> nat \<Rightarrow> emitter" where
  "typedef__emit_definitions n h env u i = emit_any n h env u (Emit_typedef i)"

definition ftype__emit_definitions :: "nat \<Rightarrow> heap_env \<Rightarrow> print_env \<Rightarrow> nat \<Rightarrow> tag \<Rightarrow> emitter" where
  "ftype__emit_definitions n h env u t = emit_any n h env u (Emit_ftype t)"

definition type__emit_definitions :: "nat \<Rightarrow> heap_env \<Rightarrow> print_env \<Rightarrow> nat \<Rightarrow> nat \<Rightarrow> emitter" where
  "type__emit_definitions n h env u i = emit_any n h env u (Emit_type i)"

end
