(* ===== verification/Classes.thy ===== *)
theory Classes
  imports Emit
begin

text \<open>
  Which types pahole works on and what it prints about them besides their layout (\<open>pahole.c\<close>): the
  filters of the command line, structures that would shrink, statistics, pointers to a type and the
  structures that contain one.  The options are a record; messages on standard error are left out.
\<close>

record class_opts =
  co_just_unions :: bool
  co_just_structs :: bool
  co_just_packed_structs :: bool
  co_show_private_classes :: bool
  co_include_anonymous :: bool
  co_include_nested_anonymous :: bool
  co_exclude_prefix :: "string option"
  co_include_prefix :: "string option"
  co_decl_exclude_prefix :: "string option"
  co_cu_exclude_prefix :: "string option"
  co_nr_holes :: nat
  co_nr_bit_holes :: nat
  co_hole_size_ge :: nat
  co_end_padding :: nat
  co_end_padding_ge :: nat
  co_show_packable :: bool
  co_with_flexible_array :: bool
  co_with_embedded_flexible_array :: bool
  co_sort_output :: bool
  co_verbose :: bool
  co_recursive :: bool
  co_separator :: char

text \<open>
  What else the answers depend on: the bound of the searches through types, the sizes of the two
  structures a clone is made of, and what the debugging format knows of a declaration.
\<close>

record class_env =
  ce_heap :: heap_env
  ce_fuel :: nat
  ce_sizeof_class :: nat
  ce_sizeof_member :: nat
  ce_top_level :: "type_ref \<Rightarrow> bool"
  ce_decl_file :: "type_ref \<Rightarrow> string option"
  ce_decl_line :: "type_ref \<Rightarrow> nat"

section \<open>Filters\<close>

definition cu__filter :: "languages \<Rightarrow> class_opts \<Rightarrow> cu \<Rightarrow> bool" where
  "cu__filter ls co cu \<longleftrightarrow>
     \<not> languages__cu_filtered ls cu \<and>
     (case co_cu_exclude_prefix co of
        None \<Rightarrow> True
      | Some p \<Rightarrow> (case cu_name cu of None \<Rightarrow> False | Some nm \<Rightarrow> c_strncmp p nm (length p) \<noteq> 0))"

text \<open>The clone that is kept in \<open>priv\<close> when it is smaller.\<close>

definition class__packable :: "class_env \<Rightarrow> cu \<Rightarrow> nat \<Rightarrow> fault + class_t option" where
  "class__packable env cu i =
     bindE (get_class cu i) (\<lambda>(t, c).
       if cl_nr_holes c = 0 \<and> cl_nr_bit_holes c = 0 then Inr None
       else
         case class__clone (ce_heap env) (ce_sizeof_class env) (ce_sizeof_member env) c None of
           None \<Rightarrow> Inr None
         | Some clone \<Rightarrow>
             bindE (class__reorganize (ce_fuel env) (tg_tag t) cu clone) (\<lambda>clone'.
               Inr (if ty_size c > ty_size clone' then Some clone' else None)))"

definition struct_find_holes :: "cu \<Rightarrow> nat \<Rightarrow> tag \<Rightarrow> fault + cu" where
  "struct_find_holes cu i t =
     (if tag__is_struct (tg_tag t) then upd_class cu i (class__find_holes (tg_tag t)) else Inr cu)"

text \<open>The name, or that of the first typedef of an anonymous type.\<close>

definition alias_name :: "cu \<Rightarrow> nat \<Rightarrow> string option \<Rightarrow> fault + string option" where
  "alias_name cu tag_id nm =
     (case nm of
        Some s \<Rightarrow> Inr (Some s)
      | None \<Rightarrow>
          (case cu__find_first_typedef_of_type (Some cu) tag_id of
             None \<Rightarrow> Inr None
           | Some (j, tdef) \<Rightarrow> bindE (tag__type tdef) (\<lambda>ty. Inr (ty_name ty))))"

definition prefix_is :: "string \<Rightarrow> string option \<Rightarrow> bool" where
  "prefix_is p nm = (case nm of None \<Rightarrow> False | Some s \<Rightarrow> c_strncmp p s (length p) = 0)"

text \<open>The tests on the name; the name found for an exclusion is used for an inclusion as well.\<close>

definition name_wanted :: "class_opts \<Rightarrow> cu \<Rightarrow> nat \<Rightarrow> string option \<Rightarrow> fault + bool" where
  "name_wanted co cu tag_id nm =
     bindE (case co_exclude_prefix co of
              None \<Rightarrow> Inr (False, nm)
            | Some p \<Rightarrow> bindE (alias_name cu tag_id nm) (\<lambda>nm'. Inr (prefix_is p nm', nm'))) (\<lambda>(excluded, nm1).
       if excluded then Inr False
       else case co_include_prefix co of
              None \<Rightarrow> Inr True
            | Some p \<Rightarrow> bindE (alias_name cu tag_id nm1) (\<lambda>nm2. Inr (nm2 = None \<or> prefix_is p nm2)))"

definition decl_wanted :: "class_opts \<Rightarrow> string option \<Rightarrow> bool" where
  "decl_wanted co file =
     (case co_decl_exclude_prefix co of None \<Rightarrow> True | Some p \<Rightarrow> file \<noteq> None \<and> \<not> prefix_is p file)"

text \<open>The tests that only make sense for structures.\<close>

definition struct_wanted :: "class_env \<Rightarrow> class_opts \<Rightarrow> cu \<Rightarrow> nat \<Rightarrow> fault + (bool \<times> class_t option) \<times> cu" where
  "struct_wanted env co cu i =
     bindE (get_class cu i) (\<lambda>(t, c).
       if cl_nr_holes c < co_nr_holes co \<or> cl_padding c < co_end_padding_ge co \<or>
          cl_nr_bit_holes c < co_nr_bit_holes co \<or> (co_end_padding co \<noteq> 0 \<and> cl_padding c \<noteq> co_end_padding co) \<or>
          (co_hole_size_ge co \<noteq> 0 \<and> \<not> class__has_hole_ge c (co_hole_size_ge co))
       then Inr ((False, None), cu)
       else
         bindE (if co_show_packable co then class__packable env cu i else Inr None) (\<lambda>priv.
           if co_show_packable co \<and> priv = None then Inr ((False, None), cu)
           else
             bindE (if co_with_flexible_array co then class__has_flexible_array cu i else Inr (True, cu)) (\<lambda>(flexible, cu1).
               if \<not> flexible then Inr ((False, priv), cu1)
               else
                 bindE (if co_with_embedded_flexible_array co then class__has_embedded_flexible_array (ce_fuel env) cu1 i
                        else Inr (True, cu1)) (\<lambda>(embedded, cu2). Inr ((embedded, priv), cu2)))))"

definition class__filter ::
  "class_env \<Rightarrow> class_opts \<Rightarrow> nat \<Rightarrow> cu \<Rightarrow> nat \<Rightarrow> nat \<Rightarrow> fault + (bool \<times> class_t option) \<times> cu" where
  "class__filter env co u cu i tag_id =
     bindE (get_type cu i) (\<lambda>(t, ty0).
       let struct = tag__is_struct (tg_tag t); top = ce_top_level env (u, i); no = (\<lambda>cu. Inr ((False, None), cu))
       in if (co_just_unions co \<and> \<not> tag__is_union (tg_tag t)) \<or> (co_just_structs co \<and> \<not> struct) then no cu
          else
            bindE (if \<not> co_just_packed_structs co then Inr (True, cu)
                   else if struct then class__infer_packed_attributes (ce_fuel env) cu i else Inr (False, cu)) (\<lambda>(packed, cu1).
              if \<not> packed then no cu1
              else
                bindE (if top then Inr cu1 else struct_find_holes cu1 i t) (\<lambda>cu2.
                  if \<not> top \<and> \<not> co_show_private_classes co then no cu2
                  else
                    bindE (get_type cu2 i) (\<lambda>(t2, ty).
                      if ty_declaration ty \<or> (\<not> co_include_anonymous co \<and> ty_name ty = None) then no cu2
                      else
                        bindE (name_wanted co cu2 tag_id (ty_name ty)) (\<lambda>wanted.
                          if \<not> wanted \<or> \<not> decl_wanted co (ce_decl_file env (u, i)) then no cu2
                          else if \<not> struct then
                            Inr ((\<not> (co_just_structs co \<or> co_show_packable co \<or> co_nr_holes co \<noteq> 0 \<or> co_nr_bit_holes co \<noteq> 0 \<or>
                                      co_hole_size_ge co \<noteq> 0 \<or> co_end_padding_ge co \<noteq> 0 \<or> co_end_padding co \<noteq> 0 \<or>
                                      co_with_flexible_array co \<or> co_with_embedded_flexible_array co), None), cu2)
                          else
                            bindE (if top then struct_find_holes cu2 i t2 else Inr cu2) (\<lambda>cu3.
                              struct_wanted env co cu3 i))))))"

section \<open>Lines about a type\<close>

definition nr_definitions_formatter :: "class_opts \<Rightarrow> string option \<Rightarrow> structure_t \<Rightarrow> string" where
  "nr_definitions_formatter co nm st = str_or_null nm @ [co_separator co] @ dec (st_nr_files st) @ eol"

definition nr_methods_formatter :: "class_opts \<Rightarrow> string option \<Rightarrow> structure_t \<Rightarrow> string" where
  "nr_methods_formatter co nm st = str_or_null nm @ [co_separator co] @ dec (st_nr_methods st) @ eol"

definition nr_members_formatter :: "class_opts \<Rightarrow> type_t \<Rightarrow> string" where
  "nr_members_formatter co ty = str_or_null (ty_name ty) @ [co_separator co] @ dec (ty_nr_members ty) @ eol"

definition size_formatter :: "class_opts \<Rightarrow> tag \<Rightarrow> type_t \<Rightarrow> fault + string" where
  "size_formatter co t ty =
     bindE (if tag__is_union (tg_tag t) then Inr 0 else bindE (tag__class t) (\<lambda>c. Inr (cl_nr_holes c))) (\<lambda>holes.
       Inr (str_or_null (ty_name ty) @ [co_separator co] @ sdec (s32 (int (ty_size ty))) @ [co_separator co] @ dec holes @ eol))"

text \<open>\<open>strlen\<close> and \<open>puts\<close> of NULL.\<close>

definition class_name_len_formatter :: "class_opts \<Rightarrow> type_t \<Rightarrow> fault + string" where
  "class_name_len_formatter co ty =
     (case ty_name ty of None \<Rightarrow> Inl Null_Deref | Some nm \<Rightarrow> Inr (nm @ [co_separator co] @ dec (length nm) @ eol))"

definition class_name_formatter :: "type_t \<Rightarrow> fault + string" where
  "class_name_formatter ty = (case ty_name ty of None \<Rightarrow> Inl Null_Deref | Some nm \<Rightarrow> Inr (nm @ eol))"

text \<open>The savings of \<open>print_packable_info\<close> are printed as a signed number.\<close>

definition print_packable_info ::
  "class_env \<Rightarrow> class_opts \<Rightarrow> nat \<Rightarrow> cu \<Rightarrow> nat \<Rightarrow> class_t option \<Rightarrow> fault + string" where
  "print_packable_info env co u cu i priv =
     bindE (get_type cu i) (\<lambda>(t, ty).
       if \<not> tag__is_struct (tg_tag t) then Inr []
       else case priv of
         None \<Rightarrow> Inl Null_Deref
       | Some clone \<Rightarrow>
           bindE (alias_name cu i (ty_name ty)) (\<lambda>nm.
             let sep = [co_separator co];
                 sizes = sep @ dec (ty_size ty) @ sep @ dec (ty_size clone) @ sep @ sdec (int (ty_size ty) - int (ty_size clone)) @ eol
             in Inr ((case nm of
                        Some s \<Rightarrow> s
                      | None \<Rightarrow> str_or_null (ce_decl_file env (u, i)) @ ''('' @ dec (ce_decl_line env (u, i)) @ '')'') @ sizes)))"

text \<open>Lines about structures in the order they were found.\<close>

definition print_stats :: "(string option \<Rightarrow> structure_t \<Rightarrow> string) \<Rightarrow> world \<Rightarrow> structures \<Rightarrow> fault + string" where
  "print_stats fmt w ss =
     concat_e (\<lambda>st. bindE (world_ty w (st_class st)) (\<lambda>ty. Inr (fmt (ty_name ty) st))) (ss_list ss)"

section \<open>Going through a unit\<close>

text \<open>The structures and unions of a unit (\<open>cu__for_each_struct_or_union\<close>), which stay what they are.\<close>

definition struct_or_union_ids :: "cu \<Rightarrow> nat list" where
  "struct_or_union_ids cu =
     map fst (filter (\<lambda>(i, t). tag__is_struct (tg_tag t) \<or> tag__is_union (tg_tag t)) (cu__for_each_type cu))"

text \<open>The state of a run: what was emitted and printed, the structures seen, and \<open>conf\<close>.\<close>

record run = emit_st +
  ru_structs :: structures
  ru_conf :: conf_fprintf

text \<open>A step of a loop over types may end it.\<close>

fun until_stop :: "('a \<Rightarrow> 's \<Rightarrow> fault + bool \<times> 's) \<Rightarrow> 'a list \<Rightarrow> 's \<Rightarrow> fault + bool \<times> 's" where
  "until_stop f [] s = Inr (False, s)"
| "until_stop f (x # xs) s = bindE (f x s) (\<lambda>(stopped, s'). if stopped then Inr (True, s') else until_stop f xs s')"

definition each_struct_or_union :: "nat \<Rightarrow> (nat \<Rightarrow> run \<Rightarrow> fault + bool \<times> run) \<Rightarrow> run \<Rightarrow> fault + run" where
  "each_struct_or_union u f ru =
     bindE (world_cu (es_world ru) u) (\<lambda>cu. map_sum id snd (until_stop f (struct_or_union_ids cu) ru))"

definition filter_class :: "class_env \<Rightarrow> class_opts \<Rightarrow> nat \<Rightarrow> nat \<Rightarrow> nat \<Rightarrow> run \<Rightarrow> fault + (bool \<times> class_t option) \<times> run" where
  "filter_class env co u i tag_id ru =
     bindE (world_cu (es_world ru) u) (\<lambda>cu.
     bindE (class__filter env co u cu i tag_id) (\<lambda>(ok, cu'). Inr (ok, ru\<lparr>es_world := set_cu u cu' (es_world ru)\<rparr>)))"

definition add_structure :: "class_env \<Rightarrow> class_opts \<Rightarrow> type_ref \<Rightarrow> nat \<Rightarrow> run \<Rightarrow> fault + (nat option \<times> bool) \<times> run" where
  "add_structure env co r i ru =
     bindE (structures__add (ce_heap env) (co_sort_output co) (es_world ru) r i (ru_structs ru)) (\<lambda>(res, ss).
       Inr (res, ru\<lparr>ru_structs := ss\<rparr>))"

datatype class_fmt = Fmt_class | Fmt_nr_members | Fmt_size | Fmt_class_name_len | Fmt_class_name

definition emit :: "string \<Rightarrow> run \<Rightarrow> run" where
  "emit s ru = ru\<lparr>es_out := es_out ru @ s\<rparr>"

text \<open>\<open>cf\<close> is \<open>class_formatter\<close>; the number is the id that goes with the type.\<close>

definition run_formatter ::
  "(type_ref \<Rightarrow> nat \<Rightarrow> run \<Rightarrow> fault + run) \<Rightarrow> class_opts \<Rightarrow> class_fmt \<Rightarrow> type_ref \<Rightarrow> nat \<Rightarrow> run \<Rightarrow> fault + run" where
  "run_formatter cf co fmt r i ru =
     bindE (world_type (es_world ru) r) (\<lambda>t. bindE (tag__type t) (\<lambda>ty.
       case fmt of
         Fmt_class \<Rightarrow> cf r i ru
       | Fmt_nr_members \<Rightarrow> Inr (emit (nr_members_formatter co ty) ru)
       | Fmt_size \<Rightarrow> bindE (size_formatter co t ty) (\<lambda>s. Inr (emit s ru))
       | Fmt_class_name_len \<Rightarrow> bindE (class_name_len_formatter co ty) (\<lambda>s. Inr (emit s ru))
       | Fmt_class_name \<Rightarrow> bindE (class_name_formatter ty) (\<lambda>s. Inr (emit s ru))))"

definition print_class ::
  "(type_ref \<Rightarrow> nat \<Rightarrow> run \<Rightarrow> fault + run) \<Rightarrow> class_env \<Rightarrow> class_opts \<Rightarrow> class_fmt option \<Rightarrow> nat \<Rightarrow> nat \<Rightarrow>
    run \<Rightarrow> fault + bool \<times> run" where
  "print_class cf env co fmt u i ru =
     bindE (world_ty (es_world ru) (u, i)) (\<lambda>ty.
       if ty_name ty = None \<and> \<not> (co_include_anonymous co \<or> co_include_nested_anonymous co) then Inr (False, ru)
       else
         bindE (filter_class env co u i i ru) (\<lambda>((wanted, priv), ru1).
           if \<not> wanted then Inr (False, ru1)
           else
             bindE (if ty_name ty = None then Inr ((Some 0, False), ru1) else add_structure env co (u, i) i ru1) (\<lambda>((str, existing), ru2).
               case str of
                 None \<Rightarrow> Inr (True, ru2)
               | Some k \<Rightarrow>
                   if existing then
                     Inr (False, ru2\<lparr>ru_structs := upd_structure k (\<lambda>s. s\<lparr>st_nr_files := u32 (st_nr_files s + 1)\<rparr>) (ru_structs ru2)\<rparr>)
                   else if co_show_packable co \<and> \<not> co_verbose co then
                     bindE (world_cu (es_world ru2) u) (\<lambda>cu. bindE (print_packable_info env co u cu i priv) (\<lambda>s. Inr (False, emit s ru2)))
                   else if co_sort_output co \<and> fmt = Some Fmt_class then Inr (False, ru2)
                   else case fmt of
                     None \<Rightarrow> Inr (False, ru2)
                   | Some f \<Rightarrow>
                       bindE (run_formatter cf co f (u, i) i ru2) (\<lambda>ru3. Inr (False, ru3)))))"

definition cu__print_classes ::
  "(type_ref \<Rightarrow> nat \<Rightarrow> run \<Rightarrow> fault + run) \<Rightarrow> class_env \<Rightarrow> class_opts \<Rightarrow> class_fmt option \<Rightarrow> nat \<Rightarrow> run \<Rightarrow> fault + run" where
  "cu__print_classes cf env co fmt u = each_struct_or_union u (print_class cf env co fmt u)"

text \<open>All types in order at the end.\<close>

definition print_ordered_loop ::
  "(type_ref \<Rightarrow> nat \<Rightarrow> run \<Rightarrow> fault + run) \<Rightarrow> nat list \<Rightarrow> run \<Rightarrow> fault + run" where
  "print_ordered_loop cf ks =
     fold_e (\<lambda>k ru. let st = ss_list (ru_structs ru) ! k in cf (st_class st) (st_id st) ru) ks"

definition print_ordered_classes ::
  "(type_ref \<Rightarrow> nat \<Rightarrow> run \<Rightarrow> fault + run) \<Rightarrow> nat \<Rightarrow> run \<Rightarrow> fault + run" where
  "print_ordered_classes cf n ru =
     bindE (ordered_classes n (es_world ru) (ru_structs ru)) (\<lambda>ks. print_ordered_loop cf ks ru)"

section \<open>Methods\<close>

text \<open>The structure with a name that the type of a parameter points to.\<close>

definition method_class :: "cu \<Rightarrow> nat \<Rightarrow> fault + nat option" where
  "method_class cu ptype =
     bindE (cu_type cu ptype) (\<lambda>t.
       case t of
         None \<Rightarrow> Inr None
       | Some p \<Rightarrow>
           if \<not> tag__is_pointer (tg_tag p) then Inr None
           else bindE (cu_type cu (tg_type p)) (\<lambda>s.
             case s of
               None \<Rightarrow> Inr None
             | Some s \<Rightarrow>
                 if \<not> tag__is_struct (tg_tag s) then Inr None
                 else bindE (tag__type s) (\<lambda>ty. Inr (if ty_name ty = None then None else Some (tg_type p)))))"

definition account_parameter :: "class_env \<Rightarrow> class_opts \<Rightarrow> nat \<Rightarrow> nat \<Rightarrow> parameter \<Rightarrow> run \<Rightarrow> fault + bool \<times> run" where
  "account_parameter env co u fid p ru =
     bindE (world_cu (es_world ru) u) (\<lambda>cu. bindE (method_class cu (pa_type p)) (\<lambda>c.
       case c of
         None \<Rightarrow> Inr (False, ru)
       | Some i \<Rightarrow>
           bindE (filter_class env co u i 0 ru) (\<lambda>((wanted, priv), ru1).
             if \<not> wanted then Inr (False, ru1)
             else
               bindE (add_structure env co (u, i) fid ru1) (\<lambda>((str, existing), ru2).
                 case str of
                   None \<Rightarrow> Inr (True, ru2)
                 | Some k \<Rightarrow>
                     bindE (world_cu (es_world ru2) u) (\<lambda>cu2. bindE (get_type cu2 i) (\<lambda>(t, ty).
                     bindE (if existing then Inr cu2 else struct_find_holes cu2 i t) (\<lambda>cu3.
                       Inr (False, ru2\<lparr>es_world := set_cu u cu3 (es_world ru2),
                         ru_structs := upd_structure k (\<lambda>s. s\<lparr>st_nr_methods := u32 (st_nr_methods s + 1)\<rparr>) (ru_structs ru2)\<rparr>))))))))"

definition function_parameters :: "cu \<Rightarrow> tag \<Rightarrow> fault + parameter list" where
  "function_parameters cu t =
     bindE (tag__function t) (\<lambda>f.
       if fn_btf f then
         bindE (cu_type cu (tg_type t)) (\<lambda>p.
           case p of None \<Rightarrow> Inl Null_Deref | Some p \<Rightarrow> bindE (tag__ftype p) (\<lambda>ft. Inr (ft_parms ft)))
       else Inr (ft_parms (fn_proto f)))"

definition account_function :: "class_env \<Rightarrow> class_opts \<Rightarrow> nat \<Rightarrow> nat \<times> tag \<Rightarrow> run \<Rightarrow> fault + bool \<times> run" where
  "account_function env co u ft ru =
     bindE (world_cu (es_world ru) u) (\<lambda>cu. bindE (function_parameters cu (snd ft)) (\<lambda>ps.
       until_stop (account_parameter env co u (fst ft)) ps ru))"

text \<open>The first structure that cannot be allocated ends everything.\<close>

definition cu__account_nr_methods :: "class_env \<Rightarrow> class_opts \<Rightarrow> nat \<Rightarrow> run \<Rightarrow> fault + run" where
  "cu__account_nr_methods env co u ru =
     bindE (world_cu (es_world ru) u) (\<lambda>cu.
       map_sum id snd (until_stop (account_function env co u) (cu__for_each_function cu) ru))"

section \<open>Pointers and containers\<close>

definition tag__is_pointer_to :: "tag \<Rightarrow> nat \<Rightarrow> bool" where
  "tag__is_pointer_to t type \<longleftrightarrow> tag__is_pointer (tg_tag t) \<and> tg_type t = type"

text \<open>
  The members of one structure; \<open>looked\<close> is the structure it was entered as.  A member whose type is
  not there ends the program.
\<close>

fun pointer_members ::
  "class_env \<Rightarrow> class_opts \<Rightarrow> nat \<Rightarrow> nat \<Rightarrow> nat \<Rightarrow> class_member list \<Rightarrow> nat option \<Rightarrow> run \<Rightarrow> fault + bool \<times> run" where
  "pointer_members env co u i type [] looked ru = Inr (False, ru)"
| "pointer_members env co u i type (m # ms) looked ru =
     bindE (world_cu (es_world ru) u) (\<lambda>cu. bindE (cu_type cu (cm_type m)) (\<lambda>ct.
       case ct of
         None \<Rightarrow> Inl (Exit 1)
       | Some ct \<Rightarrow>
           if \<not> tag__is_pointer_to ct type then pointer_members env co u i type ms looked ru
           else
             bindE (case looked of
                      Some k \<Rightarrow> Inr ((Some k, False), ru)
                    | None \<Rightarrow> add_structure env co (u, i) i ru) (\<lambda>((str, existing), ru1).
               case str of
                 None \<Rightarrow> Inr (True, ru1)
               | Some k \<Rightarrow>
                   if existing then Inr (False, ru1)
                   else
                     bindE (world_ty (es_world ru1) (node_class (ru_structs ru1) k)) (\<lambda>ty.
                       pointer_members env co u i type ms (Some k)
                         (emit (str_or_null (ty_name ty) @ '': '' @ str_or_null (cm_name m) @ eol) ru1)))))"

definition pointers_in :: "class_env \<Rightarrow> class_opts \<Rightarrow> nat \<Rightarrow> nat \<Rightarrow> nat \<Rightarrow> run \<Rightarrow> fault + bool \<times> run" where
  "pointers_in env co u type i ru =
     bindE (world_ty (es_world ru) (u, i)) (\<lambda>ty.
       if ty_name ty = None then Inr (False, ru)
       else
         bindE (filter_class env co u i i ru) (\<lambda>((wanted, priv), ru1).
           if \<not> wanted then Inr (False, ru1)
           else bindE (world_ty (es_world ru1) (u, i)) (\<lambda>ty1.
             pointer_members env co u i type (type__members (ty_tags ty1)) None ru1)))"

definition print_structs_with_pointer_to :: "class_env \<Rightarrow> class_opts \<Rightarrow> nat \<Rightarrow> nat \<Rightarrow> run \<Rightarrow> fault + run" where
  "print_structs_with_pointer_to env co u type = each_struct_or_union u (pointers_in env co u type)"

text \<open>\<open>tab\<close> holds 127 blanks.\<close>

definition container_line :: "class_opts \<Rightarrow> nat \<Rightarrow> string option \<Rightarrow> nat \<Rightarrow> string" where
  "container_line co ident nm n = take (ident * 2) (blanks 127) @ str_or_null nm @ (if co_verbose co then '': '' @ dec n else []) @ eol"

text \<open>\<open>n\<close> bounds how deep structures are nested; the result is whether -1 was returned.\<close>

fun type__print_containers ::
  "nat \<Rightarrow> class_env \<Rightarrow> class_opts \<Rightarrow> nat \<Rightarrow> nat \<Rightarrow> nat \<Rightarrow> nat \<Rightarrow> run \<Rightarrow> fault + bool \<times> run" where
  "type__print_containers 0 env co u i ctype ident ru = Inl Out_Of_Fuel"
| "type__print_containers (Suc n) env co u i ctype ident ru =
     bindE (world_cu (es_world ru) u) (\<lambda>cu. bindE (world_ty (es_world ru) (u, i)) (\<lambda>ty.
       let k = type__nr_members_of_type ty ctype
       in if k = 0 then Inr (False, ru)
          else
            bindE (if ident = 0 then add_structure env co (u, i) 0 ru else Inr ((Some 0, False), ru)) (\<lambda>((str, existing), ru1).
              if str = None then Inr (True, ru1)
              else if existing then Inr (False, ru1)
              else
                let ru2 = emit (container_line co ident (ty_name ty) k) ru1
                in if \<not> co_recursive co then Inr (False, ru2)
                   else
                     bindE (fold_e (\<lambda>m ru.
                       bindE (cu_type cu (cm_type m)) (\<lambda>mt.
                         case mt of
                           None \<Rightarrow> Inl Null_Deref
                         | Some mt \<Rightarrow>
                             if tag__is_struct (tg_tag mt) \<or> tag__is_union (tg_tag mt)
                             then map_sum id snd (type__print_containers n env co u (cm_type m) ctype (ident + 1) ru)
                             else Inr ru)) (type__members (ty_tags ty)) ru2) (\<lambda>ru3. Inr (False, ru3)))))"

definition containers_in :: "class_env \<Rightarrow> class_opts \<Rightarrow> nat \<Rightarrow> nat \<Rightarrow> nat \<Rightarrow> nat \<Rightarrow> run \<Rightarrow> fault + bool \<times> run" where
  "containers_in env co u type ident i ru =
     bindE (world_ty (es_world ru) (u, i)) (\<lambda>ty.
       if ty_name ty = None then Inr (False, ru)
       else
         bindE (filter_class env co u i i ru) (\<lambda>((wanted, priv), ru1).
           if \<not> wanted then Inr (False, ru1) else type__print_containers (ce_fuel env) env co u i type ident ru1))"

definition print_containers :: "class_env \<Rightarrow> class_opts \<Rightarrow> nat \<Rightarrow> nat \<Rightarrow> nat \<Rightarrow> run \<Rightarrow> fault + run" where
  "print_containers env co u type ident = each_struct_or_union u (containers_in env co u type ident)"

end
