(* ===== verification/Wordsize.thy ===== *)
theory Wordsize
  imports Classes
begin

text \<open>
  \<open>--word_size\<close> (\<open>pahole.c\<close>): structures and unions as they would be with another size of pointers and
  longs.  What \<open>struct type\<close> remembers of the change, \<open>resized\<close> and \<open>size_diff\<close>, is kept beside the unit
  by the index of the type; sizes and their differences are at the width of the code.
\<close>

record resize =
  rz_cu :: cu
  rz_resized :: "nat \<Rightarrow> bool"
  rz_diff :: "nat \<Rightarrow> int"

definition word_diff :: "nat \<Rightarrow> nat \<Rightarrow> nat" where
  "word_diff ow ws = (if ow > ws then ow - ws else ws - ow)"

fun data_slot :: "ns_entry \<Rightarrow> bool" where
  "data_slot (Member m) \<longleftrightarrow> cm_tag m = DW_TAG_member \<or> cm_tag m = DW_TAG_inheritance"
| "data_slot _ \<longleftrightarrow> False"

definition long_name :: "string \<Rightarrow> bool" where
  "long_name nm \<longleftrightarrow> c_strcmp nm ''long int'' = 0 \<or> c_strcmp nm ''long unsigned int'' = 0"

text \<open>\<open>tag__assert_search_result\<close>: a type that is not there ends the program.\<close>

definition found_type :: "cu \<Rightarrow> nat \<Rightarrow> fault + nat \<times> tag" where
  "found_type cu i =
     bindE (cu_type cu i) (\<lambda>t. case t of None \<Rightarrow> Inl (Exit 1) | Some t \<Rightarrow> Inr (i, t))"

text \<open>The product of the dimensions of an array.\<close>

definition array_multiplier :: "array_type \<Rightarrow> fault + nat" where
  "array_multiplier ar =
     (if at_dimensions ar = 0 then Inr 1
      else case at_nr_entries ar of
             None \<Rightarrow> Inl Null_Deref
           | Some es \<Rightarrow>
               if length es < at_dimensions ar then Inl Out_Of_Bounds
               else Inr (fold (\<lambda>e k. u64 (k * e)) (take (at_dimensions ar) es) 1))"

text \<open>The type of a member behind an array and typedefs, and how many there are.\<close>

definition member_target :: "nat \<Rightarrow> cu \<Rightarrow> class_member \<Rightarrow> fault + (nat \<times> tag) \<times> nat" where
  "member_target n cu m =
     bindE (found_type cu (cm_type m)) (\<lambda>(i, t).
     bindE (if tg_tag t = DW_TAG_array_type then
              bindE (tag__array_type t) (\<lambda>ar. bindE (array_multiplier ar) (\<lambda>k.
              bindE (found_type cu (tg_type t)) (\<lambda>e. Inr (e, k))))
            else Inr ((i, t), 1)) (\<lambda>((j, u), k).
       if tag__is_typedef (tg_tag u) then
         bindE (tag__follow_typedef n cu (tg_type u)) (\<lambda>q.
           case q of None \<Rightarrow> Inl (Exit 1) | Some v \<Rightarrow> Inr (v, k))
       else Inr ((j, u), k)))"

text \<open>How much one element of a type changes; \<open>rec\<close> and \<open>urec\<close> resize a structure and a union.\<close>

definition element_diff ::
  "(nat \<Rightarrow> resize \<Rightarrow> fault + resize) \<Rightarrow> (nat \<Rightarrow> resize \<Rightarrow> fault + resize) \<Rightarrow> nat \<Rightarrow> nat \<times> tag \<Rightarrow> resize \<Rightarrow>
    fault + nat \<times> resize" where
  "element_diff rec urec wd it rz =
     (case it of (i, t) \<Rightarrow>
        if tg_tag t = DW_TAG_base_type then
          bindE (tag__base_type t) (\<lambda>bt. bindE (base_type__name bt 64) (\<lambda>nm. Inr (if long_name nm then wd else 0, rz)))
        else if tg_tag t = DW_TAG_pointer_type then Inr (wd, rz)
        else if tg_tag t = DW_TAG_structure_type \<or> tg_tag t = DW_TAG_union_type then
          bindE (if tag__is_union (tg_tag t) then urec i rz else rec i rz) (\<lambda>rz1. Inr (nat (u64 (rz_diff rz1 i)), rz1))
        else Inr (0, rz))"

text \<open>The distance is cut to 16 bits where it is passed on.\<close>

definition move_members :: "bool \<Rightarrow> nat \<Rightarrow> nat \<Rightarrow> class_t \<Rightarrow> fault + class_t" where
  "move_members smaller d j c =
     (if smaller then class__subtract_offsets_from (add_size c (- int d)) (Some j) (u16 d)
      else Inr (class__add_offsets_from (add_size c (int d)) (Some j) (u16 d)))"

definition resize_member ::
  "(nat \<Rightarrow> resize \<Rightarrow> fault + resize) \<Rightarrow> (nat \<Rightarrow> resize \<Rightarrow> fault + resize) \<Rightarrow> nat \<Rightarrow> nat \<Rightarrow> nat \<Rightarrow> nat \<Rightarrow> nat \<Rightarrow>
    resize \<Rightarrow> fault + resize" where
  "resize_member rec urec n ow ws i j rz =
     bindE (get_class (rz_cu rz) i) (\<lambda>(t, c).
       case ty_tags c ! j of
         Member m \<Rightarrow>
           bindE (member_target n (rz_cu rz) m) (\<lambda>(it, k).
           bindE (element_diff rec urec (word_diff ow ws) it rz) (\<lambda>(d, rz1).
             let d' = u64 (d * k)
             in if d' = 0 then Inr rz1
                else
                  bindE (get_class (rz_cu rz1) i) (\<lambda>(t1, c1).
                  bindE (move_members (ow > ws) d' j c1) (\<lambda>c2.
                    Inr (rz1\<lparr>rz_cu := put_class (rz_cu rz1) i t1 c2\<rparr>)))))
       | _ \<Rightarrow> Inr rz)"

text \<open>One member of a union: structures and unions are resized first; the largest size so far.\<close>

definition union_member_size ::
  "(nat \<Rightarrow> resize \<Rightarrow> fault + resize) \<Rightarrow> (nat \<Rightarrow> resize \<Rightarrow> fault + resize) \<Rightarrow> nat \<Rightarrow> class_member \<Rightarrow>
    nat \<times> resize \<Rightarrow> fault + nat \<times> resize" where
  "union_member_size rec urec n m s =
     (case s of (max_size, rz) \<Rightarrow>
        bindE (found_type (rz_cu rz) (cm_type m)) (\<lambda>(i, t).
        bindE (if tag__is_typedef (tg_tag t) then
                 bindE (tag__follow_typedef n (rz_cu rz) (tg_type t)) (\<lambda>q.
                   case q of None \<Rightarrow> Inl Null_Deref | Some v \<Rightarrow> Inr v)
               else Inr (i, t)) (\<lambda>(j, u).
        bindE (if tag__is_union (tg_tag u) then urec j rz
               else if tag__is_struct (tg_tag u) then rec j rz else Inr rz) (\<lambda>rz1.
        bindE (cu_type (rz_cu rz1) j) (\<lambda>v.
          case v of
            None \<Rightarrow> Inl Null_Deref
          | Some v \<Rightarrow> bindE (tag__size n (rz_cu rz1) v) (\<lambda>sz. Inr (max max_size sz, rz1)))))))"

definition set_type_size :: "tag \<Rightarrow> nat \<Rightarrow> tag" where
  "set_type_size t sz =
     (case tg_body t of
        Type_body ty \<Rightarrow> t\<lparr>tg_body := Type_body (ty\<lparr>ty_size := sz\<rparr>)\<rparr>
      | Class_body c \<Rightarrow> t\<lparr>tg_body := Class_body (c\<lparr>ty_size := sz\<rparr>)\<rparr>
      | _ \<Rightarrow> t)"

text \<open>The fuel bounds how deep types are nested and the chains of typedefs.\<close>

fun class__resize_LP :: "nat \<Rightarrow> nat \<Rightarrow> nat \<Rightarrow> nat \<Rightarrow> resize \<Rightarrow> fault + resize"
  and union__find_new_size :: "nat \<Rightarrow> nat \<Rightarrow> nat \<Rightarrow> nat \<Rightarrow> resize \<Rightarrow> fault + resize" where
  "class__resize_LP 0 ow ws i rz = Inl Out_Of_Fuel"
| "class__resize_LP (Suc n) ow ws i rz =
     bindE (get_class (rz_cu rz) i) (\<lambda>(t, c).
       if rz_resized rz i then Inr rz
       else
         bindE (fold_e (resize_member (class__resize_LP n ow ws) (union__find_new_size n ow ws) n ow ws i)
                  (filter (\<lambda>j. data_slot (ty_tags c ! j)) [0..<length (ty_tags c)])
                  (rz\<lparr>rz_resized := (rz_resized rz)(i := True)\<rparr>)) (\<lambda>rz1.
         bindE (get_class (rz_cu rz1) i) (\<lambda>(t1, c1).
           let d = s32 (if ow > ws then int (ty_size c) - int (ty_size c1) else int (ty_size c1) - int (ty_size c))
           in bindE (class__fixup_alignment n (rz_cu rz1) (class__find_holes (tg_tag t1) c1)) (\<lambda>c2.
                Inr (rz1\<lparr>rz_diff := (rz_diff rz1)(i := d), rz_cu := put_class (rz_cu rz1) i t1 c2\<rparr>)))))"
| "union__find_new_size 0 ow ws i rz = Inl Out_Of_Fuel"
| "union__find_new_size (Suc n) ow ws i rz =
     bindE (get_type (rz_cu rz) i) (\<lambda>(t, ty).
       if rz_resized rz i then Inr rz
       else
         bindE (fold_e (union_member_size (class__resize_LP n ow ws) (union__find_new_size n ow ws) n) (type__members (ty_tags ty))
                  (0, rz\<lparr>rz_resized := (rz_resized rz)(i := True)\<rparr>)) (\<lambda>(max_size, rz1).
         bindE (get_type (rz_cu rz1) i) (\<lambda>(t1, ty1).
           let d = s32 (if max_size > ty_size ty1 then int max_size - int (ty_size ty1) else int (ty_size ty1) - int max_size)
           in Inr (rz1\<lparr>rz_diff := (rz_diff rz1)(i := d),
                       rz_cu := cu_set_type (rz_cu rz1) i (set_type_size t1 (u32 max_size))\<rparr>))))"

text \<open>The types nested in a structure come first.\<close>

fun tag__fixup_word_size :: "nat \<Rightarrow> nat \<Rightarrow> nat \<Rightarrow> nat \<Rightarrow> resize \<Rightarrow> fault + resize" where
  "tag__fixup_word_size 0 ow ws i rz = Inl Out_Of_Fuel"
| "tag__fixup_word_size (Suc n) ow ws i rz =
     bindE (found_type (rz_cu rz) i) (\<lambda>(_, t).
     bindE (if tag__is_struct (tg_tag t) \<or> tag__is_union (tg_tag t) then
              bindE (tag__type t) (\<lambda>ty.
                fold_e (\<lambda>e rz.
                  case e of
                    Nested tg j \<Rightarrow> if tag__is_tag_type tg then tag__fixup_word_size n ow ws j rz else Inr rz
                  | _ \<Rightarrow> Inr rz) (ty_tags ty) rz)
            else Inr rz) (\<lambda>rz1.
       if tg_tag t = DW_TAG_base_type then
         bindE (tag__base_type t) (\<lambda>bt. bindE (base_type__name bt 64) (\<lambda>nm.
           Inr (if long_name nm
                then rz1\<lparr>rz_cu := cu_set_type (rz_cu rz1) i (t\<lparr>tg_body := Base_body (bt\<lparr>bt_bit_size := ws * 8\<rparr>)\<rparr>)\<rparr>
                else rz1)))
       else if tg_tag t = DW_TAG_structure_type then class__resize_LP n ow ws i rz1
       else if tg_tag t = DW_TAG_union_type then union__find_new_size n ow ws i rz1
       else Inr rz1))"

definition cu_fixup_word_size_iterator :: "nat \<Rightarrow> nat \<Rightarrow> cu \<Rightarrow> fault + resize" where
  "cu_fixup_word_size_iterator n ws cu =
     fold_e (tag__fixup_word_size n (cu_addr_size cu) ws) (map fst (cu__for_each_type cu))
       \<lparr>rz_cu = cu\<lparr>cu_addr_size := ws\<rparr>, rz_resized = (\<lambda>_. False), rz_diff = (\<lambda>_. 0)\<rparr>"

end
