(* ===== verification/EmitOnce.thy ===== *)
theory EmitOnce
  imports Emit FprintfCount
begin

text \<open>
  No structure, union or enumeration is defined twice: whatever is emitted, the list of definitions
  never holds two types of one kind and name.
\<close>

section \<open>What emitting keeps\<close>

definition face_at :: "world \<Rightarrow> type_ref \<Rightarrow> (dw_tag \<times> nat \<times> string option option) option" where
  "face_at w r = (case world_type w r of Inr t \<Rightarrow> Some (face t) | Inl e \<Rightarrow> None)"

text \<open>The kind and the name under which a definition must be unique.\<close>

definition def_key :: "world \<Rightarrow> type_ref \<Rightarrow> (dw_tag \<times> string) option" where
  "def_key w r =
     (case face_at w r of
        Some (tg, i, Some (Some nm)) \<Rightarrow> if type__can_have_shadow_definition tg then Some (tg, nm) else None
      | _ \<Rightarrow> None)"

definition emit_inv :: "emit_st \<Rightarrow> bool" where
  "emit_inv st \<longleftrightarrow>
     distinct (em_defs (es_em st)) \<and>
     (\<forall>r \<in> set (em_defs (es_em st)). es_defined st r \<and> face_at (es_world st) r \<noteq> None) \<and>
     (\<forall>r \<in> set (em_defs (es_em st)). \<forall>s \<in> set (em_defs (es_em st)). \<forall>k.
        def_key (es_world st) r = Some k \<longrightarrow> def_key (es_world st) s = Some k \<longrightarrow> r = s)"

lemma emit_invI:
  assumes "distinct (em_defs (es_em st))"
    and "\<And>r. r \<in> set (em_defs (es_em st)) \<Longrightarrow> es_defined st r \<and> face_at (es_world st) r \<noteq> None"
    and "\<And>r s k. r \<in> set (em_defs (es_em st)) \<Longrightarrow> s \<in> set (em_defs (es_em st)) \<Longrightarrow>
      def_key (es_world st) r = Some k \<Longrightarrow> def_key (es_world st) s = Some k \<Longrightarrow> r = s"
  shows "emit_inv st"
  unfolding emit_inv_def using assms(1) by (intro conjI ballI allI impI) (blast dest: assms(2) intro: assms(3))+

lemma emit_invD:
  assumes "emit_inv st"
  shows "distinct (em_defs (es_em st))"
    and "r \<in> set (em_defs (es_em st)) \<Longrightarrow> es_defined st r \<and> face_at (es_world st) r \<noteq> None"
    and "r \<in> set (em_defs (es_em st)) \<Longrightarrow> s \<in> set (em_defs (es_em st)) \<Longrightarrow>
      def_key (es_world st) r = Some k \<Longrightarrow> def_key (es_world st) s = Some k \<Longrightarrow> r = s"
  using assms unfolding emit_inv_def by blast+

text \<open>
  Definitions stay in the list; the face of what is defined stays, and so does the kind of every type.
\<close>

definition keeps :: "emit_st \<Rightarrow> emit_st \<Rightarrow> bool" where
  "keeps st st' \<longleftrightarrow>
     set (em_defs (es_em st)) \<subseteq> set (em_defs (es_em st')) \<and>
     (\<forall>r. es_defined st r \<longrightarrow> es_defined st' r) \<and>
     (\<forall>r f. face_at (es_world st) r = Some f \<longrightarrow>
        (\<exists>f'. face_at (es_world st') r = Some f' \<and> fst f' = fst f \<and> (es_defined st r \<longrightarrow> f' = f)))"

definition stays :: "emit_st \<Rightarrow> emit_st \<Rightarrow> bool" where
  "stays st st' \<longleftrightarrow> (emit_inv st \<longrightarrow> emit_inv st' \<and> keeps st st')"

lemma stays_refl [simp]: "stays st st"
  by (simp add: stays_def keeps_def)

lemma keeps_trans:
  assumes "keeps a b" and "keeps b c"
  shows "keeps a c"
  unfolding keeps_def
proof (intro conjI allI impI)
  fix r f
  assume "face_at (es_world a) r = Some f"
  then obtain f' where f': "face_at (es_world b) r = Some f'" "fst f' = fst f" "es_defined a r \<longrightarrow> f' = f"
    using assms(1) unfolding keeps_def by blast
  then obtain f'' where "face_at (es_world c) r = Some f''" "fst f'' = fst f'" "es_defined b r \<longrightarrow> f'' = f'"
    using assms(2) unfolding keeps_def by blast
  moreover have "es_defined a r \<Longrightarrow> es_defined b r" using assms(1) unfolding keeps_def by blast
  ultimately show "\<exists>f'. face_at (es_world c) r = Some f' \<and> fst f' = fst f \<and> (es_defined a r \<longrightarrow> f' = f)"
    using f' by (intro exI [of _ f'']) simp
qed (use assms in \<open>auto simp: keeps_def\<close>)

lemma stays_trans: "stays a b \<Longrightarrow> stays b c \<Longrightarrow> stays a c"
  unfolding stays_def using keeps_trans by blast

lemma stays_if: "(emit_inv st \<Longrightarrow> stays st st') \<Longrightarrow> stays st st'"
  by (simp add: stays_def)

text \<open>A step that leaves the list of definitions, all faces and all marks of definitions.\<close>

lemma stays_same:
  assumes "em_defs (es_em st') = em_defs (es_em st)" and "\<And>r. es_defined st r \<Longrightarrow> es_defined st' r"
    and "\<And>r f. face_at (es_world st) r = Some f \<Longrightarrow> face_at (es_world st') r = Some f"
  shows "stays st st'"
proof -
  have "face_at (es_world st') r = face_at (es_world st) r" if "face_at (es_world st) r \<noteq> None" for r
    using that by (cases "face_at (es_world st) r") (simp_all add: assms(3))
  then have key: "def_key (es_world st') r = def_key (es_world st) r" if "face_at (es_world st) r \<noteq> None" for r
    using that by (simp add: def_key_def)
  have "emit_inv st'" if inv: "emit_inv st"
  proof (rule emit_invI, goal_cases)
    case 1
    then show ?case using emit_invD(1) [OF inv] assms(1) by simp
  next
    case (2 r)
    then have "es_defined st r" "face_at (es_world st) r \<noteq> None"
      using emit_invD(2) [OF inv, of r] assms(1) by simp_all
    then show ?case using assms(2,3) by (cases "face_at (es_world st) r") simp_all
  next
    case (3 r s k)
    then show ?case using emit_invD(2) [OF inv, of r] emit_invD(2) [OF inv, of s] emit_invD(3) [OF inv, of r s k] assms(1) key
      by simp
  qed
  moreover have "keeps st st'" unfolding keeps_def using assms(1) by (auto dest: assms(2,3))
  ultimately show ?thesis by (simp add: stays_def)
qed

lemma stays_out [simp]: "stays st (out s st)"
  by (rule stays_same) (simp_all add: out_def)

lemma stays_out' [simp]: "stays st st' \<Longrightarrow> stays st (out s st')"
  using stays_trans stays_out by blast

lemma stays_mark [simp]: "stays st (st\<lparr>es_defined := (es_defined st)(r := True)\<rparr>)"
  by (rule stays_same) simp_all

lemma stays_declared [simp]: "stays st (st\<lparr>es_declared := f\<rparr>)"
  by (rule stays_same) simp_all

lemma stays_add_fwd [simp]: "stays st (type_emissions__add_fwd_decl r st)"
  by (rule stays_same) (simp_all add: type_emissions__add_fwd_decl_def Let_def)

lemma stays_add_base [simp]: "stays st (base_type_emissions__add_definition r st)"
  by (rule stays_same) (simp_all add: base_type_emissions__add_definition_def)

section \<open>Printing\<close>

lemma world_type_cu:
  "world_cu w u = Inr cu \<Longrightarrow> world_type w (u, i) = (case cu_type cu i of Inl e \<Rightarrow> Inl e | Inr None \<Rightarrow> Inl Null_Deref | Inr (Some t) \<Rightarrow> Inr t)"
  by (simp add: world_type_def split: sum.split option.split)

lemma world_cu_set [simp]: "world_cu w u = Inr cu \<Longrightarrow> world_cu (set_cu u cu' w) v = (if v = u then Inr cu' else world_cu w v)"
  by (auto simp: world_cu_def set_cu_def split: if_splits)

lemma face_settled:
  assumes "world_cu w u = Inr cu" and "settled cu cu'" and "face_at w r \<noteq> None"
  shows "face_at (set_cu u cu' w) r = face_at w r"
proof (cases "fst r = u")
  case True
  then obtain i where r: "r = (u, i)" by (cases r) auto
  from assms(3) obtain t where t: "cu_type cu i = Inr (Some t)"
    by (auto simp: face_at_def r world_type_cu [OF assms(1)] split: sum.splits option.splits)
  from settled_face [OF assms(2) t] obtain t' where t': "cu_type cu' i = Inr (Some t')" "face t' = face t" by blast
  have "world_cu (set_cu u cu' w) u = Inr cu'" using assms(1) by simp
  from world_type_cu [OF this] show ?thesis using t t' by (simp add: face_at_def r world_type_cu [OF assms(1)])
next
  case False
  then show ?thesis using assms(1) by (cases r) (simp add: face_at_def world_type_def)
qed

lemma stays_run_printer:
  assumes "good p" and "run_printer u p st = Inr st'"
  shows "stays st st'" and "es_em st' = es_em st" and "es_defined st' = es_defined st"
    and "face_at (es_world st) r = Some f \<Longrightarrow> face_at (es_world st') r = Some f"
proof -
  obtain cu k ps where cu: "world_cu (es_world st) u = Inr cu" and
    p: "p \<lparr>ps_out = es_out st, ps_cu = cu, ps_line = es_line st, ps_rec = (\<lambda>i. es_rec st (u, i))\<rparr> = Inr (k, ps)" and
    st': "es_em st' = es_em st" "es_defined st' = es_defined st" "es_world st' = set_cu u (ps_cu ps) (es_world st)"
    using assms(2) by (auto simp: run_printer_def split: sum.splits)
  have "settled cu (ps_cu ps)" using assms(1) p unfolding good_from_def by fastforce
  then show "stays st st'" using face_settled [OF cu] st' by (intro stays_same) auto
  show "es_em st' = es_em st" "es_defined st' = es_defined st" by fact+
  show "face_at (es_world st) r = Some f \<Longrightarrow> face_at (es_world st') r = Some f"
    using face_settled [OF cu \<open>settled cu (ps_cu ps)\<close>, of r] st'(3) by simp
qed

lemma good_typedef_printer:
  "good (typedef__fprintf (type__fprintf n env) (\<lambda>conf. tag__fprintf env (Some conf)) env conf t)"
  using good_typedef [OF good_all(1) good_all(2), of 0 n env "pe_fuel env"] by (simp add: tag__fprintf_def)

lemma stays_check:
  assumes "check_alignments n r st = Inr st'"
  shows "stays st st'"
proof -
  obtain cu ty where cu: "world_cu (es_world st) (fst r) = Inr cu" and ty: "world_ty (es_world st) r = Inr ty"
    using assms by (auto simp: check_alignments_def split: sum.splits)
  obtain cu1 where c: "type__check_structs_at_unnatural_alignments n (ty_tags ty) cu = Inr cu1"
    using assms by (auto simp: check_alignments_def cu ty split: sum.splits)
  have st': "es_em st' = es_em st" "es_defined st' = es_defined st" "es_world st' = set_cu (fst r) cu1 (es_world st)"
    using assms by (auto simp: check_alignments_def cu ty c)
  have "settled cu cu1"
    using c settled_fold [OF settled_check_member] by (auto simp: type__check_structs_at_unnatural_alignments_def)
  then show ?thesis using face_settled [OF cu] st' by (intro stays_same) auto
qed

section \<open>Adding a definition\<close>

lemma first_e_None: "first_e P xs = Inr None \<longleftrightarrow> (\<forall>x \<in> set xs. P x = Inr False)"
  by (induction xs) (auto split: sum.split)

lemma face_at_Some: "face_at w r = Some f \<longleftrightarrow> (\<exists>t. world_type w r = Inr t \<and> face t = f)"
  by (auto simp: face_at_def split: sum.split)

text \<open>A name that was looked for and not found is not the name of a definition.\<close>

lemma find_definition_None:
  assumes "type_emissions__find_definition st tg (Some nm) = Inr None" and "r \<in> set (em_defs (es_em st))"
  shows "def_key (es_world st) r \<noteq> Some (tg, nm)"
proof
  assume k: "def_key (es_world st) r = Some (tg, nm)"
  then obtain t where t: "world_type (es_world st) r = Inr t" "tg_tag t = tg"
      "(case tag__type t of Inr ty \<Rightarrow> Some (ty_name ty) | Inl e \<Rightarrow> None) = Some (Some nm)"
    by (auto simp: def_key_def face_at_def face_def split: sum.splits option.splits if_splits)
  then obtain ty where "tag__type t = Inr ty" "ty_name ty = Some nm" by (auto split: sum.splits)
  then show False
    using assms t(1,2) by (auto simp: type_emissions__find_definition_def find_emitted_def first_e_None)
qed

lemma stays_add:
  assumes "face_at (es_world st) r \<noteq> None"
    and "\<And>k s. def_key (es_world st) r = Some k \<Longrightarrow> s \<in> set (em_defs (es_em st)) \<Longrightarrow> s \<noteq> r \<Longrightarrow> def_key (es_world st) s \<noteq> Some k"
  shows "stays st (type_emissions__add_definition r st)"
proof -
  let ?S = "set (em_defs (es_em st))" and ?st = "type_emissions__add_definition r st"
  have simps: "es_world ?st = es_world st" "es_defined ?st = (es_defined st)(r := True)"
      "em_defs (es_em ?st) = remove1 r (em_defs (es_em st)) @ [r]"
    by (simp_all add: type_emissions__add_definition_def)
  have "emit_inv ?st \<and> keeps st ?st" if inv: "emit_inv st"
  proof
    have d: "distinct (em_defs (es_em ?st))" "set (em_defs (es_em ?st)) = insert r ?S"
      using inv by (auto simp: emit_inv_def simps)
    show "emit_inv ?st"
    proof (rule emit_invI, goal_cases)
      case 1
      then show ?case by (rule d(1))
    next
      case (2 x)
      then show ?case using emit_invD(2) [OF inv, of x] assms(1) unfolding d(2) by (auto simp: simps)
    next
      case (3 x y k)
      then show ?case
        using emit_invD(3) [OF inv, of x y k] assms(2) [of k x] assms(2) [of k y] unfolding d(2) by (auto simp: simps)
    qed
    show "keeps st ?st" using d(2) by (auto simp: keeps_def simps)
  qed
  then show ?thesis by (simp add: stays_def)
qed

section \<open>The emitters\<close>

definition e_ok :: "emitter \<Rightarrow> bool" where
  "e_ok f \<longleftrightarrow> (\<forall>st b st'. f st = Inr (b, st') \<longrightarrow> stays st st')"

definition td_ok :: "nat \<Rightarrow> (nat \<Rightarrow> emitter) \<Rightarrow> bool" where
  "td_ok u f \<longleftrightarrow> (\<forall>i t st b st'. world_type (es_world st) (u, i) = Inr t \<longrightarrow> tg_tag t = DW_TAG_typedef \<longrightarrow>
     f i st = Inr (b, st') \<longrightarrow> stays st st')"

lemma e_okD: "e_ok f \<Longrightarrow> f st = Inr (b, st') \<Longrightarrow> stays st st'"
  unfolding e_ok_def by blast

lemma unit_of_ok: "e_ok f \<Longrightarrow> unit_of f st = Inr st' \<Longrightarrow> stays st st'"
  by (cases "f st") (auto simp: unit_of_def e_ok_def)

lemma def_key_face:
  "def_key w r = Some (tg, nm) \<Longrightarrow> world_type w r = Inr t \<Longrightarrow> tag__type t = Inr ty \<Longrightarrow> tg_tag t = tg \<and> ty_name ty = Some nm"
  by (auto simp: def_key_def face_at_def face_def split: if_splits option.splits)

text \<open>A type whose kind and name were looked for in vain can be added.\<close>

lemma no_key:
  assumes "type_emissions__find_definition st (tg_tag t) (ty_name ty) = Inr None" and "world_type (es_world st) r = Inr t"
    and "tag__type t = Inr ty" and "def_key (es_world st) r = Some k" and "s \<in> set (em_defs (es_em st))"
  shows "def_key (es_world st) s \<noteq> Some k"
  using find_definition_None [OF _ assms(5), of "fst k" "snd k"] def_key_face [of "es_world st" r "fst k" "snd k" t ty] assms(1-4)
  by (cases k) auto

lemma stays_enumeration:
  assumes "enumeration__emit_definitions env r conf st = Inr (b, st')" and "world_type (es_world st) r = Inr t"
    and "tg_tag t = DW_TAG_enumeration_type"
  shows "stays st st'"
proof -
  obtain ty where ty: "tag__type t = Inr ty"
    using assms(1,2) by (auto simp: enumeration__emit_definitions_def split: sum.splits)
  show ?thesis
  proof (cases "\<not> es_defined st r \<and> type_emissions__find_definition st DW_TAG_enumeration_type (ty_name ty) = Inr None")
    case False
    then show ?thesis
      using assms(1,2) ty by (auto simp: enumeration__emit_definitions_def split: sum.splits if_splits option.splits)
  next
    case True
    then obtain st1 where p: "run_printer (fst r) (enumeration__fprintf env conf t) st = Inr st1" and
      st': "st' = (if ty_nr_members ty \<noteq> 0 then type_emissions__add_definition r (out ('';'' @ eol) st1) else out ('';'' @ eol) st1)"
      using assms(1,2) ty by (auto simp: enumeration__emit_definitions_def Let_def split: sum.splits)
    note pr = stays_run_printer [OF good_enumeration p]
    have f: "face_at (es_world st) s = Some g \<Longrightarrow> face_at (es_world (out w st1)) s = Some g" for s g w
      using pr(4) by (simp add: out_def)
    have em: "es_em (out w st1) = es_em st" for w using pr(2) by (simp add: out_def)
    have inv: "stays (out w st1) (type_emissions__add_definition r (out w st1))" if "emit_inv st" for w
    proof (rule stays_add)
      have "face_at (es_world st) r = Some (face t)" using assms(2) by (simp add: face_at_Some)
      then show "face_at (es_world (out w st1)) r \<noteq> None" using f by simp
      fix k s
      assume k: "def_key (es_world (out w st1)) r = Some k" "s \<in> set (em_defs (es_em (out w st1)))"
      have key: "def_key (es_world (out w st1)) x = def_key (es_world st) x" if "face_at (es_world st) x \<noteq> None" for x
        using that f by (cases "face_at (es_world st) x") (auto simp: def_key_def)
      have "face_at (es_world st) r \<noteq> None" "face_at (es_world st) s \<noteq> None"
        using assms(2) emit_invD(2) [OF that, of s] k(2) em by (simp_all add: face_at_def)
      then show "def_key (es_world (out w st1)) s \<noteq> Some k"
        using no_key [of st t ty r k s] True assms(2,3) ty k em key by auto
    qed
    have o: "stays st (out ('';'' @ eol) st1)" using pr(1) by simp
    show ?thesis
    proof (cases "ty_nr_members ty = 0")
      case False
      then show ?thesis using stays_if [OF stays_trans [OF o inv]] st' by simp
    qed (use o st' in simp)
  qed
qed

lemma stays_type__emit: "type__emit env r p s st = Inr st' \<Longrightarrow> stays st st'"
  by (auto simp: type__emit_def tag__fprintf_def split: sum.splits if_splits intro: stays_out' [OF stays_run_printer(1) [OF good_all(3)]])

lemma stays_fwd: "type__emit_fwd_decl r st = Inr (b, st') \<Longrightarrow> stays st st'"
  by (auto simp: type__emit_fwd_decl_def split: sum.splits if_splits option.splits intro: stays_trans [OF stays_out stays_add_fwd])

lemma stays_base: "base_type__emit_definitions r st = Inr (b, st') \<Longrightarrow> stays st st'"
  by (auto simp: base_type__emit_definitions_def split: sum.splits if_splits option.splits intro: stays_trans [OF stays_out stays_add_base])

text \<open>A name is only changed before the type is defined.\<close>

lemma stays_rename:
  assumes "rename_type r nm st = Inr st'" and "\<not> es_defined st r"
  shows "stays st st'" and "es_em st' = es_em st" and "es_defined st' = es_defined st"
    and "\<exists>t t'. world_type (es_world st) r = Inr t \<and> world_type (es_world st') r = Inr t' \<and> tg_tag t' = tg_tag t \<and>
      (\<forall>ty. tag__type t = Inr ty \<longrightarrow> (\<exists>ty'. tag__type t' = Inr ty' \<and> ty_name ty' = Some nm))"
    and "s \<noteq> r \<Longrightarrow> face_at (es_world st') s = face_at (es_world st) s"
proof -
  obtain u i where r: "r = (u, i)" by (cases r)
  obtain cu t where cu: "world_cu (es_world st) u = Inr cu" and t: "world_type (es_world st) r = Inr t" and
    st': "st' = st\<lparr>es_world := set_cu u (cu_set_type cu i (set_type_name t nm)) (es_world st)\<rparr>"
    using assms(1) by (auto simp: rename_type_def r split: sum.splits)
  have c: "cu_type cu i = Inr (Some t)"
    using t by (auto simp: r world_type_cu [OF cu] split: sum.splits option.splits)
  have cu': "world_cu (es_world st') u = Inr (cu_set_type cu i (set_type_name t nm))" using cu by (simp add: st')
  have other: "face_at (es_world st') s = face_at (es_world st) s" if "s \<noteq> r" for s
  proof (cases "fst s = u")
    case True
    then obtain j where s: "s = (u, j)" by (cases s) auto
    then have "j \<noteq> i" using that r by simp
    then show ?thesis
      using cu_type_set [OF c] by (simp add: face_at_def s world_type_cu [OF cu] world_type_cu [OF cu'])
  next
    case False
    then show ?thesis using cu by (cases s) (simp add: face_at_def world_type_def st')
  qed
  have here: "world_type (es_world st') r = Inr (set_type_name t nm)"
    using cu_type_set [OF c] by (simp add: r world_type_cu [OF cu'])
  have face: "fst (face (set_type_name t nm)) = fst (face t)"
    by (auto simp: face_def set_type_name_def split: tag_body.split)
  show em: "es_em st' = es_em st" "es_defined st' = es_defined st" by (simp_all add: st')
  show "s \<noteq> r \<Longrightarrow> face_at (es_world st') s = face_at (es_world st) s" by (rule other)
  show "\<exists>t t'. world_type (es_world st) r = Inr t \<and> world_type (es_world st') r = Inr t' \<and> tg_tag t' = tg_tag t \<and>
      (\<forall>ty. tag__type t = Inr ty \<longrightarrow> (\<exists>ty'. tag__type t' = Inr ty' \<and> ty_name ty' = Some nm))"
    using t here by (intro exI [of _ t] exI [of _ "set_type_name t nm"])
      (auto simp: set_type_name_def tag__type_def type_t.truncate_def split: tag_body.splits)
  have "emit_inv st' \<and> keeps st st'" if inv: "emit_inv st"
  proof
    have new: "s \<noteq> r" if "s \<in> set (em_defs (es_em st))" for s using emit_invD(2) [OF inv that] assms(2) by auto
    then have key: "def_key (es_world st') s = def_key (es_world st) s" if "s \<in> set (em_defs (es_em st))" for s
      using other that by (simp add: def_key_def)
    show "emit_inv st'"
    proof (rule emit_invI, goal_cases)
      case 1
      then show ?case using emit_invD(1) [OF inv] em by simp
    next
      case (2 s)
      then show ?case using emit_invD(2) [OF inv, of s] em other [OF new, of s] by simp
    next
      case (3 s s' k)
      then show ?case using emit_invD(3) [OF inv, of s s' k] em key by simp
    qed
    have "\<exists>f'. face_at (es_world st') s = Some f' \<and> fst f' = fst f \<and> (es_defined st s \<longrightarrow> f' = f)"
      if "face_at (es_world st) s = Some f" for s f
      using that other [of s] assms(2) here face t by (cases "s = r") (auto simp: face_at_def)
    then show "keeps st st'" unfolding keeps_def using em by simp
  qed
  then show "stays st st'" by (simp add: stays_def)
qed

text \<open>After the disambiguation the kind and name of the type are free.\<close>

lemma disambiguate_ok:
  assumes "disambiguate h r st = Inr (known, st')" and "\<not> es_defined st r" and "world_type (es_world st) r = Inr t"
    and "tag__type t = Inr ty" and "type_emissions__find_definition st (tg_tag t) (ty_name ty) = Inr None"
  shows "stays st st'" and "\<not> known \<Longrightarrow> (\<exists>t'. world_type (es_world st') r = Inr t') \<and>
    (\<forall>k s. def_key (es_world st') r = Some k \<longrightarrow> s \<in> set (em_defs (es_em st')) \<longrightarrow> def_key (es_world st') s \<noteq> Some k)"
proof -
  consider "st' = st" "\<not> known"
    | nm st1 where "rename_type r nm st = Inr st1" "type_emissions__find_definition st1 (tg_tag t) (Some nm) = Inr None"
        "\<not> known" "st' = st1"
    | nm st1 where "rename_type r nm st = Inr st1" "known" "st' = st1\<lparr>es_defined := (es_defined st1)(r := True)\<rparr>"
    using assms(1,3,4)
    by (auto simp: disambiguate_def Let_def split: sum.splits if_splits option.splits prod.splits) (metis not_Some_eq surj_pair)
  note cases = this
  show "stays st st'"
    using cases
  proof cases
    case 3
    show ?thesis unfolding 3(3) by (rule stays_trans [OF stays_rename(1) [OF 3(1) assms(2)] stays_mark])
  qed (auto intro: stays_rename(1) [OF _ assms(2)])
  show "\<not> known \<Longrightarrow> (\<exists>t'. world_type (es_world st') r = Inr t') \<and>
    (\<forall>k s. def_key (es_world st') r = Some k \<longrightarrow> s \<in> set (em_defs (es_em st')) \<longrightarrow> def_key (es_world st') s \<noteq> Some k)"
    using cases
  proof cases
    case 1
    then show ?thesis using no_key [OF assms(5,3,4)] assms(3) by auto
  next
    case 2
    obtain t' ty' where t': "world_type (es_world st1) r = Inr t'" "tg_tag t' = tg_tag t" "tag__type t' = Inr ty'" "ty_name ty' = Some nm"
      using stays_rename(4) [OF 2(1) assms(2)] assms(3,4) by auto
    have "type_emissions__find_definition st1 (tg_tag t') (ty_name ty') = Inr None" using 2(2) t' by simp
    from no_key [OF this t'(1,3)] show ?thesis using t'(1) 2(4) by auto
  qed simp
qed

section \<open>The recursion\<close>

lemma then_emit_ok:
  assumes "e_ok f" and "\<And>st st'. g st = Inr st' \<Longrightarrow> stays st st'" and "then_emit f g st = Inr st'"
  shows "stays st st'"
proof (cases "f st")
  case (Inr p)
  obtain c st1 where p: "p = (c, st1)" by (cases p)
  have 1: "stays st st1" using e_okD [OF assms(1)] Inr p by simp
  show ?thesis
  proof (cases c)
    case True
    then have "g st1 = Inr st'" using assms(3) Inr p by (simp add: then_emit_def)
    then show ?thesis using stays_trans [OF 1 assms(2)] by blast
  next
    case False
    then show ?thesis using assms(3) Inr p 1 by (simp add: then_emit_def)
  qed
qed (use assms(3) in \<open>simp add: then_emit_def\<close>)

lemma with_flag: "(case x of Inl e \<Rightarrow> Inl e | Inr st \<Rightarrow> Inr (c, st)) = Inr (b, st') \<longleftrightarrow> x = Inr st' \<and> b = c"
  by (auto split: sum.splits)

lemma stays_keeps: "stays st st' \<Longrightarrow> emit_inv st \<Longrightarrow> emit_inv st' \<and> keeps st st'"
  by (simp add: stays_def)

text \<open>Adding a typedef is always safe.\<close>

lemma stays_add_typedef:
  assumes "stays st st'" and "world_type (es_world st) r = Inr t" and "tg_tag t = DW_TAG_typedef"
  shows "stays st (type_emissions__add_definition r st')"
proof (rule stays_if)
  assume "emit_inv st"
  then have k: "keeps st st'" using stays_keeps [OF assms(1)] by blast
  have "face_at (es_world st) r = Some (face t)" using assms(2) by (simp add: face_at_def)
  then obtain f where "face_at (es_world st') r = Some f" "fst f = fst (face t)"
    using k unfolding keeps_def by blast
  then have f: "face_at (es_world st') r = Some f" "fst f = DW_TAG_typedef" using assms(3) by (simp_all add: face_def)
  then have "def_key (es_world st') r = None"
    by (cases f) (auto simp: def_key_def type__can_have_shadow_definition_def tag_defs split: option.split)
  then have "stays st' (type_emissions__add_definition r st')" using f(1) by (intro stays_add) auto
  then show "stays st (type_emissions__add_definition r st')" using assms(1) stays_trans by blast
qed

lemma emit_target_found: "emit_target n cu i p = Inr (Some (p', j, t)) \<Longrightarrow> cu_type cu j = Inr (Some t)"
  by (induction n cu i p rule: emit_target.induct) (auto simp: Let_def split: sum.splits option.splits if_splits)

locale emitters_ok =
  fixes u :: nat and tag_e typedef_e type_e :: "nat \<Rightarrow> emitter" and ftype_e :: "tag \<Rightarrow> emitter"
  assumes tag_ok: "e_ok (tag_e i)" and typedef_ok: "td_ok u typedef_e"
    and ftype_ok: "e_ok (ftype_e t)" and type_ok: "e_ok (type_e i)"
begin

lemma stays_typedef_e:
  "world_cu (es_world st) u = Inr cu \<Longrightarrow> cu_type cu i = Inr (Some t) \<Longrightarrow> tg_tag t = DW_TAG_typedef \<Longrightarrow>
    typedef_e i st = Inr (b, st') \<Longrightarrow> stays st st'"
  using typedef_ok world_type_cu [of "es_world st" u cu i] unfolding td_ok_def by force

lemma stays_unit_typedef:
  "world_cu (es_world st) u = Inr cu \<Longrightarrow> cu_type cu i = Inr (Some t) \<Longrightarrow> tg_tag t = DW_TAG_typedef \<Longrightarrow>
    unit_of (typedef_e i) st = Inr st' \<Longrightarrow> stays st st'"
  using stays_typedef_e by (cases "typedef_e i st") (auto simp: unit_of_def)

lemma stays_target:
  assumes "typedef_target tag_e typedef_e ftype_e type_e env u nm i t st = Inr (b, st')"
    and "world_cu (es_world st) u = Inr cu" and "cu_type cu i = Inr (Some t)"
  shows "stays st st'"
proof -
  have t: "world_type (es_world st) (u, i) = Inr t" using assms(2,3) by (simp add: world_type_cu)
  have enum: "stays st st'" if "unit_of (enumeration__emit_definitions env (u, i) conf) (out s st) = Inr st'" "tg_tag t = DW_TAG_enumeration_type"
    for conf s
    using that stays_enumeration [of env "(u, i)" conf "out s st" _ st' t] t
      stays_trans [OF stays_out] by (cases "enumeration__emit_definitions env (u, i) conf (out s st)") (auto simp: unit_of_def out_def)
  have enum0: "stays st st'" if "unit_of (enumeration__emit_definitions env (u, i) conf) st = Inr st'" "tg_tag t = DW_TAG_enumeration_type"
    for conf
    using enum [of conf "[]"] that by (simp add: out_def)
  have named: "stays st st'" if "unit_of (type_e i) st = Inr st1" "type__emit env r p s st1 = Inr st'" for st1 r p s
    using stays_trans [OF unit_of_ok [OF type_ok that(1)] stays_type__emit [OF that(2)]] .
  note def = assms(1) [unfolded typedef_target_def Let_def]
  consider "tg_tag t = DW_TAG_pointer_type" | "tg_tag t = DW_TAG_enumeration_type"
    | "tg_tag t = DW_TAG_structure_type \<or> tg_tag t = DW_TAG_union_type"
    | "tg_tag t = DW_TAG_atomic_type \<or> tg_tag t = DW_TAG_array_type" | "tg_tag t = DW_TAG_typedef"
    | "tg_tag t = DW_TAG_subroutine_type"
    | "tg_tag t \<notin> {DW_TAG_pointer_type, DW_TAG_enumeration_type, DW_TAG_structure_type, DW_TAG_union_type, DW_TAG_atomic_type,
        DW_TAG_array_type, DW_TAG_typedef, DW_TAG_subroutine_type}" by blast
  then show ?thesis
  proof cases
    case 1
    obtain q where q: "cu_type cu (tg_type t) = Inr q" using def 1 by (simp add: assms(2) split: sum.splits)
    show ?thesis
    proof (cases q)
      case None
      then show ?thesis using def 1 q by (simp add: assms(2))
    next
      case (Some p)
      show ?thesis
      proof (cases "tg_tag p = DW_TAG_typedef")
        case True
        then have "unit_of (typedef_e (tg_type t)) st = Inr st'" using def 1 q Some by (simp add: assms(2) with_flag)
        then show ?thesis using stays_unit_typedef [OF assms(2)] q Some True by blast
      next
        case False
        show ?thesis
        proof (cases "tg_tag p = DW_TAG_subroutine_type")
          case True
          then have "unit_of (ftype_e p) st = Inr st'" using def 1 q Some False by (simp add: assms(2) with_flag)
          then show ?thesis by (rule unit_of_ok [OF ftype_ok])
        next
          case False
          then show ?thesis using def 1 q Some \<open>tg_tag p \<noteq> DW_TAG_typedef\<close> by (simp add: assms(2))
        qed
      qed
    qed
  next
    case 2
    obtain ctype where c: "tag__type t = Inr ctype" using def 2 by (simp split: sum.splits)
    show ?thesis
    proof (cases "ty_name ctype")
      case None
      then show ?thesis using def 2 c by (auto simp: with_flag intro: enum)
    next
      case (Some x)
      then show ?thesis using def 2 c by (auto simp: with_flag intro: enum0)
    qed
  next
    case 3
    obtain ctype where c: "tag__type t = Inr ctype" using def 3 by (auto split: sum.splits)
    show ?thesis
    proof (cases "ty_name ctype")
      case None
      then show ?thesis using def 3 c by (cases "unit_of (type_e i) st") (auto simp: with_flag intro: named)
    next
      case (Some x)
      then have "then_emit (type_e i) (type__emit env (u, i) None None) st = Inr st'" using def 3 c by (auto simp: with_flag)
      then show ?thesis by (rule then_emit_ok [OF type_ok, rotated]) (rule stays_type__emit)
    qed
  next
    case 4
    then have "unit_of (tag_e (tg_type t)) st = Inr st'" using def by (auto simp: with_flag)
    then show ?thesis by (rule unit_of_ok [OF tag_ok])
  next
    case 5
    then have "unit_of (typedef_e i) st = Inr st'" using def by (simp add: with_flag)
    then show ?thesis using stays_unit_typedef [OF assms(2,3)] 5 by blast
  next
    case 6
    then have "unit_of (ftype_e t) st = Inr st'" using def by (simp add: with_flag)
    then show ?thesis by (rule unit_of_ok [OF ftype_ok])
  next
    case 7
    then show ?thesis using def by simp
  qed
qed

lemma stays_typedef_body:
  assumes "typedef_body tag_e typedef_e ftype_e type_e env (u, i) st = Inr (b, st')"
    and "world_type (es_world st) (u, i) = Inr t" and "tg_tag t = DW_TAG_typedef"
  shows "stays st st'"
proof -
  obtain def where def: "tag__type t = Inr def"
    using assms(1,2) by (auto simp: typedef_body_def split: sum.splits)
  show ?thesis
  proof (cases "es_defined st (u, i) \<or> type_emissions__find_definition st DW_TAG_typedef (ty_name def) \<noteq> Inr None")
    case True
    then show ?thesis
      using assms(1,2) def by (auto simp: typedef_body_def split: sum.splits if_splits option.splits)
  next
    case False
    obtain cu where cu: "world_cu (es_world st) u = Inr cu"
      using assms(2) by (auto simp: world_type_def split: sum.splits)
    obtain to where to: "cu_type cu (tg_type t) = Inr to"
      using assms(1,2) def cu False by (auto simp: typedef_body_def split: sum.splits)
    let ?target = "case to of None \<Rightarrow> Inr (True, st)
      | Some ty \<Rightarrow> typedef_target tag_e typedef_e ftype_e type_e env u (ty_name def) (tg_type t) ty st"
    obtain e st1 where t1: "?target = Inr (e, st1)"
      using assms(1,2) def cu False to unfolding typedef_body_def fst_conv by (cases ?target) auto
    let ?print = "run_printer u (typedef__fprintf (type__fprintf (pe_fuel env) env) (\<lambda>conf. tag__fprintf env (Some conf)) env
        (conf_fprintf__defaults (pe_cacheline env)) t) st1"
    let ?shown = "if e \<and> \<not> es_defined st1 (u, i) then map_sum id (out ('';'' @ eol)) ?print else Inr st1"
    obtain st2 where st2: "?shown = Inr st2" and st': "st' = type_emissions__add_definition (u, i) st2"
      using assms(1,2) def cu False to t1 unfolding typedef_body_def fst_conv by (cases ?shown) simp_all
    have 1: "stays st st1" using t1 cu to by (cases to) (auto intro: stays_target)
    have "stays st1 st2"
    proof (cases "e \<and> \<not> es_defined st1 (u, i)")
      case True
      then obtain st3 where "?print = Inr st3" "st2 = out ('';'' @ eol) st3"
        using st2 by (auto simp: map_sum_Inr)
      then show ?thesis using stays_run_printer(1) [OF good_typedef_printer] by simp
    next
      case False
      then show ?thesis using st2 by auto
    qed
    then show ?thesis unfolding st' using stays_add_typedef [OF stays_trans [OF 1] assms(2,3)] by blast
  qed
qed

lemma stays_tag_body:
  assumes "tag_body typedef_e ftype_e type_e n env u type_id st = Inr (b, st')"
  shows "stays st st'"
proof -
  obtain cu q where cu: "world_cu (es_world st) u = Inr cu" and q: "emit_target n cu type_id False = Inr q"
    using assms by (auto simp: tag_body_def split: sum.splits)
  show ?thesis
  proof (cases q)
    case None
    then show ?thesis using assms by (simp add: tag_body_def cu q)
  next
    case (Some x)
    then obtain pointer i t where x: "q = Some (pointer, i, t)" by (cases x) auto
    have t: "cu_type cu i = Inr (Some t)" using emit_target_found [OF q [unfolded x]] .
    have wt: "world_type (es_world st) (u, i) = Inr t" using cu t by (simp add: world_type_cu)
    note def = assms [unfolded tag_body_def, simplified cu q x sum.case option.case prod.case Let_def]
    consider "tg_tag t = DW_TAG_base_type" | "tg_tag t = DW_TAG_typedef" | "tg_tag t = DW_TAG_enumeration_type"
      | "tg_tag t = DW_TAG_structure_type \<or> tg_tag t = DW_TAG_union_type" "pointer"
      | "tg_tag t = DW_TAG_structure_type \<or> tg_tag t = DW_TAG_union_type" "\<not> pointer"
      | "tg_tag t = DW_TAG_subroutine_type"
      | "tg_tag t \<notin> {DW_TAG_base_type, DW_TAG_typedef, DW_TAG_enumeration_type, DW_TAG_structure_type, DW_TAG_union_type,
          DW_TAG_subroutine_type}" by blast
    then show ?thesis
    proof cases
      case 1
      then show ?thesis using def by (auto intro: stays_base split: if_splits)
    next
      case 2
      then show ?thesis using def stays_typedef_e [OF cu t 2] by simp
    next
      case 3
      then show ?thesis
        using def stays_enumeration [of env "(u, i)" conf_zero st b st' t] wt by (auto split: sum.splits if_splits)
    next
      case 4
      obtain ty where ty: "tag__type t = Inr ty" using def 4 by (auto split: sum.splits)
      show ?thesis
      proof (cases "ty_name ty = None")
        case True
        then obtain st1 where "unit_of (type_e i) st = Inr st1" "type__emit_fwd_decl (u, i) st1 = Inr (b, st')"
          using def 4 ty by (auto split: sum.splits)
        then show ?thesis using stays_trans [OF unit_of_ok [OF type_ok] stays_fwd] by blast
      next
        case False
        then show ?thesis using def 4 ty stays_fwd by auto
      qed
    next
      case 5
      then have "then_emit (type_e i) (type__emit env (u, i) None None) st = Inr st'" using def by (auto split: sum.splits)
      then show ?thesis by (rule then_emit_ok [OF type_ok, rotated]) (rule stays_type__emit)
    next
      case 6
      then show ?thesis using def e_okD [OF ftype_ok] by simp
    next
      case 7
      then show ?thesis using def by simp
    qed
  qed
qed

lemma stays_any: "any_emitted (\<lambda>p. tag_e (pa_type p)) ps c st = Inr (b, st') \<Longrightarrow> stays st st'"
proof (induction ps arbitrary: c st)
  case (Cons p ps)
  obtain d st1 where 1: "tag_e (pa_type p) st = Inr (d, st1)" using Cons.prems by (auto split: sum.splits)
  then have "any_emitted (\<lambda>p. tag_e (pa_type p)) ps (c \<or> d) st1 = Inr (b, st')" using Cons.prems by simp
  then show ?case using stays_trans [OF e_okD [OF tag_ok 1] Cons.IH] by blast
qed simp

lemma stays_ftype_body:
  assumes "ftype_emit_body tag_e t st = Inr (b, st')"
  shows "stays st st'"
proof -
  obtain ft where ft: "tag__ftype t = Inr ft" using assms by (auto simp: ftype_emit_body_def split: sum.splits)
  obtain c st1 where 1: "tag_e (tg_type t) st = Inr (c, st1)"
    using assms ft by (auto simp: ftype_emit_body_def split: sum.splits)
  obtain d st2 where 2: "any_emitted (\<lambda>p. tag_e (pa_type p)) (ft_parms ft) c st1 = Inr (d, st2)"
    using assms ft 1 by (auto simp: ftype_emit_body_def split: sum.splits)
  have "st' = (if d then out eol st2 else st2)" using assms ft 1 2 by (auto simp: ftype_emit_body_def)
  then show ?thesis using stays_trans [OF e_okD [OF tag_ok 1] stays_any [OF 2]] by simp
qed

lemma stays_members:
  "fold_e (\<lambda>m. then_emit (tag_e (cm_type m)) (\<lambda>st. Inr (out eol st))) ms st = Inr st' \<Longrightarrow> stays st st'"
proof (induction ms arbitrary: st)
  case (Cons m ms)
  obtain st1 where 1: "then_emit (tag_e (cm_type m)) (\<lambda>st. Inr (out eol st)) st = Inr st1"
      "fold_e (\<lambda>m. then_emit (tag_e (cm_type m)) (\<lambda>st. Inr (out eol st))) ms st1 = Inr st'"
    using Cons.prems by (auto split: sum.splits)
  have "stays st st1" by (rule then_emit_ok [OF tag_ok _ 1(1)]) auto
  then show ?case using stays_trans Cons.IH [OF 1(2)] by blast
qed simp

lemma stays_type_body:
  assumes "type_emit_body tag_e typedef_e h n (u, i) st = Inr (b, st')"
  shows "stays st st'"
proof -
  let ?r = "(u, i)"
  obtain t ty where t: "world_type (es_world st) ?r = Inr t" "tag__type t = Inr ty"
    using assms by (auto simp: type_emit_body_def split: sum.splits)
  obtain cu where cu: "world_cu (es_world st) u = Inr cu" using t(1) by (auto simp: world_type_def split: sum.splits)
  have ct: "cu_type cu i = Inr (Some t)" using t(1) by (auto simp: world_type_cu [OF cu] split: sum.splits option.splits)
  note def = assms [unfolded type_emit_body_def snd_conv, simplified t sum.case]
  consider "es_defined st ?r \<or> type_emissions__find_definition st (tg_tag t) (ty_name ty) \<noteq> Inr None"
    | "\<not> es_defined st ?r" "type_emissions__find_definition st (tg_tag t) (ty_name ty) = Inr None" "tag__is_typedef (tg_tag t)"
    | "\<not> es_defined st ?r" "type_emissions__find_definition st (tg_tag t) (ty_name ty) = Inr None" "\<not> tag__is_typedef (tg_tag t)"
    by blast
  then show ?thesis
  proof cases
    case 1
    then show ?thesis using def by (auto split: sum.splits if_splits option.splits)
  next
    case 2
    then show ?thesis using def stays_typedef_e [OF cu ct] by (simp add: tag_defs)
  next
    case 3
    obtain known st1 where d: "disambiguate h ?r st = Inr (known, st1)" using def 3 by (auto split: sum.splits)
    note dis = disambiguate_ok [OF d 3(1) t 3(2)]
    show ?thesis
    proof (cases known)
      case True
      then show ?thesis using def 3 d dis(1) by simp
    next
      case False
      let ?st2 = "type_emissions__add_definition ?r st1"
      obtain st3 st4 where r: "check_alignments n ?r ?st2 = Inr st3"
          "fold_e (\<lambda>m. then_emit (tag_e (cm_type m)) (\<lambda>st. Inr (out eol st))) (type__members (ty_tags ty)) st3 = Inr st4" "st' = st4"
        using def 3 d False by (auto split: sum.splits)
      obtain t' where "world_type (es_world st1) ?r = Inr t'" using dis(2) [OF False] by blast
      then have "face_at (es_world st1) ?r \<noteq> None" by (simp add: face_at_def)
      then have "stays st1 ?st2" using dis(2) [OF False] by (intro stays_add) auto
      then show ?thesis
        using stays_trans [OF dis(1)] stays_trans [OF _ stays_check [OF r(1)]] stays_trans [OF _ stays_members [OF r(2)]] r(3) by blast
    qed
  qed
qed

end

lemma emit_any_ok:
  "emitters_ok u (\<lambda>i. emit_any n h env u (Emit_tag i)) (\<lambda>i. emit_any n h env u (Emit_typedef i))
     (\<lambda>i. emit_any n h env u (Emit_type i)) (\<lambda>t. emit_any n h env u (Emit_ftype t))"
proof (induction n)
  case 0
  show ?case by unfold_locales (auto simp: e_ok_def td_ok_def)
next
  case (Suc n)
  note rules = emitters_ok.stays_tag_body [OF Suc] emitters_ok.stays_typedef_body [OF Suc]
    emitters_ok.stays_ftype_body [OF Suc] emitters_ok.stays_type_body [OF Suc]
  show ?case
    by unfold_locales (auto simp: e_ok_def td_ok_def Let_def intro: rules)
qed

interpretation emitters: emitters_ok u "\<lambda>i. emit_any n h env u (Emit_tag i)" "\<lambda>i. emit_any n h env u (Emit_typedef i)"
  "\<lambda>i. emit_any n h env u (Emit_type i)" "\<lambda>t. emit_any n h env u (Emit_ftype t)" for u n h env
  by (rule emit_any_ok)

section \<open>Properties\<close>

text \<open>Emitting types of any units one after the other.\<close>

definition emit_types :: "nat \<Rightarrow> heap_env \<Rightarrow> print_env \<Rightarrow> type_ref list \<Rightarrow> emit_st \<Rightarrow> fault + emit_st" where
  "emit_types n h env rs = fold_e (\<lambda>r. unit_of (type__emit_definitions n h env (fst r) (snd r))) rs"

lemma emit_types_ok: "emit_types n h env rs st = Inr st' \<Longrightarrow> stays st st'"
proof (induction rs arbitrary: st)
  case (Cons r rs)
  obtain st1 where 1: "unit_of (type__emit_definitions n h env (fst r) (snd r)) st = Inr st1" "emit_types n h env rs st1 = Inr st'"
    using Cons.prems by (auto simp: emit_types_def split: sum.splits)
  have "stays st st1" using unit_of_ok [OF emitters.type_ok 1(1) [unfolded type__emit_definitions_def]] .
  then show ?case using stays_trans Cons.IH [OF 1(2)] by blast
qed (simp add: emit_types_def)


definition empty_struct :: "string \<Rightarrow> tag" where
  "empty_struct nm = \<lparr>tg_tag = DW_TAG_structure_type, tg_type = 0, tg_body = Class_body (class_zero\<lparr>ty_name := Some nm\<rparr>)\<rparr>"

definition two_units :: emit_st where
  "two_units = \<lparr>es_world = \<lparr>wo_cus = [sample_cu [None, Some (empty_struct ''a'')], sample_cu [None, Some (empty_struct ''b'')]],
       wo_pretty = (\<lambda>_. \<lparr>pr_sizeof_member = None, pr_type_member = None, pr_type_enum = [], pr_filter = None\<rparr>),
       wo_real = (\<lambda>_. None)\<rparr>,
     es_em = type_emissions__init False, es_defined = (\<lambda>_. False), es_declared = (\<lambda>_. False), es_out = [],
     es_line = 0, es_rec = (\<lambda>_. 0)\<rparr>"

lemma two_units_run:
  "\<exists>st. emit_types (Suc 0) \<lparr>avail = \<lambda>_. True, fresh = \<lambda>_. 0\<rparr> sample_env [(0, Suc 0), (Suc 0, Suc 0), (Suc 0, Suc 0)] two_units = Inr st \<and>
     em_defs (es_em st) = [(0, Suc 0), (Suc 0, Suc 0)] \<and>
     world_type (es_world st) (0, Suc 0) = Inr (empty_struct ''a'') \<and> world_type (es_world st) (Suc 0, Suc 0) = Inr (empty_struct ''b'')"
  by (simp add: emit_types_def type__emit_definitions_def unit_of_def type_emit_body_def two_units_def empty_struct_def class_zero_def tag__type_def type_emissions__find_definition_def find_emitted_def type_emissions__init_def disambiguate_def type_emissions__find_shadow_definition_def type__can_have_shadow_definition_def check_alignments_def type_emissions__add_definition_def tag_defs world_cu_def world_type_def sample_cu_inv world_ty_def set_cu_def type__members_def type__check_structs_at_unnatural_alignments_def type_t.truncate_def Let_def)

end
