(* ===== verification/Features.thy ===== *)
theory Features
  imports Prelude Cstring
begin

text \<open>
  \<open>--btf_features\<close> (\<open>pahole.c\<close>): the table of features, and parsing the lists that enable them.  The
  fields of \<open>conf_load\<close> are known by their names; whether a function of libbpf is there is a parameter.
\<close>

datatype feature_check = No_check | Enum64_check | Distilled_base_check | Attributes_check | Layout_check | Location_check

record btf_feature =
  bf_name :: string
  bf_alias :: string
  bf_initial :: bool
  bf_default :: bool
  bf_check :: feature_check

definition BTF_DEFAULT_FEATURE_CHECK :: "string \<Rightarrow> string \<Rightarrow> bool \<Rightarrow> feature_check \<Rightarrow> btf_feature" where
  "BTF_DEFAULT_FEATURE_CHECK name alias initial check =
     \<lparr>bf_name = name, bf_alias = alias, bf_initial = initial, bf_default = True, bf_check = check\<rparr>"

definition BTF_NON_DEFAULT_FEATURE_CHECK :: "string \<Rightarrow> string \<Rightarrow> bool \<Rightarrow> feature_check \<Rightarrow> btf_feature" where
  "BTF_NON_DEFAULT_FEATURE_CHECK name alias initial check =
     \<lparr>bf_name = name, bf_alias = alias, bf_initial = initial, bf_default = False, bf_check = check\<rparr>"

definition BTF_DEFAULT_FEATURE :: "string \<Rightarrow> string \<Rightarrow> bool \<Rightarrow> btf_feature" where
  "BTF_DEFAULT_FEATURE name alias initial = BTF_DEFAULT_FEATURE_CHECK name alias initial No_check"

definition BTF_NON_DEFAULT_FEATURE :: "string \<Rightarrow> string \<Rightarrow> bool \<Rightarrow> btf_feature" where
  "BTF_NON_DEFAULT_FEATURE name alias initial = BTF_NON_DEFAULT_FEATURE_CHECK name alias initial No_check"

definition btf_features :: "btf_feature list" where
  "btf_features =
     [BTF_DEFAULT_FEATURE ''encode_force'' ''btf_encode_force'' False,
      BTF_DEFAULT_FEATURE ''var'' ''skip_encoding_btf_vars'' True,
      BTF_DEFAULT_FEATURE ''float'' ''btf_gen_floats'' False,
      BTF_DEFAULT_FEATURE ''decl_tag'' ''skip_encoding_btf_decl_tag'' True,
      BTF_DEFAULT_FEATURE ''type_tag'' ''skip_encoding_btf_type_tag'' True,
      BTF_DEFAULT_FEATURE_CHECK ''enum64'' ''skip_encoding_btf_enum64'' True Enum64_check,
      BTF_DEFAULT_FEATURE ''optimized_func'' ''btf_gen_optimized'' False,
      BTF_DEFAULT_FEATURE ''consistent_func'' ''skip_encoding_btf_inconsistent_proto'' False,
      BTF_DEFAULT_FEATURE ''decl_tag_kfuncs'' ''btf_decl_tag_kfuncs'' False,
      BTF_NON_DEFAULT_FEATURE ''reproducible_build'' ''reproducible_build'' False,
      BTF_NON_DEFAULT_FEATURE_CHECK ''distilled_base'' ''btf_gen_distilled_base'' False Distilled_base_check,
      BTF_NON_DEFAULT_FEATURE ''global_var'' ''encode_btf_global_vars'' False,
      BTF_NON_DEFAULT_FEATURE_CHECK ''attributes'' ''btf_attributes'' False Attributes_check,
      BTF_NON_DEFAULT_FEATURE ''true_signature'' ''true_signature'' False,
      BTF_NON_DEFAULT_FEATURE_CHECK ''layout'' ''btf_gen_layout'' False Layout_check,
      BTF_NON_DEFAULT_FEATURE_CHECK ''inline'' ''btf_gen_inlines'' False Location_check,
      BTF_NON_DEFAULT_FEATURE ''force_cu_merging'' ''force_cu_merging'' False]"

text \<open>\<open>has\<close> tells which functions libbpf has.\<close>

definition enum64_check :: "(string \<Rightarrow> bool) \<Rightarrow> bool" where
  "enum64_check has \<longleftrightarrow> has ''btf__add_enum64''"

definition distilled_base_check :: "(string \<Rightarrow> bool) \<Rightarrow> bool" where
  "distilled_base_check has \<longleftrightarrow> has ''btf__distill_base''"

definition attributes_check :: "(string \<Rightarrow> bool) \<Rightarrow> bool" where
  "attributes_check has \<longleftrightarrow> has ''btf__add_type_attr''"

definition layout_check :: "(string \<Rightarrow> bool) \<Rightarrow> bool" where
  "layout_check has \<longleftrightarrow> has ''btf__new_empty_opts''"

definition location_check :: "(string \<Rightarrow> bool) \<Rightarrow> bool" where
  "location_check has \<longleftrightarrow>
     has ''btf__add_loc_param'' \<and> has ''btf__add_loc_param_value'' \<and> has ''btf__add_loc_proto'' \<and>
     has ''btf__add_loc_proto_param'' \<and> has ''btf__add_locsec'' \<and> has ''btf__add_locsec_loc''"

fun feature_ok :: "(string \<Rightarrow> bool) \<Rightarrow> feature_check \<Rightarrow> bool" where
  "feature_ok has No_check \<longleftrightarrow> True"
| "feature_ok has Enum64_check \<longleftrightarrow> enum64_check has"
| "feature_ok has Distilled_base_check \<longleftrightarrow> distilled_base_check has"
| "feature_ok has Attributes_check \<longleftrightarrow> attributes_check has"
| "feature_ok has Layout_check \<longleftrightarrow> layout_check has"
| "feature_ok has Location_check \<longleftrightarrow> location_check has"

record feature_conf =
  fc_value :: "string \<Rightarrow> bool"
  fc_set_initial :: bool

definition init_btf_features :: "feature_conf \<Rightarrow> feature_conf" where
  "init_btf_features fc =
     (if fc_set_initial fc then fc
      else \<lparr>fc_value = fold (\<lambda>f v. v(bf_alias f := bf_initial f)) btf_features (fc_value fc), fc_set_initial = True\<rparr>)"

definition find_btf_feature :: "string \<Rightarrow> btf_feature option" where
  "find_btf_feature name = find (\<lambda>f. c_strcmp name (bf_name f) = 0) btf_features"

definition enable_btf_feature :: "(string \<Rightarrow> bool) \<Rightarrow> btf_feature \<Rightarrow> feature_conf \<Rightarrow> feature_conf" where
  "enable_btf_feature has f fc =
     (if feature_ok has (bf_check f) then fc\<lparr>fc_value := (fc_value fc)(bf_alias f := \<not> bf_initial f)\<rparr> else fc)"

text \<open>A comma comes before every name but the first of the table.\<close>

definition show_supported_btf_features :: "(string \<Rightarrow> bool) \<Rightarrow> string" where
  "show_supported_btf_features has =
     concat (map (\<lambda>i. let f = btf_features ! i
                      in if \<not> feature_ok has (bf_check f) then [] else (if i > 0 then '','' else []) @ bf_name f)
               [0..<length btf_features]) @ [char_of (10 :: nat)]"

definition btf_features__enable_default :: "(string \<Rightarrow> bool) \<Rightarrow> feature_conf \<Rightarrow> feature_conf" where
  "btf_features__enable_default has fc =
     fold (\<lambda>f fc. if bf_default f then enable_btf_feature has f fc else fc) btf_features fc"

definition btf_features__enable_all :: "(string \<Rightarrow> bool) \<Rightarrow> feature_conf \<Rightarrow> feature_conf" where
  "btf_features__enable_all has fc =
     fold (\<lambda>f fc. if bf_alias f = ''btf_gen_distilled_base'' then fc
                  else if bf_alias f = ''force_cu_merging'' then fc
                  else enable_btf_feature has f fc) btf_features fc"

text \<open>\<open>strtok_r(s, ",", &saveptr)\<close>: the next word and what is behind its delimiter.\<close>

definition next_word :: "char \<Rightarrow> string \<Rightarrow> (string \<times> string) option" where
  "next_word c s =
     (let t = dropWhile (\<lambda>x. x = c) s
      in if t = [] then None else Some (takeWhile (\<lambda>x. x \<noteq> c) t, drop 1 (dropWhile (\<lambda>x. x \<noteq> c) t)))"

lemma next_word_shorter: "next_word c s = Some (w, rest) \<Longrightarrow> length rest < length s"
proof -
  assume a: "next_word c s = Some (w, rest)"
  have l: "length (dropWhile P u) \<le> length u" for P and u :: string by (simp add: length_dropWhile_le)
  show ?thesis
  proof (cases "dropWhile (\<lambda>x. x = c) s")
    case Nil
    then show ?thesis using a by (simp add: next_word_def)
  next
    case (Cons x t)
    have "x \<noteq> c" using Cons by (metis (full_types) hd_dropWhile list.sel(1) list.simps(3))
    then have "rest = drop 1 (dropWhile (\<lambda>x. x \<noteq> c) (x # t))" using a Cons by (simp add: next_word_def)
    then have "length rest < length (x # t)" using l [of "\<lambda>x. x \<noteq> c" t] by (auto split: if_splits)
    then show ?thesis using l [of "\<lambda>x. x = c" s] Cons by simp
  qed
qed

definition enable_word :: "(string \<Rightarrow> bool) \<Rightarrow> bool \<Rightarrow> string \<Rightarrow> feature_conf \<Rightarrow> fault + feature_conf" where
  "enable_word has strict name fc =
     (case find_btf_feature name of
        Some f \<Rightarrow> Inr (enable_btf_feature has f fc)
      | None \<Rightarrow>
          if c_strcmp name ''default'' = 0 then Inr (btf_features__enable_default has fc)
          else if c_strcmp name ''all'' = 0 then Inr (btf_features__enable_all has fc)
          else if strict then Inl (Exit 1)
          else Inr fc)"

function enable_words :: "(string \<Rightarrow> bool) \<Rightarrow> bool \<Rightarrow> string \<Rightarrow> feature_conf \<Rightarrow> fault + feature_conf" where
  "enable_words has strict s fc =
     (case next_word CHR '','' s of
        None \<Rightarrow> Inr fc
      | Some (w, rest) \<Rightarrow> bindE (enable_word has strict w fc) (enable_words has strict rest))"
  by pat_completeness auto
termination
  by (relation "measure (\<lambda>(has, strict, s, fc). length s)") (auto dest: next_word_shorter)

declare enable_words.simps [simp del]

definition BTF_MAX_FEATURE_STR :: nat where "BTF_MAX_FEATURE_STR = 1024"

definition parse_btf_features :: "(string \<Rightarrow> bool) \<Rightarrow> string \<Rightarrow> bool \<Rightarrow> feature_conf \<Rightarrow> fault + feature_conf" where
  "parse_btf_features has features strict fc0 =
     (let fc = init_btf_features fc0
      in if c_strcmp features ''default'' = 0 then Inr (btf_features__enable_default has fc)
         else if c_strcmp features ''all'' = 0 then Inr (btf_features__enable_all has fc)
         else if strstarts features ''+'' then
           enable_words has strict (take BTF_MAX_FEATURE_STR (drop 1 features)) (btf_features__enable_default has fc)
         else enable_words has strict (take BTF_MAX_FEATURE_STR features) fc)"


section \<open>What is enabled\<close>

text \<open>The features a word asks for, the words of a list, and what a list asks for.\<close>

definition word_asks :: "string \<Rightarrow> btf_feature set" where
  "word_asks w =
     (case find_btf_feature w of
        Some f \<Rightarrow> {f}
      | None \<Rightarrow> if w = ''default'' then {f \<in> set btf_features. bf_default f}
                else if w = ''all'' then {f \<in> set btf_features. bf_alias f \<notin> {''btf_gen_distilled_base'', ''force_cu_merging''}}
                else {})"

function feature_words :: "string \<Rightarrow> string list" where
  "feature_words s = (case next_word CHR '','' s of None \<Rightarrow> [] | Some (w, rest) \<Rightarrow> w # feature_words rest)"
  by pat_completeness auto
termination
  by (relation "measure length") (auto dest: next_word_shorter)

declare feature_words.simps [simp del]

definition asked :: "string \<Rightarrow> string list" where
  "asked features =
     (if features = ''default'' \<or> features = ''all'' then [features]
      else if strstarts features ''+'' then ''default'' # feature_words (take BTF_MAX_FEATURE_STR (drop 1 features))
      else feature_words (take BTF_MAX_FEATURE_STR features))"

definition known_word :: "string \<Rightarrow> bool" where
  "known_word w \<longleftrightarrow> find_btf_feature w \<noteq> None \<or> w = ''default'' \<or> w = ''all''"

text \<open>A feature is enabled when its field is not what it was initially.\<close>

definition feature_on :: "feature_conf \<Rightarrow> btf_feature \<Rightarrow> bool" where
  "feature_on fc f \<longleftrightarrow> fc_value fc (bf_alias f) \<noteq> bf_initial f"

text \<open>What enabling the features of a set does.\<close>

definition enables :: "(string \<Rightarrow> bool) \<Rightarrow> btf_feature set \<Rightarrow> feature_conf \<Rightarrow> feature_conf \<Rightarrow> bool" where
  "enables has F fc fc' \<longleftrightarrow>
     fc_set_initial fc' = fc_set_initial fc \<and>
     (\<forall>f \<in> set btf_features. feature_on fc' f \<longleftrightarrow> feature_on fc f \<or> f \<in> F \<and> feature_ok has (bf_check f)) \<and>
     (\<forall>a. a \<notin> bf_alias ` set btf_features \<longrightarrow> fc_value fc' a = fc_value fc a)"

lemmas table_defs = btf_features_def BTF_DEFAULT_FEATURE_def BTF_NON_DEFAULT_FEATURE_def
  BTF_DEFAULT_FEATURE_CHECK_def BTF_NON_DEFAULT_FEATURE_CHECK_def

lemma aliases_distinct: "distinct (map bf_alias btf_features)"
  by (simp add: table_defs)

lemma alias_unique:
  assumes "f \<in> set btf_features" and "g \<in> set btf_features" and "bf_alias f = bf_alias g"
  shows "f = g"
  using assms aliases_distinct by (metis distinct_map inj_onD)

lemma enables_refl: "enables has {} fc fc"
  by (simp add: enables_def)

lemma enables_trans: "enables has F fc fc1 \<Longrightarrow> enables has G fc1 fc2 \<Longrightarrow> enables has (F \<union> G) fc fc2"
  unfolding enables_def by fastforce

lemma enables_one:
  assumes "f \<in> set btf_features"
  shows "enables has {f} fc (enable_btf_feature has f fc)"
  unfolding enables_def
proof (intro conjI ballI allI impI)
  show "feature_on (enable_btf_feature has f fc) g \<longleftrightarrow> feature_on fc g \<or> g \<in> {f} \<and> feature_ok has (bf_check g)"
    if "g \<in> set btf_features" for g
    using alias_unique [OF that assms] by (auto simp: enable_btf_feature_def feature_on_def)
  show "fc_value (enable_btf_feature has f fc) a = fc_value fc a" if "a \<notin> bf_alias ` set btf_features" for a
    using that assms by (auto simp: enable_btf_feature_def)
qed (simp add: enable_btf_feature_def)

lemma enables_fold:
  assumes "set fs \<subseteq> set btf_features"
  shows "enables has {f \<in> set fs. P f} fc (fold (\<lambda>f fc. if P f then enable_btf_feature has f fc else fc) fs fc)"
  using assms
proof (induction fs arbitrary: fc)
  case (Cons f fs)
  let ?fc1 = "if P f then enable_btf_feature has f fc else fc"
  have "enables has (if P f then {f} else {}) fc ?fc1"
    using enables_one [of f has fc] Cons.prems by (simp add: enables_refl)
  moreover have "enables has {f \<in> set fs. P f} ?fc1 (fold (\<lambda>f fc. if P f then enable_btf_feature has f fc else fc) fs ?fc1)"
    using Cons by simp
  ultimately have "enables has ((if P f then {f} else {}) \<union> {f \<in> set fs. P f}) fc
      (fold (\<lambda>f fc. if P f then enable_btf_feature has f fc else fc) fs ?fc1)"
    by (rule enables_trans)
  moreover have "(if P f then {f} else {}) \<union> {f \<in> set fs. P f} = {g \<in> set (f # fs). P g}" by auto
  ultimately show ?case by simp
qed (simp add: enables_refl)

lemma enables_default: "enables has {f \<in> set btf_features. bf_default f} fc (btf_features__enable_default has fc)"
  unfolding btf_features__enable_default_def by (rule enables_fold) simp

lemma enables_all:
  "enables has {f \<in> set btf_features. bf_alias f \<notin> {''btf_gen_distilled_base'', ''force_cu_merging''}} fc
     (btf_features__enable_all has fc)"
proof -
  have "btf_features__enable_all has fc =
      fold (\<lambda>f fc. if bf_alias f \<notin> {''btf_gen_distilled_base'', ''force_cu_merging''} then enable_btf_feature has f fc else fc)
        btf_features fc"
    unfolding btf_features__enable_all_def by (rule fold_cong) (simp_all add: fun_eq_iff)
  then show ?thesis
    using enables_fold [OF order_refl, of has "\<lambda>f. bf_alias f \<notin> {''btf_gen_distilled_base'', ''force_cu_merging''}" fc] by simp
qed

lemma find_btf_feature_mem: "find_btf_feature w = Some f \<Longrightarrow> f \<in> set btf_features"
  unfolding find_btf_feature_def find_Some_iff by auto

lemma keywords_no_feature: "find_btf_feature ''default'' = None" "find_btf_feature ''all'' = None"
  by (simp_all add: find_btf_feature_def table_defs)

lemma enable_word_ok:
  assumes "enable_word has strict w fc = Inr fc'"
  shows "enables has (word_asks w) fc fc'" and "strict \<Longrightarrow> known_word w"
  using assms enables_default enables_all enables_refl find_btf_feature_mem [THEN enables_one]
  by (auto simp: enable_word_def word_asks_def known_word_def split: option.splits if_splits)

lemma enable_word_fails: "enable_word has strict w fc = Inl e \<Longrightarrow> strict \<and> \<not> known_word w \<and> e = Exit 1"
  by (auto simp: enable_word_def known_word_def split: option.splits if_splits)

lemma enable_words_ok:
  assumes "enable_words has strict s fc = Inr fc'"
  shows "enables has (\<Union>w \<in> set (feature_words s). word_asks w) fc fc'"
    and "strict \<Longrightarrow> \<forall>w \<in> set (feature_words s). known_word w"
  using assms
proof (induction has strict s fc arbitrary: fc' rule: enable_words.induct)
  case (1 has strict s fc)
  {
    case 1
    show ?case
    proof (cases "next_word CHR '','' s")
      case None
      then show ?thesis using 1 enables_refl by (simp add: enable_words.simps [of _ _ s] feature_words.simps [of s])
    next
      case (Some p)
      obtain w rest where p: "p = (w, rest)" by (cases p)
      obtain fc1 where f: "enable_word has strict w fc = Inr fc1" "enable_words has strict rest fc1 = Inr fc'"
        using 1 Some p by (auto simp: enable_words.simps [of _ _ s] split: sum.splits)
      have "enables has (word_asks w \<union> (\<Union>w \<in> set (feature_words rest). word_asks w)) fc fc'"
        using enables_trans [OF enable_word_ok(1) [OF f(1)] "1.IH"(1) [OF Some p [symmetric] f]] by simp
      then show ?thesis using Some p by (simp add: feature_words.simps [of s])
    qed
  next
    case 2
    show ?case
    proof (cases "next_word CHR '','' s")
      case (Some p)
      obtain w rest where p: "p = (w, rest)" by (cases p)
      obtain fc1 where f: "enable_word has strict w fc = Inr fc1" "enable_words has strict rest fc1 = Inr fc'"
        using 2 Some p by (auto simp: enable_words.simps [of _ _ s] split: sum.splits)
      show ?thesis using enable_word_ok(2) [OF f(1)] "1.IH"(2) [OF Some p [symmetric] f(1) 2(1) f(2)] 2(1) Some p
        by (simp add: feature_words.simps [of s])
    qed (simp add: feature_words.simps [of s])
  }
qed

lemma enable_words_fails:
  "enable_words has strict s fc = Inl e \<Longrightarrow> strict \<and> e = Exit 1 \<and> (\<exists>w \<in> set (feature_words s). \<not> known_word w)"
proof (induction has strict s fc rule: enable_words.induct)
  case (1 has strict s fc)
  obtain w rest where p: "next_word CHR '','' s = Some (w, rest)"
    using 1(2) by (auto simp: enable_words.simps [of _ _ s] split: option.splits)
  show ?case
  proof (cases "enable_word has strict w fc")
    case (Inl e')
    then show ?thesis using 1(2) p enable_word_fails [OF Inl] by (auto simp: enable_words.simps [of _ _ s] feature_words.simps [of s])
  next
    case (Inr fc1)
    then have "enable_words has strict rest fc1 = Inl e" using 1(2) p by (simp add: enable_words.simps [of _ _ s])
    then show ?thesis using "1.IH" [OF p refl Inr] p by (auto simp: feature_words.simps [of s])
  qed
qed

text \<open>The initial values are set once; then nothing is enabled.\<close>

lemma fold_update_initial:
  assumes "distinct (map bf_alias fs)" and "f \<in> set fs"
  shows "fold (\<lambda>f v. v(bf_alias f := bf_initial f)) fs v (bf_alias f) = bf_initial f"
  using assms
proof (induction fs arbitrary: v)
  case (Cons g fs)
  have other: "fold (\<lambda>f v. v(bf_alias f := bf_initial f)) fs v a = v a" if "a \<notin> bf_alias ` set fs" for a v
    using that by (induction fs arbitrary: v) auto
  show ?case
  proof (cases "f = g")
    case True
    then have "bf_alias g \<notin> bf_alias ` set fs" using Cons.prems by simp
    then show ?thesis unfolding True fold_simps by (rule trans [OF other]) simp
  next
    case False
    then show ?thesis unfolding fold_simps using Cons.prems by (intro Cons.IH) simp_all
  qed
qed simp

lemma fold_update_other:
  "a \<notin> bf_alias ` set fs \<Longrightarrow> fold (\<lambda>f v. v(bf_alias f := bf_initial f)) fs v a = v a"
  by (induction fs arbitrary: v) auto

lemma init_btf_features_on:
  "f \<in> set btf_features \<Longrightarrow> feature_on (init_btf_features fc) f \<longleftrightarrow> fc_set_initial fc \<and> feature_on fc f"
  "fc_set_initial (init_btf_features fc)"
  "a \<notin> bf_alias ` set btf_features \<Longrightarrow> fc_value (init_btf_features fc) a = fc_value fc a"
  by (simp_all add: init_btf_features_def feature_on_def fold_update_initial aliases_distinct fold_update_other)

lemma parse_btf_features_enables:
  assumes "parse_btf_features has features strict fc = Inr fc'"
  shows "enables has (\<Union>w \<in> set (asked features). word_asks w) (init_btf_features fc) fc'"
    and "strict \<Longrightarrow> \<forall>w \<in> set (asked features). known_word w"
proof -
  have def: "word_asks ''default'' = {f \<in> set btf_features. bf_default f}"
    and all: "word_asks ''all'' = {f \<in> set btf_features. bf_alias f \<notin> {''btf_gen_distilled_base'', ''force_cu_merging''}}"
    by (simp_all add: word_asks_def keywords_no_feature)
  consider (default) "features = ''default''" | (all) "features = ''all''"
    | (plus) "features \<noteq> ''default''" "features \<noteq> ''all''" "strstarts features ''+''"
    | (words) "features \<noteq> ''default''" "features \<noteq> ''all''" "\<not> strstarts features ''+''" by blast
  then have "enables has (\<Union>w \<in> set (asked features). word_asks w) (init_btf_features fc) fc' \<and>
      (strict \<longrightarrow> (\<forall>w \<in> set (asked features). known_word w))"
  proof cases
    case default
    then show ?thesis using assms enables_default def by (auto simp: parse_btf_features_def asked_def known_word_def)
  next
    case all
    then show ?thesis using assms enables_all \<open>word_asks ''all'' = _\<close> by (auto simp: parse_btf_features_def asked_def known_word_def)
  next
    case plus
    then have w: "enable_words has strict (take BTF_MAX_FEATURE_STR (drop 1 features))
        (btf_features__enable_default has (init_btf_features fc)) = Inr fc'"
      using assms by (simp add: parse_btf_features_def c_strcmp_eq)
    show ?thesis
      using enables_trans [OF enables_default enable_words_ok(1) [OF w]] enable_words_ok(2) [OF w] plus
      by (simp add: asked_def def known_word_def)
  next
    case words
    then have w: "enable_words has strict (take BTF_MAX_FEATURE_STR features) (init_btf_features fc) = Inr fc'"
      using assms by (simp add: parse_btf_features_def c_strcmp_eq)
    show ?thesis using enable_words_ok [OF w] words by (simp add: asked_def)
  qed
  then show "enables has (\<Union>w \<in> set (asked features). word_asks w) (init_btf_features fc) fc'"
    and "strict \<Longrightarrow> \<forall>w \<in> set (asked features). known_word w" by simp_all
qed

section \<open>Properties\<close>



end
