(* ===== verification/Listh.thy ===== *)
theory Listh
  imports Prelude
begin

text \<open>
  The circular doubly linked lists of \<open>list.h\<close> in a store of links: every node has an address, and the
  two links of a node are read and written one at a time, as the code does.  A list is known by the
  address of its head; an address without links is not a node (NULL, for example).
\<close>

record links =
  ln_next :: "nat \<Rightarrow> nat option"
  ln_prev :: "nat \<Rightarrow> nat option"

definition is_node :: "links \<Rightarrow> nat \<Rightarrow> bool" where
  "is_node h p \<longleftrightarrow> ln_next h p \<noteq> None \<and> ln_prev h p \<noteq> None"

definition get_next :: "links \<Rightarrow> nat \<Rightarrow> fault + nat" where
  "get_next h p = (case ln_next h p of None \<Rightarrow> Inl Null_Deref | Some q \<Rightarrow> Inr q)"

definition get_prev :: "links \<Rightarrow> nat \<Rightarrow> fault + nat" where
  "get_prev h p = (case ln_prev h p of None \<Rightarrow> Inl Null_Deref | Some q \<Rightarrow> Inr q)"

definition set_next :: "nat \<Rightarrow> nat \<Rightarrow> links \<Rightarrow> fault + links" where
  "set_next p q h = (if is_node h p then Inr (h\<lparr>ln_next := (ln_next h)(p \<mapsto> q)\<rparr>) else Inl Null_Deref)"

definition set_prev :: "nat \<Rightarrow> nat \<Rightarrow> links \<Rightarrow> fault + links" where
  "set_prev p q h = (if is_node h p then Inr (h\<lparr>ln_prev := (ln_prev h)(p \<mapsto> q)\<rparr>) else Inl Null_Deref)"

definition LIST_POISON1 :: nat where "LIST_POISON1 = 1048832"
definition LIST_POISON2 :: nat where "LIST_POISON2 = 2097664"

section \<open>The operations\<close>

definition INIT_LIST_HEAD :: "nat \<Rightarrow> links \<Rightarrow> fault + links" where
  "INIT_LIST_HEAD l h = bindE (set_next l l h) (set_prev l l)"

definition list_add_priv :: "nat \<Rightarrow> nat \<Rightarrow> nat \<Rightarrow> links \<Rightarrow> fault + links" where
  "list_add_priv new prev nxt h =
     bindE (set_prev nxt new h) (\<lambda>h1. bindE (set_next new nxt h1) (\<lambda>h2. bindE (set_prev new prev h2) (set_next prev new)))"

definition list_add :: "nat \<Rightarrow> nat \<Rightarrow> links \<Rightarrow> fault + links" where
  "list_add new head h = bindE (get_next h head) (\<lambda>n. list_add_priv new head n h)"

definition list_add_tail :: "nat \<Rightarrow> nat \<Rightarrow> links \<Rightarrow> fault + links" where
  "list_add_tail new head h = bindE (get_prev h head) (\<lambda>p. list_add_priv new p head h)"

definition list_del_priv :: "nat \<Rightarrow> nat \<Rightarrow> links \<Rightarrow> fault + links" where
  "list_del_priv prev nxt h = bindE (set_prev nxt prev h) (set_next prev nxt)"

definition unlink :: "nat \<Rightarrow> links \<Rightarrow> fault + links" where
  "unlink e h = bindE (get_prev h e) (\<lambda>p. bindE (get_next h e) (\<lambda>n. list_del_priv p n h))"

definition list_del :: "nat \<Rightarrow> links \<Rightarrow> fault + links" where
  "list_del e h = bindE (unlink e h) (\<lambda>h1. bindE (set_next e LIST_POISON1 h1) (set_prev e LIST_POISON2))"

definition list_del_range :: "nat \<Rightarrow> nat \<Rightarrow> links \<Rightarrow> fault + links" where
  "list_del_range b e h =
     bindE (get_prev h b) (\<lambda>p. bindE (get_next h e) (\<lambda>n. bindE (set_next p n h) (\<lambda>h1.
     bindE (get_next h1 e) (\<lambda>n1. bindE (get_prev h1 b) (\<lambda>p1. set_prev n1 p1 h1)))))"

definition list_replace :: "nat \<Rightarrow> nat \<Rightarrow> links \<Rightarrow> fault + links" where
  "list_replace old new h =
     bindE (get_next h old) (\<lambda>n. bindE (set_next new n h) (\<lambda>h1. bindE (set_prev n new h1) (\<lambda>h2.
     bindE (get_prev h2 old) (\<lambda>p. bindE (set_prev new p h2) (\<lambda>h3. set_next p new h3)))))"

definition list_replace_init :: "nat \<Rightarrow> nat \<Rightarrow> links \<Rightarrow> fault + links" where
  "list_replace_init old new h = bindE (list_replace old new h) (INIT_LIST_HEAD old)"

definition list_del_init :: "nat \<Rightarrow> links \<Rightarrow> fault + links" where
  "list_del_init e h = bindE (unlink e h) (INIT_LIST_HEAD e)"

definition list_move :: "nat \<Rightarrow> nat \<Rightarrow> links \<Rightarrow> fault + links" where
  "list_move e head h = bindE (unlink e h) (list_add e head)"

definition list_move_tail :: "nat \<Rightarrow> nat \<Rightarrow> links \<Rightarrow> fault + links" where
  "list_move_tail e head h = bindE (unlink e h) (list_add_tail e head)"

definition list_is_last :: "nat \<Rightarrow> nat \<Rightarrow> links \<Rightarrow> fault + bool" where
  "list_is_last e head h = bindE (get_next h e) (\<lambda>n. Inr (n = head))"

definition list_empty :: "nat \<Rightarrow> links \<Rightarrow> fault + bool" where
  "list_empty head h = bindE (get_next h head) (\<lambda>n. Inr (n = head))"

definition list_empty_careful :: "nat \<Rightarrow> links \<Rightarrow> fault + bool" where
  "list_empty_careful head h =
     bindE (get_next h head) (\<lambda>n. bindE (get_prev h head) (\<lambda>p. Inr (n = head \<and> n = p)))"

definition list_splice_priv :: "nat \<Rightarrow> nat \<Rightarrow> links \<Rightarrow> fault + links" where
  "list_splice_priv l head h =
     bindE (get_next h l) (\<lambda>first. bindE (get_prev h l) (\<lambda>last. bindE (get_next h head) (\<lambda>at.
     bindE (set_prev first head h) (\<lambda>h1. bindE (set_next head first h1) (\<lambda>h2.
     bindE (set_next last at h2) (\<lambda>h3. set_prev at last h3))))))"

definition list_splice :: "nat \<Rightarrow> nat \<Rightarrow> links \<Rightarrow> fault + links" where
  "list_splice l head h = bindE (list_empty l h) (\<lambda>e. if e then Inr h else list_splice_priv l head h)"

definition list_splice_init :: "nat \<Rightarrow> nat \<Rightarrow> links \<Rightarrow> fault + links" where
  "list_splice_init l head h =
     bindE (list_empty l h) (\<lambda>e. if e then Inr h else bindE (list_splice_priv l head h) (INIT_LIST_HEAD l))"

text \<open>
  The loops; the body works on a state of its own and on the links.  \<open>list_for_each_entry\<close> reads the link
  of a node after its body, the \<open>_safe\<close> one before it.  The fuel bounds the number of nodes.
\<close>

fun for_each_from :: "nat \<Rightarrow> nat \<Rightarrow> (nat \<Rightarrow> 's \<times> links \<Rightarrow> fault + 's \<times> links) \<Rightarrow> nat \<Rightarrow> 's \<times> links \<Rightarrow> fault + 's \<times> links" where
  "for_each_from 0 head f p st = Inl Out_Of_Fuel"
| "for_each_from (Suc n) head f p st =
     (if p = head then Inr st
      else bindE (f p st) (\<lambda>st1. bindE (get_next (snd st1) p) (\<lambda>q. for_each_from n head f q st1)))"

definition list_for_each_entry :: "nat \<Rightarrow> nat \<Rightarrow> (nat \<Rightarrow> 's \<times> links \<Rightarrow> fault + 's \<times> links) \<Rightarrow> 's \<times> links \<Rightarrow> fault + 's \<times> links" where
  "list_for_each_entry n head f st = bindE (get_next (snd st) head) (\<lambda>p. for_each_from n head f p st)"

fun for_each_reverse_from :: "nat \<Rightarrow> nat \<Rightarrow> (nat \<Rightarrow> 's \<times> links \<Rightarrow> fault + 's \<times> links) \<Rightarrow> nat \<Rightarrow> 's \<times> links \<Rightarrow> fault + 's \<times> links" where
  "for_each_reverse_from 0 head f p st = Inl Out_Of_Fuel"
| "for_each_reverse_from (Suc n) head f p st =
     (if p = head then Inr st
      else bindE (f p st) (\<lambda>st1. bindE (get_prev (snd st1) p) (\<lambda>q. for_each_reverse_from n head f q st1)))"

definition list_for_each_entry_reverse :: "nat \<Rightarrow> nat \<Rightarrow> (nat \<Rightarrow> 's \<times> links \<Rightarrow> fault + 's \<times> links) \<Rightarrow> 's \<times> links \<Rightarrow> fault + 's \<times> links" where
  "list_for_each_entry_reverse n head f st = bindE (get_prev (snd st) head) (\<lambda>p. for_each_reverse_from n head f p st)"

fun for_each_safe_from :: "nat \<Rightarrow> nat \<Rightarrow> (nat \<Rightarrow> 's \<times> links \<Rightarrow> fault + 's \<times> links) \<Rightarrow> nat \<Rightarrow> nat \<Rightarrow> 's \<times> links \<Rightarrow> fault + 's \<times> links" where
  "for_each_safe_from 0 head f p n st = Inl Out_Of_Fuel"
| "for_each_safe_from (Suc k) head f p n st =
     (if p = head then Inr st
      else bindE (f p st) (\<lambda>st1. bindE (get_next (snd st1) n) (\<lambda>n'. for_each_safe_from k head f n n' st1)))"

definition list_for_each_entry_safe :: "nat \<Rightarrow> nat \<Rightarrow> (nat \<Rightarrow> 's \<times> links \<Rightarrow> fault + 's \<times> links) \<Rightarrow> 's \<times> links \<Rightarrow> fault + 's \<times> links" where
  "list_for_each_entry_safe k head f st =
     bindE (get_next (snd st) head) (\<lambda>p. bindE (get_next (snd st) p) (\<lambda>n. for_each_safe_from k head f p n st))"

end
