(* ===== verification/ListRefine.thy ===== *)
theory ListRefine
  imports Listh
begin

text \<open>
  The lists of \<open>list.h\<close> implement sequences: as long as a set of circular lists is well formed, every
  operation succeeds and leaves the well-formed lists that inserting, removing and joining sequences
  give, and walking a list meets its nodes in order.
\<close>

section \<open>Chains of nodes\<close>

fun chain :: "links \<Rightarrow> nat \<Rightarrow> nat list \<Rightarrow> nat \<Rightarrow> bool" where
  "chain h a [] b \<longleftrightarrow> ln_next h a = Some b \<and> ln_prev h b = Some a"
| "chain h a (x # xs) b \<longleftrightarrow> ln_next h a = Some x \<and> ln_prev h x = Some a \<and> chain h x xs b"

lemma chain_split: "chain h a (us @ x # vs) b \<longleftrightarrow> chain h a us x \<and> chain h x vs b"
  by (induction us arbitrary: a) auto

text \<open>A list of nodes between \<open>a\<close> and \<open>b\<close> cut at some place: the nodes at the cut are linked.\<close>

lemma chain_cut:
  "chain h a (us @ vs) b \<longleftrightarrow>
     (us = [] \<or> chain h a (butlast us) (last us)) \<and>
     ln_next h (last (a # us)) = Some (hd (vs @ [b])) \<and> ln_prev h (hd (vs @ [b])) = Some (last (a # us)) \<and>
     (vs = [] \<or> chain h (hd vs) (tl vs) b)"
proof -
  have right: "chain h x vs b \<longleftrightarrow> ln_next h x = Some (hd (vs @ [b])) \<and> ln_prev h (hd (vs @ [b])) = Some x \<and>
      (vs = [] \<or> chain h (hd vs) (tl vs) b)" for x
    by (cases vs) auto
  show ?thesis
  proof (cases us rule: rev_cases)
    case Nil
    then show ?thesis using right by simp
  next
    case (snoc us' x)
    then show ?thesis using right by (simp add: chain_split)
  qed
qed

lemma chain_next: "p \<notin> set (a # xs) \<Longrightarrow> chain (h\<lparr>ln_next := (ln_next h)(p := v)\<rparr>) a xs b \<longleftrightarrow> chain h a xs b"
  by (induction xs arbitrary: a) auto

lemma chain_prev: "p \<notin> set (xs @ [b]) \<Longrightarrow> chain (h\<lparr>ln_prev := (ln_prev h)(p := v)\<rparr>) a xs b \<longleftrightarrow> chain h a xs b"
  by (induction xs arbitrary: a) auto

text \<open>Chains are about the links of their nodes only.\<close>

lemma chain_cong:
  assumes "\<And>p. p \<in> set (a # xs) \<Longrightarrow> ln_next h' p = ln_next h p"
    and "\<And>p. p \<in> set (xs @ [b]) \<Longrightarrow> ln_prev h' p = ln_prev h p"
  shows "chain h' a xs b \<longleftrightarrow> chain h a xs b"
  using assms by (induction xs arbitrary: a) auto

lemma chain_nodes:
  assumes "chain h l xs l" and "p \<in> set (l # xs)"
  shows "is_node h p"
proof -
  have n: "\<forall>p \<in> set (a # ys). ln_next h p \<noteq> None" and v: "\<forall>p \<in> set (ys @ [b]). ln_prev h p \<noteq> None" if "chain h a ys b" for a ys b
    using that by (induction ys arbitrary: a) auto
  show ?thesis using n [OF assms(1)] v [OF assms(1)] assms(2) by (auto simp: is_node_def)
qed

section \<open>Well-formed sets of lists\<close>

type_synonym lists = "nat \<rightharpoonup> nat list"

definition apart :: "lists \<Rightarrow> bool" where
  "apart A \<longleftrightarrow>
     (\<forall>l xs. A l = Some xs \<longrightarrow> distinct (l # xs)) \<and>
     (\<forall>l xs m ys. A l = Some xs \<longrightarrow> A m = Some ys \<longrightarrow> l \<noteq> m \<longrightarrow> set (l # xs) \<inter> set (m # ys) = {})"

definition rep :: "links \<Rightarrow> lists \<Rightarrow> bool" where
  "rep h A \<longleftrightarrow> apart A \<and> (\<forall>l xs. A l = Some xs \<longrightarrow> chain h l xs l)"

definition unused :: "lists \<Rightarrow> nat \<Rightarrow> bool" where
  "unused A p \<longleftrightarrow> (\<forall>l xs. A l = Some xs \<longrightarrow> p \<notin> set (l # xs))"

lemma rep_chain: "rep h A \<Longrightarrow> A l = Some xs \<Longrightarrow> chain h l xs l"
  by (simp add: rep_def)

lemma apart_distinct: "apart A \<Longrightarrow> A l = Some xs \<Longrightarrow> distinct (l # xs)"
  unfolding apart_def by blast

lemma apart_disjoint:
  "apart A \<Longrightarrow> A l = Some xs \<Longrightarrow> A m = Some ys \<Longrightarrow> l \<noteq> m \<Longrightarrow> p \<in> set (l # xs) \<Longrightarrow> p \<notin> set (m # ys)"
  unfolding apart_def by blast

lemma rep_apart: "rep h A \<Longrightarrow> apart A"
  by (simp add: rep_def)

text \<open>
  One list is replaced by another one over nodes that were its own or unused, and only links of these
  nodes change.
\<close>

lemma rep_update:
  assumes "rep h A" and "A l = Some xs" and "distinct (l # ys)" and "chain h' l ys l"
    and "\<And>p. p \<in> set ys \<Longrightarrow> p \<in> set xs \<or> unused A p"
    and "\<And>p. p \<notin> set (l # xs) \<Longrightarrow> \<not> unused A p \<Longrightarrow> ln_next h' p = ln_next h p \<and> ln_prev h' p = ln_prev h p"
  shows "rep h' (A(l \<mapsto> ys))"
proof -
  have other: "p \<notin> set (l # xs) \<and> \<not> unused A p" if "A m = Some zs" "m \<noteq> l" "p \<in> set (m # zs)" for m zs p
    using apart_disjoint [OF rep_apart [OF assms(1)] that(1) assms(2) that(2,3)] that unfolding unused_def by blast
  have "apart (A(l \<mapsto> ys))"
    unfolding apart_def
  proof (intro conjI allI impI)
    show "distinct (m # zs)" if "(A(l \<mapsto> ys)) m = Some zs" for m zs
      using that assms(3) apart_distinct [OF rep_apart [OF assms(1)]] by (auto split: if_splits)
    show "set (m # zs) \<inter> set (k # ws) = {}"
      if "(A(l \<mapsto> ys)) m = Some zs" "(A(l \<mapsto> ys)) k = Some ws" "m \<noteq> k" for m zs k ws
    proof -
      have l: "set (l # ys) \<inter> set (m # zs) = {}" if "A m = Some zs" "m \<noteq> l" for m zs
        using other [OF that] assms(5) by auto
      consider "m = l" | "k = l" | "m \<noteq> l" "k \<noteq> l" by blast
      then show ?thesis
      proof cases
        case 1
        then show ?thesis using that l [of k ws] by auto
      next
        case 2
        then show ?thesis using that l [of m zs] by auto
      next
        case 3
        then show ?thesis using that apart_disjoint [OF rep_apart [OF assms(1)], of m zs k ws] by auto
      qed
    qed
  qed
  moreover have "chain h' m zs m" if "(A(l \<mapsto> ys)) m = Some zs" for m zs
  proof (cases "m = l")
    case False
    then have "A m = Some zs" using that by simp
    then show ?thesis
      using chain_cong [of m zs h' h m] other [OF _ False] assms(6) rep_chain [OF assms(1)] by auto
  qed (use that assms(4) in simp)
  ultimately show ?thesis by (simp add: rep_def)
qed

text \<open>A list of its own for an unused node.\<close>

lemma rep_new:
  assumes "rep h A" and "unused A p" and "ln_next h' p = Some p" and "ln_prev h' p = Some p"
    and "\<And>q. q \<noteq> p \<Longrightarrow> ln_next h' q = ln_next h q \<and> ln_prev h' q = ln_prev h q"
  shows "rep h' (A(p \<mapsto> []))"
proof -
  have other: "q \<noteq> p" if "A m = Some zs" "q \<in> set (m # zs)" for m zs q
    using assms(2) that unfolding unused_def by blast
  have "apart (A(p \<mapsto> []))"
    using rep_apart [OF assms(1)] other unfolding apart_def by (auto split: if_splits)
  moreover have "chain h' m zs m" if "(A(p \<mapsto> [])) m = Some zs" for m zs
  proof (cases "m = p")
    case False
    then have "A m = Some zs" using that by simp
    then show ?thesis using chain_cong [of m zs h' h m] other assms(5) rep_chain [OF assms(1)] by auto
  qed (use that assms(3,4) in simp)
  ultimately show ?thesis by (simp add: rep_def)
qed


lemma rep_drop: "rep h A \<Longrightarrow> rep h (A(l := None))"
  unfolding rep_def apart_def by (auto split: if_splits)

lemma rep_nodes: "rep h A \<Longrightarrow> A l = Some xs \<Longrightarrow> p \<in> set (l # xs) \<Longrightarrow> is_node h p"
  using chain_nodes rep_chain by blast

lemma unused_drop:
  assumes "rep h A" and "A l = Some xs" and "p \<in> set (l # xs)"
  shows "unused (A(l := None)) p"
  unfolding unused_def
proof (intro allI impI)
  fix m ys assume "(A(l := None)) m = Some ys"
  then have "A m = Some ys" "l \<noteq> m" by (auto split: if_splits)
  then show "p \<notin> set (m # ys)" using apart_disjoint [OF rep_apart [OF assms(1)] assms(2) _ _ assms(3)] by blast
qed

lemma unused_cut:
  assumes "rep h A" and "A l = Some xs" and "p \<in> set xs" and "p \<notin> set ys"
  shows "unused (A(l \<mapsto> ys)) p"
  unfolding unused_def
proof (intro allI impI)
  fix m zs assume m: "(A(l \<mapsto> ys)) m = Some zs"
  have "p \<noteq> l" using apart_distinct [OF rep_apart [OF assms(1)] assms(2)] assms(3) by auto
  moreover have "p \<notin> set (m # zs)" if "m \<noteq> l"
  proof -
    have "A m = Some zs" "l \<noteq> m" "p \<in> set (l # xs)" using m that assms(3) by auto
    then show ?thesis using apart_disjoint [OF rep_apart [OF assms(1)] assms(2)] by blast
  qed
  ultimately show "p \<notin> set (m # zs)" using m assms(4) by (cases "m = l") auto
qed

section \<open>One operation at a time\<close>

lemma set_links [simp]:
  "is_node h p \<Longrightarrow> set_next p q h = Inr (h\<lparr>ln_next := (ln_next h)(p \<mapsto> q)\<rparr>)"
  "is_node h p \<Longrightarrow> set_prev p q h = Inr (h\<lparr>ln_prev := (ln_prev h)(p \<mapsto> q)\<rparr>)"
  by (simp_all add: set_next_def set_prev_def)

text \<open>All that an operation does to the links: nodes stay nodes.\<close>

definition reaches :: "fault + links \<Rightarrow> links \<Rightarrow> lists \<Rightarrow> bool" where
  "reaches r h A \<longleftrightarrow> (\<exists>h'. r = Inr h' \<and> rep h' A \<and> (\<forall>p. is_node h p \<longrightarrow> is_node h' p))"

lemma reachesI: "r = Inr h' \<Longrightarrow> rep h' A \<Longrightarrow> (\<And>p. is_node h p \<Longrightarrow> is_node h' p) \<Longrightarrow> reaches r h A"
  by (auto simp: reaches_def)

lemma reachesE:
  assumes "reaches r h A"
  obtains h' where "r = Inr h'" and "rep h' A" and "\<And>p. is_node h p \<Longrightarrow> is_node h' p"
  using assms by (auto simp: reaches_def)

text \<open>The nodes before and after a place of a list.\<close>

lemma place_nodes:
  assumes "rep h A" and "A l = Some (us @ vs)"
  shows "is_node h (last (l # us))" and "is_node h (hd (vs @ [l]))"
    and "ln_next h (last (l # us)) = Some (hd (vs @ [l]))" and "ln_prev h (hd (vs @ [l])) = Some (last (l # us))"
proof -
  show "is_node h (last (l # us))" by (rule rep_nodes [OF assms]) (cases us rule: rev_cases; simp)
  show "is_node h (hd (vs @ [l]))" by (rule rep_nodes [OF assms]) (cases vs; simp)
  show "ln_next h (last (l # us)) = Some (hd (vs @ [l]))" "ln_prev h (hd (vs @ [l])) = Some (last (l # us))"
    using rep_chain [OF assms] chain_cut by blast+
qed

lemma place_apart:
  assumes "distinct (l # us @ vs)"
  shows "us \<noteq> [] \<Longrightarrow> last us \<notin> set (l # butlast us)" and "hd (vs @ [l]) \<notin> set us" and "last (l # us) \<notin> set vs"
    and "vs \<noteq> [] \<Longrightarrow> hd vs \<notin> set (tl vs @ [l])"
proof -
  show "last us \<notin> set (l # butlast us)" if "us \<noteq> []"
    using assms that by (cases us rule: rev_cases) auto
  show "hd (vs @ [l]) \<notin> set us" using assms by (cases vs) auto
  show "last (l # us) \<notin> set vs" using assms by (cases us rule: rev_cases) auto
  show "hd vs \<notin> set (tl vs @ [l])" if "vs \<noteq> []" using assms that by (cases vs) auto
qed

lemma butlast_last_set: "us \<noteq> [] \<Longrightarrow> set (butlast us @ [last us]) = set us"
  by simp

text \<open>Putting \<open>ws\<close>, linked inside, between two places.\<close>

lemma chain_insert:
  assumes "chain h l (us @ vs) l" and "distinct (l # us @ vs)" and "ws \<noteq> []"
    and "set ws \<inter> set (l # us @ vs) = {}" and "ws = [hd ws] \<or> chain h' (hd ws) (butlast (tl ws)) (last ws)"
    and "ln_next h' (last (l # us)) = Some (hd ws)" and "ln_prev h' (hd ws) = Some (last (l # us))"
    and "ln_next h' (last ws) = Some (hd (vs @ [l]))" and "ln_prev h' (hd (vs @ [l])) = Some (last ws)"
    and "\<And>p. p \<in> set (l # us @ vs) \<Longrightarrow> p \<noteq> last (l # us) \<Longrightarrow> ln_next h' p = ln_next h p"
    and "\<And>p. p \<in> set (l # us @ vs) \<Longrightarrow> p \<noteq> hd (vs @ [l]) \<Longrightarrow> ln_prev h' p = ln_prev h p"
  shows "chain h' l (us @ ws @ vs) l"
proof -
  note ap = place_apart [OF assms(2)]
  have left: "chain h' l (butlast us) (last us)" if "us \<noteq> []"
  proof -
    have "chain h' l (butlast us) (last us) \<longleftrightarrow> chain h l (butlast us) (last us)"
      using ap(1) [OF that] ap(2) that assms(2) in_set_butlastD last_in_set [OF that]
      by (intro chain_cong; intro assms(10,11)) (auto dest: in_set_butlastD)
    then show ?thesis using assms(1) that chain_cut by blast
  qed
  have right: "chain h' (hd vs) (tl vs) l" if "vs \<noteq> []"
  proof -
    have "chain h' (hd vs) (tl vs) l \<longleftrightarrow> chain h (hd vs) (tl vs) l"
      using ap(3) ap(4) [OF that] that by (intro chain_cong; intro assms(10,11)) (cases vs; auto)+
    then show ?thesis using assms(1) that chain_cut by blast
  qed
  have mid: "chain h' (hd ws) (tl ws @ vs) l"
  proof (cases "tl ws = []")
    case True
    then have w: "ws = [hd ws]" using assms(3) by (cases ws) auto
    then have "last ws = hd ws" by (metis last.simps)
    then show ?thesis using chain_cut [of h' "hd ws" "[]" vs l] assms(8,9) right True by auto
  next
    case False
    then have "chain h' (hd ws) (butlast (tl ws)) (last (tl ws))"
      using assms(3,5) by (cases ws) auto
    moreover have "last (hd ws # tl ws) = last ws" using assms(3) by simp
    ultimately show ?thesis using chain_cut [of h' "hd ws" "tl ws" vs l] assms(8,9) right by auto
  qed
  have e: "us @ ws @ vs = us @ hd ws # (tl ws @ vs)" using assms(3) by simp
  have "chain h' l us (hd ws)"
    using chain_cut [of h' l us "[]" "hd ws"] left assms(6,7) by auto
  then show ?thesis using mid by (simp only: e chain_split)
qed


lemma list_add_priv_reaches:
  assumes "rep h A" and "A l = Some (us @ vs)" and "unused A new" and "is_node h new"
  shows "reaches (list_add_priv new (last (l # us)) (hd (vs @ [l])) h) h (A(l \<mapsto> us @ new # vs))"
proof -
  let ?p = "last (l # us)" and ?n = "hd (vs @ [l])"
  let ?h = "h\<lparr>ln_next := (ln_next h)(new \<mapsto> ?n, ?p \<mapsto> new), ln_prev := (ln_prev h)(?n \<mapsto> new, new \<mapsto> ?p)\<rparr>"
  note pl = place_nodes [OF assms(1,2)]
  have d: "distinct (l # us @ vs)" using apart_distinct [OF rep_apart [OF assms(1)] assms(2)] .
  have new: "new \<notin> set (l # us @ vs)" using assms(2,3) unfolding unused_def by blast
  have pin: "?p \<in> set (l # us @ vs)" by (cases us rule: rev_cases) auto
  have nin: "?n \<in> set (l # us @ vs)" by (cases vs) auto
  have run: "list_add_priv new ?p ?n h = Inr ?h" using pl(1,2) assms(4) by (auto simp: list_add_priv_def is_node_def)
  have "chain ?h l (us @ [new] @ vs) l"
    by (rule chain_insert [OF rep_chain [OF assms(1,2)] d]) (use new pin nin in auto)
  moreover have "distinct (l # us @ new # vs)" using d new by auto
  ultimately have "rep ?h (A(l \<mapsto> us @ new # vs))"
    using assms(3) pin nin by (intro rep_update [OF assms(1,2)]) auto
  then show ?thesis using run by (auto intro!: reachesI simp: is_node_def)
qed

lemma INIT_LIST_HEAD_reaches:
  assumes "rep h A" and "unused A p" and "is_node h p"
  shows "reaches (INIT_LIST_HEAD p h) h (A(p \<mapsto> []))"
proof -
  let ?h = "h\<lparr>ln_next := (ln_next h)(p \<mapsto> p), ln_prev := (ln_prev h)(p \<mapsto> p)\<rparr>"
  have "INIT_LIST_HEAD p h = Inr ?h" using assms(3) by (auto simp: INIT_LIST_HEAD_def is_node_def)
  moreover have "rep ?h (A(p \<mapsto> []))" by (rule rep_new [OF assms(1,2)]) simp_all
  ultimately show ?thesis by (auto intro!: reachesI simp: is_node_def)
qed

text \<open>Closing the gap that is left when the nodes \<open>ws\<close> are taken out.\<close>

lemma chain_remove:
  assumes "chain h l (us @ ws @ vs) l" and "distinct (l # us @ ws @ vs)"
    and "ln_next h' (last (l # us)) = Some (hd (vs @ [l]))" and "ln_prev h' (hd (vs @ [l])) = Some (last (l # us))"
    and "\<And>p. p \<noteq> last (l # us) \<Longrightarrow> ln_next h' p = ln_next h p"
    and "\<And>p. p \<noteq> hd (vs @ [l]) \<Longrightarrow> ln_prev h' p = ln_prev h p"
  shows "chain h' l (us @ vs) l"
proof -
  have d: "distinct (l # us @ vs)" using assms(2) by auto
  note ap = place_apart [OF d]
  have "chain h' l (butlast us) (last us)" if "us \<noteq> []"
  proof -
    have "chain h' l (butlast us) (last us) \<longleftrightarrow> chain h l (butlast us) (last us)"
      using ap(1) [OF that] ap(2) that last_in_set [OF that]
      by (intro chain_cong; intro assms(5,6)) (auto dest: in_set_butlastD)
    then show ?thesis using assms(1) that chain_cut by blast
  qed
  moreover have "chain h' (hd vs) (tl vs) l" if "vs \<noteq> []"
  proof -
    have "chain h' (hd vs) (tl vs) l \<longleftrightarrow> chain h (hd vs) (tl vs) l"
      using ap(3) ap(4) [OF that] that by (intro chain_cong; intro assms(5,6)) (cases vs; auto)+
    then show ?thesis using assms(1) that chain_cut [of h l "us @ ws" vs l] by simp
  qed
  ultimately show ?thesis using assms(3,4) by (subst chain_cut) auto
qed

lemma rep_remove:
  assumes "rep h A" and "A l = Some (us @ ws @ vs)"
    and "ln_next h' (last (l # us)) = Some (hd (vs @ [l]))" and "ln_prev h' (hd (vs @ [l])) = Some (last (l # us))"
    and "\<And>p. p \<noteq> last (l # us) \<Longrightarrow> ln_next h' p = ln_next h p"
    and "\<And>p. p \<noteq> hd (vs @ [l]) \<Longrightarrow> ln_prev h' p = ln_prev h p"
  shows "rep h' (A(l \<mapsto> us @ vs))"
proof (rule rep_update [OF assms(1,2)])
  have d: "distinct (l # us @ ws @ vs)" using apart_distinct [OF rep_apart [OF assms(1)] assms(2)] .
  show "chain h' l (us @ vs) l" by (rule chain_remove [OF rep_chain [OF assms(1,2)] d assms(3-6)])
  show "distinct (l # us @ vs)" using d by auto
  have "last (l # us) \<in> set (l # us @ ws @ vs)" by (cases us rule: rev_cases) auto
  moreover have "hd (vs @ [l]) \<in> set (l # us @ ws @ vs)" by (cases vs) auto
  ultimately show "ln_next h' p = ln_next h p \<and> ln_prev h' p = ln_prev h p" if "p \<notin> set (l # us @ ws @ vs)" for p
    using that assms(5,6) by metis
qed auto

lemma unlink_reaches:
  assumes "rep h A" and "A l = Some (us @ e # vs)"
  shows "reaches (unlink e h) h (A(l \<mapsto> us @ vs))"
proof -
  let ?p = "last (l # us)" and ?n = "hd (vs @ [l])"
  let ?h = "h\<lparr>ln_prev := (ln_prev h)(?n \<mapsto> ?p), ln_next := (ln_next h)(?p \<mapsto> ?n)\<rparr>"
  have l1: "ln_prev h e = Some ?p" "is_node h ?p" using place_nodes [OF assms(1), of l us "e # vs"] assms(2) by auto
  have l2: "ln_next h e = Some ?n" "is_node h ?n" using place_nodes [OF assms(1), of l "us @ [e]" vs] assms(2) by auto
  have run: "unlink e h = Inr ?h" using l1 l2 by (auto simp: unlink_def get_prev_def get_next_def list_del_priv_def is_node_def)
  have "rep ?h (A(l \<mapsto> us @ vs))" by (rule rep_remove [OF assms(1), of l us "[e]"]) (use assms(2) in auto)
  then show ?thesis using run by (auto intro!: reachesI simp: is_node_def)
qed


lemma list_add_reaches:
  assumes "rep h A" and "A l = Some (us @ vs)" and "unused A new" and "is_node h new" and "at = last (l # us)"
  shows "reaches (list_add new at h) h (A(l \<mapsto> us @ new # vs))"
  using list_add_priv_reaches [OF assms(1-4)] place_nodes [OF assms(1,2)] assms(5)
  by (simp add: list_add_def get_next_def)

lemma list_add_tail_reaches:
  assumes "rep h A" and "A l = Some (us @ vs)" and "unused A new" and "is_node h new" and "at = hd (vs @ [l])"
  shows "reaches (list_add_tail new at h) h (A(l \<mapsto> us @ new # vs))"
  using list_add_priv_reaches [OF assms(1-4)] place_nodes [OF assms(1,2)] assms(5)
  by (simp add: list_add_tail_def get_prev_def)

lemma unused_removed:
  assumes "rep h A" and "A l = Some (us @ e # vs)"
  shows "unused (A(l \<mapsto> us @ vs)) e"
  using apart_distinct [OF rep_apart [OF assms(1)] assms(2)] by (intro unused_cut [OF assms]) auto

lemma poison_keeps:
  assumes "rep h A" and "unused A e" and "is_node h e"
  shows "reaches (bindE (set_next e LIST_POISON1 h) (set_prev e LIST_POISON2)) h A"
proof -
  let ?h = "h\<lparr>ln_next := (ln_next h)(e \<mapsto> LIST_POISON1), ln_prev := (ln_prev h)(e \<mapsto> LIST_POISON2)\<rparr>"
  have other: "e \<notin> set (m # zs)" if "A m = Some zs" for m zs using assms(2) that unfolding unused_def by blast
  have "chain ?h m zs m" if "A m = Some zs" for m zs
    by (rule chain_cong [THEN iffD2, OF _ _ rep_chain [OF assms(1) that]]) (use other [OF that] in auto)
  then have "rep ?h A" using rep_apart [OF assms(1)] by (simp add: rep_def)
  moreover have "bindE (set_next e LIST_POISON1 h) (set_prev e LIST_POISON2) = Inr ?h" using assms(3) by (auto simp: is_node_def)
  ultimately show ?thesis by (auto intro!: reachesI simp: is_node_def)
qed

lemma list_del_reaches:
  assumes "rep h A" and "A l = Some (us @ e # vs)"
  shows "reaches (list_del e h) h (A(l \<mapsto> us @ vs))"
  unfolding list_del_def reaches_def
  using unlink_reaches [OF assms] poison_keeps [OF _ unused_removed [OF assms]] rep_nodes [OF assms, of e]
  unfolding reaches_def by fastforce

lemma list_del_init_reaches:
  assumes "rep h A" and "A l = Some (us @ e # vs)"
  shows "reaches (list_del_init e h) h (A(l \<mapsto> us @ vs, e \<mapsto> []))"
  unfolding list_del_init_def reaches_def
  using unlink_reaches [OF assms] INIT_LIST_HEAD_reaches [OF _ unused_removed [OF assms]] rep_nodes [OF assms, of e]
  unfolding reaches_def by fastforce

lemma list_move_reaches:
  assumes "rep h A" and "A l = Some (us @ e # vs)" and "(A(l \<mapsto> us @ vs)) m = Some (us' @ vs')" and "at = last (m # us')"
  shows "reaches (list_move e at h) h (A(l \<mapsto> us @ vs, m \<mapsto> us' @ e # vs'))"
  unfolding list_move_def reaches_def
  using unlink_reaches [OF assms(1,2)] list_add_reaches [OF _ assms(3) unused_removed [OF assms(1,2)] _ assms(4)]
    rep_nodes [OF assms(1,2), of e]
  unfolding reaches_def by fastforce

lemma list_move_tail_reaches:
  assumes "rep h A" and "A l = Some (us @ e # vs)" and "(A(l \<mapsto> us @ vs)) m = Some (us' @ vs')" and "at = hd (vs' @ [m])"
  shows "reaches (list_move_tail e at h) h (A(l \<mapsto> us @ vs, m \<mapsto> us' @ e # vs'))"
  unfolding list_move_tail_def reaches_def
  using unlink_reaches [OF assms(1,2)] list_add_tail_reaches [OF _ assms(3) unused_removed [OF assms(1,2)] _ assms(4)]
    rep_nodes [OF assms(1,2), of e]
  unfolding reaches_def by fastforce

lemma list_del_range_reaches:
  assumes "rep h A" and "A l = Some (us @ ws @ vs)" and "ws \<noteq> []"
  shows "reaches (list_del_range (hd ws) (last ws) h) h (A(l \<mapsto> us @ vs))"
proof -
  let ?p = "last (l # us)" and ?n = "hd (vs @ [l])"
  let ?h = "h\<lparr>ln_next := (ln_next h)(?p \<mapsto> ?n), ln_prev := (ln_prev h)(?n \<mapsto> ?p)\<rparr>"
  have b: "ln_prev h (hd ws) = Some ?p" "is_node h ?p"
    using place_nodes [OF assms(1), of l us "ws @ vs"] assms(2,3) by auto
  have e: "ln_next h (last ws) = Some ?n" "is_node h ?n"
    using place_nodes [OF assms(1), of l "us @ ws" vs] assms(2,3) by auto
  have d: "distinct (l # us @ ws @ vs)" using apart_distinct [OF rep_apart [OF assms(1)] assms(2)] .
  have "last ws \<noteq> ?p" using d last_in_set [OF assms(3)] by (cases us rule: rev_cases) auto
  then have run: "list_del_range (hd ws) (last ws) h = Inr ?h"
    using b e by (auto simp: list_del_range_def get_prev_def get_next_def is_node_def)
  have "rep ?h (A(l \<mapsto> us @ vs))" by (rule rep_remove [OF assms(1,2)]) auto
  then show ?thesis using run by (auto intro!: reachesI simp: is_node_def)
qed

lemma list_empty_iff: "rep h A \<Longrightarrow> A l = Some xs \<Longrightarrow> list_empty l h = Inr (xs = [])"
  using rep_chain apart_distinct [OF rep_apart] by (cases xs) (fastforce simp: list_empty_def get_next_def)+

lemma list_empty_careful_iff: "rep h A \<Longrightarrow> A l = Some xs \<Longrightarrow> list_empty_careful l h = Inr (xs = [])"
proof -
  assume a: "rep h A" "A l = Some xs"
  have "ln_next h l = Some (hd (xs @ [l]))" using place_nodes(3) [OF a(1), of l "[]" xs] a(2) by simp
  moreover have "ln_prev h l = Some (last (l # xs))" using place_nodes(4) [OF a(1), of l xs "[]"] a(2) by simp
  moreover have "hd (xs @ [l]) = l \<longleftrightarrow> xs = []" using apart_distinct [OF rep_apart [OF a(1)] a(2)] by (cases xs) auto
  ultimately show "list_empty_careful l h = Inr (xs = [])" by (simp add: list_empty_careful_def get_next_def get_prev_def)
qed

lemma list_is_last_iff:
  "rep h A \<Longrightarrow> A l = Some (us @ e # vs) \<Longrightarrow> list_is_last e l h = Inr (vs = [])"
proof -
  assume a: "rep h A" "A l = Some (us @ e # vs)"
  have "ln_next h e = Some (hd (vs @ [l]))" using place_nodes(3) [OF a(1), of l "us @ [e]" vs] a(2) by simp
  moreover have "hd (vs @ [l]) = l \<longleftrightarrow> vs = []" using apart_distinct [OF rep_apart [OF a(1)] a(2)] by (cases vs) auto
  ultimately show "list_is_last e l h = Inr (vs = [])" by (simp add: list_is_last_def get_next_def)
qed

lemma list_splice_priv_reaches:
  assumes "rep h A" and "A l = Some xs" and "xs \<noteq> []" and "l \<noteq> m" and "A m = Some (us @ vs)" and "at = last (m # us)"
  shows "reaches (list_splice_priv l at h) h (A(l := None, m \<mapsto> us @ xs @ vs))"
proof -
  let ?n = "hd (vs @ [m])"
  let ?h = "h\<lparr>ln_prev := (ln_prev h)(hd xs \<mapsto> at, ?n \<mapsto> last xs), ln_next := (ln_next h)(at \<mapsto> hd xs, last xs \<mapsto> ?n)\<rparr>"
  note pl = place_nodes [OF assms(1,5), folded assms(6)]
  have first: "ln_next h l = Some (hd xs)" "is_node h (hd xs)"
    using place_nodes [OF assms(1), of l "[]" xs] assms(2,3) by auto
  have final: "ln_prev h l = Some (last xs)" "is_node h (last xs)"
    using place_nodes [OF assms(1), of l xs "[]"] assms(2,3) by auto
  have apart: "set (l # xs) \<inter> set (m # us @ vs) = {}"
    using apart_disjoint [OF rep_apart [OF assms(1)] assms(2,5,4)] by blast
  have d: "distinct (m # us @ vs)" "distinct (l # xs)"
    using apart_distinct [OF rep_apart [OF assms(1)] assms(5)] apart_distinct [OF rep_apart [OF assms(1)] assms(2)] by blast+
  have at: "at \<in> set (m # us @ vs)" "?n \<in> set (m # us @ vs)"
    using assms(6) by (cases us rule: rev_cases, auto) (cases vs, auto)
  have ends: "hd xs \<in> set xs" "last xs \<in> set xs" using assms(3) by auto
  have run: "list_splice_priv l at h = Inr ?h"
    using first final pl by (auto simp: list_splice_priv_def get_prev_def get_next_def is_node_def)
  have inner: "xs = [hd xs] \<or> chain ?h (hd xs) (butlast (tl xs)) (last xs)"
  proof (cases "tl xs = []")
    case False
    have c: "chain h (hd xs) (butlast (tl xs)) (last xs)"
      using rep_chain [OF assms(1,2)] chain_cut [of h "hd xs" "tl xs" "[]" l] assms(3) False
      by (cases xs) (auto simp: last_tl)
    have dt: "last xs \<notin> set (hd xs # butlast (tl xs))" "hd xs \<notin> set (butlast (tl xs) @ [last xs])"
    proof -
      obtain x ys y where x: "xs = x # ys @ [y]" using assms(3) False by (cases xs; cases "tl xs" rule: rev_cases) auto
      then show "last xs \<notin> set (hd xs # butlast (tl xs))" "hd xs \<notin> set (butlast (tl xs) @ [last xs])" using d(2) by auto
    qed
    have sub: "set (hd xs # butlast (tl xs)) \<subseteq> set xs" "set (butlast (tl xs) @ [last xs]) \<subseteq> set xs"
      using assms(3) by (cases xs; auto dest: in_set_butlastD)+
    have "p \<noteq> at \<and> p \<noteq> ?n" if "p \<in> set xs" for p using at apart that by auto
    then have "chain ?h (hd xs) (butlast (tl xs)) (last xs)"
      by (intro chain_cong [THEN iffD2, OF _ _ c]) (use dt sub in \<open>auto simp del: set_append\<close>)
    then show ?thesis by blast
  qed (use assms(3) in \<open>cases xs; auto\<close>)
  have "chain ?h m (us @ xs @ vs) m"
    by (rule chain_insert [OF rep_chain [OF assms(1,5)] d(1) assms(3) _ inner]) (use apart at ends assms(6) in auto)
  moreover have "distinct (m # us @ xs @ vs)" using d apart by auto
  moreover have "unused (A(l := None)) p" if "p \<in> set xs" for p
    using unused_drop [OF assms(1,2)] that by simp
  moreover have "rep h (A(l := None))" by (rule rep_drop [OF assms(1)])
  moreover have "(A(l := None)) m = Some (us @ vs)" using assms(4,5) by simp
  ultimately have "rep ?h (A(l := None, m \<mapsto> us @ xs @ vs))"
    using at ends by (intro rep_update [of h "A(l := None)"]) auto
  then show ?thesis using run by (auto intro!: reachesI simp: is_node_def)
qed


lemma list_splice_reaches:
  assumes "rep h A" and "A l = Some xs" and "l \<noteq> m" and "A m = Some (us @ vs)" and "at = last (m # us)"
  shows "reaches (list_splice l at h) h (A(l := None, m \<mapsto> us @ xs @ vs))"
proof (cases "xs = []")
  case True
  have "rep h (A(l := None, m \<mapsto> us @ xs @ vs))" using rep_drop [OF assms(1)] assms(3,4) True by (simp add: fun_upd_idem)
  then show ?thesis using list_empty_iff [OF assms(1,2)] True by (simp add: list_splice_def reaches_def)
next
  case False
  then show ?thesis using list_splice_priv_reaches [OF assms(1,2) _ assms(3-5)] list_empty_iff [OF assms(1,2)]
    by (simp add: list_splice_def)
qed

lemma list_splice_init_reaches:
  assumes "rep h A" and "A l = Some xs" and "l \<noteq> m" and "A m = Some (us @ vs)" and "at = last (m # us)"
  shows "reaches (list_splice_init l at h) h (A(l \<mapsto> [], m \<mapsto> us @ xs @ vs))"
proof (cases "xs = []")
  case True
  have "A(l \<mapsto> [], m \<mapsto> us @ xs @ vs) = A" using assms(2-4) True by (auto simp: fun_eq_iff)
  then show ?thesis using list_empty_iff [OF assms(1,2)] True assms(1) by (simp add: list_splice_init_def reaches_def)
next
  case False
  let ?B = "A(l := None, m \<mapsto> us @ xs @ vs)"
  have "unused ?B l"
  proof -
    have "unused (A(l := None)) l" by (rule unused_drop [OF assms(1,2)]) simp
    moreover have "l \<notin> set xs" using apart_distinct [OF rep_apart [OF assms(1)] assms(2)] by simp
    ultimately show ?thesis using assms(3,4) unfolding unused_def by (auto split: if_splits)
  qed
  moreover have "?B(l \<mapsto> []) = A(l \<mapsto> [], m \<mapsto> us @ xs @ vs)" using assms(3) by auto
  ultimately show ?thesis
    using list_splice_priv_reaches [OF assms(1,2) False assms(3-5)] list_empty_iff [OF assms(1,2)] False
      INIT_LIST_HEAD_reaches [of _ ?B l] rep_nodes [OF assms(1,2), of l]
    unfolding list_splice_init_def reaches_def by fastforce
qed

lemma list_replace_reaches:
  assumes "rep h A" and "A l = Some (us @ e # vs)" and "unused A new" and "is_node h new"
  shows "reaches (list_replace e new h) h (A(l \<mapsto> us @ new # vs))"
proof -
  let ?p = "last (l # us)" and ?n = "hd (vs @ [l])"
  let ?h = "h\<lparr>ln_next := (ln_next h)(new \<mapsto> ?n, ?p \<mapsto> new), ln_prev := (ln_prev h)(?n \<mapsto> new, new \<mapsto> ?p)\<rparr>"
  have l1: "ln_prev h e = Some ?p" "is_node h ?p" using place_nodes [OF assms(1), of l us "e # vs"] assms(2) by auto
  have l2: "ln_next h e = Some ?n" "is_node h ?n" using place_nodes [OF assms(1), of l "us @ [e]" vs] assms(2) by auto
  have d: "distinct (l # us @ e # vs)" using apart_distinct [OF rep_apart [OF assms(1)] assms(2)] .
  have new: "new \<notin> set (l # us @ e # vs)" using assms(2,3) unfolding unused_def by blast
  have at: "?p \<in> set (l # us)" "?n \<in> set (vs @ [l])" by (cases us rule: rev_cases; cases vs; simp)+
  have "?n \<noteq> e" using d at by (cases vs) auto
  then have run: "list_replace e new h = Inr ?h"
    using l1 l2 assms(4) new at by (auto simp: list_replace_def get_prev_def get_next_def is_node_def)
  have mid: "rep (h\<lparr>ln_prev := (ln_prev h)(?n \<mapsto> ?p), ln_next := (ln_next h)(?p \<mapsto> ?n)\<rparr>) (A(l \<mapsto> us @ vs))"
    (is "rep ?h1 _") by (rule rep_remove [OF assms(1), of l us "[e]"]) (use assms(2) in auto)
  have "chain ?h l (us @ [new] @ vs) l"
    by (rule chain_insert [OF rep_chain [OF mid, of l "us @ vs"]]) (use d new at in auto)
  moreover have "distinct (l # us @ new # vs)" using d new by auto
  ultimately have "rep ?h (A(l \<mapsto> us @ new # vs))"
    using assms(3) at by (intro rep_update [OF assms(1,2)]) auto
  then show ?thesis using run by (auto intro!: reachesI simp: is_node_def)
qed

section \<open>Sequences of operations\<close>

datatype list_op =
    Init nat | Add nat nat | Add_tail nat nat | Del nat | Del_range nat nat | Del_init nat | Replace nat nat |
    Move nat nat | Move_tail nat nat | Splice nat nat | Splice_init nat nat

fun run_op :: "list_op \<Rightarrow> links \<Rightarrow> fault + links" where
  "run_op (Init p) = INIT_LIST_HEAD p"
| "run_op (Add new at) = list_add new at"
| "run_op (Add_tail new at) = list_add_tail new at"
| "run_op (Del e) = list_del e"
| "run_op (Del_range b e) = list_del_range b e"
| "run_op (Del_init e) = list_del_init e"
| "run_op (Replace old new) = list_replace old new"
| "run_op (Move e at) = list_move e at"
| "run_op (Move_tail e at) = list_move_tail e at"
| "run_op (Splice l at) = list_splice l at"
| "run_op (Splice_init l at) = list_splice_init l at"

text \<open>The node an operation takes into a list.\<close>

fun new_nodes :: "list_op \<Rightarrow> nat set" where
  "new_nodes (Init p) = {p}"
| "new_nodes (Add new at) = {new}"
| "new_nodes (Add_tail new at) = {new}"
| "new_nodes (Replace old new) = {new}"
| "new_nodes op = {}"

text \<open>
  What the operations mean for sequences.  A place is given by the nodes before and behind it; an
  operation names it by the node before (\<open>list_add\<close>, the joins) or behind (\<open>list_add_tail\<close>).
\<close>

inductive list_step :: "list_op \<Rightarrow> lists \<Rightarrow> lists \<Rightarrow> bool" where
  step_init: "unused A p \<Longrightarrow> list_step (Init p) A (A(p \<mapsto> []))"
| step_add: "A l = Some (us @ vs) \<Longrightarrow> unused A new \<Longrightarrow> at = last (l # us) \<Longrightarrow>
    list_step (Add new at) A (A(l \<mapsto> us @ new # vs))"
| step_add_tail: "A l = Some (us @ vs) \<Longrightarrow> unused A new \<Longrightarrow> at = hd (vs @ [l]) \<Longrightarrow>
    list_step (Add_tail new at) A (A(l \<mapsto> us @ new # vs))"
| step_del: "A l = Some (us @ e # vs) \<Longrightarrow> list_step (Del e) A (A(l \<mapsto> us @ vs))"
| step_del_range: "A l = Some (us @ ws @ vs) \<Longrightarrow> ws \<noteq> [] \<Longrightarrow>
    list_step (Del_range (hd ws) (last ws)) A (A(l \<mapsto> us @ vs))"
| step_del_init: "A l = Some (us @ e # vs) \<Longrightarrow> list_step (Del_init e) A (A(l \<mapsto> us @ vs, e \<mapsto> []))"
| step_replace: "A l = Some (us @ e # vs) \<Longrightarrow> unused A new \<Longrightarrow> list_step (Replace e new) A (A(l \<mapsto> us @ new # vs))"
| step_move: "A l = Some (us @ e # vs) \<Longrightarrow> (A(l \<mapsto> us @ vs)) m = Some (us' @ vs') \<Longrightarrow> at = last (m # us') \<Longrightarrow>
    list_step (Move e at) A (A(l \<mapsto> us @ vs, m \<mapsto> us' @ e # vs'))"
| step_move_tail: "A l = Some (us @ e # vs) \<Longrightarrow> (A(l \<mapsto> us @ vs)) m = Some (us' @ vs') \<Longrightarrow> at = hd (vs' @ [m]) \<Longrightarrow>
    list_step (Move_tail e at) A (A(l \<mapsto> us @ vs, m \<mapsto> us' @ e # vs'))"
| step_splice: "A l = Some xs \<Longrightarrow> l \<noteq> m \<Longrightarrow> A m = Some (us @ vs) \<Longrightarrow> at = last (m # us) \<Longrightarrow>
    list_step (Splice l at) A (A(l := None, m \<mapsto> us @ xs @ vs))"
| step_splice_init: "A l = Some xs \<Longrightarrow> l \<noteq> m \<Longrightarrow> A m = Some (us @ vs) \<Longrightarrow> at = last (m # us) \<Longrightarrow>
    list_step (Splice_init l at) A (A(l \<mapsto> [], m \<mapsto> us @ xs @ vs))"

inductive list_steps :: "list_op list \<Rightarrow> lists \<Rightarrow> lists \<Rightarrow> bool" where
  steps_nil: "list_steps [] A A"
| steps_cons: "list_step op A B \<Longrightarrow> list_steps ops B C \<Longrightarrow> list_steps (op # ops) A C"

lemmas reaches_ops = INIT_LIST_HEAD_reaches list_add_reaches list_add_tail_reaches list_del_reaches
  list_del_range_reaches list_del_init_reaches list_replace_reaches list_move_reaches list_move_tail_reaches
  list_splice_reaches list_splice_init_reaches

lemma run_op_reaches:
  assumes "list_step op A B" and "rep h A" and "\<And>p. p \<in> new_nodes op \<Longrightarrow> is_node h p"
  shows "reaches (run_op op h) h B"
  using assms by (induction rule: list_step.induct) (simp_all add: reaches_ops)

lemma run_ops_reach:
  assumes "list_steps ops A B" and "rep h A" and "\<forall>op \<in> set ops. \<forall>p \<in> new_nodes op. is_node h p"
  shows "\<exists>h'. fold_e run_op ops h = Inr h' \<and> rep h' B"
  using assms
proof (induction arbitrary: h rule: list_steps.induct)
  case (steps_cons op A B ops C)
  obtain h1 where h1: "run_op op h = Inr h1" "rep h1 B" "\<And>p. is_node h p \<Longrightarrow> is_node h1 p"
    using run_op_reaches [OF steps_cons(1,4)] steps_cons(5) by (auto elim!: reachesE)
  then show ?case using steps_cons.IH [OF h1(2)] steps_cons(5) by simp
qed simp

text \<open>C27: The doubly linked circular lists of list.h implement sequences: from any well-formed set of
  lists, every sequence of operations that is meaningful for sequences (nodes that are added are not in
  a list, nodes that are removed are) runs without touching anything that is not a node and leaves the
  well-formed set of lists that the sequences say.\<close>

theorem list_ops_refine:
  assumes "list_steps ops A B" and "rep h A" and "\<forall>op \<in> set ops. \<forall>p \<in> new_nodes op. is_node h p"
  shows "\<exists>h'. fold_e run_op ops h = Inr h' \<and> rep h' B"
  by (rule run_ops_reach [OF assms])

text \<open>Two lists of which one is moved to the end of the other: a node is added, the lists are joined.\<close>

definition empty_links :: links where
  "empty_links = \<lparr>ln_next = (\<lambda>p. if p < 8 then Some p else None), ln_prev = (\<lambda>p. if p < 8 then Some p else None)\<rparr>"

theorem list_ops_refine_witness:
  "\<exists>h B. fold_e run_op [Init 1, Init 2, Add_tail 3 1, Add_tail 4 1, Move 3 2, Splice_init 2 4] empty_links = Inr h \<and>
     rep h B \<and> B 1 = Some [4, 3] \<and> B 2 = Some []"
proof -
  let ?ops = "[Init 1, Init 2, Add_tail 3 1, Add_tail 4 1, Move 3 2, Splice_init 2 4]"
  let ?A = "Map.empty :: lists"
  let ?B = "[1 \<mapsto> [], 2 \<mapsto> [], 1 \<mapsto> [3], 1 \<mapsto> [3, 4], 1 \<mapsto> [4], 2 \<mapsto> [3], 2 \<mapsto> [], 1 \<mapsto> [4, 3]] :: lists"
  have "list_steps ?ops ?A ?B"
    apply (rule steps_cons, rule step_init, simp add: unused_def)
    apply (rule steps_cons, rule step_init, simp add: unused_def)
    apply (rule steps_cons, rule step_add_tail [of _ 1 "[]" "[]"], simp, simp add: unused_def, simp)
    apply (rule steps_cons, rule step_add_tail [of _ 1 "[3]" "[]"], simp, simp add: unused_def, simp)
    apply (rule steps_cons, rule step_move [of _ 1 "[]" 3 "[4]" 2 "[]" "[]"], simp, simp, simp)
    apply (rule steps_cons, rule step_splice_init [of _ 2 "[3]" 1 "[4]" "[]"], simp, simp, simp, simp)
    apply (simp add: steps_nil)
    done
  moreover have "rep empty_links ?A" by (simp add: rep_def apart_def)
  ultimately obtain h where "fold_e run_op ?ops empty_links = Inr h" "rep h ?B"
    using list_ops_refine [of ?ops ?A ?B empty_links] by (auto simp: is_node_def empty_links_def)
  then show ?thesis by fastforce
qed


section \<open>Walks\<close>

text \<open>A loop whose body leaves the links alone works through the sequence.\<close>

lemma for_each_from_fold:
  assumes "rep h A" and "A l = Some (us @ vs)" and "length vs < n"
    and "\<And>p s. p \<in> set vs \<Longrightarrow> f p (s, h) = map_sum id (\<lambda>s'. (s', h)) (g p s)"
  shows "for_each_from n l f (hd (vs @ [l])) (s, h) = map_sum id (\<lambda>s'. (s', h)) (fold_e g vs s)"
  using assms(2-4)
proof (induction vs arbitrary: us s n)
  case Nil
  then show ?case by (cases n) auto
next
  case (Cons v vs)
  obtain k where n: "n = Suc k" using Cons.prems(2) by (cases n) auto
  have "v \<noteq> l" using apart_distinct [OF rep_apart [OF assms(1)] Cons.prems(1)] by auto
  moreover have "ln_next h v = Some (hd (vs @ [l]))"
    using place_nodes(3) [OF assms(1), of l "us @ [v]" vs] Cons.prems(1) by simp
  ultimately show ?case
    using Cons.IH [of "us @ [v]" k] Cons.prems n by (cases "g v s") (auto simp: get_next_def)
qed

lemma for_each_entry_fold:
  assumes "rep h A" and "A l = Some xs"
    and "\<And>p s. p \<in> set xs \<Longrightarrow> f p (s, h) = map_sum id (\<lambda>s'. (s', h)) (g p s)"
  shows "list_for_each_entry (Suc (length xs)) l f (s, h) = map_sum id (\<lambda>s'. (s', h)) (fold_e g xs s)"
  using for_each_from_fold [OF assms(1), of l "[]" xs "Suc (length xs)" f g s] place_nodes(3) [OF assms(1), of l "[]" xs] assms(2,3)
  by (simp add: list_for_each_entry_def get_next_def)

text \<open>The loops that empty a list: every node is taken out and handed on.\<close>

definition take_out :: "nat \<Rightarrow> nat list \<times> links \<Rightarrow> fault + nat list \<times> links" where
  "take_out p st = bindE (list_del_init p (snd st)) (\<lambda>h. Inr (fst st @ [p], h))"

definition drain :: "nat \<Rightarrow> nat \<Rightarrow> links \<Rightarrow> fault + nat list \<times> links" where
  "drain n head h = list_for_each_entry_safe n head take_out ([], h)"

lemma for_each_safe_from_drains:
  assumes "rep h A" and "A l = Some vs" and "length vs < k" and "ln_next h (hd (vs @ [l])) = Some n"
  shows "\<exists>h' B. for_each_safe_from k l take_out (hd (vs @ [l])) n (out, h) = Inr (out @ vs, h') \<and> rep h' B \<and>
    B l = Some [] \<and> (\<forall>p \<in> set vs. B p = Some []) \<and> (\<forall>p. p \<notin> set (l # vs) \<longrightarrow> B p = A p)"
  using assms
proof (induction vs arbitrary: h A k n out)
  case Nil
  then show ?case by (cases k) auto
next
  case (Cons v vs)
  obtain j where k: "k = Suc j" using Cons.prems(3) by (cases k) auto
  have d: "distinct (l # v # vs)" using apart_distinct [OF rep_apart [OF Cons.prems(1)] Cons.prems(2)] .
  have n: "n = hd (vs @ [l])" using place_nodes(3) [OF Cons.prems(1), of l "[v]" vs] Cons.prems(2,4) by simp
  let ?B = "A(l \<mapsto> vs, v \<mapsto> [])"
  obtain h1 where h1: "list_del_init v h = Inr h1" "rep h1 ?B"
    using list_del_init_reaches [OF Cons.prems(1), of l "[]" v vs] Cons.prems(2) by (auto elim: reachesE)
  have l: "?B l = Some vs" using d by simp
  have "is_node h1 (hd (vs @ [l]))" by (rule rep_nodes [OF h1(2) l]) (cases vs; simp)
  then obtain n' where n': "ln_next h1 (hd (vs @ [l])) = Some n'" by (auto simp: is_node_def)
  obtain h' B where "for_each_safe_from j l take_out (hd (vs @ [l])) n' (out @ [v], h1) = Inr ((out @ [v]) @ vs, h')"
      and B: "rep h' B" "B l = Some []" "\<forall>p \<in> set vs. B p = Some []" "\<forall>p. p \<notin> set (l # vs) \<longrightarrow> B p = ?B p"
    using Cons.IH [OF h1(2) l _ n', of j "out @ [v]"] Cons.prems(3) k by auto
  then have "for_each_safe_from k l take_out (hd ((v # vs) @ [l])) n (out, h) = Inr (out @ v # vs, h')"
    using k d n' h1(1) by (simp add: n take_out_def get_next_def)
  moreover have "\<forall>p \<in> set (v # vs). B p = Some []" using B(3,4) d by simp
  moreover have "\<forall>p. p \<notin> set (l # v # vs) \<longrightarrow> B p = A p" using B(4) by simp
  ultimately show ?case using B(1,2) by blast
qed

text \<open>C28: A loop over a list that takes every node out (the loops that free a string list, the members of a
  type, the units of a set) ends, meets each node exactly once and in order although the links change under
  it, leaves the list empty and every node a list of its own, and does not disturb other lists.\<close>

theorem drain_meets_every_node:
  assumes "rep h A" and "A l = Some xs"
  shows "\<exists>h' B. drain (Suc (length xs)) l h = Inr (xs, h') \<and> rep h' B \<and> B l = Some [] \<and>
    (\<forall>p \<in> set xs. B p = Some []) \<and> (\<forall>p. p \<notin> set (l # xs) \<longrightarrow> B p = A p)"
proof -
  have n: "ln_next h l = Some (hd (xs @ [l]))" using place_nodes(3) [OF assms(1), of l "[]" xs] assms(2) by simp
  have "is_node h (hd (xs @ [l]))" by (rule rep_nodes [OF assms]) (cases xs; simp)
  then obtain m where m: "ln_next h (hd (xs @ [l])) = Some m" by (auto simp: is_node_def)
  show ?thesis
    using for_each_safe_from_drains [OF assms _ m, of "Suc (length xs)" "[]"] n m
    by (simp add: drain_def list_for_each_entry_safe_def get_next_def)
qed

theorem drain_meets_every_node_witness:
  "\<exists>h h' B. fold_e run_op [Init 1, Add_tail 3 1, Add_tail 4 1] empty_links = Inr h \<and> drain 3 1 h = Inr ([3, 4], h') \<and>
     rep h' B \<and> B 1 = Some []"
proof -
  have "list_steps [Init 1, Add_tail 3 1, Add_tail 4 1] Map.empty ([1 \<mapsto> [], 1 \<mapsto> [3], 1 \<mapsto> [3, 4]])"
    apply (rule steps_cons, rule step_init, simp add: unused_def)
    apply (rule steps_cons, rule step_add_tail [of _ 1 "[]" "[]"], simp, simp add: unused_def, simp)
    apply (rule steps_cons, rule step_add_tail [of _ 1 "[3]" "[]"], simp, simp add: unused_def, simp)
    apply (simp add: steps_nil)
    done
  then have "\<exists>h. fold_e run_op [Init 1, Add_tail 3 1, Add_tail 4 1] empty_links = Inr h \<and> rep h [1 \<mapsto> [], 1 \<mapsto> [3], 1 \<mapsto> [3, 4]]"
    by (rule run_ops_reach) (auto simp: is_node_def empty_links_def rep_def apart_def)
  then obtain h where h: "fold_e run_op [Init 1, Add_tail 3 1, Add_tail 4 1] empty_links = Inr h" "rep h [1 \<mapsto> [], 1 \<mapsto> [3], 1 \<mapsto> [3, 4]]"
    by blast
  obtain h' B where "drain (Suc (length [3, 4 :: nat])) 1 h = Inr ([3, 4], h')" "rep h' B" "B 1 = Some []"
    using drain_meets_every_node [OF h(2), of 1 "[3, 4]"] by auto
  then have "drain 3 1 h = Inr ([3, 4], h')" by (simp add: numeral_3_eq_3)
  then show ?thesis using h(1) \<open>rep h' B\<close> \<open>B 1 = Some []\<close> by blast
qed

end
