(* ===== verification/Stealer.thy ===== *)
theory Stealer
  imports Wordsize RecordsRead
begin

text \<open>
  What pahole does with a unit once it is loaded (\<open>pahole_stealer\<close> of \<open>pahole.c\<close>): the unit is counted,
  encoded or listed, or the types asked for with \<open>--class_name\<close> are looked up, validated and printed in
  one of the ways of the command line; the result tells the loader what to do next.  The encoder is a
  parameter; messages on standard error, the statistics of \<open>--ptr_table_stats\<close> and the steps that
  \<open>--show_reorg_steps\<close> and verbose reorganizing print are left out.
\<close>

datatype load_steal_kind = LSK__KEEPIT | LSK__DELETE | LSK__STOP_LOADING | LSK__ABORT

datatype stats_fmt = Stats_methods | Stats_definitions

record 'e steal_conf =
  sc_env :: class_env
  sc_print :: "nat \<Rightarrow> print_env"
  sc_opts :: class_opts
  sc_langs :: languages
  sc_enumerator :: "string option"
  sc_btf_encode :: bool
  sc_class_name :: bool
  sc_stats :: "stats_fmt option"
  sc_fmt :: "class_fmt option"
  sc_word_size :: nat
  sc_header_type :: "string option"
  sc_find_pointers :: bool
  sc_find_containers :: bool
  sc_reorganize :: bool
  sc_defined_in :: bool
  sc_first_obj_only :: bool
  sc_skip_missing :: bool
  sc_compilable :: bool
  sc_pretty :: pretty_conf
  sc_new :: "cu \<Rightarrow> 'e option"
  sc_encode :: "'e \<Rightarrow> cu \<Rightarrow> int \<times> 'e"

text \<open>\<open>sl_protos\<close> is the list \<open>class_names\<close>, \<open>sl_class_id\<close> the static variable \<open>class_id\<close>.\<close>

record 'e stealer =
  sl_run :: run
  sl_header :: "type_instance option"
  sl_protos :: "prototype list"
  sl_class_id :: nat
  sl_input :: "input option"
  sl_encoder :: "'e option"

section \<open>Printing one type\<close>

definition on_emit :: "(emit_st \<Rightarrow> fault + 'b \<times> emit_st) \<Rightarrow> run \<Rightarrow> fault + 'b \<times> run" where
  "on_emit f ru =
     bindE (f (emit_st.truncate ru)) (\<lambda>(b, st).
       Inr (b, emit_st.extend st \<lparr>ru_structs = ru_structs ru, ru_conf = ru_conf ru\<rparr>))"

definition print_in :: "nat \<Rightarrow> printer \<Rightarrow> run \<Rightarrow> fault + run" where
  "print_in u p ru =
     bindE (on_emit (\<lambda>st. bindE (run_printer u p st) (\<lambda>st1. Inr ((), st1))) ru) (\<lambda>(_, ru1). Inr ru1)"

text \<open>\<open>conf\<close> keeps the prefix and the suffix of the last type.\<close>

definition class_formatter :: "'e steal_conf \<Rightarrow> type_ref \<Rightarrow> nat \<Rightarrow> run \<Rightarrow> fault + run" where
  "class_formatter sc r i ru =
     bindE (world_cu (es_world ru) (fst r)) (\<lambda>cu. bindE (world_type (es_world ru) r) (\<lambda>t. bindE (tag__type t) (\<lambda>ty.
       let alias = (if ty_name ty = None then cu__find_first_typedef_of_type (Some cu) i else None)
       in if ty_name ty = None \<and> alias = None \<and> \<not> co_include_nested_anonymous (sc_opts sc) then Inr ru
          else
            bindE (case alias of
                     None \<Rightarrow> Inr (None, None)
                   | Some (j, tdef) \<Rightarrow> bindE (tag__type tdef) (\<lambda>td. Inr (Some ''typedef'', ty_name td))) (\<lambda>(prefix, suffix).
              let ru1 = ru\<lparr>ru_conf := (ru_conf ru)\<lparr>cf_prefix := prefix, cf_suffix := suffix\<rparr>\<rparr>;
                  pr = (\<lambda>ru. print_in (fst r) (tag__fprintf (sc_print sc (fst r)) (Some (ru_conf ru)) (tg_tag t, snd r)) ru)
              in bindE (if sc_compilable sc then
                          bindE (on_emit (type__emit_definitions (ce_fuel (sc_env sc)) (ce_heap (sc_env sc)) (sc_print sc (fst r))
                                   (fst r) (snd r)) ru1) (\<lambda>(b, ru2).
                            if b then bindE (pr ru2) (\<lambda>ru3. Inr (emit '';'' ru3)) else Inr ru2)
                        else pr ru1) (\<lambda>ru4. Inr (emit eol ru4))))))"

text \<open>
  \<open>do_reorg\<close> prints a clone, which is in no table: while it is printed it stands behind the last entry
  of the table of types, where nothing refers to it.
\<close>

definition with_clone :: "nat \<Rightarrow> tag \<Rightarrow> (nat \<Rightarrow> run \<Rightarrow> fault + run) \<Rightarrow> run \<Rightarrow> fault + run" where
  "with_clone u clone f ru =
     bindE (world_cu (es_world ru) u) (\<lambda>cu.
       let pt = cu_types_table cu; k = pt_nr_entries pt;
           more = pt\<lparr>pt_entries := take k (pt_entries pt) @ [Some clone], pt_nr_entries := k + 1, pt_allocated_entries := k + 1\<rparr>
       in bindE (f k (ru\<lparr>es_world := set_cu u (cu\<lparr>cu_types_table := more\<rparr>) (es_world ru)\<rparr>)) (\<lambda>ru1.
          bindE (world_cu (es_world ru1) u) (\<lambda>cu1.
            Inr (ru1\<lparr>es_world := set_cu u (cu1\<lparr>cu_types_table :=
                   pt\<lparr>pt_entries := take k (pt_entries (cu_types_table cu1)) @ drop k (pt_entries pt)\<rparr>\<rparr>) (es_world ru1)\<rparr>))))"

definition clone_env :: "print_env \<Rightarrow> nat \<Rightarrow> nat \<Rightarrow> print_env" where
  "clone_env env i k =
     (let same = (\<lambda>(tg, j). (tg, if j = k then i else j))
      in env\<lparr>pe_orig_id := (\<lambda>r. pe_orig_id env (same r)), pe_decl_file := (\<lambda>r. pe_decl_file env (same r)),
             pe_decl_line := (\<lambda>r. pe_decl_line env (same r))\<rparr>)"

definition plural :: "int \<Rightarrow> string" where "plural n = (if n \<noteq> 1 then ''s'' else [])"

definition do_reorg :: "'e steal_conf \<Rightarrow> type_ref \<Rightarrow> run \<Rightarrow> fault + run" where
  "do_reorg sc r ru =
     (let env = sc_env sc; pe = sc_print sc (fst r)
      in bindE (world_cu (es_world ru) (fst r)) (\<lambda>cu. bindE (get_class cu (snd r)) (\<lambda>(t, c).
         case class__clone (ce_heap env) (ce_sizeof_class env) (ce_sizeof_member env) c None of
           None \<Rightarrow> Inl (Exit 1)
         | Some clone \<Rightarrow>
             bindE (class__reorganize (ce_fuel env) (tg_tag t) cu clone) (\<lambda>clone'.
               let savings = s32 (int (ty_size c) - int (ty_size clone')); ct = t\<lparr>tg_body := Class_body clone'\<rparr>
               in bindE (with_clone (fst r) ct (\<lambda>k.
                           print_in (fst r) (tag__fprintf (clone_env pe (snd r) k) (Some (ru_conf ru)) (tg_tag t, k))) ru) (\<lambda>ru1.
                  if savings = 0 then Inr (emit eol ru1)
                  else
                    bindE (world_cu (es_world ru1) (fst r)) (\<lambda>cu1. bindE (world_type (es_world ru1) r) (\<lambda>t1.
                    bindE (tag__nr_cachelines pe (ru_conf ru) cu1 t1) (\<lambda>n1. bindE (tag__nr_cachelines pe (ru_conf ru) cu1 ct) (\<lambda>n2.
                      let cachelines = u64 (int n1 - int n2)
                      in Inr (emit (''   /* saved '' @ sdec savings @ '' byte'' @ plural savings @
                                (if cachelines \<noteq> 0 then '' and '' @ sdec cachelines @ '' cacheline'' @ plural cachelines else []) @
                                ''! */'' @ eol) ru1))))))))))"

text \<open>The first enumeration of a unit that has an enumerator.\<close>

fun enumeration_with :: "string \<Rightarrow> (nat \<times> tag) list \<Rightarrow> fault + (nat \<times> tag) option" where
  "enumeration_with nm [] = Inr None"
| "enumeration_with nm ((i, t) # ts) =
     (if \<not> tag__is_enumeration (tg_tag t) then enumeration_with nm ts
      else bindE (tag__type t) (\<lambda>ty. bindE (enumeration__find_enumerator ty nm) (\<lambda>e.
        if e \<noteq> None then Inr (Some (i, t)) else enumeration_with nm ts)))"

definition print_enumeration_with_enumerator :: "'e steal_conf \<Rightarrow> nat \<Rightarrow> string \<Rightarrow> run \<Rightarrow> fault + bool \<times> run" where
  "print_enumeration_with_enumerator sc u nm ru =
     bindE (world_cu (es_world ru) u) (\<lambda>cu. bindE (enumeration_with nm (cu__for_each_type cu)) (\<lambda>q.
       case q of
         None \<Rightarrow> Inr (False, ru)
       | Some (i, t) \<Rightarrow>
           bindE (print_in u (enumeration__fprintf (sc_print sc u) (ru_conf ru) t) ru) (\<lambda>ru1. Inr (True, emit eol ru1))))"

section \<open>The types asked for\<close>

text \<open>The member named by \<open>sizeof=\<close> or \<open>type=\<close>.\<close>

definition find_arg_member ::
  "(nat option \<Rightarrow> pretty \<Rightarrow> pretty) \<Rightarrow> type_ref \<Rightarrow> string option \<Rightarrow> world \<Rightarrow> fault + bool \<times> world" where
  "find_arg_member upd r arg w =
     (case arg of
        None \<Rightarrow> Inr (True, w)
      | Some nm \<Rightarrow>
          bindE (world_ty w r) (\<lambda>ty.
            let k = find_member_at ty nm
            in Inr (k \<noteq> None, w\<lparr>wo_pretty := (wo_pretty w)(r := upd k (wo_pretty w r))\<rparr>)))"

definition resolve_type_enum :: "'e steal_conf \<Rightarrow> nat \<Rightarrow> type_ref \<Rightarrow> prototype \<Rightarrow> world \<Rightarrow> fault + prototype \<times> world" where
  "resolve_type_enum sc u r p w =
     (case po_type_enum p of
        None \<Rightarrow> Inr (p, w)
      | Some te \<Rightarrow>
          if po_type_enum_resolved p then Inr (p, w)
          else bindE (type__find_type_enum (ce_heap (sc_env sc)) w r u te) (\<lambda>(ret, w1).
            Inr (p\<lparr>po_type_enum_resolved := ret = 0\<rparr>, w1)))"

definition resolve_filter :: "'e steal_conf \<Rightarrow> type_ref \<Rightarrow> prototype \<Rightarrow> world \<Rightarrow> fault + bool \<times> world" where
  "resolve_filter sc r p w =
     (case po_filter p of
        None \<Rightarrow> Inr (True, w)
      | Some s \<Rightarrow>
          bindE (class_member_filter__new (ce_heap (sc_env sc)) w r s) (\<lambda>(f, w1).
            Inr (f \<noteq> None, w1\<lparr>wo_pretty := (wo_pretty w1)(r := (wo_pretty w1 r)\<lparr>pr_filter := f\<rparr>)\<rparr>)))"

text \<open>\<open>Some\<close> is what the stealer returns at once; the second argument is the \<open>ret\<close> so far.\<close>

definition validate_prototype ::
  "'e steal_conf \<Rightarrow> load_steal_kind \<Rightarrow> nat \<Rightarrow> type_ref \<Rightarrow> tag \<Rightarrow> prototype \<Rightarrow> world \<Rightarrow>
    fault + load_steal_kind option \<times> prototype \<times> world" where
  "validate_prototype sc ret u r t p w =
     (if po_nr_args p \<noteq> 0 \<and> \<not> tag__is_struct (tg_tag t) then Inr (Some LSK__ABORT, p, w)
      else
        bindE (find_arg_member (\<lambda>k pr. pr\<lparr>pr_sizeof_member := k\<rparr>) r (po_size p) w) (\<lambda>(ok1, w1).
        if \<not> ok1 then Inr (Some LSK__ABORT, p, w1) else
        bindE (find_arg_member (\<lambda>k pr. pr\<lparr>pr_type_member := k\<rparr>) r (po_type p) w1) (\<lambda>(ok2, w2).
        if \<not> ok2 then Inr (Some LSK__ABORT, p, w2) else
        bindE (resolve_type_enum sc u r p w2) (\<lambda>(p1, w3).
        if po_type_enum p1 \<noteq> None \<and> \<not> po_type_enum_resolved p1 then Inr (Some ret, p1, w3) else
        bindE (resolve_filter sc r p1 w3) (\<lambda>(ok4, w4).
        Inr (if ok4 then None else Some LSK__ABORT, p1, w4))))))"

text \<open>What is shown of a type that was found.\<close>

definition show_found :: "'e steal_conf \<Rightarrow> type_ref \<Rightarrow> tag \<Rightarrow> run \<Rightarrow> fault + run" where
  "show_found sc r t ru =
     bindE (world_cu (es_world ru) (fst r)) (\<lambda>cu. bindE (struct_find_holes cu (snd r) t) (\<lambda>cu1.
       let ru1 = ru\<lparr>es_world := set_cu (fst r) cu1 (es_world ru)\<rparr>; env = sc_env sc; co = sc_opts sc
       in if sc_reorganize sc then (if tag__is_struct (tg_tag t) then do_reorg sc r ru1 else Inr ru1)
          else if sc_find_containers sc then print_containers env co (fst r) (snd r) 0 ru1
          else if sc_find_pointers sc then print_structs_with_pointer_to env co (fst r) (snd r) ru1
          else case sc_fmt sc of
                 None \<Rightarrow> Inr ru1
               | Some f \<Rightarrow> bindE (run_formatter (class_formatter sc) co f r (snd r) ru1) (\<lambda>ru2. Inr (emit eol ru2))))"

text \<open>The four ways on from an entry: it stays or leaves the list, the stealer returns, or goes to \<open>dump_it\<close>.\<close>

datatype steal_step = Stay prototype | Served | Returns load_steal_kind prototype | Dumps

definition steal_prototype ::
  "'e steal_conf \<Rightarrow> load_steal_kind \<Rightarrow> nat \<Rightarrow> prototype \<Rightarrow> 'e stealer \<Rightarrow> fault + steal_step \<times> 'e stealer" where
  "steal_prototype sc ret u p st =
     (let w = es_world (sl_run st); put_world = (\<lambda>w. st\<lparr>sl_run := (sl_run st)\<lparr>es_world := w\<rparr>\<rparr>)
      in case po_class p of
           Some r \<Rightarrow> bindE (resolve_type_enum sc u r p w) (\<lambda>(p1, w1). Inr (Stay p1, put_world w1))
         | None \<Rightarrow>
             bindE (world_cu w u) (\<lambda>cu.
             bindE (cu__find_type_by_name (Some cu) (Some (po_name p))
                      (sc_find_pointers sc \<or> sc_stats sc = Some Stats_methods)) (\<lambda>q.
               case q of
                 None \<Rightarrow> Inr (if sc_skip_missing sc then Stay p else Returns ret p, st)
               | Some (i, t) \<Rightarrow>
                   bindE (validate_prototype sc ret u (u, i) t p w) (\<lambda>(back, p1, w1).
                     let st1 = (put_world w1)\<lparr>sl_class_id := i\<rparr>
                     in case back of
                          Some k \<Rightarrow> Inr (Returns k p1, st1)
                        | None \<Rightarrow>
                            if sl_input st \<noteq> None then Inr (Stay (p1\<lparr>po_class := Some (u, i)\<rparr>), st1)
                            else if sc_defined_in sc then
                              (case cu_name cu of
                                 None \<Rightarrow> Inl Null_Deref
                               | Some nm \<Rightarrow> Inr (Dumps, st1\<lparr>sl_run := emit (nm @ eol) (sl_run st1)\<rparr>))
                            else bindE (show_found sc (u, i) t (sl_run st1)) (\<lambda>ru. Inr (Served, st1\<lparr>sl_run := ru\<rparr>))))))"

text \<open>The loop over the list; \<open>kept\<close> is what stays of the entries already seen.\<close>

datatype steal_end = Through | Return_now load_steal_kind | Goto_dump

fun steal_prototypes ::
  "'e steal_conf \<Rightarrow> load_steal_kind \<Rightarrow> nat \<Rightarrow> prototype list \<Rightarrow> prototype list \<Rightarrow> 'e stealer \<Rightarrow> fault + steal_end \<times> 'e stealer" where
  "steal_prototypes sc ret u kept [] st = Inr (Through, st\<lparr>sl_protos := kept\<rparr>)"
| "steal_prototypes sc ret u kept (p # ps) st =
     bindE (steal_prototype sc ret u p st) (\<lambda>(step, st1).
       case step of
         Stay p1 \<Rightarrow> steal_prototypes sc ret u (kept @ [p1]) ps st1
       | Served \<Rightarrow> steal_prototypes sc ret u kept ps st1
       | Returns k p1 \<Rightarrow> Inr (Return_now k, st1\<lparr>sl_protos := kept @ p1 # ps\<rparr>)
       | Dumps \<Rightarrow> Inr (Goto_dump, st1\<lparr>sl_protos := kept @ ps\<rparr>))"

text \<open>Everything is known: print the records, one prototype after the other, until one fails.\<close>

fun print_records :: "'e steal_conf \<Rightarrow> input \<Rightarrow> prototype list \<Rightarrow> 'e stealer \<Rightarrow> fault + 'e stealer" where
  "print_records sc inp [] st = Inr (st\<lparr>sl_protos := [], sl_input := Some inp\<rparr>)"
| "print_records sc inp (p # ps) st =
     bindE (prototype__stdio_fprintf_value (ce_heap (sc_env sc)) (sc_pretty sc) (ce_fuel (sc_env sc)) p
              \<lparr>os_header = sl_header st, os_in = inp, os_world = es_world (sl_run st), os_out = es_out (sl_run st)\<rparr>) (\<lambda>(n, os).
       let st1 = st\<lparr>sl_header := os_header os, sl_run := (sl_run st)\<lparr>es_world := os_world os, es_out := os_out os\<rparr>\<rparr>
       in if n < 0 then Inr (st1\<lparr>sl_protos := ps, sl_input := Some (os_in os)\<rparr>) else print_records sc (os_in os) ps st1)"

definition pahole_stealer__btf_encode :: "'e steal_conf \<Rightarrow> nat \<Rightarrow> 'e stealer \<Rightarrow> fault + load_steal_kind \<times> 'e stealer" where
  "pahole_stealer__btf_encode sc u st =
     bindE (world_cu (es_world (sl_run st)) u) (\<lambda>cu.
       case (case sl_encoder st of None \<Rightarrow> sc_new sc cu | Some e \<Rightarrow> Some e) of
         None \<Rightarrow> Inr (LSK__ABORT, st)
       | Some e \<Rightarrow>
           (case sc_encode sc e cu of
              (err, e') \<Rightarrow> Inr (if err < 0 then LSK__ABORT else LSK__DELETE, st\<lparr>sl_encoder := Some e'\<rparr>)))"

definition find_header :: "'e steal_conf \<Rightarrow> nat \<Rightarrow> 'e stealer \<Rightarrow> fault + bool \<times> 'e stealer" where
  "find_header sc u st =
     (case (sl_header st, sc_header_type sc) of
        (None, Some nm) \<Rightarrow>
          bindE (world_cu (es_world (sl_run st)) u) (\<lambda>cu. bindE (cu__find_type_by_name (Some cu) (Some nm) False) (\<lambda>q.
          bindE (type_instance__new (ce_heap (sc_env sc)) (es_world (sl_run st)) (map_option (\<lambda>(i, t). (u, i)) q)) (\<lambda>h.
            Inr (h \<noteq> None, st\<lparr>sl_header := h\<rparr>))))
      | _ \<Rightarrow> Inr (False, st))"

text \<open>All types of a unit, without \<open>--class_name\<close>.\<close>

definition list_unit :: "'e steal_conf \<Rightarrow> nat \<Rightarrow> 'e stealer \<Rightarrow> fault + load_steal_kind \<times> 'e stealer" where
  "list_unit sc u st =
     (let ru = sl_run st; env = sc_env sc; co = sc_opts sc
      in if sc_stats sc = Some Stats_methods
         then bindE (cu__account_nr_methods env co u ru) (\<lambda>ru1. Inr (LSK__DELETE, st\<lparr>sl_run := ru1\<rparr>))
         else
           bindE (if sc_word_size sc \<noteq> 0 then
                    bindE (world_cu (es_world ru) u) (\<lambda>cu. bindE (cu_fixup_word_size_iterator (ce_fuel env) (sc_word_size sc) cu) (\<lambda>rz.
                      Inr (ru\<lparr>es_world := set_cu u (rz_cu rz) (es_world ru)\<rparr>)))
                  else Inr ru) (\<lambda>ru1.
           bindE (cu__print_classes (class_formatter sc) env co (sc_fmt sc) u ru1) (\<lambda>ru2.
             Inr (if co_sort_output co \<and> sc_fmt sc = Some Fmt_class then LSK__KEEPIT else LSK__DELETE, st\<lparr>sl_run := ru2\<rparr>))))"

definition dump_it :: "'e steal_conf \<Rightarrow> load_steal_kind \<Rightarrow> load_steal_kind" where
  "dump_it sc ret = (if sc_first_obj_only sc then LSK__STOP_LOADING else ret)"

text \<open>The types asked for with \<open>--class_name\<close>.\<close>

definition steal_named :: "'e steal_conf \<Rightarrow> nat \<Rightarrow> 'e stealer \<Rightarrow> fault + load_steal_kind \<times> 'e stealer" where
  "steal_named sc u st =
     bindE (find_header sc u st) (\<lambda>(found, st1).
       let ret = (if found then LSK__KEEPIT else LSK__DELETE)
       in bindE (steal_prototypes sc ret u [] (sl_protos st1) st1) (\<lambda>(e, st2).
            case e of
              Return_now k \<Rightarrow> Inr (k, st2)
            | Goto_dump \<Rightarrow> Inr (dump_it sc ret, st2)
            | Through \<Rightarrow>
                (case sl_input st2 of
                   Some inp \<Rightarrow>
                     if sl_header st2 = None \<and> sc_header_type sc \<noteq> None then Inr (LSK__KEEPIT, st2)
                     else if \<exists>p \<in> set (sl_protos st2). po_type_enum p \<noteq> None \<and> \<not> po_type_enum_resolved p
                     then Inr (LSK__KEEPIT, st2)
                     else bindE (print_records sc inp (sl_protos st2) st2) (\<lambda>st3. Inr (LSK__STOP_LOADING, st3))
                 | None \<Rightarrow> Inr (dump_it sc (if sl_protos st2 = [] then LSK__STOP_LOADING else ret), st2))))"

definition pahole_stealer :: "'e steal_conf \<Rightarrow> nat \<Rightarrow> 'e stealer \<Rightarrow> fault + load_steal_kind \<times> 'e stealer" where
  "pahole_stealer sc u st =
     bindE (world_cu (es_world (sl_run st)) u) (\<lambda>cu.
       if \<not> cu__filter (sc_langs sc) (sc_opts sc) cu then Inr (LSK__DELETE, st)
       else
         bindE (case sc_enumerator sc of
                  None \<Rightarrow> Inr (False, sl_run st)
                | Some nm \<Rightarrow> print_enumeration_with_enumerator sc u nm (sl_run st)) (\<lambda>(printed, ru).
           let st1 = st\<lparr>sl_run := ru\<rparr>
           in if printed then Inr (LSK__DELETE, st1)
              else if sc_btf_encode sc then pahole_stealer__btf_encode sc u st1
              else if \<not> sc_class_name sc then bindE (list_unit sc u st1) (\<lambda>(ret, st2). Inr (dump_it sc ret, st2))
              else steal_named sc u st1))"

end
