(* ===== verification/StealerStops.thy ===== *)
theory StealerStops
  imports Stealer EmitOnce "HOL-Library.Sublist"
begin

text \<open>
  The types asked for: what stays pending after a unit is part of what was pending before, and loading is
  stopped exactly when nothing is pending any more.
\<close>

fun kept_name :: "steal_step \<Rightarrow> string option" where
  "kept_name (Stay p) = Some (po_name p)"
| "kept_name (Returns k p) = Some (po_name p)"
| "kept_name Served = None"
| "kept_name Dumps = None"

lemma resolve_type_enum_name: "resolve_type_enum sc u r p w = Inr (p', w') \<Longrightarrow> po_name p' = po_name p"
  by (auto simp: resolve_type_enum_def split: option.splits if_splits sum.splits)

lemma validate_prototype_ok:
  "validate_prototype sc ret u r t p w = Inr (back, p', w') \<Longrightarrow>
     po_name p' = po_name p \<and> (\<forall>k. back = Some k \<longrightarrow> k = ret \<or> k = LSK__ABORT)"
  by (auto simp: validate_prototype_def split: if_splits sum.splits dest!: resolve_type_enum_name)

lemma steal_prototype_ok:
  assumes "steal_prototype sc ret u p st = Inr (step, st')"
  shows "kept_name step = None \<or> kept_name step = Some (po_name p)" and "sl_input st' = sl_input st"
    and "step = Returns k p' \<Longrightarrow> k = ret \<or> k = LSK__ABORT" and "step = Dumps \<Longrightarrow> sc_defined_in sc"
  using assms
  by (auto simp: steal_prototype_def Let_def split: option.splits sum.splits if_splits prod.splits
      dest!: resolve_type_enum_name validate_prototype_ok)

abbreviation names :: "prototype list \<Rightarrow> string list" where "names ps \<equiv> map po_name ps"

lemma steal_prototypes_ok:
  assumes "steal_prototypes sc ret u kept ps st = Inr (e, st')"
  shows "\<exists>rest. names (sl_protos st') = names kept @ rest \<and> subseq rest (names ps) \<and> sl_input st' = sl_input st \<and>
    (\<forall>k. e = Return_now k \<longrightarrow> (k = ret \<or> k = LSK__ABORT) \<and> rest \<noteq> []) \<and> (e = Goto_dump \<longrightarrow> sc_defined_in sc)"
  using assms
proof (induction sc ret u kept ps st rule: steal_prototypes.induct)
  case (2 sc ret u kept p ps st)
  obtain step st1 where s: "steal_prototype sc ret u p st = Inr (step, st1)"
    using 2(3) by (auto split: sum.splits)
  note ok = steal_prototype_ok [OF s]
  show ?case
  proof (cases step)
    case (Stay p1)
    then have n: "po_name p1 = po_name p" using ok(1) by simp
    obtain rest where "names (sl_protos st') = names (kept @ [p1]) @ rest" "subseq rest (names ps)" "sl_input st' = sl_input st1"
        "\<forall>k. e = Return_now k \<longrightarrow> (k = ret \<or> k = LSK__ABORT) \<and> rest \<noteq> []" "e = Goto_dump \<longrightarrow> sc_defined_in sc"
      using "2.IH"(1) [OF s refl Stay] 2(3) s Stay by auto
    then show ?thesis using n ok(2) by (intro exI [of _ "po_name p # rest"]) simp
  next
    case Served
    obtain rest where "names (sl_protos st') = names kept @ rest" "subseq rest (names ps)" "sl_input st' = sl_input st1"
        "\<forall>k. e = Return_now k \<longrightarrow> (k = ret \<or> k = LSK__ABORT) \<and> rest \<noteq> []" "e = Goto_dump \<longrightarrow> sc_defined_in sc"
      using "2.IH"(2) [OF s refl Served] 2(3) s Served by auto
    then show ?thesis using ok(2) by (intro exI [of _ rest]) (auto intro: list_emb_Cons)
  next
    case (Returns k p1)
    then show ?thesis using ok 2(3) s by (intro exI [of _ "po_name p # names ps"]) auto
  next
    case Dumps
    then show ?thesis using ok 2(3) s by (intro exI [of _ "names ps"]) (auto intro: list_emb_Cons)
  qed
qed auto

lemma find_header_protos:
  "find_header sc u st = Inr (b, st') \<Longrightarrow> sl_protos st' = sl_protos st \<and> sl_input st' = sl_input st"
  by (auto simp: find_header_def split: option.splits sum.splits)

text \<open>C29: When types are asked for by name, what is pending after a unit is a subsequence of what was pending
  before it; unless something is wrong with a request, and without the options that end at the first unit
  or print only its name, the loader is told to stop exactly when nothing is pending any more, and no unit
  that was given back to the loader is kept for printing.\<close>

theorem stealer_stops_when_served:
  assumes "pahole_stealer sc u st = Inr (k, st')" and "sc_class_name sc" and "sc_enumerator sc = None"
    and "\<not> sc_btf_encode sc" and "sl_input st = None" and "\<not> sc_first_obj_only sc" and "\<not> sc_defined_in sc"
    and "world_cu (es_world (sl_run st)) u = Inr cu" and "cu__filter (sc_langs sc) (sc_opts sc) cu"
  shows "subseq (names (sl_protos st')) (names (sl_protos st)) \<and>
    (k \<noteq> LSK__ABORT \<longrightarrow> (k = LSK__STOP_LOADING \<longleftrightarrow> sl_protos st' = [])) \<and>
    (sc_header_type sc = None \<longrightarrow> k \<noteq> LSK__KEEPIT)"
proof -
  have s: "steal_named sc u st = Inr (k, st')" using assms by (simp add: pahole_stealer_def)
  obtain b st1 where h: "find_header sc u st = Inr (b, st1)" using s by (auto simp: steal_named_def split: sum.splits)
  let ?ret = "if b then LSK__KEEPIT else LSK__DELETE"
  obtain e st2 where p: "steal_prototypes sc ?ret u [] (sl_protos st1) st1 = Inr (e, st2)"
    using s h by (auto simp: steal_named_def Let_def split: sum.splits)
  note fh = find_header_protos [OF h]
  obtain rest where r: "names (sl_protos st2) = rest" "subseq rest (names (sl_protos st))" "sl_input st2 = None"
      "\<forall>k. e = Return_now k \<longrightarrow> (k = ?ret \<or> k = LSK__ABORT) \<and> rest \<noteq> []" "e \<noteq> Goto_dump"
    using steal_prototypes_ok [OF p] fh assms(5,7) by auto
  have "st' = st2 \<and> (k = LSK__ABORT \<or> (k = LSK__STOP_LOADING \<longleftrightarrow> sl_protos st2 = []) \<and> (k = LSK__KEEPIT \<longrightarrow> b))"
  proof (cases e)
    case Through
    then show ?thesis using s h p r(3) assms(6)
      by (auto simp: steal_named_def Let_def dump_it_def split: if_splits)
  next
    case (Return_now k')
    then show ?thesis using s h p r(1,4) by (auto simp: steal_named_def Let_def split: if_splits)
  qed (use r(5) in simp)
  moreover have "b \<Longrightarrow> sc_header_type sc \<noteq> None"
    using h by (auto simp: find_header_def split: option.splits)
  ultimately show ?thesis using r(1,2) by auto
qed


definition plain_opts :: class_opts where
  "plain_opts = \<lparr>co_just_unions = False, co_just_structs = False, co_just_packed_structs = False, co_show_private_classes = False,
     co_include_anonymous = False, co_include_nested_anonymous = False, co_exclude_prefix = None, co_include_prefix = None,
     co_decl_exclude_prefix = None, co_cu_exclude_prefix = None, co_nr_holes = 0, co_nr_bit_holes = 0, co_hole_size_ge = 0,
     co_end_padding = 0, co_end_padding_ge = 0, co_show_packable = False, co_with_flexible_array = False,
     co_with_embedded_flexible_array = False, co_sort_output = False, co_verbose = False, co_recursive = False,
     co_separator = CHR ''|''\<rparr>"

definition name_conf :: "unit steal_conf" where
  "name_conf =
     \<lparr>sc_env = \<lparr>ce_heap = \<lparr>avail = \<lambda>_. True, fresh = \<lambda>_. 0\<rparr>, ce_fuel = 5, ce_sizeof_class = 200, ce_sizeof_member = 100,
        ce_top_level = \<lambda>_. True, ce_decl_file = \<lambda>_. None, ce_decl_line = \<lambda>_. 0\<rparr>,
      sc_print = \<lambda>_. sample_env, sc_opts = plain_opts, sc_langs = \<lparr>lg_str = None, lg_entries = None, lg_nr_entries = 0, lg_exclude = False\<rparr>,
      sc_enumerator = None, sc_btf_encode = False, sc_class_name = True, sc_stats = None, sc_fmt = Some Fmt_class_name,
      sc_word_size = 0, sc_header_type = None, sc_find_pointers = False, sc_find_containers = False, sc_reorganize = False,
      sc_defined_in = False, sc_first_obj_only = False, sc_skip_missing = False, sc_compilable = False,
      sc_pretty = \<lparr>pc_hex_fmt = False, pc_count = 0, pc_skip = 0, pc_seek_bytes = None, pc_size_bytes = None, pc_range = None\<rparr>,
      sc_new = \<lambda>_. None, sc_encode = \<lambda>e cu. (0, e)\<rparr>"

definition wanting :: "string list \<Rightarrow> unit stealer" where
  "wanting nms =
     \<lparr>sl_run = emit_st.extend two_units \<lparr>ru_structs = \<lparr>ss_list = [], ss_tree = NIL, ss_resort = False\<rparr>, ru_conf = conf_zero\<rparr>,
      sl_header = None, sl_protos = map prototype_named nms, sl_class_id = 0, sl_input = None, sl_encoder = None\<rparr>"

lemma find_sample:
  "cu__find_type_by_name (Some (sample_cu [None, Some (empty_struct nm)])) (Some nm) False = Inr (Some (Suc 0, empty_struct nm))"
  by (simp add: cu__find_type_by_name_def cu__for_each_type_def pt_each_def sample_cu_def pt_of_def empty_struct_def tag_defs
    tag__type_def class_zero_def type_t.truncate_def name_is_def List.map_filter_def)

lemma wanting_unit:
  "world_cu (es_world (sl_run (wanting nms))) 0 = Inr (sample_cu [None, Some (empty_struct ''a'')])"
  by (simp add: wanting_def emit_st.defs two_units_def world_cu_def)

lemma show_sample:
  assumes "world_cu (es_world ru) 0 = Inr (sample_cu [None, Some (empty_struct nm)])"
  shows "\<exists>ru'. show_found name_conf (0, Suc 0) (empty_struct nm) ru = Inr ru'"
  using assms
  by (auto simp: show_found_def struct_find_holes_def empty_struct_def tag_defs upd_class_def get_class_def put_class_def
    sample_cu_inv tag__class_def name_conf_def plain_opts_def run_formatter_def world_type_def world_cu_def set_cu_def
    tag__type_def cu_type_set class_name_formatter_def class_zero_def type_t.truncate_def class__find_holes_def Let_def)

lemma wanted_run:
  "\<exists>st'. pahole_stealer name_conf 0 (wanting [''a'']) = Inr (LSK__STOP_LOADING, st')"
proof -
  let ?st = "wanting [''a'']"
  have w: "world_cu (es_world (sl_run ?st)) 0 = Inr (sample_cu [None, Some (empty_struct ''a'')])"
    by (rule wanting_unit)
  obtain ru where ru: "show_found name_conf (0, Suc 0) (empty_struct ''a'') (sl_run ?st) = Inr ru"
    using show_sample [OF w] by blast
  have p: "sl_protos ?st = [prototype_named ''a'']" "sl_input ?st = None" "sl_header ?st = None" by (simp_all add: wanting_def)
  have f: "cu__filter (sc_langs name_conf) (sc_opts name_conf) cu" for cu
    by (simp add: cu__filter_def languages__cu_filtered_def name_conf_def plain_opts_def)
  have v: "validate_prototype name_conf k 0 (0, Suc 0) (empty_struct nm) (prototype_named nm) w = Inr (None, prototype_named nm, w)" for nm w k
    by (simp add: validate_prototype_def find_arg_member_def resolve_type_enum_def resolve_filter_def prototype_named_def)
  have c: "sc_enumerator name_conf = None" "\<not> sc_btf_encode name_conf" "sc_class_name name_conf" "sc_header_type name_conf = None"
    "\<not> sc_defined_in name_conf" "\<not> sc_find_pointers name_conf" "sc_stats name_conf = None" "\<not> sc_first_obj_only name_conf"
    by (simp_all add: name_conf_def)
  have n: "po_class (prototype_named nm) = None" "po_name (prototype_named nm) = nm" for nm by (simp_all add: prototype_named_def)
  have e: "(sl_run ?st)\<lparr>es_world := es_world (sl_run ?st)\<rparr> = sl_run ?st" by simp
  show ?thesis
    using w ru p f c
    by (simp add: pahole_stealer_def steal_named_def find_header_def steal_prototype_def n find_sample v e dump_it_def)
qed

theorem stealer_stops_when_served_witness:
  "\<exists>st'. pahole_stealer name_conf 0 (wanting [''a'']) = Inr (LSK__STOP_LOADING, st') \<and> sl_protos st' = [] \<and>
     subseq (names (sl_protos st')) (names (sl_protos (wanting [''a''])))"
proof -
  obtain st' where r: "pahole_stealer name_conf 0 (wanting [''a'']) = Inr (LSK__STOP_LOADING, st')"
    using wanted_run by blast
  have w: "world_cu (es_world (sl_run (wanting [''a'']))) 0 = Inr (sample_cu [None, Some (empty_struct ''a'')])"
    by (rule wanting_unit)
  have c: "sc_class_name name_conf" "sc_enumerator name_conf = None" "\<not> sc_btf_encode name_conf" "sl_input (wanting [''a'']) = None"
    "\<not> sc_first_obj_only name_conf" "\<not> sc_defined_in name_conf"
    by (simp_all add: name_conf_def wanting_def)
  have f: "cu__filter (sc_langs name_conf) (sc_opts name_conf) (sample_cu [None, Some (empty_struct ''a'')])"
    by (simp add: cu__filter_def languages__cu_filtered_def name_conf_def plain_opts_def)
  show ?thesis using r stealer_stops_when_served [OF r c w f] by blast
qed

end
