(* ===== verification/BtfLoader.thy ===== *)
theory BtfLoader
  imports CtfLoader Alignment
begin

text \<open>
  The loader of BTF (\<open>btf_loader.c\<close>).  The types of a \<open>struct btf\<close> come from libbpf: they are given as a
  list, each with the words of \<open>struct btf_type\<close> and what follows it, and the strings as a function of their
  offset.  The fields that are packed into words are taken apart as \<open>linux/btf.h\<close> documents them.  \<open>zs\<close>
  gives the size of the object allocated for a tag.
\<close>

section \<open>Types as libbpf gives them\<close>

text \<open>An entry of a location section: function, prototype, offset.\<close>

record locsec_entry =
  le_func :: nat
  le_loc_proto :: nat
  le_offset :: nat

datatype btf_data =
    No_data
  | Int_data "32 word"
  | Array_data nat nat
  | Member_data "(nat \<times> nat \<times> 32 word) list"
  | Enum_data "(nat \<times> int) list"
  | Enum64_data "(nat \<times> nat) list"
  | Param_data "(nat \<times> nat) list"
  | Var_data nat
  | Decl_tag_data int
  | Locsec_data "locsec_entry list"

text \<open>\<open>bp_arg\<close> is the union of \<open>size\<close> and \<open>type\<close>.\<close>

record btf_type =
  bp_name_off :: nat
  bp_info :: "32 word"
  bp_arg :: nat
  bp_data :: btf_data

definition btf_kind :: "btf_type \<Rightarrow> nat" where "btf_kind tp = unat (drop_bit 24 (bp_info tp) AND 0x1f)"
definition btf_vlen :: "btf_type \<Rightarrow> nat" where "btf_vlen tp = unat (bp_info tp AND 0xffff)"
definition btf_kflag :: "btf_type \<Rightarrow> bool" where "btf_kflag tp \<longleftrightarrow> drop_bit 31 (bp_info tp) \<noteq> 0"

text \<open>The first \<open>vlen\<close> entries behind a type.\<close>

definition entries_of :: "nat \<Rightarrow> 'a list \<Rightarrow> fault + 'a list" where
  "entries_of vlen xs = (if vlen \<le> length xs then Inr (take vlen xs) else Inl Out_Of_Bounds)"

text \<open>With the flag of the structure set, the size of a bitfield is in the upper byte of the offset.\<close>

definition btf_member_bit_offset :: "btf_type \<Rightarrow> 32 word \<Rightarrow> nat" where
  "btf_member_bit_offset tp off = (if btf_kflag tp then unat (off AND 0xffffff) else unat off)"

definition btf_member_bitfield_size :: "btf_type \<Rightarrow> 32 word \<Rightarrow> nat" where
  "btf_member_bitfield_size tp off = (if btf_kflag tp then unat (drop_bit 24 off) else 0)"

definition btf_int_encoding :: "32 word \<Rightarrow> 32 word" where "btf_int_encoding v = drop_bit 24 (v AND 0x0f000000)"
definition btf_int_bits :: "32 word \<Rightarrow> nat" where "btf_int_bits v = unat (v AND 0xff)"

definition BTF_KIND_INT :: nat where "BTF_KIND_INT = 1"
definition BTF_KIND_PTR :: nat where "BTF_KIND_PTR = 2"
definition BTF_KIND_ARRAY :: nat where "BTF_KIND_ARRAY = 3"
definition BTF_KIND_STRUCT :: nat where "BTF_KIND_STRUCT = 4"
definition BTF_KIND_UNION :: nat where "BTF_KIND_UNION = 5"
definition BTF_KIND_ENUM :: nat where "BTF_KIND_ENUM = 6"
definition BTF_KIND_FWD :: nat where "BTF_KIND_FWD = 7"
definition BTF_KIND_TYPEDEF :: nat where "BTF_KIND_TYPEDEF = 8"
definition BTF_KIND_VOLATILE :: nat where "BTF_KIND_VOLATILE = 9"
definition BTF_KIND_CONST :: nat where "BTF_KIND_CONST = 10"
definition BTF_KIND_RESTRICT :: nat where "BTF_KIND_RESTRICT = 11"
definition BTF_KIND_FUNC :: nat where "BTF_KIND_FUNC = 12"
definition BTF_KIND_FUNC_PROTO :: nat where "BTF_KIND_FUNC_PROTO = 13"
definition BTF_KIND_VAR :: nat where "BTF_KIND_VAR = 14"
definition BTF_KIND_DATASEC :: nat where "BTF_KIND_DATASEC = 15"
definition BTF_KIND_FLOAT :: nat where "BTF_KIND_FLOAT = 16"
definition BTF_KIND_DECL_TAG :: nat where "BTF_KIND_DECL_TAG = 17"
definition BTF_KIND_TYPE_TAG :: nat where "BTF_KIND_TYPE_TAG = 18"
definition BTF_KIND_ENUM64 :: nat where "BTF_KIND_ENUM64 = 19"
definition BTF_KIND_UNKN :: nat where "BTF_KIND_UNKN = 0"

lemmas btf_kinds = BTF_KIND_INT_def BTF_KIND_PTR_def BTF_KIND_ARRAY_def BTF_KIND_STRUCT_def BTF_KIND_UNION_def
  BTF_KIND_ENUM_def BTF_KIND_FWD_def BTF_KIND_TYPEDEF_def BTF_KIND_VOLATILE_def BTF_KIND_CONST_def
  BTF_KIND_RESTRICT_def BTF_KIND_FUNC_def BTF_KIND_FUNC_PROTO_def BTF_KIND_VAR_def BTF_KIND_DATASEC_def
  BTF_KIND_FLOAT_def BTF_KIND_DECL_TAG_def BTF_KIND_TYPE_TAG_def BTF_KIND_ENUM64_def BTF_KIND_UNKN_def

text \<open>
  \<open>bs_locations\<close>: whether the library knows the kinds for locations (\<open>btf__has_location_support\<close>), which
  \<open>dwarves.h\<close> numbers.
\<close>

definition BTF_KIND_LOC_PARAM :: nat where "BTF_KIND_LOC_PARAM = 20"
definition BTF_KIND_LOC_PROTO :: nat where "BTF_KIND_LOC_PROTO = 21"
definition BTF_KIND_LOCSEC :: nat where "BTF_KIND_LOCSEC = 22"

record btf =
  bs_types :: "btf_type list"
  bs_str :: "nat \<Rightarrow> string option"
  bs_locations :: bool
  bs_pointer_size :: nat

text \<open>Type 0 is void; \<open>btf__type_by_id\<close> of an index beyond the last one is NULL.\<close>

definition btf__type_cnt :: "btf \<Rightarrow> nat" where "btf__type_cnt b = Suc (length (bs_types b))"

definition cu__btf_str :: "btf \<Rightarrow> nat \<Rightarrow> string option" where
  "cu__btf_str b off = (if off \<noteq> 0 then bs_str b off else None)"

section \<open>One routine per kind\<close>

fun btf_load_parms :: "heap_env \<Rightarrow> nat \<Rightarrow> btf \<Rightarrow> (nat \<times> nat) list \<Rightarrow> ftype \<Rightarrow> ftype option" where
  "btf_load_parms h z b [] proto = Some proto"
| "btf_load_parms h z b ((name_off, ty) # ps) proto =
     (if ty = 0 then btf_load_parms h z b ps (proto\<lparr>ft_unspec_parms := True\<rparr>)
      else if avail h z then
        btf_load_parms h z b ps
          (proto\<lparr>ft_nr_parms := u16 (ft_nr_parms proto + 1),
                 ft_parms := ft_parms proto @ [\<lparr>pa_type = ty, pa_name = cu__btf_str b name_off, pa_attributes = []\<rparr>]\<rparr>)
      else None)"

definition cu__load_ftype ::
  "heap_env \<Rightarrow> (dw_tag \<Rightarrow> nat) \<Rightarrow> btf \<Rightarrow> btf_type \<Rightarrow> nat \<Rightarrow> cu \<Rightarrow> fault + int \<times> cu" where
  "cu__load_ftype h zs b tp i cu =
     (case bp_data tp of
        Param_data ps \<Rightarrow>
          bindE (entries_of (btf_vlen tp) ps) (\<lambda>ps'.
            case btf_load_parms h (zs DW_TAG_formal_parameter) b ps' ftype_zero of
              None \<Rightarrow> Inr (-12, cu)
            | Some proto \<Rightarrow>
                bindE (enter_tag h cu \<lparr>tg_tag = DW_TAG_subroutine_type, tg_type = bp_arg tp, tg_body = Ftype_body proto\<rparr> i) (\<lambda>cu'.
                  Inr (0, cu')))
      | _ \<Rightarrow> Inl Out_Of_Bounds)"

definition btf_create_new_subroutine_type ::
  "heap_env \<Rightarrow> (dw_tag \<Rightarrow> nat) \<Rightarrow> btf \<Rightarrow> btf_type \<Rightarrow> nat \<Rightarrow> cu \<Rightarrow> fault + int \<times> cu" where
  "btf_create_new_subroutine_type h zs b tp i cu =
     (if avail h (zs DW_TAG_subroutine_type) then cu__load_ftype h zs b tp i cu else Inr (-12, cu))"

definition lexblock_zero :: lexblock_hdr where
  "lexblock_zero = \<lparr>lb_addr = 0, lb_size = 0, lb_nr_inline_expansions = 0, lb_nr_labels = 0, lb_nr_variables = 0,
     lb_nr_lexblocks = 0, lb_size_inline_expansions = 0\<rparr>"

definition btf_function :: "string option \<Rightarrow> function_t" where
  "btf_function name =
     \<lparr>fn_proto = ftype_zero, fn_lexblock = lexblock_zero, fn_name = name, fn_linkage_name = None,
      fn_cu_total_size_inline_expansions = 0, fn_cu_total_nr_inline_expansions = 0, fn_inlined = 0, fn_external = False,
      fn_declaration = False, fn_btf = True, fn_virtuality = DW_VIRTUALITY_none, fn_accessibility = 0,
      fn_vtable_entry = 0, fn_attributes = [], fn_abstract_origin = False\<rparr>"

definition btf_create_new_function ::
  "heap_env \<Rightarrow> (dw_tag \<Rightarrow> nat) \<Rightarrow> btf \<Rightarrow> btf_type \<Rightarrow> nat \<Rightarrow> cu \<Rightarrow> fault + int \<times> cu" where
  "btf_create_new_function h zs b tp i cu =
     (if \<not> avail h (zs DW_TAG_subprogram) then Inr (-12, cu)
      else
        bindE (enter_tag h cu \<lparr>tg_tag = DW_TAG_subprogram, tg_type = bp_arg tp,
                 tg_body = Function_body (btf_function (cu__btf_str b (bp_name_off tp)))\<rparr> i) (\<lambda>cu'. Inr (0, cu')))"

text \<open>\<open>is_bool\<close> is one bit wide and gets \<open>attrs & BTF_INT_BOOL\<close>, which is 4.\<close>

definition btf_base_type__new ::
  "heap_env \<Rightarrow> nat \<Rightarrow> string \<Rightarrow> 32 word \<Rightarrow> nat \<Rightarrow> nat \<Rightarrow> base_type option" where
  "btf_base_type__new h z name attrs float_type sz =
     (if avail h z then
        Some \<lparr>bt_name = name, bt_bit_size = u16 sz, bt_name_has_encoding = False,
          bt_is_signed = ((attrs AND 1) AND 1 \<noteq> 0), bt_is_bool = ((attrs AND 4) AND 1 \<noteq> 0), bt_is_varargs = False,
          bt_float_type = u8 float_type mod 16\<rparr>
      else None)"

definition enter_base ::
  "heap_env \<Rightarrow> (dw_tag \<Rightarrow> nat) \<Rightarrow> btf \<Rightarrow> btf_type \<Rightarrow> 32 word \<Rightarrow> nat \<Rightarrow> nat \<Rightarrow> nat \<Rightarrow> cu \<Rightarrow> fault + int \<times> cu" where
  "enter_base h zs b tp attrs float_type bits i cu =
     bindE (some_name (cu__btf_str b (bp_name_off tp))) (\<lambda>name.
       case btf_base_type__new h (zs DW_TAG_base_type) name attrs float_type bits of
         None \<Rightarrow> Inr (-12, cu)
       | Some bt \<Rightarrow>
           bindE (enter_tag h cu \<lparr>tg_tag = DW_TAG_base_type, tg_type = 0, tg_body = Base_body bt\<rparr> i) (\<lambda>cu'. Inr (0, cu')))"

definition btf_create_new_int_type ::
  "heap_env \<Rightarrow> (dw_tag \<Rightarrow> nat) \<Rightarrow> btf \<Rightarrow> btf_type \<Rightarrow> nat \<Rightarrow> cu \<Rightarrow> fault + int \<times> cu" where
  "btf_create_new_int_type h zs b tp i cu =
     (case bp_data tp of
        Int_data v \<Rightarrow> enter_base h zs b tp (btf_int_encoding v) 0 (btf_int_bits v) i cu
      | _ \<Rightarrow> Inl Out_Of_Bounds)"

text \<open>\<open>BT_FP_SINGLE\<close> is 1.\<close>

definition btf_create_new_float_type ::
  "heap_env \<Rightarrow> (dw_tag \<Rightarrow> nat) \<Rightarrow> btf \<Rightarrow> btf_type \<Rightarrow> nat \<Rightarrow> cu \<Rightarrow> fault + int \<times> cu" where
  "btf_create_new_float_type h zs b tp i cu = enter_base h zs b tp 0 1 (u32 (bp_arg tp * 8)) i cu"

text \<open>An array of arrays that are already loaded becomes one array of more dimensions.\<close>

definition btf_create_new_array ::
  "heap_env \<Rightarrow> (dw_tag \<Rightarrow> nat) \<Rightarrow> btf_type \<Rightarrow> nat \<Rightarrow> cu \<Rightarrow> fault + int \<times> cu" where
  "btf_create_new_array h zs tp i cu =
     (case bp_data tp of
        Array_data elem nelems \<Rightarrow>
          if \<not> avail h (zs DW_TAG_array_type) then Inr (-12, cu)
          else
            bindE (cu__type (Some cu) elem) (\<lambda>elem_tag.
            bindE (case elem_tag of
                     None \<Rightarrow> Inr None
                   | Some t \<Rightarrow>
                       if tg_tag t = DW_TAG_array_type
                       then bindE (tag__array_type t) (\<lambda>inner. Inr (if at_dimensions inner < 255 then Some (tg_type t, inner) else None))
                       else Inr None) (\<lambda>absorbed.
            bindE (case absorbed of
                     None \<Rightarrow> Inr (elem, 1, [nelems])
                   | Some (ty, inner) \<Rightarrow>
                       (case at_nr_entries inner of
                          None \<Rightarrow> Inl Null_Deref
                        | Some es \<Rightarrow>
                            if length es < at_dimensions inner then Inl Out_Of_Bounds
                            else Inr (ty, at_dimensions inner + 1, nelems # take (at_dimensions inner) es))) (\<lambda>(ty, dims, es).
              if \<not> avail h (dims * 4) then Inr (-12, cu)
              else
                bindE (enter_tag h cu \<lparr>tg_tag = DW_TAG_array_type, tg_type = ty,
                  tg_body = Array_body \<lparr>at_nr_entries = Some es, at_dimensions = dims, at_is_vector = False\<rparr>\<rparr> i) (\<lambda>cu'.
                  Inr (0, cu')))))
      | _ \<Rightarrow> Inl Out_Of_Bounds)"

text \<open>The members of a structure or union; \<open>None\<close> if one cannot be allocated.\<close>

definition btf_member :: "btf \<Rightarrow> btf_type \<Rightarrow> nat \<times> nat \<times> 32 word \<Rightarrow> class_member" where
  "btf_member b tp mp =
     (case mp of (name_off, ty, off) \<Rightarrow>
        zero_member\<lparr>cm_type := ty, cm_name := cu__btf_str b name_off, cm_bit_offset := btf_member_bit_offset tp off,
          cm_bitfield_size := u8 (btf_member_bitfield_size tp off), cm_byte_offset := btf_member_bit_offset tp off div 8\<rparr>)"

fun btf_add_members ::
  "heap_env \<Rightarrow> nat \<Rightarrow> btf \<Rightarrow> btf_type \<Rightarrow> (nat \<times> nat \<times> 32 word) list \<Rightarrow> 'a type_t_scheme \<Rightarrow> 'a type_t_scheme option" where
  "btf_add_members h z b tp [] cls = Some cls"
| "btf_add_members h z b tp (mp # mps) cls =
     (if avail h z then btf_add_members h z b tp mps (type__add_member cls (btf_member b tp mp)) else None)"

definition btf_create_members :: "heap_env \<Rightarrow> nat \<Rightarrow> btf \<Rightarrow> btf_type \<Rightarrow> 'a type_t_scheme \<Rightarrow> fault + 'a type_t_scheme option" where
  "btf_create_members h z b tp cls =
     (case bp_data tp of
        Member_data ms \<Rightarrow> bindE (entries_of (btf_vlen tp) ms) (\<lambda>ms'. Inr (btf_add_members h z b tp ms' cls))
      | _ \<Rightarrow> Inl Out_Of_Bounds)"

text \<open>
  The new structure is not tested for NULL: without members it is freed, or entered, as a NULL pointer.
\<close>

definition btf_create_new_class ::
  "heap_env \<Rightarrow> (dw_tag \<Rightarrow> nat) \<Rightarrow> btf \<Rightarrow> btf_type \<Rightarrow> nat \<Rightarrow> cu \<Rightarrow> fault + int \<times> cu" where
  "btf_create_new_class h zs b tp i cu =
     (case class__new h (zs DW_TAG_structure_type) (cu__btf_str b (bp_name_off tp)) (bp_arg tp) of
        None \<Rightarrow> Inl Null_Deref
      | Some cls \<Rightarrow>
          bindE (btf_create_members h (zs DW_TAG_member) b tp cls) (\<lambda>r.
            case r of
              None \<Rightarrow> Inr (-12, cu)
            | Some cls' \<Rightarrow>
                bindE (enter_tag h cu \<lparr>tg_tag = DW_TAG_structure_type, tg_type = 0, tg_body = Class_body cls'\<rparr> i) (\<lambda>cu'.
                  Inr (0, cu'))))"

definition btf_create_new_union ::
  "heap_env \<Rightarrow> (dw_tag \<Rightarrow> nat) \<Rightarrow> btf \<Rightarrow> btf_type \<Rightarrow> nat \<Rightarrow> cu \<Rightarrow> fault + int \<times> cu" where
  "btf_create_new_union h zs b tp i cu =
     (case type__new h (zs DW_TAG_union_type) (cu__btf_str b (bp_name_off tp)) (bp_arg tp) of
        None \<Rightarrow> Inl Null_Deref
      | Some un \<Rightarrow>
          bindE (btf_create_members h (zs DW_TAG_member) b tp un) (\<lambda>r.
            case r of
              None \<Rightarrow> Inr (-12, cu)
            | Some un' \<Rightarrow>
                bindE (enter_tag h cu \<lparr>tg_tag = DW_TAG_union_type, tg_type = 0, tg_body = Type_body un'\<rparr> i) (\<lambda>cu'.
                  Inr (0, cu'))))"

text \<open>The values of an enumeration are 64 bits wide; an unsigned 32-bit one is cut to 32.\<close>

definition btf_enum_value :: "bool \<Rightarrow> int \<Rightarrow> nat" where
  "btf_enum_value is_signed val = (if is_signed then nat (val mod 2 ^ 64) else nat (val mod 2 ^ 32))"

fun btf_add_enumerators ::
  "heap_env \<Rightarrow> nat \<Rightarrow> btf \<Rightarrow> (nat \<times> nat) list \<Rightarrow> type_t \<Rightarrow> fault + type_t option" where
  "btf_add_enumerators h z b [] t = Inr (Some t)"
| "btf_add_enumerators h z b ((name_off, val) # eps) t =
     (if \<not> avail h z then Inr None
      else
        bindE (some_name (cu__btf_str b name_off)) (\<lambda>name.
          btf_add_enumerators h z b eps (enumeration__add t \<lparr>en_name = name, en_value = val\<rparr>)))"

definition btf_enumeration ::
  "heap_env \<Rightarrow> (dw_tag \<Rightarrow> nat) \<Rightarrow> btf \<Rightarrow> btf_type \<Rightarrow> (nat \<times> nat) list \<Rightarrow> nat \<Rightarrow> cu \<Rightarrow> fault + int \<times> cu" where
  "btf_enumeration h zs b tp eps i cu =
     (case type__new h (zs DW_TAG_enumeration_type) (cu__btf_str b (bp_name_off tp))
             (if bp_arg tp \<noteq> 0 then bp_arg tp * 8 else 32) of
        None \<Rightarrow> Inr (-12, cu)
      | Some t \<Rightarrow>
          bindE (btf_add_enumerators h (zs DW_TAG_enumerator) b eps (t\<lparr>ty_is_signed_enum := btf_kflag tp\<rparr>)) (\<lambda>r.
            case r of
              None \<Rightarrow> Inr (-12, cu)
            | Some t' \<Rightarrow>
                bindE (enter_tag h cu \<lparr>tg_tag = DW_TAG_enumeration_type, tg_type = 0, tg_body = Type_body t'\<rparr> i) (\<lambda>cu'.
                  Inr (0, cu'))))"

definition btf_create_new_enumeration ::
  "heap_env \<Rightarrow> (dw_tag \<Rightarrow> nat) \<Rightarrow> btf \<Rightarrow> btf_type \<Rightarrow> nat \<Rightarrow> cu \<Rightarrow> fault + int \<times> cu" where
  "btf_create_new_enumeration h zs b tp i cu =
     (case bp_data tp of
        Enum_data eps \<Rightarrow>
          bindE (entries_of (btf_vlen tp) eps) (\<lambda>eps'.
            btf_enumeration h zs b tp (map (\<lambda>(name_off, val). (name_off, btf_enum_value (btf_kflag tp) val)) eps') i cu)
      | _ \<Rightarrow> Inl Out_Of_Bounds)"

definition create_new_enumeration64 ::
  "heap_env \<Rightarrow> (dw_tag \<Rightarrow> nat) \<Rightarrow> btf \<Rightarrow> btf_type \<Rightarrow> nat \<Rightarrow> cu \<Rightarrow> fault + int \<times> cu" where
  "create_new_enumeration64 h zs b tp i cu =
     (case bp_data tp of
        Enum64_data eps \<Rightarrow> bindE (entries_of (btf_vlen tp) eps) (\<lambda>eps'. btf_enumeration h zs b tp eps' i cu)
      | _ \<Rightarrow> Inl Out_Of_Bounds)"

text \<open>A forward declaration of a union has the tag of a union, but is made as a structure.\<close>

definition btf_create_new_forward_decl ::
  "heap_env \<Rightarrow> (dw_tag \<Rightarrow> nat) \<Rightarrow> btf \<Rightarrow> btf_type \<Rightarrow> nat \<Rightarrow> cu \<Rightarrow> fault + int \<times> cu" where
  "btf_create_new_forward_decl h zs b tp i cu =
     (case class__new h (zs DW_TAG_structure_type) (cu__btf_str b (bp_name_off tp)) 0 of
        None \<Rightarrow> Inr (-12, cu)
      | Some fwd \<Rightarrow>
          bindE (enter_tag h cu
              (if btf_kflag tp
               then \<lparr>tg_tag = DW_TAG_union_type, tg_type = 0, tg_body = Type_body (type_t.truncate (fwd\<lparr>ty_declaration := True\<rparr>))\<rparr>
               else \<lparr>tg_tag = DW_TAG_structure_type, tg_type = 0, tg_body = Class_body (fwd\<lparr>ty_declaration := True\<rparr>)\<rparr>) i) (\<lambda>cu'.
            Inr (0, cu')))"

definition btf_create_new_typedef ::
  "heap_env \<Rightarrow> (dw_tag \<Rightarrow> nat) \<Rightarrow> btf \<Rightarrow> btf_type \<Rightarrow> nat \<Rightarrow> cu \<Rightarrow> fault + int \<times> cu" where
  "btf_create_new_typedef h zs b tp i cu =
     (case type__new h (zs DW_TAG_typedef) (cu__btf_str b (bp_name_off tp)) 0 of
        None \<Rightarrow> Inr (-12, cu)
      | Some t \<Rightarrow>
          bindE (enter_tag h cu \<lparr>tg_tag = DW_TAG_typedef, tg_type = bp_arg tp, tg_body = Type_body t\<rparr> i) (\<lambda>cu'.
            Inr (0, cu')))"

definition btf_variable__new :: "heap_env \<Rightarrow> nat \<Rightarrow> string option \<Rightarrow> nat \<Rightarrow> variable_t option" where
  "btf_variable__new h z name linkage =
     (if avail h z then
        Some \<lparr>va_name = name, va_external = (linkage = 1), va_declaration = False, va_scope = VSCOPE_UNKNOWN, va_addr = 0\<rparr>
      else None)"

definition create_new_variable ::
  "heap_env \<Rightarrow> (dw_tag \<Rightarrow> nat) \<Rightarrow> btf \<Rightarrow> btf_type \<Rightarrow> nat \<Rightarrow> cu \<Rightarrow> fault + int \<times> cu" where
  "create_new_variable h zs b tp i cu =
     (case bp_data tp of
        Var_data linkage \<Rightarrow>
          (case btf_variable__new h (zs DW_TAG_variable) (cu__btf_str b (bp_name_off tp)) linkage of
             None \<Rightarrow> Inr (-12, cu)
           | Some var \<Rightarrow>
               bindE (enter_tag h cu \<lparr>tg_tag = DW_TAG_variable, tg_type = bp_arg tp, tg_body = Variable_body var\<rparr> i) (\<lambda>cu'.
                 Inr (0, cu')))
      | _ \<Rightarrow> Inl Out_Of_Bounds)"

definition create_new_datasec :: "cu \<Rightarrow> fault + int \<times> cu" where
  "create_new_datasec cu = Inr (0, cu)"

definition btf_create_new_tag ::
  "heap_env \<Rightarrow> (dw_tag \<Rightarrow> nat) \<Rightarrow> nat \<Rightarrow> btf_type \<Rightarrow> nat \<Rightarrow> cu \<Rightarrow> fault + int \<times> cu" where
  "btf_create_new_tag h zs type tp i cu =
     (if \<not> avail h (zs DW_TAG_const_type) then Inr (-12, cu)
      else
        case (if type = BTF_KIND_CONST then Some DW_TAG_const_type
              else if type = BTF_KIND_PTR then Some DW_TAG_pointer_type
              else if type = BTF_KIND_RESTRICT then Some DW_TAG_restrict_type
              else if type = BTF_KIND_VOLATILE then Some DW_TAG_volatile_type
              else if type = BTF_KIND_TYPE_TAG then Some DW_TAG_LLVM_annotation else None) of
          None \<Rightarrow> Inr (0, cu)
        | Some tg \<Rightarrow>
            bindE (enter_tag h cu \<lparr>tg_tag = tg, tg_type = bp_arg tp, tg_body = Plain\<rparr> i) (\<lambda>cu'. Inr (0, cu')))"

section \<open>Declaration tags\<close>

text \<open>\<open>z n\<close> is the size of \<open>struct attributes\<close> with \<open>n\<close> values.\<close>

definition attributes__realloc :: "heap_env \<Rightarrow> (nat \<Rightarrow> nat) \<Rightarrow> string list \<Rightarrow> string \<Rightarrow> string list option" where
  "attributes__realloc h z attrs val =
     (if avail h (z (length attrs + 1)) then Some (attrs @ [val]) else None)"

definition ftype__parameter :: "ftype \<Rightarrow> int \<Rightarrow> nat option" where
  "ftype__parameter ft component_idx =
     (if 0 \<le> component_idx \<and> nat component_idx < length (ft_parms ft) then Some (nat component_idx) else None)"

text \<open>The prototype a function refers to, with its type and the index of the parameter.\<close>

definition function__parameter :: "cu \<Rightarrow> tag \<Rightarrow> int \<Rightarrow> fault + (nat \<times> tag \<times> ftype \<times> nat) option" where
  "function__parameter cu func component_idx =
     (if component_idx < 0 then Inr None
      else
        bindE (cu__type (Some cu) (tg_type func)) (\<lambda>t.
          case t of
            None \<Rightarrow> Inr None
          | Some tag \<Rightarrow>
              bindE (tag__ftype tag) (\<lambda>ft.
                Inr (map_option (\<lambda>k. (tg_type func, tag, ft, k)) (ftype__parameter ft component_idx)))))"

definition with_ftype :: "tag \<Rightarrow> ftype \<Rightarrow> tag" where
  "with_ftype t ft = t\<lparr>tg_body :=
     (case tg_body t of Function_body f \<Rightarrow> Function_body (f\<lparr>fn_proto := ft\<rparr>) | _ \<Rightarrow> Ftype_body ft)\<rparr>"

definition cu_set_function :: "cu \<Rightarrow> nat \<Rightarrow> tag \<Rightarrow> cu" where
  "cu_set_function cu i t =
     cu\<lparr>cu_functions_table := (cu_functions_table cu)\<lparr>pt_entries := (pt_entries (cu_functions_table cu))[i := Some t]\<rparr>\<rparr>"

text \<open>
  What \<open>cu__type\<close> returned first is overwritten, so a tag of a type is taken for one of an unknown id.
  The attributes of variables are allocated, but nothing of the program reads them and the model's
  variables have none.  An attribute without a name is the NULL pointer.
\<close>

definition process_decl_tag :: "heap_env \<Rightarrow> (nat \<Rightarrow> nat) \<Rightarrow> btf \<Rightarrow> btf_type \<Rightarrow> cu \<Rightarrow> fault + int \<times> cu" where
  "process_decl_tag h z b tp cu =
     (case bp_data tp of
        Decl_tag_data component_idx \<Rightarrow>
          bindE (cu__function (Some cu) (bp_arg tp)) (\<lambda>fn.
            case fn of
              Some func \<Rightarrow>
                if 0 \<le> component_idx then
                  bindE (function__parameter cu func component_idx) (\<lambda>p.
                    case p of
                      None \<Rightarrow> Inr (0, cu)
                    | Some (ty, proto, ft, k) \<Rightarrow>
                        bindE (some_name (cu__btf_str b (bp_name_off tp))) (\<lambda>attr.
                          let parm = ft_parms ft ! k
                          in case attributes__realloc h z (pa_attributes parm) attr of
                               None \<Rightarrow> Inr (-12, cu)
                             | Some attrs \<Rightarrow>
                                 Inr (0, cu_set_type cu ty (with_ftype proto
                                   (ft\<lparr>ft_parms := (ft_parms ft)[k := parm\<lparr>pa_attributes := attrs\<rparr>]\<rparr>)))))
                else
                  bindE (tag__function func) (\<lambda>f.
                  bindE (some_name (cu__btf_str b (bp_name_off tp))) (\<lambda>attr.
                    case attributes__realloc h z (fn_attributes f) attr of
                      None \<Rightarrow> Inr (-12, cu)
                    | Some attrs \<Rightarrow>
                        Inr (0, cu_set_function cu (bp_arg tp) (func\<lparr>tg_body := Function_body (f\<lparr>fn_attributes := attrs\<rparr>)\<rparr>))))
            | None \<Rightarrow>
                bindE (cu__tag (Some cu) (bp_arg tp)) (\<lambda>t.
                  case t of
                    None \<Rightarrow> Inr (0, cu)
                  | Some _ \<Rightarrow> Inr (if avail h (z 1) then 0 else -12, cu)))
      | _ \<Rightarrow> Inl Out_Of_Bounds)"

section \<open>The types of a file\<close>

text \<open>
  One turn of the first loop of \<open>btf__load_types\<close>.  \<open>err\<close> is not set by a declaration tag: it keeps
  the value of the turn before, and in the first turn it has none.
\<close>

definition btf_create_type ::
  "heap_env \<Rightarrow> (dw_tag \<Rightarrow> nat) \<Rightarrow> btf \<Rightarrow> btf_type \<Rightarrow> nat \<Rightarrow> int option \<Rightarrow> cu \<Rightarrow> fault + int \<times> cu" where
  "btf_create_type h zs b tp i err cu =
     (let type = btf_kind tp
      in if type = BTF_KIND_INT then btf_create_new_int_type h zs b tp i cu
         else if type = BTF_KIND_ARRAY then btf_create_new_array h zs tp i cu
         else if type = BTF_KIND_STRUCT then btf_create_new_class h zs b tp i cu
         else if type = BTF_KIND_UNION then btf_create_new_union h zs b tp i cu
         else if type = BTF_KIND_ENUM then btf_create_new_enumeration h zs b tp i cu
         else if type = BTF_KIND_ENUM64 then create_new_enumeration64 h zs b tp i cu
         else if type = BTF_KIND_FWD then btf_create_new_forward_decl h zs b tp i cu
         else if type = BTF_KIND_TYPEDEF then btf_create_new_typedef h zs b tp i cu
         else if type = BTF_KIND_VAR then create_new_variable h zs b tp i cu
         else if type = BTF_KIND_DATASEC then create_new_datasec cu
         else if type = BTF_KIND_VOLATILE \<or> type = BTF_KIND_PTR \<or> type = BTF_KIND_CONST \<or>
           type = BTF_KIND_RESTRICT \<or> type = BTF_KIND_TYPE_TAG then btf_create_new_tag h zs type tp i cu
         else if type = BTF_KIND_UNKN then
           map_sum id (\<lambda>(rc, cu'). (0, cu')) (cu__table_nullify_type_entry h cu i)
         else if type = BTF_KIND_FUNC_PROTO then btf_create_new_subroutine_type h zs b tp i cu
         else if type = BTF_KIND_FUNC then btf_create_new_function h zs b tp i cu
         else if type = BTF_KIND_FLOAT then btf_create_new_float_type h zs b tp i cu
         else if type = BTF_KIND_DECL_TAG then (case err of None \<Rightarrow> Inl Uninitialised | Some e \<Rightarrow> Inr (e, cu))
         else Inr (0, cu))"

fun btf_types_loop ::
  "heap_env \<Rightarrow> (dw_tag \<Rightarrow> nat) \<Rightarrow> btf \<Rightarrow> btf_type list \<Rightarrow> nat \<Rightarrow> int option \<Rightarrow> cu \<Rightarrow> fault + int \<times> cu" where
  "btf_types_loop h zs b [] i err cu = Inr (0, cu)"
| "btf_types_loop h zs b (tp # tps) i err cu =
     bindE (btf_create_type h zs b tp i err cu) (\<lambda>(e, cu').
       if e < 0 then Inr (e, cu') else btf_types_loop h zs b tps (i + 1) (Some e) cu')"

fun decl_tags_loop :: "heap_env \<Rightarrow> (nat \<Rightarrow> nat) \<Rightarrow> btf \<Rightarrow> btf_type list \<Rightarrow> cu \<Rightarrow> fault + int \<times> cu" where
  "decl_tags_loop h z b [] cu = Inr (0, cu)"
| "decl_tags_loop h z b (tp # tps) cu =
     (if btf_kind tp \<noteq> BTF_KIND_DECL_TAG then decl_tags_loop h z b tps cu
      else
        bindE (process_decl_tag h z b tp cu) (\<lambda>(e, cu').
          if e < 0 then Inr (e, cu') else decl_tags_loop h z b tps cu'))"

definition btf__load_types ::
  "heap_env \<Rightarrow> (dw_tag \<Rightarrow> nat) \<Rightarrow> (nat \<Rightarrow> nat) \<Rightarrow> btf \<Rightarrow> cu \<Rightarrow> fault + int \<times> cu" where
  "btf__load_types h zs z b cu =
     bindE (btf_types_loop h zs b (bs_types b) 1 None cu) (\<lambda>(e, cu').
       if e < 0 then Inr (e, cu') else decl_tags_loop h z b (bs_types b) cu')"

section \<open>Where functions are inlined\<close>

record btf_inline_site =
  is_function :: nat
  is_section_name :: string
  is_section_offset :: nat
  is_loc_proto :: nat

text \<open>\<open>z\<close> is the size of a site.  A site that cannot be allocated is left out.\<close>

definition btf__add_inline_site ::
  "heap_env \<Rightarrow> nat \<Rightarrow> cu \<Rightarrow> string \<Rightarrow> locsec_entry \<Rightarrow> btf_inline_site list \<Rightarrow> fault + btf_inline_site list" where
  "btf__add_inline_site h z cu section_name entry sites =
     bindE (cu__function (Some cu) (le_func entry)) (\<lambda>t.
       Inr (case t of
              None \<Rightarrow> sites
            | Some _ \<Rightarrow>
                if avail h z \<and> avail h (length section_name + 1) then
                  sites @ [\<lparr>is_function = le_func entry, is_section_name = section_name,
                            is_section_offset = le_offset entry, is_loc_proto = le_loc_proto entry\<rparr>]
                else sites))"

text \<open>\<open>DW_INL_declared_inlined\<close> is 3.\<close>

fun mark_entries ::
  "heap_env \<Rightarrow> nat \<Rightarrow> string \<Rightarrow> locsec_entry list \<Rightarrow> cu \<Rightarrow> btf_inline_site list \<Rightarrow> fault + cu \<times> btf_inline_site list" where
  "mark_entries h z section_name [] cu sites = Inr (cu, sites)"
| "mark_entries h z section_name (e # es) cu sites =
     bindE (cu__function (Some cu) (le_func e)) (\<lambda>t.
     bindE (case t of
              None \<Rightarrow> Inr cu
            | Some tag \<Rightarrow>
                bindE (tag__function tag) (\<lambda>f.
                  Inr (cu_set_function cu (le_func e) (tag\<lparr>tg_body := Function_body (f\<lparr>fn_inlined := 3\<rparr>)\<rparr>)))) (\<lambda>cu'.
     bindE (btf__add_inline_site h z cu' section_name e sites) (\<lambda>sites'.
       mark_entries h z section_name es cu' sites')))"

text \<open>The number of entries takes 24 bits of \<open>info\<close>.\<close>

fun mark_locsecs ::
  "heap_env \<Rightarrow> nat \<Rightarrow> btf \<Rightarrow> btf_type list \<Rightarrow> cu \<Rightarrow> btf_inline_site list \<Rightarrow> fault + cu \<times> btf_inline_site list" where
  "mark_locsecs h z b [] cu sites = Inr (cu, sites)"
| "mark_locsecs h z b (tp # tps) cu sites =
     (if btf_kind tp \<noteq> BTF_KIND_LOCSEC then mark_locsecs h z b tps cu sites
      else
        case cu__btf_str b (bp_name_off tp) of
          None \<Rightarrow> mark_locsecs h z b tps cu sites
        | Some name \<Rightarrow>
            if \<not> strstarts name ''inline'' then mark_locsecs h z b tps cu sites
            else
              (case bp_data tp of
                 Locsec_data es \<Rightarrow>
                   bindE (entries_of (unat (bp_info tp AND 0x00ffffff)) es) (\<lambda>es'.
                   bindE (mark_entries h z (drop 6 name) es' cu sites) (\<lambda>(cu', sites').
                     mark_locsecs h z b tps cu' sites'))
               | _ \<Rightarrow> Inl Out_Of_Bounds))"

text \<open>\<open>bs_locations\<close>: whether the library can write locations, \<open>btf__has_location_support\<close>.\<close>

definition btf__mark_inline_functions ::
  "heap_env \<Rightarrow> nat \<Rightarrow> btf \<Rightarrow> cu \<Rightarrow> fault + cu \<times> btf_inline_site list" where
  "btf__mark_inline_functions h z b cu =
     (if bs_locations b then mark_locsecs h z b (bs_types b) cu [] else Inr (cu, []))"

definition btf__load_sections ::
  "heap_env \<Rightarrow> (dw_tag \<Rightarrow> nat) \<Rightarrow> (nat \<Rightarrow> nat) \<Rightarrow> nat \<Rightarrow> btf \<Rightarrow> cu \<Rightarrow> fault + int \<times> cu \<times> btf_inline_site list" where
  "btf__load_sections h zs z zi b cu =
     bindE (btf__load_types h zs z b cu) (\<lambda>(err, cu1).
       if err = 0 then map_sum id (Pair err) (btf__mark_inline_functions h zi b cu1) else Inr (err, cu1, []))"

section \<open>Alignments and bitfields\<close>

text \<open>The number of bits of a value, \<open>32 - __builtin_clz\<close> of it.\<close>

fun bit_width :: "nat \<Rightarrow> nat" where
  "bit_width d = (if d = 0 then 0 else Suc (bit_width (d div 2)))"

declare bit_width.simps [simp del]

text \<open>The values are \<open>uint32_t\<close>; \<open>cl\<close> is the size of a cacheline.  A shift by 32 is undefined.\<close>

definition class__infer_alignment :: "nat \<Rightarrow> nat \<Rightarrow> nat \<Rightarrow> nat \<Rightarrow> fault + nat" where
  "class__infer_alignment cl byte_offset natural_alignment smallest_offset =
     (let offset_delta = nat (u32 (int byte_offset - int smallest_offset))
      in bindE (if offset_delta = 0 \<or> odd byte_offset then Inr 0
                else if 32 \<le> bit_width offset_delta then Inl Undefined_Shift
                else Inr (2 ^ bit_width offset_delta)) (\<lambda>alignment.
           Inr (if alignment \<le> natural_alignment \<or> alignment = 1 then 0
                else if alignment < cl \<and> cl mod alignment = 0 \<and> byte_offset mod cl = 0 then cl
                else alignment)))"

text \<open>
  The place of a bitfield: its storage unit is the one its first bit is in.  \<open>bitfield_offset\<close> is an
  \<open>int8_t\<close>, so a unit of more than 128 bits can give a negative one.
\<close>

definition place_btf_bitfield :: "class_member \<Rightarrow> fault + class_member" where
  "place_btf_bitfield pos =
     (if cm_bitfield_size pos = 0 then Inr (pos\<lparr>cm_byte_offset := cm_bit_offset pos div 8\<rparr>)
      else if cm_bit_size pos = 0 then Inl Div_By_Zero
      else
        let byte_offset = cm_bit_offset pos div cm_bit_size pos * cm_bit_size pos div 8;
            bitfield_offset = s8 (int (cm_bit_offset pos) - int (byte_offset * 8))
        in Inr (if bitfield_offset < 0 then
                  let bitfield_offset' = s8 (bitfield_offset + int (cm_bit_size pos));
                      byte_offset' = nat (u32 (int byte_offset - int (cm_byte_size pos)))
                  in pos\<lparr>cm_byte_offset := byte_offset', cm_bitfield_offset := bitfield_offset',
                         cm_bit_offset := nat (u32 (int byte_offset' * 8 + bitfield_offset'))\<rparr>
                else pos\<lparr>cm_byte_offset := byte_offset, cm_bitfield_offset := bitfield_offset\<rparr>))"

text \<open>Where the next member could start.\<close>

definition btf_member_end :: "class_member \<Rightarrow> nat" where
  "btf_member_end pos =
     u32 (cm_byte_offset pos +
       (if cm_bitfield_size pos \<noteq> 0
        then nat ((cm_bitfield_offset pos + int (cm_bitfield_size pos) + 7) mod 2 ^ 64) div 8
        else cm_byte_size pos))"

definition fixup_btf_member ::
  "nat \<Rightarrow> nat \<Rightarrow> cu \<Rightarrow> class_member \<Rightarrow> nat \<Rightarrow> fault + class_member \<times> nat \<times> cu" where
  "fixup_btf_member n cl cu pos smallest_offset =
     bindE (tag__strip_typedefs_and_modifiers n cu (cm_type pos)) (\<lambda>r.
       case r of
         None \<Rightarrow> Inr (pos, smallest_offset, cu)
       | Some (j, type) \<Rightarrow>
           bindE (tag__size n cu type) (\<lambda>byte_size.
             let pos0 = pos\<lparr>cm_bitfield_offset := 0, cm_byte_size := byte_size, cm_bit_size := u32 (byte_size * 8)\<rparr>
             in bindE (if byte_size \<noteq> 0 \<and> (tg_tag type = DW_TAG_base_type \<or> tg_tag type = DW_TAG_enumeration_type)
                       then place_btf_bitfield pos0 else Inr pos0) (\<lambda>pos1.
                bindE (tag__natural_alignment n cu (Some (j, type))) (\<lambda>(natural, cu').
                bindE (class__infer_alignment cl (cm_byte_offset pos1) natural smallest_offset) (\<lambda>al.
                  Inr (pos1\<lparr>cm_alignment := al\<rparr>,
                       if byte_size = 0 then smallest_offset else btf_member_end pos1, cu'))))))"

text \<open>The structure is entry \<open>i\<close> of the types; \<open>tag__natural_alignment\<close> writes to the unit as well.\<close>

definition set_ns_entry :: "tag \<Rightarrow> nat \<Rightarrow> ns_entry \<Rightarrow> tag" where
  "set_ns_entry t k e =
     t\<lparr>tg_body :=
       (case tg_body t of
          Type_body ty \<Rightarrow> Type_body (ty\<lparr>ty_tags := (ty_tags ty)[k := e]\<rparr>)
        | Class_body c \<Rightarrow> Class_body (c\<lparr>ty_tags := (ty_tags c)[k := e]\<rparr>)
        | body \<Rightarrow> body)\<rparr>"

definition set_alignment :: "tag \<Rightarrow> nat \<Rightarrow> tag" where
  "set_alignment t al =
     t\<lparr>tg_body :=
       (case tg_body t of
          Type_body ty \<Rightarrow> Type_body (ty\<lparr>ty_alignment := al\<rparr>)
        | Class_body c \<Rightarrow> Class_body (c\<lparr>ty_alignment := al\<rparr>)
        | body \<Rightarrow> body)\<rparr>"

definition fixup_btf_entry :: "nat \<Rightarrow> nat \<Rightarrow> nat \<Rightarrow> nat \<Rightarrow> cu \<times> nat \<Rightarrow> fault + cu \<times> nat" where
  "fixup_btf_entry n cl i k s =
     (case s of (cu, smallest_offset) \<Rightarrow>
        bindE (get_type cu i) (\<lambda>(t, ty).
          case ty_tags ty ! k of
            Member pos \<Rightarrow>
              if cm_tag pos = DW_TAG_member then
                bindE (fixup_btf_member n cl cu pos smallest_offset) (\<lambda>(pos', smallest_offset', cu').
                bindE (get_type cu' i) (\<lambda>(t', ty').
                  Inr (cu_set_type cu' i (set_ns_entry t' k (Member pos')), smallest_offset')))
              else Inr s
          | _ \<Rightarrow> Inr s))"

definition class__fixup_btf_bitfields :: "nat \<Rightarrow> nat \<Rightarrow> nat \<Rightarrow> cu \<Rightarrow> fault + cu" where
  "class__fixup_btf_bitfields n cl i cu =
     bindE (get_type cu i) (\<lambda>(t, ty).
     bindE (fold_e (fixup_btf_entry n cl i) [0..<length (ty_tags ty)] (cu, 0)) (\<lambda>(cu1, smallest_offset).
     bindE (get_type cu1 i) (\<lambda>(t1, ty1).
     bindE (tag__natural_alignment n cu1 (Some (i, t1))) (\<lambda>(natural, cu2).
     bindE (class__infer_alignment cl (ty_size ty1) natural smallest_offset) (\<lambda>al.
     bindE (get_type cu2 i) (\<lambda>(t2, ty2).
       Inr (cu_set_type cu2 i (set_alignment t2 al))))))))"

fun fixup_btf_tags :: "nat \<Rightarrow> nat \<Rightarrow> tag_ref list \<Rightarrow> cu \<Rightarrow> fault + cu" where
  "fixup_btf_tags n cl [] cu = Inr cu"
| "fixup_btf_tags n cl (r # rs) cu =
     (case r of
        Type_ref i \<Rightarrow>
          bindE (cu__type (Some cu) i) (\<lambda>t.
            case t of
              None \<Rightarrow> fixup_btf_tags n cl rs cu
            | Some pos \<Rightarrow>
                if tag__is_struct (tg_tag pos) \<or> tag__is_union (tg_tag pos)
                then bindE (class__fixup_btf_bitfields n cl i cu) (fixup_btf_tags n cl rs)
                else fixup_btf_tags n cl rs cu)
      | _ \<Rightarrow> fixup_btf_tags n cl rs cu)"

definition cu__fixup_btf_bitfields :: "nat \<Rightarrow> nat \<Rightarrow> cu \<Rightarrow> fault + int \<times> cu" where
  "cu__fixup_btf_bitfields n cl cu = map_sum id (Pair 0) (fixup_btf_tags n cl (cu_tags cu) cu)"

section \<open>Loading a file\<close>

text \<open>
  \<open>parse\<close> is \<open>btf__parse_split\<close> with the base of the configuration: an error or the types.  \<open>steal\<close> is
  \<open>conf->steal\<close>.  \<open>LANG_C\<close> is 2.  \<open>little_endian\<close> is not a field of the model's units.
\<close>

definition cus__load_btf ::
  "heap_env \<Rightarrow> (dw_tag \<Rightarrow> nat) \<Rightarrow> (nat \<Rightarrow> nat) \<Rightarrow> nat \<Rightarrow> nat \<Rightarrow> (string \<Rightarrow> int + btf) \<Rightarrow> nat \<Rightarrow> nat \<Rightarrow> (cu \<Rightarrow> bool) option \<Rightarrow>
    cus \<Rightarrow> string \<Rightarrow> fault + int \<times> cus" where
  "cus__load_btf h zs z zi z_cu parse n cl steal cus filename =
     bindE (cu__new h z_cu (Some filename) 0 [] (Some filename)) (\<lambda>c.
       case c of
         None \<Rightarrow> Inr (-1, cus)
       | Some cu0 \<Rightarrow>
           (case parse filename of
              Inl err \<Rightarrow> Inr (err, cus)
            | Inr b \<Rightarrow>
                bindE (btf__load_sections h zs z zi b (cu0\<lparr>cu_language := 2, cu_addr_size := bs_pointer_size b\<rparr>))
                  (\<lambda>(err, cu1, sites).
                  if err \<noteq> 0 then Inr (err, cus)
                  else
                    bindE (cu__fixup_btf_bitfields n cl cu1) (\<lambda>(err', cu2).
                      if (case steal of None \<Rightarrow> False | Some st \<Rightarrow> st cu2) then Inr (0, cus)
                      else Inr (err', cus__add cus cu2)))))"

end
