(* ===== verification/BtfTypes.thy ===== *)
theory BtfTypes
  imports BtfLoader
begin

text \<open>
  What loading BTF gives: every type of a well formed file is in the table of its kind under its own id,
  as a tag of the kind the BTF type has, with the body the rest of the program reads.
\<close>

section \<open>Well formed files\<close>

definition btf_named :: "btf \<Rightarrow> nat \<Rightarrow> bool" where "btf_named b off \<longleftrightarrow> cu__btf_str b off \<noteq> None"

text \<open>The data behind a type are those of its kind, as many as it announces, and what must have a name has one.\<close>

definition btf_type_ok :: "btf \<Rightarrow> btf_type \<Rightarrow> bool" where
  "btf_type_ok b tp \<longleftrightarrow>
     (let k = btf_kind tp; n = btf_vlen tp
      in if k = BTF_KIND_INT then (case bp_data tp of Int_data v \<Rightarrow> btf_named b (bp_name_off tp) | _ \<Rightarrow> False)
         else if k = BTF_KIND_FLOAT then btf_named b (bp_name_off tp)
         else if k = BTF_KIND_ARRAY then (case bp_data tp of Array_data e m \<Rightarrow> True | _ \<Rightarrow> False)
         else if k = BTF_KIND_STRUCT \<or> k = BTF_KIND_UNION then
           (case bp_data tp of Member_data ms \<Rightarrow> n \<le> length ms | _ \<Rightarrow> False)
         else if k = BTF_KIND_ENUM then
           (case bp_data tp of Enum_data es \<Rightarrow> n \<le> length es \<and> list_all (btf_named b \<circ> fst) es | _ \<Rightarrow> False)
         else if k = BTF_KIND_ENUM64 then
           (case bp_data tp of Enum64_data es \<Rightarrow> n \<le> length es \<and> list_all (btf_named b \<circ> fst) es | _ \<Rightarrow> False)
         else if k = BTF_KIND_FUNC_PROTO then (case bp_data tp of Param_data ps \<Rightarrow> n \<le> length ps | _ \<Rightarrow> False)
         else if k = BTF_KIND_VAR then (case bp_data tp of Var_data l \<Rightarrow> True | _ \<Rightarrow> False)
         else True)"

text \<open>The kind of the type with an id; void and the ids beyond the last have none.\<close>

definition kind_of :: "btf \<Rightarrow> nat \<Rightarrow> nat" where
  "kind_of b i = (if 0 < i \<and> i \<le> length (bs_types b) then btf_kind (bs_types b ! (i - 1)) else BTF_KIND_UNKN)"

text \<open>A declaration tag has a name; one of a parameter of a function finds a prototype there.\<close>

definition btf_decl_tag_ok :: "btf \<Rightarrow> btf_type \<Rightarrow> bool" where
  "btf_decl_tag_ok b tp \<longleftrightarrow>
     btf_kind tp = BTF_KIND_DECL_TAG \<longrightarrow>
       btf_named b (bp_name_off tp) \<and>
       (case bp_data tp of
          Decl_tag_data c \<Rightarrow>
            0 \<le> c \<and> kind_of b (bp_arg tp) = BTF_KIND_FUNC \<longrightarrow>
              kind_of b (bp_arg (bs_types b ! (bp_arg tp - 1))) = BTF_KIND_FUNC_PROTO
        | _ \<Rightarrow> False)"

definition btf_ok :: "btf \<Rightarrow> bool" where
  "btf_ok b \<longleftrightarrow>
     length (bs_types b) + 1 < pt_limit \<and> kind_of b 1 \<noteq> BTF_KIND_DECL_TAG \<and>
     list_all (\<lambda>tp. btf_type_ok b tp \<and> btf_decl_tag_ok b tp) (bs_types b)"

section \<open>The tag of a kind\<close>

definition btf_dw_tag :: "btf_type \<Rightarrow> dw_tag option" where
  "btf_dw_tag tp =
     (let k = btf_kind tp
      in if k = BTF_KIND_INT \<or> k = BTF_KIND_FLOAT then Some DW_TAG_base_type
         else if k = BTF_KIND_ARRAY then Some DW_TAG_array_type
         else if k = BTF_KIND_STRUCT then Some DW_TAG_structure_type
         else if k = BTF_KIND_UNION then Some DW_TAG_union_type
         else if k = BTF_KIND_ENUM \<or> k = BTF_KIND_ENUM64 then Some DW_TAG_enumeration_type
         else if k = BTF_KIND_FWD then Some (if btf_kflag tp then DW_TAG_union_type else DW_TAG_structure_type)
         else if k = BTF_KIND_TYPEDEF then Some DW_TAG_typedef
         else if k = BTF_KIND_VAR then Some DW_TAG_variable
         else if k = BTF_KIND_CONST then Some DW_TAG_const_type
         else if k = BTF_KIND_PTR then Some DW_TAG_pointer_type
         else if k = BTF_KIND_RESTRICT then Some DW_TAG_restrict_type
         else if k = BTF_KIND_VOLATILE then Some DW_TAG_volatile_type
         else if k = BTF_KIND_TYPE_TAG then Some DW_TAG_LLVM_annotation
         else if k = BTF_KIND_FUNC_PROTO then Some DW_TAG_subroutine_type
         else if k = BTF_KIND_FUNC then Some DW_TAG_subprogram
         else None)"

text \<open>
  A tag that stands for a BTF type: of its kind, with the body of that kind; an array knows the number of
  entries of each of its dimensions; a function refers to the prototype the BTF type refers to.
\<close>

definition btf_tag_ok :: "btf_type \<Rightarrow> tag \<Rightarrow> bool" where
  "btf_tag_ok tp t \<longleftrightarrow>
     btf_dw_tag tp = Some (tg_tag t) \<and> tag_wf t \<and>
     (\<forall>a. tg_body t = Array_body a \<longrightarrow> (\<exists>es. at_nr_entries a = Some es \<and> length es = at_dimensions a)) \<and>
     (tg_tag t = DW_TAG_subprogram \<longrightarrow> tg_type t = bp_arg tp)"

text \<open>The unit after the types with an id below \<open>i\<close>.\<close>

definition btf_loaded :: "btf \<Rightarrow> nat \<Rightarrow> cu \<Rightarrow> bool" where
  "btf_loaded b i cu \<longleftrightarrow>
     cu_ok cu \<and>
     (\<forall>tb j t. pt_lookup (cu_get_table cu tb) j = Some t \<longrightarrow>
        0 < j \<and> j < i \<and> cu_table_of t = tb \<and> btf_tag_ok (bs_types b ! (j - 1)) t) \<and>
     (\<forall>j k. 0 < j \<longrightarrow> j < i \<longrightarrow> btf_dw_tag (bs_types b ! (j - 1)) = Some k \<longrightarrow>
        (\<exists>t. tg_tag t = k \<and> pt_lookup (cu_get_table cu (cu_table_of t)) j = Some t))"

lemma cu_table_of_tag: "tg_tag t = tg_tag u \<Longrightarrow> cu_table_of t = cu_table_of u"
  by (simp add: cu_table_of_def)

section \<open>Entering tags\<close>

lemma cu_get_table_tags [simp]: "cu_get_table (cu\<lparr>cu_tags := x\<rparr>) tb = cu_get_table cu tb"
  by (cases tb) simp_all

lemma cu_ok_tags [simp]: "cu_ok (cu\<lparr>cu_tags := x\<rparr>) = cu_ok cu"
  by (simp add: cu_ok_def cu_inv_def)

lemma enter_tag_at:
  assumes "cu_ok cu" "tag_wf t" "pt_mem h" "i < pt_limit"
  shows "\<exists>cu'. enter_tag h cu t i = Inr cu' \<and> cu_ok cu' \<and>
           (\<forall>tb. pt_lookup (cu_get_table cu' tb) =
              (if tb = cu_table_of t then (pt_lookup (cu_get_table cu tb))(i := Some t)
               else pt_lookup (cu_get_table cu tb)))"
proof -
  let ?tb = "cu_table_of t"
  from cu_enter_function_ok [OF assms(1,2), of i] obtain cu1 u where
    c1: "cu_enter_function cu t i = Inr cu1" "cu_ok cu1" "cu1 = cu\<lparr>cu_functions := u\<rparr>" by blast
  have inv: "pt_inv (cu_get_table cu1 ?tb)" using c1(2) by (simp add: cu_ok_def cu_inv_tables)
  from ptr_table__add_with_id_ok [OF inv assms(4,3), of "Some t"] c1(3) obtain pt where
    p: "ptr_table__add_with_id h (cu_get_table cu1 ?tb) (Some t) i = Inr (0, pt)" "pt_inv pt"
      "pt_lookup pt = (pt_lookup (cu_get_table cu ?tb))(i := Some t)" by auto
  have e: "cu__table_add_tag_with_id h cu t i = Inr (0, cu_set_table cu1 ?tb pt)"
    unfolding cu__table_add_tag_with_id_def Let_def c1(1) using p(1) by simp
  show ?thesis
    unfolding enter_tag_def cu__add_tag_with_id_def e
    using p c1 cu_ok_set_table [OF c1(2) p(2), of ?tb] by simp
qed

lemma btf_enter:
  assumes "btf_loaded b i cu" "btf_tag_ok (bs_types b ! (i - 1)) t" "pt_mem h" "0 < i" "i < pt_limit"
  shows "\<exists>cu'. enter_tag h cu t i = Inr cu' \<and> btf_loaded b (Suc i) cu'"
proof -
  from enter_tag_at [of cu t h i] assms obtain cu' where
    c: "enter_tag h cu t i = Inr cu'" "cu_ok cu'"
      "\<And>tb. pt_lookup (cu_get_table cu' tb) = (if tb = cu_table_of t then (pt_lookup (cu_get_table cu tb))(i := Some t)
               else pt_lookup (cu_get_table cu tb))"
    by (auto simp: btf_loaded_def btf_tag_ok_def)
  have "btf_loaded b (Suc i) cu'"
    unfolding btf_loaded_def
  proof (intro conjI allI impI)
    show "cu_ok cu'" by (rule c(2))
  next
    fix tb j u assume "pt_lookup (cu_get_table cu' tb) j = Some u"
    then show "0 < j" "j < Suc i" "cu_table_of u = tb" "btf_tag_ok (bs_types b ! (j - 1)) u"
      using assms(1,2,4) unfolding c(3) btf_loaded_def
      by (auto split: if_splits simp: less_Suc_eq fun_upd_apply)
  next
    fix j k assume j: "0 < j" "j < Suc i" "btf_dw_tag (bs_types b ! (j - 1)) = Some k"
    show "\<exists>u. tg_tag u = k \<and> pt_lookup (cu_get_table cu' (cu_table_of u)) j = Some u"
    proof (cases "j = i")
      case True
      with j(3) assms(2) have "tg_tag t = k" by (simp add: btf_tag_ok_def)
      with True show ?thesis by (auto simp: c(3) intro: exI [of _ t])
    next
      case False
      with j assms(1) obtain u where "tg_tag u = k" "pt_lookup (cu_get_table cu (cu_table_of u)) j = Some u"
        unfolding btf_loaded_def by (metis less_antisym)
      with False show ?thesis by (auto simp: c(3) intro: exI [of _ u])
    qed
  qed
  with c(1) show ?thesis by blast
qed

lemma btf_skip:
  assumes "btf_loaded b i cu" "btf_dw_tag (bs_types b ! (i - 1)) = None"
  shows "btf_loaded b (Suc i) cu"
  using assms unfolding btf_loaded_def by (metis less_Suc_eq option.distinct(1))


section \<open>One type\<close>

definition roomy :: "heap_env \<Rightarrow> bool" where "roomy h \<longleftrightarrow> pt_mem h \<and> (\<forall>n. avail h n)"

definition loads :: "btf \<Rightarrow> nat \<Rightarrow> fault + int \<times> cu \<Rightarrow> bool" where
  "loads b i r \<longleftrightarrow> (\<exists>cu'. r = Inr (0, cu') \<and> btf_loaded b (Suc i) cu')"

text \<open>The state in front of type \<open>i\<close>, whose words are \<open>tp\<close>.\<close>

definition at_type :: "heap_env \<Rightarrow> btf \<Rightarrow> nat \<Rightarrow> btf_type \<Rightarrow> cu \<Rightarrow> bool" where
  "at_type h b i tp cu \<longleftrightarrow>
     btf_loaded b i cu \<and> roomy h \<and> 0 < i \<and> i < pt_limit \<and> bs_types b ! (i - 1) = tp \<and> btf_type_ok b tp"

lemma at_type_avail: "at_type h b i tp cu \<Longrightarrow> avail h n"
  by (simp add: at_type_def roomy_def)

lemma enter_loads:
  assumes "at_type h b i tp cu" "btf_tag_ok tp t"
  shows "loads b i (bindE (enter_tag h cu t i) (\<lambda>cu'. Inr (0, cu')))"
proof -
  from assms btf_enter [of b i cu t h] obtain cu' where "enter_tag h cu t i = Inr cu'" "btf_loaded b (Suc i) cu'"
    by (auto simp: at_type_def roomy_def)
  then show ?thesis by (simp add: loads_def)
qed

lemma named_some: "btf_named b off \<Longrightarrow> \<exists>s. cu__btf_str b off = Some s"
  by (simp add: btf_named_def)

lemma entries_of_le: "n \<le> length xs \<Longrightarrow> entries_of n xs = Inr (take n xs)"
  by (simp add: entries_of_def)

lemma load_parms_some: "\<forall>n. avail h n \<Longrightarrow> \<exists>p. btf_load_parms h z b ps proto = Some p"
  by (induction ps arbitrary: proto) auto

lemma add_members_some: "\<forall>n. avail h n \<Longrightarrow> \<exists>c. btf_add_members h z b tp ms cls = Some c"
  by (induction ms arbitrary: cls) auto

lemma add_enumerators_some:
  "\<forall>n. avail h n \<Longrightarrow> list_all (btf_named b \<circ> fst) eps \<Longrightarrow> \<exists>t'. btf_add_enumerators h z b eps t = Inr (Some t')"
proof (induction eps arbitrary: t)
  case (Cons e eps)
  obtain off v where e: "e = (off, v)" by (cases e)
  with Cons.prems obtain s where "cu__btf_str b off = Some s" using named_some [of b off] by auto
  with Cons e show ?case by (simp add: some_name_def)
qed simp

lemmas tag_ok_defs = btf_tag_ok_def btf_dw_tag_def tag_wf_def tag_defs btf_kinds

lemma base_loads:
  assumes "at_type h b i tp cu" "btf_kind tp = BTF_KIND_INT \<or> btf_kind tp = BTF_KIND_FLOAT" "btf_named b (bp_name_off tp)"
  shows "loads b i (enter_base h zs b tp attrs ft bits i cu)"
proof -
  obtain s where s: "cu__btf_str b (bp_name_off tp) = Some s" using named_some [OF assms(3)] by blast
  show ?thesis
    using assms(2)
    by (auto simp: enter_base_def s some_name_def btf_base_type__new_def at_type_avail [OF assms(1)]
        intro!: enter_loads [OF assms(1)]) (auto simp: tag_ok_defs)
qed

lemma array_loads:
  assumes "at_type h b i tp cu" "btf_kind tp = BTF_KIND_ARRAY"
  shows "loads b i (btf_create_new_array h zs tp i cu)"
proof -
  obtain e m where d: "bp_data tp = Array_data e m"
    using assms by (auto simp: at_type_def btf_type_ok_def btf_kinds split: btf_data.splits)
  have ok: "btf_tag_ok tp \<lparr>tg_tag = DW_TAG_array_type, tg_type = ty,
      tg_body = Array_body \<lparr>at_nr_entries = Some es, at_dimensions = n, at_is_vector = False\<rparr>\<rparr>" if "length es = n" for ty es n
    using assms(2) that by (simp add: tag_ok_defs)
  have inv: "cu_inv cu" using assms(1) by (simp add: at_type_def btf_loaded_def cu_ok_def)
  note enter = enter_loads [OF assms(1) ok]
  show ?thesis
  proof (cases "cu_types cu e")
    case None
    then show ?thesis using enter [of "[m]" 1 e] by (simp add: btf_create_new_array_def d at_type_avail [OF assms(1)] inv)
  next
    case (Some t)
    show ?thesis
    proof (cases "tg_tag t = DW_TAG_array_type")
      case False
      then show ?thesis using enter [of "[m]" 1 e] Some by (simp add: btf_create_new_array_def d at_type_avail [OF assms(1)] inv)
    next
      case True
      have "btf_tag_ok (bs_types b ! (e - 1)) t"
        using assms(1) Some unfolding at_type_def btf_loaded_def cu_types_def by (metis cu_get_table.simps(1))
      then obtain a es where a: "tg_body t = Array_body a" "at_nr_entries a = Some es" "length es = at_dimensions a"
        using True tag_wf_array [of t] unfolding btf_tag_ok_def by blast
      show ?thesis
      proof (cases "at_dimensions a < 255")
        case True
        with \<open>tg_tag t = _\<close> show ?thesis
          using enter [of "m # es" "at_dimensions a + 1" "tg_type t"] a Some
          by (simp add: btf_create_new_array_def d at_type_avail [OF assms(1)] inv tag__array_type_def)
      next
        case False
        with \<open>tg_tag t = _\<close> show ?thesis
          using enter [of "[m]" 1 e] a Some by (simp add: btf_create_new_array_def d at_type_avail [OF assms(1)] inv tag__array_type_def)
      qed
    qed
  qed
qed

lemma members_loads:
  assumes "at_type h b i tp cu" "btf_kind tp = BTF_KIND_STRUCT \<or> btf_kind tp = BTF_KIND_UNION"
  shows "\<exists>c. btf_create_members h z b tp cls = Inr (Some c)"
proof -
  obtain ms where "bp_data tp = Member_data ms" "btf_vlen tp \<le> length ms"
    using assms by (auto simp: at_type_def btf_type_ok_def btf_kinds split: btf_data.splits)
  then show ?thesis
    using add_members_some [of h z b tp _ cls] assms(1)
    by (simp add: btf_create_members_def entries_of_le at_type_def roomy_def)
qed

lemma class_loads:
  assumes "at_type h b i tp cu" "btf_kind tp = BTF_KIND_STRUCT"
  shows "loads b i (btf_create_new_class h zs b tp i cu)"
proof -
  obtain c where c: "btf_create_members h (zs DW_TAG_member) b tp
      (class_zero (type__init (cu__btf_str b (bp_name_off tp)) (bp_arg tp))) = Inr (Some c)"
    using members_loads [OF assms(1)] assms(2) by blast
  show ?thesis
    unfolding btf_create_new_class_def class__new_def using assms
    by (simp add: c at_type_avail [OF assms(1)]) (rule enter_loads [OF assms(1)], simp add: tag_ok_defs)
qed

lemma union_loads:
  assumes "at_type h b i tp cu" "btf_kind tp = BTF_KIND_UNION"
  shows "loads b i (btf_create_new_union h zs b tp i cu)"
proof -
  obtain c where c: "btf_create_members h (zs DW_TAG_member) b tp
      (type__init (cu__btf_str b (bp_name_off tp)) (bp_arg tp)) = Inr (Some c)"
    using members_loads [OF assms(1)] assms(2) by blast
  show ?thesis
    unfolding btf_create_new_union_def type__new_def using assms
    by (simp add: c at_type_avail [OF assms(1)]) (rule enter_loads [OF assms(1)], simp add: tag_ok_defs)
qed

lemma enumeration_loads:
  assumes "at_type h b i tp cu" "btf_kind tp = BTF_KIND_ENUM \<or> btf_kind tp = BTF_KIND_ENUM64"
    "list_all (btf_named b \<circ> fst) eps"
  shows "loads b i (btf_enumeration h zs b tp eps i cu)"
proof -
  let ?t = "type__init (cu__btf_str b (bp_name_off tp)) (if bp_arg tp \<noteq> 0 then bp_arg tp * 8 else 32)"
  obtain t' where t': "btf_add_enumerators h (zs DW_TAG_enumerator) b eps (?t\<lparr>ty_is_signed_enum := btf_kflag tp\<rparr>) = Inr (Some t')"
    using add_enumerators_some [OF _ assms(3)] at_type_avail [OF assms(1)] by blast
  show ?thesis
    unfolding btf_enumeration_def type__new_def using assms
    by (simp only: at_type_avail [OF assms(1)] if_True option.case t' sum.case) (rule enter_loads [OF assms(1)], auto simp: tag_ok_defs)
qed


lemma enumerations_load:
  assumes "at_type h b i tp cu" "btf_kind tp = BTF_KIND_ENUM"
  shows "loads b i (btf_create_new_enumeration h zs b tp i cu)"
proof -
  obtain es where d: "bp_data tp = Enum_data es" "btf_vlen tp \<le> length es" "list_all (btf_named b \<circ> fst) es"
    using assms by (auto simp: at_type_def btf_type_ok_def btf_kinds split: btf_data.splits)
  have "list_all (btf_named b \<circ> fst) (map (\<lambda>(name_off, val). (name_off, btf_enum_value (btf_kflag tp) val)) (take (btf_vlen tp) es))"
    using d(3) by (fastforce simp: list_all_iff dest: in_set_takeD)
  from enumeration_loads [OF assms(1) disjI1 [OF assms(2)] this] show ?thesis
    by (simp add: btf_create_new_enumeration_def d entries_of_le)
qed

lemma enumerations64_load:
  assumes "at_type h b i tp cu" "btf_kind tp = BTF_KIND_ENUM64"
  shows "loads b i (create_new_enumeration64 h zs b tp i cu)"
proof -
  obtain es where d: "bp_data tp = Enum64_data es" "btf_vlen tp \<le> length es" "list_all (btf_named b \<circ> fst) es"
    using assms by (auto simp: at_type_def btf_type_ok_def btf_kinds split: btf_data.splits)
  have "list_all (btf_named b \<circ> fst) (take (btf_vlen tp) es)"
    using d(3) by (auto simp: list_all_iff dest: in_set_takeD)
  from enumeration_loads [OF assms(1) disjI2 [OF assms(2)] this] show ?thesis
    by (simp add: create_new_enumeration64_def d entries_of_le)
qed

lemma fwd_loads:
  assumes "at_type h b i tp cu" "btf_kind tp = BTF_KIND_FWD"
  shows "loads b i (btf_create_new_forward_decl h zs b tp i cu)"
  unfolding btf_create_new_forward_decl_def class__new_def
  by (simp only: at_type_avail [OF assms(1)] if_True option.case)
    (rule enter_loads [OF assms(1)], use assms(2) in \<open>simp add: tag_ok_defs\<close>)

lemma typedef_loads:
  assumes "at_type h b i tp cu" "btf_kind tp = BTF_KIND_TYPEDEF"
  shows "loads b i (btf_create_new_typedef h zs b tp i cu)"
  unfolding btf_create_new_typedef_def type__new_def
  by (simp only: at_type_avail [OF assms(1)] if_True option.case)
    (rule enter_loads [OF assms(1)], use assms(2) in \<open>simp add: tag_ok_defs\<close>)

lemma variable_loads:
  assumes "at_type h b i tp cu" "btf_kind tp = BTF_KIND_VAR"
  shows "loads b i (create_new_variable h zs b tp i cu)"
proof -
  obtain l where d: "bp_data tp = Var_data l"
    using assms by (auto simp: at_type_def btf_type_ok_def btf_kinds split: btf_data.splits)
  show ?thesis
    unfolding create_new_variable_def btf_variable__new_def
    by (simp only: at_type_avail [OF assms(1)] d btf_data.case if_True option.case)
      (rule enter_loads [OF assms(1)], use assms(2) in \<open>simp add: tag_ok_defs\<close>)
qed

lemma tag_loads:
  assumes "at_type h b i tp cu"
    "btf_kind tp \<in> {BTF_KIND_VOLATILE, BTF_KIND_PTR, BTF_KIND_CONST, BTF_KIND_RESTRICT, BTF_KIND_TYPE_TAG}"
  shows "loads b i (btf_create_new_tag h zs (btf_kind tp) tp i cu)"
proof -
  have "btf_tag_ok tp \<lparr>tg_tag = tg, tg_type = bp_arg tp, tg_body = Plain\<rparr>" if "btf_dw_tag tp = Some tg" for tg
    using assms(2) that by (auto simp: btf_tag_ok_def btf_dw_tag_def btf_kinds tag_wf_def tag_defs)
  then show ?thesis
    using assms(2) enter_loads [OF assms(1)]
    by (auto simp: btf_create_new_tag_def at_type_avail [OF assms(1)] btf_kinds btf_dw_tag_def)
qed

lemma proto_loads:
  assumes "at_type h b i tp cu" "btf_kind tp = BTF_KIND_FUNC_PROTO"
  shows "loads b i (btf_create_new_subroutine_type h zs b tp i cu)"
proof -
  obtain ps where d: "bp_data tp = Param_data ps" "btf_vlen tp \<le> length ps"
    using assms by (auto simp: at_type_def btf_type_ok_def btf_kinds split: btf_data.splits)
  obtain p where p: "btf_load_parms h (zs DW_TAG_formal_parameter) b (take (btf_vlen tp) ps) ftype_zero = Some p"
    using load_parms_some at_type_avail [OF assms(1)] by blast
  show ?thesis
    unfolding btf_create_new_subroutine_type_def cu__load_ftype_def
    by (simp only: at_type_avail [OF assms(1)] d entries_of_le p btf_data.case if_True option.case sum.case)
      (rule enter_loads [OF assms(1)], use assms(2) in \<open>simp add: tag_ok_defs\<close>)
qed

lemma function_loads:
  assumes "at_type h b i tp cu" "btf_kind tp = BTF_KIND_FUNC"
  shows "loads b i (btf_create_new_function h zs b tp i cu)"
  unfolding btf_create_new_function_def
  by (simp only: at_type_avail [OF assms(1)] not_True_eq_False if_False)
    (rule enter_loads [OF assms(1)], use assms(2) in \<open>simp add: tag_ok_defs\<close>)

lemma skip_loads: "at_type h b i tp cu \<Longrightarrow> btf_dw_tag tp = None \<Longrightarrow> loads b i (Inr (0, cu))"
  using btf_skip [of b i cu] by (simp add: loads_def at_type_def)

text \<open>Nothing was under the id yet.\<close>

lemma nullify_loads:
  assumes "at_type h b i tp cu" "btf_dw_tag tp = None"
  shows "loads b i (map_sum id (\<lambda>(rc, cu'). (0, cu')) (cu__table_nullify_type_entry h cu i))"
proof -
  have a: "btf_loaded b i cu" "pt_mem h" "i < pt_limit" using assms(1) by (simp_all add: at_type_def roomy_def)
  have inv: "pt_inv (cu_types_table cu)" using a(1) by (simp add: btf_loaded_def cu_ok_def cu_inv_def)
  from ptr_table__add_with_id_ok [OF inv a(3,2), of None] obtain pt where
    p: "ptr_table__add_with_id h (cu_types_table cu) None i = Inr (0, pt)" "pt_inv pt"
      "pt_lookup pt = (pt_lookup (cu_types_table cu))(i := None)" by blast
  have "pt_lookup (cu_types_table cu) i = None"
    using a(1) unfolding btf_loaded_def by (metis cu_get_table.simps(1) less_irrefl option.exhaust)
  then have l: "pt_lookup pt = pt_lookup (cu_types_table cu)" using p(3) by (simp add: fun_upd_idem)
  have "pt_lookup (cu_get_table (cu\<lparr>cu_types_table := pt\<rparr>) tb) = pt_lookup (cu_get_table cu tb)" for tb
    using l by (cases tb) simp_all
  moreover have "cu_ok (cu\<lparr>cu_types_table := pt\<rparr>)"
    using cu_ok_set_table [of cu pt Types] a(1) p(2) by (simp add: btf_loaded_def)
  ultimately have "btf_loaded b i (cu\<lparr>cu_types_table := pt\<rparr>)" using a(1) by (simp add: btf_loaded_def)
  then show ?thesis
    using btf_skip assms p(1) by (simp add: loads_def cu__table_nullify_type_entry_def at_type_def)
qed

text \<open>Every kind: a declaration tag keeps the result of the turn before.\<close>

lemma type_loads:
  assumes "at_type h b i tp cu" "btf_kind tp = BTF_KIND_DECL_TAG \<Longrightarrow> err = Some 0"
  shows "loads b i (btf_create_type h zs b tp i err cu)"
proof -
  note a = assms(1)
  have named: "btf_named b (bp_name_off tp)" if "btf_kind tp = BTF_KIND_INT \<or> btf_kind tp = BTF_KIND_FLOAT"
    using a that by (auto simp: at_type_def btf_type_ok_def btf_kinds split: btf_data.splits)
  have int: "loads b i (btf_create_new_int_type h zs b tp i cu)" if k: "btf_kind tp = BTF_KIND_INT"
  proof -
    obtain v where "bp_data tp = Int_data v"
      using a k by (auto simp: at_type_def btf_type_ok_def btf_kinds split: btf_data.splits)
    then show ?thesis using base_loads [OF a] k named by (simp add: btf_create_new_int_type_def)
  qed
  have other: "btf_dw_tag tp = None" if "btf_kind tp \<notin> {BTF_KIND_INT, BTF_KIND_FLOAT, BTF_KIND_ARRAY, BTF_KIND_STRUCT,
      BTF_KIND_UNION, BTF_KIND_ENUM, BTF_KIND_ENUM64, BTF_KIND_FWD, BTF_KIND_TYPEDEF, BTF_KIND_VAR, BTF_KIND_CONST,
      BTF_KIND_PTR, BTF_KIND_RESTRICT, BTF_KIND_VOLATILE, BTF_KIND_TYPE_TAG, BTF_KIND_FUNC_PROTO, BTF_KIND_FUNC}"
    using that by (simp add: btf_dw_tag_def)
  have decl: "loads b i (case err of None \<Rightarrow> Inl Uninitialised | Some e \<Rightarrow> Inr (e, cu))" if k: "btf_kind tp = BTF_KIND_DECL_TAG"
    using skip_loads [OF a other] assms(2) k by (simp add: btf_kinds)
  have float: "loads b i (enter_base h zs b tp 0 1 (u32 (bp_arg tp * 8)) i cu)" if k: "btf_kind tp = BTF_KIND_FLOAT"
    using base_loads [OF a _ named] k by blast
  have unkn: "loads b i (map_sum id (\<lambda>(rc, cu'). (0, cu')) (cu__table_nullify_type_entry h cu i))"
    if k: "btf_kind tp = BTF_KIND_UNKN"
    by (rule nullify_loads [OF a other]) (use k in \<open>simp add: btf_kinds\<close>)
  have datasec: "loads b i (Inr (0, cu))" if k: "btf_kind tp = BTF_KIND_DATASEC"
    by (rule skip_loads [OF a other]) (use k in \<open>simp add: btf_kinds\<close>)
  have tags: "loads b i (btf_create_new_tag h zs (btf_kind tp) tp i cu)"
    if k: "btf_kind tp = BTF_KIND_VOLATILE \<or> btf_kind tp = BTF_KIND_PTR \<or> btf_kind tp = BTF_KIND_CONST \<or>
      btf_kind tp = BTF_KIND_RESTRICT \<or> btf_kind tp = BTF_KIND_TYPE_TAG"
    using tag_loads [OF a] k by simp
  have ifI: "(Q \<Longrightarrow> loads b i x) \<Longrightarrow> (\<not> Q \<Longrightarrow> loads b i y) \<Longrightarrow> loads b i (if Q then x else y)" for Q x y by simp
  show ?thesis
    unfolding btf_create_type_def Let_def create_new_datasec_def btf_create_new_float_type_def
    by (rule ifI, erule int, rule ifI, erule array_loads [OF a], rule ifI, erule class_loads [OF a],
        rule ifI, erule union_loads [OF a], rule ifI, erule enumerations_load [OF a],
        rule ifI, erule enumerations64_load [OF a], rule ifI, erule fwd_loads [OF a],
        rule ifI, erule typedef_loads [OF a], rule ifI, erule variable_loads [OF a], rule ifI, erule datasec,
        rule ifI, erule tags, rule ifI, erule unkn, rule ifI, erule proto_loads [OF a],
        rule ifI, erule function_loads [OF a], rule ifI, erule float, rule ifI, erule decl)
      (rule skip_loads [OF a other], simp)
qed


section \<open>All types\<close>

lemma types_loop_loads:
  assumes "btf_ok b" "roomy h"
  shows "btf_loaded b i cu \<Longrightarrow> 0 < i \<Longrightarrow> tps = drop (i - 1) (bs_types b) \<Longrightarrow> i \<le> Suc (length (bs_types b)) \<Longrightarrow>
    (kind_of b i = BTF_KIND_DECL_TAG \<longrightarrow> err = Some 0) \<Longrightarrow>
    \<exists>cu'. btf_types_loop h zs b tps i err cu = Inr (0, cu') \<and> btf_loaded b (Suc (length (bs_types b))) cu'"
proof (induction tps arbitrary: i err cu)
  case Nil
  then have "i = Suc (length (bs_types b))" by simp
  with Nil show ?case by simp
next
  case (Cons tp tps)
  from Cons.prems(2,3) have l: "i - 1 < length (bs_types b)" by (metis drop_all list.distinct(1) not_le)
  then have tp: "bs_types b ! (i - 1) = tp" "tps = drop i (bs_types b)"
    using Cons.prems(2,3) by (metis Cons_nth_drop_Suc list.inject, metis Cons_nth_drop_Suc Suc_pred' list.inject)
  have ok: "at_type h b i tp cu"
    using Cons.prems(1,2) assms l tp(1) nth_mem [OF l] by (auto simp: at_type_def btf_ok_def list_all_iff)
  have err: "btf_kind tp = BTF_KIND_DECL_TAG \<Longrightarrow> err = Some 0"
    using Cons.prems(2,5) l tp(1) by (auto simp: kind_of_def split: if_splits)
  from type_loads [OF ok err] obtain cu1 where c: "btf_create_type h zs b tp i err cu = Inr (0, cu1)" "btf_loaded b (Suc i) cu1"
    by (auto simp: loads_def)
  from Cons.IH [OF c(2), of "Some 0"] tp(2) l Cons.prems(2) show ?case by (simp add: c(1))
qed

section \<open>Attributes\<close>

lemma btf_replace:
  assumes "btf_loaded b i cu" "cu_ok cu'" "pt_lookup (cu_get_table cu tb) j = Some t"
    "\<And>tb'. pt_lookup (cu_get_table cu' tb') =
       (if tb' = tb then (pt_lookup (cu_get_table cu tb))(j := Some u) else pt_lookup (cu_get_table cu tb'))"
    "tg_tag u = tg_tag t" "btf_tag_ok (bs_types b ! (j - 1)) u"
  shows "btf_loaded b i cu'"
  unfolding btf_loaded_def
proof (intro conjI allI impI)
  have j: "0 < j" "j < i" "cu_table_of t = tb" using assms(1,3) unfolding btf_loaded_def by blast+
  show "cu_ok cu'" by (rule assms(2))
  {
    fix tb' k v assume v: "pt_lookup (cu_get_table cu' tb') k = Some v"
    have "0 < k \<and> k < i \<and> cu_table_of v = tb' \<and> btf_tag_ok (bs_types b ! (k - 1)) v"
    proof (cases "tb' = tb \<and> k = j")
      case True
      with v assms(4) have "v = u" by simp
      with True j assms(5,6) cu_table_of_tag [of u t] show ?thesis by simp
    next
      case False
      with v assms(4) have "pt_lookup (cu_get_table cu tb') k = Some v" by (auto split: if_splits)
      with assms(1) show ?thesis unfolding btf_loaded_def by blast
    qed
  }
  then show "0 < k" "k < i" "cu_table_of v = tb'" "btf_tag_ok (bs_types b ! (k - 1)) v"
    if "pt_lookup (cu_get_table cu' tb') k = Some v" for tb' k v using that by blast+
next
  fix k d assume "0 < k" "k < i" "btf_dw_tag (bs_types b ! (k - 1)) = Some d"
  with assms(1) obtain v where v: "tg_tag v = d" "pt_lookup (cu_get_table cu (cu_table_of v)) k = Some v"
    unfolding btf_loaded_def by blast
  show "\<exists>v. tg_tag v = d \<and> pt_lookup (cu_get_table cu' (cu_table_of v)) k = Some v"
  proof (cases "cu_table_of v = tb \<and> k = j")
    case True
    with v assms(3) have "v = t" by simp
    with True v(1) assms(5) cu_table_of_tag [of u t] show ?thesis by (auto simp: assms(4) intro: exI [of _ u])
  next
    case False
    with v show ?thesis by (auto simp: assms(4) intro: exI [of _ v])
  qed
qed

lemma btf_set_type:
  assumes "btf_loaded b i cu" "cu_types cu j = Some t" "tg_tag u = tg_tag t" "btf_tag_ok (bs_types b ! (j - 1)) u"
  shows "btf_loaded b i (cu_set_type cu j u)"
proof (rule btf_replace [where tb = Types, OF assms(1) _ _ _ assms(3,4)])
  have inv: "cu_inv cu" using assms(1) by (simp add: btf_loaded_def cu_ok_def)
  note s = cu_set_type_ok [OF inv assms(2), of u]
  show "cu_ok (cu_set_type cu j u)"
    using assms(1) s by (simp add: btf_loaded_def cu_ok_def) (simp add: cu_set_type_def)
  show "pt_lookup (cu_get_table cu Types) j = Some t" using assms(2) by (simp add: cu_types_def)
  show "pt_lookup (cu_get_table (cu_set_type cu j u) tb') =
    (if tb' = Types then (pt_lookup (cu_get_table cu Types))(j := Some u) else pt_lookup (cu_get_table cu tb'))" for tb'
    using s by (cases tb') (simp_all add: cu_types_def, simp_all add: cu_set_type_def)
qed

lemma btf_set_function:
  assumes "btf_loaded b i cu" "pt_lookup (cu_functions_table cu) j = Some t" "tg_tag u = tg_tag t"
    "btf_tag_ok (bs_types b ! (j - 1)) u"
  shows "btf_loaded b i (cu_set_function cu j u)"
proof (rule btf_replace [where tb = Functions, OF assms(1) _ _ _ assms(3,4)])
  have inv: "pt_inv (cu_functions_table cu)" using assms(1) by (simp add: btf_loaded_def cu_ok_def cu_inv_def)
  have j: "j < pt_nr_entries (cu_functions_table cu)" using assms(2) by (simp add: pt_lookup_def split: if_splits)
  have s: "pt_inv ((cu_functions_table cu)\<lparr>pt_entries := (pt_entries (cu_functions_table cu))[j := Some u]\<rparr>)"
    "pt_lookup ((cu_functions_table cu)\<lparr>pt_entries := (pt_entries (cu_functions_table cu))[j := Some u]\<rparr>) =
      (pt_lookup (cu_functions_table cu))(j := Some u)"
    using inv j by (auto simp: pt_inv_def pt_lookup_def fun_eq_iff nth_list_update)
  show "cu_ok (cu_set_function cu j u)"
    using cu_ok_set_table [of cu _ Functions] s(1) assms(1) by (simp add: cu_set_function_def btf_loaded_def)
  show "pt_lookup (cu_get_table cu Functions) j = Some t" using assms(2) by simp
  show "pt_lookup (cu_get_table (cu_set_function cu j u) tb') =
    (if tb' = Functions then (pt_lookup (cu_get_table cu Functions))(j := Some u) else pt_lookup (cu_get_table cu tb'))" for tb'
    using s(2) by (cases tb') (simp_all add: cu_set_function_def)
qed


lemma function_kind:
  assumes "btf_loaded b (Suc (length (bs_types b))) cu" "pt_lookup (cu_functions_table cu) j = Some t"
  shows "kind_of b j = BTF_KIND_FUNC \<and> tg_tag t = DW_TAG_subprogram \<and> tg_type t = bp_arg (bs_types b ! (j - 1)) \<and>
           btf_tag_ok (bs_types b ! (j - 1)) t"
proof -
  have j: "0 < j" "j < Suc (length (bs_types b))" "cu_table_of t = Functions" "btf_tag_ok (bs_types b ! (j - 1)) t"
    using assms unfolding btf_loaded_def by (metis cu_get_table.simps(2))+
  then have "tg_tag t = DW_TAG_subprogram"
    by (simp add: cu_table_of_def tag__is_function_def split: if_splits)
  with j show ?thesis
    by (auto simp: btf_tag_ok_def btf_dw_tag_def Let_def kind_of_def split: if_splits)
qed

lemma proto_type:
  assumes "btf_loaded b (Suc (length (bs_types b))) cu" "kind_of b p = BTF_KIND_FUNC_PROTO"
  shows "\<exists>t ft. cu_types cu p = Some t \<and> tg_tag t = DW_TAG_subroutine_type \<and> tg_body t = Ftype_body ft"
proof -
  have p: "0 < p" "p < Suc (length (bs_types b))" "btf_kind (bs_types b ! (p - 1)) = BTF_KIND_FUNC_PROTO"
    using assms(2) by (auto simp: kind_of_def btf_kinds split: if_splits)
  have "btf_dw_tag (bs_types b ! (p - 1)) = Some DW_TAG_subroutine_type"
    using p(3) by (simp add: btf_dw_tag_def btf_kinds)
  then obtain t where t: "tg_tag t = DW_TAG_subroutine_type" "pt_lookup (cu_get_table cu (cu_table_of t)) p = Some t"
    using assms(1) p unfolding btf_loaded_def by blast
  then have l: "cu_types cu p = Some t" by (simp add: cu_table_of_def tag_defs cu_types_def)
  then have "tag_wf t" using assms(1) unfolding btf_loaded_def btf_tag_ok_def cu_types_def by (metis cu_get_table.simps(1))
  with t(1) l show ?thesis using tag_wf_ftype by blast
qed

lemma process_decl_tag_ok:
  assumes "btf_loaded b (Suc (length (bs_types b))) cu" "btf_decl_tag_ok b tp" "btf_kind tp = BTF_KIND_DECL_TAG" "roomy h"
  shows "\<exists>cu'. process_decl_tag h z b tp cu = Inr (0, cu') \<and> btf_loaded b (Suc (length (bs_types b))) cu'"
proof -
  obtain c where c: "bp_data tp = Decl_tag_data c"
      "0 \<le> c \<and> kind_of b (bp_arg tp) = BTF_KIND_FUNC \<longrightarrow>
         kind_of b (bp_arg (bs_types b ! (bp_arg tp - 1))) = BTF_KIND_FUNC_PROTO"
    using assms(2,3) by (auto simp: btf_decl_tag_ok_def split: btf_data.splits)
  obtain nm where nm: "cu__btf_str b (bp_name_off tp) = Some nm"
    using assms(2,3) named_some by (auto simp: btf_decl_tag_ok_def)
  have av: "avail h n" for n using assms(4) by (simp add: roomy_def)
  have inv: "cu_inv cu" using assms(1) by (simp add: btf_loaded_def cu_ok_def)
  then have fn: "cu__function (Some cu) j = Inr (pt_lookup (cu_functions_table cu) j)"
    and tg: "cu__tag (Some cu) j = Inr (pt_lookup (cu_tags_table cu) j)" for j
    by (simp_all add: cu__function_def cu__tag_def cu_inv_def ptr_table__entry_ok)
  note defs = process_decl_tag_def c(1) fn nm some_name_def attributes__realloc_def av
  show ?thesis
  proof (cases "pt_lookup (cu_functions_table cu) (bp_arg tp)")
    case None
    with assms(1) show ?thesis by (cases "pt_lookup (cu_tags_table cu) (bp_arg tp)") (simp_all add: defs tg)
  next
    case (Some t)
    note k = function_kind [OF assms(1) Some]
    show ?thesis
    proof (cases "0 \<le> c")
      case True
      from proto_type [OF assms(1), of "tg_type t"] c(2) k True obtain u ft where
        u: "cu_types cu (tg_type t) = Some u" "tg_tag u = DW_TAG_subroutine_type" "tg_body u = Ftype_body ft" by auto
      have ok: "btf_tag_ok (bs_types b ! (tg_type t - 1)) u"
        using assms(1) u(1) unfolding btf_loaded_def cu_types_def by (metis cu_get_table.simps(1))
      have f: "function__parameter cu t c = Inr (map_option (\<lambda>k. (tg_type t, u, ft, k)) (ftype__parameter ft c))"
        using True u(1,3) by (simp add: function__parameter_def inv tag__ftype_def)
      show ?thesis
      proof (cases "ftype__parameter ft c")
        case None
        with assms(1) Some True show ?thesis by (simp add: defs f)
      next
        case (Some i)
        let ?u = "with_ftype u (ft\<lparr>ft_parms := (ft_parms ft)[i := (ft_parms ft ! i)\<lparr>pa_attributes := pa_attributes (ft_parms ft ! i) @ [nm]\<rparr>]\<rparr>)"
        have "process_decl_tag h z b tp cu = Inr (0, cu_set_type cu (tg_type t) ?u)"
          using Some True \<open>pt_lookup (cu_functions_table cu) (bp_arg tp) = Some t\<close> by (simp add: defs f Let_def)
        moreover have "btf_loaded b (Suc (length (bs_types b))) (cu_set_type cu (tg_type t) ?u)"
          by (rule btf_set_type [OF assms(1) u(1)])
            (use ok u(2,3) in \<open>auto simp: with_ftype_def btf_tag_ok_def tag_wf_def tag_defs\<close>)
        ultimately show ?thesis by blast
      qed
    next
      case False
      obtain f where f: "tg_body t = Function_body f"
        using k tag_wf_function unfolding btf_tag_ok_def by blast
      let ?u = "t\<lparr>tg_body := Function_body (f\<lparr>fn_attributes := fn_attributes f @ [nm]\<rparr>)\<rparr>"
      have "process_decl_tag h z b tp cu = Inr (0, cu_set_function cu (bp_arg tp) ?u)"
        using False Some f by (simp add: defs tag__function_def)
      moreover have "btf_loaded b (Suc (length (bs_types b))) (cu_set_function cu (bp_arg tp) ?u)"
        by (rule btf_set_function [OF assms(1) Some]) (use k in \<open>auto simp: btf_tag_ok_def tag_wf_def tag_defs\<close>)
      ultimately show ?thesis by blast
    qed
  qed
qed

lemma decl_tags_loop_ok:
  assumes "roomy h" "list_all (btf_decl_tag_ok b) tps"
  shows "btf_loaded b (Suc (length (bs_types b))) cu \<Longrightarrow>
    \<exists>cu'. decl_tags_loop h z b tps cu = Inr (0, cu') \<and> btf_loaded b (Suc (length (bs_types b))) cu'"
  using assms(2)
proof (induction tps arbitrary: cu)
  case (Cons tp tps)
  show ?case
  proof (cases "btf_kind tp = BTF_KIND_DECL_TAG")
    case True
    from process_decl_tag_ok [OF Cons.prems(1) _ True assms(1)] Cons.prems(2) obtain cu1 where
      c: "process_decl_tag h z b tp cu = Inr (0, cu1)" "btf_loaded b (Suc (length (bs_types b))) cu1" by auto
    with Cons.IH [OF c(2)] Cons.prems(2) True show ?thesis by simp
  qed (use Cons in simp)
qed simp

section \<open>The property\<close>

text \<open>C30: loading a well formed BTF file into a new unit succeeds, and afterwards exactly the types of the file
  are in the tables of the unit: each BTF type that stands for a C type, a function or a variable is under its own
  id, in the table of its kind, as a tag of the kind the BTF type has (a structure for a structure, a union or
  structure for a forward declaration according to its flag, an annotation for a type tag), with the body that
  the rest of the program casts such a tag to, arrays with as many sizes as dimensions and functions with their
  prototype; and nothing else is there.\<close>

theorem btf_types_are_well_typed:
  assumes "btf_ok b" and "roomy h" and "cu_ok cu" and "\<forall>tb i. pt_lookup (cu_get_table cu tb) i = None"
  shows "\<exists>cu'. btf__load_types h zs z b cu = Inr (0, cu') \<and> cu_wf cu' \<and>
    (\<forall>tb i t. pt_lookup (cu_get_table cu' tb) i = Some t \<longrightarrow>
       0 < i \<and> i \<le> length (bs_types b) \<and> cu_table_of t = tb \<and> btf_tag_ok (bs_types b ! (i - 1)) t) \<and>
    (\<forall>i k. 0 < i \<and> i \<le> length (bs_types b) \<and> btf_dw_tag (bs_types b ! (i - 1)) = Some k \<longrightarrow>
       (\<exists>t. tg_tag t = k \<and> pt_lookup (cu_get_table cu' (cu_table_of t)) i = Some t))"
proof -
  have "btf_loaded b 1 cu" using assms(3,4) by (simp add: btf_loaded_def)
  from types_loop_loads [OF assms(1,2) this, of "bs_types b" None zs] assms(1) obtain cu1 where
    c1: "btf_types_loop h zs b (bs_types b) 1 None cu = Inr (0, cu1)" "btf_loaded b (Suc (length (bs_types b))) cu1"
    by (auto simp: btf_ok_def)
  have "list_all (btf_decl_tag_ok b) (bs_types b)" using assms(1) by (simp add: btf_ok_def list_all_iff)
  note decl = decl_tags_loop_ok [OF assms(2) this c1(2)]
  have "btf__load_types h zs z b cu = decl_tags_loop h z b (bs_types b) cu1"
    unfolding btf__load_types_def c1(1) by simp
  with decl obtain cu' where
    c: "btf__load_types h zs z b cu = Inr (0, cu')" "btf_loaded b (Suc (length (bs_types b))) cu'" by metis
  have "cu_wf cu'"
    using c(2) unfolding cu_wf_def btf_loaded_def btf_tag_ok_def cu_types_def by (metis cu_get_table.simps(1))
  with c show ?thesis unfolding btf_loaded_def less_Suc_eq_le by blast
qed

text \<open>
  A file with \<open>int\<close>, \<open>int [2]\<close>, \<open>int [3][2]\<close>, a prototype with one parameter, a function, and a declaration tag for
  the parameter of the function.
\<close>

definition sample_btf :: btf where
  "sample_btf =
     \<lparr>bs_types =
        [\<lparr>bp_name_off = 1, bp_info = 0x01000000, bp_arg = 4, bp_data = Int_data 0x01000020\<rparr>,
         \<lparr>bp_name_off = 0, bp_info = 0x03000000, bp_arg = 0, bp_data = Array_data 1 2\<rparr>,
         \<lparr>bp_name_off = 0, bp_info = 0x03000000, bp_arg = 0, bp_data = Array_data 2 3\<rparr>,
         \<lparr>bp_name_off = 0, bp_info = 0x0d000001, bp_arg = 1, bp_data = Param_data [(5, 1)]\<rparr>,
         \<lparr>bp_name_off = 7, bp_info = 0x0c000000, bp_arg = 4, bp_data = No_data\<rparr>,
         \<lparr>bp_name_off = 9, bp_info = 0x11000000, bp_arg = 5, bp_data = Decl_tag_data 0\<rparr>],
      bs_str = \<lambda>n. if n = 1 then Some ''int'' else if n = 5 then Some ''x'' else if n = 7 then Some ''f''
                   else if n = 9 then Some ''user'' else None,
      bs_locations = False, bs_pointer_size = 8\<rparr>"

theorem btf_types_are_well_typed_witness:
  "\<exists>cu'. btf__load_types \<lparr>avail = \<lambda>n. True, fresh = \<lambda>i. 0\<rparr> (\<lambda>t. 8) (\<lambda>n. 8) sample_btf cu_zero = Inr (0, cu') \<and>
     cu_wf cu' \<and> (\<exists>t. tg_tag t = DW_TAG_array_type \<and> pt_lookup (cu_get_table cu' (cu_table_of t)) 3 = Some t)"
proof -
  let ?h = "\<lparr>avail = \<lambda>n. True, fresh = \<lambda>i. 0\<rparr>"
  have ok: "btf_ok sample_btf"
    by (simp add: btf_ok_def sample_btf_def pt_limit_def kind_of_def btf_kinds btf_kind_def btf_vlen_def btf_type_ok_def
        btf_decl_tag_ok_def btf_named_def cu__btf_str_def)
  have m: "roomy ?h" by (simp add: roomy_def pt_mem_def)
  have z: "cu_ok cu_zero" by (simp add: cu_ok_def cu_zero_def cu_inv_def rb_inv_def)
  have e: "\<forall>tb i. pt_lookup (cu_get_table cu_zero tb) i = None"
  proof (intro allI)
    show "pt_lookup (cu_get_table cu_zero tb) i = None" for tb i
      by (cases tb) (simp_all add: cu_zero_def pt_lookup_def ptr_table__init_def)
  qed
  have k: "btf_dw_tag (bs_types sample_btf ! (3 - 1)) = Some DW_TAG_array_type" "(3 :: nat) \<le> length (bs_types sample_btf)"
    by (simp_all add: sample_btf_def btf_dw_tag_def btf_kinds btf_kind_def)
  from btf_types_are_well_typed [OF ok m z e, of "\<lambda>t. 8" "\<lambda>n. 8"] k show ?thesis by (meson zero_less_numeral)
qed

end
