(* ===== verification/BtfBitfields.thy ===== *)
theory BtfBitfields
  imports BtfLoader
begin

text \<open>
  The corrections after a BTF file is loaded: where bitfields go, and what the inference of alignments does and
  does not guarantee.
\<close>

section \<open>Powers of two\<close>

lemma bit_width_bounds: "d < 2 ^ bit_width d \<and> (0 < d \<longrightarrow> 2 ^ (bit_width d - 1) \<le> d)"
proof (induction d rule: bit_width.induct)
  case (1 d)
  show ?case
  proof (cases "d = 0")
    case False
    then have w: "bit_width d = Suc (bit_width (d div 2))" by (subst bit_width.simps) simp
    show ?thesis
    proof (cases "d div 2 = 0")
      case True
      with False have "d = 1" by linarith
      then show ?thesis by (simp add: bit_width.simps)
    next
      case False2: False
      have "bit_width (d div 2) = Suc (bit_width (d div 2 div 2))" using False2 by (subst bit_width.simps) simp
      then obtain m where m: "bit_width (d div 2) = Suc m" by blast
      have "d div 2 < 2 * 2 ^ m" "2 ^ m \<le> d div 2" using "1.IH" [OF False] False2 m by simp_all
      then have "d < 2 * (2 * 2 ^ m)" "2 * 2 ^ m \<le> d" by linarith+
      then show ?thesis by (simp add: w m)
    qed
  qed (simp add: bit_width.simps)
qed

section \<open>The place of a bitfield\<close>

lemma s8_small: "-128 \<le> x \<Longrightarrow> x < 128 \<Longrightarrow> s8 x = x"
  by (simp add: s8_def)

text \<open>C31: a bitfield of a BTF structure whose type is an integer or enumeration of at most 16 bytes is put into
  the storage unit of its type that holds its first bit: the byte offset is a multiple of the size of the type,
  the offset in the unit is not negative and less than its size in bits, and together they are the bit offset
  the file gives; nothing else of the member changes.\<close>

theorem btf_bitfield_in_its_unit:
  assumes "0 < cm_byte_size pos" and "cm_byte_size pos \<le> 16" and "cm_bit_size pos = 8 * cm_byte_size pos"
    and "0 < cm_bitfield_size pos"
  shows "\<exists>byte_offset bitfield_offset.
    place_btf_bitfield pos = Inr (pos\<lparr>cm_byte_offset := byte_offset, cm_bitfield_offset := int bitfield_offset\<rparr>) \<and>
    cm_byte_size pos dvd byte_offset \<and> bitfield_offset < cm_bit_size pos \<and>
    byte_offset * 8 + bitfield_offset = cm_bit_offset pos"
proof -
  let ?s = "cm_byte_size pos" and ?o = "cm_bit_offset pos"
  let ?b = "?o div (8 * ?s) * ?s"
  have b: "?o div (8 * ?s) * (8 * ?s) div 8 = ?b" by (metis mult.left_commute nonzero_mult_div_cancel_left zero_neq_numeral)
  have m: "?o mod (8 * ?s) < 8 * ?s" using assms(1) by simp
  have e: "?b * 8 + ?o mod (8 * ?s) = ?o" using div_mult_mod_eq [of ?o "8 * ?s"] by (metis mult.assoc mult.commute)
  then have i: "int ?o - int (?b * 8) = int (?o mod (8 * ?s))" by linarith
  have s: "s8 (int (?o mod (8 * ?s))) = int (?o mod (8 * ?s))" by (rule s8_small) (use m assms(2) in linarith)+
  have "place_btf_bitfield pos = Inr (pos\<lparr>cm_byte_offset := ?b, cm_bitfield_offset := int (?o mod (8 * ?s))\<rparr>)"
    using assms by (simp only: place_btf_bitfield_def assms(3) b i s Let_def) simp
  with e m assms(3) show ?thesis by (metis dvd_triv_right)
qed

theorem btf_bitfield_in_its_unit_witness:
  "let pos = zero_member\<lparr>cm_byte_size := 4, cm_bit_size := 32, cm_bitfield_size := 3, cm_bit_offset := 37\<rparr>
   in place_btf_bitfield pos = Inr (pos\<lparr>cm_byte_offset := 4, cm_bitfield_offset := 5\<rparr>)"
proof -
  let ?pos = "zero_member\<lparr>cm_byte_size := 4, cm_bit_size := 32, cm_bitfield_size := 3, cm_bit_offset := 37\<rparr>"
  from btf_bitfield_in_its_unit [of ?pos] obtain bo fo where
    p: "place_btf_bitfield ?pos = Inr (?pos\<lparr>cm_byte_offset := bo, cm_bitfield_offset := int fo\<rparr>)"
    "4 dvd bo" "fo < 32" "bo * 8 + fo = 37" by (auto simp: zero_member_def)
  then have "bo = 4" "fo = 5" by presburger+
  with p(1) show ?thesis by (simp add: Let_def)
qed

section \<open>Alignments\<close>

text \<open>
  Without a gap before a member no alignment is inferred; an inferred one is more than the natural one, and it is
  the size of a cacheline that divides the offset or the power of two next above the gap.  It need not divide the
  offset: a two-byte member at offset 6 behind one byte is said to be aligned to 8.
\<close>

lemma infer_alignment_spec:
  assumes "smallest \<le> off" "off - smallest < 2 ^ 31" "off < 2 ^ 32"
  shows "\<exists>a. class__infer_alignment cl off natural smallest = Inr a \<and>
    (a = 0 \<or> natural < a \<and> smallest < off \<and> even off \<and>
       (a dvd off \<and> a = cl \<or> off < smallest + a \<and> a \<le> 2 * (off - smallest)))"
proof -
  let ?d = "off - smallest"
  have d: "nat (u32 (int off - int smallest)) = ?d" using assms by (simp add: mod_pos_pos_trivial)
  note w = bit_width_bounds [of ?d]
  show ?thesis
  proof (cases "?d = 0 \<or> odd off")
    case True
    then show ?thesis by (simp add: class__infer_alignment_def d Let_def)
  next
    case False
    then have p: "0 < ?d" "even off" "smallest < off" by auto
    have "2 ^ (bit_width ?d - 1) < (2 :: nat) ^ 31" using w p(1) assms(2) by linarith
    then have "bit_width ?d - 1 < 31" by (rule power_less_imp_less_exp [rotated]) simp
    then have b: "\<not> 32 \<le> bit_width ?d" by linarith
    have u: "2 ^ bit_width ?d \<le> 2 * ?d"
    proof (cases "bit_width ?d")
      case 0
      with w p(1) show ?thesis by simp
    next
      case (Suc n)
      with w p(1) show ?thesis by simp
    qed
    have c: "cl dvd off \<Longrightarrow> 2 ^ bit_width ?d < cl \<Longrightarrow> natural < 2 ^ bit_width ?d \<Longrightarrow> natural < cl" by simp
    show ?thesis
      using p b u w by (auto simp: class__infer_alignment_def d Let_def mod_eq_0_iff_dvd)
  qed
qed

lemma inferred_alignment_not_of_offset: "class__infer_alignment 64 6 2 1 = Inr 8"
  by (simp add: class__infer_alignment_def bit_width.simps)

text \<open>The second member of a union is behind the end of the first, which is at its own offset.\<close>

lemma union_alignment_undefined: "class__infer_alignment 64 0 4 8 = Inl Undefined_Shift"
  by (simp add: class__infer_alignment_def bit_width.simps)

end
