(* ===== verification/Codiff.thy ===== *)
theory Codiff
  imports Fprintf Strlist
begin

text \<open>
  The program codiff (\<open>codiff.c\<close>): the structures and functions of two versions of a program are compared,
  and what changed is counted and printed.  \<open>n\<close> is the fuel for walks through types, \<open>cf\<close> the configuration
  \<open>conf_fprintf__defaults\<close>.  Standard output is a string.
\<close>

section \<open>State\<close>

definition TCHANGEF__SIZE :: "32 word" where "TCHANGEF__SIZE = push_bit 0 1"
definition TCHANGEF__NR_MEMBERS :: "32 word" where "TCHANGEF__NR_MEMBERS = push_bit 1 1"
definition TCHANGEF__TYPE :: "32 word" where "TCHANGEF__TYPE = push_bit 2 1"
definition TCHANGEF__OFFSET :: "32 word" where "TCHANGEF__OFFSET = push_bit 3 1"
definition TCHANGEF__BIT_OFFSET :: "32 word" where "TCHANGEF__BIT_OFFSET = push_bit 4 1"
definition TCHANGEF__BIT_SIZE :: "32 word" where "TCHANGEF__BIT_SIZE = push_bit 5 1"
definition TCHANGEF__PADDING :: "32 word" where "TCHANGEF__PADDING = push_bit 6 1"
definition TCHANGEF__NR_HOLES :: "32 word" where "TCHANGEF__NR_HOLES = push_bit 7 1"
definition TCHANGEF__NR_BIT_HOLES :: "32 word" where "TCHANGEF__NR_BIT_HOLES = push_bit 8 1"

text \<open>A unit of the old or of the new file by its position in the list of units.\<close>

datatype unit_ref = Old_unit nat | New_unit nat

text \<open>The tag is the counterpart in the other file, or NULL.\<close>

record diff_info =
  di_tag :: "(unit_ref \<times> nat) option"
  di_cu :: "unit_ref option"
  di_diff :: int

text \<open>
  A unit with the fields of \<open>struct cu\<close> that only codiff uses, and the \<open>priv\<close> pointers of its functions and
  classes by id.
\<close>

record unit_diff =
  ud_cu :: cu
  ud_max_len_changed_item :: nat
  ud_nr_functions_changed :: nat
  ud_nr_structures_changed :: nat
  ud_function_bytes_added :: nat
  ud_function_bytes_removed :: nat
  ud_function_priv :: "nat \<Rightarrow> diff_info option"
  ud_class_priv :: "nat \<Rightarrow> diff_info option"

definition unit_diff_of :: "cu \<Rightarrow> unit_diff" where
  "unit_diff_of cu =
     \<lparr>ud_cu = cu, ud_max_len_changed_item = 0, ud_nr_functions_changed = 0, ud_nr_structures_changed = 0,
      ud_function_bytes_added = 0, ud_function_bytes_removed = 0, ud_function_priv = (\<lambda>i. None), ud_class_priv = (\<lambda>i. None)\<rparr>"

text \<open>The static variables that options set.\<close>

record codiff_conf =
  cc_show_struct_diffs :: bool
  cc_show_function_diffs :: bool
  cc_verbose :: bool
  cc_quiet :: bool
  cc_show_terse_type_changes :: bool
  cc_format_path :: "string option"

text \<open>\<open>malloc\<close> of \<open>z\<close> bytes, or the end of the program.\<close>

definition diff_info__new ::
  "heap_env \<Rightarrow> nat \<Rightarrow> (unit_ref \<times> nat) option \<Rightarrow> unit_ref option \<Rightarrow> int \<Rightarrow> fault + diff_info" where
  "diff_info__new h z twin cu diff =
     (if avail h z then Inr \<lparr>di_tag = twin, di_cu = cu, di_diff = diff\<rparr> else Inl (Exit 1))"

definition cu__check_max_len_changed_item :: "string option \<Rightarrow> nat \<Rightarrow> unit_diff \<Rightarrow> fault + unit_diff" where
  "cu__check_max_len_changed_item name addend u =
     (case name of
        None \<Rightarrow> Inl Null_Deref
      | Some nm \<Rightarrow>
          let len = u32 (length nm + addend)
          in Inr (if len > ud_max_len_changed_item u then u\<lparr>ud_max_len_changed_item := len\<rparr> else u))"

section \<open>Functions\<close>

definition get_function :: "cu \<Rightarrow> nat \<Rightarrow> fault + tag \<times> function_t" where
  "get_function cu i =
     bindE (cu__function (Some cu) i) (\<lambda>t.
       case t of None \<Rightarrow> Inl Null_Deref | Some t \<Rightarrow> bindE (tag__function t) (\<lambda>f. Inr (t, f)))"

definition function__size :: "function_t \<Rightarrow> nat" where
  "function__size f = u32 (lb_size (fn_lexblock f))"

text \<open>\<open>fmemopen\<close> opens a buffer of \<open>len\<close> bytes, which is ended by a NUL.\<close>

definition function__prototype_conf :: "nat \<Rightarrow> conf_fprintf \<Rightarrow> cu \<Rightarrow> tag \<Rightarrow> nat \<Rightarrow> fault + string" where
  "function__prototype_conf n conf cu t len =
     map_sum id (cut len)
       (ftype_body (tag_name_fuel n conf cu) (ftype_fuel n conf cu) conf cu t None False False 0 True)"

definition count_function :: "nat \<Rightarrow> diff_info \<Rightarrow> unit_diff \<Rightarrow> unit_diff" where
  "count_function i di u =
     u\<lparr>ud_function_priv := (ud_function_priv u)(i \<mapsto> di), ud_nr_functions_changed := u32 (ud_nr_functions_changed u + 1)\<rparr>"

text \<open>Function \<open>i\<close> of unit \<open>u\<close>; \<open>new_cu\<close> is the unit it is compared with, NULL if there is none.\<close>

definition diff_function ::
  "heap_env \<Rightarrow> nat \<Rightarrow> nat \<Rightarrow> conf_fprintf \<Rightarrow> (nat \<times> cu) option \<Rightarrow> nat \<Rightarrow> unit_diff \<Rightarrow> fault + unit_diff" where
  "diff_function h z n cf new_cu i u =
     bindE (get_function (ud_cu u) i) (\<lambda>(t, f).
       if fn_inlined f \<noteq> 0 \<or> fn_abstract_origin f then Inr u
       else
         bindE (cu__find_function_by_name (map_option snd new_cu) (fn_name f)) (\<lambda>new_tag.
           case (new_tag, new_cu) of
             (Some (j, nt), Some (k, ncu)) \<Rightarrow>
               bindE (tag__function nt) (\<lambda>nf.
                 let diff = s32 (int (function__size nf) - int (function__size f))
                 in if diff \<noteq> 0 then
                      bindE (diff_info__new h z (Some (New_unit k, j)) (Some (New_unit k)) diff) (\<lambda>di.
                      bindE (cu__check_max_len_changed_item (fn_name f) 0 u) (\<lambda>u1.
                        let u2 = count_function i di u1
                        in Inr (if diff > 0
                                then u2\<lparr>ud_function_bytes_added := u64 (ud_function_bytes_added u2 + nat diff)\<rparr>
                                else u2\<lparr>ud_function_bytes_removed := u64 (ud_function_bytes_removed u2 + nat (- diff))\<rparr>)))
                    else
                      bindE (function__prototype_conf n cf (ud_cu u) t 1024) (\<lambda>proto.
                      bindE (function__prototype_conf n cf ncu nt 1024) (\<lambda>twin_proto.
                        if proto \<noteq> twin_proto then
                          bindE (diff_info__new h z (Some (New_unit k, j)) (Some (New_unit k)) 0) (\<lambda>di.
                            Inr (count_function i di u))
                        else Inr u)))
           | _ \<Rightarrow>
               bindE (cu__check_max_len_changed_item (fn_name f) 0 u) (\<lambda>u1.
               bindE (diff_info__new h z None None (s32 (- int (function__size f)))) (\<lambda>di.
                 let u2 = count_function i di u1
                 in Inr (u2\<lparr>ud_function_bytes_removed := u64 (ud_function_bytes_removed u2 + function__size f)\<rparr>)))))"

section \<open>Members\<close>

text \<open>\<open>/* %5u(%2u) %5zd(%2d) */\<close>: offset, bitfield offset, size, bitfield size.\<close>

definition place_str :: "class_member \<Rightarrow> string" where
  "place_str m =
     ''/* '' @ fmt_s 5 (dec (cm_byte_offset m)) @ ''('' @ fmt_s 2 (dec (nat (u32 (cm_bitfield_offset m)))) @ '') '' @
     fmt_s 5 (sdec (s64 (cm_byte_size m))) @ ''('' @ fmt_s 2 (dec (cm_bitfield_size m)) @ '') */'' @ nl"

definition flag_if :: "bool \<Rightarrow> 32 word \<Rightarrow> 32 word \<Rightarrow> 32 word" where
  "flag_if b flag w = (if b then w OR flag else w)"

text \<open>Whether something changed, the new value of \<open>terse_type_changes\<close>, and what is printed.\<close>

definition check_print_change ::
  "codiff_conf \<Rightarrow> nat \<Rightarrow> conf_fprintf \<Rightarrow> class_member \<Rightarrow> cu \<Rightarrow> class_member \<Rightarrow> cu \<Rightarrow> bool \<Rightarrow> 32 word \<Rightarrow>
    fault + bool \<times> 32 word \<times> string" where
  "check_print_change cc n cf old old_cu new new_cu print terse =
     bindE (cu__type (Some old_cu) (cm_type old)) (\<lambda>old_type.
     bindE (cu__type (Some new_cu) (cm_type new)) (\<lambda>new_type.
       if old_type = None \<or> new_type = None then Inr (False, terse, '''')
       else
         bindE (tag_name_fuel n cf old_cu old_type 128) (\<lambda>old_name.
         bindE (tag_name_fuel n cf new_cu new_type 128) (\<lambda>new_name.
           let off = cm_byte_offset old \<noteq> cm_byte_offset new;
               bit_off = cm_bitfield_offset old \<noteq> cm_bitfield_offset new;
               bit_size = cm_bitfield_size old \<noteq> cm_bitfield_size new;
               name = old_name \<noteq> new_name;
               changes = cm_byte_size old \<noteq> cm_byte_size new \<or> off \<or> bit_off \<or> bit_size \<or> name
           in Inr (changes,
                   flag_if name TCHANGEF__TYPE (flag_if bit_size TCHANGEF__BIT_SIZE
                     (flag_if bit_off TCHANGEF__BIT_OFFSET (flag_if off TCHANGEF__OFFSET terse))),
                   if changes \<and> print \<and> \<not> cc_show_terse_type_changes cc then
                     ''    '' @ str_or_null (cm_name old) @ nl @
                     ''     from:    '' @ fmt_s (-21) old_name @ '' '' @ place_str old @
                     ''     to:      '' @ fmt_s (-21) new_name @ '' '' @ place_str new
                   else '''')))))"

text \<open>The entry of the first member for which \<open>P\<close> holds, and of the one after \<open>k\<close> others.\<close>

definition member_entries :: "'a type_t_scheme \<Rightarrow> (class_member \<Rightarrow> bool) \<Rightarrow> nat list" where
  "member_entries t P = filter (\<lambda>k. list_ex P (ns_member (ty_tags t ! k))) [0..<length (ty_tags t)]"

definition nth_entry :: "nat list \<Rightarrow> nat \<Rightarrow> nat option" where
  "nth_entry ks k = (if k < length ks then Some (ks ! k) else None)"

text \<open>\<open>nr_anonymous\<close> counts the unnamed members so far.\<close>

definition class__find_pair_member :: "'a type_t_scheme \<Rightarrow> class_member \<Rightarrow> nat \<Rightarrow> nat option \<times> nat" where
  "class__find_pair_member t pair_member nr_anonymous =
     (case cm_name pair_member of
        Some nm \<Rightarrow>
          (nth_entry (member_entries t (\<lambda>m. cm_tag m = DW_TAG_member \<and> name_is (cm_name m) nm)) 0, nr_anonymous)
      | None \<Rightarrow>
          (nth_entry (member_entries t (\<lambda>m. cm_tag m = cm_tag pair_member \<and> cm_name m = None)) nr_anonymous,
           nr_anonymous + 1))"

text \<open>The variables of the first loop; \<open>mc_new\<close> is the new structure, whose members found are marked.\<close>

record members_check =
  mc_new :: class_t
  mc_nr_anonymous :: nat
  mc_nr_twins_found :: nat
  mc_changes :: bool
  mc_terse :: "32 word"
  mc_out :: string

definition member_line :: "string \<Rightarrow> nat \<Rightarrow> conf_fprintf \<Rightarrow> cu \<Rightarrow> class_member \<Rightarrow> fault + string" where
  "member_line what n cf cu m =
     bindE (cu__type (Some cu) (cm_type m)) (\<lambda>type.
     bindE (tag_name_fuel n cf cu type 128) (\<lambda>name.
       Inr (''    '' @ str_or_null (cm_name m) @ nl @ ''     '' @ what @ fmt_s (-21) name @ '' '' @ place_str m)))"

definition check_member ::
  "codiff_conf \<Rightarrow> nat \<Rightarrow> conf_fprintf \<Rightarrow> cu \<Rightarrow> cu \<Rightarrow> bool \<Rightarrow> class_member \<Rightarrow> members_check \<Rightarrow> fault + members_check" where
  "check_member cc n cf cu new_cu print m s =
     (case class__find_pair_member (mc_new s) m (mc_nr_anonymous s) of
        (Some k, nr) \<Rightarrow>
          (case ty_tags (mc_new s) ! k of
             Member twin \<Rightarrow>
               let twin' = twin\<lparr>cm_visited := True\<rparr>
               in bindE (check_print_change cc n cf m cu twin' new_cu print (mc_terse s)) (\<lambda>(changes, terse, txt).
                    Inr (s\<lparr>mc_new := (mc_new s)\<lparr>ty_tags := (ty_tags (mc_new s))[k := Member twin']\<rparr>,
                           mc_nr_anonymous := nr, mc_nr_twins_found := u16 (mc_nr_twins_found s + 1),
                           mc_changes := mc_changes s \<or> changes, mc_terse := terse, mc_out := mc_out s @ txt\<rparr>))
           | _ \<Rightarrow> Inl Out_Of_Bounds)
      | (None, nr) \<Rightarrow>
          bindE (if print then member_line ''removed: '' n cf cu m else Inr '''') (\<lambda>txt.
            Inr (s\<lparr>mc_nr_anonymous := nr, mc_changes := True, mc_out := mc_out s @ txt\<rparr>)))"

text \<open>The marks are never taken away.\<close>

definition check_print_members_changes ::
  "codiff_conf \<Rightarrow> nat \<Rightarrow> conf_fprintf \<Rightarrow> class_t \<Rightarrow> cu \<Rightarrow> class_t \<Rightarrow> cu \<Rightarrow> bool \<Rightarrow> 32 word \<Rightarrow> fault + members_check" where
  "check_print_members_changes cc n cf structure cu new_structure new_cu print terse =
     bindE (fold_e (check_member cc n cf cu new_cu print) (type__members (ty_tags structure))
              \<lparr>mc_new = new_structure, mc_nr_anonymous = 0, mc_nr_twins_found = 0, mc_changes = False, mc_terse = terse,
               mc_out = ''''\<rparr>) (\<lambda>s.
       if mc_nr_twins_found s = ty_nr_members (mc_new s) + ty_nr_static_members (mc_new s) then Inr s
       else if \<not> print then Inr (s\<lparr>mc_changes := True\<rparr>)
       else
         fold_e (\<lambda>m s'. bindE (member_line ''added:   '' n cf new_cu m) (\<lambda>txt. Inr (s'\<lparr>mc_out := mc_out s' @ txt\<rparr>)))
           (filter (\<lambda>m. \<not> cm_visited m) (type__members (ty_tags (mc_new s)))) (s\<lparr>mc_changes := True\<rparr>))"

section \<open>Structures\<close>

text \<open>
  Structure \<open>i\<close> of unit \<open>u\<close> and its counterpart in the unit it is compared with.  The holes of both are searched first.
  \<open>sizeof("struct")\<close> is 7.
\<close>

definition struct_changed :: "codiff_conf \<Rightarrow> nat \<Rightarrow> conf_fprintf \<Rightarrow> class_t \<Rightarrow> cu \<Rightarrow> class_t \<Rightarrow> cu \<Rightarrow> fault + bool \<times> class_t" where
  "struct_changed cc n cf c1 cu1 c2 cu2 =
     (if ty_size c1 \<noteq> ty_size c2 \<or> ty_nr_members c1 \<noteq> ty_nr_members c2 then Inr (True, c2)
      else
        map_sum id
          (\<lambda>mc. (mc_changes mc \<or> cl_padding c1 \<noteq> cl_padding (mc_new mc) \<or> cl_nr_holes c1 \<noteq> cl_nr_holes (mc_new mc) \<or>
                   cl_nr_bit_holes c1 \<noteq> cl_nr_bit_holes (mc_new mc), mc_new mc))
          (check_print_members_changes cc n cf c1 cu1 c2 cu2 False 0))"

definition count_struct :: "heap_env \<Rightarrow> nat \<Rightarrow> nat \<Rightarrow> (unit_ref \<times> nat) option \<Rightarrow> unit_ref option \<Rightarrow> string option \<Rightarrow> unit_diff \<Rightarrow>
    fault + unit_diff" where
  "count_struct h z i twin cu name u =
     bindE (cu__check_max_len_changed_item name 7 (u\<lparr>ud_nr_structures_changed := u32 (ud_nr_structures_changed u + 1)\<rparr>)) (\<lambda>u1.
     bindE (diff_info__new h z twin cu 1) (\<lambda>di.
       Inr (u1\<lparr>ud_class_priv := (ud_class_priv u1)(i \<mapsto> di)\<rparr>)))"

text \<open>With structure \<open>j\<close> of unit \<open>w\<close>, which is number \<open>k\<close>.\<close>

definition diff_struct_pair ::
  "heap_env \<Rightarrow> nat \<Rightarrow> codiff_conf \<Rightarrow> nat \<Rightarrow> conf_fprintf \<Rightarrow> nat \<Rightarrow> unit_diff \<Rightarrow> nat \<Rightarrow> nat \<Rightarrow> unit_diff \<Rightarrow>
    fault + unit_diff \<times> unit_diff" where
  "diff_struct_pair h z cc n cf i u k j w =
     bindE (find_holes_at i (ud_cu u)) (\<lambda>(_, cu1).
     bindE (find_holes_at j (ud_cu w)) (\<lambda>(_, cu2).
     bindE (get_class cu1 i) (\<lambda>(t1, c1).
     bindE (get_class cu2 j) (\<lambda>(t2, c2).
     bindE (struct_changed cc n cf c1 cu1 c2 cu2) (\<lambda>(diff, c2').
     bindE (if diff then count_struct h z i (Some (New_unit k, j)) (Some (New_unit k)) (ty_name c1) (u\<lparr>ud_cu := cu1\<rparr>)
            else Inr (u\<lparr>ud_cu := cu1\<rparr>)) (\<lambda>u'.
       Inr (u', w\<lparr>ud_cu := put_class cu2 j t2 c2'\<rparr>)))))))"

definition diff_struct ::
  "heap_env \<Rightarrow> nat \<Rightarrow> codiff_conf \<Rightarrow> nat \<Rightarrow> conf_fprintf \<Rightarrow> nat \<Rightarrow> unit_diff \<times> (nat \<times> unit_diff) option \<Rightarrow>
    fault + unit_diff \<times> (nat \<times> unit_diff) option" where
  "diff_struct h z cc n cf i s =
     bindE (get_class (ud_cu (fst s)) i) (\<lambda>(t, c).
       if ty_size c = 0 \<or> ty_name c = None then Inr s
       else
         bindE (cu__find_struct_by_name (map_option (ud_cu \<circ> snd) (snd s)) (ty_name c) False) (\<lambda>new_tag.
           case (new_tag, snd s) of
             (Some (j, _), Some (k, w)) \<Rightarrow>
               bindE (get_class (ud_cu w) j) (\<lambda>(nt, nc).
                 if ty_size nc = 0 then Inr s
                 else map_sum id (\<lambda>(u', w'). (u', Some (k, w'))) (diff_struct_pair h z cc n cf i (fst s) k j w))
           | _ \<Rightarrow> Inr s))"

section \<open>The loops over the units\<close>

definition struct_ids :: "cu \<Rightarrow> nat list" where
  "struct_ids cu = map fst (filter (\<lambda>(i, t). tag__is_struct (tg_tag t)) (cu__for_each_type cu))"

definition function_ids :: "cu \<Rightarrow> nat list" where
  "function_ids cu = map fst (cu__for_each_function cu)"

text \<open>\<open>cus__find_pair\<close>, as the position of the unit.\<close>

definition find_pair :: "unit_diff list \<Rightarrow> string option \<Rightarrow> nat option" where
  "find_pair us name =
     (if length us = 1 then Some 0
      else case name of
             None \<Rightarrow> None
           | Some nm \<Rightarrow> find (\<lambda>i. name_is (cu_name (ud_cu (us ! i))) nm) [0..<length us])"

text \<open>Unit \<open>i\<close> of the old file; the results are the two lists of units.\<close>

definition cu_diff_iterator ::
  "heap_env \<Rightarrow> nat \<Rightarrow> codiff_conf \<Rightarrow> nat \<Rightarrow> conf_fprintf \<Rightarrow> nat \<Rightarrow> unit_diff list \<times> unit_diff list \<Rightarrow>
    fault + unit_diff list \<times> unit_diff list" where
  "cu_diff_iterator h z cc n cf i s =
     (case s of (olds, news) \<Rightarrow>
        let u = olds ! i; k = find_pair news (cu_name (ud_cu u)); nu = map_option (\<lambda>k. (k, news ! k)) k
        in if (case nu of None \<Rightarrow> False | Some (k, w) \<Rightarrow> cu__same_build_id (ud_cu u) (ud_cu w)) then Inr s
           else
             bindE (fold_e (diff_struct h z cc n cf) (struct_ids (ud_cu u)) (u, nu)) (\<lambda>(u1, nu1).
             bindE (fold_e (diff_function h z n cf (map_option (\<lambda>(k, w). (k, ud_cu w)) nu1)) (function_ids (ud_cu u1)) u1) (\<lambda>u2.
               Inr (olds[i := u2], case nu1 of None \<Rightarrow> news | Some (k, w) \<Rightarrow> news[k := w]))))"

text \<open>A function or structure of the new unit \<open>i\<close> that the old unit \<open>k\<close> does not have.\<close>

definition new_function ::
  "heap_env \<Rightarrow> nat \<Rightarrow> (nat \<times> cu) option \<Rightarrow> nat \<Rightarrow> nat \<Rightarrow> unit_diff \<Rightarrow> fault + unit_diff" where
  "new_function h z old_cu i fid u =
     bindE (get_function (ud_cu u) fid) (\<lambda>(t, f).
       if fn_abstract_origin f \<or> fn_inlined f \<noteq> 0 then Inr u
       else
         bindE (cu__find_function_by_name (map_option snd old_cu) (fn_name f)) (\<lambda>old.
         bindE (case old of None \<Rightarrow> Inr False | Some (j, ot) \<Rightarrow> bindE (tag__function ot) (\<lambda>g. Inr (fn_inlined g = 0))) (\<lambda>known.
           if known then Inr u
           else
             let diff = s32 (int (function__size f))
             in bindE (cu__check_max_len_changed_item (fn_name f) 0 u) (\<lambda>u1.
                bindE (diff_info__new h z (case (old, old_cu) of (Some (j, ot), Some (k, c)) \<Rightarrow> Some (Old_unit k, j) | _ \<Rightarrow> None)
                         (Some (New_unit i)) diff) (\<lambda>di.
                  Inr (count_function fid di
                    (u1\<lparr>ud_function_bytes_added := nat (u64 (int (ud_function_bytes_added u1) + diff))\<rparr>)))))))"

definition new_struct :: "heap_env \<Rightarrow> nat \<Rightarrow> cu option \<Rightarrow> nat \<Rightarrow> unit_diff \<Rightarrow> fault + unit_diff" where
  "new_struct h z old_cu sid u =
     bindE (get_class (ud_cu u) sid) (\<lambda>(t, c).
       if ty_name c = None \<or> ty_size c = 0 then Inr u
       else
         bindE (cu__find_struct_by_name old_cu (ty_name c) False) (\<lambda>old.
           if old \<noteq> None then Inr u
           else
             bindE (diff_info__new h z None None 1) (\<lambda>di.
               cu__check_max_len_changed_item (ty_name c) 7
                 (u\<lparr>ud_class_priv := (ud_class_priv u)(sid \<mapsto> di),
                    ud_nr_structures_changed := u32 (ud_nr_structures_changed u + 1)\<rparr>))))"

definition cu_find_new_tags_iterator ::
  "heap_env \<Rightarrow> nat \<Rightarrow> unit_diff list \<Rightarrow> nat \<Rightarrow> unit_diff list \<Rightarrow> fault + unit_diff list" where
  "cu_find_new_tags_iterator h z olds i news =
     (let u = news ! i; k = find_pair olds (cu_name (ud_cu u)); old_cu = map_option (\<lambda>k. (k, ud_cu (olds ! k))) k
      in if (case old_cu of None \<Rightarrow> False | Some (k, c) \<Rightarrow> cu__same_build_id c (ud_cu u)) then Inr news
         else
           bindE (fold_e (new_function h z old_cu i) (function_ids (ud_cu u)) u) (\<lambda>u1.
           bindE (fold_e (new_struct h z (map_option snd old_cu)) (struct_ids (ud_cu u1)) u1) (\<lambda>u2.
             Inr (news[i := u2]))))"

section \<open>Showing differences\<close>

text \<open>\<open>%+d\<close>\<close>

definition plus_dec :: "int \<Rightarrow> string" where
  "plus_dec i = (if i < 0 then sdec i else CHR ''+'' # sdec i)"

text \<open>\<open>%-*.*s\<close> with one number for both.\<close>

definition fit :: "nat \<Rightarrow> string \<Rightarrow> string" where
  "fit w s = fmt_s (- int w) (take w s)"

text \<open>The variables of the last phase.\<close>

record codiff_show =
  sh_structs_printed :: strlist
  sh_terse_type_changes :: "32 word"
  sh_first_cu_printed :: bool
  sh_total_cus_changed :: nat
  sh_total_nr_functions_changed :: nat
  sh_total_function_bytes_added :: nat
  sh_total_function_bytes_removed :: nat
  sh_out :: string

definition say :: "string \<Rightarrow> codiff_show \<Rightarrow> codiff_show" where
  "say s sh = sh\<lparr>sh_out := sh_out sh @ s\<rparr>"

definition unit_at :: "unit_diff list \<Rightarrow> unit_diff list \<Rightarrow> unit_ref \<Rightarrow> unit_diff" where
  "unit_at olds news r = (case r of Old_unit k \<Rightarrow> olds ! k | New_unit k \<Rightarrow> news ! k)"

definition change_str :: "string \<Rightarrow> nat \<Rightarrow> nat \<Rightarrow> string" where
  "change_str what a b = (if a \<noteq> b then what @ sdec (s32 (int a)) @ '' -> '' @ sdec (s32 (int b)) else '''')"

text \<open>The details of a function that is in both units; \<open>di_cu\<close> is the unit its counterpart is read with.\<close>

definition twin_str :: "nat \<Rightarrow> conf_fprintf \<Rightarrow> cu \<Rightarrow> tag \<Rightarrow> function_t \<Rightarrow> cu \<Rightarrow> tag \<Rightarrow> function_t \<Rightarrow> fault + string" where
  "twin_str n cf cu t f tcu tt tf =
     bindE (function__prototype_conf n cf cu t 1024) (\<lambda>proto.
     bindE (function__prototype_conf n cf tcu tt 1024) (\<lambda>twin_proto.
       Inr ('' # '' @ sdec (s32 (int (function__size f))) @ '' -> '' @ sdec (s32 (int (function__size tf))) @
         change_str '', lexblocks: '' (lb_nr_lexblocks (fn_lexblock f)) (lb_nr_lexblocks (fn_lexblock tf)) @
         change_str '', # inlines: '' (lb_nr_inline_expansions (fn_lexblock f)) (lb_nr_inline_expansions (fn_lexblock tf)) @
         change_str '', size inlines: '' (lb_size_inline_expansions (fn_lexblock f)) (lb_size_inline_expansions (fn_lexblock tf)) @
         (if proto \<noteq> twin_proto then '', prototype: '' @ proto @ '' -> '' @ twin_proto else '''') @ nl)))"

text \<open>\<open>cookie\<close>: the unit is one of the new file.\<close>

definition show_diffs_function ::
  "codiff_conf \<Rightarrow> nat \<Rightarrow> conf_fprintf \<Rightarrow> unit_diff list \<Rightarrow> unit_diff list \<Rightarrow> bool \<Rightarrow> unit_diff \<Rightarrow> nat \<Rightarrow> codiff_show \<Rightarrow>
    fault + codiff_show" where
  "show_diffs_function cc n cf olds news cookie u i sh =
     (case ud_function_priv u i of
        None \<Rightarrow> Inr sh
      | Some di \<Rightarrow>
          bindE (get_function (ud_cu u) i) (\<lambda>(t, f).
            let sh1 = say (''  '' @ fit (ud_max_len_changed_item u) (str_or_null (fn_name f)) @ '' | '' @
                           fmt_s 4 (plus_dec (di_diff di))) sh
            in if \<not> cc_verbose cc then Inr (say nl sh1)
               else
                 case di_tag di of
                   None \<Rightarrow> Inr (say ((if cookie then '' (added)'' else '' (removed)'') @ nl) sh1)
                 | Some (r, j) \<Rightarrow>
                     bindE (get_function (ud_cu (unit_at olds news r)) j) (\<lambda>(tt, tf).
                       if fn_inlined tf \<noteq> 0
                       then Inr (say ((if cookie then '' (uninlined)'' else '' (inlined)'') @ nl) sh1)
                       else
                         case (fn_name f, fn_name tf) of
                           (Some a, Some b) \<Rightarrow>
                             if a \<noteq> b then
                               Inr (say (''show_diffs_function: BRAIN FART ALERT: comparing '' @ a @ '' to '' @ b @
                                         '', should be the same name'' @ nl) sh1)
                             else
                               (case di_cu di of
                                  None \<Rightarrow> Inl Null_Deref
                                | Some c \<Rightarrow>
                                    bindE (twin_str n cf (ud_cu u) t f (ud_cu (unit_at olds news c)) tt tf) (\<lambda>s.
                                      Inr (say s sh1)))
                         | _ \<Rightarrow> Inl Null_Deref)))"

text \<open>A member whose type is not found ends the program.\<close>

definition show_changed_member :: "nat \<Rightarrow> conf_fprintf \<Rightarrow> string \<Rightarrow> class_member \<Rightarrow> cu \<Rightarrow> codiff_show \<Rightarrow> fault + codiff_show" where
  "show_changed_member n cf sign m cu sh =
     bindE (cu__type (Some cu) (cm_type m)) (\<lambda>type.
       case type of
         None \<Rightarrow> Inl (Exit 1)
       | Some _ \<Rightarrow>
           bindE (tag_name_fuel n cf cu type 128) (\<lambda>name.
             Inr (say (''    '' @ sign @ fmt_s (-26) name @ '' '' @ fmt_s (-21) (str_or_null (cm_name m)) @ '' /* '' @
                       fmt_s 5 (dec (cm_byte_offset m)) @ '' '' @ fmt_s 5 (sdec (s64 (cm_byte_size m))) @ '' */'' @ nl) sh)))"

text \<open>The members of \<open>t\<close> that have no counterpart in \<open>other\<close>.\<close>

fun show_unpaired ::
  "nat \<Rightarrow> conf_fprintf \<Rightarrow> string \<Rightarrow> class_t \<Rightarrow> cu \<Rightarrow> class_member list \<Rightarrow> nat \<Rightarrow> codiff_show \<Rightarrow> fault + codiff_show" where
  "show_unpaired n cf sign other cu [] nr sh = Inr sh"
| "show_unpaired n cf sign other cu (m # ms) nr sh =
     (case class__find_pair_member other m nr of
        (Some k, nr') \<Rightarrow> show_unpaired n cf sign other cu ms nr' sh
      | (None, nr') \<Rightarrow> bindE (show_changed_member n cf sign m cu sh) (show_unpaired n cf sign other cu ms nr'))"

definition show_nr_members_changes ::
  "nat \<Rightarrow> conf_fprintf \<Rightarrow> class_t \<Rightarrow> cu \<Rightarrow> class_t \<Rightarrow> cu \<Rightarrow> codiff_show \<Rightarrow> fault + codiff_show" where
  "show_nr_members_changes n cf structure cu new_structure new_cu sh =
     bindE (show_unpaired n cf ''-'' new_structure cu (type__members (ty_tags structure)) 0 sh) (\<lambda>sh1.
       show_unpaired n cf ''+'' structure new_cu (type__members (ty_tags new_structure)) 0 sh1)"

fun terse_names :: "32 word \<Rightarrow> string \<Rightarrow> (32 word \<times> string) list \<Rightarrow> string" where
  "terse_names terse sep [] = ''''"
| "terse_names terse sep ((flag, name) # fs) =
     (if terse AND flag \<noteq> 0 then sep @ name @ terse_names terse '', '' fs else terse_names terse sep fs)"

definition print_terse_type_changes :: "class_t \<Rightarrow> codiff_show \<Rightarrow> codiff_show" where
  "print_terse_type_changes structure sh =
     say (''struct '' @ str_or_null (ty_name structure) @ '': '' @
       terse_names (sh_terse_type_changes sh) ''''
         [(TCHANGEF__SIZE, ''size''), (TCHANGEF__NR_MEMBERS, ''nr_members''), (TCHANGEF__TYPE, ''type''),
          (TCHANGEF__OFFSET, ''offset''), (TCHANGEF__BIT_OFFSET, ''bit_offset''), (TCHANGEF__BIT_SIZE, ''bit_size''),
          (TCHANGEF__PADDING, ''padding''), (TCHANGEF__NR_HOLES, ''nr_holes''), (TCHANGEF__NR_BIT_HOLES, ''nr_bit_holes'')] @ nl) sh"

definition set_flag :: "32 word \<Rightarrow> codiff_show \<Rightarrow> codiff_show" where
  "set_flag flag sh = sh\<lparr>sh_terse_type_changes := sh_terse_type_changes sh OR flag\<rparr>"

definition count_change :: "codiff_conf \<Rightarrow> 32 word \<Rightarrow> string \<Rightarrow> int \<Rightarrow> codiff_show \<Rightarrow> codiff_show" where
  "count_change cc flag what diff sh =
     (if diff = 0 then sh
      else (if cc_show_terse_type_changes cc then id else say (''   '' @ what @ '': '' @ plus_dec diff @ nl)) (set_flag flag sh))"

text \<open>Structure \<open>i\<close> of unit \<open>u\<close>; \<open>new\<close> is its counterpart, with its unit.\<close>

definition show_structure ::
  "codiff_conf \<Rightarrow> nat \<Rightarrow> conf_fprintf \<Rightarrow> unit_diff \<Rightarrow> class_t \<Rightarrow> (class_t \<times> cu) option \<Rightarrow> codiff_show \<Rightarrow> fault + codiff_show" where
  "show_structure cc n cf u c new sh =
     (let diff = s32 (case new of None \<Rightarrow> int (ty_size c) | Some (nc, ncu) \<Rightarrow> int (ty_size nc) - int (ty_size c));
          w = ud_max_len_changed_item u - 7;
          sh1 = (if cc_show_terse_type_changes cc then id
                 else say (''  struct '' @ fit w (str_or_null (ty_name c)) @ '' | '' @ fmt_s 4 (plus_dec diff) @ nl))
                  (sh\<lparr>sh_terse_type_changes := 0\<rparr>);
          sh2 = (if diff \<noteq> 0 then set_flag TCHANGEF__SIZE sh1 else sh1)
      in if \<not> cc_verbose cc \<and> \<not> cc_show_terse_type_changes cc then Inr sh2
         else
           let nr = (case new of None \<Rightarrow> - int (ty_nr_members c) | Some (nc, ncu) \<Rightarrow> int (ty_nr_members nc) - int (ty_nr_members c));
               sh3 = count_change cc TCHANGEF__NR_MEMBERS ''nr_members'' nr sh2
           in bindE (case new of
                       Some (nc, ncu) \<Rightarrow>
                         if nr \<noteq> 0 \<and> \<not> cc_show_terse_type_changes cc
                         then show_nr_members_changes n cf c (ud_cu u) nc ncu sh3 else Inr sh3
                     | None \<Rightarrow> Inr sh3) (\<lambda>sh4.
              bindE (case new of
                       None \<Rightarrow> Inr sh4
                     | Some (nc, ncu) \<Rightarrow>
                         let sh5 = count_change cc TCHANGEF__NR_BIT_HOLES ''nr_bit_holes'' (int (cl_nr_bit_holes nc) - int (cl_nr_bit_holes c))
                                     (count_change cc TCHANGEF__NR_HOLES ''nr_holes'' (int (cl_nr_holes nc) - int (cl_nr_holes c))
                                        (count_change cc TCHANGEF__PADDING ''padding'' (int (cl_padding nc) - int (cl_padding c)) sh4))
                         in bindE (check_print_members_changes cc n cf c (ud_cu u) nc ncu True (sh_terse_type_changes sh5)) (\<lambda>mc.
                              Inr (say (mc_out mc) (sh5\<lparr>sh_terse_type_changes := mc_terse mc\<rparr>)))) (\<lambda>sh6.
                Inr (if cc_show_terse_type_changes cc then print_terse_type_changes c sh6 else sh6))))"

definition show_diffs_structure ::
  "codiff_conf \<Rightarrow> nat \<Rightarrow> conf_fprintf \<Rightarrow> unit_diff list \<Rightarrow> unit_diff list \<Rightarrow> unit_diff \<Rightarrow> nat \<Rightarrow> codiff_show \<Rightarrow> fault + codiff_show" where
  "show_diffs_structure cc n cf olds news u i sh =
     (case ud_class_priv u i of
        None \<Rightarrow> Inr sh
      | Some di \<Rightarrow>
          bindE (get_class (ud_cu u) i) (\<lambda>(t, c).
            case di_tag di of
              None \<Rightarrow> show_structure cc n cf u c None sh
            | Some (r, j) \<Rightarrow>
                bindE (get_class (ud_cu (unit_at olds news r)) j) (\<lambda>(nt, nc).
                  case di_cu di of
                    None \<Rightarrow> Inl Null_Deref
                  | Some d \<Rightarrow> show_structure cc n cf u c (Some (nc, ud_cu (unit_at olds news d))) sh)))"

text \<open>A name is printed once for the whole program.  The class has a name where it has a difference.\<close>

definition show_structure_diffs_iterator ::
  "heap_env \<Rightarrow> codiff_conf \<Rightarrow> nat \<Rightarrow> conf_fprintf \<Rightarrow> unit_diff list \<Rightarrow> unit_diff list \<Rightarrow> unit_diff \<Rightarrow> nat \<Rightarrow> codiff_show \<Rightarrow>
    fault + codiff_show" where
  "show_structure_diffs_iterator h cc n cf olds news u i sh =
     (if ud_class_priv u i = None then Inr sh
      else
        bindE (get_class (ud_cu u) i) (\<lambda>(t, c).
        bindE (case ty_name c of None \<Rightarrow> Inl Null_Deref | Some nm \<Rightarrow> Inr nm) (\<lambda>name.
          if strlist__has_entry (sh_structs_printed sh) name then Inr sh
          else
            bindE (show_diffs_structure cc n cf olds news u i sh) (\<lambda>sh1.
            bindE (strlist__add h (sh_structs_printed sh1) name) (\<lambda>(rc, sl).
              Inr (sh1\<lparr>sh_structs_printed := sl\<rparr>))))))"

definition plural_s :: "nat \<Rightarrow> string" where "plural_s n = (if n > 1 then ''s'' else '''')"

definition functions_changed_str :: "unit_diff \<Rightarrow> string" where
  "functions_changed_str u =
     '' '' @ dec (ud_nr_functions_changed u) @ '' function'' @ plural_s (ud_nr_functions_changed u) @ '' changed'' @
     (if ud_function_bytes_added u \<noteq> 0 then '', '' @ sdec (s64 (ud_function_bytes_added u)) @ '' bytes added'' else '''') @
     (if ud_function_bytes_removed u \<noteq> 0 then '', '' @ sdec (s64 (ud_function_bytes_removed u)) @ '' bytes removed'' else '''') @
     '', diff: '' @ plus_dec (s64 (nat (u64 (int (ud_function_bytes_added u) - int (ud_function_bytes_removed u))))) @ nl"

definition cu_show_diffs_iterator ::
  "heap_env \<Rightarrow> codiff_conf \<Rightarrow> nat \<Rightarrow> conf_fprintf \<Rightarrow> unit_diff list \<Rightarrow> unit_diff list \<Rightarrow> bool \<Rightarrow> unit_diff \<Rightarrow> codiff_show \<Rightarrow>
    fault + codiff_show" where
  "cu_show_diffs_iterator h cc n cf olds news cookie u sh =
     (if ud_nr_functions_changed u = 0 \<and> ud_nr_structures_changed u = 0 then Inr sh
      else
        let sh1 = (if sh_first_cu_printed sh then (if cc_quiet cc then sh else say nl sh) else sh\<lparr>sh_first_cu_printed := True\<rparr>);
            sh2 = sh1\<lparr>sh_total_cus_changed := u32 (sh_total_cus_changed sh1 + 1)\<rparr>;
            sh3 = (if cc_quiet cc then sh2 else say (str_or_null (cu_name (ud_cu u)) @ '':'' @ nl) sh2);
            structs = fold_e (show_structure_diffs_iterator h cc n cf olds news u) (struct_ids (ud_cu u))
        in if cc_show_terse_type_changes cc then structs sh3
           else
             bindE (if ud_nr_structures_changed u \<noteq> 0 \<and> cc_show_struct_diffs cc then
                      bindE (structs sh3) (\<lambda>sh4.
                        Inr (say ('' '' @ dec (ud_nr_structures_changed u) @ '' struct'' @ plural_s (ud_nr_structures_changed u) @
                                  '' changed'' @ nl) sh4))
                    else Inr sh3) (\<lambda>sh5.
               if ud_nr_functions_changed u \<noteq> 0 \<and> cc_show_function_diffs cc then
                 let sh6 = sh5\<lparr>sh_total_nr_functions_changed := u32 (sh_total_nr_functions_changed sh5 + ud_nr_functions_changed u)\<rparr>
                 in bindE (fold_e (show_diffs_function cc n cf olds news cookie u) (function_ids (ud_cu u)) sh6) (\<lambda>sh7.
                      Inr (say (functions_changed_str u)
                        (sh7\<lparr>sh_total_function_bytes_added := u32 (sh_total_function_bytes_added sh7 + ud_function_bytes_added u),
                             sh_total_function_bytes_removed := u32 (sh_total_function_bytes_removed sh7 + ud_function_bytes_removed u)\<rparr>)))
               else Inr sh5))"

definition cu_delete_priv :: "unit_diff \<Rightarrow> unit_diff" where
  "cu_delete_priv u = u\<lparr>ud_class_priv := (\<lambda>i. None), ud_function_priv := (\<lambda>i. None)\<rparr>"

definition print_total_function_diff :: "string \<Rightarrow> codiff_show \<Rightarrow> codiff_show" where
  "print_total_function_diff filename sh =
     say (nl @ filename @ '':'' @ nl @
       '' '' @ dec (sh_total_nr_functions_changed sh) @ '' function'' @ plural_s (sh_total_nr_functions_changed sh) @ '' changed'' @
       (if sh_total_function_bytes_added sh \<noteq> 0 then '', '' @ dec (sh_total_function_bytes_added sh) @ '' bytes added'' else '''') @
       (if sh_total_function_bytes_removed sh \<noteq> 0 then '', '' @ dec (sh_total_function_bytes_removed sh) @ '' bytes removed'' else '''') @
       '', diff: '' @ plus_dec (s32 (int (sh_total_function_bytes_added sh) - int (sh_total_function_bytes_removed sh))) @ nl) sh"

section \<open>The program\<close>

text \<open>\<open>None\<close> for a key that argp does not know; \<open>--devel_version\<close> ends the program.\<close>

definition codiff__options_parser :: "nat \<Rightarrow> string option \<Rightarrow> codiff_conf \<Rightarrow> fault + codiff_conf option" where
  "codiff__options_parser key arg cc =
     (if key = of_char (CHR ''f'') then Inr (Some (cc\<lparr>cc_show_function_diffs := True\<rparr>))
      else if key = of_char (CHR ''F'') then Inr (Some (cc\<lparr>cc_format_path := arg\<rparr>))
      else if key = of_char (CHR ''s'') then Inr (Some (cc\<lparr>cc_show_struct_diffs := True\<rparr>))
      else if key = of_char (CHR ''t'') then Inr (Some (cc\<lparr>cc_show_terse_type_changes := True\<rparr>))
      else if key = of_char (CHR ''V'') then Inr (Some (cc\<lparr>cc_verbose := True\<rparr>))
      else if key = of_char (CHR ''q'') then Inr (Some (cc\<lparr>cc_quiet := True\<rparr>))
      else if key = 300 then Inl (Exit 0)
      else Inr None)"

definition default_diffs :: "codiff_conf \<Rightarrow> codiff_conf" where
  "default_diffs cc =
     (if \<not> cc_show_function_diffs cc \<and> \<not> cc_show_struct_diffs cc \<and> \<not> cc_show_terse_type_changes cc
      then cc\<lparr>cc_show_function_diffs := True, cc_show_struct_diffs := True\<rparr> else cc)"

text \<open>The three loops over the units of the loaded files.\<close>

definition codiff_compare ::
  "heap_env \<Rightarrow> nat \<Rightarrow> codiff_conf \<Rightarrow> nat \<Rightarrow> conf_fprintf \<Rightarrow> unit_diff list \<Rightarrow> unit_diff list \<Rightarrow>
    fault + unit_diff list \<times> unit_diff list" where
  "codiff_compare h z cc n cf olds news =
     bindE (fold_e (cu_diff_iterator h z cc n cf) [0..<length olds] (olds, news)) (\<lambda>(olds1, news1).
     bindE (fold_e (cu_find_new_tags_iterator h z olds1) [0..<length news1] news1) (\<lambda>news2.
       Inr (olds1, news2)))"

definition codiff_print ::
  "heap_env \<Rightarrow> codiff_conf \<Rightarrow> nat \<Rightarrow> conf_fprintf \<Rightarrow> string \<Rightarrow> unit_diff list \<Rightarrow> unit_diff list \<Rightarrow> codiff_show \<Rightarrow> fault + codiff_show" where
  "codiff_print h cc n cf new_filename olds news sh =
     bindE (fold_e (cu_show_diffs_iterator h cc n cf olds news False) olds sh) (\<lambda>sh1.
     bindE (if length news > 1 then fold_e (cu_show_diffs_iterator h cc n cf olds news True) news sh1 else Inr sh1) (\<lambda>sh2.
       Inr (if sh_total_cus_changed sh2 > 1 \<and> cc_show_function_diffs cc then print_total_function_diff new_filename sh2 else sh2)))"

text \<open>What is printed for the units of two files.\<close>

definition codiff_main ::
  "heap_env \<Rightarrow> nat \<Rightarrow> codiff_conf \<Rightarrow> nat \<Rightarrow> conf_fprintf \<Rightarrow> string \<Rightarrow> cu list \<Rightarrow> cu list \<Rightarrow> fault + string" where
  "codiff_main h z cc0 n cf new_filename old_cus new_cus =
     (let cc = default_diffs cc0
      in case strlist__new h False of
           None \<Rightarrow> Inr ''''
         | Some sl \<Rightarrow>
             bindE (codiff_compare h z cc n cf (map unit_diff_of old_cus) (map unit_diff_of new_cus)) (\<lambda>(olds, news).
             bindE (codiff_print h cc n cf new_filename olds news
                 \<lparr>sh_structs_printed = sl, sh_terse_type_changes = 0, sh_first_cu_printed = False, sh_total_cus_changed = 0,
                  sh_total_nr_functions_changed = 0, sh_total_function_bytes_added = 0, sh_total_function_bytes_removed = 0,
                  sh_out = ''''\<rparr>) (\<lambda>sh. Inr (sh_out sh))))"

end
