(* ===== verification/CodiffSpec.thy ===== *)
theory CodiffSpec
  imports Codiff
begin

text \<open>
  What codiff counts, and when it calls a structure changed.
\<close>

section \<open>Loops that visit each index once\<close>

lemma fold_e_once:
  assumes "\<And>x s s'. x \<in> set xs \<Longrightarrow> I s \<Longrightarrow> x \<notin> D s \<Longrightarrow> f x s = Inr s' \<Longrightarrow> I s' \<and> D s' \<subseteq> insert x (D s)"
  shows "fold_e f xs s = Inr s' \<Longrightarrow> distinct xs \<Longrightarrow> set xs \<inter> D s = {} \<Longrightarrow> I s \<Longrightarrow> I s'"
  using assms
proof (induction xs arbitrary: s)
  case (Cons x xs)
  from Cons.prems(1) obtain s1 where s1: "f x s = Inr s1" "fold_e f xs s1 = Inr s'" by (auto split: sum.splits)
  have i: "I s1 \<and> D s1 \<subseteq> insert x (D s)" using Cons.prems(3,4) by (intro Cons.prems(5) [OF _ _ _ s1(1)]) auto
  show ?case
    by (rule Cons.IH [OF s1(2)]) (use Cons.prems(2,3,5) i in auto)
qed simp

lemma distinct_pt_each: "distinct (map fst (pt_each lo pt))"
  using sorted_pt_each [of lo pt] by (simp add: strict_sorted_iff)

lemma distinct_ids: "distinct (function_ids cu)" "distinct (struct_ids cu)"
  unfolding function_ids_def struct_ids_def cu__for_each_function_def cu__for_each_type_def
  using distinct_pt_each by (auto simp: distinct_map intro: inj_on_subset)

section \<open>The counters\<close>

text \<open>
  The counters of a unit: as many functions and structures are counted as changed as have a difference, and
  the bytes added less the bytes removed are the sum of the differences, modulo \<open>2 ^ 32\<close>.
\<close>

definition tally :: "unit_diff \<Rightarrow> bool" where
  "tally u \<longleftrightarrow>
     finite (dom (ud_function_priv u)) \<and> finite (dom (ud_class_priv u)) \<and>
     ud_nr_functions_changed u = u32 (card (dom (ud_function_priv u))) \<and>
     ud_nr_structures_changed u = u32 (card (dom (ud_class_priv u))) \<and>
     u32 (int (ud_function_bytes_added u) - int (ud_function_bytes_removed u)) =
       u32 (\<Sum>i\<in>dom (ud_function_priv u). di_diff (the (ud_function_priv u i)))"

lemma tally_max_len: "tally (u\<lparr>ud_max_len_changed_item := x\<rparr>) = tally u"
  by (simp add: tally_def)

lemma max_len_keeps: "cu__check_max_len_changed_item nm k u = Inr u' \<Longrightarrow> \<exists>x. u' = u\<lparr>ud_max_len_changed_item := x\<rparr>"
proof -
  assume "cu__check_max_len_changed_item nm k u = Inr u'"
  then have "u' = u \<or> (\<exists>x. u' = u\<lparr>ud_max_len_changed_item := x\<rparr>)"
    by (auto simp: cu__check_max_len_changed_item_def Let_def split: option.splits if_splits)
  then show ?thesis by (cases u) auto
qed

text \<open>A function that has no difference yet gets one, and the bytes are changed by as much.\<close>

lemma tally_count:
  assumes "tally u" "i \<notin> dom (ud_function_priv u)"
    "u32 (int a - int r) = u32 (int (ud_function_bytes_added u) - int (ud_function_bytes_removed u) + di_diff di)"
  shows "tally ((count_function i di u)\<lparr>ud_function_bytes_added := a, ud_function_bytes_removed := r\<rparr>)"
proof -
  have f: "finite (dom (ud_function_priv u))" using assms(1) by (simp add: tally_def)
  let ?g = "\<lambda>p j. di_diff (the (p j))"
  have "(\<Sum>j\<in>insert i (dom (ud_function_priv u)). ?g ((ud_function_priv u)(i \<mapsto> di)) j) =
      di_diff di + (\<Sum>j\<in>dom (ud_function_priv u). ?g ((ud_function_priv u)(i \<mapsto> di)) j)"
    using f assms(2) by (subst sum.insert) simp_all
  also have "(\<Sum>j\<in>dom (ud_function_priv u). ?g ((ud_function_priv u)(i \<mapsto> di)) j) = (\<Sum>j\<in>dom (ud_function_priv u). ?g (ud_function_priv u) j)"
    by (rule sum.cong) (use assms(2) in auto)
  finally have s: "(\<Sum>j\<in>insert i (dom (ud_function_priv u)). ?g ((ud_function_priv u)(i \<mapsto> di)) j) =
      (\<Sum>j\<in>dom (ud_function_priv u). ?g (ud_function_priv u) j) + di_diff di" by simp
  have m: "u32 (int (ud_function_bytes_added u) - int (ud_function_bytes_removed u) + d) =
      u32 ((\<Sum>j\<in>dom (ud_function_priv u). ?g (ud_function_priv u) j) + d)" for d
    by (rule mod_add_cong [OF _ refl]) (use assms(1) in \<open>simp add: tally_def\<close>)
  have e: "u32 (int a - int r) = u32 (\<Sum>j\<in>insert i (dom (ud_function_priv u)). ?g ((ud_function_priv u)(i \<mapsto> di)) j)"
    unfolding s assms(3) by (rule m)
  have n: "ud_nr_functions_changed u = u32 (card (dom (ud_function_priv u)))" using assms(1) by (simp add: tally_def)
  have c: "u32 (ud_nr_functions_changed u + 1) = u32 (card (insert i (dom (ud_function_priv u))))"
    unfolding n using f assms(2) by (simp add: mod_Suc_eq)
  show ?thesis
    using assms(1) e c f unfolding tally_def count_function_def by simp
qed

lemma s32_mod: "u32 (s32 x) = u32 x"
  unfolding s32_def using mod_diff_cong [OF mod_mod_trivial refl, of "x + 2147483648" 4294967296 2147483648] by simp

lemma u64_u32: "u32 (int (u64 k)) = u32 (int k)" for k :: nat
proof -
  have "int (u64 k) = int k mod 18446744073709551616" by (simp add: zmod_int)
  then show ?thesis by (simp add: mod_mod_cancel)
qed

lemma tally_added:
  assumes "tally u" "i \<notin> dom (ud_function_priv u)" "u32 (int a) = u32 (int (ud_function_bytes_added u) + di_diff di)"
  shows "tally ((count_function i di u)\<lparr>ud_function_bytes_added := a\<rparr>)"
proof -
  let ?r = "ud_function_bytes_removed u"
  have e: "u32 (int a - int ?r) = u32 (int (ud_function_bytes_added u) + di_diff di - int ?r)"
    by (rule mod_diff_cong [OF assms(3) refl])
  have "int (ud_function_bytes_added u) + di_diff di - int ?r = int (ud_function_bytes_added u) - int ?r + di_diff di" by simp
  from tally_count [OF assms(1,2) e [unfolded this]] show ?thesis by (simp add: count_function_def)
qed

lemma tally_removed:
  assumes "tally u" "i \<notin> dom (ud_function_priv u)" "u32 (int r) = u32 (int (ud_function_bytes_removed u) - di_diff di)"
  shows "tally ((count_function i di u)\<lparr>ud_function_bytes_removed := r\<rparr>)"
proof -
  let ?a = "ud_function_bytes_added u"
  have e: "u32 (int ?a - int r) = u32 (int ?a - (int (ud_function_bytes_removed u) - di_diff di))"
    by (rule mod_diff_cong [OF refl assms(3)])
  have "int ?a - (int (ud_function_bytes_removed u) - di_diff di) = int ?a - int (ud_function_bytes_removed u) + di_diff di" by simp
  from tally_count [OF assms(1,2) e [unfolded this]] show ?thesis by (simp add: count_function_def)
qed

lemma tally_counted:
  "tally u \<Longrightarrow> i \<notin> dom (ud_function_priv u) \<Longrightarrow> di_diff di = 0 \<Longrightarrow> tally (count_function i di u)"
  using tally_added [of u i "ud_function_bytes_added u" di] by (simp add: count_function_def)

lemma tally_class:
  assumes "tally u" "i \<notin> dom (ud_class_priv u)"
  shows "tally (u\<lparr>ud_class_priv := (ud_class_priv u)(i \<mapsto> di), ud_nr_structures_changed := u32 (ud_nr_structures_changed u + 1)\<rparr>)"
proof -
  have n: "ud_nr_structures_changed u = u32 (card (dom (ud_class_priv u)))" "finite (dom (ud_class_priv u))"
    using assms(1) by (simp_all add: tally_def)
  have "u32 (ud_nr_structures_changed u + 1) = u32 (card (insert i (dom (ud_class_priv u))))"
    unfolding n(1) using n(2) assms(2) by (simp add: mod_Suc_eq)
  with assms(1) show ?thesis by (simp add: tally_def)
qed

lemma tally_cu: "tally (u\<lparr>ud_cu := x\<rparr>) = tally u"
  by (simp add: tally_def)

lemma new_info: "diff_info__new h z twin cu d = Inr di \<Longrightarrow> di_diff di = d"
  by (auto simp: diff_info__new_def split: if_splits)

section \<open>One function, one structure\<close>

definition once_f :: "nat \<Rightarrow> unit_diff \<Rightarrow> unit_diff \<Rightarrow> bool" where
  "once_f i u u' \<longleftrightarrow> tally u' \<and> dom (ud_function_priv u') \<subseteq> insert i (dom (ud_function_priv u)) \<and>
     ud_class_priv u' = ud_class_priv u \<and> ud_cu u' = ud_cu u"

lemma once_same: "tally u \<Longrightarrow> once_f i u u"
  by (auto simp: once_f_def)

lemma once_counted:
  "tally ((count_function i di u)\<lparr>ud_function_bytes_added := a, ud_function_bytes_removed := r\<rparr>) \<Longrightarrow>
    once_f i u ((count_function i di u)\<lparr>ud_function_bytes_added := a, ud_function_bytes_removed := r\<rparr>)"
  by (auto simp: once_f_def count_function_def)

lemma dom_max_len: "ud_function_priv (u\<lparr>ud_max_len_changed_item := x\<rparr>) = ud_function_priv u"
  by simp

lemma diff_function_once:
  assumes "diff_function h z n cf new_cu i u = Inr u'" "tally u" "i \<notin> dom (ud_function_priv u)"
  shows "once_f i u u'"
proof -
  from assms(1) obtain t f where g: "get_function (ud_cu u) i = Inr (t, f)"
    by (auto simp: diff_function_def split: sum.splits)
  show ?thesis
  proof (cases "fn_inlined f \<noteq> 0 \<or> fn_abstract_origin f")
    case True
    with assms g show ?thesis by (simp add: diff_function_def once_same)
  next
    case False
    from assms(1) g False obtain r where r: "cu__find_function_by_name (map_option snd new_cu) (fn_name f) = Inr r"
      by (auto simp: diff_function_def split: sum.splits)
    let ?gone = "bindE (cu__check_max_len_changed_item (fn_name f) 0 u) (\<lambda>u1.
               bindE (diff_info__new h z None None (s32 (- int (function__size f)))) (\<lambda>di.
                 let u2 = count_function i di u1
                 in Inr (u2\<lparr>ud_function_bytes_removed := u64 (ud_function_bytes_removed u2 + function__size f)\<rparr>)))"
    show ?thesis
    proof (cases "\<exists>j nt k ncu. r = Some (j, nt) \<and> new_cu = Some (k, ncu)")
      case False2: False
      then have "?gone = Inr u'"
        using assms(1) g False r by (auto simp: diff_function_def split: option.splits prod.splits)
      then obtain u1 di where u1: "cu__check_max_len_changed_item (fn_name f) 0 u = Inr u1"
          "diff_info__new h z None None (s32 (- int (function__size f))) = Inr di"
        and u': "u' = (count_function i di u1)\<lparr>ud_function_bytes_removed := u64 (ud_function_bytes_removed u1 + function__size f)\<rparr>"
        by (auto simp: Let_def count_function_def split: sum.splits)
      obtain x where x: "u1 = u\<lparr>ud_max_len_changed_item := x\<rparr>" using max_len_keeps [OF u1(1)] by blast
      have "u32 (int (u64 (ud_function_bytes_removed u1 + function__size f))) = u32 (int (ud_function_bytes_removed u1) - di_diff di)"
        unfolding u64_u32 new_info [OF u1(2)]
        using mod_diff_cong [OF refl s32_mod, of "int (ud_function_bytes_removed u1)" "- int (function__size f)"] by simp
      from tally_removed [OF _ _ this, of i] assms(2,3) x have "tally u'"
        unfolding u' by (simp add: tally_max_len)
      then show ?thesis unfolding u' x by (auto simp: once_f_def count_function_def)
    next
      case True
      then obtain j nt k ncu where p: "r = Some (j, nt)" "new_cu = Some (k, ncu)" by blast
      from assms(1) g False r p obtain nf where nf: "tag__function nt = Inr nf"
        by (auto simp: diff_function_def split: sum.splits)
      let ?d = "s32 (int (function__size nf) - int (function__size f))"
      show ?thesis
      proof (cases "?d = 0")
        case True
        with assms(1) g False r p nf have "u' = u \<or> (\<exists>di. di_diff di = 0 \<and> u' = count_function i di u)"
          by (auto simp: diff_function_def Let_def split: sum.splits if_splits dest: new_info)
        with assms(2,3) tally_counted show ?thesis by (auto simp: once_same once_f_def count_function_def)
      next
        case False3: False
        with assms(1) g False r p nf obtain u1 di where
          u1: "cu__check_max_len_changed_item (fn_name f) 0 u = Inr u1"
            "diff_info__new h z (Some (New_unit k, j)) (Some (New_unit k)) ?d = Inr di" and
          u': "u' = (if ?d > 0 then (count_function i di u1)\<lparr>ud_function_bytes_added := u64 (ud_function_bytes_added u1 + nat ?d)\<rparr>
             else (count_function i di u1)\<lparr>ud_function_bytes_removed := u64 (ud_function_bytes_removed u1 + nat (- ?d))\<rparr>)"
          by (auto simp: diff_function_def Let_def count_function_def split: sum.splits if_splits)
        obtain x where x: "u1 = u\<lparr>ud_max_len_changed_item := x\<rparr>" using max_len_keeps [OF u1(1)] by blast
        have t: "tally u1" "i \<notin> dom (ud_function_priv u1)" using assms(2,3) x by (simp_all add: tally_max_len)
        have "tally u'"
        proof (cases "?d > 0")
          case True
          have "u32 (int (u64 (ud_function_bytes_added u1 + nat ?d))) = u32 (int (ud_function_bytes_added u1) + di_diff di)"
            unfolding u64_u32 new_info [OF u1(2)] using True by simp
          from tally_added [OF t this] True show ?thesis unfolding u' by simp
        next
          case False
          have "u32 (int (u64 (ud_function_bytes_removed u1 + nat (- ?d)))) = u32 (int (ud_function_bytes_removed u1) - di_diff di)"
            unfolding u64_u32 new_info [OF u1(2)] using False by simp
          from tally_removed [OF t this] False show ?thesis unfolding u' by simp
        qed
        then show ?thesis unfolding u' x by (auto simp: once_f_def count_function_def split: if_splits)
      qed
    qed
  qed
qed

lemma new_function_once:
  assumes "new_function h z old_cu k i u = Inr u'" "tally u" "i \<notin> dom (ud_function_priv u)"
  shows "once_f i u u'"
proof -
  from assms(1) obtain t f where g: "get_function (ud_cu u) i = Inr (t, f)"
    by (auto simp: new_function_def split: sum.splits)
  let ?d = "s32 (int (function__size f))"
  from assms(1) g consider (same) "u' = u"
    | (counted) u1 di where "cu__check_max_len_changed_item (fn_name f) 0 u = Inr u1" "di_diff di = ?d"
        "u' = count_function i di (u1\<lparr>ud_function_bytes_added := nat (u64 (int (ud_function_bytes_added u1) + ?d))\<rparr>)"
    by (auto simp: new_function_def Let_def split: sum.splits if_splits option.splits dest: new_info)
  then show ?thesis
  proof cases
    case same
    with assms(2) show ?thesis by (simp add: once_same)
  next
    case counted
    obtain x where x: "u1 = u\<lparr>ud_max_len_changed_item := x\<rparr>" using max_len_keeps [OF counted(1)] by blast
    have "u32 (int (nat (u64 (int (ud_function_bytes_added u1) + ?d)))) = u32 (int (ud_function_bytes_added u1) + di_diff di)"
      unfolding counted(2) by (simp add: mod_mod_cancel)
    from tally_added [OF _ _ this, of i] assms(2,3) x
    have "tally ((count_function i di u1)\<lparr>ud_function_bytes_added := nat (u64 (int (ud_function_bytes_added u1) + ?d))\<rparr>)"
      by (simp add: tally_max_len)
    then have "tally u'" unfolding counted(3) by (simp add: count_function_def tally_def)
    then show ?thesis unfolding counted(3) x by (auto simp: once_f_def count_function_def)
  qed
qed

text \<open>Structures; the other unit only gets new layouts.\<close>

definition once_s :: "nat \<Rightarrow> unit_diff \<Rightarrow> unit_diff \<Rightarrow> bool" where
  "once_s i u u' \<longleftrightarrow> tally u' \<and> dom (ud_class_priv u') \<subseteq> insert i (dom (ud_class_priv u)) \<and>
     ud_function_priv u' = ud_function_priv u"

definition fresh_unit :: "unit_diff \<Rightarrow> bool" where
  "fresh_unit u \<longleftrightarrow> u = unit_diff_of (ud_cu u)"

lemma fresh_tally: "fresh_unit u \<Longrightarrow> tally u"
proof -
  assume "fresh_unit u"
  then have "u = unit_diff_of (ud_cu u)" by (simp add: fresh_unit_def)
  moreover have "tally (unit_diff_of c)" for c by (simp add: tally_def unit_diff_of_def)
  ultimately show ?thesis by metis
qed

lemma fresh_privs: "fresh_unit u \<Longrightarrow> ud_function_priv u = (\<lambda>i. None) \<and> ud_class_priv u = (\<lambda>i. None)"
  unfolding fresh_unit_def unit_diff_of_def by (metis unit_diff.select_convs(7,8))

lemma fresh_cu: "fresh_unit u \<Longrightarrow> fresh_unit (u\<lparr>ud_cu := x\<rparr>)"
  unfolding fresh_unit_def unit_diff_of_def by (cases u) simp

lemma count_struct_result:
  assumes "count_struct h z i twin cu nm u = Inr u'"
  shows "\<exists>y di. u' = u\<lparr>ud_nr_structures_changed := u32 (ud_nr_structures_changed u + 1), ud_max_len_changed_item := y,
                      ud_class_priv := (ud_class_priv u)(i \<mapsto> di)\<rparr>"
proof -
  from assms obtain u1 di where u1: "cu__check_max_len_changed_item nm 7
        (u\<lparr>ud_nr_structures_changed := u32 (ud_nr_structures_changed u + 1)\<rparr>) = Inr u1"
      "u' = u1\<lparr>ud_class_priv := (ud_class_priv u1)(i \<mapsto> di)\<rparr>"
    by (auto simp: count_struct_def split: sum.splits)
  obtain x where x: "u1 = u\<lparr>ud_nr_structures_changed := u32 (ud_nr_structures_changed u + 1), ud_max_len_changed_item := x\<rparr>"
    using max_len_keeps [OF u1(1)] by blast
  show ?thesis unfolding u1(2) x by (intro exI [of _ x] exI [of _ di]) simp
qed

definition struct_step :: "nat \<Rightarrow> unit_diff \<Rightarrow> unit_diff \<Rightarrow> bool" where
  "struct_step i u u' \<longleftrightarrow>
     (\<exists>x. u' = u\<lparr>ud_cu := x\<rparr>) \<or>
     (\<exists>x y di. u' = u\<lparr>ud_cu := x, ud_nr_structures_changed := u32 (ud_nr_structures_changed u + 1), ud_max_len_changed_item := y,
                      ud_class_priv := (ud_class_priv u)(i \<mapsto> di)\<rparr>)"

lemma diff_struct_pair_result:
  assumes "diff_struct_pair h z cc n cf i u k j w = Inr (u', w')"
  shows "struct_step i u u' \<and> (\<exists>x. w' = w\<lparr>ud_cu := x\<rparr>)"
proof -
  from assms obtain cu1 d nm y where
    d: "(if d then count_struct h z i (Some (New_unit k, j)) (Some (New_unit k)) nm (u\<lparr>ud_cu := cu1\<rparr>)
         else Inr (u\<lparr>ud_cu := cu1\<rparr>)) = Inr u'" "w' = w\<lparr>ud_cu := y\<rparr>"
    unfolding diff_struct_pair_def by (auto split: sum.splits prod.splits)
  show ?thesis
  proof (cases d)
    case True
    with d(1) count_struct_result [of h z i _ _ nm "u\<lparr>ud_cu := cu1\<rparr>" u'] have "struct_step i u u'"
      by (fastforce simp: struct_step_def)
    with d(2) show ?thesis by blast
  next
    case False
    with d show ?thesis by (auto simp: struct_step_def)
  qed
qed

lemma diff_struct_result:
  assumes "diff_struct h z cc n cf i (u, nu) = Inr (u', nu')"
  shows "(nu' = nu \<or> (\<exists>k w x. nu = Some (k, w) \<and> nu' = Some (k, w\<lparr>ud_cu := x\<rparr>))) \<and> struct_step i u u'"
proof -
  have "u = u\<lparr>ud_cu := ud_cu u\<rparr>" by simp
  then have same: "struct_step i u u" unfolding struct_step_def by blast
  from assms have "(u', nu') = (u, nu) \<or> (\<exists>k w j w'. nu = Some (k, w) \<and> nu' = Some (k, w') \<and>
      diff_struct_pair h z cc n cf i u k j w = Inr (u', w'))"
    unfolding diff_struct_def fst_conv snd_conv
    by (auto split: sum.splits if_splits option.splits prod.splits simp: map_sum_Inr)
  then show ?thesis using same diff_struct_pair_result by blast
qed

lemma diff_struct_once:
  assumes "diff_struct h z cc n cf i (u, nu) = Inr (u', nu')" "tally u" "i \<notin> dom (ud_class_priv u)"
    "\<forall>k w. nu = Some (k, w) \<longrightarrow> fresh_unit w"
  shows "once_s i u u' \<and> (\<forall>k w. nu' = Some (k, w) \<longrightarrow> fresh_unit w) \<and> map_option fst nu' = map_option fst nu"
proof -
  note r = diff_struct_result [OF assms(1)]
  have f: "\<forall>k w. nu' = Some (k, w) \<longrightarrow> fresh_unit w" "map_option fst nu' = map_option fst nu"
    using r assms(4) fresh_cu by auto
  from r consider x where "u' = u\<lparr>ud_cu := x\<rparr>"
    | x y di where "u' = u\<lparr>ud_cu := x, ud_nr_structures_changed := u32 (ud_nr_structures_changed u + 1), ud_max_len_changed_item := y,
                      ud_class_priv := (ud_class_priv u)(i \<mapsto> di)\<rparr>" unfolding struct_step_def by blast
  then have "once_s i u u'"
  proof cases
    case 1
    with assms(2) show ?thesis by (auto simp: once_s_def tally_cu)
  next
    case 2
    from tally_class [OF assms(2,3), of di] have "tally u'" unfolding 2 by (simp add: tally_def)
    then show ?thesis unfolding 2 by (auto simp: once_s_def)
  qed
  with f show ?thesis by blast
qed

lemma new_struct_once:
  assumes "new_struct h z old_cu i u = Inr u'" "tally u" "i \<notin> dom (ud_class_priv u)"
  shows "once_s i u u'"
proof -
  obtain t c where c: "get_class (ud_cu u) i = Inr (t, c)"
    using assms(1) by (cases "get_class (ud_cu u) i") (auto simp: new_struct_def)
  note p = assms(1) [unfolded new_struct_def c sum.case prod.case]
  have "u' = u \<or> (\<exists>nm di. cu__check_max_len_changed_item nm 7 (u\<lparr>ud_class_priv := (ud_class_priv u)(i \<mapsto> di),
        ud_nr_structures_changed := u32 (ud_nr_structures_changed u + 1)\<rparr>) = Inr u')"
    using p by (auto split: sum.splits if_splits)
  then consider "u' = u"
    | nm di where "cu__check_max_len_changed_item nm 7 (u\<lparr>ud_class_priv := (ud_class_priv u)(i \<mapsto> di),
        ud_nr_structures_changed := u32 (ud_nr_structures_changed u + 1)\<rparr>) = Inr u'" by blast
  then show ?thesis
  proof cases
    case 1
    with assms(2) show ?thesis by (auto simp: once_s_def)
  next
    case 2
    obtain x where x: "u' = u\<lparr>ud_class_priv := (ud_class_priv u)(i \<mapsto> di),
        ud_nr_structures_changed := u32 (ud_nr_structures_changed u + 1), ud_max_len_changed_item := x\<rparr>"
      using max_len_keeps [OF 2] by auto
    from tally_class [OF assms(2,3), of di] have "tally u'" unfolding x by (simp add: tally_def)
    then show ?thesis unfolding x by (auto simp: once_s_def)
  qed
qed

section \<open>All units\<close>

lemma find_pair_bound: "find_pair us name = Some k \<Longrightarrow> k < length us"
  by (auto simp: find_pair_def find_Some_iff split: if_splits option.splits)

lemma unit_structs_tally:
  assumes "fold_e (diff_struct h z cc n cf) (struct_ids c) (u, nu) = Inr (u', nu')" "fresh_unit u"
    "\<forall>k w. nu = Some (k, w) \<longrightarrow> fresh_unit w"
  shows "tally u' \<and> ud_function_priv u' = (\<lambda>i. None) \<and> (\<forall>k w. nu' = Some (k, w) \<longrightarrow> fresh_unit w) \<and>
     map_option fst nu' = map_option fst nu"
proof -
  let ?I = "\<lambda>s. tally (fst s) \<and> ud_function_priv (fst s) = (\<lambda>i. None) \<and> (\<forall>k w. snd s = Some (k, w) \<longrightarrow> fresh_unit w) \<and>
     map_option fst (snd s) = map_option fst nu"
  let ?D = "\<lambda>s. dom (ud_class_priv (fst s))"
  have step: "?I s' \<and> ?D s' \<subseteq> insert i (?D s)"
    if "?I s" "i \<notin> ?D s" "diff_struct h z cc n cf i s = Inr s'" for i s s'
    using diff_struct_once [of h z cc n cf i "fst s" "snd s" "fst s'" "snd s'"] that by (simp add: once_s_def)
  have "?I (u', nu')"
    by (rule fold_e_once [where I = ?I and D = ?D, OF step assms(1) distinct_ids(2)])
      (use assms(2,3) fresh_tally fresh_privs in auto)
  then show ?thesis by simp
qed

lemma functions_tally:
  assumes "fold_e f ids u = Inr u'" "distinct ids" "tally u" "ud_function_priv u = (\<lambda>i. None)"
    "\<And>i s s'. f i s = Inr s' \<Longrightarrow> tally s \<Longrightarrow> i \<notin> dom (ud_function_priv s) \<Longrightarrow> once_f i s s'"
  shows "tally u' \<and> ud_class_priv u' = ud_class_priv u"
proof -
  let ?I = "\<lambda>s. tally s \<and> ud_class_priv s = ud_class_priv u"
  show ?thesis
    by (rule fold_e_once [where I = ?I and D = "\<lambda>s. dom (ud_function_priv s)", OF _ assms(1,2)])
      (use assms(3-5) in \<open>auto simp: once_f_def\<close>)
qed

lemma structs_tally:
  assumes "fold_e f ids u = Inr u'" "distinct ids" "tally u" "ud_class_priv u = (\<lambda>i. None)"
    "\<And>i s s'. f i s = Inr s' \<Longrightarrow> tally s \<Longrightarrow> i \<notin> dom (ud_class_priv s) \<Longrightarrow> once_s i s s'"
  shows "tally u'"
  by (rule fold_e_once [where I = tally and D = "\<lambda>s. dom (ud_class_priv s)", OF _ assms(1,2)])
    (use assms(3-5) in \<open>auto simp: once_s_def\<close>)

lemma cu_diff_iterator_tally:
  assumes "cu_diff_iterator h z cc n cf i (olds, news) = Inr s'" "i < length olds" "fresh_unit (olds ! i)"
    "\<forall>w\<in>set news. fresh_unit w"
  shows "\<exists>u. tally u \<and> fst s' = olds[i := u] \<and> (\<forall>w\<in>set (snd s'). fresh_unit w)"
proof -
  let ?k = "find_pair news (cu_name (ud_cu (olds ! i)))"
  let ?nu = "map_option (\<lambda>k. (k, news ! k)) ?k"
  have fnu: "\<forall>k w. ?nu = Some (k, w) \<longrightarrow> fresh_unit w" using find_pair_bound assms(4) by auto
  have same: "\<exists>u. tally u \<and> fst (olds, news) = olds[i := u] \<and> (\<forall>w\<in>set (snd (olds, news)). fresh_unit w)"
    using assms(2,4) fresh_tally [OF assms(3)] by (intro exI [of _ "olds ! i"]) simp
  from assms(1) consider "s' = (olds, news)"
    | u1 nu1 u2 where "fold_e (diff_struct h z cc n cf) (struct_ids (ud_cu (olds ! i))) (olds ! i, ?nu) = Inr (u1, nu1)"
        "fold_e (diff_function h z n cf (map_option (\<lambda>(k, w). (k, ud_cu w)) nu1)) (function_ids (ud_cu u1)) u1 = Inr u2"
        "s' = (olds[i := u2], case nu1 of None \<Rightarrow> news | Some (k, w) \<Rightarrow> news[k := w])"
    unfolding cu_diff_iterator_def Let_def prod.case
    by (simp split: if_split_asm sum.splits prod.splits)
  then show ?thesis
  proof cases
    case 1
    with same show ?thesis by simp
  next
    case 2
    note t1 = unit_structs_tally [OF 2(1) assms(3) fnu]
    have "tally u2"
      by (rule functions_tally [OF 2(2) distinct_ids(1), THEN conjunct1]) (use t1 diff_function_once in blast)+
    moreover have "\<forall>w\<in>set (case nu1 of None \<Rightarrow> news | Some (k, w) \<Rightarrow> news[k := w]). fresh_unit w"
      using t1 assms(4) set_update_subset_insert by (fastforce split: option.splits)
    ultimately show ?thesis unfolding 2(3) by auto
  qed
qed

lemma cu_find_new_tags_tally:
  assumes "cu_find_new_tags_iterator h z olds i news = Inr news'" "i < length news" "fresh_unit (news ! i)"
  shows "\<exists>u. tally u \<and> news' = news[i := u]"
proof -
  let ?old = "map_option (\<lambda>k. (k, ud_cu (olds ! k))) (find_pair olds (cu_name (ud_cu (news ! i))))"
  let ?rest = "bindE (fold_e (new_function h z ?old i) (function_ids (ud_cu (news ! i))) (news ! i)) (\<lambda>u1.
      bindE (fold_e (new_struct h z (map_option snd ?old)) (struct_ids (ud_cu u1)) u1) (\<lambda>u2. Inr (news[i := u2])))"
  have "news' = news \<or> ?rest = Inr news'"
    using assms(1) unfolding cu_find_new_tags_iterator_def Let_def by (simp split: if_split_asm)
  moreover have "\<exists>u1 u2. fold_e (new_function h z ?old i) (function_ids (ud_cu (news ! i))) (news ! i) = Inr u1 \<and>
      fold_e (new_struct h z (map_option snd ?old)) (struct_ids (ud_cu u1)) u1 = Inr u2 \<and> news' = news[i := u2]"
    if r: "?rest = Inr news'"
  proof -
    obtain u1 where u1: "fold_e (new_function h z ?old i) (function_ids (ud_cu (news ! i))) (news ! i) = Inr u1"
      using r by (cases "fold_e (new_function h z ?old i) (function_ids (ud_cu (news ! i))) (news ! i)") simp_all
    obtain u2 where u2: "fold_e (new_struct h z (map_option snd ?old)) (struct_ids (ud_cu u1)) u1 = Inr u2"
      using r unfolding u1 sum.case by (cases "fold_e (new_struct h z (map_option snd ?old)) (struct_ids (ud_cu u1)) u1") simp_all
    show ?thesis using r u1 u2 by simp
  qed
  ultimately consider "news' = news"
    | u1 u2 where "fold_e (new_function h z ?old i) (function_ids (ud_cu (news ! i))) (news ! i) = Inr u1"
        "fold_e (new_struct h z (map_option snd ?old)) (struct_ids (ud_cu u1)) u1 = Inr u2" "news' = news[i := u2]" by blast
  then show ?thesis
  proof cases
    case 1
    with assms(2) fresh_tally [OF assms(3)] show ?thesis by (metis list_update_id)
  next
    case 2
    have "tally u1 \<and> ud_class_priv u1 = ud_class_priv (news ! i)"
      by (rule functions_tally [OF 2(1) distinct_ids(1)])
        (use fresh_tally [OF assms(3)] fresh_privs [OF assms(3)] new_function_once in blast)+
    then have t: "tally u1" "ud_class_priv u1 = (\<lambda>i. None)" using fresh_privs [OF assms(3)] by simp_all
    have "tally u2" by (rule structs_tally [OF 2(2) distinct_ids(2) t]) (use new_struct_once in blast)
    with 2(3) show ?thesis by blast
  qed
qed

lemma compare_tally:
  assumes "codiff_compare h z cc n cf olds news = Inr (olds', news')" "\<forall>u\<in>set olds. fresh_unit u" "\<forall>w\<in>set news. fresh_unit w"
  shows "\<forall>u\<in>set olds' \<union> set news'. tally u"
proof -
  from assms(1) obtain news1 where
    l1: "fold_e (cu_diff_iterator h z cc n cf) [0..<length olds] (olds, news) = Inr (olds', news1)" and
    l2: "fold_e (cu_find_new_tags_iterator h z olds') [0..<length news1] news1 = Inr news'"
    by (auto simp: codiff_compare_def split: sum.splits)
  let ?D = "\<lambda>us. {j. j < length us \<and> \<not> fresh_unit (us ! j)}"
  have upd: "set (us[i := u]) \<subseteq> insert u (set us) \<and> ?D (us[i := u]) \<subseteq> insert i (?D us)" for us :: "unit_diff list" and i u
    by (auto simp: nth_list_update set_update_subset_insert split: if_splits dest: set_update_subset_insert [THEN subsetD])
  let ?I = "\<lambda>s. length (fst s) = length olds \<and> (\<forall>u\<in>set (fst s). tally u) \<and> (\<forall>w\<in>set (snd s). fresh_unit w)"
  have "?I (olds', news1)"
  proof (rule fold_e_once [where I = ?I and D = "\<lambda>s. ?D (fst s)", OF _ l1])
    fix i s s' assume i: "i \<in> set [0..<length olds]" "?I s" "i \<notin> ?D (fst s)" "cu_diff_iterator h z cc n cf i s = Inr s'"
    then have "cu_diff_iterator h z cc n cf i (fst s, snd s) = Inr s'" "i < length (fst s)" "fresh_unit (fst s ! i)" by auto
    from cu_diff_iterator_tally [OF this] i(2) obtain u where
      "tally u" "fst s' = (fst s)[i := u]" "\<forall>w\<in>set (snd s'). fresh_unit w" by blast
    with i(2) upd [of "fst s" i u] show "?I s' \<and> ?D (fst s') \<subseteq> insert i (?D (fst s))" by auto
  qed (use assms(2,3) fresh_tally in auto)
  then have 1: "\<forall>u\<in>set olds'. tally u" "\<forall>w\<in>set news1. fresh_unit w" by auto
  let ?J = "\<lambda>ws. length ws = length news1 \<and> (\<forall>w\<in>set ws. tally w)"
  have "?J news'"
  proof (rule fold_e_once [where I = ?J and D = ?D, OF _ l2])
    fix i ws ws' assume i: "i \<in> set [0..<length news1]" "?J ws" "i \<notin> ?D ws" "cu_find_new_tags_iterator h z olds' i ws = Inr ws'"
    then have "i < length ws" "fresh_unit (ws ! i)" by auto
    from cu_find_new_tags_tally [OF i(4) this] obtain u where "tally u" "ws' = ws[i := u]" by blast
    with i(2) upd [of ws i u] show "?J ws' \<and> ?D ws' \<subseteq> insert i (?D ws)" by auto
  qed (use 1(2) fresh_tally in auto)
  with 1(1) show ?thesis by blast
qed


section \<open>When a structure has changed\<close>

text \<open>What is compared of a member: its name, size and place, and the name of its type.\<close>

definition member_look ::
  "nat \<Rightarrow> conf_fprintf \<Rightarrow> cu \<Rightarrow> class_member \<Rightarrow> string option \<times> nat \<times> nat \<times> int \<times> nat \<times> (fault + string)" where
  "member_look n cf cu m =
     (cm_name m, cm_byte_size m, cm_byte_offset m, cm_bitfield_offset m, cm_bitfield_size m,
      tag_name_fuel n cf cu (cu_types cu (cm_type m)) 128)"

definition layout :: "nat \<Rightarrow> conf_fprintf \<Rightarrow> cu \<Rightarrow> 'a type_t_scheme \<Rightarrow> (string option \<times> nat \<times> nat \<times> int \<times> nat \<times> (fault + string)) set" where
  "layout n cf cu t = member_look n cf cu ` set (type__members (ty_tags t))"

text \<open>A structure of data members with names of their own, whose types exist and can be named.\<close>

definition plain_struct :: "nat \<Rightarrow> conf_fprintf \<Rightarrow> cu \<Rightarrow> 'a type_t_scheme \<Rightarrow> bool" where
  "plain_struct n cf cu t \<longleftrightarrow>
     cu_inv cu \<and> distinct (map cm_name (type__members (ty_tags t))) \<and>
     ty_nr_members t + ty_nr_static_members t = length (type__members (ty_tags t)) \<and>
     length (type__members (ty_tags t)) < 65536 \<and>
     (\<forall>m\<in>set (type__members (ty_tags t)).
        cm_tag m = DW_TAG_member \<and> cm_name m \<noteq> None \<and> cu_types cu (cm_type m) \<noteq> None \<and>
        (\<exists>s. tag_name_fuel n cf cu (cu_types cu (cm_type m)) 128 = Inr s))"

text \<open>A member without its mark.\<close>

definition unmark :: "class_member \<Rightarrow> class_member" where "unmark m = m\<lparr>cm_visited := False\<rparr>"

definition clear :: "ns_entry \<Rightarrow> ns_entry" where
  "clear e = (case e of Member m \<Rightarrow> Member (unmark m) | e \<Rightarrow> e)"

lemma clear_Member: "clear e = Member x \<Longrightarrow> \<exists>m. e = Member m \<and> x = unmark m"
  by (cases e) (auto simp: clear_def)

lemma ns_member_clear: "ns_member (clear e) = map unmark (ns_member e)"
  by (cases e) (auto simp: clear_def unmark_def)

lemma members_clear: "type__members (map clear es) = map unmark (type__members es)"
  by (induction es) (simp_all add: type__members_def ns_member_clear)

lemma unmark_simps [simp]:
  "cm_name (unmark m) = cm_name m" "cm_tag (unmark m) = cm_tag m" "member_look n cf cu (unmark m) = member_look n cf cu m"
  "member_look n cf cu (m\<lparr>cm_visited := b\<rparr>) = member_look n cf cu m" "unmark (m\<lparr>cm_visited := b\<rparr>) = unmark m"
  by (simp_all add: unmark_def member_look_def)

lemma member_entries_clear:
  assumes "map clear (ty_tags t) = map clear (ty_tags t')" "\<And>m. P (unmark m) = P m"
  shows "member_entries t P = member_entries t' P"
proof -
  have len: "length (ty_tags t) = length (ty_tags t')" using map_eq_imp_length_eq [OF assms(1)] .
  have "list_ex P (ns_member e) = list_ex P (ns_member (clear e))" for e
    by (simp add: ns_member_clear list_ex_iff assms(2))
  moreover have "clear (ty_tags t ! k) = clear (ty_tags t' ! k)" if "k < length (ty_tags t)" for k
    using that assms(1) len by (metis nth_map)
  ultimately show ?thesis
    unfolding member_entries_def len [symmetric] by (intro filter_cong refl) (metis atLeastLessThan_iff set_upt)
qed

text \<open>The first entry of a name.\<close>

lemma nth_entry_0:
  "case nth_entry (member_entries t P) 0 of
     None \<Rightarrow> \<forall>m\<in>set (type__members (ty_tags t)). \<not> P m
   | Some k \<Rightarrow> k < length (ty_tags t) \<and> (\<exists>m. ty_tags t ! k = Member m \<and> m \<in> set (type__members (ty_tags t)) \<and> P m)"
proof (cases "member_entries t P")
  case Nil
  then have none: "\<forall>k<length (ty_tags t). \<not> list_ex P (ns_member (ty_tags t ! k))"
    by (auto simp: member_entries_def filter_empty_conv)
  have "\<not> P m" if "m \<in> set (type__members (ty_tags t))" for m
  proof -
    from that obtain e where e: "e \<in> set (ty_tags t)" "m \<in> set (ns_member e)" by (auto simp: type__members_def)
    from e(1) obtain k where "k < length (ty_tags t)" "e = ty_tags t ! k" by (metis in_set_conv_nth)
    with none e(2) show ?thesis by (auto simp: list_ex_iff)
  qed
  with Nil show ?thesis by (simp add: nth_entry_def)
next
  case (Cons k ks)
  then have "k \<in> set (member_entries t P)" by simp
  then have k: "k < length (ty_tags t)" "list_ex P (ns_member (ty_tags t ! k))" by (auto simp: member_entries_def)
  then obtain m where m: "ty_tags t ! k = Member m" "m \<in> set (ns_member (ty_tags t ! k))" "P m"
    by (cases "ty_tags t ! k") (auto split: if_splits)
  have "m \<in> set (type__members (ty_tags t))" using m(2) k(1) by (auto simp: type__members_def)
  with Cons k m show ?thesis by (simp add: nth_entry_def)
qed

lemma check_print_change_plain:
  assumes "cu_inv cu" "cu_inv cu'" "cu_types cu (cm_type m) \<noteq> None" "cu_types cu' (cm_type w) \<noteq> None"
    "tag_name_fuel n cf cu (cu_types cu (cm_type m)) 128 = Inr a" "tag_name_fuel n cf cu' (cu_types cu' (cm_type w)) 128 = Inr b"
    "cm_name m = cm_name w"
  shows "\<exists>terse'. check_print_change cc n cf m cu w cu' False terse = Inr (member_look n cf cu m \<noteq> member_look n cf cu' w, terse', [])"
  using assms by (auto simp: check_print_change_def member_look_def Let_def)

text \<open>One member: it is found by its name, and it has changed when no member of the new structure is laid out like it.\<close>

definition same_members :: "class_t \<Rightarrow> class_t \<Rightarrow> bool" where
  "same_members c c' \<longleftrightarrow> map clear (ty_tags c) = map clear (ty_tags c') \<and>
     ty_nr_members c = ty_nr_members c' \<and> ty_nr_static_members c = ty_nr_static_members c'"

lemma same_members_mark:
  assumes "same_members c d" "k < length (ty_tags c)" "ty_tags c ! k = Member v"
  shows "same_members (c\<lparr>ty_tags := (ty_tags c)[k := Member (v\<lparr>cm_visited := True\<rparr>)]\<rparr>) d"
proof -
  have "map clear ((ty_tags c)[k := Member (v\<lparr>cm_visited := True\<rparr>)]) = map clear (ty_tags c)"
    using assms(2,3) by (simp add: map_update clear_def list_update_same_conv)
  with assms(1) show ?thesis by (simp add: same_members_def)
qed

lemma same_members_nth:
  assumes "same_members c d" "k < length (ty_tags d)" "ty_tags d ! k = Member w"
  shows "k < length (ty_tags c) \<and> (\<exists>v. ty_tags c ! k = Member v \<and> unmark v = unmark w)"
proof -
  have len: "length (ty_tags c) = length (ty_tags d)"
    using assms(1) map_eq_imp_length_eq unfolding same_members_def by blast
  have "clear (ty_tags c ! k) = clear (ty_tags d ! k)"
    using assms(1,2) len unfolding same_members_def by (metis nth_map)
  then have "clear (ty_tags c ! k) = Member (unmark w)" using assms(3) by (simp add: clear_def)
  then show ?thesis using clear_Member [of "ty_tags c ! k" "unmark w"] assms(2) len by auto
qed

lemma layout_name:
  assumes "plain_struct n cf cu' d" "w \<in> set (type__members (ty_tags d))" "cm_name w = cm_name m"
  shows "member_look n cf cu m \<in> layout n cf cu' d \<longleftrightarrow> member_look n cf cu m = member_look n cf cu' w"
proof
  assume "member_look n cf cu m \<in> layout n cf cu' d"
  then obtain x where x: "x \<in> set (type__members (ty_tags d))" "member_look n cf cu m = member_look n cf cu' x" by (auto simp: layout_def)
  then have "cm_name x = cm_name w" using assms(3) by (simp add: member_look_def)
  then have "x = w" using assms(1,2) x(1) by (auto simp: plain_struct_def distinct_map inj_on_def)
  with x(2) show "member_look n cf cu m = member_look n cf cu' w" by simp
qed (use assms(2) in \<open>auto simp: layout_def\<close>)

lemma check_member_plain:
  assumes old: "plain_struct n cf cu c" "m \<in> set (type__members (ty_tags c))"
    and new: "plain_struct n cf cu' d" "same_members (mc_new s) d"
  shows "\<exists>s'. check_member cc n cf cu cu' False m s = Inr s' \<and> same_members (mc_new s') d \<and>
    mc_nr_twins_found s' = (if \<exists>w\<in>set (type__members (ty_tags d)). cm_name w = cm_name m then u16 (mc_nr_twins_found s + 1)
                            else mc_nr_twins_found s) \<and>
    mc_changes s' = (mc_changes s \<or> member_look n cf cu m \<notin> layout n cf cu' d)"
proof -
  from old obtain nm where nm: "cm_name m = Some nm" by (auto simp: plain_struct_def)
  let ?P = "\<lambda>w. cm_tag w = DW_TAG_member \<and> name_is (cm_name w) nm"
  have P: "?P w \<longleftrightarrow> cm_name w = cm_name m" if "w \<in> set (type__members (ty_tags d))" for w
    using new(1) that nm by (auto simp: plain_struct_def name_is_eq)
  have e: "member_entries (mc_new s) ?P = member_entries d ?P"
    by (rule member_entries_clear) (use new(2) in \<open>simp_all add: same_members_def\<close>)
  have f: "class__find_pair_member (mc_new s) m (mc_nr_anonymous s) = (nth_entry (member_entries d ?P) 0, mc_nr_anonymous s)"
    using nm by (simp add: class__find_pair_member_def e)
  note n0 = nth_entry_0 [of d ?P]
  show ?thesis
  proof (cases "nth_entry (member_entries d ?P) 0")
    case None
    then have none: "\<forall>w\<in>set (type__members (ty_tags d)). cm_name w \<noteq> cm_name m" using n0 P by auto
    then have "member_look n cf cu m \<notin> layout n cf cu' d" by (auto simp: layout_def member_look_def)
    with none new(2) show ?thesis by (auto simp: check_member_def f None)
  next
    case (Some k)
    then obtain w where w: "k < length (ty_tags d)" "ty_tags d ! k = Member w" "w \<in> set (type__members (ty_tags d))"
        "cm_name w = cm_name m" using n0 P by auto
    from same_members_nth [OF new(2) w(1,2)] obtain v where
      v: "k < length (ty_tags (mc_new s))" "ty_tags (mc_new s) ! k = Member v" "unmark v = unmark w" by blast
    let ?v = "v\<lparr>cm_visited := True\<rparr>"
    have lv0: "member_look n cf cu' v = member_look n cf cu' w" using v(3) unmark_simps(3) by metis
    then have lv: "member_look n cf cu' ?v = member_look n cf cu' w" "cm_type ?v = cm_type w" "cm_name ?v = cm_name w"
      using arg_cong [OF v(3), of cm_type] arg_cong [OF v(3), of cm_name] by (simp_all add: unmark_def)
    obtain a b where ab: "tag_name_fuel n cf cu (cu_types cu (cm_type m)) 128 = Inr a"
        "tag_name_fuel n cf cu' (cu_types cu' (cm_type ?v)) 128 = Inr b"
      using old new(1) w(3) unfolding lv(2) plain_struct_def by blast
    have "cu_types cu (cm_type m) \<noteq> None" "cu_types cu' (cm_type ?v) \<noteq> None" "cu_inv cu" "cu_inv cu'"
      using old new(1) w(3) unfolding lv(2) plain_struct_def by blast+
    from check_print_change_plain [OF this(3,4,1,2) ab, of cc] w(4) lv(3) obtain terse' where
      c: "check_print_change cc n cf m cu ?v cu' False (mc_terse s) = Inr (member_look n cf cu m \<noteq> member_look n cf cu' ?v, terse', [])"
      by metis
    note u = layout_name [OF new(1) w(3,4), of cu]
    have ex: "\<exists>w\<in>set (type__members (ty_tags d)). cm_name w = cm_name m" using w(3,4) by blast
    show ?thesis
      using same_members_mark [OF new(2) v(1,2)] ex u by (simp add: check_member_def f Some v(2) Let_def c lv(1) lv0)
  qed
qed

lemma check_members_plain:
  assumes old: "plain_struct n cf cu c" and new: "plain_struct n cf cu' d"
  shows "set ms \<subseteq> set (type__members (ty_tags c)) \<Longrightarrow> same_members (mc_new s) d \<Longrightarrow>
    \<exists>s'. fold_e (check_member cc n cf cu cu' False) ms s = Inr s' \<and> same_members (mc_new s') d \<and>
      u16 (mc_nr_twins_found s') =
        u16 (mc_nr_twins_found s + length (filter (\<lambda>m. \<exists>w\<in>set (type__members (ty_tags d)). cm_name w = cm_name m) ms)) \<and>
      (mc_nr_twins_found s < 65536 \<longrightarrow> mc_nr_twins_found s' < 65536) \<and>
      mc_changes s' = (mc_changes s \<or> (\<exists>m\<in>set ms. member_look n cf cu m \<notin> layout n cf cu' d))"
proof (induction ms arbitrary: s)
  case (Cons m ms)
  from check_member_plain [OF old _ new Cons.prems(2), of m cc] Cons.prems(1) obtain s1 where
    s1: "check_member cc n cf cu cu' False m s = Inr s1" "same_members (mc_new s1) d"
      "mc_nr_twins_found s1 = (if \<exists>w\<in>set (type__members (ty_tags d)). cm_name w = cm_name m then u16 (mc_nr_twins_found s + 1)
                               else mc_nr_twins_found s)"
      "mc_changes s1 = (mc_changes s \<or> member_look n cf cu m \<notin> layout n cf cu' d)" by auto
  from Cons.IH [OF _ s1(2)] Cons.prems(1) obtain s2 where
    s2: "fold_e (check_member cc n cf cu cu' False) ms s1 = Inr s2" "same_members (mc_new s2) d"
      "u16 (mc_nr_twins_found s2) =
        u16 (mc_nr_twins_found s1 + length (filter (\<lambda>m. \<exists>w\<in>set (type__members (ty_tags d)). cm_name w = cm_name m) ms))"
      "mc_nr_twins_found s1 < 65536 \<longrightarrow> mc_nr_twins_found s2 < 65536"
      "mc_changes s2 = (mc_changes s1 \<or> (\<exists>m\<in>set ms. member_look n cf cu m \<notin> layout n cf cu' d))" by auto
  have "u16 (mc_nr_twins_found s2) =
      u16 (mc_nr_twins_found s + length (filter (\<lambda>m. \<exists>w\<in>set (type__members (ty_tags d)). cm_name w = cm_name m) (m # ms)))"
    unfolding s2(3) s1(3) by (simp add: mod_add_left_eq)
  with s1 s2 show ?case by auto
qed auto

text \<open>C33: Codiff calls the members of a structure changed exactly when the two versions of the structure do not have
  the same members, whatever their order: the same names, sizes, offsets, bit offsets and bit sizes, and types
  of the same names.  (For structures of fewer than 65536 data members with names of their own.)\<close>

theorem members_changed_iff_layout_differs:
  assumes "plain_struct n cf cu c" and "plain_struct n cf cu' d"
  shows "\<exists>s. check_print_members_changes cc n cf c cu d cu' False terse = Inr s \<and>
    (mc_changes s \<longleftrightarrow> layout n cf cu c \<noteq> layout n cf cu' d)"
proof -
  let ?ms = "type__members (ty_tags c)" and ?ds = "type__members (ty_tags d)"
  let ?s0 = "\<lparr>mc_new = d, mc_nr_anonymous = 0, mc_nr_twins_found = 0, mc_changes = False, mc_terse = terse, mc_out = []\<rparr>"
  let ?f = "filter (\<lambda>m. \<exists>w\<in>set ?ds. cm_name w = cm_name m) ?ms"
  have "same_members (mc_new ?s0) d" by (simp add: same_members_def)
  from check_members_plain [OF assms subset_refl this, of cc] obtain s where
    s: "fold_e (check_member cc n cf cu cu' False) ?ms ?s0 = Inr s" "same_members (mc_new s) d"
      "u16 (mc_nr_twins_found s) = u16 (length ?f)" "mc_nr_twins_found s < 65536"
      "mc_changes s = (\<exists>m\<in>set ?ms. member_look n cf cu m \<notin> layout n cf cu' d)"
    by (elim exE conjE) simp
  have len: "length ?f \<le> length ?ms" "length ?ms < 65536" using assms(1) by (auto simp: plain_struct_def)
  have "length ?f < 65536" using le_less_trans [OF len] .
  then have twins: "mc_nr_twins_found s = length ?f" using s(3,4) by simp
  have total: "ty_nr_members (mc_new s) + ty_nr_static_members (mc_new s) = length ?ds"
    using s(2) assms(2) by (simp add: same_members_def plain_struct_def)
  have r: "check_print_members_changes cc n cf c cu d cu' False terse =
      Inr (if length ?f = length ?ds then s else s\<lparr>mc_changes := True\<rparr>)"
    unfolding check_print_members_changes_def s(1) sum.case twins total by simp
  have inj: "inj_on (member_look n cf cu) (set ?ms)" "inj_on (member_look n cf cu') (set ?ds)"
    using assms unfolding plain_struct_def distinct_map inj_on_def member_look_def by blast+
  have dist: "distinct ?ms" "distinct ?ds" using assms by (auto simp: plain_struct_def distinct_map)
  have card: "card (layout n cf cu c) = length ?ms" "card (layout n cf cu' d) = length ?ds"
    using inj dist by (simp_all add: layout_def card_image distinct_card)
  have fin: "finite (layout n cf cu' d)" by (simp add: layout_def)
  have "(\<exists>m\<in>set ?ms. member_look n cf cu m \<notin> layout n cf cu' d) \<or> length ?f \<noteq> length ?ds \<longleftrightarrow> layout n cf cu c \<noteq> layout n cf cu' d"
  proof (cases "\<exists>m\<in>set ?ms. member_look n cf cu m \<notin> layout n cf cu' d")
    case True
    then show ?thesis by (auto simp: layout_def)
  next
    case False
    then have sub: "layout n cf cu c \<subseteq> layout n cf cu' d" by (auto simp: layout_def)
    have "\<exists>w\<in>set ?ds. cm_name w = cm_name m" if "m \<in> set ?ms" for m
    proof -
      from sub that have "member_look n cf cu m \<in> member_look n cf cu' ` set ?ds" by (auto simp: layout_def)
      then obtain w where "w \<in> set ?ds" "member_look n cf cu m = member_look n cf cu' w" by (rule imageE) simp
      then show ?thesis by (auto simp: member_look_def)
    qed
    then have "?f = ?ms" by (simp add: filter_id_conv)
    then have "length ?f \<noteq> length ?ds \<longleftrightarrow> card (layout n cf cu c) \<noteq> card (layout n cf cu' d)" using card by simp
    moreover have "card (layout n cf cu c) \<noteq> card (layout n cf cu' d) \<longleftrightarrow> layout n cf cu c \<noteq> layout n cf cu' d"
      using card_subset_eq [OF fin sub] by auto
    ultimately show ?thesis using False by blast
  qed
  with r s(5) show ?thesis by auto
qed

section \<open>At concrete inputs\<close>

text \<open>A unit with the function \<open>main\<close> of 16 bytes, which is gone in the new file.\<close>

definition main_unit :: cu where
  "main_unit = cu_zero\<lparr>cu_functions_table := pt_of [Some sample_fn]\<rparr>"

definition plain_codiff :: codiff_conf where
  "plain_codiff = \<lparr>cc_show_struct_diffs = True, cc_show_function_diffs = True, cc_verbose = False, cc_quiet = False,
     cc_show_terse_type_changes = False, cc_format_path = None\<rparr>"

lemma main_unit_compared:
  "\<exists>u. codiff_compare \<lparr>avail = \<lambda>n. True, fresh = \<lambda>i. 0\<rparr> 32 plain_codiff 1 (conf_fprintf__defaults 64)
      (map unit_diff_of [main_unit]) (map unit_diff_of []) = Inr ([u], []) \<and>
    ud_nr_functions_changed u = 1 \<and> ud_function_bytes_removed u = 16"
proof -
  have s: "struct_ids main_unit = []"
    by (simp add: struct_ids_def cu__for_each_type_def pt_each_def main_unit_def cu_zero_def ptr_table__init_def List.map_filter_simps)
  have f: "function_ids main_unit = [0]"
    by (simp add: function_ids_def cu__for_each_function_def pt_each_def main_unit_def pt_of_def List.map_filter_simps upt_rec)
  have i: "pt_inv (pt_of [Some sample_fn])" by (rule pt_inv_of) simp
  have e: "ptr_table__entry (cu_functions_table main_unit) 0 = Inr (Some sample_fn)"
    by (simp add: main_unit_def ptr_table__entry_ok [OF i] pt_lookup_of)
  have "\<exists>fn. tag__function sample_fn = Inr fn \<and> fn_inlined fn = 0 \<and> \<not> fn_abstract_origin fn \<and> fn_name fn = Some ''main'' \<and>
      function__size fn = 16" by (simp add: tag__function_def sample_fn_def function__size_def)
  then obtain fn where fn: "tag__function sample_fn = Inr fn" "fn_inlined fn = 0" "\<not> fn_abstract_origin fn"
      "fn_name fn = Some ''main''" "function__size fn = 16" by blast
  have g: "get_function main_unit 0 = Inr (sample_fn, fn)"
    by (simp add: get_function_def cu__function_def e fn(1))
  have n: "cu_name main_unit = None" by (simp add: main_unit_def cu_zero_def)
  let ?h = "\<lparr>avail = \<lambda>n. True, fresh = \<lambda>i. 0\<rparr>" and ?u = "unit_diff_of main_unit"
  have u0: "ud_cu ?u = main_unit" "ud_nr_functions_changed ?u = 0" "ud_function_bytes_removed ?u = 0"
    by (simp_all add: unit_diff_of_def)
  have "\<exists>u. diff_function ?h 32 1 (conf_fprintf__defaults 64) None 0 ?u = Inr u \<and> ud_nr_functions_changed u = 1 \<and>
      ud_function_bytes_removed u = 16"
    by (simp add: diff_function_def g fn u0 cu__find_function_by_name_def cu__check_max_len_changed_item_def diff_info__new_def
        count_function_def Let_def)
  then obtain u where u: "diff_function ?h 32 1 (conf_fprintf__defaults 64) None 0 ?u = Inr u" "ud_nr_functions_changed u = 1"
      "ud_function_bytes_removed u = 16" by blast
  have "codiff_compare ?h 32 plain_codiff 1 (conf_fprintf__defaults 64) [?u] [] = Inr ([u], [])"
    by (simp add: codiff_compare_def cu_diff_iterator_def find_pair_def u0 s f n Let_def u(1) [unfolded One_nat_def])
  with u show ?thesis by simp
qed


text \<open>\<open>struct { int x; }\<close> with \<open>x\<close> at offset 0, and at offset 4.\<close>

definition int_unit :: cu where
  "int_unit = sample_cu [None, Some (sample_base ''int'' 32)]"

definition struct_at :: "nat \<Rightarrow> class_t" where
  "struct_at ofs = class_zero\<lparr>ty_size := 8, ty_nr_members := 1, ty_tags := [Member (sample_member ''x'' ofs 4 1)]\<rparr>"

lemma int_unit_inv: "cu_inv int_unit"
  unfolding int_unit_def by (rule sample_cu_inv) simp

lemma int_name: "tag_name_fuel 1 (conf_fprintf__defaults 64) cu (Some (sample_base ''int'' 32)) 128 = Inr ''int''"
  by (simp add: tag_name_body_def sample_base_def tag__base_type_def base_type__name_def strncpy_bf_def cut_def Let_def)

lemma int_type: "cu_types int_unit 1 = Some (sample_base ''int'' 32)"
  by (simp add: int_unit_def)

lemma plain_struct_at: "plain_struct 1 (conf_fprintf__defaults 64) int_unit (struct_at ofs)"
  using int_unit_inv int_name int_type
  by (simp add: plain_struct_def struct_at_def class_zero_def type__members_def sample_member_def)

theorem members_changed_iff_layout_differs_witness:
  "\<exists>s. check_print_members_changes plain_codiff 1 (conf_fprintf__defaults 64) (struct_at 0) int_unit (struct_at 4) int_unit False 0 =
      Inr s \<and> mc_changes s"
proof -
  have "layout 1 (conf_fprintf__defaults 64) int_unit (struct_at 0) \<noteq> layout 1 (conf_fprintf__defaults 64) int_unit (struct_at 4)"
    by (simp add: layout_def struct_at_def class_zero_def type__members_def member_look_def sample_member_def)
  with members_changed_iff_layout_differs [OF plain_struct_at [of 0] plain_struct_at [of 4], of plain_codiff 0] show ?thesis by blast
qed

text \<open>
  Unnamed members are counted together, but looked for among those of their own kind: a class with an unnamed
  base and an unnamed member has changed when it is compared with itself.
\<close>

definition derived_class :: class_t where
  "derived_class = class_zero\<lparr>ty_size := 8, ty_nr_members := 2, ty_tags :=
     [Member (sample_member [] 0 4 1\<lparr>cm_tag := DW_TAG_inheritance, cm_name := None\<rparr>),
      Member (sample_member [] 4 4 1\<lparr>cm_name := None\<rparr>)]\<rparr>"

lemma second_unnamed_not_found:
  "ty_tags t = [Member a, Member b] \<Longrightarrow> cm_tag a = DW_TAG_inheritance \<Longrightarrow> cm_tag b = DW_TAG_member \<Longrightarrow> cm_name a = None \<Longrightarrow>
    cm_name b = None \<Longrightarrow> class__find_pair_member t a 0 = (Some 0, 1) \<and> class__find_pair_member t b 1 = (None, 2)"
  by (simp add: class__find_pair_member_def member_entries_def nth_entry_def upt_rec)

lemma unnamed_differs_from_itself:
  "\<exists>s. check_print_members_changes plain_codiff 1 (conf_fprintf__defaults 64) derived_class int_unit derived_class int_unit False 0 =
      Inr s \<and> mc_changes s"
proof -
  let ?a = "sample_member [] 0 4 1\<lparr>cm_tag := DW_TAG_inheritance, cm_name := None\<rparr>" and ?b = "sample_member [] 4 4 1\<lparr>cm_name := None\<rparr>"
  have tags: "ty_tags derived_class = [Member ?a, Member ?b]" by (simp add: derived_class_def)
  have ms: "type__members (ty_tags derived_class) = [?a, ?b]" by (simp add: tags type__members_def sample_member_def)
  have type: "cm_type ?a = 1" "cm_type (?a\<lparr>cm_visited := True\<rparr>) = 1" by (simp_all add: sample_member_def)
  have ct: "cu__type (Some int_unit) 1 = Inr (Some (sample_base ''int'' 32))" using int_unit_inv int_type by simp
  have "\<exists>d w o'. check_print_change plain_codiff 1 (conf_fprintf__defaults 64) ?a int_unit (?a\<lparr>cm_visited := True\<rparr>) int_unit False 0 =
      Inr (d, w, o')"
    unfolding check_print_change_def type ct sum.case int_name Let_def by auto
  then obtain d w o' where ch: "check_print_change plain_codiff 1 (conf_fprintf__defaults 64) ?a int_unit (?a\<lparr>cm_visited := True\<rparr>) int_unit
      False 0 = Inr (d, w, o')" by blast
  let ?s = "\<lparr>mc_new = derived_class, mc_nr_anonymous = 0, mc_nr_twins_found = 0, mc_changes = False, mc_terse = 0, mc_out = ''''\<rparr>"
  have pa: "class__find_pair_member derived_class ?a 0 = (Some 0, 1)"
    using second_unnamed_not_found [OF tags] by (simp add: sample_member_def)
  let ?d = "derived_class\<lparr>ty_tags := [Member (?a\<lparr>cm_visited := True\<rparr>), Member ?b]\<rparr>"
  have pb: "class__find_pair_member ?d ?b 1 = (None, 2)"
    using second_unnamed_not_found [of ?d "?a\<lparr>cm_visited := True\<rparr>" ?b] by (simp add: sample_member_def)
  let ?t = "?s\<lparr>mc_new := ?d, mc_nr_anonymous := 1, mc_nr_twins_found := u16 1, mc_changes := d, mc_terse := w, mc_out := o'\<rparr>"
  have a: "check_member plain_codiff 1 (conf_fprintf__defaults 64) int_unit int_unit False ?a ?s = Inr ?t"
    unfolding check_member_def using pa ch by (simp add: tags)
  have b: "\<exists>s. check_member plain_codiff 1 (conf_fprintf__defaults 64) int_unit int_unit False ?b ?t = Inr s \<and> mc_changes s"
    unfolding check_member_def using pb by simp
  then obtain s where b: "check_member plain_codiff 1 (conf_fprintf__defaults 64) int_unit int_unit False ?b ?t = Inr s" "mc_changes s" by blast
  show ?thesis
    unfolding check_print_members_changes_def ms fold_e.simps a b(1) sum.case using b(2) by simp
qed

end
