(* ===== verification/DwarfQueue.thy ===== *)
theory DwarfQueue
  imports Stealer
begin

text \<open>
  The threads of the DWARF loader (\<open>dwarf_loader.c\<close>): workers decode units and hand them to the \<open>steal\<close> callback
  through one queue of jobs.  A worker is the place it is at in \<open>dwarf_loader__worker_thread\<close>; the steps of
  the workers interleave.  What is done with the mutex of the queue held is one step, except that a worker that
  found no job holds the mutex until it waits, while the flag \<open>abort\<close> is set, and the condition signalled, without it.
\<close>

section \<open>The queue\<close>

text \<open>A unit by its \<open>id\<close>.  (The queue never holds a job of type \<open>JOB_NONE\<close>.)\<close>

datatype cu_job = JOB_DECODE | JOB_STEAL nat

record cus_queue =
  cq_next_cu_id :: nat
  cq_jobs :: "cu_job list"
  cq_abort :: bool

definition cus_queue__init :: cus_queue where
  "cus_queue__init = \<lparr>cq_next_cu_id = 0, cq_jobs = [], cq_abort = False\<rparr>"

text \<open>The job taken out, and the jobs left.\<close>

fun cus_queue__try_dequeue :: "nat \<Rightarrow> cu_job list \<Rightarrow> (cu_job \<times> cu_job list) option" where
  "cus_queue__try_dequeue next_id [] = None"
| "cus_queue__try_dequeue next_id (JOB_DECODE # js) = Some (JOB_DECODE, js)"
| "cus_queue__try_dequeue next_id (JOB_STEAL c # js) =
     (if c = next_id then Some (JOB_STEAL c, js)
      else map_option (\<lambda>(j, js'). (j, JOB_STEAL c # js')) (cus_queue__try_dequeue next_id js))"

fun enqueue_job :: "cu_job option \<Rightarrow> cu_job list \<Rightarrow> cu_job list" where
  "enqueue_job None js = js"
| "enqueue_job (Some JOB_DECODE) js = js @ [JOB_DECODE]"
| "enqueue_job (Some (JOB_STEAL c)) js = JOB_STEAL c # js"

section \<open>Workers\<close>

text \<open>
  \<open>Enqdeq job\<close>: about to call \<open>cus_queue__enqdeq_job\<close>; \<open>Checked\<close>: found neither a job nor \<open>abort\<close>, with the mutex;
  \<open>Waiting\<close>: in \<open>pthread_cond_wait\<close>; \<open>Woken\<close>: about to take the mutex again; \<open>Run job\<close>: got a job; \<open>Decoding c\<close>: unit \<open>c\<close>
  was created; \<open>Stole\<close>: about to increase \<open>next_cu_id\<close>; \<open>Stopping\<close>: after the loop; \<open>Out_early\<close>, \<open>Signalling\<close>: at the two
  statements of \<open>out_early\<close>; \<open>Returned ok\<close>: with \<open>DWARF_CB_OK\<close> or \<open>DWARF_CB_ABORT\<close>; \<open>Crashed\<close>: at a NULL pointer.
\<close>

datatype worker =
    Enqdeq "cu_job option" | Checked | Waiting | Woken | Run cu_job | Decoding nat | Stole | Stopping
  | Out_early | Signalling | Returned bool | Crashed

text \<open>\<open>dr_stolen\<close> are the units given to the callback so far, in that order; \<open>dr_created\<close> is \<open>nr_cus_created\<close>.\<close>

record dwarf_cus =
  dr_queue :: cus_queue
  dr_created :: nat
  dr_error :: int
  dr_lsk_status :: load_steal_kind
  dr_workers :: "worker list"
  dr_stolen :: "nat list"

text \<open>
  The file: what \<open>dwarf_nextcu\<close>, \<open>dwarf_offdie\<close> and \<open>dwarf_cus__create_cu\<close> make of the header behind the first \<open>k\<close> units; what
  \<open>die__process_and_recode\<close> and the callback return for a unit.
\<close>

datatype next_unit = A_unit | No_die | No_memory | Next_error | No_more_units

record dwarf_file =
  df_next :: "nat \<Rightarrow> next_unit"
  df_decode :: "nat \<Rightarrow> int"
  df_steal :: "nat \<Rightarrow> load_steal_kind"

text \<open>The result, and whether a unit was created.\<close>

definition dwarf_cus__nextcu :: "dwarf_file \<Rightarrow> dwarf_cus \<Rightarrow> int \<times> bool \<times> dwarf_cus" where
  "dwarf_cus__nextcu f d =
     (if dr_error d \<noteq> 0 then (dr_error d, False, d)
      else case df_next f (dr_created d) of
             Next_error \<Rightarrow> (- 1, False, d)
           | No_more_units \<Rightarrow> (1, False, d)
           | No_die \<Rightarrow> (0, False, d)
           | No_memory \<Rightarrow> (- 1, False, d\<lparr>dr_error := ENOMEM\<rparr>)
           | A_unit \<Rightarrow> (0, True, d\<lparr>dr_created := u32 (dr_created d + 1)\<rparr>))"

definition set_worker :: "nat \<Rightarrow> worker \<Rightarrow> dwarf_cus \<Rightarrow> dwarf_cus" where
  "set_worker i w d = d\<lparr>dr_workers := (dr_workers d)[i := w]\<rparr>"

text \<open>\<open>dwarf_loader__decode_next_cu\<close> up to the decoding, which needs no lock, and from there.\<close>

definition next_cu :: "dwarf_file \<Rightarrow> nat \<Rightarrow> dwarf_cus \<Rightarrow> dwarf_cus" where
  "next_cu f i d =
     (let (err, created, d') = dwarf_cus__nextcu f d
      in if err < 0 then set_worker i Stopping (d'\<lparr>dr_error := err\<rparr>)
         else if err = 1 then set_worker i Stopping d'
         else if created then set_worker i (Decoding (dr_created d)) d'
         else set_worker i Crashed d')"

definition decode_cu :: "dwarf_file \<Rightarrow> nat \<Rightarrow> nat \<Rightarrow> dwarf_cus \<Rightarrow> dwarf_cus" where
  "decode_cu f i c d =
     (if df_decode f c \<noteq> 0 then set_worker i Stopping (d\<lparr>dr_error := df_decode f c\<rparr>)
      else set_worker i (Enqdeq (Some (JOB_STEAL c))) d)"

definition steal_cu :: "dwarf_file \<Rightarrow> nat \<Rightarrow> nat \<Rightarrow> dwarf_cus \<Rightarrow> dwarf_cus" where
  "steal_cu f i c d =
     (let d' = d\<lparr>dr_stolen := dr_stolen d @ [c]\<rparr>
      in if df_steal f c = LSK__ABORT \<or> df_steal f c = LSK__STOP_LOADING
         then set_worker i Out_early (d'\<lparr>dr_lsk_status := df_steal f c\<rparr>)
         else set_worker i Stole d')"

definition cus_queue__inc_next_cu_id :: "cus_queue \<Rightarrow> cus_queue" where
  "cus_queue__inc_next_cu_id q = q\<lparr>cq_next_cu_id := u32 (cq_next_cu_id q + 1)\<rparr>"

text \<open>\<open>pthread_cond_signal\<close> wakes one of the threads that wait: the lists of workers it can lead to.\<close>

definition cond_signal :: "worker list \<Rightarrow> worker list list" where
  "cond_signal ws =
     (case filter (\<lambda>j. ws ! j = Waiting) [0..<length ws] of
        [] \<Rightarrow> [ws]
      | js \<Rightarrow> map (\<lambda>j. ws[j := Woken]) js)"

text \<open>Once around the loop of \<open>cus_queue__enqdeq_job\<close>, up to the wait.\<close>

definition dequeue_or_wait :: "nat \<Rightarrow> dwarf_cus \<Rightarrow> dwarf_cus" where
  "dequeue_or_wait i d =
     (let q = dr_queue d
      in case cus_queue__try_dequeue (cq_next_cu_id q) (cq_jobs q) of
           Some (j, js) \<Rightarrow> set_worker i (Run j) (d\<lparr>dr_queue := q\<lparr>cq_jobs := js\<rparr>\<rparr>)
         | None \<Rightarrow> set_worker i (if cq_abort q then Out_early else Checked) d)"

definition cus_queue__enqdeq_job :: "nat \<Rightarrow> cu_job option \<Rightarrow> worker list \<Rightarrow> dwarf_cus \<Rightarrow> dwarf_cus" where
  "cus_queue__enqdeq_job i job ws d =
     dequeue_or_wait i
       (d\<lparr>dr_queue := (dr_queue d)\<lparr>cq_jobs := enqueue_job job (cq_jobs (dr_queue d))\<rparr>,
          dr_workers := (if job = None then dr_workers d else ws)\<rparr>)"

section \<open>Steps\<close>

definition mutex_free :: "dwarf_cus \<Rightarrow> bool" where
  "mutex_free d \<longleftrightarrow> Checked \<notin> set (dr_workers d)"

definition at_worker :: "dwarf_cus \<Rightarrow> nat \<Rightarrow> worker \<Rightarrow> bool" where
  "at_worker d i w \<longleftrightarrow> i < length (dr_workers d) \<and> dr_workers d ! i = w"

inductive worker_step :: "dwarf_file \<Rightarrow> dwarf_cus \<Rightarrow> dwarf_cus \<Rightarrow> bool" for f where
  enqdeq: "at_worker d i (Enqdeq job) \<Longrightarrow> mutex_free d \<Longrightarrow> ws \<in> set (cond_signal (dr_workers d)) \<Longrightarrow>
     worker_step f d (cus_queue__enqdeq_job i job ws d)"
| waits: "at_worker d i Checked \<Longrightarrow> worker_step f d (set_worker i Waiting d)"
| wakes: "at_worker d i Woken \<Longrightarrow> mutex_free d \<Longrightarrow> worker_step f d (dequeue_or_wait i d)"
| next_cu: "at_worker d i (Run JOB_DECODE) \<Longrightarrow> worker_step f d (next_cu f i d)"
| decodes: "at_worker d i (Decoding c) \<Longrightarrow> worker_step f d (decode_cu f i c d)"
| steals: "at_worker d i (Run (JOB_STEAL c)) \<Longrightarrow> worker_step f d (steal_cu f i c d)"
| inc_next: "at_worker d i Stole \<Longrightarrow> mutex_free d \<Longrightarrow>
     worker_step f d (set_worker i (Enqdeq (Some JOB_DECODE)) (d\<lparr>dr_queue := cus_queue__inc_next_cu_id (dr_queue d)\<rparr>))"
| stops: "at_worker d i Stopping \<Longrightarrow>
     worker_step f d (set_worker i (if dr_error d \<noteq> 0 then Out_early else Returned True) d)"
| aborts: "at_worker d i Out_early \<Longrightarrow>
     worker_step f d (set_worker i Signalling (d\<lparr>dr_queue := (dr_queue d)\<lparr>cq_abort := True\<rparr>\<rparr>))"
| signals: "at_worker d i Signalling \<Longrightarrow> ws \<in> set (cond_signal (dr_workers d)) \<Longrightarrow>
     worker_step f d (d\<lparr>dr_workers := ws[i := Returned False]\<rparr>)"

text \<open>A thread may also wake up without a signal.\<close>

inductive loader_step :: "dwarf_file \<Rightarrow> dwarf_cus \<Rightarrow> dwarf_cus \<Rightarrow> bool" for f where
  worker: "worker_step f d d' \<Longrightarrow> loader_step f d d'"
| spurious: "at_worker d i Waiting \<Longrightarrow> loader_step f d (set_worker i Woken d)"

section \<open>The start\<close>

definition nr_workers :: "nat \<Rightarrow> nat" where
  "nr_workers nr_jobs = (if nr_jobs > 0 then nr_jobs else 1)"

definition dwarf_loader__decoded_cus_limit :: "nat \<Rightarrow> nat" where
  "dwarf_loader__decoded_cus_limit nr_jobs = (if nr_jobs > 0 then nr_jobs * 2 else 2)"

text \<open>\<open>dwarf_cus__process_cus\<close> when the workers have been created and before one of them has run.\<close>

definition dwarf_cus__process_cus :: "nat \<Rightarrow> dwarf_cus" where
  "dwarf_cus__process_cus nr_jobs =
     \<lparr>dr_queue = cus_queue__init\<lparr>cq_jobs := replicate (dwarf_loader__decoded_cus_limit nr_jobs) JOB_DECODE\<rparr>,
      dr_created = 0, dr_error = 0, dr_lsk_status = LSK__KEEPIT,
      dr_workers = replicate (nr_workers nr_jobs) (Enqdeq None), dr_stolen = []\<rparr>"

inductive reachable :: "dwarf_file \<Rightarrow> nat \<Rightarrow> dwarf_cus \<Rightarrow> bool" for f n where
  start: "reachable f n (dwarf_cus__process_cus n)"
| step: "reachable f n d \<Longrightarrow> loader_step f d d' \<Longrightarrow> reachable f n d'"

inductive_cases worker_step_cases: "worker_step f d d'"
inductive_cases loader_step_cases: "loader_step f d d'"

end
