(* ===== verification/DwarfQueueSpec.thy ===== *)
theory DwarfQueueSpec
  imports DwarfQueue
begin

text \<open>
  What the queue of \<open>dwarf_loader.c\<close> promises: units reach the callback one at a time and in the order of the file,
  only so many are held in memory, and the workers neither get stuck nor leave a unit out.
\<close>

section \<open>Counting workers\<close>

definition cnt :: "(worker \<Rightarrow> nat) \<Rightarrow> worker list \<Rightarrow> nat" where
  "cnt g ws = sum_list (map g ws)"

lemma cnt_update: "i < length ws \<Longrightarrow> cnt g (ws[i := w]) + g (ws ! i) = cnt g ws + g w"
  by (induction ws arbitrary: i) (auto simp: cnt_def less_Suc_eq_0_disj)

lemma cnt_at: "at_worker d i v \<Longrightarrow> cnt g ((dr_workers d)[i := w]) + g v = cnt g (dr_workers d) + g w"
  using cnt_update [of i "dr_workers d" g w] by (simp add: at_worker_def)

lemma cnt_member: "w \<in> set ws \<Longrightarrow> g w \<le> cnt g ws"
  by (simp add: cnt_def member_le_sum_list)

lemma at_in: "at_worker d i v \<Longrightarrow> v \<in> set (dr_workers d)"
  by (auto simp: at_worker_def)

lemma cnt_pos: "cnt g ws > 0 \<Longrightarrow> \<exists>w\<in>set ws. g w > 0"
  by (induction ws) (auto simp: cnt_def)

lemma cnt_le: "(\<And>w. g w \<le> h w) \<Longrightarrow> cnt g ws \<le> cnt h ws"
  by (induction ws) (auto simp: cnt_def intro: add_mono)

lemma cnt_add: "cnt (\<lambda>w. g w + h w) ws = cnt g ws + cnt h ws"
  by (induction ws) (auto simp: cnt_def)

lemma cnt_const: "cnt (\<lambda>w. k) ws = k * length ws"
  by (induction ws) (auto simp: cnt_def)

lemma cond_signal_cases:
  assumes "ws' \<in> set (cond_signal ws)"
  obtains "ws' = ws" "Waiting \<notin> set ws" | j where "j < length ws" "ws ! j = Waiting" "ws' = ws[j := Woken]"
proof (cases "filter (\<lambda>j. ws ! j = Waiting) [0..<length ws]")
  case Nil
  then have "Waiting \<notin> set ws" by (auto simp: filter_empty_conv in_set_conv_nth)
  then show ?thesis using assms Nil that(1) by (simp add: cond_signal_def)
next
  case (Cons a js)
  then have "ws' \<in> (\<lambda>j. ws[j := Woken]) ` set (filter (\<lambda>j. ws ! j = Waiting) [0..<length ws])"
    using assms by (simp add: cond_signal_def)
  then obtain j where "j \<in> set (filter (\<lambda>j. ws ! j = Waiting) [0..<length ws])" "ws' = ws[j := Woken]" by blast
  then show ?thesis using that(2) [of j] by simp
qed

text \<open>What a signal does to a count: it wakes \<open>b\<close> threads, none only when none waits.\<close>

lemma cnt_signal:
  assumes "ws' \<in> set (cond_signal ws)"
  obtains b where "b \<le> 1" "\<And>g. cnt g ws' + b * g Waiting = cnt g ws + b * g Woken" "b = 0 \<longleftrightarrow> Waiting \<notin> set ws"
    "length ws' = length ws" "\<And>i v. i < length ws \<Longrightarrow> ws ! i = v \<Longrightarrow> v \<noteq> Waiting \<Longrightarrow> ws' ! i = v"
    "set ws' \<subseteq> insert Woken (set ws)"
  using assms
proof (cases rule: cond_signal_cases)
  case 1
  then show ?thesis using that [of 0] by auto
next
  case (2 j)
  have c: "cnt g ws' + 1 * g Waiting = cnt g ws + 1 * g Woken" for g
    using cnt_update [OF 2(1), of g Woken] 2 by simp
  have "Waiting \<in> set ws" using 2(1,2) by (metis nth_mem)
  moreover have "i < length ws \<Longrightarrow> ws ! i = v \<Longrightarrow> v \<noteq> Waiting \<Longrightarrow> ws' ! i = v" for i v
    using 2 by (auto simp: nth_list_update)
  ultimately show ?thesis using that [of 1, OF _ c] 2 set_update_subset_insert [of ws j Woken] by simp
qed

text \<open>The classes of workers.\<close>

definition holds :: "worker \<Rightarrow> nat" where
  "holds w = (case w of Enqdeq (Some j) \<Rightarrow> 1 | Run j \<Rightarrow> 1 | Decoding c \<Rightarrow> 1 | Stole \<Rightarrow> 1 | _ \<Rightarrow> 0)"

definition has :: "nat \<Rightarrow> worker \<Rightarrow> nat" where
  "has c w = (if w = Decoding c \<or> w = Enqdeq (Some (JOB_STEAL c)) \<or> w = Run (JOB_STEAL c) then 1 else 0)"

definition has_unit :: "worker \<Rightarrow> nat" where
  "has_unit w = (case w of Decoding c \<Rightarrow> 1 | Enqdeq (Some (JOB_STEAL c)) \<Rightarrow> 1 | Run (JOB_STEAL c) \<Rightarrow> 1 | _ \<Rightarrow> 0)"

definition stole :: "worker \<Rightarrow> nat" where "stole w = (if w = Stole then 1 else 0)"

definition stopped :: "worker \<Rightarrow> nat" where
  "stopped w = (if w = Stopping \<or> w = Returned True then 1 else 0)"

definition asleep :: "worker \<Rightarrow> nat" where "asleep w = (if w = Waiting \<or> w = Checked then 1 else 0)"

definition coming :: "worker \<Rightarrow> nat" where
  "coming w = (case w of Run (JOB_STEAL c) \<Rightarrow> 1 | Stole \<Rightarrow> 1 | Enqdeq (Some JOB_DECODE) \<Rightarrow> 1 | _ \<Rightarrow> 0)"

definition ready :: "worker \<Rightarrow> nat" where
  "ready w = (case w of Enqdeq j \<Rightarrow> 1 | Woken \<Rightarrow> 1 | _ \<Rightarrow> 0)"

definition failed :: "worker \<Rightarrow> nat" where
  "failed w = (case w of Out_early \<Rightarrow> 1 | Signalling \<Rightarrow> 1 | Returned ok \<Rightarrow> if ok then 0 else 1 | Crashed \<Rightarrow> 1 | _ \<Rightarrow> 0)"

lemmas classes = holds_def has_def has_unit_def stole_def stopped_def asleep_def coming_def ready_def failed_def

section \<open>The queue\<close>

text \<open>Units before tickets.\<close>

definition steals_first :: "cu_job list \<Rightarrow> bool" where
  "steals_first js \<longleftrightarrow> (\<exists>cs k. js = map JOB_STEAL cs @ replicate k JOB_DECODE)"

lemma steals_first_init: "steals_first (replicate k JOB_DECODE)"
  unfolding steals_first_def by (rule exI [of _ "[]"]) simp

lemma steals_first_enqueue: "steals_first js \<Longrightarrow> steals_first (enqueue_job j js)"
proof -
  assume "steals_first js"
  then obtain cs k where js: "js = map JOB_STEAL cs @ replicate k JOB_DECODE" by (auto simp: steals_first_def)
  show ?thesis
  proof (cases "(j, js)" rule: enqueue_job.cases)
    case (3 c js)
    then show ?thesis using js by (auto simp: steals_first_def intro: exI [of _ "c # cs"])
  next
    case (2 js)
    then show ?thesis using js by (auto simp: steals_first_def replicate_append_same intro!: exI [of _ cs] exI [of _ "Suc k"])
  qed (use js in \<open>auto simp: steals_first_def\<close>)
qed

lemma mset_enqueue: "mset (enqueue_job j js) = mset js + (case j of None \<Rightarrow> {#} | Some x \<Rightarrow> {#x#})"
  by (cases "(j, js)" rule: enqueue_job.cases) auto

lemma try_dequeue_mset: "cus_queue__try_dequeue k js = Some (j, js') \<Longrightarrow> mset js = add_mset j (mset js')"
  by (induction k js arbitrary: j js' rule: cus_queue__try_dequeue.induct) (auto split: if_splits)

lemma try_dequeue_job: "cus_queue__try_dequeue k js = Some (j, js') \<Longrightarrow> j = JOB_DECODE \<or> j = JOB_STEAL k"
  by (induction k js arbitrary: j js' rule: cus_queue__try_dequeue.induct) (auto split: if_splits)

lemma try_dequeue_none: "cus_queue__try_dequeue k js = None \<longleftrightarrow> JOB_DECODE \<notin> set js \<and> JOB_STEAL k \<notin> set js"
  by (induction k js rule: cus_queue__try_dequeue.induct) auto

lemma try_dequeue_steals:
  "cus_queue__try_dequeue k (map JOB_STEAL cs @ replicate m JOB_DECODE) =
     (if k \<in> set cs then Some (JOB_STEAL k, map JOB_STEAL (remove1 k cs) @ replicate m JOB_DECODE)
      else if m > 0 then Some (JOB_DECODE, map JOB_STEAL cs @ replicate (m - 1) JOB_DECODE) else None)"
proof (induction cs)
  case Nil
  then show ?case by (cases m) auto
qed auto

lemma try_dequeue_first:
  "steals_first js \<Longrightarrow> cus_queue__try_dequeue k js = Some (j, js') \<Longrightarrow>
    steals_first js' \<and> (JOB_STEAL k \<in> set js \<longrightarrow> j = JOB_STEAL k)"
  unfolding steals_first_def by (auto simp: try_dequeue_steals split: if_splits) blast+

section \<open>What holds whatever the file and the callback do\<close>

text \<open>How often unit \<open>c\<close> is in the queue, with a worker, or behind.\<close>

definition occ :: "nat \<Rightarrow> dwarf_cus \<Rightarrow> nat" where
  "occ c d = count (mset (cq_jobs (dr_queue d))) (JOB_STEAL c) + cnt (has c) (dr_workers d) + count_list (dr_stolen d) c"

definition sound :: "nat \<Rightarrow> nat \<Rightarrow> dwarf_cus \<Rightarrow> bool" where
  "sound lim m d \<longleftrightarrow>
     dr_created d \<le> m \<and> (\<forall>c. occ c d \<le> 1 \<and> (occ c d \<noteq> 0 \<longrightarrow> c < dr_created d)) \<and>
     dr_stolen d = [0..<length (dr_stolen d)] \<and>
     (\<forall>c. Run (JOB_STEAL c) \<in> set (dr_workers d) \<longrightarrow> c = cq_next_cu_id (dr_queue d)) \<and>
     cq_next_cu_id (dr_queue d) + cnt stole (dr_workers d) \<le> length (dr_stolen d) \<and>
     length (dr_stolen d) \<le> cq_next_cu_id (dr_queue d) + 1 \<and>
     length (cq_jobs (dr_queue d)) + cnt holds (dr_workers d) \<le> lim"

text \<open>A worker moves on without taking anything.\<close>

lemma sound_move:
  assumes "sound lim m d" "at_worker d i v" "dr_workers d' = (dr_workers d)[i := w]" "dr_queue d' = dr_queue d"
    "dr_created d' = dr_created d" "dr_stolen d' = dr_stolen d"
    "\<And>c. has c w \<le> has c v" "holds w \<le> holds v" "stole w \<le> stole v" "\<And>c. w \<noteq> Run (JOB_STEAL c)"
  shows "sound lim m d'"
proof -
  have ups: "cnt g (dr_workers d') + g v = cnt g (dr_workers d) + g w" for g
    using cnt_at [OF assms(2), of g w] assms(3) by simp
  have "occ c d' \<le> occ c d" for c using ups [of "has c"] assms(7) [of c] assms(4,6) by (simp add: occ_def)
  then have "occ c d' \<le> 1 \<and> (occ c d' \<noteq> 0 \<longrightarrow> c < dr_created d')" for c
    using assms(1,5) unfolding sound_def by (metis le_trans le_zero_eq)
  moreover have "Run (JOB_STEAL c) \<in> set (dr_workers d') \<Longrightarrow> Run (JOB_STEAL c) \<in> set (dr_workers d)" for c
    using assms(3,10) set_update_subset_insert [of "dr_workers d" i w] by auto
  moreover note ups [of holds] ups [of stole]
  ultimately show ?thesis using assms(1,4-6,8,9) unfolding sound_def by fastforce
qed

definition enqueued :: "nat \<Rightarrow> cu_job option \<Rightarrow> worker list \<Rightarrow> dwarf_cus \<Rightarrow> dwarf_cus" where
  "enqueued i job ws d =
     set_worker i (Enqdeq None)
       (d\<lparr>dr_queue := (dr_queue d)\<lparr>cq_jobs := enqueue_job job (cq_jobs (dr_queue d))\<rparr>,
          dr_workers := (if job = None then dr_workers d else ws)\<rparr>)"

lemma enqdeq_split: "cus_queue__enqdeq_job i job ws d = dequeue_or_wait i (enqueued i job ws d)"
  unfolding cus_queue__enqdeq_job_def enqueued_def dequeue_or_wait_def set_worker_def Let_def
  by (simp split: option.split)

lemma enqueued_effect:
  assumes "at_worker d i (Enqdeq job)" "ws \<in> set (cond_signal (dr_workers d))"
  obtains b d' where "d' = enqueued i job ws d" "b \<le> 1" "job = None \<Longrightarrow> b = 0" "job \<noteq> None \<Longrightarrow> b = 0 \<longleftrightarrow> Waiting \<notin> set (dr_workers d)"
    "\<And>g. cnt g (dr_workers d') + g (Enqdeq job) + b * g Waiting = cnt g (dr_workers d) + g (Enqdeq None) + b * g Woken"
    "set (dr_workers d') \<subseteq> {Enqdeq None, Woken} \<union> set (dr_workers d)" "length (dr_workers d') = length (dr_workers d)"
    "at_worker d' i (Enqdeq None)" "cq_jobs (dr_queue d') = enqueue_job job (cq_jobs (dr_queue d))"
    "cq_next_cu_id (dr_queue d') = cq_next_cu_id (dr_queue d)" "cq_abort (dr_queue d') = cq_abort (dr_queue d)"
    "dr_created d' = dr_created d" "dr_stolen d' = dr_stolen d" "dr_error d' = dr_error d"
proof -
  define d' where d': "d' = enqueued i job ws d"
  define ws' where ws': "ws' = (if job = None then dr_workers d else ws)"
  have w: "dr_workers d' = ws'[i := Enqdeq None]" by (simp add: d' ws' enqueued_def set_worker_def)
  obtain b where b: "b \<le> 1" "\<And>g. cnt g ws' + b * g Waiting = cnt g (dr_workers d) + b * g Woken"
    "job = None \<Longrightarrow> b = 0" "job \<noteq> None \<Longrightarrow> b = 0 \<longleftrightarrow> Waiting \<notin> set (dr_workers d)"
    "length ws' = length (dr_workers d)" "ws' ! i = Enqdeq job" "set ws' \<subseteq> insert Woken (set (dr_workers d))"
  proof (cases "job = None")
    case True
    then show ?thesis using that [of 0] assms(1) by (auto simp: ws' at_worker_def)
  next
    case False
    then have eq: "ws' = ws" by (auto simp: ws')
    show ?thesis
      by (rule cnt_signal [OF assms(2)]) (rule that, use eq False assms(1) in \<open>auto simp: at_worker_def\<close>)
  qed
  have i: "i < length ws'" using b(5) assms(1) by (simp add: at_worker_def)
  have c: "cnt g (dr_workers d') + g (Enqdeq job) + b * g Waiting = cnt g (dr_workers d) + g (Enqdeq None) + b * g Woken" for g
    using cnt_update [OF i, of g "Enqdeq None"] b(2) [of g] unfolding w b(6) by simp
  have sets: "set (dr_workers d') \<subseteq> {Enqdeq None, Woken} \<union> set (dr_workers d)"
    using set_update_subset_insert [of ws' i "Enqdeq None"] b(7) unfolding w by blast
  show ?thesis
    by (rule that [OF d' b(1,3,4) c sets])
      (use i b(5) in \<open>simp_all add: w at_worker_def, simp_all add: d' enqueued_def set_worker_def\<close>)
qed

lemma length_enqueue: "length (enqueue_job j js) = length js + (if j = None then 0 else 1)"
  by (cases "(j, js)" rule: enqueue_job.cases) auto

lemma sound_enqueued:
  assumes "sound lim m d" "at_worker d i (Enqdeq job)" "ws \<in> set (cond_signal (dr_workers d))"
  shows "sound lim m (enqueued i job ws d)"
proof -
  obtain b d' where e: "d' = enqueued i job ws d" "b \<le> 1"
    "\<And>g. cnt g (dr_workers d') + g (Enqdeq job) + b * g Waiting = cnt g (dr_workers d) + g (Enqdeq None) + b * g Woken"
    "set (dr_workers d') \<subseteq> {Enqdeq None, Woken} \<union> set (dr_workers d)"
    "cq_jobs (dr_queue d') = enqueue_job job (cq_jobs (dr_queue d))"
    "cq_next_cu_id (dr_queue d') = cq_next_cu_id (dr_queue d)" "dr_created d' = dr_created d" "dr_stolen d' = dr_stolen d"
    by (rule enqueued_effect [OF assms(2,3)]) blast
  have c: "cnt (has c) (dr_workers d') + has c (Enqdeq job) = cnt (has c) (dr_workers d)" for c
    using e(3) [of "has c"] by (simp add: has_def)
  have o: "occ c d' = occ c d" for c
    using c [of c] unfolding occ_def e(5,8) mset_enqueue by (cases job; cases "the job") (auto simp: has_def)
  have s: "cnt stole (dr_workers d') = cnt stole (dr_workers d)" using e(3) [of stole] by (simp add: stole_def)
  have h: "length (cq_jobs (dr_queue d')) + cnt holds (dr_workers d') = length (cq_jobs (dr_queue d)) + cnt holds (dr_workers d)"
    using e(3) [of holds] unfolding e(5) length_enqueue by (cases job) (auto simp: holds_def)
  have r: "Run (JOB_STEAL c) \<in> set (dr_workers d') \<Longrightarrow> Run (JOB_STEAL c) \<in> set (dr_workers d)" for c using e(4) by auto
  show ?thesis using assms(1) r unfolding e(1) [symmetric] sound_def o s h e(6-8) by blast
qed

lemma sound_dequeue:
  assumes "sound lim m d" "at_worker d i v" "v = Enqdeq None \<or> v = Woken"
  shows "sound lim m (dequeue_or_wait i d)"
proof (cases "cus_queue__try_dequeue (cq_next_cu_id (dr_queue d)) (cq_jobs (dr_queue d))")
  case None
  then show ?thesis
    by (intro sound_move [OF assms(1,2)]) (auto simp: dequeue_or_wait_def set_worker_def Let_def classes split: option.split if_splits)
next
  case (Some p)
  obtain j js where p: "p = (j, js)" by fastforce
  let ?d = "dequeue_or_wait i d"
  have d: "?d = set_worker i (Run j) (d\<lparr>dr_queue := (dr_queue d)\<lparr>cq_jobs := js\<rparr>\<rparr>)"
    using Some p by (simp add: dequeue_or_wait_def)
  note ms = try_dequeue_mset [OF Some [unfolded p]] and job = try_dequeue_job [OF Some [unfolded p]]
  have ups: "cnt g (dr_workers ?d) + g v = cnt g (dr_workers d) + g (Run j)" for g
    using cnt_at [OF assms(2), of g "Run j"] by (simp add: d set_worker_def)
  have o: "occ c ?d = occ c d" for c
    using ups [of "has c"] assms(3) unfolding occ_def ms by (auto simp: d set_worker_def has_def)
  have "length (cq_jobs (dr_queue d)) = Suc (length js)" using ms by (metis size_add_mset size_mset)
  then have h: "length (cq_jobs (dr_queue ?d)) + cnt holds (dr_workers ?d) = length (cq_jobs (dr_queue d)) + cnt holds (dr_workers d)"
    using ups [of holds] assms(3) by (auto simp: d set_worker_def holds_def)
  have s: "cnt stole (dr_workers ?d) = cnt stole (dr_workers d)" using ups [of stole] assms(3) by (auto simp: stole_def)
  have r: "Run (JOB_STEAL c) \<in> set (dr_workers ?d) \<Longrightarrow> Run (JOB_STEAL c) \<in> set (dr_workers d) \<or> c = cq_next_cu_id (dr_queue d)" for c
    using set_update_subset_insert [of "dr_workers d" i "Run j"] job by (auto simp: d set_worker_def)
  have f: "cq_next_cu_id (dr_queue ?d) = cq_next_cu_id (dr_queue d)" "dr_created ?d = dr_created d" "dr_stolen ?d = dr_stolen d"
    by (simp_all add: d set_worker_def)
  show ?thesis using assms(1) r unfolding sound_def o s h f by blast
qed

lemma sound_stolen_bound:
  assumes "sound lim m d"
  shows "length (dr_stolen d) \<le> dr_created d"
proof (cases "length (dr_stolen d)")
  case (Suc k)
  have "dr_stolen d = [0..<length (dr_stolen d)]" using assms by (simp add: sound_def)
  with Suc have "k \<in> set (dr_stolen d)" by (metis atLeastLessThan_iff le0 lessI set_upt)
  then have "occ k d \<noteq> 0" by (simp add: occ_def count_list_0_iff)
  then have "k < dr_created d" using assms unfolding sound_def by blast
  then show ?thesis using Suc by simp
qed simp

lemma sound_steal:
  assumes "sound lim m d" "at_worker d i (Run (JOB_STEAL c))"
  shows "sound lim m (steal_cu f i c d) \<and> c = cq_next_cu_id (dr_queue d) \<and> c = length (dr_stolen d)"
proof -
  let ?d = "steal_cu f i c d"
  define w where "w = (if df_steal f c = LSK__ABORT \<or> df_steal f c = LSK__STOP_LOADING then Out_early else Stole)"
  have d: "dr_workers ?d = (dr_workers d)[i := w]" "dr_stolen ?d = dr_stolen d @ [c]" "dr_queue ?d = dr_queue d" "dr_created ?d = dr_created d"
    by (simp_all add: steal_cu_def set_worker_def w_def Let_def)
  have ups: "cnt g (dr_workers ?d) + g (Run (JOB_STEAL c)) = cnt g (dr_workers d) + g w" for g
    using cnt_at [OF assms(2), of g w] by (simp add: d)
  have next_id: "c = cq_next_cu_id (dr_queue d)" using assms at_in [OF assms(2)] by (simp add: sound_def)
  have "has c (Run (JOB_STEAL c)) \<le> cnt (has c) (dr_workers d)" by (rule cnt_member [OF at_in [OF assms(2)]])
  moreover have "occ c d \<le> 1" using assms(1) by (simp add: sound_def)
  ultimately have "count_list (dr_stolen d) c = 0" by (simp add: occ_def has_def)
  then have "c \<notin> {0..<length (dr_stolen d)}" using assms(1) unfolding sound_def by (metis count_list_0_iff set_upt)
  then have len: "c = length (dr_stolen d)" using assms(1) next_id by (simp add: sound_def)
  have st: "dr_stolen ?d = [0..<length (dr_stolen ?d)]"
    using assms(1) len unfolding d sound_def by (metis length_append_singleton upt_Suc_append zero_le)
  have o: "occ x ?d = occ x d" for x
    using ups [of "has x"] unfolding occ_def d by (auto simp: has_def w_def split: if_splits)
  have h: "cnt holds (dr_workers ?d) \<le> cnt holds (dr_workers d)" using ups [of holds] by (auto simp: holds_def w_def split: if_splits)
  have s0: "cnt stole (dr_workers d) = 0" using assms(1) len next_id by (simp add: sound_def)
  have s: "cnt stole (dr_workers ?d) \<le> 1" using ups [of stole] s0 by (auto simp: stole_def w_def split: if_splits)
  have r: "Run (JOB_STEAL x) \<in> set (dr_workers ?d) \<Longrightarrow> Run (JOB_STEAL x) \<in> set (dr_workers d)" for x
    using set_update_subset_insert [of "dr_workers d" i w] by (auto simp: d w_def split: if_splits)
  have "sound lim m ?d"
    unfolding sound_def o using st assms(1) r h s len next_id unfolding sound_def d(2-4) by auto
  then show ?thesis using next_id len by simp
qed

lemma sound_inc:
  assumes "sound lim m d" "at_worker d i Stole" "m < 4294967296"
  shows "sound lim m (set_worker i (Enqdeq (Some JOB_DECODE)) (d\<lparr>dr_queue := cus_queue__inc_next_cu_id (dr_queue d)\<rparr>)) \<and>
    length (dr_stolen d) = cq_next_cu_id (dr_queue d) + 1 \<and> u32 (cq_next_cu_id (dr_queue d) + 1) = cq_next_cu_id (dr_queue d) + 1"
proof -
  let ?n = "cq_next_cu_id (dr_queue d)" and ?w = "Enqdeq (Some JOB_DECODE)"
  let ?d = "set_worker i ?w (d\<lparr>dr_queue := cus_queue__inc_next_cu_id (dr_queue d)\<rparr>)"
  have ups: "cnt g (dr_workers ?d) + g Stole = cnt g (dr_workers d) + g ?w" for g
    using cnt_at [OF assms(2), of g ?w] by (simp add: set_worker_def)
  have "stole Stole \<le> cnt stole (dr_workers d)" by (rule cnt_member [OF at_in [OF assms(2)]])
  then have len: "length (dr_stolen d) = ?n + 1" "cnt stole (dr_workers d) = 1" using assms(1) by (auto simp: sound_def stole_def)
  have "?n < m" using sound_stolen_bound [OF assms(1)] assms(1) len by (simp add: sound_def)
  then have u: "u32 (?n + 1) = ?n + 1" using assms(3) by simp
  have f: "cq_next_cu_id (dr_queue ?d) = ?n + 1" "cq_jobs (dr_queue ?d) = cq_jobs (dr_queue d)" "dr_created ?d = dr_created d"
      "dr_stolen ?d = dr_stolen d"
    using u by (simp_all add: set_worker_def cus_queue__inc_next_cu_id_def)
  have o: "occ x ?d = occ x d" for x using ups [of "has x"] unfolding occ_def f by (auto simp: has_def)
  have r: "Run (JOB_STEAL x) \<notin> set (dr_workers ?d)" for x
  proof
    assume "Run (JOB_STEAL x) \<in> set (dr_workers ?d)"
    then have in_d: "Run (JOB_STEAL x) \<in> set (dr_workers d)"
      using set_update_subset_insert [of "dr_workers d" i ?w] by (auto simp: set_worker_def)
    then have "x = ?n" using assms(1) by (simp add: sound_def)
    moreover have "has x (Run (JOB_STEAL x)) \<le> cnt (has x) (dr_workers d)" by (rule cnt_member [OF in_d])
    moreover have "occ x d \<le> 1" using assms(1) by (simp add: sound_def)
    ultimately have "count_list (dr_stolen d) ?n = 0" by (simp add: occ_def has_def)
    then have "?n \<notin> set (dr_stolen d)" by (simp add: count_list_0_iff)
    moreover have "set (dr_stolen d) = {0..<length (dr_stolen d)}" using assms(1) unfolding sound_def by (metis set_upt)
    ultimately show False using len by simp
  qed
  have "cnt stole (dr_workers ?d) = 0" "cnt holds (dr_workers ?d) = cnt holds (dr_workers d)"
    using ups [of stole] ups [of holds] len(2) by (simp_all add: stole_def holds_def)
  then have "sound lim m ?d" using assms(1) r len(1) unfolding sound_def o f by auto
  then show ?thesis using len(1) u by simp
qed

lemma sound_next_cu:
  assumes "sound lim m d" "at_worker d i (Run JOB_DECODE)" "df_next f m = No_more_units" "m < 4294967296"
  shows "sound lim m (next_cu f i d)"
proof (cases "dr_error d = 0 \<and> df_next f (dr_created d) = A_unit")
  case False
  have "\<exists>w. dr_workers (next_cu f i d) = (dr_workers d)[i := w] \<and> (w = Stopping \<or> w = Crashed)"
      and frame: "dr_queue (next_cu f i d) = dr_queue d" "dr_created (next_cu f i d) = dr_created d" "dr_stolen (next_cu f i d) = dr_stolen d"
    using False unfolding next_cu_def dwarf_cus__nextcu_def Let_def
    by (auto simp: set_worker_def split: next_unit.split)
  then obtain w where "dr_workers (next_cu f i d) = (dr_workers d)[i := w]" "w = Stopping \<or> w = Crashed" by blast
  then show ?thesis by (intro sound_move [OF assms(1,2), of _ w]) (auto simp: frame classes)
next
  case True
  let ?d = "next_cu f i d" and ?c = "dr_created d"
  have "?c \<noteq> m" using True assms(3) by auto
  then have c: "?c < m" using assms(1) by (simp add: sound_def)
  then have u: "u32 (?c + 1) = ?c + 1" using assms(4) by simp
  have d: "?d = set_worker i (Decoding ?c) (d\<lparr>dr_created := ?c + 1\<rparr>)"
    using True u by (simp add: next_cu_def dwarf_cus__nextcu_def)
  have ups: "cnt g (dr_workers ?d) + g (Run JOB_DECODE) = cnt g (dr_workers d) + g (Decoding ?c)" for g
    using cnt_at [OF assms(2), of g "Decoding ?c"] by (simp add: d set_worker_def)
  have f: "dr_queue ?d = dr_queue d" "dr_created ?d = ?c + 1" "dr_stolen ?d = dr_stolen d" by (simp_all add: d set_worker_def)
  have o: "occ x ?d = occ x d + (if x = ?c then 1 else 0)" for x
    using ups [of "has x"] unfolding occ_def f by (auto simp: has_def)
  have "occ ?c d = 0" using assms(1) by (auto simp: sound_def)
  then have o': "occ x ?d \<le> 1 \<and> (occ x ?d \<noteq> 0 \<longrightarrow> x < ?c + 1)" for x
    using assms(1) unfolding o sound_def by (cases "x = ?c") (auto simp: less_Suc_eq)
  have r: "Run (JOB_STEAL x) \<in> set (dr_workers ?d) \<Longrightarrow> Run (JOB_STEAL x) \<in> set (dr_workers d)" for x
    using set_update_subset_insert [of "dr_workers d" i "Decoding ?c"] by (auto simp: d set_worker_def)
  have "cnt stole (dr_workers ?d) = cnt stole (dr_workers d)" "cnt holds (dr_workers ?d) = cnt holds (dr_workers d)"
    using ups [of stole] ups [of holds] by (simp_all add: stole_def holds_def)
  then show ?thesis using assms(1) r c o' unfolding sound_def f by auto
qed

lemma sound_signal:
  assumes "sound lim m d" "ws \<in> set (cond_signal (dr_workers d))"
  shows "sound lim m (d\<lparr>dr_workers := ws\<rparr>)"
proof -
  obtain b where b: "\<And>g. cnt g ws + b * g Waiting = cnt g (dr_workers d) + b * g Woken" "set ws \<subseteq> insert Woken (set (dr_workers d))"
    by (rule cnt_signal [OF assms(2)]) blast
  have same: "cnt (has c) ws = cnt (has c) (dr_workers d)" "cnt stole ws = cnt stole (dr_workers d)" "cnt holds ws = cnt holds (dr_workers d)" for c
    using b(1) [of "has c"] b(1) [of stole] b(1) [of holds] by (simp_all add: classes)
  have "Run (JOB_STEAL c) \<in> set ws \<Longrightarrow> Run (JOB_STEAL c) \<in> set (dr_workers d)" for c using b(2) by auto
  then show ?thesis using assms(1) unfolding sound_def occ_def by (auto simp: same)
qed

lemma sound_abort: "sound lim m (d\<lparr>dr_queue := (dr_queue d)\<lparr>cq_abort := True\<rparr>\<rparr>) = sound lim m d"
  by (simp add: sound_def occ_def)

lemma at_worker_more [simp]:
  "at_worker (d\<lparr>dr_queue := q\<rparr>) i w = at_worker d i w" "at_worker (d\<lparr>dr_error := e\<rparr>) i w = at_worker d i w"
  by (simp_all add: at_worker_def)

lemma at_signalled:
  assumes "at_worker d i v" "v \<noteq> Waiting" "ws \<in> set (cond_signal (dr_workers d))"
  shows "at_worker (d\<lparr>dr_workers := ws\<rparr>) i v"
  using assms(1,2) by (auto simp: at_worker_def intro: cnt_signal [OF assms(3)])

lemma sound_step:
  assumes "sound lim m d" "loader_step f d d'" "df_next f m = No_more_units" "m < 4294967296"
  shows "sound lim m d'"
  using assms(2)
proof cases
  case (spurious i)
  then show ?thesis by (intro sound_move [OF assms(1) spurious(2), of _ Woken]) (auto simp: set_worker_def classes)
next
  case worker
  then show ?thesis
  proof cases
    case (enqdeq i job ws)
    have "at_worker (enqueued i job ws d) i (Enqdeq None)" by (rule enqueued_effect [OF enqdeq(2,4)]) blast
    then show ?thesis unfolding enqdeq(1) enqdeq_split
      by (rule sound_dequeue [OF sound_enqueued [OF assms(1) enqdeq(2,4)]]) simp
  next
    case (waits i)
    then show ?thesis by (intro sound_move [OF assms(1) waits(2), of _ Waiting]) (auto simp: set_worker_def classes)
  next
    case (wakes i)
    then show ?thesis using sound_dequeue [OF assms(1) wakes(2)] by simp
  next
    case (next_cu i)
    then show ?thesis using sound_next_cu [OF assms(1) next_cu(2) assms(3,4)] by simp
  next
    case (decodes i c)
    then show ?thesis
      by (intro sound_move [OF assms(1) decodes(2), of _ "if df_decode f c \<noteq> 0 then Stopping else Enqdeq (Some (JOB_STEAL c))"])
        (auto simp: decode_cu_def set_worker_def classes)
  next
    case (steals i c)
    show ?thesis unfolding steals(1) by (rule sound_steal [OF assms(1) steals(2), THEN conjunct1])
  next
    case (inc_next i)
    then show ?thesis using sound_inc [OF assms(1) inc_next(2) assms(4)] by simp
  next
    case (stops i)
    then show ?thesis
      by (intro sound_move [OF assms(1) stops(2), of _ "if dr_error d \<noteq> 0 then Out_early else Returned True"])
        (auto simp: set_worker_def classes)
  next
    case (aborts i)
    have "sound lim m (d\<lparr>dr_queue := (dr_queue d)\<lparr>cq_abort := True\<rparr>\<rparr>)" using assms(1) by (simp add: sound_abort)
    then show ?thesis unfolding aborts(1)
      by (rule sound_move [where i = i and v = Out_early and w = Signalling]) (use aborts(2) in \<open>auto simp: set_worker_def classes\<close>)
  next
    case (signals i ws)
    from sound_signal [OF assms(1) signals(3)] show ?thesis unfolding signals(1)
      by (rule sound_move [where i = i and v = Signalling and w = "Returned False"])
        (use at_signalled [OF signals(2) _ signals(3)] in \<open>auto simp: classes\<close>)
  qed
qed

lemma sound_start: "sound (dwarf_loader__decoded_cus_limit n) m (dwarf_cus__process_cus n)"
  by (auto simp: sound_def dwarf_cus__process_cus_def occ_def cus_queue__init_def cnt_def classes sum_list_replicate)

lemma reachable_sound:
  assumes "reachable f n d" "df_next f m = No_more_units" "m < 4294967296"
  shows "sound (dwarf_loader__decoded_cus_limit n) m d"
  using assms(1) by induction (auto intro: sound_start sound_step assms(2,3))

text \<open>The units in memory: those being decoded, those in the queue and those being given to the callback.\<close>

definition units_held :: "dwarf_cus \<Rightarrow> nat" where
  "units_held d = length (filter (\<lambda>j. j \<noteq> JOB_DECODE) (cq_jobs (dr_queue d))) + cnt has_unit (dr_workers d)"

lemma units_held_bound: "sound lim m d \<Longrightarrow> units_held d \<le> lim"
proof -
  assume "sound lim m d"
  moreover have "cnt has_unit (dr_workers d) \<le> cnt holds (dr_workers d)"
    by (rule cnt_le) (auto simp: classes split: worker.split option.split cu_job.split)
  moreover have "length (filter (\<lambda>j. j \<noteq> JOB_DECODE) (cq_jobs (dr_queue d))) \<le> length (cq_jobs (dr_queue d))" by simp
  ultimately show ?thesis unfolding units_held_def sound_def by linarith
qed

definition stealing :: "dwarf_cus \<Rightarrow> nat set" where
  "stealing d = {i. \<exists>c. at_worker d i (Run (JOB_STEAL c))}"

text \<open>C34: Whatever the file holds, however the workers interleave, and whether or not decoding fails or the callback stops
  the loading: units are given to the callback in the order of the file, without a gap, by one worker at a time,
  and no more units are held in memory than there were tickets.\<close>

theorem units_stolen_in_order:
  assumes "reachable f n d" "df_next f m = No_more_units" "m < 4294967296"
  shows "dr_stolen d = [0..<length (dr_stolen d)] \<and> length (dr_stolen d) \<le> dr_created d \<and>
    (\<forall>i j. i \<in> stealing d \<and> j \<in> stealing d \<longrightarrow> i = j) \<and> units_held d \<le> dwarf_loader__decoded_cus_limit n"
proof -
  note s = reachable_sound [OF assms]
  let ?c = "cq_next_cu_id (dr_queue d)"
  have "i = j" if "i \<in> stealing d" "j \<in> stealing d" for i j
  proof (rule ccontr)
    assume "i \<noteq> j"
    have at: "at_worker d i (Run (JOB_STEAL ?c))" "at_worker d j (Run (JOB_STEAL ?c))"
      using that s at_in unfolding stealing_def sound_def by blast+
    then have "at_worker (set_worker i Stopping d) j (Run (JOB_STEAL ?c))"
      using \<open>i \<noteq> j\<close> by (simp add: at_worker_def set_worker_def)
    from cnt_member [OF at_in [OF this], of "has ?c"] cnt_at [OF at(1), of "has ?c" Stopping]
    have "2 \<le> cnt (has ?c) (dr_workers d)" by (simp add: has_def set_worker_def)
    moreover have "occ ?c d \<le> 1" using s by (simp add: sound_def)
    ultimately show False by (simp add: occ_def)
  qed
  moreover have "dr_stolen d = [0..<length (dr_stolen d)]" using s unfolding sound_def by blast
  ultimately show ?thesis using sound_stolen_bound [OF s] units_held_bound [OF s] by blast
qed

section \<open>Files without errors\<close>

text \<open>A file of \<open>m\<close> units, all of which can be decoded, and a callback that never stops the loading.\<close>

definition good_file :: "dwarf_file \<Rightarrow> nat \<Rightarrow> bool" where
  "good_file f m \<longleftrightarrow>
     df_next f m = No_more_units \<and> m < 4294967296 \<and>
     (\<forall>c<m. df_next f c = A_unit \<and> df_decode f c = 0 \<and> (df_steal f c = LSK__KEEPIT \<or> df_steal f c = LSK__DELETE))"

definition steals :: "cu_job list \<Rightarrow> nat" where
  "steals js = length (filter (\<lambda>j. j \<noteq> JOB_DECODE) js)"

text \<open>
  No error; the units that were created are all somewhere; a worker stops only behind the last unit; as many tickets as at
  the start; every worker that sleeps has a signal coming; and when the next unit is in the queue, a worker is on its way there.
\<close>

definition good :: "nat \<Rightarrow> dwarf_cus \<Rightarrow> bool" where
  "good m d \<longleftrightarrow>
     dr_error d = 0 \<and> \<not> cq_abort (dr_queue d) \<and> cnt failed (dr_workers d) = 0 \<and> steals_first (cq_jobs (dr_queue d)) \<and>
     (\<forall>c<dr_created d. occ c d = 1) \<and>
     cq_next_cu_id (dr_queue d) + cnt stole (dr_workers d) = length (dr_stolen d) \<and>
     (cnt stopped (dr_workers d) > 0 \<longrightarrow> dr_created d = m) \<and>
     length (cq_jobs (dr_queue d)) + cnt holds (dr_workers d) + cnt stopped (dr_workers d) = 2 * length (dr_workers d) \<and>
     cnt asleep (dr_workers d) \<le> steals (cq_jobs (dr_queue d)) + cnt coming (dr_workers d) \<and>
     (JOB_STEAL (cq_next_cu_id (dr_queue d)) \<in> set (cq_jobs (dr_queue d)) \<longrightarrow> cnt ready (dr_workers d) > 0)"

lemma good_move:
  assumes "good m d" "at_worker d i v" "dr_workers d' = (dr_workers d)[i := w]" "dr_queue d' = dr_queue d"
    "dr_created d' = dr_created d" "dr_stolen d' = dr_stolen d" "dr_error d' = dr_error d"
    "failed w = 0" "\<And>c. has c w = has c v" "holds w + stopped w = holds v + stopped v" "stole w = stole v"
    "stopped v \<le> stopped w" "stopped w \<le> stopped v \<or> dr_created d = m"
    "asleep w \<le> asleep v" "coming v \<le> coming w" "ready v \<le> ready w"
  shows "good m d'"
proof -
  have ups: "cnt g (dr_workers d') + g v = cnt g (dr_workers d) + g w" for g
    using cnt_at [OF assms(2), of g w] assms(3) by simp
  have o: "occ c d' = occ c d" for c using ups [of "has c"] assms(9) [of c] assms(4,6) by (simp add: occ_def)
  have len: "length (dr_workers d') = length (dr_workers d)" by (simp add: assms(3))
  note n = ups [of failed] ups [of holds] ups [of stole] ups [of stopped] ups [of asleep] ups [of coming] ups [of ready]
  show ?thesis unfolding good_def o assms(4-7) len
    using assms(1) n assms(8,10-16) unfolding good_def by auto
qed

lemma steals_enqueue: "steals (enqueue_job j js) = steals js + (case j of Some (JOB_STEAL c) \<Rightarrow> 1 | _ \<Rightarrow> 0)"
  by (cases "(j, js)" rule: enqueue_job.cases) (auto simp: steals_def)

lemma free_asleep: "mutex_free d \<Longrightarrow> Waiting \<notin> set (dr_workers d) \<Longrightarrow> cnt asleep (dr_workers d) = 0"
proof (rule ccontr)
  assume "mutex_free d" "Waiting \<notin> set (dr_workers d)" "cnt asleep (dr_workers d) \<noteq> 0"
  then show False using cnt_pos [of asleep "dr_workers d"] by (auto simp: mutex_free_def asleep_def split: if_splits)
qed

lemma good_enqueued:
  assumes "good m d" "at_worker d i (Enqdeq job)" "mutex_free d" "ws \<in> set (cond_signal (dr_workers d))"
  shows "good m (enqueued i job ws d)"
proof -
  obtain b d' where e: "d' = enqueued i job ws d" "b \<le> 1" "job = None \<Longrightarrow> b = 0" "job \<noteq> None \<Longrightarrow> b = 0 \<longleftrightarrow> Waiting \<notin> set (dr_workers d)"
    "\<And>g. cnt g (dr_workers d') + g (Enqdeq job) + b * g Waiting = cnt g (dr_workers d) + g (Enqdeq None) + b * g Woken"
    "length (dr_workers d') = length (dr_workers d)" "cq_jobs (dr_queue d') = enqueue_job job (cq_jobs (dr_queue d))"
    "cq_next_cu_id (dr_queue d') = cq_next_cu_id (dr_queue d)" "cq_abort (dr_queue d') = cq_abort (dr_queue d)"
    "dr_created d' = dr_created d" "dr_stolen d' = dr_stolen d" "dr_error d' = dr_error d" "at_worker d' i (Enqdeq None)"
    by (rule enqueued_effect [OF assms(2,4)]) blast
  have c: "cnt (has c) (dr_workers d') + has c (Enqdeq job) = cnt (has c) (dr_workers d)" for c
    using e(5) [of "has c"] by (simp add: has_def)
  have o: "occ c d' = occ c d" for c
    using c [of c] unfolding occ_def e(7,11) mset_enqueue by (cases job; cases "the job") (auto simp: has_def)
  have s: "cnt stole (dr_workers d') = cnt stole (dr_workers d)" "cnt failed (dr_workers d') = cnt failed (dr_workers d)"
      "cnt stopped (dr_workers d') = cnt stopped (dr_workers d)"
    using e(5) [of stole] e(5) [of failed] e(5) [of stopped] by (simp_all add: classes)
  have h: "length (cq_jobs (dr_queue d')) + cnt holds (dr_workers d') = length (cq_jobs (dr_queue d)) + cnt holds (dr_workers d)"
    using e(5) [of holds] unfolding e(7) length_enqueue by (cases job) (auto simp: holds_def)
  have r: "cnt ready (dr_workers d') > 0" using cnt_member [OF at_in [OF e(13)], of ready] by (simp add: ready_def)
  have k: "cnt coming (dr_workers d') + coming (Enqdeq job) = cnt coming (dr_workers d)" using e(5) [of coming] by (simp add: coming_def)
  have a: "cnt asleep (dr_workers d') + b = cnt asleep (dr_workers d)" using e(5) [of asleep] by (simp add: asleep_def)
  have "cnt asleep (dr_workers d') \<le> steals (cq_jobs (dr_queue d')) + cnt coming (dr_workers d')"
  proof (cases "Waiting \<in> set (dr_workers d)")
    case False
    then show ?thesis using a free_asleep [OF assms(3)] by simp
  next
    case True
    then have "job \<noteq> None \<Longrightarrow> b = 1" using e(2,4) by auto
    moreover have "cnt asleep (dr_workers d) \<le> steals (cq_jobs (dr_queue d)) + cnt coming (dr_workers d)"
      using assms(1) by (simp add: good_def)
    ultimately show ?thesis using a k e(3) unfolding e(7) steals_enqueue
      by (cases job; cases "the job") (auto simp: coming_def)
  qed
  moreover have "steals_first (cq_jobs (dr_queue d'))"
    using assms(1) unfolding e(7) good_def by (blast intro: steals_first_enqueue)
  ultimately show ?thesis using assms(1) r unfolding e(1) [symmetric] good_def o s h e(6,8-12) by simp
qed

lemma steals_all: "JOB_DECODE \<notin> set js \<Longrightarrow> steals js = length js"
proof -
  assume "JOB_DECODE \<notin> set js"
  then have "filter (\<lambda>j. j \<noteq> JOB_DECODE) js = js" by (induction js) auto
  then show ?thesis by (simp add: steals_def)
qed

lemma classes_exclusive: "cnt holds ws + cnt stopped ws + cnt asleep ws \<le> length ws"
proof -
  have "cnt (\<lambda>w. holds w + stopped w + asleep w) ws \<le> cnt (\<lambda>w. 1) ws"
    by (rule cnt_le) (auto simp: classes split: worker.split option.split)
  then show ?thesis by (simp add: cnt_add cnt_const)
qed

lemma good_dequeue:
  assumes "good m d" "sound lim m d" "at_worker d i v" "v = Enqdeq None \<or> v = Woken"
  shows "good m (dequeue_or_wait i d)"
proof (cases "cus_queue__try_dequeue (cq_next_cu_id (dr_queue d)) (cq_jobs (dr_queue d))")
  case None
  let ?d = "dequeue_or_wait i d"
  have d: "?d = set_worker i Checked d" using None assms(1) by (simp add: dequeue_or_wait_def good_def)
  have ups: "cnt g (dr_workers ?d) + g v = cnt g (dr_workers d) + g Checked" for g
    using cnt_at [OF assms(3), of g Checked] by (simp add: d set_worker_def)
  have f: "dr_queue ?d = dr_queue d" "dr_created ?d = dr_created d" "dr_stolen ?d = dr_stolen d" "dr_error ?d = dr_error d"
      "length (dr_workers ?d) = length (dr_workers d)" by (simp_all add: d set_worker_def)
  have o: "occ c ?d = occ c d" for c using ups [of "has c"] assms(4) unfolding occ_def f by (auto simp: has_def)
  have s: "cnt stole (dr_workers ?d) = cnt stole (dr_workers d)" "cnt failed (dr_workers ?d) = cnt failed (dr_workers d)"
      "cnt stopped (dr_workers ?d) = cnt stopped (dr_workers d)" "cnt holds (dr_workers ?d) = cnt holds (dr_workers d)"
    using ups [of stole] ups [of failed] ups [of stopped] ups [of holds] assms(4) by (auto simp: classes)
  have none: "JOB_DECODE \<notin> set (cq_jobs (dr_queue d))" "JOB_STEAL (cq_next_cu_id (dr_queue d)) \<notin> set (cq_jobs (dr_queue d))"
    using None by (simp_all add: try_dequeue_none)
  have "length (cq_jobs (dr_queue d)) + cnt holds (dr_workers ?d) + cnt stopped (dr_workers ?d) = 2 * length (dr_workers ?d)"
    using assms(1) unfolding s f good_def by blast
  then have "cnt asleep (dr_workers ?d) \<le> steals (cq_jobs (dr_queue d))"
    using classes_exclusive [of "dr_workers ?d"] steals_all [OF none(1)] by linarith
  then show ?thesis using assms(1) none unfolding good_def o s f by simp
next
  case (Some p)
  obtain j js where p: "p = (j, js)" by fastforce
  let ?d = "dequeue_or_wait i d" and ?n = "cq_next_cu_id (dr_queue d)"
  have d: "?d = set_worker i (Run j) (d\<lparr>dr_queue := (dr_queue d)\<lparr>cq_jobs := js\<rparr>\<rparr>)"
    using Some p by (simp add: dequeue_or_wait_def)
  note ms = try_dequeue_mset [OF Some [unfolded p]] and job = try_dequeue_job [OF Some [unfolded p]]
  have ups: "cnt g (dr_workers ?d) + g v = cnt g (dr_workers d) + g (Run j)" for g
    using cnt_at [OF assms(3), of g "Run j"] by (simp add: d set_worker_def)
  have f: "cq_jobs (dr_queue ?d) = js" "cq_next_cu_id (dr_queue ?d) = ?n" "cq_abort (dr_queue ?d) = cq_abort (dr_queue d)"
      "dr_created ?d = dr_created d" "dr_stolen ?d = dr_stolen d" "dr_error ?d = dr_error d" "length (dr_workers ?d) = length (dr_workers d)"
    by (simp_all add: d set_worker_def)
  have o: "occ c ?d = occ c d" for c
    using ups [of "has c"] assms(4) unfolding occ_def f ms by (auto simp: has_def)
  have s: "cnt stole (dr_workers ?d) = cnt stole (dr_workers d)" "cnt failed (dr_workers ?d) = cnt failed (dr_workers d)"
      "cnt stopped (dr_workers ?d) = cnt stopped (dr_workers d)" "cnt asleep (dr_workers ?d) = cnt asleep (dr_workers d)"
    using ups [of stole] ups [of failed] ups [of stopped] ups [of asleep] assms(4) by (auto simp: classes)
  have "length (cq_jobs (dr_queue d)) = Suc (length js)" using ms by (metis size_add_mset size_mset)
  then have h: "length js + cnt holds (dr_workers ?d) = length (cq_jobs (dr_queue d)) + cnt holds (dr_workers d)"
    using ups [of holds] assms(4) by (auto simp: holds_def)
  have "steals (cq_jobs (dr_queue d)) = steals js + (if j = JOB_DECODE then 0 else 1)"
    using arg_cong [OF ms, of "\<lambda>M. size (filter_mset (\<lambda>j. j \<noteq> JOB_DECODE) M)"] unfolding steals_def
    by (simp add: mset_filter [symmetric] del: mset_filter)
  then have k: "steals js + cnt coming (dr_workers ?d) = steals (cq_jobs (dr_queue d)) + cnt coming (dr_workers d)"
    using ups [of coming] assms(4) by (cases j) (auto simp: coming_def)
  have first: "steals_first js" "JOB_STEAL ?n \<in> set (cq_jobs (dr_queue d)) \<longrightarrow> j = JOB_STEAL ?n"
    using try_dequeue_first [OF _ Some [unfolded p]] assms(1) by (auto simp: good_def)
  have "JOB_STEAL ?n \<notin> set js"
  proof
    assume again: "JOB_STEAL ?n \<in> set js"
    then have "JOB_STEAL ?n \<in> set (cq_jobs (dr_queue d))" using ms by (metis insertCI set_mset_add_mset_insert set_mset_mset)
    then have "j = JOB_STEAL ?n" using first(2) by blast
    then have "2 \<le> count (mset (cq_jobs (dr_queue d))) (JOB_STEAL ?n)" using again unfolding ms by (simp add: count_eq_zero_iff Suc_le_eq)
    moreover have "occ ?n d \<le> 1" using assms(2) by (simp add: sound_def)
    ultimately show False by (simp add: occ_def)
  qed
  then show ?thesis using assms(1) first(1) h k unfolding good_def o s f by simp
qed

lemma unit_of_worker: "sound lim m d \<Longrightarrow> w \<in> set (dr_workers d) \<Longrightarrow> has c w > 0 \<Longrightarrow> c < dr_created d"
proof -
  assume s: "sound lim m d" and "w \<in> set (dr_workers d)" "has c w > 0"
  then have "occ c d \<noteq> 0" using cnt_member [of w "dr_workers d" "has c"] by (simp add: occ_def)
  with s show ?thesis by (simp add: sound_def)
qed

lemma good_next_cu:
  assumes "good m d" "sound lim m d" "at_worker d i (Run JOB_DECODE)" "good_file f m"
  shows "good m (next_cu f i d)"
proof (cases "dr_created d = m")
  case True
  then have "next_cu f i d = set_worker i Stopping d"
    using assms(1,4) by (simp add: next_cu_def dwarf_cus__nextcu_def good_def good_file_def)
  then show ?thesis using True
    by (intro good_move [OF assms(1,3), of _ Stopping]) (auto simp: set_worker_def classes)
next
  case False
  let ?d = "next_cu f i d" and ?c = "dr_created d"
  have c: "?c < m" using False assms(2) by (simp add: sound_def)
  have d: "?d = set_worker i (Decoding ?c) (d\<lparr>dr_created := ?c + 1\<rparr>)"
    using assms(1,4) c by (simp add: next_cu_def dwarf_cus__nextcu_def good_def good_file_def)
  have ups: "cnt g (dr_workers ?d) + g (Run JOB_DECODE) = cnt g (dr_workers d) + g (Decoding ?c)" for g
    using cnt_at [OF assms(3), of g "Decoding ?c"] by (simp add: d set_worker_def)
  have f: "dr_queue ?d = dr_queue d" "dr_created ?d = ?c + 1" "dr_stolen ?d = dr_stolen d" "dr_error ?d = dr_error d"
      "length (dr_workers ?d) = length (dr_workers d)" by (simp_all add: d set_worker_def)
  have o: "occ x ?d = occ x d + (if x = ?c then 1 else 0)" for x
    using ups [of "has x"] unfolding occ_def f by (auto simp: has_def)
  have "occ ?c d = 0" using assms(2) by (auto simp: sound_def)
  then have o': "\<forall>x<dr_created ?d. occ x ?d = 1" using assms(1) unfolding o f good_def by (auto simp: less_Suc_eq)
  have "cnt stopped (dr_workers d) = 0" using assms(1) False by (auto simp: good_def)
  moreover note ups [of failed] ups [of holds] ups [of stole] ups [of stopped] ups [of asleep] ups [of coming] ups [of ready]
  ultimately show ?thesis using assms(1) o' unfolding good_def f by (simp add: classes)
qed

lemma good_steal:
  assumes "good m d" "sound lim m d" "at_worker d i (Run (JOB_STEAL c))" "good_file f m"
  shows "good m (steal_cu f i c d)"
proof -
  let ?d = "steal_cu f i c d"
  have "c < m" using unit_of_worker [OF assms(2) at_in [OF assms(3)], of c] assms(2) by (simp add: has_def sound_def)
  then have d: "?d = set_worker i Stole (d\<lparr>dr_stolen := dr_stolen d @ [c]\<rparr>)"
    using assms(4) by (auto simp: steal_cu_def good_file_def Let_def)
  have ups: "cnt g (dr_workers ?d) + g (Run (JOB_STEAL c)) = cnt g (dr_workers d) + g Stole" for g
    using cnt_at [OF assms(3), of g Stole] by (simp add: d set_worker_def)
  have f: "dr_queue ?d = dr_queue d" "dr_created ?d = dr_created d" "dr_stolen ?d = dr_stolen d @ [c]" "dr_error ?d = dr_error d"
      "length (dr_workers ?d) = length (dr_workers d)" by (simp_all add: d set_worker_def)
  have o: "occ x ?d = occ x d" for x using ups [of "has x"] unfolding occ_def f by (auto simp: has_def)
  note ups [of failed] ups [of holds] ups [of stole] ups [of stopped] ups [of asleep] ups [of coming] ups [of ready]
  then show ?thesis using assms(1) unfolding good_def o f by (simp add: classes)
qed

lemma good_inc:
  assumes "good m d" "sound lim m d" "at_worker d i Stole" "m < 4294967296"
  shows "good m (set_worker i (Enqdeq (Some JOB_DECODE)) (d\<lparr>dr_queue := cus_queue__inc_next_cu_id (dr_queue d)\<rparr>))"
proof -
  let ?n = "cq_next_cu_id (dr_queue d)" and ?w = "Enqdeq (Some JOB_DECODE)"
  let ?d = "set_worker i ?w (d\<lparr>dr_queue := cus_queue__inc_next_cu_id (dr_queue d)\<rparr>)"
  have ups: "cnt g (dr_workers ?d) + g Stole = cnt g (dr_workers d) + g ?w" for g
    using cnt_at [OF assms(3), of g ?w] by (simp add: set_worker_def)
  have u: "u32 (?n + 1) = ?n + 1" using sound_inc [OF assms(2-4)] by simp
  have f: "cq_next_cu_id (dr_queue ?d) = ?n + 1" "cq_jobs (dr_queue ?d) = cq_jobs (dr_queue d)" "dr_created ?d = dr_created d"
      "dr_stolen ?d = dr_stolen d" "cq_abort (dr_queue ?d) = cq_abort (dr_queue d)" "dr_error ?d = dr_error d"
      "length (dr_workers ?d) = length (dr_workers d)"
    using u by (simp_all add: set_worker_def cus_queue__inc_next_cu_id_def)
  have o: "occ x ?d = occ x d" for x using ups [of "has x"] unfolding occ_def f by (auto simp: has_def)
  note ups [of failed] ups [of holds] ups [of stole] ups [of stopped] ups [of asleep] ups [of coming] ups [of ready]
  then show ?thesis using assms(1) unfolding good_def o f by (simp add: classes)
qed

lemma good_no_failure: "good m d \<Longrightarrow> at_worker d i v \<Longrightarrow> failed v = 0"
  using cnt_member [OF at_in, of d i v failed] by (simp add: good_def)

lemma good_step:
  assumes "good m d" "sound lim m d" "loader_step f d d'" "good_file f m"
  shows "good m d'"
  using assms(3)
proof cases
  case (spurious i)
  then show ?thesis by (intro good_move [OF assms(1) spurious(2), of _ Woken]) (auto simp: set_worker_def classes)
next
  case worker
  then show ?thesis
  proof cases
    case (enqdeq i job ws)
    have "at_worker (enqueued i job ws d) i (Enqdeq None)" by (rule enqueued_effect [OF enqdeq(2,4)]) blast
    then show ?thesis unfolding enqdeq(1) enqdeq_split
      by (rule good_dequeue [OF good_enqueued [OF assms(1) enqdeq(2-4)] sound_enqueued [OF assms(2) enqdeq(2,4)]]) simp
  next
    case (waits i)
    then show ?thesis by (intro good_move [OF assms(1) waits(2), of _ Waiting]) (auto simp: set_worker_def classes)
  next
    case (wakes i)
    then show ?thesis using good_dequeue [OF assms(1,2) wakes(2)] by simp
  next
    case (next_cu i)
    then show ?thesis using good_next_cu [OF assms(1,2) next_cu(2) assms(4)] by simp
  next
    case (decodes i c)
    have "c < m" using unit_of_worker [OF assms(2) at_in [OF decodes(2)], of c] assms(2) by (simp add: has_def sound_def)
    then have "df_decode f c = 0" using assms(4) by (simp add: good_file_def)
    then show ?thesis
      by (intro good_move [OF assms(1) decodes(2), of _ "Enqdeq (Some (JOB_STEAL c))"])
        (auto simp: decodes(1) decode_cu_def set_worker_def classes)
  next
    case (steals i c)
    show ?thesis unfolding steals(1) by (rule good_steal [OF assms(1,2) steals(2) assms(4)])
  next
    case (inc_next i)
    then show ?thesis using good_inc [OF assms(1,2) inc_next(2)] assms(4) by (simp add: good_file_def)
  next
    case (stops i)
    have "dr_error d = 0" using assms(1) by (simp add: good_def)
    then show ?thesis
      by (intro good_move [OF assms(1) stops(2), of _ "Returned True"]) (auto simp: stops(1) set_worker_def classes)
  next
    case (aborts i)
    then show ?thesis using good_no_failure [OF assms(1) aborts(2)] by (simp add: failed_def)
  next
    case (signals i ws)
    then show ?thesis using good_no_failure [OF assms(1) signals(2)] by (simp add: failed_def)
  qed
qed

lemma good_start: "good m (dwarf_cus__process_cus n)"
  by (auto simp: good_def dwarf_cus__process_cus_def occ_def cus_queue__init_def cnt_def classes sum_list_replicate
      dwarf_loader__decoded_cus_limit_def nr_workers_def steals_first_init)

lemma reachable_good:
  assumes "reachable f n d" "good_file f m"
  shows "good m d"
  using assms(1)
proof induction
  case (step d d')
  have "sound (dwarf_loader__decoded_cus_limit n) m d"
    using reachable_sound [OF step.hyps(1)] assms(2) by (simp add: good_file_def)
  then show ?case using good_step [OF step.IH _ step.hyps(2) assms(2)] by blast
qed (rule good_start)

text \<open>A worker that cannot move has returned or sleeps.\<close>

lemma stuck_worker:
  assumes "\<nexists>d'. worker_step f d d'" "w \<in> set (dr_workers d)" "failed w = 0"
  shows "w = Waiting \<or> w = Returned True"
proof -
  obtain i where i: "at_worker d i w" using assms(2) by (auto simp: at_worker_def in_set_conv_nth)
  have free: "mutex_free d"
    using assms(1) worker_step.waits by (fastforce simp: mutex_free_def at_worker_def in_set_conv_nth)
  obtain ws where ws: "ws \<in> set (cond_signal (dr_workers d))"
    by (cases "cond_signal (dr_workers d)") (auto simp: cond_signal_def split: list.splits)
  show ?thesis
  proof (cases w)
    case (Enqdeq j)
    then show ?thesis using worker_step.enqdeq [OF i [unfolded Enqdeq] free ws] assms(1) by blast
  next
    case Checked
    then show ?thesis using worker_step.waits [OF i [unfolded Checked]] assms(1) by blast
  next
    case Woken
    then show ?thesis using worker_step.wakes [OF i [unfolded Woken] free] assms(1) by blast
  next
    case (Run j)
    then show ?thesis using worker_step.next_cu worker_step.steals i assms(1) by (cases j) blast+
  next
    case (Decoding c)
    then show ?thesis using worker_step.decodes [OF i [unfolded Decoding]] assms(1) by blast
  next
    case Stole
    then show ?thesis using worker_step.inc_next [OF i [unfolded Stole] free] assms(1) by blast
  next
    case Stopping
    then show ?thesis using worker_step.stops [OF i [unfolded Stopping]] assms(1) by blast
  qed (use assms(3) in \<open>auto simp: failed_def split: if_splits\<close>)
qed

lemma stuck_done:
  assumes "good m d" "sound lim m d" "\<nexists>d'. worker_step f d d'" "dr_workers d \<noteq> []"
  shows "dr_stolen d = [0..<m] \<and> (\<forall>w\<in>set (dr_workers d). w = Returned True)"
proof -
  let ?n = "cq_next_cu_id (dr_queue d)"
  have all: "w = Waiting \<or> w = Returned True" if "w \<in> set (dr_workers d)" for w
  proof -
    have "failed w = 0" using cnt_member [OF that, of failed] assms(1) by (simp add: good_def)
    then show ?thesis by (rule stuck_worker [OF assms(3) that])
  qed
  have zero: "cnt g (dr_workers d) = 0" if "g Waiting = 0" "g (Returned True) = 0" for g
    using cnt_pos [of g "dr_workers d"] all that by (metis bot_nat_0.not_eq_extremum)
  have "cnt coming (dr_workers d) = 0" "cnt ready (dr_workers d) = 0" "cnt stole (dr_workers d) = 0" "cnt (has c) (dr_workers d) = 0" for c
    by (rule zero; simp add: classes)+
  note z = this
  have len: "length (dr_stolen d) = ?n" and stolen: "dr_stolen d = [0..<?n]"
    using assms(1,2) z(3) unfolding good_def sound_def by auto
  have next_id: "dr_created d \<le> ?n"
  proof (rule ccontr)
    assume "\<not> dr_created d \<le> ?n"
    then have "occ ?n d = 1" using assms(1) by (simp add: good_def)
    moreover have "count_list (dr_stolen d) ?n = 0" unfolding stolen by (simp add: count_list_0_iff)
    ultimately have "count (mset (cq_jobs (dr_queue d))) (JOB_STEAL ?n) \<noteq> 0" by (simp add: occ_def z(4))
    then have "JOB_STEAL ?n \<in> set (cq_jobs (dr_queue d))" by (simp add: count_eq_zero_iff)
    then show False using assms(1) z(2) by (simp add: good_def)
  qed
  have "steals (cq_jobs (dr_queue d)) = 0"
  proof (rule ccontr)
    assume "steals (cq_jobs (dr_queue d)) \<noteq> 0"
    then obtain c where c: "JOB_STEAL c \<in> set (cq_jobs (dr_queue d))"
      by (auto simp: steals_def filter_empty_conv) (metis cu_job.exhaust)
    then have o: "occ c d \<noteq> 0" by (simp add: occ_def count_eq_zero_iff)
    then have "c < dr_created d" using assms(2) by (auto simp: sound_def)
    then have "count_list (dr_stolen d) c \<noteq> 0" using next_id unfolding stolen by (simp add: count_list_0_iff)
    moreover have "count (mset (cq_jobs (dr_queue d))) (JOB_STEAL c) \<noteq> 0" using c by (simp add: count_eq_zero_iff)
    moreover have "occ c d \<le> 1" using assms(2) by (auto simp: sound_def)
    ultimately show False unfolding occ_def by linarith
  qed
  then have "cnt asleep (dr_workers d) = 0" using assms(1) z(1) by (simp add: good_def)
  then have ret: "w = Returned True" if "w \<in> set (dr_workers d)" for w
    using all [OF that] cnt_member [OF that, of asleep] by (auto simp: asleep_def)
  have "hd (dr_workers d) \<in> set (dr_workers d)" using assms(4) by simp
  from ret [OF this] cnt_member [OF this, of stopped] have "cnt stopped (dr_workers d) > 0" by (simp add: stopped_def)
  then have "dr_created d = m" using assms(1) by (simp add: good_def)
  moreover have "length (dr_stolen d) \<le> dr_created d" by (rule sound_stolen_bound [OF assms(2)])
  ultimately show ?thesis using ret next_id stolen len by simp
qed

section \<open>The workers come to an end\<close>

definition job_left :: "cu_job \<Rightarrow> nat" where
  "job_left j = (case j of JOB_DECODE \<Rightarrow> 3 | JOB_STEAL c \<Rightarrow> 7)"

definition left :: "worker \<Rightarrow> nat" where
  "left w = (case w of Decoding c \<Rightarrow> 9 | Enqdeq (Some j) \<Rightarrow> job_left j + 1 | Run j \<Rightarrow> job_left j - 1 | Stole \<Rightarrow> 5 | Stopping \<Rightarrow> 1 | _ \<Rightarrow> 0)"

definition naps :: "worker \<Rightarrow> nat" where
  "naps w = (case w of Enqdeq None \<Rightarrow> 2 | Woken \<Rightarrow> 2 | Checked \<Rightarrow> 1 | _ \<Rightarrow> 0)"

definition work :: "nat \<Rightarrow> dwarf_cus \<Rightarrow> nat" where
  "work m d = 4 * (8 * (m - dr_created d) + sum_list (map job_left (cq_jobs (dr_queue d))) + cnt left (dr_workers d)) +
     cnt naps (dr_workers d)"

lemmas lefts = left_def naps_def job_left_def

lemma job_left_enqueue:
  "sum_list (map job_left (enqueue_job j js)) = sum_list (map job_left js) + (case j of None \<Rightarrow> 0 | Some x \<Rightarrow> job_left x)"
  by (cases "(j, js)" rule: enqueue_job.cases) auto

lemma job_left_mset: "mset js = add_mset j (mset js') \<Longrightarrow> sum_list (map job_left js) = job_left j + sum_list (map job_left js')"
  by (metis image_mset_add_mset mset_map sum_mset.insert sum_mset_sum_list)

lemma work_move:
  assumes "at_worker d i v" "dr_workers d' = (dr_workers d)[i := w]" "dr_queue d' = dr_queue d" "dr_created d' = dr_created d"
    "4 * left w + naps w < 4 * left v + naps v"
  shows "work m d' < work m d"
  using cnt_at [OF assms(1), of left w] cnt_at [OF assms(1), of naps w] assms(2-5) unfolding work_def by auto

lemma work_enqueued:
  assumes "at_worker d i (Enqdeq job)" "ws \<in> set (cond_signal (dr_workers d))"
  shows "work m (enqueued i job ws d) \<le> work m d"
proof -
  obtain b d' where e: "d' = enqueued i job ws d" "b \<le> 1" "job = None \<Longrightarrow> b = 0"
    "\<And>g. cnt g (dr_workers d') + g (Enqdeq job) + b * g Waiting = cnt g (dr_workers d) + g (Enqdeq None) + b * g Woken"
    "cq_jobs (dr_queue d') = enqueue_job job (cq_jobs (dr_queue d))" "dr_created d' = dr_created d"
    by (rule enqueued_effect [OF assms]) blast
  note n = e(4) [of left] e(4) [of naps]
  have "work m d' \<le> work m d"
  proof (cases job)
    case None
    then show ?thesis using n e(3) unfolding work_def e(5,6) job_left_enqueue by (simp add: lefts)
  next
    case (Some j)
    then have "cnt left (dr_workers d') + job_left j + 1 = cnt left (dr_workers d)" "cnt naps (dr_workers d') \<le> cnt naps (dr_workers d) + 4"
      using n e(2) by (auto simp: left_def naps_def)
    then show ?thesis unfolding work_def e(5,6) job_left_enqueue Some by simp
  qed
  then show ?thesis by (simp add: e(1))
qed

lemma work_dequeue:
  assumes "at_worker d i v" "v = Enqdeq None \<or> v = Woken" "\<not> cq_abort (dr_queue d)"
  shows "work m (dequeue_or_wait i d) < work m d"
proof (cases "cus_queue__try_dequeue (cq_next_cu_id (dr_queue d)) (cq_jobs (dr_queue d))")
  case None
  then show ?thesis
    using assms by (intro work_move [OF assms(1), of _ Checked]) (auto simp: dequeue_or_wait_def set_worker_def lefts)
next
  case (Some p)
  obtain j js where p: "p = (j, js)" by fastforce
  let ?d = "dequeue_or_wait i d"
  have d: "?d = set_worker i (Run j) (d\<lparr>dr_queue := (dr_queue d)\<lparr>cq_jobs := js\<rparr>\<rparr>)"
    using Some p by (simp add: dequeue_or_wait_def)
  have f: "cq_jobs (dr_queue ?d) = js" "dr_created ?d = dr_created d" by (simp_all add: d set_worker_def)
  have ups: "cnt g (dr_workers ?d) + g v = cnt g (dr_workers d) + g (Run j)" for g
    using cnt_at [OF assms(1), of g "Run j"] by (simp add: d set_worker_def)
  note jl = job_left_mset [OF try_dequeue_mset [OF Some [unfolded p]]]
  have "job_left j > 0" by (cases j) (simp_all add: job_left_def)
  then have "cnt left (dr_workers ?d) + 1 = cnt left (dr_workers d) + job_left j" "cnt naps (dr_workers ?d) + 2 = cnt naps (dr_workers d)"
    using ups [of left] ups [of naps] assms(2) by (auto simp: left_def naps_def)
  then show ?thesis unfolding work_def f jl by simp
qed

lemma work_step:
  assumes "good m d" "sound lim m d" "worker_step f d d'" "good_file f m"
  shows "work m d' < work m d"
  using assms(3)
proof cases
  case (enqdeq i job ws)
  have "at_worker (enqueued i job ws d) i (Enqdeq None)" "cq_abort (dr_queue (enqueued i job ws d)) = cq_abort (dr_queue d)"
    by (rule enqueued_effect [OF enqdeq(2,4)], blast)+
  then show ?thesis unfolding enqdeq(1) enqdeq_split
    using assms(1) by (intro less_le_trans [OF work_dequeue work_enqueued [OF enqdeq(2,4)]]) (auto simp: good_def)
next
  case (waits i)
  then show ?thesis by (intro work_move [OF waits(2), of _ Waiting]) (auto simp: set_worker_def lefts)
next
  case (wakes i)
  then show ?thesis using assms(1) by (auto simp: good_def intro: work_dequeue)
next
  case (next_cu i)
  show ?thesis
  proof (cases "dr_created d = m")
    case True
    then have "d' = set_worker i Stopping d"
      using assms(1,4) next_cu(1) by (simp add: next_cu_def dwarf_cus__nextcu_def good_def good_file_def)
    then show ?thesis by (intro work_move [OF next_cu(2), of _ Stopping]) (auto simp: set_worker_def lefts)
  next
    case False
    then have c: "dr_created d < m" using assms(2) by (simp add: sound_def)
    have d: "d' = set_worker i (Decoding (dr_created d)) (d\<lparr>dr_created := dr_created d + 1\<rparr>)"
      using assms(1,4) c next_cu(1) by (simp add: next_cu_def dwarf_cus__nextcu_def good_def good_file_def)
    show ?thesis using c cnt_at [OF next_cu(2), of left "Decoding (dr_created d)"] cnt_at [OF next_cu(2), of naps "Decoding (dr_created d)"]
      unfolding work_def d by (simp add: set_worker_def lefts)
  qed
next
  case (decodes i c)
  have "c < m" using unit_of_worker [OF assms(2) at_in [OF decodes(2)], of c] assms(2) by (simp add: has_def sound_def)
  then have "df_decode f c = 0" using assms(4) by (simp add: good_file_def)
  then show ?thesis
    by (intro work_move [OF decodes(2), of _ "Enqdeq (Some (JOB_STEAL c))"]) (auto simp: decodes(1) decode_cu_def set_worker_def lefts)
next
  case (steals i c)
  show ?thesis
    by (intro work_move [OF steals(2), of _ "if df_steal f c = LSK__ABORT \<or> df_steal f c = LSK__STOP_LOADING then Out_early else Stole"])
      (auto simp: steals(1) steal_cu_def set_worker_def lefts Let_def)
next
  case (inc_next i)
  show ?thesis using cnt_at [OF inc_next(2), of left "Enqdeq (Some JOB_DECODE)"] cnt_at [OF inc_next(2), of naps "Enqdeq (Some JOB_DECODE)"]
    unfolding work_def inc_next(1) by (simp add: set_worker_def lefts cus_queue__inc_next_cu_id_def)
next
  case (stops i)
  show ?thesis
    by (intro work_move [OF stops(2), of _ "if dr_error d \<noteq> 0 then Out_early else Returned True"]) (auto simp: stops(1) set_worker_def lefts)
next
  case (aborts i)
  then show ?thesis using good_no_failure [OF assms(1) aborts(2)] by (simp add: failed_def)
next
  case (signals i ws)
  then show ?thesis using good_no_failure [OF assms(1) signals(2)] by (simp add: failed_def)
qed

lemma work_bound:
  assumes "sound lim m d"
  shows "work m d \<le> 32 * m + 36 * lim + 6 * length (dr_workers d)"
proof -
  have "sum_list (map job_left js) \<le> 9 * length js" for js
    by (induction js) (auto simp: job_left_def split: cu_job.split)
  moreover have "cnt left ws \<le> cnt (\<lambda>w. 9 * holds w + 1) ws" for ws
    by (rule cnt_le) (auto simp: lefts holds_def split: worker.split option.split cu_job.split)
  moreover have "cnt (\<lambda>w. 9 * holds w + 1) ws = 9 * cnt holds ws + length ws" for ws
    by (induction ws) (auto simp: cnt_def)
  moreover have "cnt naps ws \<le> cnt (\<lambda>w. 2) ws" for ws
    by (rule cnt_le) (auto simp: naps_def split: worker.split option.split)
  moreover have "length (cq_jobs (dr_queue d)) + cnt holds (dr_workers d) \<le> lim" using assms by (simp add: sound_def)
  ultimately have "sum_list (map job_left (cq_jobs (dr_queue d))) \<le> 9 * length (cq_jobs (dr_queue d))"
      "cnt left (dr_workers d) \<le> 9 * cnt holds (dr_workers d) + length (dr_workers d)"
      "cnt naps (dr_workers d) \<le> 2 * length (dr_workers d)" "length (cq_jobs (dr_queue d)) + cnt holds (dr_workers d) \<le> lim"
    by (simp_all add: cnt_const)
  then show ?thesis unfolding work_def by simp
qed

lemma loader_step_length: "loader_step f d d' \<Longrightarrow> length (dr_workers d') = length (dr_workers d)"
proof (erule loader_step_cases)
  assume "worker_step f d d'"
  then show ?thesis
  proof cases
    case (enqdeq i job ws)
    have "length (dr_workers (enqueued i job ws d)) = length (dr_workers d)" by (rule enqueued_effect [OF enqdeq(2,4)]) blast
    then show ?thesis unfolding enqdeq(1) enqdeq_split by (simp add: dequeue_or_wait_def set_worker_def Let_def split: option.split prod.split)
  next
    case (next_cu i)
    then show ?thesis
      by (simp add: next_cu_def dwarf_cus__nextcu_def set_worker_def Let_def split: next_unit.split)
  next
    case (signals i ws)
    have "length ws = length (dr_workers d)" by (rule cnt_signal [OF signals(3)]) blast
    then show ?thesis by (simp add: signals(1))
  qed (simp_all add: dequeue_or_wait_def decode_cu_def steal_cu_def set_worker_def Let_def split: option.split prod.split)
qed (simp add: set_worker_def)

lemma reachable_length: "reachable f n d \<Longrightarrow> length (dr_workers d) = nr_workers n"
  by (induction rule: reachable.induct) (simp_all add: loader_step_length dwarf_cus__process_cus_def)

text \<open>A run of \<open>k\<close> steps of the workers.\<close>

inductive worker_run :: "dwarf_file \<Rightarrow> nat \<Rightarrow> dwarf_cus \<Rightarrow> dwarf_cus \<Rightarrow> bool" for f where
  nothing: "worker_run f 0 d d"
| move: "worker_run f k d d' \<Longrightarrow> worker_step f d' d'' \<Longrightarrow> worker_run f (Suc k) d d''"

lemma worker_run_reachable: "worker_run f k d d' \<Longrightarrow> reachable f n d \<Longrightarrow> reachable f n d'"
  by (induction rule: worker_run.induct) (auto intro: reachable.step loader_step.worker)

lemma worker_run_work:
  assumes "worker_run f k d d'" "reachable f n d" "good_file f m"
  shows "k + work m d' \<le> work m d"
  using assms(1,2)
proof induction
  case (move k d d1 d2)
  have r: "reachable f n d1" by (rule worker_run_reachable [OF move.hyps(1) move.prems])
  have "sound (dwarf_loader__decoded_cus_limit n) m d1"
    using assms(3) by (intro reachable_sound [OF r]) (simp_all add: good_file_def)
  then have "work m d2 < work m d1" by (rule work_step [OF reachable_good [OF r assms(3)] _ move.hyps(2) assms(3)])
  then show ?case using move.IH [OF move.prems] by simp
qed simp

text \<open>C35: When every unit can be decoded and the callback never stops the loading, the workers come to an end, from whatever state
  they are in and however they interleave: they make at most so many steps, and when none of them can make another,
  every unit of the file has been given to the callback, in order, and every worker has returned \<open>DWARF_CB_OK\<close>.  No
  worker is left waiting for a signal that does not come.\<close>

theorem workers_finish:
  assumes "good_file f m" "reachable f n d" "worker_run f k d d'"
  shows "k \<le> 32 * m + 36 * dwarf_loader__decoded_cus_limit n + 6 * nr_workers n \<and>
    ((\<nexists>d''. worker_step f d' d'') \<longrightarrow> dr_stolen d' = [0..<m] \<and> (\<forall>w\<in>set (dr_workers d'). w = Returned True))"
proof -
  have m: "df_next f m = No_more_units" "m < 4294967296" using assms(1) by (simp_all add: good_file_def)
  have "work m d \<le> 32 * m + 36 * dwarf_loader__decoded_cus_limit n + 6 * nr_workers n"
    using work_bound [OF reachable_sound [OF assms(2) m]] reachable_length [OF assms(2)] by simp
  with worker_run_work [OF assms(3,2,1)]
  have "k \<le> 32 * m + 36 * dwarf_loader__decoded_cus_limit n + 6 * nr_workers n" by linarith
  moreover have r: "reachable f n d'" by (rule worker_run_reachable [OF assms(3,2)])
  moreover have "dr_workers d' \<noteq> []" using reachable_length [OF r] by (auto simp: nr_workers_def split: if_splits)
  then have "(\<nexists>d''. worker_step f d' d'') \<longrightarrow> dr_stolen d' = [0..<m] \<and> (\<forall>w\<in>set (dr_workers d'). w = Returned True)"
    using stuck_done [OF reachable_good [OF r assms(1)] reachable_sound [OF r m]] by blast
  ultimately show ?thesis by blast
qed

section \<open>Runs that can be evaluated\<close>

text \<open>The step of worker \<open>i\<close>, if it can make one; a signal wakes the first thread that waits.\<close>

definition step_of :: "dwarf_file \<Rightarrow> nat \<Rightarrow> dwarf_cus \<Rightarrow> dwarf_cus option" where
  "step_of f i d =
     (case dr_workers d ! i of
        Enqdeq job \<Rightarrow>
          if mutex_free d then Some (cus_queue__enqdeq_job i job (hd (cond_signal (dr_workers d))) d) else None
      | Checked \<Rightarrow> Some (set_worker i Waiting d)
      | Woken \<Rightarrow> if mutex_free d then Some (dequeue_or_wait i d) else None
      | Run JOB_DECODE \<Rightarrow> Some (next_cu f i d)
      | Run (JOB_STEAL c) \<Rightarrow> Some (steal_cu f i c d)
      | Decoding c \<Rightarrow> Some (decode_cu f i c d)
      | Stole \<Rightarrow>
          if mutex_free d
          then Some (set_worker i (Enqdeq (Some JOB_DECODE)) (d\<lparr>dr_queue := cus_queue__inc_next_cu_id (dr_queue d)\<rparr>)) else None
      | Stopping \<Rightarrow> Some (set_worker i (if dr_error d \<noteq> 0 then Out_early else Returned True) d)
      | Out_early \<Rightarrow> Some (set_worker i Signalling (d\<lparr>dr_queue := (dr_queue d)\<lparr>cq_abort := True\<rparr>\<rparr>))
      | Signalling \<Rightarrow> Some (d\<lparr>dr_workers := (hd (cond_signal (dr_workers d)))[i := Returned False]\<rparr>)
      | _ \<Rightarrow> None)"

fun steps_of :: "dwarf_file \<Rightarrow> nat list \<Rightarrow> dwarf_cus \<Rightarrow> dwarf_cus option" where
  "steps_of f [] d = Some d"
| "steps_of f (i # is) d =
     (if i < length (dr_workers d) then (case step_of f i d of None \<Rightarrow> None | Some d' \<Rightarrow> steps_of f is d') else None)"

lemma step_of_step: "step_of f i d = Some d' \<Longrightarrow> i < length (dr_workers d) \<Longrightarrow> worker_step f d d'"
proof -
  assume s: "step_of f i d = Some d'" and i: "i < length (dr_workers d)"
  have at: "at_worker d i (dr_workers d ! i)" using i by (simp add: at_worker_def)
  have sig: "hd (cond_signal (dr_workers d)) \<in> set (cond_signal (dr_workers d))"
    by (rule hd_in_set) (auto simp: cond_signal_def split: list.splits)
  show ?thesis using s at worker_step.stops [of d i f]
    by (auto simp: step_of_def split: worker.splits cu_job.splits if_splits intro: worker_step.intros sig)
qed

lemma worker_run_first: "worker_run f k d' d'' \<Longrightarrow> worker_step f d d' \<Longrightarrow> worker_run f (Suc k) d d''"
  by (induction rule: worker_run.induct) (auto intro: worker_run.intros)

lemma steps_of_run: "steps_of f is d = Some d' \<Longrightarrow> worker_run f (length is) d d'"
proof (induction f "is" d rule: steps_of.induct)
  case (2 f i "is" d)
  then obtain d1 where "step_of f i d = Some d1" "i < length (dr_workers d)" "steps_of f is d1 = Some d'"
    by (auto split: if_splits option.splits)
  then show ?case using "2.IH" step_of_step worker_run_first by fastforce
qed (auto intro: worker_run.intros)

text \<open>Two units, one worker.\<close>

definition two_units :: dwarf_file where
  "two_units = \<lparr>df_next = (\<lambda>k. if k < 2 then A_unit else No_more_units), df_decode = (\<lambda>c. 0), df_steal = (\<lambda>c. LSK__DELETE)\<rparr>"

lemma two_units_loaded:
  "\<exists>d. steps_of two_units [0, 0, 0, 0, 0, 0, 0, 0, 0, 0, 0, 0, 0, 0, 0] (dwarf_cus__process_cus 0) = Some d \<and>
    dr_stolen d = [0, 1] \<and> dr_workers d = [Returned True]"
  by (simp add: two_units_def dwarf_cus__process_cus_def dwarf_loader__decoded_cus_limit_def nr_workers_def cus_queue__init_def
      step_of_def mutex_free_def cus_queue__enqdeq_job_def dequeue_or_wait_def set_worker_def cond_signal_def next_cu_def
      dwarf_cus__nextcu_def decode_cu_def steal_cu_def cus_queue__inc_next_cu_id_def numeral_2_eq_2 replicate_Suc)

lemma two_units_good: "good_file two_units 2"
  by (simp add: good_file_def two_units_def)

theorem workers_finish_witness:
  "\<exists>d. worker_run two_units 15 (dwarf_cus__process_cus 0) d \<and> (\<forall>w\<in>set (dr_workers d). w = Returned True) \<and> dr_stolen d = [0, 1] \<and>
    15 \<le> 32 * 2 + 36 * dwarf_loader__decoded_cus_limit 0 + 6 * nr_workers 0"
proof -
  obtain d where d: "steps_of two_units [0, 0, 0, 0, 0, 0, 0, 0, 0, 0, 0, 0, 0, 0, 0] (dwarf_cus__process_cus 0) = Some d"
    "dr_stolen d = [0, 1]" "dr_workers d = [Returned True]" using two_units_loaded by blast
  have run: "worker_run two_units 15 (dwarf_cus__process_cus 0) d" using steps_of_run [OF d(1)] by (simp add: eval_nat_numeral)
  show ?thesis using workers_finish [OF two_units_good reachable.start run] run d(2,3) by auto
qed

theorem units_stolen_in_order_witness:
  "\<exists>d. dr_stolen d = [0, 1] \<and> [0, 1] = [0..<length (dr_stolen d)] \<and> units_held d \<le> dwarf_loader__decoded_cus_limit 0"
proof -
  obtain d where d: "steps_of two_units [0, 0, 0, 0, 0, 0, 0, 0, 0, 0, 0, 0, 0, 0, 0] (dwarf_cus__process_cus 0) = Some d"
    "dr_stolen d = [0, 1]" using two_units_loaded by blast
  have "reachable two_units 0 d" by (rule worker_run_reachable [OF steps_of_run [OF d(1)] reachable.start])
  from units_stolen_in_order [OF this, of 2] d(2) show ?thesis by (auto simp: two_units_def)
qed

text \<open>
  Two workers, and a callback that stops the loading at the first unit.  While worker 0 hands over unit 0,
  worker 1 decodes three more, finds that none of them is next, and is about to wait.  Worker 0 sets \<open>abort\<close> and
  signals, without the mutex: nobody waits yet.  Then worker 1 waits, for good, and \<open>pthread_join\<close> with it.
\<close>

definition stopped_at_once :: dwarf_file where
  "stopped_at_once = \<lparr>df_next = (\<lambda>k. if k < 10 then A_unit else No_more_units), df_decode = (\<lambda>c. 0), df_steal = (\<lambda>c. LSK__ABORT)\<rparr>"

lemma four_tickets: "replicate 4 x = [x, x, x, x]" "replicate (Suc (Suc (Suc (Suc 0)))) x = [x, x, x, x]"
  by (simp_all add: eval_nat_numeral)

lemma abort_wakeup_lost:
  "\<exists>d. reachable stopped_at_once 2 d \<and> dr_workers d = [Returned False, Waiting] \<and> cq_abort (dr_queue d) \<and>
    (\<nexists>d'. worker_step stopped_at_once d d')"
proof -
  have "map_option (\<lambda>d. (dr_workers d, cq_abort (dr_queue d)))
      (steps_of stopped_at_once [0, 0, 0, 0, 1, 1, 1, 1, 1, 1, 1, 1, 1, 1, 0, 0, 0, 1] (dwarf_cus__process_cus 2)) =
    Some ([Returned False, Waiting], True)"
    by (simp add: stopped_at_once_def dwarf_cus__process_cus_def dwarf_loader__decoded_cus_limit_def nr_workers_def cus_queue__init_def
      step_of_def mutex_free_def cus_queue__enqdeq_job_def dequeue_or_wait_def set_worker_def cond_signal_def next_cu_def four_tickets
      dwarf_cus__nextcu_def decode_cu_def steal_cu_def cus_queue__inc_next_cu_id_def numeral_2_eq_2 replicate_Suc Let_def)
  then obtain d where d: "steps_of stopped_at_once [0, 0, 0, 0, 1, 1, 1, 1, 1, 1, 1, 1, 1, 1, 0, 0, 0, 1] (dwarf_cus__process_cus 2) = Some d"
    "dr_workers d = [Returned False, Waiting]" "cq_abort (dr_queue d)" by auto
  have "\<nexists>d'. worker_step stopped_at_once d d'"
    by (auto simp: at_worker_def d(2) less_Suc_eq elim!: worker_step_cases)
  with d worker_run_reachable [OF steps_of_run [OF d(1)] reachable.start] show ?thesis by blast
qed

text \<open>An error above 1 (the \<open>ENOMEM\<close> of \<open>dwarf_cus__nextcu\<close>, or what \<open>pthread_create\<close> returned) is taken for a unit.\<close>

lemma positive_error_crashes: "dr_error d > 1 \<Longrightarrow> next_cu f i d = set_worker i Crashed d"
  by (simp add: next_cu_def dwarf_cus__nextcu_def)

end
