(* ===== verification/DwarfMembers.thy ===== *)
theory DwarfMembers
  imports Typesize "HOL-Library.Multiset"
begin

text \<open>
  What the DWARF loader does when a unit has been read (\<open>cu__finalize\<close> of \<open>dwarf_loader.c\<close>): sizes and places of
  members, bitfields in particular, and the order of the members of Rust structures.
\<close>

section \<open>Sizes and places\<close>

text \<open>\<open>tag__size\<close> of a member; the size of an inherited class is not cached.\<close>

definition member_tag_size :: "nat \<Rightarrow> cu \<Rightarrow> class_member \<Rightarrow> fault + nat" where
  "member_tag_size n cu m =
     class_member__size n cu (if cm_tag m = DW_TAG_member then m else m\<lparr>cm_is_static := False, cm_byte_size := 0\<rparr>)"

text \<open>The size of the type of a bitfield that has none of its own.\<close>

definition bitfield_byte_size :: "nat \<Rightarrow> cu \<Rightarrow> class_member \<Rightarrow> fault + nat" where
  "bitfield_byte_size n cu m =
     bindE (tag__strip_typedefs_and_modifiers n cu (cm_type m)) (\<lambda>r.
       case r of
         None \<Rightarrow> Inl Null_Deref
       | Some (i, type) \<Rightarrow>
           bindE (tag__size n cu type) (\<lambda>byte_size.
             if byte_size \<noteq> 0 then Inr byte_size
             else
               bindE (if tag__is_enumeration (tg_tag type) then map_sum id ty_size (tag__type type)
                      else bindE (tag__base_type type) (\<lambda>bt.
                             if bt_bit_size bt \<noteq> 0 then Inr (bt_bit_size bt) else base_type__name_to_size bt (cu_addr_size cu)))
                 (\<lambda>bit_size. Inr ((bit_size + 7) div 8 * 8))))"

text \<open>
  Where a bitfield of known size is.  A field of \<open>w\<close> bits is kept modulo \<open>2 ^ w\<close>; \<open>bitfield_offset\<close> is an \<open>int8_t\<close>.
\<close>

definition bit_place :: "bool \<Rightarrow> class_member \<Rightarrow> class_member" where
  "bit_place little_endian m =
     (if \<not> cm_has_bit_offset m then
        let bfo = (if little_endian
                   then s8 (int (cm_bit_size m) - cm_bitfield_offset m - int (cm_bitfield_size m)) else cm_bitfield_offset m)
        in m\<lparr>cm_bitfield_offset := bfo, cm_bit_offset := nat (u32 (int (cm_byte_offset m) * 8 + bfo))\<rparr>
      else
        let byte_offset = cm_bit_offset m div 8
        in m\<lparr>cm_byte_offset := byte_offset, cm_bitfield_offset := s8 (int (cm_bit_offset m) - int byte_offset * 8)\<rparr>)"

definition non_negative :: "class_member \<Rightarrow> class_member" where
  "non_negative m =
     (if cm_bitfield_offset m < 0 then
        let bfo = s8 (cm_bitfield_offset m + int (cm_bit_size m));
            byte_offset = nat (u32 (int (cm_byte_offset m) - int (cm_byte_size m)))
        in m\<lparr>cm_bitfield_offset := bfo, cm_byte_offset := byte_offset, cm_bit_offset := nat (u32 (int byte_offset * 8 + bfo))\<rparr>
      else m)"

definition align_on_type :: "class_member \<Rightarrow> fault + class_member" where
  "align_on_type m =
     (if cm_bit_size m = 0 then Inl Div_By_Zero
      else
        let bfo = s8 (cm_bitfield_offset m + int (cm_byte_offset m mod cm_byte_size m * 8));
            byte_offset = cm_bit_offset m div cm_bit_size m * cm_bit_size m div 8
        in Inr (if u32 bfo \<ge> int (cm_bit_size m)
                then m\<lparr>cm_bitfield_offset := s8 (bfo - int (cm_bit_size m)), cm_byte_offset := u32 (byte_offset + cm_byte_size m)\<rparr>
                else m\<lparr>cm_bitfield_offset := bfo, cm_byte_offset := byte_offset\<rparr>))"

definition unsilly :: "bool \<Rightarrow> class_member \<Rightarrow> class_member" where
  "unsilly fixup m =
     (if fixup \<and> u64 (cm_byte_size m * 8) = cm_bitfield_size m \<and> cm_bitfield_offset m = 0 then m\<lparr>cm_bitfield_size := 0\<rparr> else m)"

definition place_dwarf_bitfield :: "bool \<Rightarrow> bool \<Rightarrow> class_member \<Rightarrow> fault + class_member" where
  "place_dwarf_bitfield little_endian fixup m =
     map_sum id (unsilly fixup) (align_on_type (non_negative (bit_place little_endian m)))"

text \<open>For the members and the inherited classes of a type; \<open>fixup\<close> is \<open>fixup_silly_bitfields\<close>.\<close>

definition class_member__cache_byte_size :: "nat \<Rightarrow> bool \<Rightarrow> bool \<Rightarrow> cu \<Rightarrow> class_member \<Rightarrow> fault + class_member" where
  "class_member__cache_byte_size n little_endian fixup cu m =
     (if (if tag__is_class_member (cm_tag m) then cm_is_static m else cm_tag m \<noteq> DW_TAG_inheritance) then Inr m
      else if cm_bitfield_size m = 0 then
        bindE (member_tag_size n cu m) (\<lambda>byte_size.
          Inr (m\<lparr>cm_byte_size := byte_size, cm_bit_size := u32 (byte_size * 8)\<rparr>))
      else
        bindE (if cm_byte_size m = 0 then bitfield_byte_size n cu m else Inr (cm_byte_size m)) (\<lambda>byte_size.
          let m1 = m\<lparr>cm_byte_size := byte_size, cm_bit_size := u32 (byte_size * 8)\<rparr>
          in if byte_size = 0 then Inr (m1\<lparr>cm_bitfield_offset := 0\<rparr>)
             else place_dwarf_bitfield little_endian fixup m1))"

section \<open>The order of members\<close>

text \<open>
  From one data member to the entry behind it, which is read as a member whatever it is; \<open>None\<close> when no two are exchanged.
\<close>

fun sort_step :: "ns_entry list \<Rightarrow> fault + ns_entry list option" where
  "sort_step (e # e' # es) =
     (case e of
        Member m \<Rightarrow>
          if cm_tag m = DW_TAG_member then
            (case e' of
               Member m' \<Rightarrow>
                 if cm_byte_offset m \<le> cm_byte_offset m' then map_sum id (map_option (Cons e)) (sort_step (e' # es))
                 else Inr (Some (e' # e # es))
             | _ \<Rightarrow> Inl Out_Of_Bounds)
          else map_sum id (map_option (Cons e)) (sort_step (e' # es))
      | _ \<Rightarrow> map_sum id (map_option (Cons e)) (sort_step (e' # es)))"
| "sort_step es = Inr None"

fun sort_restart :: "nat \<Rightarrow> ns_entry list \<Rightarrow> fault + ns_entry list" where
  "sort_restart 0 es = Inl Out_Of_Fuel"
| "sort_restart (Suc n) es = bindE (sort_step es) (\<lambda>r. case r of None \<Rightarrow> Inr es | Some es' \<Rightarrow> sort_restart n es')"

text \<open>On type \<open>i\<close>.  There are fewer exchanges than pairs of entries.\<close>

definition set_tags :: "tag \<Rightarrow> ns_entry list \<Rightarrow> tag" where
  "set_tags t es =
     t\<lparr>tg_body := (case tg_body t of
        Type_body ty \<Rightarrow> Type_body (ty\<lparr>ty_tags := es\<rparr>) | Class_body c \<Rightarrow> Class_body (c\<lparr>ty_tags := es\<rparr>) | b \<Rightarrow> b)\<rparr>"

definition type__sort_by_offset :: "nat \<Rightarrow> cu \<Rightarrow> fault + cu" where
  "type__sort_by_offset i cu =
     bindE (cu_type cu i) (\<lambda>type.
       case type of
         None \<Rightarrow> Inr cu
       | Some t \<Rightarrow>
           if \<not> tag__is_type (tg_tag t) then Inr cu
           else
             bindE (tag__type t) (\<lambda>ty.
             bindE (sort_restart (Suc (length (ty_tags ty) * length (ty_tags ty))) (ty_tags ty)) (\<lambda>es.
               Inr (cu_set_type cu i (set_tags t es)))))"

section \<open>A unit\<close>

definition cache_entry :: "nat \<Rightarrow> bool \<Rightarrow> bool \<Rightarrow> cu \<Rightarrow> ns_entry \<Rightarrow> ns_entry list \<Rightarrow> fault + ns_entry list" where
  "cache_entry n little_endian fixup cu e es =
     (case e of
        Member m \<Rightarrow> bindE (class_member__cache_byte_size n little_endian fixup cu m) (\<lambda>m'. Inr (es @ [Member m']))
      | _ \<Rightarrow> Inr (es @ [e]))"

definition cache_sizes :: "nat \<Rightarrow> bool \<Rightarrow> bool \<Rightarrow> nat \<Rightarrow> cu \<Rightarrow> fault + cu" where
  "cache_sizes n little_endian fixup i cu =
     bindE (cu_type cu i) (\<lambda>type.
       case type of
         None \<Rightarrow> Inr cu
       | Some t \<Rightarrow>
           if \<not> tag__has_namespace (tg_tag t) then Inr cu
           else
             bindE (tag__type t) (\<lambda>ty.
             bindE (fold_e (cache_entry n little_endian fixup cu) (ty_tags ty) []) (\<lambda>es.
               Inr (cu_set_type cu i (set_tags t es)))))"

definition DW_LANG_Rust :: nat where "DW_LANG_Rust = 0x1c"

definition cu__language_reorders_offsets :: "cu \<Rightarrow> bool" where
  "cu__language_reorders_offsets cu \<longleftrightarrow> cu_language cu = DW_LANG_Rust"

definition cu__sort_types_by_offset :: "cu \<Rightarrow> fault + cu" where
  "cu__sort_types_by_offset cu = fold_e type__sort_by_offset (map fst (cu__for_each_type cu)) cu"

text \<open>The members are those of the types in the table, wherever the walk through the tags of the unit meets them.\<close>

definition cu__finalize :: "nat \<Rightarrow> bool \<Rightarrow> bool \<Rightarrow> cu \<Rightarrow> fault + cu" where
  "cu__finalize n little_endian fixup cu =
     bindE (fold_e (cache_sizes n little_endian fixup) (map fst (cu__for_each_type cu)) cu) (\<lambda>cu1.
       if cu__language_reorders_offsets cu1 then cu__sort_types_by_offset cu1 else Inr cu1)"

end
