(* ===== verification/DwarfMembersSpec.thy ===== *)
theory DwarfMembersSpec
  imports DwarfMembers Holes
begin

text \<open>
  Where \<open>cu__finalize\<close> puts bitfields and in which order it leaves the members of a type.
\<close>

section \<open>Bitfields\<close>

lemma s8_range_id: "- 128 \<le> x \<Longrightarrow> x < 128 \<Longrightarrow> s8 x = x"
  by (simp add: s8_def)

text \<open>A bitfield whose storage unit is at a multiple of its size, with its first bit in the unit.\<close>

lemma align_on_type_place:
  assumes "0 < s" "s \<le> 8" "cm_byte_size m = s" "cm_bit_size m = 8 * s" "cm_byte_offset m = s * k"
    "cm_bitfield_offset m = int f" "f < 8 * s" "cm_bit_offset m = 8 * (s * k) + f"
  shows "align_on_type m = Inr m"
proof -
  have "cm_bit_offset m = f + k * (8 * s)" using assms(8) by simp
  then have "cm_bit_offset m div (8 * s) = k" using assms(7) by simp
  then have "cm_bit_offset m div cm_bit_size m * cm_bit_size m = 8 * (s * k)" using assms(4) by simp
  then have b: "cm_bit_offset m div cm_bit_size m * cm_bit_size m div 8 = s * k" by simp
  have "int f < 128" using assms(2,7) by simp
  then have f: "s8 (cm_bitfield_offset m + int (cm_byte_offset m mod cm_byte_size m * 8)) = int f"
    using assms(3,5,6) by (simp add: s8_range_id)
  have "m\<lparr>cm_bitfield_offset := int f, cm_byte_offset := s * k\<rparr> = m" using assms(5,6) by simp
  moreover have "\<not> u32 (int f) \<ge> int (cm_bit_size m)" using assms(2,4,7) by simp
  moreover have "cm_bit_size m \<noteq> 0" using assms(1,4) by simp
  ultimately show ?thesis unfolding align_on_type_def b f Let_def by simp
qed

lemma swap_updates:
  "m\<lparr>cm_bitfield_offset := f, cm_byte_offset := b\<rparr> = m\<lparr>cm_byte_offset := b, cm_bitfield_offset := f\<rparr>"
  "m\<lparr>cm_bitfield_offset := f, cm_bit_offset := p\<rparr> = m\<lparr>cm_bit_offset := p, cm_bitfield_offset := f\<rparr>"
  "m\<lparr>cm_bit_offset := p, cm_byte_offset := cm_byte_offset m, cm_bitfield_offset := f\<rparr> = m\<lparr>cm_bit_offset := p, cm_bitfield_offset := f\<rparr>"
  for m :: class_member
  by simp_all

lemma bit_place_new:
  assumes "cm_has_bit_offset m" "cm_bit_offset m = p"
  shows "bit_place le m = m\<lparr>cm_byte_offset := p div 8, cm_bitfield_offset := int (p mod 8)\<rparr>"
proof -
  have "int p - int (p div 8) * 8 = int (p mod 8)" by (simp add: zmod_int zdiv_int minus_div_mult_eq_mod)
  moreover have "s8 (int (p mod 8)) = int (p mod 8)" by (rule s8_range_id) (simp_all add: less_trans [OF mod_less_divisor])
  ultimately show ?thesis using assms by (simp add: bit_place_def Let_def)
qed

lemma place_new:
  assumes "cm_has_bit_offset m" "cm_bit_offset m = p" "0 < s" "s \<le> 8" "cm_byte_size m = s" "cm_bit_size m = 8 * s"
  shows "place_dwarf_bitfield le fixup m =
    Inr (unsilly fixup (m\<lparr>cm_byte_offset := p div (8 * s) * s, cm_bitfield_offset := int (p mod (8 * s))\<rparr>))"
proof -
  let ?m = "m\<lparr>cm_byte_offset := p div 8, cm_bitfield_offset := int (p mod 8)\<rparr>"
  have n: "non_negative (bit_place le m) = ?m" using assms(1,2) by (simp add: bit_place_new non_negative_def)
  have pm: "p mod (8 * s) = p div 8 mod s * 8 + p mod 8" by (simp add: mod_mult2_eq)
  have lt: "p mod (8 * s) < 8 * s" using assms(3) by simp
  have "int (p mod (8 * s)) < 128" using lt assms(4) by linarith
  then have f: "s8 (int (p mod 8) + int (p div 8 mod s) * 8) = int (p mod (8 * s))"
    unfolding pm by (simp add: s8_range_id)
  have b: "p div (8 * s) * (8 * s) div 8 = p div (8 * s) * s"
    by (metis mult.left_commute nonzero_mult_div_cancel_left zero_neq_numeral)
  have "\<not> u32 (int (p mod (8 * s))) \<ge> int (8 * s)" using lt assms(4) by (simp flip: of_nat_mod)
  then have "align_on_type ?m = Inr (?m\<lparr>cm_bitfield_offset := int (p mod (8 * s)), cm_byte_offset := p div (8 * s) * s\<rparr>)"
    using assms by (simp add: align_on_type_def f b Let_def)
  then show ?thesis by (simp add: place_dwarf_bitfield_def n swap_updates(1))
qed

lemma place_old:
  assumes "\<not> cm_has_bit_offset m" "0 < s" "s \<le> 8" "cm_byte_size m = s" "cm_bit_size m = 8 * s" "cm_byte_offset m = s * k"
    "cm_bitfield_offset m = int a" "0 < cm_bitfield_size m" "a + cm_bitfield_size m \<le> 16 * s"
    "int p = 8 * int (s * k) + 8 * int s - int a - int (cm_bitfield_size m)" "p < 4294967296" "s * k < 4294967296"
  shows "place_dwarf_bitfield True fixup m =
    Inr (unsilly fixup (m\<lparr>cm_bit_offset := p, cm_byte_offset := p div (8 * s) * s, cm_bitfield_offset := int (p mod (8 * s))\<rparr>))"
proof -
  define f where "f = 8 * int s - int a - int (cm_bitfield_size m)"
  have f: "- (8 * int s) \<le> f" "f < 8 * int s" using assms(8,9) unfolding f_def by linarith+
  have f8: "s8 f = f" using f assms(3) by (intro s8_range_id) linarith+
  have p: "int p = 8 * int (s * k) + f" using assms(10) by (simp add: f_def)
  have b: "bit_place True m = m\<lparr>cm_bitfield_offset := f, cm_bit_offset := p\<rparr>"
  proof -
    have "int (s * k) * 8 + f = int p" using p by simp
    then have "nat (u32 (int (s * k) * 8 + f)) = p" using assms(11) by simp
    moreover have "int (cm_bit_size m) - cm_bitfield_offset m - int (cm_bitfield_size m) = f" using assms(5,7) by (simp add: f_def)
    ultimately show ?thesis using assms(1,6) unfolding bit_place_def Let_def by (simp only: f8) simp
  qed
  show ?thesis
  proof (cases "f < 0")
    case False
    then obtain g where "f = int g" by (metis not_less nonneg_int_cases)
    with f(2) have g: "f = int g" "g < 8 * s" by simp_all
    have pg: "p = 8 * (s * k) + g" using p g(1) by linarith
    let ?m = "m\<lparr>cm_bitfield_offset := f, cm_bit_offset := p\<rparr>"
    have "align_on_type ?m = Inr ?m" using assms(2-6) g pg by (intro align_on_type_place [of s _ k g]) simp_all
    moreover have "p = g + k * (8 * s)" using pg by simp
    then have "p div (8 * s) = k" "p mod (8 * s) = g" using g(2) by simp_all
    moreover have "k * s = cm_byte_offset m" using assms(6) by simp
    ultimately show ?thesis using False g(1)
      by (simp add: place_dwarf_bitfield_def b non_negative_def swap_updates(2))
  next
    case True
    have "0 < k" using p True by (cases k) simp_all
    then obtain j where j: "k = Suc j" by (cases k) auto
    have "0 \<le> f + 8 * int s" using f(1) by simp
    then obtain g where "f + 8 * int s = int g" by (metis nonneg_int_cases)
    with True have g: "f + 8 * int s = int g" "g < 8 * s" by linarith+
    let ?m = "m\<lparr>cm_bit_offset := p, cm_byte_offset := s * j, cm_bitfield_offset := int g\<rparr>"
    have "int p = 8 * int (s * j) + (f + 8 * int s)" unfolding p j by (simp add: algebra_simps)
    then have pg: "p = 8 * (s * j) + g" unfolding g(1) by linarith
    have "s8 (f + int (8 * s)) = int g" using g assms(3) by (simp add: s8_range_id)
    moreover have "nat (u32 (int (s * k) - int s)) = s * j" using j assms(12) by (simp add: algebra_simps nat_mult_distrib flip: of_nat_mult of_nat_add)
    moreover have "nat (u32 (int (s * j) * 8 + int g)) = p" using pg assms(11) by (simp flip: of_nat_mult of_nat_add of_nat_mod add: mult.commute)
    ultimately have n: "non_negative (bit_place True m) = ?m"
      using True assms(4-6) by (simp add: b non_negative_def Let_def)
    have "align_on_type ?m = Inr ?m" using assms(2-6) g pg by (intro align_on_type_place [of s _ j g]) simp_all
    moreover have "p = g + j * (8 * s)" using pg by simp
    then have "p div (8 * s) = j" "p mod (8 * s) = g" using g(2) by simp_all
    ultimately show ?thesis by (simp add: place_dwarf_bitfield_def n mult.commute)
  qed
qed

text \<open>C36: The two ways in which DWARF describes a bitfield come to the same: by the offset of its first bit in the structure
  (\<open>DW_AT_data_bit_offset\<close>), or, on a little-endian machine, by a storage unit of 1 to 8 bytes at a multiple of its size and
  the distance from the highest bit of the unit to the highest bit of the field (which is negative for a field that
  starts in the unit before).  Both give the same byte offset, a multiple of the size of the unit, the same offset
  within the unit, less than its size in bits, and together they are the place of the first bit.\<close>

theorem dwarf_bitfield_forms_agree:
  assumes "0 < s" and "s \<le> 8" and "cm_byte_size m = s" and "cm_bit_size m = 8 * s" and "0 < cm_bitfield_size m"
    and "\<not> cm_has_bit_offset m" and "cm_byte_offset m = s * k" and "cm_bitfield_offset m = int a"
    and "a + cm_bitfield_size m \<le> 16 * s" and "cm_byte_offset m < 4294967296"
    and "int p = 8 * int (cm_byte_offset m) + 8 * int s - int a - int (cm_bitfield_size m)" and "p < 4294967296"
  shows "\<exists>b f. place_dwarf_bitfield True fixup m =
      Inr (unsilly fixup (m\<lparr>cm_bit_offset := p, cm_byte_offset := b, cm_bitfield_offset := int f\<rparr>)) \<and>
    place_dwarf_bitfield True fixup (m\<lparr>cm_has_bit_offset := True, cm_bit_offset := p\<rparr>) =
      Inr (unsilly fixup (m\<lparr>cm_has_bit_offset := True, cm_bit_offset := p, cm_byte_offset := b, cm_bitfield_offset := int f\<rparr>)) \<and>
    s dvd b \<and> f < 8 * s \<and> 8 * b + f = p"
proof -
  have old: "place_dwarf_bitfield True fixup m =
      Inr (unsilly fixup (m\<lparr>cm_bit_offset := p, cm_byte_offset := p div (8 * s) * s, cm_bitfield_offset := int (p mod (8 * s))\<rparr>))"
    using assms by (intro place_old [of m s k a]) (simp_all only: of_nat_mult [symmetric], simp_all)
  have new: "place_dwarf_bitfield True fixup (m\<lparr>cm_has_bit_offset := True, cm_bit_offset := p\<rparr>) =
      Inr (unsilly fixup (m\<lparr>cm_has_bit_offset := True, cm_bit_offset := p, cm_byte_offset := p div (8 * s) * s,
                            cm_bitfield_offset := int (p mod (8 * s))\<rparr>))"
    using assms by (subst place_new [of _ p s]) simp_all
  have "8 * (p div (8 * s) * s) + p mod (8 * s) = p" using mult_div_mod_eq [of "8 * s" p] by (metis mult.assoc mult.commute)
  moreover have "p mod (8 * s) < 8 * s" "s dvd p div (8 * s) * s" using assms(1) by simp_all
  ultimately show ?thesis using old new by blast
qed

text \<open>A field of 3 bits behind one of 5 in an \<open>int\<close>.\<close>

theorem dwarf_bitfield_forms_agree_witness:
  "let m = (sample_member ''b'' 4 4 1)\<lparr>cm_bit_size := 32, cm_bitfield_size := 3, cm_bitfield_offset := 24\<rparr>
   in place_dwarf_bitfield True True m = Inr (m\<lparr>cm_bit_offset := 37, cm_byte_offset := 4, cm_bitfield_offset := 5\<rparr>)"
proof -
  let ?m = "(sample_member ''b'' 4 4 1)\<lparr>cm_bit_size := 32, cm_bitfield_size := 3, cm_bitfield_offset := 24\<rparr>"
  have "\<exists>b f. place_dwarf_bitfield True True ?m =
      Inr (unsilly True (?m\<lparr>cm_bit_offset := 37, cm_byte_offset := b, cm_bitfield_offset := int f\<rparr>)) \<and>
    place_dwarf_bitfield True True (?m\<lparr>cm_has_bit_offset := True, cm_bit_offset := 37\<rparr>) =
      Inr (unsilly True (?m\<lparr>cm_has_bit_offset := True, cm_bit_offset := 37, cm_byte_offset := b, cm_bitfield_offset := int f\<rparr>)) \<and>
    4 dvd b \<and> f < 8 * 4 \<and> 8 * b + f = 37"
    by (rule dwarf_bitfield_forms_agree [of 4 ?m 1 24 37 True]) (simp_all add: sample_member_def)
  then obtain b f where p: "place_dwarf_bitfield True True ?m =
      Inr (unsilly True (?m\<lparr>cm_bit_offset := 37, cm_byte_offset := b, cm_bitfield_offset := int f\<rparr>))"
    "4 dvd b" "f < 32" "8 * b + f = 37" by auto
  then have "b = 4" "f = 5" by presburger+
  with p(1) show ?thesis by (simp add: Let_def unsilly_def sample_member_def)
qed

text \<open>
  In a packed structure a unit need not be at a multiple of its size.  A field of two bits at the top of an \<open>int\<close> at offset 1
  has its first bit at 38; the last correction is made although the byte offset has been computed from the bit offset.
\<close>

lemma unaligned_unit_misplaced:
  "map_sum id (\<lambda>m. (cm_bit_offset m, cm_byte_offset m, cm_bitfield_offset m))
     (place_dwarf_bitfield True False ((sample_member ''b'' 1 4 1)\<lparr>cm_bit_size := 32, cm_bitfield_size := 2, cm_bitfield_offset := 0\<rparr>))
   = Inr (38, 8, 6)"
  by (simp add: place_dwarf_bitfield_def bit_place_def non_negative_def align_on_type_def unsilly_def sample_member_def s8_def Let_def)

section \<open>Sorting\<close>

definition entry_offset :: "ns_entry \<Rightarrow> nat" where
  "entry_offset e = (case e of Member m \<Rightarrow> cm_byte_offset m | _ \<Rightarrow> 0)"

definition data_entry :: "ns_entry \<Rightarrow> bool" where
  "data_entry e \<longleftrightarrow> (\<exists>m. e = Member m \<and> cm_tag m = DW_TAG_member)"

lemma sort_step_result:
  "\<forall>e\<in>set es. data_entry e \<Longrightarrow>
    (sort_step es = Inr None \<and> sorted (map entry_offset es)) \<or>
    (\<exists>xs a b ys. es = xs @ a # b # ys \<and> entry_offset b < entry_offset a \<and> sort_step es = Inr (Some (xs @ b # a # ys)))"
proof (induction es rule: sort_step.induct)
  case (1 e e' es)
  obtain m m' where m: "e = Member m" "cm_tag m = DW_TAG_member" "e' = Member m'" "cm_tag m' = DW_TAG_member"
    using "1.prems" by (auto simp: data_entry_def)
  show ?case
  proof (cases "cm_byte_offset m \<le> cm_byte_offset m'")
    case False
    then have "sort_step (e # e' # es) = Inr (Some (e' # e # es))" "entry_offset e' < entry_offset e"
      using m by (simp_all add: entry_offset_def)
    then show ?thesis by (metis append_Nil)
  next
    case True
    then have step: "sort_step (e # e' # es) = map_sum id (map_option (Cons e)) (sort_step (e' # es))"
        "entry_offset e \<le> entry_offset e'" using m by (simp_all add: entry_offset_def)
    have "(sort_step (e' # es) = Inr None \<and> sorted (map entry_offset (e' # es))) \<or>
      (\<exists>xs a b ys. e' # es = xs @ a # b # ys \<and> entry_offset b < entry_offset a \<and> sort_step (e' # es) = Inr (Some (xs @ b # a # ys)))"
      using "1.IH"(1) [OF m(1,2,3) True] "1.prems" by simp
    then show ?thesis
    proof (elim disjE exE conjE)
      fix xs a b ys
      assume "e' # es = xs @ a # b # ys" "entry_offset b < entry_offset a" "sort_step (e' # es) = Inr (Some (xs @ b # a # ys))"
      then show ?thesis using step(1) by (intro disjI2 exI [of _ "e # xs"] exI [of _ a] exI [of _ b] exI [of _ ys]) simp
    qed (use step in \<open>auto intro: order_trans\<close>)
  qed
qed simp_all

text \<open>Pairs in the wrong order.\<close>

fun inversions :: "ns_entry list \<Rightarrow> nat" where
  "inversions [] = 0"
| "inversions (e # es) = length (filter (\<lambda>e'. entry_offset e' < entry_offset e) es) + inversions es"

lemma inversions_exchange: "entry_offset b < entry_offset a \<Longrightarrow> inversions (xs @ b # a # ys) < inversions (xs @ a # b # ys)"
  by (induction xs) auto

lemma inversions_bound: "inversions es \<le> length es * length es"
proof (induction es)
  case (Cons e es)
  have "length (filter (\<lambda>e'. entry_offset e' < entry_offset e) es) \<le> length es" by simp
  from add_mono [OF this Cons] have "inversions (e # es) \<le> length es + length es * length es" by simp
  then show ?case by simp
qed simp

lemma sort_restart_result:
  "\<forall>e\<in>set es. data_entry e \<Longrightarrow> inversions es < n \<Longrightarrow> sort_restart n es = Inr (sort_key entry_offset es)"
proof (induction n arbitrary: es)
  case (Suc n)
  from sort_step_result [OF Suc.prems(1)] show ?case
  proof (elim disjE exE conjE)
    assume "sort_step es = Inr None" "sorted (map entry_offset es)"
    then show ?thesis by (simp add: sort_key_id_if_sorted)
  next
    fix xs a b ys
    assume e: "es = xs @ a # b # ys" "entry_offset b < entry_offset a" "sort_step es = Inr (Some (xs @ b # a # ys))"
    let ?es = "xs @ b # a # ys"
    have "inversions ?es < n" using inversions_exchange [OF e(2)] Suc.prems(2) e(1) by (metis less_Suc_eq_le less_le_trans)
    then have "sort_restart n ?es = Inr (sort_key entry_offset ?es)" using Suc.prems(1) e(1) by (intro Suc.IH) auto
    moreover have "sort_key entry_offset es = sort_key entry_offset ?es"
    proof (rule properties_for_sort_key)
      show "mset (sort_key entry_offset ?es) = mset es" by (simp add: e(1) add_mset_commute)
      fix x assume "x \<in> set (sort_key entry_offset ?es)"
      show "filter (\<lambda>y. entry_offset x = entry_offset y) (sort_key entry_offset ?es) = filter (\<lambda>y. entry_offset x = entry_offset y) es"
        using e(1,2) by (auto simp: eq_commute [of "entry_offset x"] sort_key_stable)
    qed simp
    ultimately show ?thesis using e(3) by simp
  qed
qed simp

text \<open>C37: The loop that exchanges neighbours and starts over puts the data members of a Rust structure into the
  order that sorting by byte offset gives, members of the same offset in their old order; it ends after fewer exchanges
  than there are pairs of members.\<close>

theorem sort_by_offset_sorts:
  assumes "\<forall>e\<in>set es. data_entry e"
  shows "sort_restart (Suc (length es * length es)) es = Inr (sort_key entry_offset es)"
  using assms inversions_bound [of es] by (intro sort_restart_result) simp_all

theorem sort_by_offset_sorts_witness:
  "sort_restart 10 [Member (sample_member ''a'' 8 4 1), Member (sample_member ''b'' 0 4 1), Member (sample_member ''c'' 4 4 1)] =
    Inr [Member (sample_member ''b'' 0 4 1), Member (sample_member ''c'' 4 4 1), Member (sample_member ''a'' 8 4 1)]"
proof -
  let ?es = "[Member (sample_member ''a'' 8 4 1), Member (sample_member ''b'' 0 4 1), Member (sample_member ''c'' 4 4 1)]"
  have "\<forall>e\<in>set ?es. data_entry e" by (simp add: data_entry_def sample_member_def)
  from sort_by_offset_sorts [OF this] show ?thesis by (simp add: entry_offset_def sample_member_def numeral_eq_Suc)
qed

text \<open>The entry behind a member is taken for a member even when it is a nested type.\<close>

lemma sort_reads_nested_type:
  "sort_step [Member (sample_member ''a'' 0 4 1), Nested DW_TAG_structure_type 3] = Inl Out_Of_Bounds"
  by (simp add: sample_member_def)

end
