(* ===== verification/DwarfAttr.thy ===== *)
theory DwarfAttr
  imports Tags Bits
begin

text \<open>
  How the DWARF loader (\<open>dwarf_loader.c\<close>) reads the attributes of an entry: numbers, strings, references, the offset of a
  member, which old compilers write as an expression with a number of variable length, and the size and the members of
  the type an entry refers to.  What \<open>libdw\<close> finds in the file is a parameter: the record \<open>libdw\<close> gives for
  an entry its tag, its children, its attributes, and for an attribute what each of the functions \<open>dwarf_form...\<close>
  returns for it (\<open>None\<close>: it fails).
\<close>

unbundle bit_operations_syntax

section \<open>What libdw gives\<close>

datatype dw_form =
    FORM_addr | FORM_implicit_const | FORM_data1 | FORM_data2 | FORM_data4 | FORM_data8 | FORM_sdata | FORM_udata
  | FORM_flag | FORM_flag_present | FORM_GNU_ref_alt | FORM_ref_sig8 | FORM_other nat

type_synonym die = nat

record dw_op =
  op_atom :: nat
  op_number :: "64 word"

record dw_attribute =
  da_form :: dw_form
  da_addr :: "64 word option"
  da_udata :: "64 word option"
  da_sdata :: "64 word option"
  da_flag :: "bool option"
  da_string :: "string option"
  da_block :: "byte list option"
  da_ref_die :: "die option"
  da_locations :: "dw_op list list"

text \<open>\<open>ld_entry_value\<close>: the expression of the value on entry that an operation of a location is about.\<close>

record libdw =
  ld_tag :: "die \<Rightarrow> dw_tag"
  ld_dieoffset :: "die \<Rightarrow> 64 word"
  ld_attr :: "die \<Rightarrow> nat \<Rightarrow> dw_attribute option"
  ld_child :: "die \<Rightarrow> die option"
  ld_siblingof :: "die \<Rightarrow> die option"
  ld_entry_value :: "dw_op \<Rightarrow> dw_op list option"

definition DW_AT_name :: nat where "DW_AT_name = 0x03"
definition DW_AT_byte_size :: nat where "DW_AT_byte_size = 0x0b"
definition DW_AT_location :: nat where "DW_AT_location = 0x02"
definition DW_AT_const_value :: nat where "DW_AT_const_value = 0x1c"
definition DW_AT_abstract_origin :: nat where "DW_AT_abstract_origin = 0x31"
definition DW_AT_calling_convention :: nat where "DW_AT_calling_convention = 0x36"
definition DW_AT_data_member_location :: nat where "DW_AT_data_member_location = 0x38"
definition DW_AT_type :: nat where "DW_AT_type = 0x49"
definition DW_AT_data_bit_offset :: nat where "DW_AT_data_bit_offset = 0x6b"
definition DW_AT_alignment :: nat where "DW_AT_alignment = 0x88"

section \<open>Numbers of variable length\<close>

text \<open>\<open>get_uleb128_step\<close> and the loop of \<open>__libdw_get_uleb128\<close>; what is left of the bytes is returned too.\<close>

definition uleb_step :: "64 word \<Rightarrow> byte \<Rightarrow> nat \<Rightarrow> 64 word" where
  "uleb_step var b k = var OR push_bit (k * 7) (ucast (b AND 0x7f))"

function get_uleb128_rest :: "64 word \<Rightarrow> nat \<Rightarrow> byte list \<Rightarrow> fault + 64 word \<times> byte list" where
  "get_uleb128_rest acc i addr =
     (if i < 10 then
        (case addr of
           [] \<Rightarrow> Inl Out_Of_Bounds
         | b # rest \<Rightarrow>
             let acc1 = uleb_step acc b i
             in if b AND 0x80 = 0 then Inr (acc1, rest) else get_uleb128_rest acc1 (i + 1) rest)
      else Inr (- 1, addr))"
  by pat_completeness auto
termination
  by (relation "measure (\<lambda>(acc, i, addr). 10 - i)") auto

declare get_uleb128_rest.simps [simp del]

definition get_uleb128 :: "byte list \<Rightarrow> fault + 64 word \<times> byte list" where
  "get_uleb128 addr =
     (case addr of
        [] \<Rightarrow> Inl Out_Of_Bounds
      | b # rest \<Rightarrow>
          let var = uleb_step 0 b 0
          in if b AND 0x80 = 0 then Inr (var, rest) else get_uleb128_rest var 1 rest)"

text \<open>The length of the block is not looked at; \<open>UINT64_MAX\<close> for an operation that is not known.\<close>

definition dwarf_expr :: "byte list \<Rightarrow> fault + 64 word" where
  "dwarf_expr expr =
     (case expr of
        [] \<Rightarrow> Inl Out_Of_Bounds
      | b # rest \<Rightarrow>
          if b = 0x23 \<or> b = 0x10 then map_sum id fst (get_uleb128 rest) else Inr (- 1))"

section \<open>Attributes\<close>

definition is_data_form :: "dw_form \<Rightarrow> bool" where
  "is_data_form f \<longleftrightarrow>
     f \<in> {FORM_implicit_const, FORM_data1, FORM_data2, FORM_data4, FORM_data8, FORM_sdata, FORM_udata}"

definition attr_numeric :: "libdw \<Rightarrow> die \<Rightarrow> nat \<Rightarrow> 64 word" where
  "attr_numeric d die name =
     (case ld_attr d die name of
        None \<Rightarrow> 0
      | Some a \<Rightarrow>
          if da_form a = FORM_addr then (case da_addr a of Some addr \<Rightarrow> addr | None \<Rightarrow> 0)
          else if is_data_form (da_form a) then (case da_udata a of Some v \<Rightarrow> v | None \<Rightarrow> 0)
          else if da_form a \<in> {FORM_flag, FORM_flag_present} then
            (case da_flag a of Some v \<Rightarrow> if v then 1 else 0 | None \<Rightarrow> 0)
          else 0)"

definition attr_alignment :: "libdw \<Rightarrow> bool \<Rightarrow> die \<Rightarrow> 64 word" where
  "attr_alignment d ignore_alignment_attr die =
     (if ignore_alignment_attr then 0 else attr_numeric d die DW_AT_alignment)"

definition attr_offset_of :: "dw_attribute \<Rightarrow> fault + 64 word" where
  "attr_offset_of a =
     (if is_data_form (da_form a) then Inr (case da_udata a of Some v \<Rightarrow> v | None \<Rightarrow> 0)
      else case da_block a of Some bs \<Rightarrow> dwarf_expr bs | None \<Rightarrow> Inr 0)"

definition attr_offset :: "libdw \<Rightarrow> die \<Rightarrow> nat \<Rightarrow> fault + 64 word" where
  "attr_offset d die name = (case ld_attr d die name of None \<Rightarrow> Inr 0 | Some a \<Rightarrow> attr_offset_of a)"

text \<open>A name that begins with the prefix of the options (\<open>kabi_prefix\<close>) is replaced by the prefix.\<close>

definition attr_string :: "libdw \<Rightarrow> string option \<Rightarrow> die \<Rightarrow> nat \<Rightarrow> string option" where
  "attr_string d kabi_prefix die name =
     (case ld_attr d die name of
        None \<Rightarrow> None
      | Some a \<Rightarrow>
          (case (da_string a, kabi_prefix) of
             (Some s, Some p) \<Rightarrow> if take (length p) s = p then Some p else Some s
           | (s, _) \<Rightarrow> s))"

text \<open>The offset, whether it is one of \<open>.debug_types\<close>, whether it is one of the alternate file.\<close>

definition attr_type :: "libdw \<Rightarrow> die \<Rightarrow> nat \<Rightarrow> 64 word \<times> bool \<times> bool" where
  "attr_type d die name =
     (case ld_attr d die name of
        None \<Rightarrow> (0, False, False)
      | Some a \<Rightarrow>
          (case da_ref_die a of
             None \<Rightarrow> (0, False, False)
           | Some t \<Rightarrow>
               if da_form a = FORM_GNU_ref_alt then (ld_dieoffset d t, False, True)
               else (ld_dieoffset d t, da_form a = FORM_ref_sig8, False)))"

section \<open>The type of an entry\<close>

fun type_byte_size :: "nat \<Rightarrow> libdw \<Rightarrow> nat \<Rightarrow> die \<Rightarrow> fault + int" where
  "type_byte_size 0 d addr_size die = Inl Out_Of_Fuel"
| "type_byte_size (Suc n) d addr_size die =
     (case ld_attr d die DW_AT_type of
        None \<Rightarrow> Inr 0
      | Some a \<Rightarrow>
          (case da_ref_die a of
             None \<Rightarrow> Inr 0
           | Some t \<Rightarrow>
               if ld_tag d t = DW_TAG_pointer_type then Inr (int addr_size)
               else
                 let bsize = attr_numeric d t DW_AT_byte_size
                 in if bsize = 0 then type_byte_size n d addr_size t else Inr (s32 (uint bsize))))"

definition get_type_byte_size :: "nat \<Rightarrow> libdw \<Rightarrow> nat \<Rightarrow> die \<Rightarrow> fault + int" where
  "get_type_byte_size n d addr_size die =
     (case ld_attr d die DW_AT_abstract_origin of
        Some a \<Rightarrow> (case da_ref_die a of Some origin \<Rightarrow> type_byte_size n d addr_size origin | None \<Rightarrow> Inr 0)
      | None \<Rightarrow> type_byte_size n d addr_size die)"

text \<open>The place of a member in bits; \<open>None\<close> is \<open>continue\<close>.\<close>

definition member_bit_offset :: "libdw \<Rightarrow> die \<Rightarrow> fault + 64 word option" where
  "member_bit_offset d member =
     (case ld_attr d member DW_AT_data_bit_offset of
        Some a \<Rightarrow> map_sum id Some (attr_offset_of a)
      | None \<Rightarrow>
          (case ld_attr d member DW_AT_data_member_location of
             Some a \<Rightarrow> map_sum id (\<lambda>v. Some (v * 8)) (attr_offset_of a)
           | None \<Rightarrow> Inr None))"

fun find_member :: "nat \<Rightarrow> libdw \<Rightarrow> die \<Rightarrow> int \<Rightarrow> fault + die option" where
  "find_member 0 d member offset = Inl Out_Of_Fuel"
| "find_member (Suc n) d member offset =
     bindE (if ld_tag d member \<noteq> DW_TAG_member then Inr None else member_bit_offset d member) (\<lambda>bit_offset.
       if bit_offset = Some (word_of_int (s32 (offset * 8))) then Inr (Some member)
       else case ld_siblingof d member of None \<Rightarrow> Inr None | Some next_die \<Rightarrow> find_member n d next_die offset)"

fun get_member_with_offset :: "nat \<Rightarrow> libdw \<Rightarrow> die \<Rightarrow> int \<Rightarrow> fault + die option" where
  "get_member_with_offset 0 d die offset = Inl Out_Of_Fuel"
| "get_member_with_offset (Suc n) d die offset =
     (case ld_attr d die DW_AT_type of
        None \<Rightarrow> Inr None
      | Some a \<Rightarrow>
          (case da_ref_die a of
             None \<Rightarrow> Inr None
           | Some t \<Rightarrow>
               if attr_numeric d t DW_AT_byte_size = 0 then get_member_with_offset n d t offset
               else if ld_tag d t \<noteq> DW_TAG_structure_type then Inr None
               else case ld_child d t of None \<Rightarrow> Inr None | Some c \<Rightarrow> find_member n d c offset))"

text \<open>Clang marks a function whose signature it changed by its calling convention (\<open>DW_CC_nocall\<close>).\<close>

definition function__signature_changed :: "libdw \<Rightarrow> nat \<Rightarrow> bool \<Rightarrow> die \<Rightarrow> bool" where
  "function__signature_changed d inlined abstract_origin die =
     (if inlined \<noteq> 0 then False
      else if \<not> abstract_origin then attr_numeric d die DW_AT_calling_convention = 3
      else
        case ld_attr d die DW_AT_abstract_origin of
          None \<Rightarrow> False
        | Some a \<Rightarrow>
            (case da_ref_die a of
               None \<Rightarrow> False
             | Some origin \<Rightarrow> attr_numeric d origin DW_AT_calling_convention = 3))"

section \<open>Registers that hold arguments\<close>

datatype machine =
    EM_S390 | EM_SPARC | EM_SPARCV9 | EM_X86_64 | EM_AARCH64 | EM_ARC | EM_ARM | EM_MIPS | EM_PPC | EM_PPC64 | EM_RISCV
  | EM_other nat

definition DW_OP_reg0 :: nat where "DW_OP_reg0 = 0x50"

definition arch__nr_register_params :: "machine \<Rightarrow> nat" where
  "arch__nr_register_params m =
     (case m of
        EM_S390 \<Rightarrow> 5 | EM_SPARC \<Rightarrow> 6 | EM_SPARCV9 \<Rightarrow> 6 | EM_X86_64 \<Rightarrow> 6
      | EM_AARCH64 \<Rightarrow> 8 | EM_ARC \<Rightarrow> 8 | EM_ARM \<Rightarrow> 8 | EM_MIPS \<Rightarrow> 8 | EM_PPC \<Rightarrow> 8 | EM_PPC64 \<Rightarrow> 8 | EM_RISCV \<Rightarrow> 8
      | EM_other _ \<Rightarrow> 0)"

text \<open>\<open>ARCH_MAX_REGISTER_PARAMS\<close> is 8; the entries that are not set are -1.\<close>

definition arch__set_register_params :: "machine \<Rightarrow> int list" where
  "arch__set_register_params m =
     (let regs = (case m of
                    EM_S390 \<Rightarrow> [2, 3, 4, 5, 6]
                  | EM_X86_64 \<Rightarrow> [5, 4, 1, 2, 8, 9]
                  | EM_ARM \<Rightarrow> [0, 1, 2, 3, 4, 5, 6, 7]
                  | EM_AARCH64 \<Rightarrow> [0, 1, 2, 3, 4, 5, 6, 7]
                  | _ \<Rightarrow> [])
      in map (\<lambda>r. int DW_OP_reg0 + r) regs @ replicate (8 - length regs) (- 1))"

definition arch__agg_use_two_regs :: "machine \<Rightarrow> bool" where
  "arch__agg_use_two_regs m \<longleftrightarrow> m \<noteq> EM_S390"

definition arch__arg_align_two_regs :: "machine \<Rightarrow> bool" where
  "arch__arg_align_two_regs m \<longleftrightarrow> m = EM_AARCH64"

definition arch__param_loc_supported :: "machine \<Rightarrow> bool" where
  "arch__param_loc_supported m \<longleftrightarrow> m = EM_X86_64 \<or> m = EM_AARCH64"

section \<open>Numbers of variable length, read back\<close>

text \<open>How DWARF writes a number: seven bits at a time, the lowest first, with a bit that says that more follow.\<close>

fun uleb_bytes :: "nat \<Rightarrow> byte list" where
  "uleb_bytes n = (if n < 128 then [of_nat n] else (of_nat (n mod 128) OR 0x80) # uleb_bytes (n div 128))"

declare uleb_bytes.simps [simp del]

lemma bit_128: "bit (0x80 :: byte) k \<longleftrightarrow> k = 7"
proof -
  have "bit (2 ^ 7 :: byte) k \<longleftrightarrow> k = 7" by (simp only: bit_exp_iff) auto
  then show ?thesis by simp
qed

lemma low_bits:
  fixes x :: byte
  assumes "\<And>k. bit x k \<Longrightarrow> k < 7"
  shows "x AND 0x80 = 0" "(x OR 0x80) AND 0x7f = x AND 0x7f" "(x OR 0x80) AND 0x80 = 0x80"
proof -
  have m: "(0x7f :: byte) = mask 7" by (simp add: mask_eq_exp_minus_1)
  have n: "\<not> bit x 7" using assms [of 7] by auto
  show "x AND 0x80 = 0" by (rule bit_eqI) (use n in \<open>auto simp only: bit_and_iff bit_128 bit_0_eq bot_apply bot_bool_def\<close>)
  show "(x OR 0x80) AND 0x7f = x AND 0x7f"
    unfolding m by (rule bit_eqI) (auto simp only: bit_and_iff bit_or_iff bit_128 bit_mask_iff)
  show "(x OR 0x80) AND 0x80 = 0x80" by (rule bit_eqI) (auto simp only: bit_and_iff bit_or_iff bit_128)
qed

lemma low_byte:
  assumes "n < 128"
  shows "(of_nat n :: byte) AND 0x7f = of_nat n" "(of_nat n :: byte) AND 0x80 = 0"
    "((of_nat n :: byte) OR 0x80) AND 0x7f = of_nat n" "((of_nat n :: byte) OR 0x80) AND 0x80 = 0x80"
proof -
  have m: "(0x7f :: byte) = mask 7" by (simp add: mask_eq_exp_minus_1)
  have lt: "take_bit 7 (of_nat n :: byte) = of_nat n"
    using assms by (simp add: take_bit_of_nat take_bit_nat_eq_self)
  then have b: "bit (of_nat n :: byte) k \<Longrightarrow> k < 7" for k
    by (metis bit_take_bit_iff)
  show l: "(of_nat n :: byte) AND 0x7f = of_nat n" unfolding m by (simp add: take_bit_eq_mask [symmetric] lt)
  show "(of_nat n :: byte) AND 0x80 = 0" by (rule low_bits(1)) (rule b)
  show "((of_nat n :: byte) OR 0x80) AND 0x7f = of_nat n" using low_bits(2) [OF b] l by simp
  show "((of_nat n :: byte) OR 0x80) AND 0x80 = 0x80" by (rule low_bits(3)) (rule b)
qed

lemma byte_step:
  assumes "n < 128"
  shows "uleb_step acc (of_nat n) i = acc OR push_bit (i * 7) (of_nat n)"
    "uleb_step acc (of_nat n OR 0x80) i = acc OR push_bit (i * 7) (of_nat n)"
proof -
  have "ucast (of_nat n :: byte) = (of_nat n :: 64 word)"
    using assms by (simp add: unsigned_of_nat take_bit_nat_eq_self)
  then show "uleb_step acc (of_nat n) i = acc OR push_bit (i * 7) (of_nat n)"
    "uleb_step acc (of_nat n OR 0x80) i = acc OR push_bit (i * 7) (of_nat n)"
    by (simp_all only: uleb_step_def low_byte [OF assms])
qed

lemma split_seven:
  "push_bit (i * 7) (of_nat (n mod 128)) OR push_bit (Suc i * 7) (of_nat (n div 128)) = (push_bit (i * 7) (of_nat n) :: 64 word)"
proof -
  have "n mod 128 OR push_bit 7 (n div 128) = take_bit 7 n OR push_bit 7 (drop_bit 7 n)"
    by (simp add: take_bit_eq_mod drop_bit_eq_div)
  also have "\<dots> = n"
  proof (rule bit_eqI)
    fix k
    show "bit (take_bit 7 n OR push_bit 7 (drop_bit 7 n)) k = bit n k"
      by (cases "k < 7") (auto simp: bit_simps)
  qed
  finally have "(of_nat (n mod 128) OR push_bit 7 (of_nat (n div 128)) :: 64 word) = of_nat n"
    by (simp only: push_bit_of_nat of_nat_or_eq [symmetric])
  then have "push_bit (i * 7) (of_nat (n mod 128) OR push_bit 7 (of_nat (n div 128)) :: 64 word) = push_bit (i * 7) (of_nat n)"
    by simp
  then show ?thesis by (simp add: push_bit_or push_bit_push_bit add.commute)
qed

lemma rest_step: "i < 10 \<Longrightarrow> get_uleb128_rest acc i (b # rest) =
    (if b AND 0x80 = 0 then Inr (uleb_step acc b i, rest) else get_uleb128_rest (uleb_step acc b i) (i + 1) rest)"
  by (subst get_uleb128_rest.simps) (simp add: Let_def)

lemma uleb_rest_bytes:
  assumes "i < 10" "n * 2 ^ (i * 7) < 2 ^ 64"
  shows "get_uleb128_rest acc i (uleb_bytes n @ rest) = Inr (acc OR push_bit (i * 7) (of_nat n), rest)"
  using assms
proof (induction n arbitrary: i acc rule: uleb_bytes.induct)
  case (1 n)
  show ?case
  proof (cases "n < 128")
    case True
    then have "uleb_bytes n @ rest = of_nat n # rest" by (subst uleb_bytes.simps) simp
    then show ?thesis
      by (simp only: rest_step [OF "1.prems"(1)] low_byte(2) [OF True] byte_step(1) [OF True] if_True refl)
  next
    case False
    then have b: "uleb_bytes n @ rest = (of_nat (n mod 128) OR 0x80) # (uleb_bytes (n div 128) @ rest)"
      by (subst uleb_bytes.simps) simp
    have m: "n mod 128 < 128" by simp
    have "n div 128 * 2 ^ (Suc i * 7) = n div 128 * 128 * 2 ^ (i * 7)" by (simp add: power_add)
    also have "\<dots> \<le> n * 2 ^ (i * 7)" by (intro mult_right_mono) auto
    finally have small: "n div 128 * 2 ^ (Suc i * 7) < 2 ^ 64" using "1.prems"(2) by linarith
    have "Suc i < 10"
    proof (rule ccontr)
      assume "\<not> Suc i < 10"
      then have "(2 :: nat) ^ 64 \<le> 2 ^ (Suc i * 7)" by (intro power_increasing) auto
      moreover have "1 \<le> n div 128" using False by (simp add: Suc_leI div_greater_zero_iff)
      ultimately show False using small mult_le_mono [of 1 "n div 128" "2 ^ 64" "2 ^ (Suc i * 7)"] by linarith
    qed
    from "1.IH" [OF False this small] show ?thesis
      unfolding b rest_step [OF "1.prems"(1)] low_byte(4) [OF m] byte_step(2) [OF m]
      by (simp add: or.assoc split_seven [simplified])
  qed
qed

text \<open>Every 64-bit number is read back, whatever follows it.\<close>

lemma uleb_roundtrip:
  assumes "n < 2 ^ 64"
  shows "get_uleb128 (uleb_bytes n @ rest) = Inr (of_nat n, rest)"
proof -
  have first: "get_uleb128 bs = get_uleb128_rest 0 0 bs" for bs
    by (subst get_uleb128_rest.simps) (simp add: get_uleb128_def Let_def split: list.split)
  show ?thesis using uleb_rest_bytes [of 0 n 0 rest] assms by (simp add: first)
qed

text \<open>
  The offset of a member as old compilers write it, an expression that adds a constant, is the one they meant; a block
  that ends too early is read beyond its end.
\<close>

lemma offset_expression:
  "n < 2 ^ 64 \<Longrightarrow> da_form a = FORM_other f \<Longrightarrow> da_block a = Some (0x23 # uleb_bytes n) \<Longrightarrow> attr_offset_of a = Inr (of_nat n)"
  using uleb_roundtrip [of n "[]"] by (simp add: attr_offset_of_def is_data_form_def dwarf_expr_def)

lemma offset_expression_cut: "dwarf_expr [0x23, 0x80] = Inl Out_Of_Bounds"
  by (subst dwarf_expr_def) (simp add: get_uleb128_def get_uleb128_rest.simps)

end
