(* ===== verification/DwarfLookup.thy ===== *)
theory DwarfLookup
  imports Cu Bits
begin

text \<open>
  How the DWARF loader (\<open>dwarf_loader.c\<close>) goes from the offset a reference holds to the tag made from the entry at that
  offset: the tables of tags by offset, one pair per space of offsets (the file, its \<open>.debug_types\<close>, the alternate file
  of dwz), the type found last, and the partial units of the alternate file, which are dropped when nothing refers to
  them.  A bucket (\<open>struct hlist_head\<close>) is the sequence of the tags in it; a tag is named by a number, the address of
  the \<open>struct dwarf_tag\<close> in front of it.
\<close>

section \<open>The data\<close>

type_synonym dwarf_off = "64 word"

record dwarf_refs =
  rf_type :: bool
  rf_abstract_origin :: bool
  rf_containing_type :: bool
  rf_specification :: bool

text \<open>The list \<open>tag.node\<close> is in: none, that of the unit, that of the type, namespace or function around it.\<close>

datatype tag_node = Alone | In_unit | In_tag

text \<open>
  \<open>struct dwarf_tag\<close> and, of the tag that follows it, its kind and its place; \<open>abstract_origin\<close> and
  \<open>containing_type\<close> share their memory.
\<close>

record dwarf_tag =
  dt_kind :: dw_tag
  dt_node :: tag_node
  dt_type :: dwarf_off
  dt_id :: dwarf_off
  dt_abstract_origin :: dwarf_off
  dt_specification :: dwarf_off
  dt_from_types_section :: dwarf_refs
  dt_from_alt :: dwarf_refs
  dt_small_id :: nat

record alt_pu =
  pu_start :: dwarf_off
  pu_end :: dwarf_off
  pu_hit :: bool

datatype dtag_ptr = Sentinel | Dtag nat

text \<open>The tables of one space of offsets.\<close>

record dwarf_cu =
  dc_hash_tags :: "nat list list"
  dc_hash_types :: "nat list list"
  dc_last_type_lookup :: dtag_ptr

text \<open>A unit that is being loaded: the private data of the loader, the tags it made and the unit they go to.\<close>

record dwarf_unit =
  du_cu :: cu
  du_dtags :: "nat \<Rightarrow> dwarf_tag"
  du_dcu :: dwarf_cu
  du_type_unit :: "dwarf_cu option"
  du_alt :: "dwarf_cu option"
  du_imported_units :: "dwarf_off list"
  du_allocated_imported_units :: nat
  du_alt_pus :: "alt_pu list"
  du_allocated_alt_pus :: nat
  du_processing_alt :: bool

section \<open>The tables\<close>

text \<open>\<open>bits\<close> is the variable \<open>hashtags__bits\<close>.\<close>

definition hashtags__fn :: "nat \<Rightarrow> dwarf_off \<Rightarrow> fault + nat" where
  "hashtags__fn bits key = (case hash_64 key bits of None \<Rightarrow> Inl Undefined_Shift | Some h \<Rightarrow> Inr (u32 (unat h)))"

definition dwarf_cu__init :: "heap_env \<Rightarrow> nat \<Rightarrow> dwarf_cu option" where
  "dwarf_cu__init h bits =
     (let hashtags_size = 2 ^ bits in
      if \<not> avail h (8 * hashtags_size) then None
      else Some \<lparr>dc_hash_tags = replicate hashtags_size [], dc_hash_types = replicate hashtags_size [],
                 dc_last_type_lookup = Sentinel\<rparr>)"

definition hashtags__hash :: "nat \<Rightarrow> (nat \<Rightarrow> dwarf_tag) \<Rightarrow> nat list list \<Rightarrow> nat \<Rightarrow> fault + nat list list" where
  "hashtags__hash bits dtags hashtable x =
     bindE (hashtags__fn bits (dt_id (dtags x))) (\<lambda>b.
       if b < length hashtable then Inr (hashtable[b := x # hashtable ! b]) else Inl Out_Of_Bounds)"

definition hashtags__find :: "nat \<Rightarrow> (nat \<Rightarrow> dwarf_tag) \<Rightarrow> nat list list \<Rightarrow> dwarf_off \<Rightarrow> fault + nat option" where
  "hashtags__find bits dtags hashtable ref =
     (if ref = 0 then Inr None
      else bindE (hashtags__fn bits ref) (\<lambda>b.
             if b < length hashtable then Inr (List.find (\<lambda>x. dt_id (dtags x) = ref) (hashtable ! b))
             else Inl Out_Of_Bounds))"

definition dc_table :: "bool \<Rightarrow> dwarf_cu \<Rightarrow> nat list list" where
  "dc_table types dcu = (if types then dc_hash_types dcu else dc_hash_tags dcu)"

definition dc_set_table :: "bool \<Rightarrow> dwarf_cu \<Rightarrow> nat list list \<Rightarrow> dwarf_cu" where
  "dc_set_table types dcu t = (if types then dcu\<lparr>dc_hash_types := t\<rparr> else dcu\<lparr>dc_hash_tags := t\<rparr>)"

definition cu__hash :: "nat \<Rightarrow> dwarf_unit \<Rightarrow> nat \<Rightarrow> fault + dwarf_unit" where
  "cu__hash bits u x =
     (let is_type = tag__is_tag_type (dt_kind (du_dtags u x));
          in_alt = du_processing_alt u \<and> du_alt u \<noteq> None;
          target = (if in_alt then the (du_alt u) else du_dcu u) in
      bindE (hashtags__hash bits (du_dtags u) (dc_table is_type target) x) (\<lambda>t.
        let target' = dc_set_table is_type target t
        in Inr (if in_alt then u\<lparr>du_alt := Some target'\<rparr> else u\<lparr>du_dcu := target'\<rparr>)))"

definition dtag_id :: "(nat \<Rightarrow> dwarf_tag) \<Rightarrow> dtag_ptr \<Rightarrow> dwarf_off" where
  "dtag_id dtags p = (case p of Sentinel \<Rightarrow> - 1 | Dtag x \<Rightarrow> dt_id (dtags x))"

definition dwarf_cu__find_tag_by_ref :: "nat \<Rightarrow> dwarf_unit \<Rightarrow> dwarf_off \<Rightarrow> bool \<Rightarrow> bool \<Rightarrow> fault + nat option" where
  "dwarf_cu__find_tag_by_ref bits u ref from_types from_alt =
     (if from_types then Inr None
      else if from_alt then
        (case du_alt u of
           None \<Rightarrow> Inr None
         | Some alt \<Rightarrow> hashtags__find bits (du_dtags u) (dc_hash_tags alt) ref)
      else hashtags__find bits (du_dtags u) (dc_hash_tags (du_dcu u)) ref)"

definition find_type_in :: "nat \<Rightarrow> (nat \<Rightarrow> dwarf_tag) \<Rightarrow> dwarf_cu \<Rightarrow> dwarf_off \<Rightarrow> fault + dtag_ptr option \<times> dwarf_cu" where
  "find_type_in bits dtags dcu ref =
     (if dtag_id dtags (dc_last_type_lookup dcu) = ref then Inr (Some (dc_last_type_lookup dcu), dcu)
      else bindE (hashtags__find bits dtags (dc_hash_types dcu) ref) (\<lambda>r.
             Inr (case r of
                    None \<Rightarrow> (None, dcu)
                  | Some x \<Rightarrow> (Some (Dtag x), dcu\<lparr>dc_last_type_lookup := Dtag x\<rparr>))))"

definition dwarf_cu__find_type_by_ref ::
  "nat \<Rightarrow> dwarf_unit \<Rightarrow> dwarf_off \<Rightarrow> bool \<Rightarrow> bool \<Rightarrow> fault + dtag_ptr option \<times> dwarf_unit" where
  "dwarf_cu__find_type_by_ref bits u ref from_types from_alt =
     (if from_types then
        (case du_type_unit u of
           None \<Rightarrow> Inr (None, u)
         | Some dcu \<Rightarrow> map_sum id (\<lambda>(r, d). (r, u\<lparr>du_type_unit := Some d\<rparr>)) (find_type_in bits (du_dtags u) dcu ref))
      else if from_alt then
        (case du_alt u of
           None \<Rightarrow> Inr (None, u)
         | Some dcu \<Rightarrow> map_sum id (\<lambda>(r, d). (r, u\<lparr>du_alt := Some d\<rparr>)) (find_type_in bits (du_dtags u) dcu ref))
      else map_sum id (\<lambda>(r, d). (r, u\<lparr>du_dcu := d\<rparr>)) (find_type_in bits (du_dtags u) (du_dcu u) ref))"

section \<open>The partial units\<close>

function alt_pu_search :: "alt_pu list \<Rightarrow> dwarf_off \<Rightarrow> nat \<Rightarrow> nat \<Rightarrow> fault + nat option" where
  "alt_pu_search pus off lo hi =
     (if lo < hi then
        let mid = lo + (hi - lo) div 2 in
        if mid < length pus then
          if off < pu_start (pus ! mid) then alt_pu_search pus off lo mid
          else if pu_end (pus ! mid) \<le> off then alt_pu_search pus off (mid + 1) hi
          else Inr (Some mid)
        else Inl Out_Of_Bounds
      else Inr None)"
  by pat_completeness auto
termination
  by (relation "measure (\<lambda>(pus, off, lo, hi). hi - lo)") auto

declare alt_pu_search.simps [simp del]

definition dwarf_cu__find_alt_pu :: "alt_pu list \<Rightarrow> dwarf_off \<Rightarrow> fault + nat option" where
  "dwarf_cu__find_alt_pu pus off = alt_pu_search pus off 0 (length pus)"

definition dwarf_cu__alt_pu_is_hit :: "alt_pu list \<Rightarrow> dwarf_off \<Rightarrow> fault + bool" where
  "dwarf_cu__alt_pu_is_hit pus off =
     map_sum id (\<lambda>r. case r of None \<Rightarrow> False | Some i \<Rightarrow> pu_hit (pus ! i)) (dwarf_cu__find_alt_pu pus off)"

definition dwarf_cu__offset_in_pruned_alt_pu :: "alt_pu list \<Rightarrow> dwarf_off \<Rightarrow> fault + bool" where
  "dwarf_cu__offset_in_pruned_alt_pu pus off =
     map_sum id (\<lambda>r. case r of None \<Rightarrow> False | Some i \<Rightarrow> \<not> pu_hit (pus ! i)) (dwarf_cu__find_alt_pu pus off)"

text \<open>Whether the message that a reference leads into a partial unit that was dropped is printed.\<close>

definition tag__check_pruned_alt_ref :: "dwarf_unit \<Rightarrow> dwarf_off \<Rightarrow> bool \<Rightarrow> fault + bool" where
  "tag__check_pruned_alt_ref u ref from_alt =
     (if \<not> from_alt \<or> du_alt_pus u = [] then Inr False else dwarf_cu__offset_in_pruned_alt_pu (du_alt_pus u) ref)"

definition dwarf_cu__mark_alt_pu_hit :: "dwarf_unit \<Rightarrow> dwarf_off \<Rightarrow> fault + dwarf_unit" where
  "dwarf_cu__mark_alt_pu_hit u off =
     bindE (dwarf_cu__find_alt_pu (du_alt_pus u) off) (\<lambda>r.
       Inr (case r of
              None \<Rightarrow> u
            | Some i \<Rightarrow> u\<lparr>du_alt_pus := (du_alt_pus u)[i := (du_alt_pus u ! i)\<lparr>pu_hit := True\<rparr>]\<rparr>))"

definition dwarf_cu__alt_pu_visited :: "dwarf_unit \<Rightarrow> dwarf_off \<Rightarrow> fault + bool" where
  "dwarf_cu__alt_pu_visited u off =
     map_sum id (\<lambda>r. case r of None \<Rightarrow> False | Some i \<Rightarrow> pu_start (du_alt_pus u ! i) = off)
       (dwarf_cu__find_alt_pu (du_alt_pus u) off)"

text \<open>The array is doubled when it is full; \<open>None\<close> is \<open>-ENOMEM\<close>.  A \<open>struct alt_pu\<close> has 24 bytes.\<close>

definition grown_size :: "nat \<Rightarrow> nat" where
  "grown_size allocated = (if allocated \<noteq> 0 then u32 (allocated * 2) else 16)"

definition dwarf_cu__add_alt_pu :: "heap_env \<Rightarrow> dwarf_unit \<Rightarrow> dwarf_off \<Rightarrow> dwarf_off \<Rightarrow> dwarf_unit option" where
  "dwarf_cu__add_alt_pu h u start stop =
     (let full = (length (du_alt_pus u) = du_allocated_alt_pus u);
          new_size = grown_size (du_allocated_alt_pus u);
          pu = \<lparr>pu_start = start, pu_end = stop, pu_hit = False\<rparr> in
      if full \<and> (new_size \<le> du_allocated_alt_pus u \<or> \<not> avail h (new_size * 24)) then None
      else Some (u\<lparr>du_allocated_alt_pus := if full then new_size else du_allocated_alt_pus u,
                   du_alt_pus := du_alt_pus u @ [pu]\<rparr>))"

definition dwarf_cu__imported_unit_visited :: "dwarf_unit \<Rightarrow> dwarf_off \<Rightarrow> bool" where
  "dwarf_cu__imported_unit_visited u off = list_ex (\<lambda>x. x = off) (du_imported_units u)"

definition dwarf_cu__mark_imported_unit :: "heap_env \<Rightarrow> dwarf_unit \<Rightarrow> dwarf_off \<Rightarrow> dwarf_unit option" where
  "dwarf_cu__mark_imported_unit h u off =
     (let full = (length (du_imported_units u) = du_allocated_imported_units u);
          new_size = grown_size (du_allocated_imported_units u) in
      if full \<and> (new_size \<le> du_allocated_imported_units u \<or> \<not> avail h (new_size * 8)) then None
      else Some (u\<lparr>du_allocated_imported_units := if full then new_size else du_allocated_imported_units u,
                   du_imported_units := du_imported_units u @ [off]\<rparr>))"

section \<open>References\<close>

datatype dwarf_ref = REF_TYPE | REF_ABSTRACT_ORIGIN | REF_CONTAINING_TYPE | REF_SPECIFICATION

fun set_ref :: "dwarf_ref \<Rightarrow> dwarf_off \<Rightarrow> bool \<Rightarrow> bool \<Rightarrow> dwarf_tag \<Rightarrow> dwarf_tag" where
  "set_ref REF_TYPE off types alt d =
     d\<lparr>dt_type := off, dt_from_types_section := (dt_from_types_section d)\<lparr>rf_type := types\<rparr>,
       dt_from_alt := (dt_from_alt d)\<lparr>rf_type := alt\<rparr>\<rparr>"
| "set_ref REF_ABSTRACT_ORIGIN off types alt d =
     d\<lparr>dt_abstract_origin := off, dt_from_types_section := (dt_from_types_section d)\<lparr>rf_abstract_origin := types\<rparr>,
       dt_from_alt := (dt_from_alt d)\<lparr>rf_abstract_origin := alt\<rparr>\<rparr>"
| "set_ref REF_CONTAINING_TYPE off types alt d =
     d\<lparr>dt_abstract_origin := off, dt_from_types_section := (dt_from_types_section d)\<lparr>rf_containing_type := types\<rparr>,
       dt_from_alt := (dt_from_alt d)\<lparr>rf_containing_type := alt\<rparr>\<rparr>"
| "set_ref REF_SPECIFICATION off types alt d =
     d\<lparr>dt_specification := off, dt_from_types_section := (dt_from_types_section d)\<lparr>rf_specification := types\<rparr>,
       dt_from_alt := (dt_from_alt d)\<lparr>rf_specification := alt\<rparr>\<rparr>"

text \<open>What \<open>attr_type\<close> read: the offset, whether it is one of \<open>.debug_types\<close>, whether it is one of the alternate file.\<close>

definition dwarf_tag__set_attr_type ::
  "dwarf_unit \<Rightarrow> nat \<Rightarrow> dwarf_ref \<Rightarrow> dwarf_off \<times> bool \<times> bool \<Rightarrow> fault + dwarf_unit" where
  "dwarf_tag__set_attr_type u x r a =
     (case a of (offset, from_types, is_alt) \<Rightarrow>
        let from_alt = is_alt \<or> du_processing_alt u;
            u1 = u\<lparr>du_dtags := (du_dtags u)(x := set_ref r offset from_types from_alt (du_dtags u x))\<rparr>
        in if is_alt then dwarf_cu__mark_alt_pu_hit u1 offset else Inr u1)"

section \<open>Dropping the partial units nothing refers to\<close>

fun fn_node_path :: "nat \<Rightarrow> fn_node rbt \<Rightarrow> fn_node path \<Rightarrow> (fn_node rbt \<times> fn_node path) option" where
  "fn_node_path i NIL ps = None"
| "fn_node_path i (RB c l f r) ps =
     (if fk_id f = i then Some (RB c l f r, ps)
      else case fn_node_path i l (FL c f r # ps) of
             Some z \<Rightarrow> Some z
           | None \<Rightarrow> fn_node_path i r (FR c l f # ps))"

text \<open>\<open>rb_erase\<close> of the node of a function; a node that was never linked is all zeroes, so the root becomes NULL.\<close>

definition cu_erase_function :: "cu \<Rightarrow> nat \<Rightarrow> fault + cu" where
  "cu_erase_function cu i =
     (case fn_node_path i (cu_functions cu) [] of
        None \<Rightarrow> Inr (cu\<lparr>cu_functions := NIL\<rparr>)
      | Some z \<Rightarrow>
          (case rb_erase z of
             None \<Rightarrow> Inl Null_Deref
           | Some t \<Rightarrow> Inr (cu\<lparr>cu_functions := t\<rparr>)))"

text \<open>
  \<open>list_del_init(&tag->node)\<close>: the list of a type, namespace or function belongs to a tag of the same partial unit, which
  is dropped with it.
\<close>

definition unlink_tag :: "cu_table \<Rightarrow> dwarf_tag \<Rightarrow> cu \<Rightarrow> cu" where
  "unlink_tag tb d cu =
     (if dt_node d = In_unit then cu\<lparr>cu_tags := remove1 (cu_ref tb (dt_small_id d)) (cu_tags cu)\<rparr> else cu)"

definition clear_entry :: "cu_table \<Rightarrow> nat \<Rightarrow> cu \<Rightarrow> fault + cu" where
  "clear_entry tb i cu = map_sum id (cu_set_table cu tb) (ptr_table_store (cu_get_table cu tb) i None)"

text \<open>What is done to a tag of a bucket; \<open>tb\<close> is the table of the unit that has its entry.\<close>

definition dtag_table :: "dwarf_tag \<Rightarrow> cu_table" where
  "dtag_table d = (if tag__is_function (dt_kind d) then Functions else Tags)"

definition drop_tag :: "cu_table \<Rightarrow> dwarf_tag \<Rightarrow> cu \<Rightarrow> fault + cu" where
  "drop_tag tb d cu =
     (let cu1 = unlink_tag tb d cu in
      bindE (if tb = Functions then cu_erase_function cu1 (dt_small_id d) else Inr cu1) (\<lambda>cu2.
        clear_entry tb (dt_small_id d) cu2))"

definition prune_one ::
  "bool \<Rightarrow> (nat \<Rightarrow> dwarf_tag) \<Rightarrow> alt_pu list \<Rightarrow> nat \<Rightarrow> nat \<Rightarrow> cu \<times> dwarf_cu \<Rightarrow> fault + cu \<times> dwarf_cu" where
  "prune_one types dtags pus i x s =
     (case s of (cu, alt) \<Rightarrow>
        bindE (dwarf_cu__alt_pu_is_hit pus (dt_id (dtags x))) (\<lambda>hit.
          if hit then Inr s
          else bindE (drop_tag (if types then Types else dtag_table (dtags x)) (dtags x) cu) (\<lambda>cu1.
                 let t = dc_table types alt in Inr (cu1, dc_set_table types alt (t[i := remove1 x (t ! i)])))))"

definition prune_bucket :: "(nat \<Rightarrow> dwarf_tag) \<Rightarrow> alt_pu list \<Rightarrow> nat \<Rightarrow> cu \<times> dwarf_cu \<Rightarrow> fault + cu \<times> dwarf_cu" where
  "prune_bucket dtags pus i s =
     (if i < length (dc_hash_types (snd s)) \<and> i < length (dc_hash_tags (snd s)) then
        bindE (fold_e (prune_one True dtags pus i) (dc_hash_types (snd s) ! i) s) (\<lambda>s1.
          fold_e (prune_one False dtags pus i) (dc_hash_tags (snd s1) ! i) s1)
      else Inl Out_Of_Bounds)"

definition dwarf_cu__prune_unreferenced_alt_pus :: "nat \<Rightarrow> dwarf_unit \<Rightarrow> fault + dwarf_unit" where
  "dwarf_cu__prune_unreferenced_alt_pus bits u =
     (case du_alt u of
        None \<Rightarrow> Inr u
      | Some alt \<Rightarrow>
          if du_alt_pus u = [] then Inr u
          else map_sum id (\<lambda>(cu, alt'). u\<lparr>du_cu := cu, du_alt := Some alt'\<rparr>)
                 (fold_e (prune_bucket (du_dtags u) (du_alt_pus u)) [0..<2 ^ bits] (du_cu u, alt)))"

end
