(* ===== verification/DwarfParams.thy ===== *)
theory DwarfParams
  imports DwarfAttr DwarfLookup Alignment
begin

text \<open>
  Where a function gets its arguments from, as \<open>dwarf_loader.c\<close> works it out: the location expressions of a parameter are
  decoded into a register, an offset, a constant or the pieces of a structure; then the parameters of a function are
  laid out over the registers of the calling convention, and one that is not where it should be is marked as
  optimized away or as being in an unexpected register.
\<close>

unbundle bit_operations_syntax

section \<open>The data\<close>

text \<open>The parts of \<open>struct parameter\<close> the other components do not use.\<close>

record dw_parameter = parameter +
  dp_true_sig_member_name :: "string option"
  dp_true_sig_type :: "64 word"
  dp_first_reg_fields :: "64 word"
  dp_second_reg_fields :: "64 word"
  dp_loc_reg :: int
  dp_loc_reg2 :: int
  dp_loc_offset :: int
  dp_loc_value :: "64 word"
  dp_type_byte_size :: nat
  dp_loc_size :: nat
  dp_true_sig_type_from_types :: bool
  dp_true_sig_type_from_alt :: bool
  dp_has_const_value :: bool
  dp_loc_const_value :: bool
  dp_loc_stack :: bool
  dp_loc_deref :: bool
  dp_loc_addr :: bool
  dp_loc_signed :: bool
  dp_optimized :: bool
  dp_unexpected_reg :: bool
  dp_has_loc :: bool
  dp_passed_in_memory :: bool
  dp_idx :: nat

text \<open>What \<open>cu__set_common\<close> and the first entry set in the unit.\<close>

record param_abi =
  ab_addr_size :: nat
  ab_nr_register_params :: nat
  ab_register_params :: "int list"
  ab_agg_use_two_regs :: bool
  ab_arg_align_two_regs :: bool
  ab_param_loc_supported :: bool
  ab_producer_clang :: bool

definition param_abi_of :: "machine \<Rightarrow> nat \<Rightarrow> bool \<Rightarrow> param_abi" where
  "param_abi_of m addr_size clang =
     \<lparr>ab_addr_size = addr_size, ab_nr_register_params = arch__nr_register_params m,
      ab_register_params = arch__set_register_params m, ab_agg_use_two_regs = arch__agg_use_two_regs m,
      ab_arg_align_two_regs = arch__arg_align_two_regs m, ab_param_loc_supported = arch__param_loc_supported m,
      ab_producer_clang = clang\<rparr>"

abbreviation PARAMETER_UNKNOWN_REG :: int where "PARAMETER_UNKNOWN_REG \<equiv> - 1"

section \<open>Operations of location expressions\<close>

definition is_lit :: "nat \<Rightarrow> bool" where "is_lit atom \<longleftrightarrow> 0x30 \<le> atom \<and> atom \<le> 0x4f"
definition dwarf_op__is_reg :: "nat \<Rightarrow> bool" where "dwarf_op__is_reg atom \<longleftrightarrow> 0x50 \<le> atom \<and> atom \<le> 0x6f"
definition is_breg :: "nat \<Rightarrow> bool" where "is_breg atom \<longleftrightarrow> 0x70 \<le> atom \<and> atom \<le> 0x8f"
definition DW_OP_addr :: nat where "DW_OP_addr = 0x03"
definition DW_OP_deref :: nat where "DW_OP_deref = 0x06"
definition DW_OP_const1u :: nat where "DW_OP_const1u = 0x08"
definition DW_OP_constu :: nat where "DW_OP_constu = 0x10"
definition DW_OP_consts :: nat where "DW_OP_consts = 0x11"
definition DW_OP_fbreg :: nat where "DW_OP_fbreg = 0x91"
definition DW_OP_piece :: nat where "DW_OP_piece = 0x93"
definition DW_OP_deref_size :: nat where "DW_OP_deref_size = 0x94"
definition DW_OP_stack_value :: nat where "DW_OP_stack_value = 0x9f"
definition DW_OP_entry_value :: nat where "DW_OP_entry_value = 0xa3"
definition DW_OP_GNU_entry_value :: nat where "DW_OP_GNU_entry_value = 0xf3"

lemmas dw_op_defs = is_lit_def dwarf_op__is_reg_def is_breg_def DW_OP_addr_def DW_OP_deref_def DW_OP_const1u_def
  DW_OP_constu_def DW_OP_consts_def DW_OP_fbreg_def DW_OP_piece_def DW_OP_deref_size_def DW_OP_stack_value_def
  DW_OP_entry_value_def DW_OP_GNU_entry_value_def

definition dwarf_expr__has_stack_value :: "dw_op list \<Rightarrow> bool" where
  "dwarf_expr__has_stack_value expr = list_ex (\<lambda>op. op_atom op = DW_OP_stack_value) (tl expr)"

definition dwarf_op__const_signed :: "nat \<Rightarrow> bool" where
  "dwarf_op__const_signed atom \<longleftrightarrow> atom \<in> {0x09, 0x0b, 0x0d, 0x0f, 0x11}"

definition dwarf_op__snumber :: "dw_op \<Rightarrow> int" where
  "dwarf_op__snumber op = sint (op_number op)"

definition dwarf_op__const_value :: "dw_op \<Rightarrow> 64 word" where
  "dwarf_op__const_value op =
     (if dwarf_op__const_signed (op_atom op) then word_of_int (dwarf_op__snumber op) else op_number op)"

section \<open>Recording a location\<close>

definition parameter__loc_size :: "param_abi \<Rightarrow> dw_parameter \<Rightarrow> nat" where
  "parameter__loc_size ab p =
     (let sz = (if dp_type_byte_size p \<noteq> 0 then dp_type_byte_size p else ab_addr_size ab)
      in if sz = 0 \<or> 16 < sz then 0 else sz)"

definition parameter__set_loc_reg :: "int \<Rightarrow> dw_parameter \<Rightarrow> dw_parameter" where
  "parameter__set_loc_reg reg p = (if dp_loc_reg p = PARAMETER_UNKNOWN_REG then p\<lparr>dp_loc_reg := reg\<rparr> else p)"

definition fits_s32 :: "int \<Rightarrow> bool" where "fits_s32 x \<longleftrightarrow> - 2147483648 \<le> x \<and> x \<le> 2147483647"

definition parameter__record_loc_reg :: "int \<Rightarrow> int \<Rightarrow> bool \<Rightarrow> nat \<Rightarrow> dw_parameter \<Rightarrow> dw_parameter" where
  "parameter__record_loc_reg reg offset is_deref sz p =
     (if reg < int DW_OP_reg0 \<or> sz = 0 then p
      else
        let p1 = parameter__set_loc_reg reg p
        in if dp_loc_reg p1 \<noteq> reg then p1
           else if \<not> fits_s32 offset then p1
           else p1\<lparr>dp_loc_offset := offset, dp_loc_deref := is_deref, dp_loc_size := sz\<rparr>)"

definition parameter__record_loc_reg_pair :: "int \<Rightarrow> int \<Rightarrow> dw_parameter \<Rightarrow> dw_parameter" where
  "parameter__record_loc_reg_pair reg reg2 p =
     (let sz = dp_type_byte_size p in
      if reg < int DW_OP_reg0 \<or> reg2 < int DW_OP_reg0 \<or> sz = 0 \<or> 16 < sz then p
      else p\<lparr>dp_loc_reg := reg, dp_loc_reg2 := reg2, dp_loc_offset := 0, dp_loc_deref := False, dp_loc_size := sz\<rparr>)"

definition parameter__record_loc_const :: "64 word \<Rightarrow> nat \<Rightarrow> bool \<Rightarrow> bool \<Rightarrow> dw_parameter \<Rightarrow> dw_parameter" where
  "parameter__record_loc_const value sz is_signed is_addr p =
     (if sz = 0 then p
      else p\<lparr>dp_loc_const_value := True, dp_loc_value := value, dp_loc_size := sz, dp_loc_signed := is_signed,
             dp_loc_addr := is_addr\<rparr>)"

definition parameter__record_attr_const_value :: "param_abi \<Rightarrow> dw_attribute \<Rightarrow> dw_parameter \<Rightarrow> dw_parameter" where
  "parameter__record_attr_const_value ab a p =
     (case da_udata a of
        Some v \<Rightarrow> p\<lparr>dp_loc_value := v, dp_loc_size := parameter__loc_size ab p, dp_loc_signed := False, dp_loc_addr := False\<rparr>
      | None \<Rightarrow>
          (case da_sdata a of
             Some v \<Rightarrow> p\<lparr>dp_loc_value := v, dp_loc_size := parameter__loc_size ab p, dp_loc_signed := True, dp_loc_addr := False\<rparr>
           | None \<Rightarrow> p))"

definition parameter__set_field_bit :: "64 word \<Rightarrow> int \<Rightarrow> 64 word" where
  "parameter__set_field_bit flds byte_offset =
     (if 0 \<le> byte_offset \<and> byte_offset < 64 then flds OR push_bit (nat byte_offset) 1 else flds)"

section \<open>Expressions of more than one operation\<close>

text \<open>The variables of the loop over the pieces, and the parameter.\<close>

record pieces =
  pc_off :: int
  pc_regs :: "int list"
  pc_size :: "64 word"
  pc_all_regs :: bool
  pc_parm :: dw_parameter

definition piece_op :: "param_abi \<Rightarrow> dw_op option \<Rightarrow> dw_op \<Rightarrow> pieces \<Rightarrow> pieces" where
  "piece_op ab before op s =
     (let off = pc_off s; p = pc_parm s in
      if op_atom op = DW_OP_piece then
        let num = s32 (uint (op_number op));
            after_reg = (case before of Some b \<Rightarrow> dwarf_op__is_reg (op_atom b) | None \<Rightarrow> False);
            s1 = (if after_reg then s\<lparr>pc_size := pc_size s + op_number op\<rparr> else s\<lparr>pc_all_regs := False\<rparr>)
        in if before = None then s1\<lparr>pc_off := num\<rparr>
           else
             s1\<lparr>pc_off := s32 (off + num),
                pc_parm :=
                  (if off < int (ab_addr_size ab)
                   then p\<lparr>dp_first_reg_fields := parameter__set_field_bit (dp_first_reg_fields p) off\<rparr>
                   else p\<lparr>dp_second_reg_fields :=
                            parameter__set_field_bit (dp_second_reg_fields p) (off - int (ab_addr_size ab))\<rparr>)\<rparr>
      else if dwarf_op__is_reg (op_atom op) then
        let reg = int (op_atom op) - int DW_OP_reg0;
            s1 = (if length (pc_regs s) < 2 then s\<lparr>pc_regs := pc_regs s @ [reg]\<rparr> else s\<lparr>pc_all_regs := False\<rparr>)
        in if off < int (ab_addr_size ab) \<or> dp_loc_reg p = PARAMETER_UNKNOWN_REG
           then s1\<lparr>pc_parm := parameter__record_loc_reg (int (op_atom op)) 0 False (parameter__loc_size ab p) p\<rparr>
           else s1
      else s\<lparr>pc_all_regs := False\<rparr>)"

fun piece_ops :: "param_abi \<Rightarrow> dw_op option \<Rightarrow> dw_op list \<Rightarrow> pieces \<Rightarrow> pieces" where
  "piece_ops ab before [] s = s"
| "piece_ops ab before (op # ops) s = piece_ops ab (Some op) ops (piece_op ab before op s)"

definition parameter__multi_exprs :: "param_abi \<Rightarrow> dw_op list \<Rightarrow> nat \<Rightarrow> dw_parameter \<Rightarrow> dw_parameter" where
  "parameter__multi_exprs ab expr loc_num p =
     (let first = hd expr; atom = op_atom first in
      if is_lit atom \<or> atom = DW_OP_constu \<or> atom = DW_OP_consts then
        if loc_num = 0 then
          parameter__record_loc_const (if is_lit atom then of_nat (atom - 0x30) else dwarf_op__const_value first)
            (parameter__loc_size ab p) (dwarf_op__const_signed atom) False p
        else p
      else if dp_type_byte_size p \<le> ab_addr_size ab \<or> \<not> ab_agg_use_two_regs ab then
        let had_stack_value = dwarf_expr__has_stack_value expr; sz = parameter__loc_size ab p in
        if dwarf_op__is_reg atom then
          if loc_num = 0 then parameter__record_loc_reg (int atom) 0 False sz p else p
        else if is_breg atom then
          if loc_num = 0
          then parameter__record_loc_reg (int atom - 0x70 + int DW_OP_reg0) (dwarf_op__snumber first) (\<not> had_stack_value) sz p
          else p
        else p
      else
        let s = piece_ops ab None expr \<lparr>pc_off = 0, pc_regs = [], pc_size = 0, pc_all_regs = True, pc_parm = p\<rparr>;
            p1 = pc_parm s
        in if loc_num = 0 \<and> pc_all_regs s \<and> length (pc_regs s) = 2 \<and> pc_size s = of_nat (dp_type_byte_size p1)
           then parameter__record_loc_reg_pair (int DW_OP_reg0 + pc_regs s ! 0) (int DW_OP_reg0 + pc_regs s ! 1) p1
           else p1)"

section \<open>The locations of a parameter\<close>

definition location_op :: "libdw \<Rightarrow> param_abi \<Rightarrow> nat \<Rightarrow> bool \<Rightarrow> bool \<Rightarrow> dw_op \<Rightarrow> dw_parameter \<Rightarrow> dw_parameter" where
  "location_op d ab loc_num had_stack_value had_deref op p =
     (let sz = parameter__loc_size ab p; atom = op_atom op; deref = (had_deref \<or> \<not> had_stack_value) in
      if dwarf_op__is_reg atom then
        if loc_num = 0 then parameter__record_loc_reg (int atom) 0 False sz p else p
      else if is_breg atom then
        if loc_num = 0
        then parameter__record_loc_reg (int atom - 0x70 + int DW_OP_reg0) (dwarf_op__snumber op) deref sz p else p
      else if atom = DW_OP_fbreg then
        if loc_num = 0 \<and> sz \<noteq> 0 then
          let loc_offset = dwarf_op__snumber op in
          p\<lparr>dp_loc_stack := True, dp_loc_offset := (if fits_s32 loc_offset then loc_offset else dp_loc_offset p),
            dp_loc_size := sz, dp_loc_deref := deref\<rparr>
        else p
      else if is_lit atom then
        if loc_num = 0 then parameter__record_loc_const (of_nat (atom - 0x30)) sz False False p else p
      else if DW_OP_const1u \<le> atom \<and> atom \<le> DW_OP_consts then
        if loc_num = 0
        then parameter__record_loc_const (dwarf_op__const_value op) sz (dwarf_op__const_signed atom) False p else p
      else if atom = DW_OP_addr then
        if loc_num = 0 then parameter__record_loc_const (op_number op) (ab_addr_size ab) False True p else p
      else if atom = DW_OP_entry_value \<or> atom = DW_OP_GNU_entry_value then
        (case ld_entry_value d op of
           Some [e] \<Rightarrow>
             if dwarf_op__is_reg (op_atom e) then parameter__record_loc_reg (int (op_atom e)) 0 False sz p else p
         | _ \<Rightarrow> p)
      else p)"

text \<open>
  The operations at the end that say how the value is used are cut off: \<open>DW_OP_stack_value\<close>, and
  before it a dereference.
\<close>

definition decode_one :: "libdw \<Rightarrow> param_abi \<Rightarrow> nat \<Rightarrow> dw_op list \<Rightarrow> dw_parameter \<Rightarrow> dw_parameter" where
  "decode_one d ab loc_num expr p =
     (if expr = [] then p
      else
        let had_stack_value = (op_atom (last expr) = DW_OP_stack_value);
            e1 = (if had_stack_value then butlast expr else expr);
            had_deref = (e1 \<noteq> [] \<and> (op_atom (last e1) = DW_OP_deref \<or> op_atom (last e1) = DW_OP_deref_size));
            e2 = (if had_deref then butlast e1 else e1)
        in case e2 of
             [] \<Rightarrow> p
           | [op] \<Rightarrow> location_op d ab loc_num had_stack_value had_deref op p
           | _ \<Rightarrow> parameter__multi_exprs ab e2 loc_num p)"

fun decode_locations :: "libdw \<Rightarrow> param_abi \<Rightarrow> nat \<Rightarrow> dw_op list list \<Rightarrow> dw_parameter \<Rightarrow> dw_parameter" where
  "decode_locations d ab loc_num [] p = p"
| "decode_locations d ab loc_num (e # es) p = decode_locations d ab (loc_num + 1) es (decode_one d ab loc_num e p)"

definition parameter__record_true_sig_member ::
  "nat \<Rightarrow> libdw \<Rightarrow> string option \<Rightarrow> die \<Rightarrow> int \<Rightarrow> dw_parameter \<Rightarrow> fault + dw_parameter" where
  "parameter__record_true_sig_member n d kabi_prefix die field_offset p =
     (if dp_true_sig_member_name p \<noteq> None \<or> pa_name p = None then Inr p
      else
        bindE (get_member_with_offset n d die field_offset) (\<lambda>m.
          case m of
            None \<Rightarrow> Inr p
          | Some member \<Rightarrow>
              (case attr_string d kabi_prefix member DW_AT_name of
                 None \<Rightarrow> Inr p
               | Some nm \<Rightarrow>
                   (case attr_type d member DW_AT_type of (ty, from_types, is_alt) \<Rightarrow>
                      Inr (p\<lparr>dp_true_sig_member_name := (if ty = 0 then None else Some nm), dp_true_sig_type := ty,
                             dp_true_sig_type_from_types := from_types, dp_true_sig_type_from_alt := is_alt\<rparr>)))))"

definition popcountl :: "64 word \<Rightarrow> nat" where "popcountl w = length (filter (bit w) [0..<64])"
definition ctzl :: "64 word \<Rightarrow> nat" where "ctzl w = length (takeWhile (\<lambda>k. \<not> bit w k) [0..<64])"

definition parameter__finish_piece_decode ::
  "nat \<Rightarrow> libdw \<Rightarrow> string option \<Rightarrow> param_abi \<Rightarrow> die \<Rightarrow> dw_parameter \<Rightarrow> fault + dw_parameter" where
  "parameter__finish_piece_decode n d kabi_prefix ab die p =
     (let first = dp_first_reg_fields p; second = dp_second_reg_fields p in
      if first = 0 \<and> second = 0 \<or> first \<noteq> 0 \<and> second \<noteq> 0 \<or> 2 \<le> popcountl first \<or> 2 \<le> popcountl second then Inr p
      else
        parameter__record_true_sig_member n d kabi_prefix die
          (if popcountl first = 1 then int (ctzl first) else int (ab_addr_size ab) + int (ctzl second)) p)"

definition parameter__decode_location ::
  "nat \<Rightarrow> libdw \<Rightarrow> string option \<Rightarrow> param_abi \<Rightarrow> dw_attribute \<Rightarrow> die \<Rightarrow> dw_parameter \<Rightarrow> fault + dw_parameter" where
  "parameter__decode_location n d kabi_prefix ab a die p =
     parameter__finish_piece_decode n d kabi_prefix ab die (decode_locations d ab 0 (da_locations a) p)"

definition fresh_parameter :: "string option \<Rightarrow> nat \<Rightarrow> dw_parameter" where
  "fresh_parameter nm idx =
     \<lparr>pa_type = 0, pa_name = nm, pa_attributes = [], dp_true_sig_member_name = None, dp_true_sig_type = 0,
      dp_first_reg_fields = 0, dp_second_reg_fields = 0, dp_loc_reg = PARAMETER_UNKNOWN_REG,
      dp_loc_reg2 = PARAMETER_UNKNOWN_REG, dp_loc_offset = 0, dp_loc_value = 0, dp_type_byte_size = 0, dp_loc_size = 0,
      dp_true_sig_type_from_types = False, dp_true_sig_type_from_alt = False, dp_has_const_value = False,
      dp_loc_const_value = False, dp_loc_stack = False, dp_loc_deref = False, dp_loc_addr = False, dp_loc_signed = False,
      dp_optimized = False, dp_unexpected_reg = False, dp_has_loc = False, dp_passed_in_memory = False,
      dp_idx = idx mod 256\<rparr>"

definition parameter__new ::
  "nat \<Rightarrow> libdw \<Rightarrow> string option \<Rightarrow> param_abi \<Rightarrow> die \<Rightarrow> nat \<Rightarrow> bool \<Rightarrow> fault + dw_parameter" where
  "parameter__new n d kabi_prefix ab die param_idx decode_location =
     (let p = fresh_parameter (attr_string d kabi_prefix die DW_AT_name) param_idx in
      if \<not> decode_location then Inr p
      else
        bindE (get_type_byte_size n d (ab_addr_size ab) die) (\<lambda>bsize.
          let sz = nat (u16 bsize);
              const_value = ld_attr d die DW_AT_const_value;
              p1 = p\<lparr>dp_type_byte_size := sz,
                     dp_passed_in_memory := (if ab_agg_use_two_regs ab then 2 * ab_addr_size ab else ab_addr_size ab) < sz,
                     dp_has_const_value := const_value \<noteq> None\<rparr>;
              p2 = (case const_value of None \<Rightarrow> p1 | Some a \<Rightarrow> parameter__record_attr_const_value ab a p1)
          in case ld_attr d die DW_AT_location of
               None \<Rightarrow> Inr p2
             | Some a \<Rightarrow> parameter__decode_location n d kabi_prefix ab a die (p2\<lparr>dp_has_loc := True\<rparr>)))"


section \<open>The registers of the calling convention\<close>

definition parameter__abi_slots :: "param_abi \<Rightarrow> dw_parameter \<Rightarrow> fault + int" where
  "parameter__abi_slots ab p =
     (if \<not> ab_agg_use_two_regs ab \<or> dp_type_byte_size p \<le> ab_addr_size ab then Inr 1
      else if ab_addr_size ab = 0 then Inl Div_By_Zero
      else
        let slots = (dp_type_byte_size p + ab_addr_size ab - 1) div ab_addr_size ab
        in Inr (if 0 < slots then int slots else 1))"

definition tag__uses_gpr_bank :: "nat \<Rightarrow> cu \<Rightarrow> tag \<Rightarrow> fault + bool" where
  "tag__uses_gpr_bank n cu t =
     bindE (tag__is_base_type n cu t) (\<lambda>base.
     bindE (if base then map_sum id (\<lambda>bt. bt_float_type bt \<noteq> 0) (tag__base_type t) else Inr False) (\<lambda>is_float.
       if is_float then Inr False
       else if tg_tag t = DW_TAG_array_type then map_sum id (\<lambda>a. \<not> at_is_vector a) (tag__array_type t)
       else Inr True))"

text \<open>The natural alignment is kept in the types, so the unit may change.\<close>

definition parameter__abi_reg_align :: "nat \<Rightarrow> param_abi \<Rightarrow> cu \<Rightarrow> dw_parameter \<Rightarrow> fault + int \<times> cu" where
  "parameter__abi_reg_align n ab cu p =
     (if \<not> ab_arg_align_two_regs ab \<or> dp_type_byte_size p \<le> ab_addr_size ab then Inr (1, cu)
      else
        bindE (tag__strip_typedefs_and_modifiers n cu (pa_type p)) (\<lambda>q.
          case q of
            None \<Rightarrow> Inr (1, cu)
          | Some (i, t) \<Rightarrow>
              bindE (tag__uses_gpr_bank n cu t) (\<lambda>gpr.
                if \<not> gpr then Inr (1, cu)
                else map_sum id (\<lambda>(a, cu1). (if ab_addr_size ab < a then 2 else 1, cu1))
                       (tag__natural_alignment n cu (Some (i, t))))))"

definition round_idx :: "int \<Rightarrow> int \<Rightarrow> int" where
  "round_idx reg_idx align = (reg_idx + align - 1) AND NOT (align - 1)"

definition parameter__align_reg_idx :: "nat \<Rightarrow> param_abi \<Rightarrow> cu \<Rightarrow> dw_parameter \<Rightarrow> int \<Rightarrow> fault + int \<times> cu" where
  "parameter__align_reg_idx n ab cu p reg_idx =
     map_sum id (\<lambda>(align, cu1). (round_idx reg_idx align, cu1)) (parameter__abi_reg_align n ab cu p)"

definition parameter__has_piece_info :: "dw_parameter \<Rightarrow> bool" where
  "parameter__has_piece_info p \<longleftrightarrow> dp_first_reg_fields p \<noteq> 0 \<or> dp_second_reg_fields p \<noteq> 0"

definition parameter__uses_full_aggregate :: "dw_parameter \<Rightarrow> bool" where
  "parameter__uses_full_aggregate p \<longleftrightarrow> dp_first_reg_fields p \<noteq> 0 \<and> dp_second_reg_fields p \<noteq> 0"

definition reg_at :: "param_abi \<Rightarrow> int \<Rightarrow> fault + int" where
  "reg_at ab i =
     (if 0 \<le> i \<and> nat i < length (ab_register_params ab) then Inr (ab_register_params ab ! nat i) else Inl Out_Of_Bounds)"

definition ftype__next_parameter_preserves_slots ::
  "nat \<Rightarrow> param_abi \<Rightarrow> cu \<Rightarrow> dw_parameter option \<Rightarrow> int \<Rightarrow> int \<Rightarrow> fault + bool \<times> cu" where
  "ftype__next_parameter_preserves_slots n ab cu following reg_idx slots =
     (case following of
        None \<Rightarrow> Inr (False, cu)
      | Some q \<Rightarrow>
          if dp_loc_reg q = PARAMETER_UNKNOWN_REG then Inr (False, cu)
          else
            bindE (parameter__align_reg_idx n ab cu q (reg_idx + slots)) (\<lambda>(next_reg_idx, cu1).
              if next_reg_idx < int (ab_nr_register_params ab)
              then map_sum id (\<lambda>r. (dp_loc_reg q = r, cu1)) (reg_at ab next_reg_idx)
              else Inr (False, cu1)))"

text \<open>The parameter gets the type of the one member that is used, if that type is found.\<close>

definition parameter__apply_true_sig_member ::
  "nat \<Rightarrow> dwarf_unit \<Rightarrow> dw_parameter \<Rightarrow> fault + dw_parameter option \<times> dwarf_unit" where
  "parameter__apply_true_sig_member bits u p =
     (if dp_true_sig_member_name p = None \<or> dp_true_sig_type p = 0 then Inr (None, u)
      else
        map_sum id (\<lambda>(r, u1).
            (map_option (\<lambda>t. p\<lparr>pa_type := (case t of Sentinel \<Rightarrow> 0 | Dtag x \<Rightarrow> dt_small_id (du_dtags u1 x))\<rparr>) r, u1))
          (dwarf_cu__find_type_by_ref bits u (dp_true_sig_type p) (dp_true_sig_type_from_types p)
             (dp_true_sig_type_from_alt p)))"

text \<open>The loop over \<open>k\<close> slots, from index \<open>idx\<close> on.\<close>

fun reg_in_window :: "param_abi \<Rightarrow> int \<Rightarrow> int \<Rightarrow> nat \<Rightarrow> fault + bool" where
  "reg_in_window ab reg idx 0 = Inr False"
| "reg_in_window ab reg idx (Suc k) =
     (if int (ab_nr_register_params ab) \<le> idx then Inr False
      else bindE (reg_at ab idx) (\<lambda>r. if reg = r then Inr True else reg_in_window ab reg (idx + 1) k))"

definition parameter__reg_in_expected_window :: "param_abi \<Rightarrow> dw_parameter \<Rightarrow> int \<Rightarrow> int \<Rightarrow> fault + bool" where
  "parameter__reg_in_expected_window ab p reg_idx slots = reg_in_window ab (dp_loc_reg p) reg_idx (nat slots)"

fun function__match_clang_parameter_locations ::
  "nat \<Rightarrow> param_abi \<Rightarrow> dw_parameter list \<Rightarrow> int \<Rightarrow> cu \<Rightarrow> fault + dw_parameter list \<times> cu" where
  "function__match_clang_parameter_locations n ab [] reg_idx cu = Inr ([], cu)"
| "function__match_clang_parameter_locations n ab (p # ps) reg_idx cu =
     bindE (parameter__abi_slots ab p) (\<lambda>slots.
       if dp_passed_in_memory p then
         map_sum id (\<lambda>(qs, cu'). (p # qs, cu')) (function__match_clang_parameter_locations n ab ps reg_idx cu)
       else
         bindE (parameter__align_reg_idx n ab cu p reg_idx) (\<lambda>(idx, cu1).
           if int (ab_nr_register_params ab) \<le> idx then Inr (p # ps, cu1)
           else
             bindE (if \<not> dp_loc_deref p \<and> dp_loc_reg p \<noteq> PARAMETER_UNKNOWN_REG
                    then map_sum id (\<lambda>b. \<not> b) (parameter__reg_in_expected_window ab p idx slots) else Inr False) (\<lambda>bad.
               map_sum id (\<lambda>(qs, cu'). ((if bad then p\<lparr>dp_unexpected_reg := True\<rparr> else p) # qs, cu'))
                 (function__match_clang_parameter_locations n ab ps (idx + slots) cu1))))"

section \<open>Parameters that are not where they should be\<close>

text \<open>
  What happens to one parameter: the parameter, the index of the next register and the unit.  \<open>following\<close> is the
  parameter after it.
\<close>

definition analyze_parameter ::
  "nat \<Rightarrow> nat \<Rightarrow> param_abi \<Rightarrow> bool \<Rightarrow> dw_parameter \<Rightarrow> dw_parameter option \<Rightarrow> int \<Rightarrow> dwarf_unit \<Rightarrow>
     fault + dw_parameter \<times> int \<times> dwarf_unit" where
  "analyze_parameter n bits ab true_sig p following reg_idx u =
     bindE (parameter__abi_slots ab p) (\<lambda>slots.
     let reg_slots = (if dp_passed_in_memory p then 1 else slots) in
     bindE (if dp_passed_in_memory p then Inr (reg_idx, du_cu u) else parameter__align_reg_idx n ab (du_cu u) p reg_idx)
       (\<lambda>(idx, cu1).
     let u1 = u\<lparr>du_cu := cu1\<rparr>;
         regs_available = (idx < int (ab_nr_register_params ab)) in
     bindE (if regs_available then reg_at ab idx else Inr (- 1)) (\<lambda>expected_reg.
       if dp_has_loc p then
         if true_sig \<and> dp_loc_const_value p then Inr (p\<lparr>dp_optimized := True\<rparr>, idx, u1)
         else if \<not> regs_available then Inr (p, idx, u1)
         else if true_sig \<and> dp_loc_stack p then
           if dp_passed_in_memory p then Inr (p, idx, u1) else Inr (p\<lparr>dp_unexpected_reg := True\<rparr>, idx + reg_slots, u1)
         else if dp_loc_reg p = PARAMETER_UNKNOWN_REG then
           Inr (if true_sig then p\<lparr>dp_unexpected_reg := True\<rparr> else p\<lparr>dp_optimized := True\<rparr>, idx + reg_slots, u1)
         else if 0 \<le> expected_reg \<and> expected_reg \<noteq> dp_loc_reg p then
           Inr (p\<lparr>dp_unexpected_reg := True\<rparr>, idx + reg_slots, u1)
         else if true_sig \<and> parameter__has_piece_info p then
           if parameter__uses_full_aggregate p then Inr (p, idx + slots, u1)
           else
             bindE (ftype__next_parameter_preserves_slots n ab (du_cu u1) following idx slots) (\<lambda>(preserved, cu2).
               let u2 = u1\<lparr>du_cu := cu2\<rparr> in
               if preserved then Inr (p\<lparr>dp_true_sig_member_name := None\<rparr>, idx + slots, u2)
               else
                 bindE (parameter__apply_true_sig_member bits u2 p) (\<lambda>(r, u3).
                   case r of
                     Some p1 \<Rightarrow> Inr (p1, idx + 1, u3)
                   | None \<Rightarrow> Inr (p, idx + reg_slots, u3)))
         else Inr (p, idx + reg_slots, u1)
       else if dp_has_const_value p \<and> \<not> ab_producer_clang ab then Inr (p\<lparr>dp_optimized := True\<rparr>, idx + reg_slots, u1)
       else if true_sig then
         bindE (if regs_available then ftype__next_parameter_preserves_slots n ab (du_cu u1) following idx slots
                else Inr (False, du_cu u1)) (\<lambda>(preserved, cu2).
           let u2 = u1\<lparr>du_cu := cu2\<rparr> in
           if preserved then Inr (p, idx + slots, u2) else Inr (p\<lparr>dp_optimized := True\<rparr>, idx, u2))
       else Inr (p, idx + reg_slots, u1))))"

fun analyze_parameters ::
  "nat \<Rightarrow> nat \<Rightarrow> param_abi \<Rightarrow> bool \<Rightarrow> dw_parameter list \<Rightarrow> int \<Rightarrow> dwarf_unit \<Rightarrow> fault + dw_parameter list \<times> dwarf_unit" where
  "analyze_parameters n bits ab true_sig [] reg_idx u = Inr ([], u)"
| "analyze_parameters n bits ab true_sig (p # ps) reg_idx u =
     bindE (analyze_parameter n bits ab true_sig p (case ps of [] \<Rightarrow> None | q # _ \<Rightarrow> Some q) reg_idx u) (\<lambda>(p1, idx, u1).
       map_sum id (\<lambda>(qs, u2). (p1 # qs, u2)) (analyze_parameters n bits ab true_sig ps idx u1))"

definition function__analyze_parameter_locations ::
  "nat \<Rightarrow> nat \<Rightarrow> param_abi \<Rightarrow> bool \<Rightarrow> bool \<Rightarrow> dw_parameter list \<Rightarrow> dwarf_unit \<Rightarrow> fault + dw_parameter list \<times> dwarf_unit" where
  "function__analyze_parameter_locations n bits ab true_signature signature_changed ps u =
     (let true_sig_enabled = (ab_param_loc_supported ab \<and> true_signature \<and> signature_changed);
          check_locations = (\<not> ab_producer_clang ab \<or> signature_changed) in
      if \<not> check_locations then
        if ab_param_loc_supported ab then
          map_sum id (\<lambda>(qs, cu). (qs, u\<lparr>du_cu := cu\<rparr>)) (function__match_clang_parameter_locations n ab ps 0 (du_cu u))
        else Inr (ps, u)
      else analyze_parameters n bits ab true_sig_enabled ps 0 u)"

section \<open>The marks of a function\<close>

fun param__is_struct :: "nat \<Rightarrow> cu \<Rightarrow> nat \<Rightarrow> fault + bool" where
  "param__is_struct 0 cu i = Inl Out_Of_Fuel"
| "param__is_struct (Suc n) cu i =
     bindE (cu_type cu i) (\<lambda>type.
       case type of
         None \<Rightarrow> Inr False
       | Some t \<Rightarrow>
           if tg_tag t = DW_TAG_structure_type then Inr True
           else if tg_tag t = DW_TAG_const_type \<or> tg_tag t = DW_TAG_typedef then param__is_struct n cu (tg_type t)
           else Inr False)"

fun any_struct_param :: "nat \<Rightarrow> cu \<Rightarrow> dw_parameter list \<Rightarrow> fault + bool" where
  "any_struct_param n cu [] = Inr False"
| "any_struct_param n cu (p # ps) =
     bindE (param__is_struct n cu (pa_type p)) (\<lambda>b. if b then Inr True else any_struct_param n cu ps)"

text \<open>
  What \<open>cu__resolve_func_ret_types_optimized\<close> does to the parameters of a function that is not inlined, and the values of
  \<open>optimized_parms\<close> and \<open>unexpected_reg\<close> it sets.
\<close>

definition mark_function ::
  "nat \<Rightarrow> nat \<Rightarrow> param_abi \<Rightarrow> bool \<Rightarrow> bool \<Rightarrow> dw_parameter list \<Rightarrow> dwarf_unit \<Rightarrow>
     fault + (dw_parameter list \<times> bool \<times> bool) \<times> dwarf_unit" where
  "mark_function n bits ab true_signature signature_changed ps u =
     bindE (function__analyze_parameter_locations n bits ab true_signature signature_changed ps u) (\<lambda>(qs, u1).
       let optimized_parms = list_ex (\<lambda>p. dp_optimized p \<or> \<not> dp_has_loc p) qs;
           has_unexpected_reg = list_ex dp_unexpected_reg qs in
       if has_unexpected_reg then
         map_sum id (\<lambda>has_struct_param. ((qs, optimized_parms, \<not> has_struct_param), u1)) (any_struct_param n (du_cu u1) qs)
       else Inr ((qs, optimized_parms, False), u1))"

text \<open>What a parameter tells the one it was made from (its abstract origin).\<close>

definition parameter__share_state_with_abstract_origin :: "dw_parameter \<Rightarrow> dw_parameter \<Rightarrow> dw_parameter" where
  "parameter__share_state_with_abstract_origin p o1 =
     (let o2 = o1\<lparr>dp_has_loc := dp_has_loc p \<or> dp_has_loc o1, dp_has_const_value := dp_has_const_value p \<or> dp_has_const_value o1,
                 dp_loc_const_value := dp_loc_const_value p \<or> dp_loc_const_value o1,
                 dp_loc_stack := dp_loc_stack p \<or> dp_loc_stack o1,
                 dp_loc_reg := (if dp_loc_reg p \<noteq> PARAMETER_UNKNOWN_REG then dp_loc_reg p else dp_loc_reg o1),
                 dp_loc_reg2 := (if dp_loc_reg2 p \<noteq> PARAMETER_UNKNOWN_REG then dp_loc_reg2 p else dp_loc_reg2 o1)\<rparr>;
          o3 = (if dp_has_const_value p \<or> dp_loc_const_value p \<or> dp_loc_stack p \<or> dp_loc_reg p \<noteq> PARAMETER_UNKNOWN_REG
                then o2\<lparr>dp_loc_offset := dp_loc_offset p, dp_loc_value := dp_loc_value p, dp_loc_size := dp_loc_size p,
                        dp_loc_deref := dp_loc_deref p, dp_loc_addr := dp_loc_addr p, dp_loc_signed := dp_loc_signed p\<rparr>
                else o2);
          o4 = o3\<lparr>dp_type_byte_size := (if dp_type_byte_size p \<noteq> 0 then dp_type_byte_size p else dp_type_byte_size o3),
                  dp_passed_in_memory := dp_passed_in_memory p \<or> dp_passed_in_memory o3,
                  dp_first_reg_fields := dp_first_reg_fields o3 OR dp_first_reg_fields p,
                  dp_second_reg_fields := dp_second_reg_fields o3 OR dp_second_reg_fields p\<rparr>;
          o5 = (if dp_true_sig_member_name p \<noteq> None \<and> dp_true_sig_member_name o4 = None
                then o4\<lparr>dp_true_sig_member_name := dp_true_sig_member_name p, dp_true_sig_type := dp_true_sig_type p,
                        dp_true_sig_type_from_types := dp_true_sig_type_from_types p\<rparr>
                else o4)
      in o5\<lparr>dp_optimized := dp_optimized p \<or> dp_optimized o5, dp_unexpected_reg := dp_unexpected_reg p \<or> dp_unexpected_reg o5\<rparr>)"

end
