(* ===== verification/DwarfLookupSpec.thy ===== *)
theory DwarfLookupSpec
  imports DwarfLookup Tagtree
begin

text \<open>
  What the tables of the DWARF loader promise: a reference finds the tag at its offset, whatever was looked up before,
  and dropping the partial units nothing refers to removes their tags and no others.
\<close>

section \<open>The search of the partial units\<close>

definition in_pu :: "dwarf_off \<Rightarrow> alt_pu \<Rightarrow> bool" where
  "in_pu off p \<longleftrightarrow> pu_start p \<le> off \<and> off < pu_end p"

definition pus_ok :: "alt_pu list \<Rightarrow> bool" where
  "pus_ok pus \<longleftrightarrow> (\<forall>p \<in> set pus. pu_start p \<le> pu_end p) \<and> sorted_wrt (\<lambda>p q. pu_end p \<le> pu_start q) pus"

definition pu_is_hit :: "alt_pu list \<Rightarrow> dwarf_off \<Rightarrow> bool" where
  "pu_is_hit pus off \<longleftrightarrow> (\<exists>p \<in> set pus. in_pu off p \<and> pu_hit p)"

lemma pus_order:
  assumes "pus_ok pus" "i < j" "j < length pus"
  shows "pu_start (pus ! i) \<le> pu_end (pus ! i)" "pu_end (pus ! i) \<le> pu_start (pus ! j)"
    "pu_start (pus ! j) \<le> pu_end (pus ! j)"
  using assms by (auto simp: pus_ok_def sorted_wrt_iff_nth_less)

lemma in_one_pu: "pus_ok pus \<Longrightarrow> i < length pus \<Longrightarrow> j < length pus \<Longrightarrow> in_pu off (pus ! i) \<Longrightarrow> in_pu off (pus ! j) \<Longrightarrow> i = j"
proof (rule ccontr)
  assume a: "pus_ok pus" "i < length pus" "j < length pus" "in_pu off (pus ! i)" "in_pu off (pus ! j)" "i \<noteq> j"
  then consider "i < j" | "j < i" by linarith
  then show False
    using a pus_order(2) [of pus i j] pus_order(2) [of pus j i] unfolding in_pu_def by cases (meson leD less_le_trans le_less_trans)+
qed

lemma alt_pu_search_step:
  assumes "lo < hi" "mid = lo + (hi - lo) div 2" "mid < length pus"
  shows "alt_pu_search pus off lo hi =
           (if off < pu_start (pus ! mid) then alt_pu_search pus off lo mid
            else if pu_end (pus ! mid) \<le> off then alt_pu_search pus off (mid + 1) hi else Inr (Some mid))"
  using assms(1,3) unfolding assms(2) by (subst alt_pu_search.simps) (simp only: Let_def if_True)

lemma alt_pu_search_ok:
  assumes "pus_ok pus" "hi \<le> length pus" "\<forall>i < lo. pu_end (pus ! i) \<le> off"
    "\<forall>i < length pus. hi \<le> i \<longrightarrow> off < pu_start (pus ! i)"
  shows "\<exists>r. alt_pu_search pus off lo hi = Inr r \<and>
           (case r of None \<Rightarrow> \<forall>p \<in> set pus. \<not> in_pu off p | Some i \<Rightarrow> i < length pus \<and> in_pu off (pus ! i))"
  using assms
proof (induction pus off lo hi rule: alt_pu_search.induct)
  case (1 pus off lo hi)
  let ?mid = "lo + (hi - lo) div 2"
  show ?case
  proof (cases "lo < hi")
    case False
    then have "\<not> in_pu off (pus ! i)" if "i < length pus" for i
      using "1.prems"(3,4) that unfolding in_pu_def by (metis leD le_less_linear le_trans not_less)
    with False show ?thesis by (subst alt_pu_search.simps) (auto simp: in_set_conv_nth)
  next
    case True
    then have mid: "lo \<le> ?mid" "?mid < hi" "?mid < length pus" using "1.prems"(2) by auto
    note step = alt_pu_search_step [OF True refl mid(3), of off]
    consider "off < pu_start (pus ! ?mid)" | "\<not> off < pu_start (pus ! ?mid)" "pu_end (pus ! ?mid) \<le> off"
      | "\<not> off < pu_start (pus ! ?mid)" "\<not> pu_end (pus ! ?mid) \<le> off" by blast
    then show ?thesis
    proof cases
      case 1
      have "off < pu_start (pus ! i)" if "i < length pus" "?mid \<le> i" for i
      proof (cases "i = ?mid")
        case False
        with that have "?mid < i" by linarith
        from pus_order [OF "1.prems"(1) this that(1)] 1 show ?thesis by (meson less_le_trans order.trans)
      qed (use 1 in simp)
      then have up: "\<forall>i < length pus. ?mid \<le> i \<longrightarrow> off < pu_start (pus ! i)" by blast
      show ?thesis
        using "1.IH"(1) [OF True refl mid(3) 1 "1.prems"(1) less_imp_le [OF mid(3)] "1.prems"(3) up]
        by (simp only: step 1 if_True)
    next
      case 2
      have "pu_end (pus ! i) \<le> off" if "i < ?mid + 1" for i
      proof (cases "i = ?mid")
        case False
        with that have "i < ?mid" by linarith
        from pus_order [OF "1.prems"(1) this mid(3)] 2(2) show ?thesis by (meson order.trans)
      qed (use 2 in simp)
      then have low: "\<forall>i < ?mid + 1. pu_end (pus ! i) \<le> off" by blast
      show ?thesis
        using "1.IH"(2) [OF True refl mid(3) 2 "1.prems"(1,2) low "1.prems"(4)]
        by (simp only: step 2 if_True if_False)
    next
      case 3
      then have "in_pu off (pus ! ?mid)" by (simp add: in_pu_def not_less not_le)
      with mid(3) have "case Some ?mid of None \<Rightarrow> \<forall>p \<in> set pus. \<not> in_pu off p
          | Some i \<Rightarrow> i < length pus \<and> in_pu off (pus ! i)" by (simp only: option.case)
      moreover have "alt_pu_search pus off lo hi = Inr (Some ?mid)" by (simp only: step 3 if_False)
      ultimately show ?thesis by blast
    qed
  qed
qed

lemma find_alt_pu_ok:
  assumes "pus_ok pus"
  shows "\<exists>r. dwarf_cu__find_alt_pu pus off = Inr r \<and>
           (case r of None \<Rightarrow> \<forall>p \<in> set pus. \<not> in_pu off p | Some i \<Rightarrow> i < length pus \<and> in_pu off (pus ! i))"
  using alt_pu_search_ok [OF assms, of "length pus" 0 off] by (simp add: dwarf_cu__find_alt_pu_def)

lemma alt_pu_is_hit_ok:
  assumes "pus_ok pus"
  shows "dwarf_cu__alt_pu_is_hit pus off = Inr (pu_is_hit pus off)"
proof -
  obtain r where r: "dwarf_cu__find_alt_pu pus off = Inr r"
    "case r of None \<Rightarrow> \<forall>p \<in> set pus. \<not> in_pu off p | Some i \<Rightarrow> i < length pus \<and> in_pu off (pus ! i)"
    using find_alt_pu_ok [OF assms] by blast
  show ?thesis
  proof (cases r)
    case None
    with r show ?thesis by (auto simp: dwarf_cu__alt_pu_is_hit_def pu_is_hit_def)
  next
    case (Some i)
    with r(2) have i: "i < length pus" "in_pu off (pus ! i)" by auto
    have "pu_is_hit pus off = pu_hit (pus ! i)"
    proof
      assume "pu_is_hit pus off"
      then obtain j where "j < length pus" "in_pu off (pus ! j)" "pu_hit (pus ! j)"
        unfolding pu_is_hit_def by (metis in_set_conv_nth)
      with in_one_pu [OF assms i(1) _ i(2)] show "pu_hit (pus ! i)" by metis
    qed (use i in \<open>auto simp: pu_is_hit_def\<close>)
    with r Some show ?thesis by (simp add: dwarf_cu__alt_pu_is_hit_def)
  qed
qed

text \<open>The units come in the order of the file, so adding them keeps the order.\<close>

lemma add_alt_pu_ok:
  assumes "pus_ok (du_alt_pus u)" "start \<le> stop" "\<forall>p \<in> set (du_alt_pus u). pu_end p \<le> start"
    "dwarf_cu__add_alt_pu h u start stop = Some u'"
  shows "pus_ok (du_alt_pus u')"
proof -
  from assms(4) have "du_alt_pus u' = du_alt_pus u @ [\<lparr>pu_start = start, pu_end = stop, pu_hit = False\<rparr>]"
    unfolding dwarf_cu__add_alt_pu_def Let_def by (fastforce split: if_split_asm)
  with assms(1-3) show ?thesis by (simp add: pus_ok_def sorted_wrt_append)
qed

lemma pus_ok_hit: "pus_ok pus \<Longrightarrow> pus_ok (pus[i := (pus ! i)\<lparr>pu_hit := True\<rparr>])"
  by (cases "i < length pus")
    (auto simp: pus_ok_def sorted_wrt_iff_nth_less nth_list_update set_conv_nth split: if_splits)

section \<open>The tables\<close>

definition tab_set :: "nat list list \<Rightarrow> nat set" where
  "tab_set t = set (concat t)"

definition tab_ok :: "nat \<Rightarrow> (nat \<Rightarrow> dwarf_tag) \<Rightarrow> nat list list \<Rightarrow> bool" where
  "tab_ok bits dtags t \<longleftrightarrow>
     length t = 2 ^ bits \<and> inj_on (\<lambda>x. dt_id (dtags x)) (tab_set t) \<and> (\<forall>b < 2 ^ bits. distinct (t ! b)) \<and>
     (\<forall>b < 2 ^ bits. \<forall>x \<in> set (t ! b). hashtags__fn bits (dt_id (dtags x)) = Inr b)"

definition tab_lookup :: "(nat \<Rightarrow> dwarf_tag) \<Rightarrow> nat list list \<Rightarrow> dwarf_off \<Rightarrow> nat option" where
  "tab_lookup dtags t ref =
     (if ref = 0 then None else List.find (\<lambda>x. dt_id (dtags x) = ref) (concat t))"

lemma hashtags__fn_ok:
  assumes "0 < bits" "bits \<le> 32"
  shows "\<exists>b. hashtags__fn bits key = Inr b \<and> b < 2 ^ bits"
proof -
  obtain r where r: "hash_64 key bits = Some r" "unat r < 2 ^ bits" using hash_64_ok [of bits key] assms by auto
  have "(2::nat) ^ bits \<le> 2 ^ 32" using assms by (intro power_increasing) auto
  with r show ?thesis by (simp add: hashtags__fn_def)
qed

lemma in_tab_set: "x \<in> tab_set t \<longleftrightarrow> (\<exists>b < length t. x \<in> set (t ! b))"
proof
  assume "x \<in> tab_set t"
  then obtain ys where "ys \<in> set t" "x \<in> set ys" by (auto simp: tab_set_def)
  then show "\<exists>b < length t. x \<in> set (t ! b)" by (auto simp: in_set_conv_nth [of ys])
qed (auto simp: tab_set_def)

lemma find_SomeD: "List.find P xs = Some x \<Longrightarrow> x \<in> set xs \<and> P x"
  by (auto simp: find_Some_iff)

lemma tab_lookup_Some:
  assumes "tab_ok bits dtags t"
  shows "tab_lookup dtags t ref = Some x \<longleftrightarrow> ref \<noteq> 0 \<and> x \<in> tab_set t \<and> dt_id (dtags x) = ref"
proof
  assume "tab_lookup dtags t ref = Some x"
  then show "ref \<noteq> 0 \<and> x \<in> tab_set t \<and> dt_id (dtags x) = ref"
    by (auto simp: tab_lookup_def tab_set_def dest: find_SomeD split: if_splits)
next
  assume x: "ref \<noteq> 0 \<and> x \<in> tab_set t \<and> dt_id (dtags x) = ref"
  then have "List.find (\<lambda>x. dt_id (dtags x) = ref) (concat t) \<noteq> None"
    by (auto simp: find_None_iff tab_set_def)
  then obtain y where y: "List.find (\<lambda>x. dt_id (dtags x) = ref) (concat t) = Some y" by blast
  with x have "y = x"
    using assms find_SomeD [OF y] by (auto simp: tab_ok_def tab_set_def inj_on_def)
  with x y show "tab_lookup dtags t ref = Some x" by (simp add: tab_lookup_def)
qed

lemma hashtags__find_ok:
  assumes "tab_ok bits dtags t" "0 < bits" "bits \<le> 32"
  shows "hashtags__find bits dtags t ref = Inr (tab_lookup dtags t ref)"
proof (cases "ref = 0")
  case False
  obtain b where b: "hashtags__fn bits ref = Inr b" "b < length t"
    using hashtags__fn_ok [OF assms(2,3), of ref] assms(1) by (auto simp: tab_ok_def)
  have "List.find (\<lambda>x. dt_id (dtags x) = ref) (t ! b) = tab_lookup dtags t ref"
  proof (cases "tab_lookup dtags t ref")
    case None
    then have "\<forall>x \<in> set (concat t). dt_id (dtags x) \<noteq> ref"
      using False by (simp add: tab_lookup_def find_None_iff) blast
    then have "\<forall>x \<in> set (t ! b). dt_id (dtags x) \<noteq> ref" using nth_mem [OF b(2)] by auto
    with None show ?thesis by (simp add: find_None_iff)
  next
    case (Some x)
    then have x: "x \<in> tab_set t" "dt_id (dtags x) = ref" using tab_lookup_Some [OF assms(1)] by auto
    then have "x \<in> set (t ! b)" using assms(1) b(1) by (force simp: in_tab_set tab_ok_def)
    then have "List.find (\<lambda>x. dt_id (dtags x) = ref) (t ! b) \<noteq> None" using x(2) by (auto simp: find_None_iff)
    then obtain y where y: "List.find (\<lambda>x. dt_id (dtags x) = ref) (t ! b) = Some y" by blast
    then have "y \<in> tab_set t" "dt_id (dtags y) = ref" using find_SomeD [OF y] b(2) by (auto simp: in_tab_set)
    with x assms(1) have "y = x" by (auto simp: tab_ok_def inj_on_def)
    with y Some show ?thesis by simp
  qed
  with b False show ?thesis by (simp add: hashtags__find_def)
qed (simp add: hashtags__find_def tab_lookup_def)

lemma hashtags__hash_ok:
  assumes t: "tab_ok bits dtags t" and b: "0 < bits" "bits \<le> 32"
    and x: "\<forall>y \<in> tab_set t. dt_id (dtags y) \<noteq> dt_id (dtags x)"
  shows "\<exists>t'. hashtags__hash bits dtags t x = Inr t' \<and> tab_ok bits dtags t' \<and> tab_set t' = insert x (tab_set t) \<and>
           tab_lookup dtags t' = (\<lambda>ref. if ref \<noteq> 0 \<and> ref = dt_id (dtags x) then Some x else tab_lookup dtags t ref)"
proof -
  obtain c where c: "hashtags__fn bits (dt_id (dtags x)) = Inr c" "c < 2 ^ bits" using hashtags__fn_ok [OF b] by blast
  let ?t = "t[c := x # t ! c]"
  have len: "length t = 2 ^ bits" using t by (simp add: tab_ok_def)
  have s: "tab_set ?t = insert x (tab_set t)"
    using c(2) len by (auto simp: in_tab_set nth_list_update split: if_splits)
  have xn: "x \<notin> set (t ! c)" using x c(2) len by (auto simp: in_tab_set)
  have ok: "tab_ok bits dtags ?t"
    unfolding tab_ok_def s using t c len xn x by (auto simp: tab_ok_def nth_list_update inj_on_def)
  have "tab_lookup dtags ?t ref = (if ref \<noteq> 0 \<and> ref = dt_id (dtags x) then Some x else tab_lookup dtags t ref)" for ref
  proof (cases "tab_lookup dtags ?t ref")
    case None
    then have "\<not> (ref \<noteq> 0 \<and> y \<in> insert x (tab_set t) \<and> dt_id (dtags y) = ref)" for y
      using tab_lookup_Some [OF ok, of ref y] s by simp
    then show ?thesis using None tab_lookup_Some [OF t, of ref] by (cases "tab_lookup dtags t ref") auto
  next
    case (Some y)
    then show ?thesis
      using tab_lookup_Some [OF ok, of ref y] tab_lookup_Some [OF t, of ref y] s x by auto
  qed
  with ok s c len show ?thesis by (auto simp: hashtags__hash_def)
qed


section \<open>The type found last\<close>

definition dcu_ok :: "nat \<Rightarrow> (nat \<Rightarrow> dwarf_tag) \<Rightarrow> dwarf_cu \<Rightarrow> bool" where
  "dcu_ok bits dtags dcu \<longleftrightarrow>
     tab_ok bits dtags (dc_hash_types dcu) \<and> tab_ok bits dtags (dc_hash_tags dcu) \<and>
     (\<forall>x. dc_last_type_lookup dcu = Dtag x \<longrightarrow> x \<in> tab_set (dc_hash_types dcu) \<and> dt_id (dtags x) \<noteq> 0)"

text \<open>No entry is at offset \<open>ULLONG_MAX\<close>, that of the sentinel, so a reference finds what the table holds.\<close>

lemma find_type_in_ok:
  assumes "dcu_ok bits dtags dcu" "0 < bits" "bits \<le> 32" "ref \<noteq> - 1"
  shows "\<exists>dcu'. find_type_in bits dtags dcu ref = Inr (map_option Dtag (tab_lookup dtags (dc_hash_types dcu) ref), dcu') \<and>
           dcu_ok bits dtags dcu' \<and> dc_hash_types dcu' = dc_hash_types dcu \<and> dc_hash_tags dcu' = dc_hash_tags dcu"
proof -
  have t: "tab_ok bits dtags (dc_hash_types dcu)" using assms(1) by (simp add: dcu_ok_def)
  note find = hashtags__find_ok [OF t assms(2,3), of ref]
  show ?thesis
  proof (cases "dtag_id dtags (dc_last_type_lookup dcu) = ref")
    case True
    with assms(4) obtain x where x: "dc_last_type_lookup dcu = Dtag x" "dt_id (dtags x) = ref"
      by (cases "dc_last_type_lookup dcu") (auto simp: dtag_id_def)
    with assms(1) have "tab_lookup dtags (dc_hash_types dcu) ref = Some x"
      by (auto simp: tab_lookup_Some [OF t] dcu_ok_def)
    with x True assms(1) show ?thesis by (simp add: find_type_in_def)
  next
    case False
    then show ?thesis
      using assms(1) find tab_lookup_Some [OF t, of ref]
      by (cases "tab_lookup dtags (dc_hash_types dcu) ref") (auto simp: find_type_in_def dcu_ok_def)
  qed
qed

section \<open>Dropping tags\<close>

text \<open>What is left of a unit when the entries with the indices \<open>D\<close> are dropped.\<close>

definition cu_dropped :: "cu \<Rightarrow> (cu_table \<Rightarrow> nat set) \<Rightarrow> cu \<Rightarrow> bool" where
  "cu_dropped cu D cu' \<longleftrightarrow>
     cu_ok cu' \<and>
     (\<forall>tb. pt_allocated_entries (cu_get_table cu' tb) = pt_allocated_entries (cu_get_table cu tb)) \<and>
     (\<forall>tb. pt_lookup (cu_get_table cu' tb) = (\<lambda>i. if i \<in> D tb then None else pt_lookup (cu_get_table cu tb) i)) \<and>
     inorder (cu_functions cu') = filter (\<lambda>f. fk_id f \<notin> D Functions) (inorder (cu_functions cu))"

lemma cu_dropped_refl: "cu_ok cu \<Longrightarrow> cu_dropped cu (\<lambda>_. {}) cu"
  by (simp add: cu_dropped_def)

lemma cu_ok_tables: "cu_ok cu \<Longrightarrow> pt_inv (cu_get_table cu tb)"
  by (simp add: cu_ok_def cu_inv_tables)

lemma clear_entry_ok:
  assumes "cu_ok cu" "i < pt_allocated_entries (cu_get_table cu tb)"
  shows "\<exists>cu'. clear_entry tb i cu = Inr cu' \<and> cu_ok cu' \<and> cu_functions cu' = cu_functions cu \<and>
           (\<forall>tb'. pt_allocated_entries (cu_get_table cu' tb') = pt_allocated_entries (cu_get_table cu tb')) \<and>
           (\<forall>tb'. pt_lookup (cu_get_table cu' tb') =
              (if tb' = tb then (pt_lookup (cu_get_table cu tb))(i := None) else pt_lookup (cu_get_table cu tb')))"
proof -
  let ?pt = "cu_get_table cu tb"
  let ?pt' = "?pt\<lparr>pt_entries := (pt_entries ?pt)[i := None]\<rparr>"
  have inv: "pt_inv ?pt" using assms(1) by (rule cu_ok_tables)
  then have "i < length (pt_entries ?pt)" using assms(2) by (simp add: pt_inv_def)
  then have eq: "clear_entry tb i cu = Inr (cu_set_table cu tb ?pt')"
    by (simp add: clear_entry_def ptr_table_store_def)
  have inv': "pt_inv ?pt'"
    using inv \<open>i < length (pt_entries ?pt)\<close> by (auto simp: pt_inv_def nth_list_update)
  have "pt_lookup ?pt' = (pt_lookup ?pt)(i := None)"
    using inv \<open>i < length (pt_entries ?pt)\<close> by (auto simp: pt_lookup_def fun_eq_iff nth_list_update)
  with eq cu_ok_set_table [OF assms(1) inv'] show ?thesis by auto
qed

lemma fn_node_path_ok:
  "case fn_node_path i t ps of
     None \<Rightarrow> \<forall>f \<in> set (inorder t). fk_id f \<noteq> i
   | Some z \<Rightarrow> \<exists>f. rb_node_at (rb_plug ps t) z f \<and> fk_id f = i"
proof (induction i t ps rule: fn_node_path.induct)
  case (2 i c l f r ps)
  show ?case
  proof (cases "fk_id f = i")
    case True
    then show ?thesis by (auto simp: rb_node_at_def z_tree_def)
  next
    case False
    then show ?thesis
      using 2 by (auto split: option.splits)
  qed
qed simp

lemma erase_function_ok:
  assumes "cu_ok cu" "f \<in> set (inorder (cu_functions cu))" "fk_id f = i" "distinct (map fk_id (inorder (cu_functions cu)))"
  shows "\<exists>t. cu_erase_function cu i = Inr (cu\<lparr>cu_functions := t\<rparr>) \<and> cu_ok (cu\<lparr>cu_functions := t\<rparr>) \<and>
           inorder t = filter (\<lambda>f. fk_id f \<noteq> i) (inorder (cu_functions cu))"
proof -
  let ?t = "cu_functions cu"
  from fn_node_path_ok [where i = i and t = ?t and ps = "[]"] assms(2,3) obtain z g where
    z: "fn_node_path i ?t [] = Some z" "rb_node_at ?t z g" "fk_id g = i"
    by (auto split: option.splits)
  from rb.erase_sorted [OF _ z(2), of "\<lambda>a b. fk_addr a \<le> fk_addr b"] assms(1) obtain u where
    u: "rb_erase z = Some u" "rb_inv u" "sorted_wrt (\<lambda>a b. fk_addr a \<le> fk_addr b) (inorder u)"
      "inorder u = z_before z @ z_after z"
    by (auto simp: cu_ok_def)
  have keys: "inorder ?t = z_before z @ g # z_after z" using rb.node_keys [OF z(2)] .
  with assms(4) z(3) have "\<forall>f \<in> set (z_before z) \<union> set (z_after z). fk_id f \<noteq> i"
    by auto (metis imageI)+
  with keys z(3) have "filter (\<lambda>f. fk_id f \<noteq> i) (inorder ?t) = z_before z @ z_after z"
    by (simp add: filter_id_conv)
  with u z(1) assms(1) show ?thesis
    by (auto simp: cu_erase_function_def cu_ok_def cu_inv_def)
qed

lemma unlink_tag_simps [simp]:
  "cu_get_table (unlink_tag tb d cu) tb' = cu_get_table cu tb'"
  "cu_functions (unlink_tag tb d cu) = cu_functions cu"
  "cu_ok (unlink_tag tb d cu) = cu_ok cu"
  by (cases tb'; simp add: unlink_tag_def cu_ok_def cu_inv_def)+

text \<open>One more entry is dropped.\<close>

lemma drop_tag_ok:
  assumes ok: "cu_ok cu" and d: "cu_dropped cu D cu1" and i: "dt_small_id d < pt_allocated_entries (cu_get_table cu tb)"
    and f: "tb = Functions \<Longrightarrow> distinct (map fk_id (inorder (cu_functions cu))) \<and>
        dt_small_id d \<in> fk_id ` set (inorder (cu_functions cu)) \<and> dt_small_id d \<notin> D Functions"
  shows "\<exists>cu2. drop_tag tb d cu1 = Inr cu2 \<and> cu_dropped cu (D(tb := insert (dt_small_id d) (D tb))) cu2"
proof -
  let ?i = "dt_small_id d" and ?u = "unlink_tag tb d cu1"
  have ok1: "cu_ok ?u" using d by (simp add: cu_dropped_def)
  have "\<exists>cu2. (if tb = Functions then cu_erase_function ?u ?i else Inr ?u) = Inr cu2 \<and> cu_ok cu2 \<and>
      (\<forall>tb'. cu_get_table cu2 tb' = cu_get_table cu1 tb') \<and>
      inorder (cu_functions cu2) = filter (\<lambda>f. fk_id f \<notin> (D(tb := insert ?i (D tb))) Functions) (inorder (cu_functions cu))"
  proof (cases "tb = Functions")
    case False
    with d ok1 show ?thesis by (auto simp: cu_dropped_def)
  next
    case True
    from f [OF True] obtain g where g: "g \<in> set (inorder (cu_functions cu))" "fk_id g = ?i" by auto
    have keys: "inorder (cu_functions cu1) = filter (\<lambda>f. fk_id f \<notin> D Functions) (inorder (cu_functions cu))"
      using d by (simp add: cu_dropped_def)
    have "g \<in> set (inorder (cu_functions ?u))" "distinct (map fk_id (inorder (cu_functions ?u)))"
      using f [OF True] g by (simp_all add: keys distinct_map_filter)
    from erase_function_ok [OF ok1 this(1) g(2) this(2)] True show ?thesis
      by (auto simp: keys filter_filter conj_commute intro!: filter_cong)
  qed
  then obtain cu2 where cu2: "(if tb = Functions then cu_erase_function ?u ?i else Inr ?u) = Inr cu2" "cu_ok cu2"
    "\<forall>tb'. cu_get_table cu2 tb' = cu_get_table cu1 tb'"
    "inorder (cu_functions cu2) = filter (\<lambda>f. fk_id f \<notin> (D(tb := insert ?i (D tb))) Functions) (inorder (cu_functions cu))"
    by blast
  have "?i < pt_allocated_entries (cu_get_table cu2 tb)" using i d cu2(3) by (simp add: cu_dropped_def)
  from clear_entry_ok [OF cu2(2) this] obtain cu3 where
    cu3: "clear_entry tb ?i cu2 = Inr cu3" "cu_ok cu3" "cu_functions cu3 = cu_functions cu2"
      "\<forall>tb'. pt_allocated_entries (cu_get_table cu3 tb') = pt_allocated_entries (cu_get_table cu2 tb')"
      "\<forall>tb'. pt_lookup (cu_get_table cu3 tb') =
         (if tb' = tb then (pt_lookup (cu_get_table cu2 tb))(?i := None) else pt_lookup (cu_get_table cu2 tb'))"
    by blast
  have "cu_dropped cu (D(tb := insert ?i (D tb))) cu3"
    unfolding cu_dropped_def using cu3 cu2(3,4) d by (auto simp: cu_dropped_def fun_eq_iff)
  with cu2(1) cu3(1) show ?thesis by (auto simp: drop_tag_def Let_def)
qed


definition bucket_table :: "bool \<Rightarrow> dwarf_tag \<Rightarrow> cu_table" where
  "bucket_table types d = (if types then Types else dtag_table d)"

text \<open>The tags of the alternate file and the entries of the unit that belong to them.\<close>

definition prune_ready :: "nat \<Rightarrow> dwarf_unit \<Rightarrow> dwarf_cu \<Rightarrow> bool" where
  "prune_ready bits u alt \<longleftrightarrow>
     du_alt u = Some alt \<and> 0 < bits \<and> bits \<le> 32 \<and> pus_ok (du_alt_pus u) \<and> du_alt_pus u \<noteq> [] \<and> cu_ok (du_cu u) \<and>
     (\<forall>ty. tab_ok bits (du_dtags u) (dc_table ty alt)) \<and> dc_last_type_lookup alt = Sentinel \<and>
     (\<forall>ty. \<forall>x \<in> tab_set (dc_table ty alt). dt_small_id (du_dtags u x) <
        pt_allocated_entries (cu_get_table (du_cu u) (bucket_table ty (du_dtags u x)))) \<and>
     distinct (map fk_id (inorder (cu_functions (du_cu u)))) \<and>
     (\<forall>x \<in> tab_set (dc_hash_tags alt). dtag_table (du_dtags u x) = Functions \<longrightarrow>
        dt_small_id (du_dtags u x) \<in> fk_id ` set (inorder (cu_functions (du_cu u)))) \<and>
     inj_on (\<lambda>x. dt_small_id (du_dtags u x)) {x \<in> tab_set (dc_hash_tags alt). dtag_table (du_dtags u x) = Functions}"

text \<open>The indices of the tags \<open>X ty\<close> that are not referred to.\<close>

definition unhit_ids :: "dwarf_unit \<Rightarrow> (bool \<Rightarrow> nat set) \<Rightarrow> cu_table \<Rightarrow> nat set" where
  "unhit_ids u X tb =
     {dt_small_id (du_dtags u x) | x ty. x \<in> X ty \<and> bucket_table ty (du_dtags u x) = tb \<and>
        \<not> pu_is_hit (du_alt_pus u) (dt_id (du_dtags u x))}"

definition prune_state :: "dwarf_unit \<Rightarrow> dwarf_cu \<Rightarrow> (bool \<Rightarrow> nat set) \<Rightarrow> cu \<times> dwarf_cu \<Rightarrow> bool" where
  "prune_state u alt X s \<longleftrightarrow>
     cu_dropped (du_cu u) (unhit_ids u X) (fst s) \<and> dc_last_type_lookup (snd s) = dc_last_type_lookup alt \<and>
     (\<forall>ty. dc_table ty (snd s) =
        map (filter (\<lambda>x. pu_is_hit (du_alt_pus u) (dt_id (du_dtags u x)) \<or> x \<notin> X ty)) (dc_table ty alt))"

lemma dc_table_simps [simp]:
  "dc_table ty (dc_set_table ty' dcu t) = (if ty = ty' then t else dc_table ty dcu)"
  "dc_last_type_lookup (dc_set_table ty' dcu t) = dc_last_type_lookup dcu"
  by (auto simp: dc_table_def dc_set_table_def)

lemma dtag_table_not_Types: "dtag_table d \<noteq> Types"
  by (simp add: dtag_table_def)

lemma prune_one_ok:
  assumes r: "prune_ready bits u alt" and s: "prune_state u alt X s"
    and x: "i < 2 ^ bits" "x \<in> set (dc_table ty alt ! i)" "x \<notin> X ty" "X False \<subseteq> tab_set (dc_hash_tags alt)"
  shows "\<exists>s'. prune_one ty (du_dtags u) (du_alt_pus u) i x s = Inr s' \<and> prune_state u alt (X(ty := insert x (X ty))) s'"
proof -
  let ?d = "du_dtags u x" and ?X = "X(ty := insert x (X ty))"
  let ?hit = "pu_is_hit (du_alt_pus u) (dt_id ?d)" and ?tb = "bucket_table ty ?d"
  obtain cu1 alt1 where s_eq: "s = (cu1, alt1)" by (cases s)
  have t: "tab_ok bits (du_dtags u) (dc_table ty alt)" using r by (simp add: prune_ready_def)
  have len: "length (dc_table ty alt) = 2 ^ bits" using t by (simp add: tab_ok_def)
  have xt: "x \<in> tab_set (dc_table ty alt)" using x(1,2) len by (auto simp: in_tab_set)
  have hit: "dwarf_cu__alt_pu_is_hit (du_alt_pus u) (dt_id ?d) = Inr ?hit"
    using r by (simp add: prune_ready_def alt_pu_is_hit_ok)
  show ?thesis
  proof (cases ?hit)
    case True
    then have "unhit_ids u ?X = unhit_ids u X" by (auto simp: unhit_ids_def fun_eq_iff)
    moreover have "(\<lambda>y. pu_is_hit (du_alt_pus u) (dt_id (du_dtags u y)) \<or> y \<notin> ?X ty') =
        (\<lambda>y. pu_is_hit (du_alt_pus u) (dt_id (du_dtags u y)) \<or> y \<notin> X ty')" for ty'
      using True by (auto simp: fun_eq_iff)
    ultimately have "prune_state u alt ?X = prune_state u alt X" by (intro ext) (simp only: prune_state_def)
    with s True hit s_eq show ?thesis by (simp add: prune_one_def)
  next
    case False
    have D: "cu_dropped (du_cu u) (unhit_ids u X) cu1" using s s_eq by (simp add: prune_state_def)
    have fn: "distinct (map fk_id (inorder (cu_functions (du_cu u)))) \<and>
        dt_small_id ?d \<in> fk_id ` set (inorder (cu_functions (du_cu u))) \<and> dt_small_id ?d \<notin> unhit_ids u X Functions"
      if "?tb = Functions"
    proof -
      from that have ty: "ty = False" "dtag_table ?d = Functions" by (auto simp: bucket_table_def split: if_splits)
      have xw: "x \<in> tab_set (dc_hash_tags alt)" using xt ty(1) by (simp add: dc_table_def)
      have "dt_small_id ?d \<notin> unhit_ids u X Functions"
      proof
        assume "dt_small_id ?d \<in> unhit_ids u X Functions"
        then obtain y where y: "y \<in> X False" "dtag_table (du_dtags u y) = Functions"
            "dt_small_id (du_dtags u y) = dt_small_id ?d"
          by (auto simp: unhit_ids_def bucket_table_def split: if_splits)
        have "inj_on (\<lambda>x. dt_small_id (du_dtags u x))
            {x \<in> tab_set (dc_hash_tags alt). dtag_table (du_dtags u x) = Functions}"
          using r by (simp add: prune_ready_def)
        from inj_onD [OF this, of y x] y xw ty x(4) have "y = x" by auto
        with y(1) x(3) ty(1) show False by simp
      qed
      with r xw ty show ?thesis by (simp add: prune_ready_def)
    qed
    have ok: "cu_ok (du_cu u)" "dt_small_id ?d < pt_allocated_entries (cu_get_table (du_cu u) ?tb)"
      using r xt by (auto simp: prune_ready_def)
    from drop_tag_ok [OF ok(1) D ok(2) fn] obtain cu2 where
      cu2: "drop_tag ?tb ?d cu1 = Inr cu2"
        "cu_dropped (du_cu u) ((unhit_ids u X)(?tb := insert (dt_small_id ?d) (unhit_ids u X ?tb))) cu2" by blast
    have ids: "(unhit_ids u X)(?tb := insert (dt_small_id ?d) (unhit_ids u X ?tb)) = unhit_ids u ?X"
      using False by (auto simp: unhit_ids_def fun_eq_iff split: if_splits)
    let ?P = "\<lambda>X ty' y. pu_is_hit (du_alt_pus u) (dt_id (du_dtags u y)) \<or> y \<notin> X ty'"
    have tables: "dc_table ty' alt1 = map (filter (?P X ty')) (dc_table ty' alt)" for ty'
      using s s_eq by (simp add: prune_state_def)
    have bucket: "(dc_table ty alt1)[i := remove1 x (dc_table ty alt1 ! i)] = map (filter (?P ?X ty)) (dc_table ty alt)"
    proof (rule nth_equalityI)
      fix j assume "j < length ((dc_table ty alt1)[i := remove1 x (dc_table ty alt1 ! i)])"
      then have j: "j < length (dc_table ty alt)" by (simp add: tables)
      show "(dc_table ty alt1)[i := remove1 x (dc_table ty alt1 ! i)] ! j = map (filter (?P ?X ty)) (dc_table ty alt) ! j"
      proof (cases "j = i")
        case True
        have "distinct (dc_table ty alt ! i)" using t x(1) by (simp add: tab_ok_def)
        then have "remove1 x (filter (?P X ty) (dc_table ty alt ! i)) = filter (?P ?X ty) (dc_table ty alt ! i)"
          using False by (auto simp: distinct_remove1_removeAll removeAll_filter_not_eq filter_filter intro!: filter_cong)
        with True j show ?thesis by (simp add: tables)
      next
        case other: False
        have "x \<notin> set (dc_table ty alt ! j)" using t x(1,2) j other unfolding tab_ok_def by (metis sum.inject(2))
        then have "filter (?P X ty) (dc_table ty alt ! j) = filter (?P ?X ty) (dc_table ty alt ! j)"
          by (intro filter_cong) auto
        with other j show ?thesis by (simp add: tables)
      qed
    qed (simp add: tables)
    have "prune_state u alt ?X (cu2, dc_set_table ty alt1 ((dc_table ty alt1)[i := remove1 x (dc_table ty alt1 ! i)]))"
      unfolding prune_state_def using cu2(2) ids s s_eq bucket tables by (auto simp: prune_state_def)
    with cu2(1) hit False s_eq show ?thesis by (simp add: prune_one_def bucket_table_def Let_def)
  qed
qed


lemma prune_list_ok:
  assumes r: "prune_ready bits u alt" and i: "i < 2 ^ bits" and xs: "set xs \<subseteq> set (dc_table ty alt ! i)" "distinct xs"
    and X: "set xs \<inter> X ty = {}" "X False \<subseteq> tab_set (dc_hash_tags alt)" and s: "prune_state u alt X s"
  shows "\<exists>s'. fold_e (prune_one ty (du_dtags u) (du_alt_pus u) i) xs s = Inr s' \<and>
           prune_state u alt (X(ty := X ty \<union> set xs)) s'"
  using xs X s
proof (induction xs arbitrary: X s)
  case (Cons x xs X s)
  from Cons.prems have x: "x \<in> set (dc_table ty alt ! i)" "x \<notin> X ty" by auto
  from prune_one_ok [OF r Cons.prems(5) i x Cons.prems(4)] obtain s1 where
    s1: "prune_one ty (du_dtags u) (du_alt_pus u) i x s = Inr s1" "prune_state u alt (X(ty := insert x (X ty))) s1" by blast
  have "x \<in> tab_set (dc_table ty alt)"
    using x(1) i r by (auto simp: in_tab_set prune_ready_def tab_ok_def)
  then have "(X(ty := insert x (X ty))) False \<subseteq> tab_set (dc_hash_tags alt)"
    using Cons.prems(4) by (cases ty) (auto simp: dc_table_def)
  moreover have "set xs \<subseteq> set (dc_table ty alt ! i)" "distinct xs" "set xs \<inter> (X(ty := insert x (X ty))) ty = {}"
    using Cons.prems(1-3) by auto
  ultimately obtain s2 where
    s2: "fold_e (prune_one ty (du_dtags u) (du_alt_pus u) i) xs s1 = Inr s2"
      "prune_state u alt ((X(ty := insert x (X ty)))(ty := (X(ty := insert x (X ty))) ty \<union> set xs)) s2"
    using Cons.IH s1(2) by blast
  have "(X(ty := insert x (X ty)))(ty := (X(ty := insert x (X ty))) ty \<union> set xs) = X(ty := X ty \<union> set (x # xs))"
    by auto
  with s2(2) have "prune_state u alt (X(ty := X ty \<union> set (x # xs))) s2" by (simp only:)
  moreover have "fold_e (prune_one ty (du_dtags u) (du_alt_pus u) i) (x # xs) s = Inr s2" using s1(1) s2(1) by simp
  ultimately show ?case by blast
qed simp

definition first_buckets :: "dwarf_cu \<Rightarrow> nat \<Rightarrow> bool \<Rightarrow> nat set" where
  "first_buckets alt k ty = (\<Union>b<k. set (dc_table ty alt ! b))"

lemma first_buckets_Suc: "first_buckets alt (Suc k) ty = first_buckets alt k ty \<union> set (dc_table ty alt ! k)"
  by (auto simp: first_buckets_def lessThan_Suc)

lemma bucket_disjoint:
  assumes "tab_ok bits dtags (dc_table ty alt)" "k < 2 ^ bits"
  shows "set (dc_table ty alt ! k) \<inter> first_buckets alt k ty = {}"
proof (rule equals0I)
  fix x assume "x \<in> set (dc_table ty alt ! k) \<inter> first_buckets alt k ty"
  then obtain b where b: "b < k" "x \<in> set (dc_table ty alt ! b)" "x \<in> set (dc_table ty alt ! k)"
    by (auto simp: first_buckets_def)
  have fn: "\<forall>c < 2 ^ bits. \<forall>x \<in> set (dc_table ty alt ! c). hashtags__fn bits (dt_id (dtags x)) = Inr c"
    using assms(1) by (simp add: tab_ok_def)
  have "b < 2 ^ bits" using b(1) assms(2) by linarith
  with fn b assms(2) have "Inr b = (Inr k :: fault + nat)" by metis
  with b(1) show False by simp
qed

lemma first_buckets_all:
  assumes "tab_ok bits dtags (dc_table ty alt)"
  shows "first_buckets alt (2 ^ bits) ty = tab_set (dc_table ty alt)"
  using assms by (auto simp: first_buckets_def in_tab_set tab_ok_def)

lemma prune_buckets_ok:
  assumes r: "prune_ready bits u alt" and k: "k \<le> 2 ^ bits"
  shows "\<exists>s. fold_e (prune_bucket (du_dtags u) (du_alt_pus u)) [0..<k] (du_cu u, alt) = Inr s \<and>
           prune_state u alt (first_buckets alt k) s"
  using k
proof (induction k)
  case 0
  have "unhit_ids u (\<lambda>_. {}) = (\<lambda>_. {})" "first_buckets alt 0 = (\<lambda>_. {})"
    by (auto simp: unhit_ids_def first_buckets_def)
  with r show ?case by (simp add: prune_state_def cu_dropped_refl prune_ready_def map_idI)
next
  case (Suc k)
  then obtain s where s: "fold_e (prune_bucket (du_dtags u) (du_alt_pus u)) [0..<k] (du_cu u, alt) = Inr s"
    "prune_state u alt (first_buckets alt k) s" by fastforce
  have k: "k < 2 ^ bits" using Suc.prems by simp
  have t: "tab_ok bits (du_dtags u) (dc_table ty alt)" for ty using r by (simp add: prune_ready_def)
  have len: "length (dc_table ty alt) = 2 ^ bits" and dist: "distinct (dc_table ty alt ! k)" for ty
    using t [of ty] k by (auto simp: tab_ok_def)
  have sub: "first_buckets alt k False \<subseteq> tab_set (dc_hash_tags alt)"
    using len [of False] k by (auto simp: first_buckets_def in_tab_set dc_table_def) (metis less_trans)
  have whole: "dc_table ty (snd s') ! k = dc_table ty alt ! k"
    if "prune_state u alt X s'" "set (dc_table ty alt ! k) \<inter> X ty = {}" for ty X s'
  proof -
    from that have "dc_table ty (snd s') ! k =
        filter (\<lambda>x. pu_is_hit (du_alt_pus u) (dt_id (du_dtags u x)) \<or> x \<notin> X ty) (dc_table ty alt ! k)"
      using k len by (simp add: prune_state_def)
    also have "\<dots> = dc_table ty alt ! k" using that(2) by (auto simp: filter_id_conv)
    finally show ?thesis .
  qed
  note wt = whole [OF s(2) bucket_disjoint [OF t k], of True]
  from prune_list_ok [OF r k subset_refl dist bucket_disjoint [OF t k] sub s(2), of True] obtain s1 where
    s1: "fold_e (prune_one True (du_dtags u) (du_alt_pus u) k) (dc_table True alt ! k) s = Inr s1"
      "prune_state u alt ((first_buckets alt k)(True := first_buckets alt k True \<union> set (dc_table True alt ! k))) s1"
    by blast
  let ?X = "(first_buckets alt k)(True := first_buckets alt k True \<union> set (dc_table True alt ! k))"
  have dis: "set (dc_table False alt ! k) \<inter> ?X False = {}" using bucket_disjoint [OF t k, of False] by simp
  note wf = whole [OF s1(2) dis]
  have sub1: "?X False \<subseteq> tab_set (dc_hash_tags alt)" using sub by simp
  from prune_list_ok [OF r k subset_refl dist dis sub1 s1(2)] obtain s2 where
    s2: "fold_e (prune_one False (du_dtags u) (du_alt_pus u) k) (dc_table False alt ! k) s1 = Inr s2"
      "prune_state u alt (?X(False := ?X False \<union> set (dc_table False alt ! k))) s2"
    by blast
  have X: "?X(False := ?X False \<union> set (dc_table False alt ! k)) = first_buckets alt (Suc k)"
    by (auto simp: fun_eq_iff first_buckets_Suc)
  have lens: "length (dc_table ty (snd s)) = 2 ^ bits" for ty using s(2) len by (simp add: prune_state_def)
  have "prune_bucket (du_dtags u) (du_alt_pus u) k s = Inr s2"
    using lens [of True] lens [of False] wt wf s1(1) s2(1) k by (simp add: prune_bucket_def dc_table_def)
  with s s2(2) X show ?case by (simp add: fold_e_append)
qed

lemma prune_ok:
  assumes r: "prune_ready bits u alt"
  shows "\<exists>u' alt'. dwarf_cu__prune_unreferenced_alt_pus bits u = Inr u' \<and>
           u' = u\<lparr>du_cu := du_cu u', du_alt := Some alt'\<rparr> \<and>
           prune_state u alt (\<lambda>ty. tab_set (dc_table ty alt)) (du_cu u', alt')"
proof -
  obtain cu' alt' where s: "fold_e (prune_bucket (du_dtags u) (du_alt_pus u)) [0..<2 ^ bits] (du_cu u, alt) = Inr (cu', alt')"
    "prune_state u alt (first_buckets alt (2 ^ bits)) (cu', alt')"
    using prune_buckets_ok [OF r order_refl] by (metis surj_pair)
  have "first_buckets alt (2 ^ bits) = (\<lambda>ty. tab_set (dc_table ty alt))"
    using r first_buckets_all by (fastforce simp: prune_ready_def)
  with s r show ?thesis
    by (intro exI [of _ "u\<lparr>du_cu := cu', du_alt := Some alt'\<rparr>"] exI [of _ alt'])
      (simp add: dwarf_cu__prune_unreferenced_alt_pus_def prune_ready_def)
qed


section \<open>What is left\<close>

definition filtered :: "dwarf_unit \<Rightarrow> nat list list \<Rightarrow> nat list list" where
  "filtered u t = map (filter (\<lambda>x. pu_is_hit (du_alt_pus u) (dt_id (du_dtags u x)))) t"

lemma filtered_set: "tab_set (filtered u t) = {x \<in> tab_set t. pu_is_hit (du_alt_pus u) (dt_id (du_dtags u x))}"
  by (auto simp: tab_set_def filtered_def)

lemma filtered_ok:
  assumes "tab_ok bits (du_dtags u) t"
  shows "tab_ok bits (du_dtags u) (filtered u t)"
proof -
  have "inj_on (\<lambda>x. dt_id (du_dtags u x)) (tab_set (filtered u t))"
    using assms unfolding filtered_set tab_ok_def by (auto intro: inj_on_subset)
  moreover have "length (filtered u t) = 2 ^ bits" using assms by (simp add: tab_ok_def filtered_def)
  moreover have "filtered u t ! b = filter (\<lambda>x. pu_is_hit (du_alt_pus u) (dt_id (du_dtags u x))) (t ! b)" if "b < 2 ^ bits" for b
    using assms that by (simp add: tab_ok_def filtered_def)
  ultimately show ?thesis using assms by (simp add: tab_ok_def)
qed

lemma filtered_lookup:
  assumes "tab_ok bits (du_dtags u) t"
  shows "tab_lookup (du_dtags u) (filtered u t) ref =
           (if pu_is_hit (du_alt_pus u) ref then tab_lookup (du_dtags u) t ref else None)"
proof -
  have "tab_lookup (du_dtags u) (filtered u t) ref = Some x \<longleftrightarrow>
      pu_is_hit (du_alt_pus u) ref \<and> tab_lookup (du_dtags u) t ref = Some x" for x
    unfolding tab_lookup_Some [OF filtered_ok [OF assms]] tab_lookup_Some [OF assms] filtered_set by auto
  then show ?thesis by (metis option.exhaust option.distinct(1))
qed

lemma prune_state_filtered:
  assumes "prune_state u alt (\<lambda>ty. tab_set (dc_table ty alt)) s"
  shows "dc_table ty (snd s) = filtered u (dc_table ty alt)"
proof -
  have "filter (\<lambda>x. pu_is_hit (du_alt_pus u) (dt_id (du_dtags u x)) \<or> x \<notin> tab_set (dc_table ty alt)) ys =
      filter (\<lambda>x. pu_is_hit (du_alt_pus u) (dt_id (du_dtags u x))) ys" if "ys \<in> set (dc_table ty alt)" for ys
    using that by (intro filter_cong) (auto simp: tab_set_def)
  with assms show ?thesis by (simp add: prune_state_def filtered_def)
qed

text \<open>The indices of the tags of the alternate file that are in partial units nothing refers to.\<close>

definition unreferenced_ids :: "dwarf_unit \<Rightarrow> dwarf_cu \<Rightarrow> cu_table \<Rightarrow> nat set" where
  "unreferenced_ids u alt = unhit_ids u (\<lambda>ty. tab_set (dc_table ty alt))"

lemma alt_types: "dc_hash_types d = dc_table True d" and alt_tags: "dc_hash_tags d = dc_table False d"
  by (simp_all add: dc_table_def)

lemma prune_ready_dcu_ok: "prune_ready bits u alt \<Longrightarrow> dcu_ok bits (du_dtags u) alt"
  by (auto simp: prune_ready_def dcu_ok_def alt_types alt_tags)

lemma prune_state_entries:
  assumes "prune_state u alt (\<lambda>ty. tab_set (dc_table ty alt)) s"
  shows "pt_lookup (cu_get_table (fst s) tb) i =
           (if i \<in> unreferenced_ids u alt tb then None else pt_lookup (cu_get_table (du_cu u) tb) i)"
  using assms by (simp only: prune_state_def cu_dropped_def unreferenced_ids_def)



section \<open>An example\<close>

text \<open>
  An alternate file of two partial units, of which only the first is referred to: a structure at offset 50 in the first,
  and in the second a structure at 150 with its member at 160 and a function at 170.  The loader gives the members of
  structures no index of their own (unless the language is C++), so that of the member is 0, which in the table of
  tags is that of a variable of the file itself.
\<close>

definition sample_dtag :: "dw_tag \<Rightarrow> tag_node \<Rightarrow> dwarf_off \<Rightarrow> nat \<Rightarrow> dwarf_tag" where
  "sample_dtag k nd off i =
     \<lparr>dt_kind = k, dt_node = nd, dt_type = 0, dt_id = off, dt_abstract_origin = 0, dt_specification = 0,
      dt_from_types_section = \<lparr>rf_type = False, rf_abstract_origin = False, rf_containing_type = False, rf_specification = False\<rparr>,
      dt_from_alt = \<lparr>rf_type = False, rf_abstract_origin = False, rf_containing_type = False, rf_specification = False\<rparr>,
      dt_small_id = i\<rparr>"

definition sample_dtags :: "nat \<Rightarrow> dwarf_tag" where
  "sample_dtags x =
     (if x = 0 then sample_dtag DW_TAG_structure_type In_unit 50 1
      else if x = 1 then sample_dtag DW_TAG_structure_type In_unit 150 2
      else if x = 2 then sample_dtag DW_TAG_member In_tag 160 0
      else sample_dtag DW_TAG_subprogram In_unit 170 0)"

definition sample_tag :: "dw_tag \<Rightarrow> tag" where
  "sample_tag k = \<lparr>tg_tag = k, tg_type = 0, tg_body = Plain\<rparr>"

definition sample_alt :: dwarf_cu where
  "sample_alt = \<lparr>dc_hash_tags = [[3], [2]], dc_hash_types = [[], [1, 0]], dc_last_type_lookup = Sentinel\<rparr>"

definition sample_unit :: dwarf_unit where
  "sample_unit =
     \<lparr>du_cu = cu_zero\<lparr>cu_types_table := pt_of [None, Some (sample_tag DW_TAG_structure_type), Some (sample_tag DW_TAG_structure_type)],
        cu_functions_table := pt_of [Some (sample_tag DW_TAG_subprogram)], cu_tags_table := pt_of [Some (sample_tag DW_TAG_variable)],
        cu_functions := RB RB_BLACK NIL \<lparr>fk_addr = 4096, fk_size = 16, fk_id = 0\<rparr> NIL,
        cu_tags := [Type_ref 1, Type_ref 2, Function_ref 0, Tag_ref 0]\<rparr>,
      du_dtags = sample_dtags,
      du_dcu = \<lparr>dc_hash_tags = [[], []], dc_hash_types = [[], []], dc_last_type_lookup = Sentinel\<rparr>,
      du_type_unit = None, du_alt = Some sample_alt, du_imported_units = [], du_allocated_imported_units = 0,
      du_alt_pus = [\<lparr>pu_start = 1, pu_end = 100, pu_hit = True\<rparr>, \<lparr>pu_start = 100, pu_end = 200, pu_hit = False\<rparr>],
      du_allocated_alt_pus = 16, du_processing_alt = False\<rparr>"

lemma sample_hashes:
  "hashtags__fn 1 50 = Inr 1" "hashtags__fn 1 150 = Inr 1" "hashtags__fn 1 160 = Inr 1" "hashtags__fn 1 170 = Inr 0"
  by (simp_all add: hashtags__fn_def hash_64_def drop_bit_eq_div)

lemma sample_ready: "prune_ready 1 sample_unit sample_alt"
proof -
  have all2: "(\<forall>b < 2 ^ 1. P b) \<longleftrightarrow> P 0 \<and> P (Suc 0)" for P :: "nat \<Rightarrow> bool"
    by (auto simp: less_2_cases_iff)
  have pt: "pt_inv (pt_of xs)" if "length xs \<le> 3" for xs :: "tag option list" using that by (intro pt_inv_of) simp
  have cu: "cu_ok (du_cu sample_unit)"
    by (simp add: cu_ok_def cu_inv_def sample_unit_def pt rb_inv_def) (simp add: exI [of _ "Suc 0"])
  have tabs: "tab_ok 1 (du_dtags sample_unit) (dc_table ty sample_alt)" for ty
    unfolding tab_ok_def all2
    by (cases ty) (auto simp: dc_table_def sample_alt_def sample_unit_def tab_set_def sample_dtags_def sample_dtag_def
        sample_hashes [unfolded One_nat_def] inj_on_def)
  have set: "tab_set (dc_table True sample_alt) = {0, 1}" "tab_set (dc_table False sample_alt) = {2, 3}"
    by (auto simp: tab_set_def dc_table_def sample_alt_def)
  have al: "pt_allocated_entries (pt_of (xs :: tag option list)) = 2048" for xs by (simp add: pt_of_def)
  show ?thesis
    unfolding prune_ready_def alt_tags all_bool_eq set
    using cu tabs
    by (auto simp: sample_unit_def pus_ok_def sample_alt_def bucket_table_def dtag_table_def sample_dtags_def sample_dtag_def
        al tag_defs inj_on_def)
qed

lemma unhit_ids_eq:
  "unhit_ids u X tb =
     (\<lambda>x. dt_small_id (du_dtags u x)) ` {x \<in> X True. tb = Types \<and> \<not> pu_is_hit (du_alt_pus u) (dt_id (du_dtags u x))} \<union>
     (\<lambda>x. dt_small_id (du_dtags u x)) `
       {x \<in> X False. dtag_table (du_dtags u x) = tb \<and> \<not> pu_is_hit (du_alt_pus u) (dt_id (du_dtags u x))}"
  unfolding unhit_ids_def bucket_table_def by (auto split: if_splits)

lemma sample_hit:
  "pu_is_hit (du_alt_pus sample_unit) 50" "\<not> pu_is_hit (du_alt_pus sample_unit) 150"
  "\<not> pu_is_hit (du_alt_pus sample_unit) 160" "\<not> pu_is_hit (du_alt_pus sample_unit) 170"
  by (simp_all add: sample_unit_def pu_is_hit_def in_pu_def)

lemma sample_sets:
  "tab_set (dc_table True sample_alt) = {0, 1}" "tab_set (dc_table False sample_alt) = {2, 3}"
  "du_dtags sample_unit = sample_dtags"
  by (auto simp: tab_set_def dc_table_def sample_alt_def sample_unit_def)

lemma sample_dtags_eq:
  "dt_id (sample_dtags 0) = 50" "dt_id (sample_dtags 1) = 150" "dt_id (sample_dtags 2) = 160" "dt_id (sample_dtags 3) = 170"
  "dt_small_id (sample_dtags 0) = 1" "dt_small_id (sample_dtags 1) = 2" "dt_small_id (sample_dtags 2) = 0"
  "dt_small_id (sample_dtags 3) = 0" "dtag_table (sample_dtags 2) = Tags" "dtag_table (sample_dtags 3) = Functions"
  by (simp_all add: sample_dtags_def sample_dtag_def dtag_table_def tag_defs)

lemma insert_filter: "{x \<in> insert a A. P x} = (if P a then insert a {x \<in> A. P x} else {x \<in> A. P x})"
  by auto

lemma sample_unreferenced:
  "unreferenced_ids sample_unit sample_alt Types = {2}" "unreferenced_ids sample_unit sample_alt Tags = {0}"
  "unreferenced_ids sample_unit sample_alt Functions = {0}"
  unfolding unreferenced_ids_def unhit_ids_eq sample_sets insert_filter
  by (simp_all only: sample_dtags_eq sample_hit cu_table.simps simp_thms if_True if_False empty_iff Collect_empty_eq
      image_insert image_empty Un_empty_left Un_empty_right empty_def [symmetric])

lemma sample_tables:
  "cu_types_table (du_cu sample_unit) = pt_of [None, Some (sample_tag DW_TAG_structure_type), Some (sample_tag DW_TAG_structure_type)]"
  "cu_tags_table (du_cu sample_unit) = pt_of [Some (sample_tag DW_TAG_variable)]"
  "inorder (cu_functions (du_cu sample_unit)) = [\<lparr>fk_addr = 4096, fk_size = 16, fk_id = 0\<rparr>]"
  "Tag_ref 0 \<in> set (cu_tags (du_cu sample_unit))"
  by (simp_all add: sample_unit_def)


text \<open>
  The variable of the file, to which the index 0 belongs, goes with the member: dropping a structure clears the first
  entry of the table of tags.
\<close>

lemma member_takes_first_tag:
  "\<exists>u'. dwarf_cu__prune_unreferenced_alt_pus 1 sample_unit = Inr u' \<and>
     pt_lookup (cu_tags_table (du_cu sample_unit)) 0 = Some (sample_tag DW_TAG_variable) \<and>
     pt_lookup (cu_tags_table (du_cu u')) 0 = None \<and> Tag_ref 0 \<in> set (cu_tags (du_cu sample_unit))"
proof -
  obtain u' alt' where p: "dwarf_cu__prune_unreferenced_alt_pus 1 sample_unit = Inr u'"
    "prune_state sample_unit sample_alt (\<lambda>ty. tab_set (dc_table ty sample_alt)) (du_cu u', alt')"
    using prune_ok [OF sample_ready] by blast
  from prune_state_entries [OF p(2), of Tags 0] p(1) show ?thesis using sample_tables(2) by (simp add: sample_unreferenced sample_tables pt_lookup_of)
qed

end
