(* ===== verification/DwarfParamsSpec.thy ===== *)
theory DwarfParamsSpec
  imports DwarfParams DwarfLookupSpec
begin

text \<open>
  What the analysis of the parameters promises: the location kept for a parameter is one the encoder can write, and of
  the parameters of a function exactly those are marked that are not in the register the calling convention gives
  them, the registers being counted from the sizes and alignments of the parameters before.
\<close>

unbundle bit_operations_syntax

section \<open>Recorded locations\<close>

text \<open>A register of DWARF, as the operation that names it, or none.\<close>

definition reg_ok :: "int \<Rightarrow> bool" where
  "reg_ok r \<longleftrightarrow> r = PARAMETER_UNKNOWN_REG \<or> 0x50 \<le> r \<and> r \<le> 0x6f"

definition loc_ok :: "param_abi \<Rightarrow> dw_parameter \<Rightarrow> bool" where
  "loc_ok ab p \<longleftrightarrow>
     reg_ok (dp_loc_reg p) \<and> reg_ok (dp_loc_reg2 p) \<and> dp_loc_size p \<le> 16 \<and> fits_s32 (dp_loc_offset p) \<and>
     dp_type_byte_size p < 65536 \<and>
     (dp_loc_reg2 p \<noteq> PARAMETER_UNKNOWN_REG \<longrightarrow> dp_loc_reg p \<noteq> PARAMETER_UNKNOWN_REG \<and> dp_type_byte_size p \<le> 16)"

lemma loc_size_16: "parameter__loc_size ab p \<le> 16"
  by (simp add: parameter__loc_size_def Let_def)

lemma fits_0 [simp]: "fits_s32 0"
  by (simp add: fits_s32_def)

lemma record_loc_reg_ok:
  assumes "loc_ok ab p" "dwarf_op__is_reg (nat reg)" "sz \<le> 16"
  shows "loc_ok ab (parameter__record_loc_reg reg offset deref sz p)"
  using assms
  by (auto simp: loc_ok_def reg_ok_def dwarf_op__is_reg_def parameter__record_loc_reg_def parameter__set_loc_reg_def Let_def)

lemma record_loc_const_ok: "loc_ok ab p \<Longrightarrow> sz \<le> 16 \<Longrightarrow> loc_ok ab (parameter__record_loc_const v sz sg ad p)"
  by (simp add: loc_ok_def parameter__record_loc_const_def)

lemma record_loc_reg_pair_ok:
  "loc_ok ab p \<Longrightarrow> 0x50 \<le> r1 \<Longrightarrow> r1 \<le> 0x6f \<Longrightarrow> 0x50 \<le> r2 \<Longrightarrow> r2 \<le> 0x6f \<Longrightarrow>
     loc_ok ab (parameter__record_loc_reg_pair r1 r2 p)"
  by (auto simp: loc_ok_def reg_ok_def parameter__record_loc_reg_pair_def Let_def)

definition pieces_ok :: "param_abi \<Rightarrow> pieces \<Rightarrow> bool" where
  "pieces_ok ab s \<longleftrightarrow> loc_ok ab (pc_parm s) \<and> length (pc_regs s) \<le> 2 \<and> (\<forall>r \<in> set (pc_regs s). 0 \<le> r \<and> r \<le> 31)"

lemma piece_op_ok: "pieces_ok ab s \<Longrightarrow> pieces_ok ab (piece_op ab before op s)"
  unfolding piece_op_def Let_def pieces_ok_def
  by (auto simp: loc_size_16 dwarf_op__is_reg_def DW_OP_reg0_def intro!: record_loc_reg_ok)
    (auto simp: loc_ok_def)

lemma piece_ops_ok: "pieces_ok ab s \<Longrightarrow> pieces_ok ab (piece_ops ab before ops s)"
  by (induction ab before ops s rule: piece_ops.induct) (auto intro: piece_op_ok)

lemma breg_is_reg: "is_breg a \<Longrightarrow> dwarf_op__is_reg (nat (int a - 112 + int DW_OP_reg0))"
  by (auto simp: is_breg_def dwarf_op__is_reg_def DW_OP_reg0_def)

lemma pieces_pair_ok:
  assumes "pieces_ok ab s" "length (pc_regs s) = 2"
  shows "loc_ok ab (parameter__record_loc_reg_pair (int DW_OP_reg0 + pc_regs s ! 0) (int DW_OP_reg0 + pc_regs s ! 1) (pc_parm s))"
proof -
  have "0 \<le> pc_regs s ! 0 \<and> pc_regs s ! 0 \<le> 31" "0 \<le> pc_regs s ! 1 \<and> pc_regs s ! 1 \<le> 31"
    using assms by (auto simp: pieces_ok_def)
  then show ?thesis using assms by (intro record_loc_reg_pair_ok) (auto simp: pieces_ok_def DW_OP_reg0_def)
qed

lemma if_loc_ok: "loc_ok ab (if b then p else q) \<longleftrightarrow> (if b then loc_ok ab p else loc_ok ab q)"
  by simp

lemmas record_ok = record_loc_const_ok [OF _ loc_size_16] record_loc_reg_ok [OF _ _ loc_size_16] breg_is_reg

lemma multi_exprs_ok:
  assumes "loc_ok ab p"
  shows "loc_ok ab (parameter__multi_exprs ab expr loc_num p)"
proof -
  define s where "s = piece_ops ab None expr \<lparr>pc_off = 0, pc_regs = [], pc_size = 0, pc_all_regs = True, pc_parm = p\<rparr>"
  have s: "pieces_ok ab s" unfolding s_def using assms by (intro piece_ops_ok) (simp add: pieces_ok_def)
  then have ps: "loc_ok ab (pc_parm s)" by (simp add: pieces_ok_def)
  show ?thesis
    unfolding parameter__multi_exprs_def Let_def s_def [symmetric] if_loc_ok
    using assms ps pieces_pair_ok [OF s] by (simp add: record_ok)
qed

lemma location_op_ok:
  assumes "loc_ok ab p" "ab_addr_size ab \<le> 16"
  shows "loc_ok ab (location_op d ab loc_num sv df op p)"
proof -
  have entry: "loc_ok ab (case ld_entry_value d op of Some [e] \<Rightarrow>
      if dwarf_op__is_reg (op_atom e) then parameter__record_loc_reg (int (op_atom e)) 0 False (parameter__loc_size ab p) p else p
      | _ \<Rightarrow> p)"
    using assms(1) by (auto simp: record_ok split: option.split list.split)
  have fb: "loc_ok ab (p\<lparr>dp_loc_stack := True, dp_loc_offset := (if fits_s32 v then v else dp_loc_offset p),
      dp_loc_size := parameter__loc_size ab p, dp_loc_deref := b\<rparr>)" for v b
    using assms(1) loc_size_16 by (simp add: loc_ok_def)
  show ?thesis
    unfolding location_op_def Let_def if_loc_ok
    using assms(1) entry fb record_loc_const_ok [OF assms] by (simp add: record_ok)
qed

lemma decode_one_ok:
  assumes "loc_ok ab p" "ab_addr_size ab \<le> 16"
  shows "loc_ok ab (decode_one d ab loc_num expr p)"
  unfolding decode_one_def Let_def
  using assms location_op_ok multi_exprs_ok by (auto split: list.split)

lemma decode_locations_ok:
  "loc_ok ab p \<Longrightarrow> ab_addr_size ab \<le> 16 \<Longrightarrow> loc_ok ab (decode_locations d ab loc_num es p)"
  by (induction d ab loc_num es p rule: decode_locations.induct) (auto intro: decode_one_ok)

lemma finish_piece_decode_ok:
  assumes "parameter__finish_piece_decode n d kp ab die p = Inr p'" "loc_ok ab p"
  shows "loc_ok ab p'"
  using assms
  by (auto simp: parameter__finish_piece_decode_def parameter__record_true_sig_member_def loc_ok_def Let_def
      split: if_splits sum.splits option.splits prod.splits)

text \<open>C39: Whatever a parameter's entry says, the location kept for it is one the encoder can write: its registers are
  registers of DWARF or unknown, its offset fits in 32 bits, it has at most 16 bytes, and a second register is only kept
  beside a first one, for a parameter of at most 16 bytes.
\<close>

theorem parameter_location_bounds:
  assumes "parameter__new n d kabi_prefix ab die idx decode = Inr p" "ab_addr_size ab \<le> 16"
  shows "loc_ok ab p"
proof -
  have fresh: "loc_ok ab (fresh_parameter nm i)" for nm i
    by (simp add: loc_ok_def reg_ok_def fresh_parameter_def)
  have bound: "nat (u16 x) < 65536" for x :: int by simp
  have const: "loc_ok ab q \<Longrightarrow> loc_ok ab (parameter__record_attr_const_value ab a q)" for q a
    by (auto simp: parameter__record_attr_const_value_def loc_ok_def loc_size_16 split: option.split)
  show ?thesis
  proof (cases decode)
    case False
    with assms(1) fresh show ?thesis by (auto simp: parameter__new_def Let_def)
  next
    case True
    obtain b where b: "get_type_byte_size n d (ab_addr_size ab) die = Inr b"
      using assms(1) True by (auto simp: parameter__new_def Let_def split: sum.splits)
    define p1 where "p1 = (fresh_parameter (attr_string d kabi_prefix die DW_AT_name) idx)
      \<lparr>dp_type_byte_size := nat (u16 b),
       dp_passed_in_memory := (if ab_agg_use_two_regs ab then 2 * ab_addr_size ab else ab_addr_size ab) < nat (u16 b),
       dp_has_const_value := ld_attr d die DW_AT_const_value \<noteq> None\<rparr>"
    define p2 where "p2 = (case ld_attr d die DW_AT_const_value of None \<Rightarrow> p1 | Some a \<Rightarrow> parameter__record_attr_const_value ab a p1)"
    have p1: "loc_ok ab p1" using fresh bound by (simp add: p1_def loc_ok_def fresh_parameter_def)
    then have p2: "loc_ok ab p2" using const by (auto simp: p2_def split: option.split)
    have p3: "loc_ok ab (p2\<lparr>dp_has_loc := True\<rparr>)" using p2 by (simp add: loc_ok_def)
    show ?thesis
    proof (cases "ld_attr d die DW_AT_location")
      case None
      have "p = p2"
        unfolding p2_def p1_def using assms(1) True b None
        by (simp add: parameter__new_def Let_def del: not_None_eq split del: if_split)
      with p2 show ?thesis by simp
    next
      case (Some a)
      have "parameter__decode_location n d kabi_prefix ab a die (p2\<lparr>dp_has_loc := True\<rparr>) = Inr p"
        unfolding p2_def p1_def using assms(1) True b Some
        by (simp add: parameter__new_def Let_def del: not_None_eq split del: if_split)
      then show ?thesis
        using finish_piece_decode_ok decode_locations_ok [OF p3 assms(2)]
        unfolding parameter__decode_location_def by blast
    qed
  qed
qed


text \<open>
  An entry that says: a parameter of type \<open>int\<close>, in the register %rdi (5) at the beginning of the function.
\<close>

definition no_attribute :: dw_attribute where
  "no_attribute = \<lparr>da_form = FORM_other 0, da_addr = None, da_udata = None, da_sdata = None, da_flag = None,
     da_string = None, da_block = None, da_ref_die = None, da_locations = []\<rparr>"

definition sample_libdw :: "dw_op list \<Rightarrow> libdw" where
  "sample_libdw expr =
     \<lparr>ld_tag = (\<lambda>die. if die = 1 then DW_TAG_base_type else DW_TAG_formal_parameter), ld_dieoffset = of_nat,
      ld_attr = (\<lambda>die name.
        if die = 0 \<and> name = DW_AT_name then Some (no_attribute\<lparr>da_string := Some ''x''\<rparr>)
        else if die = 0 \<and> name = DW_AT_type then Some (no_attribute\<lparr>da_ref_die := Some 1\<rparr>)
        else if die = 0 \<and> name = DW_AT_location then Some (no_attribute\<lparr>da_locations := [expr]\<rparr>)
        else if die = 1 \<and> name = DW_AT_byte_size then Some (no_attribute\<lparr>da_form := FORM_data1, da_udata := Some 4\<rparr>)
        else None),
      ld_child = (\<lambda>die. None), ld_siblingof = (\<lambda>die. None), ld_entry_value = (\<lambda>op. None)\<rparr>"

lemmas sample_libdw_simps = sample_libdw_def no_attribute_def DW_AT_name_def DW_AT_type_def DW_AT_location_def
  DW_AT_byte_size_def DW_AT_const_value_def DW_AT_abstract_origin_def

lemma sample_size:
  "get_type_byte_size 2 (sample_libdw e) 8 0 = Inr 4"
proof -
  have "get_type_byte_size (Suc (Suc 0)) (sample_libdw e) 8 0 = Inr 4"
    by (simp add: get_type_byte_size_def sample_libdw_simps attr_numeric_def is_data_form_def s32_def)
  then show ?thesis by (simp only: numeral_2_eq_2)
qed

lemma sample_parameter:
  "\<exists>p. parameter__new 2 (sample_libdw [\<lparr>op_atom = 0x55, op_number = 0\<rparr>]) None (param_abi_of EM_X86_64 8 False) 0 0 True = Inr p \<and>
     dp_loc_reg p = 0x55 \<and> dp_loc_size p = 4 \<and> dp_has_loc p"
  unfolding parameter__new_def Let_def
  by (simp add: param_abi_of_def sample_size)
    (simp add: sample_libdw_simps parameter__decode_location_def decode_one_def location_op_def Let_def dw_op_defs
      parameter__record_loc_reg_def parameter__set_loc_reg_def fresh_parameter_def parameter__loc_size_def DW_OP_reg0_def
      parameter__finish_piece_decode_def)

theorem parameter_location_bounds_witness:
  "\<exists>p. parameter__new 2 (sample_libdw [\<lparr>op_atom = 0x55, op_number = 0\<rparr>]) None (param_abi_of EM_X86_64 8 False) 0 0 True = Inr p \<and>
     dp_loc_reg p = 0x55 \<and> loc_ok (param_abi_of EM_X86_64 8 False) p"
proof -
  have "ab_addr_size (param_abi_of EM_X86_64 8 False) \<le> 16" by (simp add: param_abi_of_def)
  from parameter_location_bounds [OF _ this] sample_parameter show ?thesis by blast
qed

text \<open>
  An expression that computes a value, \<open>breg5 8\<close>, \<open>stack_value\<close>, is not a place in memory.  With one more operation
  in between it is recorded as one: \<open>parameter__multi_exprs\<close> looks for \<open>DW_OP_stack_value\<close> in the expression from which
  the caller has cut it.
\<close>

lemma computed_value_taken_for_memory:
  fixes op :: "nat \<Rightarrow> 64 word \<Rightarrow> dw_op"
  defines "op a k \<equiv> \<lparr>op_atom = a, op_number = k\<rparr>"
  shows "\<not> dp_loc_deref (decode_one d (param_abi_of EM_X86_64 8 False) 0 [op 0x75 8, op 0x9f 0] (fresh_parameter None 0))"
    "dp_loc_deref (decode_one d (param_abi_of EM_X86_64 8 False) 0 [op 0x75 8, op 0x23 4, op 0x9f 0] (fresh_parameter None 0))"
  by (simp_all add: op_def decode_one_def location_op_def parameter__multi_exprs_def Let_def dw_op_defs param_abi_of_def
      parameter__record_loc_reg_def parameter__set_loc_reg_def fresh_parameter_def parameter__loc_size_def DW_OP_reg0_def
      dwarf_expr__has_stack_value_def dwarf_op__snumber_def fits_s32_def)


section \<open>The registers of the parameters\<close>

text \<open>Floating point numbers and vectors have registers of their own.\<close>

definition own_bank :: "tag \<Rightarrow> bool" where
  "own_bank t \<longleftrightarrow>
     tg_tag t = DW_TAG_base_type \<and> (\<exists>b. tg_body t = Base_body b \<and> bt_float_type b \<noteq> 0) \<or>
     tg_tag t = DW_TAG_array_type \<and> (\<exists>a. tg_body t = Array_body a \<and> at_is_vector a)"

text \<open>
  The register a parameter starts in is even where the machine wants it and the type of the parameter is aligned to more
  than a register.
\<close>

definition reg_align :: "param_abi \<Rightarrow> cu \<Rightarrow> dw_parameter \<Rightarrow> int \<Rightarrow> bool" where
  "reg_align ab cu p a \<longleftrightarrow>
     (if \<not> ab_arg_align_two_regs ab \<or> dp_type_byte_size p \<le> ab_addr_size ab then a = 1
      else strips_to cu (pa_type p) None \<and> a = 1 \<or>
        (\<exists>i t. strips_to cu (pa_type p) (Some i) \<and> cu_types cu i = Some t \<and>
           (if own_bank t then a = 1
            else \<exists>k. aligned cu i k \<and> a = (if ab_addr_size ab < k then 2 else 1))))"

text \<open>The registers it takes.\<close>

definition slots_of :: "param_abi \<Rightarrow> dw_parameter \<Rightarrow> int" where
  "slots_of ab p =
     (if dp_passed_in_memory p \<or> \<not> ab_agg_use_two_regs ab \<or> dp_type_byte_size p \<le> ab_addr_size ab then 1
      else (int (dp_type_byte_size p) + int (ab_addr_size ab) - 1) div int (ab_addr_size ab))"

fun home_indices :: "param_abi \<Rightarrow> (dw_parameter \<times> int) list \<Rightarrow> int \<Rightarrow> int list" where
  "home_indices ab [] idx = []"
| "home_indices ab ((p, a) # ps) idx =
     (let i = (if dp_passed_in_memory p then idx else (idx + a - 1) div a * a)
      in i # home_indices ab ps (i + slots_of ab p))"

lemma reg_alignI:
  assumes "ab_arg_align_two_regs ab" "\<not> dp_type_byte_size p \<le> ab_addr_size ab" "strips_to cu (pa_type p) (Some i)"
    "cu_types cu i = Some t" "\<not> own_bank t" "aligned cu i k" "a = (if ab_addr_size ab < k then 2 else 1)"
  shows "reg_align ab cu p a"
proof -
  have "\<exists>k. aligned cu i k \<and> a = (if ab_addr_size ab < k then 2 else 1)" using assms(6,7) by blast
  then have "if own_bank t then a = 1 else \<exists>k. aligned cu i k \<and> a = (if ab_addr_size ab < k then 2 else 1)"
    using assms(5) by simp
  with assms(3,4) have "\<exists>i t. strips_to cu (pa_type p) (Some i) \<and> cu_types cu i = Some t \<and>
      (if own_bank t then a = 1 else \<exists>k. aligned cu i k \<and> a = (if ab_addr_size ab < k then 2 else 1))" by blast
  with assms(1,2) show ?thesis unfolding reg_align_def by simp
qed

lemma own_bank_same:
  assumes "forget t' = forget t"
  shows "own_bank t' = own_bank t"
proof -
  have "own_bank (forget t) = own_bank t" for t
    by (auto simp: own_bank_def forget_def set_natural_alignment_def split: tag_body.split)
  then show ?thesis using assms by metis
qed

lemma reg_align_same:
  assumes "reg_align ab cu p a" "same_types cu cu'"
  shows "reg_align ab cu' p a"
proof -
  have "\<exists>t'. cu_types cu' i = Some t' \<and> own_bank t' = own_bank t" if "cu_types cu i = Some t" for i t
    using same_types_Some [OF assms(2) that] own_bank_same by blast
  then show ?thesis
    using assms(1) strips_to_same [OF _ assms(2)] aligned_same [OF _ assms(2)]
    unfolding reg_align_def by (auto split: if_splits) metis+
qed

lemma reg_align_12: "reg_align ab cu p a \<Longrightarrow> a = 1 \<or> a = 2"
  by (auto simp: reg_align_def split: if_splits)

text \<open>What the analysis needs of the types of a unit.\<close>

definition params_env :: "nat \<Rightarrow> (nat \<Rightarrow> nat) \<Rightarrow> cu \<Rightarrow> dw_parameter list \<Rightarrow> bool" where
  "params_env n r cu ps \<longleftrightarrow>
     align_env cu r \<and> inj r \<and> (\<forall>x. cached cu x) \<and> (\<forall>p \<in> set ps. enough cu r (pa_type p) n)"

lemma enough_same_types: "enough cu r i n \<Longrightarrow> same_types cu cu' \<Longrightarrow> enough cu' r i n"
  using same_types_None [of cu cu' i] by (auto simp: enough_def)

lemma gpr_bank_ok:
  assumes "tag_wf t" "0 < n" "\<not> tag__is_typedef (tg_tag t)"
  shows "tag__uses_gpr_bank n cu t = Inr (\<not> own_bank t)"
proof -
  obtain k where n: "n = Suc k" using assms(2) by (cases n) auto
  show ?thesis
    using assms(3) tag_wf_base [OF assms(1)] tag_wf_array [OF assms(1)]
    by (auto simp: tag__uses_gpr_bank_def n own_bank_def tag__base_type_def tag__array_type_def tag_defs)
qed

lemma abi_reg_align_ok:
  assumes env: "align_env cu r" "inj r" "\<forall>x. cached cu x" and en: "enough cu r (pa_type p) n"
  shows "\<exists>a cu'. parameter__abi_reg_align n ab cu p = Inr (a, cu') \<and> reg_align ab cu p a \<and>
           align_env cu' r \<and> (\<forall>x. cached cu' x) \<and> same_types cu cu'"
proof (cases "\<not> ab_arg_align_two_regs ab \<or> dp_type_byte_size p \<le> ab_addr_size ab")
  case True
  with env show ?thesis by (auto simp: parameter__abi_reg_align_def reg_align_def)
next
  case False
  have inv: "cu_inv cu" "types_ranked cu r" using env(1) by (auto simp: align_env_def)
  from strip_ok [OF inv en] obtain q where
    q: "tag__strip_typedefs_and_modifiers n cu (pa_type p) = Inr q"
      "case q of None \<Rightarrow> True | Some (j, t) \<Rightarrow> cu_types cu j = Some t \<and> r j \<le> r (pa_type p) \<and>
         \<not> tag__is_typedef (tg_tag t) \<and> \<not> tag__is_modifier (tg_tag t)" by blast
  have st: "strips_to cu (pa_type p) (map_option fst q)" using strip_strips_to [OF inv(1) q(1)] .
  show ?thesis
  proof (cases q)
    case None
    with q(1) st False env show ?thesis by (auto simp: parameter__abi_reg_align_def reg_align_def)
  next
    case (Some jt)
    obtain j t where jt: "jt = (j, t)" by (cases jt)
    with Some q(2) have t: "cu_types cu j = Some t" "r j \<le> r (pa_type p)" "\<not> tag__is_typedef (tg_tag t)" by auto
    have n: "0 < n" using en by (simp add: enough_def)
    have wf: "tag_wf t" using env(1) t(1) unfolding align_env_def by blast
    have s: "strips_to cu (pa_type p) (Some j)" using st Some jt by simp
    show ?thesis
    proof (cases "own_bank t")
      case True
      with q(1) Some jt False s t gpr_bank_ok [OF wf n t(3), of cu] env show ?thesis
        by (auto simp: parameter__abi_reg_align_def reg_align_def)
    next
      case general: False
      have "cu_types cu (pa_type p) \<noteq> None"
        using s by (auto elim: strips_toE)
      then have "enough cu r j n" using en t(1,2) by (auto simp: enough_def)
      from natural_alignment_ok [OF env(2) t(1) this env(1)] env(3) obtain k cu' where
        k: "tag__natural_alignment n cu (Some (j, t)) = Inr (k, cu')" "call_ok r cu j k cu'" by blast
      have "cached cu' x" for x
        using k(2) env(3) by (cases "r x \<le> r j") (auto simp: call_ok_def intro: cached_same)
      let ?a = "if ab_addr_size ab < k then 2 else 1 :: int"
      have "aligned cu j k" using k(2) by (simp add: call_ok_def)
      with False s t(1) general have "reg_align ab cu p ?a" by (intro reg_alignI) auto
      moreover have "parameter__abi_reg_align n ab cu p = Inr (?a, cu')"
        using False q(1) Some jt gpr_bank_ok [OF wf n t(3), of cu] general k(1)
        by (simp add: parameter__abi_reg_align_def)
      ultimately show ?thesis using k(2) \<open>\<And>x. cached cu' x\<close> by (auto simp: call_ok_def)
    qed
  qed
qed

lemma round_idx_eq: "a = 1 \<or> a = 2 \<Longrightarrow> round_idx idx a = (idx + a - 1) div a * a"
proof (erule disjE)
  assume "a = 2"
  have "(idx + 1) AND NOT 1 = (idx + 1) div 2 * 2"
    using unset_bit_eq_and_not [of 0 "idx + 1"] unset_bit_0 [of "idx + 1"] by simp
  then show ?thesis using \<open>a = 2\<close> by (simp add: round_idx_def add.commute [of idx 1])
qed (simp add: round_idx_def)


text \<open>
  The marks of a parameter whose first register would be the one with index \<open>i\<close>: without a location it is optimized away
  if it has a constant value; with one, when there is a register for it, if it is in none; it is in an unexpected one
  if that is not the register of the convention.
\<close>

definition marks :: "param_abi \<Rightarrow> dw_parameter \<Rightarrow> int \<Rightarrow> dw_parameter" where
  "marks ab p i =
     (let has_reg = (i < int (ab_nr_register_params ab)); home = ab_register_params ab ! nat i in
      if dp_has_loc p \<and> has_reg \<and> dp_loc_reg p = PARAMETER_UNKNOWN_REG \<or> \<not> dp_has_loc p \<and> dp_has_const_value p
      then p\<lparr>dp_optimized := True\<rparr>
      else if dp_has_loc p \<and> has_reg \<and> 0 \<le> home \<and> dp_loc_reg p \<noteq> home then p\<lparr>dp_unexpected_reg := True\<rparr>
      else p)"

text \<open>Beyond the last register the index the code keeps does not matter.\<close>

definition same_place :: "param_abi \<Rightarrow> int \<Rightarrow> int \<Rightarrow> bool" where
  "same_place ab i j \<longleftrightarrow> i = j \<or> int (ab_nr_register_params ab) \<le> i \<and> int (ab_nr_register_params ab) \<le> j"

lemma marks_same_place: "same_place ab i j \<Longrightarrow> marks ab p i = marks ab p j"
  unfolding same_place_def marks_def Let_def by (elim disjE) simp_all

lemma abi_slots_eq:
  assumes "0 < ab_addr_size ab"
  shows "parameter__abi_slots ab p = Inr (if dp_passed_in_memory p then
      (if \<not> ab_agg_use_two_regs ab \<or> dp_type_byte_size p \<le> ab_addr_size ab then 1
       else (int (dp_type_byte_size p) + int (ab_addr_size ab) - 1) div int (ab_addr_size ab))
      else slots_of ab p)"
proof (cases "\<not> ab_agg_use_two_regs ab \<or> dp_type_byte_size p \<le> ab_addr_size ab")
  case True
  then show ?thesis by (auto simp: parameter__abi_slots_def slots_of_def)
next
  case False
  let ?k = "dp_type_byte_size p" and ?s = "ab_addr_size ab"
  have "?s \<le> ?k + ?s - 1" using False assms by linarith
  then have pos: "0 < (?k + ?s - 1) div ?s" using assms by (simp only: div_greater_zero_iff)
  have eq: "int ((?k + ?s - 1) div ?s) = (int ?k + int ?s - 1) div int ?s"
    using assms by (simp add: zdiv_int of_nat_diff)
  have "parameter__abi_slots ab p = Inr (int ((?k + ?s - 1) div ?s))"
    using False assms pos by (simp add: parameter__abi_slots_def Let_def)
  with False show ?thesis unfolding eq by (simp add: slots_of_def)
qed

lemma slots_pos: "0 < ab_addr_size ab \<Longrightarrow> 1 \<le> slots_of ab p"
proof -
  assume "0 < ab_addr_size ab"
  moreover have "1 \<le> (int k + int s - 1) div int s" if "s < k" "0 < s" for k s :: nat
    using that by (intro zdiv_mono1 [of "int s" _ "int s", simplified]) auto
  ultimately show ?thesis by (auto simp: slots_of_def)
qed


definition rounded :: "int \<Rightarrow> int \<Rightarrow> int" where
  "rounded idx a = (idx + a - 1) div a * a"

lemma rounded_ge: "a = 1 \<or> a = 2 \<Longrightarrow> idx \<le> rounded idx a"
  by (auto simp: rounded_def)

lemma same_place_rounded: "same_place ab i j \<Longrightarrow> a = 1 \<or> a = 2 \<Longrightarrow> same_place ab (rounded i a) (rounded j a)"
  using rounded_ge [of a i] rounded_ge [of a j] by (auto simp: same_place_def)

definition home_index :: "dw_parameter \<Rightarrow> int \<Rightarrow> int \<Rightarrow> int" where
  "home_index p i a = (if dp_passed_in_memory p then i else rounded i a)"

text \<open>One parameter of a function compiled by gcc, whose signatures are not analyzed further.\<close>

lemma analyze_parameter_gcc:
  assumes env: "align_env (du_cu u) r" "inj r" "\<forall>x. cached (du_cu u) x" "enough (du_cu u) r (pa_type p) n"
    and ab: "0 < ab_addr_size ab" "ab_nr_register_params ab \<le> length (ab_register_params ab)" "\<not> ab_producer_clang ab"
    and idx: "same_place ab i j" "0 \<le> i" "0 \<le> j"
  shows "\<exists>a cu' j'. reg_align ab (du_cu u) p a \<and>
           analyze_parameter n bits ab False p following j u = Inr (marks ab p (home_index p i a), j', u\<lparr>du_cu := cu'\<rparr>) \<and>
           same_place ab (home_index p i a + slots_of ab p) j' \<and> 0 \<le> j' \<and> 0 \<le> home_index p i a \<and>
           align_env cu' r \<and> (\<forall>x. cached cu' x) \<and> same_types (du_cu u) cu'"
proof -
  obtain a cu1 where al: "parameter__abi_reg_align n ab (du_cu u) p = Inr (a, cu1)" "reg_align ab (du_cu u) p a"
    "align_env cu1 r" "\<forall>x. cached cu1 x" "same_types (du_cu u) cu1"
    using abi_reg_align_ok [OF env, of ab] by blast
  note a12 = reg_align_12 [OF al(2)]
  define cu' where "cu' = (if dp_passed_in_memory p then du_cu u else cu1)"
  have cu': "align_env cu' r" "\<forall>x. cached cu' x" "same_types (du_cu u) cu'" using al env by (auto simp: cu'_def)
  let ?k = "home_index p i a" and ?l = "home_index p j a"
  have place: "same_place ab ?k ?l" using same_place_rounded [OF idx(1) a12] idx(1) by (simp add: home_index_def)
  have pos: "0 \<le> ?k" "0 \<le> ?l" using idx rounded_ge [OF a12, of i] rounded_ge [OF a12, of j] by (auto simp: home_index_def)
  have step: "(if dp_passed_in_memory p then Inr (j, du_cu u) else parameter__align_reg_idx n ab (du_cu u) p j) = Inr (?l, cu')"
    using al(1) round_idx_eq [OF a12, of j] by (simp add: parameter__align_reg_idx_def home_index_def rounded_def cu'_def)
  have slots: "parameter__abi_slots ab p = Inr s \<Longrightarrow> (if dp_passed_in_memory p then 1 else s) = slots_of ab p" for s
    using abi_slots_eq [OF ab(1), of p] by (auto simp: slots_of_def split: if_splits)
  obtain s where s: "parameter__abi_slots ab p = Inr s" using abi_slots_eq [OF ab(1), of p] by blast
  have s1: "1 \<le> slots_of ab p" using slots_pos [OF ab(1)] .
  let ?nr = "int (ab_nr_register_params ab)"
  have same: "marks ab p ?k = marks ab p ?l" using marks_same_place [OF place] .
  have eval: "analyze_parameter n bits ab False p following j u =
      (if ?nr \<le> ?l
       then Inr (marks ab p ?l, if dp_has_loc p then ?l else ?l + slots_of ab p, u\<lparr>du_cu := cu'\<rparr>)
       else Inr (marks ab p ?l, ?l + slots_of ab p, u\<lparr>du_cu := cu'\<rparr>))"
  proof (cases "?nr \<le> ?l")
    case True
    then show ?thesis
      using ab(3) unfolding analyze_parameter_def s sum.case step Let_def marks_def prod.case
      by (simp add: slots [OF s])
  next
    case False
    then have "reg_at ab ?l = Inr (ab_register_params ab ! nat ?l)" using pos(2) ab(2) by (simp add: reg_at_def)
    with False show ?thesis
      using ab(3) unfolding analyze_parameter_def s sum.case step Let_def marks_def prod.case
      by (simp add: slots [OF s])
  qed
  have "same_place ab (?k + slots_of ab p) (if ?nr \<le> ?l \<and> dp_has_loc p then ?l else ?l + slots_of ab p)"
    using place s1 by (auto simp: same_place_def)
  moreover have "0 \<le> (if ?nr \<le> ?l \<and> dp_has_loc p then ?l else ?l + slots_of ab p)" using pos s1 by auto
  moreover have "analyze_parameter n bits ab False p following j u =
      Inr (marks ab p ?k, if ?nr \<le> ?l \<and> dp_has_loc p then ?l else ?l + slots_of ab p, u\<lparr>du_cu := cu'\<rparr>)"
    unfolding eval same by simp
  ultimately show ?thesis using al(2) cu' pos(1) by blast
qed

lemma analyze_parameters_gcc:
  assumes "params_env n r (du_cu u) ps"
    and ab: "0 < ab_addr_size ab" "ab_nr_register_params ab \<le> length (ab_register_params ab)" "\<not> ab_producer_clang ab"
    and "same_place ab i j" "0 \<le> i" "0 \<le> j"
  shows "\<exists>as cu'. list_all2 (reg_align ab (du_cu u)) ps as \<and>
           analyze_parameters n bits ab False ps j u =
             Inr (map2 (marks ab) ps (home_indices ab (zip ps as) i), u\<lparr>du_cu := cu'\<rparr>) \<and> same_types (du_cu u) cu'"
  using assms(1,5-)
proof (induction ps arbitrary: u i j)
  case Nil
  have "u = u\<lparr>du_cu := du_cu u\<rparr>" by simp
  then show ?case by (intro exI [of _ "[]"] exI [of _ "du_cu u"]) simp
next
  case (Cons p ps)
  let ?f = "case ps of [] \<Rightarrow> None | q # _ \<Rightarrow> Some q"
  from Cons.prems(1) have env: "align_env (du_cu u) r" "inj r" "\<forall>x. cached (du_cu u) x" "enough (du_cu u) r (pa_type p) n"
    "\<forall>q \<in> set ps. enough (du_cu u) r (pa_type q) n" by (auto simp: params_env_def)
  from analyze_parameter_gcc [OF env(1-4) ab Cons.prems(2-4), of bits ?f] obtain a cu1 j1 where
    one: "reg_align ab (du_cu u) p a"
      "analyze_parameter n bits ab False p ?f j u = Inr (marks ab p (home_index p i a), j1, u\<lparr>du_cu := cu1\<rparr>)"
      "same_place ab (home_index p i a + slots_of ab p) j1" "0 \<le> j1" "0 \<le> home_index p i a"
      "align_env cu1 r" "\<forall>x. cached cu1 x" "same_types (du_cu u) cu1" by blast
  have env1: "params_env n r (du_cu (u\<lparr>du_cu := cu1\<rparr>)) ps"
    using one(6-8) env(2,5) enough_same_types [OF _ one(8)] by (auto simp: params_env_def)
  have "0 \<le> home_index p i a + slots_of ab p" using one(5) slots_pos [OF ab(1), of p] by linarith
  from Cons.IH [OF env1 one(3) this one(4)] obtain as cu2 where
    rest: "list_all2 (reg_align ab cu1) ps as"
      "analyze_parameters n bits ab False ps j1 (u\<lparr>du_cu := cu1\<rparr>) =
         Inr (map2 (marks ab) ps (home_indices ab (zip ps as) (home_index p i a + slots_of ab p)), u\<lparr>du_cu := cu2\<rparr>)"
      "same_types cu1 cu2" by auto
  have "list_all2 (reg_align ab (du_cu u)) ps as"
    using rest(1) reg_align_same [OF _ same_types_sym [OF one(8)]] by (auto intro: list_all2_mono)
  moreover have "home_indices ab (zip (p # ps) (a # as)) i =
      home_index p i a # home_indices ab (zip ps as) (home_index p i a + slots_of ab p)"
    by (simp add: home_index_def rounded_def Let_def)
  ultimately show ?case
    using one(1,2) rest(2) same_types_trans [OF one(8) rest(3)]
    by (intro exI [of _ "a # as"] exI [of _ cu2]) simp
qed



text \<open>
  On arm64, \<open>f(u64 a, __int128 v, u64 b)\<close>: \<open>v\<close> takes x2 and x3, so \<open>b\<close> belongs in x4 and is marked when it is in x3.
\<close>

definition sample_param :: "nat \<Rightarrow> nat \<Rightarrow> int \<Rightarrow> dw_parameter" where
  "sample_param ty sz reg = (fresh_parameter None 0)\<lparr>pa_type := ty, dp_type_byte_size := sz, dp_has_loc := True, dp_loc_reg := reg\<rparr>"

definition arm64_types :: "tag option list" where
  "arm64_types = [None, Some (sample_base ''unsigned long'' 64), Some (sample_base ''__int128'' 128)]"

definition arm64_cu :: cu where "arm64_cu = sample_cu arm64_types"

definition arm64_unit :: dwarf_unit where
  "arm64_unit =
     \<lparr>du_cu = arm64_cu, du_dtags = sample_dtags,
      du_dcu = \<lparr>dc_hash_tags = [], dc_hash_types = [], dc_last_type_lookup = Sentinel\<rparr>, du_type_unit = None, du_alt = None,
      du_imported_units = [], du_allocated_imported_units = 0, du_alt_pus = [], du_allocated_alt_pus = 0,
      du_processing_alt = False\<rparr>"

lemma arm64_types_cu:
  "cu_types arm64_cu i = Some t \<longleftrightarrow>
     i = 1 \<and> t = sample_base ''unsigned long'' 64 \<or> i = 2 \<and> t = sample_base ''__int128'' 128"
proof -
  have "(i :: nat) < 3 \<longleftrightarrow> i = 0 \<or> i = 1 \<or> i = 2" by auto
  then show ?thesis by (auto simp: arm64_cu_def arm64_types_def)
qed

lemma arm64_int128: "cu_types arm64_cu 2 = Some (sample_base ''__int128'' 128)"
  by (simp add: arm64_types_cu)

lemma sample_params_env:
  "params_env 4 id (du_cu arm64_unit) [sample_param 1 8 0x50, sample_param 2 16 0x52, sample_param 1 8 0x53]"
proof -
  have "types_ranked arm64_cu id"
    unfolding types_ranked_def by (auto simp: arm64_types_cu follows_def sample_base_def tag_defs tag__type_def)
  then have "align_env arm64_cu id"
    unfolding arm64_cu_def
    by (intro sample_cu_env)
      (auto simp: arm64_types_def sample_base_def tag_wf_def tag_defs base_type__size_def tag__base_type_def tag__type_def)
  moreover have "cached arm64_cu x" for x
    by (auto simp: cached_def arm64_types_cu sample_base_def tag_defs)
  ultimately show ?thesis
    by (auto simp: params_env_def arm64_unit_def enough_def sample_param_def fresh_parameter_def)
qed

lemma sample_reg_align:
  assumes "reg_align (param_abi_of EM_AARCH64 8 False) arm64_cu (sample_param ty sz reg) a"
  shows "sz \<le> 8 \<Longrightarrow> a = 1" "sz = 16 \<Longrightarrow> ty = 2 \<Longrightarrow> a = 2"
proof -
  have strip: "strips_to arm64_cu 2 q \<Longrightarrow> q = Some 2" for q
    by (erule strips_toE) (simp_all add: arm64_int128 sample_base_def tag_defs)
  have al: "aligned arm64_cu 2 k \<Longrightarrow> k = 16" for k
    by (erule aligned.cases)
      (auto simp: arm64_int128 sample_base_def tag_defs base_type__size_def tag__base_type_def nz_def)
  show "sz \<le> 8 \<Longrightarrow> a = 1"
    using assms by (simp add: reg_align_def param_abi_of_def sample_param_def fresh_parameter_def)
  have own: "\<not> own_bank (sample_base nm bits)" for nm bits by (simp add: own_bank_def sample_base_def)
  assume "sz = 16" "ty = 2"
  with assms have "\<exists>i t. strips_to arm64_cu 2 (Some i) \<and> cu_types arm64_cu i = Some t \<and>
      (if own_bank t then a = 1 else \<exists>k. aligned arm64_cu i k \<and> a = (if 8 < k then 2 else 1))"
  proof -
    have ab: "ab_arg_align_two_regs (param_abi_of EM_AARCH64 8 False)" "ab_addr_size (param_abi_of EM_AARCH64 8 False) = 8"
      "dp_type_byte_size (sample_param 2 16 reg) = 16" "pa_type (sample_param 2 16 reg) = 2"
      by (simp_all add: param_abi_of_def sample_param_def fresh_parameter_def arch__arg_align_two_regs_def)
    have gt: "\<not> ((16 :: nat) \<le> 8)" by simp
    from assms \<open>sz = 16\<close> \<open>ty = 2\<close> show ?thesis
      using strip [of None] gt by (simp only: reg_align_def ab if_False simp_thms) blast
  qed
  then obtain i t where i: "strips_to arm64_cu 2 (Some i)" "cu_types arm64_cu i = Some t"
    "if own_bank t then a = 1 else \<exists>k. aligned arm64_cu i k \<and> a = (if 8 < k then 2 else 1)" by blast
  from strip [OF i(1)] have "i = 2" by simp
  with i(2) arm64_int128 have "t = sample_base ''__int128'' 128" by simp
  with i(3) own obtain k where k: "aligned arm64_cu i k" "a = (if 8 < k then 2 else 1)" by auto
  from al k(1) \<open>i = 2\<close> have "k = 16" by blast
  with k(2) show "a = 2" by simp
qed


text \<open>
  On x86-64 an argument of 24 bytes is passed in memory and takes no register.  The analysis counts one for it, so the
  argument after it, which is in the first register, %rdi, is marked.
\<close>

lemma memory_argument_takes_register:
  defines "big \<equiv> (sample_param 1 24 PARAMETER_UNKNOWN_REG)\<lparr>dp_passed_in_memory := True, dp_loc_stack := True\<rparr>"
  shows "map_sum id (\<lambda>(qs, u). map dp_unexpected_reg qs)
      (function__analyze_parameter_locations 4 1 (param_abi_of EM_X86_64 8 False) False False [big, sample_param 1 8 0x55] arm64_unit)
    = Inr [False, True]"
  by (simp add: big_def function__analyze_parameter_locations_def analyze_parameter_def parameter__abi_slots_def
      parameter__align_reg_idx_def parameter__abi_reg_align_def round_idx_def param_abi_of_def sample_param_def
      fresh_parameter_def arch__agg_use_two_regs_def arch__arg_align_two_regs_def arch__nr_register_params_def
      arch__set_register_params_def reg_at_def DW_OP_reg0_def Let_def)


text \<open>
  What a parameter of the alternate file tells the one it was made from loses the mark that its type is in that file, so
  the type is looked up in the file itself.
\<close>

lemma shared_type_leaves_alt_file:
  "let p = (fresh_parameter None 0)\<lparr>dp_true_sig_member_name := Some ''m'', dp_true_sig_type := 80, dp_true_sig_type_from_alt := True\<rparr>;
       q = parameter__share_state_with_abstract_origin p (fresh_parameter (Some ''s'') 0)
   in dp_true_sig_type q = 80 \<and> \<not> dp_true_sig_type_from_alt q"
  by (simp add: parameter__share_state_with_abstract_origin_def fresh_parameter_def Let_def)

end
