(* ===== verification/Spec2Isabelle.thy ===== *)
theory Spec2Isabelle
  imports Prelude Gobuffer Rbtree Cstring Strlist Bits Objcopy Ptrtable Tags Cu Typesize Holes Alignment Packed Reorganize Languages Bytes Buildid Loader Tagtree CtfRoundtrip FprintfSums Values RecordsRead StructuresAdd Wordsize EmitOnce Features ListRefine StealerStops BtfTypes BtfBitfields CodiffSpec DwarfQueueSpec DwarfMembersSpec DwarfParamsSpec
begin

text \<open>
  Verification of pahole and the dwarves library: the C programs that read the types of a program from
  its debugging information, work out how its structures are laid out in memory, print, compare and
  reorganize them, and emit compilable definitions.

  \<^bold>\<open>How the program is put together.\<close>  A loader (\<open>dwarf_loader.c\<close>, \<open>btf_loader.c\<close>, \<open>ctf_loader.c\<close>)
  turns a file into compilation units (\<open>struct cu\<close>): tables of tags, which refer to each other by index.
  Each unit is handed to the program's \<open>steal\<close> callback; the one of pahole (\<open>pahole_stealer\<close>) filters it,
  looks up the types asked for, searches holes, and prints through \<open>dwarves_fprintf.c\<close>.
  Underneath are the containers: red-black trees, lists, tables of pointers, string lists, buffers.

  \<^bold>\<open>Conventions.\<close>  A structure of C is a record, an enumeration a datatype.  \<open>struct tag\<close> and what embeds
  it is one record with a datatype for its body; a cast to the wrong structure is a fault.  A function
  that can go wrong as a C program returns \<open>fault + result\<close>; what the code itself reports (-ENOMEM, NULL)
  is part of the result.  Unsigned arithmetic is reduced at the width of the code (\<open>u16\<close>, \<open>u32\<close>, \<open>u64\<close>),
  signed values pass through \<open>s32\<close>; bit operations are on words.  \<open>heap_env\<close> says which allocations
  succeed and what fresh memory holds.  What is printed is the string a printer adds to its output.

  \<^bold>\<open>The theories, from the bottom.\<close>
  \<^item> \<open>Prelude\<close>: faults, widths, the allocator, folds that may fail.  \<open>Cstring\<close>, \<open>Bytes\<close>, \<open>Format\<close>:
    string.h, bytes in memory, the conversions of printf.
  \<^item> \<open>Gobuffer\<close> (\<open>gobuffer.c\<close>), \<open>Rbtree\<close> (\<open>rbtree.c\<close>; a pointer to a node is the path to it), \<open>Listh\<close> and
    \<open>ListRefine\<close> (\<open>list.h\<close> in a store of links, refining sequences), \<open>Strlist\<close>, \<open>Bits\<close>, \<open>Objcopy\<close> (\<open>dutil.c\<close>,
    \<open>dutil.h\<close>), \<open>Ptrtable\<close> (\<open>struct ptr_table\<close>).
  \<^item> \<open>Tags\<close>, \<open>Cu\<close>, \<open>Tagtree\<close>: tags, the unit and its tables, lookups by name and address, walks over and
    freeing of trees of tags (\<open>dwarves.c\<close>, \<open>dwarves.h\<close>).
  \<^item> \<open>Typesize\<close>, \<open>Holes\<close>, \<open>Alignment\<close>, \<open>Packed\<close>: sizes through typedefs and modifiers, holes and padding,
    natural alignment, packed structures and flexible arrays.  \<open>Reorganize\<close>: \<open>dwarves_reorganize.c\<close>.
  \<^item> \<open>Languages\<close>, \<open>Buildid\<close>, \<open>Loader\<close>: languages, build ids and the running kernel, the loaders and directories.
  \<^item> \<open>Ctf\<close>, \<open>CtfLoader\<close>, \<open>CtfRoundtrip\<close>: \<open>ctf.h\<close>, \<open>libctf.c\<close>, \<open>ctf_loader.c\<close>, and that what is written is read back.
  \<^item> \<open>BtfLoader\<close>, \<open>BtfTypes\<close>, \<open>BtfBitfields\<close>: \<open>btf_loader.c\<close>, the well-typedness of what it enters, and its
    corrections of bitfields and alignments.
  \<^item> \<open>DwarfQueue\<close>, \<open>DwarfQueueSpec\<close>: the threads of \<open>dwarf_loader.c\<close> and their queue, as steps that interleave; units
    reach the callback in order, and the workers come to an end.  \<open>DwarfMembers\<close>, \<open>DwarfMembersSpec\<close>: what is done to the
    members of a unit at the end, the places of bitfields in particular.
  \<^item> \<open>Codiff\<close>, \<open>CodiffSpec\<close>: the program \<open>codiff.c\<close>, that its counts are those of its marks, and which members it
    calls changed.
  \<^item> \<open>Names\<close>, \<open>Printer\<close>, \<open>Settled\<close>, \<open>Fprintf\<close>, \<open>FprintfCount\<close>, \<open>FprintfSums\<close>: \<open>dwarves_fprintf.c\<close>; what printing
    counts and what it leaves alone, and the sums in the trailer of a structure.
  \<^item> \<open>Emit\<close>, \<open>EmitOnce\<close>: \<open>dwarves_emit.c\<close>.
  \<^item> \<open>Values\<close>, \<open>Proto\<close>, \<open>Records\<close>, \<open>RecordsRead\<close>: raw data as structures, the argument of \<open>--class_name\<close>.
    \<open>Structures\<close>, \<open>StructuresAdd\<close>, \<open>Classes\<close>, \<open>Wordsize\<close>, \<open>Features\<close>, \<open>Stealer\<close>, \<open>StealerStops\<close>: the rest of
    \<open>pahole.c\<close>: the types seen, filters and listings, \<open>--word_size\<close>, \<open>--btf_features\<close>, and \<open>pahole_stealer\<close>.

  \<^bold>\<open>What is proved.\<close>  Containers: order and balance of red-black trees under insertion and erasure, lists as
  sequences, consecutive ids, no overflow of the argument vector.  Layout: holes and padding account for
  every bit, inferred packing, alignment, reorganizing permutes the members and keeps them apart.
  Printing: counts, sums that agree with the size, names that stay in their buffer.  Formats: CTF
  and prototypes are read back as written, BTF types become tags of their kind, bitfields are exactly their bits.  Programs: each type is listed
  once and in order, defined once, asked for until it is found.  Threads: order, a bound on memory, no deadlock.

  \<^bold>\<open>Bounds.\<close>  A walk through types may meet a cycle in a malformed file, so walks have fuel and
  running out of it is a fault of its own.  Statements that an operation succeeds name the fuel; the
  others hold for every fuel for which there is a result.  Loops over lists and tables end by themselves,
  or are given as much fuel as they have elements.

  \<^bold>\<open>Not modelled.\<close>  The loader of DWARF (\<open>dwarf_loader.c\<close>) reads entries through elfutils on almost every line
  (of it the queue of its threads is modelled); the encoder of BTF (\<open>btf_encoder.c\<close>) works on types of libbpf.
  The other programs (\<open>pfunct.c\<close>, \<open>ctracer.c\<close>, \<open>pglobal.c\<close>, \<open>prefcnt.c\<close>, \<open>pdwtags.c\<close>, \<open>syscse.c\<close>,
  \<open>scncopy.c\<close>, \<open>dtagnames.c\<close>) are mains over the same library; \<open>ctf_encoder.c\<close> and \<open>ctf__encode\<close> are disabled in the
  source, \<open>elfcreator.c\<close> and \<open>elf_symtab.c\<close> only call libelf.  Of \<open>pahole.c\<close> the table of options, their
  parser and \<open>main\<close> are left out, as are messages on standard error and locks.
\<close>

end
